(* ===== verification/Prelude.thy ===== *)
theory Prelude
  imports Main "HOL-Library.Signed_Division" "HOL-Library.Char_ord" "HOL-Library.List_Lexorder"
begin

text \<open>
  Shared ground of the development: the result type of the fallible Rust functions and its
  sequencing operator (the question-mark operator of the source), the loop combinators for
  \<^verbatim>\<open>for\<close> loops with early return, and the fixed-width integer ranges with the checked and
  wrapping operations the crates use.

  Every error type of the modelled crates (\<^verbatim>\<open>DecimalError\<close>, \<^verbatim>\<open>DomainError\<close>,
  \<^verbatim>\<open>ExecutionError\<close>, \<^verbatim>\<open>RiskError\<close>, \<^verbatim>\<open>EngineError\<close>, \<^verbatim>\<open>PaperError\<close>) is a newtype around a
  message string, and each \<^verbatim>\<open>From\<close> conversion between them keeps the message. The model
  therefore has one error type, and the conversions are the identity.
\<close>

section \<open>Results\<close>

datatype error = Error (error_message: string)

type_synonym 'a result = "error + 'a"

abbreviation Ok :: "'a \<Rightarrow> 'a result" where
  "Ok x \<equiv> Inr x"

abbreviation Err :: "string \<Rightarrow> 'a result" where
  "Err m \<equiv> Inl (Error m)"

named_theorems result_simps "when a fallible computation succeeds, and with what"

definition and_then :: "'e + 'a \<Rightarrow> ('a \<Rightarrow> 'e + 'b) \<Rightarrow> 'e + 'b" where
  "and_then r f = (case r of Inl e \<Rightarrow> Inl e | Inr x \<Rightarrow> f x)"

definition is_ok :: "'e + 'a \<Rightarrow> bool" where
  "is_ok r = (case r of Inl _ \<Rightarrow> False | Inr _ \<Rightarrow> True)"

lemma and_then_Inl [simp]: "and_then (Inl e) f = Inl e"
  by (simp add: and_then_def)

lemma and_then_Inr [simp]: "and_then (Inr x) f = f x"
  by (simp add: and_then_def)

lemma and_then_eq_Inr [result_simps]:
  "and_then r f = Inr y \<longleftrightarrow> (\<exists>x. r = Inr x \<and> f x = Inr y)"
  by (cases r) auto

lemma and_then_eq_Inl:
  "and_then r f = Inl e \<longleftrightarrow> r = Inl e \<or> (\<exists>x. r = Inr x \<and> f x = Inl e)"
  by (cases r) auto

lemma and_then_cong [fundef_cong]:
  "r = r' \<Longrightarrow> (\<And>x. r' = Inr x \<Longrightarrow> f x = g x) \<Longrightarrow> and_then r f = and_then r' g"
  by (cases r') auto

lemma is_ok_simps [simp]: "is_ok (Inr x)" "\<not> is_ok (Inl e)"
  by (simp_all add: is_ok_def)

lemma is_ok_iff: "is_ok r \<longleftrightarrow> (\<exists>x. r = Inr x)"
  by (cases r) auto

lemma is_ok_unit: "is_ok r \<longleftrightarrow> r = Inr ()"
  by (cases r) auto

lemma if_Err_eq_Ok [result_simps]:
  "(if b then Err m else r) = Inr y \<longleftrightarrow> \<not> b \<and> r = Inr y"
  by simp

text \<open>\<^verbatim>\<open>ok_or_else\<close> turns an absent value into an error.\<close>

definition ok_or :: "'a option \<Rightarrow> string \<Rightarrow> 'a result" where
  "ok_or x m = (case x of None \<Rightarrow> Err m | Some v \<Rightarrow> Ok v)"

lemma ok_or_simps [simp]: "ok_or None m = Err m" "ok_or (Some v) m = Ok v"
  by (simp_all add: ok_or_def)

lemma ok_or_eq_Ok [result_simps]: "ok_or x m = Inr v \<longleftrightarrow> x = Some v"
  by (cases x) auto

section \<open>Loops with early return\<close>

text \<open>
  \<open>try_fold f xs s\<close> is \<^verbatim>\<open>for x in xs { s = f(x, s)?; }\<close>, \<open>try_map f xs\<close> is
  \<^verbatim>\<open>xs.iter().map(f).collect::<Result<Vec<_>, _>>()\<close>, and \<open>try_each f xs\<close> is a loop whose
  body only checks.
\<close>

fun try_fold :: "('x \<Rightarrow> 's \<Rightarrow> 'e + 's) \<Rightarrow> 'x list \<Rightarrow> 's \<Rightarrow> 'e + 's" where
  "try_fold f [] s = Inr s"
| "try_fold f (x # xs) s = and_then (f x s) (try_fold f xs)"

fun try_map :: "('x \<Rightarrow> 'e + 'y) \<Rightarrow> 'x list \<Rightarrow> 'e + 'y list" where
  "try_map f [] = Inr []"
| "try_map f (x # xs) = and_then (f x) (\<lambda>y. and_then (try_map f xs) (\<lambda>ys. Inr (y # ys)))"

fun try_each :: "('x \<Rightarrow> 'e + unit) \<Rightarrow> 'x list \<Rightarrow> 'e + unit" where
  "try_each f [] = Inr ()"
| "try_each f (x # xs) = and_then (f x) (\<lambda>_. try_each f xs)"

lemma try_fold_cong [fundef_cong]:
  "xs = ys \<Longrightarrow> s = t \<Longrightarrow> (\<And>x u. x \<in> set ys \<Longrightarrow> f x u = g x u) \<Longrightarrow>
    try_fold f xs s = try_fold g ys t"
proof (induction ys arbitrary: xs s t)
  case (Cons y ys)
  then have "try_fold f ys = try_fold g ys" by (intro ext) simp
  with Cons.prems show ?case by simp
qed simp

lemma try_fold_append:
  "try_fold f (xs @ ys) s = and_then (try_fold f xs s) (try_fold f ys)"
proof (induction xs arbitrary: s)
  case (Cons x xs)
  then show ?case by (cases "f x s") auto
qed simp

lemma try_fold_invariant:
  assumes "try_fold f xs s = Inr t" and "P s"
    and "\<And>x u v. x \<in> set xs \<Longrightarrow> P u \<Longrightarrow> f x u = Inr v \<Longrightarrow> P v"
  shows "P t"
  using assms
proof (induction xs arbitrary: s)
  case (Cons x xs)
  from Cons.prems(1) obtain v where v: "f x s = Inr v" and rest: "try_fold f xs v = Inr t"
    by (auto simp: and_then_eq_Inr)
  show ?case
    by (rule Cons.IH [OF rest]) (use Cons.prems v in auto)
qed simp

lemma try_fold_invariant_prefix:
  assumes "try_fold f xs s = Inr t" and "P [] s"
    and "\<And>ys x u v. \<exists>zs. xs = ys @ x # zs \<Longrightarrow> P ys u \<Longrightarrow> f x u = Inr v \<Longrightarrow> P (ys @ [x]) v"
  shows "P xs t"
  using assms
proof (induction xs arbitrary: t rule: rev_induct)
  case (snoc x xs)
  from snoc.prems(1) obtain u where u: "try_fold f xs s = Inr u" "f x u = Inr t"
    by (auto simp: try_fold_append and_then_eq_Inr)
  have "P xs u"
    by (rule snoc.IH [OF u(1) snoc.prems(2)]) (use snoc.prems(3) in \<open>metis append_Cons append_assoc\<close>)
  with snoc.prems(3) u(2) show ?case by blast
qed simp

text \<open>A loop over a compound state also runs the loop over one of its components.\<close>

lemma try_fold_project:
  assumes "\<And>x s t. x \<in> set xs \<Longrightarrow> f x s = Inr t \<Longrightarrow> g x (part s) = Inr (part t)"
    and "try_fold f xs s = Inr t"
  shows "try_fold g xs (part s) = Inr (part t)"
  using assms
proof (induction xs arbitrary: s)
  case (Cons x xs)
  from Cons.prems(2) obtain u where u: "f x s = Inr u" "try_fold f xs u = Inr t"
    by (auto simp: and_then_eq_Inr)
  have "g x (part s) = Inr (part u)" by (rule Cons.prems(1)) (use u in simp_all)
  moreover have "try_fold g xs (part u) = Inr (part t)"
    by (rule Cons.IH) (use Cons.prems(1) u in simp_all)
  ultimately show ?case by simp
qed simp

lemma try_fold_sum:
  fixes val :: "'s \<Rightarrow> int"
  assumes "\<And>x s t. x \<in> set xs \<Longrightarrow> f x s = Inr t \<Longrightarrow> val t = val s + w x"
    and "try_fold f xs s = Inr t"
  shows "val t = val s + (\<Sum>x\<leftarrow>xs. w x)"
  using assms
proof (induction xs arbitrary: s)
  case (Cons x xs)
  from Cons.prems(2) obtain u where u: "f x s = Inr u" "try_fold f xs u = Inr t"
    by (auto simp: and_then_eq_Inr)
  have "val u = val s + w x" by (rule Cons.prems(1)) (use u in simp_all)
  moreover have "val t = val u + (\<Sum>x\<leftarrow>xs. w x)"
    by (rule Cons.IH) (use Cons.prems(1) u in simp_all)
  ultimately show ?case by simp
qed simp

text \<open>A loop that ends without error has run its body on every element without error.\<close>

lemma try_fold_each:
  "try_fold f xs s = Inr t \<Longrightarrow> x \<in> set xs \<Longrightarrow> \<exists>u v. f x u = Inr v"
  by (induction xs arbitrary: s) (auto simp: and_then_eq_Inr)

lemma try_map_eq_Inr [result_simps]:
  "try_map f xs = Inr ys \<longleftrightarrow> list_all2 (\<lambda>x y. f x = Inr y) xs ys"
  by (induction xs arbitrary: ys) (auto simp: and_then_eq_Inr list_all2_Cons1)

lemma try_each_eq_Inr [result_simps]:
  "try_each f xs = Inr u \<longleftrightarrow> (\<forall>x\<in>set xs. f x = Inr ())"
  by (induction xs) (auto simp: and_then_eq_Inr)

text \<open>\<open>enumerate\<close> pairs each element with its position.\<close>

definition enumerate0 :: "'a list \<Rightarrow> (nat \<times> 'a) list" where
  "enumerate0 xs = zip [0..<length xs] xs"

lemma enumerate0_Nil [simp]: "enumerate0 [] = []"
  by (simp add: enumerate0_def)

lemma length_enumerate0 [simp]: "length (enumerate0 xs) = length xs"
  by (simp add: enumerate0_def)

lemma map_snd_enumerate0 [simp]: "map snd (enumerate0 xs) = xs"
  by (simp add: enumerate0_def)

lemma enumerate0_snoc: "enumerate0 (xs @ [x]) = enumerate0 xs @ [(length xs, x)]"
  by (simp add: enumerate0_def)

lemma nth_enumerate0 [simp]: "i < length xs \<Longrightarrow> enumerate0 xs ! i = (i, xs ! i)"
  by (simp add: enumerate0_def)

lemma set_enumerate0D: "(i, x) \<in> set (enumerate0 xs) \<Longrightarrow> i < length xs \<and> x = xs ! i"
  by (auto simp: enumerate0_def in_set_zip)

text \<open>\<^verbatim>\<open>Vec::dedup\<close> drops an element equal to the one kept before it.\<close>

definition dedup :: "'a list \<Rightarrow> 'a list" where
  "dedup xs = remdups_adj xs"

lemma set_dedup [simp]: "set (dedup xs) = set xs"
  by (simp add: dedup_def)

lemma dedup_eq_Nil [simp]: "dedup xs = [] \<longleftrightarrow> xs = []"
  by (simp add: dedup_def)

lemma sort_eq_Nil [simp]: "sort_key f xs = [] \<longleftrightarrow> xs = []"
  by (metis length_0_conv length_sort)

section \<open>Methods on mutable state\<close>

text \<open>
  A method with \<^verbatim>\<open>&mut self\<close> is a function from the state to a result and the state it leaves, also
  when it fails. \<open>op_bind\<close> is the question-mark operator of such methods: what was assigned before
  the error stays assigned. \<open>op_lift\<close> runs a pure fallible step, \<open>op_get\<close> reads, \<open>op_modify\<close> assigns,
  \<open>op_on\<close> calls a method of a field.
\<close>

type_synonym ('s, 'a) op = "'s \<Rightarrow> 'a result \<times> 's"

definition op_bind :: "('s, 'a) op \<Rightarrow> ('a \<Rightarrow> ('s, 'b) op) \<Rightarrow> ('s, 'b) op" where
  "op_bind m f s = (case m s of (Inl e, t) \<Rightarrow> (Inl e, t) | (Inr x, t) \<Rightarrow> f x t)"

definition op_return :: "'a \<Rightarrow> ('s, 'a) op" where
  "op_return x s = (Ok x, s)"

definition op_lift :: "'a result \<Rightarrow> ('s, 'a) op" where
  "op_lift r s = (r, s)"

definition op_get :: "('s \<Rightarrow> 'a) \<Rightarrow> ('s, 'a) op" where
  "op_get g s = (Ok (g s), s)"

definition op_modify :: "('s \<Rightarrow> 's) \<Rightarrow> ('s, unit) op" where
  "op_modify g s = (Ok (), g s)"

definition op_on :: "('s \<Rightarrow> 'f) \<Rightarrow> (('f \<Rightarrow> 'f) \<Rightarrow> 's \<Rightarrow> 's) \<Rightarrow> ('f, 'a) op \<Rightarrow> ('s, 'a) op" where
  "op_on get_field update_field m s = (case m (get_field s) of (r, t) \<Rightarrow> (r, update_field (\<lambda>_. t) s))"

text \<open>A \<^verbatim>\<open>for\<close> loop over such methods.\<close>

fun op_each :: "('x \<Rightarrow> ('s, unit) op) \<Rightarrow> 'x list \<Rightarrow> ('s, unit) op" where
  "op_each f [] = op_return ()"
| "op_each f (x # xs) = op_bind (f x) (\<lambda>_. op_each f xs)"

lemma op_simps [simp]:
  "op_return x s = (Ok x, s)" "op_lift r s = (r, s)" "op_get g s = (Ok (g s), s)" "op_modify h s = (Ok (), h s)"
  by (simp_all add: op_return_def op_lift_def op_get_def op_modify_def)

lemma op_bind_simps [simp]:
  "m s = (Inl e, t) \<Longrightarrow> op_bind m f s = (Inl e, t)"
  "m s = (Inr x, t) \<Longrightarrow> op_bind m f s = f x t"
  by (simp_all add: op_bind_def)

lemma op_bind_basic [simp]:
  "op_bind (op_get g) f s = f (g s) s" "op_bind (op_return x) f s = f x s"
  "op_bind (op_modify h) k s = k () (h s)" "op_bind (op_lift (Inr x)) f s = f x s"
  "op_bind (op_lift (Inl e)) f s = (Inl e, s)"
  by (simp_all add: op_bind_def)

lemma op_if_apply [simp]: "(if b then m else n) s = (if b then m s else (n s :: 'a result \<times> 's))"
  by simp

lemma op_bind_eq_Ok [result_simps]:
  "op_bind m f s = (Inr y, t) \<longleftrightarrow> (\<exists>x u. m s = (Inr x, u) \<and> f x u = (Inr y, t))"
  by (auto simp: op_bind_def split: prod.splits sum.splits)

lemma op_bind_eq_Err:
  "op_bind m f s = (Inl e, t) \<longleftrightarrow> m s = (Inl e, t) \<or> (\<exists>x u. m s = (Inr x, u) \<and> f x u = (Inl e, t))"
  by (auto simp: op_bind_def split: prod.splits sum.splits)

lemma op_on_eq [result_simps]:
  "op_on get_field update_field m s = (r, t) \<longleftrightarrow> (\<exists>u. m (get_field s) = (r, u) \<and> t = update_field (\<lambda>_. u) s)"
  by (auto simp: op_on_def split: prod.splits)

text \<open>\<open>op_keeps P m\<close>: the method keeps an invariant whether it succeeds or fails.\<close>

definition op_keeps :: "('s \<Rightarrow> bool) \<Rightarrow> ('s, 'a) op \<Rightarrow> bool" where
  "op_keeps P m \<longleftrightarrow> (\<forall>s. P s \<longrightarrow> P (snd (m s)))"

named_theorems op_keeps_intros "how methods keep an invariant"

lemma op_keepsD: "op_keeps P m \<Longrightarrow> P s \<Longrightarrow> m s = (r, t) \<Longrightarrow> P t"
  by (auto simp: op_keeps_def)

lemma op_keeps_bind [op_keeps_intros]:
  "op_keeps P m \<Longrightarrow> (\<And>x. op_keeps P (f x)) \<Longrightarrow> op_keeps P (op_bind m f)"
  unfolding op_keeps_def op_bind_def by (auto split: prod.splits sum.splits)

lemma op_keeps_basic [op_keeps_intros]:
  "op_keeps P (op_return x)" "op_keeps P (op_lift r)" "op_keeps P (op_get g)"
  by (simp_all add: op_keeps_def)

lemma op_keeps_modify [op_keeps_intros]: "(\<And>s. P s \<Longrightarrow> P (h s)) \<Longrightarrow> op_keeps P (op_modify h)"
  by (simp add: op_keeps_def)

lemma op_keeps_if [op_keeps_intros]:
  "(b \<Longrightarrow> op_keeps P m) \<Longrightarrow> (\<not> b \<Longrightarrow> op_keeps P n) \<Longrightarrow> op_keeps P (if b then m else n)"
  by simp

lemma op_keeps_option [op_keeps_intros]:
  "(x = None \<Longrightarrow> op_keeps P m) \<Longrightarrow> (\<And>v. x = Some v \<Longrightarrow> op_keeps P (f v)) \<Longrightarrow>
    op_keeps P (case x of None \<Rightarrow> m | Some v \<Rightarrow> f v)"
  by (cases x) simp_all

lemma op_keeps_split [op_keeps_intros]:
  "(\<And>x y. op_keeps P (f x y)) \<Longrightarrow> op_keeps P (case p of (x, y) \<Rightarrow> f x y)"
  by (cases p) simp

section \<open>Machine integers\<close>

text \<open>
  Amounts are \<^verbatim>\<open>i128\<close> values on which the code uses checked operations only, so they are
  integers with the range test written out. \<open>i128_wrap\<close> is what an unchecked operation
  computes in the release profile (\<^verbatim>\<open>Cargo.toml\<close> leaves overflow checks off there).
  Rust's \<^verbatim>\<open>/\<close> and \<^verbatim>\<open>%\<close> truncate towards zero: \<open>sdiv\<close> and \<open>smod\<close> of the library.
\<close>

definition in_i128 :: "int \<Rightarrow> bool" where
  "in_i128 x \<longleftrightarrow> - (2 ^ 127) \<le> x \<and> x < 2 ^ 127"

definition i128_wrap :: "int \<Rightarrow> int" where
  "i128_wrap x = (x + 2 ^ 127) mod 2 ^ 128 - 2 ^ 127"

definition i64_wrap :: "int \<Rightarrow> int" where
  "i64_wrap x = (x + 2 ^ 63) mod 2 ^ 64 - 2 ^ 63"

definition in_i64 :: "int \<Rightarrow> bool" where
  "in_i64 x \<longleftrightarrow> - (2 ^ 63) \<le> x \<and> x < 2 ^ 63"

definition i128_checked :: "int \<Rightarrow> int option" where
  "i128_checked x = (if in_i128 x then Some x else None)"

definition i64_checked :: "int \<Rightarrow> int option" where
  "i64_checked x = (if in_i64 x then Some x else None)"

definition u32_checked :: "nat \<Rightarrow> nat option" where
  "u32_checked n = (if n < 2 ^ 32 then Some n else None)"

definition u64_checked :: "nat \<Rightarrow> nat option" where
  "u64_checked n = (if n < 2 ^ 64 then Some n else None)"

definition u64_wrap :: "nat \<Rightarrow> nat" where
  "u64_wrap n = n mod 2 ^ 64"

definition u32_saturating_add :: "nat \<Rightarrow> nat \<Rightarrow> nat" where
  "u32_saturating_add a b = min (a + b) (2 ^ 32 - 1)"

lemma i128_checked_eq_Some [result_simps]: "i128_checked x = Some y \<longleftrightarrow> in_i128 x \<and> y = x"
  by (auto simp: i128_checked_def)

lemma i64_checked_eq_Some [result_simps]: "i64_checked x = Some y \<longleftrightarrow> in_i64 x \<and> y = x"
  by (auto simp: i64_checked_def)

lemma u32_checked_eq_Some [result_simps]: "u32_checked n = Some m \<longleftrightarrow> n < 2 ^ 32 \<and> m = n"
  by (auto simp: u32_checked_def)

lemma u64_checked_eq_Some [result_simps]: "u64_checked n = Some m \<longleftrightarrow> n < 2 ^ 64 \<and> m = n"
  by (auto simp: u64_checked_def)

lemma in_i128_0 [simp]: "in_i128 0"
  by (simp add: in_i128_def)

lemma in_i128_between: "in_i128 a \<Longrightarrow> in_i128 b \<Longrightarrow> a \<le> x \<Longrightarrow> x \<le> b \<Longrightarrow> in_i128 x"
  by (auto simp: in_i128_def)

lemma i128_wrap_id [simp]: "in_i128 x \<Longrightarrow> i128_wrap x = x"
  by (simp add: i128_wrap_def in_i128_def)

lemma i64_wrap_id [simp]: "in_i64 x \<Longrightarrow> i64_wrap x = x"
  by (simp add: i64_wrap_def in_i64_def)

lemma in_i128_wrap: "in_i128 (i128_wrap x)"
proof -
  have "0 \<le> (x + 2 ^ 127) mod 2 ^ 128" "(x + 2 ^ 127) mod 2 ^ 128 < (2 :: int) ^ 128"
    by (rule pos_mod_sign, simp, rule pos_mod_bound, simp)
  then show ?thesis by (simp add: i128_wrap_def in_i128_def)
qed

lemma sdiv_nonneg_eq_div: "0 \<le> a \<Longrightarrow> 0 < b \<Longrightarrow> a sdiv b = a div (b :: int)"
  by (cases "a = 0") (simp_all add: signed_divide_int_def)

lemma smod_nonneg_eq_mod: "0 \<le> a \<Longrightarrow> 0 < b \<Longrightarrow> a smod b = a mod (b :: int)"
  by (cases "a = 0") (simp_all add: signed_modulo_int_def)

lemma abs_sdiv_le: "0 < b \<Longrightarrow> \<bar>a sdiv b\<bar> \<le> \<bar>a :: int\<bar>"
proof -
  assume "0 < b"
  then have "\<bar>a\<bar> div b \<le> \<bar>a\<bar>" "0 \<le> \<bar>a\<bar> div b"
    using int_div_le_self [of "\<bar>a\<bar>" b] by (cases "a = 0", simp_all add: pos_imp_zdiv_nonneg_iff)
  with \<open>0 < b\<close> show ?thesis by (auto simp: signed_divide_int_def abs_mult sgn_if)
qed

lemma smod_eq_0_iff_dvd: "a smod b = 0 \<longleftrightarrow> b dvd (a :: int)"
proof (cases "a = 0")
  case False
  then have "a smod b = 0 \<longleftrightarrow> \<bar>a\<bar> mod \<bar>b\<bar> = 0"
    by (auto simp: signed_modulo_int_def sgn_eq_0_iff)
  then show ?thesis by (simp add: mod_eq_0_iff_dvd)
qed (simp add: signed_modulo_int_def)

lemma mult_sdiv_cancel [simp]: "b \<noteq> 0 \<Longrightarrow> a * b sdiv b = (a :: int)"
proof -
  assume "b \<noteq> 0"
  moreover have "a * b smod b = 0" by (simp add: smod_eq_0_iff_dvd)
  ultimately show ?thesis using sdiv_mult_smod_eq [of "a * b" b] by simp
qed

end
