(* ===== verification/OrderedMap.thy ===== *)
theory OrderedMap
  imports Prelude
begin

text \<open>
  \<^verbatim>\<open>BTreeMap\<close> and \<^verbatim>\<open>BTreeSet\<close> of the Rust standard library as key-sorted lists, so that
  iteration order is the list's order, and the contract the crates rely on as a locale. The
  lemma on accumulation loops, which the risk and cost-analysis crates use for every bucket
  total, is proved once against the contract.
\<close>

type_synonym ('k, 'v) btree_map = "('k \<times> 'v) list"

definition bt_sorted :: "('k::linorder, 'v) btree_map \<Rightarrow> bool" where
  "bt_sorted m \<longleftrightarrow> sorted_wrt (<) (map fst m)"

fun bt_get :: "('k::linorder, 'v) btree_map \<Rightarrow> 'k \<Rightarrow> 'v option" where
  "bt_get [] k = None"
| "bt_get ((k', v) # m) k = (if k' = k then Some v else bt_get m k)"

fun bt_insert :: "'k::linorder \<Rightarrow> 'v \<Rightarrow> ('k, 'v) btree_map \<Rightarrow> ('k, 'v) btree_map" where
  "bt_insert k v [] = [(k, v)]"
| "bt_insert k v ((k', v') # m) =
     (if k < k' then (k, v) # (k', v') # m
      else if k = k' then (k, v) # m
      else (k', v') # bt_insert k v m)"

text \<open>A \<^verbatim>\<open>BTreeSet\<close>: \<open>bs_insert\<close> is the set after \<^verbatim>\<open>insert\<close>, whose boolean result is
  \<open>\<not> bs_contains\<close> before it.\<close>

type_synonym 'k btree_set = "'k list"

definition bs_sorted :: "'k::linorder btree_set \<Rightarrow> bool" where
  "bs_sorted s \<longleftrightarrow> sorted_wrt (<) s"

definition bs_contains :: "'k \<Rightarrow> 'k btree_set \<Rightarrow> bool" where
  "bs_contains k s \<longleftrightarrow> k \<in> set s"

fun bs_insert :: "'k::linorder \<Rightarrow> 'k btree_set \<Rightarrow> 'k btree_set" where
  "bs_insert k [] = [k]"
| "bs_insert k (k' # s) =
     (if k < k' then k # k' # s else if k = k' then k' # s else k' # bs_insert k s)"

definition bs_remove :: "'k \<Rightarrow> 'k btree_set \<Rightarrow> 'k btree_set" where
  "bs_remove k s = filter (\<lambda>x. x \<noteq> k) s"

lemma set_bs_insert [simp]: "set (bs_insert k s) = insert k (set s)"
  by (induction k s rule: bs_insert.induct) auto

lemma bs_sorted_Nil [simp]: "bs_sorted []"
  by (simp add: bs_sorted_def)

lemma bs_sorted_single [simp]: "bs_sorted [k]"
  by (simp add: bs_sorted_def)

lemma bs_sorted_insert: "bs_sorted s \<Longrightarrow> bs_sorted (bs_insert k s)"
  unfolding bs_sorted_def
  by (induction k s rule: bs_insert.induct) (auto simp: not_less le_less)

lemma set_bs_remove [simp]: "set (bs_remove k s) = set s - {k}"
  by (auto simp: bs_remove_def)

lemma bs_sorted_remove: "bs_sorted s \<Longrightarrow> bs_sorted (bs_remove k s)"
  by (simp add: bs_sorted_def bs_remove_def sorted_wrt_filter)

lemma bs_contains_insert [simp]: "bs_contains x (bs_insert k s) \<longleftrightarrow> x = k \<or> bs_contains x s"
  by (auto simp: bs_contains_def)

lemma bs_sorted_distinct: "bs_sorted s \<Longrightarrow> distinct s"
  unfolding bs_sorted_def by (metis strict_sorted_iff)

lemma bs_sorted_ext: "bs_sorted s \<Longrightarrow> bs_sorted t \<Longrightarrow> set s = set t \<Longrightarrow> s = t"
  unfolding bs_sorted_def by (metis sorted_list_of_set.idem_if_sorted_distinct strict_sorted_iff)

lemma bs_insert_length: "length (bs_insert k s) \<le> Suc (length s)"
  by (induction k s rule: bs_insert.induct) auto

section \<open>The map contract\<close>

locale ordered_map =
  fixes empty :: "'m"
    and get :: "'m \<Rightarrow> 'k::linorder \<Rightarrow> 'v option"
    and insert :: "'k \<Rightarrow> 'v \<Rightarrow> 'm \<Rightarrow> 'm"
    and entries :: "'m \<Rightarrow> ('k \<times> 'v) list"
    and wf :: "'m \<Rightarrow> bool"
  assumes get_empty: "get empty k = None"
    and get_insert: "get (insert k v m) k' = (if k' = k then Some v else get m k')"
    and wf_empty: "wf empty"
    and wf_insert: "wf m \<Longrightarrow> wf (insert k v m)"
    and entries_sorted: "wf m \<Longrightarrow> sorted_wrt (<) (map fst (entries m))"
    and entries_get: "wf m \<Longrightarrow> (k, v) \<in> set (entries m) \<longleftrightarrow> get m k = Some v"
begin

lemma entries_distinct: "wf m \<Longrightarrow> distinct (map fst (entries m))"
  using entries_sorted by (metis strict_sorted_iff)

lemma accumulate:
  fixes val :: "'v \<Rightarrow> int"
  assumes exact: "\<And>a b c. add a b = Inr c \<Longrightarrow> val c = val a + val b"
    and zero: "\<And>k. val (z k) = 0"
    and loop: "try_fold (\<lambda>x m. and_then (add (case get m (key x) of None \<Rightarrow> z (key x) | Some v \<Rightarrow> v) (amt x))
                 (\<lambda>v. Inr (insert (key x) v m))) xs m = Inr m'"
    and wf: "wf m"
  shows "wf m' \<and>
    val (case get m' k of None \<Rightarrow> z k | Some v \<Rightarrow> v) =
      val (case get m k of None \<Rightarrow> z k | Some v \<Rightarrow> v)
      + (\<Sum>x \<leftarrow> filter (\<lambda>x. key x = k) xs. val (amt x)) \<and>
    (get m' k = None \<longleftrightarrow> get m k = None \<and> (\<forall>x\<in>set xs. key x \<noteq> k))"
  using loop wf
proof (induction xs arbitrary: m)
  case Nil
  then show ?case by simp
next
  case (Cons x xs)
  from Cons.prems(1) obtain v where
    v: "add (case get m (key x) of None \<Rightarrow> z (key x) | Some v \<Rightarrow> v) (amt x) = Inr v" and
    rest: "try_fold (\<lambda>x m. and_then (add (case get m (key x) of None \<Rightarrow> z (key x) | Some v \<Rightarrow> v) (amt x))
                 (\<lambda>v. Inr (insert (key x) v m))) xs (insert (key x) v m) = Inr m'"
    by (auto simp: and_then_eq_Inr)
  from Cons.IH [OF rest wf_insert [OF Cons.prems(2)]] exact [OF v] show ?case
    by (auto simp: get_insert)
qed

end

text \<open>The sorted lists satisfy the contract.\<close>

lemma bt_get_insert: "bt_get (bt_insert k v m) k' = (if k' = k then Some v else bt_get m k')"
  by (induction k v m rule: bt_insert.induct) auto

lemma fst_set_bt_insert: "fst ` set (bt_insert k v m) = insert k (fst ` set m)"
  by (induction k v m rule: bt_insert.induct) auto

lemma bt_sorted_insert: "bt_sorted m \<Longrightarrow> bt_sorted (bt_insert k v m)"
  unfolding bt_sorted_def
proof (induction k v m rule: bt_insert.induct)
  case (2 k v k' v' m)
  have "set (map fst (bt_insert k v m)) = insert k (set (map fst m))"
    using fst_set_bt_insert [of k v m] by simp
  with 2 show ?case by (auto simp: not_less le_less simp del: set_map)
qed simp

lemma bt_get_iff: "bt_sorted m \<Longrightarrow> (k, v) \<in> set m \<longleftrightarrow> bt_get m k = Some v"
  unfolding bt_sorted_def
  by (induction m k rule: bt_get.induct) force+

interpretation bt: ordered_map "[]" bt_get bt_insert "\<lambda>m. m" bt_sorted
  by unfold_locales
    (auto simp: bt_get_insert bt_sorted_insert bt_get_iff, auto simp: bt_sorted_def)

lemma bt_get_mem: "bt_sorted m \<Longrightarrow> bt_get m k = None \<longleftrightarrow> k \<notin> fst ` set m"
  by (metis (no_types, lifting) bt_get_iff imageE imageI fst_conv not_Some_eq prod.collapse)

section \<open>Removal, totals over entries, mapping over values\<close>

definition bt_remove :: "'k \<Rightarrow> ('k, 'v) btree_map \<Rightarrow> ('k, 'v) btree_map" where
  "bt_remove k m = filter (\<lambda>e. fst e \<noteq> k) m"

lemma bt_sorted_remove: "bt_sorted m \<Longrightarrow> bt_sorted (bt_remove k m)"
  unfolding bt_sorted_def bt_remove_def by (simp add: sorted_wrt_map sorted_wrt_filter)

lemma bt_get_remove: "bt_get (bt_remove k m) k' = (if k' = k then None else bt_get m k')"
  by (induction m) (auto simp: bt_remove_def)

definition bt_sum :: "('k \<Rightarrow> 'v \<Rightarrow> int) \<Rightarrow> ('k, 'v) btree_map \<Rightarrow> int" where
  "bt_sum w m = (\<Sum>(k, v)\<leftarrow>m. w k v)"

lemma bt_sum_Nil [simp]: "bt_sum w [] = 0"
  by (simp add: bt_sum_def)

lemma bt_get_below: "bt_sorted ((k', v') # m) \<Longrightarrow> k < k' \<Longrightarrow> bt_get ((k', v') # m) k = None"
  by (auto simp: bt_sorted_def bt_get_mem)

lemma bt_sum_insert:
  "bt_sorted m \<Longrightarrow> bt_sum w (bt_insert k v m) =
     bt_sum w m + w k v - (case bt_get m k of None \<Rightarrow> 0 | Some u \<Rightarrow> w k u)"
proof (induction k v m rule: bt_insert.induct)
  case (2 k v k' v' m)
  have "bt_sorted m" using 2(2) by (simp add: bt_sorted_def)
  with 2 show ?case
    using bt_get_below [OF 2(2), of k] by (auto simp: bt_sum_def split: option.splits)
qed (simp add: bt_sum_def)

lemma bt_entries: "bt_sorted m \<Longrightarrow> m = map (\<lambda>k. (k, the (bt_get m k))) (map fst m)"
  by (auto simp: bt_get_iff intro!: map_idI [symmetric])

lemma bt_ext:
  assumes "bt_sorted m" "bt_sorted n" "\<And>k. bt_get m k = bt_get n k"
  shows "m = n"
proof -
  have "set m = set n"
    using assms(3) bt_get_iff [OF assms(1)] bt_get_iff [OF assms(2)] by (auto simp: set_eq_iff)
  then have "set (map fst m) = set (map fst n)" by simp
  moreover have "sorted_wrt (<) (map fst m)" "sorted_wrt (<) (map fst n)"
    using assms(1,2) unfolding bt_sorted_def .
  ultimately have "map fst m = map fst n"
    by (metis sorted_list_of_set.idem_if_sorted_distinct strict_sorted_iff)
  then have "map (\<lambda>k. (k, the (bt_get m k))) (map fst m) = map (\<lambda>k. (k, the (bt_get n k))) (map fst n)"
    by (simp add: assms(3))
  then show ?thesis
    unfolding bt_entries [OF assms(1), symmetric] bt_entries [OF assms(2), symmetric] .
qed

end
