(* ===== verification/Text.thy ===== *)
theory Text
  imports Prelude
begin

text \<open>
  Rust strings and the formatting and parsing of the standard library the crates rely on.
  A \<^verbatim>\<open>String\<close> is its UTF-8 bytes, one \<open>char\<close> per byte: \<^verbatim>\<open>len\<close>, \<^verbatim>\<open>bytes\<close> and the
  derived order of strings work on bytes. Only \<^verbatim>\<open>trim\<close> and the JSON escape look at whole
  code points; they are written out over the byte patterns of the code points concerned.
\<close>

section \<open>Bytes\<close>

abbreviation byte_of :: "char \<Rightarrow> nat" where
  "byte_of c \<equiv> of_char c"

definition is_ascii_digit :: "char \<Rightarrow> bool" where
  "is_ascii_digit c \<longleftrightarrow> 48 \<le> byte_of c \<and> byte_of c \<le> 57"

definition is_ascii_lowercase :: "char \<Rightarrow> bool" where
  "is_ascii_lowercase c \<longleftrightarrow> 97 \<le> byte_of c \<and> byte_of c \<le> 122"

definition is_ascii_uppercase :: "char \<Rightarrow> bool" where
  "is_ascii_uppercase c \<longleftrightarrow> 65 \<le> byte_of c \<and> byte_of c \<le> 90"

definition to_ascii_uppercase :: "string \<Rightarrow> string" where
  "to_ascii_uppercase s = map (\<lambda>c. if is_ascii_lowercase c then char_of (byte_of c - 32) else c) s"

named_theorems byte_simps "definitions of the byte classes"
lemmas [byte_simps] = is_ascii_digit_def is_ascii_lowercase_def is_ascii_uppercase_def

section \<open>Printing numbers\<close>

definition digit_char :: "nat \<Rightarrow> char" where
  "digit_char d = char_of (48 + d)"

fun show_nat :: "nat \<Rightarrow> string" where
  "show_nat n = (if n < 10 then [digit_char n] else show_nat (n div 10) @ [digit_char (n mod 10)])"

declare show_nat.simps [simp del]

definition show_int :: "int \<Rightarrow> string" where
  "show_int x = (if x < 0 then CHR ''-'' # show_nat (nat (- x)) else show_nat (nat x))"

text \<open>\<open>zero_padded w n\<close> is the format \<^verbatim>\<open>{:0w}\<close>, which pads but never truncates.\<close>

definition zero_padded :: "nat \<Rightarrow> nat \<Rightarrow> string" where
  "zero_padded w n = replicate (w - length (show_nat n)) (CHR ''0'') @ show_nat n"

definition digits_value :: "string \<Rightarrow> nat" where
  "digits_value s = foldl (\<lambda>n c. 10 * n + (byte_of c - 48)) 0 s"

lemma byte_of_digit_char [simp]: "d < 10 \<Longrightarrow> byte_of (digit_char d) = 48 + d"
  by (simp add: digit_char_def of_char_of)

lemma digit_char_is_digit [simp]: "d < 10 \<Longrightarrow> is_ascii_digit (digit_char d)"
  by (simp add: is_ascii_digit_def)

lemma zero_is_digit [simp]: "is_ascii_digit (CHR ''0'')"
  by (simp add: is_ascii_digit_def)

lemma show_nat_nonempty [simp]: "show_nat n \<noteq> []"
  by (subst show_nat.simps) simp

lemma show_nat_digits: "list_all is_ascii_digit (show_nat n)"
proof (induction n rule: show_nat.induct)
  case (1 n)
  then show ?case by (subst show_nat.simps) (auto simp: list_all_iff)
qed

lemma digits_value_Nil [simp]: "digits_value [] = 0"
  by (simp add: digits_value_def)

lemma digits_value_snoc [simp]:
  "digits_value (s @ [c]) = 10 * digits_value s + (byte_of c - 48)"
  by (simp add: digits_value_def)

lemma digits_value_show_nat [simp]: "digits_value (show_nat n) = n"
proof (induction n rule: show_nat.induct)
  case (1 n)
  then show ?case
    by (subst show_nat.simps) (auto simp: digits_value_def)
qed

lemma show_nat_inj [simp]: "show_nat m = show_nat n \<longleftrightarrow> m = n"
  by (metis digits_value_show_nat)

lemma digits_value_append:
  "digits_value (s @ t) = digits_value s * 10 ^ length t + digits_value t"
  by (induction t rule: rev_induct)
    (simp_all add: append_assoc [symmetric] algebra_simps del: append_assoc)

lemma digits_value_zeros [simp]: "digits_value (replicate k (CHR ''0'')) = 0"
proof (induction k)
  case (Suc k)
  have "replicate (Suc k) (CHR ''0'') = replicate k (CHR ''0'') @ [CHR ''0'']"
    by (simp add: replicate_append_same)
  with Suc show ?case by (simp del: replicate_Suc)
qed simp

lemma length_show_nat_le: "0 < k \<Longrightarrow> n < 10 ^ k \<Longrightarrow> length (show_nat n) \<le> k"
proof (induction n arbitrary: k rule: show_nat.induct)
  case (1 n)
  show ?case
  proof (cases "n < 10")
    case True
    with 1 show ?thesis by (subst show_nat.simps) simp
  next
    case False
    with 1 obtain j where j: "k = Suc j" "0 < j"
      by (cases k) (auto intro: Suc_lessI simp: not_less [symmetric], metis gr0I power_0 less_one mult_1_right not_less_zero)
    with 1 False have "n div 10 < 10 ^ j" by (simp add: div_less_iff_less_mult mult.commute)
    with 1 False j have "length (show_nat (n div 10)) \<le> j" by blast
    with False j show ?thesis by (subst show_nat.simps) simp
  qed
qed

lemma length_zero_padded: "0 < w \<Longrightarrow> n < 10 ^ w \<Longrightarrow> length (zero_padded w n) = w"
  using length_show_nat_le [of w n] by (simp add: zero_padded_def)

lemma zero_padded_digits: "list_all is_ascii_digit (zero_padded w n)"
  using show_nat_digits [of n] by (auto simp: zero_padded_def list_all_iff)

lemma zero_padded_nonempty [simp]: "zero_padded w n \<noteq> []"
  by (simp add: zero_padded_def)

lemma digits_value_zero_padded [simp]: "digits_value (zero_padded w n) = n"
  by (simp add: zero_padded_def digits_value_append)

lemma zero_padded_inj [simp]: "zero_padded w m = zero_padded w n \<longleftrightarrow> m = n"
  by (metis digits_value_zero_padded)

section \<open>Trimming white space\<close>

text \<open>
  \<open>ws_len\<close> is the number of bytes of the white-space code point a byte string starts with
  (0 if it starts with none): the ASCII blanks, U+0085, U+00A0, U+1680, U+2000 to U+200A,
  U+2028, U+2029, U+202F, U+205F and U+3000. \<open>ws_len_rev\<close> reads the same patterns off the
  reversed string.
\<close>

definition ascii_ws :: "nat \<Rightarrow> bool" where
  "ascii_ws b \<longleftrightarrow> (9 \<le> b \<and> b \<le> 13) \<or> b = 32"

definition ws3 :: "nat \<Rightarrow> nat \<Rightarrow> nat \<Rightarrow> bool" where
  "ws3 a b c \<longleftrightarrow> (a = 225 \<and> b = 154 \<and> c = 128)
     \<or> (a = 226 \<and> b = 128 \<and> ((128 \<le> c \<and> c \<le> 138) \<or> c = 168 \<or> c = 169 \<or> c = 175))
     \<or> (a = 226 \<and> b = 129 \<and> c = 159) \<or> (a = 227 \<and> b = 128 \<and> c = 128)"

definition ws2 :: "nat \<Rightarrow> nat \<Rightarrow> bool" where
  "ws2 a b \<longleftrightarrow> a = 194 \<and> (b = 133 \<or> b = 160)"

fun ws_len :: "nat list \<Rightarrow> nat" where
  "ws_len [] = 0"
| "ws_len (a # r) = (if ascii_ws a then 1
     else case r of [] \<Rightarrow> 0
     | b # r' \<Rightarrow> if ws2 a b then 2
       else case r' of [] \<Rightarrow> 0 | c # _ \<Rightarrow> if ws3 a b c then 3 else 0)"

fun ws_len_rev :: "nat list \<Rightarrow> nat" where
  "ws_len_rev [] = 0"
| "ws_len_rev (a # r) = (if ascii_ws a then 1
     else case r of [] \<Rightarrow> 0
     | b # r' \<Rightarrow> if ws2 b a then 2
       else case r' of [] \<Rightarrow> 0 | c # _ \<Rightarrow> if ws3 c b a then 3 else 0)"

function strip_ws :: "(nat list \<Rightarrow> nat) \<Rightarrow> string \<Rightarrow> string" where
  "strip_ws f s = (if s = [] \<or> f (map byte_of s) = 0 then s
     else strip_ws f (drop (f (map byte_of s)) s))"
  by pat_completeness auto
termination
  by (relation "measure (\<lambda>(f, s). length s)") auto

declare strip_ws.simps [simp del]

definition trim_start :: "string \<Rightarrow> string" where
  "trim_start s = strip_ws ws_len s"

definition trim_end :: "string \<Rightarrow> string" where
  "trim_end s = rev (strip_ws ws_len_rev (rev s))"

definition trim :: "string \<Rightarrow> string" where
  "trim s = trim_end (trim_start s)"

text \<open>A printable ASCII byte neither begins nor ends a white-space code point.\<close>

definition graphic :: "char \<Rightarrow> bool" where
  "graphic c \<longleftrightarrow> 32 < byte_of c \<and> byte_of c < 128"

lemma strip_ws_unchanged: "f (map byte_of s) = 0 \<Longrightarrow> strip_ws f s = s"
  by (subst strip_ws.simps) simp

lemma ws_len_graphic: "graphic c \<Longrightarrow> ws_len (map byte_of (c # s)) = 0"
  by (auto simp: graphic_def ascii_ws_def ws2_def ws3_def split: list.splits)

lemma ws_len_rev_graphic: "graphic c \<Longrightarrow> ws_len_rev (map byte_of (c # s)) = 0"
  by (auto simp: graphic_def ascii_ws_def ws2_def ws3_def split: list.splits)

lemma trim_graphic:
  assumes "s \<noteq> []" "graphic (hd s)" "graphic (last s)"
  shows "trim s = s"
proof -
  from assms obtain c t where s: "s = c # t" by (cases s) auto
  with assms have "trim_start s = s"
    using ws_len_graphic [of c t] by (simp add: trim_start_def strip_ws_unchanged)
  moreover from assms obtain u d where r: "rev s = d # u" "graphic d"
    by (metis hd_rev list.collapse rev_is_Nil_conv)
  then have "strip_ws ws_len_rev (rev s) = rev s"
    using ws_len_rev_graphic [of d u] by (simp add: strip_ws_unchanged)
  ultimately show ?thesis by (simp add: trim_def trim_end_def)
qed

lemma digit_graphic: "is_ascii_digit c \<Longrightarrow> graphic c"
  by (simp add: is_ascii_digit_def graphic_def)

section \<open>Joining\<close>

fun join :: "string \<Rightarrow> string list \<Rightarrow> string" where
  "join sep [] = []"
| "join sep [s] = s"
| "join sep (s # t # ss) = s @ sep @ join sep (t # ss)"

lemma join_Cons: "join sep (s # ss) = s @ (if ss = [] then [] else sep @ join sep ss)"
  by (cases ss) simp_all

lemma split_at_inj:
  "c \<notin> set a \<Longrightarrow> c \<notin> set b \<Longrightarrow> a @ c # s = b @ c # t \<longleftrightarrow> a = b \<and> s = t"
  by (induction a arbitrary: b) (case_tac b; auto)+

lemma join_inj:
  assumes "\<forall>s\<in>set ss \<union> set ts. s \<noteq> [] \<and> c \<notin> set s" "join [c] ss = join [c] ts"
  shows "ss = ts"
  using assms
proof (induction ss arbitrary: ts)
  case Nil
  then show ?case by (cases ts) (auto simp: join_Cons)
next
  case (Cons s ss)
  then obtain t us where ts: "ts = t # us" by (cases ts) (auto simp: join_Cons)
  have bars: "c \<notin> set s" "c \<notin> set t" using Cons.prems(1) ts by auto
  have "s = t \<and> (ss = [] \<longleftrightarrow> us = []) \<and> join [c] ss = join [c] us"
    using Cons.prems(2) bars split_at_inj [OF bars]
    by (auto simp: ts join_Cons split: if_splits)
  moreover from this have "ss = us" by (intro Cons.IH) (use Cons.prems(1) ts in auto)
  ultimately show ?case by (simp add: ts)
qed

lemma join_map_inj:
  assumes "\<forall>e\<in>set m \<union> set n. f e \<noteq> [] \<and> c \<notin> set (f e)" "inj_on f (set m \<union> set n)"
    and "join [c] (map f m) = join [c] (map f n)"
  shows "m = n"
proof -
  have "map f m = map f n" by (rule join_inj [of _ _ c]) (use assms(1,3) in auto)
  with assms(2) show ?thesis by (simp add: inj_on_map_eq_map)
qed

end
