(* ===== verification/DecimalArith.thy ===== *)
theory DecimalArith
  imports Text
begin

text \<open>
  Component: fixed-point decimals (\<^verbatim>\<open>core/domain/src/decimal.rs\<close>). A \<^verbatim>\<open>Decimal\<close> is an
  \<^verbatim>\<open>i128\<close> scaled by \<open>10 ^ 8\<close>; every operation is checked. The theory holds the arithmetic
  with its exact success conditions (\<open>result_simps\<close>), the error bound of the truncating
  operations, the parser and the printer with their round trip, and the price collar that
  replay, PAPER and LIVE share.
\<close>

datatype decimal = Decimal (scaled: int)

definition DECIMAL_SCALE :: int where
  "DECIMAL_SCALE = 100000000"

abbreviation ZERO :: decimal where
  "ZERO \<equiv> Decimal 0"

abbreviation from_scaled :: "int \<Rightarrow> decimal" where
  "from_scaled x \<equiv> Decimal x"

text \<open>What the type's \<^verbatim>\<open>i128\<close> representation guarantees of every value.\<close>

definition dec_ok :: "decimal \<Rightarrow> bool" where
  "dec_ok d \<longleftrightarrow> in_i128 (scaled d)"

instantiation decimal :: linorder
begin

definition less_eq_decimal :: "decimal \<Rightarrow> decimal \<Rightarrow> bool" where
  "less_eq_decimal a b \<longleftrightarrow> scaled a \<le> scaled b"

definition less_decimal :: "decimal \<Rightarrow> decimal \<Rightarrow> bool" where
  "less_decimal a b \<longleftrightarrow> scaled a < scaled b"

instance
  by standard (auto simp: less_eq_decimal_def less_decimal_def decimal.expand)

end

lemma decimal_le [simp]: "Decimal a \<le> Decimal b \<longleftrightarrow> a \<le> b"
  by (simp add: less_eq_decimal_def)

lemma decimal_less [simp]: "Decimal a < Decimal b \<longleftrightarrow> a < b"
  by (simp add: less_decimal_def)

lemma decimal_le_scaled: "a \<le> b \<longleftrightarrow> scaled a \<le> scaled b"
  by (simp add: less_eq_decimal_def)

lemma decimal_less_scaled: "a < b \<longleftrightarrow> scaled a < scaled b"
  by (simp add: less_decimal_def)

lemma decimal_eq_scaled: "a = b \<longleftrightarrow> scaled a = scaled b"
  by (auto intro: decimal.expand)

lemma scaled_min [simp]: "scaled (min a b) = min (scaled a) (scaled b)"
  by (simp add: min_def decimal_le_scaled)

lemma scaled_max [simp]: "scaled (max a b) = max (scaled a) (scaled b)"
  by (simp add: max_def decimal_le_scaled)

lemmas decimal_order = decimal_le_scaled decimal_less_scaled decimal_eq_scaled
lemmas decimal_cmp = decimal_le_scaled decimal_less_scaled

section \<open>Checked arithmetic\<close>

definition from_integer :: "int \<Rightarrow> decimal result" where
  "from_integer v = and_then (ok_or (i128_checked (v * DECIMAL_SCALE)) ''integer decimal overflow'')
     (\<lambda>s. Ok (Decimal s))"

definition checked_add :: "decimal \<Rightarrow> decimal \<Rightarrow> decimal result" where
  "checked_add a b = ok_or (map_option Decimal (i128_checked (scaled a + scaled b)))
     ''decimal addition overflow''"

definition checked_sub :: "decimal \<Rightarrow> decimal \<Rightarrow> decimal result" where
  "checked_sub a b = ok_or (map_option Decimal (i128_checked (scaled a - scaled b)))
     ''decimal subtraction overflow''"

definition checked_mul :: "decimal \<Rightarrow> decimal \<Rightarrow> decimal result" where
  "checked_mul a b = ok_or (map_option Decimal
       (Option.bind (i128_checked (scaled a * scaled b)) (\<lambda>v. i128_checked (v sdiv DECIMAL_SCALE))))
     ''decimal multiplication overflow''"

definition checked_div :: "decimal \<Rightarrow> decimal \<Rightarrow> decimal result" where
  "checked_div a b = (if scaled b = 0 then Err ''division by zero''
     else ok_or (map_option Decimal
       (Option.bind (i128_checked (scaled a * DECIMAL_SCALE)) (\<lambda>v. i128_checked (v sdiv scaled b))))
     ''decimal division overflow'')"

lemma DECIMAL_SCALE_pos [simp]: "0 < DECIMAL_SCALE" "DECIMAL_SCALE \<noteq> 0" "0 \<le> DECIMAL_SCALE"
  by (simp_all add: DECIMAL_SCALE_def)

lemma checked_add_eq_Ok [result_simps]:
  "checked_add a b = Inr c \<longleftrightarrow> in_i128 (scaled a + scaled b) \<and> c = Decimal (scaled a + scaled b)"
  by (auto simp: checked_add_def i128_checked_def)

lemma checked_sub_eq_Ok [result_simps]:
  "checked_sub a b = Inr c \<longleftrightarrow> in_i128 (scaled a - scaled b) \<and> c = Decimal (scaled a - scaled b)"
  by (auto simp: checked_sub_def i128_checked_def)

lemma in_i128_sdiv_scale: "in_i128 v \<Longrightarrow> in_i128 (v sdiv DECIMAL_SCALE)"
proof -
  assume "in_i128 v"
  moreover have "\<bar>v sdiv DECIMAL_SCALE\<bar> \<le> \<bar>v\<bar>" by (simp add: abs_sdiv_le)
  moreover have "v < 0 \<Longrightarrow> v sdiv DECIMAL_SCALE \<le> 0" "0 \<le> v \<Longrightarrow> 0 \<le> v sdiv DECIMAL_SCALE"
    by (simp_all add: signed_divide_int_def sgn_if pos_imp_zdiv_nonneg_iff)
  ultimately show ?thesis unfolding in_i128_def by linarith
qed

lemma checked_mul_eq_Ok [result_simps]:
  "checked_mul a b = Inr c \<longleftrightarrow>
     in_i128 (scaled a * scaled b) \<and> c = Decimal (scaled a * scaled b sdiv DECIMAL_SCALE)"
  by (auto simp: checked_mul_def i128_checked_def in_i128_sdiv_scale)

lemma checked_div_eq_Ok [result_simps]:
  "checked_div a b = Inr c \<longleftrightarrow> scaled b \<noteq> 0 \<and> in_i128 (scaled a * DECIMAL_SCALE)
     \<and> in_i128 (scaled a * DECIMAL_SCALE sdiv scaled b)
     \<and> c = Decimal (scaled a * DECIMAL_SCALE sdiv scaled b)"
  by (auto simp: checked_div_def i128_checked_def)

lemma from_integer_eq_Ok [result_simps]:
  "from_integer v = Inr c \<longleftrightarrow> in_i128 (v * DECIMAL_SCALE) \<and> c = Decimal (v * DECIMAL_SCALE)"
  by (auto simp: from_integer_def and_then_eq_Inr ok_or_eq_Ok i128_checked_def)

text \<open>An \<^verbatim>\<open>i64\<close> never overflows the representation, so \<^verbatim>\<open>from_integer\<close> cannot fail.\<close>

lemma from_integer_i64: "in_i64 v \<Longrightarrow> from_integer v = Ok (Decimal (v * DECIMAL_SCALE))"
  by (simp add: from_integer_eq_Ok in_i64_def in_i128_def DECIMAL_SCALE_def)

lemma from_integer_10000 [simp]: "from_integer 10000 = Ok (Decimal 1000000000000)"
  by (subst from_integer_i64) (simp_all add: in_i64_def DECIMAL_SCALE_def)

lemma from_integer_2 [simp]: "from_integer 2 = Ok (Decimal 200000000)"
  by (subst from_integer_i64) (simp_all add: in_i64_def DECIMAL_SCALE_def)

lemma from_integer_100 [simp]: "from_integer 100 = Ok (Decimal 10000000000)"
  by (subst from_integer_i64) (simp_all add: in_i64_def DECIMAL_SCALE_def)

lemma from_integer_20000 [simp]: "from_integer 20000 = Ok (Decimal 2000000000000)"
  by (subst from_integer_i64) (simp_all add: in_i64_def DECIMAL_SCALE_def)

lemma from_integer_u32: "n < 2 ^ 32 \<Longrightarrow> from_integer (int n) = Ok (Decimal (int n * DECIMAL_SCALE))"
  by (rule from_integer_i64) (simp add: in_i64_def)

lemma checked_mul_nonneg:
  "checked_mul a b = Inr c \<Longrightarrow> 0 \<le> scaled a \<Longrightarrow> 0 \<le> scaled b \<Longrightarrow>
    scaled c = scaled a * scaled b div DECIMAL_SCALE"
  by (simp add: checked_mul_eq_Ok sdiv_nonneg_eq_div)

lemma checked_div_pos:
  "checked_div a b = Inr c \<Longrightarrow> 0 \<le> scaled a \<Longrightarrow> 0 < scaled b \<Longrightarrow>
    scaled c = scaled a * DECIMAL_SCALE div scaled b"
  by (simp add: checked_div_eq_Ok sdiv_nonneg_eq_div)

lemma checked_mul_sign:
  "checked_mul a b = Inr c \<Longrightarrow> 0 \<le> scaled a \<Longrightarrow> 0 \<le> scaled b \<Longrightarrow> 0 \<le> scaled c"
  by (simp add: checked_mul_nonneg pos_imp_zdiv_nonneg_iff)

lemma checked_div_sign:
  "checked_div a b = Inr c \<Longrightarrow> 0 \<le> scaled a \<Longrightarrow> 0 < scaled b \<Longrightarrow> 0 \<le> scaled c"
  by (simp add: checked_div_pos pos_imp_zdiv_nonneg_iff)

lemma checked_ops_dec_ok:
  "checked_add a b = Inr c \<Longrightarrow> dec_ok c"
  "checked_sub a b = Inr c \<Longrightarrow> dec_ok c"
  "checked_mul a b = Inr c \<Longrightarrow> dec_ok c"
  "checked_div a b = Inr c \<Longrightarrow> dec_ok c"
  by (auto simp: dec_ok_def checked_add_eq_Ok checked_sub_eq_Ok checked_mul_eq_Ok
      checked_div_eq_Ok in_i128_sdiv_scale)

text \<open>The truncation error of a product and of a quotient is below one unit in the last
  place, and always towards zero.\<close>

lemma sdiv_error:
  assumes "(0::int) < b"
  shows "\<bar>a - b * (a sdiv b)\<bar> < b" and "\<bar>b * (a sdiv b)\<bar> \<le> \<bar>a\<bar>"
proof -
  have "a - b * (a sdiv b) = a smod b" by (rule minus_mult_sdiv_eq_smod)
  with assms show "\<bar>a - b * (a sdiv b)\<bar> < b"
    by (simp add: signed_modulo_int_def abs_mult sgn_if)
  have "b * (\<bar>a\<bar> div b) \<le> \<bar>a\<bar>"
    using mult_div_mod_eq [of b "\<bar>a\<bar>"] assms pos_mod_sign [of b "\<bar>a\<bar>"] by linarith
  moreover have "0 \<le> \<bar>a\<bar> div b" using assms by (simp add: pos_imp_zdiv_nonneg_iff)
  then have "\<bar>\<bar>a\<bar> div b\<bar> = \<bar>a\<bar> div b" by simp
  ultimately show "\<bar>b * (a sdiv b)\<bar> \<le> \<bar>a\<bar>"
    using assms by (simp add: signed_divide_int_def abs_mult)
qed

section \<open>Parsing and printing\<close>

text \<open>\<open>parse_i128\<close> is \<^verbatim>\<open>str::parse::<i128>\<close> on the digit strings the parser passes to it.\<close>

definition parse_i128 :: "string \<Rightarrow> int option" where
  "parse_i128 s = i128_checked (int (digits_value s))"

definition decimal_from_str :: "string \<Rightarrow> decimal result" where
  "decimal_from_str text =
     (let source = trim text in
      if source = [] then Err ''decimal is empty''
      else
        let (negative, unsigned) =
              (if hd source = CHR ''-'' then (True, tl source)
               else if hd source = CHR ''+'' then (False, tl source)
               else (False, source));
            invalid = ''invalid decimal: '' @ source;
            overflow = ''decimal overflow: '' @ source in
        if unsigned = [] \<or> count_list unsigned (CHR ''.'') > 1 then Err invalid
        else
          let whole_text = takeWhile (\<lambda>c. c \<noteq> CHR ''.'') unsigned;
              fraction_text = tl (dropWhile (\<lambda>c. c \<noteq> CHR ''.'') unsigned) in
          if whole_text = [] \<and> fraction_text = []
             \<or> \<not> list_all is_ascii_digit whole_text
             \<or> \<not> list_all is_ascii_digit fraction_text
             \<or> length fraction_text > 8
          then Err invalid
          else
            and_then (if whole_text = [] then Ok 0 else ok_or (parse_i128 whole_text) overflow)
              (\<lambda>whole.
            and_then (if fraction_text = [] then Ok 0
                else ok_or (parse_i128 (fraction_text @ replicate (8 - length fraction_text) (CHR ''0'')))
                  overflow) (\<lambda>fraction.
            and_then (ok_or (Option.bind (i128_checked (whole * DECIMAL_SCALE))
                (\<lambda>whole_scaled. i128_checked (whole_scaled + fraction))) overflow) (\<lambda>amount.
            Ok (Decimal (if negative then - amount else amount))))))"

definition decimal_to_string :: "decimal \<Rightarrow> string" where
  "decimal_to_string d =
     (let magnitude = nat \<bar>scaled d\<bar> in
      (if scaled d < 0 then ''-'' else [])
      @ show_nat (magnitude div nat DECIMAL_SCALE) @ ''.''
      @ zero_padded 8 (magnitude mod nat DECIMAL_SCALE))"

lemma hd_show_nat_digit: "is_ascii_digit (hd (show_nat n))"
  using show_nat_digits [of n] by (cases "show_nat n") auto

lemma last_padded_digit: "is_ascii_digit (last (zero_padded w n))"
  using zero_padded_digits [of w n] by (simp add: list_all_iff)

lemma not_digit_sign [simp]:
  "\<not> is_ascii_digit (CHR ''.'')" "\<not> is_ascii_digit (CHR ''-'')" "\<not> is_ascii_digit (CHR ''+'')"
  by (simp_all add: is_ascii_digit_def)

lemma trim_decimal_to_string: "trim (decimal_to_string d) = decimal_to_string d"
proof (rule trim_graphic)
  show "graphic (hd (decimal_to_string d))"
    using digit_graphic [OF hd_show_nat_digit, of "nat \<bar>scaled d\<bar> div nat DECIMAL_SCALE"]
    by (auto simp: decimal_to_string_def Let_def graphic_def hd_append)
  show "graphic (last (decimal_to_string d))"
    using digit_graphic [OF last_padded_digit, of 8 "nat \<bar>scaled d\<bar> mod nat DECIMAL_SCALE"]
    by (simp add: decimal_to_string_def Let_def)
qed (simp add: decimal_to_string_def Let_def)

lemma digits_no_dot: "list_all is_ascii_digit s \<Longrightarrow> CHR ''.'' \<notin> set s"
  by (auto simp: list_all_iff)

lemma digits_split:
  assumes "list_all is_ascii_digit s" "list_all is_ascii_digit t"
  shows "takeWhile (\<lambda>c. c \<noteq> CHR ''.'') (s @ ''.'' @ t) = s"
    and "tl (dropWhile (\<lambda>c. c \<noteq> CHR ''.'') (s @ ''.'' @ t)) = t"
    and "count_list (s @ ''.'' @ t) (CHR ''.'') = 1"
  using digits_no_dot [OF assms(1)] digits_no_dot [OF assms(2)]
  by (auto simp: takeWhile_append dropWhile_append)

text \<open>What the parser does on the digits, point and digits the printer writes after the sign.\<close>

lemma parse_printed:
  assumes "source = (if neg then ''-'' else []) @ show_nat w @ ''.'' @ zero_padded 8 f"
    and "trim source = source" and "f < 10 ^ 8"
  shows "decimal_from_str source =
    (if int (w * 10 ^ 8 + f) < 2 ^ 127
     then Ok (Decimal (if neg then - int (w * 10 ^ 8 + f) else int (w * 10 ^ 8 + f)))
     else Err (''decimal overflow: '' @ source))"
proof -
  let ?body = "show_nat w @ ''.'' @ zero_padded 8 f"
  have len: "length (zero_padded 8 f) = 8"
    using assms(3) by (simp add: length_zero_padded)
  note split = digits_split [OF show_nat_digits zero_padded_digits, of w 8 f]
  have sign: "(if hd source = CHR ''-'' then (True, tl source)
               else if hd source = CHR ''+'' then (False, tl source)
               else (False, source)) = (neg, ?body)"
    using assms(1) hd_show_nat_digit [of w] by (auto simp: hd_append)
  have w: "parse_i128 (show_nat w) = i128_checked (int w)"
    and f: "parse_i128 (zero_padded 8 f) = Some (int f)"
    using assms(3) by (simp_all add: parse_i128_def i128_checked_def in_i128_def)
  have ne: "source \<noteq> []" using assms(1) by simp
  show ?thesis
    unfolding decimal_from_str_def assms(2) Let_def sign split case_prod_conv
    using ne len show_nat_digits [of w] zero_padded_digits [of 8 f]
    by (auto simp: w f split del: if_split simp del: append_Cons append_Nil)
      (auto simp: i128_checked_def in_i128_def DECIMAL_SCALE_def Option.bind_eq_Some_conv ok_or_def
        split: option.splits if_splits)
qed

lemma decimal_to_string_parts:
  "decimal_to_string d = (if scaled d < 0 then ''-'' else []) @ show_nat (nat \<bar>scaled d\<bar> div nat DECIMAL_SCALE)
     @ ''.'' @ zero_padded 8 (nat \<bar>scaled d\<bar> mod nat DECIMAL_SCALE)"
  by (simp add: decimal_to_string_def Let_def)

lemma decimal_to_string_inj [simp]: "decimal_to_string a = decimal_to_string b \<longleftrightarrow> a = b"
proof
  assume eq: "decimal_to_string a = decimal_to_string b"
  let ?w = "\<lambda>d. show_nat (nat \<bar>scaled d\<bar> div nat DECIMAL_SCALE)"
    and ?f = "\<lambda>d. zero_padded 8 (nat \<bar>scaled d\<bar> mod nat DECIMAL_SCALE)"
  have head: "scaled d < 0 \<longleftrightarrow> hd (decimal_to_string d) = CHR ''-''" for d
    using hd_show_nat_digit [of "nat \<bar>scaled d\<bar> div nat DECIMAL_SCALE"]
    by (auto simp: decimal_to_string_parts hd_append)
  then have sign: "scaled a < 0 \<longleftrightarrow> scaled b < 0" using eq by simp
  with eq have body: "?w a @ ''.'' @ ?f a = ?w b @ ''.'' @ ?f b"
    by (auto simp: decimal_to_string_parts split: if_splits)
  note split = digits_split [OF show_nat_digits zero_padded_digits]
  have "?w a = ?w b"
    using arg_cong [OF body, of "takeWhile (\<lambda>c. c \<noteq> CHR ''.'')"] unfolding split .
  moreover have "?f a = ?f b"
    using arg_cong [OF body, of "\<lambda>s. tl (dropWhile (\<lambda>c. c \<noteq> CHR ''.'') s)"] unfolding split .
  ultimately have "nat \<bar>scaled a\<bar> = nat \<bar>scaled b\<bar>"
    by (metis div_mult_mod_eq show_nat_inj zero_padded_inj)
  with sign show "a = b" by (cases a; cases b) auto
qed simp

lemma decimal_not_separator: "CHR ''|'' \<notin> set (decimal_to_string d)"
  using show_nat_digits [of "nat \<bar>scaled d\<bar> div nat DECIMAL_SCALE"]
    zero_padded_digits [of 8 "nat \<bar>scaled d\<bar> mod nat DECIMAL_SCALE"]
  by (auto simp: decimal_to_string_parts list_all_iff is_ascii_digit_def)

section \<open>The price collar\<close>

definition price_deviation_bps :: "decimal \<Rightarrow> decimal \<Rightarrow> decimal result" where
  "price_deviation_bps reference_price requested_price =
     (if reference_price \<le> ZERO \<or> requested_price \<le> ZERO
      then Err ''price-collar inputs must both be positive''
      else and_then (if requested_price \<ge> reference_price
                     then checked_sub requested_price reference_price
                     else checked_sub reference_price requested_price) (\<lambda>distance.
           and_then (from_integer 10000) (\<lambda>bps.
           and_then (checked_mul distance bps) (\<lambda>product.
           checked_div product reference_price))))"

lemma price_deviation_bps_Ok:
  assumes "price_deviation_bps r p = Inr d"
  shows "0 < scaled r" "0 < scaled p"
    "scaled d = \<bar>scaled p - scaled r\<bar> * 10000 * DECIMAL_SCALE div scaled r"
proof -
  from assms show r: "0 < scaled r" and p: "0 < scaled p"
    by (auto simp: price_deviation_bps_def decimal_order not_le split: if_splits)
  from assms obtain dist prod where
    dist: "scaled dist = \<bar>scaled p - scaled r\<bar>" and
    prod: "checked_mul dist (Decimal 1000000000000) = Inr prod" and
    d: "checked_div prod r = Inr d"
    by (auto simp: price_deviation_bps_def and_then_eq_Inr result_simps decimal_order split: if_splits)
  from checked_mul_nonneg [OF prod] dist have "scaled prod = \<bar>scaled p - scaled r\<bar> * 10000"
    by (simp add: DECIMAL_SCALE_def)
  with checked_div_pos [OF d] r show
    "scaled d = \<bar>scaled p - scaled r\<bar> * 10000 * DECIMAL_SCALE div scaled r"
    by simp
qed

lemma decimal_text_roundtrip:
  assumes "dec_ok d"
  shows "decimal_from_str (decimal_to_string d) =
    (if scaled d = - (2 ^ 127) then Err (''decimal overflow: '' @ decimal_to_string d) else Ok d)"
proof -
  let ?m = "nat \<bar>scaled d\<bar>" and ?k = "nat DECIMAL_SCALE"
  have k: "?k = 10 ^ 8" by (simp add: DECIMAL_SCALE_def)
  have shown: "decimal_to_string d = (if scaled d < 0 then ''-'' else []) @ show_nat (?m div ?k) @ ''.''
      @ zero_padded 8 (?m mod ?k)" by (simp add: decimal_to_string_def Let_def)
  have m: "?m div ?k * 10 ^ 8 + ?m mod ?k = ?m" using div_mult_mod_eq [of ?m ?k] by (simp only: k)
  have r: "?m mod ?k < 10 ^ 8" by (simp add: k)
  have range: "int ?m < 2 ^ 127 \<longleftrightarrow> scaled d \<noteq> - (2 ^ 127)"
    using assms unfolding dec_ok_def in_i128_def by arith
  have signed: "(if scaled d < 0 then - int ?m else int ?m) = scaled d" by simp
  show ?thesis
    using parse_printed [OF shown trim_decimal_to_string r] unfolding m signed range by simp
qed

section \<open>Properties\<close>

text \<open>C27: Every amount the crate can hold survives printing and parsing, except the least
  \<^verbatim>\<open>i128\<close>: its text is refused with an overflow, because the parser negates last.\<close>

theorem decimal_print_parse:
  assumes "dec_ok d"
  shows "decimal_from_str (decimal_to_string d) =
    (if scaled d = - (2 ^ 127) then Err (''decimal overflow: '' @ decimal_to_string d) else Ok d)"
  using assms by (rule decimal_text_roundtrip)

theorem decimal_print_parse_witness:
  "decimal_from_str (decimal_to_string (Decimal (- 150000001))) = Ok (Decimal (- 150000001))"
  using decimal_print_parse [of "Decimal (- 150000001)"] by (simp add: dec_ok_def in_i128_def)

text \<open>The price collar is exact: when the deviation of a requested price from its reference
  is computed, both prices are positive, and it is the quotient of the distance by the reference in
  basis points, rounded down by less than one unit in the last place.\<close>

theorem price_deviation_exact:
  assumes "price_deviation_bps reference requested = Ok bps"
  shows "ZERO < reference \<and> ZERO < requested
    \<and> scaled bps * scaled reference \<le> \<bar>scaled requested - scaled reference\<bar> * 10000 * DECIMAL_SCALE
    \<and> \<bar>scaled requested - scaled reference\<bar> * 10000 * DECIMAL_SCALE < (scaled bps + 1) * scaled reference"
proof -
  note facts = price_deviation_bps_Ok [OF assms]
  let ?x = "\<bar>scaled requested - scaled reference\<bar> * 10000 * DECIMAL_SCALE"
  have "?x = scaled bps * scaled reference + ?x mod scaled reference"
    using div_mult_mod_eq [of ?x "scaled reference"] facts(3) by simp
  moreover have "0 \<le> ?x mod scaled reference" "?x mod scaled reference < scaled reference"
    using facts(1) by simp_all
  ultimately have "scaled bps * scaled reference \<le> ?x \<and> ?x < scaled bps * scaled reference + scaled reference"
    by linarith
  then show ?thesis using facts(1,2) by (simp add: decimal_cmp distrib_right)
qed

theorem price_deviation_exact_witness:
  "ZERO < Decimal 300000000 \<and> scaled (Decimal 3333333333) * 300000000
    \<le> \<bar>301000000 - 300000000\<bar> * 10000 * DECIMAL_SCALE"
  using price_deviation_exact [of "Decimal 300000000" "Decimal 301000000" "Decimal 3333333333"]
  by (simp add: price_deviation_bps_def checked_sub_def checked_mul_def checked_div_def
      i128_checked_def in_i128_def DECIMAL_SCALE_def sdiv_nonneg_eq_div)

end
