(* ===== verification/Identifiers.thy ===== *)
theory Identifiers
  imports DecimalArith
begin

text \<open>
  Component: canonical identifiers and timestamps (\<^verbatim>\<open>core/domain/src/error.rs\<close>). The
  RFC 3339 parser of the \<^verbatim>\<open>time\<close> crate is a parameter: \<open>rfc3339 s\<close> says that it accepts
  \<open>s\<close>. The lemmas show which strings pass, that the identifiers the planners derive from a
  canonical identifier are canonical again, and that the lexical order of canonical timestamps is
  the order of their calendar fields.
\<close>

definition is_id_byte :: "char \<Rightarrow> bool" where
  "is_id_byte c \<longleftrightarrow> is_ascii_lowercase c \<or> is_ascii_digit c
     \<or> c = CHR ''.'' \<or> c = CHR ''_'' \<or> c = CHR ''-''"

definition validate_canonical_id :: "string \<Rightarrow> string \<Rightarrow> unit result" where
  "validate_canonical_id name text =
     (if text = [] \<or> \<not> list_all is_id_byte text
      then Err (name @ '' must be a non-empty canonical ID'') else Ok ())"

definition canonical_id :: "string \<Rightarrow> bool" where
  "canonical_id s \<longleftrightarrow> s \<noteq> [] \<and> list_all is_id_byte s"

lemma validate_canonical_id_eq_Ok [result_simps]:
  "validate_canonical_id name s = Inr u \<longleftrightarrow> canonical_id s"
  by (auto simp: validate_canonical_id_def canonical_id_def)

lemma canonical_id_append:
  "canonical_id s \<Longrightarrow> list_all is_id_byte t \<Longrightarrow> canonical_id (s @ t)"
  by (simp add: canonical_id_def)

lemma id_bytes_show_nat [simp]: "list_all is_id_byte (show_nat n)"
  using show_nat_digits [of n] by (auto simp: list_all_iff is_id_byte_def)

lemma id_bytes_zero_padded [simp]: "list_all is_id_byte (zero_padded w n)"
  using zero_padded_digits [of w n] by (auto simp: list_all_iff is_id_byte_def)

lemma id_bytes_literal [simp]:
  "list_all is_id_byte (c # s) \<longleftrightarrow> is_id_byte c \<and> list_all is_id_byte s"
  by simp

lemma id_not_separator: "canonical_id s \<Longrightarrow> CHR ''|'' \<notin> set s \<and> CHR ''='' \<notin> set s"
  by (auto simp: canonical_id_def list_all_iff is_id_byte_def byte_simps)

lemma id_not_colon: "canonical_id s \<Longrightarrow> CHR '':'' \<notin> set s"
  by (auto simp: canonical_id_def list_all_iff is_id_byte_def byte_simps)

lemma digits_not_separator: "list_all is_ascii_digit s \<Longrightarrow> CHR ''|'' \<notin> set s \<and> CHR '':'' \<notin> set s"
  by (auto simp: list_all_iff is_ascii_digit_def)

lemma uppercase_not_separator: "list_all is_ascii_uppercase s \<Longrightarrow> CHR ''|'' \<notin> set s \<and> CHR '':'' \<notin> set s"
  by (auto simp: list_all_iff is_ascii_uppercase_def)

section \<open>Timestamps\<close>

definition timestamp_byte_ok :: "nat \<Rightarrow> char \<Rightarrow> bool" where
  "timestamp_byte_ok index byte =
     (if index = 4 \<or> index = 7 then byte = CHR ''-''
      else if index = 10 then byte = CHR ''T''
      else if index = 13 \<or> index = 16 then byte = CHR '':''
      else if index = 19 then byte = CHR ''Z''
      else is_ascii_digit byte)"

definition canonical_shape :: "string \<Rightarrow> bool" where
  "canonical_shape s \<longleftrightarrow> length s = 20 \<and> list_all (\<lambda>(i, c). timestamp_byte_ok i c) (enumerate0 s)"

definition validate_utc_timestamp :: "(string \<Rightarrow> bool) \<Rightarrow> string \<Rightarrow> string \<Rightarrow> unit result" where
  "validate_utc_timestamp rfc3339 name text =
     (if \<not> canonical_shape text \<or> \<not> rfc3339 text
      then Err (name @ '' must be canonical second-precision UTC'') else Ok ())"

lemma validate_utc_timestamp_eq_Ok [result_simps]:
  "validate_utc_timestamp rfc name s = Inr u \<longleftrightarrow> canonical_shape s \<and> rfc s"
  by (auto simp: validate_utc_timestamp_def)

lemma canonical_timestamp_no_bar: "canonical_shape s \<Longrightarrow> CHR ''|'' \<notin> set s"
proof
  assume "canonical_shape s" "CHR ''|'' \<in> set s"
  then obtain i where "i < length s" "timestamp_byte_ok i (CHR ''|'')"
    by (auto simp: canonical_shape_def in_set_conv_nth list_all_length)
  then show False by (simp add: timestamp_byte_ok_def is_ascii_digit_def split: if_splits)
qed

text \<open>The calendar fields of a timestamp of the canonical shape: year, month, day, hour,
  minute, second.\<close>

definition timestamp_fields :: "string \<Rightarrow> nat list" where
  "timestamp_fields s = map digits_value
     [take 4 s, take 2 (drop 5 s), take 2 (drop 8 s), take 2 (drop 11 s),
      take 2 (drop 14 s), take 2 (drop 17 s)]"

lemma less_append_same_length:
  fixes a b c d :: "'a::linorder list"
  assumes "length a = length b"
  shows "a @ c < b @ d \<longleftrightarrow> a < b \<or> a = b \<and> c < d"
  using assms by (induction a b rule: list_induct2) auto

lemma digits_value_less:
  "list_all is_ascii_digit s \<Longrightarrow> digits_value s < 10 ^ length s"
proof (induction s rule: rev_induct)
  case (snoc c s)
  then show ?case by (auto simp: is_ascii_digit_def)
qed simp

lemma digit_strings_order:
  assumes "length s = length t" "list_all is_ascii_digit s" "list_all is_ascii_digit t"
  shows "(s < t \<longleftrightarrow> digits_value s < digits_value t) \<and> (s = t \<longleftrightarrow> digits_value s = digits_value t)"
  using assms
proof (induction s t rule: rev_induct2)
  case (4 x xs y ys)
  then have IH: "xs < ys \<longleftrightarrow> digits_value xs < digits_value ys"
    "xs = ys \<longleftrightarrow> digits_value xs = digits_value ys" by auto
  from 4 have "byte_of x - 48 < 10" "byte_of y - 48 < 10"
    "[x] < [y] \<longleftrightarrow> byte_of x - 48 < byte_of y - 48" "x = y \<longleftrightarrow> byte_of x - 48 = byte_of y - 48"
    by (auto simp: is_ascii_digit_def less_char_def of_char_eq_iff dest: eq_diff_iff [THEN iffD1, rotated 2])
  with 4 IH show ?case
    by (auto simp: less_append_same_length)
qed auto

text \<open>A string of the canonical shape is its six digit groups around the fixed separators.\<close>

lemma canonical_shape_split:
  assumes "canonical_shape s"
  shows "s = take 4 s @ ''-'' @ take 2 (drop 5 s) @ ''-'' @ take 2 (drop 8 s) @ ''T''
           @ take 2 (drop 11 s) @ '':'' @ take 2 (drop 14 s) @ '':'' @ take 2 (drop 17 s) @ ''Z''"
    and "list_all is_ascii_digit (take 4 s)" "list_all is_ascii_digit (take 2 (drop 5 s))"
    "list_all is_ascii_digit (take 2 (drop 8 s))" "list_all is_ascii_digit (take 2 (drop 11 s))"
    "list_all is_ascii_digit (take 2 (drop 14 s))" "list_all is_ascii_digit (take 2 (drop 17 s))"
proof -
  from assms obtain a b c d e f g h i j k l m n p q r t u v where
    s: "s = [a, b, c, d, e, f, g, h, i, j, k, l, m, n, p, q, r, t, u, v]"
    by (auto simp: canonical_shape_def length_Suc_conv eval_nat_numeral)
  from assms show "s = take 4 s @ ''-'' @ take 2 (drop 5 s) @ ''-'' @ take 2 (drop 8 s) @ ''T''
           @ take 2 (drop 11 s) @ '':'' @ take 2 (drop 14 s) @ '':'' @ take 2 (drop 17 s) @ ''Z''"
    "list_all is_ascii_digit (take 4 s)" "list_all is_ascii_digit (take 2 (drop 5 s))"
    "list_all is_ascii_digit (take 2 (drop 8 s))" "list_all is_ascii_digit (take 2 (drop 11 s))"
    "list_all is_ascii_digit (take 2 (drop 14 s))" "list_all is_ascii_digit (take 2 (drop 17 s))"
    by (simp_all add: s canonical_shape_def enumerate0_def timestamp_byte_ok_def upt_rec [of 0] upt_rec)
qed

lemma canonical_timestamp_order:
  assumes "canonical_shape s" "canonical_shape t"
  shows "s < t \<longleftrightarrow> timestamp_fields s < timestamp_fields t"
proof -
  from assms have "length s = 20" "length t = 20" by (simp_all add: canonical_shape_def)
  then show ?thesis
    apply (subst canonical_shape_split(1) [OF assms(1)], subst canonical_shape_split(1) [OF assms(2)])
    using canonical_shape_split(2-7) [OF assms(1)] canonical_shape_split(2-7) [OF assms(2)]
    by (simp add: less_append_same_length timestamp_fields_def digit_strings_order)
qed

section \<open>Properties\<close>

text \<open>Every timestamp the services compare as strings has passed validation; the lexical
  order of two such strings is the chronological order of their calendar fields.\<close>

theorem validated_timestamps_ordered:
  assumes "validate_utc_timestamp rfc3339 n s = Ok ()" "validate_utc_timestamp rfc3339 n' t = Ok ()"
  shows "(s < t \<longleftrightarrow> timestamp_fields s < timestamp_fields t)
    \<and> (s = t \<longleftrightarrow> timestamp_fields s = timestamp_fields t)"
proof -
  from assms have shapes: "canonical_shape s" "canonical_shape t" by (simp_all add: result_simps)
  note canonical_timestamp_order [OF shapes] canonical_timestamp_order [OF shapes(2,1)]
  then show ?thesis by (metis less_irrefl neq_iff)
qed

theorem validated_timestamps_ordered_witness:
  "''2026-01-31T23:59:59Z'' < ''2026-02-01T00:00:00Z''"
proof -
  have "timestamp_fields ''2026-01-31T23:59:59Z'' < timestamp_fields ''2026-02-01T00:00:00Z''"
    by (simp add: timestamp_fields_def digits_value_def)
  moreover have "validate_utc_timestamp (\<lambda>_. True) ''a'' ''2026-01-31T23:59:59Z'' = Ok ()"
    "validate_utc_timestamp (\<lambda>_. True) ''b'' ''2026-02-01T00:00:00Z'' = Ok ()"
    by (simp_all add: validate_utc_timestamp_def canonical_shape_def enumerate0_def upt_rec
        timestamp_byte_ok_def is_ascii_digit_def)
  ultimately show ?thesis using validated_timestamps_ordered by blast
qed

end
