(* ===== verification/Orders.thy ===== *)
theory Orders
  imports Identifiers
begin

text \<open>
  Component: the order contracts of the domain crate (\<^verbatim>\<open>core/domain/src/order.rs\<close>,
  \<^verbatim>\<open>lifecycle.rs\<close>, \<^verbatim>\<open>market.rs\<close>): sides, order types, the strategy's intent and its
  validation, the lifecycle states, fills, positions and bars, and the definition of a
  risk-reducing trade with its working-order variant. Field names carry the initials of their
  struct (\<open>oi\<close> for \<^verbatim>\<open>OrderIntent\<close>, \<open>rd\<close> for \<^verbatim>\<open>RiskDecision\<close>, and so on).
\<close>

section \<open>Sides and order types\<close>

datatype side = Buy | Sell

fun side_as_str :: "side \<Rightarrow> string" where
  "side_as_str Buy = ''BUY''"
| "side_as_str Sell = ''SELL''"

datatype order_type = MarketOrder | LimitOrder

fun order_type_as_str :: "order_type \<Rightarrow> string" where
  "order_type_as_str MarketOrder = ''MARKET''"
| "order_type_as_str LimitOrder = ''LIMIT''"

datatype time_in_force = Day | GoodTilCancelled

fun time_in_force_as_str :: "time_in_force \<Rightarrow> string" where
  "time_in_force_as_str Day = ''DAY''"
| "time_in_force_as_str GoodTilCancelled = ''GTC''"

section \<open>Risk-reducing trades\<close>

definition reduces_position :: "decimal \<Rightarrow> decimal \<Rightarrow> bool" where
  "reduces_position current projected \<longleftrightarrow>
     (current > ZERO \<and> projected \<ge> ZERO \<and> projected < current)
     \<or> (current < ZERO \<and> projected \<le> ZERO \<and> projected > current)"

definition magnitude :: "decimal \<Rightarrow> decimal result" where
  "magnitude d = (if d < ZERO then checked_sub ZERO d else Ok d)"

definition reduces_position_with_working :: "decimal \<Rightarrow> decimal \<Rightarrow> decimal \<Rightarrow> bool result" where
  "reduces_position_with_working current projected working_reduction =
     (if \<not> reduces_position current projected then Ok False
      else and_then (checked_sub projected current) (\<lambda>delta.
           and_then (magnitude delta) (\<lambda>size.
           and_then (checked_add size working_reduction) (\<lambda>claimed.
           and_then (magnitude current) (\<lambda>held.
           Ok (claimed \<le> held))))))"

lemma magnitude_eq_Ok [result_simps]:
  "magnitude d = Inr m \<longleftrightarrow> (scaled d < 0 \<longrightarrow> in_i128 (- scaled d)) \<and> m = Decimal \<bar>scaled d\<bar>"
  by (cases d) (auto simp: magnitude_def checked_sub_eq_Ok)

lemma reduces_position_abs:
  "reduces_position c p \<longleftrightarrow>
     \<bar>scaled p\<bar> < \<bar>scaled c\<bar> \<and> (scaled p = 0 \<or> sgn (scaled p) = sgn (scaled c))"
  by (auto simp: reduces_position_def decimal_order sgn_if)

lemma reduces_position_with_working_True:
  assumes "reduces_position_with_working c p w = Inr True"
  shows "reduces_position c p \<and> \<bar>scaled p - scaled c\<bar> + scaled w \<le> \<bar>scaled c\<bar>"
  using assms
  by (auto simp: reduces_position_with_working_def and_then_eq_Inr result_simps decimal_order
      split: if_splits)

section \<open>Order intents\<close>

record order_intent =
  oi_intent_id :: string
  oi_account_id :: string
  oi_strategy_id :: string
  oi_instrument_id :: string
  oi_correlation_id :: string
  oi_side :: side
  oi_quantity :: decimal
  oi_order_type :: order_type
  oi_limit_price :: "decimal option"
  oi_time_in_force :: time_in_force
  oi_rationale :: string
  oi_created_at :: string
  oi_strategy_version :: string
  oi_configuration_version :: string
  oi_environment :: string

definition order_intent_validate :: "(string \<Rightarrow> bool) \<Rightarrow> order_intent \<Rightarrow> unit result" where
  "order_intent_validate rfc3339 i =
     and_then (try_each (\<lambda>(name, v). validate_canonical_id name v)
       [(''intent_id'', oi_intent_id i), (''account_id'', oi_account_id i),
        (''strategy_id'', oi_strategy_id i), (''instrument_id'', oi_instrument_id i),
        (''correlation_id'', oi_correlation_id i)]) (\<lambda>_.
     and_then (validate_utc_timestamp rfc3339 ''intent created_at'' (oi_created_at i)) (\<lambda>_.
     if oi_quantity i \<le> ZERO \<or> oi_rationale i = [] \<or> oi_created_at i = []
     then Err ''intent quantity, rationale, and creation time are required''
     else if oi_order_type i = LimitOrder \<and> oi_limit_price i = None
          \<or> oi_order_type i = MarketOrder \<and> oi_limit_price i \<noteq> None
     then Err ''intent limit price does not match order type''
     else Ok ()))"

lemma order_intent_validate_eq_Ok [result_simps]:
  "order_intent_validate rfc i = Inr u \<longleftrightarrow>
     canonical_id (oi_intent_id i) \<and> canonical_id (oi_account_id i)
     \<and> canonical_id (oi_strategy_id i) \<and> canonical_id (oi_instrument_id i)
     \<and> canonical_id (oi_correlation_id i)
     \<and> canonical_shape (oi_created_at i) \<and> rfc (oi_created_at i)
     \<and> ZERO < oi_quantity i \<and> oi_rationale i \<noteq> []
     \<and> (oi_order_type i = LimitOrder \<longleftrightarrow> oi_limit_price i \<noteq> None)"
  by (cases "oi_order_type i")
    (auto simp: order_intent_validate_def and_then_eq_Inr result_simps canonical_shape_def not_le)

section \<open>Lifecycle records\<close>

record risk_decision =
  rd_decision_id :: string
  rd_intent_id :: string
  rd_approved :: bool
  rd_reason_codes :: "string list"
  rd_policy_version :: string
  rd_decided_at :: string
  rd_correlation_id :: string
  rd_actor :: string
  rd_evaluated_limits :: string

datatype order_state =
    Created | PendingRisk | RiskRejected | Approved | PendingSubmit | Submitted | Acknowledged
  | PartiallyFilled | Filled | PendingCancel | PendingReplace | Cancelled | Rejected | Expired
  | Unknown

fun order_state_as_str :: "order_state \<Rightarrow> string" where
  "order_state_as_str Created = ''CREATED''"
| "order_state_as_str PendingRisk = ''PENDING_RISK''"
| "order_state_as_str RiskRejected = ''RISK_REJECTED''"
| "order_state_as_str Approved = ''APPROVED''"
| "order_state_as_str PendingSubmit = ''PENDING_SUBMIT''"
| "order_state_as_str Submitted = ''SUBMITTED''"
| "order_state_as_str Acknowledged = ''ACKNOWLEDGED''"
| "order_state_as_str PartiallyFilled = ''PARTIALLY_FILLED''"
| "order_state_as_str Filled = ''FILLED''"
| "order_state_as_str PendingCancel = ''PENDING_CANCEL''"
| "order_state_as_str PendingReplace = ''PENDING_REPLACE''"
| "order_state_as_str Cancelled = ''CANCELLED''"
| "order_state_as_str Rejected = ''REJECTED''"
| "order_state_as_str Expired = ''EXPIRED''"
| "order_state_as_str Unknown = ''UNKNOWN''"

record order_state_change =
  osc_order_id :: string
  osc_previous_state :: "order_state option"
  osc_new_state :: order_state
  osc_reason :: string

record fill =
  fl_execution_id :: string
  fl_order_id :: string
  fl_instrument_id :: string
  fl_side :: side
  fl_quantity :: decimal
  fl_price :: decimal
  fl_fee :: decimal
  fl_executed_at :: string

record position_snapshot =
  ps_account_id :: string
  ps_instrument_id :: string
  ps_quantity :: decimal
  ps_average_cost :: decimal
  ps_realized_pnl :: decimal

record pnl_snapshot =
  pl_account_id :: string
  pl_instrument_id :: string
  pl_mark_price :: decimal
  pl_realized_pnl :: decimal
  pl_unrealized_pnl :: decimal
  pl_total_pnl :: decimal

record audit_trail =
  at_correlation_id :: string
  at_event_ids :: "string list"
  at_summary :: string

section \<open>Bars\<close>

record bar =
  br_instrument_id :: string
  br_open :: decimal
  br_high :: decimal
  br_low :: decimal
  br_close :: decimal
  br_volume :: decimal
  br_interval_seconds :: nat
  br_exchange_timezone :: string

definition bar_validate :: "bar \<Rightarrow> unit result" where
  "bar_validate b =
     and_then (validate_canonical_id ''instrument_id'' (br_instrument_id b)) (\<lambda>_.
     if br_interval_seconds b = 0 \<or> br_open b \<le> ZERO \<or> br_high b \<le> ZERO \<or> br_low b \<le> ZERO
        \<or> br_close b \<le> ZERO \<or> br_volume b < ZERO
     then Err ''bar prices and interval must be positive and volume cannot be negative''
     else if br_high b < br_low b \<or> br_open b < br_low b \<or> br_open b > br_high b
        \<or> br_close b < br_low b \<or> br_close b > br_high b
     then Err ''bar OHLC values are inconsistent''
     else if br_exchange_timezone b = [] then Err ''bar exchange timezone is required''
     else Ok ())"

lemma bar_validate_eq_Ok [result_simps]:
  "bar_validate b = Inr u \<longleftrightarrow> canonical_id (br_instrument_id b) \<and> br_interval_seconds b \<noteq> 0
     \<and> ZERO < br_low b \<and> br_low b \<le> br_open b \<and> br_open b \<le> br_high b
     \<and> br_low b \<le> br_close b \<and> br_close b \<le> br_high b \<and> ZERO \<le> br_volume b
     \<and> br_exchange_timezone b \<noteq> []"
  by (auto simp: bar_validate_def and_then_eq_Inr result_simps not_le not_less decimal_order)

section \<open>Properties\<close>

text \<open>An order granted as risk-reducing beside other working reductions can never turn the
  position over: whatever parts of it and of the working orders fill, the position stays between its
  present value and flat.\<close>

theorem reducing_with_working_never_reverses:
  assumes "reduces_position_with_working current projected working = Ok True"
    and "0 \<le> a" "a \<le> \<bar>scaled projected - scaled current\<bar>" "0 \<le> b" "b \<le> scaled working"
  shows "let position = scaled current - sgn (scaled current) * (a + b) in
    \<bar>position\<bar> \<le> \<bar>scaled current\<bar> \<and> (position = 0 \<or> sgn position = sgn (scaled current))"
proof -
  from reduces_position_with_working_True [OF assms(1)]
  have "a + b \<le> \<bar>scaled current\<bar>" using assms by linarith
  with assms(2,4) show ?thesis
    by (cases "scaled current" "0::int" rule: linorder_cases) (auto simp: Let_def sgn_if)
qed

theorem reducing_with_working_never_reverses_witness:
  "let position = scaled (Decimal 10) - sgn (scaled (Decimal 10)) * (4 + 6) in
    \<bar>position\<bar> \<le> \<bar>scaled (Decimal 10)\<bar> \<and> (position = 0 \<or> sgn position = sgn (scaled (Decimal 10)))"
  using reducing_with_working_never_reverses [of "Decimal 10" "Decimal 6" "Decimal 6" 4 6]
  by (simp add: reduces_position_with_working_def reduces_position_def magnitude_def
      checked_sub_def checked_add_def i128_checked_def in_i128_def)

end
