(* ===== verification/Instruments.thy ===== *)
theory Instruments
  imports OrderedMap Orders "HOL-Library.Product_Lexorder"
begin

text \<open>
  Component: reference data and exchange sessions (\<^verbatim>\<open>core/instrument/src/lib.rs\<close>):
  effective-dated instrument versions and their registry, sessions, halts and the static
  trading calendar. The calendar trait is the locale \<open>trading_calendar\<close>, interpreted on the
  static calendar. Contract economics (\<^verbatim>\<open>InstrumentEconomics\<close>) are not modelled here.
\<close>

section \<open>Instruments\<close>

datatype asset_class = Equity | Etf | OptionClass | FutureClass | FxSpot | FxForward | FxSwap

fun asset_class_as_str :: "asset_class \<Rightarrow> string" where
  "asset_class_as_str Equity = ''EQUITY''"
| "asset_class_as_str Etf = ''ETF''"
| "asset_class_as_str OptionClass = ''OPTION''"
| "asset_class_as_str FutureClass = ''FUTURE''"
| "asset_class_as_str FxSpot = ''FX_SPOT''"
| "asset_class_as_str FxForward = ''FX_FORWARD''"
| "asset_class_as_str FxSwap = ''FX_SWAP''"

record instrument =
  in_instrument_id :: string
  in_symbol :: string
  in_exchange_symbol :: string
  in_asset_class :: asset_class
  in_venue :: string
  in_currency :: string
  in_broker_ids :: "(string, string) btree_map"
  in_tick_size :: decimal
  in_lot_size :: decimal
  in_multiplier :: decimal
  in_trading_calendar_id :: string

definition currency_code :: "string \<Rightarrow> bool" where
  "currency_code s \<longleftrightarrow> length s = 3 \<and> list_all is_ascii_uppercase s"

definition instrument_validate :: "instrument \<Rightarrow> unit result" where
  "instrument_validate i =
     and_then (validate_canonical_id ''instrument_id'' (in_instrument_id i)) (\<lambda>_.
     and_then (validate_canonical_id ''venue'' (in_venue i)) (\<lambda>_.
     and_then (validate_canonical_id ''trading_calendar_id'' (in_trading_calendar_id i)) (\<lambda>_.
     if in_symbol i = [] \<or> in_exchange_symbol i = [] \<or> \<not> currency_code (in_currency i)
        \<or> in_tick_size i \<le> ZERO \<or> in_lot_size i \<le> ZERO \<or> in_multiplier i \<le> ZERO
     then Err ''instrument has invalid trading reference data''
     else try_each (\<lambda>(adapter, broker_id).
            and_then (validate_canonical_id ''broker adapter'' adapter) (\<lambda>_.
            if broker_id = [] then Err ''broker instrument ID cannot be empty'' else Ok ()))
          (in_broker_ids i))))"

section \<open>Effective-dated versions\<close>

record instrument_version =
  iv_instrument :: instrument
  iv_effective_from :: string
  iv_effective_to :: "string option"
  iv_reference_version :: string

definition instrument_version_validate ::
    "(string \<Rightarrow> bool) \<Rightarrow> instrument_version \<Rightarrow> unit result" where
  "instrument_version_validate rfc3339 v =
     and_then (instrument_validate (iv_instrument v)) (\<lambda>_.
     and_then (validate_utc_timestamp rfc3339 ''instrument effective_from'' (iv_effective_from v)) (\<lambda>_.
     and_then (case iv_effective_to v of None \<Rightarrow> Ok () | Some effective_to \<Rightarrow>
         and_then (validate_utc_timestamp rfc3339 ''instrument effective_to'' effective_to) (\<lambda>_.
         if effective_to \<le> iv_effective_from v
         then Err ''instrument version has invalid effective dates'' else Ok ())) (\<lambda>_.
     if iv_reference_version v = []
     then Err ''instrument version has invalid effective dates'' else Ok ())))"

definition applies_at :: "instrument_version \<Rightarrow> string \<Rightarrow> bool" where
  "applies_at v t \<longleftrightarrow> iv_effective_from v \<le> t
     \<and> (case iv_effective_to v of None \<Rightarrow> True | Some end_at \<Rightarrow> t < end_at)"

definition ranges_overlap :: "instrument_version \<Rightarrow> instrument_version \<Rightarrow> bool" where
  "ranges_overlap l r \<longleftrightarrow>
     (case iv_effective_to l of None \<Rightarrow> True | Some end_at \<Rightarrow> end_at > iv_effective_from r)
     \<and> (case iv_effective_to r of None \<Rightarrow> True | Some end_at \<Rightarrow> end_at > iv_effective_from l)"

type_synonym instrument_registry = "string \<Rightarrow> instrument_version list option"

definition registry_register ::
    "(string \<Rightarrow> bool) \<Rightarrow> instrument_registry \<Rightarrow> instrument_version
      \<Rightarrow> instrument_registry result" where
  "registry_register rfc3339 m v =
     and_then (instrument_version_validate rfc3339 v) (\<lambda>_.
     let key = in_instrument_id (iv_instrument v);
         entries = (case m key of None \<Rightarrow> [] | Some vs \<Rightarrow> vs) in
     if list_ex (\<lambda>existing. ranges_overlap existing v) entries
     then Err ''instrument reference-data ranges overlap''
     else Ok (m(key \<mapsto> sort_key iv_effective_from (entries @ [v]))))"

definition registry_resolve ::
    "instrument_registry \<Rightarrow> string \<Rightarrow> string \<Rightarrow> instrument_version option" where
  "registry_resolve m key t = Option.bind (m key) (find (\<lambda>v. applies_at v t))"

text \<open>A registry built by registrations only.\<close>

fun registry_of :: "(string \<Rightarrow> bool) \<Rightarrow> instrument_version list \<Rightarrow> instrument_registry result" where
  "registry_of rfc3339 [] = Ok Map.empty"
| "registry_of rfc3339 (v # vs) =
     and_then (registry_of rfc3339 vs) (\<lambda>m. registry_register rfc3339 m v)"

definition version_range_ok :: "instrument_version \<Rightarrow> bool" where
  "version_range_ok v \<longleftrightarrow>
     (case iv_effective_to v of None \<Rightarrow> True | Some end_at \<Rightarrow> iv_effective_from v < end_at)"

definition registry_wf :: "instrument_registry \<Rightarrow> bool" where
  "registry_wf m \<longleftrightarrow> (\<forall>key vs. m key = Some vs \<longrightarrow>
     sorted (map iv_effective_from vs) \<and>
     (\<forall>v\<in>set vs. version_range_ok v \<and> in_instrument_id (iv_instrument v) = key) \<and>
     (\<forall>v\<in>set vs. \<forall>w\<in>set vs. v \<noteq> w \<longrightarrow> \<not> ranges_overlap v w))"

lemma ranges_overlap_sym: "ranges_overlap l r = ranges_overlap r l"
  by (auto simp: ranges_overlap_def)

text \<open>Overlap is what the name says: an instant at which both versions apply.\<close>

lemma ranges_overlap_iff:
  assumes "version_range_ok l" "version_range_ok r"
  shows "ranges_overlap l r \<longleftrightarrow> (\<exists>t. applies_at l t \<and> applies_at r t)"
proof
  assume "ranges_overlap l r"
  with assms have "applies_at l (max (iv_effective_from l) (iv_effective_from r))
      \<and> applies_at r (max (iv_effective_from l) (iv_effective_from r))"
    by (auto simp: ranges_overlap_def applies_at_def version_range_ok_def split: option.splits)
  then show "\<exists>t. applies_at l t \<and> applies_at r t" by blast
next
  assume "\<exists>t. applies_at l t \<and> applies_at r t"
  then show "ranges_overlap l r"
    by (auto simp: ranges_overlap_def applies_at_def split: option.splits intro: order_le_less_trans)
qed

lemma instrument_version_validate_range:
  "instrument_version_validate rfc v = Inr u \<Longrightarrow> version_range_ok v"
  by (auto simp: instrument_version_validate_def and_then_eq_Inr version_range_ok_def not_le
      split: option.splits if_splits)

lemma registry_wf_empty: "registry_wf Map.empty"
  by (simp add: registry_wf_def)

lemma registry_register_wf:
  assumes "registry_register rfc m v = Inr m'" "registry_wf m"
  shows "registry_wf m'"
proof -
  let ?key = "in_instrument_id (iv_instrument v)"
  let ?old = "case m ?key of None \<Rightarrow> [] | Some vs \<Rightarrow> vs"
  from assms(1) have v: "version_range_ok v"
    and sep: "\<forall>w\<in>set ?old. \<not> ranges_overlap w v"
    and m': "m' = m(?key \<mapsto> sort_key iv_effective_from (?old @ [v]))"
    by (auto simp: registry_register_def and_then_eq_Inr Let_def list_ex_iff
        dest: instrument_version_validate_range split: if_splits)
  from assms(2) have old: "\<forall>w\<in>set ?old. version_range_ok w \<and> in_instrument_id (iv_instrument w) = ?key"
    "\<forall>x\<in>set ?old. \<forall>w\<in>set ?old. x \<noteq> w \<longrightarrow> \<not> ranges_overlap x w"
    by (cases "m ?key"; simp add: registry_wf_def)+
  have new: "set (sort_key iv_effective_from (?old @ [v])) = insert v (set ?old)"
    by (simp del: sort_key_simps)
  have "\<forall>x\<in>insert v (set ?old). \<forall>w\<in>insert v (set ?old). x \<noteq> w \<longrightarrow> \<not> ranges_overlap x w"
    using old(2) sep ranges_overlap_sym by blast
  with old(1) v assms(2) show ?thesis
    unfolding registry_wf_def m'
    by (auto simp: new simp del: sort_key_simps set_sort)
qed

lemma registry_of_wf: "registry_of rfc vs = Inr m \<Longrightarrow> registry_wf m"
  by (induction vs arbitrary: m)
    (auto simp: registry_wf_empty and_then_eq_Inr intro: registry_register_wf)

lemma registry_resolve_iff:
  assumes "registry_wf m"
  shows "registry_resolve m key t = Some v \<longleftrightarrow>
    (\<exists>vs. m key = Some vs \<and> v \<in> set vs \<and> applies_at v t)"
proof
  assume "registry_resolve m key t = Some v"
  then show "\<exists>vs. m key = Some vs \<and> v \<in> set vs \<and> applies_at v t"
    by (auto simp: registry_resolve_def Option.bind_eq_Some_conv find_Some_iff)
next
  assume "\<exists>vs. m key = Some vs \<and> v \<in> set vs \<and> applies_at v t"
  then obtain vs where vs: "m key = Some vs" "v \<in> set vs" "applies_at v t" by blast
  then obtain w where w: "find (\<lambda>v. applies_at v t) vs = Some w"
    by (cases "find (\<lambda>v. applies_at v t) vs") (auto simp: find_None_iff)
  then have "w \<in> set vs" "applies_at w t" by (auto simp: find_Some_iff)
  with vs assms have "w = v"
    unfolding registry_wf_def by (metis ranges_overlap_iff)
  with vs w show "registry_resolve m key t = Some v"
    by (simp add: registry_resolve_def)
qed

section \<open>Sessions, halts and calendars\<close>

record trading_session =
  ts_exchange_date :: string
  ts_opens_at :: string
  ts_closes_at :: string

definition session_validate :: "(string \<Rightarrow> bool) \<Rightarrow> trading_session \<Rightarrow> unit result" where
  "session_validate rfc3339 s =
     and_then (validate_utc_timestamp rfc3339 ''session opens_at'' (ts_opens_at s)) (\<lambda>_.
     and_then (validate_utc_timestamp rfc3339 ''session closes_at'' (ts_closes_at s)) (\<lambda>_.
     if length (ts_exchange_date s) \<noteq> 10 \<or> ts_opens_at s \<ge> ts_closes_at s
     then Err ''trading session is invalid'' else Ok ()))"

definition session_contains :: "trading_session \<Rightarrow> string \<Rightarrow> bool" where
  "session_contains s t \<longleftrightarrow> ts_opens_at s \<le> t \<and> t < ts_closes_at s"

record trading_halt =
  th_halt_id :: string
  th_instrument_id :: "string option"
  th_starts_at :: string
  th_ends_at :: string
  th_reason :: string

definition halt_validate :: "(string \<Rightarrow> bool) \<Rightarrow> trading_halt \<Rightarrow> unit result" where
  "halt_validate rfc3339 h =
     and_then (validate_canonical_id ''halt_id'' (th_halt_id h)) (\<lambda>_.
     and_then (case th_instrument_id h of None \<Rightarrow> Ok ()
       | Some i \<Rightarrow> validate_canonical_id ''halt instrument_id'' i) (\<lambda>_.
     and_then (validate_utc_timestamp rfc3339 ''halt starts_at'' (th_starts_at h)) (\<lambda>_.
     and_then (validate_utc_timestamp rfc3339 ''halt ends_at'' (th_ends_at h)) (\<lambda>_.
     if th_starts_at h \<ge> th_ends_at h \<or> trim (th_reason h) = []
     then Err ''trading halt is invalid'' else Ok ()))))"

definition halt_contains :: "trading_halt \<Rightarrow> string \<Rightarrow> string \<Rightarrow> bool" where
  "halt_contains h instrument_id t \<longleftrightarrow>
     (case th_instrument_id h of None \<Rightarrow> True | Some scope \<Rightarrow> scope = instrument_id)
     \<and> th_starts_at h \<le> t \<and> t < th_ends_at h"

record static_calendar =
  sc_calendar_id :: string
  sc_sessions :: "trading_session list"
  sc_halts :: "trading_halt list"

fun any_pair :: "('a \<Rightarrow> 'a \<Rightarrow> bool) \<Rightarrow> 'a list \<Rightarrow> bool" where
  "any_pair P [] = False"
| "any_pair P (x # xs) = (list_ex (P x) xs \<or> any_pair P xs)"

definition sessions_overlap :: "trading_session list \<Rightarrow> bool" where
  "sessions_overlap ss = list_ex (\<lambda>(a, b). ts_closes_at a > ts_opens_at b) (zip ss (tl ss))"

definition check_halt ::
    "(string \<Rightarrow> bool) \<Rightarrow> trading_session list \<Rightarrow> trading_halt \<Rightarrow> string list
      \<Rightarrow> string list result" where
  "check_halt rfc3339 sessions h halt_ids =
     and_then (halt_validate rfc3339 h) (\<lambda>_.
     if th_halt_id h \<in> set halt_ids then Err ''trading halt IDs must be unique''
     else if \<not> list_ex (\<lambda>s. ts_opens_at s \<le> th_starts_at h \<and> th_ends_at h \<le> ts_closes_at s) sessions
     then Err ''trading halt must be contained by an explicit session''
     else Ok (th_halt_id h # halt_ids))"

definition halts_overlap :: "trading_halt \<Rightarrow> trading_halt \<Rightarrow> bool" where
  "halts_overlap l r \<longleftrightarrow> th_instrument_id l = th_instrument_id r
     \<and> th_starts_at l < th_ends_at r \<and> th_starts_at r < th_ends_at l"

definition calendar_new_with_halts ::
    "(string \<Rightarrow> bool) \<Rightarrow> string \<Rightarrow> trading_session list \<Rightarrow> trading_halt list
      \<Rightarrow> static_calendar result" where
  "calendar_new_with_halts rfc3339 cal_id sessions halts =
     and_then (validate_canonical_id ''calendar_id'' cal_id) (\<lambda>_.
     if sessions = [] then Err ''trading calendar must contain at least one explicit session''
     else and_then (try_each (session_validate rfc3339) sessions) (\<lambda>_.
       let sorted_sessions = sort_key ts_opens_at sessions in
       if sessions_overlap sorted_sessions then Err ''trading calendar sessions overlap''
       else and_then (try_fold (check_halt rfc3339 sorted_sessions) halts []) (\<lambda>_.
         if any_pair halts_overlap halts
         then Err ''trading halt windows with the same scope overlap''
         else Ok \<lparr>sc_calendar_id = cal_id, sc_sessions = sorted_sessions,
           sc_halts = sort_key (\<lambda>h. (th_starts_at h, th_halt_id h)) halts\<rparr>)))"

definition calendar_session_at :: "static_calendar \<Rightarrow> string \<Rightarrow> trading_session option" where
  "calendar_session_at c t = find (\<lambda>s. session_contains s t) (sc_sessions c)"

definition calendar_session_for_exchange_date ::
    "static_calendar \<Rightarrow> string \<Rightarrow> trading_session option" where
  "calendar_session_for_exchange_date c d = find (\<lambda>s. ts_exchange_date s = d) (sc_sessions c)"

definition calendar_is_open_at :: "static_calendar \<Rightarrow> string \<Rightarrow> bool" where
  "calendar_is_open_at c t \<longleftrightarrow> calendar_session_at c t \<noteq> None"

definition calendar_is_instrument_open_at :: "static_calendar \<Rightarrow> string \<Rightarrow> string \<Rightarrow> bool" where
  "calendar_is_instrument_open_at c instrument_id t \<longleftrightarrow> calendar_is_open_at c t
     \<and> \<not> list_ex (\<lambda>h. halt_contains h instrument_id t) (sc_halts c)"

text \<open>
  The trait as its clients see it: an instrument is open only inside a session, and the session
  is the one that contains the instant.
\<close>

locale trading_calendar =
  fixes session_at :: "'c \<Rightarrow> string \<Rightarrow> trading_session option"
    and is_open_at :: "'c \<Rightarrow> string \<Rightarrow> bool"
    and is_instrument_open_at :: "'c \<Rightarrow> string \<Rightarrow> string \<Rightarrow> bool"
  assumes session_at_contains: "session_at c t = Some s \<Longrightarrow> session_contains s t"
    and open_iff_session: "is_open_at c t \<longleftrightarrow> session_at c t \<noteq> None"
    and instrument_open_imp_open: "is_instrument_open_at c i t \<Longrightarrow> is_open_at c t"
begin

lemma instrument_open_session:
  "is_instrument_open_at c i t \<Longrightarrow> \<exists>s. session_at c t = Some s \<and> ts_opens_at s \<le> t \<and> t < ts_closes_at s"
  using instrument_open_imp_open open_iff_session session_at_contains session_contains_def by blast

end

interpretation static_cal: trading_calendar calendar_session_at calendar_is_open_at
    calendar_is_instrument_open_at
  by unfold_locales
    (auto simp: calendar_session_at_def calendar_is_open_at_def calendar_is_instrument_open_at_def
      find_Some_iff)

lemma sessions_disjoint:
  assumes "\<not> sessions_overlap ss" "\<forall>s\<in>set ss. ts_opens_at s < ts_closes_at s"
  shows "sorted_wrt (\<lambda>a b. ts_closes_at a \<le> ts_opens_at b) ss"
  using assms
proof (induction ss)
  case (Cons a ss)
  show ?case
  proof (cases ss)
    case (Cons b rest)
    with Cons.prems have tail: "\<not> sessions_overlap ss" and ab: "ts_closes_at a \<le> ts_opens_at b"
      by (auto simp: sessions_overlap_def not_less)
    with Cons.IH Cons.prems have "sorted_wrt (\<lambda>a b. ts_closes_at a \<le> ts_opens_at b) ss" by simp
    with Cons Cons.prems ab show ?thesis by fastforce
  qed simp
qed simp

lemma calendar_new_sessions:
  assumes "calendar_new_with_halts rfc i ss hs = Inr c"
  shows "set (sc_sessions c) = set ss" "set (sc_halts c) = set hs"
    "sorted_wrt (\<lambda>a b. ts_closes_at a \<le> ts_opens_at b) (sc_sessions c)"
    "\<forall>s\<in>set (sc_sessions c). ts_opens_at s < ts_closes_at s"
proof -
  from assms have c: "sc_sessions c = sort_key ts_opens_at ss" "set (sc_halts c) = set hs"
    and no: "\<not> sessions_overlap (sort_key ts_opens_at ss)"
    and valid: "\<forall>s\<in>set ss. ts_opens_at s < ts_closes_at s"
    by (auto simp: calendar_new_with_halts_def and_then_eq_Inr result_simps Let_def
        session_validate_def not_le split: if_splits)
  from c show "set (sc_sessions c) = set ss" "set (sc_halts c) = set hs" by simp_all
  from sessions_disjoint [OF no] valid c show
    "sorted_wrt (\<lambda>a b. ts_closes_at a \<le> ts_opens_at b) (sc_sessions c)"
    "\<forall>s\<in>set (sc_sessions c). ts_opens_at s < ts_closes_at s"
    by simp_all
qed

lemma disjoint_sessions_unique:
  assumes "sorted_wrt (\<lambda>a b. ts_closes_at a \<le> ts_opens_at b) ss"
    "s \<in> set ss" "s' \<in> set ss" "session_contains s t" "session_contains s' t"
  shows "s = s'"
  using assms by (induction ss) (auto simp: session_contains_def)

lemma check_halts_contained:
  "try_fold (check_halt rfc ss) hs ids = Inr ids' \<Longrightarrow> h \<in> set hs \<Longrightarrow>
    th_starts_at h < th_ends_at h \<and>
    (\<exists>s\<in>set ss. ts_opens_at s \<le> th_starts_at h \<and> th_ends_at h \<le> ts_closes_at s)"
  by (induction hs arbitrary: ids)
    (auto simp: and_then_eq_Inr check_halt_def halt_validate_def list_ex_iff not_le
        not_less split: if_splits)

lemma calendar_new_halts:
  assumes "calendar_new_with_halts rfc i ss hs = Inr c" "h \<in> set (sc_halts c)"
  shows "\<exists>s\<in>set (sc_sessions c). ts_opens_at s \<le> th_starts_at h \<and> th_ends_at h \<le> ts_closes_at s"
proof -
  from assms obtain ids where "try_fold (check_halt rfc (sc_sessions c)) hs [] = Inr ids" "h \<in> set hs"
    by (auto simp: calendar_new_with_halts_def and_then_eq_Inr Let_def split: if_splits)
  then show ?thesis by (auto dest: check_halts_contained)
qed

section \<open>Properties\<close>

lemma registry_register_contents:
  assumes "registry_register rfc m v = Inr m'"
  shows "(\<exists>vs. m' key = Some vs \<and> w \<in> set vs) \<longleftrightarrow>
    (\<exists>vs. m key = Some vs \<and> w \<in> set vs) \<or> key = in_instrument_id (iv_instrument v) \<and> w = v"
proof -
  let ?key = "in_instrument_id (iv_instrument v)"
  let ?old = "case m ?key of None \<Rightarrow> [] | Some vs \<Rightarrow> vs"
  from assms have m': "m' = m(?key \<mapsto> sort_key iv_effective_from (?old @ [v]))"
    by (auto simp: registry_register_def and_then_eq_Inr Let_def split: if_splits)
  have "set (sort_key iv_effective_from (?old @ [v])) = insert v (set ?old)"
    by (simp del: sort_key_simps)
  then show ?thesis unfolding m'
    by (auto simp del: sort_key_simps set_sort split: option.splits)
qed

lemma registry_of_contents:
  "registry_of rfc vs = Inr m \<Longrightarrow> (\<exists>ws. m key = Some ws \<and> w \<in> set ws) \<longleftrightarrow>
    w \<in> set vs \<and> in_instrument_id (iv_instrument w) = key"
proof (induction vs arbitrary: m)
  case (Cons v vs)
  then obtain m0 where "registry_of rfc vs = Inr m0" "registry_register rfc m0 v = Inr m"
    by (auto simp: and_then_eq_Inr)
  with Cons.IH [of m0] registry_register_contents [of rfc m0 v m key w] show ?case by auto
qed simp

text \<open>A registry built by registrations answers with exactly the registered version that
  applies at the instant asked for, and the overlap test leaves no two that could.\<close>

theorem registry_resolves_uniquely:
  assumes "registry_of rfc3339 versions = Ok m"
  shows "(registry_resolve m key t = Some v \<longleftrightarrow>
      v \<in> set versions \<and> in_instrument_id (iv_instrument v) = key \<and> applies_at v t)
    \<and> (\<forall>w\<in>set versions. in_instrument_id (iv_instrument w) = key \<and> applies_at w t \<longrightarrow>
        registry_resolve m key t = Some w)"
  using registry_resolve_iff [OF registry_of_wf [OF assms], of key t]
    registry_of_contents [OF assms, of key] by blast

definition sample_instrument :: instrument where
  "sample_instrument = \<lparr>in_instrument_id = ''x'', in_symbol = ''X'', in_exchange_symbol = ''X'',
     in_asset_class = Equity, in_venue = ''v'', in_currency = ''USD'', in_broker_ids = [],
     in_tick_size = Decimal 1000000, in_lot_size = Decimal 100000000,
     in_multiplier = Decimal 100000000, in_trading_calendar_id = ''cal''\<rparr>"

definition sample_version :: "string option \<Rightarrow> string \<Rightarrow> instrument_version" where
  "sample_version until start = \<lparr>iv_instrument = sample_instrument, iv_effective_from = start,
     iv_effective_to = until, iv_reference_version = ''1''\<rparr>"

lemma sample_timestamps:
  "canonical_shape ''2026-01-01T00:00:00Z''" "canonical_shape ''2026-02-01T00:00:00Z''"
  "canonical_shape ''2026-01-05T09:30:00Z''" "canonical_shape ''2026-01-05T16:00:00Z''"
  "canonical_shape ''2026-01-05T10:00:00Z''" "canonical_shape ''2026-01-05T11:00:00Z''"
  by (simp_all add: canonical_shape_def enumerate0_def upt_rec timestamp_byte_ok_def is_ascii_digit_def)

lemma sample_instrument_valid: "instrument_validate sample_instrument = Ok ()"
  by (simp add: instrument_validate_def sample_instrument_def validate_canonical_id_def is_id_byte_def
      byte_simps currency_code_def)

lemma sample_registry:
  "\<exists>m. registry_of (\<lambda>_. True) [sample_version None ''2026-02-01T00:00:00Z'',
     sample_version (Some ''2026-02-01T00:00:00Z'') ''2026-01-01T00:00:00Z''] = Ok m"
  by (simp add: registry_register_def instrument_version_validate_def validate_utc_timestamp_def
      sample_version_def sample_instrument_valid sample_timestamps ranges_overlap_def Let_def)

theorem registry_resolves_uniquely_witness:
  "\<exists>m. registry_resolve m ''x'' ''2026-01-05T10:00:00Z''
     = Some (sample_version (Some ''2026-02-01T00:00:00Z'') ''2026-01-01T00:00:00Z'')"
proof -
  from sample_registry obtain m where m: "registry_of (\<lambda>_. True)
     [sample_version None ''2026-02-01T00:00:00Z'',
      sample_version (Some ''2026-02-01T00:00:00Z'') ''2026-01-01T00:00:00Z''] = Ok m" by blast
  have "registry_resolve m ''x'' ''2026-01-05T10:00:00Z''
     = Some (sample_version (Some ''2026-02-01T00:00:00Z'') ''2026-01-01T00:00:00Z'')"
    by (subst registry_resolves_uniquely [OF m, THEN conjunct1])
      (simp add: sample_version_def sample_instrument_def applies_at_def)
  then show ?thesis by blast
qed

text \<open>A calendar that was accepted opens an instrument at exactly the instants that lie in one
  of its configured sessions and in no halt that covers the instrument; the session is then
  unique, and every halt lies inside a session.\<close>

theorem calendar_open_exact:
  assumes "calendar_new_with_halts rfc3339 cal_id sessions halts = Ok c"
  shows "(calendar_is_instrument_open_at c i t \<longleftrightarrow>
      (\<exists>s\<in>set sessions. ts_opens_at s \<le> t \<and> t < ts_closes_at s)
      \<and> \<not> (\<exists>h\<in>set halts. (th_instrument_id h = None \<or> th_instrument_id h = Some i)
            \<and> th_starts_at h \<le> t \<and> t < th_ends_at h))
    \<and> (calendar_session_at c t = Some s \<longleftrightarrow> s \<in> set sessions \<and> session_contains s t)
    \<and> (\<forall>h\<in>set halts. \<exists>s\<in>set sessions. ts_opens_at s \<le> th_starts_at h \<and> th_ends_at h \<le> ts_closes_at s)"
proof (intro conjI)
  note new = calendar_new_sessions [OF assms]
  have found: "calendar_session_at c t = None \<longleftrightarrow> \<not> (\<exists>s\<in>set sessions. session_contains s t)"
    using new(1) by (auto simp: calendar_session_at_def find_None_iff)
  show "calendar_session_at c t = Some s \<longleftrightarrow> s \<in> set sessions \<and> session_contains s t"
  proof
    assume "calendar_session_at c t = Some s"
    then show "s \<in> set sessions \<and> session_contains s t"
      using new(1) by (auto simp: calendar_session_at_def find_Some_iff)
  next
    assume s: "s \<in> set sessions \<and> session_contains s t"
    with found obtain s' where s': "calendar_session_at c t = Some s'" by fastforce
    then have "s' \<in> set (sc_sessions c)" "session_contains s' t"
      by (auto simp: calendar_session_at_def find_Some_iff)
    with s s' new(1) show "calendar_session_at c t = Some s"
      using disjoint_sessions_unique [OF new(3)] by blast
  qed
  show "calendar_is_instrument_open_at c i t \<longleftrightarrow>
      (\<exists>s\<in>set sessions. ts_opens_at s \<le> t \<and> t < ts_closes_at s)
      \<and> \<not> (\<exists>h\<in>set halts. (th_instrument_id h = None \<or> th_instrument_id h = Some i)
            \<and> th_starts_at h \<le> t \<and> t < th_ends_at h)"
    using found new(2)
    by (auto simp: calendar_is_instrument_open_at_def calendar_is_open_at_def list_ex_iff
        halt_contains_def session_contains_def split: option.splits)
  show "\<forall>h\<in>set halts. \<exists>s\<in>set sessions. ts_opens_at s \<le> th_starts_at h \<and> th_ends_at h \<le> ts_closes_at s"
    using calendar_new_halts [OF assms] new(1,2) by auto
qed

definition sample_session :: trading_session where
  "sample_session = \<lparr>ts_exchange_date = ''2026-01-05'', ts_opens_at = ''2026-01-05T09:30:00Z'',
     ts_closes_at = ''2026-01-05T16:00:00Z''\<rparr>"

definition sample_halt :: trading_halt where
  "sample_halt = \<lparr>th_halt_id = ''h'', th_instrument_id = Some ''x'',
     th_starts_at = ''2026-01-05T10:00:00Z'', th_ends_at = ''2026-01-05T11:00:00Z'', th_reason = ''news''\<rparr>"

lemma sample_reason: "trim ''news'' = ''news''"
  by (rule trim_graphic) (simp_all add: graphic_def)

lemma sample_calendar:
  "\<exists>c. calendar_new_with_halts (\<lambda>_. True) ''cal'' [sample_session] [sample_halt] = Ok c"
  by (simp add: calendar_new_with_halts_def validate_canonical_id_def is_id_byte_def byte_simps
      session_validate_def validate_utc_timestamp_def sample_session_def sample_halt_def
      sample_timestamps sessions_overlap_def check_halt_def halt_validate_def sample_reason Let_def)

theorem calendar_open_exact_witness:
  "\<exists>c. \<not> calendar_is_instrument_open_at c ''x'' ''2026-01-05T10:00:00Z''
    \<and> calendar_is_instrument_open_at c ''y'' ''2026-01-05T10:00:00Z''"
proof -
  from sample_calendar obtain c where
    c: "calendar_new_with_halts (\<lambda>_. True) ''cal'' [sample_session] [sample_halt] = Ok c" by blast
  have "\<not> calendar_is_instrument_open_at c ''x'' ''2026-01-05T10:00:00Z''"
    by (subst calendar_open_exact [OF c, THEN conjunct1]) (simp add: sample_halt_def)
  moreover have "calendar_is_instrument_open_at c ''y'' ''2026-01-05T10:00:00Z''"
    by (subst calendar_open_exact [OF c, THEN conjunct1])
      (simp add: sample_halt_def sample_session_def)
  ultimately show ?thesis by blast
qed

end
