(* ===== verification/Combos.thy ===== *)
theory Combos
  imports Orders
begin

text \<open>
  Component: atomic multi-leg combinations (\<^verbatim>\<open>core/domain/src/combo.rs\<close>): the net-price
  protection, the intent and its validation, and the exact economics (net price, leg
  quantities, gross notional) that the planner, the risk gate and the services share.
\<close>

datatype combo_price_limit = MaximumDebit decimal | MinimumCredit decimal

fun combo_limit_kind :: "combo_price_limit \<Rightarrow> string" where
  "combo_limit_kind (MaximumDebit _) = ''MAXIMUM_DEBIT''"
| "combo_limit_kind (MinimumCredit _) = ''MINIMUM_CREDIT''"

fun combo_limit_amount :: "combo_price_limit \<Rightarrow> decimal" where
  "combo_limit_amount (MaximumDebit amount) = amount"
| "combo_limit_amount (MinimumCredit amount) = amount"

fun check_net_price :: "combo_price_limit \<Rightarrow> decimal \<Rightarrow> unit result" where
  "check_net_price (MaximumDebit limit) protected_net_price =
     (if limit \<le> ZERO \<or> protected_net_price < ZERO \<or> protected_net_price > limit
      then Err ''combination exceeds its maximum debit'' else Ok ())"
| "check_net_price (MinimumCredit limit) protected_net_price =
     and_then (checked_sub ZERO protected_net_price) (\<lambda>credit.
     if limit \<le> ZERO \<or> credit < limit
     then Err ''combination is below its minimum credit'' else Ok ())"

record combo_leg =
  cl_instrument_id :: string
  cl_side :: side
  cl_ratio :: nat
  cl_limit_price :: decimal

record combo_intent =
  co_intent_id :: string
  co_account_id :: string
  co_strategy_id :: string
  co_correlation_id :: string
  co_legs :: "combo_leg list"
  co_combo_quantity :: decimal
  co_price_limit :: combo_price_limit
  co_time_in_force :: time_in_force
  co_rationale :: string
  co_created_at :: string
  co_strategy_version :: string
  co_configuration_version :: string
  co_environment :: string

definition combo_leg_count_ok :: "nat \<Rightarrow> bool" where
  "combo_leg_count_ok n \<longleftrightarrow> 2 \<le> n \<and> n \<le> 16"

definition combo_ratio_ok :: "nat \<Rightarrow> bool" where
  "combo_ratio_ok r \<longleftrightarrow> 1 \<le> r \<and> r \<le> 10000"

definition signed_add :: "side \<Rightarrow> decimal \<Rightarrow> decimal \<Rightarrow> decimal result" where
  "signed_add s acc amount = (case s of Buy \<Rightarrow> checked_add acc amount
     | Sell \<Rightarrow> checked_sub acc amount)"

definition combo_leg_net :: "combo_leg \<Rightarrow> decimal result" where
  "combo_leg_net leg = and_then (from_integer (int (cl_ratio leg))) (checked_mul (cl_limit_price leg))"

definition protected_net_price :: "combo_intent \<Rightarrow> decimal result" where
  "protected_net_price c = try_fold (\<lambda>leg net.
     and_then (combo_leg_net leg) (signed_add (cl_side leg) net)) (co_legs c) ZERO"

definition combo_leg_quantity :: "combo_intent \<Rightarrow> combo_leg \<Rightarrow> decimal result" where
  "combo_leg_quantity c leg =
     and_then (from_integer (int (cl_ratio leg))) (checked_mul (co_combo_quantity c))"

definition combo_gross_notional :: "combo_intent \<Rightarrow> decimal result" where
  "combo_gross_notional c = try_fold (\<lambda>leg gross.
     and_then (combo_leg_quantity c leg) (\<lambda>quantity.
     and_then (checked_mul quantity (cl_limit_price leg)) (checked_add gross))) (co_legs c) ZERO"

definition projected_leg_delta :: "combo_intent \<Rightarrow> combo_leg \<Rightarrow> decimal result" where
  "projected_leg_delta c leg = and_then (combo_leg_quantity c leg) (\<lambda>quantity.
     case cl_side leg of Buy \<Rightarrow> Ok quantity | Sell \<Rightarrow> checked_sub ZERO quantity)"

text \<open>One pass over the legs; \<open>seen\<close> holds the instruments of the legs before.\<close>

definition combo_check_leg :: "combo_leg \<Rightarrow> string list \<Rightarrow> string list result" where
  "combo_check_leg leg seen =
     and_then (validate_canonical_id ''combo leg instrument_id'' (cl_instrument_id leg)) (\<lambda>_.
     if cl_instrument_id leg \<in> set seen
     then Err ''combo intent legs must reference distinct instruments''
     else if \<not> combo_ratio_ok (cl_ratio leg)
     then Err ''combo leg ratio must be between 1 and 10000''
     else if cl_limit_price leg \<le> ZERO then Err ''combo leg limit price must be positive''
     else Ok (seen @ [cl_instrument_id leg]))"

definition combo_intent_validate :: "(string \<Rightarrow> bool) \<Rightarrow> combo_intent \<Rightarrow> unit result" where
  "combo_intent_validate rfc3339 c =
     and_then (try_each (\<lambda>(name, v). validate_canonical_id name v)
       [(''combo intent_id'', co_intent_id c), (''combo account_id'', co_account_id c),
        (''combo strategy_id'', co_strategy_id c),
        (''combo correlation_id'', co_correlation_id c)]) (\<lambda>_.
     and_then (validate_utc_timestamp rfc3339 ''combo intent created_at'' (co_created_at c)) (\<lambda>_.
     if co_combo_quantity c \<le> ZERO \<or> co_rationale c = []
     then Err ''combo intent quantity and rationale are required''
     else if \<not> combo_leg_count_ok (length (co_legs c))
     then Err ''combo intent must contain between 2 and 16 legs''
     else and_then (try_fold combo_check_leg (co_legs c) []) (\<lambda>_.
       if combo_limit_amount (co_price_limit c) \<le> ZERO
       then Err ''combo price limit must be a positive amount''
       else and_then (protected_net_price c) (check_net_price (co_price_limit c)))))"

section \<open>What validation establishes\<close>

text \<open>The exact signed value of a leg; a whole ratio makes the product exact.\<close>

definition side_sign :: "side \<Rightarrow> int" where
  "side_sign s = (case s of Buy \<Rightarrow> 1 | Sell \<Rightarrow> -1)"

lemma side_sign_simps [simp]: "side_sign Buy = 1" "side_sign Sell = -1"
  by (simp_all add: side_sign_def)

lemma signed_add_eq_Ok [result_simps]:
  "signed_add s a b = Inr c \<longleftrightarrow>
     in_i128 (scaled a + side_sign s * scaled b) \<and> c = Decimal (scaled a + side_sign s * scaled b)"
  by (cases s) (auto simp: signed_add_def checked_add_eq_Ok checked_sub_eq_Ok)

lemma checked_mul_integer:
  "from_integer v = Inr r \<Longrightarrow> checked_mul a r = Inr c \<Longrightarrow> scaled c = scaled a * v"
proof -
  assume "from_integer v = Inr r" "checked_mul a r = Inr c"
  then have "scaled c = scaled a * v * DECIMAL_SCALE sdiv DECIMAL_SCALE"
    by (auto simp: from_integer_eq_Ok checked_mul_eq_Ok mult.assoc)
  also have "\<dots> = scaled a * v"
    by simp
  finally show ?thesis .
qed

lemma combo_leg_net_scaled:
  "combo_leg_net leg = Inr d \<Longrightarrow> scaled d = scaled (cl_limit_price leg) * int (cl_ratio leg)"
  by (auto simp: combo_leg_net_def and_then_eq_Inr dest: checked_mul_integer)

lemma combo_leg_quantity_scaled:
  "combo_leg_quantity c leg = Inr d \<Longrightarrow> scaled d = scaled (co_combo_quantity c) * int (cl_ratio leg)"
  by (auto simp: combo_leg_quantity_def and_then_eq_Inr dest: checked_mul_integer)

lemma try_fold_signed_sum:
  assumes "try_fold (\<lambda>x t. and_then (g x) (signed_add (sd x) t)) xs s = Inr r"
    and "\<And>x d. x \<in> set xs \<Longrightarrow> g x = Inr d \<Longrightarrow> scaled d = v x"
  shows "scaled r = scaled s + (\<Sum>x\<leftarrow>xs. side_sign (sd x) * v x)"
  using assms
proof (induction xs arbitrary: s)
  case (Cons x xs)
  from Cons.prems(1) obtain d t where d: "g x = Inr d" and t: "signed_add (sd x) s d = Inr t"
    and rest: "try_fold (\<lambda>x t. and_then (g x) (signed_add (sd x) t)) xs t = Inr r"
    by (auto simp: and_then_eq_Inr)
  from Cons.IH [OF rest] Cons.prems(2) d t show ?case
    by (auto simp: signed_add_eq_Ok)
qed simp

lemma protected_net_price_exact:
  "protected_net_price c = Inr net \<Longrightarrow>
    scaled net = (\<Sum>leg\<leftarrow>co_legs c. side_sign (cl_side leg) *
      (scaled (cl_limit_price leg) * int (cl_ratio leg)))"
  unfolding protected_net_price_def
  by (drule try_fold_signed_sum) (simp_all add: combo_leg_net_scaled)

lemma combo_check_leg_Ok:
  "combo_check_leg leg seen = Inr seen' \<longleftrightarrow> canonical_id (cl_instrument_id leg)
     \<and> cl_instrument_id leg \<notin> set seen \<and> combo_ratio_ok (cl_ratio leg)
     \<and> ZERO < cl_limit_price leg \<and> seen' = seen @ [cl_instrument_id leg]"
  by (auto simp: combo_check_leg_def and_then_eq_Inr result_simps not_le)

lemma combo_check_legs_Ok:
  assumes "try_fold combo_check_leg legs seen = Inr seen'" "distinct seen"
  shows "distinct (seen @ map cl_instrument_id legs)"
    and "\<forall>leg\<in>set legs. combo_ratio_ok (cl_ratio leg) \<and> ZERO < cl_limit_price leg
      \<and> canonical_id (cl_instrument_id leg)"
  using assms
  by (induction legs arbitrary: seen) (auto simp: and_then_eq_Inr combo_check_leg_Ok, fastforce+)

lemma check_net_price_Ok:
  "check_net_price limit net = Inr u \<longleftrightarrow>
     (case limit of
        MaximumDebit l \<Rightarrow> 0 < scaled l \<and> 0 \<le> scaled net \<and> scaled net \<le> scaled l
      | MinimumCredit l \<Rightarrow> 0 < scaled l \<and> in_i128 (- scaled net) \<and> scaled l \<le> - scaled net)"
  by (cases limit)
    (auto simp: and_then_eq_Inr result_simps decimal_less_scaled decimal_le_scaled not_le not_less)

lemma combo_intent_validate_Ok:
  assumes "combo_intent_validate rfc c = Inr u"
  shows "ZERO < co_combo_quantity c" "combo_leg_count_ok (length (co_legs c))"
    "distinct (map cl_instrument_id (co_legs c))"
    "\<forall>leg\<in>set (co_legs c). combo_ratio_ok (cl_ratio leg) \<and> ZERO < cl_limit_price leg
      \<and> canonical_id (cl_instrument_id leg)"
    "canonical_id (co_intent_id c)"
    "\<exists>net. protected_net_price c = Inr net \<and> check_net_price (co_price_limit c) net = Inr ()"
proof -
  from assms obtain seen where legs: "try_fold combo_check_leg (co_legs c) [] = Inr seen"
    and rest: "ZERO < co_combo_quantity c" "combo_leg_count_ok (length (co_legs c))"
      "canonical_id (co_intent_id c)"
      "\<exists>net. protected_net_price c = Inr net \<and> check_net_price (co_price_limit c) net = Inr ()"
    by (auto simp: combo_intent_validate_def and_then_eq_Inr result_simps not_le)
  from combo_check_legs_Ok [OF legs] rest show "ZERO < co_combo_quantity c"
    "combo_leg_count_ok (length (co_legs c))" "distinct (map cl_instrument_id (co_legs c))"
    "\<forall>leg\<in>set (co_legs c). combo_ratio_ok (cl_ratio leg) \<and> ZERO < cl_limit_price leg
      \<and> canonical_id (cl_instrument_id leg)"
    "canonical_id (co_intent_id c)"
    "\<exists>net. protected_net_price c = Inr net \<and> check_net_price (co_price_limit c) net = Inr ()"
    by simp_all
qed

section \<open>Properties\<close>

text \<open>C18: A combination that passes validation has between 2 and 16 legs on pairwise distinct
  instruments, each with a ratio in range and a positive limit, and its net price, computed without
  any rounding, stays inside the debit or credit the trader allowed.\<close>

theorem validated_combo_protected:
  assumes "combo_intent_validate rfc3339 c = Ok ()"
  shows "2 \<le> length (co_legs c) \<and> length (co_legs c) \<le> 16
    \<and> distinct (map cl_instrument_id (co_legs c))
    \<and> (\<forall>leg\<in>set (co_legs c). 1 \<le> cl_ratio leg \<and> cl_ratio leg \<le> 10000 \<and> ZERO < cl_limit_price leg)
    \<and> (let net = \<Sum>leg\<leftarrow>co_legs c. side_sign (cl_side leg) *
           (scaled (cl_limit_price leg) * int (cl_ratio leg)) in
       case co_price_limit c of
         MaximumDebit limit \<Rightarrow> 0 \<le> net \<and> net \<le> scaled limit
       | MinimumCredit limit \<Rightarrow> 0 < scaled limit \<and> scaled limit \<le> - net)"
proof -
  note facts = combo_intent_validate_Ok [OF assms]
  from facts(6) obtain net where net: "protected_net_price c = Inr net"
    "check_net_price (co_price_limit c) net = Inr ()" by blast
  show ?thesis
    using facts(2-4) net(2) protected_net_price_exact [OF net(1)]
    by (auto simp: combo_leg_count_ok_def combo_ratio_ok_def check_net_price_Ok Let_def
        split: combo_price_limit.splits)
qed

definition sample_combo :: combo_intent where
  "sample_combo = \<lparr>co_intent_id = ''i'', co_account_id = ''a'', co_strategy_id = ''s'',
     co_correlation_id = ''c'', co_legs =
       [\<lparr>cl_instrument_id = ''x'', cl_side = Buy, cl_ratio = 1, cl_limit_price = Decimal 500000000\<rparr>,
        \<lparr>cl_instrument_id = ''y'', cl_side = Sell, cl_ratio = 2, cl_limit_price = Decimal 200000000\<rparr>],
     co_combo_quantity = Decimal 300000000, co_price_limit = MaximumDebit (Decimal 100000000),
     co_time_in_force = Day, co_rationale = ''r'', co_created_at = ''2026-01-31T23:59:59Z'',
     co_strategy_version = [], co_configuration_version = [], co_environment = []\<rparr>"

lemma sample_timestamp: "canonical_shape ''2026-01-31T23:59:59Z''"
  by (simp add: canonical_shape_def enumerate0_def upt_rec timestamp_byte_ok_def is_ascii_digit_def)

lemma sample_combo_validates: "combo_intent_validate (\<lambda>_. True) sample_combo = Ok ()"
  by (simp add: combo_intent_validate_def sample_combo_def sample_timestamp result_simps
      canonical_id_def is_id_byte_def is_ascii_lowercase_def combo_leg_count_ok_def combo_check_leg_def
      validate_canonical_id_def validate_utc_timestamp_def combo_ratio_ok_def protected_net_price_def
      combo_leg_net_def signed_add_def checked_mul_def checked_add_def checked_sub_def from_integer_def
      i128_checked_def in_i128_def DECIMAL_SCALE_def sdiv_nonneg_eq_div)

theorem validated_combo_protected_witness:
  "distinct (map cl_instrument_id (co_legs sample_combo)) \<and> length (co_legs sample_combo) \<le> 16"
  using validated_combo_protected [OF sample_combo_validates] by blast

end
