(* ===== verification/Oms.thy ===== *)
theory Oms
  imports Combos
begin

text \<open>
  Component: the order-management state machine (\<^verbatim>\<open>core/control-plane/src/lib.rs\<close>,
  \<^verbatim>\<open>OmsOrder\<close>, \<^verbatim>\<open>OmsComboOrder\<close>, \<^verbatim>\<open>is_valid_transition\<close>). Both order kinds share one
  lifecycle; the locale \<open>order_lifecycle\<close> is that shared contract, and the facts about runs of
  transition requests are proved once in it and interpreted on both kinds.
\<close>

section \<open>Legal transitions\<close>

fun is_valid_transition :: "order_state \<Rightarrow> order_state \<Rightarrow> bool" where
  "is_valid_transition Created n = (n \<in> {Approved, RiskRejected})"
| "is_valid_transition Approved n = (n = PendingSubmit)"
| "is_valid_transition PendingSubmit n = (n \<in> {Submitted, Unknown})"
| "is_valid_transition Submitted n =
     (n \<in> {Acknowledged, Cancelled, Rejected, Expired, Unknown})"
| "is_valid_transition Acknowledged n =
     (n \<in> {PartiallyFilled, Filled, PendingCancel, PendingReplace, Cancelled, Rejected,
           Expired, Unknown})"
| "is_valid_transition PartiallyFilled n =
     (n \<in> {Filled, PendingCancel, PendingReplace, Cancelled, Rejected, Expired, Unknown})"
| "is_valid_transition PendingCancel n =
     (n \<in> {Acknowledged, PartiallyFilled, Filled, Cancelled, Rejected, Expired, Unknown})"
| "is_valid_transition PendingReplace n =
     (n \<in> {Acknowledged, PartiallyFilled, Filled, Cancelled, Rejected, Expired, Unknown})"
| "is_valid_transition Unknown n =
     (n \<in> {Acknowledged, PartiallyFilled, Filled, Cancelled, Rejected, Expired, PendingReplace})"
| "is_valid_transition Cancelled n = (n = Unknown)"
| "is_valid_transition Rejected n = (n = Unknown)"
| "is_valid_transition Expired n = (n = Unknown)"
| "is_valid_transition RiskRejected n = False"
| "is_valid_transition Filled n = False"
| "is_valid_transition PendingRisk n = False"

section \<open>Orders\<close>

record oms_order =
  oo_order_id :: string
  oo_intent :: order_intent
  oo_state :: order_state

definition oms_from_approved_intent :: "order_intent \<Rightarrow> risk_decision \<Rightarrow> oms_order result" where
  "oms_from_approved_intent i d =
     (if \<not> rd_approved d \<or> rd_intent_id d \<noteq> oi_intent_id i
      then Err ''an OMS order requires a matching risk approval''
      else Ok \<lparr>oo_order_id = ''order-'' @ oi_intent_id i, oo_intent = i, oo_state = Created\<rparr>)"

definition oms_recover ::
    "(string \<Rightarrow> bool) \<Rightarrow> string \<Rightarrow> order_intent \<Rightarrow> order_state \<Rightarrow> oms_order result" where
  "oms_recover rfc3339 order_id i state =
     and_then (order_intent_validate rfc3339 i) (\<lambda>_.
     and_then (validate_canonical_id ''order_id'' order_id) (\<lambda>_.
     if order_id \<noteq> ''order-'' @ oi_intent_id i
     then Err ''persisted OMS order ID does not match its intent identity''
     else Ok \<lparr>oo_order_id = order_id, oo_intent = i, oo_state = state\<rparr>))"

definition oms_transition ::
    "oms_order \<Rightarrow> order_state \<Rightarrow> string \<Rightarrow> order_state_change result \<times> oms_order" where
  "oms_transition o1 n reason =
     (if \<not> is_valid_transition (oo_state o1) n
      then (Err (''invalid OMS transition '' @ order_state_as_str (oo_state o1) @ '' -> ''
              @ order_state_as_str n), o1)
      else (Ok \<lparr>osc_order_id = oo_order_id o1, osc_previous_state = Some (oo_state o1),
              osc_new_state = n, osc_reason = reason\<rparr>, o1\<lparr>oo_state := n\<rparr>))"

record oms_combo_order =
  ooc_order_id :: string
  ooc_intent :: combo_intent
  ooc_state :: order_state

definition combo_order_id_for :: "string \<Rightarrow> string" where
  "combo_order_id_for intent_id = ''combo-order-'' @ intent_id"

definition oms_combo_from_approved_intent ::
    "combo_intent \<Rightarrow> risk_decision \<Rightarrow> oms_combo_order result" where
  "oms_combo_from_approved_intent i d =
     (if \<not> rd_approved d \<or> rd_intent_id d \<noteq> co_intent_id i
      then Err ''an OMS combination order requires a matching risk approval''
      else Ok \<lparr>ooc_order_id = combo_order_id_for (co_intent_id i), ooc_intent = i,
             ooc_state = Created\<rparr>)"

definition oms_combo_recover ::
    "(string \<Rightarrow> bool) \<Rightarrow> string \<Rightarrow> combo_intent \<Rightarrow> order_state \<Rightarrow> oms_combo_order result" where
  "oms_combo_recover rfc3339 order_id i state =
     and_then (combo_intent_validate rfc3339 i) (\<lambda>_.
     and_then (validate_canonical_id ''combo order_id'' order_id) (\<lambda>_.
     if order_id \<noteq> combo_order_id_for (co_intent_id i)
     then Err ''persisted OMS combination order ID does not match its intent identity''
     else Ok \<lparr>ooc_order_id = order_id, ooc_intent = i, ooc_state = state\<rparr>))"

definition oms_combo_transition ::
    "oms_combo_order \<Rightarrow> order_state \<Rightarrow> string \<Rightarrow> order_state_change result \<times> oms_combo_order" where
  "oms_combo_transition o1 n reason =
     (if \<not> is_valid_transition (ooc_state o1) n
      then (Err (''invalid OMS combination transition '' @ order_state_as_str (ooc_state o1)
              @ '' -> '' @ order_state_as_str n), o1)
      else (Ok \<lparr>osc_order_id = ooc_order_id o1, osc_previous_state = Some (ooc_state o1),
              osc_new_state = n, osc_reason = reason\<rparr>, o1\<lparr>ooc_state := n\<rparr>))"

section \<open>Runs of transition requests and their evidence\<close>

text \<open>
  A caller's sequence of requests: accepted ones append their change record, refused ones leave
  the order as it is.
\<close>

fun run_requests ::
    "('o \<Rightarrow> order_state \<Rightarrow> string \<Rightarrow> order_state_change result \<times> 'o) \<Rightarrow> 'o
      \<Rightarrow> (order_state \<times> string) list \<Rightarrow> order_state_change list \<times> 'o" where
  "run_requests tr ord [] = ([], ord)"
| "run_requests tr ord ((n, reason) # reqs) =
     (case tr ord n reason of
        (Inl e, ord') \<Rightarrow> run_requests tr ord' reqs
      | (Inr change, ord') \<Rightarrow>
          (let (changes, final) = run_requests tr ord' reqs in (change # changes, final)))"

text \<open>An evidence chain leads from one state to another through legal steps without a gap.\<close>

fun evidence_chain :: "string \<Rightarrow> order_state \<Rightarrow> order_state_change list \<Rightarrow> order_state \<Rightarrow> bool" where
  "evidence_chain oid s [] t \<longleftrightarrow> s = t"
| "evidence_chain oid s (c # cs) t \<longleftrightarrow> osc_order_id c = oid \<and> osc_previous_state c = Some s
     \<and> is_valid_transition s (osc_new_state c) \<and> evidence_chain oid (osc_new_state c) cs t"

definition pre_submission :: "order_state \<Rightarrow> bool" where
  "pre_submission s \<longleftrightarrow> s \<in> {Created, PendingRisk, RiskRejected, Approved, PendingSubmit}"

lemma valid_transition_not_PendingRisk: "\<not> is_valid_transition s PendingRisk"
  by (cases s) auto

lemma chain_absorbing:
  "evidence_chain oid s cs t \<Longrightarrow> s \<in> {Filled, RiskRejected} \<Longrightarrow> t = s \<and> cs = []"
  by (cases cs) auto

lemma chain_broker_side:
  "evidence_chain oid s cs t \<Longrightarrow> \<not> pre_submission s \<Longrightarrow> \<not> pre_submission t"
proof (induction cs arbitrary: s)
  case (Cons c cs)
  then have "\<not> pre_submission (osc_new_state c)"
    by (cases s) (auto simp: pre_submission_def)
  with Cons show ?case by auto
qed simp

lemma chain_never_PendingRisk:
  "evidence_chain oid s cs t \<Longrightarrow> s \<noteq> PendingRisk \<Longrightarrow> t \<noteq> PendingRisk"
  by (induction cs arbitrary: s) (auto, metis valid_transition_not_PendingRisk)

lemma chain_from_PendingSubmit:
  assumes "evidence_chain oid PendingSubmit cs t" "\<not> pre_submission t"
  shows "\<exists>c\<in>set cs. osc_new_state c \<in> {Submitted, Unknown}"
  using assms by (cases cs) (auto simp: pre_submission_def)

text \<open>The first two records of any chain that leaves the pre-submission states.\<close>

lemma chain_from_Created:
  assumes "evidence_chain oid Created cs t" "\<not> pre_submission t"
  obtains c1 c2 rest where "cs = c1 # c2 # rest" "osc_new_state c1 = Approved"
    "osc_new_state c2 = PendingSubmit"
proof -
  from assms obtain c1 cs1 where c1: "cs = c1 # cs1" "is_valid_transition Created (osc_new_state c1)"
    "evidence_chain oid (osc_new_state c1) cs1 t"
    by (cases cs) (auto simp: pre_submission_def)
  with assms(2) have a: "osc_new_state c1 = Approved"
    using chain_absorbing [of oid RiskRejected cs1 t] by (auto simp: pre_submission_def)
  with c1 assms(2) obtain c2 rest where "cs1 = c2 # rest" "osc_new_state c2 = PendingSubmit"
    by (cases cs1) (auto simp: pre_submission_def)
  with c1 a that show ?thesis by blast
qed

locale order_lifecycle =
  fixes state_of :: "'o \<Rightarrow> order_state"
    and id_of :: "'o \<Rightarrow> string"
    and body_of :: "'o \<Rightarrow> 'i"
    and tr :: "'o \<Rightarrow> order_state \<Rightarrow> string \<Rightarrow> order_state_change result \<times> 'o"
  assumes accepted: "is_valid_transition (state_of ord) n \<Longrightarrow> \<exists>ord'. tr ord n reason =
      (Ok \<lparr>osc_order_id = id_of ord, osc_previous_state = Some (state_of ord), osc_new_state = n,
        osc_reason = reason\<rparr>, ord') \<and> state_of ord' = n \<and> id_of ord' = id_of ord
        \<and> body_of ord' = body_of ord"
    and refused: "\<not> is_valid_transition (state_of ord) n \<Longrightarrow> \<exists>m. tr ord n reason = (Err m, ord)"
begin

lemma run_chain:
  assumes "run_requests tr ord reqs = (changes, final)"
  shows "evidence_chain (id_of ord) (state_of ord) changes (state_of final)
    \<and> id_of final = id_of ord \<and> body_of final = body_of ord"
  using assms
proof (induction reqs arbitrary: ord changes)
  case (Cons req reqs)
  obtain n reason where req: "req = (n, reason)" by force
  show ?case
  proof (cases "is_valid_transition (state_of ord) n")
    case True
    with accepted [OF True, of reason] Cons req show ?thesis
      by (fastforce simp: Let_def split: prod.splits)
  next
    case False
    with refused [OF False, of reason] Cons req show ?thesis by auto
  qed
qed simp

lemma run_absorbing:
  assumes "run_requests tr ord reqs = (changes, final)" "state_of ord \<in> {Filled, RiskRejected}"
  shows "changes = [] \<and> state_of final = state_of ord"
  using run_chain [OF assms(1)] chain_absorbing [of _ "state_of ord" changes] assms(2) by auto

end

interpretation single: order_lifecycle oo_state oo_order_id oo_intent oms_transition
  by unfold_locales (auto simp: oms_transition_def)

interpretation combo: order_lifecycle ooc_state ooc_order_id ooc_intent oms_combo_transition
  by unfold_locales (auto simp: oms_combo_transition_def)

section \<open>Reachability of a terminal state\<close>

inductive lifecycle_reaches :: "order_state \<Rightarrow> order_state \<Rightarrow> bool" where
  here: "lifecycle_reaches s s"
| step: "is_valid_transition s t \<Longrightarrow> lifecycle_reaches t u \<Longrightarrow> lifecycle_reaches s u"

inductive_cases lifecycle_reaches_from: "lifecycle_reaches s t"

lemma lifecycle_reaches_chain:
  "lifecycle_reaches s t \<longleftrightarrow> (\<exists>cs. evidence_chain oid s cs t)"
proof
  assume "lifecycle_reaches s t"
  then show "\<exists>cs. evidence_chain oid s cs t"
  proof induction
    case (here s)
    have "evidence_chain oid s [] s" by simp
    then show ?case by blast
  next
    case (step s t u)
    then obtain cs where "evidence_chain oid t cs u" by blast
    with step(1) have "evidence_chain oid s (\<lparr>osc_order_id = oid, osc_previous_state = Some s,
        osc_new_state = t, osc_reason = []\<rparr> # cs) u" by simp
    then show ?case by blast
  qed
next
  assume "\<exists>cs. evidence_chain oid s cs t"
  then obtain cs where "evidence_chain oid s cs t" by blast
  then show "lifecycle_reaches s t"
    by (induction cs arbitrary: s) (auto intro: lifecycle_reaches.intros)
qed

lemma reaches_Filled_from_Unknown: "lifecycle_reaches Unknown Filled"
  by (rule lifecycle_reaches.step [OF _ lifecycle_reaches.here]) simp

section \<open>Properties\<close>

text \<open>C8: An order exists only for an approved decision about its own intent, and from there its
  accepted change records are a gapless chain of legal steps: whatever a caller requests, an order on
  the broker's side has recorded the approval and then the submission claim, its intent
  and identity never change, and the undefined intermediate state \<open>PENDING_RISK\<close> is never
  entered.\<close>

theorem oms_evidence_complete:
  assumes "oms_from_approved_intent i d = Ok order"
    and "run_requests oms_transition order requests = (changes, final)"
  shows "rd_approved d \<and> rd_intent_id d = oi_intent_id i \<and> oo_intent final = i
    \<and> evidence_chain (''order-'' @ oi_intent_id i) Created changes (oo_state final)
    \<and> oo_order_id final = ''order-'' @ oi_intent_id i
    \<and> (\<not> pre_submission (oo_state final) \<longrightarrow> (\<exists>c1 c2 rest. changes = c1 # c2 # rest
         \<and> osc_new_state c1 = Approved \<and> osc_new_state c2 = PendingSubmit))
    \<and> oo_state final \<noteq> PendingRisk"
proof -
  from assms(1) have start: "rd_approved d" "rd_intent_id d = oi_intent_id i" "oo_intent order = i"
    "oo_order_id order = ''order-'' @ oi_intent_id i" "oo_state order = Created"
    by (auto simp: oms_from_approved_intent_def split: if_splits)
  from single.run_chain [OF assms(2)] start
  have chain: "evidence_chain (''order-'' @ oi_intent_id i) Created changes (oo_state final)"
    and same: "oo_intent final = i" "oo_order_id final = ''order-'' @ oi_intent_id i" by simp_all
  have "\<not> pre_submission (oo_state final) \<Longrightarrow> \<exists>c1 c2 rest. changes = c1 # c2 # rest
         \<and> osc_new_state c1 = Approved \<and> osc_new_state c2 = PendingSubmit"
    by (erule chain_from_Created [OF chain]) blast
  with start chain same chain_never_PendingRisk [OF chain] show ?thesis by simp
qed

definition sample_intent :: order_intent where
  "sample_intent = \<lparr>oi_intent_id = ''i'', oi_account_id = ''a'', oi_strategy_id = ''s'',
     oi_instrument_id = ''x'', oi_correlation_id = ''c'', oi_side = Buy,
     oi_quantity = Decimal 1000000000, oi_order_type = LimitOrder,
     oi_limit_price = Some (Decimal 10000000000), oi_time_in_force = Day, oi_rationale = ''r'',
     oi_created_at = ''2026-01-31T23:59:59Z'', oi_strategy_version = [],
     oi_configuration_version = [], oi_environment = []\<rparr>"

definition sample_decision :: "string \<Rightarrow> risk_decision" where
  "sample_decision intent_id = \<lparr>rd_decision_id = ''d'', rd_intent_id = intent_id, rd_approved = True,
     rd_reason_codes = [''APPROVED''], rd_policy_version = ''1'', rd_decided_at = [],
     rd_correlation_id = [], rd_actor = [], rd_evaluated_limits = []\<rparr>"

definition sample_order :: oms_order where
  "sample_order = \<lparr>oo_order_id = ''order-i'', oo_intent = sample_intent, oo_state = Created\<rparr>"

lemma sample_intent_id: "oi_intent_id sample_intent = ''i''"
  by (simp add: sample_intent_def)

theorem oms_evidence_complete_witness:
  "\<exists>changes final. run_requests oms_transition sample_order
      [(Approved, ''risk''), (Filled, ''early''), (PendingSubmit, ''claim''), (Submitted, ''sent'')]
      = (changes, final) \<and> oo_state final = Submitted \<and>
      evidence_chain ''order-i'' Created changes Submitted"
proof -
  have new: "oms_from_approved_intent sample_intent (sample_decision ''i'') = Ok sample_order"
    by (simp add: oms_from_approved_intent_def sample_order_def sample_intent_def sample_decision_def)
  obtain changes final where run: "run_requests oms_transition sample_order
      [(Approved, ''risk''), (Filled, ''early''), (PendingSubmit, ''claim''), (Submitted, ''sent'')]
      = (changes, final)" by force
  then have "oo_state final = Submitted"
    by (auto simp: oms_transition_def sample_order_def Let_def)
  with run oms_evidence_complete [OF new run] show ?thesis by (auto simp: sample_intent_id)
qed

text \<open>A finished order of either kind stays finished: once filled or refused by risk, no
  sequence of requests changes the order or adds a record, and an order recovered on the broker's
  side never falls back before the submission.\<close>

theorem oms_terminal_states_absorbing:
  assumes "oms_recover rfc3339 oid i s = Ok order" "oms_combo_recover rfc3339 cid ci s = Ok combo_order"
    and "run_requests oms_transition order requests = (changes, final)"
    and "run_requests oms_combo_transition combo_order requests' = (changes', final')"
  shows "(s \<in> {Filled, RiskRejected} \<longrightarrow>
      changes = [] \<and> oo_state final = s \<and> changes' = [] \<and> ooc_state final' = s)
    \<and> (\<not> pre_submission s \<longrightarrow> \<not> pre_submission (oo_state final) \<and> \<not> pre_submission (ooc_state final'))
    \<and> oo_intent final = i \<and> ooc_intent final' = ci"
proof -
  from assms(1,2) have start: "oo_state order = s" "oo_intent order = i"
    "ooc_state combo_order = s" "ooc_intent combo_order = ci"
    by (auto simp: oms_recover_def oms_combo_recover_def and_then_eq_Inr split: if_splits)
  from single.run_absorbing [OF assms(3)] combo.run_absorbing [OF assms(4)]
    single.run_chain [OF assms(3)] combo.run_chain [OF assms(4)] start
  show ?thesis by (auto dest: chain_broker_side)
qed

lemma sample_intent_validates: "order_intent_validate (\<lambda>_. True) sample_intent = Ok ()"
  by (simp add: order_intent_validate_eq_Ok sample_intent_def canonical_id_def is_id_byte_def
      byte_simps sample_timestamp)

theorem oms_terminal_states_absorbing_witness:
  "fst (run_requests oms_transition (sample_order\<lparr>oo_state := Filled\<rparr>) [(Cancelled, ''late'')]) = []"
proof -
  have id: "canonical_id ''order-i''" "canonical_id ''combo-order-i''"
    by (simp_all add: canonical_id_def is_id_byte_def byte_simps)
  have "oms_recover (\<lambda>_. True) ''order-i'' sample_intent Filled = Ok (sample_order\<lparr>oo_state := Filled\<rparr>)"
    using id by (simp add: oms_recover_def sample_intent_validates sample_order_def
      validate_canonical_id_def canonical_id_def sample_intent_id)
  moreover have "\<exists>co. oms_combo_recover (\<lambda>_. True) ''combo-order-i'' sample_combo Filled = Ok co"
    using id by (simp add: oms_combo_recover_def sample_combo_validates validate_canonical_id_def
      canonical_id_def combo_order_id_for_def) (simp add: sample_combo_def)
  then obtain co where "oms_combo_recover (\<lambda>_. True) ''combo-order-i'' sample_combo Filled = Ok co" ..
  ultimately show ?thesis
    using oms_terminal_states_absorbing [where requests' = "[]"]
    by (metis insertI1 prod.collapse run_requests.simps(1))
qed

text \<open>C26: Every state but the risk refusal and the unreachable \<open>PENDING_RISK\<close> can still reach
  \<open>FILLED\<close>, so a broker-side order, even an unknown one, can always be reconciled to its outcome.\<close>

theorem lifecycle_never_stuck:
  "lifecycle_reaches s Filled \<longleftrightarrow> s \<notin> {RiskRejected, PendingRisk}"
proof
  assume "lifecycle_reaches s Filled"
  then show "s \<notin> {RiskRejected, PendingRisk}"
    by (cases rule: lifecycle_reaches.cases) auto
next
  have acknowledged: "lifecycle_reaches Acknowledged Filled"
    by (rule lifecycle_reaches.step [OF _ lifecycle_reaches.here]) simp
  have submitted: "lifecycle_reaches Submitted Filled"
    by (rule lifecycle_reaches.step [OF _ acknowledged]) simp
  have pending: "lifecycle_reaches PendingSubmit Filled"
    by (rule lifecycle_reaches.step [OF _ submitted]) simp
  have approved: "lifecycle_reaches Approved Filled"
    by (rule lifecycle_reaches.step [OF _ pending]) simp
  note via = lifecycle_reaches.step [OF _ lifecycle_reaches.here]
    lifecycle_reaches.step [OF _ approved] lifecycle_reaches.step [OF _ reaches_Filled_from_Unknown]
  assume "s \<notin> {RiskRejected, PendingRisk}"
  then show "lifecycle_reaches s Filled"
    using acknowledged submitted pending approved reaches_Filled_from_Unknown lifecycle_reaches.here
    by (cases s) (simp_all add: via)
qed

end
