(* ===== verification/ReplayRisk.thy ===== *)
theory ReplayRisk
  imports Instruments Oms
begin

text \<open>
  Component: the replay kernel's clock, market preconditions and pre-trade risk policy
  (\<^verbatim>\<open>core/control-plane/src/lib.rs\<close>, \<^verbatim>\<open>ReplayClock\<close>, \<^verbatim>\<open>MarketPreconditions\<close>,
  \<^verbatim>\<open>RiskPolicy\<close>, \<^verbatim>\<open>NewsShockContext\<close>). The evaluation functions collect reason codes; the
  lemmas characterise approval on every branch and show that each stricter evaluation approves
  only what the weaker one approves.
\<close>

section \<open>Replay clock\<close>

record replay_clock =
  rc_now :: string

definition replay_clock_new :: "(string \<Rightarrow> bool) \<Rightarrow> string \<Rightarrow> replay_clock result" where
  "replay_clock_new rfc3339 t =
     and_then (validate_utc_timestamp rfc3339 ''replay clock initial time'' t) (\<lambda>_.
     Ok \<lparr>rc_now = t\<rparr>)"

definition replay_clock_advance_to ::
    "(string \<Rightarrow> bool) \<Rightarrow> replay_clock \<Rightarrow> string \<Rightarrow> unit result \<times> replay_clock" where
  "replay_clock_advance_to rfc3339 c t =
     (case validate_utc_timestamp rfc3339 ''replay clock time'' t of
        Inl e \<Rightarrow> (Inl e, c)
      | Inr _ \<Rightarrow>
          if t < rc_now c then (Err ''replay clock cannot move backwards'', c)
          else (Ok (), c\<lparr>rc_now := t\<rparr>))"

fun clock_run :: "(string \<Rightarrow> bool) \<Rightarrow> replay_clock \<Rightarrow> string list \<Rightarrow> replay_clock" where
  "clock_run rfc3339 c [] = c"
| "clock_run rfc3339 c (t # ts) = clock_run rfc3339 (snd (replay_clock_advance_to rfc3339 c t)) ts"

lemma clock_step_mono: "rc_now c \<le> rc_now (snd (replay_clock_advance_to rfc c t))"
  by (auto simp: replay_clock_advance_to_def split: sum.splits)

lemma clock_run_mono: "rc_now c \<le> rc_now (clock_run rfc c ts)"
  by (induction ts arbitrary: c) (auto intro: order_trans [OF clock_step_mono])

lemma clock_step_canonical:
  "canonical_shape (rc_now c) \<Longrightarrow> canonical_shape (rc_now (snd (replay_clock_advance_to rfc c t)))"
  by (auto simp: replay_clock_advance_to_def result_simps split: sum.splits)

lemma clock_run_canonical:
  "canonical_shape (rc_now c) \<Longrightarrow> canonical_shape (rc_now (clock_run rfc c ts))"
  by (induction ts arbitrary: c) (auto intro: clock_step_canonical)

section \<open>Market preconditions\<close>

text \<open>The calendar is any implementation of the trait: its identity and its open test.\<close>

definition market_preconditions_validate ::
    "instrument_registry \<Rightarrow> string \<Rightarrow> (string \<Rightarrow> string \<Rightarrow> bool) \<Rightarrow> bar \<Rightarrow> string
      \<Rightarrow> instrument result" where
  "market_preconditions_validate registry calendar_id is_instrument_open_at b event_time =
     and_then (ok_or (registry_resolve registry (br_instrument_id b) event_time)
       ''no effective instrument reference data for market event'') (\<lambda>version.
     if in_trading_calendar_id (iv_instrument version) \<noteq> calendar_id
     then Err ''instrument and replay calendar do not match''
     else if \<not> is_instrument_open_at (br_instrument_id b) event_time
     then Err ''market event is outside an explicit tradable session or occurs during a configured halt''
     else Ok (iv_instrument version))"

section \<open>Risk policy\<close>

record risk_policy =
  rp_version :: string
  rp_global_kill_switch :: bool
  rp_max_quantity :: decimal
  rp_max_notional :: decimal
  rp_max_price_deviation_bps :: decimal
  rp_max_news_slippage_bps :: "decimal option"
  rp_max_news_spread_multiplier_bps :: "decimal option"

record news_shock_context =
  ns_pre_headline_reference_price :: decimal
  ns_current_spread :: "decimal option"
  ns_baseline_spread :: "decimal option"

definition option_exceeds :: "('a \<Rightarrow> bool) \<Rightarrow> 'a option \<Rightarrow> bool" where
  "option_exceeds P x = (case x of None \<Rightarrow> False | Some v \<Rightarrow> P v)"

lemma option_exceeds_simps [simp]:
  "\<not> option_exceeds P None" "option_exceeds P (Some v) \<longleftrightarrow> P v"
  by (simp_all add: option_exceeds_def)

definition news_shock_validate :: "news_shock_context \<Rightarrow> unit result" where
  "news_shock_validate s =
     (if ns_pre_headline_reference_price s \<le> ZERO
         \<or> option_exceeds (\<lambda>spread. spread < ZERO) (ns_current_spread s)
         \<or> option_exceeds (\<lambda>spread. spread \<le> ZERO) (ns_baseline_spread s)
      then Err ''invalid news shock context'' else Ok ())"

definition risk_policy_validate :: "risk_policy \<Rightarrow> unit result" where
  "risk_policy_validate p =
     and_then (from_integer 10000) (\<lambda>ten_thousand.
     if rp_version p = [] \<or> rp_max_quantity p \<le> ZERO \<or> rp_max_notional p \<le> ZERO
        \<or> rp_max_price_deviation_bps p < ZERO \<or> rp_max_price_deviation_bps p \<ge> ten_thousand
        \<or> option_exceeds (\<lambda>limit. limit \<le> ZERO \<or> limit \<ge> ten_thousand) (rp_max_news_slippage_bps p)
        \<or> option_exceeds (\<lambda>limit. limit \<le> ZERO) (rp_max_news_spread_multiplier_bps p)
     then Err ''invalid deterministic risk policy'' else Ok ())"

text \<open>A reason code that is pushed when its condition holds.\<close>

abbreviation push_if :: "bool \<Rightarrow> string \<Rightarrow> string list \<Rightarrow> string list" where
  "push_if b reason reasons \<equiv> reasons @ (if b then [reason] else [])"

definition approval :: "string list \<Rightarrow> string list" where
  "approval reasons = (if reasons = [] then [''APPROVED''] else reasons)"

definition optional_price_deviation :: "decimal \<Rightarrow> decimal option \<Rightarrow> decimal result" where
  "optional_price_deviation mark limit =
     (case limit of None \<Rightarrow> Ok ZERO | Some price \<Rightarrow> price_deviation_bps mark price)"

definition evaluate_reasons :: "risk_policy \<Rightarrow> order_intent \<Rightarrow> bar \<Rightarrow> decimal \<Rightarrow> decimal \<Rightarrow> string list" where
  "evaluate_reasons p i b notional deviation =
     push_if (br_close b \<le> ZERO) ''INVALID_MARK_PRICE''
     (push_if (deviation > rp_max_price_deviation_bps p) ''PRICE_COLLAR_EXCEEDED''
     (push_if (notional > rp_max_notional p) ''MAX_NOTIONAL_EXCEEDED''
     (push_if (oi_quantity i > rp_max_quantity p) ''MAX_QUANTITY_EXCEEDED''
     (push_if (rp_global_kill_switch p) ''KILL_SWITCH_ACTIVE'' []))))"

definition risk_policy_evaluate ::
    "(string \<Rightarrow> bool) \<Rightarrow> risk_policy \<Rightarrow> order_intent \<Rightarrow> bar \<Rightarrow> string \<Rightarrow> risk_decision result" where
  "risk_policy_evaluate rfc3339 p i b replay_time =
     and_then (order_intent_validate rfc3339 i) (\<lambda>_.
     if oi_instrument_id i \<noteq> br_instrument_id b
     then Err ''risk mark instrument does not match the intent''
     else and_then (checked_mul (oi_quantity i) (br_close b)) (\<lambda>estimated_notional.
       and_then (optional_price_deviation (br_close b) (oi_limit_price i)) (\<lambda>deviation.
       let reasons = evaluate_reasons p i b estimated_notional deviation in
       Ok \<lparr>rd_decision_id = ''risk-'' @ oi_intent_id i, rd_intent_id = oi_intent_id i,
         rd_approved = (reasons = []), rd_reason_codes = approval reasons,
         rd_policy_version = rp_version p, rd_decided_at = replay_time,
         rd_correlation_id = oi_correlation_id i, rd_actor = ''risk_engine'',
         rd_evaluated_limits =
           ''max_quantity='' @ decimal_to_string (rp_max_quantity p)
           @ '',max_notional='' @ decimal_to_string (rp_max_notional p)
           @ '',max_price_deviation_bps='' @ decimal_to_string (rp_max_price_deviation_bps p)
           @ '',reference_price='' @ decimal_to_string (br_close b)
           @ '',requested_price=''
           @ (case oi_limit_price i of None \<Rightarrow> ''MARKET'' | Some price \<Rightarrow> decimal_to_string price)
           @ '',requested_price_deviation_bps='' @ decimal_to_string deviation
           @ '',estimated_notional='' @ decimal_to_string estimated_notional\<rparr>)))"

text \<open>\<^verbatim>\<open>value.scaled() % increment.scaled() == 0\<close> for a positive increment.\<close>

definition is_whole_multiple :: "decimal \<Rightarrow> decimal \<Rightarrow> bool" where
  "is_whole_multiple v increment \<longleftrightarrow> increment > ZERO \<and> scaled v smod scaled increment = 0"

definition reference_reasons :: "order_intent \<Rightarrow> instrument \<Rightarrow> string list \<Rightarrow> string list" where
  "reference_reasons i reference codes =
     push_if (\<not> is_whole_multiple (oi_quantity i) (in_lot_size reference))
       ''ORDER_QUANTITY_OFF_LOT_SIZE''
     (push_if (option_exceeds (\<lambda>price. \<not> is_whole_multiple price (in_tick_size reference))
         (oi_limit_price i)) ''LIMIT_PRICE_OFF_TICK_GRID''
     (filter (\<lambda>reason. reason \<noteq> ''APPROVED'') codes))"

definition evaluate_with_reference ::
    "(string \<Rightarrow> bool) \<Rightarrow> risk_policy \<Rightarrow> order_intent \<Rightarrow> bar \<Rightarrow> instrument \<Rightarrow> string
      \<Rightarrow> risk_decision result" where
  "evaluate_with_reference rfc3339 p i b reference replay_time =
     and_then (risk_policy_evaluate rfc3339 p i b replay_time) (\<lambda>decision.
     if in_instrument_id reference \<noteq> oi_instrument_id i
     then Err ''risk reference data instrument does not match the intent''
     else if in_tick_size reference \<le> ZERO \<or> in_lot_size reference \<le> ZERO
     then Err ''instrument reference data has a non-positive tick or lot size''
     else
       let reasons = reference_reasons i reference (rd_reason_codes decision) in
       Ok (decision\<lparr>rd_approved := (reasons = []), rd_reason_codes := approval reasons,
         rd_evaluated_limits := rd_evaluated_limits decision
           @ '',instrument_tick_size='' @ decimal_to_string (in_tick_size reference)
           @ '',instrument_lot_size='' @ decimal_to_string (in_lot_size reference)\<rparr>))"

definition spread_multiplier :: "news_shock_context \<Rightarrow> decimal option result" where
  "spread_multiplier s = (case (ns_current_spread s, ns_baseline_spread s) of
     (Some current, Some baseline) \<Rightarrow>
       and_then (from_integer 10000) (\<lambda>bps.
       and_then (checked_mul current bps) (\<lambda>product.
       and_then (checked_div product baseline) (\<lambda>m. Ok (Some m))))
   | _ \<Rightarrow> Ok None)"

definition show_decimal_option :: "string \<Rightarrow> decimal option \<Rightarrow> string" where
  "show_decimal_option absent d = (case d of None \<Rightarrow> absent | Some v \<Rightarrow> decimal_to_string v)"

definition news_reasons ::
    "risk_policy \<Rightarrow> decimal \<Rightarrow> decimal option \<Rightarrow> string list \<Rightarrow> string list" where
  "news_reasons p slippage multiplier codes =
     dedup (sort
       (push_if (option_exceeds (\<lambda>limit. option_exceeds (\<lambda>m. m > limit) multiplier)
           (rp_max_news_spread_multiplier_bps p)) ''LIQUIDITY_HOLE_DETECTED''
       (push_if (option_exceeds (\<lambda>limit. slippage > limit) (rp_max_news_slippage_bps p))
           ''NEWS_SLIPPAGE_EXCEEDED''
       (filter (\<lambda>reason. reason \<noteq> ''APPROVED'') codes))))"

definition evaluate_news ::
    "(string \<Rightarrow> bool) \<Rightarrow> risk_policy \<Rightarrow> order_intent \<Rightarrow> bar \<Rightarrow> instrument \<Rightarrow> string
      \<Rightarrow> news_shock_context \<Rightarrow> risk_decision result" where
  "evaluate_news rfc3339 p i b reference replay_time shock =
     and_then (news_shock_validate shock) (\<lambda>_.
     and_then (evaluate_with_reference rfc3339 p i b reference replay_time) (\<lambda>decision.
     let requested_price = (case oi_limit_price i of None \<Rightarrow> br_close b | Some price \<Rightarrow> price) in
     and_then (price_deviation_bps (ns_pre_headline_reference_price shock) requested_price) (\<lambda>slippage.
     and_then (spread_multiplier shock) (\<lambda>multiplier.
     let reasons = news_reasons p slippage multiplier (rd_reason_codes decision) in
     Ok (decision\<lparr>rd_approved := (reasons = []), rd_reason_codes := approval reasons,
       rd_evaluated_limits := rd_evaluated_limits decision
         @ '',news_reference_price='' @ decimal_to_string (ns_pre_headline_reference_price shock)
         @ '',news_requested_price='' @ decimal_to_string requested_price
         @ '',news_slippage_bps='' @ decimal_to_string slippage
         @ '',max_news_slippage_bps='' @ show_decimal_option ''UNSET'' (rp_max_news_slippage_bps p)
         @ '',news_spread_multiplier_bps='' @ show_decimal_option ''UNAVAILABLE'' multiplier
         @ '',max_news_spread_multiplier_bps=''
         @ show_decimal_option ''UNSET'' (rp_max_news_spread_multiplier_bps p)\<rparr>)))))"

section \<open>When the evaluations approve\<close>

lemma approval_codes_consistent:
  "(approval rs = [''APPROVED'']) = (rs = [] \<or> rs = [''APPROVED''])"
  by (simp add: approval_def)

lemma is_whole_multiple_iff:
  "is_whole_multiple v k \<longleftrightarrow> 0 < scaled k \<and> scaled k dvd scaled v"
  by (auto simp: is_whole_multiple_def decimal_order smod_eq_0_iff_dvd)

lemma evaluate_reasons_Nil:
  "evaluate_reasons p i b n d = [] \<longleftrightarrow> \<not> rp_global_kill_switch p \<and> oi_quantity i \<le> rp_max_quantity p
     \<and> n \<le> rp_max_notional p \<and> d \<le> rp_max_price_deviation_bps p \<and> ZERO < br_close b"
  by (auto simp: evaluate_reasons_def not_less not_le)

lemma evaluate_reasons_not_APPROVED: "''APPROVED'' \<notin> set (evaluate_reasons p i b n d)"
  by (auto simp: evaluate_reasons_def)

lemma approval_filter:
  "''APPROVED'' \<notin> set rs \<Longrightarrow> filter (\<lambda>r. r \<noteq> ''APPROVED'') (approval rs) = rs"
  by (auto simp: approval_def filter_id_conv)

lemma risk_policy_evaluate_Ok:
  assumes "risk_policy_evaluate rfc p i b t = Inr d"
  obtains n dev where "order_intent_validate rfc i = Inr ()" "oi_instrument_id i = br_instrument_id b"
    "checked_mul (oi_quantity i) (br_close b) = Inr n"
    "optional_price_deviation (br_close b) (oi_limit_price i) = Inr dev"
    "rd_intent_id d = oi_intent_id i" "rd_policy_version d = rp_version p"
    "rd_approved d \<longleftrightarrow> evaluate_reasons p i b n dev = []"
    "rd_reason_codes d = approval (evaluate_reasons p i b n dev)"
  using assms
  by (auto simp: risk_policy_evaluate_def and_then_eq_Inr Let_def split: if_splits)

text \<open>The code \<open>APPROVED\<close> stands alone on exactly the approved decisions.\<close>

definition codes_agree :: "risk_decision \<Rightarrow> bool" where
  "codes_agree d \<longleftrightarrow> (if rd_approved d then rd_reason_codes d = [''APPROVED'']
     else rd_reason_codes d \<noteq> [] \<and> ''APPROVED'' \<notin> set (rd_reason_codes d))"

lemma codes_agree_approval:
  assumes "rd_approved d \<longleftrightarrow> rs = []" "rd_reason_codes d = approval rs" "''APPROVED'' \<notin> set rs"
  shows "codes_agree d" and "filter (\<lambda>r. r \<noteq> ''APPROVED'') (rd_reason_codes d) = rs"
  using assms by (auto simp: codes_agree_def approval_def filter_id_conv)

lemma codes_agree_filter:
  "codes_agree d \<Longrightarrow> filter (\<lambda>r. r \<noteq> ''APPROVED'') (rd_reason_codes d) = [] \<longleftrightarrow> rd_approved d"
  by (auto simp: codes_agree_def filter_empty_conv split: if_splits)
    (metis in_set_conv_decomp_first list.set_intros(1) neq_Nil_conv)

lemma evaluate_codes_agree: "risk_policy_evaluate rfc p i b t = Inr d \<Longrightarrow> codes_agree d"
  by (elim risk_policy_evaluate_Ok) (rule codes_agree_approval(1), assumption+, rule evaluate_reasons_not_APPROVED)

lemma reference_reasons_facts:
  assumes "codes_agree d"
  shows "''APPROVED'' \<notin> set (reference_reasons i ref (rd_reason_codes d))"
    and "reference_reasons i ref (rd_reason_codes d) = [] \<longleftrightarrow>
      rd_approved d \<and> is_whole_multiple (oi_quantity i) (in_lot_size ref)
      \<and> (\<forall>price. oi_limit_price i = Some price \<longrightarrow> is_whole_multiple price (in_tick_size ref))"
  using codes_agree_filter [OF assms]
  by (auto simp: reference_reasons_def option_exceeds_def split: option.splits)

lemma evaluate_with_reference_Ok:
  assumes "evaluate_with_reference rfc p i b ref t = Inr d"
  obtains d0 where "risk_policy_evaluate rfc p i b t = Inr d0"
    "in_instrument_id ref = oi_instrument_id i" "0 < scaled (in_tick_size ref)"
    "0 < scaled (in_lot_size ref)" "rd_intent_id d = rd_intent_id d0" "codes_agree d"
    "rd_approved d \<longleftrightarrow> rd_approved d0 \<and> is_whole_multiple (oi_quantity i) (in_lot_size ref)
      \<and> (\<forall>price. oi_limit_price i = Some price \<longrightarrow> is_whole_multiple price (in_tick_size ref))"
proof -
  from assms obtain d0 where d0: "risk_policy_evaluate rfc p i b t = Inr d0"
    and side: "in_instrument_id ref = oi_instrument_id i" "0 < scaled (in_tick_size ref)"
      "0 < scaled (in_lot_size ref)" "rd_intent_id d = rd_intent_id d0"
    and d: "rd_approved d \<longleftrightarrow> reference_reasons i ref (rd_reason_codes d0) = []"
      "rd_reason_codes d = approval (reference_reasons i ref (rd_reason_codes d0))"
    by (auto simp: evaluate_with_reference_def and_then_eq_Inr Let_def decimal_order not_le
        split: if_splits)
  note facts = reference_reasons_facts [OF evaluate_codes_agree [OF d0], of i ref]
  from codes_agree_approval(1) [OF d facts(1)] d(1) facts(2)
  show ?thesis by (intro that [OF d0 side]) simp_all
qed

lemma news_reasons_facts:
  assumes "codes_agree d"
  shows "''APPROVED'' \<notin> set (news_reasons p slippage m (rd_reason_codes d))"
    and "news_reasons p slippage m (rd_reason_codes d) = [] \<longleftrightarrow> rd_approved d
      \<and> (\<forall>limit. rp_max_news_slippage_bps p = Some limit \<longrightarrow> slippage \<le> limit)
      \<and> (\<forall>limit v. rp_max_news_spread_multiplier_bps p = Some limit \<longrightarrow> m = Some v \<longrightarrow> v \<le> limit)"
proof -
  show "''APPROVED'' \<notin> set (news_reasons p slippage m (rd_reason_codes d))"
    by (simp add: news_reasons_def)
  have "news_reasons p slippage m (rd_reason_codes d) = [] \<longleftrightarrow>
      filter (\<lambda>r. r \<noteq> ''APPROVED'') (rd_reason_codes d) = []
      \<and> \<not> option_exceeds (\<lambda>limit. slippage > limit) (rp_max_news_slippage_bps p)
      \<and> \<not> option_exceeds (\<lambda>limit. option_exceeds (\<lambda>v. v > limit) m) (rp_max_news_spread_multiplier_bps p)"
    unfolding news_reasons_def dedup_eq_Nil sort_eq_Nil append_is_Nil_conv by simp
  with codes_agree_filter [OF assms] show "news_reasons p slippage m (rd_reason_codes d) = [] \<longleftrightarrow> rd_approved d
      \<and> (\<forall>limit. rp_max_news_slippage_bps p = Some limit \<longrightarrow> slippage \<le> limit)
      \<and> (\<forall>limit v. rp_max_news_spread_multiplier_bps p = Some limit \<longrightarrow> m = Some v \<longrightarrow> v \<le> limit)"
    by (auto simp: option_exceeds_def not_less split: option.splits)
qed

lemma evaluate_news_Ok:
  assumes "evaluate_news rfc p i b ref t shock = Inr d"
  obtains d0 slippage multiplier where "evaluate_with_reference rfc p i b ref t = Inr d0"
    "price_deviation_bps (ns_pre_headline_reference_price shock)
      (case oi_limit_price i of None \<Rightarrow> br_close b | Some price \<Rightarrow> price) = Inr slippage"
    "spread_multiplier shock = Inr multiplier" "rd_intent_id d = rd_intent_id d0" "codes_agree d"
    "rd_approved d \<longleftrightarrow> rd_approved d0
      \<and> (\<forall>limit. rp_max_news_slippage_bps p = Some limit \<longrightarrow> slippage \<le> limit)
      \<and> (\<forall>limit v. rp_max_news_spread_multiplier_bps p = Some limit \<longrightarrow> multiplier = Some v \<longrightarrow> v \<le> limit)"
proof -
  from assms obtain d0 slippage m where d0: "evaluate_with_reference rfc p i b ref t = Inr d0"
    and s: "price_deviation_bps (ns_pre_headline_reference_price shock)
      (case oi_limit_price i of None \<Rightarrow> br_close b | Some price \<Rightarrow> price) = Inr slippage"
    and m: "spread_multiplier shock = Inr m" "rd_intent_id d = rd_intent_id d0"
    and d: "rd_approved d \<longleftrightarrow> news_reasons p slippage m (rd_reason_codes d0) = []"
      "rd_reason_codes d = approval (news_reasons p slippage m (rd_reason_codes d0))"
    unfolding evaluate_news_def and_then_eq_Inr Let_def by auto
  from d0 have "codes_agree d0" by (elim evaluate_with_reference_Ok)
  note facts = news_reasons_facts [OF this, of p slippage m]
  from codes_agree_approval(1) [OF d facts(1)] d(1) facts(2)
  show ?thesis by (intro that [OF d0 s m]) simp_all
qed

section \<open>Properties\<close>

text \<open>C15: The pre-trade policy approves an order exactly when the kill switch is off, quantity
  and notional are within their limits, the mark is positive and the limit price is inside the
  collar; the decision is about this intent and policy, and \<open>APPROVED\<close> stands alone on exactly the
  approved decisions.\<close>

theorem policy_approves_iff_within_limits:
  assumes "risk_policy_evaluate rfc3339 p i b t = Ok d"
  shows "(rd_approved d \<longleftrightarrow> \<not> rp_global_kill_switch p \<and> oi_quantity i \<le> rp_max_quantity p
      \<and> scaled (oi_quantity i) * scaled (br_close b) div DECIMAL_SCALE \<le> scaled (rp_max_notional p)
      \<and> ZERO < br_close b
      \<and> (\<exists>bps. optional_price_deviation (br_close b) (oi_limit_price i) = Ok bps
           \<and> bps \<le> rp_max_price_deviation_bps p))
    \<and> codes_agree d \<and> rd_intent_id d = oi_intent_id i \<and> rd_policy_version d = rp_version p
    \<and> oi_instrument_id i = br_instrument_id b"
proof -
  from assms obtain n dev where valid: "order_intent_validate rfc3339 i = Inr ()"
    and id: "oi_instrument_id i = br_instrument_id b" "rd_intent_id d = oi_intent_id i"
      "rd_policy_version d = rp_version p"
    and n: "checked_mul (oi_quantity i) (br_close b) = Inr n"
    and dev: "optional_price_deviation (br_close b) (oi_limit_price i) = Inr dev"
    and ok: "rd_approved d \<longleftrightarrow> evaluate_reasons p i b n dev = []"
    by (rule risk_policy_evaluate_Ok) blast
  from valid have "0 < scaled (oi_quantity i)" by (simp add: order_intent_validate_eq_Ok decimal_cmp)
  then have "ZERO < br_close b \<Longrightarrow>
      n \<le> rp_max_notional p \<longleftrightarrow>
      scaled (oi_quantity i) * scaled (br_close b) div DECIMAL_SCALE \<le> scaled (rp_max_notional p)"
    using checked_mul_nonneg [OF n] by (simp add: decimal_cmp)
  with ok dev id evaluate_codes_agree [OF assms] show ?thesis
    by (auto simp: evaluate_reasons_Nil)
qed

definition sample_policy :: risk_policy where
  "sample_policy = \<lparr>rp_version = ''1'', rp_global_kill_switch = False,
     rp_max_quantity = Decimal 2000000000, rp_max_notional = Decimal 200000000000,
     rp_max_price_deviation_bps = Decimal 10000000000,
     rp_max_news_slippage_bps = Some (Decimal 5000000000),
     rp_max_news_spread_multiplier_bps = None\<rparr>"

definition sample_bar :: bar where
  "sample_bar = \<lparr>br_instrument_id = ''x'', br_open = Decimal 10000000000,
     br_high = Decimal 10100000000, br_low = Decimal 9900000000, br_close = Decimal 10000000000,
     br_volume = Decimal 0, br_interval_seconds = 60, br_exchange_timezone = ''Z''\<rparr>"

definition sample_shock :: news_shock_context where
  "sample_shock = \<lparr>ns_pre_headline_reference_price = Decimal 10000000000,
     ns_current_spread = None, ns_baseline_spread = None\<rparr>"

lemmas concrete_arith = price_deviation_bps_def checked_sub_def checked_mul_def checked_div_def
  checked_add_def i128_checked_def in_i128_def DECIMAL_SCALE_def sdiv_nonneg_eq_div

lemma sample_evaluation: "\<exists>d. risk_policy_evaluate (\<lambda>_. True) sample_policy sample_intent sample_bar t = Ok d"
  by (simp add: risk_policy_evaluate_def sample_intent_validates)
    (simp add: sample_policy_def sample_intent_def sample_bar_def optional_price_deviation_def
      concrete_arith Let_def)

theorem policy_approves_iff_within_limits_witness:
  "\<exists>d. risk_policy_evaluate (\<lambda>_. True) sample_policy sample_intent sample_bar [] = Ok d \<and> rd_approved d"
proof -
  obtain d where d: "risk_policy_evaluate (\<lambda>_. True) sample_policy sample_intent sample_bar [] = Ok d"
    using sample_evaluation by blast
  have "optional_price_deviation (Decimal 10000000000) (Some (Decimal 10000000000)) = Ok ZERO"
    by (simp add: optional_price_deviation_def concrete_arith)
  then have "rd_approved d"
    by (subst policy_approves_iff_within_limits [OF d, THEN conjunct1])
      (simp add: sample_policy_def sample_intent_def sample_bar_def DECIMAL_SCALE_def)
  with d show ?thesis by blast
qed

text \<open>C25: Each stricter evaluation only removes approvals: the news evaluation approves exactly
  when the reference-data evaluation approves and the shock limits hold, and that one exactly when
  the plain policy approves and quantity and price sit on the instrument's lot and tick grids. The
  reason codes agree with the verdict at every layer.\<close>

theorem news_refines_reference_refines_policy:
  assumes "evaluate_news rfc3339 p i b reference t shock = Ok d"
  shows "codes_agree d \<and> rd_intent_id d = oi_intent_id i \<and>
    (\<exists>d1 d0 slippage multiplier. evaluate_with_reference rfc3339 p i b reference t = Ok d1
      \<and> risk_policy_evaluate rfc3339 p i b t = Ok d0
      \<and> price_deviation_bps (ns_pre_headline_reference_price shock)
          (case oi_limit_price i of None \<Rightarrow> br_close b | Some price \<Rightarrow> price) = Ok slippage
      \<and> spread_multiplier shock = Ok multiplier
      \<and> (rd_approved d \<longleftrightarrow> rd_approved d1
          \<and> (\<forall>limit. rp_max_news_slippage_bps p = Some limit \<longrightarrow> slippage \<le> limit)
          \<and> (\<forall>limit v. rp_max_news_spread_multiplier_bps p = Some limit \<longrightarrow> multiplier = Some v
               \<longrightarrow> v \<le> limit))
      \<and> (rd_approved d1 \<longleftrightarrow> rd_approved d0
          \<and> scaled (in_lot_size reference) dvd scaled (oi_quantity i)
          \<and> (\<forall>price. oi_limit_price i = Some price \<longrightarrow> scaled (in_tick_size reference) dvd scaled price)))"
proof -
  from assms obtain d1 slippage multiplier where
    d1: "evaluate_with_reference rfc3339 p i b reference t = Inr d1" and
    news: "price_deviation_bps (ns_pre_headline_reference_price shock)
      (case oi_limit_price i of None \<Rightarrow> br_close b | Some price \<Rightarrow> price) = Inr slippage"
      "spread_multiplier shock = Inr multiplier" "codes_agree d"
      "rd_approved d \<longleftrightarrow> rd_approved d1
      \<and> (\<forall>limit. rp_max_news_slippage_bps p = Some limit \<longrightarrow> slippage \<le> limit)
      \<and> (\<forall>limit v. rp_max_news_spread_multiplier_bps p = Some limit \<longrightarrow> multiplier = Some v \<longrightarrow> v \<le> limit)"
    and id: "rd_intent_id d = rd_intent_id d1"
    by (rule evaluate_news_Ok) blast
  from d1 obtain d0 where d0: "risk_policy_evaluate rfc3339 p i b t = Inr d0"
    and grid: "0 < scaled (in_tick_size reference)" "0 < scaled (in_lot_size reference)"
      "rd_intent_id d1 = rd_intent_id d0"
      "rd_approved d1 \<longleftrightarrow> rd_approved d0 \<and> is_whole_multiple (oi_quantity i) (in_lot_size reference)
      \<and> (\<forall>price. oi_limit_price i = Some price \<longrightarrow> is_whole_multiple price (in_tick_size reference))"
    by (rule evaluate_with_reference_Ok) blast
  from d0 have "rd_intent_id d0 = oi_intent_id i" by (rule risk_policy_evaluate_Ok)
  with id grid have "rd_intent_id d = oi_intent_id i" by simp
  moreover have "rd_approved d1 \<longleftrightarrow> rd_approved d0
          \<and> scaled (in_lot_size reference) dvd scaled (oi_quantity i)
          \<and> (\<forall>price. oi_limit_price i = Some price \<longrightarrow> scaled (in_tick_size reference) dvd scaled price)"
    using grid by (simp add: is_whole_multiple_iff)
  ultimately show ?thesis using d1 d0 news by blast
qed

theorem news_refines_reference_refines_policy_witness:
  "\<exists>d. evaluate_news (\<lambda>_. True) sample_policy sample_intent sample_bar sample_instrument [] sample_shock
     = Ok d \<and> codes_agree d"
proof -
  obtain d0 where d0: "risk_policy_evaluate (\<lambda>_. True) sample_policy sample_intent sample_bar [] = Ok d0"
    using sample_evaluation by blast
  have "\<exists>d1. evaluate_with_reference (\<lambda>_. True) sample_policy sample_intent sample_bar sample_instrument [] = Ok d1"
    by (simp add: evaluate_with_reference_def d0 Let_def)
      (simp add: sample_instrument_def sample_intent_def)
  moreover have "price_deviation_bps (Decimal 10000000000) (Decimal 10000000000) = Ok ZERO"
    by (simp add: concrete_arith)
  ultimately have "\<exists>d. evaluate_news (\<lambda>_. True) sample_policy sample_intent sample_bar sample_instrument []
      sample_shock = Ok d"
    by (auto simp: evaluate_news_def news_shock_validate_def sample_shock_def spread_multiplier_def
        Let_def sample_intent_def)
  with news_refines_reference_refines_policy show ?thesis by blast
qed

text \<open>The replay clock never moves backwards and always shows a canonical timestamp, whatever
  sequence of advances a replay asks for, refused ones included.\<close>

theorem replay_clock_monotone:
  assumes "replay_clock_new rfc3339 start = Ok c"
  shows "start \<le> rc_now (clock_run rfc3339 c ts)
    \<and> rc_now (clock_run rfc3339 c ts) \<le> rc_now (clock_run rfc3339 c (ts @ us))
    \<and> canonical_shape (rc_now (clock_run rfc3339 c ts))"
proof -
  from assms have c: "rc_now c = start" "canonical_shape (rc_now c)"
    by (auto simp: replay_clock_new_def and_then_eq_Inr result_simps)
  have "clock_run rfc3339 c (ts @ us) = clock_run rfc3339 (clock_run rfc3339 c ts) us"
    by (induction ts arbitrary: c) simp_all
  with c clock_run_mono [of c] clock_run_canonical show ?thesis by (auto intro: clock_run_mono)
qed

theorem replay_clock_monotone_witness:
  "''2026-01-01T00:00:00Z'' \<le> rc_now (clock_run (\<lambda>_. True) \<lparr>rc_now = ''2026-01-01T00:00:00Z''\<rparr>
     [''2026-02-01T00:00:00Z'', ''2026-01-05T10:00:00Z''])"
  by (rule replay_clock_monotone [THEN conjunct1])
    (simp add: replay_clock_new_def validate_utc_timestamp_def sample_timestamps)

end
