(* ===== verification/FillModel.thy ===== *)
theory FillModel
  imports ReplayRisk
begin

text \<open>
  Component: the deterministic fill model of the replay (\<^verbatim>\<open>core/control-plane/src/lib.rs\<close>,
  \<^verbatim>\<open>DeterministicFillModel\<close>, \<^verbatim>\<open>round_to_tick_against_trader\<close>). The lemmas show that a
  simulated fill never beats its base price, never violates the limit, sits on the tick grid,
  and carries exactly the requested quantity.
\<close>

definition round_to_tick_against_trader :: "decimal \<Rightarrow> side \<Rightarrow> decimal \<Rightarrow> decimal result" where
  "round_to_tick_against_trader price s tick =
     (if tick \<le> ZERO then Err ''a fill price cannot be rounded to a non-positive tick''
      else let x = scaled price; step = scaled tick;
               floor_price = i128_wrap (x - x mod step) in
        and_then (case s of
            Buy \<Rightarrow> if floor_price \<noteq> x
              then ok_or (i128_checked (floor_price + step)) ''rounded fill price overflow''
              else Ok floor_price
          | Sell \<Rightarrow> Ok floor_price) (\<lambda>rounded. Ok (Decimal rounded)))"

record fill_model =
  fm_spread_bps :: decimal
  fm_slippage_bps :: decimal
  fm_flat_fee :: decimal
  fm_latency_bars :: nat
  fm_max_fill_quantity :: "decimal option"

definition fill_model_validate :: "fill_model \<Rightarrow> unit result" where
  "fill_model_validate m =
     and_then (from_integer 10000) (\<lambda>ten_thousand.
     and_then (from_integer 2) (\<lambda>two.
     and_then (checked_div (fm_spread_bps m) two) (\<lambda>half_spread_bps.
     and_then (checked_add (fm_slippage_bps m) half_spread_bps) (\<lambda>adverse_bps.
     if fm_spread_bps m < ZERO \<or> fm_spread_bps m \<ge> ten_thousand
        \<or> fm_slippage_bps m < ZERO \<or> fm_slippage_bps m \<ge> ten_thousand
        \<or> adverse_bps \<ge> ten_thousand \<or> fm_flat_fee m < ZERO
        \<or> fm_latency_bars m > 1000000
        \<or> option_exceeds (\<lambda>quantity. quantity \<le> ZERO) (fm_max_fill_quantity m)
     then Err ''fill spread and slippage must be in [0, 10000) bps, their combined adverse adjustment must be below 10000 bps, fees cannot be negative, latency cannot exceed 1000000 bars, and an optional fill cap must be positive''
     else Ok ()))))"

text \<open>
  The price the model starts from, or \<open>None\<close> when a limit order is not marketable on the bar.
  A limit order without a price cannot pass intent validation; the code would panic there, and
  the model has the error \<open>validated limit order has a price\<close>.
\<close>

definition fill_base_price :: "order_intent \<Rightarrow> bar \<Rightarrow> decimal option result" where
  "fill_base_price i b = (case oi_order_type i of
     MarketOrder \<Rightarrow> Ok (Some (br_close b))
   | LimitOrder \<Rightarrow> (case oi_limit_price i of
       None \<Rightarrow> Err ''validated limit order has a price''
     | Some limit \<Rightarrow> (case oi_side i of
         Buy \<Rightarrow> Ok (if br_low b \<le> limit then Some (min (br_close b) limit) else None)
       | Sell \<Rightarrow> Ok (if br_high b \<ge> limit then Some (max (br_close b) limit) else None))))"

definition adverse_adjustment :: "fill_model \<Rightarrow> decimal \<Rightarrow> decimal result" where
  "adverse_adjustment m base_price =
     and_then (from_integer 10000) (\<lambda>basis_points.
     and_then (from_integer 20000) (\<lambda>full_spread_divisor.
     and_then (checked_mul base_price (fm_spread_bps m)) (\<lambda>sp.
     and_then (checked_div sp full_spread_divisor) (\<lambda>spread_adjustment.
     and_then (checked_mul base_price (fm_slippage_bps m)) (\<lambda>sl.
     and_then (checked_div sl basis_points) (\<lambda>slippage_adjustment.
     checked_add spread_adjustment slippage_adjustment))))))"

definition violates_limit :: "side \<Rightarrow> decimal \<Rightarrow> decimal option \<Rightarrow> bool" where
  "violates_limit s price limit = option_exceeds (\<lambda>l. case s of Buy \<Rightarrow> price > l | Sell \<Rightarrow> price < l) limit"

definition priced_fill ::
    "fill_model \<Rightarrow> oms_order \<Rightarrow> string \<Rightarrow> decimal \<Rightarrow> string \<Rightarrow> decimal option \<Rightarrow> decimal
      \<Rightarrow> fill option result" where
  "priced_fill m ord replay_time quantity execution_id tick_size base_price =
     (let i = oo_intent ord in
      and_then (adverse_adjustment m base_price) (\<lambda>adverse.
      and_then (case oi_side i of Buy \<Rightarrow> checked_add base_price adverse
          | Sell \<Rightarrow> checked_sub base_price adverse) (\<lambda>modelled.
      and_then (case tick_size of None \<Rightarrow> Ok modelled
          | Some tick \<Rightarrow> round_to_tick_against_trader modelled (oi_side i) tick) (\<lambda>price.
      if price \<le> ZERO then Err ''deterministic fill model produced a non-positive price''
      else if violates_limit (oi_side i) price (oi_limit_price i) then Ok None
      else Ok (Some \<lparr>fl_execution_id = execution_id, fl_order_id = oo_order_id ord,
        fl_instrument_id = oi_instrument_id i, fl_side = oi_side i, fl_quantity = quantity,
        fl_price = price, fl_fee = fm_flat_fee m, fl_executed_at = replay_time\<rparr>)))))"

definition fill_quantity ::
    "fill_model \<Rightarrow> oms_order \<Rightarrow> bar \<Rightarrow> string \<Rightarrow> decimal \<Rightarrow> string \<Rightarrow> decimal option
      \<Rightarrow> fill option result" where
  "fill_quantity m ord b replay_time quantity execution_id tick_size =
     (if quantity \<le> ZERO \<or> quantity > oi_quantity (oo_intent ord)
      then Err ''simulated fill quantity must be positive and cannot exceed order quantity''
      else and_then (fill_base_price (oo_intent ord) b) (\<lambda>base.
        case base of None \<Rightarrow> Ok None
        | Some base_price \<Rightarrow> priced_fill m ord replay_time quantity execution_id tick_size base_price))"

definition fill_order :: "fill_model \<Rightarrow> oms_order \<Rightarrow> bar \<Rightarrow> string \<Rightarrow> fill option result" where
  "fill_order m ord b replay_time =
     fill_quantity m ord b replay_time (oi_quantity (oo_intent ord))
       (''exec-'' @ oi_intent_id (oo_intent ord)) None"

section \<open>Rounding\<close>

lemma round_to_tick_Ok:
  assumes "round_to_tick_against_trader p s tick = Inr r" "dec_ok p" "0 \<le> scaled p"
  shows "scaled tick dvd scaled r" "\<bar>scaled r - scaled p\<bar> < scaled tick"
    "s = Buy \<Longrightarrow> scaled p \<le> scaled r" "s = Sell \<Longrightarrow> scaled r \<le> scaled p"
    "scaled tick dvd scaled p \<Longrightarrow> r = p" "0 < scaled tick"
proof -
  let ?x = "scaled p" and ?k = "scaled tick"
  from assms(1) show k: "0 < ?k"
    by (auto simp: round_to_tick_against_trader_def decimal_order not_le split: if_splits)
  then have m: "0 \<le> ?x mod ?k" "?x mod ?k < ?k" "?x mod ?k \<le> ?x" "?k dvd ?x - ?x mod ?k"
    using assms(3) by (simp_all add: zmod_le_nonneg_dividend)
  with assms(2,3) have "in_i128 (?x - ?x mod ?k)" by (auto simp: dec_ok_def in_i128_def)
  with assms(1) k have r: "scaled r = (if s = Buy \<and> ?x mod ?k \<noteq> 0 then ?x - ?x mod ?k + ?k
      else ?x - ?x mod ?k)"
    by (cases s) (auto simp: round_to_tick_against_trader_def Let_def and_then_eq_Inr result_simps
        split: if_splits)
  from m r show "?k dvd scaled r" by auto
  from m r show "\<bar>scaled r - ?x\<bar> < ?k" by (auto split: if_splits)
  from m r show "s = Buy \<Longrightarrow> ?x \<le> scaled r" "s = Sell \<Longrightarrow> scaled r \<le> ?x"
    by (auto split: if_splits)
  from r show "?k dvd ?x \<Longrightarrow> r = p" by (simp add: decimal_eq_scaled dvd_eq_mod_eq_0)
qed

section \<open>What a fill satisfies\<close>

lemma adverse_adjustment_nonneg:
  assumes "adverse_adjustment m base = Inr a" "0 \<le> scaled base"
    "0 \<le> scaled (fm_spread_bps m)" "0 \<le> scaled (fm_slippage_bps m)"
  shows "0 \<le> scaled a"
proof -
  from assms obtain sp sa sl la where
    "checked_mul base (fm_spread_bps m) = Inr sp" "checked_div sp (Decimal 2000000000000) = Inr sa"
    "checked_mul base (fm_slippage_bps m) = Inr sl" "checked_div sl (Decimal 1000000000000) = Inr la"
    "checked_add sa la = Inr a"
    by (auto simp: adverse_adjustment_def and_then_eq_Inr)
  with assms(2-4) show ?thesis
    using checked_mul_sign checked_div_sign by (fastforce simp: checked_add_eq_Ok)
qed

lemma fill_model_validate_Ok:
  "fill_model_validate m = Inr u \<Longrightarrow> 0 \<le> scaled (fm_spread_bps m) \<and> 0 \<le> scaled (fm_slippage_bps m)
    \<and> 0 \<le> scaled (fm_flat_fee m)"
  by (auto simp: fill_model_validate_def and_then_eq_Inr result_simps decimal_order not_less not_le)

definition fill_grid_ok :: "decimal option \<Rightarrow> decimal \<Rightarrow> bool" where
  "fill_grid_ok tick price \<longleftrightarrow> (case tick of None \<Rightarrow> True | Some k \<Rightarrow> is_whole_multiple price k)"

text \<open>The side against which a price is no better than another.\<close>

definition no_better :: "side \<Rightarrow> decimal \<Rightarrow> decimal \<Rightarrow> bool" where
  "no_better s price base \<longleftrightarrow> (case s of Buy \<Rightarrow> base \<le> price | Sell \<Rightarrow> price \<le> base)"

lemma priced_fill_Some:
  assumes "priced_fill m ord t q e tick base = Inr (Some f)"
    "fill_model_validate m = Inr ()" "0 < scaled base"
    "oi_side (oo_intent ord) = Sell \<Longrightarrow> tick \<noteq> None \<Longrightarrow>
       \<forall>a. adverse_adjustment m base = Inr a \<longrightarrow> scaled a \<le> scaled base"
  shows "fl_quantity f = q" "fl_side f = oi_side (oo_intent ord)" "ZERO < fl_price f"
    "fl_fee f = fm_flat_fee m" "fl_order_id f = oo_order_id ord"
    "fl_instrument_id f = oi_instrument_id (oo_intent ord)"
    "\<not> violates_limit (fl_side f) (fl_price f) (oi_limit_price (oo_intent ord))"
    "no_better (fl_side f) (fl_price f) base" "fill_grid_ok tick (fl_price f)"
proof -
  let ?s = "oi_side (oo_intent ord)"
  from assms(1) obtain adv mdl where adv: "adverse_adjustment m base = Inr adv"
    and mdl: "(case ?s of Buy \<Rightarrow> checked_add base adv | Sell \<Rightarrow> checked_sub base adv) = Inr mdl"
    and price: "(case tick of None \<Rightarrow> Ok mdl | Some k \<Rightarrow> round_to_tick_against_trader mdl ?s k)
      = Inr (fl_price f)"
    and f: "fl_quantity f = q" "fl_side f = ?s" "ZERO < fl_price f" "fl_fee f = fm_flat_fee m"
      "fl_order_id f = oo_order_id ord" "fl_instrument_id f = oi_instrument_id (oo_intent ord)"
      "\<not> violates_limit ?s (fl_price f) (oi_limit_price (oo_intent ord))"
    by (auto simp: priced_fill_def Let_def and_then_eq_Inr not_le split: if_splits)
  from f show "fl_quantity f = q" "fl_side f = ?s" "ZERO < fl_price f"
    "fl_fee f = fm_flat_fee m" "fl_order_id f = oo_order_id ord"
    "fl_instrument_id f = oi_instrument_id (oo_intent ord)"
    "\<not> violates_limit (fl_side f) (fl_price f) (oi_limit_price (oo_intent ord))"
    by simp_all
  from adverse_adjustment_nonneg [OF adv] fill_model_validate_Ok [OF assms(2)] assms(3)
  have a0: "0 \<le> scaled adv" by simp
  with mdl have side: "no_better ?s mdl base" "dec_ok mdl"
    by (auto simp: no_better_def decimal_order result_simps dec_ok_def split: side.splits)
  have "no_better ?s (fl_price f) base \<and> fill_grid_ok tick (fl_price f)"
  proof (cases tick)
    case None
    with price side show ?thesis by (simp add: fill_grid_ok_def)
  next
    case (Some k)
    have "0 \<le> scaled mdl"
      using mdl a0 assms(3) assms(4) adv Some
      by (cases ?s) (auto simp: result_simps)
    with price Some side have r: "scaled k dvd scaled (fl_price f)" "0 < scaled k"
      "?s = Buy \<Longrightarrow> scaled mdl \<le> scaled (fl_price f)" "?s = Sell \<Longrightarrow> scaled (fl_price f) \<le> scaled mdl"
      using round_to_tick_Ok [of mdl ?s k "fl_price f"] by auto
    with side Some show ?thesis
      by (cases ?s) (auto simp: no_better_def decimal_order fill_grid_ok_def is_whole_multiple_iff)
  qed
  with f show "no_better (fl_side f) (fl_price f) base" "fill_grid_ok tick (fl_price f)"
    by simp_all
qed

section \<open>Properties\<close>

text \<open>C17: A simulated fill is never better than the market: it fills the whole order, at a positive
  price that is no better for the trader than the bar's close (bounded by the limit), never through
  the limit, and never outside what the order asked for; a limit order fills only when the bar's
  range reaches its limit.\<close>

theorem simulated_fill_conservative:
  assumes "fill_order m order b t = Ok (Some f)" "fill_model_validate m = Ok ()"
    and "bar_validate b = Ok ()" "order_intent_validate rfc3339 (oo_intent order) = Ok ()"
    and "\<forall>l. oi_limit_price (oo_intent order) = Some l \<longrightarrow> ZERO < l"
  shows "fl_quantity f = oi_quantity (oo_intent order) \<and> fl_side f = oi_side (oo_intent order)
    \<and> fl_order_id f = oo_order_id order \<and> fl_fee f = fm_flat_fee m \<and> ZERO < fl_price f
    \<and> (case oi_limit_price (oo_intent order) of
         None \<Rightarrow> no_better (fl_side f) (fl_price f) (br_close b)
       | Some l \<Rightarrow> (case fl_side f of
           Buy \<Rightarrow> br_low b \<le> l \<and> min (br_close b) l \<le> fl_price f \<and> fl_price f \<le> l
         | Sell \<Rightarrow> l \<le> br_high b \<and> fl_price f \<le> max (br_close b) l \<and> l \<le> fl_price f))"
proof -
  let ?i = "oo_intent order"
  from assms(1) obtain base where base: "fill_base_price ?i b = Inr (Some base)"
    and priced: "priced_fill m order t (oi_quantity ?i) (''exec-'' @ oi_intent_id ?i) None base = Inr (Some f)"
    by (auto simp: fill_order_def fill_quantity_def and_then_eq_Inr split: if_splits option.splits)
  from assms(3) have close: "0 < scaled (br_close b)" by (auto simp: bar_validate_eq_Ok decimal_cmp)
  from base close assms(5) have "0 < scaled base"
    by (auto simp: fill_base_price_def decimal_cmp split: order_type.splits option.splits side.splits
        if_splits)
  note facts = priced_fill_Some [OF priced assms(2) this, simplified]
  from assms(4) have kind: "oi_order_type ?i = LimitOrder \<longleftrightarrow> oi_limit_price ?i \<noteq> None"
    by (simp add: order_intent_validate_eq_Ok)
  show ?thesis
  proof (cases "oi_limit_price ?i")
    case None
    with kind have "oi_order_type ?i = MarketOrder" by (cases "oi_order_type ?i") simp_all
    with base have "base = br_close b" by (simp add: fill_base_price_def)
    with None facts show ?thesis by simp
  next
    case (Some l)
    with kind base facts show ?thesis
      by (cases "oi_side ?i")
        (auto simp: fill_base_price_def no_better_def violates_limit_def not_less split: if_splits)
  qed
qed

definition sample_fill_model :: fill_model where
  "sample_fill_model = \<lparr>fm_spread_bps = Decimal 200000000, fm_slippage_bps = Decimal 100000000,
     fm_flat_fee = Decimal 100000000, fm_latency_bars = 0, fm_max_fill_quantity = None\<rparr>"

definition sample_market_order :: oms_order where
  "sample_market_order = sample_order\<lparr>oo_intent :=
     sample_intent\<lparr>oi_order_type := MarketOrder, oi_limit_price := None\<rparr>\<rparr>"

lemma sample_fill_inputs:
  "fill_model_validate sample_fill_model = Ok ()" "bar_validate sample_bar = Ok ()"
  "order_intent_validate (\<lambda>_. True) (oo_intent sample_market_order) = Ok ()"
  "oi_limit_price (oo_intent sample_market_order) = None"
  by (simp_all add: fill_model_validate_def sample_fill_model_def concrete_arith bar_validate_eq_Ok
      sample_bar_def canonical_id_def is_id_byte_def byte_simps order_intent_validate_eq_Ok
      sample_market_order_def sample_order_def sample_intent_def sample_timestamp)

lemma sample_fill_runs:
  "\<exists>f. fill_order sample_fill_model sample_market_order sample_bar t = Ok (Some f)"
  by (simp add: fill_order_def fill_quantity_def fill_base_price_def priced_fill_def adverse_adjustment_def
      sample_fill_model_def sample_market_order_def sample_order_def sample_intent_def sample_bar_def
      violates_limit_def concrete_arith Let_def)

theorem simulated_fill_conservative_witness:
  "\<exists>f. fill_order sample_fill_model sample_market_order sample_bar [] = Ok (Some f)
     \<and> br_close sample_bar \<le> fl_price f"
proof -
  obtain f where f: "fill_order sample_fill_model sample_market_order sample_bar [] = Ok (Some f)"
    using sample_fill_runs by blast
  have "no_better (fl_side f) (fl_price f) (br_close sample_bar)" "fl_side f = Buy"
    using simulated_fill_conservative [OF f sample_fill_inputs(1-3)] sample_fill_inputs(4)
    by (auto simp: sample_market_order_def sample_order_def sample_intent_def)
  with f show ?thesis by (auto simp: no_better_def)
qed

text \<open>Rounding a fill price to the tick grid works against the trader and by less than a tick:
  up for a buy, down for a sell, exact on the grid already.\<close>

theorem tick_rounding_against_trader:
  assumes "round_to_tick_against_trader price s tick = Ok r" "dec_ok price" "ZERO \<le> price"
  shows "scaled tick dvd scaled r \<and> no_better s r price
    \<and> \<bar>scaled r - scaled price\<bar> < scaled tick \<and> (scaled tick dvd scaled price \<longrightarrow> r = price)"
  using round_to_tick_Ok [OF assms(1,2)] assms(3)
  by (cases s) (auto simp: no_better_def decimal_cmp)

theorem tick_rounding_against_trader_witness:
  "scaled (Decimal 5) dvd scaled (Decimal 105) \<and> no_better Buy (Decimal 105) (Decimal 101)"
proof -
  have "round_to_tick_against_trader (Decimal 101) Buy (Decimal 5) = Ok (Decimal 105)"
    by (simp add: round_to_tick_against_trader_def Let_def i128_checked_def in_i128_def)
  from tick_rounding_against_trader [OF this] show ?thesis by (simp add: dec_ok_def in_i128_def)
qed

end
