(* ===== verification/Portfolio.thy ===== *)
theory Portfolio
  imports ReplayRisk
begin

text \<open>
  Component: the single-instrument portfolio projection (\<^verbatim>\<open>core/control-plane/src/lib.rs\<close>,
  \<^verbatim>\<open>Portfolio\<close>). Methods take \<^verbatim>\<open>&mut self\<close>; the model returns the result together with the
  portfolio after the call, so an error return shows what had been assigned before it. The
  lemmas give the position invariant and its preservation by every operation, that a failing
  operation leaves the portfolio as it was, and the exact quantity each fill moves.
\<close>

record portfolio =
  pf_account_id :: string
  pf_instrument_id :: string
  pf_quantity :: decimal
  pf_average_cost :: decimal
  pf_realized_pnl :: decimal

definition portfolio_new :: "string \<Rightarrow> string \<Rightarrow> portfolio" where
  "portfolio_new account_id instrument_id =
     \<lparr>pf_account_id = account_id, pf_instrument_id = instrument_id, pf_quantity = ZERO,
      pf_average_cost = ZERO, pf_realized_pnl = ZERO\<rparr>"

definition portfolio_recover_signed ::
    "string \<Rightarrow> string \<Rightarrow> decimal \<Rightarrow> decimal \<Rightarrow> decimal \<Rightarrow> portfolio result" where
  "portfolio_recover_signed account_id instrument_id quantity average_cost realized_pnl =
     and_then (validate_canonical_id ''portfolio account_id'' account_id) (\<lambda>_.
     and_then (validate_canonical_id ''portfolio instrument_id'' instrument_id) (\<lambda>_.
     if (quantity \<ge> ZERO \<and> average_cost < ZERO) \<or> quantity = ZERO \<and> average_cost \<noteq> ZERO
     then Err ''persisted portfolio is invalid''
     else Ok \<lparr>pf_account_id = account_id, pf_instrument_id = instrument_id, pf_quantity = quantity,
       pf_average_cost = average_cost, pf_realized_pnl = realized_pnl\<rparr>))"

definition portfolio_recover ::
    "string \<Rightarrow> string \<Rightarrow> decimal \<Rightarrow> decimal \<Rightarrow> decimal \<Rightarrow> portfolio result" where
  "portfolio_recover account_id instrument_id quantity average_cost realized_pnl =
     (if quantity < ZERO then Err ''persisted long-only portfolio is short''
      else portfolio_recover_signed account_id instrument_id quantity average_cost realized_pnl)"

text \<open>\<open>commit r s f\<close> ends a method: the error keeps the state \<open>s\<close>, success assigns.\<close>

definition commit :: "'r result \<Rightarrow> 's \<Rightarrow> ('r \<Rightarrow> 's) \<Rightarrow> unit result \<times> 's" where
  "commit r s f = (case r of Inl e \<Rightarrow> (Inl e, s) | Inr x \<Rightarrow> (Ok (), f x))"

lemma commit_cases:
  "commit r s f = (Inr u, s') \<longleftrightarrow> (\<exists>x. r = Inr x \<and> s' = f x)"
  "commit r s f = (Inl e, s') \<longleftrightarrow> r = Inl e \<and> s' = s"
  by (auto simp: commit_def split: sum.splits)

definition buy_fill :: "portfolio \<Rightarrow> fill \<Rightarrow> (decimal \<times> decimal) result" where
  "buy_fill p f =
     and_then (checked_mul (pf_average_cost p) (pf_quantity p)) (\<lambda>prior_cost.
     and_then (checked_mul (fl_price f) (fl_quantity f)) (\<lambda>gross.
     and_then (checked_add gross (fl_fee f)) (\<lambda>fill_cost.
     and_then (checked_add (pf_quantity p) (fl_quantity f)) (\<lambda>new_quantity.
     and_then (checked_add prior_cost fill_cost) (\<lambda>total_cost.
     and_then (checked_div total_cost new_quantity) (\<lambda>average_cost.
     Ok (average_cost, new_quantity)))))))"

definition sell_realized :: "portfolio \<Rightarrow> fill \<Rightarrow> decimal result" where
  "sell_realized p f =
     and_then (checked_sub (fl_price f) (pf_average_cost p)) (\<lambda>per_unit.
     and_then (checked_mul per_unit (fl_quantity f)) (\<lambda>gross_realized.
     and_then (checked_sub gross_realized (fl_fee f)) (\<lambda>net_realized.
     checked_add (pf_realized_pnl p) net_realized)))"

definition portfolio_apply_fill :: "portfolio \<Rightarrow> fill \<Rightarrow> unit result \<times> portfolio" where
  "portfolio_apply_fill p f =
     (if fl_instrument_id f \<noteq> pf_instrument_id p \<or> fl_quantity f \<le> ZERO
      then (Err ''fill does not match portfolio or has invalid quantity'', p)
      else case fl_side f of
        Buy \<Rightarrow> commit (buy_fill p f) p (\<lambda>(average_cost, new_quantity).
          p\<lparr>pf_average_cost := average_cost, pf_quantity := new_quantity\<rparr>)
      | Sell \<Rightarrow>
          if fl_quantity f > pf_quantity p
          then (Err ''first slice does not permit short positions'', p)
          else (case sell_realized p f of
              Inl e \<Rightarrow> (Inl e, p)
            | Inr realized \<Rightarrow>
                let p1 = p\<lparr>pf_realized_pnl := realized\<rparr> in
                commit (checked_sub (pf_quantity p1) (fl_quantity f)) p1 (\<lambda>quantity.
                  let p2 = p1\<lparr>pf_quantity := quantity\<rparr> in
                  if pf_quantity p2 = ZERO then p2\<lparr>pf_average_cost := ZERO\<rparr> else p2)))"

section \<open>Signed fills\<close>

definition signed_quantity :: "side \<Rightarrow> decimal \<Rightarrow> decimal result" where
  "signed_quantity s q = (case s of Buy \<Rightarrow> Ok q | Sell \<Rightarrow> checked_sub ZERO q)"

definition closing_cost :: "portfolio \<Rightarrow> fill \<Rightarrow> decimal \<Rightarrow> decimal \<Rightarrow> decimal \<Rightarrow> decimal result" where
  "closing_cost p f held closed close_fee =
     (if fl_quantity f < held then Ok (pf_average_cost p)
      else if fl_quantity f = held then Ok ZERO
      else and_then (checked_sub (fl_fee f) close_fee) (\<lambda>fee_left.
        and_then (checked_sub (fl_quantity f) closed) (\<lambda>opened.
        and_then (checked_div fee_left opened) (\<lambda>opening_fee.
        case fl_side f of Buy \<Rightarrow> checked_add (fl_price f) opening_fee
        | Sell \<Rightarrow> checked_sub (fl_price f) opening_fee))))"

definition close_position :: "portfolio \<Rightarrow> fill \<Rightarrow> decimal \<Rightarrow> (decimal \<times> decimal) result" where
  "close_position p f held =
     (let closed = min held (fl_quantity f) in
      and_then (if closed = fl_quantity f then Ok (fl_fee f)
        else and_then (checked_mul (fl_fee f) closed) (\<lambda>part. checked_div part (fl_quantity f)))
        (\<lambda>close_fee.
      and_then (if pf_quantity p > ZERO then checked_sub (fl_price f) (pf_average_cost p)
        else checked_sub (pf_average_cost p) (fl_price f)) (\<lambda>gain.
      and_then (checked_mul gain closed) (\<lambda>gross.
      and_then (checked_sub gross close_fee) (\<lambda>net.
      and_then (checked_add (pf_realized_pnl p) net) (\<lambda>realized.
      and_then (closing_cost p f held closed close_fee) (\<lambda>cost.
      Ok (cost, realized))))))))"

definition extend_position :: "portfolio \<Rightarrow> fill \<Rightarrow> decimal \<Rightarrow> (decimal \<times> decimal) result" where
  "extend_position p f held =
     and_then (checked_mul (fl_price f) (fl_quantity f)) (\<lambda>gross.
     and_then (case fl_side f of Buy \<Rightarrow> checked_add gross (fl_fee f)
       | Sell \<Rightarrow> checked_sub gross (fl_fee f)) (\<lambda>amount.
     and_then (checked_mul (pf_average_cost p) held) (\<lambda>carried.
     and_then (checked_add carried amount) (\<lambda>total_cost.
     and_then (checked_add held (fl_quantity f)) (\<lambda>size.
     and_then (checked_div total_cost size) (\<lambda>average_cost.
     Ok (average_cost, pf_realized_pnl p)))))))"

definition closes_position :: "portfolio \<Rightarrow> decimal \<Rightarrow> bool" where
  "closes_position p signed \<longleftrightarrow>
     (pf_quantity p > ZERO \<and> signed < ZERO) \<or> (pf_quantity p < ZERO \<and> signed > ZERO)"

definition signed_fill :: "portfolio \<Rightarrow> fill \<Rightarrow> (decimal \<times> decimal \<times> decimal) result" where
  "signed_fill p f =
     (if fl_instrument_id f \<noteq> pf_instrument_id p \<or> fl_quantity f \<le> ZERO \<or> fl_price f \<le> ZERO
         \<or> fl_fee f < ZERO
      then Err ''invalid signed portfolio fill''
      else and_then (signed_quantity (fl_side f) (fl_quantity f)) (\<lambda>signed.
        and_then (if pf_quantity p < ZERO then checked_sub ZERO (pf_quantity p)
          else Ok (pf_quantity p)) (\<lambda>held.
        and_then (checked_add (pf_quantity p) signed) (\<lambda>next_quantity.
        and_then (if closes_position p signed then close_position p f held
          else extend_position p f held) (\<lambda>(average_cost, realized).
        if next_quantity > ZERO \<and> average_cost < ZERO
        then Err ''signed portfolio cost is negative''
        else Ok (next_quantity, average_cost, realized))))))"

definition portfolio_apply_signed_fill :: "portfolio \<Rightarrow> fill \<Rightarrow> unit result \<times> portfolio" where
  "portfolio_apply_signed_fill p f =
     commit (signed_fill p f) p (\<lambda>(next_quantity, average_cost, realized).
       p\<lparr>pf_quantity := next_quantity, pf_average_cost := average_cost,
         pf_realized_pnl := realized\<rparr>)"

definition portfolio_apply_split :: "portfolio \<Rightarrow> decimal \<Rightarrow> unit result \<times> portfolio" where
  "portfolio_apply_split p ratio =
     (if ratio \<le> ZERO then (Err ''split ratio must be positive'', p)
      else commit
        (and_then (checked_mul (pf_quantity p) ratio) (\<lambda>quantity.
         and_then (checked_div (pf_average_cost p) ratio) (\<lambda>average_cost.
         if quantity = ZERO \<and> pf_quantity p \<noteq> ZERO
         then Err ''split would round the held position down to nothing''
         else Ok (quantity, average_cost)))) p
        (\<lambda>(quantity, average_cost).
          p\<lparr>pf_quantity := quantity, pf_average_cost := average_cost\<rparr>))"

definition portfolio_position_snapshot :: "portfolio \<Rightarrow> position_snapshot" where
  "portfolio_position_snapshot p =
     \<lparr>ps_account_id = pf_account_id p, ps_instrument_id = pf_instrument_id p,
      ps_quantity = pf_quantity p, ps_average_cost = pf_average_cost p,
      ps_realized_pnl = pf_realized_pnl p\<rparr>"

definition portfolio_pnl_snapshot :: "portfolio \<Rightarrow> decimal \<Rightarrow> pnl_snapshot result" where
  "portfolio_pnl_snapshot p mark_price =
     and_then (checked_sub mark_price (pf_average_cost p)) (\<lambda>per_unit.
     and_then (checked_mul per_unit (pf_quantity p)) (\<lambda>unrealized.
     and_then (checked_add (pf_realized_pnl p) unrealized) (\<lambda>total_pnl.
     Ok \<lparr>pl_account_id = pf_account_id p, pl_instrument_id = pf_instrument_id p,
       pl_mark_price = mark_price, pl_realized_pnl = pf_realized_pnl p,
       pl_unrealized_pnl = unrealized, pl_total_pnl = total_pnl\<rparr>)))"

section \<open>The position invariant\<close>

text \<open>
  What \<^verbatim>\<open>recover_signed\<close> demands of a persisted position: a long or flat position has a
  non-negative cost, and a flat one has none.
\<close>

definition position_wf :: "portfolio \<Rightarrow> bool" where
  "position_wf p \<longleftrightarrow> (0 \<le> scaled (pf_quantity p) \<longrightarrow> 0 \<le> scaled (pf_average_cost p))
     \<and> (scaled (pf_quantity p) = 0 \<longrightarrow> scaled (pf_average_cost p) = 0)"

lemma position_wf_new: "position_wf (portfolio_new a i)"
  by (simp add: position_wf_def portfolio_new_def)

lemma portfolio_recover_signed_wf:
  "portfolio_recover_signed a i q c r = Inr p \<Longrightarrow> position_wf p"
  by (auto simp: portfolio_recover_signed_def and_then_eq_Inr position_wf_def decimal_order
      split: if_splits)

lemma extend_position_cost:
  assumes "extend_position p f held = Inr (c, r)" "fl_side f = Buy" "0 \<le> scaled (pf_average_cost p)"
    "0 \<le> scaled held" "0 < scaled (fl_quantity f)" "0 < scaled (fl_price f)" "0 \<le> scaled (fl_fee f)"
  shows "0 \<le> scaled c"
proof -
  from assms(1,2) obtain g v w s where
    "checked_mul (fl_price f) (fl_quantity f) = Inr g" "checked_add g (fl_fee f) = Inr v"
    "checked_mul (pf_average_cost p) held = Inr w" "checked_add w v = Inr s"
    "checked_div s (Decimal (scaled held + scaled (fl_quantity f))) = Inr c"
    by (auto simp: extend_position_def and_then_eq_Inr checked_add_eq_Ok)
  moreover from this assms have "0 \<le> scaled g" "0 \<le> scaled w"
    using checked_mul_sign by (meson less_imp_le)+
  ultimately show ?thesis
    using assms checked_div_sign [of s "Decimal (scaled held + scaled (fl_quantity f))" c]
    by (auto simp: checked_add_eq_Ok)
qed

lemma signed_fill_Ok:
  assumes "signed_fill p f = Inr (q, c, r)"
  shows "scaled q = scaled (pf_quantity p) + side_sign (fl_side f) * scaled (fl_quantity f)"
    and "position_wf p \<Longrightarrow> position_wf (p\<lparr>pf_quantity := q, pf_average_cost := c, pf_realized_pnl := r\<rparr>)"
proof -
  from assms obtain signed held where
    guard: "\<not> (fl_quantity f \<le> ZERO \<or> fl_price f \<le> ZERO \<or> fl_fee f < ZERO)" and
    signed: "signed_quantity (fl_side f) (fl_quantity f) = Inr signed" and
    held0: "(if pf_quantity p < ZERO then checked_sub ZERO (pf_quantity p) else Ok (pf_quantity p))
      = Inr held" and
    q: "checked_add (pf_quantity p) signed = Inr q" and
    body: "(if closes_position p signed then close_position p f held else extend_position p f held)
      = Inr (c, r)" and
    ok: "\<not> (q > ZERO \<and> c < ZERO)"
    unfolding signed_fill_def by (auto simp: and_then_eq_Inr simp del: not_le split: if_splits)
  from held0 have held: "scaled held = \<bar>scaled (pf_quantity p)\<bar>"
    by (auto simp: result_simps decimal_cmp split: if_splits)
  from guard have pos: "0 < scaled (fl_quantity f)" by (simp add: decimal_cmp not_le)
  from signed have s: "scaled signed = side_sign (fl_side f) * scaled (fl_quantity f)"
    by (cases "fl_side f") (auto simp: signed_quantity_def result_simps)
  with q show quantity: "scaled q = scaled (pf_quantity p) + side_sign (fl_side f) * scaled (fl_quantity f)"
    by (auto simp: checked_add_eq_Ok)
  assume wf: "position_wf p"
  have "scaled q = 0 \<longrightarrow> scaled c = 0"
  proof
    assume q0: "scaled q = 0"
    with quantity pos held have "fl_quantity f = held" "closes_position p signed"
      using s by (cases "fl_side f"; simp add: closes_position_def decimal_order)+
    with body show "scaled c = 0"
      by (auto simp: close_position_def closing_cost_def Let_def and_then_eq_Inr)
  qed
  moreover have "0 < scaled q \<longrightarrow> 0 \<le> scaled c" using ok by (auto simp: decimal_order not_less)
  ultimately show "position_wf (p\<lparr>pf_quantity := q, pf_average_cost := c, pf_realized_pnl := r\<rparr>)"
    by (auto simp: position_wf_def le_less)
qed

lemma apply_signed_fill_wf:
  "position_wf p \<Longrightarrow> position_wf (snd (portfolio_apply_signed_fill p f))"
  unfolding portfolio_apply_signed_fill_def commit_def
  using signed_fill_Ok(2) [of p f] by (auto split: sum.splits)

section \<open>Properties\<close>

text \<open>A run of signed fills; a refused fill leaves the portfolio where it was.\<close>

fun apply_signed_fills :: "portfolio \<Rightarrow> fill list \<Rightarrow> (bool \<times> portfolio)" where
  "apply_signed_fills p [] = (True, p)"
| "apply_signed_fills p (f # fs) =
     (case portfolio_apply_signed_fill p f of
        (r, p') \<Rightarrow> (let (ok, q) = apply_signed_fills p' fs in (is_ok r \<and> ok, q)))"

lemma apply_signed_fill_cases:
  obtains (refused) e where "portfolio_apply_signed_fill p f = (Inl e, p)"
  | (accepted) q c r where "signed_fill p f = Inr (q, c, r)"
      "portfolio_apply_signed_fill p f =
        (Ok (), p\<lparr>pf_quantity := q, pf_average_cost := c, pf_realized_pnl := r\<rparr>)"
  by (cases "signed_fill p f") (auto simp: portfolio_apply_signed_fill_def commit_def)

lemma apply_signed_fills_facts:
  "position_wf p \<Longrightarrow> apply_signed_fills p fs = (ok, q) \<Longrightarrow> position_wf q \<and>
    (ok \<longrightarrow> scaled (pf_quantity q) = scaled (pf_quantity p)
      + (\<Sum>f\<leftarrow>fs. side_sign (fl_side f) * scaled (fl_quantity f)))"
proof (induction fs arbitrary: p ok)
  case (Cons f fs)
  obtain r p' where step: "portfolio_apply_signed_fill p f = (r, p')" by force
  with Cons.prems obtain ok' where rest: "apply_signed_fills p' fs = (ok', q)" "ok \<longrightarrow> is_ok r \<and> ok'"
    by (auto simp: Let_def split: prod.splits)
  have wf: "position_wf p'" using apply_signed_fill_wf [OF Cons.prems(1), of f] step by simp
  have "is_ok r \<longrightarrow> scaled (pf_quantity p') = scaled (pf_quantity p)
      + side_sign (fl_side f) * scaled (fl_quantity f)"
    by (rule apply_signed_fill_cases [of p f]) (use step signed_fill_Ok(1) in auto)
  with Cons.IH [OF wf rest(1)] rest(2) show ?case by simp
qed simp

text \<open>C9: A signed portfolio stays well formed through any sequence of fills, refused ones
  included: a long or flat position has a non-negative cost and a flat one none. When all fills are
  accepted the position is exactly the signed sum of their quantities, and a refused fill changes
  nothing.\<close>

theorem signed_portfolio_invariant:
  assumes "portfolio_recover_signed a i q c r = Ok p" "apply_signed_fills p fs = (ok, p')"
  shows "position_wf p'
    \<and> (ok \<longrightarrow> scaled (pf_quantity p') = scaled q + (\<Sum>f\<leftarrow>fs. side_sign (fl_side f) * scaled (fl_quantity f)))
    \<and> (\<forall>f e. fst (portfolio_apply_signed_fill p' f) = Inl e \<longrightarrow> snd (portfolio_apply_signed_fill p' f) = p')"
proof (intro conjI allI impI)
  have q: "pf_quantity p = q"
    using assms(1) by (auto simp: portfolio_recover_signed_def and_then_eq_Inr split: if_splits)
  note facts = apply_signed_fills_facts [OF portfolio_recover_signed_wf [OF assms(1)] assms(2)]
  show "position_wf p'" using facts by simp
  show "scaled (pf_quantity p') = scaled q + (\<Sum>f\<leftarrow>fs. side_sign (fl_side f) * scaled (fl_quantity f))"
    if ok using that facts q by simp
  fix f e
  assume "fst (portfolio_apply_signed_fill p' f) = Inl e"
  then show "snd (portfolio_apply_signed_fill p' f) = p'"
    by (cases rule: apply_signed_fill_cases [of p' f]) simp_all
qed

definition sample_fill :: "side \<Rightarrow> int \<Rightarrow> fill" where
  "sample_fill s q = \<lparr>fl_execution_id = ''e'', fl_order_id = ''o'', fl_instrument_id = ''x'',
     fl_side = s, fl_quantity = Decimal q, fl_price = Decimal 10000000000, fl_fee = Decimal 0,
     fl_executed_at = []\<rparr>"

definition sample_portfolio :: "int \<Rightarrow> int \<Rightarrow> portfolio" where
  "sample_portfolio q c = \<lparr>pf_account_id = ''a'', pf_instrument_id = ''x'', pf_quantity = Decimal q,
     pf_average_cost = Decimal c, pf_realized_pnl = ZERO\<rparr>"

lemma sample_recover:
  "portfolio_recover_signed ''a'' ''x'' (Decimal 200000000) (Decimal 9000000000) ZERO
    = Ok (sample_portfolio 200000000 9000000000)"
  by (simp add: portfolio_recover_signed_def validate_canonical_id_def is_id_byte_def byte_simps
      sample_portfolio_def)

lemma sample_reversal:
  "\<exists>p. portfolio_apply_signed_fill (sample_portfolio 200000000 9000000000) (sample_fill Sell 300000000) = (Ok (), p)"
  by (simp add: portfolio_apply_signed_fill_def commit_def signed_fill_def sample_fill_def
      sample_portfolio_def signed_quantity_def closes_position_def close_position_def closing_cost_def
      concrete_arith Let_def)

theorem signed_portfolio_invariant_witness:
  "\<exists>p. apply_signed_fills (sample_portfolio 200000000 9000000000) [sample_fill Sell 300000000] = (True, p)
     \<and> scaled (pf_quantity p) = - 100000000 \<and> position_wf p"
proof -
  obtain p where p: "apply_signed_fills (sample_portfolio 200000000 9000000000)
      [sample_fill Sell 300000000] = (True, p)"
    using sample_reversal by auto
  from signed_portfolio_invariant [OF sample_recover p] p show ?thesis
    by (simp add: sample_fill_def)
qed

text \<open>The long-only portfolio is never short. An accepted fill moves the position by exactly its
  quantity, selling the last share clears the cost, and although a sell assigns the realised result
  before the remaining subtraction, a refused fill leaves the whole portfolio unchanged.\<close>

theorem long_only_fill_atomic:
  assumes "portfolio_apply_fill p f = (r, p')" "dec_ok (pf_quantity p)" "ZERO \<le> pf_quantity p"
  shows "ZERO \<le> pf_quantity p' \<and> (\<not> is_ok r \<longrightarrow> p' = p)
    \<and> (is_ok r \<longrightarrow> scaled (pf_quantity p') = scaled (pf_quantity p)
          + side_sign (fl_side f) * scaled (fl_quantity f)
        \<and> (fl_side f = Sell \<and> pf_quantity p' = ZERO \<longrightarrow> pf_average_cost p' = ZERO))"
proof (cases "fl_instrument_id f \<noteq> pf_instrument_id p \<or> fl_quantity f \<le> ZERO
      \<or> fl_side f = Sell \<and> fl_quantity f > pf_quantity p")
  case True
  with assms show ?thesis
    by (cases "fl_side f") (auto simp: portfolio_apply_fill_def split: if_splits)
next
  case False
  then have pos: "0 < scaled (fl_quantity f)" by (simp add: decimal_cmp not_le)
  show ?thesis
  proof (cases "fl_side f")
    case Buy
    then have step: "(r, p') = commit (buy_fill p f) p (\<lambda>(average_cost, new_quantity).
          p\<lparr>pf_average_cost := average_cost, pf_quantity := new_quantity\<rparr>)"
      using False assms(1) by (simp add: portfolio_apply_fill_def)
    show ?thesis
    proof (cases "buy_fill p f")
      case (Inl e)
      with step assms(3) show ?thesis by (simp add: commit_def)
    next
      case (Inr x)
      then have "snd x = Decimal (scaled (pf_quantity p) + scaled (fl_quantity f))"
        by (auto simp: buy_fill_def and_then_eq_Inr checked_add_eq_Ok)
      with step Inr Buy assms(3) pos show ?thesis
        by (auto simp: commit_def decimal_cmp split: prod.splits)
    qed
  next
    case Sell
    with False have le: "scaled (fl_quantity f) \<le> scaled (pf_quantity p)"
      by (auto simp: decimal_cmp)
    with assms(2) pos have sub: "checked_sub (pf_quantity p) (fl_quantity f)
        = Inr (Decimal (scaled (pf_quantity p) - scaled (fl_quantity f)))"
      by (auto simp: checked_sub_eq_Ok dec_ok_def in_i128_def)
    show ?thesis
      using assms(1,3) False Sell le sub
      by (cases "sell_realized p f")
        (auto simp: portfolio_apply_fill_def commit_def Let_def decimal_cmp split: if_splits)
  qed
qed

theorem long_only_fill_atomic_witness:
  "ZERO \<le> pf_quantity (snd (portfolio_apply_fill (sample_portfolio 200000000 9000000000)
      (sample_fill Sell 300000000)))"
  using long_only_fill_atomic [of "sample_portfolio 200000000 9000000000" "sample_fill Sell 300000000"]
  by (cases "portfolio_apply_fill (sample_portfolio 200000000 9000000000) (sample_fill Sell 300000000)")
    (simp add: sample_portfolio_def dec_ok_def in_i128_def)

end
