(* ===== verification/ExecPlan.thy ===== *)
theory ExecPlan
  imports Combos
begin

text \<open>
  Component: parent orders, child instructions and plans (\<^verbatim>\<open>core/execution/src/plan.rs\<close>).
  \<open>validate_against\<close> is the gate every planner ends with. The locale \<open>validated_planner\<close> is
  the contract of a planner that returns only plans this gate accepts; its lemmas give what a
  caller of any planner may rely on.
\<close>

record parent_order =
  po_parent_order_id :: string
  po_account_id :: string
  po_instrument_id :: string
  po_side :: side
  po_quantity :: decimal
  po_limit_price :: "decimal option"

definition some_non_positive :: "decimal option \<Rightarrow> bool" where
  "some_non_positive price = (case price of None \<Rightarrow> False | Some d \<Rightarrow> d \<le> ZERO)"

definition parent_validate :: "parent_order \<Rightarrow> unit result" where
  "parent_validate p =
     and_then (validate_canonical_id ''parent_order_id'' (po_parent_order_id p)) (\<lambda>_.
     and_then (validate_canonical_id ''account_id'' (po_account_id p)) (\<lambda>_.
     and_then (validate_canonical_id ''instrument_id'' (po_instrument_id p)) (\<lambda>_.
     if po_quantity p \<le> ZERO \<or> some_non_positive (po_limit_price p)
     then Err ''parent order requires positive quantity and price'' else Ok ())))"

datatype child_order_kind = ChildMarket | ChildLimit | ChildStop | ChildStopLimit

record child_instruction =
  ci_child_order_id :: string
  ci_scheduled_after_seconds :: nat
  ci_venue :: "string option"
  ci_quantity :: decimal
  ci_kind :: child_order_kind
  ci_limit_price :: "decimal option"
  ci_stop_price :: "decimal option"

record execution_plan =
  ep_parent_order_id :: string
  ep_algorithm :: string
  ep_children :: "child_instruction list"
  ep_unallocated_quantity :: decimal

text \<open>One pass over the children; the loop state is the previous offset (\<open>None\<close> before the
  first child) and the running total.\<close>

definition check_child ::
    "child_instruction \<Rightarrow> nat option \<times> decimal \<Rightarrow> (nat option \<times> decimal) result" where
  "check_child c st =
     and_then (validate_canonical_id ''child_order_id'' (ci_child_order_id c)) (\<lambda>_.
     if ci_quantity c \<le> ZERO
        \<or> (case fst st of None \<Rightarrow> False | Some prior \<Rightarrow> ci_scheduled_after_seconds c < prior)
        \<or> some_non_positive (ci_limit_price c) \<or> some_non_positive (ci_stop_price c)
     then Err ''invalid child instruction''
     else and_then (checked_add (snd st) (ci_quantity c)) (\<lambda>total_quantity.
       Ok (Some (ci_scheduled_after_seconds c), total_quantity)))"

definition validate_against :: "execution_plan \<Rightarrow> parent_order \<Rightarrow> unit result" where
  "validate_against plan parent =
     (if ep_parent_order_id plan \<noteq> po_parent_order_id parent \<or> ep_algorithm plan = []
      then Err ''execution plan identity mismatch''
      else if ep_unallocated_quantity plan < ZERO
      then Err ''unallocated execution quantity cannot be negative''
      else and_then (try_fold check_child (ep_children plan) (None, ep_unallocated_quantity plan))
        (\<lambda>(_, total_quantity).
        if total_quantity \<noteq> po_quantity parent
        then Err ''execution plan does not conserve parent quantity'' else Ok ()))"

section \<open>What validation establishes\<close>

lemma parent_validate_eq_Ok [result_simps]:
  "parent_validate p = Inr u \<longleftrightarrow> canonical_id (po_parent_order_id p)
     \<and> canonical_id (po_account_id p) \<and> canonical_id (po_instrument_id p)
     \<and> ZERO < po_quantity p \<and> (\<forall>d. po_limit_price p = Some d \<longrightarrow> ZERO < d)"
  by (auto simp: parent_validate_def and_then_eq_Inr result_simps some_non_positive_def not_le
      split: option.splits)

definition child_ok :: "child_instruction \<Rightarrow> bool" where
  "child_ok c \<longleftrightarrow> canonical_id (ci_child_order_id c) \<and> ZERO < ci_quantity c
     \<and> \<not> some_non_positive (ci_limit_price c) \<and> \<not> some_non_positive (ci_stop_price c)"

lemma check_child_Ok:
  "check_child c st = Inr st' \<longleftrightarrow> child_ok c
     \<and> (\<forall>prior. fst st = Some prior \<longrightarrow> prior \<le> ci_scheduled_after_seconds c)
     \<and> checked_add (snd st) (ci_quantity c) = Inr (snd st')
     \<and> fst st' = Some (ci_scheduled_after_seconds c)"
  by (cases st'; cases "fst st")
    (auto simp: check_child_def child_ok_def and_then_eq_Inr result_simps not_le not_less)

lemma check_children_Ok:
  assumes "try_fold check_child cs st = Inr st'"
  shows "(\<forall>c\<in>set cs. child_ok c) \<and>
    sorted (map ci_scheduled_after_seconds cs) \<and>
    (\<forall>prior. fst st = Some prior \<longrightarrow> (\<forall>c\<in>set cs. prior \<le> ci_scheduled_after_seconds c)) \<and>
    scaled (snd st') = scaled (snd st) + (\<Sum>c\<leftarrow>cs. scaled (ci_quantity c))"
  using assms
proof (induction cs arbitrary: st)
  case (Cons c cs)
  then obtain s where s: "check_child c st = Inr s" and rest: "try_fold check_child cs s = Inr st'"
    by (auto simp: and_then_eq_Inr)
  from Cons.IH [OF rest] s show ?case
    by (fastforce simp: check_child_Ok checked_add_eq_Ok)
qed simp

text \<open>A plan that conserves the parent: what the reader of a plan relies on.\<close>

definition conserves :: "execution_plan \<Rightarrow> parent_order \<Rightarrow> bool" where
  "conserves plan parent \<longleftrightarrow> ep_parent_order_id plan = po_parent_order_id parent
     \<and> 0 \<le> scaled (ep_unallocated_quantity plan)
     \<and> scaled (ep_unallocated_quantity plan) + (\<Sum>c\<leftarrow>ep_children plan. scaled (ci_quantity c))
         = scaled (po_quantity parent)
     \<and> (\<forall>c\<in>set (ep_children plan). child_ok c)
     \<and> sorted (map ci_scheduled_after_seconds (ep_children plan))"

lemma validate_against_conserves:
  "validate_against plan parent = Inr u \<Longrightarrow> conserves plan parent"
  by (auto simp: validate_against_def and_then_eq_Inr conserves_def decimal_cmp not_less
      dest: check_children_Ok split: if_splits)

lemma sum_list_member_le:
  "x \<in> set xs \<Longrightarrow> (\<And>y. y \<in> set xs \<Longrightarrow> 0 \<le> f y) \<Longrightarrow> f x \<le> (\<Sum>y\<leftarrow>xs. f y :: int)"
proof (induction xs)
  case (Cons y ys)
  have "0 \<le> (\<Sum>y\<leftarrow>ys. f y)" by (rule sum_list_nonneg) (use Cons.prems in auto)
  moreover have "0 \<le> f y" using Cons.prems by simp
  moreover have "x \<in> set ys \<Longrightarrow> f x \<le> (\<Sum>y\<leftarrow>ys. f y)" using Cons by simp
  ultimately show ?case using Cons.prems(1) by auto
qed simp

lemma conserves_child_bound:
  assumes "conserves plan parent" "c \<in> set (ep_children plan)"
  shows "ci_quantity c \<le> po_quantity parent"
proof -
  have "scaled (ci_quantity c) \<le> (\<Sum>c\<leftarrow>ep_children plan. scaled (ci_quantity c))"
    by (rule sum_list_member_le) (use assms in \<open>auto simp: conserves_def child_ok_def decimal_cmp\<close>)
  with assms(1) show ?thesis by (simp add: conserves_def decimal_cmp)
qed

locale validated_planner =
  fixes plan_with :: "parent_order \<Rightarrow> 'cfg \<Rightarrow> execution_plan result"
  assumes validated: "plan_with parent cfg = Inr plan \<Longrightarrow> validate_against plan parent = Inr ()"
    and parent_checked: "plan_with parent cfg = Inr plan \<Longrightarrow> parent_validate parent = Inr ()"
begin

lemma planned_conserves: "plan_with parent cfg = Inr plan \<Longrightarrow> conserves plan parent"
  by (rule validate_against_conserves [OF validated])

lemma planned_never_overfills:
  assumes "plan_with parent cfg = Inr plan"
  shows "(\<Sum>c\<leftarrow>ep_children plan. scaled (ci_quantity c)) \<le> scaled (po_quantity parent)"
    and "c \<in> set (ep_children plan) \<Longrightarrow> ZERO < ci_quantity c \<and> ci_quantity c \<le> po_quantity parent"
  using planned_conserves [OF assms] conserves_child_bound
  by (auto simp: conserves_def child_ok_def)

end

text \<open>Accepting a plan after the checks before it: the common ending of the planners.\<close>

definition validated_plan :: "parent_order \<Rightarrow> execution_plan \<Rightarrow> execution_plan result" where
  "validated_plan parent plan = and_then (validate_against plan parent) (\<lambda>_. Ok plan)"

lemma validated_plan_eq_Ok:
  "validated_plan parent plan = Inr r \<longleftrightarrow> validate_against plan parent = Inr () \<and> r = plan"
  by (auto simp: validated_plan_def and_then_eq_Inr)

end
