(* ===== verification/ExecSlices.thy ===== *)
theory ExecSlices
  imports ExecPlan
begin

text \<open>
  Component: the sliced schedules (\<^verbatim>\<open>core/execution/src/algorithms.rs\<close>,
  \<^verbatim>\<open>plan_twap_execution\<close>, \<^verbatim>\<open>plan_vwap_execution\<close>, \<^verbatim>\<open>plan_arrival_price_execution\<close>).
  The three planners share one loop: every slice but the last has a computed quantity, the last
  takes what is left, and a slice of no quantity is skipped. \<open>slice_step\<close> is the body of that loop.
  Offsets multiply two \<^verbatim>\<open>u64\<close> values unchecked, hence \<open>u64_wrap\<close>.
\<close>

definition scheduled_child ::
    "parent_order \<Rightarrow> string \<Rightarrow> nat \<Rightarrow> decimal \<Rightarrow> child_order_kind \<Rightarrow> child_instruction" where
  "scheduled_child p child_id after q kind =
     \<lparr>ci_child_order_id = child_id, ci_scheduled_after_seconds = after, ci_venue = None,
      ci_quantity = q, ci_kind = kind, ci_limit_price = po_limit_price p, ci_stop_price = None\<rparr>"

definition slice_step ::
    "parent_order \<Rightarrow> string \<Rightarrow> nat \<Rightarrow> child_order_kind \<Rightarrow> nat \<Rightarrow> (nat \<Rightarrow> decimal result) \<Rightarrow> nat
      \<Rightarrow> decimal \<times> child_instruction list \<Rightarrow> (decimal \<times> child_instruction list) result" where
  "slice_step p tag interval kind slices share i st =
     and_then (if i = slices - 1 then checked_sub (po_quantity p) (fst st) else share i) (\<lambda>child_qty.
     if child_qty > ZERO
     then and_then (checked_add (fst st) child_qty) (\<lambda>scheduled_qty.
       Ok (scheduled_qty, snd st @ [scheduled_child p
         (po_parent_order_id p @ tag @ show_nat (i + 1)) (u64_wrap (i * interval)) child_qty kind]))
     else Ok st)"

definition sliced_plan ::
    "parent_order \<Rightarrow> string \<Rightarrow> string \<Rightarrow> nat \<Rightarrow> child_order_kind \<Rightarrow> nat \<Rightarrow> (nat \<Rightarrow> decimal result)
      \<Rightarrow> execution_plan result" where
  "sliced_plan p tag label interval kind slices share =
     and_then (try_fold (slice_step p tag interval kind slices share) [0..<slices] (ZERO, []))
       (\<lambda>(scheduled_qty, children).
     and_then (checked_sub (po_quantity p) scheduled_qty) (\<lambda>unallocated.
     validated_plan p \<lparr>ep_parent_order_id = po_parent_order_id p, ep_algorithm = label,
       ep_children = children, ep_unallocated_quantity = unallocated\<rparr>))"

definition plan_twap_execution ::
    "parent_order \<Rightarrow> nat \<Rightarrow> nat \<Rightarrow> child_order_kind \<Rightarrow> execution_plan result" where
  "plan_twap_execution p duration_seconds num_slices kind =
     and_then (parent_validate p) (\<lambda>_.
     if num_slices = 0 \<or> num_slices > 1000
     then Err ''TWAP num_slices must be between 1 and 1000''
     else and_then (from_integer (int num_slices)) (\<lambda>num_dec.
       and_then (checked_div (po_quantity p) num_dec) (\<lambda>raw_slice_qty.
       if raw_slice_qty \<le> ZERO
       then Err ''TWAP slice quantity is too small for parent quantity''
       else sliced_plan p ''-twap-'' ''follon-twap-v1''
         (if num_slices > 1 then duration_seconds div (num_slices - 1) else 0) kind num_slices
         (\<lambda>_. Ok raw_slice_qty))))"

definition profile_total :: "decimal list \<Rightarrow> decimal result" where
  "profile_total profile = try_fold (\<lambda>fraction total.
     if fraction < ZERO then Err ''VWAP volume profile fractions cannot be negative''
     else checked_add total fraction) profile ZERO"

definition plan_vwap_execution ::
    "parent_order \<Rightarrow> nat \<Rightarrow> decimal list \<Rightarrow> child_order_kind \<Rightarrow> execution_plan result" where
  "plan_vwap_execution p interval_seconds volume_profile kind =
     and_then (parent_validate p) (\<lambda>_.
     if volume_profile = [] \<or> length volume_profile > 1000
     then Err ''VWAP volume_profile must contain between 1 and 1000 slices''
     else and_then (profile_total volume_profile) (\<lambda>profile_sum.
       if profile_sum \<le> ZERO then Err ''VWAP volume profile sum must be positive''
       else sliced_plan p ''-vwap-'' ''follon-vwap-v1'' interval_seconds kind (length volume_profile)
         (\<lambda>i. and_then (checked_mul (po_quantity p) (volume_profile ! i)) (\<lambda>v.
            checked_div v profile_sum))))"

definition arrival_weights :: "decimal list" where
  "arrival_weights = [Decimal 40000000, Decimal 30000000, Decimal 20000000, Decimal 10000000]"

definition plan_arrival_price_execution ::
    "parent_order \<Rightarrow> nat \<Rightarrow> decimal \<Rightarrow> child_order_kind \<Rightarrow> execution_plan result" where
  "plan_arrival_price_execution p total_horizon_seconds urgency_bps kind =
     and_then (parent_validate p) (\<lambda>_.
     and_then (if urgency_bps \<le> ZERO then Ok True
       else and_then (from_integer 10000) (\<lambda>maximum. Ok (urgency_bps > maximum))) (\<lambda>invalid.
     if invalid then Err ''arrival price urgency_bps must be between 1 and 10000''
     else sliced_plan p ''-arrival-'' ''follon-arrival-price-v1'' (total_horizon_seconds div 4) kind 4
       (\<lambda>i. checked_mul (po_quantity p) (arrival_weights ! i))))"

section \<open>The shared loop\<close>

lemma sliced_plan_Ok:
  assumes "sliced_plan p tag label interval kind n share = Inr plan"
  obtains s where "try_fold (slice_step p tag interval kind n share) [0..<n] (ZERO, [])
      = Inr (s, ep_children plan)"
    "validate_against plan p = Inr ()" "ep_algorithm plan = label"
    "scaled (ep_unallocated_quantity plan) = scaled (po_quantity p) - scaled s"
  using assms
  by (auto simp: sliced_plan_def and_then_eq_Inr validated_plan_eq_Ok checked_sub_eq_Ok)

text \<open>The last slice takes what is left, so an accepted plan allocates everything.\<close>

lemma sliced_plan_allocates_all:
  assumes "sliced_plan p tag label interval kind n share = Inr plan" "0 < n"
  shows "scaled (ep_unallocated_quantity plan) = 0"
proof -
  from assms(2) obtain m where n: "n = Suc m" by (cases n) auto
  from sliced_plan_Ok [OF assms(1)] obtain s where
    loop: "try_fold (slice_step p tag interval kind n share) [0..<n] (ZERO, []) = Inr (s, ep_children plan)"
    and ok: "validate_against plan p = Inr ()"
    and un: "scaled (ep_unallocated_quantity plan) = scaled (po_quantity p) - scaled s" by blast
  from loop n obtain t where
    last: "slice_step p tag interval kind n share m t = Inr (s, ep_children plan)"
    by (auto simp: try_fold_append and_then_eq_Inr)
  have "0 \<le> scaled (ep_unallocated_quantity plan)"
    using validate_against_conserves [OF ok] by (simp add: conserves_def)
  with last un n show ?thesis
    by (auto simp: slice_step_def and_then_eq_Inr result_simps not_less decimal_cmp split: if_splits)
qed

text \<open>Slices of one positive size.\<close>

lemma equal_slices_prefix:
  assumes "try_fold (slice_step p tag interval kind n (\<lambda>_. Ok raw)) [0..<k] (ZERO, []) = Inr st"
    and "k < n" "ZERO < raw"
  shows "scaled (fst st) = int k * scaled raw \<and> snd st = map (\<lambda>i. scheduled_child p
    (po_parent_order_id p @ tag @ show_nat (i + 1)) (u64_wrap (i * interval)) raw kind) [0..<k]"
  using assms
proof (induction k arbitrary: st)
  case (Suc k)
  from Suc.prems(1) obtain t where
    t: "try_fold (slice_step p tag interval kind n (\<lambda>_. Ok raw)) [0..<k] (ZERO, []) = Inr t"
    and step: "slice_step p tag interval kind n (\<lambda>_. Ok raw) k t = Inr st"
    by (auto simp: try_fold_append and_then_eq_Inr)
  from Suc.IH [OF t] Suc.prems have IH: "scaled (fst t) = int k * scaled raw"
    "snd t = map (\<lambda>i. scheduled_child p
    (po_parent_order_id p @ tag @ show_nat (i + 1)) (u64_wrap (i * interval)) raw kind) [0..<k]" by auto
  from step Suc.prems(2,3) have "scaled (fst st) = scaled (fst t) + scaled raw"
    "snd st = snd t @ [scheduled_child p (po_parent_order_id p @ tag @ show_nat (k + 1))
       (u64_wrap (k * interval)) raw kind]"
    by (auto simp: slice_step_def and_then_eq_Inr result_simps split: if_splits)
  with IH show ?case by (simp add: algebra_simps)
qed simp

lemma sliced_plan_equal:
  assumes "sliced_plan p tag label interval kind n (\<lambda>_. Ok raw) = Inr plan" "0 < n" "ZERO < raw"
    and "int n * scaled raw \<le> scaled (po_quantity p)"
  shows "ep_children plan = map (\<lambda>i. scheduled_child p (po_parent_order_id p @ tag @ show_nat (i + 1))
      (u64_wrap (i * interval))
      (if i = n - 1 then Decimal (scaled (po_quantity p) - int (n - 1) * scaled raw) else raw) kind) [0..<n]"
proof -
  from assms(2) obtain m where n: "n = Suc m" by (cases n) auto
  from sliced_plan_Ok [OF assms(1)] obtain s where
    loop: "try_fold (slice_step p tag interval kind n (\<lambda>_. Ok raw)) [0..<n] (ZERO, [])
      = Inr (s, ep_children plan)" by blast
  from loop n obtain t where
    t: "try_fold (slice_step p tag interval kind n (\<lambda>_. Ok raw)) [0..<m] (ZERO, []) = Inr t" and
    last: "slice_step p tag interval kind n (\<lambda>_. Ok raw) m t = Inr (s, ep_children plan)"
    by (auto simp: try_fold_append and_then_eq_Inr)
  note pre = equal_slices_prefix [OF t _ assms(3)]
  have left: "0 < scaled (po_quantity p) - int m * scaled raw"
    using assms(3,4) n by (simp add: decimal_cmp algebra_simps)
  from last pre n left have "ep_children plan = snd t @ [scheduled_child p
      (po_parent_order_id p @ tag @ show_nat (m + 1)) (u64_wrap (m * interval))
      (Decimal (scaled (po_quantity p) - int m * scaled raw)) kind]"
    by (auto simp: slice_step_def and_then_eq_Inr result_simps decimal_cmp split: if_splits)
  with pre n show ?thesis by simp
qed

section \<open>The planners validate what they return\<close>

interpretation twap: validated_planner
  "\<lambda>p (duration, n, kind). plan_twap_execution p duration n kind"
  by unfold_locales
    (auto simp: plan_twap_execution_def and_then_eq_Inr split: if_splits elim: sliced_plan_Ok)

interpretation vwap: validated_planner
  "\<lambda>p (interval, profile, kind). plan_vwap_execution p interval profile kind"
  by unfold_locales
    (auto simp: plan_vwap_execution_def and_then_eq_Inr split: if_splits elim: sliced_plan_Ok)

interpretation arrival: validated_planner
  "\<lambda>p (horizon, urgency, kind). plan_arrival_price_execution p horizon urgency kind"
  by unfold_locales
    (auto simp: plan_arrival_price_execution_def and_then_eq_Inr split: if_splits elim: sliced_plan_Ok)

section \<open>Properties\<close>

text \<open>A TWAP plan has exactly the requested number of slices: each of the truncated equal share,
  the last one larger by the remainder of fewer units than slices, at multiples of one interval that
  never pass the requested duration, and together they are the parent quantity.\<close>

theorem twap_slices_exact:
  assumes "plan_twap_execution p duration n kind = Ok plan" "duration < 2 ^ 64"
  shows "conserves plan p \<and> ep_unallocated_quantity plan = ZERO \<and> length (ep_children plan) = n
    \<and> (\<forall>i<n. let c = ep_children plan ! i; share = scaled (po_quantity p) div int n in
        (i + 1 < n \<longrightarrow> scaled (ci_quantity c) = share)
        \<and> (i + 1 = n \<longrightarrow> scaled (ci_quantity c) = share + scaled (po_quantity p) mod int n)
        \<and> ci_scheduled_after_seconds c = i * (if n > 1 then duration div (n - 1) else 0)
        \<and> ci_scheduled_after_seconds c \<le> duration)"
proof -
  let ?q = "scaled (po_quantity p)" and ?interval = "if n > 1 then duration div (n - 1) else 0"
  from assms(1) obtain num raw where
    valid: "parent_validate p = Inr ()" and n: "0 < n" "n \<le> 1000" and
    num: "from_integer (int n) = Inr num" and raw: "checked_div (po_quantity p) num = Inr raw" "ZERO < raw" and
    plan: "sliced_plan p ''-twap-'' ''follon-twap-v1'' ?interval kind n (\<lambda>_. Ok raw) = Inr plan"
    by (auto simp: plan_twap_execution_def and_then_eq_Inr not_le split: if_splits)
  from valid have q: "0 < ?q" by (simp add: parent_validate_eq_Ok decimal_cmp)
  have share: "scaled raw = ?q div int n"
    using checked_div_pos [OF raw(1)] num n q by (simp add: from_integer_eq_Ok)
  have whole: "?q = int n * scaled raw + ?q mod int n" using share by simp
  have "int n * scaled raw \<le> ?q" using whole n by (metis le_add_same_cancel1 of_nat_0_less_iff pos_mod_sign)
  from sliced_plan_equal [OF plan n(1) raw(2) this]
  have children: "ep_children plan = map (\<lambda>i. scheduled_child p (po_parent_order_id p @ ''-twap-'' @ show_nat (i + 1))
      (u64_wrap (i * ?interval))
      (if i = n - 1 then Decimal (?q - int (n - 1) * scaled raw) else raw) kind) [0..<n]" .
  have last: "?q - int (n - 1) * scaled raw = scaled raw + ?q mod int n"
    using whole n(1) by (simp add: of_nat_diff algebra_simps)
  have offset: "i * ?interval \<le> duration" if "i < n" for i
  proof (cases "n > 1")
    case True
    have "i * (duration div (n - 1)) \<le> (n - 1) * (duration div (n - 1))"
      using that by (intro mult_le_mono1) simp
    also have "\<dots> \<le> duration" by simp
    finally show ?thesis using True by simp
  qed simp
  have un: "ep_unallocated_quantity plan = ZERO"
    using sliced_plan_allocates_all [OF plan n(1)] by (cases "ep_unallocated_quantity plan") simp
  have conserved: "conserves plan p"
    using twap.planned_conserves [of p "(duration, n, kind)"] assms(1) by simp
  have len: "length (ep_children plan) = n" by (simp add: children)
  show ?thesis
    unfolding Let_def
  proof (intro conjI conserved un len allI impI)
    fix i assume i: "i < n"
    then have c: "ep_children plan ! i = scheduled_child p (po_parent_order_id p @ ''-twap-'' @ show_nat (i + 1))
      (u64_wrap (i * ?interval))
      (if i = n - 1 then Decimal (?q - int (n - 1) * scaled raw) else raw) kind"
      by (simp add: children)
    show "i + 1 < n \<Longrightarrow> scaled (ci_quantity (ep_children plan ! i)) = ?q div int n"
      by (auto simp: c scheduled_child_def share)
    show "i + 1 = n \<Longrightarrow> scaled (ci_quantity (ep_children plan ! i)) = ?q div int n + ?q mod int n"
      using last by (auto simp: c scheduled_child_def share)
    have "u64_wrap (i * ?interval) = i * ?interval"
      using offset [OF i] assms(2) by (simp add: u64_wrap_def)
    then show "ci_scheduled_after_seconds (ep_children plan ! i) = i * ?interval"
      "ci_scheduled_after_seconds (ep_children plan ! i) \<le> duration"
      using offset [OF i] by (simp_all add: c scheduled_child_def)
  qed
qed

definition sample_parent :: parent_order where
  "sample_parent = \<lparr>po_parent_order_id = ''p'', po_account_id = ''a'', po_instrument_id = ''x'',
     po_side = Buy, po_quantity = Decimal 10000000000, po_limit_price = None\<rparr>"

lemma sample_parent_valid: "parent_validate sample_parent = Ok ()"
  by (simp add: parent_validate_eq_Ok sample_parent_def canonical_id_def is_id_byte_def byte_simps)

lemmas plan_arith = checked_sub_def checked_mul_def checked_div_def
  checked_add_def i128_checked_def in_i128_def DECIMAL_SCALE_def sdiv_nonneg_eq_div from_integer_def

lemmas plan_checks = validated_plan_def validate_against_def check_child_def some_non_positive_def
  validate_canonical_id_def is_id_byte_def is_ascii_digit_def is_ascii_lowercase_def is_ascii_uppercase_def
  scheduled_child_def

lemma sample_twap: "\<exists>plan. plan_twap_execution sample_parent 60 3 ChildMarket = Ok plan"
  by (simp add: plan_twap_execution_def sample_parent_valid)
    (simp add: sample_parent_def plan_arith sliced_plan_def slice_step_def upt_rec u64_wrap_def plan_checks)

theorem twap_slices_exact_witness:
  "\<exists>plan. plan_twap_execution sample_parent 60 3 ChildMarket = Ok plan
    \<and> scaled (ci_quantity (ep_children plan ! 2)) = 3333333334
    \<and> ci_scheduled_after_seconds (ep_children plan ! 2) = 60"
proof -
  obtain plan where plan: "plan_twap_execution sample_parent 60 3 ChildMarket = Ok plan"
    using sample_twap by blast
  from twap_slices_exact [OF plan] have "\<forall>i<3. let c = ep_children plan ! i;
      share = scaled (po_quantity sample_parent) div int 3 in
        (i + 1 < 3 \<longrightarrow> scaled (ci_quantity c) = share)
        \<and> (i + 1 = 3 \<longrightarrow> scaled (ci_quantity c) = share + scaled (po_quantity sample_parent) mod int 3)
        \<and> ci_scheduled_after_seconds c = i * (60 div (3 - 1))"
    by (simp add: Let_def)
  from spec [OF this, of 2] plan show ?thesis by (simp add: Let_def sample_parent_def)
qed

text \<open>An accepted VWAP plan conserves the parent quantity and leaves nothing unallocated,
  although every share but the last is truncated; each child is positive and no larger than the
  parent.\<close>

theorem vwap_allocates_all:
  assumes "plan_vwap_execution p interval profile kind = Ok plan"
  shows "conserves plan p \<and> ep_unallocated_quantity plan = ZERO
    \<and> (\<Sum>c\<leftarrow>ep_children plan. scaled (ci_quantity c)) = scaled (po_quantity p)
    \<and> (\<forall>c\<in>set (ep_children plan). ZERO < ci_quantity c \<and> ci_quantity c \<le> po_quantity p)"
proof -
  have conserved: "conserves plan p"
    using vwap.planned_conserves [of p "(interval, profile, kind)"] assms by simp
  from assms have "scaled (ep_unallocated_quantity plan) = 0"
    by (auto simp: plan_vwap_execution_def and_then_eq_Inr split: if_splits dest!: sliced_plan_allocates_all)
  then have "ep_unallocated_quantity plan = ZERO" by (cases "ep_unallocated_quantity plan") simp
  with conserved show ?thesis
    using conserves_child_bound [OF conserved] by (auto simp: conserves_def child_ok_def)
qed

lemma sample_vwap:
  "\<exists>plan. plan_vwap_execution sample_parent interval
      [Decimal 100000000, Decimal 0, Decimal 100000000] ChildMarket = Ok plan
    \<and> map ci_scheduled_after_seconds (ep_children plan) = [0, u64_wrap (interval + interval)]
    \<and> map ci_quantity (ep_children plan) = [Decimal 5000000000, Decimal 5000000000]"
  by (simp add: plan_vwap_execution_def sample_parent_valid profile_total_def)
    (simp add: sample_parent_def plan_arith sliced_plan_def slice_step_def upt_rec plan_checks u64_wrap_def)

theorem vwap_allocates_all_witness:
  "\<exists>plan. plan_vwap_execution sample_parent 60 [Decimal 100000000, Decimal 0, Decimal 100000000] ChildMarket
    = Ok plan \<and> ep_unallocated_quantity plan = ZERO"
  using sample_vwap [of 60] vwap_allocates_all by blast

text \<open>The VWAP offset is an unchecked product: with an idle window in between, a schedule whose
  third slice lies \<open>2 ^ 64\<close> seconds ahead is accepted and its child is due immediately, where the
  other planners report an overflow.\<close>

theorem vwap_offset_wraps_silently:
  "\<exists>plan. plan_vwap_execution sample_parent (2 ^ 63)
      [Decimal 100000000, Decimal 0, Decimal 100000000] ChildMarket = Ok plan
    \<and> map ci_scheduled_after_seconds (ep_children plan) = [0, 0]"
  using sample_vwap [of "2 ^ 63"] by (auto simp: u64_wrap_def)

text \<open>The arrival-price planner validates its urgency and then ignores it: every admissible
  urgency gives the same plan, which conserves the parent and allocates all of it.\<close>

theorem arrival_price_ignores_urgency:
  assumes "plan_arrival_price_execution p horizon urgency kind = Ok plan"
    and "ZERO < urgency'" "scaled urgency' \<le> 10000 * DECIMAL_SCALE"
  shows "plan_arrival_price_execution p horizon urgency' kind = Ok plan
    \<and> conserves plan p \<and> ep_unallocated_quantity plan = ZERO"
proof (intro conjI)
  from assms(1) have plan: "parent_validate p = Inr ()"
    "sliced_plan p ''-arrival-'' ''follon-arrival-price-v1'' (horizon div 4) kind 4
       (\<lambda>i. checked_mul (po_quantity p) (arrival_weights ! i)) = Inr plan"
    by (auto simp: plan_arrival_price_execution_def and_then_eq_Inr split: if_splits)
  with assms(2,3) show "plan_arrival_price_execution p horizon urgency' kind = Ok plan"
    by (simp add: plan_arrival_price_execution_def decimal_cmp DECIMAL_SCALE_def)
  show "conserves plan p"
    using arrival.planned_conserves [of p "(horizon, urgency, kind)"] assms(1) by simp
  show "ep_unallocated_quantity plan = ZERO"
    using sliced_plan_allocates_all [OF plan(2)] by (cases "ep_unallocated_quantity plan") simp
qed

lemma sample_arrival: "\<exists>plan. plan_arrival_price_execution sample_parent 60 (Decimal 100000000) ChildMarket = Ok plan"
  by (simp add: plan_arrival_price_execution_def sample_parent_valid)
    (simp add: sample_parent_def plan_arith sliced_plan_def slice_step_def upt_rec plan_checks u64_wrap_def
      arrival_weights_def)

theorem arrival_price_ignores_urgency_witness:
  "\<exists>plan. plan_arrival_price_execution sample_parent 60 (Decimal 100000000) ChildMarket = Ok plan
    \<and> plan_arrival_price_execution sample_parent 60 (Decimal 1000000000000) ChildMarket = Ok plan"
proof -
  obtain plan where plan: "plan_arrival_price_execution sample_parent 60 (Decimal 100000000) ChildMarket = Ok plan"
    using sample_arrival by blast
  with arrival_price_ignores_urgency [OF plan, of "Decimal 1000000000000"]
  show ?thesis by (simp add: DECIMAL_SCALE_def)
qed

end
