(* ===== verification/ExecAlgorithms.thy ===== *)
theory ExecAlgorithms
  imports ExecSlices "HOL-Library.Product_Lexorder" "HOL-Library.Sublist"
begin

text \<open>
  Component: the deterministic algorithms and the algorithm wheel
  (\<^verbatim>\<open>core/execution/src/algorithms.rs\<close>, \<^verbatim>\<open>plan_execution\<close>, \<^verbatim>\<open>plan_iceberg_execution\<close>,
  \<^verbatim>\<open>plan_algo_wheel_execution\<close>, \<^verbatim>\<open>split_exact\<close>, \<^verbatim>\<open>split_weighted_exact\<close>). The locale
  \<open>exact_splitter\<close> is what the schedule relies on from a splitting routine: positive parts that
  sum to the whole. Its two routines interpret it. The iceberg loop is a total function: it
  stops after at most 10000 slices.
\<close>

section \<open>Splitting a quantity\<close>

definition split_part :: "int \<Rightarrow> int \<Rightarrow> nat \<Rightarrow> decimal list \<Rightarrow> decimal list result" where
  "split_part base remainder index parts =
     and_then (ok_or (i128_checked (base + (if int index < remainder then 1 else 0)))
       ''TWAP slice overflowed'') (\<lambda>part.
     Ok (if part > 0 then parts @ [Decimal part] else parts))"

definition split_exact :: "decimal \<Rightarrow> nat \<Rightarrow> decimal list result" where
  "split_exact quantity parts =
     (let base = scaled quantity sdiv int parts; remainder = scaled quantity smod int parts in
      try_fold (split_part base remainder) [0..<parts] [])"

definition weight_total :: "decimal list \<Rightarrow> int result" where
  "weight_total weights = try_fold (\<lambda>w total. ok_or (i128_checked (total + scaled w))
     ''VWAP weight total overflowed'') weights 0"

definition weighted_part ::
    "decimal \<Rightarrow> int \<Rightarrow> nat \<Rightarrow> nat \<times> decimal \<Rightarrow> int \<times> decimal list \<Rightarrow> (int \<times> decimal list) result" where
  "weighted_part quantity total_weight count iw st =
     (case (iw, st) of ((index, weight), (allocated, parts)) \<Rightarrow>
       and_then (ok_or (if index + 1 = count then i128_checked (scaled quantity - allocated)
           else Option.bind (i128_checked (scaled quantity * scaled weight))
             (\<lambda>v. if total_weight = 0 then None else i128_checked (v sdiv total_weight)))
         ''VWAP allocation overflowed'') (\<lambda>part.
       if part \<le> 0 then Err ''VWAP window would round to zero at configured precision''
       else and_then (ok_or (i128_checked (allocated + part)) ''VWAP allocation overflowed'')
         (\<lambda>allocated'. Ok (allocated', parts @ [Decimal part]))))"

definition split_weighted_exact :: "decimal \<Rightarrow> decimal list \<Rightarrow> decimal list result" where
  "split_weighted_exact quantity weights =
     and_then (weight_total weights) (\<lambda>total_weight.
     if quantity \<le> ZERO \<or> total_weight \<le> 0 then Err ''invalid VWAP inputs''
     else and_then (try_fold (weighted_part quantity total_weight (length weights)) (enumerate0 weights) (0, []))
       (\<lambda>(_, parts). Ok parts))"

section \<open>Algorithms\<close>

text \<open>The wheel nests algorithms through the list of its branches.\<close>

datatype 'a algo_wheel_allocation =
    AlgoWheelAllocation (aw_algorithm: 'a) (aw_weight_bps: nat)

datatype execution_algorithm =
    Immediate
  | Twap nat nat
  | Vwap "decimal list" nat
  | Participation nat "decimal list" nat
  | ArrivalPrice nat nat nat
  | Iceberg decimal nat
  | AlgoWheel "execution_algorithm algo_wheel_allocation list"

fun is_wheel :: "execution_algorithm \<Rightarrow> bool" where
  "is_wheel (AlgoWheel _) = True"
| "is_wheel _ = False"

fun participation_loop ::
    "decimal \<Rightarrow> decimal list \<Rightarrow> decimal \<Rightarrow> decimal list \<Rightarrow> decimal list result" where
  "participation_loop rate [] remaining scheduled = Ok scheduled"
| "participation_loop rate (volume # volumes) remaining scheduled =
     (if remaining = ZERO then Ok scheduled
      else and_then (checked_mul volume rate) (\<lambda>capacity.
        let quantity = min capacity remaining in
        if quantity > ZERO
        then and_then (checked_sub remaining quantity) (\<lambda>remaining'.
          participation_loop rate volumes remaining' (scheduled @ [quantity]))
        else participation_loop rate volumes remaining scheduled))"

definition arrival_weight :: "nat \<Rightarrow> nat \<Rightarrow> nat \<Rightarrow> decimal result" where
  "arrival_weight slice_count urgency_bps index =
     and_then (ok_or (i64_checked (int urgency_bps * int (slice_count - index)))
       ''arrival-price weight overflowed'') (\<lambda>urgency_weight.
     and_then (ok_or (i64_checked (10000 + urgency_weight)) ''arrival-price weight overflowed'')
       from_integer)"

function iceberg_loop :: "decimal \<Rightarrow> decimal \<Rightarrow> decimal list \<Rightarrow> decimal list result" where
  "iceberg_loop display remaining quantities =
     (if remaining > ZERO
      then if length quantities \<ge> 10000 then Err ''iceberg slice count exceeds maximum allowed''
        else and_then (checked_sub remaining (min remaining display)) (\<lambda>remaining'.
          iceberg_loop display remaining' (quantities @ [min remaining display]))
      else Ok quantities)"
  by pat_completeness auto
termination
  by (relation "measure (\<lambda>(_, _, quantities). 10000 - length quantities)") auto

declare iceberg_loop.simps [simp del]

text \<open>The label, the quantities and the interval of every algorithm but the wheel.\<close>

definition algorithm_quantities ::
    "parent_order \<Rightarrow> execution_algorithm \<Rightarrow> (string \<times> decimal list \<times> nat) result" where
  "algorithm_quantities p algorithm = (case algorithm of
     Immediate \<Rightarrow> Ok (''immediate-v1'', [po_quantity p], 0)
   | Twap slice_count interval_seconds \<Rightarrow>
       if slice_count = 0 \<or> slice_count > 10000 \<or> interval_seconds = 0
       then Err ''invalid TWAP configuration''
       else and_then (split_exact (po_quantity p) slice_count) (\<lambda>qs.
         Ok (''twap-v1'', qs, interval_seconds))
   | Vwap volumes interval_seconds \<Rightarrow>
       if volumes = [] \<or> length volumes > 10000 \<or> interval_seconds = 0
          \<or> list_ex (\<lambda>volume. volume \<le> ZERO) volumes
       then Err ''invalid VWAP configuration''
       else and_then (split_weighted_exact (po_quantity p) volumes) (\<lambda>qs.
         Ok (''vwap-v1'', qs, interval_seconds))
   | Participation participation_bps volumes interval_seconds \<Rightarrow>
       if participation_bps < 1 \<or> participation_bps > 10000 \<or> volumes = []
          \<or> length volumes > 10000 \<or> interval_seconds = 0 \<or> list_ex (\<lambda>volume. volume < ZERO) volumes
       then Err ''invalid participation configuration''
       else and_then (from_integer (int participation_bps)) (\<lambda>bps.
         and_then (from_integer 10000) (\<lambda>ten_thousand.
         and_then (checked_div bps ten_thousand) (\<lambda>rate.
         and_then (participation_loop rate volumes (po_quantity p) []) (\<lambda>qs.
         Ok (''participation-v1'', qs, interval_seconds)))))
   | ArrivalPrice slice_count interval_seconds urgency_bps \<Rightarrow>
       if slice_count = 0 \<or> slice_count > 10000 \<or> interval_seconds = 0 \<or> urgency_bps > 10000
       then Err ''invalid arrival-price configuration''
       else and_then (try_map (arrival_weight slice_count urgency_bps) [0..<slice_count]) (\<lambda>weights.
         and_then (split_weighted_exact (po_quantity p) weights) (\<lambda>qs.
         Ok (''arrival-price-v1'', qs, interval_seconds)))
   | Iceberg display_quantity interval_seconds \<Rightarrow>
       if display_quantity \<le> ZERO \<or> interval_seconds = 0 then Err ''invalid iceberg configuration''
       else and_then (iceberg_loop display_quantity (po_quantity p) []) (\<lambda>qs.
         Ok (''iceberg-v1'', qs, interval_seconds))
   | AlgoWheel _ \<Rightarrow> Err ''unreachable: handled above'')"

definition numbered_id :: "string \<Rightarrow> nat \<Rightarrow> string" where
  "numbered_id parent_id index = parent_id @ ''.child.'' @ zero_padded 4 (index + 1)"

definition schedule_child ::
    "parent_order \<Rightarrow> child_order_kind \<Rightarrow> nat \<Rightarrow> nat \<times> decimal \<Rightarrow> decimal \<times> child_instruction list
      \<Rightarrow> (decimal \<times> child_instruction list) result" where
  "schedule_child p kind interval iq st =
     and_then (checked_add (fst st) (snd iq)) (\<lambda>allocated.
     and_then (ok_or (u64_checked (fst iq * interval)) ''execution schedule overflowed'') (\<lambda>offset.
     Ok (allocated, snd st @ [scheduled_child p (numbered_id (po_parent_order_id p) (fst iq))
       offset (snd iq) kind])))"

definition default_kind :: "parent_order \<Rightarrow> child_order_kind" where
  "default_kind p = (if po_limit_price p \<noteq> None then ChildLimit else ChildMarket)"

definition scheduled_plan ::
    "parent_order \<Rightarrow> string \<Rightarrow> decimal list \<Rightarrow> nat \<Rightarrow> execution_plan result" where
  "scheduled_plan p label quantities interval =
     and_then (try_fold (schedule_child p (default_kind p) interval) (enumerate0 quantities) (ZERO, []))
       (\<lambda>(allocated, children).
     and_then (checked_sub (po_quantity p) allocated) (\<lambda>unallocated.
     validated_plan p \<lparr>ep_parent_order_id = po_parent_order_id p, ep_algorithm = label,
       ep_children = children, ep_unallocated_quantity = unallocated\<rparr>))"

section \<open>The algorithm wheel\<close>

definition check_allocation :: "execution_algorithm algo_wheel_allocation \<Rightarrow> nat \<Rightarrow> nat result" where
  "check_allocation alloc total_weight =
     (if is_wheel (aw_algorithm alloc)
      then Err ''algorithm wheel cannot contain nested wheel algorithms''
      else if aw_weight_bps alloc = 0 \<or> aw_weight_bps alloc > 10000
      then Err ''algorithm wheel allocation weight must be in (0, 10000]''
      else ok_or (u32_checked (total_weight + aw_weight_bps alloc)) ''algorithm wheel weight overflowed'')"

definition wheel_parent :: "parent_order \<Rightarrow> nat \<Rightarrow> decimal \<Rightarrow> parent_order" where
  "wheel_parent p wheel_index quantity = p\<lparr>po_parent_order_id :=
     po_parent_order_id p @ ''.wheel.'' @ zero_padded 2 (wheel_index + 1), po_quantity := quantity\<rparr>"

type_synonym wheel_child = "nat \<times> nat \<times> nat \<times> child_instruction"

definition wheel_children :: "nat \<Rightarrow> execution_plan \<Rightarrow> wheel_child list" where
  "wheel_children wheel_index plan = map (\<lambda>(child_index, child).
     (ci_scheduled_after_seconds child, wheel_index, child_index, child)) (enumerate0 (ep_children plan))"

definition renumber :: "string \<Rightarrow> wheel_child list \<Rightarrow> child_instruction list" where
  "renumber parent_id combined = map (\<lambda>(index, (_, _, _, child)).
     child\<lparr>ci_child_order_id := numbered_id parent_id index\<rparr>)
     (enumerate0 (sort_key (\<lambda>(offset, wheel, child_index, _). (offset, wheel, child_index)) combined))"

lemma wheel_branch_smaller:
  "(i, alloc, q) \<in> set (enumerate0 (zip allocations qs)) \<Longrightarrow>
    size (aw_algorithm alloc) < size_list (size_algo_wheel_allocation size) allocations"
proof -
  assume "(i, alloc, q) \<in> set (enumerate0 (zip allocations qs))"
  then have "alloc \<in> set allocations"
    by (metis enumerate0_def set_zip_leftD set_zip_rightD)
  then have "size_algo_wheel_allocation size alloc \<le> size_list (size_algo_wheel_allocation size) allocations" by (rule size_list_estimation') simp
  moreover have "size (aw_algorithm alloc) < size_algo_wheel_allocation size alloc" by (cases alloc) simp
  ultimately show ?thesis by simp
qed

function plan_execution :: "parent_order \<Rightarrow> execution_algorithm \<Rightarrow> execution_plan result"
  and plan_algo_wheel_execution ::
    "parent_order \<Rightarrow> execution_algorithm algo_wheel_allocation list \<Rightarrow> execution_plan result"
where
  "plan_execution p algorithm =
     and_then (parent_validate p) (\<lambda>_.
     case algorithm of AlgoWheel allocations \<Rightarrow> plan_algo_wheel_execution p allocations
     | _ \<Rightarrow> and_then (algorithm_quantities p algorithm) (\<lambda>(label, quantities, interval).
         scheduled_plan p label quantities interval))"
| "plan_algo_wheel_execution p allocations =
     and_then (parent_validate p) (\<lambda>_.
     if allocations = [] \<or> length allocations > 100
     then Err ''algorithm wheel requires between 1 and 100 allocations''
     else and_then (try_fold check_allocation allocations 0) (\<lambda>total_weight.
       if total_weight \<noteq> 10000
       then Err ''algorithm wheel weights must sum to exactly 10000 basis points''
       else and_then (try_map (\<lambda>alloc. from_integer (int (aw_weight_bps alloc))) allocations) (\<lambda>weights.
         and_then (split_weighted_exact (po_quantity p) weights) (\<lambda>sub_quantities.
         and_then (try_fold (\<lambda>branch st. case (branch, st) of
               ((wheel_index, alloc, quantity), (combined, total_unallocated)) \<Rightarrow>
                 and_then (plan_execution (wheel_parent p wheel_index quantity) (aw_algorithm alloc)) (\<lambda>sub_plan.
                 and_then (checked_add total_unallocated (ep_unallocated_quantity sub_plan)) (\<lambda>total'.
                 Ok (combined @ wheel_children wheel_index sub_plan, total'))))
             (enumerate0 (zip allocations sub_quantities)) ([], ZERO)) (\<lambda>(combined, total_unallocated).
         validated_plan p \<lparr>ep_parent_order_id = po_parent_order_id p, ep_algorithm = ''algo-wheel-v1'',
           ep_children = renumber (po_parent_order_id p) combined,
           ep_unallocated_quantity = total_unallocated\<rparr>)))))"
  by pat_completeness auto
termination
  by (relation "measure (\<lambda>x. case x of Inl (p, a) \<Rightarrow> size a | Inr (p, allocs) \<Rightarrow> size_list (size_algo_wheel_allocation size) allocs)")
    (auto dest: wheel_branch_smaller)

declare plan_execution.simps [simp del] plan_algo_wheel_execution.simps [simp del]

text \<open>The stand-alone iceberg planner has its own loop over children.\<close>

function iceberg_children ::
    "parent_order \<Rightarrow> decimal \<Rightarrow> nat \<Rightarrow> child_order_kind \<Rightarrow> decimal \<Rightarrow> nat \<Rightarrow> child_instruction list
      \<Rightarrow> child_instruction list result" where
  "iceberg_children p display interval kind remaining index children =
     (if remaining > ZERO
      then if index \<ge> 10000 then Err ''iceberg slice count exceeds maximum allowed''
        else and_then (ok_or (u64_checked (index * interval)) ''iceberg schedule offset overflowed'') (\<lambda>offset.
          and_then (checked_sub remaining (min remaining display)) (\<lambda>remaining'.
          iceberg_children p display interval kind remaining' (index + 1)
            (children @ [scheduled_child p (numbered_id (po_parent_order_id p) index) offset
              (min remaining display) kind])))
      else Ok children)"
  by pat_completeness auto
termination
  by (relation "measure (\<lambda>(_, _, _, _, _, index, _). 10000 - index)") auto

declare iceberg_children.simps [simp del]

definition plan_iceberg_execution ::
    "parent_order \<Rightarrow> decimal \<Rightarrow> nat \<Rightarrow> child_order_kind \<Rightarrow> execution_plan result" where
  "plan_iceberg_execution p display_quantity interval_seconds kind =
     and_then (parent_validate p) (\<lambda>_.
     if display_quantity \<le> ZERO \<or> interval_seconds = 0 then Err ''invalid iceberg configuration''
     else and_then (iceberg_children p display_quantity interval_seconds kind (po_quantity p) 0 [])
       (\<lambda>children.
       validated_plan p \<lparr>ep_parent_order_id = po_parent_order_id p, ep_algorithm = ''iceberg-v1'',
         ep_children = children, ep_unallocated_quantity = ZERO\<rparr>))"

section \<open>The scheduling loop\<close>

lemma schedule_children_Ok:
  assumes "try_fold (schedule_child p kind interval) iqs st = Inr st'"
  shows "scaled (fst st') = scaled (fst st) + (\<Sum>iq\<leftarrow>iqs. scaled (snd iq)) \<and>
    snd st' = snd st @ map (\<lambda>(i, q). scheduled_child p (numbered_id (po_parent_order_id p) i)
      (i * interval) q kind) iqs"
  using assms
proof (induction iqs arbitrary: st)
  case (Cons iq iqs)
  obtain i q where iq: "iq = (i, q)" by force
  from Cons.prems obtain u where u: "schedule_child p kind interval iq st = Inr u"
    and rest: "try_fold (schedule_child p kind interval) iqs u = Inr st'"
    by (auto simp: and_then_eq_Inr)
  from u iq have "scaled (fst u) = scaled (fst st) + scaled q"
    "snd u = snd st @ [scheduled_child p (numbered_id (po_parent_order_id p) i) (i * interval) q kind]"
    by (auto simp: schedule_child_def and_then_eq_Inr result_simps)
  with Cons.IH [OF rest] iq show ?case by simp
qed simp

lemma sum_list_enumerate0 [simp]: "(\<Sum>iq\<leftarrow>enumerate0 qs. f (snd iq)) = (\<Sum>q\<leftarrow>qs. f q :: int)"
proof -
  have "map (\<lambda>iq. f (snd iq)) (enumerate0 qs) = map f (map snd (enumerate0 qs))"
    by (simp only: map_map comp_def)
  then show ?thesis by (simp only: map_snd_enumerate0)
qed

lemma scheduled_plan_Ok:
  assumes "scheduled_plan p label qs interval = Inr plan"
  shows "validate_against plan p = Inr ()" "ep_algorithm plan = label"
    "scaled (ep_unallocated_quantity plan) = scaled (po_quantity p) - (\<Sum>q\<leftarrow>qs. scaled q)"
    "ep_children plan = map (\<lambda>(i, q). scheduled_child p (numbered_id (po_parent_order_id p) i)
      (i * interval) q (default_kind p)) (enumerate0 qs)"
proof -
  from assms obtain st where loop: "try_fold (schedule_child p (default_kind p) interval)
      (enumerate0 qs) (ZERO, []) = Inr st" and
    plan: "validate_against plan p = Inr ()" "ep_algorithm plan = label"
      "ep_children plan = snd st"
      "scaled (ep_unallocated_quantity plan) = scaled (po_quantity p) - scaled (fst st)"
    by (auto simp: scheduled_plan_def and_then_eq_Inr validated_plan_eq_Ok checked_sub_eq_Ok)
  from schedule_children_Ok [OF loop] plan show "validate_against plan p = Inr ()"
    "ep_algorithm plan = label"
    "scaled (ep_unallocated_quantity plan) = scaled (po_quantity p) - (\<Sum>q\<leftarrow>qs. scaled q)"
    "ep_children plan = map (\<lambda>(i, q). scheduled_child p (numbered_id (po_parent_order_id p) i)
      (i * interval) q (default_kind p)) (enumerate0 qs)"
    by simp_all
qed

section \<open>Exact splitting\<close>

locale exact_splitter =
  fixes split :: "decimal \<Rightarrow> 'w \<Rightarrow> decimal list result"
    and usable :: "'w \<Rightarrow> bool"
  assumes parts_sum: "split q w = Inr qs \<Longrightarrow> ZERO < q \<Longrightarrow> usable w \<Longrightarrow> (\<Sum>x\<leftarrow>qs. scaled x) = scaled q"
    and parts_positive: "split q w = Inr qs \<Longrightarrow> ZERO < q \<Longrightarrow> usable w \<Longrightarrow> x \<in> set qs \<Longrightarrow> ZERO < x"
begin

lemma part_le_whole:
  assumes "split q w = Inr qs" "ZERO < q" "usable w" "x \<in> set qs"
  shows "x \<le> q"
proof -
  have "scaled x \<le> (\<Sum>x\<leftarrow>qs. scaled x)"
    by (rule sum_list_member_le [OF assms(4)]) (use parts_positive [OF assms(1-3)] in \<open>fastforce simp: decimal_cmp\<close>)
  with parts_sum [OF assms(1-3)] show ?thesis by (simp add: decimal_cmp)
qed

lemma schedule_allocates_all:
  assumes "split (po_quantity p) w = Inr qs" "ZERO < po_quantity p" "usable w"
    "scheduled_plan p label qs interval = Inr plan"
  shows "ep_unallocated_quantity plan = ZERO"
  using scheduled_plan_Ok(3) [OF assms(4)] parts_sum [OF assms(1-3)]
  by (cases "ep_unallocated_quantity plan") simp

end

lemma split_exact_prefix:
  assumes "try_fold (split_part base rem) [0..<k] [] = Inr parts" "0 \<le> base" "0 \<le> rem"
  shows "(\<Sum>x\<leftarrow>parts. scaled x) = int k * base + min (int k) rem \<and> (\<forall>x\<in>set parts. ZERO < x)"
  using assms(1)
proof (induction k arbitrary: parts)
  case (Suc k)
  from Suc.prems obtain ps where ps: "try_fold (split_part base rem) [0..<k] [] = Inr ps"
    and step: "split_part base rem k ps = Inr parts"
    by (auto simp: try_fold_append and_then_eq_Inr)
  let ?part = "base + (if int k < rem then 1 else 0)"
  from step have parts: "parts = (if ?part > 0 then ps @ [Decimal ?part] else ps)"
    by (auto simp: split_part_def and_then_eq_Inr result_simps)
  have "0 \<le> ?part" using assms(2) by simp
  with Suc.IH [OF ps] parts assms(3) show ?case by (auto simp: algebra_simps min_def)
qed (use assms(3) in simp)

lemma weighted_parts:
  assumes "try_fold (weighted_part q t n) iws st = Inr st'"
    "fst st = (\<Sum>x\<leftarrow>snd st. scaled x)" "\<forall>x\<in>set (snd st). ZERO < x"
  shows "fst st' = (\<Sum>x\<leftarrow>snd st'. scaled x) \<and> (\<forall>x\<in>set (snd st'). ZERO < x)"
proof (rule try_fold_invariant [OF assms(1), where P = "\<lambda>s. fst s = (\<Sum>x\<leftarrow>snd s. scaled x)
    \<and> (\<forall>x\<in>set (snd s). ZERO < x)"])
  fix iw u v
  assume inv: "fst u = (\<Sum>x\<leftarrow>snd u. scaled x) \<and> (\<forall>x\<in>set (snd u). ZERO < x)"
    and step: "weighted_part q t n iw u = Inr v"
  from step have "snd v = snd u @ [Decimal (fst v - fst u)]" "0 < fst v - fst u"
    by (cases iw; cases u; auto simp: weighted_part_def and_then_eq_Inr result_simps not_le split: if_splits)+
  with inv show "fst v = (\<Sum>x\<leftarrow>snd v. scaled x) \<and> (\<forall>x\<in>set (snd v). ZERO < x)" by simp
qed (use assms in simp)

lemma split_weighted_exact_Ok:
  assumes "split_weighted_exact q ws = Inr qs" "ws \<noteq> []"
  shows "(\<Sum>x\<leftarrow>qs. scaled x) = scaled q \<and> (\<forall>x\<in>set qs. ZERO < x)"
proof -
  from assms obtain t a where
    loop: "try_fold (weighted_part q t (length ws)) (enumerate0 ws) (0, []) = Inr (a, qs)"
    by (auto simp: split_weighted_exact_def and_then_eq_Inr split: if_splits)
  from assms(2) obtain us w where ws: "ws = us @ [w]" by (metis rev_exhaust)
  from loop obtain st where st: "try_fold (weighted_part q t (length ws)) (enumerate0 us) (0, []) = Inr st"
    and last: "weighted_part q t (length ws) (length us, w) st = Inr (a, qs)"
    by (auto simp: ws enumerate0_snoc try_fold_append and_then_eq_Inr)
  from last have "a = scaled q"
    by (cases st) (auto simp: weighted_part_def ws and_then_eq_Inr result_simps)
  with weighted_parts [OF loop] show ?thesis by simp
qed

lemma iceberg_loop_Ok:
  assumes "iceberg_loop d r acc = Inr qs" "0 < scaled d" "0 \<le> scaled r"
  shows "\<exists>new. qs = acc @ new \<and> (\<Sum>x\<leftarrow>new. scaled x) = scaled r \<and>
    (\<forall>x\<in>set new. ZERO < x \<and> x \<le> d) \<and> (\<forall>x\<in>set (butlast new). x = d) \<and>
    (acc \<noteq> [] \<or> scaled r > 0 \<longrightarrow> length qs \<le> max 10000 (length acc))"
  using assms
proof (induction d r acc rule: iceberg_loop.induct)
  case (1 d r acc)
  show ?case
  proof (cases "r > ZERO")
    case False
    with 1 show ?thesis by (auto simp: iceberg_loop.simps [of d r] decimal_cmp)
  next
    case True
    let ?s = "min r d"
    from 1(2) True obtain r' where len: "length acc < 10000" and r': "checked_sub r ?s = Inr r'"
      and rest: "iceberg_loop d r' (acc @ [?s]) = Inr qs"
      by (subst (asm) iceberg_loop.simps) (auto simp: and_then_eq_Inr not_le split: if_splits)
    have s: "0 < scaled ?s" using True 1(3) by (simp add: decimal_cmp)
    from r' have r'': "scaled r' = scaled r - scaled ?s" by (simp add: checked_sub_eq_Ok)
    have "0 \<le> scaled r'" using r'' by simp
    from 1(1) [OF True _ r' rest 1(3) this] len obtain new where
      new: "qs = (acc @ [?s]) @ new" "(\<Sum>x\<leftarrow>new. scaled x) = scaled r'"
      "\<forall>x\<in>set new. ZERO < x \<and> x \<le> d" "\<forall>x\<in>set (butlast new). x = d"
      "length qs \<le> max 10000 (length (acc @ [?s]))" by auto
    have first: "new \<noteq> [] \<Longrightarrow> ?s = d"
    proof (rule ccontr)
      assume "new \<noteq> []" "?s \<noteq> d"
      then have "?s = r" by (auto simp: min_def split: if_splits)
      with r'' new(2) have "(\<Sum>x\<leftarrow>new. scaled x) = 0" by simp
      moreover have "0 < (\<Sum>x\<leftarrow>new. scaled x)"
        using \<open>new \<noteq> []\<close> new(3) sum_list_member_le [of "hd new" new scaled]
        by (cases new) (fastforce simp: decimal_cmp)+
      ultimately show False by simp
    qed
    have "?s # new = [?s] @ new" by simp
    then show ?thesis
      using new r'' s len first
      by (intro exI [of _ "?s # new"]) (auto simp: decimal_cmp)
  qed
qed

interpretation equal_split: exact_splitter split_exact "\<lambda>parts. 0 < parts"
proof
  fix q :: decimal and n qs x
  assume "split_exact q n = Inr qs" and q: "ZERO < q" and n: "0 < n"
  moreover have "0 \<le> scaled q div int n" "0 \<le> scaled q mod int n"
    using q n by (simp_all add: decimal_cmp pos_imp_zdiv_nonneg_iff)
  ultimately have split: "(\<Sum>x\<leftarrow>qs. scaled x) = int n * (scaled q div int n) + min (int n) (scaled q mod int n)"
    "\<forall>x\<in>set qs. ZERO < x"
    using split_exact_prefix [of "scaled q div int n" "scaled q mod int n" n qs]
    by (auto simp: split_exact_def Let_def sdiv_nonneg_eq_div smod_nonneg_eq_mod decimal_cmp)
  moreover have "scaled q mod int n < int n" using n by simp
  ultimately show "(\<Sum>x\<leftarrow>qs. scaled x) = scaled q"
    using mult_div_mod_eq [of "int n" "scaled q"] by (simp add: min_def)
  show "x \<in> set qs \<Longrightarrow> ZERO < x" using split(2) by blast
qed

interpretation weighted_split: exact_splitter split_weighted_exact "\<lambda>weights. weights \<noteq> []"
  by unfold_locales (simp_all add: split_weighted_exact_Ok)

interpretation display_split: exact_splitter "\<lambda>q d. iceberg_loop d q []" "\<lambda>d. ZERO < d"
proof
  fix q d :: decimal and qs x
  assume "iceberg_loop d q [] = Inr qs" "ZERO < q" "ZERO < d"
  then obtain new where "qs = new" "(\<Sum>x\<leftarrow>new. scaled x) = scaled q" "\<forall>x\<in>set new. ZERO < x"
    using iceberg_loop_Ok [of d q "[]" qs] by (auto simp: decimal_cmp)
  then show "(\<Sum>x\<leftarrow>qs. scaled x) = scaled q" "x \<in> set qs \<Longrightarrow> ZERO < x" by simp_all
qed

section \<open>Plans of the algorithms\<close>

lemma plan_execution_Ok:
  assumes "plan_execution p algorithm = Inr plan" "\<not> is_wheel algorithm"
  obtains label qs interval where "parent_validate p = Inr ()"
    "algorithm_quantities p algorithm = Inr (label, qs, interval)"
    "scheduled_plan p label qs interval = Inr plan"
proof -
  have "\<exists>label qs interval. parent_validate p = Inr () \<and>
    algorithm_quantities p algorithm = Inr (label, qs, interval) \<and>
    scheduled_plan p label qs interval = Inr plan"
    using assms by (cases algorithm) (auto simp: plan_execution.simps and_then_eq_Inr)
  then show ?thesis using that by blast
qed

lemma plan_algo_wheel_Ok:
  assumes "plan_algo_wheel_execution p allocations = Inr plan"
  obtains weights qs combined rest where "parent_validate p = Inr ()" "allocations \<noteq> []"
    "try_fold check_allocation allocations 0 = Inr 10000"
    "try_map (\<lambda>alloc. from_integer (int (aw_weight_bps alloc))) allocations = Inr weights"
    "split_weighted_exact (po_quantity p) weights = Inr qs"
    "try_fold (\<lambda>branch st. case (branch, st) of
       ((wheel_index, alloc, quantity), (combined, total_unallocated)) \<Rightarrow>
         and_then (plan_execution (wheel_parent p wheel_index quantity) (aw_algorithm alloc)) (\<lambda>sub_plan.
         and_then (checked_add total_unallocated (ep_unallocated_quantity sub_plan)) (\<lambda>total'.
         Ok (combined @ wheel_children wheel_index sub_plan, total'))))
       (enumerate0 (zip allocations qs)) ([], ZERO) = Inr (combined, rest)"
    "validate_against plan p = Inr ()" "ep_unallocated_quantity plan = rest"
    "ep_children plan = renumber (po_parent_order_id p) combined"
  using assms unfolding plan_algo_wheel_execution.simps [of p allocations] and_then_eq_Inr
  by (auto simp: and_then_eq_Inr validated_plan_eq_Ok split: if_splits)

interpretation wheel: validated_planner plan_algo_wheel_execution
  by unfold_locales (auto elim: plan_algo_wheel_Ok)

interpretation execution: validated_planner plan_execution
proof
  fix p algorithm plan
  assume plan: "plan_execution p algorithm = Inr plan"
  have "validate_against plan p = Inr () \<and> parent_validate p = Inr ()"
  proof (cases "is_wheel algorithm")
    case True
    then obtain allocations where "algorithm = AlgoWheel allocations" by (cases algorithm) auto
    with plan have "plan_algo_wheel_execution p allocations = Inr plan"
      by (auto simp: plan_execution.simps and_then_eq_Inr)
    then show ?thesis using wheel.validated wheel.parent_checked by blast
  next
    case False
    with plan show ?thesis by (elim plan_execution_Ok) (auto dest: scheduled_plan_Ok(1))
  qed
  then show "validate_against plan p = Inr ()" "parent_validate p = Inr ()" by simp_all
qed

text \<open>The algorithms that may leave quantity unallocated.\<close>

fun participates :: "execution_algorithm \<Rightarrow> bool" where
  "participates (Participation _ _ _) = True"
| "participates (AlgoWheel allocations) = list_ex (\<lambda>a. case aw_algorithm a of
     Participation _ _ _ \<Rightarrow> True | _ \<Rightarrow> False) allocations"
| "participates _ = False"

lemma algorithm_allocates_all:
  assumes "algorithm_quantities p algorithm = Inr (label, qs, interval)" "ZERO < po_quantity p"
    "\<not> participates algorithm"
  shows "(\<Sum>x\<leftarrow>qs. scaled x) = scaled (po_quantity p)"
proof (cases algorithm)
  case (Twap n i)
  with assms show ?thesis
    by (auto simp: algorithm_quantities_def and_then_eq_Inr split: if_splits intro!: equal_split.parts_sum)
next
  case (Vwap vs i)
  with assms show ?thesis
    by (auto simp: algorithm_quantities_def and_then_eq_Inr split: if_splits intro!: weighted_split.parts_sum)
next
  case (ArrivalPrice n i u)
  with assms obtain ws where "try_map (arrival_weight n u) [0..<n] = Inr ws" "0 < n"
    "split_weighted_exact (po_quantity p) ws = Inr qs"
    by (auto simp: algorithm_quantities_def and_then_eq_Inr split: if_splits)
  moreover from this have "ws \<noteq> []" by (auto simp: try_map_eq_Inr)
  ultimately show ?thesis using assms(2) weighted_split.parts_sum by blast
next
  case (Iceberg d i)
  with assms show ?thesis
    by (auto simp: algorithm_quantities_def and_then_eq_Inr not_le split: if_splits intro!: display_split.parts_sum)
qed (use assms in \<open>auto simp: algorithm_quantities_def\<close>)

lemma simple_plan_allocates_all:
  assumes "plan_execution p algorithm = Inr plan" "\<not> is_wheel algorithm" "\<not> participates algorithm"
  shows "scaled (ep_unallocated_quantity plan) = 0"
  using assms(1,2)
proof (rule plan_execution_Ok)
  fix label qs interval
  assume "parent_validate p = Inr ()" "algorithm_quantities p algorithm = Inr (label, qs, interval)"
    "scheduled_plan p label qs interval = Inr plan"
  with assms(3) algorithm_allocates_all scheduled_plan_Ok(3) show ?thesis
    by (fastforce simp: parent_validate_eq_Ok)
qed

lemma allocations_not_wheels:
  "try_fold check_allocation allocations t = Inr t' \<Longrightarrow> a \<in> set allocations \<Longrightarrow> \<not> is_wheel (aw_algorithm a)"
  by (induction allocations arbitrary: t) (auto simp: and_then_eq_Inr check_allocation_def split: if_splits)

lemma wheel_allocates_all:
  assumes "plan_algo_wheel_execution p allocations = Inr plan" "\<not> participates (AlgoWheel allocations)"
  shows "scaled (ep_unallocated_quantity plan) = 0"
  using assms(1)
proof (rule plan_algo_wheel_Ok)
  fix weights qs combined rest
  assume ok: "try_fold check_allocation allocations 0 = Inr 10000"
    and loop: "try_fold (\<lambda>branch st. case (branch, st) of
       ((wheel_index, alloc, quantity), (combined, total_unallocated)) \<Rightarrow>
         and_then (plan_execution (wheel_parent p wheel_index quantity) (aw_algorithm alloc)) (\<lambda>sub_plan.
         and_then (checked_add total_unallocated (ep_unallocated_quantity sub_plan)) (\<lambda>total'.
         Ok (combined @ wheel_children wheel_index sub_plan, total'))))
       (enumerate0 (zip allocations qs)) ([], ZERO) = Inr (combined, rest)"
    and rest: "ep_unallocated_quantity plan = rest"
  have "scaled (snd (combined, rest)) = 0"
  proof (rule try_fold_invariant [OF loop, where P = "\<lambda>s. scaled (snd s) = 0"])
    fix branch u v
    assume mem: "branch \<in> set (enumerate0 (zip allocations qs))" and u: "scaled (snd u) = 0"
      and step: "(case (branch, u) of ((wheel_index, alloc, quantity), (combined, total_unallocated)) \<Rightarrow>
         and_then (plan_execution (wheel_parent p wheel_index quantity) (aw_algorithm alloc)) (\<lambda>sub_plan.
         and_then (checked_add total_unallocated (ep_unallocated_quantity sub_plan)) (\<lambda>total'.
         Ok (combined @ wheel_children wheel_index sub_plan, total')))) = Inr v"
    obtain i alloc q where b: "branch = (i, alloc, q)" by (cases branch) auto
    from mem b have alloc: "alloc \<in> set allocations"
      by (metis enumerate0_def set_zip_leftD set_zip_rightD)
    from step b obtain sub where sub: "plan_execution (wheel_parent p i q) (aw_algorithm alloc) = Inr sub"
      and v: "scaled (snd v) = scaled (snd u) + scaled (ep_unallocated_quantity sub)"
      by (cases u) (auto simp: and_then_eq_Inr checked_add_eq_Ok)
    have nw: "\<not> is_wheel (aw_algorithm alloc)" by (rule allocations_not_wheels [OF ok alloc])
    moreover have "\<not> participates (aw_algorithm alloc)"
      using assms(2) alloc nw by (cases "aw_algorithm alloc") (auto simp: list_ex_iff)
    ultimately show "scaled (snd v) = 0" using simple_plan_allocates_all [OF sub] u v by simp
  qed simp
  with rest show ?thesis by simp
qed

definition own_share :: "nat \<Rightarrow> decimal \<Rightarrow> int" where
  "own_share bps volume = scaled volume * int bps div 10000"

definition window_take :: "nat \<Rightarrow> decimal list \<Rightarrow> int \<Rightarrow> nat \<Rightarrow> int" where
  "window_take bps volumes total_units k = min (own_share bps (volumes ! k))
     (max 0 (total_units - (\<Sum>j<k. own_share bps (volumes ! j))))"

definition takes_of :: "nat \<Rightarrow> decimal list \<Rightarrow> int \<Rightarrow> int list" where
  "takes_of bps volumes total_units = map (window_take bps volumes total_units) [0..<length volumes]"

lemma own_share_nonneg: "0 \<le> scaled v \<Longrightarrow> 0 \<le> own_share bps v"
  by (simp add: own_share_def pos_imp_zdiv_nonneg_iff)

lemma own_share_bound: "own_share bps v * 10000 \<le> scaled v * int bps"
  by (simp add: own_share_def)

lemma window_take_bounds:
  assumes "\<forall>v\<in>set vs. 0 \<le> scaled v" "k < length vs"
  shows "0 \<le> window_take bps vs r k" "window_take bps vs r k * 10000 \<le> scaled (vs ! k) * int bps"
proof -
  show "0 \<le> window_take bps vs r k" using assms own_share_nonneg by (simp add: window_take_def)
  have "window_take bps vs r k \<le> own_share bps (vs ! k)" by (simp add: window_take_def)
  then show "window_take bps vs r k * 10000 \<le> scaled (vs ! k) * int bps"
    using own_share_bound [of bps "vs ! k"] by linarith
qed

lemma window_take_Suc:
  assumes "\<forall>v\<in>set (v # vs). 0 \<le> scaled v" "0 \<le> r" "k < length vs"
  shows "window_take bps (v # vs) r (Suc k) = window_take bps vs (r - min (own_share bps v) r) k"
proof -
  have "0 \<le> (\<Sum>j<k. own_share bps (vs ! j))" "0 \<le> own_share bps (vs ! k)" "0 \<le> own_share bps v"
    using assms by (auto intro!: sum_nonneg own_share_nonneg)
  moreover have "(\<Sum>j<Suc k. own_share bps ((v # vs) ! j)) = own_share bps v + (\<Sum>j<k. own_share bps (vs ! j))"
    by (simp only: sum.lessThan_Suc_shift nth_Cons_0 nth_Cons_Suc)
  ultimately show ?thesis using assms(2) by (simp add: window_take_def min_def max_def del: sum.lessThan_Suc)
qed

lemma takes_of_Nil [simp]: "takes_of bps [] r = []"
  by (simp add: takes_of_def)

lemma takes_of_Cons:
  assumes "\<forall>v\<in>set (v # vs). 0 \<le> scaled v" "0 \<le> r"
  shows "takes_of bps (v # vs) r = min (own_share bps v) r # takes_of bps vs (r - min (own_share bps v) r)"
proof -
  have "map (window_take bps (v # vs) r) [0..<Suc (length vs)]
      = window_take bps (v # vs) r 0 # map (window_take bps (v # vs) r \<circ> Suc) [0..<length vs]"
    by (simp only: upt_conv_Cons map_Suc_upt [symmetric] map_map list.map zero_less_Suc)
  moreover have "map (window_take bps (v # vs) r \<circ> Suc) [0..<length vs] = takes_of bps vs (r - min (own_share bps v) r)"
    unfolding takes_of_def using window_take_Suc [OF assms] by (intro map_cong) auto
  moreover have "window_take bps (v # vs) r 0 = min (own_share bps v) r" using assms(2) by (simp add: window_take_def)
  ultimately show ?thesis by (simp add: takes_of_def del: upt_Suc)
qed

lemma takes_of_sum:
  assumes "\<forall>v\<in>set vs. 0 \<le> scaled v" "0 \<le> r"
  shows "(\<Sum>q\<leftarrow>takes_of bps vs r. q) = min r (\<Sum>v\<leftarrow>vs. own_share bps v)"
  using assms
proof (induction vs arbitrary: r)
  case (Cons v vs)
  have "0 \<le> own_share bps v" "0 \<le> (\<Sum>v\<leftarrow>vs. own_share bps v)"
    using Cons.prems by (auto intro!: own_share_nonneg sum_list_nonneg)
  with Cons show ?case by (simp add: takes_of_Cons min_def)
qed simp

lemma takes_of_zero:
  assumes "\<forall>v\<in>set vs. 0 \<le> scaled v"
  shows "filter (\<lambda>q. 0 < q) (takes_of bps vs 0) = []"
  using assms
proof (induction vs)
  case (Cons v vs)
  then have "min (own_share bps v) 0 = 0" using own_share_nonneg by simp
  with Cons show ?case by (simp add: takes_of_Cons)
qed simp

lemma share_of_window:
  assumes "checked_mul v rate = Inr capacity" "scaled rate = int bps * 10000" "0 \<le> scaled v"
  shows "scaled capacity = own_share bps v"
proof -
  have "scaled capacity = scaled v * (int bps * 10000) div 100000000"
    using checked_mul_nonneg [OF assms(1)] assms(2,3) by (simp add: DECIMAL_SCALE_def)
  also have "\<dots> = (scaled v * int bps * 10000) div (10000 * 10000)" by (simp add: mult.assoc)
  also have "\<dots> = scaled v * int bps div 10000" by (simp only: div_mult_mult2)
  finally show ?thesis by (simp add: own_share_def)
qed

text \<open>The loop gives each window what is left of the order, at most the window's own share.\<close>

lemma participation_loop_Ok:
  assumes "participation_loop rate vs r acc = Inr qs" "scaled rate = int bps * 10000"
    "\<forall>v\<in>set vs. 0 \<le> scaled v" "0 \<le> scaled r"
  shows "map scaled qs = map scaled acc @ filter (\<lambda>q. 0 < q) (takes_of bps vs (scaled r))"
  using assms
proof (induction rate vs r acc rule: participation_loop.induct)
  case (2 rate v vs r acc)
  show ?case
  proof (cases "r = ZERO")
    case True
    with 2(3) show ?thesis using takes_of_zero [OF 2(5)] by simp
  next
    case False
    with 2(3) obtain c where c: "checked_mul v rate = Inr c" by (auto simp: and_then_eq_Inr)
    let ?q = "min c r"
    have own: "own_share bps v = scaled c" using share_of_window [OF c 2(4)] 2(5) by simp
    then have share: "scaled ?q = min (own_share bps v) (scaled r)" by (auto simp: min_def decimal_cmp)
    note cons = takes_of_Cons [OF 2(5,6), of bps]
    show ?thesis
    proof (cases "?q > ZERO")
      case True
      with False 2(3) c obtain r' where r': "checked_sub r ?q = Inr r'"
        and rest: "participation_loop rate vs r' (acc @ [?q]) = Inr qs"
        by (auto simp: and_then_eq_Inr Let_def)
      from r' have r'': "scaled r' = scaled r - scaled ?q" by (simp add: checked_sub_eq_Ok)
      have "0 \<le> scaled r'" using r'' share by simp
      from 2(1) [OF False c refl True r' rest 2(4) _ this] 2(5)
      have "map scaled qs = map scaled (acc @ [?q]) @ filter (\<lambda>q. 0 < q) (takes_of bps vs (scaled r'))" by simp
      moreover have "0 < scaled ?q" using True by (simp add: decimal_cmp)
      ultimately show ?thesis using share by (simp add: cons r'' own)
    next
      case small: False
      with False 2(3) c have "participation_loop rate vs r acc = Inr qs" by (auto simp: Let_def)
      from 2(2) [OF False c refl small this 2(4) _ 2(6)] 2(5)
      have "map scaled qs = map scaled acc @ filter (\<lambda>q. 0 < q) (takes_of bps vs (scaled r))" by simp
      moreover have "min (own_share bps v) (scaled r) = 0"
        using small share own_share_nonneg [of v bps] 2(5,6) by (simp add: decimal_cmp min_def split: if_splits)
      ultimately show ?thesis by (simp add: cons)
    qed
  qed
qed simp

section \<open>Properties\<close>

text \<open>C22: Whatever the algorithm, wheels included, an accepted plan conserves the parent: its
  children are positive, in time order, never exceed the parent together, and unless a
  participation branch is involved nothing is left unallocated.\<close>

theorem execution_conserves_quantity:
  assumes "plan_execution p algorithm = Ok plan"
  shows "conserves plan p
    \<and> (\<Sum>c\<leftarrow>ep_children plan. scaled (ci_quantity c)) \<le> scaled (po_quantity p)
    \<and> (\<not> participates algorithm \<longrightarrow> ep_unallocated_quantity plan = ZERO
        \<and> (\<Sum>c\<leftarrow>ep_children plan. scaled (ci_quantity c)) = scaled (po_quantity p))"
proof -
  note conserved = execution.planned_conserves [OF assms]
  have "scaled (ep_unallocated_quantity plan) = 0" if "\<not> participates algorithm"
  proof (cases "is_wheel algorithm")
    case True
    then obtain allocations where "algorithm = AlgoWheel allocations" by (cases algorithm) auto
    with assms that show ?thesis
      using wheel_allocates_all by (auto simp: plan_execution.simps and_then_eq_Inr)
  next
    case False
    with assms that simple_plan_allocates_all show ?thesis by blast
  qed
  then have "\<not> participates algorithm \<Longrightarrow> ep_unallocated_quantity plan = ZERO"
    by (cases "ep_unallocated_quantity plan") simp
  with conserved show ?thesis by (auto simp: conserves_def)
qed

lemmas algorithm_eval = algorithm_quantities_def split_exact_def split_part_def upt_rec plan_arith
  smod_nonneg_eq_mod scheduled_plan_def enumerate0_def schedule_child_def u64_checked_def
  numbered_id_def plan_checks default_kind_def Let_def

lemma sample_twap_schedule: "\<exists>plan. plan_execution sample_parent (Twap 3 60) = Ok plan"
  by (subst plan_execution.simps) (simp add: sample_parent_valid [unfolded sample_parent_def] sample_parent_def algorithm_eval)

theorem execution_conserves_quantity_witness:
  "\<exists>plan. plan_execution sample_parent (Twap 3 60) = Ok plan
    \<and> (\<Sum>c\<leftarrow>ep_children plan. scaled (ci_quantity c)) = 10000000000"
  using sample_twap_schedule execution_conserves_quantity
  by (fastforce simp: sample_parent_def)

text \<open>C30: A participation schedule follows its windows: the children are, in window order, what each window
  that takes anything takes, and a window takes what is left of the parent, at most the configured share of
  its own volume rounded down. In total the schedule takes the parent or all shares, whichever is less;
  the rest is reported as unallocated. (The times of the children count children, not windows.)\<close>

theorem participation_within_share:
  assumes "plan_execution p (Participation bps volumes interval) = Ok plan"
  shows "let takes = window_take bps volumes (scaled (po_quantity p)); taken = (\<Sum>c\<leftarrow>ep_children plan. scaled (ci_quantity c)) in
    map (\<lambda>c. scaled (ci_quantity c)) (ep_children plan) = map takes (filter (\<lambda>k. 0 < takes k) [0..<length volumes])
    \<and> list_all (\<lambda>k. 0 \<le> takes k \<and> takes k * 10000 \<le> scaled (volumes ! k) * int bps) [0..<length volumes]
    \<and> taken = min (scaled (po_quantity p)) (\<Sum>v\<leftarrow>volumes. own_share bps v)
    \<and> scaled (ep_unallocated_quantity plan) = scaled (po_quantity p) - taken"
proof -
  let ?takes = "window_take bps volumes (scaled (po_quantity p))"
  from assms obtain label qs i where valid: "parent_validate p = Inr ()"
    and qs: "algorithm_quantities p (Participation bps volumes interval) = Inr (label, qs, i)"
    and plan: "scheduled_plan p label qs i = Inr plan"
    by (rule plan_execution_Ok) auto
  from qs obtain b rate where b: "from_integer (int bps) = Inr b"
    and rate: "checked_div b (Decimal 1000000000000) = Inr rate"
    and vols: "\<forall>v\<in>set volumes. 0 \<le> scaled v"
    and loop: "participation_loop rate volumes (po_quantity p) [] = Inr qs"
    by (auto simp: algorithm_quantities_def and_then_eq_Inr list_ex_iff decimal_cmp not_less split: if_splits)
  from b rate have r: "scaled rate = int bps * 10000"
    using checked_div_pos [OF rate] by (auto simp: from_integer_eq_Ok DECIMAL_SCALE_def)
  from valid have nonneg: "0 \<le> scaled (po_quantity p)" by (simp add: parent_validate_eq_Ok decimal_cmp)
  note looped = participation_loop_Ok [OF loop r vols nonneg]
  have "map ci_quantity (ep_children plan) = qs"
    using scheduled_plan_Ok(4) [OF plan] by (simp add: comp_def case_prod_beta scheduled_child_def)
  then have "map (\<lambda>c. scaled (ci_quantity c)) (ep_children plan) = map scaled qs" by (auto simp: comp_def)
  with looped have children: "map (\<lambda>c. scaled (ci_quantity c)) (ep_children plan)
      = filter (\<lambda>q. 0 < q) (takes_of bps volumes (scaled (po_quantity p)))" by simp
  then have parts: "map (\<lambda>c. scaled (ci_quantity c)) (ep_children plan)
      = map ?takes (filter (\<lambda>k. 0 < ?takes k) [0..<length volumes])"
    by (simp add: takes_of_def filter_map comp_def)
  have bounds: "list_all (\<lambda>k. 0 \<le> ?takes k \<and> ?takes k * 10000 \<le> scaled (volumes ! k) * int bps) [0..<length volumes]"
    using window_take_bounds [OF vols] by (simp add: list_all_iff)
  have "(\<Sum>q\<leftarrow>filter (\<lambda>q. 0 < q) xs. q) = (\<Sum>q\<leftarrow>xs. q)" if "\<forall>q\<in>set xs. 0 \<le> q" for xs :: "int list"
    using that by (induction xs) auto
  moreover have "\<forall>q\<in>set (takes_of bps volumes (scaled (po_quantity p))). 0 \<le> q"
    using bounds by (auto simp: takes_of_def list_all_iff)
  ultimately have taken: "(\<Sum>c\<leftarrow>ep_children plan. scaled (ci_quantity c))
      = min (scaled (po_quantity p)) (\<Sum>v\<leftarrow>volumes. own_share bps v)"
    using takes_of_sum [OF vols nonneg, of bps] children by simp
  have "scaled (ep_unallocated_quantity plan) = scaled (po_quantity p) - (\<Sum>c\<leftarrow>ep_children plan. scaled (ci_quantity c))"
    using scheduled_plan_Ok(3) [OF plan] \<open>map (\<lambda>c. scaled (ci_quantity c)) (ep_children plan) = map scaled qs\<close> by simp
  with parts bounds taken show ?thesis by (simp add: Let_def)
qed

lemma sample_participation:
  "\<exists>plan. plan_execution sample_parent (Participation 1000 [Decimal 0, Decimal 10000000000] 60) = Ok plan
    \<and> map ci_scheduled_after_seconds (ep_children plan) = [0]
    \<and> map ci_quantity (ep_children plan) = [Decimal 1000000000]"
  by (subst plan_execution.simps)
    (simp add: sample_parent_valid [unfolded sample_parent_def] sample_parent_def algorithm_eval)

theorem participation_within_share_witness:
  "\<exists>plan. plan_execution sample_parent (Participation 1000 [Decimal 0, Decimal 10000000000] 60) = Ok plan
    \<and> (\<Sum>c\<leftarrow>ep_children plan. scaled (ci_quantity c)) = 1000000000
    \<and> scaled (ep_unallocated_quantity plan) = 9000000000"
  using sample_participation participation_within_share
  by (fastforce simp: sample_parent_def own_share_def Let_def)

text \<open>An idle observation window shifts the schedule: offsets count the scheduled children, not
  the windows, so with a first window of no volume the child sized from the second window is due in
  the first one, where the configured share of the volume is zero.\<close>

theorem participation_idle_window_shifts:
  "\<exists>plan c. plan_execution sample_parent (Participation 1000 [Decimal 0, Decimal 10000000000] 60) = Ok plan
    \<and> ep_children plan = [c] \<and> ci_scheduled_after_seconds c = 0 \<and> ci_quantity c = Decimal 1000000000"
  using sample_participation by (auto simp: map_eq_Cons_conv)

section \<open>The two iceberg planners\<close>

definition kids :: "parent_order \<Rightarrow> child_order_kind \<Rightarrow> nat \<Rightarrow> nat \<Rightarrow> decimal list \<Rightarrow> child_instruction list" where
  "kids p kind interval k qs = map (\<lambda>(j, q). scheduled_child p (numbered_id (po_parent_order_id p) j)
     (j * interval) q kind) (zip [k..<k + length qs] qs)"

definition offsets_fit :: "nat \<Rightarrow> nat \<Rightarrow> nat \<Rightarrow> bool" where
  "offsets_fit interval k n \<longleftrightarrow> (\<forall>j\<in>{k..<k + n}. j * interval < 2 ^ 64)"

lemma kids_simps [simp]:
  "kids p kind i k [] = []"
  "kids p kind i k (q # qs) = scheduled_child p (numbered_id (po_parent_order_id p) k) (k * i) q kind
     # kids p kind i (Suc k) qs"
  by (simp_all add: kids_def upt_conv_Cons del: upt_Suc)

lemma iceberg_loop_prefix: "iceberg_loop d r acc = Inr qs \<Longrightarrow> \<exists>new. qs = acc @ new"
proof (induction d r acc rule: iceberg_loop.induct)
  case (1 d r acc)
  from 1(2) 1(1) show ?case
    by (subst (asm) iceberg_loop.simps) (fastforce simp: and_then_eq_Inr split: if_splits)
qed

lemma offsets_fit_simps [simp]:
  "offsets_fit i k 0"
  "offsets_fit i k (Suc n) \<longleftrightarrow> k * i < 2 ^ 64 \<and> offsets_fit i (Suc k) n"
proof -
  show "offsets_fit i k 0" by (simp add: offsets_fit_def)
  have "{k..<k + Suc n} = insert k {Suc k..<Suc k + n}" by auto
  then show "offsets_fit i k (Suc n) \<longleftrightarrow> k * i < 2 ^ 64 \<and> offsets_fit i (Suc k) n"
    unfolding offsets_fit_def by (simp only: ball_simps)
qed

lemma iceberg_children_iff:
  "iceberg_children p d i kind r (length acc) cs = Inr cs' \<longleftrightarrow>
    (\<exists>new. iceberg_loop d r acc = Inr (acc @ new) \<and> offsets_fit i (length acc) (length new)
      \<and> cs' = cs @ kids p kind i (length acc) new)"
proof (induction d r acc arbitrary: cs rule: iceberg_loop.induct)
  case (1 d r acc)
  show ?case
  proof (cases "r > ZERO \<and> length acc < 10000")
    case False
    then show ?thesis
      by (subst iceberg_children.simps, subst iceberg_loop.simps) auto
  next
    case True
    let ?s = "min r d"
    show ?thesis
    proof (cases "checked_sub r ?s")
      case (Inl e)
      with True show ?thesis
        by (subst iceberg_children.simps, subst iceberg_loop.simps) (auto simp: and_then_eq_Inr)
    next
      case (Inr r')
      have step: "iceberg_children p d i kind r (length acc) cs = Inr cs' \<longleftrightarrow>
          length acc * i < 2 ^ 64 \<and> iceberg_children p d i kind r' (length (acc @ [?s]))
            (cs @ [scheduled_child p (numbered_id (po_parent_order_id p) (length acc)) (length acc * i) ?s kind]) = Inr cs'"
        using True Inr by (subst iceberg_children.simps) (auto simp: and_then_eq_Inr result_simps)
      have loop: "iceberg_loop d r acc = iceberg_loop d r' (acc @ [?s])"
        using True Inr by (subst iceberg_loop.simps) simp
      have IH: "iceberg_children p d i kind r' (length (acc @ [?s]))
            (cs @ [scheduled_child p (numbered_id (po_parent_order_id p) (length acc)) (length acc * i) ?s kind]) = Inr cs' \<longleftrightarrow>
          (\<exists>new. iceberg_loop d r' (acc @ [?s]) = Inr ((acc @ [?s]) @ new) \<and> offsets_fit i (length (acc @ [?s])) (length new)
            \<and> cs' = (cs @ [scheduled_child p (numbered_id (po_parent_order_id p) (length acc)) (length acc * i) ?s kind])
              @ kids p kind i (length (acc @ [?s])) new)"
        using 1 True Inr by simp
      show ?thesis (is "_ = (\<exists>new. ?P new)")
      proof
        assume "iceberg_children p d i kind r (length acc) cs = Inr cs'"
        with step IH loop obtain new where "?P (?s # new)" by auto
        then show "\<exists>new. ?P new" ..
      next
        assume "\<exists>new. ?P new"
        then obtain new where new: "?P new" ..
        have "\<exists>rest. new = ?s # rest"
          using new iceberg_loop_prefix [of d r' "acc @ [?s]"] by (auto simp: loop)
        then show "iceberg_children p d i kind r (length acc) cs = Inr cs'"
          unfolding step IH using new loop by auto
      qed
    qed
  qed
qed

lemma schedule_children_iff:
  assumes "\<forall>q\<in>set qs. ZERO < q" "0 \<le> scaled (fst st)" "in_i128 (scaled (fst st) + (\<Sum>q\<leftarrow>qs. scaled q))"
  shows "try_fold (schedule_child p kind i) (zip [k..<k + length qs] qs) st = Inr st' \<longleftrightarrow>
    offsets_fit i k (length qs) \<and>
    st' = (if qs = [] then st else (Decimal (scaled (fst st) + (\<Sum>q\<leftarrow>qs. scaled q)), snd st @ kids p kind i k qs))"
  using assms
proof (induction qs arbitrary: k st)
  case (Cons q qs)
  let ?a = "scaled (fst st) + scaled q"
  let ?st = "(Decimal ?a, snd st @ [scheduled_child p (numbered_id (po_parent_order_id p) k) (k * i) q kind])"
  have nonneg: "0 \<le> (\<Sum>q\<leftarrow>qs. scaled q)"
    by (rule sum_list_nonneg) (use Cons.prems(1) in \<open>auto simp: decimal_cmp\<close>)
  have q: "0 < scaled q" using Cons.prems(1) by (simp add: decimal_cmp)
  have range: "in_i128 ?a"
    by (rule in_i128_between [OF in_i128_0 Cons.prems(3)]) (use nonneg q Cons.prems(2) in auto)
  have zip: "zip [k..<k + length (q # qs)] (q # qs) = (k, q) # zip [Suc k..<Suc k + length qs] qs"
    by (simp add: upt_conv_Cons del: upt_Suc)
  have step: "schedule_child p kind i (k, q) st = (if k * i < 2 ^ 64 then Inr ?st
      else Err ''execution schedule overflowed'')"
    using range by (simp add: schedule_child_def checked_add_def i128_checked_def u64_checked_def)
  have "in_i128 (scaled (fst ?st) + (\<Sum>q\<leftarrow>qs. scaled q))"
    using Cons.prems(3) by (simp add: add.assoc)
  from Cons.IH [OF _ _ this, of "Suc k"] Cons.prems(1,2) q have IH:
    "try_fold (schedule_child p kind i) (zip [Suc k..<Suc k + length qs] qs) ?st = Inr st' \<longleftrightarrow>
      offsets_fit i (Suc k) (length qs) \<and> st' = (if qs = [] then ?st else
        (Decimal (scaled (fst ?st) + (\<Sum>q\<leftarrow>qs. scaled q)), snd ?st @ kids p kind i (Suc k) qs))"
    by simp
  show ?case
  proof (cases "k * i < 2 ^ 64")
    case True
    then have "try_fold (schedule_child p kind i) (zip [k..<k + length (q # qs)] (q # qs)) st =
        try_fold (schedule_child p kind i) (zip [Suc k..<Suc k + length qs] qs) ?st"
      unfolding zip try_fold.simps step by simp
    with IH True show ?thesis by (cases qs) (auto simp: add.assoc)
  next
    case False
    then show ?thesis unfolding zip try_fold.simps step by simp
  qed
qed auto

text \<open>The stand-alone iceberg planner and the iceberg branch of the general planner accept the
  same orders and return the same plan.\<close>

theorem iceberg_planners_agree:
  assumes "dec_ok (po_quantity p)"
  shows "plan_iceberg_execution p d i (default_kind p) = Ok plan \<longleftrightarrow>
    plan_execution p (Iceberg d i) = Ok plan"
proof (cases "parent_validate p = Inr () \<and> ZERO < d \<and> i \<noteq> 0")
  case False
  then show ?thesis
    by (cases "parent_validate p")
      (auto simp: plan_iceberg_execution_def plan_execution.simps [of p "Iceberg d i"]
        algorithm_quantities_def and_then_eq_Inr not_less decimal_cmp)
next
  case True
  let ?q = "po_quantity p"
  from True have q: "0 < scaled ?q" "0 < scaled d" by (auto simp: parent_validate_eq_Ok decimal_cmp)
  have same: "iceberg_children p d i (default_kind p) ?q 0 [] = Inr cs \<longleftrightarrow>
      (\<exists>qs. iceberg_loop d ?q [] = Inr qs \<and>
        try_fold (schedule_child p (default_kind p) i) (enumerate0 qs) (ZERO, []) = Inr (?q, cs))" for cs
  proof -
    have "try_fold (schedule_child p (default_kind p) i) (enumerate0 qs) (ZERO, []) = Inr (?q, cs) \<longleftrightarrow>
        offsets_fit i 0 (length qs) \<and> cs = kids p (default_kind p) i 0 qs"
      if "iceberg_loop d ?q [] = Inr qs" for qs
    proof -
      from iceberg_loop_Ok [OF that q(2)] q have qs: "(\<Sum>x\<leftarrow>qs. scaled x) = scaled ?q" "\<forall>x\<in>set qs. ZERO < x"
        by auto
      with q have ne: "qs \<noteq> []" by auto
      show ?thesis
        using schedule_children_iff [of qs "(ZERO, [])" p "default_kind p" i 0 "(?q, cs)"] qs ne assms
        by (cases ?q) (auto simp: enumerate0_def dec_ok_def)
    qed
    then show ?thesis
      using iceberg_children_iff [of p d i "default_kind p" ?q "[]" "[]" cs] by auto
  qed
  have alloc: "a = ?q" if "iceberg_loop d ?q [] = Inr qs"
    "try_fold (schedule_child p (default_kind p) i) (enumerate0 qs) (ZERO, []) = Inr (a, cs)" for qs a cs
  proof -
    from iceberg_loop_Ok [OF that(1) q(2)] q have "(\<Sum>x\<leftarrow>qs. scaled x) = scaled ?q" by auto
    with schedule_children_Ok [OF that(2)] show ?thesis by (cases a; cases ?q) simp
  qed
  from True have d: "\<not> d \<le> ZERO" by (simp add: not_le)
  have sub: "checked_sub ?q ?q = Inr ZERO" by (simp add: checked_sub_eq_Ok)
  let ?mk = "\<lambda>cs. \<lparr>ep_parent_order_id = po_parent_order_id p, ep_algorithm = ''iceberg-v1'',
         ep_children = cs, ep_unallocated_quantity = ZERO\<rparr>"
  have "plan_iceberg_execution p d i (default_kind p) = Ok plan \<longleftrightarrow>
      (\<exists>cs. iceberg_children p d i (default_kind p) ?q 0 [] = Inr cs \<and> validated_plan p (?mk cs) = Ok plan)"
    using True d by (simp add: plan_iceberg_execution_def and_then_eq_Inr)
  also have "\<dots> \<longleftrightarrow> (\<exists>qs. iceberg_loop d ?q [] = Inr qs \<and> scheduled_plan p ''iceberg-v1'' qs i = Ok plan)"
  proof -
    have "scheduled_plan p ''iceberg-v1'' qs i = Ok plan \<longleftrightarrow>
        (\<exists>cs. try_fold (schedule_child p (default_kind p) i) (enumerate0 qs) (ZERO, []) = Inr (?q, cs)
          \<and> validated_plan p (?mk cs) = Ok plan)" if loop: "iceberg_loop d ?q [] = Inr qs" for qs
    proof (cases "try_fold (schedule_child p (default_kind p) i) (enumerate0 qs) (ZERO, [])")
      case (Inr st)
      with alloc [OF loop, of "fst st" "snd st"] have "st = (?q, snd st)" by (cases st) simp
      then show ?thesis using Inr sub by (cases st) (simp add: scheduled_plan_def)
    qed (simp add: scheduled_plan_def)
    then show ?thesis unfolding same by blast
  qed
  also have "\<dots> \<longleftrightarrow> plan_execution p (Iceberg d i) = Ok plan"
    using True d by (simp add: plan_execution.simps [of p "Iceberg d i"] algorithm_quantities_def
        and_then_eq_Inr)
  finally show ?thesis .
qed

theorem iceberg_planners_agree_witness:
  "\<exists>plan. plan_execution sample_parent (Iceberg (Decimal 6000000000) 60) = Ok plan
    \<and> plan_iceberg_execution sample_parent (Decimal 6000000000) 60 ChildMarket = Ok plan"
proof -
  have "\<exists>plan. plan_execution sample_parent (Iceberg (Decimal 6000000000) 60) = Ok plan"
    by (subst plan_execution.simps)
      (simp add: sample_parent_valid [unfolded sample_parent_def] sample_parent_def algorithm_eval
        iceberg_loop.simps)
  then obtain plan where plan: "plan_execution sample_parent (Iceberg (Decimal 6000000000) 60) = Ok plan" ..
  have "dec_ok (po_quantity sample_parent)" "default_kind sample_parent = ChildMarket"
    by (simp_all add: sample_parent_def dec_ok_def in_i128_def default_kind_def)
  with iceberg_planners_agree [of sample_parent "Decimal 6000000000" 60 plan] plan show ?thesis by simp
qed

section \<open>The iceberg loop ends\<close>

text \<open>The slices of a quantity: whole displays, then the rest.\<close>

definition display_slices :: "decimal \<Rightarrow> decimal \<Rightarrow> decimal list" where
  "display_slices d q = replicate (nat (scaled q div scaled d)) d
     @ (if scaled q mod scaled d = 0 then [] else [Decimal (scaled q mod scaled d)])"

lemma display_slices_step:
  assumes "0 < scaled d" "scaled d \<le> scaled q" "scaled r = scaled q - scaled d"
  shows "display_slices d q = d # display_slices d r"
proof -
  have "scaled q div scaled d = scaled r div scaled d + 1" "scaled q mod scaled d = scaled r mod scaled d"
    using assms div_add_self2 [of "scaled d" "scaled r"] mod_add_self2 [of "scaled r" "scaled d"] by auto
  moreover have "0 \<le> scaled r div scaled d" using assms by (simp add: pos_imp_zdiv_nonneg_iff)
  ultimately show ?thesis by (simp add: display_slices_def nat_add_distrib)
qed

lemma iceberg_loop_closed_form:
  assumes "dec_ok r" "0 \<le> scaled r" "0 < scaled d" "length acc \<le> 10000"
  shows "iceberg_loop d r acc = (if scaled r \<le> int (10000 - length acc) * scaled d then Ok (acc @ display_slices d r)
    else Err ''iceberg slice count exceeds maximum allowed'')"
  using assms
proof (induction d r acc rule: iceberg_loop.induct)
  case (1 d r acc)
  show ?case
  proof (cases "r > ZERO")
    case False
    then have "scaled r = 0" using 1(3) by (simp add: decimal_cmp)
    with False show ?thesis by (simp add: iceberg_loop.simps [of d r] display_slices_def zero_le_mult_iff 1(4) less_imp_le)
  next
    case True
    then have r: "0 < scaled r" by (simp add: decimal_cmp)
    show ?thesis
    proof (cases "length acc \<ge> 10000")
      case True
      with \<open>r > ZERO\<close> r 1(5) show ?thesis by (simp add: iceberg_loop.simps [of d r])
    next
      case False
      let ?s = "min r d"
      have s: "scaled ?s = min (scaled r) (scaled d)" by (simp add: min_def decimal_cmp)
      have sub: "checked_sub r ?s = Inr (Decimal (scaled r - scaled ?s))"
        using 1(2-4) r by (auto simp: checked_sub_eq_Ok s dec_ok_def in_i128_def)
      have step: "iceberg_loop d r acc = iceberg_loop d (Decimal (scaled r - scaled ?s)) (acc @ [?s])"
        using \<open>r > ZERO\<close> False by (subst iceberg_loop.simps) (simp add: sub)
      have ih: "iceberg_loop d (Decimal (scaled r - scaled ?s)) (acc @ [?s])
        = (if scaled r - scaled ?s \<le> int (10000 - length (acc @ [?s])) * scaled d
           then Ok ((acc @ [?s]) @ display_slices d (Decimal (scaled r - scaled ?s)))
           else Err ''iceberg slice count exceeds maximum allowed'')"
      proof -
        have "dec_ok (Decimal (scaled r - scaled ?s))" "0 \<le> scaled (Decimal (scaled r - scaled ?s))"
          using 1(2-4) by (auto simp: dec_ok_def in_i128_def s)
        from 1(1) [OF \<open>r > ZERO\<close> _ sub this 1(4)] False show ?thesis by simp
      qed
      have left: "int (10000 - length acc) * scaled d = int (10000 - length (acc @ [?s])) * scaled d + scaled d"
        using False by (simp add: of_nat_diff algebra_simps)
      show ?thesis
      proof (cases "scaled d \<le> scaled r")
        case True
        then have "?s = d" by (cases d; cases r) (auto simp: min_def decimal_cmp)
        with True show ?thesis
          using display_slices_step [OF 1(4) True, of "Decimal (scaled r - scaled d)"] left
          unfolding step ih by simp
      next
        case False
        then have "?s = r" by (simp add: min_def decimal_cmp)
        moreover have "display_slices d r = [r]" "display_slices d (Decimal 0) = []"
          using False r by (simp_all add: display_slices_def div_pos_pos_trivial mod_pos_pos_trivial)
        moreover have "0 \<le> int (10000 - length (acc @ [?s])) * scaled d" using 1(4) by simp
        ultimately show ?thesis using False left unfolding step ih by simp
      qed
    qed
  qed
qed

text \<open>C35: The iceberg loop always ends: with a positive display quantity it cuts the parent into whole displays and the
  rest when these are at most ten thousand slices, and otherwise it refuses, whatever the quantity.\<close>

theorem iceberg_loop_ends:
  assumes "dec_ok q" "0 \<le> scaled q" "0 < scaled d"
  shows "iceberg_loop d q [] = (if scaled q \<le> 10000 * scaled d then Ok (display_slices d q)
      else Err ''iceberg slice count exceeds maximum allowed'')
    \<and> length (display_slices d q) = nat ((scaled q + scaled d - 1) div scaled d)"
proof
  show "iceberg_loop d q [] = (if scaled q \<le> 10000 * scaled d then Ok (display_slices d q)
    else Err ''iceberg slice count exceeds maximum allowed'')"
    using iceberg_loop_closed_form [OF assms, of "[]"] by simp
  let ?q = "scaled q" and ?d = "scaled d"
  have q: "?q = ?d * (?q div ?d) + ?q mod ?d" by simp
  have mod: "0 \<le> ?q mod ?d" "?q mod ?d < ?d" using assms(3) by simp_all
  have whole: "(?q + ?d - 1) div ?d = ?q div ?d + (?q mod ?d + ?d - 1) div ?d"
    using assms(3) by (subst q) (simp add: algebra_simps flip: div_mult_self4)
  have "?q mod ?d \<noteq> 0 \<Longrightarrow> (?q mod ?d - 1) div ?d = 0" using mod by (intro div_pos_pos_trivial) linarith+
  then have "(?q mod ?d + ?d - 1) div ?d = (if ?q mod ?d = 0 then 0 else 1)"
    using assms(3) div_add_self2 [of ?d "?q mod ?d - 1"]
    by (auto simp: algebra_simps)
  with whole show "length (display_slices d q) = nat ((scaled q + scaled d - 1) div scaled d)"
    using assms by (simp add: display_slices_def pos_imp_zdiv_nonneg_iff nat_add_distrib)
qed

theorem iceberg_loop_ends_witness:
  "iceberg_loop (Decimal 3) (Decimal 7) [] = Ok [Decimal 3, Decimal 3, Decimal 1]"
  using iceberg_loop_ends [of "Decimal 7" "Decimal 3"]
  by (simp add: dec_ok_def in_i128_def display_slices_def numeral_2_eq_2)

end
