(* ===== verification/ExecPassive.thy ===== *)
theory ExecPassive
  imports ExecAlgorithms
begin

text \<open>
  Component: passive cancel-and-replace planning (\<^verbatim>\<open>core/execution/src/passive.rs\<close>). The loop
  over the observations carries the working child, its price and the time of the last
  replacement. The lemmas establish the invariant of that loop, from which the safety property of
  a complete plan follows. The rounding of the hard limit adds a tick unchecked; it cannot wrap,
  because the validated initial price already lies on the grid beyond it.
\<close>

record passive_policy =
  pp_initial_limit_price :: decimal
  pp_tick_size :: decimal
  pp_maximum_chase_bps :: nat
  pp_maximum_replacements :: nat
  pp_minimum_replace_interval_seconds :: nat

record market_observation =
  mo_observed_after_seconds :: nat
  mo_best_bid :: decimal
  mo_best_ask :: decimal

record cancel_replace =
  cr_cancel_child_order_id :: string
  cr_replacement :: child_instruction

record passive_plan =
  pr_initial :: child_instruction
  pr_replacements :: "cancel_replace list"

text \<open>The loop state.\<close>

record passive_state =
  ws_current_id :: string
  ws_current_price :: decimal
  ws_prior_observation :: "nat option"
  ws_last_replace_at :: nat
  ws_replacements :: "cancel_replace list"

definition passive_policy_invalid :: "passive_policy \<Rightarrow> market_observation list \<Rightarrow> bool" where
  "passive_policy_invalid policy observations \<longleftrightarrow>
     pp_initial_limit_price policy \<le> ZERO \<or> pp_tick_size policy \<le> ZERO
     \<or> pp_maximum_chase_bps policy > 10000 \<or> pp_maximum_replacements policy > 10000
     \<or> pp_minimum_replace_interval_seconds policy = 0
     \<or> scaled (pp_initial_limit_price policy) smod scaled (pp_tick_size policy) \<noteq> 0
     \<or> observations = [] \<or> length observations > 100000"

definition outside_limit :: "side \<Rightarrow> decimal \<Rightarrow> decimal option \<Rightarrow> bool" where
  "outside_limit s price limit = (case limit of None \<Rightarrow> False | Some hard_limit \<Rightarrow>
     (case s of Buy \<Rightarrow> price > hard_limit | Sell \<Rightarrow> price < hard_limit))"

definition passive_child :: "parent_order \<Rightarrow> string \<Rightarrow> nat \<Rightarrow> decimal \<Rightarrow> child_instruction" where
  "passive_child p child_id after price =
     \<lparr>ci_child_order_id = child_id, ci_scheduled_after_seconds = after, ci_venue = None,
      ci_quantity = po_quantity p, ci_kind = ChildLimit, ci_limit_price = Some price,
      ci_stop_price = None\<rparr>"

definition passive_id :: "parent_order \<Rightarrow> nat \<Rightarrow> string" where
  "passive_id p number = po_parent_order_id p @ ''.passive.'' @ zero_padded 4 number"

definition crosses :: "side \<Rightarrow> decimal \<Rightarrow> market_observation \<Rightarrow> bool" where
  "crosses s price ob = (case s of Buy \<Rightarrow> price \<ge> mo_best_ask ob | Sell \<Rightarrow> price \<le> mo_best_bid ob)"

definition observation_invalid ::
    "parent_order \<Rightarrow> passive_policy \<Rightarrow> nat option \<Rightarrow> market_observation \<Rightarrow> bool" where
  "observation_invalid p policy prior ob \<longleftrightarrow>
     mo_best_bid ob \<le> ZERO \<or> mo_best_ask ob \<le> mo_best_bid ob
     \<or> scaled (mo_best_bid ob) smod scaled (pp_tick_size policy) \<noteq> 0
     \<or> scaled (mo_best_ask ob) smod scaled (pp_tick_size policy) \<noteq> 0
     \<or> (prior = None \<and> crosses (po_side p) (pp_initial_limit_price policy) ob)
     \<or> (case prior of None \<Rightarrow> False | Some t \<Rightarrow> mo_observed_after_seconds ob \<le> t)"

definition passive_candidate :: "parent_order \<Rightarrow> passive_policy \<Rightarrow> market_observation \<Rightarrow> decimal" where
  "passive_candidate p policy ob =
     (let candidate = (case po_side p of Buy \<Rightarrow> mo_best_bid ob | Sell \<Rightarrow> mo_best_ask ob) in
      case po_limit_price p of None \<Rightarrow> candidate
      | Some hard_limit \<Rightarrow>
          let tick = scaled (pp_tick_size policy);
              below = i128_wrap (scaled hard_limit - scaled hard_limit mod \<bar>tick\<bar>) in
          (case po_side p of
             Buy \<Rightarrow> min candidate (Decimal below)
           | Sell \<Rightarrow> max candidate (Decimal
               (if below = scaled hard_limit then below else i128_wrap (below + tick)))))"

definition more_aggressive :: "side \<Rightarrow> decimal \<Rightarrow> decimal \<Rightarrow> bool" where
  "more_aggressive s candidate current =
     (case s of Buy \<Rightarrow> candidate > current | Sell \<Rightarrow> candidate < current)"

definition too_early :: "passive_policy \<Rightarrow> market_observation \<Rightarrow> passive_state \<Rightarrow> bool result" where
  "too_early policy ob st =
     (if length (ws_replacements st) \<ge> pp_maximum_replacements policy then Ok True
      else and_then (ok_or (u64_checked (ws_last_replace_at st + pp_minimum_replace_interval_seconds policy))
          ''passive schedule overflowed'') (\<lambda>earliest.
        Ok (mo_observed_after_seconds ob < earliest)))"

definition too_far :: "passive_policy \<Rightarrow> decimal \<Rightarrow> bool result" where
  "too_far policy candidate =
     and_then (price_deviation_bps (pp_initial_limit_price policy) candidate) (\<lambda>deviation.
     and_then (from_integer (int (pp_maximum_chase_bps policy))) (\<lambda>maximum.
     Ok (deviation > maximum)))"

definition replace_child ::
    "parent_order \<Rightarrow> market_observation \<Rightarrow> decimal \<Rightarrow> passive_state \<Rightarrow> passive_state" where
  "replace_child p ob candidate st =
     (let replacement_id = passive_id p (length (ws_replacements st) + 1) in
      st\<lparr>ws_current_id := replacement_id, ws_current_price := candidate,
         ws_last_replace_at := mo_observed_after_seconds ob,
         ws_replacements := ws_replacements st @
           [\<lparr>cr_cancel_child_order_id = ws_current_id st,
             cr_replacement = passive_child p replacement_id (mo_observed_after_seconds ob) candidate\<rparr>]\<rparr>)"

definition passive_step ::
    "parent_order \<Rightarrow> passive_policy \<Rightarrow> market_observation \<Rightarrow> passive_state \<Rightarrow> passive_state result" where
  "passive_step p policy ob st =
     (if observation_invalid p policy (ws_prior_observation st) ob
      then Err ''invalid passive market observation''
      else let st1 = st\<lparr>ws_prior_observation := Some (mo_observed_after_seconds ob)\<rparr> in
        and_then (too_early policy ob st1) (\<lambda>early.
        if early then Ok st1
        else let candidate = passive_candidate p policy ob in
          if \<not> (more_aggressive (po_side p) candidate (ws_current_price st1)
                \<and> \<not> crosses (po_side p) candidate ob)
          then Ok st1
          else and_then (too_far policy candidate) (\<lambda>far.
            Ok (if far then st1 else replace_child p ob candidate st1))))"

definition plan_passive_repricing ::
    "parent_order \<Rightarrow> passive_policy \<Rightarrow> market_observation list \<Rightarrow> passive_plan result" where
  "plan_passive_repricing p policy observations =
     and_then (parent_validate p) (\<lambda>_.
     if passive_policy_invalid policy observations then Err ''invalid passive repricing policy''
     else if outside_limit (po_side p) (pp_initial_limit_price policy) (po_limit_price p)
     then Err ''initial passive price violates the parent limit''
     else
       let initial = passive_child p (passive_id p 0) 0 (pp_initial_limit_price policy) in
       and_then (try_fold (passive_step p policy) observations
         \<lparr>ws_current_id = ci_child_order_id initial, ws_current_price = pp_initial_limit_price policy,
          ws_prior_observation = None, ws_last_replace_at = 0, ws_replacements = []\<rparr>) (\<lambda>st.
       Ok \<lparr>pr_initial = initial, pr_replacements = ws_replacements st\<rparr>))"

section \<open>Candidates\<close>

definition on_grid :: "passive_policy \<Rightarrow> decimal \<Rightarrow> bool" where
  "on_grid policy price \<longleftrightarrow> scaled (pp_tick_size policy) dvd scaled price"

lemma floor_to_grid:
  assumes "0 < (k::int)" "in_i128 x" "0 \<le> x"
  shows "i128_wrap (x - x mod k) = x - x mod k" "k dvd x - x mod k" "x - x mod k \<le> x"
    "x < x - x mod k + k"
proof -
  have m: "0 \<le> x mod k" "x mod k < k" "x mod k \<le> x"
    using assms by (simp_all add: zmod_le_nonneg_dividend)
  with assms(2,3) have "in_i128 (x - x mod k)" by (auto simp: in_i128_def)
  then show "i128_wrap (x - x mod k) = x - x mod k" by simp
  show "k dvd x - x mod k" by simp
  from m show "x - x mod k \<le> x" "x < x - x mod k + k" by simp_all
qed

lemma passive_candidate_sound:
  assumes "on_grid policy (pp_initial_limit_price policy)" "0 < scaled (pp_tick_size policy)"
    "on_grid policy (mo_best_bid ob)" "on_grid policy (mo_best_ask ob)"
    "\<not> outside_limit (po_side p) (pp_initial_limit_price policy) (po_limit_price p)"
    "dec_ok (pp_initial_limit_price policy)" "\<forall>h. po_limit_price p = Some h \<longrightarrow> ZERO < h \<and> dec_ok h"
  shows "on_grid policy (passive_candidate p policy ob)"
    and "\<not> outside_limit (po_side p) (passive_candidate p policy ob) (po_limit_price p)"
proof -
  let ?k = "scaled (pp_tick_size policy)" and ?i = "scaled (pp_initial_limit_price policy)"
  have "on_grid policy (passive_candidate p policy ob)
    \<and> \<not> outside_limit (po_side p) (passive_candidate p policy ob) (po_limit_price p)"
  proof (cases "po_limit_price p")
    case None
    with assms show ?thesis
      by (cases "po_side p") (simp_all add: passive_candidate_def outside_limit_def)
  next
    case (Some h)
    let ?h = "scaled h" and ?b = "scaled h - scaled h mod scaled (pp_tick_size policy)"
    from Some assms(7) have h: "0 \<le> ?h" "in_i128 ?h" by (auto simp: decimal_cmp dec_ok_def)
    note grid = floor_to_grid [OF assms(2) h(2,1)]
    show ?thesis
    proof (cases "po_side p")
      case Buy
      with Some assms(2,3) grid show ?thesis
        by (auto simp: passive_candidate_def outside_limit_def on_grid_def Let_def decimal_cmp min_def)
    next
      case Sell
      have up: "?b \<noteq> ?h \<Longrightarrow> i128_wrap (?b + ?k) = ?b + ?k"
      proof -
        assume "?b \<noteq> ?h"
        with grid have "?b < ?h" by simp
        with Sell Some assms(5) have "?b < ?i" by (simp add: outside_limit_def decimal_cmp)
        moreover have "?k dvd ?i - ?b" using assms(1) grid(2) by (simp add: on_grid_def)
        ultimately have "?b + ?k \<le> ?i" by (auto dest: zdvd_imp_le)
        moreover have "0 \<le> ?b" using grid(4) h grid(1) assms(2) by (simp add: zmod_le_nonneg_dividend)
        ultimately show ?thesis
          using assms(2,6) by (intro i128_wrap_id) (auto simp: in_i128_def dec_ok_def)
      qed
      with Sell Some assms(2,4) grid show ?thesis
        by (auto simp: passive_candidate_def outside_limit_def on_grid_def Let_def decimal_cmp max_def)
    qed
  qed
  then show "on_grid policy (passive_candidate p policy ob)"
    "\<not> outside_limit (po_side p) (passive_candidate p policy ob) (po_limit_price p)" by simp_all
qed

section \<open>The replacement chain\<close>

text \<open>What one replacement promises about the child it cancels.\<close>

definition replaces ::
    "parent_order \<Rightarrow> passive_policy \<Rightarrow> market_observation list \<Rightarrow> child_instruction \<Rightarrow> cancel_replace \<Rightarrow> bool" where
  "replaces p policy obs working r \<longleftrightarrow>
     cr_cancel_child_order_id r = ci_child_order_id working
     \<and> ci_scheduled_after_seconds working + pp_minimum_replace_interval_seconds policy
         \<le> ci_scheduled_after_seconds (cr_replacement r)
     \<and> ci_quantity (cr_replacement r) = po_quantity p \<and> ci_kind (cr_replacement r) = ChildLimit
     \<and> (\<exists>old new. ci_limit_price working = Some old \<and> ci_limit_price (cr_replacement r) = Some new
         \<and> more_aggressive (po_side p) new old \<and> on_grid policy new
         \<and> \<not> outside_limit (po_side p) new (po_limit_price p) \<and> too_far policy new = Ok False
         \<and> (\<exists>ob\<in>set obs. mo_observed_after_seconds ob = ci_scheduled_after_seconds (cr_replacement r)
              \<and> \<not> crosses (po_side p) new ob))"

fun replacement_chain ::
    "(child_instruction \<Rightarrow> cancel_replace \<Rightarrow> bool) \<Rightarrow> child_instruction \<Rightarrow> cancel_replace list \<Rightarrow> bool" where
  "replacement_chain R working [] = True"
| "replacement_chain R working (r # rs) = (R working r \<and> replacement_chain R (cr_replacement r) rs)"

definition working_child :: "child_instruction \<Rightarrow> cancel_replace list \<Rightarrow> child_instruction" where
  "working_child initial rs = last (initial # map cr_replacement rs)"

lemma working_child_simps [simp]:
  "working_child initial [] = initial"
  "working_child initial (rs @ [r]) = cr_replacement r"
  "working_child initial (r # rs) = working_child (cr_replacement r) rs"
  by (simp_all add: working_child_def)

lemma replacement_chain_snoc:
  "replacement_chain R initial (rs @ [r]) \<longleftrightarrow>
    replacement_chain R initial rs \<and> R (working_child initial rs) r"
  by (induction rs arbitrary: initial) auto

definition passive_inv ::
    "parent_order \<Rightarrow> passive_policy \<Rightarrow> market_observation list \<Rightarrow> child_instruction \<Rightarrow> passive_state \<Rightarrow> bool" where
  "passive_inv p policy obs initial st \<longleftrightarrow>
     ci_child_order_id (working_child initial (ws_replacements st)) = ws_current_id st
     \<and> ci_limit_price (working_child initial (ws_replacements st)) = Some (ws_current_price st)
     \<and> ci_scheduled_after_seconds (working_child initial (ws_replacements st)) = ws_last_replace_at st
     \<and> length (ws_replacements st) \<le> pp_maximum_replacements policy
     \<and> replacement_chain (replaces p policy obs) initial (ws_replacements st)"

lemma passive_step_cases:
  assumes "passive_step p policy ob st = Inr st'"
  obtains (kept) "\<not> observation_invalid p policy (ws_prior_observation st) ob"
      "st' = st\<lparr>ws_prior_observation := Some (mo_observed_after_seconds ob)\<rparr>"
  | (replaced) "\<not> observation_invalid p policy (ws_prior_observation st) ob"
      "st' = replace_child p ob (passive_candidate p policy ob)
         (st\<lparr>ws_prior_observation := Some (mo_observed_after_seconds ob)\<rparr>)"
      "length (ws_replacements st) < pp_maximum_replacements policy"
      "ws_last_replace_at st + pp_minimum_replace_interval_seconds policy \<le> mo_observed_after_seconds ob"
      "more_aggressive (po_side p) (passive_candidate p policy ob) (ws_current_price st)"
      "\<not> crosses (po_side p) (passive_candidate p policy ob) ob"
      "too_far policy (passive_candidate p policy ob) = Inr False"
  using assms
  by (auto simp: passive_step_def Let_def and_then_eq_Inr too_early_def ok_or_eq_Ok u64_checked_eq_Some
      not_le not_less split: if_splits)

lemma passive_step_inv:
  assumes "passive_step p policy ob st = Inr st'" "passive_inv p policy obs initial st" "ob \<in> set obs"
    "on_grid policy (pp_initial_limit_price policy)" "0 < scaled (pp_tick_size policy)"
    "\<not> outside_limit (po_side p) (pp_initial_limit_price policy) (po_limit_price p)"
    "dec_ok (pp_initial_limit_price policy)" "\<forall>h. po_limit_price p = Some h \<longrightarrow> ZERO < h \<and> dec_ok h"
  shows "passive_inv p policy obs initial st'"
  using assms(1)
proof (cases rule: passive_step_cases)
  case kept
  with assms(2) show ?thesis by (simp add: passive_inv_def)
next
  case replaced
  from replaced(1) have "on_grid policy (mo_best_bid ob)" "on_grid policy (mo_best_ask ob)"
    by (simp_all add: observation_invalid_def on_grid_def smod_eq_0_iff_dvd)
  note sound = passive_candidate_sound [OF assms(4,5) this assms(6-8)]
  have "replaces p policy obs (working_child initial (ws_replacements st))
      \<lparr>cr_cancel_child_order_id = ws_current_id st, cr_replacement = passive_child p
         (passive_id p (Suc (length (ws_replacements st)))) (mo_observed_after_seconds ob)
         (passive_candidate p policy ob)\<rparr>"
    using assms(2,3) replaced sound by (auto simp: passive_inv_def replaces_def passive_child_def)
  then show ?thesis
    using assms(2) replaced(2,3)
    by (simp add: passive_inv_def replace_child_def Let_def replacement_chain_snoc passive_child_def)
qed

section \<open>Properties\<close>

text \<open>C28: A passive repricing plan is one chain of cancel-and-replace steps on a single live child:
  it starts inside the parent's limit without crossing the first observed spread; every
  replacement cancels the child working before it, keeps the full quantity, comes at least the
  minimum interval later, improves on the old price, sits on the tick grid, never crosses the spread
  it was computed from, never leaves the parent's hard limit, and stays within the permitted
  chase; and there are no more of them than the policy allows.\<close>

theorem passive_plan_safe:
  assumes "plan_passive_repricing p policy observations = Ok plan"
    and "dec_ok (pp_initial_limit_price policy)" "\<forall>h. po_limit_price p = Some h \<longrightarrow> dec_ok h"
  shows "ci_limit_price (pr_initial plan) = Some (pp_initial_limit_price policy)
    \<and> ci_quantity (pr_initial plan) = po_quantity p
    \<and> \<not> outside_limit (po_side p) (pp_initial_limit_price policy) (po_limit_price p)
    \<and> \<not> crosses (po_side p) (pp_initial_limit_price policy) (hd observations)
    \<and> length (pr_replacements plan) \<le> pp_maximum_replacements policy
    \<and> replacement_chain (replaces p policy observations) (pr_initial plan) (pr_replacements plan)"
proof -
  let ?initial = "passive_child p (passive_id p 0) 0 (pp_initial_limit_price policy)"
  let ?start = "\<lparr>ws_current_id = ci_child_order_id ?initial, ws_current_price = pp_initial_limit_price policy,
          ws_prior_observation = None, ws_last_replace_at = 0, ws_replacements = []\<rparr>"
  from assms(1) obtain st where valid: "parent_validate p = Inr ()"
    and policy: "\<not> passive_policy_invalid policy observations"
    and inside: "\<not> outside_limit (po_side p) (pp_initial_limit_price policy) (po_limit_price p)"
    and loop: "try_fold (passive_step p policy) observations ?start = Inr st"
    and plan: "plan = \<lparr>pr_initial = ?initial, pr_replacements = ws_replacements st\<rparr>"
    by (auto simp: plan_passive_repricing_def and_then_eq_Inr Let_def split: if_splits)
  from policy have grid: "on_grid policy (pp_initial_limit_price policy)" "0 < scaled (pp_tick_size policy)"
    and ne: "observations \<noteq> []"
    by (auto simp: passive_policy_invalid_def on_grid_def smod_eq_0_iff_dvd decimal_cmp)
  from valid assms(3) have hard: "\<forall>h. po_limit_price p = Some h \<longrightarrow> ZERO < h \<and> dec_ok h"
    by (simp add: parent_validate_eq_Ok)
  have "passive_inv p policy observations ?initial ?start"
    by (simp add: passive_inv_def passive_child_def)
  then have inv: "passive_inv p policy observations ?initial st"
    by (rule try_fold_invariant [OF loop])
      (rule passive_step_inv [OF _ _ _ grid inside assms(2) hard])
  from loop ne obtain st1 where "passive_step p policy (hd observations) ?start = Inr st1"
    by (cases observations) (auto simp: and_then_eq_Inr)
  then have "\<not> crosses (po_side p) (pp_initial_limit_price policy) (hd observations)"
    by (auto simp: passive_step_def observation_invalid_def split: if_splits)
  with inv inside plan show ?thesis by (simp add: passive_inv_def passive_child_def)
qed

definition sample_passive_policy :: passive_policy where
  "sample_passive_policy = \<lparr>pp_initial_limit_price = Decimal 9900000000, pp_tick_size = Decimal 1000000,
     pp_maximum_chase_bps = 200, pp_maximum_replacements = 5, pp_minimum_replace_interval_seconds = 10\<rparr>"

definition sample_observations :: "market_observation list" where
  "sample_observations = [\<lparr>mo_observed_after_seconds = 20, mo_best_bid = Decimal 9950000000,
     mo_best_ask = Decimal 9960000000\<rparr>]"

lemma sample_passive_plan: "\<exists>plan. plan_passive_repricing sample_parent sample_passive_policy sample_observations
    = Ok plan \<and> length (pr_replacements plan) = 1"
  by (simp add: plan_passive_repricing_def sample_parent_valid)
    (simp add: sample_parent_def sample_passive_policy_def sample_observations_def
      passive_policy_invalid_def outside_limit_def passive_step_def observation_invalid_def crosses_def
      too_early_def u64_checked_def passive_candidate_def more_aggressive_def too_far_def
      price_deviation_bps_def plan_arith smod_nonneg_eq_mod replace_child_def Let_def)

theorem passive_plan_safe_witness:
  "\<exists>plan. plan_passive_repricing sample_parent sample_passive_policy sample_observations = Ok plan
    \<and> length (pr_replacements plan) = 1
    \<and> replacement_chain (replaces sample_parent sample_passive_policy sample_observations)
        (pr_initial plan) (pr_replacements plan)"
proof -
  obtain plan where plan: "plan_passive_repricing sample_parent sample_passive_policy sample_observations
    = Ok plan" "length (pr_replacements plan) = 1" using sample_passive_plan by blast
  have "dec_ok (pp_initial_limit_price sample_passive_policy)" "po_limit_price sample_parent = None"
    by (simp_all add: sample_passive_policy_def sample_parent_def dec_ok_def in_i128_def)
  with passive_plan_safe [OF plan(1)] plan show ?thesis by simp
qed

end
