(* ===== verification/ExecTactics.thy ===== *)
theory ExecTactics
  imports ExecSlices OrderedMap
begin

text \<open>
  Component: protective orders, baskets and option combinations
  (\<^verbatim>\<open>core/execution/src/protective.rs\<close>, \<^verbatim>\<open>basket.rs\<close>, \<^verbatim>\<open>combo.rs\<close>). The trailing stop is a
  small state machine with \<^verbatim>\<open>&mut self\<close>; the model returns the state after the call, which for
  an error is the state the failing assignment order leaves behind.
\<close>

section \<open>Bracket children\<close>

definition bracket_children ::
    "parent_order \<Rightarrow> decimal \<Rightarrow> decimal \<Rightarrow> decimal option \<Rightarrow> child_instruction list result" where
  "bracket_children p take_profit_price stop_price stop_limit_price =
     and_then (parent_validate p) (\<lambda>_.
     if take_profit_price \<le> ZERO \<or> stop_price \<le> ZERO \<or> some_non_positive stop_limit_price
     then Err ''invalid bracket prices''
     else Ok
       [\<lparr>ci_child_order_id = po_parent_order_id p @ ''.bracket.profit'', ci_scheduled_after_seconds = 0,
         ci_venue = None, ci_quantity = po_quantity p, ci_kind = ChildLimit,
         ci_limit_price = Some take_profit_price, ci_stop_price = None\<rparr>,
        \<lparr>ci_child_order_id = po_parent_order_id p @ ''.bracket.stop'', ci_scheduled_after_seconds = 0,
         ci_venue = None, ci_quantity = po_quantity p,
         ci_kind = (if stop_limit_price \<noteq> None then ChildStopLimit else ChildStop),
         ci_limit_price = stop_limit_price, ci_stop_price = Some stop_price\<rparr>])"

section \<open>Trailing stops\<close>

record trailing_stop =
  tr_side :: side
  tr_trail_bps :: nat
  tr_favorable_reference :: decimal
  tr_stop_price :: decimal

definition trailing_price :: "side \<Rightarrow> nat \<Rightarrow> decimal \<Rightarrow> decimal result" where
  "trailing_price s trail_bps reference =
     and_then (from_integer (int trail_bps)) (\<lambda>bps.
     and_then (checked_mul reference bps) (\<lambda>product.
     and_then (from_integer 10000) (\<lambda>ten_thousand.
     and_then (checked_div product ten_thousand) (\<lambda>distance.
     case s of Sell \<Rightarrow> checked_sub reference distance | Buy \<Rightarrow> checked_add reference distance))))"

definition trailing_stop_new :: "side \<Rightarrow> nat \<Rightarrow> decimal \<Rightarrow> trailing_stop result" where
  "trailing_stop_new s trail_bps initial_mark =
     (if trail_bps < 1 \<or> trail_bps \<ge> 10000 \<or> initial_mark \<le> ZERO
      then Err ''invalid trailing-stop input''
      else and_then (trailing_price s trail_bps initial_mark) (\<lambda>stop_price.
        Ok \<lparr>tr_side = s, tr_trail_bps = trail_bps, tr_favorable_reference = initial_mark,
          tr_stop_price = stop_price\<rparr>))"

definition trailing_stop_update :: "trailing_stop \<Rightarrow> decimal \<Rightarrow> decimal result \<times> trailing_stop" where
  "trailing_stop_update t mark =
     (if mark \<le> ZERO then (Err ''trailing-stop mark must be positive'', t)
      else if (case tr_side t of Sell \<Rightarrow> mark > tr_favorable_reference t
               | Buy \<Rightarrow> mark < tr_favorable_reference t)
      then let t1 = t\<lparr>tr_favorable_reference := mark\<rparr> in
        (case trailing_price (tr_side t1) (tr_trail_bps t1) mark of
           Inl e \<Rightarrow> (Inl e, t1)
         | Inr stop_price \<Rightarrow> (Ok stop_price, t1\<lparr>tr_stop_price := stop_price\<rparr>))
      else (Ok (tr_stop_price t), t))"

lemma trailing_price_exact:
  assumes "trailing_price s b r = Inr stop" "0 \<le> scaled r"
  shows "scaled stop = scaled r - side_sign s * - (scaled r * int b div 10000)"
proof -
  from assms(1) obtain bps pr d where bps: "from_integer (int b) = Inr bps"
    and pr: "checked_mul r bps = Inr pr" and d: "checked_div pr (Decimal 1000000000000) = Inr d"
    and stop: "(case s of Sell \<Rightarrow> checked_sub r d | Buy \<Rightarrow> checked_add r d) = Inr stop"
    by (auto simp: trailing_price_def and_then_eq_Inr)
  have "scaled pr = scaled r * int b" by (rule checked_mul_integer [OF bps pr])
  with checked_div_pos [OF d] assms(2) have "scaled d = scaled r * int b * 100000000 div (10000 * 100000000)"
    by (simp add: DECIMAL_SCALE_def)
  also have "\<dots> = scaled r * int b div 10000" by (simp only: div_mult_mult2)
  finally show ?thesis using stop by (cases s) (auto simp: result_simps)
qed

lemma trail_step:
  assumes "(x::int) \<le> y" "0 \<le> b" "b \<le> 10000"
  shows "y * b div 10000 \<le> x * b div 10000 + (y - x)" "x * b div 10000 \<le> y * b div 10000"
proof -
  have "(y - x) * b \<le> (y - x) * 10000" using assms by (intro mult_left_mono) auto
  then have "y * b \<le> x * b + (y - x) * 10000" by (simp add: algebra_simps)
  then have "y * b div 10000 \<le> (x * b + (y - x) * 10000) div 10000" by (rule zdiv_mono1) simp
  then show "y * b div 10000 \<le> x * b div 10000 + (y - x)" by simp
  have "x * b \<le> y * b" using assms by (intro mult_right_mono)
  then show "x * b div 10000 \<le> y * b div 10000" by (rule zdiv_mono1) simp
qed

text \<open>A stop that has not fallen behind: its price is the trail of its reference.\<close>

definition trailing_wf :: "trailing_stop \<Rightarrow> bool" where
  "trailing_wf t \<longleftrightarrow> tr_trail_bps t < 10000 \<and> 0 < scaled (tr_favorable_reference t)
     \<and> trailing_price (tr_side t) (tr_trail_bps t) (tr_favorable_reference t) = Ok (tr_stop_price t)"

definition tighter :: "side \<Rightarrow> decimal \<Rightarrow> decimal \<Rightarrow> bool" where
  "tighter s stop' stop \<longleftrightarrow> (case s of Sell \<Rightarrow> stop \<le> stop' | Buy \<Rightarrow> stop' \<le> stop)"

lemma trailing_price_tighter:
  assumes "trailing_price s b r = Inr x" "trailing_price s b r' = Inr x'" "b < 10000"
    "0 < scaled r" "0 < scaled r'" "case s of Sell \<Rightarrow> r \<le> r' | Buy \<Rightarrow> r' \<le> r"
  shows "tighter s x' x"
  using trailing_price_exact [OF assms(1)] trailing_price_exact [OF assms(2)] assms(3-6)
    trail_step [of "scaled r" "scaled r'" "int b"] trail_step [of "scaled r'" "scaled r" "int b"]
  by (cases s) (auto simp: tighter_def decimal_cmp)

lemma update_Ok:
  assumes "trailing_stop_update t mark = (Ok stop, t')" "trailing_wf t"
  shows "trailing_wf t' \<and> stop = tr_stop_price t' \<and> tighter (tr_side t) (tr_stop_price t') (tr_stop_price t)
    \<and> tr_side t' = tr_side t \<and> tr_trail_bps t' = tr_trail_bps t
    \<and> (case tr_side t of Sell \<Rightarrow> mark \<le> tr_favorable_reference t' | Buy \<Rightarrow> tr_favorable_reference t' \<le> mark)"
proof (cases "case tr_side t of Sell \<Rightarrow> mark > tr_favorable_reference t | Buy \<Rightarrow> mark < tr_favorable_reference t")
  case False
  with assms have "t' = t" "stop = tr_stop_price t"
    by (auto simp: trailing_stop_update_def split: if_splits)
  with assms False show ?thesis by (cases "tr_side t") (auto simp: tighter_def)
next
  case True
  with assms(1) have t': "trailing_price (tr_side t) (tr_trail_bps t) mark = Inr stop"
    "t' = t\<lparr>tr_favorable_reference := mark, tr_stop_price := stop\<rparr>" "0 < scaled mark"
    by (auto simp: trailing_stop_update_def Let_def decimal_cmp not_le split: if_splits sum.splits)
  from assms(2) have wf: "tr_trail_bps t < 10000" "0 < scaled (tr_favorable_reference t)"
    "trailing_price (tr_side t) (tr_trail_bps t) (tr_favorable_reference t) = Inr (tr_stop_price t)"
    by (simp_all add: trailing_wf_def)
  have "tighter (tr_side t) stop (tr_stop_price t)"
    by (rule trailing_price_tighter [OF wf(3) t'(1) wf(1,2) t'(3)]) (use True in \<open>cases "tr_side t"; simp\<close>)
  with t' wf show ?thesis by (cases "tr_side t") (simp_all add: trailing_wf_def)
qed

section \<open>Baskets\<close>

record basket_leg =
  bl_instrument_id :: string
  bl_side :: side
  bl_weight_bps :: nat
  bl_reference_price :: decimal

definition check_basket_leg :: "basket_leg \<Rightarrow> nat \<Rightarrow> nat result" where
  "check_basket_leg leg weight_sum =
     and_then (validate_canonical_id ''basket instrument_id'' (bl_instrument_id leg)) (\<lambda>_.
     if bl_weight_bps leg = 0 \<or> bl_reference_price leg \<le> ZERO then Err ''invalid basket leg''
     else ok_or (u32_checked (weight_sum + bl_weight_bps leg)) ''basket weight overflowed'')"

definition basket_parent ::
    "string \<Rightarrow> string \<Rightarrow> decimal \<Rightarrow> nat \<times> basket_leg \<Rightarrow> parent_order result" where
  "basket_parent basket_id account_id total_notional il =
     and_then (from_integer (int (bl_weight_bps (snd il)))) (\<lambda>weight.
     and_then (checked_mul total_notional weight) (\<lambda>weighted.
     and_then (from_integer 10000) (\<lambda>ten_thousand.
     and_then (checked_div weighted ten_thousand) (\<lambda>leg_notional.
     and_then (checked_div leg_notional (bl_reference_price (snd il))) (\<lambda>quantity.
     let parent = \<lparr>po_parent_order_id = basket_id @ ''.leg.'' @ zero_padded 4 (fst il + 1),
           po_account_id = account_id, po_instrument_id = bl_instrument_id (snd il),
           po_side = bl_side (snd il), po_quantity = quantity, po_limit_price = None\<rparr> in
     and_then (parent_validate parent) (\<lambda>_. Ok parent))))))"

definition plan_basket ::
    "string \<Rightarrow> string \<Rightarrow> decimal \<Rightarrow> basket_leg list \<Rightarrow> parent_order list result" where
  "plan_basket basket_id account_id total_notional legs =
     and_then (validate_canonical_id ''basket_id'' basket_id) (\<lambda>_.
     and_then (validate_canonical_id ''basket account_id'' account_id) (\<lambda>_.
     if total_notional \<le> ZERO \<or> legs = [] \<or> length legs > 1000 then Err ''invalid basket request''
     else and_then (try_fold check_basket_leg legs 0) (\<lambda>weight_sum.
       if weight_sum \<noteq> 10000 then Err ''basket weights must sum to 10000 basis points''
       else try_map (basket_parent basket_id account_id total_notional) (enumerate0 legs))))"

lemma check_basket_legs_sum:
  "try_fold check_basket_leg legs s = Inr t \<Longrightarrow>
    int t = int s + (\<Sum>l\<leftarrow>legs. int (bl_weight_bps l)) \<and> (\<forall>l\<in>set legs. ZERO < bl_reference_price l)"
  by (induction legs arbitrary: s)
    (fastforce simp: and_then_eq_Inr check_basket_leg_def result_simps not_le split: if_splits)+

lemma basket_parent_Ok:
  assumes "basket_parent b a n il = Inr p" "0 < scaled n" "ZERO < bl_reference_price (snd il)"
  shows "parent_validate p = Inr () \<and> po_side p = bl_side (snd il)
    \<and> po_instrument_id p = bl_instrument_id (snd il)
    \<and> scaled (po_quantity p) * scaled (bl_reference_price (snd il)) * 10000
        \<le> scaled n * int (bl_weight_bps (snd il)) * DECIMAL_SCALE"
proof -
  let ?w = "int (bl_weight_bps (snd il))" and ?price = "scaled (bl_reference_price (snd il))"
  from assms(1) obtain w v l where w: "from_integer ?w = Inr w" and v: "checked_mul n w = Inr v"
    and l: "checked_div v (Decimal 1000000000000) = Inr l"
    and q: "checked_div l (bl_reference_price (snd il)) = Inr (po_quantity p)"
    and p: "parent_validate p = Inr ()" "po_side p = bl_side (snd il)"
      "po_instrument_id p = bl_instrument_id (snd il)"
    by (auto simp: basket_parent_def and_then_eq_Inr Let_def)
  have v': "scaled v = scaled n * ?w" by (rule checked_mul_integer [OF w v])
  have nonneg: "0 \<le> scaled n * ?w" using assms(2) by simp
  have l': "scaled l = scaled n * ?w * DECIMAL_SCALE div 1000000000000"
    using checked_div_pos [OF l] v' nonneg by simp
  then have l10: "scaled l * 10000 \<le> scaled n * ?w"
    unfolding DECIMAL_SCALE_def using nonneg by linarith
  have "0 \<le> scaled l" using checked_div_sign [OF l] v' nonneg by simp
  then have "scaled (po_quantity p) = scaled l * DECIMAL_SCALE div ?price"
    using checked_div_pos [OF q] assms(3) by (simp add: decimal_cmp)
  then have "scaled (po_quantity p) * ?price \<le> scaled l * DECIMAL_SCALE"
    using assms(3) by (simp add: minus_mod_eq_div_mult [symmetric] decimal_cmp)
  moreover have "scaled l * DECIMAL_SCALE * 10000 \<le> scaled n * ?w * DECIMAL_SCALE"
    using l10 by (simp add: DECIMAL_SCALE_def)
  ultimately show ?thesis using p by linarith
qed

section \<open>Option combinations\<close>

record option_combo_leg =
  ol_instrument_id :: string
  ol_side :: side
  ol_ratio :: nat
  ol_limit_price :: decimal

record combo_leg_instruction =
  li_child_order_id :: string
  li_instrument_id :: string
  li_side :: side
  li_quantity :: decimal
  li_limit_price :: decimal

record option_combo_plan =
  op_combo_id :: string
  op_combo_quantity :: decimal
  op_protected_net_price :: decimal
  op_legs :: "combo_leg_instruction list"

definition plan_combo_leg ::
    "string \<Rightarrow> decimal \<Rightarrow> nat \<times> option_combo_leg
      \<Rightarrow> string btree_set \<times> decimal \<times> combo_leg_instruction list
      \<Rightarrow> (string btree_set \<times> decimal \<times> combo_leg_instruction list) result" where
  "plan_combo_leg combo_id combo_quantity il st =
     (case (il, st) of ((index, leg), (instruments, net, instructions)) \<Rightarrow>
       and_then (validate_canonical_id ''combo instrument_id'' (ol_instrument_id leg)) (\<lambda>_.
       if bs_contains (ol_instrument_id leg) instruments \<or> ol_ratio leg = 0 \<or> ol_ratio leg > 10000
          \<or> ol_limit_price leg \<le> ZERO
       then Err ''invalid option combination leg''
       else and_then (from_integer (int (ol_ratio leg))) (\<lambda>ratio.
         and_then (checked_mul (ol_limit_price leg) ratio) (\<lambda>leg_net.
         and_then (signed_add (ol_side leg) net leg_net) (\<lambda>net'.
         and_then (checked_mul combo_quantity ratio) (\<lambda>quantity.
         Ok (bs_insert (ol_instrument_id leg) instruments, net', instructions @
           [\<lparr>li_child_order_id = combo_id @ ''.leg.'' @ zero_padded 4 (index + 1),
             li_instrument_id = ol_instrument_id leg, li_side = ol_side leg,
             li_quantity = quantity, li_limit_price = ol_limit_price leg\<rparr>])))))))"

definition plan_option_combo ::
    "string \<Rightarrow> decimal \<Rightarrow> combo_price_limit \<Rightarrow> option_combo_leg list \<Rightarrow> option_combo_plan result" where
  "plan_option_combo combo_id combo_quantity price_limit legs =
     and_then (validate_canonical_id ''combo_id'' combo_id) (\<lambda>_.
     if combo_quantity \<le> ZERO \<or> \<not> (2 \<le> length legs \<and> length legs \<le> 16)
     then Err ''invalid option combination''
     else and_then (try_fold (plan_combo_leg combo_id combo_quantity) (enumerate0 legs) ([], ZERO, []))
       (\<lambda>(_, net, instructions).
       and_then (check_net_price price_limit net) (\<lambda>_.
       Ok \<lparr>op_combo_id = combo_id, op_combo_quantity = combo_quantity,
         op_protected_net_price = net, op_legs = instructions\<rparr>)))"

text \<open>The planner's leg for a leg of the risk gate's intent.\<close>

definition option_leg :: "combo_leg \<Rightarrow> option_combo_leg" where
  "option_leg leg = \<lparr>ol_instrument_id = cl_instrument_id leg, ol_side = cl_side leg,
     ol_ratio = cl_ratio leg, ol_limit_price = cl_limit_price leg\<rparr>"

definition leg_matches :: "combo_intent \<Rightarrow> combo_leg \<Rightarrow> combo_leg_instruction \<Rightarrow> bool" where
  "leg_matches c leg instruction \<longleftrightarrow> li_instrument_id instruction = cl_instrument_id leg
     \<and> li_side instruction = cl_side leg \<and> li_limit_price instruction = cl_limit_price leg
     \<and> combo_leg_quantity c leg = Ok (li_quantity instruction)"

lemma plan_combo_legs:
  assumes "try_fold (\<lambda>leg net. and_then (combo_leg_net leg) (signed_add (cl_side leg) net)) legs net = Inr net'"
    and "\<forall>leg\<in>set legs. combo_ratio_ok (cl_ratio leg) \<and> ZERO < cl_limit_price leg
      \<and> canonical_id (cl_instrument_id leg) \<and> is_ok (combo_leg_quantity c leg)"
    and "distinct (map cl_instrument_id legs)" "set seen \<inter> set (map cl_instrument_id legs) = {}"
  shows "\<exists>seen' new. try_fold (plan_combo_leg combo_id (co_combo_quantity c))
      (zip [k..<k + length legs] (map option_leg legs)) (seen, net, acc) = Inr (seen', net', acc @ new)
    \<and> list_all2 (leg_matches c) legs new"
  using assms
proof (induction legs arbitrary: net seen acc k)
  case (Cons leg legs)
  from Cons.prems(1) obtain leg_net mid where leg_net: "combo_leg_net leg = Inr leg_net"
    and mid: "signed_add (cl_side leg) net leg_net = Inr mid"
    and rest: "try_fold (\<lambda>leg net. and_then (combo_leg_net leg) (signed_add (cl_side leg) net)) legs mid = Inr net'"
    by (auto simp: and_then_eq_Inr)
  from Cons.prems(2) obtain q where q: "combo_leg_quantity c leg = Inr q" by (auto simp: is_ok_iff)
  let ?instr = "\<lparr>li_child_order_id = combo_id @ ''.leg.'' @ zero_padded 4 (k + 1),
     li_instrument_id = cl_instrument_id leg, li_side = cl_side leg, li_quantity = q,
     li_limit_price = cl_limit_price leg\<rparr>"
  have step: "plan_combo_leg combo_id (co_combo_quantity c) (k, option_leg leg) (seen, net, acc) =
      Inr (bs_insert (cl_instrument_id leg) seen, mid, acc @ [?instr])"
    using Cons.prems(2,4) leg_net mid q
    by (auto simp: plan_combo_leg_def option_leg_def validate_canonical_id_def canonical_id_def
        bs_contains_def combo_ratio_ok_def combo_leg_net_def combo_leg_quantity_def and_then_eq_Inr)
  have "\<exists>seen' new. try_fold (plan_combo_leg combo_id (co_combo_quantity c))
      (zip [Suc k..<Suc k + length legs] (map option_leg legs))
      (bs_insert (cl_instrument_id leg) seen, mid, acc @ [?instr]) = Inr (seen', net', (acc @ [?instr]) @ new)
    \<and> list_all2 (leg_matches c) legs new"
    by (rule Cons.IH [OF rest]) (use Cons.prems(2-4) in auto)
  then obtain seen' new where new: "try_fold (plan_combo_leg combo_id (co_combo_quantity c))
      (zip [Suc k..<Suc k + length legs] (map option_leg legs))
      (bs_insert (cl_instrument_id leg) seen, mid, acc @ [?instr]) = Inr (seen', net', (acc @ [?instr]) @ new)"
    "list_all2 (leg_matches c) legs new" by blast
  have zip: "zip [k..<k + length (leg # legs)] (map option_leg (leg # legs))
      = (k, option_leg leg) # zip [Suc k..<Suc k + length legs] (map option_leg legs)"
    by (simp add: upt_conv_Cons del: upt_Suc)
  have "list_all2 (leg_matches c) (leg # legs) (?instr # new)"
    using new(2) q by (simp add: leg_matches_def)
  moreover have "try_fold (plan_combo_leg combo_id (co_combo_quantity c))
      (zip [k..<k + length (leg # legs)] (map option_leg (leg # legs))) (seen, net, acc)
      = Inr (seen', net', acc @ (?instr # new))"
    unfolding zip try_fold.simps step using new(1) by simp
  ultimately show ?case by blast
qed simp

section \<open>Properties\<close>

text \<open>The marks fed to one trailing stop, up to the first refused one.\<close>

fun trailing_run :: "trailing_stop \<Rightarrow> decimal list \<Rightarrow> trailing_stop result" where
  "trailing_run t [] = Ok t"
| "trailing_run t (mark # marks) = (case trailing_stop_update t mark of
     (Inl e, _) \<Rightarrow> Inl e | (Inr _, t') \<Rightarrow> trailing_run t' marks)"

lemma trailing_run_facts:
  "trailing_run t marks = Inr t' \<Longrightarrow> trailing_wf t \<Longrightarrow> trailing_wf t' \<and> tr_side t' = tr_side t
    \<and> tr_trail_bps t' = tr_trail_bps t \<and> tighter (tr_side t) (tr_stop_price t') (tr_stop_price t)
    \<and> (\<forall>mark\<in>set marks. case tr_side t of Sell \<Rightarrow> mark \<le> tr_favorable_reference t'
         | Buy \<Rightarrow> tr_favorable_reference t' \<le> mark)
    \<and> (case tr_side t of Sell \<Rightarrow> tr_favorable_reference t \<le> tr_favorable_reference t'
         | Buy \<Rightarrow> tr_favorable_reference t' \<le> tr_favorable_reference t)"
proof (induction marks arbitrary: t)
  case Nil
  then show ?case by (cases "tr_side t") (auto simp: tighter_def)
next
  case (Cons mark marks)
  from Cons.prems(1) obtain stop u where u: "trailing_stop_update t mark = (Inr stop, u)"
    and rest: "trailing_run u marks = Inr t'"
    by (auto split: prod.splits sum.splits)
  note step = update_Ok [OF u Cons.prems(2)]
  have ref: "case tr_side t of Sell \<Rightarrow> tr_favorable_reference t \<le> tr_favorable_reference u
         | Buy \<Rightarrow> tr_favorable_reference u \<le> tr_favorable_reference t"
    using u by (cases "tr_side t") (auto simp: trailing_stop_update_def Let_def split: if_splits sum.splits)
  from Cons.IH [OF rest] step ref show ?case
    by (cases "tr_side t") (auto simp: tighter_def intro: order_trans)
qed

text \<open>A trailing stop only ever tightens: through any number of accepted marks the stop of a long
  position never falls and that of a short never rises, and it stays exactly the configured distance,
  rounded down, from the best mark seen.\<close>

theorem trailing_stop_monotone:
  assumes "trailing_stop_new s bps initial_mark = Ok t" "trailing_run t marks = Ok t'"
  shows "tighter s (tr_stop_price t') (tr_stop_price t)
    \<and> scaled (tr_stop_price t') = scaled (tr_favorable_reference t')
        - side_sign s * - (scaled (tr_favorable_reference t') * int bps div 10000)
    \<and> (\<forall>mark\<in>set (initial_mark # marks). case s of Sell \<Rightarrow> mark \<le> tr_favorable_reference t'
         | Buy \<Rightarrow> tr_favorable_reference t' \<le> mark)"
proof -
  from assms(1) have new: "trailing_wf t" "tr_side t = s" "tr_trail_bps t = bps"
    "tr_favorable_reference t = initial_mark"
    by (auto simp: trailing_stop_new_def and_then_eq_Inr trailing_wf_def decimal_cmp not_le split: if_splits)
  note run = trailing_run_facts [OF assms(2) new(1)]
  then have "trailing_price s bps (tr_favorable_reference t') = Inr (tr_stop_price t')"
    "0 \<le> scaled (tr_favorable_reference t')"
    using new by (auto simp: trailing_wf_def)
  from trailing_price_exact [OF this] run new show ?thesis by (cases s) simp_all
qed

lemma sample_trailing:
  "trailing_stop_new Sell 100 (Decimal 10000000000) = Ok \<lparr>tr_side = Sell, tr_trail_bps = 100,
     tr_favorable_reference = Decimal 10000000000, tr_stop_price = Decimal 9900000000\<rparr>"
  by (simp add: trailing_stop_new_def trailing_price_def plan_arith)

theorem trailing_stop_monotone_witness:
  "\<exists>t t'. trailing_stop_new Sell 100 (Decimal 10000000000) = Ok t
    \<and> trailing_run t [Decimal 11000000000, Decimal 10500000000] = Ok t'
    \<and> tighter Sell (tr_stop_price t') (tr_stop_price t)"
proof -
  let ?t = "\<lparr>tr_side = Sell, tr_trail_bps = 100, tr_favorable_reference = Decimal 10000000000,
     tr_stop_price = Decimal 9900000000\<rparr>"
  have "\<exists>t'. trailing_run ?t [Decimal 11000000000, Decimal 10500000000] = Ok t'"
    by (simp add: trailing_stop_update_def trailing_price_def plan_arith)
  then obtain t' where "trailing_run ?t [Decimal 11000000000, Decimal 10500000000] = Ok t'" ..
  with trailing_stop_monotone [OF sample_trailing this] sample_trailing show ?thesis by blast
qed

text \<open>A mark whose trail cannot be computed is refused, but only after the reference has moved:
  the stop is then out of step with it, and a later genuine high no longer raises the stop.\<close>

theorem trailing_stop_error_desynchronises:
  "\<exists>t1 t2. trailing_stop_update \<lparr>tr_side = Sell, tr_trail_bps = 100,
       tr_favorable_reference = Decimal 10000000000, tr_stop_price = Decimal 9900000000\<rparr>
       (Decimal (2 ^ 126)) = (Err ''decimal multiplication overflow'', t1)
    \<and> tr_favorable_reference t1 = Decimal (2 ^ 126) \<and> tr_stop_price t1 = Decimal 9900000000
    \<and> trailing_stop_update t1 (Decimal 20000000000) = (Ok (Decimal 9900000000), t2)"
  by (simp add: trailing_stop_update_def trailing_price_def from_integer_def checked_mul_def
      i128_checked_def in_i128_def DECIMAL_SCALE_def)

text \<open>A basket never overspends: one valid parent order per leg, on the leg's side and instrument,
  and together at their reference prices the quantities cost at most the requested notional.\<close>

theorem basket_within_notional:
  assumes "plan_basket basket_id account_id notional legs = Ok parents"
  shows "list_all2 (\<lambda>leg p. parent_validate p = Ok () \<and> po_side p = bl_side leg
      \<and> po_instrument_id p = bl_instrument_id leg) legs parents
    \<and> (\<Sum>(leg, p)\<leftarrow>zip legs parents. scaled (po_quantity p) * scaled (bl_reference_price leg))
        \<le> scaled notional * DECIMAL_SCALE"
proof -
  from assms obtain s where n: "0 < scaled notional" and s: "try_fold check_basket_leg legs 0 = Inr s"
    "s = 10000" and loop: "try_map (basket_parent basket_id account_id notional) (enumerate0 legs) = Inr parents"
    by (auto simp: plan_basket_def and_then_eq_Inr decimal_cmp not_le split: if_splits)
  from check_basket_legs_sum [OF s(1)] s(2)
  have w: "(\<Sum>l\<leftarrow>legs. int (bl_weight_bps l)) = 10000" and price: "\<forall>l\<in>set legs. ZERO < bl_reference_price l"
    by simp_all
  from loop have "list_all2 (\<lambda>il p. basket_parent basket_id account_id notional il = Inr p)
      (enumerate0 legs) parents" by (simp add: try_map_eq_Inr)
  then have "list_all2 (\<lambda>il p. (parent_validate p = Inr () \<and> po_side p = bl_side (snd il)
      \<and> po_instrument_id p = bl_instrument_id (snd il))
      \<and> scaled (po_quantity p) * scaled (bl_reference_price (snd il)) * 10000
        \<le> scaled notional * int (bl_weight_bps (snd il)) * DECIMAL_SCALE) (enumerate0 legs) parents"
  proof (rule list.rel_mono_strong)
    fix il p
    assume "il \<in> set (enumerate0 legs)" "basket_parent basket_id account_id notional il = Inr p"
    moreover from this price have "ZERO < bl_reference_price (snd il)"
      by (metis nth_mem prod.collapse set_enumerate0D)
    ultimately show "(parent_validate p = Inr () \<and> po_side p = bl_side (snd il)
      \<and> po_instrument_id p = bl_instrument_id (snd il))
      \<and> scaled (po_quantity p) * scaled (bl_reference_price (snd il)) * 10000
        \<le> scaled notional * int (bl_weight_bps (snd il)) * DECIMAL_SCALE"
      using basket_parent_Ok [OF _ n] by blast
  qed
  then have all: "list_all2 (\<lambda>leg p. (parent_validate p = Inr () \<and> po_side p = bl_side leg
      \<and> po_instrument_id p = bl_instrument_id leg)
      \<and> scaled (po_quantity p) * scaled (bl_reference_price leg) * 10000
        \<le> scaled notional * int (bl_weight_bps leg) * DECIMAL_SCALE) (map snd (enumerate0 legs)) parents"
    by (simp only: list_all2_map1)
  then have "(\<Sum>(leg, p)\<leftarrow>zip legs parents. scaled (po_quantity p) * scaled (bl_reference_price leg)) * 10000
      \<le> scaled notional * (\<Sum>l\<leftarrow>legs. int (bl_weight_bps l)) * DECIMAL_SCALE"
    unfolding map_snd_enumerate0 by (induction rule: list_all2_induct) (auto simp: algebra_simps)
  with w have "(\<Sum>(leg, p)\<leftarrow>zip legs parents. scaled (po_quantity p) * scaled (bl_reference_price leg))
        \<le> scaled notional * DECIMAL_SCALE" by simp
  moreover from all have "list_all2 (\<lambda>leg p. parent_validate p = Ok () \<and> po_side p = bl_side leg
      \<and> po_instrument_id p = bl_instrument_id leg) legs parents"
    unfolding map_snd_enumerate0 by (rule list_all2_mono) simp
  ultimately show ?thesis by blast
qed

definition sample_basket :: "basket_leg list" where
  "sample_basket =
     [\<lparr>bl_instrument_id = ''x'', bl_side = Buy, bl_weight_bps = 6000, bl_reference_price = Decimal 700000000\<rparr>,
      \<lparr>bl_instrument_id = ''y'', bl_side = Sell, bl_weight_bps = 4000, bl_reference_price = Decimal 300000000\<rparr>]"

theorem basket_within_notional_witness:
  "\<exists>parents. plan_basket ''b'' ''a'' (Decimal 100000000000) sample_basket = Ok parents
    \<and> (\<Sum>(leg, p)\<leftarrow>zip sample_basket parents. scaled (po_quantity p) * scaled (bl_reference_price leg))
        \<le> 100000000000 * DECIMAL_SCALE"
proof -
  have "\<exists>parents. plan_basket ''b'' ''a'' (Decimal 100000000000) sample_basket = Ok parents"
    by (simp add: plan_basket_def sample_basket_def validate_canonical_id_def is_id_byte_def byte_simps
        check_basket_leg_def u32_checked_def basket_parent_def parent_validate_def some_non_positive_def
        enumerate0_def upt_rec plan_arith Let_def)
  then obtain parents where "plan_basket ''b'' ''a'' (Decimal 100000000000) sample_basket = Ok parents" ..
  with basket_within_notional [OF this] show ?thesis by auto
qed

text \<open>The planner and the risk gate share one definition of a combination: an intent the gate
  has validated is planned with the gate's own net price, one instruction per leg, each with the leg's
  exact contract quantity, provided those quantities are representable.\<close>

theorem option_combo_matches_gate:
  assumes "combo_intent_validate rfc3339 c = Ok ()" "canonical_id combo_id"
    and "\<forall>leg\<in>set (co_legs c). is_ok (combo_leg_quantity c leg)"
  shows "\<exists>plan. plan_option_combo combo_id (co_combo_quantity c) (co_price_limit c)
      (map option_leg (co_legs c)) = Ok plan
    \<and> protected_net_price c = Ok (op_protected_net_price plan)
    \<and> list_all2 (leg_matches c) (co_legs c) (op_legs plan)"
proof -
  note gate = combo_intent_validate_Ok [OF assms(1)]
  from gate(6) obtain net where net: "protected_net_price c = Inr net"
    and limit: "check_net_price (co_price_limit c) net = Inr ()" by blast
  from plan_combo_legs [OF net [unfolded protected_net_price_def], of c "[]" combo_id 0 "[]"] gate(3,4) assms(3)
  obtain seen new where loop: "try_fold (plan_combo_leg combo_id (co_combo_quantity c))
      (enumerate0 (map option_leg (co_legs c))) ([], ZERO, []) = Inr (seen, net, new)"
    and match: "list_all2 (leg_matches c) (co_legs c) new"
    by (auto simp: enumerate0_def)
  have "validate_canonical_id ''combo_id'' combo_id = Inr ()" using assms(2) by (simp add: result_simps)
  with loop limit gate(1,2) have "plan_option_combo combo_id (co_combo_quantity c) (co_price_limit c)
      (map option_leg (co_legs c)) = Ok \<lparr>op_combo_id = combo_id, op_combo_quantity = co_combo_quantity c,
         op_protected_net_price = net, op_legs = new\<rparr>"
    by (simp add: plan_option_combo_def combo_leg_count_ok_def not_le)
  with net match show ?thesis by simp
qed

theorem option_combo_matches_gate_witness:
  "\<exists>plan. plan_option_combo ''k'' (co_combo_quantity sample_combo) (co_price_limit sample_combo)
      (map option_leg (co_legs sample_combo)) = Ok plan
    \<and> protected_net_price sample_combo = Ok (op_protected_net_price plan)"
proof -
  have "canonical_id ''k''" by (simp add: canonical_id_def is_id_byte_def byte_simps)
  moreover have "\<forall>leg\<in>set (co_legs sample_combo). is_ok (combo_leg_quantity sample_combo leg)"
    by (simp add: sample_combo_def combo_leg_quantity_def plan_arith)
  ultimately show ?thesis using option_combo_matches_gate [OF sample_combo_validates] by blast
qed

end
