(* ===== verification/ExecRouting.thy ===== *)
theory ExecRouting
  imports ExecAlgorithms OrderedMap
begin

text \<open>
  Component: venue quotes, capabilities and smart order routing
  (\<^verbatim>\<open>core/execution/src/routing.rs\<close>). \<^verbatim>\<open>sort_by\<close> is the stable insertion sort by the code's
  comparator. Where no all-in price overflows the comparator is the order of a key, and the sort is
  the library's stable \<open>sort_key\<close>; an overflow makes the comparator answer \<open>Equal\<close>, which is no
  order, and the standard library then promises nothing about the result.
\<close>

datatype ordering = Less | Equal | Greater

definition cmp :: "'a::linorder \<Rightarrow> 'a \<Rightarrow> ordering" where
  "cmp a b = (if a < b then Less else if a = b then Equal else Greater)"

fun then_with :: "ordering \<Rightarrow> ordering \<Rightarrow> ordering" where
  "then_with Equal r = r"
| "then_with Less r = Less"
| "then_with Greater r = Greater"

fun insort_by :: "('a \<Rightarrow> 'a \<Rightarrow> ordering) \<Rightarrow> 'a \<Rightarrow> 'a list \<Rightarrow> 'a list" where
  "insort_by c x [] = [x]"
| "insort_by c x (y # ys) = (if c x y \<noteq> Greater then x # y # ys else y # insort_by c x ys)"

definition sort_by :: "('a \<Rightarrow> 'a \<Rightarrow> ordering) \<Rightarrow> 'a list \<Rightarrow> 'a list" where
  "sort_by c xs = foldr (insort_by c) xs []"

record venue_quote =
  vq_venue :: string
  vq_available_quantity :: decimal
  vq_price :: decimal
  vq_fee_per_unit :: decimal
  vq_latency_rank :: nat

definition all_in :: "side \<Rightarrow> venue_quote \<Rightarrow> decimal result" where
  "all_in s q = (case s of Buy \<Rightarrow> checked_add (vq_price q) (vq_fee_per_unit q)
     | Sell \<Rightarrow> checked_sub (vq_price q) (vq_fee_per_unit q))"

definition compare_quotes :: "side \<Rightarrow> venue_quote \<Rightarrow> venue_quote \<Rightarrow> ordering" where
  "compare_quotes s l r =
     then_with (case (all_in s l, all_in s r, s) of
         (Inr left_price, Inr right_price, Buy) \<Rightarrow> cmp left_price right_price
       | (Inr left_price, Inr right_price, Sell) \<Rightarrow> cmp right_price left_price
       | _ \<Rightarrow> Equal)
     (then_with (cmp (vq_latency_rank l) (vq_latency_rank r))
     (then_with (cmp (vq_venue l) (vq_venue r))
       (cmp (vq_available_quantity r) (vq_available_quantity l))))"

definition check_quote :: "venue_quote \<Rightarrow> unit result" where
  "check_quote q = and_then (validate_canonical_id ''venue'' (vq_venue q)) (\<lambda>_.
     if vq_available_quantity q \<le> ZERO \<or> vq_price q \<le> ZERO \<or> vq_fee_per_unit q < ZERO
     then Err ''invalid smart-routing quote'' else Ok ())"

definition beyond_limit :: "parent_order \<Rightarrow> decimal \<Rightarrow> bool" where
  "beyond_limit p price = (case (po_side p, po_limit_price p) of
     (Buy, Some limit) \<Rightarrow> price > limit | (Sell, Some limit) \<Rightarrow> price < limit | _ \<Rightarrow> False)"

definition route_child :: "parent_order \<Rightarrow> nat \<Rightarrow> venue_quote \<Rightarrow> decimal \<Rightarrow> child_instruction" where
  "route_child p index q quantity =
     \<lparr>ci_child_order_id = po_parent_order_id p @ ''.route.'' @ zero_padded 4 index,
      ci_scheduled_after_seconds = 0, ci_venue = Some (vq_venue q), ci_quantity = quantity,
      ci_kind = ChildLimit, ci_limit_price = Some (vq_price q), ci_stop_price = None\<rparr>"

fun route_loop ::
    "parent_order \<Rightarrow> venue_quote list \<Rightarrow> decimal \<Rightarrow> child_instruction list
      \<Rightarrow> (child_instruction list \<times> decimal) result" where
  "route_loop p [] remaining children = Ok (children, remaining)"
| "route_loop p (q # qs) remaining children =
     (if remaining = ZERO then Ok (children, remaining)
      else let quantity = min (vq_available_quantity q) remaining in
        if beyond_limit p (vq_price q) then route_loop p qs remaining children
        else and_then (checked_sub remaining quantity) (\<lambda>remaining'.
          route_loop p qs remaining' (children @ [route_child p (length children + 1) q quantity])))"

definition smart_route :: "parent_order \<Rightarrow> venue_quote list \<Rightarrow> execution_plan result" where
  "smart_route p quotes =
     and_then (parent_validate p) (\<lambda>_.
     if quotes = [] \<or> length quotes > 1000 then Err ''smart routing requires venue quotes''
     else and_then (try_each check_quote quotes) (\<lambda>_.
       and_then (route_loop p (sort_by (compare_quotes (po_side p)) quotes) (po_quantity p) [])
         (\<lambda>(children, remaining).
       validated_plan p \<lparr>ep_parent_order_id = po_parent_order_id p, ep_algorithm = ''smart-router-v1'',
         ep_children = children, ep_unallocated_quantity = remaining\<rparr>)))"

section \<open>Venue capabilities\<close>

record venue_capability =
  vc_venue :: string
  vc_capability_version :: string
  vc_supported_order_kinds :: "child_order_kind list"
  vc_supports_iceberg :: bool
  vc_min_quantity :: "decimal option"
  vc_max_quantity :: "decimal option"

definition capability_validate :: "venue_capability \<Rightarrow> unit result" where
  "capability_validate c =
     and_then (validate_canonical_id ''venue'' (vc_venue c)) (\<lambda>_.
     and_then (validate_canonical_id ''capability_version'' (vc_capability_version c)) (\<lambda>_.
     if vc_supported_order_kinds c = []
     then Err ''venue capability must declare at least one supported order kind''
     else if some_non_positive (vc_min_quantity c) then Err ''min_quantity must be positive''
     else if some_non_positive (vc_max_quantity c) then Err ''max_quantity must be positive''
     else if (case (vc_min_quantity c, vc_max_quantity c) of
         (Some mn, Some mx) \<Rightarrow> mn > mx | _ \<Rightarrow> False)
     then Err ''venue min_quantity cannot exceed max_quantity''
     else Ok ()))"

record route_decision =
  rt_decision_id :: string
  rt_parent_order_id :: string
  rt_venue :: string
  rt_capability_version :: string
  rt_allocated_quantity :: decimal
  rt_all_in_price :: decimal
  rt_fee_per_unit :: decimal
  rt_latency_rank :: nat

type_synonym capability_map = "(string, venue_capability) btree_map"

definition register_capability :: "venue_capability \<Rightarrow> capability_map \<Rightarrow> capability_map result" where
  "register_capability c m =
     and_then (capability_validate c) (\<lambda>_.
     if bt_get m (vc_venue c) \<noteq> None
     then Err (''duplicate capability record for venue '' @ [CHR 0x27] @ vc_venue c @ [CHR 0x27])
     else Ok (bt_insert (vc_venue c) c m))"

definition check_capable_quote :: "capability_map \<Rightarrow> venue_quote \<Rightarrow> unit result" where
  "check_capable_quote m q =
     and_then (check_quote q) (\<lambda>_.
     and_then (ok_or (bt_get m (vq_venue q))
         (''routing refused: unknown venue capability for '' @ [CHR 0x27] @ vq_venue q @ [CHR 0x27])) (\<lambda>c.
     if ChildLimit \<notin> set (vc_supported_order_kinds c)
     then Err (''routing refused: venue '' @ [CHR 0x27] @ vq_venue q @ [CHR 0x27]
       @ '' does not support required order kind Limit'')
     else Ok ()))"

text \<open>The quantity a venue accepts of what is left, or \<open>None\<close> when it is skipped.\<close>

definition venue_quantity :: "venue_capability \<Rightarrow> decimal \<Rightarrow> decimal \<Rightarrow> decimal option" where
  "venue_quantity c displayed remaining =
     (let available = (case vc_max_quantity c of None \<Rightarrow> displayed | Some mx \<Rightarrow> min displayed mx);
          quantity = min available remaining in
      case vc_min_quantity c of None \<Rightarrow> Some quantity
      | Some mn \<Rightarrow> if available < mn \<or> quantity < mn then None else Some quantity)"

definition decision_for ::
    "parent_order \<Rightarrow> nat \<Rightarrow> venue_quote \<Rightarrow> venue_capability \<Rightarrow> decimal \<Rightarrow> decimal \<Rightarrow> route_decision" where
  "decision_for p index q c quantity all_in_price =
     \<lparr>rt_decision_id = po_parent_order_id p @ ''.decision.'' @ zero_padded 4 index,
      rt_parent_order_id = po_parent_order_id p, rt_venue = vq_venue q,
      rt_capability_version = vc_capability_version c, rt_allocated_quantity = quantity,
      rt_all_in_price = all_in_price, rt_fee_per_unit = vq_fee_per_unit q,
      rt_latency_rank = vq_latency_rank q\<rparr>"

fun gated_loop ::
    "parent_order \<Rightarrow> capability_map \<Rightarrow> venue_quote list \<Rightarrow> decimal
      \<Rightarrow> child_instruction list \<Rightarrow> route_decision list
      \<Rightarrow> (child_instruction list \<times> route_decision list \<times> decimal) result" where
  "gated_loop p m [] remaining children decisions = Ok (children, decisions, remaining)"
| "gated_loop p m (q # qs) remaining children decisions =
     (if remaining = ZERO then Ok (children, decisions, remaining)
      else case bt_get m (vq_venue q) of
        None \<Rightarrow> Err ''validated''
      | Some c \<Rightarrow>
        (case venue_quantity c (vq_available_quantity q) remaining of
           None \<Rightarrow> gated_loop p m qs remaining children decisions
         | Some quantity \<Rightarrow>
           if beyond_limit p (vq_price q) then gated_loop p m qs remaining children decisions
           else and_then (all_in (po_side p) q) (\<lambda>all_in_price.
             and_then (checked_sub remaining quantity) (\<lambda>remaining'.
             gated_loop p m qs remaining'
               (children @ [route_child p (length children + 1) q quantity])
               (decisions @ [decision_for p (length children + 1) q c quantity all_in_price])))))"

definition smart_route_with_capabilities ::
    "parent_order \<Rightarrow> venue_quote list \<Rightarrow> venue_capability list
      \<Rightarrow> (execution_plan \<times> route_decision list) result" where
  "smart_route_with_capabilities p quotes capabilities =
     and_then (parent_validate p) (\<lambda>_.
     if quotes = [] \<or> length quotes > 1000
     then Err ''smart routing requires between 1 and 1000 venue quotes''
     else and_then (try_fold register_capability capabilities []) (\<lambda>cap_map.
       and_then (try_each (check_capable_quote cap_map) quotes) (\<lambda>_.
       and_then (gated_loop p cap_map (sort_by (compare_quotes (po_side p)) quotes) (po_quantity p) [] [])
         (\<lambda>(children, decisions, remaining).
       and_then (validated_plan p \<lparr>ep_parent_order_id = po_parent_order_id p,
           ep_algorithm = ''smart-router-v1'', ep_children = children,
           ep_unallocated_quantity = remaining\<rparr>) (\<lambda>plan. Ok (plan, decisions))))))"

section \<open>The order of the quotes\<close>

lemma insort_by_key:
  "(\<And>y. y \<in> set ys \<Longrightarrow> c x y \<noteq> Greater \<longleftrightarrow> f x \<le> f y) \<Longrightarrow> insort_by c x ys = insort_key f x ys"
  by (induction ys) auto

lemma sort_by_key:
  assumes "\<And>x y. x \<in> set xs \<Longrightarrow> y \<in> set xs \<Longrightarrow> c x y \<noteq> Greater \<longleftrightarrow> f x \<le> f y"
  shows "sort_by c xs = sort_key f xs"
  using assms
proof (induction xs)
  case (Cons x xs)
  then have "sort_by c xs = sort_key f xs" by simp
  moreover have "insort_by c x (sort_key f xs) = insort_key f x (sort_key f xs)"
    by (rule insort_by_key) (use Cons.prems in simp)
  ultimately show ?case by (simp add: sort_by_def)
qed (simp add: sort_by_def)

definition quote_key :: "side \<Rightarrow> venue_quote \<Rightarrow> int \<times> nat \<times> string \<times> int" where
  "quote_key s q = (case s of
       Buy \<Rightarrow> scaled (vq_price q) + scaled (vq_fee_per_unit q)
     | Sell \<Rightarrow> - (scaled (vq_price q) - scaled (vq_fee_per_unit q)),
     vq_latency_rank q, vq_venue q, - scaled (vq_available_quantity q))"

lemma then_with_not_Greater:
  "then_with a b \<noteq> Greater \<longleftrightarrow> a = Less \<or> a = Equal \<and> b \<noteq> Greater"
  by (cases a) auto

lemma cmp_iff [simp]: "cmp a b = Less \<longleftrightarrow> a < b" "cmp a b = Equal \<longleftrightarrow> a = b" "cmp a b = Greater \<longleftrightarrow> b < a"
  by (auto simp: cmp_def)

lemma compare_quotes_key:
  assumes "is_ok (all_in s l)" "is_ok (all_in s r)"
  shows "compare_quotes s l r \<noteq> Greater \<longleftrightarrow> quote_key s l \<le> quote_key s r"
proof -
  from assms obtain a b where ab: "all_in s l = Inr a" "all_in s r = Inr b" by (auto simp: is_ok_iff)
  then have price: "(case s of Buy \<Rightarrow> cmp a b | Sell \<Rightarrow> cmp b a) =
      cmp (fst (quote_key s l)) (fst (quote_key s r))"
    by (cases s) (auto simp: all_in_def result_simps quote_key_def cmp_def decimal_cmp)
  have "compare_quotes s l r = then_with (cmp (fst (quote_key s l)) (fst (quote_key s r)))
     (then_with (cmp (vq_latency_rank l) (vq_latency_rank r))
     (then_with (cmp (vq_venue l) (vq_venue r))
       (cmp (vq_available_quantity r) (vq_available_quantity l))))"
    unfolding compare_quotes_def price [symmetric] using ab by (cases s) simp_all
  then show ?thesis
    by (cases s) (auto simp: then_with_not_Greater quote_key_def decimal_cmp not_less)
qed

lemma sort_quotes:
  "\<forall>q\<in>set quotes. is_ok (all_in s q) \<Longrightarrow>
    sort_by (compare_quotes s) quotes = sort_key (quote_key s) quotes"
  by (rule sort_by_key) (simp add: compare_quotes_key)

section \<open>The greedy loop\<close>

text \<open>A child that takes from a quote, and one that takes all of it.\<close>

definition takes :: "child_instruction \<Rightarrow> venue_quote \<Rightarrow> bool" where
  "takes c q \<longleftrightarrow> ci_venue c = Some (vq_venue q) \<and> ci_kind c = ChildLimit
     \<and> ci_limit_price c = Some (vq_price q) \<and> ZERO < ci_quantity c
     \<and> ci_quantity c \<le> vq_available_quantity q"

definition takes_all :: "child_instruction \<Rightarrow> venue_quote \<Rightarrow> bool" where
  "takes_all c q \<longleftrightarrow> ci_quantity c = vq_available_quantity q"

definition eligible :: "parent_order \<Rightarrow> venue_quote list \<Rightarrow> venue_quote list" where
  "eligible p qs = filter (\<lambda>q. \<not> beyond_limit p (vq_price q)) qs"

text \<open>The children take a prefix of the quotes, whole but for the last one, and stop short of the
  end only when nothing remains.\<close>

definition greedy :: "child_instruction list \<Rightarrow> venue_quote list \<Rightarrow> decimal \<Rightarrow> bool" where
  "greedy cs qs remaining \<longleftrightarrow> length cs \<le> length qs
     \<and> list_all2 takes cs (take (length cs) qs)
     \<and> (\<forall>(c, q)\<in>set (butlast (zip cs qs)). takes_all c q)
     \<and> (remaining \<noteq> ZERO \<longrightarrow> length cs = length qs \<and> (\<forall>(c, q)\<in>set (zip cs qs). takes_all c q))"

lemma greedy_Cons:
  assumes "takes c q" "greedy cs qs r" "cs \<noteq> [] \<or> r \<noteq> ZERO \<longrightarrow> takes_all c q"
  shows "greedy (c # cs) (q # qs) r"
  using assms by (auto simp: greedy_def split: if_splits)

lemma route_loop_Ok:
  assumes "route_loop p qs r cs = Inr (cs', r')" "ZERO \<le> r" "\<forall>q\<in>set qs. ZERO < vq_available_quantity q"
  shows "\<exists>new. cs' = cs @ new \<and> greedy new (eligible p qs) r' \<and> ZERO \<le> r'
    \<and> (r = ZERO \<longrightarrow> new = [] \<and> r' = ZERO)"
  using assms
proof (induction p qs r cs rule: route_loop.induct)
  case (1 p r cs)
  then show ?case by (auto simp: greedy_def eligible_def)
next
  case (2 p q qs r cs)
  show ?case
  proof (cases "r = ZERO")
    case True
    with 2(3) show ?thesis by (intro exI [of _ "[]"]) (simp add: greedy_def)
  next
    case False
    let ?x = "min (vq_available_quantity q) r"
    show ?thesis
    proof (cases "beyond_limit p (vq_price q)")
      case True
      with False 2 show ?thesis by (auto simp: eligible_def Let_def)
    next
      case inside: False
      with False 2(3) obtain rem where rem: "checked_sub r ?x = Inr rem"
        and rest: "route_loop p qs rem (cs @ [route_child p (length cs + 1) q ?x]) = Inr (cs', r')"
        by (auto simp: and_then_eq_Inr Let_def)
      from rem have rem': "rem = Decimal (scaled r - scaled ?x)" by (simp add: checked_sub_eq_Ok)
      have "ZERO \<le> rem" using rem' by (simp add: decimal_cmp)
      from 2(2) [OF False refl inside rem rest this] 2(5) obtain new where
        new: "cs' = (cs @ [route_child p (length cs + 1) q ?x]) @ new"
        "greedy new (eligible p qs) r'" "ZERO \<le> r'" "rem = ZERO \<longrightarrow> new = [] \<and> r' = ZERO"
        by auto
      have t: "takes (route_child p (length cs + 1) q ?x) q"
        using 2(4,5) False by (auto simp: takes_def route_child_def decimal_cmp)
          (metis decimal.exhaust decimal.sel order_le_less)
      have "rem \<noteq> ZERO \<Longrightarrow> takes_all (route_child p (length cs + 1) q ?x) q"
        using rem' by (auto simp: takes_all_def route_child_def min_def decimal_cmp split: if_splits)
      then have "new \<noteq> [] \<or> r' \<noteq> ZERO \<longrightarrow> takes_all (route_child p (length cs + 1) q ?x) q"
        using new(4) by blast
      from greedy_Cons [OF t new(2) this] new(1,3) False inside show ?thesis
        by (intro exI [of _ "route_child p (length cs + 1) q ?x # new"]) (simp add: eligible_def)
    qed
  qed
qed

lemma check_quote_Ok:
  "check_quote q = Inr u \<longleftrightarrow> canonical_id (vq_venue q) \<and> ZERO < vq_available_quantity q
    \<and> ZERO < vq_price q \<and> ZERO \<le> vq_fee_per_unit q"
  by (auto simp: check_quote_def and_then_eq_Inr result_simps not_le not_less)

lemma set_sort_by [simp]: "set (sort_by c xs) = set xs"
proof -
  have "set (insort_by c x ys) = insert x (set ys)" for x ys by (induction ys) auto
  then show ?thesis by (induction xs) (simp_all add: sort_by_def)
qed

interpretation router: validated_planner smart_route
  by unfold_locales (auto simp: smart_route_def and_then_eq_Inr validated_plan_eq_Ok split: if_splits)

section \<open>Gated routing\<close>

definition unbounded :: "venue_capability \<Rightarrow> bool" where
  "unbounded c \<longleftrightarrow> vc_min_quantity c = None \<and> vc_max_quantity c = None"

lemma register_capabilities_get:
  "try_fold register_capability caps m = Inr m' \<Longrightarrow> bt_get m' v = Some c \<Longrightarrow>
    bt_get m v = Some c \<or> c \<in> set caps \<and> vc_venue c = v \<and> capability_validate c = Inr ()"
  by (induction caps arbitrary: m)
    (fastforce simp: and_then_eq_Inr register_capability_def bt_get_insert split: if_splits)+

lemma gated_loop_unbounded:
  assumes "gated_loop p m qs r cs ds = Inr (cs', ds', r')" "\<forall>v c. bt_get m v = Some c \<longrightarrow> unbounded c"
  shows "route_loop p qs r cs = Inr (cs', r')"
  using assms
  by (induction p m qs r cs ds rule: gated_loop.induct)
    (auto simp: venue_quantity_def unbounded_def and_then_eq_Inr Let_def split: if_splits option.splits)

lemma gated_loop_bounds:
  assumes "gated_loop p m qs r cs ds = Inr (cs', ds', r')" "list_all2 P cs ds"
    "\<And>q c x a n price. q \<in> set qs \<Longrightarrow> bt_get m (vq_venue q) = Some c \<Longrightarrow>
      venue_quantity c (vq_available_quantity q) x = Some a \<Longrightarrow>
      P (route_child p n q a) (decision_for p n q c a price)"
  shows "list_all2 P cs' ds'"
  using assms
proof (induction p m qs r cs ds rule: gated_loop.induct)
  case (2 p m q qs r cs ds)
  show ?case
  proof (cases "r = ZERO")
    case False
    with 2(4) obtain c where c: "bt_get m (vq_venue q) = Some c" by (auto split: option.splits)
    show ?thesis
    proof (cases "venue_quantity c (vq_available_quantity q) r")
      case None
      with False c 2(4) have "gated_loop p m qs r cs ds = Inr (cs', ds', r')" by simp
      from 2(1) [OF False c None this 2(5)] 2(6) show ?thesis by simp
    next
      case (Some a)
      show ?thesis
      proof (cases "beyond_limit p (vq_price q)")
        case True
        with Some False c 2(4) have "gated_loop p m qs r cs ds = Inr (cs', ds', r')" by simp
        from 2(2) [OF False c Some True this 2(5)] 2(6) show ?thesis by simp
      next
        case inside: False
        from inside Some False c 2(4) obtain price rem where price: "all_in (po_side p) q = Inr price"
          and rem: "checked_sub r a = Inr rem"
          and rest: "gated_loop p m qs rem (cs @ [route_child p (length cs + 1) q a])
              (ds @ [decision_for p (length cs + 1) q c a price]) = Inr (cs', ds', r')"
          by (auto simp: and_then_eq_Inr)
        have "list_all2 P (cs @ [route_child p (length cs + 1) q a])
            (ds @ [decision_for p (length cs + 1) q c a price])"
          using 2(5,6) c Some by (simp add: list_all2_appendI)
        from 2(3) [OF False c Some inside price rem rest this] 2(6) show ?thesis by simp
      qed
    qed
  qed (use 2 in simp)
qed simp

text \<open>A child and its decision, inside what the venue declared.\<close>

definition within_capability ::
    "venue_capability list \<Rightarrow> child_instruction \<Rightarrow> route_decision \<Rightarrow> bool" where
  "within_capability capabilities c d \<longleftrightarrow>
     ci_venue c = Some (rt_venue d) \<and> ci_quantity c = rt_allocated_quantity d
     \<and> (\<exists>cap\<in>set capabilities. vc_venue cap = rt_venue d
         \<and> vc_capability_version cap = rt_capability_version d
         \<and> ChildLimit \<in> set (vc_supported_order_kinds cap)
         \<and> (\<forall>mn. vc_min_quantity cap = Some mn \<longrightarrow> mn \<le> ci_quantity c)
         \<and> (\<forall>mx. vc_max_quantity cap = Some mx \<longrightarrow> ci_quantity c \<le> mx))"

lemma venue_quantity_bounds:
  "venue_quantity c displayed x = Some a \<Longrightarrow>
    (\<forall>mn. vc_min_quantity c = Some mn \<longrightarrow> mn \<le> a) \<and> (\<forall>mx. vc_max_quantity c = Some mx \<longrightarrow> a \<le> mx)"
  by (auto simp: venue_quantity_def Let_def not_less min.coboundedI1 min_le_iff_disj
      split: option.splits if_splits)

section \<open>Properties\<close>

text \<open>C29: Smart routing takes the best venues first: the children are, in order, fills of the eligible
  quotes by all-in price, then latency, venue and size; every one but the last takes its whole
  displayed quantity, none takes more, each is limited at its quote inside the parent's limit, and
  quantity stays unallocated only when every eligible quote is exhausted.\<close>

theorem smart_route_best_first:
  assumes "smart_route p quotes = Ok plan" "\<forall>q\<in>set quotes. is_ok (all_in (po_side p) q)"
  shows "let best = eligible p (sort_key (quote_key (po_side p)) quotes) in
    greedy (ep_children plan) best (ep_unallocated_quantity plan)
    \<and> sorted (map (quote_key (po_side p)) best)
    \<and> set best = {q \<in> set quotes. \<not> beyond_limit p (vq_price q)} \<and> conserves plan p"
proof -
  let ?ordered = "sort_key (quote_key (po_side p)) quotes"
  from assms obtain cs r where valid: "parent_validate p = Inr ()" and quotes: "try_each check_quote quotes = Inr ()"
    and loop: "route_loop p ?ordered (po_quantity p) [] = Inr (cs, r)"
    and plan: "ep_children plan = cs" "ep_unallocated_quantity plan = r"
    by (auto simp: smart_route_def and_then_eq_Inr validated_plan_eq_Ok sort_quotes split: if_splits)
  from quotes have "\<forall>q\<in>set ?ordered. ZERO < vq_available_quantity q"
    by (simp add: try_each_eq_Inr check_quote_Ok)
  moreover from valid have "ZERO \<le> po_quantity p" by (simp add: parent_validate_eq_Ok decimal_cmp)
  ultimately have "greedy cs (eligible p ?ordered) r" using route_loop_Ok [OF loop] by auto
  moreover have "sorted (map (quote_key (po_side p)) (eligible p ?ordered))"
    unfolding eligible_def by (rule sorted_filter) simp
  moreover have "set (eligible p ?ordered) = {q \<in> set quotes. \<not> beyond_limit p (vq_price q)}"
    by (auto simp: eligible_def)
  ultimately show ?thesis
    using router.planned_conserves [OF assms(1)] plan by (simp add: Let_def)
qed

definition sample_quote :: "string \<Rightarrow> int \<Rightarrow> int \<Rightarrow> venue_quote" where
  "sample_quote v price fee = \<lparr>vq_venue = v, vq_available_quantity = Decimal 10000000000,
     vq_price = Decimal price, vq_fee_per_unit = Decimal fee, vq_latency_rank = 1\<rparr>"

lemmas routing_eval = smart_route_def sample_parent_valid [unfolded sample_parent_def] sample_parent_def
  check_quote_def sample_quote_def sort_by_def compare_quotes_def all_in_def cmp_def beyond_limit_def
  route_child_def plan_arith plan_checks Let_def

lemma sample_route:
  "\<exists>plan. smart_route sample_parent [sample_quote ''v'' 1000000000 200000000,
      sample_quote ''v'' 1100000000 100000000] = Ok plan
    \<and> map ci_limit_price (ep_children plan) = [Some (Decimal 1000000000)]"
  "\<exists>plan. smart_route sample_parent [sample_quote ''v'' 1100000000 100000000,
      sample_quote ''v'' 1000000000 200000000] = Ok plan
    \<and> map ci_limit_price (ep_children plan) = [Some (Decimal 1100000000)]"
  by (simp_all add: routing_eval)

theorem smart_route_best_first_witness:
  "\<exists>plan. smart_route sample_parent [sample_quote ''v'' 1000000000 200000000,
      sample_quote ''v'' 1100000000 100000000] = Ok plan \<and> conserves plan sample_parent"
proof -
  obtain plan where plan: "smart_route sample_parent [sample_quote ''v'' 1000000000 200000000,
      sample_quote ''v'' 1100000000 100000000] = Ok plan" using sample_route(1) by blast
  have "\<forall>q\<in>set [sample_quote ''v'' 1000000000 200000000, sample_quote ''v'' 1100000000 100000000].
      is_ok (all_in (po_side sample_parent) q)"
    by (simp add: sample_quote_def sample_parent_def all_in_def plan_arith)
  from smart_route_best_first [OF plan this] plan show ?thesis by (auto simp: Let_def)
qed

text \<open>The comparator does not settle every tie: two quotes of one venue with the same all-in price
  but a different split between price and fee compare as equal, and the plan then depends on the
  order in which they arrive.\<close>

theorem smart_route_depends_on_arrival_order:
  "\<exists>q1 q2 plan1 plan2. compare_quotes Buy q1 q2 = Equal \<and> q1 \<noteq> q2
    \<and> smart_route sample_parent [q1, q2] = Ok plan1 \<and> smart_route sample_parent [q2, q1] = Ok plan2
    \<and> map ci_limit_price (ep_children plan1) \<noteq> map ci_limit_price (ep_children plan2)"
proof -
  let ?a = "sample_quote ''v'' 1000000000 200000000" and ?b = "sample_quote ''v'' 1100000000 100000000"
  have "compare_quotes Buy ?a ?b = Equal" "?a \<noteq> ?b"
    by (simp_all add: sample_quote_def compare_quotes_def all_in_def plan_arith cmp_def)
  with sample_route show ?thesis by fastforce
qed

text \<open>Gated routing keeps to what each venue declared: every child goes to a registered venue that
  accepts limit orders, at a quantity within that venue's bounds, with exactly one routing decision
  that repeats its venue and quantity; and when no venue declares bounds the gate changes nothing:
  the plan is the plan of plain smart routing.\<close>

theorem gated_routing_sound:
  assumes "smart_route_with_capabilities p quotes capabilities = Ok (plan, decisions)"
  shows "list_all2 (within_capability capabilities) (ep_children plan) decisions
    \<and> conserves plan p
    \<and> ((\<forall>cap\<in>set capabilities. unbounded cap) \<longrightarrow> smart_route p quotes = Ok plan)"
proof -
  let ?ordered = "sort_by (compare_quotes (po_side p)) quotes"
  from assms obtain m cs r where valid: "parent_validate p = Inr ()"
    and bounds: "quotes \<noteq> []" "length quotes \<le> 1000"
    and caps: "try_fold register_capability capabilities [] = Inr m"
    and quotes: "try_each (check_capable_quote m) quotes = Inr ()"
    and loop: "gated_loop p m ?ordered (po_quantity p) [] [] = Inr (cs, decisions, r)"
    and ok: "validated_plan p \<lparr>ep_parent_order_id = po_parent_order_id p,
           ep_algorithm = ''smart-router-v1'', ep_children = cs, ep_unallocated_quantity = r\<rparr> = Inr plan"
    by (auto simp: smart_route_with_capabilities_def and_then_eq_Inr split: if_splits)
  from ok have plan: "ep_children plan = cs" "validate_against plan p = Inr ()"
    by (auto simp: validated_plan_eq_Ok)
  have cap: "c \<in> set capabilities \<and> vc_venue c = v" if "bt_get m v = Some c" for v c
    using register_capabilities_get [OF caps that] by simp
  have limit: "ChildLimit \<in> set (vc_supported_order_kinds c)"
    if "q \<in> set quotes" "bt_get m (vq_venue q) = Some c" for q c
    using quotes that by (auto simp: try_each_eq_Inr check_capable_quote_def and_then_eq_Inr split: if_splits)
  have "list_all2 (within_capability capabilities) cs decisions"
    by (rule gated_loop_bounds [OF loop])
      (use cap limit venue_quantity_bounds in \<open>fastforce simp: within_capability_def route_child_def decision_for_def\<close>)+
  moreover have "smart_route p quotes = Ok plan" if "\<forall>cap\<in>set capabilities. unbounded cap"
  proof -
    have "route_loop p ?ordered (po_quantity p) [] = Inr (cs, r)"
      by (rule gated_loop_unbounded [OF loop]) (use cap that in blast)
    moreover have "try_each check_quote quotes = Inr ()"
      using quotes by (auto simp: try_each_eq_Inr check_capable_quote_def and_then_eq_Inr)
    ultimately show ?thesis
      using valid bounds ok by (simp add: smart_route_def)
  qed
  ultimately show ?thesis
    using plan validate_against_conserves by blast
qed

definition sample_capability :: venue_capability where
  "sample_capability = \<lparr>vc_venue = ''v'', vc_capability_version = ''1'', vc_supported_order_kinds = [ChildLimit],
     vc_supports_iceberg = False, vc_min_quantity = None, vc_max_quantity = None\<rparr>"

theorem gated_routing_sound_witness:
  "\<exists>plan decisions. smart_route_with_capabilities sample_parent [sample_quote ''v'' 1000000000 200000000]
      [sample_capability] = Ok (plan, decisions)
    \<and> smart_route sample_parent [sample_quote ''v'' 1000000000 200000000] = Ok plan"
proof -
  have "\<exists>plan decisions. smart_route_with_capabilities sample_parent
      [sample_quote ''v'' 1000000000 200000000] [sample_capability] = Ok (plan, decisions)"
    by (simp add: smart_route_with_capabilities_def register_capability_def capability_validate_def
        sample_capability_def check_capable_quote_def venue_quantity_def routing_eval)
  then obtain plan decisions where "smart_route_with_capabilities sample_parent
      [sample_quote ''v'' 1000000000 200000000] [sample_capability] = Ok (plan, decisions)" by blast
  with gated_routing_sound [OF this] show ?thesis by (auto simp: unbounded_def sample_capability_def)
qed

end
