(* ===== verification/ExecTca.thy ===== *)
theory ExecTca
  imports ExecPlan OrderedMap "HOL-Library.Product_Lexorder" "HOL-Library.Multiset"
begin

text \<open>
  Component: transaction-cost analysis (\<^verbatim>\<open>core/execution/src/tca.rs\<close>): one parent order against
  its frozen benchmarks, and the batch with its aggregate buckets. The batch totals rest on the
  accumulation law of the map contract. The JSON and Markdown renderings of the evidence are not
  modelled (the string escape is \<^verbatim>\<open>serde_json\<close>'s).
\<close>

record tca_fill =
  tf_execution_id :: string
  tf_quantity :: decimal
  tf_price :: decimal
  tf_fee :: decimal

record tca_input =
  ti_analysis_id :: string
  ti_strategy_id :: string
  ti_parent_order_id :: string
  ti_execution_algorithm :: string
  ti_order_type :: string
  ti_side :: side
  ti_arrival_price :: decimal
  ti_target_price :: decimal
  ti_requested_quantity :: decimal
  ti_fills :: "tca_fill list"

record tca_report =
  tp_analysis_id :: string
  tp_strategy_id :: string
  tp_parent_order_id :: string
  tp_execution_algorithm :: string
  tp_order_type :: string
  tp_side :: side
  tp_arrival_price :: decimal
  tp_target_price :: decimal
  tp_requested_quantity :: decimal
  tp_filled_quantity :: decimal
  tp_unfilled_quantity :: decimal
  tp_execution_vwap :: "decimal option"
  tp_fees :: decimal
  tp_arrival_price_cost :: decimal
  tp_arrival_price_cost_bps :: decimal
  tp_target_price_cost :: decimal
  tp_target_price_cost_bps :: decimal
  tp_arrival_total_cost :: decimal
  tp_target_total_cost :: decimal

record tca_bucket =
  tb_strategy_id :: string
  tb_execution_algorithm :: string
  tb_order_type :: string
  tb_order_count :: nat
  tb_filled_quantity :: decimal
  tb_fees :: decimal
  tb_arrival_price_cost :: decimal
  tb_target_price_cost :: decimal
  tb_arrival_total_cost :: decimal
  tb_target_total_cost :: decimal

record tca_batch =
  tc_reports :: "tca_report list"
  tc_buckets :: "tca_bucket list"

definition benchmark_cost :: "side \<Rightarrow> decimal \<Rightarrow> decimal \<Rightarrow> decimal \<Rightarrow> decimal result" where
  "benchmark_cost s benchmark_price execution_notional filled_quantity =
     and_then (checked_mul benchmark_price filled_quantity) (\<lambda>benchmark_notional.
     case s of Buy \<Rightarrow> checked_sub execution_notional benchmark_notional
     | Sell \<Rightarrow> checked_sub benchmark_notional execution_notional)"

definition cost_bps :: "decimal \<Rightarrow> decimal \<Rightarrow> decimal result" where
  "cost_bps cost benchmark_notional =
     (if benchmark_notional = ZERO then Ok ZERO
      else and_then (from_integer 10000) (\<lambda>bps.
        and_then (checked_mul cost bps) (\<lambda>product. checked_div product benchmark_notional)))"

text \<open>The loop over the fills: seen executions, filled quantity, notional, fees.\<close>

definition tca_fill_step ::
    "tca_fill \<Rightarrow> string btree_set \<times> decimal \<times> decimal \<times> decimal
      \<Rightarrow> (string btree_set \<times> decimal \<times> decimal \<times> decimal) result" where
  "tca_fill_step f st = (case st of (execution_ids, filled_quantity, execution_notional, fees) \<Rightarrow>
     and_then (validate_canonical_id ''TCA execution_id'' (tf_execution_id f)) (\<lambda>_.
     if bs_contains (tf_execution_id f) execution_ids \<or> tf_quantity f \<le> ZERO \<or> tf_price f \<le> ZERO
        \<or> tf_fee f < ZERO
     then Err ''transaction-cost fills must be unique and economically valid''
     else and_then (checked_add filled_quantity (tf_quantity f)) (\<lambda>filled_quantity'.
       and_then (checked_mul (tf_price f) (tf_quantity f)) (\<lambda>notional.
       and_then (checked_add execution_notional notional) (\<lambda>execution_notional'.
       and_then (checked_add fees (tf_fee f)) (\<lambda>fees'.
       Ok (bs_insert (tf_execution_id f) execution_ids, filled_quantity', execution_notional', fees')))))))"

definition analyze_transaction_cost :: "tca_input \<Rightarrow> tca_report result" where
  "analyze_transaction_cost i =
     and_then (try_each (\<lambda>(name, v). validate_canonical_id name v)
       [(''TCA analysis_id'', ti_analysis_id i), (''TCA strategy_id'', ti_strategy_id i),
        (''TCA parent_order_id'', ti_parent_order_id i),
        (''TCA execution_algorithm'', ti_execution_algorithm i),
        (''TCA order_type'', ti_order_type i)]) (\<lambda>_.
     if ti_requested_quantity i \<le> ZERO \<or> ti_arrival_price i \<le> ZERO \<or> ti_target_price i \<le> ZERO
        \<or> length (ti_fills i) > 100000
     then Err ''transaction-cost input has invalid economics or exceeds bounded fills''
     else and_then (try_fold tca_fill_step (ti_fills i) ([], ZERO, ZERO, ZERO))
       (\<lambda>(_, filled_quantity, execution_notional, fees).
     if filled_quantity > ti_requested_quantity i
     then Err ''transaction-cost fills exceed the authorized parent quantity''
     else and_then (checked_sub (ti_requested_quantity i) filled_quantity) (\<lambda>unfilled_quantity.
       and_then (if filled_quantity = ZERO then Ok None
         else and_then (checked_div execution_notional filled_quantity) (\<lambda>v. Ok (Some v))) (\<lambda>execution_vwap.
       and_then (benchmark_cost (ti_side i) (ti_arrival_price i) execution_notional filled_quantity)
         (\<lambda>arrival_price_cost.
       and_then (benchmark_cost (ti_side i) (ti_target_price i) execution_notional filled_quantity)
         (\<lambda>target_price_cost.
       and_then (checked_mul (ti_arrival_price i) filled_quantity) (\<lambda>arrival_notional.
       and_then (checked_mul (ti_target_price i) filled_quantity) (\<lambda>target_notional.
       and_then (cost_bps arrival_price_cost arrival_notional) (\<lambda>arrival_price_cost_bps.
       and_then (cost_bps target_price_cost target_notional) (\<lambda>target_price_cost_bps.
       and_then (checked_add arrival_price_cost fees) (\<lambda>arrival_total_cost.
       and_then (checked_add target_price_cost fees) (\<lambda>target_total_cost.
       Ok \<lparr>tp_analysis_id = ti_analysis_id i, tp_strategy_id = ti_strategy_id i,
         tp_parent_order_id = ti_parent_order_id i, tp_execution_algorithm = ti_execution_algorithm i,
         tp_order_type = ti_order_type i, tp_side = ti_side i, tp_arrival_price = ti_arrival_price i,
         tp_target_price = ti_target_price i, tp_requested_quantity = ti_requested_quantity i,
         tp_filled_quantity = filled_quantity, tp_unfilled_quantity = unfilled_quantity,
         tp_execution_vwap = execution_vwap, tp_fees = fees,
         tp_arrival_price_cost = arrival_price_cost, tp_arrival_price_cost_bps = arrival_price_cost_bps,
         tp_target_price_cost = target_price_cost, tp_target_price_cost_bps = target_price_cost_bps,
         tp_arrival_total_cost = arrival_total_cost, tp_target_total_cost = target_total_cost\<rparr>))))))))))))"

section \<open>The batch\<close>

type_synonym bucket_key = "string \<times> string \<times> string"

definition bucket_key_of :: "tca_report \<Rightarrow> bucket_key" where
  "bucket_key_of r = (tp_strategy_id r, tp_execution_algorithm r, tp_order_type r)"

definition empty_bucket :: "bucket_key \<Rightarrow> tca_bucket" where
  "empty_bucket k = (case k of (strategy, algorithm, order_type1) \<Rightarrow>
     \<lparr>tb_strategy_id = strategy, tb_execution_algorithm = algorithm, tb_order_type = order_type1,
      tb_order_count = 0, tb_filled_quantity = ZERO, tb_fees = ZERO, tb_arrival_price_cost = ZERO,
      tb_target_price_cost = ZERO, tb_arrival_total_cost = ZERO, tb_target_total_cost = ZERO\<rparr>)"

text \<open>One report's share of its bucket, and adding it.\<close>

definition report_share :: "tca_report \<Rightarrow> tca_bucket" where
  "report_share r = \<lparr>tb_strategy_id = tp_strategy_id r, tb_execution_algorithm = tp_execution_algorithm r,
     tb_order_type = tp_order_type r, tb_order_count = 1, tb_filled_quantity = tp_filled_quantity r,
     tb_fees = tp_fees r, tb_arrival_price_cost = tp_arrival_price_cost r,
     tb_target_price_cost = tp_target_price_cost r, tb_arrival_total_cost = tp_arrival_total_cost r,
     tb_target_total_cost = tp_target_total_cost r\<rparr>"

definition bucket_add :: "tca_bucket \<Rightarrow> tca_bucket \<Rightarrow> tca_bucket result" where
  "bucket_add b s =
     and_then (ok_or (u64_checked (tb_order_count b + tb_order_count s))
       ''transaction-cost order count overflowed'') (\<lambda>order_count.
     and_then (checked_add (tb_filled_quantity b) (tb_filled_quantity s)) (\<lambda>filled_quantity.
     and_then (checked_add (tb_fees b) (tb_fees s)) (\<lambda>fees.
     and_then (checked_add (tb_arrival_price_cost b) (tb_arrival_price_cost s)) (\<lambda>arrival_price_cost.
     and_then (checked_add (tb_target_price_cost b) (tb_target_price_cost s)) (\<lambda>target_price_cost.
     and_then (checked_add (tb_arrival_total_cost b) (tb_arrival_total_cost s)) (\<lambda>arrival_total_cost.
     and_then (checked_add (tb_target_total_cost b) (tb_target_total_cost s)) (\<lambda>target_total_cost.
     Ok (b\<lparr>tb_order_count := order_count, tb_filled_quantity := filled_quantity, tb_fees := fees,
       tb_arrival_price_cost := arrival_price_cost, tb_target_price_cost := target_price_cost,
       tb_arrival_total_cost := arrival_total_cost, tb_target_total_cost := target_total_cost\<rparr>))))))))"

type_synonym bucket_map = "(bucket_key, tca_bucket) btree_map"

definition add_report :: "tca_report \<Rightarrow> bucket_map \<Rightarrow> bucket_map result" where
  "add_report r m =
     and_then (bucket_add (case bt_get m (bucket_key_of r) of None \<Rightarrow> empty_bucket (bucket_key_of r)
         | Some b \<Rightarrow> b) (report_share r)) (\<lambda>b.
     Ok (bt_insert (bucket_key_of r) b m))"

definition tca_step ::
    "tca_input \<Rightarrow> string btree_set \<times> tca_report list \<times> bucket_map
      \<Rightarrow> (string btree_set \<times> tca_report list \<times> bucket_map) result" where
  "tca_step i st = (case st of (seen, reports, buckets) \<Rightarrow>
     if bs_contains (ti_analysis_id i) seen
     then Err ''transaction-cost batch contains duplicate analysis_id''
     else and_then (analyze_transaction_cost i) (\<lambda>report.
       and_then (add_report report buckets) (\<lambda>buckets'.
       Ok (bs_insert (ti_analysis_id i) seen, reports @ [report], buckets'))))"

definition analyze_transaction_costs :: "tca_input list \<Rightarrow> tca_batch result" where
  "analyze_transaction_costs inputs =
     (if inputs = [] \<or> length inputs > 100000
      then Err ''transaction-cost batch requires between one and 100000 parent orders''
      else and_then (try_fold tca_step inputs ([], [], [])) (\<lambda>(_, reports, buckets).
        Ok \<lparr>tc_reports = sort_key tp_analysis_id reports, tc_buckets = map snd buckets\<rparr>))"

section \<open>One parent order\<close>

lemma tca_fills_Ok:
  assumes "try_fold tca_fill_step fs (ids, q, n, fees) = Inr (ids', q', n', fees')"
  shows "scaled q' = scaled q + (\<Sum>f\<leftarrow>fs. scaled (tf_quantity f))
    \<and> scaled n' = scaled n + (\<Sum>f\<leftarrow>fs. scaled (tf_price f) * scaled (tf_quantity f) div DECIMAL_SCALE)
    \<and> scaled fees' = scaled fees + (\<Sum>f\<leftarrow>fs. scaled (tf_fee f))
    \<and> distinct (map tf_execution_id fs) \<and> set ids \<inter> tf_execution_id ` set fs = {}
    \<and> (\<forall>f\<in>set fs. ZERO < tf_quantity f \<and> ZERO < tf_price f \<and> ZERO \<le> tf_fee f)"
  using assms
proof (induction fs arbitrary: ids q n fees)
  case (Cons f fs)
  from Cons.prems obtain st where step: "tca_fill_step f (ids, q, n, fees) = Inr st"
    and rest: "try_fold tca_fill_step fs st = Inr (ids', q', n', fees')"
    by (auto simp: and_then_eq_Inr)
  obtain ids1 q1 n1 fees1 where st: "st = (ids1, q1, n1, fees1)" by (cases st) auto
  from step st have f: "tf_execution_id f \<notin> set ids" "ZERO < tf_quantity f" "ZERO < tf_price f"
      "ZERO \<le> tf_fee f" "scaled q1 = scaled q + scaled (tf_quantity f)"
      "scaled fees1 = scaled fees + scaled (tf_fee f)" "set ids1 = insert (tf_execution_id f) (set ids)"
      "\<exists>v. checked_mul (tf_price f) (tf_quantity f) = Inr v \<and> scaled n1 = scaled n + scaled v"
    by (auto simp: tca_fill_step_def and_then_eq_Inr checked_add_eq_Ok bs_contains_def not_le not_less
        split: if_splits)
  from f(2,3,8) have "scaled n1 = scaled n + scaled (tf_price f) * scaled (tf_quantity f) div DECIMAL_SCALE"
    using checked_mul_nonneg by (fastforce simp: decimal_cmp)
  with Cons.IH [OF rest [unfolded st]] f show ?case by auto
qed simp

lemma benchmark_cost_Ok:
  assumes "benchmark_cost s b n q = Inr c" "0 \<le> scaled b" "0 \<le> scaled q"
  shows "scaled c = side_sign s * (scaled n - scaled b * scaled q div DECIMAL_SCALE)"
  using assms by (cases s) (auto simp: benchmark_cost_def and_then_eq_Inr checked_sub_eq_Ok
      dest!: checked_mul_nonneg)

definition fills_notional :: "tca_input \<Rightarrow> int" where
  "fills_notional i = (\<Sum>f\<leftarrow>ti_fills i. scaled (tf_price f) * scaled (tf_quantity f) div DECIMAL_SCALE)"

lemma sum_list_nonneg_scaled: "\<forall>x\<in>set xs. 0 \<le> f x \<Longrightarrow> 0 \<le> (\<Sum>x\<leftarrow>xs. f x :: int)"
  by (rule sum_list_nonneg) auto

lemma analyze_Ok:
  assumes "analyze_transaction_cost i = Inr r"
  obtains ids n where "try_fold tca_fill_step (ti_fills i) ([], ZERO, ZERO, ZERO)
      = Inr (ids, tp_filled_quantity r, n, tp_fees r)"
    "tp_filled_quantity r \<le> ti_requested_quantity i"
    "scaled (tp_unfilled_quantity r) = scaled (ti_requested_quantity i) - scaled (tp_filled_quantity r)"
    "benchmark_cost (ti_side i) (ti_arrival_price i) n (tp_filled_quantity r) = Inr (tp_arrival_price_cost r)"
    "benchmark_cost (ti_side i) (ti_target_price i) n (tp_filled_quantity r) = Inr (tp_target_price_cost r)"
    "scaled (tp_arrival_total_cost r) = scaled (tp_arrival_price_cost r) + scaled (tp_fees r)"
    "scaled (tp_target_total_cost r) = scaled (tp_target_price_cost r) + scaled (tp_fees r)"
    "ZERO < ti_arrival_price i" "ZERO < ti_target_price i" "tp_analysis_id r = ti_analysis_id i"
    "(tp_execution_vwap r = None \<longleftrightarrow> tp_filled_quantity r = ZERO)"
proof -
  from assms obtain ids q n fees where loop: "try_fold tca_fill_step (ti_fills i) ([], ZERO, ZERO, ZERO)
      = Inr (ids, q, n, fees)"
    and rest: "\<not> (ti_requested_quantity i \<le> ZERO \<or> ti_arrival_price i \<le> ZERO \<or> ti_target_price i \<le> ZERO)"
      "\<not> q > ti_requested_quantity i" "tp_filled_quantity r = q" "tp_fees r = fees"
      "checked_sub (ti_requested_quantity i) q = Inr (tp_unfilled_quantity r)"
      "benchmark_cost (ti_side i) (ti_arrival_price i) n q = Inr (tp_arrival_price_cost r)"
      "benchmark_cost (ti_side i) (ti_target_price i) n q = Inr (tp_target_price_cost r)"
      "checked_add (tp_arrival_price_cost r) fees = Inr (tp_arrival_total_cost r)"
      "checked_add (tp_target_price_cost r) fees = Inr (tp_target_total_cost r)"
      "tp_analysis_id r = ti_analysis_id i"
      "tp_execution_vwap r = None \<longleftrightarrow> q = ZERO"
    unfolding analyze_transaction_cost_def and_then_eq_Inr if_Err_eq_Ok
    by (auto simp: and_then_eq_Inr if_Err_eq_Ok simp del: not_le not_less split: if_splits)
  show ?thesis
    by (rule that [of ids n]) (use loop rest in \<open>simp_all add: checked_sub_eq_Ok checked_add_eq_Ok not_le not_less\<close>)
qed

section \<open>The batch totals\<close>

definition bucket_id :: "tca_bucket \<Rightarrow> bucket_key" where
  "bucket_id b = (tb_strategy_id b, tb_execution_algorithm b, tb_order_type b)"

lemma bucket_add_exact:
  assumes "bucket_add a b = Inr c"
  shows "int (tb_order_count c) = int (tb_order_count a) + int (tb_order_count b)"
    "scaled (tb_filled_quantity c) = scaled (tb_filled_quantity a) + scaled (tb_filled_quantity b)"
    "scaled (tb_fees c) = scaled (tb_fees a) + scaled (tb_fees b)"
    "scaled (tb_arrival_price_cost c) = scaled (tb_arrival_price_cost a) + scaled (tb_arrival_price_cost b)"
    "scaled (tb_target_price_cost c) = scaled (tb_target_price_cost a) + scaled (tb_target_price_cost b)"
    "scaled (tb_arrival_total_cost c) = scaled (tb_arrival_total_cost a) + scaled (tb_arrival_total_cost b)"
    "scaled (tb_target_total_cost c) = scaled (tb_target_total_cost a) + scaled (tb_target_total_cost b)"
    "bucket_id c = bucket_id a"
  using assms unfolding bucket_add_def and_then_eq_Inr
  by (auto simp: result_simps bucket_id_def)

lemma empty_bucket_zero [simp]:
  "tb_order_count (empty_bucket k) = 0" "scaled (tb_filled_quantity (empty_bucket k)) = 0"
  "scaled (tb_fees (empty_bucket k)) = 0" "scaled (tb_arrival_price_cost (empty_bucket k)) = 0"
  "scaled (tb_target_price_cost (empty_bucket k)) = 0" "scaled (tb_arrival_total_cost (empty_bucket k)) = 0"
  "scaled (tb_target_total_cost (empty_bucket k)) = 0" "bucket_id (empty_bucket k) = k"
  by (cases k; simp add: empty_bucket_def bucket_id_def)+

lemma add_reports_total:
  assumes "try_fold add_report rs [] = Inr m"
    and "\<And>a b c. bucket_add a b = Inr c \<Longrightarrow> val c = val a + val b" "\<And>k. val (empty_bucket k) = (0 :: int)"
    and "bt_get m k = Some b"
  shows "val b = (\<Sum>r\<leftarrow>filter (\<lambda>r. bucket_key_of r = k) rs. val (report_share r))"
  using bt.accumulate [of bucket_add val empty_bucket bucket_key_of report_share rs "[]" m k] assms
  by (simp add: add_report_def [abs_def] bt_sorted_def)

lemma add_reports_keys:
  assumes "try_fold add_report rs [] = Inr m"
  shows "bt_sorted m" and "bt_get m k = None \<longleftrightarrow> (\<forall>r\<in>set rs. bucket_key_of r \<noteq> k)"
    and "bt_get m k = Some b \<Longrightarrow> bucket_id b = k"
proof -
  show "bt_sorted m" "bt_get m k = None \<longleftrightarrow> (\<forall>r\<in>set rs. bucket_key_of r \<noteq> k)"
    using bt.accumulate [of bucket_add "\<lambda>b. int (tb_order_count b)" empty_bucket bucket_key_of report_share rs "[]" m k]
      assms bucket_add_exact(1)
    by (simp_all add: add_report_def [abs_def] bt_sorted_def)
  have "\<forall>k b. bt_get m k = Some b \<longrightarrow> bucket_id b = k"
  proof (rule try_fold_invariant [OF assms, where P = "\<lambda>m. \<forall>k b. bt_get m k = Some b \<longrightarrow> bucket_id b = k"])
    fix r u v
    assume inv: "\<forall>k b. bt_get u k = Some b \<longrightarrow> bucket_id b = k" and step: "add_report r u = Inr v"
    let ?old = "case bt_get u (bucket_key_of r) of None \<Rightarrow> empty_bucket (bucket_key_of r) | Some b \<Rightarrow> b"
    from step obtain c where c: "bucket_add ?old (report_share r) = Inr c" "v = bt_insert (bucket_key_of r) c u"
      by (auto simp: add_report_def and_then_eq_Inr)
    have "bucket_id ?old = bucket_key_of r" using inv [rule_format] by (cases "bt_get u (bucket_key_of r)") simp_all
    with bucket_add_exact(8) [OF c(1)] inv show "\<forall>k b. bt_get v k = Some b \<longrightarrow> bucket_id b = k"
      by (simp add: c(2) bt_get_insert)
  qed simp
  then show "bt_get m k = Some b \<Longrightarrow> bucket_id b = k" by blast
qed

lemma bucket_totals:
  assumes "try_fold add_report rs [] = Inr m" "bt_get m k = Some b"
  shows "tb_order_count b = length (filter (\<lambda>r. bucket_key_of r = k) rs)"
    "scaled (tb_filled_quantity b) = (\<Sum>r\<leftarrow>filter (\<lambda>r. bucket_key_of r = k) rs. scaled (tp_filled_quantity r))"
    "scaled (tb_fees b) = (\<Sum>r\<leftarrow>filter (\<lambda>r. bucket_key_of r = k) rs. scaled (tp_fees r))"
    "scaled (tb_arrival_total_cost b) = (\<Sum>r\<leftarrow>filter (\<lambda>r. bucket_key_of r = k) rs. scaled (tp_arrival_total_cost r))"
    "scaled (tb_target_total_cost b) = (\<Sum>r\<leftarrow>filter (\<lambda>r. bucket_key_of r = k) rs. scaled (tp_target_total_cost r))"
proof -
  note sums = add_reports_total [OF assms(1) _ _ assms(2)]
  have "int (tb_order_count b) = int (length (filter (\<lambda>r. bucket_key_of r = k) rs))"
    by (subst sums [of "\<lambda>b. int (tb_order_count b)"])
      (simp_all add: bucket_add_exact(1) report_share_def sum_list_triv)
  then show "tb_order_count b = length (filter (\<lambda>r. bucket_key_of r = k) rs)" by simp
  show "scaled (tb_filled_quantity b) = (\<Sum>r\<leftarrow>filter (\<lambda>r. bucket_key_of r = k) rs. scaled (tp_filled_quantity r))"
    by (subst sums [of "\<lambda>b. scaled (tb_filled_quantity b)"]) (simp_all add: bucket_add_exact report_share_def)
  show "scaled (tb_fees b) = (\<Sum>r\<leftarrow>filter (\<lambda>r. bucket_key_of r = k) rs. scaled (tp_fees r))"
    by (subst sums [of "\<lambda>b. scaled (tb_fees b)"]) (simp_all add: bucket_add_exact report_share_def)
  show "scaled (tb_arrival_total_cost b) = (\<Sum>r\<leftarrow>filter (\<lambda>r. bucket_key_of r = k) rs. scaled (tp_arrival_total_cost r))"
    by (subst sums [of "\<lambda>b. scaled (tb_arrival_total_cost b)"]) (simp_all add: bucket_add_exact report_share_def)
  show "scaled (tb_target_total_cost b) = (\<Sum>r\<leftarrow>filter (\<lambda>r. bucket_key_of r = k) rs. scaled (tp_target_total_cost r))"
    by (subst sums [of "\<lambda>b. scaled (tb_target_total_cost b)"]) (simp_all add: bucket_add_exact report_share_def)
qed

lemma tca_steps_Ok:
  assumes "try_fold tca_step inputs (seen, rs, m) = Inr (seen', rs', m')"
  shows "\<exists>new. rs' = rs @ new \<and> list_all2 (\<lambda>i r. analyze_transaction_cost i = Inr r) inputs new
    \<and> try_fold add_report new m = Inr m' \<and> distinct (map ti_analysis_id inputs)
    \<and> set seen \<inter> ti_analysis_id ` set inputs = {}"
  using assms
proof (induction inputs arbitrary: seen rs m)
  case (Cons i inputs)
  from Cons.prems obtain r m1 where fresh: "ti_analysis_id i \<notin> set seen"
    and r: "analyze_transaction_cost i = Inr r" and m1: "add_report r m = Inr m1"
    and rest: "try_fold tca_step inputs (bs_insert (ti_analysis_id i) seen, rs @ [r], m1) = Inr (seen', rs', m')"
    by (auto simp: and_then_eq_Inr tca_step_def [of i] bs_contains_def split: if_splits)
  from Cons.IH [OF rest] obtain new where "rs' = (rs @ [r]) @ new"
    "list_all2 (\<lambda>i r. analyze_transaction_cost i = Inr r) inputs new" "try_fold add_report new m1 = Inr m'"
    "distinct (map ti_analysis_id inputs)"
    "set (bs_insert (ti_analysis_id i) seen) \<inter> ti_analysis_id ` set inputs = {}" by blast
  with fresh r m1 show ?case by (intro exI [of _ "r # new"]) auto
qed simp

section \<open>Properties\<close>

text \<open>A cost report is exact evidence about its fills: executions are counted once, filled and
  unfilled quantity make up the authorised one, the cost against each frozen benchmark is the signed
  difference of notionals, so that positive means adverse on either side, and the total adds
  exactly the attributed fees.\<close>

theorem transaction_cost_exact:
  assumes "analyze_transaction_cost i = Ok r"
  shows "distinct (map tf_execution_id (ti_fills i))
    \<and> scaled (tp_filled_quantity r) = (\<Sum>f\<leftarrow>ti_fills i. scaled (tf_quantity f))
    \<and> 0 \<le> scaled (tp_unfilled_quantity r)
    \<and> scaled (tp_filled_quantity r) + scaled (tp_unfilled_quantity r) = scaled (ti_requested_quantity i)
    \<and> scaled (tp_fees r) = (\<Sum>f\<leftarrow>ti_fills i. scaled (tf_fee f))
    \<and> scaled (tp_arrival_price_cost r) = side_sign (ti_side i) *
        (fills_notional i - scaled (ti_arrival_price i) * scaled (tp_filled_quantity r) div DECIMAL_SCALE)
    \<and> scaled (tp_target_price_cost r) = side_sign (ti_side i) *
        (fills_notional i - scaled (ti_target_price i) * scaled (tp_filled_quantity r) div DECIMAL_SCALE)
    \<and> scaled (tp_arrival_total_cost r) = scaled (tp_arrival_price_cost r) + scaled (tp_fees r)
    \<and> scaled (tp_target_total_cost r) = scaled (tp_target_price_cost r) + scaled (tp_fees r)
    \<and> (tp_execution_vwap r = None \<longleftrightarrow> ti_fills i = [])"
  using assms
proof (rule analyze_Ok)
  fix ids n
  assume loop: "try_fold tca_fill_step (ti_fills i) ([], ZERO, ZERO, ZERO)
      = Inr (ids, tp_filled_quantity r, n, tp_fees r)"
    and le: "tp_filled_quantity r \<le> ti_requested_quantity i"
    and un: "scaled (tp_unfilled_quantity r) = scaled (ti_requested_quantity i) - scaled (tp_filled_quantity r)"
    and costs: "benchmark_cost (ti_side i) (ti_arrival_price i) n (tp_filled_quantity r) = Inr (tp_arrival_price_cost r)"
    "benchmark_cost (ti_side i) (ti_target_price i) n (tp_filled_quantity r) = Inr (tp_target_price_cost r)"
    and totals: "scaled (tp_arrival_total_cost r) = scaled (tp_arrival_price_cost r) + scaled (tp_fees r)"
    "scaled (tp_target_total_cost r) = scaled (tp_target_price_cost r) + scaled (tp_fees r)"
    and pos: "ZERO < ti_arrival_price i" "ZERO < ti_target_price i"
    and vwap: "(tp_execution_vwap r = None \<longleftrightarrow> tp_filled_quantity r = ZERO)"
  note fills = tca_fills_Ok [OF loop]
  have q: "0 \<le> scaled (tp_filled_quantity r)"
  proof -
    have "0 \<le> (\<Sum>f\<leftarrow>ti_fills i. scaled (tf_quantity f))"
      by (rule sum_list_nonneg_scaled) (use fills in \<open>auto simp: decimal_cmp less_imp_le\<close>)
    with fills show ?thesis by simp
  qed
  have empty: "tp_filled_quantity r = ZERO \<longleftrightarrow> ti_fills i = []"
  proof
    assume "tp_filled_quantity r = ZERO"
    then show "ti_fills i = []"
      using fills sum_list_member_le [of "hd (ti_fills i)" "ti_fills i" "\<lambda>f. scaled (tf_quantity f)"]
      by (cases "ti_fills i") (fastforce simp: decimal_cmp)+
  next
    assume "ti_fills i = []"
    with fills show "tp_filled_quantity r = ZERO" by (cases "tp_filled_quantity r") simp
  qed
  from fills have n: "scaled n = fills_notional i" by (simp add: fills_notional_def)
  from benchmark_cost_Ok [OF costs(1) _ q] benchmark_cost_Ok [OF costs(2) _ q] pos n
  have "scaled (tp_arrival_price_cost r) = side_sign (ti_side i) *
        (fills_notional i - scaled (ti_arrival_price i) * scaled (tp_filled_quantity r) div DECIMAL_SCALE)"
    "scaled (tp_target_price_cost r) = side_sign (ti_side i) *
        (fills_notional i - scaled (ti_target_price i) * scaled (tp_filled_quantity r) div DECIMAL_SCALE)"
    by (simp_all add: decimal_cmp)
  with fills le un totals vwap empty show ?thesis by (simp add: decimal_cmp)
qed

definition sample_tca :: tca_input where
  "sample_tca = \<lparr>ti_analysis_id = ''t'', ti_strategy_id = ''s'', ti_parent_order_id = ''p'',
     ti_execution_algorithm = ''twap'', ti_order_type = ''limit'', ti_side = Sell,
     ti_arrival_price = Decimal 1000000000, ti_target_price = Decimal 990000000,
     ti_requested_quantity = Decimal 300000000,
     ti_fills = [\<lparr>tf_execution_id = ''e'', tf_quantity = Decimal 200000000,
       tf_price = Decimal 980000000, tf_fee = Decimal 1000000\<rparr>]\<rparr>"

lemma sample_tca_report:
  "\<exists>r. analyze_transaction_cost sample_tca = Ok r \<and> tp_arrival_price_cost r = Decimal 40000000"
  by (simp add: analyze_transaction_cost_def sample_tca_def validate_canonical_id_def is_id_byte_def
      is_ascii_digit_def is_ascii_lowercase_def tca_fill_step_def bs_contains_def benchmark_cost_def
      cost_bps_def checked_add_def checked_sub_def checked_mul_def checked_div_def i128_checked_def
      in_i128_def DECIMAL_SCALE_def sdiv_nonneg_eq_div)

theorem transaction_cost_exact_witness:
  "\<exists>r. analyze_transaction_cost sample_tca = Ok r \<and> scaled (tp_unfilled_quantity r) = 100000000
    \<and> scaled (tp_arrival_total_cost r) = 41000000"
proof -
  obtain r where r: "analyze_transaction_cost sample_tca = Ok r" "tp_arrival_price_cost r = Decimal 40000000"
    using sample_tca_report by blast
  from transaction_cost_exact [OF r(1)] r show ?thesis by (auto simp: sample_tca_def)
qed

text \<open>The aggregate buckets of a batch are complete and exact: one bucket for each strategy,
  algorithm and order type that occurs, in order, whose count, quantity, fees and costs are the sums
  over exactly its reports; no analysis is counted twice.\<close>

theorem cost_batch_totals_exact:
  assumes "analyze_transaction_costs inputs = Ok batch"
  shows "distinct (map ti_analysis_id inputs) \<and> sorted (map tp_analysis_id (tc_reports batch))
    \<and> (\<exists>reports. list_all2 (\<lambda>i r. analyze_transaction_cost i = Ok r) inputs reports
        \<and> mset (tc_reports batch) = mset reports)
    \<and> sorted_wrt (<) (map bucket_id (tc_buckets batch))
    \<and> bucket_id ` set (tc_buckets batch) = bucket_key_of ` set (tc_reports batch)
    \<and> (\<forall>b\<in>set (tc_buckets batch).
        let mine = filter (\<lambda>r. bucket_key_of r = bucket_id b) (tc_reports batch) in
        tb_order_count b = length mine
        \<and> scaled (tb_filled_quantity b) = (\<Sum>r\<leftarrow>mine. scaled (tp_filled_quantity r))
        \<and> scaled (tb_fees b) = (\<Sum>r\<leftarrow>mine. scaled (tp_fees r))
        \<and> scaled (tb_arrival_total_cost b) = (\<Sum>r\<leftarrow>mine. scaled (tp_arrival_total_cost r))
        \<and> scaled (tb_target_total_cost b) = (\<Sum>r\<leftarrow>mine. scaled (tp_target_total_cost r)))"
proof -
  from assms obtain seen reports m where loop: "try_fold tca_step inputs ([], [], []) = Inr (seen, reports, m)"
    and batch: "tc_reports batch = sort_key tp_analysis_id reports" "tc_buckets batch = map snd m"
    by (auto simp: analyze_transaction_costs_def and_then_eq_Inr split: if_splits)
  from tca_steps_Ok [OF loop] have rs: "list_all2 (\<lambda>i r. analyze_transaction_cost i = Inr r) inputs reports"
    and fold: "try_fold add_report reports [] = Inr m" and ids: "distinct (map ti_analysis_id inputs)"
    by auto
  note keys = add_reports_keys [OF fold]
  have entry: "bt_get m (bucket_id b) = Some b" if "b \<in> set (tc_buckets batch)" for b
    using that batch keys(3) bt_get_iff [OF keys(1)] by force
  have ids_fst: "map bucket_id (tc_buckets batch) = map fst m"
    using batch keys(3) bt_get_iff [OF keys(1)] by (auto simp: comp_def)
  have filter_eq: "(\<Sum>r\<leftarrow>filter P (sort_key tp_analysis_id reports). h r) = (\<Sum>r\<leftarrow>filter P reports. h r :: int)" for P h
  proof -
    have "sum_mset (mset (map h (filter P (sort_key tp_analysis_id reports)))) = sum_mset (mset (map h (filter P reports)))"
      by (simp only: mset_map mset_filter mset_sort)
    then show ?thesis by (simp only: sum_mset_sum_list)
  qed
  have len_eq: "length (filter P (sort_key tp_analysis_id reports)) = length (filter P reports)" for P
    by (metis mset_filter mset_sort size_mset)
  show ?thesis
  proof (intro conjI ballI exI [of _ reports])
    show "sorted_wrt (<) (map bucket_id (tc_buckets batch))"
      using keys(1) by (simp add: ids_fst bt_sorted_def)
    have "fst ` set m = bucket_key_of ` set reports"
    proof (rule set_eqI)
      fix k
      have "k \<in> fst ` set m \<longleftrightarrow> bt_get m k \<noteq> None" using bt_get_mem [OF keys(1), of k] by simp
      also have "\<dots> \<longleftrightarrow> k \<in> bucket_key_of ` set reports" using keys(2) [of k] by (auto simp: image_iff)
      finally show "k \<in> fst ` set m \<longleftrightarrow> k \<in> bucket_key_of ` set reports" .
    qed
    moreover have "bucket_id ` set (tc_buckets batch) = fst ` set m"
      by (metis ids_fst set_map)
    ultimately show "bucket_id ` set (tc_buckets batch) = bucket_key_of ` set (tc_reports batch)"
      by (simp add: batch(1))
    fix b
    assume b: "b \<in> set (tc_buckets batch)"
    show "let mine = filter (\<lambda>r. bucket_key_of r = bucket_id b) (tc_reports batch) in
        tb_order_count b = length mine
        \<and> scaled (tb_filled_quantity b) = (\<Sum>r\<leftarrow>mine. scaled (tp_filled_quantity r))
        \<and> scaled (tb_fees b) = (\<Sum>r\<leftarrow>mine. scaled (tp_fees r))
        \<and> scaled (tb_arrival_total_cost b) = (\<Sum>r\<leftarrow>mine. scaled (tp_arrival_total_cost r))
        \<and> scaled (tb_target_total_cost b) = (\<Sum>r\<leftarrow>mine. scaled (tp_target_total_cost r))"
      using bucket_totals [OF fold entry [OF b]] by (simp add: Let_def batch(1) filter_eq len_eq)
  qed (use rs ids batch in simp_all)
qed

lemma sample_batch: "\<exists>batch. analyze_transaction_costs [sample_tca] = Ok batch"
  by (simp add: analyze_transaction_costs_def tca_step_def add_report_def bucket_add_def
      analyze_transaction_cost_def sample_tca_def validate_canonical_id_def is_id_byte_def
      is_ascii_digit_def is_ascii_lowercase_def tca_fill_step_def bs_contains_def benchmark_cost_def
      cost_bps_def checked_add_def checked_sub_def checked_mul_def checked_div_def i128_checked_def
      in_i128_def DECIMAL_SCALE_def sdiv_nonneg_eq_div u64_checked_def empty_bucket_def
      bucket_key_of_def report_share_def signed_divide_int_def)

theorem cost_batch_totals_exact_witness:
  "\<exists>batch. analyze_transaction_costs [sample_tca] = Ok batch
    \<and> bucket_id ` set (tc_buckets batch) = bucket_key_of ` set (tc_reports batch)
    \<and> sorted_wrt (<) (map bucket_id (tc_buckets batch))"
  using sample_batch cost_batch_totals_exact by blast

end
