(* ===== verification/RiskModel.thy ===== *)
theory RiskModel
  imports Instruments
begin

text \<open>
  Component: the data of the portfolio-wide risk engine (\<^verbatim>\<open>core/risk/src/numeric.rs\<close>,
  \<^verbatim>\<open>position.rs\<close>, \<^verbatim>\<open>policy.rs\<close>): checked helpers, marked positions, resting and candidate orders,
  the snapshot and the versioned policy with its validation. The candidate made from a foreign
  exchange price snapshot is in \<open>RiskFx\<close>.
\<close>

section \<open>Checked helpers\<close>

definition negate :: "decimal \<Rightarrow> decimal result" where
  "negate v = ok_or (map_option Decimal (i128_checked (- scaled v))) ''risk decimal negation overflowed''"

definition absolute :: "decimal \<Rightarrow> decimal result" where
  "absolute v = (if v \<ge> ZERO then Ok v else negate v)"

definition ratio_bps :: "decimal \<Rightarrow> decimal \<Rightarrow> decimal result" where
  "ratio_bps numerator denominator =
     (if numerator < ZERO \<or> denominator \<le> ZERO then Err ''risk ratio requires valid inputs''
      else and_then (from_integer 10000) (\<lambda>bps.
        and_then (checked_mul numerator bps) (\<lambda>product. checked_div product denominator)))"

lemma negate_eq_Ok [result_simps]:
  "negate v = Inr n \<longleftrightarrow> in_i128 (- scaled v) \<and> n = Decimal (- scaled v)"
  by (auto simp: negate_def i128_checked_def)

lemma absolute_eq_Ok [result_simps]:
  "absolute v = Inr a \<longleftrightarrow> (scaled v < 0 \<longrightarrow> in_i128 (- scaled v)) \<and> a = Decimal \<bar>scaled v\<bar>"
  by (cases v) (auto simp: absolute_def negate_eq_Ok decimal_cmp)

text \<open>A basis-point ratio is the quotient rounded down, in units of the last place.\<close>

definition bps_of :: "int \<Rightarrow> int \<Rightarrow> int" where
  "bps_of n d = n * (10000 * DECIMAL_SCALE) div d"

lemma ratio_bps_Ok:
  assumes "ratio_bps n d = Inr r"
  shows "0 \<le> scaled n" "0 < scaled d" "scaled r = bps_of (scaled n) (scaled d)"
proof -
  from assms show n: "0 \<le> scaled n" and d: "0 < scaled d"
    by (auto simp: ratio_bps_def decimal_cmp split: if_splits)
  from assms obtain p where p: "checked_mul n (Decimal 1000000000000) = Inr p" and r: "checked_div p d = Inr r"
    by (auto simp: ratio_bps_def and_then_eq_Inr split: if_splits)
  from checked_mul_nonneg [OF p n] have "scaled p = scaled n * 10000" by (simp add: DECIMAL_SCALE_def)
  with checked_div_pos [OF r] n d show "scaled r = bps_of (scaled n) (scaled d)"
    by (simp add: bps_of_def mult.assoc)
qed

section \<open>Positions and orders\<close>

record risk_position =
  rkp_account_id :: string
  rkp_strategy_id :: string
  rkp_instrument_id :: string
  rkp_asset_class :: string
  rkp_sector :: string
  rkp_currency :: string
  rkp_quantity :: decimal
  rkp_mark_price :: decimal
  rkp_multiplier :: decimal
  rkp_delta :: decimal
  rkp_gamma :: decimal

definition position_validate :: "risk_position \<Rightarrow> unit result" where
  "position_validate p =
     and_then (try_each (\<lambda>(name, v). validate_canonical_id name v)
       [(''risk account_id'', rkp_account_id p), (''risk strategy_id'', rkp_strategy_id p),
        (''risk instrument_id'', rkp_instrument_id p), (''risk asset_class'', rkp_asset_class p),
        (''risk sector'', rkp_sector p)]) (\<lambda>_.
     if length (rkp_currency p) \<noteq> 3 \<or> \<not> list_all is_ascii_uppercase (rkp_currency p)
        \<or> rkp_mark_price p \<le> ZERO \<or> rkp_multiplier p \<le> ZERO
     then Err ''invalid marked risk position'' else Ok ())"

definition signed_exposure :: "risk_position \<Rightarrow> decimal result" where
  "signed_exposure p =
     and_then (checked_mul (rkp_quantity p) (rkp_mark_price p)) (\<lambda>v. checked_mul v (rkp_multiplier p))"

record resting_order =
  rso_order_id :: string
  rso_account_id :: string
  rso_instrument_id :: string
  rso_side :: side

record candidate_order =
  cdo_intent_id :: string
  cdo_account_id :: string
  cdo_strategy_id :: string
  cdo_instrument_id :: string
  cdo_asset_class :: string
  cdo_sector :: string
  cdo_currency :: string
  cdo_side :: side
  cdo_quantity :: decimal
  cdo_mark_price :: decimal
  cdo_multiplier :: decimal
  cdo_delta :: decimal
  cdo_gamma :: decimal

text \<open>The position a candidate would become with the given quantity.\<close>

definition candidate_position :: "candidate_order \<Rightarrow> decimal \<Rightarrow> risk_position" where
  "candidate_position c quantity = \<lparr>rkp_account_id = cdo_account_id c, rkp_strategy_id = cdo_strategy_id c,
     rkp_instrument_id = cdo_instrument_id c, rkp_asset_class = cdo_asset_class c,
     rkp_sector = cdo_sector c, rkp_currency = cdo_currency c, rkp_quantity = quantity,
     rkp_mark_price = cdo_mark_price c, rkp_multiplier = cdo_multiplier c,
     rkp_delta = cdo_delta c, rkp_gamma = cdo_gamma c\<rparr>"

definition candidate_validate :: "candidate_order \<Rightarrow> unit result" where
  "candidate_validate c =
     and_then (validate_canonical_id ''candidate intent_id'' (cdo_intent_id c)) (\<lambda>_.
     and_then (position_validate (candidate_position c (cdo_quantity c))) (\<lambda>_.
     if cdo_quantity c \<le> ZERO then Err ''candidate quantity must be positive'' else Ok ()))"

definition candidate_signed_exposure :: "candidate_order \<Rightarrow> decimal result" where
  "candidate_signed_exposure c =
     and_then (checked_mul (cdo_quantity c) (cdo_mark_price c)) (\<lambda>v.
     and_then (checked_mul v (cdo_multiplier c)) (\<lambda>unsigned.
     case cdo_side c of Buy \<Rightarrow> Ok unsigned | Sell \<Rightarrow> negate unsigned))"

section \<open>Snapshot and policy\<close>

record risk_snapshot =
  rsn_equity :: decimal
  rsn_peak_equity :: decimal
  rsn_daily_pnl :: decimal
  rsn_margin_used :: decimal
  rsn_positions :: "risk_position list"
  rsn_working_positions :: "risk_position list"
  rsn_resting_orders :: "resting_order list"
  rsn_recent_order_count :: nat

record portfolio_risk_policy =
  prp_version :: string
  prp_global_kill_switch :: bool
  prp_max_gross_exposure :: decimal
  prp_max_abs_net_exposure :: decimal
  prp_max_leverage_bps :: decimal
  prp_max_concentration_bps :: decimal
  prp_max_daily_loss :: decimal
  prp_max_drawdown_bps :: decimal
  prp_max_margin_utilization_bps :: decimal
  prp_max_abs_delta :: decimal
  prp_max_abs_gamma :: decimal
  prp_max_open_orders :: nat
  prp_max_order_rate :: nat
  prp_allowed_instruments :: "string btree_set"
  prp_restricted_instruments :: "string btree_set"
  prp_sector_limits :: "(string, decimal) btree_map"
  prp_asset_class_limits :: "(string, decimal) btree_map"
  prp_currency_limits :: "(string, decimal) btree_map"
  prp_strategy_limits :: "(string, decimal) btree_map"
  prp_max_news_slippage_bps :: "decimal option"
  prp_max_spread_multiplier_bps :: "decimal option"

definition limits_invalid :: "portfolio_risk_policy \<Rightarrow> decimal \<Rightarrow> decimal \<Rightarrow> bool" where
  "limits_invalid p ten_thousand maximum_leverage \<longleftrightarrow>
     prp_max_gross_exposure p \<le> ZERO \<or> prp_max_abs_net_exposure p \<le> ZERO
     \<or> prp_max_leverage_bps p \<le> ZERO \<or> prp_max_leverage_bps p > maximum_leverage
     \<or> prp_max_concentration_bps p \<le> ZERO \<or> prp_max_concentration_bps p > ten_thousand
     \<or> prp_max_daily_loss p < ZERO
     \<or> prp_max_drawdown_bps p < ZERO \<or> prp_max_drawdown_bps p > ten_thousand
     \<or> prp_max_margin_utilization_bps p < ZERO \<or> prp_max_margin_utilization_bps p > ten_thousand
     \<or> prp_max_abs_delta p < ZERO \<or> prp_max_abs_gamma p < ZERO
     \<or> prp_max_open_orders p = 0 \<or> prp_max_order_rate p = 0"

definition check_bucket_limits :: "(string, decimal) btree_map \<Rightarrow> unit result" where
  "check_bucket_limits = try_each (\<lambda>(bucket, limit).
     if bucket = [] \<or> limit \<le> ZERO then Err ''invalid aggregate bucket limit'' else Ok ())"

definition portfolio_policy_validate :: "portfolio_risk_policy \<Rightarrow> unit result" where
  "portfolio_policy_validate p =
     and_then (validate_canonical_id ''portfolio risk version'' (prp_version p)) (\<lambda>_.
     and_then (from_integer 10000) (\<lambda>ten_thousand.
     and_then (from_integer 100) (\<lambda>hundred.
     and_then (checked_mul ten_thousand hundred) (\<lambda>maximum_leverage.
     if limits_invalid p ten_thousand maximum_leverage then Err ''invalid portfolio risk limits''
     else and_then (try_each (validate_canonical_id ''risk instrument permission'')
         (prp_allowed_instruments p @ prp_restricted_instruments p)) (\<lambda>_.
     if list_ex (\<lambda>i. bs_contains i (prp_restricted_instruments p)) (prp_allowed_instruments p)
     then Err ''an instrument cannot be both allowed and restricted''
     else and_then (try_each check_bucket_limits [prp_sector_limits p, prp_asset_class_limits p,
         prp_currency_limits p, prp_strategy_limits p]) (\<lambda>_.
     if (case prp_max_news_slippage_bps p of None \<Rightarrow> False
         | Some slippage \<Rightarrow> slippage \<le> ZERO \<or> slippage > ten_thousand)
     then Err ''invalid max_news_slippage_bps limit''
     else if (case prp_max_spread_multiplier_bps p of None \<Rightarrow> False | Some m \<Rightarrow> m \<le> ZERO)
     then Err ''invalid max_spread_multiplier_bps limit''
     else Ok ()))))))"

lemma portfolio_policy_validate_Ok:
  assumes "portfolio_policy_validate p = Inr u"
  shows "canonical_id (prp_version p)" "0 < scaled (prp_max_gross_exposure p)"
    "0 \<le> scaled (prp_max_concentration_bps p)" "0 \<le> scaled (prp_max_daily_loss p)"
    "\<forall>i\<in>set (prp_allowed_instruments p @ prp_restricted_instruments p). canonical_id i"
    "\<forall>m. prp_max_spread_multiplier_bps p = Some m \<longrightarrow> 0 < scaled m"
    "\<forall>s. prp_max_news_slippage_bps p = Some s \<longrightarrow> 0 < scaled s"
  using assms
  by (auto simp: portfolio_policy_validate_def limits_invalid_def and_then_eq_Inr result_simps
      decimal_cmp not_le not_less split: if_splits option.splits)

section \<open>The news-shock collar\<close>

definition spread_beyond_multiple :: "decimal \<Rightarrow> decimal \<Rightarrow> decimal \<Rightarrow> bool result" where
  "spread_beyond_multiple max_mult_bps spread baseline =
     and_then (checked_mul baseline max_mult_bps) (\<lambda>product.
     and_then (from_integer 10000) (\<lambda>bps.
     and_then (checked_div product bps) (\<lambda>max_allowed. Ok (spread > max_allowed))))"

definition evaluate_news_shock_collar ::
    "portfolio_risk_policy \<Rightarrow> decimal \<Rightarrow> decimal \<Rightarrow> decimal option \<Rightarrow> decimal option \<Rightarrow> string list result" where
  "evaluate_news_shock_collar p reference_price requested_price current_spread baseline_spread =
     and_then (portfolio_policy_validate p) (\<lambda>_.
     and_then (case prp_max_news_slippage_bps p of None \<Rightarrow> Ok []
       | Some max_slippage \<Rightarrow> and_then (price_deviation_bps reference_price requested_price) (\<lambda>deviation.
           Ok (if deviation > max_slippage then [''NEWS_SLIPPAGE_EXCEEDED''] else []))) (\<lambda>reasons.
     case (prp_max_spread_multiplier_bps p, current_spread, baseline_spread) of
       (Some max_mult_bps, Some spread, Some baseline) \<Rightarrow>
         if baseline > ZERO
         then and_then (spread_beyond_multiple max_mult_bps spread baseline) (\<lambda>hole.
           Ok (reasons @ (if hole then [''LIQUIDITY_HOLE_DETECTED''] else [])))
         else Ok reasons
     | _ \<Rightarrow> Ok reasons))"

end
