(* ===== verification/RiskBounds.thy ===== *)
theory RiskBounds
  imports RiskAggregate
begin

text \<open>
  What the aggregate loops compute, over plain integers, and the soundness of the working bounds:
  for every subset of the working rows, the exposures of the book with that subset filled lie
  within the metrics the engine compares with the limits.
\<close>

definition exposure :: "risk_position \<Rightarrow> int" where
  "exposure p = (case signed_exposure p of Inl _ \<Rightarrow> 0 | Inr e \<Rightarrow> scaled e)"

definition gross_of :: "risk_position list \<Rightarrow> int" where
  "gross_of ps = (\<Sum>p\<leftarrow>ps. \<bar>exposure p\<bar>)"

definition net_of :: "risk_position list \<Rightarrow> int" where
  "net_of ps = (\<Sum>p\<leftarrow>ps. exposure p)"

definition delta_of :: "risk_position list \<Rightarrow> int" where
  "delta_of ps = (\<Sum>p\<leftarrow>ps. scaled (rkp_delta p))"

definition gamma_of :: "risk_position list \<Rightarrow> int" where
  "gamma_of ps = (\<Sum>p\<leftarrow>ps. scaled (rkp_gamma p))"

definition bucket_of :: "(risk_position \<Rightarrow> string) \<Rightarrow> risk_position list \<Rightarrow> string \<Rightarrow> int" where
  "bucket_of key ps k = gross_of (filter (\<lambda>p. key p = k) ps)"

definition amount_in :: "(string, decimal) btree_map \<Rightarrow> string \<Rightarrow> int" where
  "amount_in m k = scaled (case bt_get m k of None \<Rightarrow> ZERO | Some v \<Rightarrow> v)"

lemma exposure_eq [simp]: "signed_exposure p = Inr e \<Longrightarrow> exposure p = scaled e"
  by (simp add: exposure_def)

lemma sums_append [simp]:
  "gross_of (ps @ qs) = gross_of ps + gross_of qs" "net_of (ps @ qs) = net_of ps + net_of qs"
  "delta_of (ps @ qs) = delta_of ps + delta_of qs" "gamma_of (ps @ qs) = gamma_of ps + gamma_of qs"
  "bucket_of key (ps @ qs) k = bucket_of key ps k + bucket_of key qs k"
  by (simp_all add: gross_of_def net_of_def delta_of_def gamma_of_def bucket_of_def)

lemma gross_nonneg [simp]: "0 \<le> gross_of ps" "0 \<le> bucket_of key ps k"
proof -
  show "0 \<le> gross_of ps" for ps by (induction ps) (simp_all add: gross_of_def)
  then show "0 \<le> bucket_of key ps k" by (simp add: bucket_of_def)
qed

lemma bucket_le_gross: "bucket_of key ps k \<le> gross_of ps"
  by (induction ps) (auto simp: bucket_of_def gross_of_def)

lemma subseq_gross_le: "subseq qs ps \<Longrightarrow> gross_of qs \<le> gross_of ps \<and> bucket_of key qs k \<le> bucket_of key ps k"
proof (induction rule: list_emb.induct)
  case (list_emb_Nil ys)
  then show ?case using gross_nonneg(2) [of key ys k] gross_nonneg(1) [of ys]
    by (simp add: bucket_of_def gross_of_def)
qed (auto simp: bucket_of_def gross_of_def)

section \<open>The metrics are the sums\<close>

lemma buckets_exact:
  assumes "try_fold (\<lambda>p. add_bucket (key p) (Decimal \<bar>exposure p\<bar>)) ps [] = Inr m"
  shows "bt_sorted m" "amount_in m k = bucket_of key ps k"
    "bt_get m k = None \<longleftrightarrow> (\<forall>p\<in>set ps. key p \<noteq> k)"
proof -
  have "bt_sorted m \<and> amount_in m k = bucket_of key ps k \<and> (bt_get m k = None \<longleftrightarrow> (\<forall>p\<in>set ps. key p \<noteq> k))"
    using bt.accumulate [of checked_add scaled "\<lambda>_. ZERO" key "\<lambda>p. Decimal \<bar>exposure p\<bar>" ps "[]" m k] assms
    by (simp add: add_bucket_def [abs_def] checked_add_eq_Ok bt_sorted_def amount_in_def bucket_of_def gross_of_def)
  then show "bt_sorted m" "amount_in m k = bucket_of key ps k"
    "bt_get m k = None \<longleftrightarrow> (\<forall>p\<in>set ps. key p \<noteq> k)" by auto
qed

lemma aggregate_step_Ok:
  assumes "aggregate_step p t = Inr u"
  shows "position_validate p = Inr ()" "is_ok (signed_exposure p)"
    "scaled (rt_gross u) = scaled (rt_gross t) + \<bar>exposure p\<bar>"
    "scaled (rt_net u) = scaled (rt_net t) + exposure p"
    "scaled (rt_delta u) = scaled (rt_delta t) + scaled (rkp_delta p)"
    "scaled (rt_gamma u) = scaled (rt_gamma t) + scaled (rkp_gamma p)"
    "add_bucket (rkp_instrument_id p) (Decimal \<bar>exposure p\<bar>) (rt_instrument_gross t) = Inr (rt_instrument_gross u)"
    "add_bucket (rkp_sector p) (Decimal \<bar>exposure p\<bar>) (rt_sector t) = Inr (rt_sector u)"
    "add_bucket (rkp_asset_class p) (Decimal \<bar>exposure p\<bar>) (rt_asset t) = Inr (rt_asset u)"
    "add_bucket (rkp_currency p) (Decimal \<bar>exposure p\<bar>) (rt_currency t) = Inr (rt_currency u)"
    "add_bucket (rkp_strategy_id p) (Decimal \<bar>exposure p\<bar>) (rt_strategy t) = Inr (rt_strategy u)"
  using assms unfolding aggregate_step_def and_then_eq_Inr
  by (auto simp: checked_add_eq_Ok absolute_eq_Ok is_ok_iff)

lemma bucket_loop:
  assumes "try_fold aggregate_step ps no_totals = Inr t" "part no_totals = []"
    and "\<And>p t u. aggregate_step p t = Inr u \<Longrightarrow>
      add_bucket (key p) (Decimal \<bar>exposure p\<bar>) (part t) = Inr (part u)"
  shows "bt_sorted (part t)" "amount_in (part t) k = bucket_of key ps k"
    "bt_get (part t) k = None \<longleftrightarrow> (\<forall>p\<in>set ps. key p \<noteq> k)"
proof -
  have "try_fold (\<lambda>p. add_bucket (key p) (Decimal \<bar>exposure p\<bar>)) ps (part no_totals) = Inr (part t)"
    using assms(3) assms(1) by (rule try_fold_project)
  then have "try_fold (\<lambda>p. add_bucket (key p) (Decimal \<bar>exposure p\<bar>)) ps [] = Inr (part t)"
    by (simp add: assms(2))
  from buckets_exact [OF this] show "bt_sorted (part t)" "amount_in (part t) k = bucket_of key ps k"
    "bt_get (part t) k = None \<longleftrightarrow> (\<forall>p\<in>set ps. key p \<noteq> k)" by auto
qed

lemma aggregate_loop:
  assumes "try_fold aggregate_step ps no_totals = Inr t"
  shows "scaled (rt_gross t) = gross_of ps" "scaled (rt_net t) = net_of ps"
    "scaled (rt_delta t) = delta_of ps" "scaled (rt_gamma t) = gamma_of ps"
    "\<forall>p\<in>set ps. position_validate p = Inr () \<and> is_ok (signed_exposure p)"
proof -
  note sum = try_fold_sum [OF _ assms]
  show "scaled (rt_gross t) = gross_of ps"
    using sum [of "\<lambda>t. scaled (rt_gross t)" "\<lambda>p. \<bar>exposure p\<bar>"] aggregate_step_Ok(3)
    by (simp add: gross_of_def no_totals_def)
  show "scaled (rt_net t) = net_of ps"
    using sum [of "\<lambda>t. scaled (rt_net t)" exposure] aggregate_step_Ok(4)
    by (simp add: net_of_def no_totals_def)
  show "scaled (rt_delta t) = delta_of ps"
    using sum [of "\<lambda>t. scaled (rt_delta t)" "\<lambda>p. scaled (rkp_delta p)"] aggregate_step_Ok(5)
    by (simp add: delta_of_def no_totals_def)
  show "scaled (rt_gamma t) = gamma_of ps"
    using sum [of "\<lambda>t. scaled (rt_gamma t)" "\<lambda>p. scaled (rkp_gamma p)"] aggregate_step_Ok(6)
    by (simp add: gamma_of_def no_totals_def)
  show "\<forall>p\<in>set ps. position_validate p = Inr () \<and> is_ok (signed_exposure p)"
    using assms
  proof (induction ps arbitrary: t rule: rev_induct)
    case (snoc p ps)
    then obtain u where "try_fold aggregate_step ps no_totals = Inr u" "aggregate_step p u = Inr t"
      by (auto simp: try_fold_append and_then_eq_Inr)
    with snoc.IH aggregate_step_Ok(1,2) show ?case by auto
  qed simp
qed

lemmas aggregate_buckets =
  bucket_loop [where part = rt_instrument_gross and key = rkp_instrument_id, OF _ _ aggregate_step_Ok(7)]
  bucket_loop [where part = rt_sector and key = rkp_sector, OF _ _ aggregate_step_Ok(8)]
  bucket_loop [where part = rt_asset and key = rkp_asset_class, OF _ _ aggregate_step_Ok(9)]
  bucket_loop [where part = rt_currency and key = rkp_currency, OF _ _ aggregate_step_Ok(10)]
  bucket_loop [where part = rt_strategy and key = rkp_strategy_id, OF _ _ aggregate_step_Ok(11)]

lemma no_totals_empty [simp]:
  "rt_instrument_gross no_totals = []" "rt_sector no_totals = []" "rt_asset no_totals = []"
  "rt_currency no_totals = []" "rt_strategy no_totals = []"
  by (simp_all add: no_totals_def)

section \<open>Ratios\<close>

lemma bps_of_mono: "n \<le> n' \<Longrightarrow> 0 \<le> d \<Longrightarrow> bps_of n d \<le> bps_of n' d"
  unfolding bps_of_def by (cases "d = 0") (auto intro: zdiv_mono1)

lemma bps_of_nonneg: "0 \<le> n \<Longrightarrow> 0 \<le> d \<Longrightarrow> 0 \<le> bps_of n d"
  by (cases "d = 0") (simp_all add: bps_of_def pos_imp_zdiv_nonneg_iff)

lemma bps_of_cross:
  assumes "a * d \<le> c * b" "0 < b" "0 < d"
  shows "bps_of a b \<le> bps_of c d"
proof -
  let ?K = "10000 * DECIMAL_SCALE" and ?q = "bps_of a b"
  have "a * ?K = ?q * b + (a * ?K) mod b" by (simp add: bps_of_def)
  then have "?q * b \<le> a * ?K" using pos_mod_sign [OF assms(2), of "a * ?K"] by linarith
  then have "?q * b * d \<le> a * ?K * d" using assms(3) by (simp add: mult_right_mono)
  also have "\<dots> = a * d * ?K" by (simp add: mult_ac)
  also have "\<dots> \<le> c * b * ?K" using assms(1) by (intro mult_right_mono) simp_all
  finally have "(?q * d) * b \<le> (c * ?K) * b" by (simp add: mult_ac)
  then have "?q * d \<le> c * ?K" using assms(2) by (simp add: mult_le_cancel_right)
  then have "?q * d div d \<le> c * ?K div d" using assms(3) by (rule zdiv_mono1)
  then show ?thesis using assms(3) by (simp add: bps_of_def [of c])
qed

text \<open>A share of a total grows when the same amount joins both, and shrinks when more joins the total.\<close>

lemma share_mono:
  assumes "0 \<le> b" "b \<le> G" "0 \<le> w" "w \<le> W" "w \<le> T" "0 < G + W"
  shows "bps_of (b + w) (G + T) \<le> bps_of (b + W) (G + W)"
proof (cases "G + T = 0")
  case True
  with assms show ?thesis using bps_of_nonneg [of "b + W" "G + W"] by (simp add: bps_of_def)
next
  case False
  have "0 \<le> (W - w) * (G - b)" using assms by simp
  then have "(b + w) * (G + W) \<le> (b + W) * (G + w)" by (simp add: algebra_simps)
  also have "\<dots> \<le> (b + W) * (G + T)" using assms by (intro mult_left_mono) simp_all
  finally show ?thesis using False assms by (intro bps_of_cross) simp_all
qed

lemma fold_max_ge: "v \<in> set (w # vs) \<Longrightarrow> v \<le> fold max vs (w :: 'a :: linorder)"
  using Max_ge [of "set (w # vs)" v] by (simp only: Max.set_eq_fold [symmetric]) simp

lemma largest_value_ge:
  assumes "bt_sorted m" "\<And>k. 0 \<le> amount_in m k"
  shows "amount_in m k \<le> scaled (largest_value m)"
proof -
  have entry: "v \<le> largest_value m" if "v \<in> set (map snd m)" for v
    using that fold_max_ge [of v "hd (map snd m)" "tl (map snd m)"]
    by (cases m) (simp_all add: largest_value_def del: fold_simps)
  show ?thesis
  proof (cases "bt_get m k")
    case (Some v)
    then have "(k, v) \<in> set m" using bt_get_iff [OF assms(1)] by blast
    then have "v \<in> set (map snd m)" by force
    with entry Some show ?thesis by (simp add: amount_in_def decimal_cmp)
  next
    case None
    show ?thesis
    proof (cases m)
      case Nil
      with None show ?thesis by (simp add: amount_in_def largest_value_def)
    next
      case (Cons e m')
      then have e: "(fst e, snd e) \<in> set m" "snd e \<in> set (map snd m)" by simp_all
      then have "bt_get m (fst e) = Some (snd e)" using bt_get_iff [OF assms(1)] by blast
      with assms(2) [of "fst e"] have "0 \<le> scaled (snd e)" by (simp add: amount_in_def)
      with entry [OF e(2)] None show ?thesis by (simp add: amount_in_def decimal_cmp)
    qed
  qed
qed

lemma aggregate_metrics_Ok:
  assumes "aggregate_metrics ps equity peak margin = Inr m"
  shows "scaled (arm_gross_exposure m) = gross_of ps" "scaled (arm_net_exposure m) = net_of ps"
    "scaled (arm_total_delta m) = delta_of ps" "scaled (arm_total_gamma m) = gamma_of ps"
    "0 < scaled equity" "scaled (arm_leverage_bps m) = bps_of (gross_of ps) (scaled equity)"
    "scaled (arm_margin_utilization_bps m) = bps_of (scaled margin) (scaled equity)"
    "scaled (arm_drawdown_bps m) =
      (if scaled equity < scaled peak then bps_of (scaled peak - scaled equity) (scaled peak) else 0)"
    "bps_of (bucket_of rkp_instrument_id ps k) (gross_of ps) \<le> scaled (arm_concentration_bps m)"
    "amount_in (arm_sector_gross m) k = bucket_of rkp_sector ps k"
    "amount_in (arm_asset_class_gross m) k = bucket_of rkp_asset_class ps k"
    "amount_in (arm_currency_gross m) k = bucket_of rkp_currency ps k"
    "amount_in (arm_strategy_gross m) k = bucket_of rkp_strategy_id ps k"
    "bt_sorted (arm_sector_gross m)" "bt_sorted (arm_asset_class_gross m)"
    "bt_sorted (arm_currency_gross m)" "bt_sorted (arm_strategy_gross m)"
    "\<forall>p\<in>set ps. position_validate p = Inr () \<and> is_ok (signed_exposure p)"
proof -
  from assms obtain t where loop: "try_fold aggregate_step ps no_totals = Inr t"
    and m: "arm_gross_exposure m = rt_gross t" "arm_net_exposure m = rt_net t"
      "arm_total_delta m = rt_delta t" "arm_total_gamma m = rt_gamma t"
      "arm_sector_gross m = rt_sector t" "arm_asset_class_gross m = rt_asset t"
      "arm_currency_gross m = rt_currency t" "arm_strategy_gross m = rt_strategy t"
    and lev: "ratio_bps (rt_gross t) equity = Inr (arm_leverage_bps m)"
    and mar: "ratio_bps margin equity = Inr (arm_margin_utilization_bps m)"
    and draw: "(if peak > equity then and_then (checked_sub peak equity) (\<lambda>drop. ratio_bps drop peak)
       else Ok ZERO) = Inr (arm_drawdown_bps m)"
    and conc: "(if rt_gross t = ZERO then Ok ZERO
       else ratio_bps (largest_value (rt_instrument_gross t)) (rt_gross t)) = Inr (arm_concentration_bps m)"
    unfolding aggregate_metrics_def and_then_eq_Inr by auto
  note sums = aggregate_loop [OF loop]
  show "scaled (arm_gross_exposure m) = gross_of ps" "scaled (arm_net_exposure m) = net_of ps"
    "scaled (arm_total_delta m) = delta_of ps" "scaled (arm_total_gamma m) = gamma_of ps"
    "\<forall>p\<in>set ps. position_validate p = Inr () \<and> is_ok (signed_exposure p)"
    using sums by (simp_all add: m)
  show "0 < scaled equity" "scaled (arm_leverage_bps m) = bps_of (gross_of ps) (scaled equity)"
    "scaled (arm_margin_utilization_bps m) = bps_of (scaled margin) (scaled equity)"
    using ratio_bps_Ok [OF lev] ratio_bps_Ok [OF mar] sums(1) by simp_all
  show "scaled (arm_drawdown_bps m) =
      (if scaled equity < scaled peak then bps_of (scaled peak - scaled equity) (scaled peak) else 0)"
    using draw by (cases "arm_drawdown_bps m")
      (auto simp: and_then_eq_Inr checked_sub_eq_Ok decimal_cmp dest: ratio_bps_Ok(3) split: if_splits)
  note buckets = aggregate_buckets [OF loop]
  show "amount_in (arm_sector_gross m) k = bucket_of rkp_sector ps k"
    "amount_in (arm_asset_class_gross m) k = bucket_of rkp_asset_class ps k"
    "amount_in (arm_currency_gross m) k = bucket_of rkp_currency ps k"
    "amount_in (arm_strategy_gross m) k = bucket_of rkp_strategy_id ps k"
    "bt_sorted (arm_sector_gross m)" "bt_sorted (arm_asset_class_gross m)"
    "bt_sorted (arm_currency_gross m)" "bt_sorted (arm_strategy_gross m)"
    using buckets by (simp_all add: m)
  have "bucket_of rkp_instrument_id ps k \<le> scaled (largest_value (rt_instrument_gross t))"
    using largest_value_ge [of "rt_instrument_gross t" k] buckets by simp
  then show "bps_of (bucket_of rkp_instrument_id ps k) (gross_of ps) \<le> scaled (arm_concentration_bps m)"
    using conc sums(1) bps_of_mono [of "bucket_of rkp_instrument_id ps k" _ "gross_of ps"]
    by (cases "rt_gross t"; cases "arm_concentration_bps m")
      (auto simp: bps_of_def dest: ratio_bps_Ok(3) split: if_splits)
qed

section \<open>Every outcome of the working orders\<close>

definition within :: "decimal \<times> decimal \<Rightarrow> int \<Rightarrow> bool" where
  "within b x \<longleftrightarrow> scaled (fst b) \<le> x \<and> x \<le> scaled (snd b)"

lemma widen_within:
  "widen v b = Inr c \<Longrightarrow> within b x \<Longrightarrow> within c x \<and> within c (x + scaled v)"
  by (cases b) (auto simp: widen_def within_def and_then_eq_Inr checked_add_eq_Ok decimal_cmp split: if_splits)

lemma working_step_Ok:
  assumes "working_step p b = Inr c"
  shows "widen (Decimal (exposure p)) (wb_net b) = Inr (wb_net c)"
    "widen (rkp_delta p) (wb_delta b) = Inr (wb_delta c)"
    "widen (rkp_gamma p) (wb_gamma b) = Inr (wb_gamma c)"
    "add_bucket (rkp_instrument_id p) (Decimal \<bar>exposure p\<bar>) (wb_instrument_gross b) = Inr (wb_instrument_gross c)"
  using assms unfolding working_step_def and_then_eq_Inr
  by (auto simp: absolute_eq_Ok)

lemma working_loop_within:
  assumes "subseq fills ws" "try_fold working_step ws b = Inr c"
    and "within (wb_net b) net" "within (wb_delta b) delta" "within (wb_gamma b) gamma"
  shows "within (wb_net c) (net + net_of fills) \<and> within (wb_delta c) (delta + delta_of fills)
    \<and> within (wb_gamma c) (gamma + gamma_of fills)"
  using assms
proof (induction arbitrary: b net delta gamma rule: list_emb.induct)
  case (list_emb_Nil ws)
  from list_emb_Nil.prems(1) show ?case
  proof (rule try_fold_invariant [where P = "\<lambda>b. within (wb_net b) (net + net_of [])
      \<and> within (wb_delta b) (delta + delta_of []) \<and> within (wb_gamma b) (gamma + gamma_of [])"])
    show "within (wb_net b) (net + net_of []) \<and> within (wb_delta b) (delta + delta_of [])
        \<and> within (wb_gamma b) (gamma + gamma_of [])"
      using list_emb_Nil.prems(2-) by (simp add: net_of_def delta_of_def gamma_of_def)
  qed (use widen_within working_step_Ok in blast)
next
  case (list_emb_Cons fills ws p)
  from list_emb_Cons.prems(1) obtain d where d: "working_step p b = Inr d" "try_fold working_step ws d = Inr c"
    by (auto simp: and_then_eq_Inr)
  show ?case
    by (rule list_emb_Cons.IH [OF d(2)])
      (use working_step_Ok [OF d(1)] widen_within list_emb_Cons.prems(2-) in blast)+
next
  case (list_emb_Cons2 p q fills ws)
  then have q: "q = p" by simp
  from list_emb_Cons2.prems(1) obtain d where d: "working_step p b = Inr d" "try_fold working_step ws d = Inr c"
    by (auto simp: and_then_eq_Inr q)
  have "within (wb_net d) (net + exposure p)" "within (wb_delta d) (delta + scaled (rkp_delta p))"
    "within (wb_gamma d) (gamma + scaled (rkp_gamma p))"
    using working_step_Ok [OF d(1)] widen_within list_emb_Cons2.prems(2-) by fastforce+
  from list_emb_Cons2.IH [OF d(2) this] show ?case
    by (simp add: net_of_def delta_of_def gamma_of_def add.assoc)
qed

lemma largest_magnitude_within:
  "largest_magnitude b = Inr a \<Longrightarrow> within b x \<Longrightarrow> \<bar>x\<bar> \<le> scaled a"
  by (cases "fst b"; cases "snd b")
    (auto simp: largest_magnitude_def within_def and_then_eq_Inr absolute_eq_Ok max_def decimal_cmp)

lemma working_buckets:
  assumes "try_fold working_step ws b = Inr c" "wb_instrument_gross b = []"
  shows "bt_sorted (wb_instrument_gross c)"
    "amount_in (wb_instrument_gross c) k = bucket_of rkp_instrument_id ws k"
    "bt_get (wb_instrument_gross c) k = None \<longleftrightarrow> (\<forall>p\<in>set ws. rkp_instrument_id p \<noteq> k)"
proof -
  have "try_fold (\<lambda>p. add_bucket (rkp_instrument_id p) (Decimal \<bar>exposure p\<bar>)) ws (wb_instrument_gross b)
      = Inr (wb_instrument_gross c)"
    using working_step_Ok(4) assms(1) by (rule try_fold_project)
  note buckets = buckets_exact [OF this [unfolded assms(2)]]
  show "bt_sorted (wb_instrument_gross c)"
    "amount_in (wb_instrument_gross c) k = bucket_of rkp_instrument_id ws k"
    "bt_get (wb_instrument_gross c) k = None \<longleftrightarrow> (\<forall>p\<in>set ws. rkp_instrument_id p \<noteq> k)"
    using buckets by auto
qed

lemma base_buckets:
  assumes "try_fold base_instrument_step ps [] = Inr m"
  shows "amount_in m k = bucket_of rkp_instrument_id ps k"
proof -
  have "try_fold (\<lambda>p. add_bucket (rkp_instrument_id p) (Decimal \<bar>exposure p\<bar>)) ps [] = Inr m"
    using try_fold_project [of ps base_instrument_step "\<lambda>p. add_bucket (rkp_instrument_id p) (Decimal \<bar>exposure p\<bar>)"
        "\<lambda>m. m"] assms
    by (force simp: base_instrument_step_def and_then_eq_Inr absolute_eq_Ok)
  then show ?thesis by (rule buckets_exact)
qed

lemma scenario_loop:
  assumes "try_fold (scenario_step base_gross base_total) entries start = Inr worst"
  shows "start \<le> worst \<and> (\<forall>(k, g)\<in>set entries. 0 < scaled base_total + scaled g
      \<and> bps_of (amount_in base_gross k + scaled g) (scaled base_total + scaled g) \<le> scaled worst)"
  using assms
proof (induction entries arbitrary: start)
  case (Cons e entries)
  obtain k g where e: "e = (k, g)" by (cases e)
  from Cons.prems obtain w where step: "scenario_step base_gross base_total e start = Inr w"
    and rest: "try_fold (scenario_step base_gross base_total) entries w = Inr worst"
    by (auto simp: and_then_eq_Inr)
  from step obtain r where r: "w = max start r" and ratio: "ratio_bps (Decimal (amount_in base_gross k + scaled g))
      (Decimal (scaled base_total + scaled g)) = Inr r"
    by (auto simp: scenario_step_def e and_then_eq_Inr checked_add_eq_Ok amount_in_def)
  note r = r ratio_bps_Ok [OF ratio]
  from Cons.IH [OF rest] r show ?case by (auto simp: e decimal_cmp max_def split: if_splits)
qed simp

lemma apply_working_bounds_Ok:
  assumes "apply_working_bounds metrics base bps ws = Inr m" "subseq fills ws"
    and "aggregate_metrics bps equity peak margin = Inr base"
  shows "\<bar>net_of (bps @ fills)\<bar> \<le> scaled (arm_possible_abs_net_exposure m)"
    "\<bar>delta_of (bps @ fills)\<bar> \<le> scaled (arm_possible_abs_delta m)"
    "\<bar>gamma_of (bps @ fills)\<bar> \<le> scaled (arm_possible_abs_gamma m)"
    "bps_of (bucket_of rkp_instrument_id (bps @ fills) k) (gross_of (bps @ fills))
      \<le> scaled (arm_possible_concentration_bps m)"
    "\<exists>a b c d. m = metrics\<lparr>arm_possible_abs_net_exposure := a, arm_possible_abs_delta := b,
       arm_possible_abs_gamma := c, arm_possible_concentration_bps := d\<rparr>"
proof -
  let ?b = "\<lparr>wb_net = (arm_net_exposure base, arm_net_exposure base),
        wb_delta = (arm_total_delta base, arm_total_delta base),
        wb_gamma = (arm_total_gamma base, arm_total_gamma base), wb_instrument_gross = []\<rparr>"
  from assms(1) obtain g c where g: "try_fold base_instrument_step bps [] = Inr g"
    and c: "try_fold working_step ws ?b = Inr c"
    and net: "largest_magnitude (wb_net c) = Inr (arm_possible_abs_net_exposure m)"
    and delta: "largest_magnitude (wb_delta c) = Inr (arm_possible_abs_delta m)"
    and gamma: "largest_magnitude (wb_gamma c) = Inr (arm_possible_abs_gamma m)"
    and conc: "try_fold (scenario_step g (arm_gross_exposure base)) (wb_instrument_gross c)
       (arm_concentration_bps base) = Inr (arm_possible_concentration_bps m)"
    unfolding apply_working_bounds_def and_then_eq_Inr by auto
  show "\<exists>a b c d. m = metrics\<lparr>arm_possible_abs_net_exposure := a, arm_possible_abs_delta := b,
       arm_possible_abs_gamma := c, arm_possible_concentration_bps := d\<rparr>"
    using assms(1) unfolding apply_working_bounds_def and_then_eq_Inr by blast
  note base = aggregate_metrics_Ok [OF assms(3)]
  have "within (wb_net c) (net_of bps + net_of fills) \<and> within (wb_delta c) (delta_of bps + delta_of fills)
      \<and> within (wb_gamma c) (gamma_of bps + gamma_of fills)"
    by (rule working_loop_within [OF assms(2) c]) (simp_all add: within_def base)
  then show "\<bar>net_of (bps @ fills)\<bar> \<le> scaled (arm_possible_abs_net_exposure m)"
    "\<bar>delta_of (bps @ fills)\<bar> \<le> scaled (arm_possible_abs_delta m)"
    "\<bar>gamma_of (bps @ fills)\<bar> \<le> scaled (arm_possible_abs_gamma m)"
    using largest_magnitude_within [OF net] largest_magnitude_within [OF delta] largest_magnitude_within [OF gamma]
    by simp_all
  let ?b1 = "bucket_of rkp_instrument_id bps k" and ?w = "bucket_of rkp_instrument_id fills k"
    and ?W = "bucket_of rkp_instrument_id ws k" and ?G = "gross_of bps" and ?T = "gross_of fills"
  note sub = subseq_gross_le [OF assms(2), of rkp_instrument_id k]
  note loop = scenario_loop [OF conc]
  have empty: "wb_instrument_gross ?b = []" by simp
  note bucket = working_buckets [OF c empty]
  have "bps_of (?b1 + ?w) (?G + ?T) \<le> scaled (arm_possible_concentration_bps m)"
  proof (cases "bt_get (wb_instrument_gross c) k")
    case None
    then have "?W = 0" using bucket(2) [of k] by (simp add: amount_in_def)
    then have w: "?w = 0" using sub gross_nonneg(2) [of rkp_instrument_id fills k] by linarith
    have "bps_of ?b1 (?G + ?T) \<le> bps_of ?b1 ?G"
    proof (cases "?G = 0")
      case True
      then have "?b1 = 0" using bucket_le_gross [of rkp_instrument_id bps k] gross_nonneg(2) [of rkp_instrument_id bps k]
        by linarith
      then show ?thesis by (simp add: bps_of_def)
    next
      case False
      then have G: "0 < ?G" using gross_nonneg(1) [of bps] by linarith
      have "?b1 * ?G \<le> ?b1 * (?G + ?T)" by (intro mult_left_mono) simp_all
      with G show ?thesis by (intro bps_of_cross) (simp_all add: add_pos_nonneg)
    qed
    also have "\<dots> \<le> scaled (arm_concentration_bps base)" by (rule base)
    also have "\<dots> \<le> scaled (arm_possible_concentration_bps m)" using loop by (simp add: decimal_cmp)
    finally show ?thesis by (simp add: w)
  next
    case (Some g1)
    then have entry: "(k, g1) \<in> set (wb_instrument_gross c)" using bt_get_iff [OF bucket(1)] by blast
    have g1: "scaled g1 = ?W" using bucket(2) [of k] Some by (simp add: amount_in_def)
    have "bps_of (?b1 + ?w) (?G + ?T) \<le> bps_of (?b1 + ?W) (?G + ?W)"
      by (rule share_mono) (use loop entry sub bucket_le_gross g1 base(1) in \<open>auto\<close>)
    also have "\<dots> \<le> scaled (arm_possible_concentration_bps m)"
      using loop entry g1 base_buckets [OF g, of k] base(1) by auto
    finally show ?thesis .
  qed
  then show "bps_of (bucket_of rkp_instrument_id (bps @ fills) k) (gross_of (bps @ fills))
      \<le> scaled (arm_possible_concentration_bps m)" by simp
qed

end
