(* ===== verification/RiskEvaluate.thy ===== *)
theory RiskEvaluate
  imports RiskBounds ReplayRisk
begin

text \<open>
  Component: the portfolio-wide evaluation (\<^verbatim>\<open>core/risk/src/evaluate.rs\<close>,
  \<^verbatim>\<open>evaluate_portfolio_risk_with_candidates\<close>, \<^verbatim>\<open>apply_bucket_limits\<close>): candidates join the book
  as one group, the metrics and the working bounds are computed, every limit is compared, and the
  reasons are sorted. The properties say what an approval means: every limit holds, and it keeps
  holding whichever subset of the working orders fills.
\<close>

record portfolio_risk_decision =
  prd_approved :: bool
  prd_reason_codes :: "string list"
  prd_policy_version :: string
  prd_metrics :: risk_metrics

definition self_trade :: "resting_order list \<Rightarrow> candidate_order \<Rightarrow> bool" where
  "self_trade resting c = list_ex (\<lambda>r. rso_account_id r = cdo_account_id c
     \<and> rso_instrument_id r = cdo_instrument_id c \<and> rso_side r \<noteq> cdo_side c) resting"

definition permission_reasons ::
    "portfolio_risk_policy \<Rightarrow> resting_order list \<Rightarrow> candidate_order \<Rightarrow> string list \<Rightarrow> string list" where
  "permission_reasons policy resting c reasons =
     push_if (self_trade resting c) ''SELF_TRADE_RISK''
     (push_if (prp_allowed_instruments policy \<noteq> []
         \<and> \<not> bs_contains (cdo_instrument_id c) (prp_allowed_instruments policy)) ''INSTRUMENT_NOT_PERMITTED''
     (push_if (bs_contains (cdo_instrument_id c) (prp_restricted_instruments policy))
       ''RESTRICTED_INSTRUMENT'' reasons))"

definition candidate_step ::
    "portfolio_risk_policy \<Rightarrow> resting_order list \<Rightarrow> candidate_order
      \<Rightarrow> string list \<times> risk_position list \<Rightarrow> (string list \<times> risk_position list) result" where
  "candidate_step policy resting c st = (case st of (reasons, base_positions) \<Rightarrow>
     and_then (candidate_validate c) (\<lambda>_.
     and_then (case cdo_side c of Buy \<Rightarrow> Ok (cdo_quantity c) | Sell \<Rightarrow> negate (cdo_quantity c)) (\<lambda>signed_quantity.
     and_then (candidate_signed_exposure c) (\<lambda>_.
     Ok (permission_reasons policy resting c reasons,
         base_positions @ [candidate_position c signed_quantity])))))"

definition bucket_reasons ::
    "string \<Rightarrow> (string, decimal) btree_map \<Rightarrow> (string, decimal) btree_map \<Rightarrow> string list" where
  "bucket_reasons code actual limits = map (\<lambda>(bucket, _). code @ '':'' @ bucket)
     (filter (\<lambda>(bucket, amount). option_exceeds (\<lambda>limit. amount > limit) (bt_get limits bucket)) actual)"

definition limit_reasons ::
    "portfolio_risk_policy \<Rightarrow> risk_snapshot \<Rightarrow> risk_metrics \<Rightarrow> decimal \<Rightarrow> bool \<Rightarrow> string list \<Rightarrow> string list" where
  "limit_reasons policy snapshot m loss_floor any_candidate reasons =
     push_if (u32_saturating_add (rsn_recent_order_count snapshot) (of_bool any_candidate)
         > prp_max_order_rate policy) ''MAX_ORDER_RATE_EXCEEDED''
     (push_if (length (fold bs_insert (map rso_order_id (rsn_resting_orders snapshot)) [])
         + of_bool any_candidate > prp_max_open_orders policy) ''MAX_OPEN_ORDERS_EXCEEDED''
     (push_if (arm_possible_abs_gamma m > prp_max_abs_gamma policy) ''MAX_GAMMA_EXCEEDED''
     (push_if (arm_possible_abs_delta m > prp_max_abs_delta policy) ''MAX_DELTA_EXCEEDED''
     (push_if (arm_margin_utilization_bps m > prp_max_margin_utilization_bps policy)
         ''MAX_MARGIN_UTILIZATION_EXCEEDED''
     (push_if (arm_drawdown_bps m > prp_max_drawdown_bps policy) ''MAX_DRAWDOWN_EXCEEDED''
     (push_if (rsn_daily_pnl snapshot < loss_floor) ''MAX_DAILY_LOSS_EXCEEDED''
     (push_if (arm_possible_concentration_bps m > prp_max_concentration_bps policy)
         ''MAX_CONCENTRATION_EXCEEDED''
     (push_if (arm_leverage_bps m > prp_max_leverage_bps policy) ''MAX_LEVERAGE_EXCEEDED''
     (push_if (arm_possible_abs_net_exposure m > prp_max_abs_net_exposure policy)
         ''MAX_NET_EXPOSURE_EXCEEDED''
     (push_if (arm_gross_exposure m > prp_max_gross_exposure policy) ''MAX_GROSS_EXPOSURE_EXCEEDED''
     (push_if (prp_global_kill_switch policy) ''GLOBAL_KILL_SWITCH_ACTIVE'' reasons)))))))))))
     @ bucket_reasons ''SECTOR_LIMIT_EXCEEDED'' (arm_sector_gross m) (prp_sector_limits policy)
     @ bucket_reasons ''ASSET_CLASS_LIMIT_EXCEEDED'' (arm_asset_class_gross m) (prp_asset_class_limits policy)
     @ bucket_reasons ''CURRENCY_LIMIT_EXCEEDED'' (arm_currency_gross m) (prp_currency_limits policy)
     @ bucket_reasons ''STRATEGY_LIMIT_EXCEEDED'' (arm_strategy_gross m) (prp_strategy_limits policy)"

definition snapshot_invalid :: "risk_snapshot \<Rightarrow> bool" where
  "snapshot_invalid s \<longleftrightarrow> rsn_equity s \<le> ZERO \<or> rsn_peak_equity s \<le> ZERO \<or> rsn_margin_used s < ZERO
     \<or> length (rsn_positions s) + length (rsn_working_positions s) > 1000000
     \<or> length (rsn_resting_orders s) > 1000000"

definition evaluate_portfolio_risk_with_candidates ::
    "portfolio_risk_policy \<Rightarrow> risk_snapshot \<Rightarrow> candidate_order list \<Rightarrow> portfolio_risk_decision result" where
  "evaluate_portfolio_risk_with_candidates policy snapshot candidates =
     and_then (portfolio_policy_validate policy) (\<lambda>_.
     if snapshot_invalid snapshot then Err ''invalid portfolio risk snapshot''
     else and_then (try_fold (candidate_step policy (rsn_resting_orders snapshot)) candidates
         ([], rsn_positions snapshot)) (\<lambda>(reasons, base_positions).
       and_then (aggregate_metrics base_positions (rsn_equity snapshot) (rsn_peak_equity snapshot)
         (rsn_margin_used snapshot)) (\<lambda>base_metrics.
       and_then (aggregate_metrics (base_positions @ rsn_working_positions snapshot) (rsn_equity snapshot)
         (rsn_peak_equity snapshot) (rsn_margin_used snapshot)) (\<lambda>all_metrics.
       and_then (apply_working_bounds all_metrics base_metrics base_positions
         (rsn_working_positions snapshot)) (\<lambda>metrics.
       and_then (negate (prp_max_daily_loss policy)) (\<lambda>loss_floor.
       let found = dedup (sort (limit_reasons policy snapshot metrics loss_floor (candidates \<noteq> []) reasons)) in
       Ok \<lparr>prd_approved = (found = []), prd_reason_codes = approval found,
         prd_policy_version = prp_version policy, prd_metrics = metrics\<rparr>))))))"

definition evaluate_portfolio_risk ::
    "portfolio_risk_policy \<Rightarrow> risk_snapshot \<Rightarrow> candidate_order option \<Rightarrow> portfolio_risk_decision result" where
  "evaluate_portfolio_risk policy snapshot candidate = (case candidate of
     Some order \<Rightarrow> evaluate_portfolio_risk_with_candidates policy snapshot [order]
   | None \<Rightarrow> evaluate_portfolio_risk_with_candidates policy snapshot [])"

section \<open>The parts of an evaluation\<close>

text \<open>The row a candidate is in the book, and what permits it.\<close>

definition filled_candidate :: "candidate_order \<Rightarrow> risk_position" where
  "filled_candidate c = candidate_position c (Decimal (side_sign (cdo_side c) * scaled (cdo_quantity c)))"

definition permitted :: "portfolio_risk_policy \<Rightarrow> resting_order list \<Rightarrow> candidate_order \<Rightarrow> bool" where
  "permitted policy resting c \<longleftrightarrow> cdo_instrument_id c \<notin> set (prp_restricted_instruments policy)
     \<and> (prp_allowed_instruments policy = [] \<or> cdo_instrument_id c \<in> set (prp_allowed_instruments policy))
     \<and> \<not> self_trade resting c"

definition buckets_within :: "(string, decimal) btree_map \<Rightarrow> (string \<Rightarrow> int) \<Rightarrow> bool" where
  "buckets_within limits amount \<longleftrightarrow> (\<forall>k l. bt_get limits k = Some l \<longrightarrow> amount k \<le> scaled l)"

lemma candidates_Ok:
  assumes "try_fold (candidate_step policy resting) cs (rs, ps) = Inr (rs', ps')"
  shows "ps' = ps @ map filled_candidate cs" "rs' = fold (permission_reasons policy resting) cs rs"
    "\<forall>c\<in>set cs. candidate_validate c = Inr ()"
proof -
  have "ps' = ps @ map filled_candidate cs \<and> rs' = fold (permission_reasons policy resting) cs rs
      \<and> (\<forall>c\<in>set cs. candidate_validate c = Inr ())"
    using assms
  proof (induction cs arbitrary: rs ps)
    case (Cons c cs)
    from Cons.prems obtain q where ok: "candidate_validate c = Inr ()"
      and q: "(case cdo_side c of Buy \<Rightarrow> Ok (cdo_quantity c) | Sell \<Rightarrow> negate (cdo_quantity c)) = Inr q"
      and rest: "try_fold (candidate_step policy resting) cs
        (permission_reasons policy resting c rs, ps @ [candidate_position c q]) = Inr (rs', ps')"
      by (auto simp: candidate_step_def [of _ _ c] and_then_eq_Inr)
    from q have "candidate_position c q = filled_candidate c"
      by (cases "cdo_side c"; cases "cdo_quantity c") (auto simp: filled_candidate_def negate_eq_Ok side_sign_def)
    with Cons.IH [OF rest] ok show ?case by simp
  qed simp
  then show "ps' = ps @ map filled_candidate cs" "rs' = fold (permission_reasons policy resting) cs rs"
    "\<forall>c\<in>set cs. candidate_validate c = Inr ()" by auto
qed

lemma permission_reasons_empty:
  "fold (permission_reasons policy resting) cs rs = [] \<longleftrightarrow> rs = [] \<and> (\<forall>c\<in>set cs. permitted policy resting c)"
  by (induction cs arbitrary: rs) (auto simp: permission_reasons_def permitted_def bs_contains_def)

lemma permission_reasons_codes:
  "''APPROVED'' \<notin> set rs \<Longrightarrow> ''APPROVED'' \<notin> set (fold (permission_reasons policy resting) cs rs)"
  by (induction cs arbitrary: rs) (auto simp: permission_reasons_def)

lemma bt_get_member: "bt_get m k = Some v \<Longrightarrow> (k, v) \<in> set m"
  by (induction m k rule: bt_get.induct) (auto split: if_splits)

lemma bucket_reasons_empty:
  assumes "bt_sorted actual" "\<forall>k l. bt_get limits k = Some l \<longrightarrow> 0 < scaled l"
  shows "bucket_reasons code actual limits = [] \<longleftrightarrow> buckets_within limits (amount_in actual)"
proof -
  have "bucket_reasons code actual limits = [] \<longleftrightarrow>
      (\<forall>k a l. (k, a) \<in> set actual \<longrightarrow> bt_get limits k = Some l \<longrightarrow> scaled a \<le> scaled l)"
    by (fastforce simp: bucket_reasons_def filter_empty_conv option_exceeds_def decimal_cmp not_less split: option.splits)
  also have "\<dots> \<longleftrightarrow> buckets_within limits (amount_in actual)"
    using bt_get_iff [OF assms(1)] assms(2)
    by (fastforce simp: buckets_within_def amount_in_def split: option.splits)
  finally show ?thesis .
qed

lemma resting_identities:
  "length (fold bs_insert ids []) = card (set ids)"
proof -
  have "bs_sorted (fold bs_insert ids s) \<and> set (fold bs_insert ids s) = set ids \<union> set s" if "bs_sorted s" for s
    using that by (induction ids arbitrary: s) (auto simp: bs_sorted_insert)
  from this [of "[]"] show ?thesis
    by (metis bs_sorted_def bs_sorted_distinct distinct_card sorted_wrt.simps(1) set_empty sup_bot.right_neutral)
qed

lemma portfolio_policy_limits_positive:
  assumes "portfolio_policy_validate p = Inr u"
    and "limits \<in> {prp_sector_limits p, prp_asset_class_limits p, prp_currency_limits p, prp_strategy_limits p}"
  shows "\<forall>k l. bt_get limits k = Some l \<longrightarrow> 0 < scaled l"
proof -
  from assms have "check_bucket_limits limits = Inr ()"
    by (auto simp: portfolio_policy_validate_def and_then_eq_Inr try_each_eq_Inr split: if_splits)
  then show ?thesis
    by (auto simp: check_bucket_limits_def try_each_eq_Inr decimal_cmp not_le dest!: bt_get_member split: if_splits)
qed

definition book_after :: "risk_snapshot \<Rightarrow> candidate_order list \<Rightarrow> risk_position list" where
  "book_after s cs = rsn_positions s @ map filled_candidate cs"

lemma evaluate_parts:
  assumes "evaluate_portfolio_risk_with_candidates policy s cs = Inr d"
  obtains base all where "portfolio_policy_validate policy = Inr ()" "\<not> snapshot_invalid s"
    "\<forall>c\<in>set cs. candidate_validate c = Inr ()"
    "aggregate_metrics (book_after s cs) (rsn_equity s) (rsn_peak_equity s) (rsn_margin_used s) = Inr base"
    "aggregate_metrics (book_after s cs @ rsn_working_positions s) (rsn_equity s) (rsn_peak_equity s)
       (rsn_margin_used s) = Inr all"
    "apply_working_bounds all base (book_after s cs) (rsn_working_positions s) = Inr (prd_metrics d)"
    "let found = dedup (sort (limit_reasons policy s (prd_metrics d)
        (Decimal (- scaled (prp_max_daily_loss policy))) (cs \<noteq> [])
        (fold (permission_reasons policy (rsn_resting_orders s)) cs []))) in
      prd_approved d = (found = []) \<and> prd_reason_codes d = approval found"
    "prd_policy_version d = prp_version policy"
proof -
  from assms obtain rs b base all where policy: "portfolio_policy_validate policy = Inr ()"
    and snapshot: "\<not> snapshot_invalid s"
    and loop: "try_fold (candidate_step policy (rsn_resting_orders s)) cs ([], rsn_positions s) = Inr (rs, b)"
    and base: "aggregate_metrics b (rsn_equity s) (rsn_peak_equity s) (rsn_margin_used s) = Inr base"
    and all: "aggregate_metrics (b @ rsn_working_positions s) (rsn_equity s) (rsn_peak_equity s)
       (rsn_margin_used s) = Inr all"
    and bounds: "apply_working_bounds all base b (rsn_working_positions s) = Inr (prd_metrics d)"
    and found: "let found = dedup (sort (limit_reasons policy s (prd_metrics d)
        (Decimal (- scaled (prp_max_daily_loss policy))) (cs \<noteq> []) rs)) in
      prd_approved d = (found = []) \<and> prd_reason_codes d = approval found"
    and version: "prd_policy_version d = prp_version policy"
    by (auto simp: evaluate_portfolio_risk_with_candidates_def and_then_eq_Inr negate_eq_Ok Let_def
        split: if_splits)
  note cands = candidates_Ok [OF loop]
  show ?thesis
    by (rule that [OF policy snapshot cands(3) base [unfolded cands(1), folded book_after_def]
          all [unfolded cands(1), folded book_after_def]
          bounds [unfolded cands(1), folded book_after_def] found [unfolded cands(2)] version])
qed

lemma working_metrics_Ok:
  assumes "aggregate_metrics (bps @ ws) equity peak margin = Inr all"
    and "aggregate_metrics bps equity peak margin = Inr base"
    and "apply_working_bounds all base bps ws = Inr m"
  shows "scaled (arm_gross_exposure m) = gross_of (bps @ ws)"
    "scaled (arm_leverage_bps m) = bps_of (gross_of (bps @ ws)) (scaled equity)"
    "amount_in (arm_sector_gross m) = bucket_of rkp_sector (bps @ ws)"
    "amount_in (arm_asset_class_gross m) = bucket_of rkp_asset_class (bps @ ws)"
    "amount_in (arm_currency_gross m) = bucket_of rkp_currency (bps @ ws)"
    "amount_in (arm_strategy_gross m) = bucket_of rkp_strategy_id (bps @ ws)"
    "bt_sorted (arm_sector_gross m)" "bt_sorted (arm_asset_class_gross m)"
    "bt_sorted (arm_currency_gross m)" "bt_sorted (arm_strategy_gross m)"
proof -
  obtain a b c d where m: "m = all\<lparr>arm_possible_abs_net_exposure := a, arm_possible_abs_delta := b,
       arm_possible_abs_gamma := c, arm_possible_concentration_bps := d\<rparr>"
    using apply_working_bounds_Ok(5) [OF assms(3) subseq_order.refl assms(2)] by blast
  note facts = aggregate_metrics_Ok [OF assms(1)]
  show "scaled (arm_gross_exposure m) = gross_of (bps @ ws)"
    "scaled (arm_leverage_bps m) = bps_of (gross_of (bps @ ws)) (scaled equity)"
    "amount_in (arm_sector_gross m) = bucket_of rkp_sector (bps @ ws)"
    "amount_in (arm_asset_class_gross m) = bucket_of rkp_asset_class (bps @ ws)"
    "amount_in (arm_currency_gross m) = bucket_of rkp_currency (bps @ ws)"
    "amount_in (arm_strategy_gross m) = bucket_of rkp_strategy_id (bps @ ws)"
    "bt_sorted (arm_sector_gross m)" "bt_sorted (arm_asset_class_gross m)"
    "bt_sorted (arm_currency_gross m)" "bt_sorted (arm_strategy_gross m)"
    unfolding fun_eq_iff using facts by (simp_all add: m)
qed

lemma limit_reasons_empty:
  assumes "bt_sorted (arm_sector_gross m)" "bt_sorted (arm_asset_class_gross m)"
    "bt_sorted (arm_currency_gross m)" "bt_sorted (arm_strategy_gross m)"
    and "portfolio_policy_validate policy = Inr u"
  shows "limit_reasons policy s m loss any_candidate reasons = [] \<longleftrightarrow> reasons = []
    \<and> \<not> prp_global_kill_switch policy
    \<and> arm_gross_exposure m \<le> prp_max_gross_exposure policy
    \<and> arm_possible_abs_net_exposure m \<le> prp_max_abs_net_exposure policy
    \<and> arm_leverage_bps m \<le> prp_max_leverage_bps policy
    \<and> arm_possible_concentration_bps m \<le> prp_max_concentration_bps policy
    \<and> loss \<le> rsn_daily_pnl s
    \<and> arm_drawdown_bps m \<le> prp_max_drawdown_bps policy
    \<and> arm_margin_utilization_bps m \<le> prp_max_margin_utilization_bps policy
    \<and> arm_possible_abs_delta m \<le> prp_max_abs_delta policy
    \<and> arm_possible_abs_gamma m \<le> prp_max_abs_gamma policy
    \<and> card (rso_order_id ` set (rsn_resting_orders s)) + of_bool any_candidate \<le> prp_max_open_orders policy
    \<and> u32_saturating_add (rsn_recent_order_count s) (of_bool any_candidate) \<le> prp_max_order_rate policy
    \<and> buckets_within (prp_sector_limits policy) (amount_in (arm_sector_gross m))
    \<and> buckets_within (prp_asset_class_limits policy) (amount_in (arm_asset_class_gross m))
    \<and> buckets_within (prp_currency_limits policy) (amount_in (arm_currency_gross m))
    \<and> buckets_within (prp_strategy_limits policy) (amount_in (arm_strategy_gross m))"
proof -
  note positive = portfolio_policy_limits_positive [OF assms(5)]
  have buckets: "bucket_reasons c (arm_sector_gross m) (prp_sector_limits policy) = []
      \<longleftrightarrow> buckets_within (prp_sector_limits policy) (amount_in (arm_sector_gross m))"
    "bucket_reasons c (arm_asset_class_gross m) (prp_asset_class_limits policy) = []
      \<longleftrightarrow> buckets_within (prp_asset_class_limits policy) (amount_in (arm_asset_class_gross m))"
    "bucket_reasons c (arm_currency_gross m) (prp_currency_limits policy) = []
      \<longleftrightarrow> buckets_within (prp_currency_limits policy) (amount_in (arm_currency_gross m))"
    "bucket_reasons c (arm_strategy_gross m) (prp_strategy_limits policy) = []
      \<longleftrightarrow> buckets_within (prp_strategy_limits policy) (amount_in (arm_strategy_gross m))" for c
    using assms(1-4) by (intro bucket_reasons_empty positive; simp)+
  have push: "(if b then [r] else []) = [] \<longleftrightarrow> \<not> b" for b and r :: string by simp
  show ?thesis
    unfolding limit_reasons_def append_is_Nil_conv push buckets resting_identities not_less set_map
    by blast
qed

lemma limit_reasons_codes:
  "''APPROVED'' \<notin> set reasons \<Longrightarrow> ''APPROVED'' \<notin> set (limit_reasons policy s m loss any_candidate reasons)"
  by (auto simp: limit_reasons_def bucket_reasons_def)

section \<open>Properties\<close>

lemma buckets_within_mono:
  "buckets_within limits f \<Longrightarrow> (\<And>k. g k \<le> f k) \<Longrightarrow> buckets_within limits g"
  unfolding buckets_within_def by (meson order_trans)

text \<open>C10: An approval is safe whatever happens next: for every subset of the working orders that may
  fill beside the candidates, the resulting book keeps within the gross, net, leverage, concentration,
  delta and gamma limits and within every sector, asset-class, currency and strategy limit.\<close>

theorem risk_approval_covers_every_fill:
  assumes "evaluate_portfolio_risk_with_candidates policy s candidates = Ok d" "prd_approved d"
    and "subseq fills (rsn_working_positions s)"
  shows "let book = book_after s candidates @ fills in
    gross_of book \<le> scaled (prp_max_gross_exposure policy)
    \<and> \<bar>net_of book\<bar> \<le> scaled (prp_max_abs_net_exposure policy)
    \<and> bps_of (gross_of book) (scaled (rsn_equity s)) \<le> scaled (prp_max_leverage_bps policy)
    \<and> (\<forall>i. bps_of (bucket_of rkp_instrument_id book i) (gross_of book) \<le> scaled (prp_max_concentration_bps policy))
    \<and> \<bar>delta_of book\<bar> \<le> scaled (prp_max_abs_delta policy)
    \<and> \<bar>gamma_of book\<bar> \<le> scaled (prp_max_abs_gamma policy)
    \<and> buckets_within (prp_sector_limits policy) (bucket_of rkp_sector book)
    \<and> buckets_within (prp_asset_class_limits policy) (bucket_of rkp_asset_class book)
    \<and> buckets_within (prp_currency_limits policy) (bucket_of rkp_currency book)
    \<and> buckets_within (prp_strategy_limits policy) (bucket_of rkp_strategy_id book)"
  using assms(1)
proof (rule evaluate_parts)
  fix base all
  let ?b = "book_after s candidates" and ?m = "prd_metrics d"
  assume policy: "portfolio_policy_validate policy = Inr ()"
    and base: "aggregate_metrics ?b (rsn_equity s) (rsn_peak_equity s) (rsn_margin_used s) = Inr base"
    and all: "aggregate_metrics (?b @ rsn_working_positions s) (rsn_equity s) (rsn_peak_equity s)
       (rsn_margin_used s) = Inr all"
    and bounds: "apply_working_bounds all base ?b (rsn_working_positions s) = Inr ?m"
    and found: "let found = dedup (sort (limit_reasons policy s ?m (Decimal (- scaled (prp_max_daily_loss policy)))
        (candidates \<noteq> []) (fold (permission_reasons policy (rsn_resting_orders s)) candidates []))) in
      prd_approved d = (found = []) \<and> prd_reason_codes d = approval found"
  note metrics = working_metrics_Ok [OF all base bounds]
  note working = apply_working_bounds_Ok [OF bounds assms(3) base]
  from found assms(2) have
    "limit_reasons policy s ?m (Decimal (- scaled (prp_max_daily_loss policy))) (candidates \<noteq> [])
      (fold (permission_reasons policy (rsn_resting_orders s)) candidates []) = []" by (simp add: Let_def)
  note limits = this [unfolded limit_reasons_empty [OF metrics(7-10) policy] metrics(3-6)]
  have sub: "gross_of fills \<le> gross_of (rsn_working_positions s)"
    "bucket_of key fills k \<le> bucket_of key (rsn_working_positions s) k" for key k
    using subseq_gross_le [OF assms(3)] by auto
  have "bps_of (gross_of (?b @ fills)) (scaled (rsn_equity s)) \<le> scaled (arm_leverage_bps ?m)"
    using bps_of_mono sub(1) aggregate_metrics_Ok(5) [OF base] metrics(2) by simp
  moreover have "gross_of (?b @ fills) \<le> scaled (arm_gross_exposure ?m)" using sub(1) metrics(1) by simp
  moreover have "buckets_within l (bucket_of key (?b @ rsn_working_positions s))
      \<Longrightarrow> buckets_within l (bucket_of key (?b @ fills))" for l key
    by (erule buckets_within_mono) (simp add: sub(2))
  ultimately show ?thesis
    using limits working(1-4) unfolding Let_def decimal_cmp by (meson order_trans)
qed

text \<open>C24: The portfolio decision is complete and explained: it approves exactly when every candidate is
  permitted, trading is not switched off, and every aggregate of the book with all candidates is
  within its limit; a group of candidates counts as one order; its only reason code is then
  APPROVED, which no refusal carries.\<close>

theorem portfolio_risk_approves_iff:
  assumes "evaluate_portfolio_risk_with_candidates policy s candidates = Ok d"
  shows "let m = prd_metrics d; book = book_after s candidates @ rsn_working_positions s;
      group = of_bool (candidates \<noteq> []) in
    (prd_approved d \<longleftrightarrow>
       (\<forall>c\<in>set candidates. permitted policy (rsn_resting_orders s) c)
       \<and> \<not> prp_global_kill_switch policy
       \<and> gross_of book \<le> scaled (prp_max_gross_exposure policy)
       \<and> arm_possible_abs_net_exposure m \<le> prp_max_abs_net_exposure policy
       \<and> bps_of (gross_of book) (scaled (rsn_equity s)) \<le> scaled (prp_max_leverage_bps policy)
       \<and> arm_possible_concentration_bps m \<le> prp_max_concentration_bps policy
       \<and> - scaled (prp_max_daily_loss policy) \<le> scaled (rsn_daily_pnl s)
       \<and> arm_drawdown_bps m \<le> prp_max_drawdown_bps policy
       \<and> arm_margin_utilization_bps m \<le> prp_max_margin_utilization_bps policy
       \<and> arm_possible_abs_delta m \<le> prp_max_abs_delta policy
       \<and> arm_possible_abs_gamma m \<le> prp_max_abs_gamma policy
       \<and> card (rso_order_id ` set (rsn_resting_orders s)) + group \<le> prp_max_open_orders policy
       \<and> u32_saturating_add (rsn_recent_order_count s) group \<le> prp_max_order_rate policy
       \<and> buckets_within (prp_sector_limits policy) (bucket_of rkp_sector book)
       \<and> buckets_within (prp_asset_class_limits policy) (bucket_of rkp_asset_class book)
       \<and> buckets_within (prp_currency_limits policy) (bucket_of rkp_currency book)
       \<and> buckets_within (prp_strategy_limits policy) (bucket_of rkp_strategy_id book))
    \<and> (''APPROVED'' \<in> set (prd_reason_codes d) \<longleftrightarrow> prd_approved d)
    \<and> (prd_approved d \<longleftrightarrow> prd_reason_codes d = [''APPROVED''])"
  using assms
proof (rule evaluate_parts)
  fix base all
  let ?b = "book_after s candidates" and ?m = "prd_metrics d"
  let ?rs = "fold (permission_reasons policy (rsn_resting_orders s)) candidates []"
  let ?limits = "limit_reasons policy s ?m (Decimal (- scaled (prp_max_daily_loss policy))) (candidates \<noteq> []) ?rs"
  assume policy: "portfolio_policy_validate policy = Inr ()"
    and base: "aggregate_metrics ?b (rsn_equity s) (rsn_peak_equity s) (rsn_margin_used s) = Inr base"
    and all: "aggregate_metrics (?b @ rsn_working_positions s) (rsn_equity s) (rsn_peak_equity s)
       (rsn_margin_used s) = Inr all"
    and bounds: "apply_working_bounds all base ?b (rsn_working_positions s) = Inr ?m"
    and found: "let found = dedup (sort ?limits) in
      prd_approved d = (found = []) \<and> prd_reason_codes d = approval found"
  note metrics = working_metrics_Ok [OF all base bounds]
  have approved: "prd_approved d \<longleftrightarrow> ?limits = []" and codes: "prd_reason_codes d = approval (dedup (sort ?limits))"
    using found by (simp_all add: Let_def)
  have "''APPROVED'' \<notin> set ?limits" by (intro limit_reasons_codes permission_reasons_codes) simp
  then have "''APPROVED'' \<in> set (prd_reason_codes d) \<longleftrightarrow> prd_approved d"
    and "prd_approved d \<longleftrightarrow> prd_reason_codes d = [''APPROVED'']"
    unfolding approved codes approval_def by (auto dest: arg_cong [where f = set])
  then show ?thesis
    unfolding Let_def approved limit_reasons_empty [OF metrics(7-10) policy] metrics(3-6)
      permission_reasons_empty decimal_cmp metrics(1,2) decimal.sel
    by blast
qed

definition sample_risk_policy :: portfolio_risk_policy where
  "sample_risk_policy = \<lparr>prp_version = ''p1'', prp_global_kill_switch = False,
     prp_max_gross_exposure = Decimal 100000000000, prp_max_abs_net_exposure = Decimal 100000000000,
     prp_max_leverage_bps = Decimal 1000000000000, prp_max_concentration_bps = Decimal 1000000000000,
     prp_max_daily_loss = Decimal 100000000, prp_max_drawdown_bps = Decimal 100000000000,
     prp_max_margin_utilization_bps = Decimal 500000000000, prp_max_abs_delta = Decimal 100000000000,
     prp_max_abs_gamma = Decimal 100000000000, prp_max_open_orders = 5, prp_max_order_rate = 5,
     prp_allowed_instruments = [], prp_restricted_instruments = [''banned''],
     prp_sector_limits = [(''tech'', Decimal 100000000000)], prp_asset_class_limits = [],
     prp_currency_limits = [], prp_strategy_limits = [],
     prp_max_news_slippage_bps = Some (Decimal 5000000000),
     prp_max_spread_multiplier_bps = Some (Decimal 3000000000000)\<rparr>"

definition sample_row :: "string \<Rightarrow> int \<Rightarrow> risk_position" where
  "sample_row instrument quantity = \<lparr>rkp_account_id = ''a'', rkp_strategy_id = ''s'',
     rkp_instrument_id = instrument, rkp_asset_class = ''equity'', rkp_sector = ''tech'',
     rkp_currency = ''USD'', rkp_quantity = Decimal quantity, rkp_mark_price = Decimal 1000000000,
     rkp_multiplier = Decimal 100000000, rkp_delta = Decimal quantity, rkp_gamma = Decimal 0\<rparr>"

definition sample_candidate :: candidate_order where
  "sample_candidate = \<lparr>cdo_intent_id = ''i'', cdo_account_id = ''a'', cdo_strategy_id = ''s'',
     cdo_instrument_id = ''x'', cdo_asset_class = ''equity'', cdo_sector = ''tech'',
     cdo_currency = ''USD'', cdo_side = Buy, cdo_quantity = Decimal 200000000,
     cdo_mark_price = Decimal 1000000000, cdo_multiplier = Decimal 100000000,
     cdo_delta = Decimal 200000000, cdo_gamma = Decimal 0\<rparr>"

definition sample_snapshot :: risk_snapshot where
  "sample_snapshot = \<lparr>rsn_equity = Decimal 100000000000, rsn_peak_equity = Decimal 101000000000,
     rsn_daily_pnl = Decimal 0, rsn_margin_used = Decimal 0, rsn_positions = [sample_row ''x'' 100000000],
     rsn_working_positions = [sample_row ''y'' (- 300000000), sample_row ''x'' 100000000],
     rsn_resting_orders = [], rsn_recent_order_count = 0\<rparr>"
lemmas risk_arith = checked_add_def checked_sub_def checked_mul_def checked_div_def i128_checked_def in_i128_def
  DECIMAL_SCALE_def sdiv_nonneg_eq_div decimal_cmp negate_def absolute_def ratio_bps_def byte_simps

lemma sample_policy_ok: "portfolio_policy_validate sample_risk_policy = Ok ()"
  by (simp add: portfolio_policy_validate_def sample_risk_policy_def validate_canonical_id_def is_id_byte_def limits_invalid_def
   check_bucket_limits_def bs_contains_def risk_arith)

lemma sample_row_ok:
  "position_validate (sample_row ''x'' q) = Ok ()" "position_validate (sample_row ''y'' q) = Ok ()"
  by (simp_all add: sample_row_def position_validate_def validate_canonical_id_def is_id_byte_def risk_arith)
lemma sample_exposure: 
 "signed_exposure (sample_row i 100000000) = Ok (Decimal 1000000000)"
 "signed_exposure (sample_row i 200000000) = Ok (Decimal 2000000000)"
 "signed_exposure (sample_row i (- 300000000)) = Ok (Decimal (- 3000000000))"
  by (simp_all add: sample_row_def signed_exposure_def risk_arith signed_divide_int_def)
lemma sample_row_sel [simp]: "rkp_instrument_id (sample_row i q) = i" "rkp_sector (sample_row i q) = ''tech''" 
  "rkp_asset_class (sample_row i q) = ''equity''" "rkp_currency (sample_row i q) = ''USD''" "rkp_strategy_id (sample_row i q) = ''s''"
 "rkp_delta (sample_row i q) = Decimal q" "rkp_gamma (sample_row i q) = Decimal 0"
  by (simp_all add: sample_row_def)

lemma sample_candidates: "try_fold (candidate_step sample_risk_policy []) [sample_candidate] ([], ps) =
   Ok ([], ps @ [sample_row ''x'' 200000000])"
  by (simp add: candidate_step_def candidate_validate_def candidate_position_def position_validate_def
      candidate_signed_exposure_def sample_candidate_def sample_row_def permission_reasons_def self_trade_def
      sample_risk_policy_def bs_contains_def validate_canonical_id_def is_id_byte_def risk_arith)

lemmas sample_loops = aggregate_metrics_def aggregate_step_def no_totals_def add_bucket_def largest_value_def
  apply_working_bounds_def base_instrument_step_def working_step_def widen_def largest_magnitude_def
  scenario_step_def sample_row_ok sample_exposure

lemma sample_snapshot_sel:
  "\<not> snapshot_invalid sample_snapshot" "rsn_resting_orders sample_snapshot = []"
  "rsn_positions sample_snapshot = [sample_row ''x'' 100000000]"
  "rsn_working_positions sample_snapshot = [sample_row ''y'' (- 300000000), sample_row ''x'' 100000000]"
  "rsn_equity sample_snapshot = Decimal 100000000000" "rsn_peak_equity sample_snapshot = Decimal 101000000000"
  "rsn_margin_used sample_snapshot = Decimal 0" "rsn_daily_pnl sample_snapshot = Decimal 0"
  "rsn_recent_order_count sample_snapshot = 0"
  by (simp_all add: sample_snapshot_def snapshot_invalid_def risk_arith)

lemma sample_risk_evaluation:
  "\<exists>d. evaluate_portfolio_risk_with_candidates sample_risk_policy sample_snapshot [sample_candidate] = Ok d
    \<and> prd_approved d"
  unfolding evaluate_portfolio_risk_with_candidates_def sample_policy_ok sample_snapshot_sel sample_candidates
  by (simp add: sample_loops sample_snapshot_sel risk_arith limit_reasons_def sample_risk_policy_def bucket_reasons_def
     u32_saturating_add_def option_exceeds_def)

theorem risk_approval_covers_every_fill_witness:
  "\<exists>d. evaluate_portfolio_risk_with_candidates sample_risk_policy sample_snapshot [sample_candidate] = Ok d
    \<and> gross_of (book_after sample_snapshot [sample_candidate] @ [sample_row ''x'' 100000000])
      \<le> scaled (prp_max_gross_exposure sample_risk_policy)"
proof -
  have "subseq [sample_row ''x'' 100000000] (rsn_working_positions sample_snapshot)"
    by (simp add: sample_snapshot_sel)
  with sample_risk_evaluation risk_approval_covers_every_fill show ?thesis by (metis (no_types, lifting))
qed

theorem portfolio_risk_approves_iff_witness:
  "\<exists>d. evaluate_portfolio_risk_with_candidates sample_risk_policy sample_snapshot [sample_candidate] = Ok d
    \<and> prd_reason_codes d = [''APPROVED'']"
  using sample_risk_evaluation portfolio_risk_approves_iff unfolding Let_def by (metis (no_types, lifting))

text \<open>The two news gates agree on what a liquidity hole is up to rounding, and the portfolio collar
  is the stricter: it fires exactly when the current spread exceeds the configured multiple of the
  baseline, and whenever the pre-trade policy's computed multiplier exceeds the same limit, so does
  the collar.\<close>

theorem liquidity_hole_gates_ordered:
  assumes "news_shock_validate shock = Ok ()" "spread_multiplier shock = Ok (Some multiplier)"
    and "ns_current_spread shock = Some spread" "ns_baseline_spread shock = Some baseline"
    and "spread_beyond_multiple limit spread baseline = Ok hole" "ZERO < limit"
  shows "(hole \<longleftrightarrow> scaled limit * scaled baseline < scaled spread * 10000 * DECIMAL_SCALE)
    \<and> (multiplier > limit \<longrightarrow> hole)"
proof -
  from assms(1,3,4) have pos: "0 < scaled baseline" "0 \<le> scaled spread"
    by (auto simp: news_shock_validate_def option_exceeds_def decimal_cmp not_le not_less split: if_splits)
  from assms(5) obtain p a where p: "checked_mul baseline limit = Inr p"
    and a: "checked_div p (Decimal 1000000000000) = Inr a" and hole: "hole \<longleftrightarrow> spread > a"
    by (auto simp: spread_beyond_multiple_def and_then_eq_Inr)
  have sp: "scaled p = scaled baseline * scaled limit div DECIMAL_SCALE" "0 \<le> scaled p"
    using checked_mul_nonneg [OF p] checked_mul_sign [OF p] pos assms(6) by (simp_all add: decimal_cmp)
  have "scaled a = scaled p * 100000000 div (10000 * 100000000)"
    using checked_div_pos [OF a] sp(2) by (simp add: DECIMAL_SCALE_def)
  also have "\<dots> = scaled p div 10000" by (simp only: div_mult_mult2)
  finally have sa: "scaled a = scaled limit * scaled baseline div (DECIMAL_SCALE * 10000)"
    by (simp add: sp(1) zdiv_zmult2_eq mult.commute)
  have below: "x div k < y \<longleftrightarrow> x < y * k" if "0 < k" for x y k :: int
  proof -
    have "x = x div k * k + x mod k" "0 \<le> x mod k" "x mod k < k" using that by simp_all
    moreover have "x div k * k + k \<le> y * k" if "x div k < y"
      using that \<open>0 < k\<close> mult_right_mono [of "x div k + 1" y k] by (simp add: distrib_right)
    moreover have "y * k \<le> x div k * k" if "y \<le> x div k"
      using that \<open>0 < k\<close> by (simp add: mult_right_mono)
    ultimately show ?thesis by linarith
  qed
  have exact: "hole \<longleftrightarrow> scaled limit * scaled baseline < scaled spread * 10000 * DECIMAL_SCALE"
    using below [of "DECIMAL_SCALE * 10000" "scaled limit * scaled baseline" "scaled spread"]
    by (simp add: hole decimal_cmp sa mult_ac)
  from assms(2-4) obtain q where q: "checked_mul spread (Decimal 1000000000000) = Inr q"
    and m: "checked_div q baseline = Inr multiplier"
    by (auto simp: spread_multiplier_def and_then_eq_Inr)
  have "scaled q = scaled spread * 10000" using checked_mul_nonneg [OF q] pos by (simp add: DECIMAL_SCALE_def)
  with checked_div_pos [OF m] pos have sm: "scaled multiplier = scaled spread * 10000 * DECIMAL_SCALE div scaled baseline"
    by simp
  have "hole" if "multiplier > limit"
  proof -
    from that have "\<not> scaled spread * 10000 * DECIMAL_SCALE div scaled baseline < scaled limit + 1"
      by (simp add: decimal_cmp sm)
    then have "(scaled limit + 1) * scaled baseline \<le> scaled spread * 10000 * DECIMAL_SCALE"
      unfolding below [OF pos(1)] by (simp only: not_less)
    then show ?thesis using exact pos(1) by (simp add: distrib_right)
  qed
  with exact show ?thesis by blast
qed

theorem liquidity_hole_gates_ordered_witness:
  "3000000000000 * 1 < 4 * 10000 * DECIMAL_SCALE"
  using liquidity_hole_gates_ordered [of "\<lparr>ns_pre_headline_reference_price = Decimal 100000000,
      ns_current_spread = Some (Decimal 4), ns_baseline_spread = Some (Decimal 1)\<rparr>" "Decimal 4000000000000"
      "Decimal 4" "Decimal 1" "Decimal 3000000000000" True]
  by (simp add: news_shock_validate_def spread_multiplier_def spread_beyond_multiple_def risk_arith)

text \<open>
  A working order too small to carry an exposure makes an otherwise empty book impossible to
  evaluate: \<^verbatim>\<open>aggregate_metrics\<close> guards the concentration of an empty book, \<^verbatim>\<open>apply_working_bounds\<close>
  does not.
\<close>

theorem dust_order_blocks_evaluation:
  assumes "portfolio_policy_validate policy = Ok ()"
  shows "evaluate_portfolio_risk policy (sample_snapshot\<lparr>rsn_positions := [],
      rsn_working_positions := [(sample_row ''x'' 1)\<lparr>rkp_mark_price := Decimal 50000000\<rparr>]\<rparr>) None
    = Err ''risk ratio requires valid inputs''"
  using assms
  by (simp add: evaluate_portfolio_risk_def evaluate_portfolio_risk_with_candidates_def snapshot_invalid_def
      sample_snapshot_def sample_row_def sample_loops signed_exposure_def position_validate_def
      validate_canonical_id_def is_id_byte_def risk_arith)

end
