(* ===== verification/RiskFingerprint.thy ===== *)
theory RiskFingerprint
  imports RiskEvaluate
begin

text \<open>
  Component: the canonical rendering of a portfolio risk policy that the paper and live services
  fingerprint (\<^verbatim>\<open>core/risk/src/policy.rs\<close>, \<^verbatim>\<open>canonical_parts\<close>). The rendering determines the
  policy as long as the bucket keys are canonical identifiers; the crate's own validation only asks
  them to be non-empty, and then two policies with different limits can render alike.
\<close>

definition render_limits :: "(string, decimal) btree_map \<Rightarrow> string" where
  "render_limits m = join ''|'' (map (\<lambda>(key, v). key @ ''='' @ decimal_to_string v) m)"

definition render_set :: "string btree_set \<Rightarrow> string" where
  "render_set s = join ''|'' s"

definition render_bool :: "bool \<Rightarrow> string" where
  "render_bool b = (if b then ''true'' else ''false'')"

definition canonical_parts :: "portfolio_risk_policy \<Rightarrow> string list" where
  "canonical_parts p =
     [''version='' @ prp_version p,
      ''global_kill_switch='' @ render_bool (prp_global_kill_switch p),
      ''max_gross_exposure='' @ decimal_to_string (prp_max_gross_exposure p),
      ''max_abs_net_exposure='' @ decimal_to_string (prp_max_abs_net_exposure p),
      ''max_leverage_bps='' @ decimal_to_string (prp_max_leverage_bps p),
      ''max_concentration_bps='' @ decimal_to_string (prp_max_concentration_bps p),
      ''max_daily_loss='' @ decimal_to_string (prp_max_daily_loss p),
      ''max_drawdown_bps='' @ decimal_to_string (prp_max_drawdown_bps p),
      ''max_margin_utilization_bps='' @ decimal_to_string (prp_max_margin_utilization_bps p),
      ''max_abs_delta='' @ decimal_to_string (prp_max_abs_delta p),
      ''max_abs_gamma='' @ decimal_to_string (prp_max_abs_gamma p),
      ''max_open_orders='' @ show_nat (prp_max_open_orders p),
      ''max_order_rate='' @ show_nat (prp_max_order_rate p),
      ''allowed_instruments='' @ render_set (prp_allowed_instruments p),
      ''restricted_instruments='' @ render_set (prp_restricted_instruments p),
      ''sector_limits='' @ render_limits (prp_sector_limits p),
      ''asset_class_limits='' @ render_limits (prp_asset_class_limits p),
      ''currency_limits='' @ render_limits (prp_currency_limits p),
      ''strategy_limits='' @ render_limits (prp_strategy_limits p),
      ''max_news_slippage_bps='' @ show_decimal_option ''none'' (prp_max_news_slippage_bps p),
      ''max_spread_multiplier_bps='' @ show_decimal_option ''none'' (prp_max_spread_multiplier_bps p)]"

section \<open>Each rendering is injective\<close>

lemma show_decimal_option_none_inj [simp]:
  "show_decimal_option ''none'' a = show_decimal_option ''none'' b \<longleftrightarrow> a = b"
proof -
  have "decimal_to_string d \<noteq> ''none''" for d
  proof
    assume "decimal_to_string d = ''none''"
    then have "CHR ''.'' \<in> set ''none''" by (metis decimal_to_string_parts UnCI list.set_intros(1) set_append)
    then show False by simp
  qed
  then show ?thesis by (cases a; cases b) (auto simp: show_decimal_option_def dest: sym)
qed

lemma render_bool_inj [simp]: "render_bool a = render_bool b \<longleftrightarrow> a = b"
  by (auto simp: render_bool_def)

lemma render_set_inj:
  "\<forall>i\<in>set s \<union> set t. canonical_id i \<Longrightarrow> render_set s = render_set t \<longleftrightarrow> s = t"
  using join_inj [of s t "CHR ''|''"] id_not_separator by (auto simp: render_set_def canonical_id_def)

definition keys_canonical :: "(string, decimal) btree_map \<Rightarrow> bool" where
  "keys_canonical m \<longleftrightarrow> (\<forall>(k, v)\<in>set m. canonical_id k)"

lemma render_limits_inj:
  assumes "keys_canonical m" "keys_canonical n"
  shows "render_limits m = render_limits n \<longleftrightarrow> m = n"
proof
  let ?entry = "\<lambda>(key, v). key @ ''='' @ decimal_to_string v"
  have canon: "canonical_id (fst e)" if "e \<in> set m \<union> set n" for e
    using that assms by (cases e) (auto simp: keys_canonical_def)
  assume "render_limits m = render_limits n"
  then have eq: "join ''|'' (map ?entry m) = join ''|'' (map ?entry n)" by (simp add: render_limits_def)
  show "m = n"
  proof (rule join_map_inj [OF _ _ eq])
    show "\<forall>e\<in>set m \<union> set n. ?entry e \<noteq> [] \<and> CHR ''|'' \<notin> set (?entry e)"
      using canon decimal_not_separator by (fastforce dest: id_not_separator)
    show "inj_on ?entry (set m \<union> set n)"
    proof (rule inj_onI)
      fix e f assume "e \<in> set m \<union> set n" "f \<in> set m \<union> set n" "?entry e = ?entry f"
      with id_not_separator [OF canon, of e] id_not_separator [OF canon, of f] split_at_inj [of "CHR ''=''" "fst e" "fst f"]
      show "e = f" by (cases e; cases f) auto
    qed
  qed
qed simp

section \<open>Properties\<close>

definition canonical_buckets :: "portfolio_risk_policy \<Rightarrow> bool" where
  "canonical_buckets p \<longleftrightarrow> keys_canonical (prp_sector_limits p) \<and> keys_canonical (prp_asset_class_limits p)
     \<and> keys_canonical (prp_currency_limits p) \<and> keys_canonical (prp_strategy_limits p)"

lemma policy_rendering_inj:
  assumes "portfolio_policy_validate p = Ok ()" "portfolio_policy_validate q = Ok ()"
    and "canonical_buckets p" "canonical_buckets q" "canonical_parts p = canonical_parts q"
  shows "p = q"
proof -
  have sets: "render_set (prp_allowed_instruments p) = render_set (prp_allowed_instruments q)
      \<longleftrightarrow> prp_allowed_instruments p = prp_allowed_instruments q"
    "render_set (prp_restricted_instruments p) = render_set (prp_restricted_instruments q)
      \<longleftrightarrow> prp_restricted_instruments p = prp_restricted_instruments q"
    using portfolio_policy_validate_Ok(5) [OF assms(1)] portfolio_policy_validate_Ok(5) [OF assms(2)]
    by (auto intro!: render_set_inj)
  have limits: "render_limits (prp_sector_limits p) = render_limits (prp_sector_limits q)
      \<longleftrightarrow> prp_sector_limits p = prp_sector_limits q"
    "render_limits (prp_asset_class_limits p) = render_limits (prp_asset_class_limits q)
      \<longleftrightarrow> prp_asset_class_limits p = prp_asset_class_limits q"
    "render_limits (prp_currency_limits p) = render_limits (prp_currency_limits q)
      \<longleftrightarrow> prp_currency_limits p = prp_currency_limits q"
    "render_limits (prp_strategy_limits p) = render_limits (prp_strategy_limits q)
      \<longleftrightarrow> prp_strategy_limits p = prp_strategy_limits q"
    using assms(3,4) by (auto simp: canonical_buckets_def intro!: render_limits_inj)
  show ?thesis
    by (rule portfolio_risk_policy.equality)
      (use assms(5) in \<open>simp_all add: canonical_parts_def sets limits\<close>)
qed

text \<open>The rendering that the services fingerprint identifies the policy: two validated policies
  whose bucket keys are canonical identifiers and that render alike agree in every field, so no
  limit can change under an unchanged fingerprint.\<close>

theorem policy_rendering_identifies:
  assumes "portfolio_policy_validate p = Ok ()" "portfolio_policy_validate q = Ok ()"
    and "canonical_buckets p" "canonical_buckets q" "canonical_parts p = canonical_parts q"
  shows "p = q"
  using assms by (rule policy_rendering_inj)

lemma sample_policy_buckets: "canonical_buckets sample_risk_policy"
  by (simp add: canonical_buckets_def sample_risk_policy_def keys_canonical_def canonical_id_def is_id_byte_def
      byte_simps)

lemma check_bucket_limits_Nil [simp]: "check_bucket_limits [] = Ok ()"
  by (simp add: check_bucket_limits_def)

lemma sample_policy_with:
  "check_bucket_limits m = Ok () \<Longrightarrow> portfolio_policy_validate (sample_risk_policy\<lparr>prp_sector_limits := m\<rparr>) = Ok ()"
  "portfolio_policy_validate (sample_risk_policy\<lparr>prp_max_open_orders := 6\<rparr>) = Ok ()"
  by (simp_all add: portfolio_policy_validate_def sample_risk_policy_def validate_canonical_id_def is_id_byte_def
      limits_invalid_def bs_contains_def risk_arith check_bucket_limits_def)

theorem policy_rendering_identifies_witness:
  "canonical_parts (sample_risk_policy\<lparr>prp_max_open_orders := 6\<rparr>) \<noteq> canonical_parts sample_risk_policy"
proof
  let ?q = "sample_risk_policy\<lparr>prp_max_open_orders := 6\<rparr>"
  assume same: "canonical_parts ?q = canonical_parts sample_risk_policy"
  have "canonical_buckets ?q" using sample_policy_buckets by (simp add: canonical_buckets_def)
  then have "?q = sample_risk_policy"
    using policy_rendering_identifies [of ?q sample_risk_policy] same sample_policy_with(2) sample_policy_ok
      sample_policy_buckets by blast
  then show False by (simp add: sample_risk_policy_def)
qed

text \<open>Validation admits any non-empty bucket key, and one that spells a separator hides a limit.\<close>

lemma decimal_one: "decimal_to_string (Decimal 100000000) = ''1.00000000''"
proof -
  have "show_nat 1 = ''1''" "zero_padded 8 0 = ''00000000''" by code_simp+
  then show ?thesis by (simp add: decimal_to_string_def DECIMAL_SCALE_def)
qed

theorem policy_rendering_collides:
  "let p = sample_risk_policy\<lparr>prp_sector_limits := [(''a'', Decimal 100000000), (''b'', Decimal 200000000)]\<rparr>;
       q = sample_risk_policy\<lparr>prp_sector_limits := [(''a=1.00000000|b'', Decimal 200000000)]\<rparr> in
   portfolio_policy_validate p = Ok () \<and> portfolio_policy_validate q = Ok ()
   \<and> canonical_parts p = canonical_parts q \<and> p \<noteq> q"
proof -
  let ?m = "[(''a'', Decimal 100000000), (''b'', Decimal 200000000)]" and ?n = "[(''a=1.00000000|b'', Decimal 200000000)]"
  have "check_bucket_limits ?m = Ok ()" "check_bucket_limits ?n = Ok ()"
    by (simp_all add: check_bucket_limits_def decimal_cmp)
  then have "portfolio_policy_validate (sample_risk_policy\<lparr>prp_sector_limits := ?m\<rparr>) = Ok ()"
    "portfolio_policy_validate (sample_risk_policy\<lparr>prp_sector_limits := ?n\<rparr>) = Ok ()"
    by (simp_all only: sample_policy_with)
  moreover have "render_limits ?m = render_limits ?n"
    by (simp add: render_limits_def decimal_one)
  then have "canonical_parts (sample_risk_policy\<lparr>prp_sector_limits := ?m\<rparr>)
      = canonical_parts (sample_risk_policy\<lparr>prp_sector_limits := ?n\<rparr>)"
    by (simp add: canonical_parts_def)
  moreover have "sample_risk_policy\<lparr>prp_sector_limits := ?m\<rparr> \<noteq> sample_risk_policy\<lparr>prp_sector_limits := ?n\<rparr>"
    by (simp add: sample_risk_policy_def)
  ultimately show ?thesis unfolding Let_def by blast
qed

end
