(* ===== verification/RiskAllocation.thy ===== *)
theory RiskAllocation
  imports DecimalArith
begin

text \<open>
  Component: the capital allocation council (\<^verbatim>\<open>core/risk/src/allocation.rs\<close>). The SHA-256 of the
  \<^verbatim>\<open>sha2\<close> crate, as lower-case hexadecimal text, is the parameter \<open>sha256_hex\<close>; nothing is assumed
  of it. The lemmas bound what a proposal hands out. The rendering writes its fields unescaped, as
  the code does.
\<close>

datatype proposal_status = Recommended | UnderReview | Ratified | ProposalRejected

fun proposal_status_as_str :: "proposal_status \<Rightarrow> string" where
  "proposal_status_as_str Recommended = ''RECOMMENDED''"
| "proposal_status_as_str UnderReview = ''UNDER_REVIEW''"
| "proposal_status_as_str Ratified = ''RATIFIED''"
| "proposal_status_as_str ProposalRejected = ''REJECTED''"

record allocation_recommendation =
  al_strategy_id :: string
  al_recommended_capital_usd :: string
  al_risk_budget_share_bps :: nat
  al_marginal_risk_contribution_bps :: int

record allocation_proposal =
  ap_proposal_schema_version :: nat
  ap_proposal_id :: string
  ap_total_equity_usd :: string
  ap_target_annual_volatility_bps :: nat
  ap_max_drawdown_limit_bps :: nat
  ap_allocations :: "allocation_recommendation list"
  ap_portfolio_diversification_ratio_bps :: nat
  ap_proposal_status :: proposal_status
  ap_policy_version :: string
  ap_proposed_at :: string

section \<open>Rendering\<close>

definition quoted :: "string \<Rightarrow> string" where
  "quoted s = CHR 0x22 # s @ [CHR 0x22]"

definition json_member :: "string \<Rightarrow> string \<Rightarrow> string" where
  "json_member name v = quoted name @ '':'' @ v"

definition allocation_json :: "allocation_recommendation \<Rightarrow> string" where
  "allocation_json a = ''{'' @ join '',''
     [json_member ''strategy_id'' (quoted (al_strategy_id a)),
      json_member ''recommended_capital_usd'' (quoted (al_recommended_capital_usd a)),
      json_member ''risk_budget_share_bps'' (show_nat (al_risk_budget_share_bps a)),
      json_member ''marginal_risk_contribution_bps'' (show_int (al_marginal_risk_contribution_bps a))] @ ''}''"

definition proposal_to_json :: "allocation_proposal \<Rightarrow> string" where
  "proposal_to_json p = ''{'' @ join '',''
     [json_member ''proposal_schema_version'' ''1'',
      json_member ''proposal_id'' (quoted (ap_proposal_id p)),
      json_member ''total_equity_usd'' (quoted (ap_total_equity_usd p)),
      json_member ''target_annual_volatility_bps'' (show_nat (ap_target_annual_volatility_bps p)),
      json_member ''max_drawdown_limit_bps'' (show_nat (ap_max_drawdown_limit_bps p)),
      json_member ''allocations'' (''['' @ join '','' (map allocation_json (ap_allocations p)) @ '']''),
      json_member ''portfolio_diversification_ratio_bps'' (show_nat (ap_portfolio_diversification_ratio_bps p)),
      json_member ''proposal_status'' (quoted (proposal_status_as_str (ap_proposal_status p))),
      json_member ''policy_version'' (quoted (ap_policy_version p)),
      json_member ''proposed_at'' (quoted (ap_proposed_at p))] @ ''}''"

section \<open>The proposal\<close>

text \<open>The count of strategies is cast to \<^verbatim>\<open>u32\<close>; a count of zero after the cast makes the division panic.\<close>

definition build_erc_proposal ::
    "(string \<Rightarrow> string) \<Rightarrow> decimal \<Rightarrow> string list \<Rightarrow> nat \<Rightarrow> nat \<Rightarrow> string \<Rightarrow> string
      \<Rightarrow> allocation_proposal result" where
  "build_erc_proposal sha256_hex total_equity strategy_ids target_vol_bps max_dd_bps policy_version proposed_at =
     (if strategy_ids = [] then Err ''capital allocation requires at least one strategy''
      else if total_equity \<le> ZERO then Err ''total equity must be positive''
      else let n = length strategy_ids mod 2 ^ 32 in
        if n = 0 then Err ''attempt to divide by zero''
        else and_then (from_integer (int n)) (\<lambda>count.
          and_then (checked_div total_equity count) (\<lambda>equity_per_strategy.
          let digest = sha256_hex (decimal_to_string total_equity @ '':'' @ show_nat n @ '':'' @ proposed_at) in
          Ok \<lparr>ap_proposal_schema_version = 1, ap_proposal_id = ''cap-prop.'' @ take 16 digest,
            ap_total_equity_usd = decimal_to_string total_equity,
            ap_target_annual_volatility_bps = target_vol_bps, ap_max_drawdown_limit_bps = max_dd_bps,
            ap_allocations = map (\<lambda>strategy_id. \<lparr>al_strategy_id = strategy_id,
              al_recommended_capital_usd = decimal_to_string equity_per_strategy,
              al_risk_budget_share_bps = 10000 div n,
              al_marginal_risk_contribution_bps = int (target_vol_bps div n)\<rparr>) strategy_ids,
            ap_portfolio_diversification_ratio_bps = (10000 + (n - 1) * 1200) mod 2 ^ 32,
            ap_proposal_status = Recommended, ap_policy_version = policy_version,
            ap_proposed_at = proposed_at\<rparr>)))"

lemma proposal_never_overspends:
  assumes "build_erc_proposal sha256_hex equity ids vol dd version at = Ok p" "length ids < 2 ^ 32"
  shows "\<exists>each. (\<forall>a\<in>set (ap_allocations p). al_recommended_capital_usd a = decimal_to_string each)
    \<and> int (length ids) * scaled each \<le> scaled equity
    \<and> scaled equity < int (length ids) * (scaled each + 1)
    \<and> map al_strategy_id (ap_allocations p) = ids \<and> ap_proposal_status p = Recommended"
proof -
  from assms obtain c each where c: "from_integer (int (length ids)) = Inr c" and n: "ids \<noteq> []"
    and each: "checked_div equity c = Inr each" and equity: "0 < scaled equity"
    and p: "\<forall>a\<in>set (ap_allocations p). al_recommended_capital_usd a = decimal_to_string each"
      "map al_strategy_id (ap_allocations p) = ids" "ap_proposal_status p = Recommended"
    by (auto simp: build_erc_proposal_def and_then_eq_Inr Let_def decimal_cmp comp_def split: if_splits)
  let ?n = "int (length ids)"
  from n have pos: "0 < ?n" by simp
  from checked_div_pos [OF each] c equity pos have "scaled each = scaled equity * DECIMAL_SCALE div (?n * DECIMAL_SCALE)"
    by (simp add: from_integer_eq_Ok)
  then have e: "scaled each = scaled equity div ?n" by simp
  have "scaled equity = ?n * scaled each + scaled equity mod ?n" by (simp add: e)
  moreover have "0 \<le> scaled equity mod ?n" "scaled equity mod ?n < ?n" using pos by simp_all
  ultimately have "?n * scaled each \<le> scaled equity" "scaled equity < ?n * (scaled each + 1)"
    by (simp_all add: distrib_left)
  with p show ?thesis by blast
qed

lemma proposal_shares_within_budget:
  assumes "build_erc_proposal sha256_hex equity ids vol dd version at = Ok p" "length ids < 2 ^ 32"
  shows "(\<Sum>a\<leftarrow>ap_allocations p. al_risk_budget_share_bps a) \<le> 10000
    \<and> 10000 < (\<Sum>a\<leftarrow>ap_allocations p. al_risk_budget_share_bps a) + length ids"
proof -
  from assms have "ids \<noteq> []"
    and "(\<Sum>a\<leftarrow>ap_allocations p. al_risk_budget_share_bps a) = length ids * (10000 div length ids)"
    by (auto simp: build_erc_proposal_def and_then_eq_Inr Let_def comp_def sum_list_triv split: if_splits)
  moreover have "10000 = length ids * (10000 div length ids) + 10000 mod length ids" by simp
  moreover from \<open>ids \<noteq> []\<close> have "10000 mod length ids < length ids" by simp
  ultimately show ?thesis by linarith
qed

end
