(* ===== verification/JsonText.thy ===== *)
theory JsonText
  imports DecimalArith
begin

text \<open>
  The canonical JSON text the domain crate writes (\<^verbatim>\<open>core/domain/src/events.rs\<close>, \<^verbatim>\<open>json_string\<close>,
  \<^verbatim>\<open>option_string_json\<close>, \<^verbatim>\<open>json_strings\<close>): objects with fixed keys, no white space, decimals as
  strings. A \<open>json\<close> value is what a format string of the code writes; \<open>json_text\<close> is the text. The
  lemmas show that the text determines the value: escaping can be undone, and no rendering is a
  prefix of another one followed by a delimiter.
\<close>

section \<open>Escaping\<close>

definition hex_digit :: "nat \<Rightarrow> char" where
  "hex_digit d = char_of (if d < 10 then 48 + d else 87 + d)"

text \<open>\<^verbatim>\<open>\u{:04x}\<close> of a code point below 256.\<close>

definition unicode_escape :: "nat \<Rightarrow> string" where
  "unicode_escape n = [CHR 0x5C, CHR ''u'', CHR ''0'', CHR ''0'', hex_digit (n div 16), hex_digit (n mod 16)]"

text \<open>
  \<^verbatim>\<open>char::is_control\<close> holds of the code points below 32, of 127 and of 128 to 159; the last are
  the two bytes \<^verbatim>\<open>C2 80\<close> to \<^verbatim>\<open>C2 9F\<close> of UTF-8.
\<close>

fun json_escape :: "string \<Rightarrow> string" where
  "json_escape [] = []"
| "json_escape (c # s) =
     (if c = CHR 0x22 then CHR 0x5C # CHR 0x22 # json_escape s
      else if c = CHR 0x5C then CHR 0x5C # CHR 0x5C # json_escape s
      else if c = CHR 0x0A then CHR 0x5C # CHR ''n'' # json_escape s
      else if c = CHR 0x0D then CHR 0x5C # CHR ''r'' # json_escape s
      else if c = CHR 0x09 then CHR 0x5C # CHR ''t'' # json_escape s
      else if byte_of c < 32 \<or> byte_of c = 127 then unicode_escape (byte_of c) @ json_escape s
      else if c = CHR 0xC2 \<and> s \<noteq> [] \<and> 128 \<le> byte_of (hd s) \<and> byte_of (hd s) < 160
      then unicode_escape (byte_of (hd s)) @ json_escape (tl s)
      else c # json_escape s)"

definition json_string :: "string \<Rightarrow> string" where
  "json_string s = CHR 0x22 # json_escape s @ [CHR 0x22]"

text \<open>Reading an escaped string back, up to its closing quote.\<close>

definition hex_value :: "char \<Rightarrow> nat" where
  "hex_value c = (if byte_of c < 58 then byte_of c - 48 else byte_of c - 87)"

definition code_point :: "char \<Rightarrow> char \<Rightarrow> string" where
  "code_point h l = (let n = 16 * hex_value h + hex_value l in
     if n < 128 then [char_of n] else [CHR 0xC2, char_of n])"

fun scan_string :: "string \<Rightarrow> (string \<times> string) option" where
  "scan_string [] = None"
| "scan_string (c # s) =
     (if c = CHR 0x22 then Some ([], s)
      else if c = CHR 0x5C then
        (if s = [] then None
         else if hd s = CHR ''u'' then map_option (\<lambda>(t, r). (code_point (s ! 3) (s ! 4) @ t, r)) (scan_string (drop 5 s))
         else map_option (\<lambda>(t, r). ((if hd s = CHR ''n'' then CHR 0x0A else if hd s = CHR ''r'' then CHR 0x0D
             else if hd s = CHR ''t'' then CHR 0x09 else hd s) # t, r)) (scan_string (tl s)))
      else map_option (\<lambda>(t, r). (c # t, r)) (scan_string s))"

lemma hex_value_digit: "n < 16 \<Longrightarrow> hex_value (hex_digit n) = n"
  by (simp add: hex_value_def hex_digit_def of_char_of)

lemma code_point_hex: "n < 160 \<Longrightarrow> code_point (hex_digit (n div 16)) (hex_digit (n mod 16)) =
    (if n < 128 then [char_of n] else [CHR 0xC2, char_of n])"
proof -
  assume "n < 160"
  then have "n div 16 < 16" by simp
  then have "16 * hex_value (hex_digit (n div 16)) + hex_value (hex_digit (n mod 16)) = n"
    by (simp add: hex_value_digit)
  then show ?thesis unfolding code_point_def Let_def by (simp only:)
qed

lemma scan_unicode:
  "scan_string (unicode_escape n @ t) =
     map_option (\<lambda>(u, r). (code_point (hex_digit (n div 16)) (hex_digit (n mod 16)) @ u, r)) (scan_string t)"
  by (simp add: unicode_escape_def)

lemma scan_escape: "scan_string (json_escape s @ CHR 0x22 # rest) = Some (s, rest)"
proof (induction s rule: json_escape.induct)
  case (2 c s)
  let ?special = "c = CHR 0x22 \<or> c = CHR 0x5C \<or> c = CHR 0x0A \<or> c = CHR 0x0D \<or> c = CHR 0x09"
    and ?low = "byte_of c < 32 \<or> byte_of c = 127"
    and ?high = "c = CHR 0xC2 \<and> s \<noteq> [] \<and> 128 \<le> byte_of (hd s) \<and> byte_of (hd s) < 160"
  show ?case
  proof (cases ?special)
    case True
    with "2.IH"(1-5) show ?thesis by auto
  next
    case special: False
    show ?thesis
    proof (cases ?low)
      case True
      have "code_point (hex_digit (byte_of c div 16)) (hex_digit (byte_of c mod 16)) = [c]"
        using True by (subst code_point_hex) auto
      moreover have "json_escape (c # s) = unicode_escape (byte_of c) @ json_escape s"
        using special True by simp
      moreover have "scan_string (json_escape s @ CHR 0x22 # rest) = Some (s, rest)"
        using "2.IH"(6) special True by blast
      ultimately show ?thesis by (simp add: scan_unicode)
    next
      case low: False
      show ?thesis
      proof (cases ?high)
        case True
        have "code_point (hex_digit (byte_of (hd s) div 16)) (hex_digit (byte_of (hd s) mod 16)) = [c, hd s]"
          using True by (subst code_point_hex) auto
        moreover have "json_escape (c # s) = unicode_escape (byte_of (hd s)) @ json_escape (tl s)"
          using special low True by simp
        moreover have "scan_string (json_escape (tl s) @ CHR 0x22 # rest) = Some (tl s, rest)"
          using "2.IH"(7) special low True by blast
        ultimately show ?thesis using True by (simp add: scan_unicode)
      next
        case False
        then have "json_escape (c # s) = c # json_escape s" using special low by (simp only: json_escape.simps if_False de_Morgan_disj simp_thms)
        moreover have "scan_string (json_escape s @ CHR 0x22 # rest) = Some (s, rest)"
          using "2.IH"(8) special low False by blast
        ultimately show ?thesis using special by simp
      qed
    qed
  qed
qed simp

lemma json_string_prefix_free:
  "json_string s @ x = json_string t @ y \<longleftrightarrow> s = t \<and> x = y"
proof
  assume "json_string s @ x = json_string t @ y"
  then have "json_escape s @ CHR 0x22 # x = json_escape t @ CHR 0x22 # y" by (simp add: json_string_def)
  then have "scan_string (json_escape s @ CHR 0x22 # x) = scan_string (json_escape t @ CHR 0x22 # y)"
    by (rule arg_cong)
  then show "s = t \<and> x = y" unfolding scan_escape by simp
qed simp

lemma json_string_inj [simp]: "json_string s = json_string t \<longleftrightarrow> s = t"
  using json_string_prefix_free [of s "[]" t "[]"] by simp

lemma json_string_plain:
  "list_all (\<lambda>c. 32 \<le> byte_of c \<and> byte_of c < 127 \<and> c \<noteq> CHR 0x22 \<and> c \<noteq> CHR 0x5C) s
    \<Longrightarrow> json_string s = CHR 0x22 # s @ [CHR 0x22]"
proof -
  assume "list_all (\<lambda>c. 32 \<le> byte_of c \<and> byte_of c < 127 \<and> c \<noteq> CHR 0x22 \<and> c \<noteq> CHR 0x5C) s"
  then have "json_escape s = s" by (induction s) auto
  then show ?thesis by (simp add: json_string_def)
qed

section \<open>Values\<close>

datatype json =
    JText string
  | JNumber int
  | JBool bool
  | JNull
  | JTexts "string list"
  | JObject "(string \<times> json) list"

fun json_text :: "json \<Rightarrow> string" where
  "json_text (JText s) = json_string s"
| "json_text (JNumber n) = show_int n"
| "json_text (JBool b) = (if b then ''true'' else ''false'')"
| "json_text JNull = ''null''"
| "json_text (JTexts ss) = ''['' @ join '','' (map json_string ss) @ '']''"
| "json_text (JObject ms) = ''{'' @ join '','' (map (\<lambda>(k, v). json_string k @ '':'' @ json_text v) ms) @ ''}''"

text \<open>Options and decimals are written as \<^verbatim>\<open>null\<close> or as a string.\<close>

definition json_option :: "string option \<Rightarrow> json" where
  "json_option s = (case s of None \<Rightarrow> JNull | Some t \<Rightarrow> JText t)"

definition json_decimal :: "decimal \<Rightarrow> json" where
  "json_decimal d = JText (decimal_to_string d)"

definition json_decimal_option :: "decimal option \<Rightarrow> json" where
  "json_decimal_option d = (case d of None \<Rightarrow> JNull | Some v \<Rightarrow> json_decimal v)"

lemma json_decimal_text: "json_text (json_decimal d) = CHR 0x22 # decimal_to_string d @ [CHR 0x22]"
proof -
  have "list_all (\<lambda>c. 32 \<le> byte_of c \<and> byte_of c < 127 \<and> c \<noteq> CHR 0x22 \<and> c \<noteq> CHR 0x5C) s"
    if "list_all is_ascii_digit s" for s
    using that by (auto simp: list_all_iff is_ascii_digit_def)
  then have "list_all (\<lambda>c. 32 \<le> byte_of c \<and> byte_of c < 127 \<and> c \<noteq> CHR 0x22 \<and> c \<noteq> CHR 0x5C) (decimal_to_string d)"
    using show_nat_digits zero_padded_digits by (simp add: decimal_to_string_def Let_def)
  then show ?thesis by (simp add: json_decimal_def json_string_plain)
qed

lemma json_decimal_inj [simp]: "json_decimal a = json_decimal b \<longleftrightarrow> a = b"
  by (simp add: json_decimal_def)

lemma json_decimal_option_inj [simp]: "json_decimal_option a = json_decimal_option b \<longleftrightarrow> a = b"
  by (simp add: json_decimal_option_def json_decimal_def split: option.splits)

section \<open>The text determines the value\<close>

definition stop :: "string \<Rightarrow> bool" where
  "stop x \<longleftrightarrow> x = [] \<or> hd x = CHR '','' \<or> hd x = CHR '']'' \<or> hd x = CHR ''}''"

lemma json_string_no_stop: "json_string s \<noteq> [] \<and> \<not> stop (json_string s @ x)"
  by (simp add: json_string_def stop_def)

lemma show_int_prefix_free:
  assumes "show_int m @ x = show_int n @ y" "stop x" "stop y"
  shows "m = n \<and> x = y"
proof -
  let ?num = "\<lambda>c. is_ascii_digit c \<or> c = CHR ''-''"
  have all: "\<forall>c\<in>set (show_int k). ?num c" for k
    using show_nat_digits by (auto simp: show_int_def list_all_iff)
  have none: "takeWhile ?num z = []" "dropWhile ?num z = z" if "stop z" for z
    using that by (cases z; auto simp: stop_def is_ascii_digit_def)+
  have "takeWhile ?num (show_int m @ x) = takeWhile ?num (show_int n @ y)"
    "dropWhile ?num (show_int m @ x) = dropWhile ?num (show_int n @ y)" by (simp_all only: assms(1))
  then have "show_int m = show_int n" "x = y"
    using all none assms(2,3) by (simp_all add: takeWhile_append2 dropWhile_append2)
  moreover have "hd (show_nat k) \<noteq> CHR ''-''" for k
    using hd_show_nat_digit [of k] by auto
  then have "m = n" if "show_int m = show_int n"
    using that show_nat_nonempty by (auto simp: show_int_def split: if_splits) (metis list.sel(1))+
  ultimately show ?thesis by blast
qed

lemma join_prefix_free:
  assumes "\<And>a b x y. a \<in> set as \<Longrightarrow> f a @ x = f b @ y \<Longrightarrow> stop x \<Longrightarrow> stop y \<Longrightarrow> a = b \<and> x = y"
    and "\<And>a. f a \<noteq> [] \<and> \<not> stop (f a)" "c = CHR '']'' \<or> c = CHR ''}''"
    and "join '','' (map f as) @ c # x = join '','' (map f bs) @ c # y"
  shows "as = bs \<and> x = y"
proof -
  have other: "c # w \<noteq> f a @ z" "f a @ z \<noteq> c # w" for a w z
    using assms(2) [of a] assms(3) by (cases "f a"; auto simp: stop_def)+
  show ?thesis
    using assms(1,4)
proof (induction as arbitrary: bs)
  case Nil
  then show ?case using other by (cases bs) (auto simp: join_Cons)
next
  case (Cons a as)
  have "bs \<noteq> []" using Cons.prems(2) other by (auto simp: join_Cons)
  then obtain b bs' where bs: "bs = b # bs'" by (cases bs) auto
  let ?rest = "\<lambda>as x. (if as = [] then [] else '','' @ join '','' (map f as)) @ c # x"
  have "f a @ ?rest as x = f b @ ?rest bs' y" using Cons.prems(2) by (simp add: bs join_Cons)
  moreover have "stop (?rest as x)" "stop (?rest bs' y)" using assms(3) by (auto simp: stop_def)
  ultimately have "a = b \<and> ?rest as x = ?rest bs' y" using Cons.prems(1) [OF list.set_intros(1)] by blast
  then have eq: "a = b" "?rest as x = ?rest bs' y" by blast+
  from eq(2) have "join '','' (map f as) @ c # x = join '','' (map f bs') @ c # y"
    using assms(3) by (auto split: if_splits)
  moreover have "a \<in> set as \<Longrightarrow> f a @ x = f b @ y \<Longrightarrow> stop x \<Longrightarrow> stop y \<Longrightarrow> a = b \<and> x = y" for a b x y
    using Cons.prems(1) [OF list.set_intros(2)] by blast
  ultimately have "as = bs' \<and> x = y" using Cons.IH by blast
  then show ?case by (simp add: bs eq(1))
qed
qed

lemma json_text_start: "json_text v \<noteq> [] \<and> \<not> stop (json_text v)"
proof (cases v)
  case (JNumber n)
  have "hd (show_nat k) \<noteq> c" if "\<not> is_ascii_digit c" for k c
    using hd_show_nat_digit [of k] that by auto
  then have "hd (show_int n) \<notin> {CHR '','', CHR '']'', CHR ''}''}" "show_int n \<noteq> []"
    by (auto simp: show_int_def is_ascii_digit_def)
  with JNumber show ?thesis by (simp add: stop_def)
qed (auto simp: stop_def json_string_def)

text \<open>The first character tells the constructor.\<close>

definition json_head :: "char \<Rightarrow> nat" where
  "json_head c = (if c = CHR 0x22 then 0 else if is_ascii_digit c \<or> c = CHR ''-'' then 1
     else if c = CHR ''t'' then 2 else if c = CHR ''f'' then 3 else if c = CHR ''n'' then 4
     else if c = CHR ''['' then 5 else 6)"

lemma json_head_text: "json_head (hd (json_text v @ x)) =
    (case v of JText _ \<Rightarrow> 0 | JNumber _ \<Rightarrow> 1 | JBool b \<Rightarrow> if b then 2 else 3 | JNull \<Rightarrow> 4 | JTexts _ \<Rightarrow> 5 | JObject _ \<Rightarrow> 6)"
proof (cases v)
  case (JNumber n)
  have "json_head (hd (show_int n @ x)) = 1"
    using hd_show_nat_digit [of "nat n"]
    by (auto simp: show_int_def json_head_def is_ascii_digit_def hd_append)
  with JNumber show ?thesis by simp
qed (auto simp: json_head_def json_string_def is_ascii_digit_def)

lemma json_text_prefix_free:
  assumes "json_text v @ x = json_text w @ y" "stop x" "stop y"
  shows "v = w \<and> x = y"
  using assms
proof (induction v arbitrary: w x y)
  case (JText s)
  then show ?case using json_head_text [of "JText s" x] json_head_text [of w y]
    by (cases w) (auto simp: json_string_prefix_free split: if_splits)
next
  case (JNumber n)
  then show ?case using json_head_text [of "JNumber n" x] json_head_text [of w y]
    by (cases w) (auto dest: show_int_prefix_free split: if_splits)
next
  case (JBool b)
  then show ?case using json_head_text [of "JBool b" x] json_head_text [of w y]
    by (cases w) (auto split: if_splits)
next
  case JNull
  then show ?case using json_head_text [of JNull x] json_head_text [of w y]
    by (cases w) (auto split: if_splits)
next
  case (JTexts ss)
  then obtain ts where w: "w = JTexts ts" using json_head_text [of "JTexts ss" x] json_head_text [of w y]
    by (cases w) (auto split: if_splits)
  have "ss = ts \<and> x = y"
  proof (rule join_prefix_free)
    show "join '','' (map json_string ss) @ CHR '']'' # x = join '','' (map json_string ts) @ CHR '']'' # y"
      using JTexts.prems(1) by (simp add: w)
  qed (simp_all add: json_string_prefix_free json_string_no_stop [of _ "[]", simplified])
  then show ?case by (simp add: w)
next
  case (JObject ms)
  let ?m = "\<lambda>(k, v). json_string k @ '':'' @ json_text v"
  obtain ns where w: "w = JObject ns"
    using JObject.prems(1) json_head_text [of "JObject ms" x] json_head_text [of w y]
    by (cases w) (auto split: if_splits)
  have "ms = ns \<and> x = y"
  proof (rule join_prefix_free)
    show "join '','' (map ?m ms) @ CHR ''}'' # x = join '','' (map ?m ns) @ CHR ''}'' # y"
      using JObject.prems(1) by (simp add: w)
  next
    fix a b x y
    assume *: "a \<in> set ms" "?m a @ x = ?m b @ y" "stop x" "stop y"
    then have k: "fst a = fst b" and v: "json_text (snd a) @ x = json_text (snd b) @ y"
      by (auto simp: case_prod_unfold json_string_prefix_free)
    have "snd a = snd b \<and> x = y" using JObject.IH [OF *(1) _ v *(3,4)] by (cases a) (auto simp: snds.simps)
    with k show "a = b \<and> x = y" by (simp add: prod_eq_iff)
  qed (auto simp: stop_def json_string_def split: prod.splits)
  then show ?case by (simp add: w)
qed

lemma json_text_inj: "json_text v = json_text w \<longleftrightarrow> v = w"
  using json_text_prefix_free [of v "[]" w "[]"] by (auto simp: stop_def)

end
