(* ===== verification/Events.thy ===== *)
theory Events
  imports Orders JsonText
begin

text \<open>
  Component: event payloads and the canonical envelope (\<^verbatim>\<open>core/domain/src/events.rs\<close>): news
  payloads and their validation, the ten payload variants with their event types, and the
  canonical JSON every stored event is written as. The lemmas show that the canonical text
  determines the envelope, so hashes and comparisons of stored text are comparisons of events.
\<close>

section \<open>News payloads\<close>

datatype news_source = DowJones | BloombergBPipe | RefinitivMrn | SecEdgar | FedBls

fun news_source_as_str :: "news_source \<Rightarrow> string" where
  "news_source_as_str DowJones = ''DOW_JONES''"
| "news_source_as_str BloombergBPipe = ''BLOOMBERG_BPIPE''"
| "news_source_as_str RefinitivMrn = ''REFINITIV_MRN''"
| "news_source_as_str SecEdgar = ''SEC_EDGAR''"
| "news_source_as_str FedBls = ''FED_BLS''"

definition news_source_parse :: "string \<Rightarrow> news_source result" where
  "news_source_parse s =
     (if s = ''DOW_JONES'' then Ok DowJones
      else if s = ''BLOOMBERG_BPIPE'' then Ok BloombergBPipe
      else if s = ''REFINITIV_MRN'' then Ok RefinitivMrn
      else if s = ''SEC_EDGAR'' then Ok SecEdgar
      else if s = ''FED_BLS'' then Ok FedBls
      else Err ''invalid news source'')"

datatype event_taxonomy =
    EarningsRelease | GuidanceRevision | MergerAcquisition | FdaDecision | MacroCpi
  | MacroFedRate | Litigation

fun event_taxonomy_as_str :: "event_taxonomy \<Rightarrow> string" where
  "event_taxonomy_as_str EarningsRelease = ''EARNINGS_RELEASE''"
| "event_taxonomy_as_str GuidanceRevision = ''GUIDANCE_REVISION''"
| "event_taxonomy_as_str MergerAcquisition = ''M_AND_A''"
| "event_taxonomy_as_str FdaDecision = ''FDA_DECISION''"
| "event_taxonomy_as_str MacroCpi = ''MACRO_CPI''"
| "event_taxonomy_as_str MacroFedRate = ''MACRO_FED_RATE''"
| "event_taxonomy_as_str Litigation = ''LITIGATION''"

definition event_taxonomy_parse :: "string \<Rightarrow> event_taxonomy result" where
  "event_taxonomy_parse s =
     (if s = ''EARNINGS_RELEASE'' then Ok EarningsRelease
      else if s = ''GUIDANCE_REVISION'' then Ok GuidanceRevision
      else if s = ''M_AND_A'' then Ok MergerAcquisition
      else if s = ''FDA_DECISION'' then Ok FdaDecision
      else if s = ''MACRO_CPI'' then Ok MacroCpi
      else if s = ''MACRO_FED_RATE'' then Ok MacroFedRate
      else if s = ''LITIGATION'' then Ok Litigation
      else Err ''invalid news taxonomy'')"

lemma news_source_round_trip: "news_source_parse s = Ok n \<longleftrightarrow> s = news_source_as_str n"
  by (cases n) (auto simp: news_source_parse_def split: if_splits)

lemma event_taxonomy_round_trip: "event_taxonomy_parse s = Ok t \<longleftrightarrow> s = event_taxonomy_as_str t"
  by (cases t) (auto simp: event_taxonomy_parse_def split: if_splits)

record news_headline =
  nh_news_id :: string
  nh_source :: news_source
  nh_headline :: string
  nh_raw_body_hash :: string
  nh_sequence_number :: nat
  nh_event_time_ns :: nat
  nh_receive_time_ns :: nat
  nh_entity_tickers :: "string list"

definition lowercase_sha256 :: "string \<Rightarrow> bool" where
  "lowercase_sha256 s \<longleftrightarrow> length s = 64
     \<and> list_all (\<lambda>c. is_ascii_digit c \<or> 97 \<le> byte_of c \<and> byte_of c \<le> 102) s"

definition news_headline_validate :: "news_headline \<Rightarrow> unit result" where
  "news_headline_validate h =
     and_then (validate_canonical_id ''news_id'' (nh_news_id h)) (\<lambda>_.
     if trim (nh_headline h) = [] \<or> \<not> lowercase_sha256 (nh_raw_body_hash h)
        \<or> nh_event_time_ns h = 0 \<or> nh_receive_time_ns h = 0
     then Err ''invalid news headline payload''
     else try_each (validate_canonical_id ''news entity_ticker'') (nh_entity_tickers h))"

record sentiment_vector =
  sv_event_id :: string
  sv_causation_news_id :: string
  sv_event_time_ns :: nat
  sv_instrument_id :: string
  sv_taxonomy :: event_taxonomy
  sv_sentiment_polarity_bps :: int
  sv_confidence_bps :: nat
  sv_novelty_score_bps :: nat
  sv_surprise_magnitude_bps :: int

definition sentiment_vector_validate :: "sentiment_vector \<Rightarrow> unit result" where
  "sentiment_vector_validate s =
     and_then (validate_canonical_id ''sentiment event_id'' (sv_event_id s)) (\<lambda>_.
     and_then (validate_canonical_id ''causation_news_id'' (sv_causation_news_id s)) (\<lambda>_.
     and_then (validate_canonical_id ''instrument_id'' (sv_instrument_id s)) (\<lambda>_.
     if sv_event_time_ns s = 0
        \<or> \<not> (- 10000 \<le> sv_sentiment_polarity_bps s \<and> sv_sentiment_polarity_bps s \<le> 10000)
        \<or> 10000 < sv_confidence_bps s \<or> 10000 < sv_novelty_score_bps s
     then Err ''invalid news sentiment payload'' else Ok ())))"

text \<open>The two unchecked products are computed on \<^verbatim>\<open>i64\<close>.\<close>

definition signal_power_bps :: "sentiment_vector \<Rightarrow> int" where
  "signal_power_bps s =
     i64_wrap (i64_wrap (sv_sentiment_polarity_bps s * int (sv_confidence_bps s))
       * int (sv_novelty_score_bps s)) sdiv 100000000"

lemma abs_mult_le:
  "\<bar>a\<bar> \<le> A \<Longrightarrow> 0 \<le> b \<Longrightarrow> b \<le> B \<Longrightarrow> \<bar>a * b\<bar> \<le> A * (B :: int)"
  by (simp add: abs_mult mult_mono)

lemma signal_power_exact:
  assumes "\<bar>sv_sentiment_polarity_bps s\<bar> \<le> 10000" "sv_confidence_bps s \<le> 10000"
    "sv_novelty_score_bps s \<le> 10000"
  shows "signal_power_bps s = (sv_sentiment_polarity_bps s * int (sv_confidence_bps s)
      * int (sv_novelty_score_bps s)) sdiv 100000000 \<and> \<bar>signal_power_bps s\<bar> \<le> 10000"
proof -
  let ?p = "sv_sentiment_polarity_bps s * int (sv_confidence_bps s)" and ?n = "int (sv_novelty_score_bps s)"
  have p: "\<bar>?p\<bar> \<le> 10000 * 10000" using assms by (intro abs_mult_le) auto
  have q: "\<bar>?p * ?n\<bar> \<le> 10000 * 10000 * 10000" by (rule abs_mult_le [OF p]) (use assms(3) in auto)
  have power: "signal_power_bps s = (?p * ?n) sdiv 100000000"
  proof -
    have small: "in_i64 x" if "\<bar>x\<bar> \<le> 10000 * 10000 * 10000" for x
      using that by (simp add: in_i64_def abs_le_iff)
    have "in_i64 (?p * ?n)" by (rule small [OF q])
    moreover have "in_i64 ?p" by (rule small) (use p in linarith)
    ultimately show ?thesis by (simp add: signal_power_bps_def)
  qed
  have "\<bar>?p * ?n\<bar> div 100000000 \<le> 10000 * 10000 * 10000 div 100000000"
    using q by (intro zdiv_mono1) auto
  moreover have "\<bar>x sdiv 100000000\<bar> = \<bar>x\<bar> div 100000000" for x :: int
    by (auto simp: signed_divide_int_def abs_mult sgn_if pos_imp_zdiv_nonneg_iff)
  ultimately have "\<bar>(?p * ?n) sdiv 100000000\<bar> \<le> 10000" by simp
  with power show ?thesis by simp
qed

section \<open>Payloads\<close>

datatype event_payload =
    MarketBar bar
  | OrderIntentPayload order_intent
  | RiskDecisionPayload risk_decision
  | OrderStatePayload order_state_change
  | FillPayload fill
  | PositionPayload position_snapshot
  | PnlPayload pnl_snapshot
  | AuditPayload audit_trail
  | NewsHeadlinePayload news_headline
  | NewsSentimentPayload sentiment_vector

fun event_type_of :: "event_payload \<Rightarrow> string" where
  "event_type_of (MarketBar _) = ''market.bar.v1''"
| "event_type_of (OrderIntentPayload _) = ''intent.created.v1''"
| "event_type_of (RiskDecisionPayload _) = ''risk.decision.v1''"
| "event_type_of (OrderStatePayload _) = ''order.state_changed.v1''"
| "event_type_of (FillPayload _) = ''execution.fill.v1''"
| "event_type_of (PositionPayload _) = ''portfolio.position_updated.v1''"
| "event_type_of (PnlPayload _) = ''portfolio.pnl_updated.v1''"
| "event_type_of (AuditPayload _) = ''audit.trail.v1''"
| "event_type_of (NewsHeadlinePayload _) = ''news.headline.v1''"
| "event_type_of (NewsSentimentPayload _) = ''news.sentiment.v1''"

text \<open>The members each variant writes, in the order of its format string.\<close>

fun payload_json :: "event_payload \<Rightarrow> json" where
  "payload_json (MarketBar b) = JObject
     [(''close'', json_decimal (br_close b)), (''exchange_timezone'', JText (br_exchange_timezone b)),
      (''high'', json_decimal (br_high b)), (''instrument_id'', JText (br_instrument_id b)),
      (''interval_seconds'', JNumber (int (br_interval_seconds b))), (''low'', json_decimal (br_low b)),
      (''open'', json_decimal (br_open b)), (''volume'', json_decimal (br_volume b))]"
| "payload_json (OrderIntentPayload i) = JObject
     [(''account_id'', JText (oi_account_id i)),
      (''configuration_version'', JText (oi_configuration_version i)),
      (''correlation_id'', JText (oi_correlation_id i)), (''created_at'', JText (oi_created_at i)),
      (''environment'', JText (oi_environment i)), (''instrument_id'', JText (oi_instrument_id i)),
      (''intent_id'', JText (oi_intent_id i)), (''limit_price'', json_decimal_option (oi_limit_price i)),
      (''order_type'', JText (order_type_as_str (oi_order_type i))),
      (''quantity'', json_decimal (oi_quantity i)), (''rationale'', JText (oi_rationale i)),
      (''side'', JText (side_as_str (oi_side i))), (''strategy_id'', JText (oi_strategy_id i)),
      (''strategy_version'', JText (oi_strategy_version i)),
      (''time_in_force'', JText (time_in_force_as_str (oi_time_in_force i)))]"
| "payload_json (RiskDecisionPayload d) = JObject
     [(''actor'', JText (rd_actor d)), (''approved'', JBool (rd_approved d)),
      (''correlation_id'', JText (rd_correlation_id d)), (''decided_at'', JText (rd_decided_at d)),
      (''decision_id'', JText (rd_decision_id d)),
      (''evaluated_limits'', JText (rd_evaluated_limits d)), (''intent_id'', JText (rd_intent_id d)),
      (''policy_version'', JText (rd_policy_version d)), (''reason_codes'', JTexts (rd_reason_codes d)),
      (''source'', JText ''risk'')]"
| "payload_json (OrderStatePayload c) = JObject
     [(''new_state'', JText (order_state_as_str (osc_new_state c))),
      (''order_id'', JText (osc_order_id c)),
      (''previous_state'', json_option (map_option order_state_as_str (osc_previous_state c))),
      (''reason'', JText (osc_reason c))]"
| "payload_json (FillPayload f) = JObject
     [(''executed_at'', JText (fl_executed_at f)), (''execution_id'', JText (fl_execution_id f)),
      (''fee'', json_decimal (fl_fee f)), (''instrument_id'', JText (fl_instrument_id f)),
      (''order_id'', JText (fl_order_id f)), (''price'', json_decimal (fl_price f)),
      (''quantity'', json_decimal (fl_quantity f)), (''side'', JText (side_as_str (fl_side f)))]"
| "payload_json (PositionPayload p) = JObject
     [(''account_id'', JText (ps_account_id p)), (''average_cost'', json_decimal (ps_average_cost p)),
      (''instrument_id'', JText (ps_instrument_id p)), (''quantity'', json_decimal (ps_quantity p)),
      (''realized_pnl'', json_decimal (ps_realized_pnl p))]"
| "payload_json (PnlPayload p) = JObject
     [(''account_id'', JText (pl_account_id p)), (''instrument_id'', JText (pl_instrument_id p)),
      (''mark_price'', json_decimal (pl_mark_price p)),
      (''realized_pnl'', json_decimal (pl_realized_pnl p)),
      (''total_pnl'', json_decimal (pl_total_pnl p)),
      (''unrealized_pnl'', json_decimal (pl_unrealized_pnl p))]"
| "payload_json (AuditPayload a) = JObject
     [(''correlation_id'', JText (at_correlation_id a)), (''event_ids'', JTexts (at_event_ids a)),
      (''summary'', JText (at_summary a))]"
| "payload_json (NewsHeadlinePayload h) = JObject
     [(''entity_tickers'', JTexts (nh_entity_tickers h)),
      (''event_time_ns'', JNumber (int (nh_event_time_ns h))), (''headline'', JText (nh_headline h)),
      (''news_id'', JText (nh_news_id h)), (''raw_body_hash'', JText (nh_raw_body_hash h)),
      (''receive_time_ns'', JNumber (int (nh_receive_time_ns h))),
      (''sequence_number'', JNumber (int (nh_sequence_number h))),
      (''source'', JText (news_source_as_str (nh_source h)))]"
| "payload_json (NewsSentimentPayload s) = JObject
     [(''causation_news_id'', JText (sv_causation_news_id s)),
      (''confidence_bps'', JNumber (int (sv_confidence_bps s))), (''event_id'', JText (sv_event_id s)),
      (''event_time_ns'', JNumber (int (sv_event_time_ns s))),
      (''instrument_id'', JText (sv_instrument_id s)),
      (''novelty_score_bps'', JNumber (int (sv_novelty_score_bps s))),
      (''sentiment_polarity_bps'', JNumber (sv_sentiment_polarity_bps s)),
      (''surprise_magnitude_bps'', JNumber (sv_surprise_magnitude_bps s)),
      (''taxonomy'', JText (event_taxonomy_as_str (sv_taxonomy s)))]"

section \<open>The envelope\<close>

record event_envelope =
  ev_event_id :: string
  ev_event_type :: string
  ev_schema_version :: nat
  ev_event_time :: string
  ev_receive_time :: string
  ev_account_id :: "string option"
  ev_strategy_id :: "string option"
  ev_instrument_id :: "string option"
  ev_correlation_id :: string
  ev_causation_id :: "string option"
  ev_actor :: string
  ev_source :: string
  ev_payload :: event_payload
  ev_software_version :: string
  ev_configuration_version :: string

definition payload_validate :: "event_payload \<Rightarrow> unit result" where
  "payload_validate p = (case p of
       NewsHeadlinePayload h \<Rightarrow> news_headline_validate h
     | NewsSentimentPayload s \<Rightarrow> sentiment_vector_validate s
     | _ \<Rightarrow> Ok ())"

definition event_envelope_validate :: "(string \<Rightarrow> bool) \<Rightarrow> event_envelope \<Rightarrow> unit result" where
  "event_envelope_validate rfc3339 e =
     and_then (validate_canonical_id ''event_id'' (ev_event_id e)) (\<lambda>_.
     and_then (validate_canonical_id ''correlation_id'' (ev_correlation_id e)) (\<lambda>_.
     and_then (validate_utc_timestamp rfc3339 ''event_time'' (ev_event_time e)) (\<lambda>_.
     and_then (validate_utc_timestamp rfc3339 ''receive_time'' (ev_receive_time e)) (\<lambda>_.
     if ev_event_type e \<noteq> event_type_of (ev_payload e) \<or> ev_schema_version e = 0
        \<or> ev_event_time e = [] \<or> ev_receive_time e = [] \<or> ev_actor e = [] \<or> ev_source e = []
        \<or> ev_software_version e = [] \<or> ev_configuration_version e = []
     then Err ''event envelope is missing required or compatible fields''
     else
       and_then (try_each (\<lambda>(name, v). case v of None \<Rightarrow> Ok () | Some s \<Rightarrow> validate_canonical_id name s)
         [(''account_id'', ev_account_id e), (''strategy_id'', ev_strategy_id e),
          (''instrument_id'', ev_instrument_id e)]) (\<lambda>_.
       payload_validate (ev_payload e))))))"

definition envelope_json :: "event_envelope \<Rightarrow> json" where
  "envelope_json e = JObject
     [(''account_id'', json_option (ev_account_id e)), (''actor'', JText (ev_actor e)),
      (''causation_id'', json_option (ev_causation_id e)),
      (''configuration_version'', JText (ev_configuration_version e)),
      (''correlation_id'', JText (ev_correlation_id e)), (''event_id'', JText (ev_event_id e)),
      (''event_time'', JText (ev_event_time e)), (''event_type'', JText (ev_event_type e)),
      (''instrument_id'', json_option (ev_instrument_id e)), (''payload'', payload_json (ev_payload e)),
      (''receive_time'', JText (ev_receive_time e)),
      (''schema_version'', JNumber (int (ev_schema_version e))),
      (''software_version'', JText (ev_software_version e)), (''source'', JText (ev_source e)),
      (''strategy_id'', json_option (ev_strategy_id e))]"

definition canonical_json :: "event_envelope \<Rightarrow> string" where
  "canonical_json e = json_text (envelope_json e)"

section \<open>The text determines the event\<close>

lemma order_type_as_str_inj [simp]: "order_type_as_str a = order_type_as_str b \<longleftrightarrow> a = b"
  by (cases a; cases b) simp_all

lemma side_as_str_inj [simp]: "side_as_str a = side_as_str b \<longleftrightarrow> a = b"
  by (cases a; cases b) simp_all

lemma time_in_force_as_str_inj [simp]: "time_in_force_as_str a = time_in_force_as_str b \<longleftrightarrow> a = b"
  by (cases a; cases b) simp_all

lemma order_state_as_str_inj [simp]: "order_state_as_str a = order_state_as_str b \<longleftrightarrow> a = b"
  by (cases a; cases b) simp_all

lemma news_source_as_str_inj [simp]: "news_source_as_str a = news_source_as_str b \<longleftrightarrow> a = b"
  by (metis news_source_round_trip sum.inject(2))

lemma event_taxonomy_as_str_inj [simp]: "event_taxonomy_as_str a = event_taxonomy_as_str b \<longleftrightarrow> a = b"
  by (metis event_taxonomy_round_trip sum.inject(2))

lemma json_option_inj [simp]: "json_option a = json_option b \<longleftrightarrow> a = b"
  by (simp add: json_option_def split: option.splits)

lemma map_order_state_inj [simp]:
  "map_option order_state_as_str a = map_option order_state_as_str b \<longleftrightarrow> a = b"
  by (cases a; cases b) simp_all

lemma payload_json_inj: "payload_json p = payload_json q \<Longrightarrow> p = q"
  by (cases p; cases q) auto

lemma envelope_json_inj: "envelope_json e = envelope_json f \<Longrightarrow> e = f"
  by (cases e; cases f) (auto simp: envelope_json_def dest: payload_json_inj)

section \<open>Properties\<close>

text \<open>C20: The canonical text of an event loses nothing: two events have the same canonical JSON
  exactly when every field of their envelopes and payloads agrees, whatever text the fields hold.
  Comparing or hashing stored lines therefore compares events.\<close>

theorem canonical_json_lossless:
  "canonical_json e = canonical_json f \<longleftrightarrow> e = f"
  by (auto simp: canonical_json_def json_text_inj dest: envelope_json_inj)

text \<open>C31: An event that passes validation is well formed: its type tag names the constructor of its
  payload, its identities are canonical, its times have the canonical shape and no required field is empty.
  A news headline has canonical identity and tickers, a text, a digest and times that are set; a sentiment
  payload has canonical identities, scores within ten thousand basis points, and a signal power that is
  the exact product of its factors rounded towards zero, within the same bound, without wrap-around.\<close>

theorem validated_event_well_formed:
  assumes "event_envelope_validate rfc3339 e = Ok ()"
  shows "ev_event_type e = event_type_of (ev_payload e) \<and> 0 < ev_schema_version e
    \<and> list_all canonical_id [ev_event_id e, ev_correlation_id e]
    \<and> list_all (\<lambda>t. canonical_shape t \<and> rfc3339 t) [ev_event_time e, ev_receive_time e]
    \<and> list_all (case_option True canonical_id) [ev_account_id e, ev_strategy_id e, ev_instrument_id e]
    \<and> list_all (\<lambda>v. v \<noteq> []) [ev_actor e, ev_source e, ev_software_version e, ev_configuration_version e]
    \<and> (\<forall>h. ev_payload e = NewsHeadlinePayload h \<longrightarrow>
         list_all canonical_id (nh_news_id h # nh_entity_tickers h) \<and> trim (nh_headline h) \<noteq> []
         \<and> lowercase_sha256 (nh_raw_body_hash h) \<and> 0 < nh_event_time_ns h \<and> 0 < nh_receive_time_ns h)
    \<and> (\<forall>s. ev_payload e = NewsSentimentPayload s \<longrightarrow>
         list_all canonical_id [sv_event_id s, sv_causation_news_id s, sv_instrument_id s] \<and> 0 < sv_event_time_ns s
         \<and> \<bar>sv_sentiment_polarity_bps s\<bar> \<le> 10000 \<and> sv_confidence_bps s \<le> 10000 \<and> sv_novelty_score_bps s \<le> 10000
         \<and> signal_power_bps s = (sv_sentiment_polarity_bps s * int (sv_confidence_bps s)
           * int (sv_novelty_score_bps s)) sdiv 100000000
         \<and> \<bar>signal_power_bps s\<bar> \<le> 10000)"
proof -
  from assms have ids: "ev_event_type e = event_type_of (ev_payload e)" "0 < ev_schema_version e"
    "canonical_id (ev_event_id e)" "canonical_id (ev_correlation_id e)"
    "canonical_shape (ev_event_time e)" "rfc3339 (ev_event_time e)"
    "canonical_shape (ev_receive_time e)" "rfc3339 (ev_receive_time e)"
    "list_all (case_option True canonical_id) [ev_account_id e, ev_strategy_id e, ev_instrument_id e]"
    "list_all (\<lambda>v. v \<noteq> []) [ev_actor e, ev_source e, ev_software_version e, ev_configuration_version e]"
    and payload: "payload_validate (ev_payload e) = Ok ()"
    by (auto simp: event_envelope_validate_def and_then_eq_Inr result_simps split: if_splits option.splits)
  have headline: "list_all canonical_id (nh_news_id h # nh_entity_tickers h) \<and> trim (nh_headline h) \<noteq> []
         \<and> lowercase_sha256 (nh_raw_body_hash h) \<and> 0 < nh_event_time_ns h \<and> 0 < nh_receive_time_ns h"
    if "ev_payload e = NewsHeadlinePayload h" for h
    using payload that by (auto simp: payload_validate_def news_headline_validate_def and_then_eq_Inr result_simps
        list_all_iff split: if_splits)
  have bounds: "list_all canonical_id [sv_event_id s, sv_causation_news_id s, sv_instrument_id s] \<and> 0 < sv_event_time_ns s
         \<and> \<bar>sv_sentiment_polarity_bps s\<bar> \<le> 10000 \<and> sv_confidence_bps s \<le> 10000 \<and> sv_novelty_score_bps s \<le> 10000"
    if "ev_payload e = NewsSentimentPayload s" for s
    using payload that by (auto simp: payload_validate_def sentiment_vector_validate_def and_then_eq_Inr result_simps
        split: if_splits)
  have "signal_power_bps s = (sv_sentiment_polarity_bps s * int (sv_confidence_bps s)
           * int (sv_novelty_score_bps s)) sdiv 100000000 \<and> \<bar>signal_power_bps s\<bar> \<le> 10000"
    if "ev_payload e = NewsSentimentPayload s" for s
    using signal_power_exact bounds [OF that] by blast
  then show ?thesis using ids headline bounds by (simp only: list.pred_inject simp_thms) blast
qed

definition sample_sentiment_event :: event_envelope where
  "sample_sentiment_event = \<lparr>ev_event_id = ''e'', ev_event_type = ''news.sentiment.v1'',
     ev_schema_version = 1, ev_event_time = ''2026-01-31T23:59:59Z'',
     ev_receive_time = ''2026-01-31T23:59:59Z'', ev_account_id = None, ev_strategy_id = None,
     ev_instrument_id = Some ''x'', ev_correlation_id = ''c'', ev_causation_id = None,
     ev_actor = ''n'', ev_source = ''n'',
     ev_payload = NewsSentimentPayload \<lparr>sv_event_id = ''s'', sv_causation_news_id = ''h'',
       sv_event_time_ns = 1, sv_instrument_id = ''x'', sv_taxonomy = Litigation,
       sv_sentiment_polarity_bps = - 10000, sv_confidence_bps = 9000, sv_novelty_score_bps = 9999,
       sv_surprise_magnitude_bps = 0\<rparr>,
     ev_software_version = ''1'', ev_configuration_version = ''1''\<rparr>"

lemma sample_sentiment_event_validates:
  "event_envelope_validate (\<lambda>_. True) sample_sentiment_event = Ok ()"
  by code_simp

theorem validated_event_well_formed_witness:
  "\<exists>s. ev_payload sample_sentiment_event = NewsSentimentPayload s \<and> signal_power_bps s = - 8999"
proof -
  obtain s where s: "ev_payload sample_sentiment_event = NewsSentimentPayload s"
    "sv_sentiment_polarity_bps s = - 10000" "sv_confidence_bps s = 9000" "sv_novelty_score_bps s = 9999"
    by (simp add: sample_sentiment_event_def)
  with validated_event_well_formed [OF sample_sentiment_event_validates]
  have "signal_power_bps s = (- 10000 * 9000 * 9999) sdiv 100000000" by auto
  with s show ?thesis by simp
qed

end
