(* ===== verification/Ledger.thy ===== *)
theory Ledger
  imports OrderedMap Identifiers "HOL-Library.Product_Lexorder"
begin

text \<open>
  Component: currencies and the double-entry journal of the accounting crate
  (\<^verbatim>\<open>core/accounting/src/lib.rs\<close>, \<^verbatim>\<open>Currency\<close> to \<^verbatim>\<open>MultiCurrencyLedger\<close>). A posting is a
  result together with the ledger it leaves behind. The lemmas show that every ledger the journal
  can produce balances in every currency, and that posting is idempotent.
\<close>

section \<open>Currencies\<close>

datatype currency = Currency (code_text: string)

instantiation currency :: linorder
begin

definition less_eq_currency :: "currency \<Rightarrow> currency \<Rightarrow> bool" where
  "less_eq_currency a b \<longleftrightarrow> code_text a \<le> code_text b"

definition less_currency :: "currency \<Rightarrow> currency \<Rightarrow> bool" where
  "less_currency a b \<longleftrightarrow> code_text a < code_text b"

instance
  by standard (auto simp: less_eq_currency_def less_currency_def intro: currency.expand)

end

definition currency_new :: "string \<Rightarrow> currency result" where
  "currency_new code =
     (if length code \<noteq> 3 \<or> \<not> list_all is_ascii_uppercase code
      then Err ''currency must be a three-letter uppercase code'' else Ok (Currency code))"

section \<open>Journal transactions\<close>

record journal_line =
  jl_account_id :: string
  jl_currency :: currency
  jl_debit :: decimal
  jl_credit :: decimal

definition journal_line_validate :: "journal_line \<Rightarrow> unit result" where
  "journal_line_validate l =
     and_then (validate_canonical_id ''ledger account_id'' (jl_account_id l)) (\<lambda>_.
     if jl_debit l < ZERO \<or> jl_credit l < ZERO \<or> (jl_debit l > ZERO) = (jl_credit l > ZERO)
     then Err ''journal line must have exactly one positive debit or credit'' else Ok ())"

record journal_transaction =
  jt_transaction_id :: string
  jt_tenant_id :: string
  jt_reference_id :: string
  jt_lines :: "journal_line list"

record ledger =
  lg_balances :: "(string \<times> currency, decimal) btree_map"
  lg_applied_transactions :: "string btree_set"

definition ledger_empty :: ledger where
  "ledger_empty = \<lparr>lg_balances = [], lg_applied_transactions = []\<rparr>"

text \<open>One turn of the loop that validates the lines and totals both sides by currency.\<close>

definition total_line ::
    "journal_line \<Rightarrow> (currency, decimal \<times> decimal) btree_map
      \<Rightarrow> (currency, decimal \<times> decimal) btree_map result" where
  "total_line l totals =
     and_then (journal_line_validate l) (\<lambda>_.
     let (debits, credits) = (case bt_get totals (jl_currency l) of None \<Rightarrow> (ZERO, ZERO) | Some t \<Rightarrow> t) in
     and_then (checked_add debits (jl_debit l)) (\<lambda>debits'.
     and_then (checked_add credits (jl_credit l)) (\<lambda>credits'.
     Ok (bt_insert (jl_currency l) (debits', credits') totals))))"

definition project_line ::
    "journal_line \<Rightarrow> (string \<times> currency, decimal) btree_map
      \<Rightarrow> (string \<times> currency, decimal) btree_map result" where
  "project_line l projected =
     (let key = (jl_account_id l, jl_currency l);
          current = (case bt_get projected key of None \<Rightarrow> ZERO | Some b \<Rightarrow> b) in
      and_then (checked_sub (jl_debit l) (jl_credit l)) (\<lambda>signed.
      and_then (checked_add current signed) (\<lambda>balance.
      Ok (bt_insert key balance projected))))"

text \<open>What a new transaction has to pass, and the balances it leads to.\<close>

definition ledger_project :: "journal_transaction \<Rightarrow> ledger
    \<Rightarrow> (string \<times> currency, decimal) btree_map result" where
  "ledger_project t g =
     (if length (jt_lines t) < 2 then Err ''journal transaction requires at least two lines''
      else and_then (try_fold total_line (jt_lines t) []) (\<lambda>totals.
        if list_ex (\<lambda>(_, debits, credits). debits \<noteq> credits) totals
        then Err ''journal transaction is not balanced in every currency''
        else try_fold project_line (jt_lines t) (lg_balances g)))"

definition ledger_post :: "journal_transaction \<Rightarrow> ledger \<Rightarrow> bool result \<times> ledger" where
  "ledger_post t g =
     (case and_then (validate_canonical_id ''transaction_id'' (jt_transaction_id t)) (\<lambda>_.
           and_then (validate_canonical_id ''tenant_id'' (jt_tenant_id t)) (\<lambda>_.
           validate_canonical_id ''reference_id'' (jt_reference_id t))) of
        Inl e \<Rightarrow> (Inl e, g)
      | Inr _ \<Rightarrow>
          if bs_contains (jt_transaction_id t) (lg_applied_transactions g) then (Ok False, g)
          else (case ledger_project t g of
              Inl e \<Rightarrow> (Inl e, g)
            | Inr projected \<Rightarrow> (Ok True, g\<lparr>lg_balances := projected,
                lg_applied_transactions := bs_insert (jt_transaction_id t) (lg_applied_transactions g)\<rparr>)))"

definition ledger_balance :: "ledger \<Rightarrow> string \<Rightarrow> currency \<Rightarrow> decimal" where
  "ledger_balance g account_id c =
     (case bt_get (lg_balances g) (account_id, c) of None \<Rightarrow> ZERO | Some b \<Rightarrow> b)"

section \<open>What the loops compute\<close>

text \<open>The signed amount a line posts to a currency, and to an account in a currency.\<close>

definition line_amount :: "currency \<Rightarrow> journal_line \<Rightarrow> int" where
  "line_amount c l = (if jl_currency l = c then scaled (jl_debit l) - scaled (jl_credit l) else 0)"

definition currency_sum :: "currency \<Rightarrow> (string \<times> currency, decimal) btree_map \<Rightarrow> int" where
  "currency_sum c = bt_sum (\<lambda>(_, c') b. if c' = c then scaled b else 0)"

lemma total_line_difference:
  assumes "total_line l m = Inr m'" "bt_sorted m"
  shows "bt_sorted m' \<and> (case bt_get m' c of None \<Rightarrow> 0 | Some (d, k) \<Rightarrow> scaled d - scaled k) =
    (case bt_get m c of None \<Rightarrow> 0 | Some (d, k) \<Rightarrow> scaled d - scaled k) + line_amount c l"
  using assms
  by (auto simp: total_line_def and_then_eq_Inr result_simps bt_get_insert bt_sorted_insert line_amount_def
      split: prod.splits option.splits)

lemma totals_difference:
  assumes "try_fold total_line ls m = Inr m'" "bt_sorted m"
  shows "bt_sorted m' \<and> (case bt_get m' c of None \<Rightarrow> 0 | Some (d, k) \<Rightarrow> scaled d - scaled k) =
    (case bt_get m c of None \<Rightarrow> 0 | Some (d, k) \<Rightarrow> scaled d - scaled k) + (\<Sum>l\<leftarrow>ls. line_amount c l)"
  using assms
proof (induction ls arbitrary: m)
  case (Cons l ls)
  then obtain n where n: "total_line l m = Inr n" "try_fold total_line ls n = Inr m'"
    by (auto simp: and_then_eq_Inr)
  from total_line_difference [OF n(1) Cons.prems(2), of c] Cons.IH [OF n(2)] show ?case by simp
qed simp

lemma project_line_sum:
  assumes "project_line l m = Inr m'" "bt_sorted m"
  shows "bt_sorted m' \<and> currency_sum c m' = currency_sum c m + line_amount c l"
  using assms
  by (auto simp: project_line_def Let_def and_then_eq_Inr result_simps bt_sorted_insert bt_sum_insert
      currency_sum_def line_amount_def split: option.splits)

lemma project_sum:
  assumes "try_fold project_line ls m = Inr m'" "bt_sorted m"
  shows "bt_sorted m' \<and> currency_sum c m' = currency_sum c m + (\<Sum>l\<leftarrow>ls. line_amount c l)"
  using assms
proof (induction ls arbitrary: m)
  case (Cons l ls)
  then obtain n where n: "project_line l m = Inr n" "try_fold project_line ls n = Inr m'"
    by (auto simp: and_then_eq_Inr)
  from project_line_sum [OF n(1) Cons.prems(2), of c] Cons.IH [OF n(2)] show ?case by simp
qed simp

lemma project_balance:
  assumes "try_fold project_line ls m = Inr m'"
  shows "scaled (case bt_get m' (a, c) of None \<Rightarrow> ZERO | Some b \<Rightarrow> b) =
    scaled (case bt_get m (a, c) of None \<Rightarrow> ZERO | Some b \<Rightarrow> b)
    + (\<Sum>l\<leftarrow>ls. if jl_account_id l = a then line_amount c l else 0)"
  using assms
proof (induction ls arbitrary: m)
  case (Cons l ls)
  then obtain n where n: "project_line l m = Inr n" "try_fold project_line ls n = Inr m'"
    by (auto simp: and_then_eq_Inr)
  from n(1) have "scaled (case bt_get n (a, c) of None \<Rightarrow> ZERO | Some b \<Rightarrow> b) =
      scaled (case bt_get m (a, c) of None \<Rightarrow> ZERO | Some b \<Rightarrow> b)
      + (if jl_account_id l = a then line_amount c l else 0)"
    by (auto simp: project_line_def Let_def and_then_eq_Inr result_simps bt_get_insert line_amount_def)
  with Cons.IH [OF n(2)] show ?case by simp
qed simp

lemma projected_balanced:
  assumes "ledger_project t g = Inr m" "bt_sorted (lg_balances g)"
  shows "bt_sorted m \<and> currency_sum c m = currency_sum c (lg_balances g)"
proof -
  from assms(1) obtain totals where totals: "try_fold total_line (jt_lines t) [] = Inr totals"
    "\<not> list_ex (\<lambda>(_, debits, credits). debits \<noteq> credits) totals"
    "try_fold project_line (jt_lines t) (lg_balances g) = Inr m"
    by (auto simp: ledger_project_def and_then_eq_Inr split: if_splits)
  have sorted: "bt_sorted totals"
    using totals_difference [OF totals(1)] by (simp add: bt_sorted_def)
  have "(case bt_get totals c of None \<Rightarrow> 0 | Some (d, k) \<Rightarrow> scaled d - scaled k) = 0"
    using totals(2) by (fastforce simp: list_ex_iff bt_get_iff [OF sorted, symmetric] split: option.splits)
  then have "(\<Sum>l\<leftarrow>jt_lines t. line_amount c l) = 0"
    using totals_difference [OF totals(1), of c] by (simp add: bt_sorted_def)
  with project_sum [OF totals(3) assms(2), of c] show ?thesis by simp
qed

section \<open>Every ledger of the journal\<close>

fun post_all :: "journal_transaction list \<Rightarrow> ledger \<Rightarrow> ledger" where
  "post_all [] g = g"
| "post_all (t # ts) g = post_all ts (snd (ledger_post t g))"

lemma post_sorted_balanced:
  "bt_sorted (lg_balances g) \<Longrightarrow> bt_sorted (lg_balances (snd (ledger_post t g)))
     \<and> currency_sum c (lg_balances (snd (ledger_post t g))) = currency_sum c (lg_balances g)"
  using projected_balanced [of t g] by (auto simp: ledger_post_def split: sum.splits)

lemma post_all_balanced:
  "bt_sorted (lg_balances g) \<Longrightarrow> bt_sorted (lg_balances (post_all ts g))
     \<and> currency_sum c (lg_balances (post_all ts g)) = currency_sum c (lg_balances g)"
proof (induction ts arbitrary: g)
  case (Cons t ts)
  from post_sorted_balanced [OF Cons.prems, of t c] Cons.IH [of "snd (ledger_post t g)"]
  show ?case by simp
qed simp

section \<open>Properties\<close>

text \<open>An identity once applied stays applied, whatever is posted afterwards.\<close>

lemma post_keeps_applied:
  "bs_contains k (lg_applied_transactions g) \<Longrightarrow> bs_contains k (lg_applied_transactions (snd (ledger_post t g)))"
  by (auto simp: ledger_post_def bs_contains_insert split: sum.splits)

lemma post_all_keeps_applied:
  "bs_contains k (lg_applied_transactions g) \<Longrightarrow> bs_contains k (lg_applied_transactions (post_all ts g))"
  by (induction ts arbitrary: g) (simp_all add: post_keeps_applied)

lemma post_applied:
  "ledger_post t g = (Ok b, g') \<Longrightarrow> bs_contains (jt_transaction_id t) (lg_applied_transactions g')"
  by (auto simp: ledger_post_def bs_contains_insert split: sum.splits if_splits)

lemma applied_not_posted:
  assumes "bs_contains (jt_transaction_id t) (lg_applied_transactions g)"
  shows "snd (ledger_post t g) = g" "fst (ledger_post t g) \<noteq> Ok True"
  using assms by (simp_all add: ledger_post_def split: sum.splits)

lemma post_moves_balances:
  assumes "ledger_post t g = (Ok True, g')"
  shows "scaled (ledger_balance g' a c) = scaled (ledger_balance g a c)
    + (\<Sum>l\<leftarrow>jt_lines t. if jl_account_id l = a then line_amount c l else 0)"
  using assms by (auto simp: ledger_post_def ledger_project_def and_then_eq_Inr ledger_balance_def
      project_balance split: sum.splits if_splits)

text \<open>C19: Whatever transactions are posted, and however many of them are refused, the journal stays
  balanced: in every currency the balances of all accounts sum to exactly zero. An accepted
  transaction moves each account by exactly the debits less the credits of its own lines, and its identity
  is used up for good: after any further postings, nothing under it is posted or changes the ledger.\<close>

theorem ledger_always_balances:
  assumes "g = post_all ts ledger_empty"
  shows "currency_sum c (lg_balances g) = 0
    \<and> (\<forall>g'. ledger_post t g = (Ok True, g') \<longrightarrow>
        scaled (ledger_balance g' a c) = scaled (ledger_balance g a c)
          + (\<Sum>l\<leftarrow>jt_lines t. if jl_account_id l = a then line_amount c l else 0))
    \<and> (\<forall>g' us t'. ledger_post t g = (Ok True, g') \<and> jt_transaction_id t' = jt_transaction_id t \<longrightarrow>
        fst (ledger_post t' (post_all us g')) \<noteq> Ok True
        \<and> snd (ledger_post t' (post_all us g')) = post_all us g')"
proof (intro conjI allI impI)
  show "currency_sum c (lg_balances g) = 0"
    using post_all_balanced [of ledger_empty ts c] assms by (simp add: ledger_empty_def bt_sorted_def currency_sum_def)
  fix g' assume "ledger_post t g = (Ok True, g')"
  then show "scaled (ledger_balance g' a c) = scaled (ledger_balance g a c)
      + (\<Sum>l\<leftarrow>jt_lines t. if jl_account_id l = a then line_amount c l else 0)" by (rule post_moves_balances)
next
  fix g' us and t' :: journal_transaction
  assume "ledger_post t g = (Ok True, g') \<and> jt_transaction_id t' = jt_transaction_id t"
  then have "bs_contains (jt_transaction_id t') (lg_applied_transactions (post_all us g'))"
    using post_all_keeps_applied post_applied by metis
  then show "fst (ledger_post t' (post_all us g')) \<noteq> Ok True" "snd (ledger_post t' (post_all us g')) = post_all us g'"
    by (rule applied_not_posted(2), rule applied_not_posted(1))
qed

definition sample_transfer :: journal_transaction where
  "sample_transfer = \<lparr>jt_transaction_id = ''t1'', jt_tenant_id = ''n'', jt_reference_id = ''r'',
     jt_lines = [
       \<lparr>jl_account_id = ''cash'', jl_currency = Currency ''USD'', jl_debit = Decimal 500, jl_credit = ZERO\<rparr>,
       \<lparr>jl_account_id = ''equity'', jl_currency = Currency ''USD'', jl_debit = ZERO, jl_credit = Decimal 500\<rparr>]\<rparr>"

definition sample_ledger :: ledger where
  "sample_ledger = \<lparr>lg_balances = [((''cash'', Currency ''USD''), Decimal 500),
       ((''equity'', Currency ''USD''), Decimal (- 500))], lg_applied_transactions = [''t1'']\<rparr>"

lemma sample_transfer_posts: "ledger_post sample_transfer ledger_empty = (Ok True, sample_ledger)"
  by code_simp

theorem ledger_always_balances_witness:
  "currency_sum (Currency ''USD'') (lg_balances sample_ledger) = 0
    \<and> scaled (ledger_balance sample_ledger ''cash'' (Currency ''USD'')) = 500
    \<and> snd (ledger_post sample_transfer (snd (ledger_post (sample_transfer\<lparr>jt_transaction_id := ''t2''\<rparr>) sample_ledger)))
      = snd (ledger_post (sample_transfer\<lparr>jt_transaction_id := ''t2''\<rparr>) sample_ledger)"
proof -
  have "ledger_empty = post_all [] ledger_empty" "sample_ledger = post_all [sample_transfer] ledger_empty"
    by (simp_all add: sample_transfer_posts)
  note first = ledger_always_balances [OF this(1), of "Currency ''USD''" sample_transfer "''cash''"]
    and second = ledger_always_balances [OF this(2), of "Currency ''USD''"]
  have "snd (ledger_post sample_transfer (post_all [sample_transfer\<lparr>jt_transaction_id := ''t2''\<rparr>] sample_ledger))
      = post_all [sample_transfer\<lparr>jt_transaction_id := ''t2''\<rparr>] sample_ledger"
    using first sample_transfer_posts by blast
  with first second sample_transfer_posts
  show ?thesis by (simp add: sample_transfer_def line_amount_def ledger_balance_def ledger_empty_def)
qed

end
