(* ===== verification/TaxLots.thy ===== *)
theory TaxLots
  imports Ledger
begin

text \<open>
  Component: the tax-lot book of the accounting crate (\<^verbatim>\<open>core/accounting/src/lib.rs\<close>,
  \<^verbatim>\<open>TaxLotSelection\<close> to \<^verbatim>\<open>TaxLotBookSnapshot\<close>): long and short lots per instrument, acquisition
  and disposal under a selection policy, opening and covering shorts, stock splits, and recovery
  from a snapshot. Long and short lots have the same shape, which the crate's \<^verbatim>\<open>SplitLot\<close> trait
  names; the locale \<open>lot_view\<close> is that trait, extended by the identity and time the ordering uses.
\<close>

datatype tax_lot_selection = Fifo | Lifo | HighestCost

record tax_lot =
  tl_lot_id :: string
  tl_instrument_id :: string
  tl_currency :: currency
  tl_opened_at :: string
  tl_remaining_quantity :: decimal
  tl_unit_cost :: decimal

record short_tax_lot =
  st_lot_id :: string
  st_instrument_id :: string
  st_currency :: currency
  st_opened_at :: string
  st_remaining_quantity :: decimal
  st_unit_proceeds :: decimal

record tax_lot_disposal =
  td_disposal_id :: string
  td_instrument_id :: string
  td_currency :: currency
  td_quantity :: decimal
  td_gross_proceeds :: decimal
  td_cost_basis :: decimal
  td_fee :: decimal
  td_realized_pnl :: decimal
  td_allocations :: "(string \<times> decimal) list"

record short_cover_result =
  sc_cover_id :: string
  sc_instrument_id :: string
  sc_currency :: currency
  sc_quantity :: decimal
  sc_proceeds :: decimal
  sc_cost_basis :: decimal
  sc_fee :: decimal
  sc_realized_pnl :: decimal
  sc_allocations :: "(string \<times> decimal) list"

record tax_lot_book =
  tb_lots :: "(string, tax_lot list) btree_map"
  tb_applied_lot_ids :: "string btree_set"
  tb_applied_disposal_ids :: "string btree_set"
  tb_realized_by_currency :: "(currency, decimal) btree_map"
  tb_short_lots :: "(string, short_tax_lot list) btree_map"
  tb_applied_short_lot_ids :: "string btree_set"
  tb_applied_cover_ids :: "string btree_set"

definition tax_lot_book_default :: tax_lot_book where
  "tax_lot_book_default = \<lparr>tb_lots = [], tb_applied_lot_ids = [], tb_applied_disposal_ids = [],
     tb_realized_by_currency = [], tb_short_lots = [], tb_applied_short_lot_ids = [],
     tb_applied_cover_ids = []\<rparr>"

section \<open>Lots of either side\<close>

text \<open>
  The accessors of a lot. The methods below take them as one record, the dictionary of the trait.
\<close>

record 'l lot_ops =
  lo_id :: "'l \<Rightarrow> string"
  lo_opened_at :: "'l \<Rightarrow> string"
  lo_quantity :: "'l \<Rightarrow> decimal"
  lo_set_quantity :: "decimal \<Rightarrow> 'l \<Rightarrow> 'l"
  lo_unit_price :: "'l \<Rightarrow> decimal"
  lo_set_unit_price :: "decimal \<Rightarrow> 'l \<Rightarrow> 'l"

definition long_ops :: "tax_lot lot_ops" where
  "long_ops = \<lparr>lo_id = tl_lot_id, lo_opened_at = tl_opened_at, lo_quantity = tl_remaining_quantity,
     lo_set_quantity = (\<lambda>q. tl_remaining_quantity_update (\<lambda>_. q)), lo_unit_price = tl_unit_cost,
     lo_set_unit_price = (\<lambda>p. tl_unit_cost_update (\<lambda>_. p))\<rparr>"

definition short_ops :: "short_tax_lot lot_ops" where
  "short_ops = \<lparr>lo_id = st_lot_id, lo_opened_at = st_opened_at, lo_quantity = st_remaining_quantity,
     lo_set_quantity = (\<lambda>q. st_remaining_quantity_update (\<lambda>_. q)), lo_unit_price = st_unit_proceeds,
     lo_set_unit_price = (\<lambda>p. st_unit_proceeds_update (\<lambda>_. p))\<rparr>"

text \<open>\<^verbatim>\<open>sort_by\<close> on the opening time, then the identity, is stable.\<close>

definition lot_key :: "'l lot_ops \<Rightarrow> 'l \<Rightarrow> string \<times> string" where
  "lot_key ops l = (lo_opened_at ops l, lo_id ops l)"

definition sort_lots :: "'l lot_ops \<Rightarrow> 'l list \<Rightarrow> 'l list" where
  "sort_lots ops ls = sort_key (lot_key ops) ls"

definition available_quantity :: "'l lot_ops \<Rightarrow> 'l list \<Rightarrow> decimal result" where
  "available_quantity ops ls = try_fold (\<lambda>l tot. checked_add tot (lo_quantity ops l)) ls ZERO"

text \<open>
  The indices in the order they are consumed. Highest cost sorts by falling unit price, then
  opening time, then identity.
\<close>

definition selection_order :: "'l lot_ops \<Rightarrow> tax_lot_selection \<Rightarrow> 'l list \<Rightarrow> nat list" where
  "selection_order ops sel ls = (let order = [0..<length ls] in case sel of
       Fifo \<Rightarrow> order
     | Lifo \<Rightarrow> rev order
     | HighestCost \<Rightarrow> sort_key (\<lambda>i. (- scaled (lo_unit_price ops (ls ! i)), lot_key ops (ls ! i))) order)"

text \<open>
  The state of the selection loop: the lots, what is still to be taken, its cost (or proceeds), and
  the allocations. The loop ends when nothing remains; a turn with nothing remaining changes nothing,
  so the fold runs on to the end of the order.
\<close>

type_synonym 'l selection_state = "'l list \<times> decimal \<times> decimal \<times> (string \<times> decimal) list"

definition select_lot :: "'l lot_ops \<Rightarrow> nat \<Rightarrow> 'l selection_state \<Rightarrow> 'l selection_state result" where
  "select_lot ops i st = (case st of (projected, remaining, basis, allocations) \<Rightarrow>
     if remaining = ZERO then Ok st
     else
       let lot = projected ! i; selected = min (lo_quantity ops lot) remaining in
       if selected = ZERO then Ok st
       else
         and_then (checked_mul selected (lo_unit_price ops lot)) (\<lambda>cost.
         and_then (checked_add basis cost) (\<lambda>basis'.
         and_then (checked_sub (lo_quantity ops lot) selected) (\<lambda>left.
         and_then (checked_sub remaining selected) (\<lambda>remaining'.
         Ok (projected[i := lo_set_quantity ops left lot], remaining', basis',
             allocations @ [(lo_id ops lot, selected)]))))))"

definition select_lots :: "'l lot_ops \<Rightarrow> tax_lot_selection \<Rightarrow> decimal \<Rightarrow> 'l list \<Rightarrow> 'l selection_state result" where
  "select_lots ops sel quantity ls =
     try_fold (select_lot ops) (selection_order ops sel ls) (ls, quantity, ZERO, [])"

definition keep_open :: "'l lot_ops \<Rightarrow> 'l list \<Rightarrow> 'l list" where
  "keep_open ops ls = filter (\<lambda>l. lo_quantity ops l > ZERO) ls"

section \<open>Splits\<close>

definition split_step :: "'l lot_ops \<Rightarrow> decimal \<Rightarrow> 'l \<Rightarrow> decimal \<times> decimal \<times> 'l list
    \<Rightarrow> (decimal \<times> decimal \<times> 'l list) result" where
  "split_step ops ratio lot st = (case st of (held, tot, split) \<Rightarrow>
     and_then (checked_add held (lo_quantity ops lot)) (\<lambda>held'.
     and_then (checked_mul (lo_quantity ops lot) ratio) (\<lambda>quantity.
     and_then (checked_div (lo_unit_price ops lot) ratio) (\<lambda>price.
     if price \<le> ZERO then Err ''split would round a lot's unit cost to nothing''
     else and_then (checked_add tot quantity) (\<lambda>tot'.
       Ok (held', tot', split @ [lo_set_unit_price ops price (lo_set_quantity ops quantity lot)]))))))"

definition add_to_last :: "'l lot_ops \<Rightarrow> decimal \<Rightarrow> 'l list \<Rightarrow> 'l list result" where
  "add_to_last ops shortfall ls =
     (if ls = [] then Ok []
      else and_then (checked_add (lo_quantity ops (last ls)) shortfall) (\<lambda>q.
        Ok (butlast ls @ [lo_set_quantity ops q (last ls)])))"

definition split_lots :: "'l lot_ops \<Rightarrow> decimal \<Rightarrow> 'l list \<Rightarrow> 'l list result" where
  "split_lots ops ratio ls =
     and_then (try_fold (split_step ops ratio) ls (ZERO, ZERO, [])) (\<lambda>(held, tot, split).
     and_then (checked_mul held ratio) (\<lambda>scaled_once.
     and_then (checked_sub scaled_once tot) (\<lambda>shortfall.
     if shortfall < ZERO then Err ''split scaled the lots to more than their position''
     else and_then (add_to_last ops shortfall split) (\<lambda>split'. Ok (keep_open ops split')))))"

section \<open>The book\<close>

definition book_lots :: "tax_lot_book \<Rightarrow> string \<Rightarrow> tax_lot list" where
  "book_lots b i = (case bt_get (tb_lots b) i of None \<Rightarrow> [] | Some ls \<Rightarrow> ls)"

definition book_short_lots :: "tax_lot_book \<Rightarrow> string \<Rightarrow> short_tax_lot list" where
  "book_short_lots b i = (case bt_get (tb_short_lots b) i of None \<Rightarrow> [] | Some ls \<Rightarrow> ls)"

definition book_realized :: "tax_lot_book \<Rightarrow> currency \<Rightarrow> decimal" where
  "book_realized b c = (case bt_get (tb_realized_by_currency b) c of None \<Rightarrow> ZERO | Some r \<Rightarrow> r)"

definition acquire_check :: "(string \<Rightarrow> bool) \<Rightarrow> tax_lot \<Rightarrow> unit result" where
  "acquire_check rfc3339 lot =
     and_then (validate_canonical_id ''tax lot_id'' (tl_lot_id lot)) (\<lambda>_.
           and_then (validate_canonical_id ''tax lot instrument_id'' (tl_instrument_id lot)) (\<lambda>_.
           and_then (validate_utc_timestamp rfc3339 ''tax lot opened_at'' (tl_opened_at lot)) (\<lambda>_.
           if tl_remaining_quantity lot \<le> ZERO \<or> tl_unit_cost lot \<le> ZERO
           then Err ''invalid tax lot economics'' else Ok ())))"

definition acquire :: "(string \<Rightarrow> bool) \<Rightarrow> tax_lot \<Rightarrow> tax_lot_book \<Rightarrow> bool result \<times> tax_lot_book" where
  "acquire rfc3339 lot b =
     (case acquire_check rfc3339 lot of
        Inl e \<Rightarrow> (Inl e, b)
      | Inr _ \<Rightarrow>
          if bs_contains (tl_lot_id lot) (tb_applied_lot_ids b) then (Ok False, b)
          else (Ok True, b\<lparr>tb_applied_lot_ids := bs_insert (tl_lot_id lot) (tb_applied_lot_ids b),
            tb_lots := bt_insert (tl_instrument_id lot)
              (sort_lots long_ops (book_lots b (tl_instrument_id lot) @ [lot])) (tb_lots b)\<rparr>))"

definition open_short_check :: "(string \<Rightarrow> bool) \<Rightarrow> short_tax_lot \<Rightarrow> unit result" where
  "open_short_check rfc3339 lot =
     and_then (validate_canonical_id ''short tax lot_id'' (st_lot_id lot)) (\<lambda>_.
           and_then (validate_canonical_id ''short tax lot instrument_id'' (st_instrument_id lot)) (\<lambda>_.
           and_then (validate_utc_timestamp rfc3339 ''short tax lot opened_at'' (st_opened_at lot)) (\<lambda>_.
           if st_remaining_quantity lot \<le> ZERO
           then Err ''invalid short tax lot economics'' else Ok ())))"

definition open_short :: "(string \<Rightarrow> bool) \<Rightarrow> short_tax_lot \<Rightarrow> tax_lot_book \<Rightarrow> bool result \<times> tax_lot_book" where
  "open_short rfc3339 lot b =
     (case open_short_check rfc3339 lot of
        Inl e \<Rightarrow> (Inl e, b)
      | Inr _ \<Rightarrow>
          if bs_contains (st_lot_id lot) (tb_applied_short_lot_ids b) then (Ok False, b)
          else (Ok True, b\<lparr>tb_applied_short_lot_ids := bs_insert (st_lot_id lot) (tb_applied_short_lot_ids b),
            tb_short_lots := bt_insert (st_instrument_id lot)
              (sort_lots short_ops (book_short_lots b (st_instrument_id lot) @ [lot])) (tb_short_lots b)\<rparr>))"

text \<open>
  Disposal and cover select lots in the same way; what a disposal earns is the proceeds less the
  selected cost, what a cover earns is the selected proceeds less the cost. The book assigns the lots
  and the identity before it adds the realized amount, so a failing addition leaves them changed.
\<close>

definition dispose_select :: "tax_lot list option \<Rightarrow> currency \<Rightarrow> decimal \<Rightarrow> tax_lot_selection
    \<Rightarrow> (tax_lot list \<times> decimal \<times> (string \<times> decimal) list) result" where
  "dispose_select existing c quantity sel =
     and_then (ok_or existing ''no tax lots for disposal'') (\<lambda>ls.
     if list_ex (\<lambda>l. tl_currency l \<noteq> c) ls
     then Err ''tax lots for one instrument must use the disposal currency''
     else and_then (available_quantity long_ops ls) (\<lambda>available.
       if quantity > available then Err ''tax disposal exceeds available long lots''
       else and_then (select_lots long_ops sel quantity ls) (\<lambda>(projected, remaining, basis, allocations).
         if remaining \<noteq> ZERO then Err ''tax lot selection failed to conserve quantity''
         else Ok (projected, basis, allocations))))"

definition dispose_check :: "(string \<Rightarrow> bool) \<Rightarrow> string \<Rightarrow> string \<Rightarrow> decimal \<Rightarrow> decimal \<Rightarrow> decimal \<Rightarrow> string \<Rightarrow> unit result" where
  "dispose_check rfc3339 disposal_id instrument_id quantity unit_proceeds fee occurred_at =
     and_then (validate_canonical_id ''tax disposal_id'' disposal_id) (\<lambda>_.
           and_then (validate_canonical_id ''tax disposal instrument_id'' instrument_id) (\<lambda>_.
           and_then (validate_utc_timestamp rfc3339 ''tax disposal occurred_at'' occurred_at) (\<lambda>_.
           if quantity \<le> ZERO \<or> unit_proceeds \<le> ZERO \<or> fee < ZERO
           then Err ''invalid tax disposal economics'' else Ok ())))"

definition dispose :: "(string \<Rightarrow> bool) \<Rightarrow> string \<Rightarrow> string \<Rightarrow> currency \<Rightarrow> decimal \<Rightarrow> decimal \<Rightarrow> decimal
    \<Rightarrow> string \<Rightarrow> tax_lot_selection \<Rightarrow> tax_lot_book \<Rightarrow> tax_lot_disposal option result \<times> tax_lot_book" where
  "dispose rfc3339 disposal_id instrument_id c quantity unit_proceeds fee occurred_at sel b =
     (case dispose_check rfc3339 disposal_id instrument_id quantity unit_proceeds fee occurred_at of
        Inl e \<Rightarrow> (Inl e, b)
      | Inr _ \<Rightarrow>
          if bs_contains disposal_id (tb_applied_disposal_ids b) then (Ok None, b)
          else case and_then (dispose_select (bt_get (tb_lots b) instrument_id) c quantity sel)
                 (\<lambda>(projected, cost_basis, allocations).
               and_then (checked_mul quantity unit_proceeds) (\<lambda>gross_proceeds.
               and_then (checked_sub gross_proceeds cost_basis) (\<lambda>gain.
               and_then (checked_sub gain fee) (\<lambda>realized_pnl.
               Ok (projected, \<lparr>td_disposal_id = disposal_id, td_instrument_id = instrument_id,
                 td_currency = c, td_quantity = quantity, td_gross_proceeds = gross_proceeds,
                 td_cost_basis = cost_basis, td_fee = fee, td_realized_pnl = realized_pnl,
                 td_allocations = allocations\<rparr>))))) of
             Inl e \<Rightarrow> (Inl e, b)
           | Inr (projected, d) \<Rightarrow>
               let b1 = b\<lparr>tb_lots := bt_insert instrument_id (keep_open long_ops projected) (tb_lots b),
                     tb_applied_disposal_ids := bs_insert disposal_id (tb_applied_disposal_ids b)\<rparr> in
               (case checked_add (book_realized b c) (td_realized_pnl d) of
                  Inl e \<Rightarrow> (Inl e, b1)
                | Inr r \<Rightarrow> (Ok (Some d), b1\<lparr>tb_realized_by_currency := bt_insert c r (tb_realized_by_currency b)\<rparr>)))"

definition cover_select :: "short_tax_lot list option \<Rightarrow> currency \<Rightarrow> decimal \<Rightarrow> tax_lot_selection
    \<Rightarrow> (short_tax_lot list \<times> decimal \<times> (string \<times> decimal) list) result" where
  "cover_select existing c quantity sel =
     and_then (ok_or existing ''no short tax lots for cover'') (\<lambda>ls.
     if list_ex (\<lambda>l. st_currency l \<noteq> c) ls
     then Err ''short tax lots for one instrument must use the cover currency''
     else and_then (available_quantity short_ops ls) (\<lambda>available.
       if quantity > available then Err ''short cover exceeds available short lots''
       else and_then (select_lots short_ops sel quantity ls) (\<lambda>(projected, remaining, basis, allocations).
         if remaining \<noteq> ZERO then Err ''short lot selection failed to conserve quantity''
         else Ok (projected, basis, allocations))))"

definition cover_check :: "(string \<Rightarrow> bool) \<Rightarrow> string \<Rightarrow> string \<Rightarrow> decimal \<Rightarrow> decimal \<Rightarrow> decimal \<Rightarrow> string \<Rightarrow> unit result" where
  "cover_check rfc3339 cover_id instrument_id quantity unit_cost fee occurred_at =
     and_then (validate_canonical_id ''short cover_id'' cover_id) (\<lambda>_.
           and_then (validate_canonical_id ''short cover instrument_id'' instrument_id) (\<lambda>_.
           and_then (validate_utc_timestamp rfc3339 ''short cover occurred_at'' occurred_at) (\<lambda>_.
           if quantity \<le> ZERO \<or> unit_cost \<le> ZERO \<or> fee < ZERO
           then Err ''invalid short cover economics'' else Ok ())))"

definition cover :: "(string \<Rightarrow> bool) \<Rightarrow> string \<Rightarrow> string \<Rightarrow> currency \<Rightarrow> decimal \<Rightarrow> decimal \<Rightarrow> decimal
    \<Rightarrow> string \<Rightarrow> tax_lot_selection \<Rightarrow> tax_lot_book \<Rightarrow> short_cover_result option result \<times> tax_lot_book" where
  "cover rfc3339 cover_id instrument_id c quantity unit_cost fee occurred_at sel b =
     (case cover_check rfc3339 cover_id instrument_id quantity unit_cost fee occurred_at of
        Inl e \<Rightarrow> (Inl e, b)
      | Inr _ \<Rightarrow>
          if bs_contains cover_id (tb_applied_cover_ids b) then (Ok None, b)
          else case and_then (cover_select (bt_get (tb_short_lots b) instrument_id) c quantity sel)
                 (\<lambda>(projected, proceeds, allocations).
               and_then (checked_mul quantity unit_cost) (\<lambda>cost_basis.
               and_then (checked_sub proceeds cost_basis) (\<lambda>gain.
               and_then (checked_sub gain fee) (\<lambda>realized_pnl.
               Ok (projected, \<lparr>sc_cover_id = cover_id, sc_instrument_id = instrument_id,
                 sc_currency = c, sc_quantity = quantity, sc_proceeds = proceeds,
                 sc_cost_basis = cost_basis, sc_fee = fee, sc_realized_pnl = realized_pnl,
                 sc_allocations = allocations\<rparr>))))) of
             Inl e \<Rightarrow> (Inl e, b)
           | Inr (projected, d) \<Rightarrow>
               let b1 = b\<lparr>tb_short_lots := bt_insert instrument_id (keep_open short_ops projected) (tb_short_lots b),
                     tb_applied_cover_ids := bs_insert cover_id (tb_applied_cover_ids b)\<rparr> in
               (case checked_add (book_realized b c) (sc_realized_pnl d) of
                  Inl e \<Rightarrow> (Inl e, b1)
                | Inr r \<Rightarrow> (Ok (Some d), b1\<lparr>tb_realized_by_currency := bt_insert c r (tb_realized_by_currency b)\<rparr>)))"

definition split_side :: "'l lot_ops \<Rightarrow> decimal \<Rightarrow> 'l list option \<Rightarrow> 'l list option result" where
  "split_side ops ratio ls = (case ls of None \<Rightarrow> Ok None
     | Some l \<Rightarrow> and_then (split_lots ops ratio l) (\<lambda>l'. Ok (Some l')))"

definition put_side :: "string \<Rightarrow> 'l list option \<Rightarrow> (string, 'l list) btree_map \<Rightarrow> (string, 'l list) btree_map" where
  "put_side i ls m = (case ls of None \<Rightarrow> m
     | Some l \<Rightarrow> if l = [] then bt_remove i m else bt_insert i l m)"

definition split_both_sides :: "string \<Rightarrow> decimal \<Rightarrow> tax_lot_book \<Rightarrow> (tax_lot list option \<times> short_tax_lot list option) result" where
  "split_both_sides instrument_id ratio b =
     and_then (validate_canonical_id ''tax lot split instrument_id'' instrument_id) (\<lambda>_.
           if ratio \<le> ZERO then Err ''split ratio must be positive''
           else and_then (split_side long_ops ratio (bt_get (tb_lots b) instrument_id)) (\<lambda>long.
             and_then (split_side short_ops ratio (bt_get (tb_short_lots b) instrument_id)) (\<lambda>short.
             Ok (long, short))))"

definition book_apply_split :: "string \<Rightarrow> decimal \<Rightarrow> tax_lot_book \<Rightarrow> unit result \<times> tax_lot_book" where
  "book_apply_split instrument_id ratio b =
     (case split_both_sides instrument_id ratio b of
        Inl e \<Rightarrow> (Inl e, b)
      | Inr (long, short) \<Rightarrow> (Ok (), b\<lparr>tb_lots := put_side instrument_id long (tb_lots b),
          tb_short_lots := put_side instrument_id short (tb_short_lots b)\<rparr>))"

section \<open>Recovery\<close>

text \<open>A snapshot is the book's own fields, so it is the book.\<close>

definition recover_long_lot :: "(string \<Rightarrow> bool) \<Rightarrow> string btree_set \<Rightarrow> string \<Rightarrow> tax_lot \<Rightarrow> unit result" where
  "recover_long_lot rfc3339 applied instrument_id lot =
     and_then (validate_canonical_id ''tax lot_id'' (tl_lot_id lot)) (\<lambda>_.
     if tl_instrument_id lot \<noteq> instrument_id
     then Err ''persisted tax lot instrument_id does not match its bucket''
     else and_then (validate_utc_timestamp rfc3339 ''tax lot opened_at'' (tl_opened_at lot)) (\<lambda>_.
       if tl_remaining_quantity lot \<le> ZERO \<or> tl_unit_cost lot \<le> ZERO
       then Err ''persisted tax lot economics are invalid''
       else if \<not> bs_contains (tl_lot_id lot) applied
       then Err ''persisted open tax lot is missing from its applied lot identity set''
       else Ok ()))"

definition recover_short_lot :: "(string \<Rightarrow> bool) \<Rightarrow> string btree_set \<Rightarrow> string \<Rightarrow> short_tax_lot \<Rightarrow> unit result" where
  "recover_short_lot rfc3339 applied instrument_id lot =
     and_then (validate_canonical_id ''short tax lot_id'' (st_lot_id lot)) (\<lambda>_.
     if st_instrument_id lot \<noteq> instrument_id
     then Err ''persisted short tax lot instrument_id does not match its bucket''
     else and_then (validate_utc_timestamp rfc3339 ''short tax lot opened_at'' (st_opened_at lot)) (\<lambda>_.
       if st_remaining_quantity lot \<le> ZERO
       then Err ''persisted short tax lot economics are invalid''
       else if \<not> bs_contains (st_lot_id lot) applied
       then Err ''persisted open short tax lot is missing from its applied lot identity set''
       else Ok ()))"

definition recover_bucket :: "'l lot_ops \<Rightarrow> string \<Rightarrow> string \<Rightarrow> ('l \<Rightarrow> unit result) \<Rightarrow> 'l list \<Rightarrow> unit result" where
  "recover_bucket ops empty_error order_error check ls =
     (if ls = [] then Err empty_error
      else if sort_lots ops ls \<noteq> ls then Err order_error
      else try_each check ls)"

definition book_recover :: "(string \<Rightarrow> bool) \<Rightarrow> tax_lot_book \<Rightarrow> tax_lot_book result" where
  "book_recover rfc3339 snapshot =
     and_then (try_each (\<lambda>(i, ls). recover_bucket long_ops
         ''persisted tax lot book cannot retain an empty instrument bucket''
         ''persisted tax lots are not in canonical acquisition order''
         (recover_long_lot rfc3339 (tb_applied_lot_ids snapshot) i) ls) (tb_lots snapshot)) (\<lambda>_.
     and_then (try_each (\<lambda>(i, ls). recover_bucket short_ops
         ''persisted tax lot book cannot retain an empty short instrument bucket''
         ''persisted short tax lots are not in canonical acquisition order''
         (recover_short_lot rfc3339 (tb_applied_short_lot_ids snapshot) i) ls) (tb_short_lots snapshot)) (\<lambda>_.
     Ok snapshot))"

end
