(* ===== verification/TaxLotLaws.thy ===== *)
theory TaxLotLaws
  imports TaxLots
begin

text \<open>
  What the tax-lot operations promise: selection conserves quantity, first-in-first-out exhausts the
  oldest lots first, splits keep the position exact, and every book the operations produce is one
  recovery accepts, unless a sale or a cover has emptied a bucket.
\<close>

definition lots_held :: "'l lot_ops \<Rightarrow> 'l list \<Rightarrow> int" where
  "lots_held ops ls = (\<Sum>l\<leftarrow>ls. scaled (lo_quantity ops l))"

section \<open>The contract of a lot\<close>

locale lot_view =
  fixes ops :: "'l lot_ops"
  assumes quantity_set: "lo_quantity ops (lo_set_quantity ops q l) = q"
    and set_quantity: "lo_set_quantity ops (lo_quantity ops l) l = l"
    and set_set: "lo_set_quantity ops q (lo_set_quantity ops r l) = lo_set_quantity ops q l"
    and price_kept: "lo_unit_price ops (lo_set_quantity ops q l) = lo_unit_price ops l"
    and key_kept: "lot_key ops (lo_set_quantity ops q l) = lot_key ops l"
    and quantity_kept: "lo_quantity ops (lo_set_unit_price ops p l) = lo_quantity ops l"
    and price_set: "lo_unit_price ops (lo_set_unit_price ops p l) = p"
    and key_kept_price: "lot_key ops (lo_set_unit_price ops p l) = lot_key ops l"
    and set_commute: "lo_set_quantity ops q (lo_set_unit_price ops p l) =
      lo_set_unit_price ops p (lo_set_quantity ops q l)"
begin

lemmas lot_laws = quantity_set set_quantity set_set price_kept key_kept quantity_kept price_set
  key_kept_price set_commute

abbreviation held :: "'l list \<Rightarrow> int" where
  "held \<equiv> lots_held ops"

definition resized :: "'l list \<Rightarrow> 'l list \<Rightarrow> bool" where
  "resized ls ls' \<longleftrightarrow> list_all2 (\<lambda>l l'. \<exists>q. l' = lo_set_quantity ops q l) ls ls'"

lemma resized_refl: "resized ls ls"
  unfolding resized_def by (rule list_all2_refl) (metis set_quantity)

lemma resized_length: "resized ls ls' \<Longrightarrow> length ls' = length ls"
  by (simp add: resized_def list_all2_lengthD)

lemma resized_keys: "resized ls ls' \<Longrightarrow> map (lot_key ops) ls' = map (lot_key ops) ls"
  unfolding resized_def by (induction rule: list_all2_induct) (auto simp: key_kept)

lemma resized_update: "resized ls ls' \<Longrightarrow> resized ls (ls'[i := lo_set_quantity ops q (ls' ! i)])"
  unfolding resized_def
  by (cases "i < length ls'") (auto simp: list_all2_conv_all_nth nth_list_update, metis set_set)

lemma held_update: "i < length ls \<Longrightarrow> held (ls[i := l]) = held ls - scaled (lo_quantity ops (ls ! i))
    + scaled (lo_quantity ops l)"
  unfolding lots_held_def by (induction ls arbitrary: i) (auto split: nat.splits simp: nth_Cons)

lemma held_keep_open:
  assumes "\<forall>l\<in>set ls. ZERO \<le> lo_quantity ops l"
  shows "held (keep_open ops ls) = held ls"
  using assms by (induction ls) (auto simp: lots_held_def keep_open_def decimal_order)

lemma available: "available_quantity ops ls = Inr a \<Longrightarrow> scaled a = held ls"
  unfolding available_quantity_def lots_held_def
  by (drule try_fold_sum [where val = scaled and w = "\<lambda>l. scaled (lo_quantity ops l)", rotated])
    (auto simp: result_simps)

definition selecting :: "decimal \<Rightarrow> 'l list \<Rightarrow> 'l selection_state \<Rightarrow> bool" where
  "selecting quantity ls st \<longleftrightarrow> (case st of (proj, remaining, basis, allocations) \<Rightarrow>
     resized ls proj \<and> ZERO \<le> remaining \<and> (\<forall>l\<in>set proj. ZERO \<le> lo_quantity ops l)
     \<and> held proj + (\<Sum>a\<leftarrow>allocations. scaled (snd a)) = held ls
     \<and> scaled remaining + (\<Sum>a\<leftarrow>allocations. scaled (snd a)) = scaled quantity
     \<and> (\<forall>a\<in>set allocations. ZERO < snd a))"

lemma selecting_step:
  assumes "selecting quantity ls st" "select_lot ops i st = Inr st'" "i < length ls"
  shows "selecting quantity ls st'"
proof -
  obtain proj remaining basis allocations where st: "st = (proj, remaining, basis, allocations)"
    by (cases st) auto
  let ?q = "lo_quantity ops (proj ! i)" and ?s = "min (lo_quantity ops (proj ! i)) remaining"
  show ?thesis
  proof (cases "remaining = ZERO \<or> ?s = ZERO")
    case True
    then have "st' = st" using assms(2) by (auto simp: select_lot_def st Let_def split: if_splits)
    with assms(1) show ?thesis by simp
  next
    case False
    then obtain left remaining' basis' where
      left: "checked_sub ?q ?s = Inr left" and rem: "checked_sub remaining ?s = Inr remaining'" and
      st': "st' = (proj[i := lo_set_quantity ops left (proj ! i)], remaining', basis',
        allocations @ [(lo_id ops (proj ! i), ?s)])"
      using assms(2) by (auto simp: select_lot_def st Let_def and_then_eq_Inr)
    have inv: "resized ls proj" "ZERO \<le> remaining" "\<forall>l\<in>set proj. ZERO \<le> lo_quantity ops l"
      "held proj + (\<Sum>a\<leftarrow>allocations. scaled (snd a)) = held ls"
      "scaled remaining + (\<Sum>a\<leftarrow>allocations. scaled (snd a)) = scaled quantity"
      "\<forall>a\<in>set allocations. ZERO < snd a"
      using assms(1) by (simp_all add: selecting_def st)
    have i: "i < length proj" using inv(1) assms(3) by (simp add: resized_length)
    then have q: "ZERO \<le> ?q" using inv(3) by simp
    have left': "scaled left = scaled ?q - scaled ?s" and rem': "scaled remaining' = scaled remaining - scaled ?s"
      using left rem by (auto simp: result_simps)
    have "\<forall>l\<in>set (proj[i := lo_set_quantity ops left (proj ! i)]). ZERO \<le> lo_quantity ops l"
      using inv(3) left' by (auto dest!: set_update_subset_insert [THEN subsetD] simp: quantity_set decimal_order)
    moreover have "held (proj[i := lo_set_quantity ops left (proj ! i)]) = held proj - scaled ?s"
      by (simp add: held_update [OF i] quantity_set left')
    moreover have "ZERO < ?s" "ZERO \<le> remaining'" using False q inv(2) rem' by (auto simp: decimal_order)
    ultimately show ?thesis
      using inv rem' resized_update [OF inv(1)] by (auto simp: selecting_def st')
  qed
qed

lemma selection_order_bound: "i \<in> set (selection_order ops sel ls) \<Longrightarrow> i < length ls"
  by (cases sel) (auto simp: selection_order_def Let_def)

lemma select_lots_invariant:
  assumes "select_lots ops sel quantity ls = Inr st" "ZERO \<le> quantity"
    "\<forall>l\<in>set ls. ZERO \<le> lo_quantity ops l"
  shows "selecting quantity ls st"
proof (rule try_fold_invariant [OF assms(1) [unfolded select_lots_def]])
  show "selecting quantity ls (ls, quantity, ZERO, [])"
    using assms(2,3) by (simp add: selecting_def resized_refl)
qed (use selecting_step selection_order_bound in blast)

text \<open>First in, first out: what was taken is a prefix of the lots and part of the next one.\<close>

lemma fifo_prefix:
  assumes "select_lots ops Fifo quantity ls = Inr (proj, remaining, basis, allocations)"
    "ZERO \<le> quantity" "\<forall>l\<in>set ls. ZERO \<le> lo_quantity ops l"
  shows "\<exists>k. (\<forall>i<k. i < length proj \<longrightarrow> lo_quantity ops (proj ! i) = ZERO)
    \<and> (\<forall>i>k. i < length proj \<longrightarrow> proj ! i = ls ! i)"
proof -
  let ?P = "\<lambda>is st. selecting quantity ls st \<and> (case st of (proj, remaining, basis, allocations) \<Rightarrow>
    (\<forall>i\<ge>length is. i < length proj \<longrightarrow> proj ! i = ls ! i) \<and>
    (remaining = ZERO \<and> (\<exists>k. (\<forall>i<k. i < length proj \<longrightarrow> lo_quantity ops (proj ! i) = ZERO)
        \<and> (\<forall>i>k. i < length proj \<longrightarrow> proj ! i = ls ! i))
     \<or> (\<forall>i<length is. i < length proj \<longrightarrow> lo_quantity ops (proj ! i) = ZERO)))"
  have "?P [0..<length ls] (proj, remaining, basis, allocations)"
  proof (rule try_fold_invariant_prefix [OF assms(1) [unfolded select_lots_def selection_order_def Let_def
        tax_lot_selection.case]])
    show "?P [] (ls, quantity, ZERO, [])"
      using assms(2,3) by (simp add: selecting_def resized_refl)
  next
    fix ys x u v
    assume split: "\<exists>zs. [0..<length ls] = ys @ x # zs" and P: "?P ys u" and step: "select_lot ops x u = Inr v"
    then obtain zs where "[0..<length ls] = ys @ x # zs" by blast
    then have x: "x = length ys" "x < length ls"
      by (metis (no_types, lifting) add_0 length_append length_upt less_add_same_cancel1 list.size(4)
          minus_nat.diff_0 nth_append_length nth_upt zero_less_Suc add_gr_0)+
    obtain p r b a where u: "u = (p, r, b, a)" by (cases u) auto
    have sel: "selecting quantity ls v" using selecting_step P step x by blast
    have lp: "length p = length ls" using P by (simp add: selecting_def u resized_length)
    show "?P (ys @ [x]) v"
    proof (cases "r = ZERO \<or> min (lo_quantity ops (p ! x)) r = ZERO")
      case True
      then have v: "v = u" using step by (auto simp: select_lot_def u Let_def split: if_splits)
      show ?thesis
      proof (cases "r = ZERO")
        case True
        from P have "(\<exists>k. (\<forall>i<k. i < length p \<longrightarrow> lo_quantity ops (p ! i) = ZERO)
            \<and> (\<forall>i>k. i < length p \<longrightarrow> p ! i = ls ! i))
          \<or> (\<forall>i<length ys. i < length p \<longrightarrow> lo_quantity ops (p ! i) = ZERO)
            \<and> (\<forall>i>length ys. i < length p \<longrightarrow> p ! i = ls ! i)" by (auto simp: u)
        then have "\<exists>k. (\<forall>i<k. i < length p \<longrightarrow> lo_quantity ops (p ! i) = ZERO)
            \<and> (\<forall>i>k. i < length p \<longrightarrow> p ! i = ls ! i)" by blast
        with True P show ?thesis by (auto simp: v u)
      next
        case False
        with True have "lo_quantity ops (p ! x) = ZERO" by (simp add: min_def split: if_splits)
        with False P show ?thesis by (auto simp: v u x less_Suc_eq)
      qed
    next
      case False
      then obtain left r' b' where
        left: "checked_sub (lo_quantity ops (p ! x)) (min (lo_quantity ops (p ! x)) r) = Inr left" and
        rem: "checked_sub r (min (lo_quantity ops (p ! x)) r) = Inr r'" and
        v: "v = (p[x := lo_set_quantity ops left (p ! x)], r', b',
          a @ [(lo_id ops (p ! x), min (lo_quantity ops (p ! x)) r)])"
        using step by (auto simp: select_lot_def u Let_def and_then_eq_Inr)
      have done1: "\<forall>i<x. i < length p \<longrightarrow> lo_quantity ops (p ! i) = ZERO" using P False by (auto simp: u x)
      have later: "\<forall>i>x. i < length p \<longrightarrow> p[x := lo_set_quantity ops left (p ! x)] ! i = ls ! i"
        using P by (auto simp: u x)
      have "r' = ZERO \<or> left = ZERO"
        using left rem by (auto simp: result_simps decimal_order min_def split: if_splits)
      then show ?thesis
      proof
        assume "r' = ZERO"
        then show ?thesis using sel later done1 by (auto simp: v x intro!: exI [of _ x])
      next
        assume "left = ZERO"
        then show ?thesis using sel later done1 lp x by (auto simp: v nth_list_update quantity_set less_Suc_eq)
      qed
    qed
  qed
  then have len: "length proj = length ls" and
    "(\<exists>k. (\<forall>i<k. i < length proj \<longrightarrow> lo_quantity ops (proj ! i) = ZERO)
        \<and> (\<forall>i>k. i < length proj \<longrightarrow> proj ! i = ls ! i))
     \<or> (\<forall>i<length ls. i < length proj \<longrightarrow> lo_quantity ops (proj ! i) = ZERO)"
    by (auto simp: selecting_def resized_length)
  then show ?thesis by (elim disjE) (assumption, auto intro!: exI [of _ "length ls"])
qed

text \<open>A split leaves the position scaled once: what each lot loses to rounding goes to the newest.\<close>

definition repriced :: "'l list \<Rightarrow> 'l list \<Rightarrow> bool" where
  "repriced ls ls' \<longleftrightarrow> list_all2 (\<lambda>l l'. \<exists>q p. ZERO < p \<and> ZERO \<le> q
     \<and> l' = lo_set_unit_price ops p (lo_set_quantity ops q l)) ls ls'"

lemma repriced_snoc:
  "repriced ls ls' \<Longrightarrow> ZERO < p \<Longrightarrow> ZERO \<le> q
    \<Longrightarrow> repriced (ls @ [l]) (ls' @ [lo_set_unit_price ops p (lo_set_quantity ops q l)])"
  unfolding repriced_def by (intro list_all2_appendI) auto

definition splitting :: "decimal \<Rightarrow> 'l list \<Rightarrow> decimal \<times> decimal \<times> 'l list \<Rightarrow> bool" where
  "splitting ratio ls st \<longleftrightarrow> (case st of (h, tot, new) \<Rightarrow>
     scaled h = held ls \<and> scaled tot = held new \<and> repriced ls new
     \<and> (\<forall>l\<in>set new. ZERO \<le> lo_quantity ops l))"

lemma splitting_step:
  assumes "splitting ratio ls st" "split_step ops ratio l st = Inr st'" "ZERO < ratio"
    "ZERO \<le> lo_quantity ops l"
  shows "splitting ratio (ls @ [l]) st'"
proof -
  obtain h tot new where st: "st = (h, tot, new)" by (cases st) auto
  from assms(2) obtain h' q p tot' where
    h: "checked_add h (lo_quantity ops l) = Inr h'" and q: "checked_mul (lo_quantity ops l) ratio = Inr q" and
    p: "ZERO < p" and t: "checked_add tot q = Inr tot'" and
    st': "st' = (h', tot', new @ [lo_set_unit_price ops p (lo_set_quantity ops q l)])"
    by (auto simp: split_step_def st and_then_eq_Inr not_le split: if_splits)
  have "ZERO \<le> q" using checked_mul_sign [OF q] assms(3,4) by (simp add: decimal_order)
  with assms(1) h t p repriced_snoc [of ls new p q l] show ?thesis
    by (auto simp: splitting_def st st' lots_held_def result_simps quantity_kept quantity_set)
qed

lemma splitting_all:
  assumes "try_fold (split_step ops ratio) ls (ZERO, ZERO, []) = Inr st" "ZERO < ratio"
    "\<forall>l\<in>set ls. ZERO \<le> lo_quantity ops l"
  shows "splitting ratio ls st"
proof (rule try_fold_invariant_prefix [OF assms(1)])
  show "splitting ratio [] (ZERO, ZERO, [])" by (simp add: splitting_def lots_held_def repriced_def)
next
  fix ys x u v
  assume *: "\<exists>zs. ls = ys @ x # zs" "splitting ratio ys u" "split_step ops ratio x u = Inr v"
  then have "x \<in> set ls" by auto
  with splitting_step [OF *(2,3) assms(2)] assms(3) show "splitting ratio (ys @ [x]) v" by blast
qed

lemma add_to_last_repriced:
  assumes "add_to_last ops s new = Inr new'" "repriced ls new" "ZERO \<le> s"
    "\<forall>l\<in>set new. ZERO \<le> lo_quantity ops l"
  shows "repriced ls new' \<and> (\<forall>l\<in>set new'. ZERO \<le> lo_quantity ops l)
    \<and> held new' = held new + (if new = [] then 0 else scaled s)"
proof (cases "new = []")
  case True
  with assms show ?thesis by (auto simp: add_to_last_def)
next
  case False
  from assms(1) False obtain q where q: "checked_add (lo_quantity ops (last new)) s = Inr q"
    and new': "new' = butlast new @ [lo_set_quantity ops q (last new)]"
    by (auto simp: add_to_last_def and_then_eq_Inr)
  have new: "new = butlast new @ [last new]" using False by simp
  have q': "scaled q = scaled (lo_quantity ops (last new)) + scaled s" using q by (simp add: result_simps)
  then have pos: "ZERO \<le> q" using assms(3,4) False by (simp add: decimal_order)
  have "repriced ls (butlast new @ [last new])" using assms(2) new by simp
  then obtain ks l where ls: "ls = ks @ [l]" "repriced ks (butlast new)" and l: "repriced [l] [last new]"
    unfolding repriced_def by (auto simp: list_all2_append2 list_all2_Cons2)
  from l obtain r p where "ZERO < p" "last new = lo_set_unit_price ops p (lo_set_quantity ops r l)"
    by (auto simp: repriced_def)
  then have "lo_set_quantity ops q (last new) = lo_set_unit_price ops p (lo_set_quantity ops q l)" "ZERO < p"
    by (simp_all add: set_commute set_set)
  then have "repriced ls new'" unfolding ls(1) new' using repriced_snoc [OF ls(2) _ pos] by simp
  moreover have "held new' = held new + scaled s"
    using q' by (subst new) (simp add: new' lots_held_def quantity_set)
  moreover have "\<forall>l\<in>set new'. ZERO \<le> lo_quantity ops l"
    using assms(4) pos by (auto simp: new' quantity_set dest: in_set_butlastD)
  ultimately show ?thesis using False by simp
qed

lemma split_lots_exact:
  assumes "split_lots ops ratio ls = Inr new" "ZERO < ratio" "\<forall>l\<in>set ls. ZERO < lo_quantity ops l"
  shows "held new = held ls * scaled ratio div DECIMAL_SCALE
    \<and> (\<exists>all. repriced ls all \<and> new = keep_open ops all)"
proof -
  have nonneg: "\<forall>l\<in>set ls. ZERO \<le> lo_quantity ops l" using assms(3) by (auto simp: decimal_order)
  from assms(1) obtain h tot mid once short all where
    loop: "try_fold (split_step ops ratio) ls (ZERO, ZERO, []) = Inr (h, tot, mid)" and
    once: "checked_mul h ratio = Inr once" and short: "checked_sub once tot = Inr short" "ZERO \<le> short" and
    all: "add_to_last ops short mid = Inr all" and new: "new = keep_open ops all"
    by (auto simp: split_lots_def and_then_eq_Inr not_less split: if_splits)
  from splitting_all [OF loop assms(2) nonneg] have
    mid: "scaled h = held ls" "scaled tot = held mid" "repriced ls mid"
      "\<forall>l\<in>set mid. ZERO \<le> lo_quantity ops l" by (simp_all add: splitting_def)
  from add_to_last_repriced [OF all mid(3) short(2) mid(4)] have
    all': "repriced ls all" "\<forall>l\<in>set all. ZERO \<le> lo_quantity ops l"
      "held all = held mid + (if mid = [] then 0 else scaled short)" by blast+
  have "0 \<le> held ls" unfolding lots_held_def by (rule sum_list_nonneg) (use nonneg in \<open>auto simp: decimal_order\<close>)
  then have once': "scaled once = held ls * scaled ratio div DECIMAL_SCALE"
    using checked_mul_nonneg [OF once] assms(2) mid(1) by (simp add: decimal_order)
  have "mid = [] \<Longrightarrow> held ls = 0" using mid(3) by (simp add: repriced_def lots_held_def)
  then have "held all = scaled once"
    using all'(3) mid(2) once' short(1) by (auto simp: result_simps lots_held_def)
  with once' all'(1,2) show ?thesis by (auto simp: new held_keep_open)
qed

end

interpretation long_lots: lot_view long_ops
  by unfold_locales (simp_all add: long_ops_def lot_key_def)

interpretation short_lots: lot_view short_ops
  by unfold_locales (simp_all add: short_ops_def lot_key_def)

section \<open>Books the operations produce\<close>

definition buckets_ok :: "'l lot_ops \<Rightarrow> (string \<Rightarrow> 'l \<Rightarrow> unit result) \<Rightarrow> (string, 'l list) btree_map \<Rightarrow> bool" where
  "buckets_ok ops check m \<longleftrightarrow> bt_sorted m \<and>
     (\<forall>(i, ls)\<in>set m. sorted (map (lot_key ops) ls) \<and> (\<forall>l\<in>set ls. check i l = Ok ()))"

definition book_ok :: "(string \<Rightarrow> bool) \<Rightarrow> tax_lot_book \<Rightarrow> bool" where
  "book_ok rfc3339 b \<longleftrightarrow>
     buckets_ok long_ops (recover_long_lot rfc3339 (tb_applied_lot_ids b)) (tb_lots b)
     \<and> buckets_ok short_ops (recover_short_lot rfc3339 (tb_applied_short_lot_ids b)) (tb_short_lots b)"

definition no_empty_bucket :: "(string, 'l list) btree_map \<Rightarrow> bool" where
  "no_empty_bucket m \<longleftrightarrow> list_all (\<lambda>(i, ls). ls \<noteq> []) m"

lemma recover_long_lot_iff [result_simps]:
  "recover_long_lot rfc applied i l = Inr u \<longleftrightarrow> canonical_id (tl_lot_id l) \<and> tl_instrument_id l = i
     \<and> canonical_shape (tl_opened_at l) \<and> rfc (tl_opened_at l) \<and> ZERO < tl_remaining_quantity l
     \<and> ZERO < tl_unit_cost l \<and> tl_lot_id l \<in> set applied"
  by (auto simp: recover_long_lot_def and_then_eq_Inr result_simps bs_contains_def not_le)

lemma recover_short_lot_iff [result_simps]:
  "recover_short_lot rfc applied i l = Inr u \<longleftrightarrow> canonical_id (st_lot_id l) \<and> st_instrument_id l = i
     \<and> canonical_shape (st_opened_at l) \<and> rfc (st_opened_at l) \<and> ZERO < st_remaining_quantity l
     \<and> st_lot_id l \<in> set applied"
  by (auto simp: recover_short_lot_def and_then_eq_Inr result_simps bs_contains_def not_le)

lemma set_bt_insert_subset: "set (bt_insert k v m) \<subseteq> insert (k, v) (set m)"
  by (induction k v m rule: bt_insert.induct) auto

lemma buckets_ok_insert:
  "buckets_ok ops check m \<Longrightarrow> sorted (map (lot_key ops) ls) \<Longrightarrow> (\<And>l. l \<in> set ls \<Longrightarrow> check i l = Ok ())
    \<Longrightarrow> buckets_ok ops check (bt_insert i ls m)"
  unfolding buckets_ok_def using set_bt_insert_subset [of i ls m] bt_sorted_insert [of m i ls] by fast

lemma buckets_ok_get:
  "buckets_ok ops check m \<Longrightarrow> bt_get m i = Some ls
    \<Longrightarrow> sorted (map (lot_key ops) ls) \<and> (\<forall>l\<in>set ls. check i l = Ok ())"
  by (auto simp: buckets_ok_def bt_get_iff [symmetric])

lemma buckets_ok_lots:
  "buckets_ok ops check m \<Longrightarrow> l \<in> set (case bt_get m i of None \<Rightarrow> [] | Some ls \<Rightarrow> ls) \<Longrightarrow> check i l = Ok ()"
  by (cases "bt_get m i") (auto dest: buckets_ok_get)

lemma buckets_ok_put:
  "buckets_ok ops check m \<Longrightarrow>
    (\<And>l. ls = Some l \<Longrightarrow> sorted (map (lot_key ops) l) \<and> (\<forall>x\<in>set l. check i x = Ok ()))
    \<Longrightarrow> buckets_ok ops check (put_side i ls m)"
proof -
  assume ok: "buckets_ok ops check m" and
    new: "\<And>l. ls = Some l \<Longrightarrow> sorted (map (lot_key ops) l) \<and> (\<forall>x\<in>set l. check i x = Ok ())"
  have "set (bt_remove i m) \<subseteq> set m" by (auto simp: bt_remove_def)
  then have "buckets_ok ops check (bt_remove i m)"
    using ok bt_sorted_remove [of m i] unfolding buckets_ok_def by blast
  then show ?thesis
    using ok new buckets_ok_insert [OF ok] by (auto simp: put_side_def split: option.splits)
qed

lemma sorted_sort_lots: "sorted (map (lot_key ops) (sort_lots ops ls))"
  by (simp add: sort_lots_def)

lemma set_sort_lots [simp]: "set (sort_lots ops ls) = set ls"
  by (simp add: sort_lots_def)

lemma sort_lots_sorted: "sorted (map (lot_key ops) ls) \<Longrightarrow> sort_lots ops ls = ls"
  by (simp add: sort_lots_def sort_key_id_if_sorted)

lemma sorted_keep_open: "sorted (map (lot_key ops) ls) \<Longrightarrow> sorted (map (lot_key ops) (keep_open ops ls))"
  unfolding keep_open_def by (rule sorted_filter)

lemma acquire_check_iff [result_simps]:
  "acquire_check rfc l = Inr u \<longleftrightarrow> canonical_id (tl_lot_id l) \<and> canonical_id (tl_instrument_id l)
     \<and> canonical_shape (tl_opened_at l) \<and> rfc (tl_opened_at l) \<and> ZERO < tl_remaining_quantity l
     \<and> ZERO < tl_unit_cost l"
  by (auto simp: acquire_check_def and_then_eq_Inr result_simps not_le)

lemma open_short_check_iff [result_simps]:
  "open_short_check rfc l = Inr u \<longleftrightarrow> canonical_id (st_lot_id l) \<and> canonical_id (st_instrument_id l)
     \<and> canonical_shape (st_opened_at l) \<and> rfc (st_opened_at l) \<and> ZERO < st_remaining_quantity l"
  by (auto simp: open_short_check_def and_then_eq_Inr result_simps not_le)

lemma dispose_check_iff [result_simps]:
  "dispose_check rfc did i q p f at = Inr u \<longleftrightarrow> canonical_id did \<and> canonical_id i \<and> canonical_shape at
     \<and> rfc at \<and> ZERO < q \<and> ZERO < p \<and> ZERO \<le> f"
  by (auto simp: dispose_check_def and_then_eq_Inr result_simps not_le not_less)

lemma cover_check_iff [result_simps]:
  "cover_check rfc cid i q p f at = Inr u \<longleftrightarrow> canonical_id cid \<and> canonical_id i \<and> canonical_shape at
     \<and> rfc at \<and> ZERO < q \<and> ZERO < p \<and> ZERO \<le> f"
  by (auto simp: cover_check_def and_then_eq_Inr result_simps not_le not_less)

lemma acquire_ok: "book_ok rfc b \<Longrightarrow> book_ok rfc (snd (acquire rfc lot b))"
proof (cases "fst (acquire rfc lot b) = Ok True")
  case True
  assume ok: "book_ok rfc b"
  have mono: "buckets_ok long_ops (recover_long_lot rfc (bs_insert (tl_lot_id lot) (tb_applied_lot_ids b))) (tb_lots b)"
    using ok by (auto simp: book_ok_def buckets_ok_def result_simps)
  have lots: "\<forall>l\<in>set (book_lots b (tl_instrument_id lot)).
      recover_long_lot rfc (bs_insert (tl_lot_id lot) (tb_applied_lot_ids b)) (tl_instrument_id lot) l = Ok ()"
    using buckets_ok_lots [OF mono] by (auto simp: book_lots_def)
  have check: "acquire_check rfc lot = Ok ()" using True by (auto simp: acquire_def split: sum.splits)
  from True have "snd (acquire rfc lot b) = b\<lparr>tb_applied_lot_ids := bs_insert (tl_lot_id lot) (tb_applied_lot_ids b),
            tb_lots := bt_insert (tl_instrument_id lot)
              (sort_lots long_ops (book_lots b (tl_instrument_id lot) @ [lot])) (tb_lots b)\<rparr>"
    and "recover_long_lot rfc (bs_insert (tl_lot_id lot) (tb_applied_lot_ids b)) (tl_instrument_id lot) lot = Ok ()"
    using check by (auto simp: acquire_def split: if_splits) (auto simp: result_simps)
  with ok lots buckets_ok_insert [OF mono sorted_sort_lots, of "book_lots b (tl_instrument_id lot) @ [lot]"]
  show ?thesis by (auto simp: book_ok_def)
next
  case False
  assume "book_ok rfc b"
  moreover have "snd (acquire rfc lot b) = b"
    using False by (auto simp: acquire_def split: sum.splits)
  ultimately show ?thesis by simp
qed

lemma open_short_ok: "book_ok rfc b \<Longrightarrow> book_ok rfc (snd (open_short rfc lot b))"
proof (cases "fst (open_short rfc lot b) = Ok True")
  case True
  assume ok: "book_ok rfc b"
  have mono: "buckets_ok short_ops (recover_short_lot rfc (bs_insert (st_lot_id lot) (tb_applied_short_lot_ids b)))
      (tb_short_lots b)"
    using ok by (auto simp: book_ok_def buckets_ok_def result_simps)
  have lots: "\<forall>l\<in>set (book_short_lots b (st_instrument_id lot)).
      recover_short_lot rfc (bs_insert (st_lot_id lot) (tb_applied_short_lot_ids b)) (st_instrument_id lot) l = Ok ()"
    using buckets_ok_lots [OF mono] by (auto simp: book_short_lots_def)
  have check: "open_short_check rfc lot = Ok ()" using True by (auto simp: open_short_def split: sum.splits)
  from True have "snd (open_short rfc lot b) = b\<lparr>tb_applied_short_lot_ids :=
              bs_insert (st_lot_id lot) (tb_applied_short_lot_ids b),
            tb_short_lots := bt_insert (st_instrument_id lot)
              (sort_lots short_ops (book_short_lots b (st_instrument_id lot) @ [lot])) (tb_short_lots b)\<rparr>"
    and "recover_short_lot rfc (bs_insert (st_lot_id lot) (tb_applied_short_lot_ids b)) (st_instrument_id lot) lot = Ok ()"
    using check by (auto simp: open_short_def split: if_splits) (auto simp: result_simps)
  with ok lots buckets_ok_insert [OF mono sorted_sort_lots, of "book_short_lots b (st_instrument_id lot) @ [lot]"]
  show ?thesis by (auto simp: book_ok_def)
next
  case False
  assume "book_ok rfc b"
  moreover have "snd (open_short rfc lot b) = b"
    using False by (auto simp: open_short_def split: sum.splits)
  ultimately show ?thesis by simp
qed

text \<open>What a successful selection gives: the lots left, and what was taken.\<close>

lemma dispose_select_facts:
  assumes "dispose_select existing c quantity sel = Inr (proj, basis, allocations)" "ZERO \<le> quantity"
    "\<And>ls. existing = Some ls \<Longrightarrow> \<forall>l\<in>set ls. ZERO < tl_remaining_quantity l"
  obtains ls where "existing = Some ls" "\<forall>l\<in>set ls. tl_currency l = c"
    "select_lots long_ops sel quantity ls = Inr (proj, ZERO, basis, allocations)"
    "long_lots.selecting quantity ls (proj, ZERO, basis, allocations)"
    "\<forall>l\<in>set ls. ZERO \<le> lo_quantity long_ops l"
proof -
  from assms(1) obtain ls where ls: "existing = Some ls" "\<forall>l\<in>set ls. tl_currency l = c"
    "select_lots long_ops sel quantity ls = Inr (proj, ZERO, basis, allocations)"
    by (auto simp: dispose_select_def and_then_eq_Inr result_simps list_ex_iff split: if_splits)
  have nonneg: "\<forall>l\<in>set ls. ZERO \<le> lo_quantity long_ops l"
    using assms(3) [OF ls(1)] by (auto simp: long_ops_def)
  from that [OF ls long_lots.select_lots_invariant [OF ls(3) assms(2) nonneg] nonneg] show thesis .
qed

lemma cover_select_facts:
  assumes "cover_select existing c quantity sel = Inr (proj, basis, allocations)" "ZERO \<le> quantity"
    "\<And>ls. existing = Some ls \<Longrightarrow> \<forall>l\<in>set ls. ZERO < st_remaining_quantity l"
  obtains ls where "existing = Some ls" "\<forall>l\<in>set ls. st_currency l = c"
    "select_lots short_ops sel quantity ls = Inr (proj, ZERO, basis, allocations)"
    "short_lots.selecting quantity ls (proj, ZERO, basis, allocations)"
    "\<forall>l\<in>set ls. ZERO \<le> lo_quantity short_ops l"
proof -
  from assms(1) obtain ls where ls: "existing = Some ls" "\<forall>l\<in>set ls. st_currency l = c"
    "select_lots short_ops sel quantity ls = Inr (proj, ZERO, basis, allocations)"
    by (auto simp: cover_select_def and_then_eq_Inr result_simps list_ex_iff split: if_splits)
  have nonneg: "\<forall>l\<in>set ls. ZERO \<le> lo_quantity short_ops l"
    using assms(3) [OF ls(1)] by (auto simp: short_ops_def)
  from that [OF ls short_lots.select_lots_invariant [OF ls(3) assms(2) nonneg] nonneg] show thesis .
qed

lemma selected_lots_ok:
  assumes "\<forall>l\<in>set ls. recover_long_lot rfc applied i l = Ok ()"
    "long_lots.resized ls proj"
  shows "\<forall>l\<in>set (keep_open long_ops proj). recover_long_lot rfc applied i l = Ok ()"
  using assms unfolding long_lots.resized_def
  by (fastforce simp: keep_open_def long_ops_def result_simps list_all2_conv_all_nth in_set_conv_nth)

lemma selected_short_lots_ok:
  assumes "\<forall>l\<in>set ls. recover_short_lot rfc applied i l = Ok ()"
    "short_lots.resized ls proj"
  shows "\<forall>l\<in>set (keep_open short_ops proj). recover_short_lot rfc applied i l = Ok ()"
  using assms unfolding short_lots.resized_def
  by (fastforce simp: keep_open_def short_ops_def result_simps list_all2_conv_all_nth in_set_conv_nth)

text \<open>A disposal, accepted or failed in its last addition, leaves the lots of a selection.\<close>

lemma dispose_lots:
  assumes "dispose rfc did i c q p f at sel b = (r, b')"
  shows "b' = b \<or> (\<exists>proj basis allocations. 0 < scaled q
    \<and> dispose_select (bt_get (tb_lots b) i) c q sel = Inr (proj, basis, allocations)
    \<and> tb_lots b' = bt_insert i (keep_open long_ops proj) (tb_lots b)
    \<and> tb_applied_lot_ids b' = tb_applied_lot_ids b \<and> tb_short_lots b' = tb_short_lots b
    \<and> tb_applied_short_lot_ids b' = tb_applied_short_lot_ids b)"
proof (cases "dispose_check rfc did i q p f at")
  case (Inr u)
  then have "0 < scaled q" by (simp add: result_simps decimal_order)
  with assms Inr show ?thesis
    by (auto simp: dispose_def Let_def and_then_eq_Inr split: sum.splits if_splits)
qed (use assms in \<open>simp add: dispose_def\<close>)

lemma cover_lots:
  assumes "cover rfc cid i c q p f at sel b = (r, b')"
  shows "b' = b \<or> (\<exists>proj basis allocations. 0 < scaled q
    \<and> cover_select (bt_get (tb_short_lots b) i) c q sel = Inr (proj, basis, allocations)
    \<and> tb_short_lots b' = bt_insert i (keep_open short_ops proj) (tb_short_lots b)
    \<and> tb_applied_short_lot_ids b' = tb_applied_short_lot_ids b \<and> tb_lots b' = tb_lots b
    \<and> tb_applied_lot_ids b' = tb_applied_lot_ids b)"
proof (cases "cover_check rfc cid i q p f at")
  case (Inr u)
  then have "0 < scaled q" by (simp add: result_simps decimal_order)
  with assms Inr show ?thesis
    by (auto simp: cover_def Let_def and_then_eq_Inr split: sum.splits if_splits)
qed (use assms in \<open>simp add: cover_def\<close>)

lemma open_long_lots: "book_ok rfc b \<Longrightarrow> bt_get (tb_lots b) i = Some ls
    \<Longrightarrow> \<forall>l\<in>set ls. ZERO < tl_remaining_quantity l"
  by (auto simp: book_ok_def result_simps dest: buckets_ok_get)

lemma open_short_lots: "book_ok rfc b \<Longrightarrow> bt_get (tb_short_lots b) i = Some ls
    \<Longrightarrow> \<forall>l\<in>set ls. ZERO < st_remaining_quantity l"
  by (auto simp: book_ok_def result_simps dest: buckets_ok_get)

lemma dispose_ok:
  assumes "book_ok rfc b"
  shows "book_ok rfc (snd (dispose rfc did i c q p f at sel b))"
proof -
  obtain r b' where b': "dispose rfc did i c q p f at sel b = (r, b')" by force
  from dispose_lots [OF this] show ?thesis
  proof (elim disjE exE conjE)
    fix proj basis allocations
    assume q: "0 < scaled q" and sel: "dispose_select (bt_get (tb_lots b) i) c q sel = Inr (proj, basis, allocations)"
      and new: "tb_lots b' = bt_insert i (keep_open long_ops proj) (tb_lots b)"
        "tb_applied_lot_ids b' = tb_applied_lot_ids b" "tb_short_lots b' = tb_short_lots b"
        "tb_applied_short_lot_ids b' = tb_applied_short_lot_ids b"
    have ok: "buckets_ok long_ops (recover_long_lot rfc (tb_applied_lot_ids b)) (tb_lots b)"
      using assms by (simp add: book_ok_def)
    have q': "ZERO \<le> q" using q by (simp add: decimal_order)
    obtain ls where
      ls: "bt_get (tb_lots b) i = Some ls" "long_lots.selecting q ls (proj, ZERO, basis, allocations)"
      by (rule dispose_select_facts [OF sel q']) (use open_long_lots [OF assms] in blast)+
    then have re: "long_lots.resized ls proj" by (simp add: long_lots.selecting_def)
    have "sorted (map (lot_key long_ops) (keep_open long_ops proj))"
      using buckets_ok_get [OF ok ls(1)] by (intro sorted_keep_open) (simp add: long_lots.resized_keys [OF re])
    with buckets_ok_insert [OF ok this] selected_lots_ok [OF _ re] buckets_ok_get [OF ok ls(1)] assms new b'
    show ?thesis by (auto simp: book_ok_def)
  qed (use assms b' in simp)
qed

lemma cover_ok:
  assumes "book_ok rfc b"
  shows "book_ok rfc (snd (cover rfc cid i c q p f at sel b))"
proof -
  obtain r b' where b': "cover rfc cid i c q p f at sel b = (r, b')" by force
  from cover_lots [OF this] show ?thesis
  proof (elim disjE exE conjE)
    fix proj basis allocations
    assume q: "0 < scaled q" and sel: "cover_select (bt_get (tb_short_lots b) i) c q sel = Inr (proj, basis, allocations)"
      and new: "tb_short_lots b' = bt_insert i (keep_open short_ops proj) (tb_short_lots b)"
        "tb_applied_short_lot_ids b' = tb_applied_short_lot_ids b" "tb_lots b' = tb_lots b"
        "tb_applied_lot_ids b' = tb_applied_lot_ids b"
    have ok: "buckets_ok short_ops (recover_short_lot rfc (tb_applied_short_lot_ids b)) (tb_short_lots b)"
      using assms by (simp add: book_ok_def)
    have q': "ZERO \<le> q" using q by (simp add: decimal_order)
    obtain ls where
      ls: "bt_get (tb_short_lots b) i = Some ls" "short_lots.selecting q ls (proj, ZERO, basis, allocations)"
      by (rule cover_select_facts [OF sel q']) (use open_short_lots [OF assms] in blast)+
    then have re: "short_lots.resized ls proj" by (simp add: short_lots.selecting_def)
    have "sorted (map (lot_key short_ops) (keep_open short_ops proj))"
      using buckets_ok_get [OF ok ls(1)] by (intro sorted_keep_open) (simp add: short_lots.resized_keys [OF re])
    with buckets_ok_insert [OF ok this] selected_short_lots_ok [OF _ re] buckets_ok_get [OF ok ls(1)] assms new b'
    show ?thesis by (auto simp: book_ok_def)
  qed (use assms b' in simp)
qed

lemma repriced_keys:
  assumes "long_lots.repriced ls ls'"
  shows "map (lot_key long_ops) ls' = map (lot_key long_ops) ls"
  using assms unfolding long_lots.repriced_def
  by (induction rule: list_all2_induct) (auto simp: long_lots.lot_laws)

lemma repriced_short_keys:
  assumes "short_lots.repriced ls ls'"
  shows "map (lot_key short_ops) ls' = map (lot_key short_ops) ls"
  using assms unfolding short_lots.repriced_def
  by (induction rule: list_all2_induct) (auto simp: short_lots.lot_laws)

lemma split_long_ok:
  assumes "split_lots long_ops ratio ls = Inr new" "ZERO < ratio"
    "sorted (map (lot_key long_ops) ls)" "\<forall>l\<in>set ls. recover_long_lot rfc applied i l = Ok ()"
  shows "sorted (map (lot_key long_ops) new) \<and> (\<forall>l\<in>set new. recover_long_lot rfc applied i l = Ok ())"
proof -
  have "\<forall>l\<in>set ls. ZERO < lo_quantity long_ops l" using assms(4) by (simp add: result_simps long_ops_def)
  from long_lots.split_lots_exact [OF assms(1,2) this] obtain all where
    all: "long_lots.repriced ls all" "new = keep_open long_ops all" by blast
  have "sorted (map (lot_key long_ops) new)"
    unfolding all(2) by (rule sorted_keep_open) (simp add: repriced_keys [OF all(1)] assms(3))
  moreover have "\<forall>l\<in>set new. recover_long_lot rfc applied i l = Ok ()"
    using all assms(4) unfolding long_lots.repriced_def
    by (fastforce simp: keep_open_def long_ops_def result_simps list_all2_conv_all_nth in_set_conv_nth)
  ultimately show ?thesis by blast
qed

lemma split_short_ok:
  assumes "split_lots short_ops ratio ls = Inr new" "ZERO < ratio"
    "sorted (map (lot_key short_ops) ls)" "\<forall>l\<in>set ls. recover_short_lot rfc applied i l = Ok ()"
  shows "sorted (map (lot_key short_ops) new) \<and> (\<forall>l\<in>set new. recover_short_lot rfc applied i l = Ok ())"
proof -
  have "\<forall>l\<in>set ls. ZERO < lo_quantity short_ops l" using assms(4) by (simp add: result_simps short_ops_def)
  from short_lots.split_lots_exact [OF assms(1,2) this] obtain all where
    all: "short_lots.repriced ls all" "new = keep_open short_ops all" by blast
  have "sorted (map (lot_key short_ops) new)"
    unfolding all(2) by (rule sorted_keep_open) (simp add: repriced_short_keys [OF all(1)] assms(3))
  moreover have "\<forall>l\<in>set new. recover_short_lot rfc applied i l = Ok ()"
    using all assms(4) unfolding short_lots.repriced_def
    by (fastforce simp: keep_open_def short_ops_def result_simps list_all2_conv_all_nth in_set_conv_nth)
  ultimately show ?thesis by blast
qed

lemma split_side_Some:
  "split_side ops ratio ls = Inr (Some new) \<longleftrightarrow> (\<exists>l. ls = Some l \<and> split_lots ops ratio l = Inr new)"
  "split_side ops ratio ls = Inr None \<longleftrightarrow> ls = None"
  by (auto simp: split_side_def and_then_eq_Inr split: option.splits)

lemma apply_split_ok:
  assumes "book_ok rfc b"
  shows "book_ok rfc (snd (book_apply_split i ratio b))"
proof (cases "split_both_sides i ratio b")
  case (Inr sides)
  obtain long short where sides: "sides = (long, short)" by force
  from Inr have r: "ZERO < ratio" and l: "split_side long_ops ratio (bt_get (tb_lots b) i) = Inr long"
    and s: "split_side short_ops ratio (bt_get (tb_short_lots b) i) = Inr short"
    by (auto simp: split_both_sides_def and_then_eq_Inr sides not_le split: if_splits)
  have okl: "buckets_ok long_ops (recover_long_lot rfc (tb_applied_lot_ids b)) (tb_lots b)"
    and oks: "buckets_ok short_ops (recover_short_lot rfc (tb_applied_short_lot_ids b)) (tb_short_lots b)"
    using assms by (simp_all add: book_ok_def)
  have "buckets_ok long_ops (recover_long_lot rfc (tb_applied_lot_ids b)) (put_side i long (tb_lots b))"
  proof (rule buckets_ok_put [OF okl])
    fix new
    assume "long = Some new"
    with l obtain ls where ls: "bt_get (tb_lots b) i = Some ls" "split_lots long_ops ratio ls = Inr new"
      by (auto simp: split_side_Some)
    from split_long_ok [OF ls(2) r] buckets_ok_get [OF okl ls(1)]
    show "sorted (map (lot_key long_ops) new)
      \<and> (\<forall>x\<in>set new. recover_long_lot rfc (tb_applied_lot_ids b) i x = Ok ())" by blast
  qed
  moreover have "buckets_ok short_ops (recover_short_lot rfc (tb_applied_short_lot_ids b))
      (put_side i short (tb_short_lots b))"
  proof (rule buckets_ok_put [OF oks])
    fix new
    assume "short = Some new"
    with s obtain ls where ls: "bt_get (tb_short_lots b) i = Some ls" "split_lots short_ops ratio ls = Inr new"
      by (auto simp: split_side_Some)
    from split_short_ok [OF ls(2) r] buckets_ok_get [OF oks ls(1)]
    show "sorted (map (lot_key short_ops) new)
      \<and> (\<forall>x\<in>set new. recover_short_lot rfc (tb_applied_short_lot_ids b) i x = Ok ())" by blast
  qed
  ultimately show ?thesis by (simp add: book_apply_split_def Inr sides book_ok_def)
qed (use assms in \<open>simp add: book_apply_split_def\<close>)

section \<open>Runs of operations\<close>

datatype book_op =
    AcquireLot tax_lot
  | DisposeLots string string currency decimal decimal decimal string tax_lot_selection
  | OpenShortLot short_tax_lot
  | CoverLots string string currency decimal decimal decimal string tax_lot_selection
  | SplitLots string decimal

fun book_step :: "(string \<Rightarrow> bool) \<Rightarrow> book_op \<Rightarrow> tax_lot_book \<Rightarrow> tax_lot_book" where
  "book_step rfc (AcquireLot lot) b = snd (acquire rfc lot b)"
| "book_step rfc (DisposeLots did i c q p f at sel) b = snd (dispose rfc did i c q p f at sel b)"
| "book_step rfc (OpenShortLot lot) b = snd (open_short rfc lot b)"
| "book_step rfc (CoverLots cid i c q p f at sel) b = snd (cover rfc cid i c q p f at sel b)"
| "book_step rfc (SplitLots i ratio) b = snd (book_apply_split i ratio b)"

definition book_run :: "(string \<Rightarrow> bool) \<Rightarrow> book_op list \<Rightarrow> tax_lot_book" where
  "book_run rfc ops = fold (book_step rfc) ops tax_lot_book_default"

lemma book_step_ok: "book_ok rfc b \<Longrightarrow> book_ok rfc (book_step rfc op b)"
  by (cases op) (simp_all add: acquire_ok dispose_ok open_short_ok cover_ok apply_split_ok)

lemma book_run_ok: "book_ok rfc (book_run rfc ops)"
proof -
  have "book_ok rfc b \<Longrightarrow> book_ok rfc (fold (book_step rfc) ops b)" for b
    by (induction ops arbitrary: b) (simp_all add: book_step_ok)
  then show ?thesis
    by (simp add: book_run_def tax_lot_book_default_def book_ok_def buckets_ok_def bt_sorted_def)
qed

lemma recover_bucket_ok:
  assumes "sorted (map (lot_key ops) ls)" "\<forall>l\<in>set ls. check l = Ok ()"
  shows "recover_bucket ops e o1 check ls = (if ls = [] then Err e else Ok ())"
proof -
  have "try_each check ls = Ok ()" using assms(2) by (simp add: result_simps)
  then show ?thesis using sort_lots_sorted [OF assms(1)] by (simp add: recover_bucket_def)
qed

lemma recover_buckets:
  assumes "buckets_ok ops check m"
  shows "try_each (\<lambda>(i, ls). recover_bucket ops e o1 (check i) ls) m
    = (if no_empty_bucket m then Ok () else Err e)"
proof -
  have "\<forall>(i, ls)\<in>set m. recover_bucket ops e o1 (check i) ls = (if ls = [] then Err e else Ok ())"
    using assms recover_bucket_ok [of ops] by (fastforce simp: buckets_ok_def)
  then show ?thesis by (induction m) (auto simp: no_empty_bucket_def)
qed

lemma book_recover_ok:
  assumes "book_ok rfc b"
  shows "book_recover rfc b =
    (if \<not> no_empty_bucket (tb_lots b)
     then Err ''persisted tax lot book cannot retain an empty instrument bucket''
     else if \<not> no_empty_bucket (tb_short_lots b)
     then Err ''persisted tax lot book cannot retain an empty short instrument bucket''
     else Ok b)"
  using assms by (simp add: book_ok_def book_recover_def recover_buckets)

section \<open>Properties\<close>

text \<open>An accepted disposal, taken apart.\<close>

lemma dispose_accepted:
  assumes "dispose rfc did i c q p f at sel b = (Ok (Some d), b')" "book_ok rfc b"
  obtains ls proj where "bt_get (tb_lots b) i = Some ls" "0 < scaled q"
    "select_lots long_ops sel q ls = Inr (proj, ZERO, td_cost_basis d, td_allocations d)"
    "long_lots.selecting q ls (proj, ZERO, td_cost_basis d, td_allocations d)"
    "\<forall>l\<in>set ls. ZERO \<le> lo_quantity long_ops l"
    "tb_lots b' = bt_insert i (keep_open long_ops proj) (tb_lots b)"
    "tb_short_lots b' = tb_short_lots b"
    "scaled (td_realized_pnl d) = scaled (td_gross_proceeds d) - scaled (td_cost_basis d) - scaled f"
    "scaled (book_realized b' c) = scaled (book_realized b c) + scaled (td_realized_pnl d)"
proof -
  have "dispose_check rfc did i q p f at = Ok ()"
    using assms(1) by (auto simp: dispose_def split: sum.splits)
  then have q: "0 < scaled q" by (simp add: result_simps decimal_order)
  from assms(1) obtain proj where
    sel: "dispose_select (bt_get (tb_lots b) i) c q sel = Inr (proj, td_cost_basis d, td_allocations d)" and
    out: "tb_lots b' = bt_insert i (keep_open long_ops proj) (tb_lots b)" "tb_short_lots b' = tb_short_lots b"
      "scaled (td_realized_pnl d) = scaled (td_gross_proceeds d) - scaled (td_cost_basis d) - scaled f"
      "scaled (book_realized b' c) = scaled (book_realized b c) + scaled (td_realized_pnl d)"
    by (auto simp: dispose_def Let_def and_then_eq_Inr result_simps book_realized_def bt_get_insert
        split: sum.splits if_splits)
  have q': "ZERO \<le> q" using q by (simp add: decimal_order)
  obtain ls where "bt_get (tb_lots b) i = Some ls"
    "select_lots long_ops sel q ls = Inr (proj, ZERO, td_cost_basis d, td_allocations d)"
    "long_lots.selecting q ls (proj, ZERO, td_cost_basis d, td_allocations d)"
    "\<forall>l\<in>set ls. ZERO \<le> lo_quantity long_ops l"
    by (rule dispose_select_facts [OF sel q']) (use open_long_lots [OF assms(2)] in blast)+
  from that [OF this(1) q this(2-4) out] show thesis .
qed

lemma keep_open_suffix:
  assumes "\<forall>i<k. i < length proj \<longrightarrow> lo_quantity ops (proj ! i) = ZERO"
    "\<forall>i>k. i < length proj \<longrightarrow> proj ! i = ls ! i" "length proj = length ls"
    "\<forall>l\<in>set ls. ZERO < lo_quantity ops l"
  shows "\<exists>r. length r \<le> 1 \<and> keep_open ops proj = r @ drop (Suc k) ls"
proof -
  have "keep_open ops (take k proj) = []"
    using assms(1) by (auto simp: keep_open_def filter_empty_conv in_set_conv_nth)
  moreover have "drop (Suc k) proj = drop (Suc k) ls"
    using assms(2,3) by (intro nth_equalityI) auto
  moreover have "keep_open ops (drop (Suc k) ls) = drop (Suc k) ls"
    using assms(4) by (auto simp: keep_open_def intro!: filter_True dest: in_set_dropD)
  moreover have "proj = take k proj @ take 1 (drop k proj) @ drop (Suc k) proj"
    by (metis append_take_drop_id drop_drop plus_1_eq_Suc)
  then have "keep_open ops proj = keep_open ops (take k proj) @ keep_open ops (take 1 (drop k proj))
      @ keep_open ops (drop (Suc k) proj)"
    unfolding keep_open_def by (metis filter_append)
  moreover have "length (keep_open ops (take 1 (drop k proj))) \<le> 1"
    unfolding keep_open_def by (rule order_trans [OF length_filter_le]) simp
  ultimately show ?thesis by (intro exI [of _ "keep_open ops (take 1 (drop k proj))"]) simp
qed

text \<open>C23: A sale conserves the tax lots of every book the operations can produce: the lots left hold
  exactly what was held less what was sold, the allocations are positive and sum to the sale, the
  profit is the proceeds less the allocated cost and the fee and is what the book adds, no other
  instrument and no short lot changes, and first-in-first-out takes whole lots from the front and
  part of at most one more.\<close>

theorem disposal_conserves_lots:
  assumes "b = book_run rfc3339 ops"
    and "dispose rfc3339 did i c q p f at sel b = (Ok (Some d), b')"
  shows "lots_held long_ops (book_lots b' i) = lots_held long_ops (book_lots b i) - scaled q
    \<and> (\<Sum>a\<leftarrow>td_allocations d. scaled (snd a)) = scaled q \<and> list_all (\<lambda>a. ZERO < snd a) (td_allocations d)
    \<and> scaled (td_realized_pnl d) = scaled (td_gross_proceeds d) - scaled (td_cost_basis d) - scaled f
    \<and> scaled (book_realized b' c) = scaled (book_realized b c) + scaled (td_realized_pnl d)
    \<and> (j \<noteq> i \<longrightarrow> book_lots b' j = book_lots b j) \<and> tb_short_lots b' = tb_short_lots b
    \<and> (sel = Fifo \<longrightarrow> (\<exists>k r. length r \<le> 1 \<and> book_lots b' i = r @ drop k (book_lots b i)))"
proof -
  have ok: "book_ok rfc3339 b" unfolding assms(1) by (rule book_run_ok)
  obtain ls proj where ls: "bt_get (tb_lots b) i = Some ls" "0 < scaled q" and
    sel: "select_lots long_ops sel q ls = Inr (proj, ZERO, td_cost_basis d, td_allocations d)" and
    inv: "long_lots.selecting q ls (proj, ZERO, td_cost_basis d, td_allocations d)" and
    nonneg: "\<forall>l\<in>set ls. ZERO \<le> lo_quantity long_ops l" and
    out: "tb_lots b' = bt_insert i (keep_open long_ops proj) (tb_lots b)"
      "tb_short_lots b' = tb_short_lots b"
      "scaled (td_realized_pnl d) = scaled (td_gross_proceeds d) - scaled (td_cost_basis d) - scaled f"
      "scaled (book_realized b' c) = scaled (book_realized b c) + scaled (td_realized_pnl d)"
    by (rule dispose_accepted [OF assms(2) ok])
  have lots: "book_lots b i = ls" "book_lots b' i = keep_open long_ops proj"
    "j \<noteq> i \<Longrightarrow> book_lots b' j = book_lots b j"
    by (simp_all add: book_lots_def ls(1) out(1) bt_get_insert)
  have facts: "length proj = length ls" "\<forall>l\<in>set proj. ZERO \<le> lo_quantity long_ops l"
    "lots_held long_ops proj + (\<Sum>a\<leftarrow>td_allocations d. scaled (snd a)) = lots_held long_ops ls"
    "(\<Sum>a\<leftarrow>td_allocations d. scaled (snd a)) = scaled q" "\<forall>a\<in>set (td_allocations d). ZERO < snd a"
    using inv by (simp_all add: long_lots.selecting_def long_lots.resized_length)
  have "\<exists>k r. length r \<le> 1 \<and> book_lots b' i = r @ drop k ls" if "sel = Fifo"
  proof -
    have "ZERO \<le> q" using ls(2) by (simp add: decimal_order)
    from long_lots.fifo_prefix [OF sel [unfolded that] this nonneg] obtain k where
      k: "\<forall>i<k. i < length proj \<longrightarrow> lo_quantity long_ops (proj ! i) = ZERO"
        "\<forall>i>k. i < length proj \<longrightarrow> proj ! i = ls ! i" by blast
    have "\<forall>l\<in>set ls. ZERO < lo_quantity long_ops l" using open_long_lots [OF ok ls(1)] by (simp add: long_ops_def)
    from keep_open_suffix [OF k facts(1) this] show ?thesis unfolding lots by blast
  qed
  then show ?thesis
    using facts out long_lots.held_keep_open [OF facts(2)] lots
    by (simp add: list_all_iff)
qed

text \<open>A sample: two lots bought, one and a half sold.\<close>

definition sample_lot :: "string \<Rightarrow> string \<Rightarrow> tax_lot" where
  "sample_lot lot_id opened_at = \<lparr>tl_lot_id = lot_id, tl_instrument_id = ''x'', tl_currency = Currency ''USD'',
     tl_opened_at = opened_at, tl_remaining_quantity = Decimal 100000000, tl_unit_cost = Decimal 500000000\<rparr>"

definition sample_purchases :: "book_op list" where
  "sample_purchases = [AcquireLot (sample_lot ''b'' ''2026-01-02T00:00:00Z''),
     AcquireLot (sample_lot ''a'' ''2026-01-01T00:00:00Z'')]"

definition sample_book :: tax_lot_book where
  "sample_book = book_run (\<lambda>_. True) sample_purchases"

definition sample_sale :: "int \<Rightarrow> tax_lot_disposal option result \<times> tax_lot_book" where
  "sample_sale q = dispose (\<lambda>_. True) ''d'' ''x'' (Currency ''USD'') (Decimal q) (Decimal 600000000) ZERO
     ''2026-01-03T00:00:00Z'' Fifo sample_book"

lemma sample_book_lots: "book_lots sample_book ''x'' =
    [sample_lot ''a'' ''2026-01-01T00:00:00Z'', sample_lot ''b'' ''2026-01-02T00:00:00Z'']"
  by code_simp

definition sample_disposal :: "int \<Rightarrow> tax_lot_disposal" where
  "sample_disposal q = \<lparr>td_disposal_id = ''d'', td_instrument_id = ''x'', td_currency = Currency ''USD'',
     td_quantity = Decimal q, td_gross_proceeds = Decimal (6 * q), td_cost_basis = Decimal (5 * q), td_fee = ZERO,
     td_realized_pnl = Decimal q, td_allocations = [(''a'', Decimal 100000000), (''b'', Decimal (q - 100000000))]\<rparr>"

lemma sample_sale_part: "fst (sample_sale 150000000) = Ok (Some (sample_disposal 150000000))"
  by code_simp

theorem disposal_conserves_lots_witness:
  "lots_held long_ops (book_lots (snd (sample_sale 150000000)) ''x'') = 50000000"
proof -
  have "sample_sale 150000000 = (Ok (Some (sample_disposal 150000000)), snd (sample_sale 150000000))"
    by (metis sample_sale_part prod.collapse)
  from disposal_conserves_lots [OF sample_book_def this [unfolded sample_sale_def], of "''x''"]
  show ?thesis
    by (simp add: sample_book_lots lots_held_def sample_lot_def long_ops_def sample_sale_def)
qed

text \<open>C32: A book survives a restart only while no bucket has been emptied: of every book the
  operations can produce, recovery accepts the snapshot unchanged exactly when no instrument is left
  with an empty list of lots. Selling everything held in an instrument leaves such a list, so from
  then on the book's own snapshot is refused, against the contract that recovery restores any exact
  prior snapshot.\<close>

theorem sold_out_book_not_recoverable:
  assumes "b = book_run rfc3339 ops"
  shows "(book_recover rfc3339 b = Ok b \<longleftrightarrow> no_empty_bucket (tb_lots b) \<and> no_empty_bucket (tb_short_lots b))
    \<and> (dispose rfc3339 did i c q p f at sel b = (Ok (Some d), b') \<and> scaled q = lots_held long_ops (book_lots b i)
      \<longrightarrow> book_recover rfc3339 b' = Err ''persisted tax lot book cannot retain an empty instrument bucket'')"
proof -
  have ok: "book_ok rfc3339 b" unfolding assms(1) by (rule book_run_ok)
  have "book_recover rfc3339 b' = Err ''persisted tax lot book cannot retain an empty instrument bucket''"
    if sale: "dispose rfc3339 did i c q p f at sel b = (Ok (Some d), b')"
      and all: "scaled q = lots_held long_ops (book_lots b i)"
  proof -
    obtain ls proj where ls: "bt_get (tb_lots b) i = Some ls" and
      inv: "long_lots.selecting q ls (proj, ZERO, td_cost_basis d, td_allocations d)" and
      out: "tb_lots b' = bt_insert i (keep_open long_ops proj) (tb_lots b)"
      by (rule dispose_accepted [OF sale ok])
    have nonneg: "\<forall>l\<in>set proj. ZERO \<le> lo_quantity long_ops l" and "lots_held long_ops proj = 0"
      using inv all by (simp_all add: long_lots.selecting_def book_lots_def ls)
    then have "\<forall>l\<in>set proj. scaled (lo_quantity long_ops l) = 0"
      using sum_list_nonneg_eq_0_iff [of "map (\<lambda>l. scaled (lo_quantity long_ops l)) proj"]
      by (auto simp: decimal_order lots_held_def)
    then have "keep_open long_ops proj = []"
      by (auto simp: keep_open_def filter_empty_conv decimal_order)
    moreover have ok': "book_ok rfc3339 b'" using dispose_ok [OF ok, of did i c q p f at sel] sale by simp
    ultimately have "(i, []) \<in> set (tb_lots b')"
      using out by (auto simp: book_ok_def buckets_ok_def bt_get_iff bt_get_insert)
    then have "\<not> no_empty_bucket (tb_lots b')" by (auto simp: no_empty_bucket_def list_all_iff)
    then show ?thesis by (simp add: book_recover_ok [OF ok'])
  qed
  then show ?thesis using book_recover_ok [OF ok] by auto
qed

lemma sample_sale_all: "fst (sample_sale 200000000) = Ok (Some (sample_disposal 200000000))"
  by code_simp

theorem sold_out_book_not_recoverable_witness:
  "book_recover (\<lambda>_. True) sample_book = Ok sample_book
    \<and> book_recover (\<lambda>_. True) (snd (sample_sale 200000000))
      = Err ''persisted tax lot book cannot retain an empty instrument bucket''"
proof -
  have "sample_sale 200000000 = (Ok (Some (sample_disposal 200000000)), snd (sample_sale 200000000))"
    by (metis sample_sale_all prod.collapse)
  moreover have "lots_held long_ops (book_lots sample_book ''x'') = 200000000"
    by (simp add: sample_book_lots lots_held_def sample_lot_def long_ops_def)
  moreover have "no_empty_bucket (tb_lots sample_book)" "no_empty_bucket (tb_short_lots sample_book)"
    by code_simp+
  ultimately show ?thesis
    using sold_out_book_not_recoverable [OF sample_book_def, of "''d''" "''x''" "Currency ''USD''"
        "Decimal 200000000" "Decimal 600000000" ZERO "''2026-01-03T00:00:00Z''" Fifo
        "sample_disposal 200000000" "snd (sample_sale 200000000)"]
    by (simp add: sample_sale_def)
qed

lemma nonpositive_price_refuses_split:
  assumes "l \<in> set ls" "lo_unit_price ops l \<le> ZERO" "ZERO < ratio"
  shows "\<exists>e. split_lots ops ratio ls = Inl e"
proof (cases "try_fold (split_step ops ratio) ls (ZERO, ZERO, [])")
  case (Inr st)
  obtain ys zs where ls: "ls = ys @ l # zs" using split_list [OF assms(1)] by blast
  have "\<exists>e. split_step ops ratio l u = Inl e" for u
  proof (cases "checked_div (lo_unit_price ops l) ratio")
    case (Inr p)
    have "scaled (lo_unit_price ops l) * DECIMAL_SCALE \<le> 0"
      using assms(2) by (simp add: decimal_order mult_le_0_iff)
    then have "scaled p \<le> 0"
      using Inr assms(3)
      by (auto simp: result_simps decimal_order signed_divide_int_def sgn_if pos_imp_zdiv_nonneg_iff)
    with Inr show ?thesis
      by (cases u; cases "checked_add (fst u) (lo_quantity ops l)"; cases "checked_mul (lo_quantity ops l) ratio")
        (auto simp: split_step_def decimal_order)
  qed (cases u; cases "checked_add (fst u) (lo_quantity ops l)"; cases "checked_mul (lo_quantity ops l) ratio";
      simp add: split_step_def)
  then have False
    using Inr by (auto simp: ls try_fold_append and_then_eq_Inr) (metis Inl_Inr_False)
  then show ?thesis ..
qed (simp add: split_lots_def)

text \<open>C33: A stock split that is accepted leaves each side of an instrument with exactly the whole
  position scaled once, whatever each lot loses to rounding, and touches no other instrument. A short
  lot whose opening fee consumed its premium is legal in the book, but while one is open no split of
  its instrument is accepted.\<close>

theorem splits_keep_the_position_exact:
  assumes "b = book_run rfc3339 ops" and "ZERO < ratio"
  shows "(book_apply_split i ratio b = (Ok (), b') \<longrightarrow>
      lots_held long_ops (book_lots b' i) = lots_held long_ops (book_lots b i) * scaled ratio div DECIMAL_SCALE
      \<and> lots_held short_ops (book_short_lots b' i)
          = lots_held short_ops (book_short_lots b i) * scaled ratio div DECIMAL_SCALE
      \<and> (j \<noteq> i \<longrightarrow> book_lots b' j = book_lots b j \<and> book_short_lots b' j = book_short_lots b j))
    \<and> (list_ex (\<lambda>l. st_unit_proceeds l \<le> ZERO) (book_short_lots b i) \<longrightarrow>
        (\<exists>e. book_apply_split i ratio b = (Inl e, b)))"
proof -
  have ok: "book_ok rfc3339 b" unfolding assms(1) by (rule book_run_ok)
  have long: "\<forall>l\<in>set (book_lots b i). ZERO < lo_quantity long_ops l"
    using open_long_lots [OF ok, of i] by (cases "bt_get (tb_lots b) i") (auto simp: book_lots_def long_ops_def)
  have short: "\<forall>l\<in>set (book_short_lots b i). ZERO < lo_quantity short_ops l"
    using open_short_lots [OF ok, of i]
    by (cases "bt_get (tb_short_lots b) i") (auto simp: book_short_lots_def short_ops_def)
  have side: "lots_held ops (case bt_get (put_side i (Some ls') m) i of None \<Rightarrow> [] | Some l \<Rightarrow> l) = lots_held ops ls'"
    for ops :: "'l lot_ops" and ls' m
    by (simp add: put_side_def bt_get_remove bt_get_insert lots_held_def)
  have other: "j \<noteq> i \<Longrightarrow> bt_get (put_side i s m) j = bt_get m j" for s :: "'l list option" and m
    by (simp add: put_side_def bt_get_remove bt_get_insert split: option.splits)
  have "lots_held long_ops (book_lots b' i) = lots_held long_ops (book_lots b i) * scaled ratio div DECIMAL_SCALE
      \<and> lots_held short_ops (book_short_lots b' i)
          = lots_held short_ops (book_short_lots b i) * scaled ratio div DECIMAL_SCALE
      \<and> (j \<noteq> i \<longrightarrow> book_lots b' j = book_lots b j \<and> book_short_lots b' j = book_short_lots b j)"
    if "book_apply_split i ratio b = (Ok (), b')"
  proof -
    from that obtain ls ss where
      l: "split_side long_ops ratio (bt_get (tb_lots b) i) = Inr ls" and
      s: "split_side short_ops ratio (bt_get (tb_short_lots b) i) = Inr ss" and
      b': "b' = b\<lparr>tb_lots := put_side i ls (tb_lots b), tb_short_lots := put_side i ss (tb_short_lots b)\<rparr>"
      by (auto simp: book_apply_split_def split_both_sides_def and_then_eq_Inr split: sum.splits if_splits)
    have "lots_held long_ops (book_lots b' i) = lots_held long_ops (book_lots b i) * scaled ratio div DECIMAL_SCALE"
    proof (cases "bt_get (tb_lots b) i")
      case (Some x)
      with l obtain x' where "ls = Some x'" "split_lots long_ops ratio x = Inr x'"
        by (auto simp: split_side_def and_then_eq_Inr)
      with long_lots.split_lots_exact [OF this(2) assms(2)] long Some side [of long_ops x' "tb_lots b"]
      show ?thesis by (simp add: book_lots_def b')
    qed (use l in \<open>simp add: split_side_def book_lots_def b' put_side_def lots_held_def\<close>)
    moreover have "lots_held short_ops (book_short_lots b' i)
          = lots_held short_ops (book_short_lots b i) * scaled ratio div DECIMAL_SCALE"
    proof (cases "bt_get (tb_short_lots b) i")
      case (Some x)
      with s obtain x' where "ss = Some x'" "split_lots short_ops ratio x = Inr x'"
        by (auto simp: split_side_def and_then_eq_Inr)
      with short_lots.split_lots_exact [OF this(2) assms(2)] short Some side [of short_ops x' "tb_short_lots b"]
      show ?thesis by (simp add: book_short_lots_def b')
    qed (use s in \<open>simp add: split_side_def book_short_lots_def b' put_side_def lots_held_def\<close>)
    ultimately show ?thesis
      using other [of ls "tb_lots b"] other [of ss "tb_short_lots b"]
      by (simp add: book_lots_def book_short_lots_def b')
  qed
  moreover have "\<exists>e. book_apply_split i ratio b = (Inl e, b)"
    if "list_ex (\<lambda>l. st_unit_proceeds l \<le> ZERO) (book_short_lots b i)"
  proof -
    from that obtain x l where x: "bt_get (tb_short_lots b) i = Some x" "l \<in> set x" "st_unit_proceeds l \<le> ZERO"
      by (cases "bt_get (tb_short_lots b) i") (auto simp: book_short_lots_def list_ex_iff)
    have "\<exists>e. split_lots short_ops ratio x = Inl e"
      by (rule nonpositive_price_refuses_split [OF x(2) _ assms(2)]) (use x(3) in \<open>simp add: short_ops_def\<close>)
    then have "\<exists>e. split_side short_ops ratio (bt_get (tb_short_lots b) i) = Inl e"
      by (auto simp: split_side_def x(1))
    then have "\<exists>e. split_both_sides i ratio b = Inl e"
      by (cases "validate_canonical_id ''tax lot split instrument_id'' i";
          cases "split_side long_ops ratio (bt_get (tb_lots b) i)") (auto simp: split_both_sides_def)
    then show ?thesis by (auto simp: book_apply_split_def)
  qed
  ultimately show ?thesis by blast
qed

text \<open>A short opened below cost: its premium did not cover the fee.\<close>

definition sample_short :: short_tax_lot where
  "sample_short = \<lparr>st_lot_id = ''s'', st_instrument_id = ''y'', st_currency = Currency ''USD'',
     st_opened_at = ''2026-01-02T00:00:00Z'', st_remaining_quantity = Decimal 100000000,
     st_unit_proceeds = Decimal (- 5)\<rparr>"

definition sample_mixed_book :: tax_lot_book where
  "sample_mixed_book = book_run (\<lambda>_. True) (OpenShortLot sample_short # sample_purchases)"

lemma sample_mixed_lots:
  "book_short_lots sample_mixed_book ''y'' = [sample_short]"
  "map tl_remaining_quantity (book_lots sample_mixed_book ''x'') = [Decimal 100000000, Decimal 100000000]"
  "fst (book_apply_split ''x'' (Decimal 33333333) sample_mixed_book) = Ok ()"
  by code_simp+

theorem splits_keep_the_position_exact_witness:
  "lots_held long_ops (book_lots (snd (book_apply_split ''x'' (Decimal 33333333) sample_mixed_book)) ''x'') = 66666666
    \<and> (\<exists>e. book_apply_split ''y'' (Decimal 200000000) sample_mixed_book = (Inl e, sample_mixed_book))"
proof
  have split: "book_apply_split ''x'' (Decimal 33333333) sample_mixed_book =
      (Ok (), snd (book_apply_split ''x'' (Decimal 33333333) sample_mixed_book))"
    by (metis sample_mixed_lots(3) prod.collapse)
  have "lots_held long_ops (book_lots sample_mixed_book ''x'') =
      (\<Sum>q\<leftarrow>map tl_remaining_quantity (book_lots sample_mixed_book ''x''). scaled q)"
    by (simp add: lots_held_def long_ops_def comp_def)
  also have "\<dots> = 200000000" unfolding sample_mixed_lots(2) by simp
  finally show "lots_held long_ops (book_lots (snd (book_apply_split ''x'' (Decimal 33333333) sample_mixed_book)) ''x'')
      = 66666666"
    using splits_keep_the_position_exact [OF sample_mixed_book_def, of "Decimal 33333333" "''x''"
        "snd (book_apply_split ''x'' (Decimal 33333333) sample_mixed_book)" "''z''"] split
    by (simp add: decimal_order DECIMAL_SCALE_def)
  show "\<exists>e. book_apply_split ''y'' (Decimal 200000000) sample_mixed_book = (Inl e, sample_mixed_book)"
    using splits_keep_the_position_exact [OF sample_mixed_book_def, of "Decimal 200000000" "''y''"]
    by (simp add: sample_mixed_lots(1) sample_short_def decimal_order)
qed

end
