(* ===== verification/Fx.thy ===== *)
theory Fx
  imports OrderedMap Identifiers "HOL-Library.Product_Lexorder" "HOL-Library.Multiset"
begin

text \<open>
  Component: foreign exchange reference and pricing (\<^verbatim>\<open>core/fx/src/lib.rs\<close>). The parser of the
  \<^verbatim>\<open>time\<close> crate is the parameter \<open>epoch\<close>: the Unix second of a text it accepts as RFC 3339, so that
  \<open>valid_time epoch\<close> is what \<^verbatim>\<open>validate_utc_timestamp\<close> asks of it. The lemmas show that a pricing
  book does not depend on the order of its snapshots, what the selected mark is, and that the
  record a dataset is addressed by determines the snapshot.
\<close>

definition valid_time :: "(string \<Rightarrow> int option) \<Rightarrow> string \<Rightarrow> bool" where
  "valid_time epoch s \<longleftrightarrow> epoch s \<noteq> None"

section \<open>Products, pairs, dates, quotes\<close>

datatype fx_product = FxSpot | FxForward | FxSwap

fun fx_product_as_str :: "fx_product \<Rightarrow> string" where
  "fx_product_as_str FxSpot = ''FX_SPOT''"
| "fx_product_as_str FxForward = ''FX_FORWARD''"
| "fx_product_as_str FxSwap = ''FX_SWAP''"

fun fx_risk_bucket :: "fx_product \<Rightarrow> string" where
  "fx_risk_bucket FxSpot = ''fx_spot''"
| "fx_risk_bucket FxForward = ''fx_forward''"
| "fx_risk_bucket FxSwap = ''fx_swap''"

record fx_pair =
  fxp_base_currency :: string
  fxp_quote_currency :: string

definition fx_pair_validate :: "fx_pair \<Rightarrow> unit result" where
  "fx_pair_validate p =
     and_then (try_each (\<lambda>(name, currency).
         if length currency \<noteq> 3 \<or> \<not> list_all is_ascii_uppercase currency
         then Err (name @ '' must be an uppercase three-letter code'') else Ok ())
       [(''FX base currency'', fxp_base_currency p), (''FX quote currency'', fxp_quote_currency p)]) (\<lambda>_.
     if fxp_base_currency p = fxp_quote_currency p
     then Err ''FX base and quote currencies must differ'' else Ok ())"

definition fx_pair_new :: "string \<Rightarrow> string \<Rightarrow> fx_pair result" where
  "fx_pair_new base_currency quote_currency =
     (let pair = \<lparr>fxp_base_currency = base_currency, fxp_quote_currency = quote_currency\<rparr> in
      and_then (fx_pair_validate pair) (\<lambda>_. Ok pair))"

definition fx_pair_key :: "fx_pair \<Rightarrow> string" where
  "fx_pair_key p = fxp_base_currency p @ ''/'' @ fxp_quote_currency p"

datatype fx_value_date = FxValueDate (date_text: string)

definition fx_date_validate :: "(string \<Rightarrow> int option) \<Rightarrow> fx_value_date \<Rightarrow> unit result" where
  "fx_date_validate epoch d =
     (let s = date_text d in
      if length s \<noteq> 10 \<or> s ! 4 \<noteq> CHR ''-'' \<or> s ! 7 \<noteq> CHR ''-''
      then Err ''FX value date must use canonical YYYY-MM-DD form''
      else validate_utc_timestamp (valid_time epoch) ''FX value date'' (s @ ''T00:00:00Z''))"

definition fx_date_new :: "(string \<Rightarrow> int option) \<Rightarrow> string \<Rightarrow> fx_value_date result" where
  "fx_date_new epoch value = and_then (fx_date_validate epoch (FxValueDate value)) (\<lambda>_. Ok (FxValueDate value))"

record fx_quote =
  fxq_bid :: decimal
  fxq_ask :: decimal

definition fx_quote_validate :: "fx_quote \<Rightarrow> unit result" where
  "fx_quote_validate q =
     (if fxq_bid q \<le> ZERO \<or> fxq_ask q < fxq_bid q
      then Err ''FX quote requires positive bid and ask >= bid'' else Ok ())"

definition fx_quote_midpoint :: "fx_quote \<Rightarrow> decimal result" where
  "fx_quote_midpoint q =
     and_then (fx_quote_validate q) (\<lambda>_.
     and_then (checked_add (fxq_bid q) (fxq_ask q)) (\<lambda>total.
     and_then (from_integer 2) (\<lambda>two. checked_div total two)))"

datatype fx_terms =
    FxOutright fx_value_date fx_quote
  | FxSwapLegs fx_value_date fx_value_date fx_quote fx_quote

definition fx_terms_validate_for :: "(string \<Rightarrow> int option) \<Rightarrow> fx_product \<Rightarrow> fx_terms \<Rightarrow> unit result" where
  "fx_terms_validate_for epoch product terms =
     (case (product, terms) of
        (FxSwap, FxSwapLegs near_value_date far_value_date near_quote far_quote) \<Rightarrow>
          and_then (fx_date_validate epoch near_value_date) (\<lambda>_.
          and_then (fx_date_validate epoch far_value_date) (\<lambda>_.
          if date_text near_value_date \<ge> date_text far_value_date
          then Err ''FX swap near value date must precede far value date''
          else and_then (fx_quote_validate near_quote) (\<lambda>_. fx_quote_validate far_quote)))
      | (FxSpot, FxOutright value_date quote) \<Rightarrow>
          and_then (fx_date_validate epoch value_date) (\<lambda>_. fx_quote_validate quote)
      | (FxForward, FxOutright value_date quote) \<Rightarrow>
          and_then (fx_date_validate epoch value_date) (\<lambda>_. fx_quote_validate quote)
      | _ \<Rightarrow> Err ''FX pricing terms do not match the product kind'')"

section \<open>Snapshots\<close>

record fx_snapshot =
  fxs_snapshot_id :: string
  fxs_reference_version :: string
  fxs_instrument_id :: string
  fxs_product :: fx_product
  fxs_pair :: fx_pair
  fxs_terms :: fx_terms
  fxs_source_id :: string
  fxs_source_sequence :: nat
  fxs_source_time :: string
  fxs_received_at :: string

definition fx_snapshot_validate :: "(string \<Rightarrow> int option) \<Rightarrow> fx_snapshot \<Rightarrow> unit result" where
  "fx_snapshot_validate epoch s =
     and_then (try_each (\<lambda>(name, v). validate_canonical_id name v)
       [(''FX snapshot_id'', fxs_snapshot_id s), (''FX reference_version'', fxs_reference_version s),
        (''FX instrument_id'', fxs_instrument_id s), (''FX source_id'', fxs_source_id s)]) (\<lambda>_.
     and_then (fx_pair_validate (fxs_pair s)) (\<lambda>_.
     and_then (fx_terms_validate_for epoch (fxs_product s) (fxs_terms s)) (\<lambda>_.
     and_then (validate_utc_timestamp (valid_time epoch) ''FX source_time'' (fxs_source_time s)) (\<lambda>_.
     and_then (validate_utc_timestamp (valid_time epoch) ''FX received_at'' (fxs_received_at s)) (\<lambda>_.
     if fxs_source_time s > fxs_received_at s
     then Err ''FX source time cannot follow received time'' else Ok ())))))"

definition parse_utc :: "(string \<Rightarrow> int option) \<Rightarrow> string \<Rightarrow> int result" where
  "parse_utc epoch value = ok_or (epoch value) ''invalid canonical FX UTC timestamp''"

definition fx_ensure_fresh :: "(string \<Rightarrow> int option) \<Rightarrow> string \<Rightarrow> string \<Rightarrow> int \<Rightarrow> unit result" where
  "fx_ensure_fresh epoch received_at as_of maximum_age_seconds =
     (if maximum_age_seconds < 0 then Err ''FX maximum quote age cannot be negative''
      else and_then (validate_utc_timestamp (valid_time epoch) ''FX pricing as_of'' as_of) (\<lambda>_.
        and_then (parse_utc epoch received_at) (\<lambda>received.
        and_then (parse_utc epoch as_of) (\<lambda>evaluation.
        and_then (ok_or (i64_checked (evaluation - received)) ''FX quote age overflow'') (\<lambda>age.
        if age < 0 \<or> age > maximum_age_seconds
        then Err ''FX price is unavailable or stale at evaluation time'' else Ok ())))))"

text \<open>The quote a snapshot holds for a value date; of a swap the near leg is tried first.\<close>

definition quote_for :: "fx_terms \<Rightarrow> fx_value_date \<Rightarrow> fx_quote option" where
  "quote_for terms value_date =
     (case terms of
        FxOutright d q \<Rightarrow> if d = value_date then Some q else None
      | FxSwapLegs near far near_quote far_quote \<Rightarrow>
          if near = value_date then Some near_quote
          else if far = value_date then Some far_quote else None)"

definition fx_snapshot_midpoint_at ::
    "(string \<Rightarrow> int option) \<Rightarrow> fx_snapshot \<Rightarrow> fx_value_date \<Rightarrow> string \<Rightarrow> int \<Rightarrow> decimal result" where
  "fx_snapshot_midpoint_at epoch s value_date as_of maximum_age_seconds =
     and_then (fx_snapshot_validate epoch s) (\<lambda>_.
     and_then (fx_ensure_fresh epoch (fxs_received_at s) as_of maximum_age_seconds) (\<lambda>_.
     case quote_for (fxs_terms s) value_date of
       Some quote \<Rightarrow> fx_quote_midpoint quote
     | None \<Rightarrow> Err ''FX pricing snapshot does not contain the requested value date''))"

fun terms_parts :: "fx_terms \<Rightarrow> string list" where
  "terms_parts (FxOutright value_date quote) =
     [''OUTRIGHT'', date_text value_date, decimal_to_string (fxq_bid quote), decimal_to_string (fxq_ask quote)]"
| "terms_parts (FxSwapLegs near_value_date far_value_date near_quote far_quote) =
     [''SWAP'', date_text near_value_date, date_text far_value_date,
      decimal_to_string (fxq_bid near_quote), decimal_to_string (fxq_ask near_quote),
      decimal_to_string (fxq_bid far_quote), decimal_to_string (fxq_ask far_quote)]"

definition fx_canonical_record :: "(string \<Rightarrow> int option) \<Rightarrow> fx_snapshot \<Rightarrow> string result" where
  "fx_canonical_record epoch s =
     and_then (fx_snapshot_validate epoch s) (\<lambda>_.
     Ok (join ''|''
       [''FX_PRICE_V1'', fxs_snapshot_id s, fxs_reference_version s, fxs_instrument_id s,
        fx_product_as_str (fxs_product s), fx_pair_key (fxs_pair s), join ''|'' (terms_parts (fxs_terms s)),
        fxs_source_id s, show_nat (fxs_source_sequence s), fxs_source_time s, fxs_received_at s]))"

definition received_at_epoch_seconds :: "(string \<Rightarrow> int option) \<Rightarrow> fx_snapshot \<Rightarrow> int result" where
  "received_at_epoch_seconds epoch s =
     and_then (fx_snapshot_validate epoch s) (\<lambda>_. parse_utc epoch (fxs_received_at s))"

section \<open>The pricing book\<close>

type_synonym fx_pricing_book = "(string, fx_snapshot) btree_map"

definition source_identity :: "fx_snapshot \<Rightarrow> string \<times> string \<times> nat" where
  "source_identity s = (fxs_instrument_id s, fxs_source_id s, fxs_source_sequence s)"

definition add_snapshot :: "(string \<Rightarrow> int option) \<Rightarrow> fx_snapshot
    \<Rightarrow> (string \<times> string \<times> nat) btree_set \<times> fx_pricing_book
    \<Rightarrow> ((string \<times> string \<times> nat) btree_set \<times> fx_pricing_book) result" where
  "add_snapshot epoch s = (\<lambda>(source_identities, book).
     and_then (fx_snapshot_validate epoch s) (\<lambda>_.
     if bs_contains (source_identity s) source_identities
     then Err ''FX pricing book has ambiguous source sequence evidence''
     else if bt_get book (fxs_snapshot_id s) \<noteq> None
     then Err ''FX pricing book has duplicate snapshot_id''
     else Ok (bs_insert (source_identity s) source_identities, bt_insert (fxs_snapshot_id s) s book)))"

definition from_snapshots :: "(string \<Rightarrow> int option) \<Rightarrow> fx_snapshot list \<Rightarrow> fx_pricing_book result" where
  "from_snapshots epoch snapshots = and_then (try_fold (add_snapshot epoch) snapshots ([], [])) (\<lambda>(_, book). Ok book)"

definition mark_eligible :: "(string \<Rightarrow> int option) \<Rightarrow> string \<Rightarrow> fx_product \<Rightarrow> fx_value_date \<Rightarrow> string \<Rightarrow> int
    \<Rightarrow> fx_snapshot \<Rightarrow> bool" where
  "mark_eligible epoch instrument_id product value_date as_of maximum_age_seconds s \<longleftrightarrow>
     fxs_instrument_id s = instrument_id \<and> fxs_product s = product \<and> fxs_received_at s \<le> as_of
     \<and> is_ok (fx_snapshot_midpoint_at epoch s value_date as_of maximum_age_seconds)"

definition recency :: "fx_snapshot \<Rightarrow> string \<times> string \<times> nat \<times> string" where
  "recency s = (fxs_received_at s, fxs_source_time s, fxs_source_sequence s, fxs_snapshot_id s)"

text \<open>\<^verbatim>\<open>max_by\<close> keeps the later of two equal elements.\<close>

definition latest :: "fx_snapshot list \<Rightarrow> fx_snapshot option" where
  "latest ss = fold (\<lambda>s best. case best of None \<Rightarrow> Some s
     | Some b \<Rightarrow> if recency b > recency s then Some b else Some s) ss None"

definition fx_book_midpoint_at :: "(string \<Rightarrow> int option) \<Rightarrow> fx_pricing_book \<Rightarrow> string \<Rightarrow> fx_product
    \<Rightarrow> fx_value_date \<Rightarrow> string \<Rightarrow> int \<Rightarrow> (string \<times> decimal) result" where
  "fx_book_midpoint_at epoch book instrument_id product value_date as_of maximum_age_seconds =
     and_then (validate_canonical_id ''FX instrument_id'' instrument_id) (\<lambda>_.
     and_then (validate_utc_timestamp (valid_time epoch) ''FX pricing as_of'' as_of) (\<lambda>_.
     if maximum_age_seconds < 0 then Err ''FX maximum quote age cannot be negative''
     else and_then (ok_or (latest (filter
           (mark_eligible epoch instrument_id product value_date as_of maximum_age_seconds) (map snd book)))
         ''missing fresh FX pricing snapshot'') (\<lambda>candidate.
       and_then (fx_snapshot_midpoint_at epoch candidate value_date as_of maximum_age_seconds) (\<lambda>mid.
       Ok (fxs_snapshot_id candidate, mid)))))"

section \<open>Quotes and freshness\<close>

lemma fx_quote_validate_eq_Ok [result_simps]:
  "fx_quote_validate q = Inr u \<longleftrightarrow> ZERO < fxq_bid q \<and> fxq_bid q \<le> fxq_ask q"
  by (auto simp: fx_quote_validate_def)

text \<open>The midpoint is the mean of bid and ask rounded down, so it never leaves the spread.\<close>

lemma fx_quote_midpoint_Ok:
  assumes "fx_quote_midpoint q = Inr m"
  shows "ZERO < fxq_bid q" "fxq_bid q \<le> m" "m \<le> fxq_ask q"
    "scaled m = (scaled (fxq_bid q) + scaled (fxq_ask q)) div 2"
proof -
  from assms obtain total where q: "ZERO < fxq_bid q" "fxq_bid q \<le> fxq_ask q"
    and total: "checked_add (fxq_bid q) (fxq_ask q) = Inr total" and m: "checked_div total (Decimal 200000000) = Inr m"
    by (auto simp: fx_quote_midpoint_def and_then_eq_Inr fx_quote_validate_eq_Ok)
  from total have sum: "scaled total = scaled (fxq_bid q) + scaled (fxq_ask q)"
    by (auto simp: checked_add_eq_Ok)
  with q have "0 \<le> scaled total" by (simp add: decimal_cmp)
  with checked_div_pos [OF m] show mid: "scaled m = (scaled (fxq_bid q) + scaled (fxq_ask q)) div 2"
    by (simp add: sum DECIMAL_SCALE_def zdiv_zmult2_eq [symmetric])
  from q mid show "ZERO < fxq_bid q" "fxq_bid q \<le> m" "m \<le> fxq_ask q"
    by (simp_all add: decimal_cmp)
qed

lemma fx_ensure_fresh_eq_Ok [result_simps]:
  "fx_ensure_fresh epoch received_at as_of maximum_age = Inr u \<longleftrightarrow>
     canonical_shape as_of \<and> (\<exists>r e. epoch received_at = Some r \<and> epoch as_of = Some e \<and>
       r \<le> e \<and> e - r \<le> maximum_age \<and> in_i64 (e - r))"
  by (cases "epoch received_at"; cases "epoch as_of")
    (auto simp: fx_ensure_fresh_def parse_utc_def and_then_eq_Inr validate_utc_timestamp_eq_Ok valid_time_def
      i64_checked_def ok_or_def split: if_splits)

section \<open>Which books can be built, and what they hold\<close>

lemma add_snapshot_eq_Ok:
  "add_snapshot epoch s (ids, book) = Inr r \<longleftrightarrow>
     fx_snapshot_validate epoch s = Inr () \<and> source_identity s \<notin> set ids \<and> bt_get book (fxs_snapshot_id s) = None
     \<and> r = (bs_insert (source_identity s) ids, bt_insert (fxs_snapshot_id s) s book)"
  by (auto simp: add_snapshot_def and_then_eq_Inr bs_contains_def)

text \<open>The loop succeeds exactly on valid snapshots with distinct identities, whatever their order.\<close>

definition buildable :: "(string \<Rightarrow> int option) \<Rightarrow> fx_snapshot list \<Rightarrow> bool" where
  "buildable epoch ss \<longleftrightarrow> (\<forall>s\<in>set ss. fx_snapshot_validate epoch s = Inr ())
     \<and> distinct (map source_identity ss) \<and> distinct (map fxs_snapshot_id ss)"

lemma add_snapshots_eq_Ok:
  assumes "bt_sorted book"
  shows "try_fold (add_snapshot epoch) ss (ids, book) = Inr (ids', book') \<longleftrightarrow>
    buildable epoch ss \<and> (\<forall>s\<in>set ss. source_identity s \<notin> set ids \<and> bt_get book (fxs_snapshot_id s) = None)
    \<and> (ids', book') = (fold (\<lambda>s. bs_insert (source_identity s)) ss ids,
        fold (\<lambda>s. bt_insert (fxs_snapshot_id s) s) ss book)"
  using assms
proof (induction ss arbitrary: ids book)
  case (Cons s ss)
  have "try_fold (add_snapshot epoch) (s # ss) (ids, book) = Inr (ids', book') \<longleftrightarrow>
    fx_snapshot_validate epoch s = Inr () \<and> source_identity s \<notin> set ids \<and> bt_get book (fxs_snapshot_id s) = None
    \<and> try_fold (add_snapshot epoch) ss
        (bs_insert (source_identity s) ids, bt_insert (fxs_snapshot_id s) s book) = Inr (ids', book')"
    by (auto simp: and_then_eq_Inr add_snapshot_eq_Ok)
  then show ?case
    by (auto simp: Cons.IH [OF bt_sorted_insert [OF Cons.prems]] bt_get_insert buildable_def image_iff split: if_splits)
qed (auto simp: buildable_def)

lemma fold_bt_insert:
  assumes "bt_sorted book" "distinct (map fxs_snapshot_id ss)"
  shows "bt_sorted (fold (\<lambda>s. bt_insert (fxs_snapshot_id s) s) ss book)
    \<and> bt_get (fold (\<lambda>s. bt_insert (fxs_snapshot_id s) s) ss book) k =
      (case find (\<lambda>s. fxs_snapshot_id s = k) ss of Some s \<Rightarrow> Some s | None \<Rightarrow> bt_get book k)"
  using assms
proof (induction ss arbitrary: book)
  case (Cons s ss)
  then have "find (\<lambda>t. fxs_snapshot_id t = fxs_snapshot_id s) ss = None"
    by (auto simp: find_None_iff image_iff)
  with Cons show ?case
    by (auto simp: bt_sorted_insert bt_get_insert split: option.splits)
qed simp

lemma from_snapshots_eq_Ok:
  "from_snapshots epoch ss = Inr book \<longleftrightarrow>
     buildable epoch ss \<and> book = fold (\<lambda>s. bt_insert (fxs_snapshot_id s) s) ss []"
  by (auto simp: from_snapshots_def and_then_eq_Inr add_snapshots_eq_Ok [of "[]", simplified bt_sorted_def, simplified])

lemma find_unique:
  "distinct (map f xs) \<Longrightarrow> find (\<lambda>x. f x = k) xs = Some x \<longleftrightarrow> x \<in> set xs \<and> f x = k"
  by (induction xs) (auto simp: image_iff)

lemma book_holds:
  assumes "from_snapshots epoch ss = Inr book"
  shows "bt_sorted book" "bt_get book k = Some s \<longleftrightarrow> s \<in> set ss \<and> fxs_snapshot_id s = k"
    "set (map snd book) = set ss"
proof -
  from assms have d: "distinct (map fxs_snapshot_id ss)"
    and book: "book = fold (\<lambda>s. bt_insert (fxs_snapshot_id s) s) ss []"
    by (simp_all add: from_snapshots_eq_Ok buildable_def)
  have Nil: "bt_sorted ([] :: fx_pricing_book)" by (simp add: bt_sorted_def)
  note F = fold_bt_insert [OF Nil d]
  from F show sorted: "bt_sorted book" unfolding book by blast
  have get: "bt_get book k = Some s \<longleftrightarrow> s \<in> set ss \<and> fxs_snapshot_id s = k" for k s
    using F [of k] find_unique [OF d, of k s] unfolding book by (auto split: option.splits)
  then show "bt_get book k = Some s \<longleftrightarrow> s \<in> set ss \<and> fxs_snapshot_id s = k" .
  have "s \<in> snd ` set book \<longleftrightarrow> (\<exists>k. bt_get book k = Some s)" for s
    using bt_get_iff [OF sorted] by (force simp: image_iff)
  with get show "set (map snd book) = set ss" by auto
qed

section \<open>The selected mark\<close>

lemma latest_Some:
  assumes "latest ss = Some b"
  shows "b \<in> set ss \<and> (\<forall>s\<in>set ss. recency s \<le> recency b)"
proof -
  let ?step = "\<lambda>s best. case best of None \<Rightarrow> Some s
     | Some b \<Rightarrow> if recency b > recency s then Some b else Some s"
  have "fold ?step ss best = Some b \<Longrightarrow> b \<in> set ss \<union> set_option best
      \<and> (\<forall>s\<in>set ss \<union> set_option best. recency s \<le> recency b)" for best
  proof (induction ss arbitrary: best)
    case (Cons s ss)
    from Cons.IH [of "?step s best"] Cons.prems show ?case
      by (cases best) (fastforce split: if_splits)+
  qed simp
  from this [of None] assms show ?thesis by (simp add: latest_def)
qed

lemma latest_None: "latest ss = None \<longleftrightarrow> ss = []"
proof -
  let ?step = "\<lambda>s best. case best of None \<Rightarrow> Some s
     | Some b \<Rightarrow> if recency b > recency s then Some b else Some s"
  have "fold ?step ss (Some b) \<noteq> None" for b and ss :: "fx_snapshot list"
    by (induction ss arbitrary: b) auto
  from this [of "tl ss" "hd ss"] show ?thesis by (cases ss) (simp_all add: latest_def)
qed

lemma distinct_map_mset: "mset xs = mset ys \<Longrightarrow> distinct (map f xs) \<longleftrightarrow> distinct (map f ys)"
  by (rule mset_eq_imp_distinct_iff) simp

lemma fx_snapshot_midpoint_at_Ok:
  assumes "fx_snapshot_midpoint_at epoch s d as_of age = Inr m"
  shows "fx_snapshot_validate epoch s = Inr ()"
    "\<exists>r e. epoch (fxs_received_at s) = Some r \<and> epoch as_of = Some e \<and> r \<le> e \<and> e - r \<le> age"
    "\<exists>q. quote_for (fxs_terms s) d = Some q \<and> fx_quote_midpoint q = Inr m"
  using assms
  by (auto simp: fx_snapshot_midpoint_at_def and_then_eq_Inr fx_ensure_fresh_eq_Ok split: option.splits)

lemma fx_mark_sound_parts:
  assumes "from_snapshots epoch ss = Ok book"
    and "fx_book_midpoint_at epoch book instrument_id product value_date as_of age = Ok (chosen, mark)"
    and "mset ss' = mset ss"
  shows "from_snapshots epoch ss' = Ok book"
    and "\<exists>s\<in>set ss. fxs_snapshot_id s = chosen \<and> fxs_instrument_id s = instrument_id \<and> fxs_product s = product
      \<and> fxs_received_at s \<le> as_of
      \<and> (\<exists>received now. epoch (fxs_received_at s) = Some received \<and> epoch as_of = Some now
          \<and> received \<le> now \<and> now - received \<le> age)
      \<and> (\<exists>q. quote_for (fxs_terms s) value_date = Some q \<and> ZERO < fxq_bid q \<and> fxq_bid q \<le> mark
          \<and> mark \<le> fxq_ask q)
      \<and> (\<forall>t\<in>set ss. mark_eligible epoch instrument_id product value_date as_of age t \<longrightarrow> recency t \<le> recency s)"
proof -
  have same: "set ss' = set ss" using assms(3) by (metis set_mset_mset)
  then have "buildable epoch ss'"
    using assms(1) distinct_map_mset [OF assms(3), of source_identity] distinct_map_mset [OF assms(3), of fxs_snapshot_id] by (simp add: from_snapshots_eq_Ok buildable_def del: distinct_map)
  then obtain book' where book': "from_snapshots epoch ss' = Ok book'"
    by (simp add: from_snapshots_eq_Ok)
  have "book' = book"
  proof (rule bt_ext)
    show "bt_get book' k = bt_get book k" for k
      using book_holds(2) [OF book'] book_holds(2) [OF assms(1)] same
      by (metis (no_types, lifting) option.exhaust)
  qed (rule book_holds(1) [OF book'] book_holds(1) [OF assms(1)])+
  with book' show "from_snapshots epoch ss' = Ok book" by simp
  let ?eligible = "mark_eligible epoch instrument_id product value_date as_of age"
  from assms(2) obtain s where s: "latest (filter ?eligible (map snd book)) = Some s"
    and mark: "fx_snapshot_midpoint_at epoch s value_date as_of age = Inr mark" and id: "fxs_snapshot_id s = chosen"
    by (auto simp: fx_book_midpoint_at_def and_then_eq_Inr ok_or_eq_Ok split: if_splits)
  from latest_Some [OF s] have "?eligible s" "s \<in> set ss" and most: "\<forall>t\<in>set ss. ?eligible t \<longrightarrow> recency t \<le> recency s"
    using book_holds(3) [OF assms(1)] by auto
  moreover from fx_snapshot_midpoint_at_Ok [OF mark] obtain q where
    "quote_for (fxs_terms s) value_date = Some q" "fx_quote_midpoint q = Inr mark" by auto
  moreover from this(2) have "ZERO < fxq_bid q" "fxq_bid q \<le> mark" "mark \<le> fxq_ask q"
    by (rule fx_quote_midpoint_Ok)+
  ultimately show "\<exists>s\<in>set ss. fxs_snapshot_id s = chosen \<and> fxs_instrument_id s = instrument_id \<and> fxs_product s = product
      \<and> fxs_received_at s \<le> as_of
      \<and> (\<exists>received now. epoch (fxs_received_at s) = Some received \<and> epoch as_of = Some now
          \<and> received \<le> now \<and> now - received \<le> age)
      \<and> (\<exists>q. quote_for (fxs_terms s) value_date = Some q \<and> ZERO < fxq_bid q \<and> fxq_bid q \<le> mark
          \<and> mark \<le> fxq_ask q)
      \<and> (\<forall>t\<in>set ss. ?eligible t \<longrightarrow> recency t \<le> recency s)"
    using id fx_snapshot_midpoint_at_Ok(2) [OF mark] unfolding mark_eligible_def by blast
qed

text \<open>The mark of a pricing book does not depend on the order its snapshots arrived in, and it
  is the mark of the most recent eligible one: a snapshot of the instrument and product that was
  received no later than the evaluation and no longer ago than allowed, whose own quote for the
  value date has the mark between its positive bid and its ask.\<close>

theorem fx_mark_sound:
  assumes "from_snapshots epoch ss = Ok book"
    and "fx_book_midpoint_at epoch book instrument_id product value_date as_of age = Ok (chosen, mark)"
    and "mset ss' = mset ss"
  shows "from_snapshots epoch ss' = Ok book
    \<and> (\<exists>s\<in>set ss. fxs_snapshot_id s = chosen \<and> fxs_instrument_id s = instrument_id \<and> fxs_product s = product
      \<and> fxs_received_at s \<le> as_of
      \<and> (\<exists>received now. epoch (fxs_received_at s) = Some received \<and> epoch as_of = Some now
          \<and> received \<le> now \<and> now - received \<le> age)
      \<and> (\<exists>q. quote_for (fxs_terms s) value_date = Some q \<and> ZERO < fxq_bid q \<and> fxq_bid q \<le> mark
          \<and> mark \<le> fxq_ask q)
      \<and> (\<forall>t\<in>set ss. mark_eligible epoch instrument_id product value_date as_of age t \<longrightarrow> recency t \<le> recency s))"
  using fx_mark_sound_parts [OF assms] by blast

definition sample_seconds :: "string \<Rightarrow> int option" where
  "sample_seconds s = (if canonical_shape s then Some (int (digits_value (take 2 (drop 17 s)))) else None)"

definition sample_fx_snapshot :: "string \<Rightarrow> nat \<Rightarrow> string \<Rightarrow> int \<Rightarrow> fx_snapshot" where
  "sample_fx_snapshot sid sequence received bid = \<lparr>fxs_snapshot_id = sid, fxs_reference_version = ''v1'',
     fxs_instrument_id = ''fx.eurusd'', fxs_product = FxSpot,
     fxs_pair = \<lparr>fxp_base_currency = ''EUR'', fxp_quote_currency = ''USD''\<rparr>,
     fxs_terms = FxOutright (FxValueDate ''2026-03-04'') \<lparr>fxq_bid = Decimal bid, fxq_ask = Decimal (bid + 5)\<rparr>,
     fxs_source_id = ''feed'', fxs_source_sequence = sequence, fxs_source_time = ''2026-03-02T10:00:00Z'',
     fxs_received_at = received\<rparr>"

definition sample_fx_snapshots :: "fx_snapshot list" where
  "sample_fx_snapshots = [sample_fx_snapshot ''s1'' 1 ''2026-03-02T10:00:05Z'' 110000000,
     sample_fx_snapshot ''s2'' 2 ''2026-03-02T10:00:07Z'' 120000000,
     sample_fx_snapshot ''s3'' 3 ''2026-03-02T10:00:20Z'' 130000000]"

theorem fx_mark_sound_witness:
  "(case from_snapshots sample_seconds sample_fx_snapshots of Inl _ \<Rightarrow> False
    | Inr book \<Rightarrow> from_snapshots sample_seconds (rev sample_fx_snapshots) = Ok book
      \<and> fx_book_midpoint_at sample_seconds book ''fx.eurusd'' FxSpot (FxValueDate ''2026-03-04'')
          ''2026-03-02T10:00:10Z'' 4 = Ok (''s2'', Decimal 120000002))"
proof -
  have run: "(case from_snapshots sample_seconds sample_fx_snapshots of Inl _ \<Rightarrow> False
    | Inr book \<Rightarrow> fx_book_midpoint_at sample_seconds book ''fx.eurusd'' FxSpot (FxValueDate ''2026-03-04'')
          ''2026-03-02T10:00:10Z'' 4 = Ok (''s2'', Decimal 120000002))"
    by code_simp
  then obtain book where "from_snapshots sample_seconds sample_fx_snapshots = Ok book"
    and "fx_book_midpoint_at sample_seconds book ''fx.eurusd'' FxSpot (FxValueDate ''2026-03-04'')
          ''2026-03-02T10:00:10Z'' 4 = Ok (''s2'', Decimal 120000002)"
    by (auto split: sum.splits)
  with fx_mark_sound [OF this, of "rev sample_fx_snapshots"] show ?thesis by simp
qed

section \<open>The canonical record\<close>

lemma join_nested: "ts \<noteq> [] \<Longrightarrow> join c (as @ join c ts # bs) = join c (as @ ts @ bs)"
proof (induction as)
  case Nil
  then show ?case
  proof (induction ts rule: list_nonempty_induct)
    case (cons t ts)
    then show ?case by (simp add: join_Cons split: if_splits)
  qed simp
qed (simp add: join_Cons)

lemma canonical_date_bytes:
  assumes "fx_date_validate epoch d = Inr u"
  shows "date_text d \<noteq> [] \<and> CHR ''|'' \<notin> set (date_text d)"
proof -
  from assms have len: "length (date_text d) = 10"
    and shape: "canonical_shape (date_text d @ ''T00:00:00Z'')"
    by (auto simp: fx_date_validate_def Let_def validate_utc_timestamp_eq_Ok split: if_splits)
  from canonical_timestamp_no_bar [OF shape] len show ?thesis by auto
qed

text \<open>The parts of a record, and that none of them is empty or holds the separator.\<close>

definition record_parts :: "fx_snapshot \<Rightarrow> string list" where
  "record_parts s = [''FX_PRICE_V1'', fxs_snapshot_id s, fxs_reference_version s, fxs_instrument_id s,
     fx_product_as_str (fxs_product s), fx_pair_key (fxs_pair s)] @ terms_parts (fxs_terms s)
     @ [fxs_source_id s, show_nat (fxs_source_sequence s), fxs_source_time s, fxs_received_at s]"

lemma fx_canonical_record_eq_Ok:
  "fx_canonical_record epoch s = Inr r \<longleftrightarrow>
     fx_snapshot_validate epoch s = Inr () \<and> r = join ''|'' (record_parts s)"
proof -
  have "terms_parts (fxs_terms s) \<noteq> []" by (cases "fxs_terms s") simp_all
  note nested = join_nested [OF this, of "''|''" "[''FX_PRICE_V1'', fxs_snapshot_id s, fxs_reference_version s,
     fxs_instrument_id s, fx_product_as_str (fxs_product s), fx_pair_key (fxs_pair s)]"
     "[fxs_source_id s, show_nat (fxs_source_sequence s), fxs_source_time s, fxs_received_at s]"]
  show ?thesis
    unfolding fx_canonical_record_def record_parts_def nested [simplified append_Cons append_Nil]
    by (auto simp: and_then_eq_Inr)
qed

lemma fx_pair_validate_eq_Ok [result_simps]:
  "fx_pair_validate p = Inr u \<longleftrightarrow> length (fxp_base_currency p) = 3 \<and> list_all is_ascii_uppercase (fxp_base_currency p)
     \<and> length (fxp_quote_currency p) = 3 \<and> list_all is_ascii_uppercase (fxp_quote_currency p)
     \<and> fxp_base_currency p \<noteq> fxp_quote_currency p"
  by (auto simp: fx_pair_validate_def and_then_eq_Inr)

lemma terms_parts_plain:
  assumes "fx_terms_validate_for epoch product terms = Inr u"
  shows "\<forall>part\<in>set (terms_parts terms). part \<noteq> [] \<and> CHR ''|'' \<notin> set part"
proof -
  have "decimal_to_string d \<noteq> []" for d by (simp add: decimal_to_string_parts)
  with assms show ?thesis
    by (cases product; cases terms)
      (auto simp: fx_terms_validate_for_def and_then_eq_Inr canonical_date_bytes decimal_not_separator)
qed

lemma record_parts_plain:
  assumes "fx_snapshot_validate epoch s = Inr ()"
  shows "\<forall>part\<in>set (record_parts s). part \<noteq> [] \<and> CHR ''|'' \<notin> set part"
proof -
  from assms have v: "canonical_id (fxs_snapshot_id s)" "canonical_id (fxs_reference_version s)"
    "canonical_id (fxs_instrument_id s)" "canonical_id (fxs_source_id s)" "fx_pair_validate (fxs_pair s) = Inr ()"
    "fx_terms_validate_for epoch (fxs_product s) (fxs_terms s) = Inr ()"
    "canonical_shape (fxs_source_time s)" "canonical_shape (fxs_received_at s)"
    by (simp_all add: fx_snapshot_validate_def and_then_eq_Inr validate_canonical_id_eq_Ok validate_utc_timestamp_eq_Ok)
  have upper: "list_all is_ascii_uppercase t \<Longrightarrow> CHR ''|'' \<notin> set t" for t
    by (auto simp: list_all_iff is_ascii_uppercase_def)
  have digits: "CHR ''|'' \<notin> set (show_nat n)" for n
    using show_nat_digits [of n] by (auto simp: list_all_iff is_ascii_digit_def)
  have key: "fx_pair_key (fxs_pair s) \<noteq> []" "CHR ''|'' \<notin> set (fx_pair_key (fxs_pair s))"
    using v(5) upper by (auto simp: fx_pair_key_def fx_pair_validate_eq_Ok)
  have "fx_product_as_str p \<noteq> []" "CHR ''|'' \<notin> set (fx_product_as_str p)" for p
    by (cases p; simp)+
  moreover have "canonical_shape t \<Longrightarrow> t \<noteq> []" for t by (auto simp: canonical_shape_def)
  ultimately show ?thesis
    using v key digits terms_parts_plain [OF v(6)] id_not_separator canonical_timestamp_no_bar
    by (auto simp: record_parts_def canonical_id_def)
qed

lemma fx_pair_key_inj:
  assumes "length (fxp_base_currency p) = 3" "length (fxp_base_currency q) = 3" "fx_pair_key p = fx_pair_key q"
  shows "p = q"
  using assms by (cases p; cases q) (simp add: fx_pair_key_def)

lemma fx_product_as_str_inj [simp]: "fx_product_as_str p = fx_product_as_str q \<longleftrightarrow> p = q"
  by (cases p; cases q; simp)

lemma fx_quote_eq: "fxq_bid p = fxq_bid q \<Longrightarrow> fxq_ask p = fxq_ask q \<Longrightarrow> p = (q :: fx_quote)"
  by (cases p; cases q) simp

text \<open>The record a pricing dataset is addressed by identifies the snapshot: two valid snapshots
  with the same record are the same snapshot, field by field.\<close>

theorem fx_record_identifies:
  assumes "fx_canonical_record epoch s = Ok r" "fx_canonical_record epoch t = Ok r"
  shows "s = t"
proof -
  from assms have v: "fx_snapshot_validate epoch s = Inr ()" "fx_snapshot_validate epoch t = Inr ()"
    and "join ''|'' (record_parts s) = join ''|'' (record_parts t)"
    by (simp_all add: fx_canonical_record_eq_Ok)
  with join_inj [of "record_parts s" "record_parts t" "CHR ''|''"] have parts: "record_parts s = record_parts t"
    using record_parts_plain [OF v(1)] record_parts_plain [OF v(2)] by auto
  have terms: "fxs_terms s = fxs_terms t"
    using parts by (cases "fxs_terms s"; cases "fxs_terms t")
      (auto simp: record_parts_def intro: fx_value_date.expand fx_quote_eq)
  have "fxs_pair s = fxs_pair t"
    using v parts by (intro fx_pair_key_inj)
      (auto simp: record_parts_def fx_snapshot_validate_def and_then_eq_Inr fx_pair_validate_eq_Ok)
  with terms parts show "s = t"
    by (intro fx_snapshot.equality) (auto simp: record_parts_def)
qed

theorem fx_record_identifies_witness:
  "fx_canonical_record sample_seconds (sample_fx_snapshot ''s1'' 1 ''2026-03-02T10:00:05Z'' 110000000)
    \<noteq> fx_canonical_record sample_seconds (sample_fx_snapshot ''s1'' 1 ''2026-03-02T10:00:05Z'' 110000001)
    \<and> is_ok (fx_canonical_record sample_seconds (sample_fx_snapshot ''s1'' 1 ''2026-03-02T10:00:05Z'' 110000000))"
    (is "fx_canonical_record _ ?s \<noteq> fx_canonical_record _ ?t \<and> _")
proof -
  have "fx_snapshot_validate sample_seconds ?s = Ok ()" "fx_snapshot_validate sample_seconds ?t = Ok ()"
    by code_simp+
  then obtain r where "fx_canonical_record sample_seconds ?s = Ok r" by (simp add: fx_canonical_record_def)
  moreover have "?s \<noteq> ?t" by (simp add: sample_fx_snapshot_def)
  ultimately show ?thesis using fx_record_identifies [of sample_seconds ?s r ?t] by auto
qed

end
