(* ===== verification/RiskFx.thy ===== *)
theory RiskFx
  imports RiskModel Fx
begin

text \<open>
  Component: the risk candidate made from a foreign exchange price snapshot
  (\<^verbatim>\<open>core/risk/src/position.rs\<close>, \<^verbatim>\<open>FxRiskCandidate\<close>). The lemma shows that an accepted candidate
  passes the ordinary candidate validation, is marked inside the quoted spread of the evidence it
  names, and carries the signed delta of its side.
\<close>

record fx_risk_identity =
  fri_intent_id :: string
  fri_account_id :: string
  fri_strategy_id :: string
  fri_instrument_id :: string
  fri_sector :: string

record fx_risk_pricing =
  frp_value_date :: fx_value_date
  frp_as_of :: string
  frp_maximum_quote_age_seconds :: int

record fx_risk_candidate =
  frc_candidate :: candidate_order
  frc_pricing_snapshot_id :: string
  frc_pricing_reference_version :: string
  frc_value_date :: fx_value_date

definition fx_candidate_order :: "fx_risk_identity \<Rightarrow> fx_snapshot \<Rightarrow> side \<Rightarrow> decimal \<Rightarrow> decimal \<Rightarrow> decimal \<Rightarrow> decimal
    \<Rightarrow> candidate_order" where
  "fx_candidate_order identity snapshot s quantity mark_price multiplier delta =
     \<lparr>cdo_intent_id = fri_intent_id identity, cdo_account_id = fri_account_id identity,
      cdo_strategy_id = fri_strategy_id identity, cdo_instrument_id = fri_instrument_id identity,
      cdo_asset_class = fx_risk_bucket (fxs_product snapshot), cdo_sector = fri_sector identity,
      cdo_currency = fxp_quote_currency (fxs_pair snapshot), cdo_side = s, cdo_quantity = quantity,
      cdo_mark_price = mark_price, cdo_multiplier = multiplier, cdo_delta = delta, cdo_gamma = ZERO\<rparr>"

definition from_pricing_snapshot :: "(string \<Rightarrow> int option) \<Rightarrow> fx_risk_identity \<Rightarrow> fx_snapshot \<Rightarrow> side \<Rightarrow> decimal
    \<Rightarrow> decimal \<Rightarrow> fx_risk_pricing \<Rightarrow> fx_risk_candidate result" where
  "from_pricing_snapshot epoch identity snapshot s quantity multiplier pricing =
     and_then (fx_snapshot_validate epoch snapshot) (\<lambda>_.
     if fri_instrument_id identity \<noteq> fxs_instrument_id snapshot
     then Err ''FX risk candidate instrument does not match pricing evidence''
     else and_then (fx_snapshot_midpoint_at epoch snapshot (frp_value_date pricing) (frp_as_of pricing)
            (frp_maximum_quote_age_seconds pricing)) (\<lambda>mark_price.
       if quantity \<le> ZERO \<or> multiplier \<le> ZERO
       then Err ''FX risk candidate quantity and multiplier must be positive''
       else and_then (checked_mul quantity multiplier) (\<lambda>absolute_delta.
         and_then (case s of Buy \<Rightarrow> Ok absolute_delta | Sell \<Rightarrow> negate absolute_delta) (\<lambda>delta.
         let candidate = fx_candidate_order identity snapshot s quantity mark_price multiplier delta in
         and_then (candidate_validate candidate) (\<lambda>_.
         Ok \<lparr>frc_candidate = candidate, frc_pricing_snapshot_id = fxs_snapshot_id snapshot,
             frc_pricing_reference_version = fxs_reference_version snapshot,
             frc_value_date = frp_value_date pricing\<rparr>)))))"

theorem fx_candidate_sound:
  assumes "from_pricing_snapshot epoch identity snapshot s quantity multiplier pricing = Ok c"
  shows "candidate_validate (frc_candidate c) = Ok ()"
    and "cdo_instrument_id (frc_candidate c) = fxs_instrument_id snapshot"
    and "\<exists>q. quote_for (fxs_terms snapshot) (frp_value_date pricing) = Some q
      \<and> fxq_bid q \<le> cdo_mark_price (frc_candidate c) \<and> cdo_mark_price (frc_candidate c) \<le> fxq_ask q"
    and "scaled (cdo_delta (frc_candidate c)) =
      (case s of Buy \<Rightarrow> 1 | Sell \<Rightarrow> -1) * (scaled quantity * scaled multiplier div DECIMAL_SCALE)"
proof -
  from assms obtain mark d delta where
    mark: "fx_snapshot_midpoint_at epoch snapshot (frp_value_date pricing) (frp_as_of pricing)
            (frp_maximum_quote_age_seconds pricing) = Inr mark"
    and pos: "ZERO < quantity" "ZERO < multiplier" and d: "checked_mul quantity multiplier = Inr d"
    and delta: "(case s of Buy \<Rightarrow> Ok d | Sell \<Rightarrow> negate d) = Inr delta"
    and c: "frc_candidate c = fx_candidate_order identity snapshot s quantity mark multiplier delta"
    and ok: "candidate_validate (frc_candidate c) = Inr ()" and i: "fri_instrument_id identity = fxs_instrument_id snapshot"
    by (auto simp: from_pricing_snapshot_def and_then_eq_Inr Let_def split: if_splits)
  from ok show "candidate_validate (frc_candidate c) = Ok ()" .
  from i show "cdo_instrument_id (frc_candidate c) = fxs_instrument_id snapshot"
    by (simp add: c fx_candidate_order_def)
  from fx_snapshot_midpoint_at_Ok(3) [OF mark] fx_quote_midpoint_Ok
  show "\<exists>q. quote_for (fxs_terms snapshot) (frp_value_date pricing) = Some q
      \<and> fxq_bid q \<le> cdo_mark_price (frc_candidate c) \<and> cdo_mark_price (frc_candidate c) \<le> fxq_ask q"
    by (auto simp: c fx_candidate_order_def)
  have "scaled d = scaled quantity * scaled multiplier div DECIMAL_SCALE"
    by (rule checked_mul_nonneg [OF d]) (use pos in \<open>simp_all add: decimal_cmp\<close>)
  with delta show "scaled (cdo_delta (frc_candidate c)) =
      (case s of Buy \<Rightarrow> 1 | Sell \<Rightarrow> -1) * (scaled quantity * scaled multiplier div DECIMAL_SCALE)"
    by (cases s) (auto simp: c fx_candidate_order_def negate_eq_Ok)
qed

end
