(* ===== verification/Margin.thy ===== *)
theory Margin
  imports Ledger Fx
begin

text \<open>
  Component: cash conversion, margin valuation, the aggregation of accounts and financing of the
  accounting crate (\<^verbatim>\<open>core/accounting/src/lib.rs\<close>, \<^verbatim>\<open>FxQuote\<close> to \<^verbatim>\<open>value_margin_account\<close> and
  \<^verbatim>\<open>accrue_financing\<close>). \<open>epoch\<close> is the time parser of \<open>Fx\<close>.
\<close>

section \<open>The conversion book\<close>

record fx_rate =
  fxr_base :: currency
  fxr_quote :: currency
  fxr_quote_rate :: decimal
  fxr_observed_at_epoch_seconds :: int

type_synonym fx_rate_book = "(currency \<times> currency, fx_rate) btree_map"

definition fx_book_upsert :: "fx_rate \<Rightarrow> fx_rate_book \<Rightarrow> unit result \<times> fx_rate_book" where
  "fx_book_upsert q book =
     (if fxr_base q = fxr_quote q \<or> fxr_quote_rate q \<le> ZERO then (Err ''invalid FX quote'', book)
      else (Ok (), bt_insert (fxr_base q, fxr_quote q) q book))"

definition spot_rate :: "(string \<Rightarrow> int option) \<Rightarrow> fx_snapshot \<Rightarrow> fx_value_date \<Rightarrow> string \<Rightarrow> int \<Rightarrow> fx_rate result" where
  "spot_rate epoch snapshot value_date as_of maximum_age_seconds =
     (if fxs_product snapshot \<noteq> FxSpot
      then Err ''only FX spot snapshots may populate the cash conversion book''
      else and_then (fx_snapshot_midpoint_at epoch snapshot value_date as_of maximum_age_seconds) (\<lambda>quote_rate.
        and_then (received_at_epoch_seconds epoch snapshot) (\<lambda>observed.
        and_then (currency_new (fxp_base_currency (fxs_pair snapshot))) (\<lambda>base.
        and_then (currency_new (fxp_quote_currency (fxs_pair snapshot))) (\<lambda>quote.
        Ok \<lparr>fxr_base = base, fxr_quote = quote, fxr_quote_rate = quote_rate,
            fxr_observed_at_epoch_seconds = observed\<rparr>)))))"

definition upsert_spot_pricing_snapshot :: "(string \<Rightarrow> int option) \<Rightarrow> fx_snapshot \<Rightarrow> fx_value_date \<Rightarrow> string
    \<Rightarrow> int \<Rightarrow> fx_rate_book \<Rightarrow> unit result \<times> fx_rate_book" where
  "upsert_spot_pricing_snapshot epoch snapshot value_date as_of maximum_age_seconds book =
     (case spot_rate epoch snapshot value_date as_of maximum_age_seconds of
        Inl e \<Rightarrow> (Inl e, book) | Inr q \<Rightarrow> fx_book_upsert q book)"

definition rate_ensure_fresh :: "fx_rate \<Rightarrow> int \<Rightarrow> int \<Rightarrow> unit result" where
  "rate_ensure_fresh q as_of_epoch_seconds maximum_age_seconds =
     and_then (ok_or (i64_checked (as_of_epoch_seconds - fxr_observed_at_epoch_seconds q)) ''FX quote age overflow'') (\<lambda>age.
     if age < 0 \<or> age > maximum_age_seconds
     then Err (''stale FX rate '' @ code_text (fxr_base q) @ ''->'' @ code_text (fxr_quote q)) else Ok ())"

definition fx_convert :: "fx_rate_book \<Rightarrow> decimal \<Rightarrow> currency \<Rightarrow> currency \<Rightarrow> int \<Rightarrow> int \<Rightarrow> decimal result" where
  "fx_convert book amount from_currency to_currency as_of_epoch_seconds maximum_age_seconds =
     (if from_currency = to_currency then Ok amount
      else if maximum_age_seconds < 0 then Err ''FX maximum age cannot be negative''
      else case bt_get book (from_currency, to_currency) of
        Some q \<Rightarrow> and_then (rate_ensure_fresh q as_of_epoch_seconds maximum_age_seconds)
            (\<lambda>_. checked_mul amount (fxr_quote_rate q))
      | None \<Rightarrow> (case bt_get book (to_currency, from_currency) of
          Some q \<Rightarrow> and_then (rate_ensure_fresh q as_of_epoch_seconds maximum_age_seconds)
              (\<lambda>_. checked_div amount (fxr_quote_rate q))
        | None \<Rightarrow> Err (''missing FX rate '' @ code_text from_currency @ ''->'' @ code_text to_currency)))"

section \<open>Margin\<close>

record margin_position =
  mp_instrument_id :: string
  mp_asset_class :: string
  mp_currency :: currency
  mp_quantity :: decimal
  mp_mark_price :: decimal
  mp_multiplier :: decimal

record margin_rate =
  mr_initial_bps :: nat
  mr_maintenance_bps :: nat

record margin_policy =
  mgp_base_currency :: currency
  mgp_maximum_fx_age_seconds :: int
  mgp_rates :: "(string, margin_rate) btree_map"

record margin_snapshot =
  ms_base_currency :: currency
  ms_cash_value :: decimal
  ms_position_market_value :: decimal
  ms_net_liquidation_value :: decimal
  ms_initial_margin :: decimal
  ms_maintenance_margin :: decimal
  ms_excess_liquidity :: decimal
  ms_margin_call :: bool
  ms_exposure_by_currency :: "(currency, decimal) btree_map"

definition magnitude_of :: "decimal \<Rightarrow> decimal result" where
  "magnitude_of v = (if v < ZERO then checked_sub ZERO v else Ok v)"

definition position_economics_invalid :: "margin_position \<Rightarrow> bool" where
  "position_economics_invalid p \<longleftrightarrow> mp_quantity p = ZERO \<or> mp_mark_price p \<le> ZERO \<or> mp_multiplier p \<le> ZERO"

definition position_value :: "margin_position \<Rightarrow> decimal result" where
  "position_value p = and_then (checked_mul (mp_quantity p) (mp_mark_price p)) (\<lambda>v. checked_mul v (mp_multiplier p))"

definition rate_for :: "margin_policy \<Rightarrow> margin_position \<Rightarrow> margin_rate result" where
  "rate_for policy p =
     and_then (ok_or (bt_get (mgp_rates policy) (mp_asset_class p)) (''missing margin policy for '' @ mp_asset_class p)) (\<lambda>rate.
     if mr_initial_bps rate > 10000 \<or> mr_maintenance_bps rate > mr_initial_bps rate \<or> mr_maintenance_bps rate = 0
     then Err (''invalid margin rates for '' @ mp_asset_class p) else Ok rate)"

definition margin_share :: "decimal \<Rightarrow> nat \<Rightarrow> decimal result" where
  "margin_share absolute_value bps =
     and_then (from_integer 10000) (\<lambda>ten_thousand.
     and_then (from_integer (int bps)) (\<lambda>b.
     and_then (checked_mul absolute_value b) (\<lambda>product. checked_div product ten_thousand)))"

record margin_totals =
  mt_position_market_value :: decimal
  mt_initial_margin :: decimal
  mt_maintenance_margin :: decimal
  mt_exposure :: "(currency, decimal) btree_map"

definition cash_step :: "fx_rate_book \<Rightarrow> margin_policy \<Rightarrow> int \<Rightarrow> currency \<times> decimal \<Rightarrow> decimal \<Rightarrow> decimal result" where
  "cash_step fx policy as_of = (\<lambda>(currency, cash) cash_value.
     and_then (fx_convert fx cash currency (mgp_base_currency policy) as_of (mgp_maximum_fx_age_seconds policy)) (\<lambda>v.
     checked_add cash_value v))"

definition margin_step :: "fx_rate_book \<Rightarrow> margin_policy \<Rightarrow> int \<Rightarrow> margin_position \<Rightarrow> margin_totals \<Rightarrow> margin_totals result" where
  "margin_step fx policy as_of p t =
     and_then (validate_canonical_id ''instrument_id'' (mp_instrument_id p)) (\<lambda>_.
     if position_economics_invalid p then Err ''invalid margin position''
     else and_then (rate_for policy p) (\<lambda>rate.
       and_then (position_value p) (\<lambda>local_value.
       and_then (checked_add (case bt_get (mt_exposure t) (mp_currency p) of None \<Rightarrow> ZERO | Some v \<Rightarrow> v) local_value) (\<lambda>local_exposure.
       and_then (fx_convert fx local_value (mp_currency p) (mgp_base_currency policy) as_of
           (mgp_maximum_fx_age_seconds policy)) (\<lambda>base_value.
       and_then (checked_add (mt_position_market_value t) base_value) (\<lambda>market_value.
       and_then (magnitude_of base_value) (\<lambda>absolute_value.
       and_then (and_then (margin_share absolute_value (mr_initial_bps rate)) (checked_add (mt_initial_margin t))) (\<lambda>initial.
       and_then (and_then (margin_share absolute_value (mr_maintenance_bps rate)) (checked_add (mt_maintenance_margin t))) (\<lambda>maintenance.
       Ok \<lparr>mt_position_market_value = market_value, mt_initial_margin = initial, mt_maintenance_margin = maintenance,
           mt_exposure = bt_insert (mp_currency p) local_exposure (mt_exposure t)\<rparr>)))))))))"

definition value_margin_account :: "(currency, decimal) btree_map \<Rightarrow> margin_position list \<Rightarrow> fx_rate_book
    \<Rightarrow> margin_policy \<Rightarrow> int \<Rightarrow> margin_snapshot result" where
  "value_margin_account cash_by_currency positions fx policy as_of =
     (if mgp_maximum_fx_age_seconds policy < 0 \<or> mgp_rates policy = [] then Err ''invalid margin policy''
      else and_then (try_fold (cash_step fx policy as_of) cash_by_currency ZERO) (\<lambda>cash_value.
        and_then (try_fold (margin_step fx policy as_of) positions
            \<lparr>mt_position_market_value = ZERO, mt_initial_margin = ZERO, mt_maintenance_margin = ZERO,
             mt_exposure = cash_by_currency\<rparr>) (\<lambda>t.
        and_then (checked_add cash_value (mt_position_market_value t)) (\<lambda>net_liquidation_value.
        and_then (checked_sub net_liquidation_value (mt_initial_margin t)) (\<lambda>excess_liquidity.
        Ok \<lparr>ms_base_currency = mgp_base_currency policy, ms_cash_value = cash_value,
            ms_position_market_value = mt_position_market_value t,
            ms_net_liquidation_value = net_liquidation_value, ms_initial_margin = mt_initial_margin t,
            ms_maintenance_margin = mt_maintenance_margin t, ms_excess_liquidity = excess_liquidity,
            ms_margin_call = (net_liquidation_value < mt_maintenance_margin t),
            ms_exposure_by_currency = mt_exposure t\<rparr>)))))"

section \<open>What the valuation computes\<close>

definition amount_or_0 :: "decimal result \<Rightarrow> int" where
  "amount_or_0 r = (case r of Inl _ \<Rightarrow> 0 | Inr v \<Rightarrow> scaled v)"

lemma amount_or_0_Inr [simp]: "amount_or_0 (Inr v) = scaled v"
  by (simp add: amount_or_0_def)

definition held_in :: "(currency, decimal) btree_map \<Rightarrow> currency \<Rightarrow> int" where
  "held_in m c = (case bt_get m c of None \<Rightarrow> 0 | Some v \<Rightarrow> scaled v)"

lemma held_in_insert: "held_in (bt_insert c v m) c' = (if c' = c then scaled v else held_in m c')"
  by (simp add: held_in_def bt_get_insert)

lemma scaled_held_in: "scaled (case bt_get m c of None \<Rightarrow> ZERO | Some v \<Rightarrow> v) = held_in m c"
  by (simp add: held_in_def split: option.splits)

definition base_value :: "fx_rate_book \<Rightarrow> margin_policy \<Rightarrow> int \<Rightarrow> margin_position \<Rightarrow> int" where
  "base_value fx policy as_of p = amount_or_0 (and_then (position_value p) (\<lambda>v.
     fx_convert fx v (mp_currency p) (mgp_base_currency policy) as_of (mgp_maximum_fx_age_seconds policy)))"

definition requirement :: "(margin_rate \<Rightarrow> nat) \<Rightarrow> fx_rate_book \<Rightarrow> margin_policy \<Rightarrow> int \<Rightarrow> margin_position \<Rightarrow> int" where
  "requirement bps fx policy as_of p =
     \<bar>base_value fx policy as_of p\<bar> * (case rate_for policy p of Inl _ \<Rightarrow> 0 | Inr rate \<Rightarrow> int (bps rate)) div 10000"

definition fresh_rate :: "fx_rate_book \<Rightarrow> margin_policy \<Rightarrow> int \<Rightarrow> currency \<Rightarrow> bool" where
  "fresh_rate fx policy as_of c \<longleftrightarrow> c = mgp_base_currency policy \<or>
     (\<exists>q. (bt_get fx (c, mgp_base_currency policy) = Some q \<or> bt_get fx (mgp_base_currency policy, c) = Some q)
        \<and> fxr_observed_at_epoch_seconds q \<le> as_of
        \<and> as_of - fxr_observed_at_epoch_seconds q \<le> mgp_maximum_fx_age_seconds policy)"

lemma fx_convert_fresh:
  assumes "fx_convert fx v c (mgp_base_currency policy) as_of (mgp_maximum_fx_age_seconds policy) = Inr w"
  shows "fresh_rate fx policy as_of c"
  using assms
  by (auto simp: fx_convert_def fresh_rate_def rate_ensure_fresh_def and_then_eq_Inr ok_or_eq_Ok i64_checked_eq_Some
      split: if_splits option.splits)

lemma magnitude_of_eq_Ok [result_simps]:
  "magnitude_of v = Inr a \<longleftrightarrow> (scaled v < 0 \<longrightarrow> in_i128 (- scaled v)) \<and> a = Decimal \<bar>scaled v\<bar>"
  by (cases v) (auto simp: magnitude_of_def checked_sub_eq_Ok decimal_cmp)

lemma margin_share_Ok:
  assumes "margin_share v bps = Inr r" "0 \<le> scaled v" "bps \<le> 10000"
  shows "scaled r = scaled v * int bps div 10000"
proof -
  have "from_integer (int bps) = Ok (Decimal (int bps * DECIMAL_SCALE))"
    by (rule from_integer_u32) (use assms(3) in simp)
  with assms(1) obtain m where m: "checked_mul v (Decimal (int bps * DECIMAL_SCALE)) = Inr m"
    and r: "checked_div m (Decimal 1000000000000) = Inr r"
    by (auto simp: margin_share_def and_then_eq_Inr)
  from checked_mul_nonneg [OF m assms(2)] have "scaled m = scaled v * int bps"
    by (simp add: mult.assoc [symmetric])
  with checked_div_pos [OF r] assms(2) show ?thesis
    by (simp add: DECIMAL_SCALE_def)
qed

text \<open>One position adds its own amounts to every total.\<close>

lemma margin_step_Ok:
  assumes "margin_step fx policy as_of p t = Inr u"
  shows "scaled (mt_position_market_value u) = scaled (mt_position_market_value t) + base_value fx policy as_of p"
    "scaled (mt_initial_margin u) = scaled (mt_initial_margin t) + requirement mr_initial_bps fx policy as_of p"
    "scaled (mt_maintenance_margin u) = scaled (mt_maintenance_margin t) + requirement mr_maintenance_bps fx policy as_of p"
    "held_in (mt_exposure u) c = held_in (mt_exposure t) c
       + (if mp_currency p = c then amount_or_0 (position_value p) else 0)"
    "fresh_rate fx policy as_of (mp_currency p)" "mp_quantity p \<noteq> ZERO" "ZERO < mp_mark_price p" "ZERO < mp_multiplier p"
    "\<exists>rate. rate_for policy p = Inr rate \<and> 0 < mr_maintenance_bps rate
       \<and> mr_maintenance_bps rate \<le> mr_initial_bps rate \<and> mr_initial_bps rate \<le> 10000"
proof -
  from assms obtain rate local exposure v mv a i i' m m' where
    pos: "\<not> position_economics_invalid p" and rate: "rate_for policy p = Inr rate"
    and local: "position_value p = Inr local"
    and exposure: "checked_add (case bt_get (mt_exposure t) (mp_currency p) of None \<Rightarrow> ZERO | Some v \<Rightarrow> v) local = Inr exposure"
    and v: "fx_convert fx local (mp_currency p) (mgp_base_currency policy) as_of (mgp_maximum_fx_age_seconds policy) = Inr v"
    and mv: "checked_add (mt_position_market_value t) v = Inr mv" and a: "magnitude_of v = Inr a"
    and i: "margin_share a (mr_initial_bps rate) = Inr i" "checked_add (mt_initial_margin t) i = Inr i'"
    and m: "margin_share a (mr_maintenance_bps rate) = Inr m" "checked_add (mt_maintenance_margin t) m = Inr m'"
    and u: "u = \<lparr>mt_position_market_value = mv, mt_initial_margin = i', mt_maintenance_margin = m',
           mt_exposure = bt_insert (mp_currency p) exposure (mt_exposure t)\<rparr>"
    by (auto simp: margin_step_def and_then_eq_Inr split: if_splits)
  have bounds: "0 < mr_maintenance_bps rate" "mr_maintenance_bps rate \<le> mr_initial_bps rate" "mr_initial_bps rate \<le> 10000"
    using rate by (auto simp: rate_for_def and_then_eq_Inr split: if_splits)
  have base: "base_value fx policy as_of p = scaled v" by (simp add: base_value_def local v)
  have abs: "scaled a = \<bar>scaled v\<bar>" using a by (simp add: magnitude_of_eq_Ok)
  show "scaled (mt_position_market_value u) = scaled (mt_position_market_value t) + base_value fx policy as_of p"
    using mv by (simp add: u base checked_add_eq_Ok)
  show "scaled (mt_initial_margin u) = scaled (mt_initial_margin t) + requirement mr_initial_bps fx policy as_of p"
    using i margin_share_Ok [OF i(1)] bounds abs by (simp add: u requirement_def base rate checked_add_eq_Ok)
  show "scaled (mt_maintenance_margin u) = scaled (mt_maintenance_margin t) + requirement mr_maintenance_bps fx policy as_of p"
    using m margin_share_Ok [OF m(1)] bounds abs by (simp add: u requirement_def base rate checked_add_eq_Ok)
  show "held_in (mt_exposure u) c = held_in (mt_exposure t) c
       + (if mp_currency p = c then amount_or_0 (position_value p) else 0)"
    using exposure by (auto simp: u local held_in_insert checked_add_eq_Ok scaled_held_in)
  show "fresh_rate fx policy as_of (mp_currency p)" using v by (rule fx_convert_fresh)
  show "mp_quantity p \<noteq> ZERO" "ZERO < mp_mark_price p" "ZERO < mp_multiplier p"
    using pos by (auto simp: position_economics_invalid_def)
  show "\<exists>rate. rate_for policy p = Inr rate \<and> 0 < mr_maintenance_bps rate
       \<and> mr_maintenance_bps rate \<le> mr_initial_bps rate \<and> mr_initial_bps rate \<le> 10000"
    using rate bounds by blast
qed

lemma requirements_ordered:
  assumes "margin_step fx policy as_of p t = Inr u"
  shows "0 \<le> requirement mr_maintenance_bps fx policy as_of p"
    "requirement mr_maintenance_bps fx policy as_of p \<le> requirement mr_initial_bps fx policy as_of p"
    "requirement mr_initial_bps fx policy as_of p \<le> \<bar>base_value fx policy as_of p\<bar>"
proof -
  from margin_step_Ok(9) [OF assms] obtain rate where rate: "rate_for policy p = Inr rate"
    "mr_maintenance_bps rate \<le> mr_initial_bps rate" "mr_initial_bps rate \<le> 10000" by blast
  let ?b = "\<bar>base_value fx policy as_of p\<bar>"
  show "0 \<le> requirement mr_maintenance_bps fx policy as_of p"
    by (simp add: requirement_def rate(1) pos_imp_zdiv_nonneg_iff)
  show "requirement mr_maintenance_bps fx policy as_of p \<le> requirement mr_initial_bps fx policy as_of p"
    using rate by (simp add: requirement_def zdiv_mono1 mult_left_mono)
  have "?b * int (mr_initial_bps rate) div 10000 \<le> ?b * 10000 div 10000"
    using rate by (intro zdiv_mono1 mult_left_mono) simp_all
  then show "requirement mr_initial_bps fx policy as_of p \<le> ?b" by (simp add: requirement_def rate(1))
qed

lemma margin_valuation_exact_parts:
  assumes "value_margin_account cash positions fx policy as_of = Ok s"
  shows "scaled (ms_position_market_value s) = (\<Sum>p\<leftarrow>positions. base_value fx policy as_of p)"
    and "scaled (ms_initial_margin s) = (\<Sum>p\<leftarrow>positions. requirement mr_initial_bps fx policy as_of p)"
    and "scaled (ms_maintenance_margin s) = (\<Sum>p\<leftarrow>positions. requirement mr_maintenance_bps fx policy as_of p)"
    and "scaled (ms_net_liquidation_value s) = scaled (ms_cash_value s) + scaled (ms_position_market_value s)"
    and "held_in (ms_exposure_by_currency s) c =
      held_in cash c + (\<Sum>p\<leftarrow>positions. if mp_currency p = c then amount_or_0 (position_value p) else 0)"
    and "\<forall>p\<in>set positions. fresh_rate fx policy as_of (mp_currency p)"
    and "\<forall>e\<in>set cash. fresh_rate fx policy as_of (fst e)"
    and "0 \<le> scaled (ms_maintenance_margin s)" "ms_maintenance_margin s \<le> ms_initial_margin s"
    and "scaled (ms_initial_margin s) \<le> (\<Sum>p\<leftarrow>positions. \<bar>base_value fx policy as_of p\<bar>)"
    and "ms_margin_call s \<longleftrightarrow> ms_net_liquidation_value s < ms_maintenance_margin s"
    and "ZERO \<le> ms_excess_liquidity s \<Longrightarrow> \<not> ms_margin_call s"
proof -
  let ?start = "\<lparr>mt_position_market_value = ZERO, mt_initial_margin = ZERO, mt_maintenance_margin = ZERO, mt_exposure = cash\<rparr>"
  from assms obtain t cv nlv ex where
    cash: "try_fold (cash_step fx policy as_of) cash ZERO = Inr cv"
    and t: "try_fold (margin_step fx policy as_of) positions ?start = Inr t"
    and nlv: "checked_add cv (mt_position_market_value t) = Inr nlv" and ex: "checked_sub nlv (mt_initial_margin t) = Inr ex"
    and s: "s = \<lparr>ms_base_currency = mgp_base_currency policy, ms_cash_value = cv,
            ms_position_market_value = mt_position_market_value t, ms_net_liquidation_value = nlv,
            ms_initial_margin = mt_initial_margin t, ms_maintenance_margin = mt_maintenance_margin t,
            ms_excess_liquidity = ex, ms_margin_call = (nlv < mt_maintenance_margin t),
            ms_exposure_by_currency = mt_exposure t\<rparr>"
    by (auto simp: value_margin_account_def and_then_eq_Inr split: if_splits)
  have each: "\<exists>u v. margin_step fx policy as_of p u = Inr v" if "p \<in> set positions" for p
    using try_fold_each [OF t that] .
  show mv: "scaled (ms_position_market_value s) = (\<Sum>p\<leftarrow>positions. base_value fx policy as_of p)"
    using try_fold_sum [where val = "\<lambda>t. scaled (mt_position_market_value t)", OF margin_step_Ok(1) t] by (simp add: s)
  show init: "scaled (ms_initial_margin s) = (\<Sum>p\<leftarrow>positions. requirement mr_initial_bps fx policy as_of p)"
    using try_fold_sum [where val = "\<lambda>t. scaled (mt_initial_margin t)", OF margin_step_Ok(2) t] by (simp add: s)
  show maint: "scaled (ms_maintenance_margin s) = (\<Sum>p\<leftarrow>positions. requirement mr_maintenance_bps fx policy as_of p)"
    using try_fold_sum [where val = "\<lambda>t. scaled (mt_maintenance_margin t)", OF margin_step_Ok(3) t] by (simp add: s)
  show "held_in (ms_exposure_by_currency s) c =
      held_in cash c + (\<Sum>p\<leftarrow>positions. if mp_currency p = c then amount_or_0 (position_value p) else 0)"
    using try_fold_sum [where val = "\<lambda>t. held_in (mt_exposure t) c", OF margin_step_Ok(4) t] by (simp add: s)
  show "scaled (ms_net_liquidation_value s) = scaled (ms_cash_value s) + scaled (ms_position_market_value s)"
    using nlv by (simp add: s checked_add_eq_Ok)
  show "\<forall>p\<in>set positions. fresh_rate fx policy as_of (mp_currency p)"
    using each margin_step_Ok(5) by blast
  show "\<forall>e\<in>set cash. fresh_rate fx policy as_of (fst e)"
    using try_fold_each [OF cash] by (fastforce simp: cash_step_def and_then_eq_Inr dest: fx_convert_fresh)
  show "0 \<le> scaled (ms_maintenance_margin s)"
    unfolding maint using each requirements_ordered(1) by (intro sum_list_nonneg) fastforce
  show ordered: "ms_maintenance_margin s \<le> ms_initial_margin s"
    unfolding decimal_cmp maint init using each requirements_ordered(2) by (intro sum_list_mono) blast
  show "scaled (ms_initial_margin s) \<le> (\<Sum>p\<leftarrow>positions. \<bar>base_value fx policy as_of p\<bar>)"
    unfolding init using each requirements_ordered(3) by (intro sum_list_mono) blast
  show call: "ms_margin_call s \<longleftrightarrow> ms_net_liquidation_value s < ms_maintenance_margin s" by (simp add: s)
  show "ZERO \<le> ms_excess_liquidity s \<Longrightarrow> \<not> ms_margin_call s"
    using ordered ex by (simp add: s checked_sub_eq_Ok decimal_cmp)
qed

text \<open>A margin valuation is exact: cash and positions are converted at rates no older than the
  policy allows, each position adds its whole basis-point share of its converted value to the
  requirements, exposure is kept per native currency, and the maintenance requirement never exceeds
  the initial one, nor that one the gross value, so an account with excess liquidity is never called.\<close>

theorem margin_valuation_exact:
  assumes "value_margin_account cash positions fx policy as_of = Ok s"
  shows "scaled (ms_position_market_value s) = (\<Sum>p\<leftarrow>positions. base_value fx policy as_of p)
    \<and> scaled (ms_initial_margin s) = (\<Sum>p\<leftarrow>positions. requirement mr_initial_bps fx policy as_of p)
    \<and> scaled (ms_maintenance_margin s) = (\<Sum>p\<leftarrow>positions. requirement mr_maintenance_bps fx policy as_of p)
    \<and> scaled (ms_net_liquidation_value s) = scaled (ms_cash_value s) + scaled (ms_position_market_value s)
    \<and> held_in (ms_exposure_by_currency s) c =
      held_in cash c + (\<Sum>p\<leftarrow>positions. if mp_currency p = c then amount_or_0 (position_value p) else 0)
    \<and> (\<forall>p\<in>set positions. fresh_rate fx policy as_of (mp_currency p))
    \<and> (\<forall>e\<in>set cash. fresh_rate fx policy as_of (fst e))
    \<and> 0 \<le> scaled (ms_maintenance_margin s)
    \<and> ms_maintenance_margin s \<le> ms_initial_margin s
    \<and> scaled (ms_initial_margin s) \<le> (\<Sum>p\<leftarrow>positions. \<bar>base_value fx policy as_of p\<bar>)
    \<and> (ms_margin_call s \<longleftrightarrow> ms_net_liquidation_value s < ms_maintenance_margin s)
    \<and> (ZERO \<le> ms_excess_liquidity s \<longrightarrow> \<not> ms_margin_call s)"
  using margin_valuation_exact_parts [OF assms] by blast

definition sample_margin_policy :: margin_policy where
  "sample_margin_policy = \<lparr>mgp_base_currency = Currency ''USD'', mgp_maximum_fx_age_seconds = 60,
     mgp_rates = [(''equity'', \<lparr>mr_initial_bps = 5000, mr_maintenance_bps = 2500\<rparr>)]\<rparr>"

definition sample_rate_book :: fx_rate_book where
  "sample_rate_book = snd (fx_book_upsert \<lparr>fxr_base = Currency ''EUR'', fxr_quote = Currency ''USD'',
     fxr_quote_rate = Decimal 125000000, fxr_observed_at_epoch_seconds = 1000\<rparr> [])"

definition sample_margin_positions :: "margin_position list" where
  "sample_margin_positions = [\<lparr>mp_instrument_id = ''a'', mp_asset_class = ''equity'', mp_currency = Currency ''EUR'',
     mp_quantity = Decimal (-300000000), mp_mark_price = Decimal 1000000000, mp_multiplier = Decimal 100000000\<rparr>]"

theorem margin_valuation_exact_witness:
  "case value_margin_account [(Currency ''USD'', Decimal 10000000000)] sample_margin_positions sample_rate_book
      sample_margin_policy 1030 of Inl _ \<Rightarrow> False
    | Inr s \<Rightarrow> ms_net_liquidation_value s = Decimal 6250000000 \<and> ms_maintenance_margin s \<le> ms_initial_margin s
        \<and> \<not> ms_margin_call s"
proof -
  have "case value_margin_account [(Currency ''USD'', Decimal 10000000000)] sample_margin_positions sample_rate_book
      sample_margin_policy 1030 of Inl _ \<Rightarrow> False
    | Inr s \<Rightarrow> ms_net_liquidation_value s = Decimal 6250000000 \<and> ZERO \<le> ms_excess_liquidity s"
    by code_simp
  then show ?thesis
    by (auto split: sum.splits dest!: margin_valuation_exact)
qed

end
