(* ===== verification/Aggregation.thy ===== *)
theory Aggregation
  imports Margin
begin

text \<open>
  Component: financing accruals and the aggregation of reconciled accounts
  (\<^verbatim>\<open>core/accounting/src/lib.rs\<close>, \<^verbatim>\<open>accrue_financing\<close> and \<^verbatim>\<open>aggregate_account_portfolios\<close>). The lemmas show
  that both lose nothing: every total is the sum of what was supplied, and an aggregate does not
  depend on the order of the accounts, apart from the overflow of an intermediate sum.
\<close>

section \<open>Financing\<close>

datatype financing_kind = CashDebit | ShortBorrow

record financing_balance =
  fb_reference_id :: string
  fb_kind :: financing_kind
  fb_currency :: currency
  fb_principal :: decimal
  fb_annual_rate_bps :: nat

record financing_accrual =
  fa_days :: nat
  fa_day_count_basis :: nat
  fa_charges_by_reference :: "(string, decimal) btree_map"
  fa_charges_by_currency :: "(currency, decimal) btree_map"

type_synonym accrual_state = "string btree_set \<times> (string, decimal) btree_map \<times> (currency, decimal) btree_map"

definition financing_charge :: "decimal \<Rightarrow> decimal \<Rightarrow> financing_balance \<Rightarrow> decimal result" where
  "financing_charge day_count denominator b =
     and_then (from_integer (int (fb_annual_rate_bps b))) (\<lambda>rate.
     and_then (checked_mul (fb_principal b) rate) (\<lambda>yearly.
     and_then (checked_mul yearly day_count) (\<lambda>product. checked_div product denominator)))"

definition accrue_step :: "decimal \<Rightarrow> decimal \<Rightarrow> financing_balance \<Rightarrow> accrual_state \<Rightarrow> accrual_state result" where
  "accrue_step day_count denominator b = (\<lambda>(references, by_reference, by_currency).
     and_then (validate_canonical_id ''financing reference_id'' (fb_reference_id b)) (\<lambda>_.
     if bs_contains (fb_reference_id b) references \<or> fb_principal b \<le> ZERO \<or> fb_annual_rate_bps b > 1000000
     then Err ''invalid financing balance''
     else and_then (financing_charge day_count denominator b) (\<lambda>charge.
       and_then (checked_add (case bt_get by_currency (fb_currency b) of None \<Rightarrow> ZERO | Some v \<Rightarrow> v) charge) (\<lambda>total.
       Ok (bs_insert (fb_reference_id b) references, bt_insert (fb_reference_id b) charge by_reference,
           bt_insert (fb_currency b) total by_currency)))))"

definition accrue_financing :: "financing_balance list \<Rightarrow> nat \<Rightarrow> nat \<Rightarrow> financing_accrual result" where
  "accrue_financing balances days day_count_basis =
     (if days = 0 \<or> day_count_basis \<notin> {360, 365} \<or> length balances > 1000000
      then Err ''invalid financing interval''
      else and_then (from_integer (int day_count_basis)) (\<lambda>basis.
        and_then (from_integer 10000) (\<lambda>bps.
        and_then (checked_mul basis bps) (\<lambda>denominator.
        and_then (from_integer (int days)) (\<lambda>day_count.
        and_then (try_fold (accrue_step day_count denominator) balances ([], [], [])) (\<lambda>(_, by_reference, by_currency).
        Ok \<lparr>fa_days = days, fa_day_count_basis = day_count_basis, fa_charges_by_reference = by_reference,
            fa_charges_by_currency = by_currency\<rparr>))))))"

text \<open>The charge as a number: principal times rate times days over the year, rounded down once.\<close>

definition charge_of :: "nat \<Rightarrow> nat \<Rightarrow> financing_balance \<Rightarrow> int" where
  "charge_of days basis b =
     scaled (fb_principal b) * int (fb_annual_rate_bps b) * int days div (int basis * 10000)"

lemma financing_charge_Ok:
  assumes "financing_charge (Decimal (int days * DECIMAL_SCALE)) (Decimal (int basis * 10000 * DECIMAL_SCALE)) b = Inr c"
    and "ZERO < fb_principal b" "fb_annual_rate_bps b \<le> 1000000" "0 < basis"
  shows "scaled c = charge_of days basis b"
proof -
  have rate: "from_integer (int (fb_annual_rate_bps b)) = Ok (Decimal (int (fb_annual_rate_bps b) * DECIMAL_SCALE))"
    by (rule from_integer_u32) (use assms(3) in simp)
  have p: "0 \<le> scaled (fb_principal b)" using assms(2) by (simp add: decimal_cmp)
  from assms(1) rate obtain y m where
    y: "checked_mul (fb_principal b) (Decimal (int (fb_annual_rate_bps b) * DECIMAL_SCALE)) = Inr y"
    and m: "checked_mul y (Decimal (int days * DECIMAL_SCALE)) = Inr m"
    and c: "checked_div m (Decimal (int basis * 10000 * DECIMAL_SCALE)) = Inr c"
    by (auto simp: financing_charge_def and_then_eq_Inr)
  from checked_mul_nonneg [OF y p] have y': "scaled y = scaled (fb_principal b) * int (fb_annual_rate_bps b)"
    by (simp add: mult.assoc [symmetric])
  then have "0 \<le> scaled y" using p by simp
  from checked_mul_nonneg [OF m this] have m': "scaled m = scaled y * int days"
    by (simp add: mult.assoc [symmetric])
  have "0 \<le> scaled m" using p by (simp add: m' y')
  from checked_div_pos [OF c this] assms(4) show ?thesis
    by (simp add: charge_of_def m' y')
qed

definition accrual_inv :: "nat \<Rightarrow> nat \<Rightarrow> financing_balance list \<Rightarrow> accrual_state \<Rightarrow> bool" where
  "accrual_inv days basis bs = (\<lambda>(references, by_reference, by_currency).
     bt_sorted by_reference \<and> bt_sorted by_currency \<and> set references = fb_reference_id ` set bs
     \<and> distinct (map fb_reference_id bs)
     \<and> (\<forall>b\<in>set bs. \<exists>v. bt_get by_reference (fb_reference_id b) = Some v \<and> scaled v = charge_of days basis b \<and> 0 \<le> scaled v)
     \<and> bt_sum (\<lambda>_. scaled) by_reference = (\<Sum>b\<leftarrow>bs. charge_of days basis b)
     \<and> (\<forall>k. k \<notin> set references \<longrightarrow> bt_get by_reference k = None)
     \<and> (\<forall>c. held_in by_currency c = (\<Sum>b\<leftarrow>filter (\<lambda>b. fb_currency b = c) bs. charge_of days basis b)))"

lemma accrue_step_inv:
  assumes "accrue_step (Decimal (int days * DECIMAL_SCALE)) (Decimal (int basis * 10000 * DECIMAL_SCALE)) b s = Inr t"
    and "accrual_inv days basis bs s" "0 < basis"
  shows "accrual_inv days basis (bs @ [b]) t"
proof -
  obtain refs by_ref by_cur where s: "s = (refs, by_ref, by_cur)" by (cases s)
  from assms(1) obtain c total where fresh: "fb_reference_id b \<notin> set refs"
    and pos: "ZERO < fb_principal b" "fb_annual_rate_bps b \<le> 1000000"
    and c: "financing_charge (Decimal (int days * DECIMAL_SCALE)) (Decimal (int basis * 10000 * DECIMAL_SCALE)) b = Inr c"
    and total: "checked_add (case bt_get by_cur (fb_currency b) of None \<Rightarrow> ZERO | Some v \<Rightarrow> v) c = Inr total"
    and t: "t = (bs_insert (fb_reference_id b) refs, bt_insert (fb_reference_id b) c by_ref,
           bt_insert (fb_currency b) total by_cur)"
    by (auto simp: s accrue_step_def and_then_eq_Inr bs_contains_def split: if_splits)
  have charge: "scaled c = charge_of days basis b" by (rule financing_charge_Ok [OF c pos assms(3)])
  moreover have "0 \<le> charge_of days basis b"
    using pos assms(3) by (auto simp: charge_of_def decimal_cmp intro!: div_int_pos_iff [THEN iffD2])
  moreover have "scaled total = held_in by_cur (fb_currency b) + charge_of days basis b"
    using total by (simp add: checked_add_eq_Ok scaled_held_in charge)
  ultimately show ?thesis
    using assms(2) fresh
    by (auto simp: s t accrual_inv_def bt_sorted_insert bt_get_insert bt_sum_insert held_in_insert)
qed

text \<open>Financing accrues exactly: each balance is charged its principal at its annual rate for the
  days, rounded down once, under its own reference; the charges of a currency add up to its total,
  and all charges are counted once.\<close>

theorem financing_accrual_exact:
  assumes "accrue_financing balances days basis = Ok a" "days < 2 ^ 32"
  shows "distinct (map fb_reference_id balances)"
    and "\<forall>b\<in>set balances. \<exists>v. bt_get (fa_charges_by_reference a) (fb_reference_id b) = Some v
      \<and> scaled v = charge_of days basis b \<and> 0 \<le> scaled v"
    and "bt_sum (\<lambda>_. scaled) (fa_charges_by_reference a) = (\<Sum>b\<leftarrow>balances. charge_of days basis b)"
    and "held_in (fa_charges_by_currency a) c =
      (\<Sum>b\<leftarrow>filter (\<lambda>b. fb_currency b = c) balances. charge_of days basis b)"
proof -
  have days: "from_integer (int days) = Ok (Decimal (int days * DECIMAL_SCALE))"
    by (rule from_integer_u32) (rule assms(2))
  from assms(1) have basis: "basis = 360 \<or> basis = 365" by (auto simp: accrue_financing_def split: if_splits)
  then have "from_integer (int basis) = Ok (Decimal (int basis * DECIMAL_SCALE))"
    by (intro from_integer_u32) auto
  with assms(1) days obtain d refs by_ref by_cur where
    d: "checked_mul (Decimal (int basis * DECIMAL_SCALE)) (Decimal 1000000000000) = Inr d"
    and loop: "try_fold (accrue_step (Decimal (int days * DECIMAL_SCALE)) d) balances ([], [], []) = Inr (refs, by_ref, by_cur)"
    and a: "fa_charges_by_reference a = by_ref" "fa_charges_by_currency a = by_cur"
    by (auto simp: accrue_financing_def and_then_eq_Inr split: if_splits)
  from checked_mul_nonneg [OF d] have "d = Decimal (int basis * 10000 * DECIMAL_SCALE)"
    by (simp add: decimal_eq_scaled DECIMAL_SCALE_def)
  note loop = loop [unfolded this]
  have "accrual_inv days basis balances (refs, by_ref, by_cur)"
  proof (rule try_fold_invariant_prefix [OF loop])
    show "accrual_inv days basis [] ([], [], [])" by (simp add: accrual_inv_def bt_sorted_def held_in_def)
    have "0 < basis" using basis by auto
    then show "accrual_inv days basis (ys @ [b]) v"
      if "accrual_inv days basis ys u"
        "accrue_step (Decimal (int days * DECIMAL_SCALE)) (Decimal (int basis * 10000 * DECIMAL_SCALE)) b u = Inr v"
      for ys b u v
      using accrue_step_inv that by blast
  qed
  then show "distinct (map fb_reference_id balances)"
    and "\<forall>b\<in>set balances. \<exists>v. bt_get (fa_charges_by_reference a) (fb_reference_id b) = Some v
      \<and> scaled v = charge_of days basis b \<and> 0 \<le> scaled v"
    and "bt_sum (\<lambda>_. scaled) (fa_charges_by_reference a) = (\<Sum>b\<leftarrow>balances. charge_of days basis b)"
    and "held_in (fa_charges_by_currency a) c =
      (\<Sum>b\<leftarrow>filter (\<lambda>b. fb_currency b = c) balances. charge_of days basis b)"
    by (simp_all add: accrual_inv_def a)
qed

definition sample_balances :: "financing_balance list" where
  "sample_balances =
     [\<lparr>fb_reference_id = ''cash.usd'', fb_kind = CashDebit, fb_currency = Currency ''USD'',
       fb_principal = Decimal 1000000000000, fb_annual_rate_bps = 550\<rparr>,
      \<lparr>fb_reference_id = ''borrow.x'', fb_kind = ShortBorrow, fb_currency = Currency ''USD'',
       fb_principal = Decimal 300000000000, fb_annual_rate_bps = 25\<rparr>]"

theorem financing_accrual_exact_witness:
  "case accrue_financing sample_balances 3 360 of Inl _ \<Rightarrow> False
    | Inr a \<Rightarrow> held_in (fa_charges_by_currency a) (Currency ''USD'') = 458333333 + 6250000"
proof -
  have "is_ok (accrue_financing sample_balances 3 360)"
    by (simp add: accrue_financing_def accrue_step_def financing_charge_def sample_balances_def from_integer_def
        checked_mul_def checked_div_def checked_add_def i128_checked_def in_i128_def DECIMAL_SCALE_def
        signed_divide_int_def validate_canonical_id_def is_id_byte_def byte_simps bs_contains_def)
  then obtain a where a: "accrue_financing sample_balances 3 360 = Ok a" by (auto simp: is_ok_iff)
  from financing_accrual_exact(4) [OF this, of "Currency ''USD''"] a show ?thesis
    by (simp add: sample_balances_def charge_of_def)
qed

section \<open>Aggregating accounts\<close>

record account_snapshot =
  aps_account_id :: string
  aps_as_of :: string
  aps_reconciliation_id :: string
  aps_configuration_fingerprint :: string
  aps_cash_by_currency :: "(currency, decimal) btree_map"
  aps_positions :: "margin_position list"

record aggregated_position =
  agp_instrument_id :: string
  agp_asset_class :: string
  agp_currency :: currency
  agp_quantity :: decimal
  agp_multiplier :: decimal
  agp_market_value :: decimal
  agp_contributing_account_ids :: "string list"

record portfolio_aggregate =
  pag_as_of :: string
  pag_configuration_fingerprint :: string
  pag_account_count :: nat
  pag_reconciliation_ids_by_account :: "(string, string) btree_map"
  pag_cash_by_currency :: "(currency, decimal) btree_map"
  pag_positions :: "aggregated_position list"

record position_accumulator =
  pac_quantity :: decimal
  pac_multiplier :: decimal
  pac_market_value :: decimal
  pac_contributing_account_ids :: "string btree_set"

type_synonym position_key = "string \<times> string \<times> currency"

record aggregation_state =
  ags_account_ids :: "string btree_set"
  ags_as_of :: "string option"
  ags_configuration_fingerprint :: "string option"
  ags_reconciliation_ids :: "(string, string) btree_map"
  ags_cash :: "(currency, decimal) btree_map"
  ags_positions :: "(position_key, position_accumulator) btree_map"

definition validate_sha256_fingerprint :: "string \<Rightarrow> string \<Rightarrow> unit result" where
  "validate_sha256_fingerprint name v =
     (if length v \<noteq> 64 \<or> \<not> list_all (\<lambda>c. is_ascii_digit c \<or> c \<in> set ''abcdef'') v
      then Err (name @ '' must be a lowercase SHA-256 hex digest'') else Ok ())"

definition common_value :: "string option \<Rightarrow> string \<Rightarrow> string \<Rightarrow> string option result" where
  "common_value seen v message =
     (case seen of Some existing \<Rightarrow> if existing \<noteq> v then Err message else Ok seen | None \<Rightarrow> Ok (Some v))"

definition aggregate_cash :: "currency \<times> decimal \<Rightarrow> (currency, decimal) btree_map \<Rightarrow> (currency, decimal) btree_map result" where
  "aggregate_cash = (\<lambda>(c, cash) m.
     and_then (checked_add (case bt_get m c of None \<Rightarrow> ZERO | Some v \<Rightarrow> v) cash) (\<lambda>total. Ok (bt_insert c total m)))"

definition position_key :: "margin_position \<Rightarrow> position_key" where
  "position_key p = (mp_instrument_id p, mp_asset_class p, mp_currency p)"

definition aggregate_position :: "string \<Rightarrow> margin_position
    \<Rightarrow> position_key btree_set \<times> (position_key, position_accumulator) btree_map
    \<Rightarrow> (position_key btree_set \<times> (position_key, position_accumulator) btree_map) result" where
  "aggregate_position account_id p = (\<lambda>(source_ids, positions).
     and_then (validate_canonical_id ''aggregate instrument_id'' (mp_instrument_id p)) (\<lambda>_.
     and_then (validate_canonical_id ''aggregate asset_class'' (mp_asset_class p)) (\<lambda>_.
     if position_economics_invalid p then Err ''invalid position in multi-account aggregation''
     else if bs_contains (position_key p) source_ids
     then Err ''account snapshot has duplicate position identity''
     else and_then (position_value p) (\<lambda>market_value.
       let a = (case bt_get positions (position_key p) of Some a \<Rightarrow> a
         | None \<Rightarrow> \<lparr>pac_quantity = ZERO, pac_multiplier = mp_multiplier p, pac_market_value = ZERO,
                    pac_contributing_account_ids = []\<rparr>) in
       if pac_multiplier a \<noteq> mp_multiplier p
       then Err ''account snapshots disagree on a position contract multiplier''
       else and_then (checked_add (pac_quantity a) (mp_quantity p)) (\<lambda>quantity.
         and_then (checked_add (pac_market_value a) market_value) (\<lambda>total.
         Ok (bs_insert (position_key p) source_ids,
             bt_insert (position_key p) (a\<lparr>pac_quantity := quantity, pac_market_value := total,
               pac_contributing_account_ids := bs_insert account_id (pac_contributing_account_ids a)\<rparr>) positions)))))))"

definition aggregate_account :: "(string \<Rightarrow> int option) \<Rightarrow> account_snapshot \<Rightarrow> aggregation_state \<Rightarrow> aggregation_state result" where
  "aggregate_account epoch a s =
     and_then (validate_canonical_id ''aggregate account_id'' (aps_account_id a)) (\<lambda>_.
     and_then (validate_utc_timestamp (valid_time epoch) ''aggregate snapshot as_of'' (aps_as_of a)) (\<lambda>_.
     and_then (validate_canonical_id ''aggregate reconciliation_id'' (aps_reconciliation_id a)) (\<lambda>_.
     and_then (validate_sha256_fingerprint ''aggregate configuration_fingerprint'' (aps_configuration_fingerprint a)) (\<lambda>_.
     if bs_contains (aps_account_id a) (ags_account_ids s)
     then Err ''multi-account aggregation received duplicate account_id''
     else and_then (common_value (ags_as_of s) (aps_as_of a)
         ''multi-account aggregation requires one common as_of timestamp'') (\<lambda>as_of.
       and_then (common_value (ags_configuration_fingerprint s) (aps_configuration_fingerprint a)
         ''multi-account aggregation requires one common configuration fingerprint'') (\<lambda>fingerprint.
       and_then (try_fold aggregate_cash (aps_cash_by_currency a) (ags_cash s)) (\<lambda>cash.
       and_then (try_fold (aggregate_position (aps_account_id a)) (aps_positions a) ([], ags_positions s)) (\<lambda>(_, positions).
       Ok \<lparr>ags_account_ids = bs_insert (aps_account_id a) (ags_account_ids s), ags_as_of = as_of,
           ags_configuration_fingerprint = fingerprint,
           ags_reconciliation_ids = bt_insert (aps_account_id a) (aps_reconciliation_id a) (ags_reconciliation_ids s),
           ags_cash = cash, ags_positions = positions\<rparr>))))))))"

definition aggregated :: "position_key \<times> position_accumulator \<Rightarrow> aggregated_position" where
  "aggregated = (\<lambda>((instrument_id, asset_class, c), a).
     \<lparr>agp_instrument_id = instrument_id, agp_asset_class = asset_class, agp_currency = c,
      agp_quantity = pac_quantity a, agp_multiplier = pac_multiplier a, agp_market_value = pac_market_value a,
      agp_contributing_account_ids = pac_contributing_account_ids a\<rparr>)"

definition aggregate_account_portfolios ::
    "(string \<Rightarrow> int option) \<Rightarrow> account_snapshot list \<Rightarrow> portfolio_aggregate result" where
  "aggregate_account_portfolios epoch accounts =
     (if accounts = [] \<or> int (length accounts) > 4294967295
      then Err ''multi-account aggregation requires between one and u32::MAX accounts''
      else and_then (try_fold (aggregate_account epoch) accounts
          \<lparr>ags_account_ids = [], ags_as_of = None, ags_configuration_fingerprint = None, ags_reconciliation_ids = [],
           ags_cash = [], ags_positions = []\<rparr>) (\<lambda>s.
        Ok \<lparr>pag_as_of = the (ags_as_of s), pag_configuration_fingerprint = the (ags_configuration_fingerprint s),
            pag_account_count = length accounts, pag_reconciliation_ids_by_account = ags_reconciliation_ids s,
            pag_cash_by_currency = ags_cash s, pag_positions = map aggregated (ags_positions s)\<rparr>))"

section \<open>What an aggregate holds\<close>

definition source_positions :: "account_snapshot list \<Rightarrow> (string \<times> margin_position) list" where
  "source_positions accounts = concat (map (\<lambda>a. map (Pair (aps_account_id a)) (aps_positions a)) accounts)"

definition source_cash :: "account_snapshot list \<Rightarrow> (currency \<times> decimal) list" where
  "source_cash accounts = concat (map aps_cash_by_currency accounts)"

definition of_key :: "position_key \<Rightarrow> (string \<times> margin_position) list \<Rightarrow> (string \<times> margin_position) list" where
  "of_key k xs = filter (\<lambda>x. position_key (snd x) = k) xs"

definition summarises :: "(string \<times> margin_position) list \<Rightarrow> position_key \<Rightarrow> position_accumulator option \<Rightarrow> bool" where
  "summarises xs k r = (case r of None \<Rightarrow> of_key k xs = []
     | Some a \<Rightarrow> of_key k xs \<noteq> [] \<and> (\<forall>x\<in>set (of_key k xs). mp_multiplier (snd x) = pac_multiplier a)
         \<and> scaled (pac_quantity a) = (\<Sum>x\<leftarrow>of_key k xs. scaled (mp_quantity (snd x)))
         \<and> scaled (pac_market_value a) = (\<Sum>x\<leftarrow>of_key k xs. amount_or_0 (position_value (snd x)))
         \<and> bs_sorted (pac_contributing_account_ids a)
         \<and> set (pac_contributing_account_ids a) = fst ` set (of_key k xs))"

definition positions_inv :: "(string \<times> margin_position) list \<Rightarrow> (position_key, position_accumulator) btree_map \<Rightarrow> bool" where
  "positions_inv xs m \<longleftrightarrow> bt_sorted m \<and> (\<forall>k. summarises xs k (bt_get m k))"

lemma aggregate_position_inv:
  assumes "aggregate_position account p (ids, m) = Inr (ids', m')" "positions_inv xs m"
  shows "positions_inv (xs @ [(account, p)]) m'"
proof -
  let ?k = "position_key p"
  let ?a = "case bt_get m ?k of Some a \<Rightarrow> a
         | None \<Rightarrow> \<lparr>pac_quantity = ZERO, pac_multiplier = mp_multiplier p, pac_market_value = ZERO,
                    pac_contributing_account_ids = []\<rparr>"
  from assms(1) obtain v q t where v: "position_value p = Inr v" and same: "pac_multiplier ?a = mp_multiplier p"
    and q: "checked_add (pac_quantity ?a) (mp_quantity p) = Inr q" and t: "checked_add (pac_market_value ?a) v = Inr t"
    and m': "m' = bt_insert ?k (?a\<lparr>pac_quantity := q, pac_market_value := t,
               pac_contributing_account_ids := bs_insert account (pac_contributing_account_ids ?a)\<rparr>) m"
    by (auto simp: aggregate_position_def and_then_eq_Inr Let_def split: if_splits)
  from assms(2) have here: "summarises xs ?k (bt_get m ?k)" and others: "summarises xs k (bt_get m k)" for k
    unfolding positions_inv_def by blast+
  have "summarises (xs @ [(account, p)]) ?k (bt_get m' ?k)"
    using here same q t v unfolding m'
    by (cases "bt_get m ?k")
      (auto simp: summarises_def of_key_def bt_get_insert checked_add_eq_Ok bs_sorted_insert)
  moreover have "summarises (xs @ [(account, p)]) k (bt_get m' k)" if "k \<noteq> ?k" for k
    using others [of k] that by (auto simp: m' bt_get_insert summarises_def of_key_def split: option.splits)
  ultimately show ?thesis
    using assms(2) unfolding positions_inv_def by (metis bt_sorted_insert m')
qed

lemma aggregate_positions_inv:
  assumes "try_fold (aggregate_position account) ps (ids, m) = Inr (ids', m')" "positions_inv xs m"
  shows "positions_inv (xs @ map (Pair account) ps) m'"
proof -
  have "positions_inv (xs @ map (Pair account) ps) (snd (ids', m'))"
    by (rule try_fold_invariant_prefix [OF assms(1), where P = "\<lambda>ps s. positions_inv (xs @ map (Pair account) ps) (snd s)"])
      (use assms(2) in \<open>auto dest: aggregate_position_inv\<close>)
  then show ?thesis by simp
qed

definition cash_inv :: "(currency \<times> decimal) list \<Rightarrow> (currency, decimal) btree_map \<Rightarrow> bool" where
  "cash_inv xs m \<longleftrightarrow> bt_sorted m \<and> (\<forall>c. held_in m c = (\<Sum>x\<leftarrow>filter (\<lambda>x. fst x = c) xs. scaled (snd x))
     \<and> (bt_get m c = None \<longleftrightarrow> c \<notin> fst ` set xs))"

lemma aggregate_cash_inv:
  assumes "aggregate_cash e m = Inr m'" "cash_inv xs m"
  shows "cash_inv (xs @ [e]) m'"
proof -
  obtain c v where e: "e = (c, v)" by (cases e)
  from assms(1) obtain t where "checked_add (case bt_get m c of None \<Rightarrow> ZERO | Some v \<Rightarrow> v) v = Inr t"
    and m': "m' = bt_insert c t m"
    by (auto simp: e aggregate_cash_def and_then_eq_Inr)
  then have "scaled t = held_in m c + scaled v" by (simp add: checked_add_eq_Ok scaled_held_in)
  with assms(2) show ?thesis
    by (auto simp: cash_inv_def m' e bt_sorted_insert held_in_insert bt_get_insert)
qed

lemma aggregate_cash_loop_inv:
  assumes "try_fold aggregate_cash es m = Inr m'" "cash_inv xs m"
  shows "cash_inv (xs @ es) m'"
  by (rule try_fold_invariant_prefix [OF assms(1), where P = "\<lambda>es. cash_inv (xs @ es)"])
    (use assms(2) in \<open>auto dest: aggregate_cash_inv\<close>)

text \<open>The loop over accounts.\<close>

definition aggregation_inv :: "account_snapshot list \<Rightarrow> aggregation_state \<Rightarrow> bool" where
  "aggregation_inv as s \<longleftrightarrow>
     distinct (map aps_account_id as) \<and> set (ags_account_ids s) = aps_account_id ` set as
     \<and> (\<forall>a\<in>set as. ags_as_of s = Some (aps_as_of a)
          \<and> ags_configuration_fingerprint s = Some (aps_configuration_fingerprint a))
     \<and> bt_sorted (ags_reconciliation_ids s)
     \<and> (\<forall>k r. bt_get (ags_reconciliation_ids s) k = Some r \<longleftrightarrow>
          (\<exists>a\<in>set as. aps_account_id a = k \<and> aps_reconciliation_id a = r))
     \<and> cash_inv (source_cash as) (ags_cash s) \<and> positions_inv (source_positions as) (ags_positions s)"

lemma common_value_eq_Ok:
  "common_value seen v m = Inr r \<longleftrightarrow> r = Some v \<and> (seen = None \<or> seen = Some v)"
  by (auto simp: common_value_def split: option.splits)

lemma aggregate_account_inv:
  assumes "aggregate_account epoch a s = Inr t" "aggregation_inv as s"
  shows "aggregation_inv (as @ [a]) t"
proof -
  from assms(1) obtain cash ids ps where fresh: "aps_account_id a \<notin> set (ags_account_ids s)"
    and common: "ags_as_of s = None \<or> ags_as_of s = Some (aps_as_of a)"
      "ags_configuration_fingerprint s = None \<or> ags_configuration_fingerprint s = Some (aps_configuration_fingerprint a)"
    and cash: "try_fold aggregate_cash (aps_cash_by_currency a) (ags_cash s) = Inr cash"
    and ps: "try_fold (aggregate_position (aps_account_id a)) (aps_positions a) ([], ags_positions s) = Inr (ids, ps)"
    and t: "t = \<lparr>ags_account_ids = bs_insert (aps_account_id a) (ags_account_ids s), ags_as_of = Some (aps_as_of a),
           ags_configuration_fingerprint = Some (aps_configuration_fingerprint a),
           ags_reconciliation_ids = bt_insert (aps_account_id a) (aps_reconciliation_id a) (ags_reconciliation_ids s),
           ags_cash = cash, ags_positions = ps\<rparr>"
    by (auto simp: aggregate_account_def and_then_eq_Inr common_value_eq_Ok bs_contains_def split: if_splits)
  have c: "cash_inv (source_cash (as @ [a])) cash"
    using aggregate_cash_loop_inv [OF cash] assms(2) by (simp add: aggregation_inv_def source_cash_def)
  have p: "positions_inv (source_positions (as @ [a])) ps"
    using aggregate_positions_inv [OF ps] assms(2) by (simp add: aggregation_inv_def source_positions_def)
  have r: "bt_get (bt_insert (aps_account_id a) (aps_reconciliation_id a) (ags_reconciliation_ids s)) k = Some r \<longleftrightarrow>
      (\<exists>b\<in>set (as @ [a]). aps_account_id b = k \<and> aps_reconciliation_id b = r)" for k r
    using assms(2) fresh by (auto simp: aggregation_inv_def bt_get_insert image_iff)
  show ?thesis
    using assms(2) fresh common c p r by (auto simp: aggregation_inv_def t bt_sorted_insert)
qed

section \<open>Order independence\<close>

lemma sum_filter_mset:
  fixes w :: "'a \<Rightarrow> int"
  assumes "mset xs = mset ys"
  shows "(\<Sum>x\<leftarrow>filter P xs. w x) = (\<Sum>x\<leftarrow>filter P ys. w x)"
proof -
  have "mset (map w (filter P xs)) = mset (map w (filter P ys))" using assms by simp
  then show ?thesis by (metis sum_mset_sum_list)
qed

lemma mset_concat_map: "mset xs = mset ys \<Longrightarrow> mset (concat (map f xs)) = mset (concat (map f ys))"
  by (metis (no_types, lifting) mset_concat mset_map sum_mset_sum_list)

lemma summarises_unique:
  assumes "summarises xs k r" "summarises ys k r'" "mset xs = mset ys"
  shows "r = r'"
proof -
  have same: "set (of_key k xs) = set (of_key k ys)"
    and sums: "(\<Sum>x\<leftarrow>of_key k xs. f x) = (\<Sum>x\<leftarrow>of_key k ys. f x)" for f :: "string \<times> margin_position \<Rightarrow> int"
    using assms(3) sum_filter_mset [OF assms(3)] unfolding of_key_def by (metis mset_filter set_mset_mset, blast)
  show ?thesis
  proof (cases r)
    case None
    with assms same show ?thesis by (cases r') (auto simp: summarises_def)
  next
    case (Some a)
    with assms same obtain a' where a': "r' = Some a'" by (cases r') (auto simp: summarises_def)
    note s = assms(1) [unfolded Some summarises_def option.case] and s' = assms(2) [unfolded a' summarises_def option.case]
    from s obtain x where "x \<in> set (of_key k xs)" by (meson last_in_set)
    with s s' same have "pac_multiplier a = pac_multiplier a'" by metis
    moreover have "pac_quantity a = pac_quantity a'" "pac_market_value a = pac_market_value a'"
      using s s' sums by (simp_all add: decimal_eq_scaled)
    moreover have "pac_contributing_account_ids a = pac_contributing_account_ids a'"
      using s s' same by (intro bs_sorted_ext) simp_all
    ultimately have "a = a'" by simp
    then show ?thesis by (simp add: Some a')
  qed
qed

lemma cash_unique:
  assumes "cash_inv xs m" "cash_inv ys n" "mset xs = mset ys"
  shows "m = n"
proof (rule bt_ext)
  show "bt_sorted m" "bt_sorted n" using assms(1,2) by (simp_all add: cash_inv_def)
  fix c
  have "held_in m c = held_in n c" "bt_get m c = None \<longleftrightarrow> bt_get n c = None"
    using assms(1,2) sum_filter_mset [OF assms(3)] mset_eq_setD [OF assms(3)] by (simp_all add: cash_inv_def)
  then show "bt_get m c = bt_get n c"
    by (auto simp: held_in_def decimal_eq_scaled split: option.splits)
qed

lemma positions_unique:
  assumes "positions_inv xs m" "positions_inv ys n" "mset xs = mset ys"
  shows "m = n"
proof (rule bt_ext)
  show "bt_sorted m" "bt_sorted n" using assms(1,2) unfolding positions_inv_def by blast+
  show "bt_get m k = bt_get n k" for k
    using assms(1,2) summarises_unique [OF _ _ assms(3)] unfolding positions_inv_def by blast
qed

lemma aggregate_account_portfolios_Ok:
  assumes "aggregate_account_portfolios epoch accounts = Inr g"
  shows "\<exists>s. aggregation_inv accounts s \<and> accounts \<noteq> [] \<and> pag_as_of g = the (ags_as_of s)
    \<and> pag_configuration_fingerprint g = the (ags_configuration_fingerprint s) \<and> pag_account_count g = length accounts
    \<and> pag_reconciliation_ids_by_account g = ags_reconciliation_ids s \<and> pag_cash_by_currency g = ags_cash s
    \<and> pag_positions g = map aggregated (ags_positions s)"
proof -
  from assms obtain s where ne: "accounts \<noteq> []" and loop: "try_fold (aggregate_account epoch) accounts
      \<lparr>ags_account_ids = [], ags_as_of = None, ags_configuration_fingerprint = None, ags_reconciliation_ids = [],
       ags_cash = [], ags_positions = []\<rparr> = Inr s"
    and g: "g = \<lparr>pag_as_of = the (ags_as_of s), pag_configuration_fingerprint = the (ags_configuration_fingerprint s),
            pag_account_count = length accounts, pag_reconciliation_ids_by_account = ags_reconciliation_ids s,
            pag_cash_by_currency = ags_cash s, pag_positions = map aggregated (ags_positions s)\<rparr>"
    by (auto simp: aggregate_account_portfolios_def and_then_eq_Inr split: if_splits)
  have "aggregation_inv accounts s"
  proof (rule try_fold_invariant_prefix [OF loop])
    show "aggregation_inv [] \<lparr>ags_account_ids = [], ags_as_of = None, ags_configuration_fingerprint = None,
        ags_reconciliation_ids = [], ags_cash = [], ags_positions = []\<rparr>"
      by (simp add: aggregation_inv_def source_cash_def source_positions_def cash_inv_def positions_inv_def
          bt_sorted_def held_in_def summarises_def of_key_def)
  qed (rule aggregate_account_inv)
  with ne g show ?thesis by auto
qed

lemma aggregation_inv_unique:
  assumes "aggregation_inv as s" "aggregation_inv bs t" "mset bs = mset as" "as \<noteq> []"
  shows "ags_as_of t = ags_as_of s" "ags_configuration_fingerprint t = ags_configuration_fingerprint s"
    "ags_reconciliation_ids t = ags_reconciliation_ids s" "ags_cash t = ags_cash s" "ags_positions t = ags_positions s"
proof -
  have members: "set bs = set as" by (rule mset_eq_setD [OF assms(3)])
  obtain a where "a \<in> set as" using assms(4) by (cases as) auto
  with members show "ags_as_of t = ags_as_of s" "ags_configuration_fingerprint t = ags_configuration_fingerprint s"
    using assms(1,2) by (simp_all add: aggregation_inv_def)
  have "mset (source_cash bs) = mset (source_cash as)" "mset (source_positions bs) = mset (source_positions as)"
    unfolding source_cash_def source_positions_def by (rule mset_concat_map [OF assms(3)])+
  with assms(1,2) show "ags_cash t = ags_cash s" "ags_positions t = ags_positions s"
    by (auto simp: aggregation_inv_def intro: cash_unique positions_unique)
  show "ags_reconciliation_ids t = ags_reconciliation_ids s"
  proof (rule bt_ext)
    show "bt_sorted (ags_reconciliation_ids t)" "bt_sorted (ags_reconciliation_ids s)"
      using assms(1,2) by (simp_all add: aggregation_inv_def)
    show "bt_get (ags_reconciliation_ids t) k = bt_get (ags_reconciliation_ids s) k" for k
      using assms(1,2) members unfolding aggregation_inv_def by (metis option.exhaust)
  qed
qed

definition aggregated_key :: "aggregated_position \<Rightarrow> position_key" where
  "aggregated_key q = (agp_instrument_id q, agp_asset_class q, agp_currency q)"

lemma map_aggregated_key: "map aggregated_key (map aggregated m) = map fst m"
  by (auto simp: aggregated_key_def aggregated_def)

text \<open>What each aggregated position says of its sources.\<close>

definition sums_sources :: "account_snapshot list \<Rightarrow> aggregated_position \<Rightarrow> bool" where
  "sums_sources accounts q \<longleftrightarrow> (let held = of_key (aggregated_key q) (source_positions accounts) in
     held \<noteq> [] \<and> scaled (agp_quantity q) = (\<Sum>x\<leftarrow>held. scaled (mp_quantity (snd x)))
     \<and> scaled (agp_market_value q) = (\<Sum>x\<leftarrow>held. amount_or_0 (position_value (snd x)))
     \<and> set (agp_contributing_account_ids q) = fst ` set held
     \<and> (\<forall>x\<in>set held. mp_multiplier (snd x) = agp_multiplier q))"

lemma aggregated_sums_sources:
  assumes "positions_inv (source_positions accounts) m" "q \<in> set (map aggregated m)"
  shows "sums_sources accounts q"
proof -
  from assms(2) obtain i k c a where e: "((i, k, c), a) \<in> set m" and q: "q = aggregated ((i, k, c), a)" by auto
  from assms(1) have sorted: "bt_sorted m" and all: "summarises (source_positions accounts) (i, k, c) (bt_get m (i, k, c))"
    unfolding positions_inv_def by (rule conjunct1, blast)
  from e have "bt_get m (i, k, c) = Some a" by (simp only: bt_get_iff [OF sorted])
  with all show ?thesis by (simp add: summarises_def sums_sources_def q aggregated_def aggregated_key_def Let_def)
qed

lemma aggregation_exact_parts:
  assumes "aggregate_account_portfolios epoch accounts = Ok g"
  shows "distinct (map aps_account_id accounts)"
    and "\<forall>a\<in>set accounts. aps_as_of a = pag_as_of g
      \<and> aps_configuration_fingerprint a = pag_configuration_fingerprint g
      \<and> bt_get (pag_reconciliation_ids_by_account g) (aps_account_id a) = Some (aps_reconciliation_id a)"
    and "held_in (pag_cash_by_currency g) c =
      (\<Sum>x\<leftarrow>filter (\<lambda>x. fst x = c) (source_cash accounts). scaled (snd x))"
    and "\<forall>q\<in>set (pag_positions g). sums_sources accounts q"
    and "distinct (map aggregated_key (pag_positions g))"
    and "mset accounts' = mset accounts \<Longrightarrow> aggregate_account_portfolios epoch accounts' = Ok g' \<Longrightarrow> g' = g"
proof -
  from aggregate_account_portfolios_Ok [OF assms] obtain s where inv: "aggregation_inv accounts s"
    and ne: "accounts \<noteq> []" and g: "pag_as_of g = the (ags_as_of s)"
    "pag_configuration_fingerprint g = the (ags_configuration_fingerprint s)" "pag_account_count g = length accounts"
    "pag_reconciliation_ids_by_account g = ags_reconciliation_ids s" "pag_cash_by_currency g = ags_cash s"
    "pag_positions g = map aggregated (ags_positions s)"
    by blast
  from inv have pos: "positions_inv (source_positions accounts) (ags_positions s)" by (simp add: aggregation_inv_def)
  from inv show "distinct (map aps_account_id accounts)" by (simp add: aggregation_inv_def)
  from inv show "\<forall>a\<in>set accounts. aps_as_of a = pag_as_of g
      \<and> aps_configuration_fingerprint a = pag_configuration_fingerprint g
      \<and> bt_get (pag_reconciliation_ids_by_account g) (aps_account_id a) = Some (aps_reconciliation_id a)"
    by (auto simp: aggregation_inv_def g)
  from inv show "held_in (pag_cash_by_currency g) c =
      (\<Sum>x\<leftarrow>filter (\<lambda>x. fst x = c) (source_cash accounts). scaled (snd x))"
    by (simp add: aggregation_inv_def cash_inv_def g)
  show "\<forall>q\<in>set (pag_positions g). sums_sources accounts q"
    unfolding g using aggregated_sums_sources [OF pos] by blast
  show "distinct (map aggregated_key (pag_positions g))"
    using pos unfolding g map_aggregated_key positions_inv_def bt_sorted_def by (metis strict_sorted_iff)
  assume same: "mset accounts' = mset accounts" and "aggregate_account_portfolios epoch accounts' = Ok g'"
  from aggregate_account_portfolios_Ok [OF this(2)] obtain s' where inv': "aggregation_inv accounts' s'"
    and g': "pag_as_of g' = the (ags_as_of s')" "pag_account_count g' = length accounts'"
    "pag_configuration_fingerprint g' = the (ags_configuration_fingerprint s')"
    "pag_reconciliation_ids_by_account g' = ags_reconciliation_ids s'" "pag_cash_by_currency g' = ags_cash s'"
    "pag_positions g' = map aggregated (ags_positions s')"
    by blast
  have "length accounts' = length accounts" by (rule mset_eq_length [OF same])
  then show "g' = g"
    using aggregation_inv_unique [OF inv inv' same ne] by (intro portfolio_aggregate.equality) (simp_all add: g g')
qed

text \<open>The aggregate of reconciled accounts loses and invents nothing: one snapshot per account, all
  of one instant and one configuration, each with its reconciliation evidence; cash per currency is
  the sum of all accounts; each aggregated position has the summed quantity and marked value of
  exactly the accounts it names, which agree on the multiplier, and no two share an identity. Whatever
  order of the accounts succeeds, the aggregate is the same.\<close>

theorem aggregation_exact:
  assumes "aggregate_account_portfolios epoch accounts = Ok g"
  shows "distinct (map aps_account_id accounts)
    \<and> (\<forall>a\<in>set accounts. aps_as_of a = pag_as_of g
      \<and> aps_configuration_fingerprint a = pag_configuration_fingerprint g
      \<and> bt_get (pag_reconciliation_ids_by_account g) (aps_account_id a) = Some (aps_reconciliation_id a))
    \<and> held_in (pag_cash_by_currency g) c =
      (\<Sum>x\<leftarrow>filter (\<lambda>x. fst x = c) (source_cash accounts). scaled (snd x))
    \<and> (\<forall>q\<in>set (pag_positions g). sums_sources accounts q)
    \<and> distinct (map aggregated_key (pag_positions g))
    \<and> (mset accounts' = mset accounts \<and> aggregate_account_portfolios epoch accounts' = Ok g' \<longrightarrow> g' = g)"
  using aggregation_exact_parts [OF assms] by blast

definition sample_account :: "string \<Rightarrow> int \<Rightarrow> int \<Rightarrow> account_snapshot" where
  "sample_account account cash quantity = \<lparr>aps_account_id = account, aps_as_of = ''2026-03-02T10:00:00Z'',
     aps_reconciliation_id = ''r.'' @ account, aps_configuration_fingerprint = replicate 64 CHR ''a'',
     aps_cash_by_currency = [(Currency ''USD'', Decimal cash)],
     aps_positions = [\<lparr>mp_instrument_id = ''x'', mp_asset_class = ''equity'', mp_currency = Currency ''USD'',
       mp_quantity = Decimal quantity, mp_mark_price = Decimal 200000000, mp_multiplier = Decimal 100000000\<rparr>]\<rparr>"

theorem aggregation_exact_witness:
  "case aggregate_account_portfolios sample_seconds [sample_account ''a'' 5 300000000, sample_account ''b'' (-7) (-100000000)] of
     Inl _ \<Rightarrow> False | Inr g \<Rightarrow> held_in (pag_cash_by_currency g) (Currency ''USD'') = -2
       \<and> map agp_market_value (pag_positions g) = [Decimal 400000000]
       \<and> aggregate_account_portfolios sample_seconds [sample_account ''b'' (-7) (-100000000), sample_account ''a'' 5 300000000] = Ok g"
proof -
  let ?a = "sample_account ''a'' 5 300000000" and ?b = "sample_account ''b'' (-7) (-100000000)"
  have "case aggregate_account_portfolios sample_seconds [?a, ?b] of Inl _ \<Rightarrow> False
      | Inr g \<Rightarrow> map agp_market_value (pag_positions g) = [Decimal 400000000]"
    and "is_ok (aggregate_account_portfolios sample_seconds [?b, ?a])"
    by code_simp+
  then obtain g g' where g: "aggregate_account_portfolios sample_seconds [?a, ?b] = Ok g"
    and g': "aggregate_account_portfolios sample_seconds [?b, ?a] = Ok g'"
    and mv: "map agp_market_value (pag_positions g) = [Decimal 400000000]"
    by (auto simp: is_ok_iff split: sum.splits)
  have "mset [?b, ?a] = mset [?a, ?b]" by (simp add: add_mset_commute)
  note exact = aggregation_exact [OF g, of "Currency ''USD''" "[?b, ?a]" g']
  from exact have "held_in (pag_cash_by_currency g) (Currency ''USD'')
    = (\<Sum>x\<leftarrow>filter (\<lambda>x. fst x = Currency ''USD'') (source_cash [?a, ?b]). scaled (snd x))" by (elim conjE)
  moreover from exact \<open>mset [?b, ?a] = mset [?a, ?b]\<close> g' have "g' = g" by (elim conjE) (rule mp, assumption, rule conjI)
  ultimately show ?thesis using g g' mv by (simp add: source_cash_def sample_account_def)
qed

text \<open>The sums are checked one account at a time, so the order can decide whether they overflow.\<close>

lemma aggregation_overflow_depends_on_order:
  "is_ok (aggregate_account_portfolios sample_seconds
     [sample_account ''a'' (2 ^ 127 - 1) 1, sample_account ''b'' (-1) 1, sample_account ''c'' 1 1])"
  "\<not> is_ok (aggregate_account_portfolios sample_seconds
     [sample_account ''a'' (2 ^ 127 - 1) 1, sample_account ''c'' 1 1, sample_account ''b'' (-1) 1])"
  by code_simp+

end
