(* ===== verification/PaperModel.thy ===== *)
theory PaperModel
  imports Oms RiskFingerprint Margin
begin

text \<open>
  Component: the data of the paper trading service (\<^verbatim>\<open>core/paper/src\<close>: \<^verbatim>\<open>account.rs\<close>, \<^verbatim>\<open>market.rs\<close>,
  \<^verbatim>\<open>order.rs\<close>, \<^verbatim>\<open>kill_switch.rs\<close>, \<^verbatim>\<open>policy.rs\<close>, \<^verbatim>\<open>validation.rs\<close>, \<^verbatim>\<open>fingerprint.rs\<close>): the account, market
  observations, kill switches, the risk policy with its grid and position rules. The lemmas show
  that kill-switch keys are unambiguous, and when a switch blocks an order.
\<close>

section \<open>Account and market observations\<close>

record paper_account =
  pa_account_id :: string
  pa_currency :: string
  pa_initial_cash :: decimal
  pa_environment :: string

definition paper_account_validate :: "paper_account \<Rightarrow> unit result" where
  "paper_account_validate a =
     and_then (validate_canonical_id ''paper account_id'' (pa_account_id a)) (\<lambda>_.
     if length (pa_currency a) \<noteq> 3 \<or> \<not> list_all is_ascii_uppercase (pa_currency a)
        \<or> pa_initial_cash a < ZERO \<or> pa_environment a \<noteq> ''PAPER''
     then Err ''paper account must use a currency, non-negative cash, and PAPER environment'' else Ok ())"

record paper_market_data =
  pm_instrument_id :: string
  pm_mark_price :: decimal
  pm_observed_at :: string

definition paper_market_validate :: "(string \<Rightarrow> bool) \<Rightarrow> paper_market_data \<Rightarrow> unit result" where
  "paper_market_validate rfc3339 m =
     and_then (validate_canonical_id ''paper market instrument_id'' (pm_instrument_id m)) (\<lambda>_.
     and_then (validate_utc_timestamp rfc3339 ''paper market observation time'' (pm_observed_at m)) (\<lambda>_.
     if pm_mark_price m \<le> ZERO then Err ''paper market mark price must be positive'' else Ok ()))"

text \<open>A combination is observed by one mark per leg.\<close>

type_synonym paper_combo_market_data = "paper_market_data list"

definition mark_for :: "paper_combo_market_data \<Rightarrow> string \<Rightarrow> paper_market_data option" where
  "mark_for marks instrument_id = find (\<lambda>m. pm_instrument_id m = instrument_id) marks"

definition combo_market_validate_for :: "(string \<Rightarrow> bool) \<Rightarrow> combo_intent \<Rightarrow> paper_combo_market_data \<Rightarrow> unit result" where
  "combo_market_validate_for rfc3339 c marks =
     (if length marks \<noteq> length (co_legs c)
      then Err ''paper combo observation must carry exactly one mark per leg''
      else and_then (try_each (paper_market_validate rfc3339) marks) (\<lambda>_.
        try_each (\<lambda>leg. if mark_for marks (cl_instrument_id leg) = None
          then Err (''paper combo observation is missing a mark for '' @ cl_instrument_id leg) else Ok ())
          (co_legs c)))"

definition oldest_observed_at :: "paper_combo_market_data \<Rightarrow> string result" where
  "oldest_observed_at marks =
     (case map pm_observed_at marks of [] \<Rightarrow> Err ''paper combo observation is empty''
      | t # ts \<Rightarrow> Ok (fold (\<lambda>u v. min v u) ts t))"

definition validate_exchange_date :: "(string \<Rightarrow> bool) \<Rightarrow> string \<Rightarrow> unit result" where
  "validate_exchange_date rfc3339 v =
     (if length v \<noteq> 10 \<or> \<not> list_all (\<lambda>(i, c). if i \<in> {4, 7} then c = CHR ''-'' else is_ascii_digit c) (enumerate0 v)
      then Err ''exchange date must be YYYY-MM-DD''
      else validate_utc_timestamp rfc3339 ''exchange date'' (v @ ''T00:00:00Z''))"

definition validate_broker_reason :: "string \<Rightarrow> string \<Rightarrow> unit result" where
  "validate_broker_reason name v =
     (if trim v = [] \<or> length v > 1024 then Err (name @ '' must contain 1 to 1024 characters'') else Ok ())"

section \<open>Kill switches\<close>

datatype kill_switch_scope =
    GlobalScope | AccountScope string | StrategyScope string | InstrumentScope string

text \<open>The derived order: variants in declaration order, then their text.\<close>

fun scope_rank :: "kill_switch_scope \<Rightarrow> nat \<times> string" where
  "scope_rank GlobalScope = (0, [])"
| "scope_rank (AccountScope a) = (1, a)"
| "scope_rank (StrategyScope a) = (2, a)"
| "scope_rank (InstrumentScope a) = (3, a)"

lemma scope_rank_inj [simp]: "scope_rank s = scope_rank t \<longleftrightarrow> s = t"
  by (cases s; cases t) auto

instantiation kill_switch_scope :: linorder
begin

definition less_eq_kill_switch_scope :: "kill_switch_scope \<Rightarrow> kill_switch_scope \<Rightarrow> bool" where
  "less_eq_kill_switch_scope a b \<longleftrightarrow> scope_rank a \<le> scope_rank b"

definition less_kill_switch_scope :: "kill_switch_scope \<Rightarrow> kill_switch_scope \<Rightarrow> bool" where
  "less_kill_switch_scope a b \<longleftrightarrow> scope_rank a < scope_rank b"

instance
proof
  fix a b :: kill_switch_scope
  show "a \<le> b \<Longrightarrow> b \<le> a \<Longrightarrow> a = b"
    unfolding less_eq_kill_switch_scope_def by (metis antisym scope_rank_inj)
next
  fix a b :: kill_switch_scope
  show "a < b \<longleftrightarrow> a \<le> b \<and> \<not> b \<le> a"
    unfolding less_eq_kill_switch_scope_def less_kill_switch_scope_def by (rule less_le_not_le)
next
  fix a b c :: kill_switch_scope
  show "a \<le> a" by (simp add: less_eq_kill_switch_scope_def)
  show "a \<le> b \<Longrightarrow> b \<le> c \<Longrightarrow> a \<le> c"
    unfolding less_eq_kill_switch_scope_def by (rule order_trans)
  show "a \<le> b \<or> b \<le> a"
    unfolding less_eq_kill_switch_scope_def by (rule linear)
qed

end

fun scope_as_key :: "kill_switch_scope \<Rightarrow> string" where
  "scope_as_key GlobalScope = ''global''"
| "scope_as_key (AccountScope a) = ''account:'' @ a"
| "scope_as_key (StrategyScope a) = ''strategy:'' @ a"
| "scope_as_key (InstrumentScope a) = ''instrument:'' @ a"

fun scope_validate :: "kill_switch_scope \<Rightarrow> unit result" where
  "scope_validate GlobalScope = Ok ()"
| "scope_validate (AccountScope v) = validate_canonical_id ''kill-switch account'' v"
| "scope_validate (StrategyScope v) = validate_canonical_id ''kill-switch strategy'' v"
| "scope_validate (InstrumentScope v) = validate_canonical_id ''kill-switch instrument'' v"

definition strip_prefix :: "string \<Rightarrow> string \<Rightarrow> string option" where
  "strip_prefix p s = (if take (length p) s = p then Some (drop (length p) s) else None)"

fun first_prefix :: "string \<Rightarrow> (string \<times> (string \<Rightarrow> kill_switch_scope)) list \<Rightarrow> kill_switch_scope option" where
  "first_prefix v [] = None"
| "first_prefix v ((p, build) # rest) = (case strip_prefix p v of
     Some target \<Rightarrow> Some (build target) | None \<Rightarrow> first_prefix v rest)"

definition scope_prefixes :: "(string \<times> (string \<Rightarrow> kill_switch_scope)) list" where
  "scope_prefixes = [(''account:'', AccountScope), (''strategy:'', StrategyScope), (''instrument:'', InstrumentScope)]"

definition scope_from_key :: "string \<Rightarrow> kill_switch_scope result" where
  "scope_from_key v =
     (if v = ''global'' then Ok GlobalScope
      else case first_prefix v scope_prefixes of
        Some s \<Rightarrow> and_then (scope_validate s) (\<lambda>_. Ok s)
      | None \<Rightarrow> Err ''kill-switch scope must be global, account:<id>, strategy:<id> or instrument:<id>'')"

datatype kill_switch_action = ActivateSwitch | ReleaseSwitch

fun kill_switch_action_as_str :: "kill_switch_action \<Rightarrow> string" where
  "kill_switch_action_as_str ActivateSwitch = ''ACTIVATE''"
| "kill_switch_action_as_str ReleaseSwitch = ''RELEASE''"

record kill_switch_operation =
  kso_scope :: string
  kso_action :: kill_switch_action
  kso_operator :: string
  kso_operated_at :: string

datatype order_operation_action = CancelRequested

record order_operation =
  oop_order_id :: string
  oop_action :: order_operation_action
  oop_operator :: string
  oop_operated_at :: string

record kill_switch_registry =
  ksr_version :: string
  ksr_active :: "kill_switch_scope btree_set"

definition kill_switch_registry_new :: "string \<Rightarrow> kill_switch_registry result" where
  "kill_switch_registry_new version =
     (if version = [] then Err ''kill-switch version is required''
      else Ok \<lparr>ksr_version = version, ksr_active = []\<rparr>)"

definition ks_activate :: "kill_switch_scope \<Rightarrow> (kill_switch_registry, bool) op" where
  "ks_activate s =
     op_bind (op_lift (scope_validate s)) (\<lambda>_.
     op_bind (op_get (\<lambda>r. \<not> bs_contains s (ksr_active r))) (\<lambda>fresh.
     op_bind (op_modify (ksr_active_update (bs_insert s))) (\<lambda>_. op_return fresh)))"

definition ks_deactivate :: "kill_switch_scope \<Rightarrow> (kill_switch_registry, bool) op" where
  "ks_deactivate s =
     op_bind (op_get (\<lambda>r. bs_contains s (ksr_active r))) (\<lambda>present.
     op_bind (op_modify (ksr_active_update (bs_remove s))) (\<lambda>_. op_return present))"

definition ks_active_keys :: "kill_switch_registry \<Rightarrow> string list" where
  "ks_active_keys r = map scope_as_key (ksr_active r)"

definition scope_reason :: "kill_switch_scope \<Rightarrow> string" where
  "scope_reason s = ''KILL_SWITCH_''
     @ map (\<lambda>c. if c = CHR '':'' then CHR ''_'' else c) (to_ascii_uppercase (scope_as_key s))"

definition relevant_scopes :: "string \<Rightarrow> string \<Rightarrow> string list \<Rightarrow> kill_switch_scope list" where
  "relevant_scopes account_id strategy_id instrument_ids =
     [GlobalScope, AccountScope account_id, StrategyScope strategy_id] @ map InstrumentScope instrument_ids"

definition reasons_for :: "kill_switch_registry \<Rightarrow> string \<Rightarrow> string \<Rightarrow> string list \<Rightarrow> string list" where
  "reasons_for r account_id strategy_id instrument_ids =
     dedup (map scope_reason (filter (\<lambda>s. bs_contains s (ksr_active r))
       (relevant_scopes account_id strategy_id instrument_ids)))"

definition ks_rejection_reasons :: "kill_switch_registry \<Rightarrow> order_intent \<Rightarrow> string list" where
  "ks_rejection_reasons r i = reasons_for r (oi_account_id i) (oi_strategy_id i) [oi_instrument_id i]"

definition ks_combo_rejection_reasons :: "kill_switch_registry \<Rightarrow> combo_intent \<Rightarrow> string list" where
  "ks_combo_rejection_reasons r c =
     reasons_for r (co_account_id c) (co_strategy_id c) (map cl_instrument_id (co_legs c))"

section \<open>Keys and switches\<close>

lemma strip_prefix_append [simp]: "strip_prefix p (p @ s) = Some s"
  by (simp add: strip_prefix_def)

lemma strip_prefix_eq_Some [result_simps]: "strip_prefix p s = Some t \<longleftrightarrow> s = p @ t"
  by (metis append_take_drop_id strip_prefix_append strip_prefix_def option.distinct(1) option.inject)

lemma first_prefix_SomeD:
  "first_prefix v rest = Some t \<Longrightarrow> \<exists>p build x. (p, build) \<in> set rest \<and> p @ x = v \<and> t = build x"
proof (induction rest)
  case (Cons e rest)
  obtain p build where e: "e = (p, build)" by (cases e)
  show ?case
  proof (cases "strip_prefix p v")
    case None
    with Cons e show ?thesis by fastforce
  next
    case (Some x)
    with Cons.prems e strip_prefix_eq_Some [of p v x] show ?thesis by auto
  qed
qed simp

lemma scope_from_key_as_key:
  "scope_from_key k = Inr s \<longleftrightarrow> scope_as_key s = k \<and> scope_validate s = Ok ()"
proof
  assume ok: "scope_from_key k = Inr s"
  show "scope_as_key s = k \<and> scope_validate s = Ok ()"
  proof (cases "k = ''global''")
    case True
    with ok show ?thesis by (simp add: scope_from_key_def)
  next
    case False
    with ok have t: "first_prefix k scope_prefixes = Some s" and s: "scope_validate s = Ok ()"
      by (auto simp: scope_from_key_def and_then_eq_Inr split: option.splits)
    from first_prefix_SomeD [OF t] obtain x where
      "s = AccountScope x \<and> ''account:'' @ x = k \<or> s = StrategyScope x \<and> ''strategy:'' @ x = k
        \<or> s = InstrumentScope x \<and> ''instrument:'' @ x = k" by (auto simp: scope_prefixes_def)
    then have "scope_as_key s = k" by (elim disjE) simp_all
    with s show ?thesis by simp
  qed
next
  assume "scope_as_key s = k \<and> scope_validate s = Ok ()"
  then show "scope_from_key k = Inr s"
    by (cases s) (auto simp: scope_from_key_def scope_prefixes_def strip_prefix_def and_then_eq_Inr)
qed

lemma reasons_for_eq_Nil:
  "reasons_for r a s is = [] \<longleftrightarrow> (\<forall>x\<in>set (relevant_scopes a s is). x \<notin> set (ksr_active r))"
  by (auto simp: reasons_for_def filter_empty_conv bs_contains_def)

text \<open>A history of operator requests.\<close>

type_synonym switch_request = "kill_switch_action \<times> kill_switch_scope"

fun switch_step :: "switch_request \<Rightarrow> kill_switch_registry \<Rightarrow> kill_switch_registry" where
  "switch_step (ActivateSwitch, s) r = snd (ks_activate s r)"
| "switch_step (ReleaseSwitch, s) r = snd (ks_deactivate s r)"

definition last_action :: "switch_request list \<Rightarrow> kill_switch_scope \<Rightarrow> kill_switch_action option" where
  "last_action requests s = map_option fst (find (\<lambda>q. snd q = s) (rev requests))"

definition left_on :: "switch_request list \<Rightarrow> kill_switch_scope \<Rightarrow> bool" where
  "left_on requests s \<longleftrightarrow> scope_validate s = Ok () \<and> last_action requests s = Some ActivateSwitch"

lemma ks_activate_simps:
  "ks_activate s r = (case scope_validate s of Inl e \<Rightarrow> (Inl e, r)
     | Inr _ \<Rightarrow> (Ok (s \<notin> set (ksr_active r)), r\<lparr>ksr_active := bs_insert s (ksr_active r)\<rparr>))"
  by (cases "scope_validate s") (simp_all add: ks_activate_def bs_contains_def)

lemma ks_deactivate_simps:
  "ks_deactivate s r = (Ok (s \<in> set (ksr_active r)), r\<lparr>ksr_active := bs_remove s (ksr_active r)\<rparr>)"
  by (simp add: ks_deactivate_def bs_contains_def)

lemma active_after_requests:
  assumes "kill_switch_registry_new v = Ok r\<^sub>0"
  shows "bs_sorted (ksr_active (fold switch_step requests r\<^sub>0)) \<and>
    (s \<in> set (ksr_active (fold switch_step requests r\<^sub>0)) \<longleftrightarrow> left_on requests s)"
proof (induction requests rule: rev_induct)
  case Nil
  show ?case using assms by (auto simp: kill_switch_registry_new_def left_on_def last_action_def split: if_splits)
next
  case (snoc q requests)
  obtain action t where q: "q = (action, t)" by (cases q)
  show ?case
    using snoc
    by (cases action)
      (auto simp: q ks_activate_simps ks_deactivate_simps bs_sorted_insert bs_sorted_remove left_on_def last_action_def
        split: sum.splits)
qed

section \<open>Properties\<close>

lemma kill_switches_block_exactly_parts:
  fixes requests :: "switch_request list"
  assumes "kill_switch_registry_new v = Ok r\<^sub>0"
  defines "r \<equiv> fold switch_step requests r\<^sub>0"
  shows "ks_rejection_reasons r i \<noteq> [] \<longleftrightarrow>
      (\<exists>s\<in>{GlobalScope, AccountScope (oi_account_id i), StrategyScope (oi_strategy_id i),
        InstrumentScope (oi_instrument_id i)}. left_on requests s)"
    and "ks_combo_rejection_reasons r c \<noteq> [] \<longleftrightarrow>
      (\<exists>s\<in>{GlobalScope, AccountScope (co_account_id c), StrategyScope (co_strategy_id c)}
        \<union> InstrumentScope ` cl_instrument_id ` set (co_legs c). left_on requests s)"
    and "map scope_from_key (ks_active_keys r) = map Inr (ksr_active r)"
proof -
  note active = active_after_requests [OF assms(1), of requests, folded r_def]
  show "ks_rejection_reasons r i \<noteq> [] \<longleftrightarrow>
      (\<exists>s\<in>{GlobalScope, AccountScope (oi_account_id i), StrategyScope (oi_strategy_id i),
        InstrumentScope (oi_instrument_id i)}. left_on requests s)"
    using active by (auto simp: ks_rejection_reasons_def reasons_for_eq_Nil relevant_scopes_def)
  show "ks_combo_rejection_reasons r c \<noteq> [] \<longleftrightarrow>
      (\<exists>s\<in>{GlobalScope, AccountScope (co_account_id c), StrategyScope (co_strategy_id c)}
        \<union> InstrumentScope ` cl_instrument_id ` set (co_legs c). left_on requests s)"
    using active by (auto simp: ks_combo_rejection_reasons_def reasons_for_eq_Nil relevant_scopes_def)
  show "map scope_from_key (ks_active_keys r) = map Inr (ksr_active r)"
    using active by (auto simp: ks_active_keys_def scope_from_key_as_key left_on_def)
qed

text \<open>C16: Kill switches block exactly what they name. After any sequence of activations and releases, an
  order is refused if and only if, for one of the four scopes it falls under (global, its account,
  its strategy, its instrument), the scope is well formed and the last request about it was an
  activation; a combination is refused when any leg is; and the key under which an active switch
  is reported determines the switch.\<close>

theorem kill_switches_block_exactly:
  fixes requests :: "switch_request list"
  assumes "kill_switch_registry_new v = Ok r\<^sub>0"
  defines "r \<equiv> fold switch_step requests r\<^sub>0"
  shows "(ks_rejection_reasons r i \<noteq> [] \<longleftrightarrow>
      (\<exists>s\<in>{GlobalScope, AccountScope (oi_account_id i), StrategyScope (oi_strategy_id i),
        InstrumentScope (oi_instrument_id i)}. left_on requests s))
    \<and> (ks_combo_rejection_reasons r c \<noteq> [] \<longleftrightarrow>
      (\<exists>s\<in>{GlobalScope, AccountScope (co_account_id c), StrategyScope (co_strategy_id c)}
        \<union> InstrumentScope ` cl_instrument_id ` set (co_legs c). left_on requests s))
    \<and> map scope_from_key (ks_active_keys r) = map Inr (ksr_active r)"
  using kill_switches_block_exactly_parts [OF assms(1), of requests] unfolding r_def by blast

theorem kill_switches_block_exactly_witness:
  "ks_rejection_reasons (fold switch_step [(ActivateSwitch, AccountScope ''a''), (ActivateSwitch, GlobalScope),
      (ReleaseSwitch, GlobalScope)] \<lparr>ksr_version = ''v1'', ksr_active = []\<rparr>) sample_intent \<noteq> []"
proof -
  have "kill_switch_registry_new ''v1'' = Ok \<lparr>ksr_version = ''v1'', ksr_active = []\<rparr>"
    by (simp add: kill_switch_registry_new_def)
  note exact = conjunct1 [OF kill_switches_block_exactly [OF this, of "[(ActivateSwitch, AccountScope ''a''), (ActivateSwitch, GlobalScope),
      (ReleaseSwitch, GlobalScope)]" sample_intent]]
  have "left_on [(ActivateSwitch, AccountScope ''a''), (ActivateSwitch, GlobalScope), (ReleaseSwitch, GlobalScope)]
      (AccountScope (oi_account_id sample_intent))"
    by (simp add: left_on_def last_action_def sample_intent_def validate_canonical_id_def is_id_byte_def byte_simps)
  with exact show ?thesis by blast
qed

end
