(* ===== verification/PaperPolicy.thy ===== *)
theory PaperPolicy
  imports PaperModel
begin

text \<open>
  Component: the risk policy of the paper service and the fingerprint its journal is bound to
  (\<^verbatim>\<open>core/paper/src/policy.rs\<close>, \<^verbatim>\<open>fingerprint.rs\<close>, \<^verbatim>\<open>service/persistence.rs\<close>): tick and lot grids,
  position bounds, validation, and the parts that are hashed. The lemmas show which orders the grids
  refuse, that the position rule is the interval of the configured bounds, and that the bytes
  hashed for a configuration determine it.
\<close>

section \<open>The policy\<close>

record instrument_bucket =
  ib_asset_class :: string
  ib_currency :: string
  ib_sector :: string

record portfolio_risk_composition =
  prc_policy :: portfolio_risk_policy
  prc_instrument_buckets :: "(string, instrument_bucket) btree_map"
  prc_margin_rates :: "(string, margin_rate) btree_map option"

text \<open>\<^verbatim>\<open>ShortExposurePolicy\<close> has the single field \<^verbatim>\<open>max_short_quantity\<close>.\<close>

record short_exposure_policy =
  sep_max_short_quantity :: decimal

record paper_risk_policy =
  ppo_version :: string
  ppo_trading_calendar_id :: string
  ppo_max_order_quantity :: decimal
  ppo_max_order_notional :: decimal
  ppo_max_price_deviation_bps :: decimal
  ppo_max_open_orders :: nat
  ppo_max_position_quantity :: decimal
  ppo_max_realized_loss :: decimal
  ppo_max_market_data_age_seconds :: nat
  ppo_max_order_rate :: nat
  ppo_order_rate_window_seconds :: nat
  ppo_portfolio_risk :: "portfolio_risk_composition option"
  ppo_short_exposure :: "short_exposure_policy option"
  ppo_instrument_tick_sizes :: "(string, decimal) btree_map"
  ppo_instrument_lot_sizes :: "(string, decimal) btree_map"

definition tick_rejection :: "paper_risk_policy \<Rightarrow> string \<Rightarrow> decimal option \<Rightarrow> string option" where
  "tick_rejection p instrument_id limit_price =
     (case bt_get (ppo_instrument_tick_sizes p) instrument_id of
        None \<Rightarrow> Some ''INSTRUMENT_TICK_SIZE_UNCONFIGURED''
      | Some tick \<Rightarrow>
          if (case limit_price of None \<Rightarrow> False | Some price \<Rightarrow> scaled price smod scaled tick \<noteq> 0)
          then Some ''LIMIT_PRICE_OFF_TICK_GRID'' else None)"

definition lot_rejection :: "paper_risk_policy \<Rightarrow> string \<Rightarrow> decimal \<Rightarrow> string option" where
  "lot_rejection p instrument_id quantity =
     (case bt_get (ppo_instrument_lot_sizes p) instrument_id of
        None \<Rightarrow> Some ''INSTRUMENT_LOT_SIZE_UNCONFIGURED''
      | Some lot \<Rightarrow> if scaled quantity smod scaled lot \<noteq> 0 then Some ''ORDER_QUANTITY_OFF_LOT_SIZE'' else None)"

text \<open>The finest grid is the least tick listed for a leg.\<close>

definition finest_tick :: "paper_risk_policy \<Rightarrow> combo_intent \<Rightarrow> decimal option" where
  "finest_tick p c =
     (case List.map_filter (\<lambda>leg. bt_get (ppo_instrument_tick_sizes p) (cl_instrument_id leg)) (co_legs c) of
        [] \<Rightarrow> None | t # ts \<Rightarrow> Some (fold (\<lambda>u v. min v u) ts t))"

definition combo_tick_rejections :: "paper_risk_policy \<Rightarrow> combo_intent \<Rightarrow> string list" where
  "combo_tick_rejections p c =
     List.map_filter (\<lambda>leg. tick_rejection p (cl_instrument_id leg) (Some (cl_limit_price leg))) (co_legs c)
     @ (if (case finest_tick p c of None \<Rightarrow> False
            | Some tick \<Rightarrow> scaled (combo_limit_amount (co_price_limit c)) smod scaled tick \<noteq> 0)
        then [''COMBO_NET_PRICE_OFF_TICK_GRID''] else [])"

definition breaches_position_limit :: "paper_risk_policy \<Rightarrow> decimal \<Rightarrow> bool result" where
  "breaches_position_limit p projected =
     (if projected > ppo_max_position_quantity p then Ok True
      else if projected < ZERO
      then case ppo_short_exposure p of
             None \<Rightarrow> Ok True
           | Some permission \<Rightarrow> and_then (checked_sub ZERO projected) (\<lambda>short.
               Ok (short > sep_max_short_quantity permission))
      else Ok False)"

section \<open>Validation\<close>

definition unpaired_instrument :: "(string, decimal) btree_map \<Rightarrow> (string, decimal) btree_map \<Rightarrow> string option" where
  "unpaired_instrument tick_sizes lot_sizes =
     (case find (\<lambda>i. bt_get lot_sizes i = None) (map fst tick_sizes) of
        Some i \<Rightarrow> Some i
      | None \<Rightarrow> find (\<lambda>i. bt_get tick_sizes i = None) (map fst lot_sizes))"

definition paper_limits_invalid :: "paper_risk_policy \<Rightarrow> decimal \<Rightarrow> bool" where
  "paper_limits_invalid p ten_thousand \<longleftrightarrow>
     ppo_version p = [] \<or> \<not> is_ok (validate_canonical_id ''paper trading_calendar_id'' (ppo_trading_calendar_id p))
     \<or> ppo_max_order_quantity p \<le> ZERO \<or> ppo_max_order_notional p \<le> ZERO
     \<or> ppo_max_price_deviation_bps p < ZERO \<or> ppo_max_price_deviation_bps p \<ge> ten_thousand
     \<or> ppo_max_open_orders p = 0 \<or> ppo_max_position_quantity p \<le> ZERO \<or> ppo_max_realized_loss p < ZERO
     \<or> ppo_max_market_data_age_seconds p = 0 \<or> ppo_max_order_rate p = 0 \<or> ppo_order_rate_window_seconds p = 0"

definition increments_invalid :: "string \<Rightarrow> (string, decimal) btree_map \<Rightarrow> bool" where
  "increments_invalid name table \<longleftrightarrow>
     table = [] \<or> list_ex (\<lambda>(i, v). \<not> is_ok (validate_canonical_id name i) \<or> v \<le> ZERO) table"

definition bucket_validate :: "instrument_bucket \<Rightarrow> unit result" where
  "bucket_validate b =
     (if \<not> is_ok (validate_canonical_id ''instrument bucket asset_class'' (ib_asset_class b))
         \<or> \<not> is_ok (validate_canonical_id ''instrument bucket sector'' (ib_sector b))
         \<or> length (ib_currency b) \<noteq> 3 \<or> \<not> list_all is_ascii_uppercase (ib_currency b)
      then Err ''invalid instrument bucket reference data'' else Ok ())"

definition margin_rates_validate :: "(string, margin_rate) btree_map \<Rightarrow> unit result" where
  "margin_rates_validate rates =
     (if rates = [] then Err ''configured margin_rates must not be empty''
      else try_each (\<lambda>(asset_class, r).
        if \<not> is_ok (validate_canonical_id ''margin rate asset_class'' asset_class)
           \<or> mr_initial_bps r > 10000 \<or> mr_maintenance_bps r > mr_initial_bps r \<or> mr_maintenance_bps r = 0
        then Err ''invalid margin rate'' else Ok ()) rates)"

definition composition_validate :: "portfolio_risk_composition \<Rightarrow> unit result" where
  "composition_validate c =
     and_then (portfolio_policy_validate (prc_policy c)) (\<lambda>_.
     and_then (try_each (\<lambda>(_, b). bucket_validate b) (prc_instrument_buckets c)) (\<lambda>_.
     case prc_margin_rates c of None \<Rightarrow> Ok () | Some rates \<Rightarrow> margin_rates_validate rates))"

definition paper_policy_validate :: "paper_risk_policy \<Rightarrow> unit result" where
  "paper_policy_validate p =
     and_then (from_integer 10000) (\<lambda>ten_thousand.
     if paper_limits_invalid p ten_thousand then Err ''invalid paper risk policy''
     else if increments_invalid ''tick-size instrument_id'' (ppo_instrument_tick_sizes p)
     then Err ''paper risk policy needs a positive tick size per listed instrument''
     else if increments_invalid ''lot-size instrument_id'' (ppo_instrument_lot_sizes p)
     then Err ''paper risk policy needs a positive lot size per listed instrument''
     else case unpaired_instrument (ppo_instrument_tick_sizes p) (ppo_instrument_lot_sizes p) of
       Some i \<Rightarrow> Err (''paper risk policy lists '' @ i @ '' in only one of its tick and lot tables'')
     | None \<Rightarrow>
         if (case ppo_short_exposure p of None \<Rightarrow> False
             | Some permission \<Rightarrow> sep_max_short_quantity permission \<le> ZERO)
         then Err ''paper short-exposure permission must state a positive bound''
         else case ppo_portfolio_risk p of None \<Rightarrow> Ok () | Some c \<Rightarrow> composition_validate c)"

section \<open>The configuration fingerprint\<close>

definition render_bucket :: "string \<times> instrument_bucket \<Rightarrow> string" where
  "render_bucket = (\<lambda>(i, b). i @ '':'' @ ib_asset_class b @ '':'' @ ib_currency b @ '':'' @ ib_sector b)"

definition render_margin_rate :: "string \<times> margin_rate \<Rightarrow> string" where
  "render_margin_rate = (\<lambda>(asset_class, r).
     asset_class @ '':'' @ show_nat (mr_initial_bps r) @ '':'' @ show_nat (mr_maintenance_bps r))"

definition portfolio_risk_fingerprint_parts :: "portfolio_risk_composition \<Rightarrow> string list" where
  "portfolio_risk_fingerprint_parts c =
     canonical_parts (prc_policy c)
     @ [''instrument_buckets='' @ join ''|'' (map render_bucket (prc_instrument_buckets c)),
        ''margin_rates='' @ (case prc_margin_rates c of None \<Rightarrow> ''none''
          | Some rates \<Rightarrow> join ''|'' (map render_margin_rate rates))]"

definition render_instrument_entry :: "string \<times> decimal \<Rightarrow> string" where
  "render_instrument_entry = (\<lambda>(i, v). i @ '':'' @ decimal_to_string v)"

definition render_instrument_table :: "(string, decimal) btree_map \<Rightarrow> string" where
  "render_instrument_table table = join ''|'' (map render_instrument_entry table)"

definition render_leg_entries :: "combo_intent \<Rightarrow> (string, decimal) btree_map \<Rightarrow> string" where
  "render_leg_entries c table = join ''|'' (map (\<lambda>leg. cl_instrument_id leg @ '':''
     @ (case bt_get table (cl_instrument_id leg) of None \<Rightarrow> ''UNCONFIGURED'' | Some v \<Rightarrow> decimal_to_string v))
     (co_legs c))"

text \<open>Every part is preceded by its length as eight bytes, most significant first.\<close>

definition u64_be_bytes :: "nat \<Rightarrow> string" where
  "u64_be_bytes n = map (\<lambda>k. char_of ((n div 256 ^ k) mod 256)) [7, 6, 5, 4, 3, 2, 1, 0]"

definition fingerprint_bytes :: "string list \<Rightarrow> string" where
  "fingerprint_bytes parts = concat (map (\<lambda>p. u64_be_bytes (length p) @ p) parts)"

definition hash_fingerprint_parts :: "(string \<Rightarrow> string) \<Rightarrow> string list \<Rightarrow> string" where
  "hash_fingerprint_parts sha256_hex parts = sha256_hex (fingerprint_bytes parts)"

record paper_configuration =
  pcf_account :: paper_account
  pcf_risk_policy :: paper_risk_policy
  pcf_kill_switch_version :: string
  pcf_broker_route :: string

definition configuration_parts :: "paper_configuration \<Rightarrow> string list" where
  "configuration_parts c = (let a = pcf_account c; p = pcf_risk_policy c in
     [''paper-configuration-v3'', pa_account_id a, pa_currency a, decimal_to_string (pa_initial_cash a),
      pa_environment a, ppo_version p, ppo_trading_calendar_id p,
      decimal_to_string (ppo_max_order_quantity p), decimal_to_string (ppo_max_order_notional p),
      decimal_to_string (ppo_max_price_deviation_bps p), show_nat (ppo_max_open_orders p),
      decimal_to_string (ppo_max_position_quantity p), decimal_to_string (ppo_max_realized_loss p),
      show_nat (ppo_max_market_data_age_seconds p), show_nat (ppo_max_order_rate p),
      show_nat (ppo_order_rate_window_seconds p), pcf_kill_switch_version c]
     @ (case ppo_short_exposure p of None \<Rightarrow> []
        | Some s \<Rightarrow> [''paper-short-exposure-v1'', decimal_to_string (sep_max_short_quantity s)])
     @ (if pcf_broker_route c \<noteq> [] then [''paper-broker-route-fingerprint-v1'', pcf_broker_route c] else [])
     @ (let portfolio_risk_parts = (case ppo_portfolio_risk p of None \<Rightarrow> []
          | Some r \<Rightarrow> portfolio_risk_fingerprint_parts r)
        in if portfolio_risk_parts \<noteq> [] then ''paper-portfolio-risk-v2'' # portfolio_risk_parts else [])
     @ [''paper-instrument-ticks-v1'', render_instrument_table (ppo_instrument_tick_sizes p),
        ''paper-instrument-lots-v1'', render_instrument_table (ppo_instrument_lot_sizes p)])"

definition configuration_fingerprint :: "(string \<Rightarrow> string) \<Rightarrow> paper_configuration \<Rightarrow> string" where
  "configuration_fingerprint sha256_hex c = hash_fingerprint_parts sha256_hex (configuration_parts c)"

section \<open>The grids and the position bounds\<close>

lemma tick_rejection_None:
  "tick_rejection p i price = None \<longleftrightarrow>
     (\<exists>tick. bt_get (ppo_instrument_tick_sizes p) i = Some tick \<and> (\<forall>v. price = Some v \<longrightarrow> scaled tick dvd scaled v))"
  by (auto simp: tick_rejection_def smod_eq_0_iff_dvd split: option.splits)

lemma lot_rejection_None:
  "lot_rejection p i quantity = None \<longleftrightarrow>
     (\<exists>lot. bt_get (ppo_instrument_lot_sizes p) i = Some lot \<and> scaled lot dvd scaled quantity)"
  by (auto simp: lot_rejection_def smod_eq_0_iff_dvd split: option.splits)

definition short_bound :: "paper_risk_policy \<Rightarrow> int" where
  "short_bound p = (case ppo_short_exposure p of None \<Rightarrow> 0 | Some s \<Rightarrow> scaled (sep_max_short_quantity s))"

lemma breaches_position_limit_Ok:
  assumes "breaches_position_limit p v = Inr b" "0 \<le> short_bound p" "0 \<le> scaled (ppo_max_position_quantity p)"
  shows "b \<longleftrightarrow> \<not> (- short_bound p \<le> scaled v \<and> scaled v \<le> scaled (ppo_max_position_quantity p))"
  using assms
  by (auto simp: breaches_position_limit_def short_bound_def decimal_cmp and_then_eq_Inr checked_sub_eq_Ok
      split: if_splits option.splits)

section \<open>The hashed bytes\<close>

lemma of_char_char_of_mod: "char_of (m mod 256 :: nat) = char_of (n mod 256) \<longleftrightarrow> m mod 256 = n mod 256"
  by (metis char_of_eq_iff of_char_mod_256 mod_mod_trivial char_of_mod_256 of_char_of)

lemma mod_power_Suc_eq:
  fixes m n b :: nat
  assumes "m div b ^ k mod b = n div b ^ k mod b" "m mod b ^ k = n mod b ^ k"
  shows "m mod b ^ Suc k = n mod b ^ Suc k"
  using assms by (simp add: mod_mult2_eq mult.commute [of b])

lemma u64_be_bytes_inj:
  assumes "u64_be_bytes m = u64_be_bytes n" "m < 2 ^ 64" "n < 2 ^ 64"
  shows "m = n"
proof -
  have digit: "m div 256 ^ k mod 256 = n div 256 ^ k mod 256" if "k \<in> set [7, 6, 5, 4, 3, 2, 1, 0]" for k
    using assms(1) that unfolding u64_be_bytes_def map_eq_conv of_char_char_of_mod by blast
  have step: "k \<le> 8 \<Longrightarrow> m mod 256 ^ k = n mod 256 ^ k" for k
  proof (induction k)
    case (Suc k)
    then have "k \<in> set [7, 6, 5, 4, 3, 2, 1, 0]" by auto
    with Suc show ?case by (intro mod_power_Suc_eq digit) simp_all
  qed simp
  from step [of 8] assms(2,3) show ?thesis by simp
qed

lemma fingerprint_bytes_inj:
  assumes "fingerprint_bytes ps = fingerprint_bytes qs"
    and "\<forall>p\<in>set ps \<union> set qs. length p < 2 ^ 64"
  shows "ps = qs"
  using assms
proof (induction ps arbitrary: qs)
  case Nil
  then show ?case by (cases qs) (auto simp: fingerprint_bytes_def u64_be_bytes_def)
next
  case (Cons p ps)
  then obtain q qs' where qs: "qs = q # qs'"
    by (cases qs) (auto simp: fingerprint_bytes_def u64_be_bytes_def)
  have len: "length (u64_be_bytes n) = 8" for n by (simp add: u64_be_bytes_def)
  from Cons.prems(1) have "u64_be_bytes (length p) @ p @ fingerprint_bytes ps = u64_be_bytes (length q) @ q @ fingerprint_bytes qs'"
    by (simp add: fingerprint_bytes_def qs)
  then have bytes: "u64_be_bytes (length p) = u64_be_bytes (length q)"
    and rest: "p @ fingerprint_bytes ps = q @ fingerprint_bytes qs'"
    by (auto simp: append_eq_append_conv len)
  have "length p = length q"
    by (rule u64_be_bytes_inj [OF bytes]) (use Cons.prems(2) qs in auto)
  with rest have "p = q" "fingerprint_bytes ps = fingerprint_bytes qs'" by simp_all
  moreover have "ps = qs'" by (rule Cons.IH) (use calculation Cons.prems(2) qs in auto)
  ultimately show ?case by (simp add: qs)
qed

lemma increments_canonical:
  "\<not> increments_invalid name m \<Longrightarrow> (i, v) \<in> set m \<Longrightarrow> canonical_id i \<and> 0 < scaled v"
  by (auto simp: increments_invalid_def list_ex_iff is_ok_unit result_simps decimal_cmp not_le)

lemma render_instrument_table_inj:
  assumes "\<not> increments_invalid name m" "\<not> increments_invalid name' n"
    and "render_instrument_table m = render_instrument_table n"
  shows "m = n"
proof -
  have canon: "canonical_id (fst e)" if "e \<in> set m \<union> set n" for e
    using that increments_canonical [OF assms(1)] increments_canonical [OF assms(2)] by (cases e) auto
  show ?thesis
  proof (rule join_map_inj [of m n render_instrument_entry "CHR ''|''"])
    show "\<forall>e\<in>set m \<union> set n. render_instrument_entry e \<noteq> [] \<and> CHR ''|'' \<notin> set (render_instrument_entry e)"
      using canon decimal_not_separator by (fastforce simp: render_instrument_entry_def dest: id_not_separator)
    show "inj_on render_instrument_entry (set m \<union> set n)"
    proof (rule inj_onI)
      fix e f assume "e \<in> set m \<union> set n" "f \<in> set m \<union> set n" "render_instrument_entry e = render_instrument_entry f"
      with id_not_colon [OF canon, of e] id_not_colon [OF canon, of f] split_at_inj [of "CHR '':''" "fst e" "fst f"]
      show "e = f" by (cases e; cases f) (auto simp: render_instrument_entry_def)
    qed
    show "join [CHR ''|''] (map render_instrument_entry m) = join [CHR ''|''] (map render_instrument_entry n)"
      using assms(3) by (simp add: render_instrument_table_def)
  qed
qed

lemma margin_rates_canonical:
  assumes "margin_rates_validate m = Ok ()" "(a, r) \<in> set m"
  shows "canonical_id a"
proof -
  from assms(1) have "try_each (\<lambda>(asset_class, r).
        if \<not> is_ok (validate_canonical_id ''margin rate asset_class'' asset_class)
           \<or> mr_initial_bps r > 10000 \<or> mr_maintenance_bps r > mr_initial_bps r \<or> mr_maintenance_bps r = 0
        then Err ''invalid margin rate'' else Ok ()) m = Ok ()"
    by (simp add: margin_rates_validate_def split: if_splits)
  with assms(2) show ?thesis
    by (fastforce simp: try_each_eq_Inr is_ok_unit validate_canonical_id_eq_Ok split: if_splits)
qed

lemma render_margin_rates_inj:
  assumes "margin_rates_validate m = Ok ()" "margin_rates_validate n = Ok ()"
    and "join ''|'' (map render_margin_rate m) = join ''|'' (map render_margin_rate n)"
  shows "m = n"
proof -
  have canon: "canonical_id (fst e)" if "e \<in> set m \<union> set n" for e
    using that assms(1,2) margin_rates_canonical by (cases e) fastforce
  note digits = digits_not_separator [OF show_nat_digits]
  show ?thesis
  proof (rule join_map_inj [of m n render_margin_rate "CHR ''|''"])
    show "\<forall>e\<in>set m \<union> set n. render_margin_rate e \<noteq> [] \<and> CHR ''|'' \<notin> set (render_margin_rate e)"
      using canon digits by (auto simp: render_margin_rate_def split_def dest: id_not_separator)
    show "inj_on render_margin_rate (set m \<union> set n)"
    proof (rule inj_onI)
      fix e f assume ef: "e \<in> set m \<union> set n" "f \<in> set m \<union> set n" "render_margin_rate e = render_margin_rate f"
      obtain a r where e: "e = (a, r)" by (cases e)
      obtain b q where f: "f = (b, q)" by (cases f)
      have "a = b" and tail: "show_nat (mr_initial_bps r) @ '':'' @ show_nat (mr_maintenance_bps r)
          = show_nat (mr_initial_bps q) @ '':'' @ show_nat (mr_maintenance_bps q)"
        using ef(3) id_not_colon [OF canon [OF ef(1)]] id_not_colon [OF canon [OF ef(2)]]
          split_at_inj [of "CHR '':''" a b] by (auto simp: render_margin_rate_def e f)
      moreover have "r = q"
        using tail digits split_at_inj [of "CHR '':''" "show_nat (mr_initial_bps r)" "show_nat (mr_initial_bps q)"]
        by (cases r; cases q) auto
      ultimately show "e = f" by (simp add: e f)
    qed
    show "join [CHR ''|''] (map render_margin_rate m) = join [CHR ''|''] (map render_margin_rate n)"
      using assms(3) by simp
  qed
qed

lemma render_buckets_inj:
  assumes "\<forall>(i, b)\<in>set m \<union> set n. canonical_id i \<and> bucket_validate b = Ok ()"
    and "join ''|'' (map render_bucket m) = join ''|'' (map render_bucket n)"
  shows "m = n"
proof -
  have parts: "canonical_id i \<and> canonical_id (ib_asset_class b) \<and> canonical_id (ib_sector b) \<and> list_all is_ascii_uppercase (ib_currency b)"
    if "(i, b) \<in> set m \<union> set n" for i b
    using assms(1) that by (auto simp: bucket_validate_def is_ok_unit result_simps split: if_splits)
  show ?thesis
  proof (rule join_map_inj [of m n render_bucket "CHR ''|''"])
    show "\<forall>e\<in>set m \<union> set n. render_bucket e \<noteq> [] \<and> CHR ''|'' \<notin> set (render_bucket e)"
      using parts id_not_separator uppercase_not_separator by (fastforce simp: render_bucket_def split_def)
    show "inj_on render_bucket (set m \<union> set n)"
    proof (rule inj_onI)
      fix e f assume ef: "e \<in> set m \<union> set n" "f \<in> set m \<union> set n" "render_bucket e = render_bucket f"
      obtain i b where e: "e = (i, b)" by (cases e)
      obtain j q where f: "f = (j, q)" by (cases f)
      note pe = parts [OF ef(1) [unfolded e]] and pf = parts [OF ef(2) [unfolded f]]
      from ef(3) have whole: "i @ CHR '':'' # ib_asset_class b @ CHR '':'' # ib_currency b @ CHR '':'' # ib_sector b
          = j @ CHR '':'' # ib_asset_class q @ CHR '':'' # ib_currency q @ CHR '':'' # ib_sector q"
        by (simp add: render_bucket_def e f)
      have "i = j" and s1: "ib_asset_class b @ CHR '':'' # ib_currency b @ CHR '':'' # ib_sector b
          = ib_asset_class q @ CHR '':'' # ib_currency q @ CHR '':'' # ib_sector q"
        using whole pe pf split_at_inj [of "CHR '':''" i j] id_not_colon by blast+
      moreover have "ib_asset_class b = ib_asset_class q"
        and s2: "ib_currency b @ CHR '':'' # ib_sector b = ib_currency q @ CHR '':'' # ib_sector q"
        using s1 pe pf split_at_inj [of "CHR '':''" "ib_asset_class b" "ib_asset_class q"] id_not_colon by blast+
      moreover have "ib_currency b = ib_currency q" "ib_sector b = ib_sector q"
        using s2 pe pf split_at_inj [of "CHR '':''" "ib_currency b" "ib_currency q"] uppercase_not_separator by blast+
      ultimately show "e = f" by (cases b; cases q) (simp add: e f)
    qed
    show "join [CHR ''|''] (map render_bucket m) = join [CHR ''|''] (map render_bucket n)"
      using assms(2) by simp
  qed
qed

lemma margin_rates_option_inj:
  assumes "\<forall>m. r = Some m \<longrightarrow> margin_rates_validate m = Ok ()" "\<forall>m. q = Some m \<longrightarrow> margin_rates_validate m = Ok ()"
    and "(case r of None \<Rightarrow> ''none'' | Some rates \<Rightarrow> join ''|'' (map render_margin_rate rates))
       = (case q of None \<Rightarrow> ''none'' | Some rates \<Rightarrow> join ''|'' (map render_margin_rate rates))"
  shows "r = q"
proof -
  have colon: "join ''|'' (map render_margin_rate m) \<noteq> ''none''" if "margin_rates_validate m = Ok ()" for m
  proof
    assume none: "join ''|'' (map render_margin_rate m) = ''none''"
    from that obtain a x es where m: "m = (a, x) # es" by (cases m) (auto simp: margin_rates_validate_def)
    have "CHR '':'' \<in> set (join ''|'' (map render_margin_rate m))" by (simp add: m join_Cons render_margin_rate_def)
    with none show False by simp
  qed
  show ?thesis
  proof (cases r)
    case None
    then show ?thesis using assms(2,3) colon by (cases q) auto
  next
    case (Some m)
    then obtain n where q: "q = Some n" using assms(1,3) colon by (cases q) auto
    have "m = n" by (rule render_margin_rates_inj) (use assms Some q in simp_all)
    then show ?thesis by (simp add: Some q)
  qed
qed

definition composition_canonical :: "portfolio_risk_composition \<Rightarrow> bool" where
  "composition_canonical c \<longleftrightarrow> canonical_buckets (prc_policy c) \<and> list_all (\<lambda>(i, _). canonical_id i) (prc_instrument_buckets c)"

lemma portfolio_risk_fingerprint_parts_inj:
  assumes "composition_validate c = Ok ()" "composition_validate d = Ok ()"
    and "composition_canonical c" "composition_canonical d"
    and "portfolio_risk_fingerprint_parts c = portfolio_risk_fingerprint_parts d"
  shows "c = d"
proof -
  have len: "length (canonical_parts p) = 21" for p by (simp add: canonical_parts_def)
  from assms(5) have parts: "canonical_parts (prc_policy c) = canonical_parts (prc_policy d)"
    "join ''|'' (map render_bucket (prc_instrument_buckets c)) = join ''|'' (map render_bucket (prc_instrument_buckets d))"
    "(case prc_margin_rates c of None \<Rightarrow> ''none'' | Some rates \<Rightarrow> join ''|'' (map render_margin_rate rates))
       = (case prc_margin_rates d of None \<Rightarrow> ''none'' | Some rates \<Rightarrow> join ''|'' (map render_margin_rate rates))"
    by (simp_all add: portfolio_risk_fingerprint_parts_def len)
  have valid: "portfolio_policy_validate (prc_policy x) = Ok () \<and> (\<forall>(i, b)\<in>set (prc_instrument_buckets x). bucket_validate b = Ok ())
      \<and> (\<forall>m. prc_margin_rates x = Some m \<longrightarrow> margin_rates_validate m = Ok ())" if "composition_validate x = Ok ()" for x
    using that by (auto simp: composition_validate_def and_then_eq_Inr try_each_eq_Inr)
  note vc = valid [OF assms(1)] and vd = valid [OF assms(2)]
  have "prc_policy c = prc_policy d"
    by (rule policy_rendering_inj) (use vc vd assms(3,4) parts(1) in \<open>simp_all add: composition_canonical_def\<close>)
  moreover have "prc_instrument_buckets c = prc_instrument_buckets d"
    by (rule render_buckets_inj [OF _ parts(2)]) (use vc vd assms(3,4) in \<open>auto simp: composition_canonical_def list_all_iff\<close>)
  moreover have "prc_margin_rates c = prc_margin_rates d"
    by (rule margin_rates_option_inj [OF _ _ parts(3)]) (use vc vd in auto)
  ultimately show ?thesis by simp
qed

text \<open>An optional section of the parts, introduced by its marker, is recognised where it stands.\<close>

definition optional_section :: "string \<Rightarrow> nat \<Rightarrow> string list \<Rightarrow> bool" where
  "optional_section m n x \<longleftrightarrow> x = [] \<or> (\<exists>u. x = m # u \<and> length u = n)"

lemma optional_section_inj:
  assumes "x @ r = y @ s" "optional_section m n x" "optional_section m n y"
    and "r \<noteq> []" "hd r \<noteq> m" "s \<noteq> []" "hd s \<noteq> m"
  shows "x = y \<and> r = s"
proof (cases "x = []")
  case True
  then have "y = []" using assms(1,3,5) by (cases y) (auto simp: optional_section_def)
  with True assms(1) show ?thesis by simp
next
  case False
  then obtain u where x: "x = m # u" "length u = n" using assms(2) by (auto simp: optional_section_def)
  then obtain v where y: "y = m # v" "length v = n"
    using assms(1,3,7) by (cases y) (auto simp: optional_section_def)
  with x assms(1) show ?thesis by simp
qed

definition short_section :: "paper_configuration \<Rightarrow> string list" where
  "short_section c = (case ppo_short_exposure (pcf_risk_policy c) of None \<Rightarrow> []
     | Some s \<Rightarrow> [''paper-short-exposure-v1'', decimal_to_string (sep_max_short_quantity s)])"

definition route_section :: "paper_configuration \<Rightarrow> string list" where
  "route_section c = (if pcf_broker_route c \<noteq> []
     then [''paper-broker-route-fingerprint-v1'', pcf_broker_route c] else [])"

definition risk_section :: "paper_configuration \<Rightarrow> string list" where
  "risk_section c = (case ppo_portfolio_risk (pcf_risk_policy c) of None \<Rightarrow> []
     | Some r \<Rightarrow> ''paper-portfolio-risk-v2'' # portfolio_risk_fingerprint_parts r)"

definition table_section :: "paper_configuration \<Rightarrow> string list" where
  "table_section c =
     [''paper-instrument-ticks-v1'', render_instrument_table (ppo_instrument_tick_sizes (pcf_risk_policy c)),
      ''paper-instrument-lots-v1'', render_instrument_table (ppo_instrument_lot_sizes (pcf_risk_policy c))]"

lemma length_portfolio_risk_parts [simp]: "length (portfolio_risk_fingerprint_parts r) = 23"
  by (simp add: portfolio_risk_fingerprint_parts_def canonical_parts_def)

lemma configuration_sections:
  "configuration_parts c = take 17 (configuration_parts c)
     @ short_section c @ route_section c @ risk_section c @ table_section c"
proof -
  have "portfolio_risk_fingerprint_parts r \<noteq> []" for r
    by (metis length_portfolio_risk_parts list.size(3) zero_neq_numeral)
  then show ?thesis
    by (simp add: configuration_parts_def Let_def short_section_def route_section_def risk_section_def
        table_section_def split: option.split)
qed

lemma configuration_sections_inj:
  assumes "configuration_parts c = configuration_parts d"
  shows "take 17 (configuration_parts c) = take 17 (configuration_parts d)"
    "short_section c = short_section d" "route_section c = route_section d"
    "risk_section c = risk_section d" "table_section c = table_section d"
proof -
  have len: "length (take 17 (configuration_parts x)) = 17" for x
    by (simp add: configuration_parts_def Let_def)
  have opt: "optional_section ''paper-short-exposure-v1'' 1 (short_section x)"
    "optional_section ''paper-broker-route-fingerprint-v1'' 1 (route_section x)"
    "optional_section ''paper-portfolio-risk-v2'' 23 (risk_section x)" for x
    by (simp_all add: optional_section_def short_section_def route_section_def risk_section_def split: option.split)
  have heads: "table_section x \<noteq> []" "hd (table_section x) = ''paper-instrument-ticks-v1''"
    "risk_section x @ table_section x \<noteq> []"
    "hd (risk_section x @ table_section x) \<in> {''paper-portfolio-risk-v2'', ''paper-instrument-ticks-v1''}"
    "hd (route_section x @ risk_section x @ table_section x)
       \<in> {''paper-broker-route-fingerprint-v1'', ''paper-portfolio-risk-v2'', ''paper-instrument-ticks-v1''}" for x
    by (simp_all add: table_section_def risk_section_def route_section_def split: option.split)
  show "take 17 (configuration_parts c) = take 17 (configuration_parts d)" using assms by simp
  have tail: "short_section c @ route_section c @ risk_section c @ table_section c
      = short_section d @ route_section d @ risk_section d @ table_section d"
    using assms configuration_sections [of c] configuration_sections [of d] len by (metis append_eq_append_conv)
  have short: "short_section c = short_section d \<and> route_section c @ risk_section c @ table_section c
      = route_section d @ risk_section d @ table_section d"
    by (rule optional_section_inj [OF tail opt(1) opt(1)]) (use heads(5) [of c] heads(5) [of d] heads(1) in auto)
  then have route: "route_section c = route_section d \<and> risk_section c @ table_section c = risk_section d @ table_section d"
    by (intro optional_section_inj [OF _ opt(2) opt(2)]) (use heads(4) [of c] heads(4) [of d] heads(3) in auto)
  then have risk: "risk_section c = risk_section d \<and> table_section c = table_section d"
    by (intro optional_section_inj [OF _ opt(3) opt(3)]) (use heads(1,2) in auto)
  from short route risk show "short_section c = short_section d" "route_section c = route_section d"
    "risk_section c = risk_section d" "table_section c = table_section d" by simp_all
qed

section \<open>Properties\<close>

definition configuration_valid :: "paper_configuration \<Rightarrow> bool" where
  "configuration_valid c \<longleftrightarrow> paper_policy_validate (pcf_risk_policy c) = Ok ()
     \<and> (case ppo_portfolio_risk (pcf_risk_policy c) of None \<Rightarrow> True | Some r \<Rightarrow> composition_canonical r)
     \<and> list_all (\<lambda>p. length p < 2 ^ 64) (configuration_parts c)"

lemma configuration_parts_inj:
  assumes "configuration_valid c" "configuration_valid d" "configuration_parts c = configuration_parts d"
  shows "c = d"
proof -
  note sec = configuration_sections_inj [OF assms(3)]
  have ok: "\<not> increments_invalid ''tick-size instrument_id'' (ppo_instrument_tick_sizes (pcf_risk_policy x))"
    "\<not> increments_invalid ''lot-size instrument_id'' (ppo_instrument_lot_sizes (pcf_risk_policy x))"
    "ppo_portfolio_risk (pcf_risk_policy x) = Some r \<Longrightarrow> composition_validate r = Ok () \<and> composition_canonical r"
    if "configuration_valid x" for x r
    using that by (auto simp: configuration_valid_def paper_policy_validate_def and_then_eq_Inr
        split: if_splits option.splits)
  have ticks: "ppo_instrument_tick_sizes (pcf_risk_policy c) = ppo_instrument_tick_sizes (pcf_risk_policy d)"
    by (rule render_instrument_table_inj [OF ok(1) [OF assms(1)] ok(1) [OF assms(2)]])
      (use sec(5) in \<open>simp add: table_section_def\<close>)
  have lots: "ppo_instrument_lot_sizes (pcf_risk_policy c) = ppo_instrument_lot_sizes (pcf_risk_policy d)"
    by (rule render_instrument_table_inj [OF ok(2) [OF assms(1)] ok(2) [OF assms(2)]])
      (use sec(5) in \<open>simp add: table_section_def\<close>)
  have short: "ppo_short_exposure (pcf_risk_policy c) = ppo_short_exposure (pcf_risk_policy d)"
    using sec(2) by (auto simp: short_section_def split: option.splits)
  have risk: "ppo_portfolio_risk (pcf_risk_policy c) = ppo_portfolio_risk (pcf_risk_policy d)"
    using sec(4) portfolio_risk_fingerprint_parts_inj ok(3) [OF assms(1)] ok(3) [OF assms(2)]
    by (auto simp: risk_section_def split: option.splits)
  have route: "pcf_broker_route c = pcf_broker_route d"
    using sec(3) by (auto simp: route_section_def split: if_splits)
  from sec(1) have fixed: "pcf_account c = pcf_account d" "pcf_kill_switch_version c = pcf_kill_switch_version d"
    "pcf_risk_policy c = pcf_risk_policy d"
    by (auto simp: configuration_parts_def Let_def ticks lots short risk
        intro: paper_account.equality paper_risk_policy.equality)
  from fixed route show ?thesis by (simp add: paper_configuration.equality)
qed

definition sample_composition :: portfolio_risk_composition where
  "sample_composition = \<lparr>prc_policy = sample_risk_policy,
     prc_instrument_buckets = [(''aaa'', \<lparr>ib_asset_class = ''equity'', ib_currency = ''USD'', ib_sector = ''tech''\<rparr>)],
     prc_margin_rates = Some [(''equity'', \<lparr>mr_initial_bps = 5000, mr_maintenance_bps = 2500\<rparr>)]\<rparr>"

definition sample_paper_policy :: paper_risk_policy where
  "sample_paper_policy = \<lparr>ppo_version = ''v1'', ppo_trading_calendar_id = ''xnys'',
     ppo_max_order_quantity = Decimal 1000000000, ppo_max_order_notional = Decimal 100000000000,
     ppo_max_price_deviation_bps = Decimal 10000000000, ppo_max_open_orders = 5,
     ppo_max_position_quantity = Decimal 5000000000, ppo_max_realized_loss = Decimal 100000000,
     ppo_max_market_data_age_seconds = 5, ppo_max_order_rate = 10, ppo_order_rate_window_seconds = 60,
     ppo_portfolio_risk = Some sample_composition, ppo_short_exposure = None,
     ppo_instrument_tick_sizes = [(''aaa'', Decimal 1000000)], ppo_instrument_lot_sizes = [(''aaa'', Decimal 100000000)]\<rparr>"

definition sample_configuration :: paper_configuration where
  "sample_configuration = \<lparr>pcf_account = \<lparr>pa_account_id = ''acct'', pa_currency = ''USD'', pa_initial_cash = Decimal 0,
     pa_environment = ''PAPER''\<rparr>, pcf_risk_policy = sample_paper_policy, pcf_kill_switch_version = ''k1'',
     pcf_broker_route = []\<rparr>"

lemma sample_paper_policy_valid:
  "0 < n \<Longrightarrow> paper_policy_validate (sample_paper_policy\<lparr>ppo_max_open_orders := n\<rparr>) = Ok ()"
  by (simp add: paper_policy_validate_def sample_paper_policy_def paper_limits_invalid_def increments_invalid_def
      unpaired_instrument_def composition_validate_def sample_composition_def sample_policy_ok bucket_validate_def
      margin_rates_validate_def validate_canonical_id_def is_id_byte_def byte_simps risk_arith from_integer_def)

lemmas show_nat_numeral = show_nat.simps [of "numeral k" for k] show_nat.simps [of 0] show_nat.simps [of "Suc 0"]

lemma sample_configuration_valid:
  assumes "n = 5 \<or> n = 6"
  shows "configuration_valid (sample_configuration\<lparr>pcf_risk_policy := sample_paper_policy\<lparr>ppo_max_open_orders := n\<rparr>\<rparr>)"
proof -
  have "list_all (\<lambda>p. length p < 2 ^ 64) (configuration_parts
      (sample_configuration\<lparr>pcf_risk_policy := sample_paper_policy\<lparr>ppo_max_open_orders := n\<rparr>\<rparr>))"
    using assms by (auto simp: sample_composition_def
      sample_paper_policy_def sample_configuration_def configuration_parts_def Let_def
      portfolio_risk_fingerprint_parts_def canonical_parts_def sample_risk_policy_def render_instrument_table_def
      render_instrument_entry_def render_bucket_def render_margin_rate_def render_limits_def render_set_def
      render_bool_def show_decimal_option_def show_nat_numeral zero_padded_def decimal_to_string_parts DECIMAL_SCALE_def)
  moreover have "composition_canonical sample_composition"
    using sample_policy_buckets by (simp add: composition_canonical_def sample_composition_def canonical_id_def is_id_byte_def byte_simps)
  ultimately show ?thesis
    unfolding configuration_valid_def
    using assms sample_paper_policy_valid [of n] by (auto simp: sample_configuration_def sample_paper_policy_def)
qed

text \<open>C21: The journal fingerprint binds the configuration: when two validated configurations whose
  reference labels are canonical have the same fingerprint, they agree in the account, in every
  limit and table of the risk policy, in the kill-switch revision and in the broker route, unless
  the hash function itself collides on the two byte strings. The condition on the labels is needed:
  see \<open>configuration_fingerprint_collides\<close> below.\<close>

theorem configuration_fingerprint_binds:
  assumes "configuration_valid c" "configuration_valid d"
    and "configuration_fingerprint sha256_hex c = configuration_fingerprint sha256_hex d"
  shows "c = d \<or>
    (\<exists>x y. x \<noteq> y \<and> sha256_hex x = sha256_hex y
      \<and> x = fingerprint_bytes (configuration_parts c) \<and> y = fingerprint_bytes (configuration_parts d))"
proof (cases "fingerprint_bytes (configuration_parts c) = fingerprint_bytes (configuration_parts d)")
  case True
  have "configuration_parts c = configuration_parts d"
    by (rule fingerprint_bytes_inj [OF True]) (use assms(1,2) in \<open>auto simp: configuration_valid_def list_all_iff\<close>)
  then show ?thesis using configuration_parts_inj [OF assms(1,2)] by blast
next
  case False
  with assms(3) show ?thesis by (simp add: configuration_fingerprint_def hash_fingerprint_parts_def)
qed

theorem configuration_fingerprint_binds_witness:
  "configuration_fingerprint (\<lambda>x. x) (sample_configuration\<lparr>pcf_risk_policy := sample_paper_policy\<lparr>ppo_max_open_orders := 6\<rparr>\<rparr>)
     \<noteq> configuration_fingerprint (\<lambda>x. x) (sample_configuration\<lparr>pcf_risk_policy := sample_paper_policy\<lparr>ppo_max_open_orders := 5\<rparr>\<rparr>)"
  using configuration_fingerprint_binds [OF sample_configuration_valid [of 6] sample_configuration_valid [of 5],
      of "\<lambda>x. x"] by (auto simp: sample_configuration_def sample_paper_policy_def)

text \<open>The labels have to be canonical: validation asks bucket keys of the portfolio policy only to be
  non-empty, and then one label can spell the limits of two. These two configurations pass validation, differ,
  and have one and the same fingerprint under every hash function.\<close>

definition crowded_configuration :: "(string, decimal) btree_map \<Rightarrow> paper_configuration" where
  "crowded_configuration limits = sample_configuration\<lparr>pcf_risk_policy := sample_paper_policy\<lparr>ppo_portfolio_risk :=
     Some (sample_composition\<lparr>prc_policy := sample_risk_policy\<lparr>prp_sector_limits := limits\<rparr>\<rparr>)\<rparr>\<rparr>"

lemma crowded_configuration_validates:
  assumes "check_bucket_limits limits = Ok ()"
  shows "paper_policy_validate (pcf_risk_policy (crowded_configuration limits)) = Ok ()"
  using sample_policy_with(1) [OF assms]
  by (simp add: crowded_configuration_def paper_policy_validate_def sample_paper_policy_def paper_limits_invalid_def
      increments_invalid_def unpaired_instrument_def composition_validate_def sample_composition_def
      bucket_validate_def margin_rates_validate_def validate_canonical_id_def is_id_byte_def byte_simps risk_arith
      from_integer_def)

theorem configuration_fingerprint_collides:
  "let c = crowded_configuration [(''a'', Decimal 100000000), (''b'', Decimal 200000000)];
       d = crowded_configuration [(''a=1.00000000|b'', Decimal 200000000)] in
   paper_policy_validate (pcf_risk_policy c) = Ok () \<and> paper_policy_validate (pcf_risk_policy d) = Ok ()
   \<and> c \<noteq> d \<and> configuration_parts c = configuration_parts d
   \<and> configuration_fingerprint sha256_hex c = configuration_fingerprint sha256_hex d"
proof -
  let ?m = "[(''a'', Decimal 100000000), (''b'', Decimal 200000000)]" and ?n = "[(''a=1.00000000|b'', Decimal 200000000)]"
  have limits: "check_bucket_limits ?m = Ok ()" "check_bucket_limits ?n = Ok ()"
    by (simp_all add: check_bucket_limits_def decimal_cmp)
  have "canonical_parts (sample_risk_policy\<lparr>prp_sector_limits := ?m\<rparr>)
      = canonical_parts (sample_risk_policy\<lparr>prp_sector_limits := ?n\<rparr>)"
    using policy_rendering_collides by (simp only: Let_def)
  then have parts: "configuration_parts (crowded_configuration ?m) = configuration_parts (crowded_configuration ?n)"
    by (simp add: crowded_configuration_def configuration_parts_def Let_def sample_configuration_def sample_paper_policy_def
        portfolio_risk_fingerprint_parts_def sample_composition_def)
  moreover have "crowded_configuration ?m \<noteq> crowded_configuration ?n"
    by (simp add: crowded_configuration_def sample_configuration_def sample_paper_policy_def sample_composition_def sample_risk_policy_def)
  ultimately show ?thesis
    using limits [THEN crowded_configuration_validates]
    by (simp only: Let_def configuration_fingerprint_def simp_thms)
qed

end
