(* ===== verification/PaperBooks.thy ===== *)
theory PaperBooks
  imports PaperPolicy TaxLotLaws Portfolio
begin

text \<open>
  Component: the books of the paper service (\<^verbatim>\<open>core/paper/src/service/broker_events.rs\<close>,
  \<^verbatim>\<open>combinations.rs\<close>): cash, one portfolio per instrument, the tax lots, the quantity each strategy
  contributed, and the execution identities seen. A fill enters all of them, one after the other; an
  error part of the way leaves the earlier ones changed, which the caller undoes. The lemmas show
  that an accepted fill moves all books by the same signed quantity.
\<close>

section \<open>The books\<close>

record paper_books =
  pb_cash :: decimal
  pb_portfolios :: "(string, portfolio) btree_map"
  pb_tax_lots :: tax_lot_book
  pb_strategy_attribution :: "(string, (string, decimal) btree_map) btree_map"
  pb_execution_ids :: "string btree_set"

text \<open>What of the account and the policy the books depend on.\<close>

record booking_terms =
  bk_account_id :: string
  bk_currency :: string
  bk_short_permitted :: bool

definition fill_portfolio :: "booking_terms \<Rightarrow> fill \<Rightarrow> ('z paper_books_scheme, unit) op" where
  "fill_portfolio terms f b =
     (let p = (case bt_get (pb_portfolios b) (fl_instrument_id f) of
            None \<Rightarrow> portfolio_new (bk_account_id terms) (fl_instrument_id f) | Some p \<Rightarrow> p);
          (r, p') = (if bk_short_permitted terms then portfolio_apply_signed_fill p f else portfolio_apply_fill p f)
      in (r, b\<lparr>pb_portfolios := bt_insert (fl_instrument_id f) p' (pb_portfolios b)\<rparr>))"

section \<open>Tax lots: close the other side first, open the rest\<close>

definition opposite_available :: "fill \<Rightarrow> tax_lot_book \<Rightarrow> decimal result" where
  "opposite_available f b = (case fl_side f of
     Buy \<Rightarrow> available_quantity short_ops (book_short_lots b (fl_instrument_id f))
   | Sell \<Rightarrow> available_quantity long_ops (book_lots b (fl_instrument_id f)))"

definition closing_fee :: "fill \<Rightarrow> decimal \<Rightarrow> decimal result" where
  "closing_fee f closing =
     (if closing = fl_quantity f then Ok (fl_fee f)
      else and_then (checked_mul (fl_fee f) closing) (\<lambda>part. checked_div part (fl_quantity f)))"

definition close_lots :: "(string \<Rightarrow> bool) \<Rightarrow> currency \<Rightarrow> fill \<Rightarrow> decimal \<Rightarrow> decimal \<Rightarrow> (tax_lot_book, unit) op" where
  "close_lots rfc3339 c f closing fee =
     (if closing > ZERO
      then case fl_side f of
        Buy \<Rightarrow> op_bind (cover rfc3339 (''taxcover-'' @ fl_execution_id f) (fl_instrument_id f) c closing
          (fl_price f) fee (fl_executed_at f) Fifo) (\<lambda>_. op_return ())
      | Sell \<Rightarrow> op_bind (dispose rfc3339 (''taxdisposal-'' @ fl_execution_id f) (fl_instrument_id f) c closing
          (fl_price f) fee (fl_executed_at f) Fifo) (\<lambda>_. op_return ())
      else op_return ())"

definition opened_lot :: "currency \<Rightarrow> fill \<Rightarrow> decimal \<Rightarrow> decimal \<Rightarrow> tax_lot result" where
  "opened_lot c f opened open_fee =
     and_then (checked_mul (fl_price f) opened) (\<lambda>gross.
     and_then (checked_add gross open_fee) (\<lambda>cost.
     and_then (checked_div cost opened) (\<lambda>unit_cost.
     Ok \<lparr>tl_lot_id = ''taxlot-'' @ fl_execution_id f, tl_instrument_id = fl_instrument_id f,
         tl_currency = c, tl_opened_at = fl_executed_at f, tl_remaining_quantity = opened,
         tl_unit_cost = unit_cost\<rparr>)))"

definition opened_short_lot :: "currency \<Rightarrow> fill \<Rightarrow> decimal \<Rightarrow> decimal \<Rightarrow> short_tax_lot result" where
  "opened_short_lot c f opened open_fee =
     and_then (checked_mul (fl_price f) opened) (\<lambda>gross.
     and_then (checked_sub gross open_fee) (\<lambda>proceeds.
     and_then (checked_div proceeds opened) (\<lambda>unit_proceeds.
     Ok \<lparr>st_lot_id = ''taxshort-'' @ fl_execution_id f, st_instrument_id = fl_instrument_id f,
         st_currency = c, st_opened_at = fl_executed_at f, st_remaining_quantity = opened,
         st_unit_proceeds = unit_proceeds\<rparr>)))"

definition open_lots :: "(string \<Rightarrow> bool) \<Rightarrow> currency \<Rightarrow> fill \<Rightarrow> decimal \<Rightarrow> decimal \<Rightarrow> (tax_lot_book, unit) op" where
  "open_lots rfc3339 c f opened open_fee = (case fl_side f of
     Buy \<Rightarrow> op_bind (op_lift (opened_lot c f opened open_fee)) (\<lambda>lot.
       op_bind (acquire rfc3339 lot) (\<lambda>_. op_return ()))
   | Sell \<Rightarrow> op_bind (op_lift (opened_short_lot c f opened open_fee)) (\<lambda>lot.
       op_bind (open_short rfc3339 lot) (\<lambda>_. op_return ())))"

definition apply_tax_lot_fill :: "(string \<Rightarrow> bool) \<Rightarrow> string \<Rightarrow> fill \<Rightarrow> (tax_lot_book, unit) op" where
  "apply_tax_lot_fill rfc3339 account_currency f =
     op_bind (op_lift (currency_new account_currency)) (\<lambda>c.
     op_bind (op_get (opposite_available f)) (\<lambda>other_side.
     op_bind (op_lift other_side) (\<lambda>available.
     let closing = min available (fl_quantity f) in
     op_bind (op_lift (checked_sub (fl_quantity f) closing)) (\<lambda>opened.
     op_bind (op_lift (closing_fee f closing)) (\<lambda>close_fee.
     op_bind (close_lots rfc3339 c f closing close_fee) (\<lambda>_.
     if opened = ZERO then op_return ()
     else op_bind (op_lift (checked_sub (fl_fee f) close_fee)) (\<lambda>open_fee.
       open_lots rfc3339 c f opened open_fee)))))))"

section \<open>Attribution, cash, the whole fill\<close>

definition fill_attribution :: "fill \<Rightarrow> string \<Rightarrow> ('z paper_books_scheme, unit) op" where
  "fill_attribution f strategy_id b =
     (let strategies = (case bt_get (pb_strategy_attribution b) (fl_instrument_id f) of None \<Rightarrow> [] | Some m \<Rightarrow> m);
          current = (case bt_get strategies strategy_id of None \<Rightarrow> ZERO | Some q \<Rightarrow> q);
          store = (\<lambda>m. b\<lparr>pb_strategy_attribution := bt_insert (fl_instrument_id f) m (pb_strategy_attribution b)\<rparr>)
      in case (case fl_side f of Buy \<Rightarrow> checked_add current (fl_quantity f)
           | Sell \<Rightarrow> checked_sub current (fl_quantity f)) of
           Inl e \<Rightarrow> (Inl e, store strategies)
         | Inr updated \<Rightarrow> (Ok (), store (bt_insert strategy_id updated strategies)))"

definition cash_after :: "fill \<Rightarrow> decimal \<Rightarrow> decimal result" where
  "cash_after f cash =
     and_then (checked_mul (fl_price f) (fl_quantity f)) (\<lambda>gross. case fl_side f of
       Buy \<Rightarrow> and_then (checked_add gross (fl_fee f)) (checked_sub cash)
     | Sell \<Rightarrow> and_then (checked_sub gross (fl_fee f)) (checked_add cash))"

definition apply_accounted_fill ::
    "(string \<Rightarrow> bool) \<Rightarrow> booking_terms \<Rightarrow> fill \<Rightarrow> string \<Rightarrow> ('z paper_books_scheme, unit) op" where
  "apply_accounted_fill rfc3339 terms f strategy_id =
     op_bind (fill_portfolio terms f) (\<lambda>_.
     op_bind (op_on pb_tax_lots pb_tax_lots_update (apply_tax_lot_fill rfc3339 (bk_currency terms) f)) (\<lambda>_.
     op_bind (fill_attribution f strategy_id) (\<lambda>_.
     op_bind (op_get pb_cash) (\<lambda>cash.
     op_bind (op_lift (cash_after f cash)) (\<lambda>cash'.
     op_modify (\<lambda>b. b\<lparr>pb_cash := cash', pb_execution_ids := bs_insert (fl_execution_id f) (pb_execution_ids b)\<rparr>))))))"

section \<open>What closing and opened lots do to the quantities held\<close>

definition held_long :: "tax_lot_book \<Rightarrow> string \<Rightarrow> int" where
  "held_long b i = lots_held long_ops (book_lots b i)"

definition held_short :: "tax_lot_book \<Rightarrow> string \<Rightarrow> int" where
  "held_short b i = lots_held short_ops (book_short_lots b i)"

text \<open>The identities a book has used.\<close>

definition used_ids :: "tax_lot_book \<Rightarrow> string set" where
  "used_ids b = set (tb_applied_lot_ids b) \<union> set (tb_applied_disposal_ids b)
     \<union> set (tb_applied_short_lot_ids b) \<union> set (tb_applied_cover_ids b)"

lemma dispose_moves:
  assumes "dispose rfc did i c q p f at sel b = (Inr r, b')" "book_ok rfc b" "did \<notin> used_ids b"
  shows "held_long b' = (held_long b)(i := held_long b i - scaled q)" "held_short b' = held_short b"
    "used_ids b' = insert did (used_ids b)" "book_ok rfc b'"
proof -
  show "book_ok rfc b'" using dispose_ok [OF assms(2), of did i c q p f at sel] assms(1) by simp
  have check: "dispose_check rfc did i q p f at = Ok ()"
    using assms(1) by (auto simp: dispose_def split: sum.splits)
  then have q: "ZERO \<le> q" by (simp add: result_simps less_imp_le)
  from assms(1) check obtain proj basis allocations where
    sel: "dispose_select (bt_get (tb_lots b) i) c q sel = Inr (proj, basis, allocations)" and
    b': "tb_lots b' = bt_insert i (keep_open long_ops proj) (tb_lots b)" "tb_short_lots b' = tb_short_lots b"
      "tb_applied_lot_ids b' = tb_applied_lot_ids b" "tb_applied_short_lot_ids b' = tb_applied_short_lot_ids b"
      "tb_applied_disposal_ids b' = bs_insert did (tb_applied_disposal_ids b)"
      "tb_applied_cover_ids b' = tb_applied_cover_ids b"
    using assms(3) by (auto simp: dispose_def Let_def and_then_eq_Inr used_ids_def bs_contains_def
        split: sum.splits if_splits)
  obtain ls where ls: "bt_get (tb_lots b) i = Some ls"
    "long_lots.selecting q ls (proj, ZERO, basis, allocations)" "\<forall>l\<in>set ls. ZERO \<le> lo_quantity long_ops l"
    by (rule dispose_select_facts [OF sel q]) (use open_long_lots [OF assms(2)] in blast)+
  show "held_long b' = (held_long b)(i := held_long b i - scaled q)"
    using ls by (auto simp: held_long_def book_lots_def b' bt_get_insert long_lots.selecting_def long_lots.held_keep_open fun_eq_iff)
  show "held_short b' = held_short b" by (simp add: held_short_def book_short_lots_def b' fun_eq_iff)
  show "used_ids b' = insert did (used_ids b)" by (auto simp: used_ids_def b')
qed

lemma cover_moves:
  assumes "cover rfc cid i c q p f at sel b = (Inr r, b')" "book_ok rfc b" "cid \<notin> used_ids b"
  shows "held_short b' = (held_short b)(i := held_short b i - scaled q)" "held_long b' = held_long b"
    "used_ids b' = insert cid (used_ids b)" "book_ok rfc b'"
proof -
  show "book_ok rfc b'" using cover_ok [OF assms(2), of cid i c q p f at sel] assms(1) by simp
  have check: "cover_check rfc cid i q p f at = Ok ()"
    using assms(1) by (auto simp: cover_def split: sum.splits)
  then have q: "ZERO \<le> q" by (simp add: result_simps less_imp_le)
  from assms(1) check obtain proj basis allocations where
    sel: "cover_select (bt_get (tb_short_lots b) i) c q sel = Inr (proj, basis, allocations)" and
    b': "tb_short_lots b' = bt_insert i (keep_open short_ops proj) (tb_short_lots b)" "tb_lots b' = tb_lots b"
      "tb_applied_lot_ids b' = tb_applied_lot_ids b" "tb_applied_short_lot_ids b' = tb_applied_short_lot_ids b"
      "tb_applied_disposal_ids b' = tb_applied_disposal_ids b"
      "tb_applied_cover_ids b' = bs_insert cid (tb_applied_cover_ids b)"
    using assms(3) by (auto simp: cover_def Let_def and_then_eq_Inr used_ids_def bs_contains_def
        split: sum.splits if_splits)
  obtain ls where ls: "bt_get (tb_short_lots b) i = Some ls"
    "short_lots.selecting q ls (proj, ZERO, basis, allocations)" "\<forall>l\<in>set ls. ZERO \<le> lo_quantity short_ops l"
    by (rule cover_select_facts [OF sel q]) (use open_short_lots [OF assms(2)] in blast)+
  show "held_short b' = (held_short b)(i := held_short b i - scaled q)"
    using ls by (auto simp: held_short_def book_short_lots_def b' bt_get_insert short_lots.selecting_def
        short_lots.held_keep_open fun_eq_iff)
  show "held_long b' = held_long b" by (simp add: held_long_def book_lots_def b' fun_eq_iff)
  show "used_ids b' = insert cid (used_ids b)" by (auto simp: used_ids_def b')
qed

lemma lots_held_sorted: "lots_held ops (sort_lots ops (ls @ [l])) = lots_held ops ls + scaled (lo_quantity ops l)"
proof -
  have "(\<Sum>x\<leftarrow>sort_lots ops xs. g x) = (\<Sum>x\<leftarrow>xs. g x)" for xs and g :: "'a \<Rightarrow> int"
    unfolding sort_lots_def by (metis mset_map mset_sort sum_mset_sum_list)
  then show ?thesis by (simp add: lots_held_def)
qed

lemma acquire_moves:
  assumes "acquire rfc lot b = (Inr r, b')" "tl_lot_id lot \<notin> used_ids b"
  shows "held_long b' = (held_long b)(tl_instrument_id lot := held_long b (tl_instrument_id lot)
      + scaled (tl_remaining_quantity lot))" "held_short b' = held_short b"
    "used_ids b' = insert (tl_lot_id lot) (used_ids b)"
proof -
  from assms have b': "b' = b\<lparr>tb_applied_lot_ids := bs_insert (tl_lot_id lot) (tb_applied_lot_ids b),
      tb_lots := bt_insert (tl_instrument_id lot)
        (sort_lots long_ops (book_lots b (tl_instrument_id lot) @ [lot])) (tb_lots b)\<rparr>"
    by (auto simp: acquire_def used_ids_def bs_contains_def split: sum.splits if_splits)
  show "held_long b' = (held_long b)(tl_instrument_id lot := held_long b (tl_instrument_id lot)
      + scaled (tl_remaining_quantity lot))"
    by (auto simp: b' held_long_def book_lots_def bt_get_insert lots_held_sorted fun_eq_iff long_ops_def)
  show "held_short b' = held_short b" by (simp add: b' held_short_def book_short_lots_def fun_eq_iff)
  show "used_ids b' = insert (tl_lot_id lot) (used_ids b)" by (auto simp: b' used_ids_def)
qed

lemma open_short_moves:
  assumes "open_short rfc lot b = (Inr r, b')" "st_lot_id lot \<notin> used_ids b"
  shows "held_short b' = (held_short b)(st_instrument_id lot := held_short b (st_instrument_id lot)
      + scaled (st_remaining_quantity lot))" "held_long b' = held_long b"
    "used_ids b' = insert (st_lot_id lot) (used_ids b)"
proof -
  from assms have b': "b' = b\<lparr>tb_applied_short_lot_ids := bs_insert (st_lot_id lot) (tb_applied_short_lot_ids b),
      tb_short_lots := bt_insert (st_instrument_id lot)
        (sort_lots short_ops (book_short_lots b (st_instrument_id lot) @ [lot])) (tb_short_lots b)\<rparr>"
    by (auto simp: open_short_def used_ids_def bs_contains_def split: sum.splits if_splits)
  show "held_short b' = (held_short b)(st_instrument_id lot := held_short b (st_instrument_id lot)
      + scaled (st_remaining_quantity lot))"
    by (auto simp: b' held_short_def book_short_lots_def bt_get_insert lots_held_sorted fun_eq_iff short_ops_def)
  show "held_long b' = held_long b" by (simp add: b' held_long_def book_lots_def fun_eq_iff)
  show "used_ids b' = insert (st_lot_id lot) (used_ids b)" by (auto simp: b' used_ids_def)
qed

text \<open>The two sides of the book seen from a fill: the side it closes and the side it opens.\<close>

definition closing_side :: "side \<Rightarrow> tax_lot_book \<Rightarrow> string \<Rightarrow> int" where
  "closing_side s = (case s of Buy \<Rightarrow> held_short | Sell \<Rightarrow> held_long)"

definition opening_side :: "side \<Rightarrow> tax_lot_book \<Rightarrow> string \<Rightarrow> int" where
  "opening_side s = (case s of Buy \<Rightarrow> held_long | Sell \<Rightarrow> held_short)"

definition fill_ids :: "string \<Rightarrow> string set" where
  "fill_ids e = {''taxcover-'' @ e, ''taxdisposal-'' @ e, ''taxlot-'' @ e, ''taxshort-'' @ e}"

lemma fill_ids_disjoint: "e \<noteq> e' \<Longrightarrow> fill_ids e \<inter> fill_ids e' = {}"
  by (auto simp: fill_ids_def)

lemma close_lots_moves:
  assumes "close_lots rfc c f closing fee b = (Inr u, b')" "book_ok rfc b" "fill_ids (fl_execution_id f) \<inter> used_ids b = {}"
    "0 \<le> scaled closing"
  shows "book_ok rfc b'"
    "closing_side (fl_side f) b' = (closing_side (fl_side f) b)
      (fl_instrument_id f := closing_side (fl_side f) b (fl_instrument_id f) - scaled closing)"
    "opening_side (fl_side f) b' = opening_side (fl_side f) b"
    "used_ids b' \<subseteq> used_ids b \<union> {''taxcover-'' @ fl_execution_id f, ''taxdisposal-'' @ fl_execution_id f}"
proof -
  have fresh: "''taxcover-'' @ fl_execution_id f \<notin> used_ids b" "''taxdisposal-'' @ fl_execution_id f \<notin> used_ids b"
    using assms(3) by (auto simp: fill_ids_def)
  have "book_ok rfc b' \<and> closing_side (fl_side f) b' = (closing_side (fl_side f) b)
      (fl_instrument_id f := closing_side (fl_side f) b (fl_instrument_id f) - scaled closing)
    \<and> opening_side (fl_side f) b' = opening_side (fl_side f) b
    \<and> used_ids b' \<subseteq> used_ids b \<union> {''taxcover-'' @ fl_execution_id f, ''taxdisposal-'' @ fl_execution_id f}"
  proof (cases "closing > ZERO")
    case False
    then have "scaled closing = 0" "b' = b" using assms(1,4) by (simp_all add: close_lots_def decimal_cmp)
    with assms(2) show ?thesis by (auto simp: fun_eq_iff)
  next
    case True
    show ?thesis
    proof (cases "fl_side f")
      case Buy
      with True assms(1) obtain r where r: "cover rfc (''taxcover-'' @ fl_execution_id f) (fl_instrument_id f) c closing
          (fl_price f) fee (fl_executed_at f) Fifo b = (Inr r, b')"
        by (auto simp: close_lots_def op_bind_eq_Ok)
      from cover_moves [OF r assms(2) fresh(1)] show ?thesis
        by (auto simp: closing_side_def opening_side_def Buy)
    next
      case Sell
      with True assms(1) obtain r where r: "dispose rfc (''taxdisposal-'' @ fl_execution_id f) (fl_instrument_id f) c closing
          (fl_price f) fee (fl_executed_at f) Fifo b = (Inr r, b')"
        by (auto simp: close_lots_def op_bind_eq_Ok)
      from dispose_moves [OF r assms(2) fresh(2)] show ?thesis
        by (auto simp: closing_side_def opening_side_def Sell)
    qed
  qed
  then show "book_ok rfc b'" "closing_side (fl_side f) b' = (closing_side (fl_side f) b)
      (fl_instrument_id f := closing_side (fl_side f) b (fl_instrument_id f) - scaled closing)"
    "opening_side (fl_side f) b' = opening_side (fl_side f) b"
    "used_ids b' \<subseteq> used_ids b \<union> {''taxcover-'' @ fl_execution_id f, ''taxdisposal-'' @ fl_execution_id f}"
    by blast+
qed

lemma open_lots_moves:
  assumes "open_lots rfc c f opened fee b = (Inr u, b')" "book_ok rfc b"
    "{''taxlot-'' @ fl_execution_id f, ''taxshort-'' @ fl_execution_id f} \<inter> used_ids b = {}"
  shows "book_ok rfc b' \<and> closing_side (fl_side f) b' = closing_side (fl_side f) b
    \<and> opening_side (fl_side f) b' = (opening_side (fl_side f) b)
      (fl_instrument_id f := opening_side (fl_side f) b (fl_instrument_id f) + scaled opened)
    \<and> used_ids b' \<subseteq> used_ids b \<union> {''taxlot-'' @ fl_execution_id f, ''taxshort-'' @ fl_execution_id f}"
proof (cases "fl_side f")
  case Buy
  with assms(1) obtain lot r where lot: "opened_lot c f opened fee = Inr lot" and r: "acquire rfc lot b = (Inr r, b')"
    by (auto simp: open_lots_def op_bind_eq_Ok)
  from lot have l: "tl_lot_id lot = ''taxlot-'' @ fl_execution_id f" "tl_instrument_id lot = fl_instrument_id f"
    "tl_remaining_quantity lot = opened" by (auto simp: opened_lot_def and_then_eq_Inr)
  from acquire_moves [OF r] acquire_ok [OF assms(2), of lot] r l assms(3) show ?thesis
    by (auto simp: closing_side_def opening_side_def Buy)
next
  case Sell
  with assms(1) obtain lot r where lot: "opened_short_lot c f opened fee = Inr lot" and r: "open_short rfc lot b = (Inr r, b')"
    by (auto simp: open_lots_def op_bind_eq_Ok)
  from lot have l: "st_lot_id lot = ''taxshort-'' @ fl_execution_id f" "st_instrument_id lot = fl_instrument_id f"
    "st_remaining_quantity lot = opened" by (auto simp: opened_short_lot_def and_then_eq_Inr)
  from open_short_moves [OF r] open_short_ok [OF assms(2), of lot] r l assms(3) show ?thesis
    by (auto simp: closing_side_def opening_side_def Sell)
qed

lemma opposite_available_Ok:
  "opposite_available f b = Inr a \<Longrightarrow> scaled a = closing_side (fl_side f) b (fl_instrument_id f)"
  by (cases "fl_side f") (auto simp: opposite_available_def closing_side_def held_long_def held_short_def
      dest: long_lots.available short_lots.available)

lemma held_nonneg:
  assumes "book_ok rfc b"
  shows "0 \<le> held_long b i" "0 \<le> held_short b i"
proof -
  show "0 \<le> held_long b i"
    using open_long_lots [OF assms, of i] unfolding held_long_def lots_held_def book_lots_def
    by (cases "bt_get (tb_lots b) i") (auto simp: long_ops_def decimal_cmp less_imp_le intro!: sum_list_nonneg)
  show "0 \<le> held_short b i"
    using open_short_lots [OF assms, of i] unfolding held_short_def lots_held_def book_short_lots_def
    by (cases "bt_get (tb_short_lots b) i") (auto simp: short_ops_def decimal_cmp less_imp_le intro!: sum_list_nonneg)
qed

text \<open>An accepted fill closes as much of the other side as there is, and opens the rest.\<close>

lemma apply_tax_lot_fill_moves:
  assumes "apply_tax_lot_fill rfc cur f b = (Inr u, b')" "book_ok rfc b"
    "fill_ids (fl_execution_id f) \<inter> used_ids b = {}" "0 < scaled (fl_quantity f)"
  defines "i \<equiv> fl_instrument_id f"
  defines "closed \<equiv> min (closing_side (fl_side f) b i) (scaled (fl_quantity f))"
  shows "book_ok rfc b'"
    "closing_side (fl_side f) b' = (closing_side (fl_side f) b)(i := closing_side (fl_side f) b i - closed)"
    "opening_side (fl_side f) b' = (opening_side (fl_side f) b)
       (i := opening_side (fl_side f) b i + (scaled (fl_quantity f) - closed))"
    "used_ids b' \<subseteq> used_ids b \<union> fill_ids (fl_execution_id f)"
proof -
  from assms(1) obtain c available opened close_fee b1 where
    av: "opposite_available f b = Inr available" and
    op: "checked_sub (fl_quantity f) (min available (fl_quantity f)) = Inr opened" and
    cl: "close_lots rfc c f (min available (fl_quantity f)) close_fee b = (Inr (), b1)" and
    rest: "(if opened = ZERO then op_return ()
       else op_bind (op_lift (checked_sub (fl_fee f) close_fee)) (\<lambda>open_fee. open_lots rfc c f opened open_fee)) b1
       = (Inr u, b')"
    by (auto simp: apply_tax_lot_fill_def Let_def op_bind_eq_Ok)
  have closing: "scaled (min available (fl_quantity f)) = closed"
    using opposite_available_Ok [OF av] by (auto simp: closed_def i_def min_def decimal_cmp)
  have opened: "scaled opened = scaled (fl_quantity f) - closed" using op closing by (auto simp: checked_sub_eq_Ok)
  have side0: "0 \<le> closing_side (fl_side f) b i"
    using held_nonneg [OF assms(2)] by (cases "fl_side f") (simp_all add: closing_side_def)
  then have "0 \<le> closed" using assms(4) by (simp add: closed_def)
  note c1 = close_lots_moves [OF cl assms(2,3), unfolded closing, OF this]
  have "book_ok rfc b' \<and> closing_side (fl_side f) b' = (closing_side (fl_side f) b)(i := closing_side (fl_side f) b i - closed)
    \<and> opening_side (fl_side f) b' = (opening_side (fl_side f) b)
       (i := opening_side (fl_side f) b i + (scaled (fl_quantity f) - closed))
    \<and> used_ids b' \<subseteq> used_ids b \<union> fill_ids (fl_execution_id f)"
  proof (cases "opened = ZERO")
    case True
    then have "b' = b1" "scaled (fl_quantity f) - closed = 0" using rest opened by simp_all
    with c1 show ?thesis by (auto simp: i_def fill_ids_def fun_eq_iff)
  next
    case False
    with rest obtain open_fee where o: "open_lots rfc c f opened open_fee b1 = (Inr u, b')"
      by (auto simp: op_bind_eq_Ok)
    have "{''taxlot-'' @ fl_execution_id f, ''taxshort-'' @ fl_execution_id f} \<inter> used_ids b1 = {}"
      using c1(4) assms(3) by (auto simp: fill_ids_def)
    from open_lots_moves [OF o c1(1) this] c1 show ?thesis
      by (auto simp: i_def opened fill_ids_def)
  qed
  then show "book_ok rfc b'"
    "closing_side (fl_side f) b' = (closing_side (fl_side f) b)(i := closing_side (fl_side f) b i - closed)"
    "opening_side (fl_side f) b' = (opening_side (fl_side f) b)
       (i := opening_side (fl_side f) b i + (scaled (fl_quantity f) - closed))"
    "used_ids b' \<subseteq> used_ids b \<union> fill_ids (fl_execution_id f)"
    by blast+
qed

section \<open>The books move together\<close>

definition position :: "'z paper_books_scheme \<Rightarrow> string \<Rightarrow> int" where
  "position b i = (case bt_get (pb_portfolios b) i of None \<Rightarrow> 0 | Some p \<Rightarrow> scaled (pf_quantity p))"

definition attributed :: "'z paper_books_scheme \<Rightarrow> string \<Rightarrow> int" where
  "attributed b i = (case bt_get (pb_strategy_attribution b) i of None \<Rightarrow> 0 | Some m \<Rightarrow> bt_sum (\<lambda>_ q. scaled q) m)"

definition books_ok :: "(string \<Rightarrow> bool) \<Rightarrow> 'z paper_books_scheme \<Rightarrow> bool" where
  "books_ok rfc3339 b \<longleftrightarrow> book_ok rfc3339 (pb_tax_lots b)
     \<and> (\<forall>i p. bt_get (pb_portfolios b) i = Some p \<longrightarrow> pf_instrument_id p = i)
     \<and> (\<forall>i m. bt_get (pb_strategy_attribution b) i = Some m \<longrightarrow> bt_sorted m)
     \<and> used_ids (pb_tax_lots b) \<subseteq> (\<Union>e\<in>set (pb_execution_ids b). fill_ids e)"

text \<open>The portfolio holds what the lots hold, one side of the lots is empty, and the strategies'
  contributions add up to the position.\<close>

definition books_agree :: "'z paper_books_scheme \<Rightarrow> bool" where
  "books_agree b \<longleftrightarrow> (\<forall>i. position b i = held_long (pb_tax_lots b) i - held_short (pb_tax_lots b) i
     \<and> (held_long (pb_tax_lots b) i = 0 \<or> held_short (pb_tax_lots b) i = 0)
     \<and> attributed b i = position b i)"

lemma portfolio_apply_fill_Ok:
  assumes "portfolio_apply_fill p f = (Inr u, p')"
  shows "0 < scaled (fl_quantity f)" "fl_instrument_id f = pf_instrument_id p" "pf_instrument_id p' = pf_instrument_id p"
    "scaled (pf_quantity p') = scaled (pf_quantity p) + side_sign (fl_side f) * scaled (fl_quantity f)"
  using assms
  by (auto simp: portfolio_apply_fill_def commit_cases buy_fill_def and_then_eq_Inr checked_add_eq_Ok checked_sub_eq_Ok
      Let_def decimal_cmp split: if_splits side.splits sum.splits)

lemma portfolio_apply_signed_fill_Ok:
  assumes "portfolio_apply_signed_fill p f = (Inr u, p')"
  shows "0 < scaled (fl_quantity f)" "fl_instrument_id f = pf_instrument_id p" "pf_instrument_id p' = pf_instrument_id p"
    "scaled (pf_quantity p') = scaled (pf_quantity p) + side_sign (fl_side f) * scaled (fl_quantity f)"
proof -
  from assms obtain q c r where s: "signed_fill p f = Inr (q, c, r)"
    and p': "p' = p\<lparr>pf_quantity := q, pf_average_cost := c, pf_realized_pnl := r\<rparr>"
    by (auto simp: portfolio_apply_signed_fill_def commit_cases)
  from s show "0 < scaled (fl_quantity f)" "fl_instrument_id f = pf_instrument_id p"
    by (auto simp: signed_fill_def decimal_cmp split: if_splits)
  show "scaled (pf_quantity p') = scaled (pf_quantity p) + side_sign (fl_side f) * scaled (fl_quantity f)"
    "pf_instrument_id p' = pf_instrument_id p"
    using signed_fill_Ok(1) [OF s] by (simp_all add: p')
qed

lemma fill_portfolio_Ok:
  assumes "fill_portfolio terms f b = (Inr u, b')"
    "\<forall>i p. bt_get (pb_portfolios b) i = Some p \<longrightarrow> pf_instrument_id p = i"
  defines "i \<equiv> fl_instrument_id f"
  shows "0 < scaled (fl_quantity f)"
    "\<exists>m. b' = b\<lparr>pb_portfolios := m\<rparr>"
    "\<forall>i p. bt_get (pb_portfolios b') i = Some p \<longrightarrow> pf_instrument_id p = i"
    "position b' = (position b)(i := position b i + side_sign (fl_side f) * scaled (fl_quantity f))"
proof -
  define p where "p = (case bt_get (pb_portfolios b) i of None \<Rightarrow> portfolio_new (bk_account_id terms) i | Some p \<Rightarrow> p)"
  obtain p' where
    step: "(if bk_short_permitted terms then portfolio_apply_signed_fill p f else portfolio_apply_fill p f) = (Inr u, p')" and
    b': "b' = b\<lparr>pb_portfolios := bt_insert i p' (pb_portfolios b)\<rparr>"
    using assms(1) [unfolded fill_portfolio_def Let_def, folded i_def, folded p_def] by (auto split: prod.splits)
  have facts: "0 < scaled (fl_quantity f)" "fl_instrument_id f = pf_instrument_id p" "pf_instrument_id p' = pf_instrument_id p"
    "scaled (pf_quantity p') = scaled (pf_quantity p) + side_sign (fl_side f) * scaled (fl_quantity f)"
    using step portfolio_apply_signed_fill_Ok [of p f u p'] portfolio_apply_fill_Ok [of p f u p'] by (auto split: if_splits)
  have "scaled (pf_quantity p) = position b i"
    by (auto simp: p_def position_def portfolio_new_def split: option.splits)
  with facts assms(2) show "0 < scaled (fl_quantity f)" "\<exists>m. b' = b\<lparr>pb_portfolios := m\<rparr>"
    "\<forall>i p. bt_get (pb_portfolios b') i = Some p \<longrightarrow> pf_instrument_id p = i"
    "position b' = (position b)(i := position b i + side_sign (fl_side f) * scaled (fl_quantity f))"
    by (auto simp: b' bt_get_insert position_def fun_eq_iff i_def)
qed

lemma fill_attribution_Ok:
  assumes "fill_attribution f s b = (Inr u, b')"
    "\<forall>i m. bt_get (pb_strategy_attribution b) i = Some m \<longrightarrow> bt_sorted m"
  defines "i \<equiv> fl_instrument_id f"
  shows "\<exists>m. b' = b\<lparr>pb_strategy_attribution := m\<rparr>"
    "\<forall>i m. bt_get (pb_strategy_attribution b') i = Some m \<longrightarrow> bt_sorted m"
    "attributed b' = (attributed b)(i := attributed b i + side_sign (fl_side f) * scaled (fl_quantity f))"
proof -
  define strategies where "strategies = (case bt_get (pb_strategy_attribution b) i of None \<Rightarrow> [] | Some m \<Rightarrow> m)"
  define current where "current = (case bt_get strategies s of None \<Rightarrow> ZERO | Some q \<Rightarrow> q)"
  obtain updated where
    up: "(case fl_side f of Buy \<Rightarrow> checked_add current (fl_quantity f) | Sell \<Rightarrow> checked_sub current (fl_quantity f)) = Inr updated" and
    b': "b' = b\<lparr>pb_strategy_attribution := bt_insert i (bt_insert s updated strategies) (pb_strategy_attribution b)\<rparr>"
    using assms(1) [unfolded fill_attribution_def Let_def, folded i_def, folded strategies_def, folded current_def]
    by (auto split: sum.splits)
  have sorted: "bt_sorted strategies"
    using assms(2) by (auto simp: strategies_def bt_sorted_def split: option.splits)
  have "scaled updated = scaled current + side_sign (fl_side f) * scaled (fl_quantity f)"
    using up by (cases "fl_side f") (auto simp: checked_add_eq_Ok checked_sub_eq_Ok)
  then have "bt_sum (\<lambda>_ q. scaled q) (bt_insert s updated strategies)
      = bt_sum (\<lambda>_ q. scaled q) strategies + side_sign (fl_side f) * scaled (fl_quantity f)"
    by (simp add: bt_sum_insert [OF sorted] current_def split: option.split)
  moreover have "attributed b i = bt_sum (\<lambda>_ q. scaled q) strategies"
    by (simp add: attributed_def strategies_def split: option.split)
  ultimately show "attributed b' = (attributed b)(i := attributed b i + side_sign (fl_side f) * scaled (fl_quantity f))"
    by (auto simp: b' attributed_def bt_get_insert fun_eq_iff)
  show "\<exists>m. b' = b\<lparr>pb_strategy_attribution := m\<rparr>"
    "\<forall>i m. bt_get (pb_strategy_attribution b') i = Some m \<longrightarrow> bt_sorted m"
    using assms(2) bt_sorted_insert [OF sorted] by (auto simp: b' bt_get_insert)
qed

lemma cash_after_Ok:
  "cash_after f cash = Inr cash' \<Longrightarrow> \<exists>gross. checked_mul (fl_price f) (fl_quantity f) = Inr gross
    \<and> scaled cash' = scaled cash - side_sign (fl_side f) * scaled gross - scaled (fl_fee f)"
  by (cases "fl_side f") (auto simp: cash_after_def and_then_eq_Inr checked_add_eq_Ok checked_sub_eq_Ok)

lemma fresh_fill_ids:
  assumes "books_ok rfc b" "e \<notin> set (pb_execution_ids b)"
  shows "fill_ids e \<inter> used_ids (pb_tax_lots b) = {}"
proof -
  have "x \<notin> fill_ids e" if "x \<in> used_ids (pb_tax_lots b)" for x
  proof -
    from that assms(1) obtain e' where e': "e' \<in> set (pb_execution_ids b)" "x \<in> fill_ids e'"
      by (auto simp: books_ok_def)
    then have "e \<noteq> e'" using assms(2) by auto
    from fill_ids_disjoint [OF this] e'(2) show ?thesis by blast
  qed
  then show ?thesis by blast
qed

lemma accounted_fill_Ok:
  assumes "apply_accounted_fill rfc terms f s b = (Inr u, b')" "books_ok rfc b"
    "fill_ids (fl_execution_id f) \<inter> used_ids (pb_tax_lots b) = {}"
  defines "i \<equiv> fl_instrument_id f" and "moved \<equiv> side_sign (fl_side f) * scaled (fl_quantity f)"
  shows "books_ok rfc b'" "paper_books.more b' = paper_books.more b"
    "set (pb_execution_ids b') = insert (fl_execution_id f) (set (pb_execution_ids b))"
    "position b' = (position b)(i := position b i + moved)"
    "attributed b' = (attributed b)(i := attributed b i + moved)"
    "books_agree b \<Longrightarrow> books_agree b'"
    "\<exists>gross. checked_mul (fl_price f) (fl_quantity f) = Inr gross
      \<and> scaled (pb_cash b') = scaled (pb_cash b) - side_sign (fl_side f) * scaled gross - scaled (fl_fee f)"
proof -
  from assms(1) obtain b1 lots b3 cash' where
    s1: "fill_portfolio terms f b = (Inr (), b1)" and
    s2: "apply_tax_lot_fill rfc (bk_currency terms) f (pb_tax_lots b1) = (Inr (), lots)" and
    s3: "fill_attribution f s (b1\<lparr>pb_tax_lots := lots\<rparr>) = (Inr (), b3)" and
    s4: "cash_after f (pb_cash b3) = Inr cash'" and
    b': "b' = b3\<lparr>pb_cash := cash', pb_execution_ids := bs_insert (fl_execution_id f) (pb_execution_ids b3)\<rparr>"
    by (auto simp: apply_accounted_fill_def op_bind_eq_Ok op_on_eq)
  have ok: "book_ok rfc (pb_tax_lots b)" "\<forall>i p. bt_get (pb_portfolios b) i = Some p \<longrightarrow> pf_instrument_id p = i"
    "\<forall>i m. bt_get (pb_strategy_attribution b) i = Some m \<longrightarrow> bt_sorted m"
    "used_ids (pb_tax_lots b) \<subseteq> (\<Union>e\<in>set (pb_execution_ids b). fill_ids e)"
    using assms(2) by (simp_all add: books_ok_def)
  note p = fill_portfolio_Ok [OF s1 ok(2)]
  obtain m1 where b1: "b1 = b\<lparr>pb_portfolios := m1\<rparr>" using p(2) by blast
  have "\<forall>i m. bt_get (pb_strategy_attribution (b1\<lparr>pb_tax_lots := lots\<rparr>)) i = Some m \<longrightarrow> bt_sorted m"
    using ok(3) by (simp add: b1)
  note a = fill_attribution_Ok [OF s3 this]
  obtain m3 where b3: "b3 = b\<lparr>pb_portfolios := m1, pb_tax_lots := lots, pb_strategy_attribution := m3\<rparr>"
    using a(1) by (auto simp: b1)
  note l = apply_tax_lot_fill_moves [OF s2 [unfolded b1, simplified] ok(1) assms(3) p(1)]
  show "books_ok rfc b'"
    unfolding books_ok_def
  proof (intro conjI)
    show "book_ok rfc (pb_tax_lots b')" using l(1) by (simp add: b' b3)
    show "\<forall>i p. bt_get (pb_portfolios b') i = Some p \<longrightarrow> pf_instrument_id p = i" using p(3) by (simp add: b' b3 b1)
    show "\<forall>i m. bt_get (pb_strategy_attribution b') i = Some m \<longrightarrow> bt_sorted m" using a(2) by (simp add: b')
    show "used_ids (pb_tax_lots b') \<subseteq> (\<Union>e\<in>set (pb_execution_ids b'). fill_ids e)"
      using order_trans [OF l(4) Un_mono [OF ok(4) order_refl]] by (simp add: b' b3 Un_commute)
  qed
  show "paper_books.more b' = paper_books.more b" by (simp add: b' b3)
  show "set (pb_execution_ids b') = insert (fl_execution_id f) (set (pb_execution_ids b))" by (simp add: b' b3)
  show pos: "position b' = (position b)(i := position b i + moved)"
    using p(4) by (simp add: b' b3 b1 position_def [abs_def] i_def moved_def)
  show att: "attributed b' = (attributed b)(i := attributed b i + moved)"
    using a(3) by (simp add: b' b3 b1 attributed_def [abs_def] i_def moved_def)
  show "\<exists>gross. checked_mul (fl_price f) (fl_quantity f) = Inr gross
      \<and> scaled (pb_cash b') = scaled (pb_cash b) - side_sign (fl_side f) * scaled gross - scaled (fl_fee f)"
    using cash_after_Ok [OF s4] by (simp add: b' b3)
  assume agree: "books_agree b"
  have lots: "pb_tax_lots b' = lots" by (simp add: b' b3)
  show "books_agree b'"
    unfolding books_agree_def lots pos att
  proof
    fix j
    from agree have j: "position b j = held_long (pb_tax_lots b) j - held_short (pb_tax_lots b) j"
      "held_long (pb_tax_lots b) j = 0 \<or> held_short (pb_tax_lots b) j = 0" "attributed b j = position b j"
      unfolding books_agree_def by blast+
    from held_nonneg [OF ok(1), of j]
    have nn: "0 \<le> held_long (pb_tax_lots b) j" "0 \<le> held_short (pb_tax_lots b) j" .
    show "((position b)(i := position b i + moved)) j = held_long lots j - held_short lots j
      \<and> (held_long lots j = 0 \<or> held_short lots j = 0)
      \<and> ((attributed b)(i := attributed b i + moved)) j = ((position b)(i := position b i + moved)) j"
      using j nn l(2,3) p(1) by (cases "fl_side f") (auto simp: closing_side_def opening_side_def i_def moved_def min_def)
  qed
qed

end
