(* ===== verification/PaperOrders.thy ===== *)
theory PaperOrders
  imports PaperBooks
begin

text \<open>
  Component: the orders of the paper service and what a broker's evidence does to one of them
  (\<^verbatim>\<open>core/paper/src/order.rs\<close>, \<^verbatim>\<open>broker.rs\<close>, \<^verbatim>\<open>combinations.rs\<close>, \<^verbatim>\<open>service/broker_events.rs\<close>).
  A single order and a combination each carry their lifecycle state, the broker identities seen and
  the quantity filled. The lemmas give the invariant that ties the three together, and the one place
  where the state forgets a partial fill.
\<close>

section \<open>Broker requests and evidence\<close>

record broker_order_request =
  br_client_order_id :: string
  br_account_id :: string
  br_instrument_id :: string
  br_side :: side
  br_quantity :: decimal
  br_limit_price :: "decimal option"

definition broker_order_request_from :: "oms_order \<Rightarrow> broker_order_request" where
  "broker_order_request_from o1 = \<lparr>br_client_order_id = oo_order_id o1, br_account_id = oi_account_id (oo_intent o1),
     br_instrument_id = oi_instrument_id (oo_intent o1), br_side = oi_side (oo_intent o1),
     br_quantity = oi_quantity (oo_intent o1), br_limit_price = oi_limit_price (oo_intent o1)\<rparr>"

definition broker_order_request_validate :: "broker_order_request \<Rightarrow> unit result" where
  "broker_order_request_validate r =
     and_then (try_each (\<lambda>(name, v). validate_canonical_id name v)
       [(''client_order_id'', br_client_order_id r), (''account_id'', br_account_id r),
        (''instrument_id'', br_instrument_id r)]) (\<lambda>_.
     if br_quantity r \<le> ZERO \<or> (case br_limit_price r of None \<Rightarrow> False | Some price \<Rightarrow> price \<le> ZERO)
     then Err ''invalid broker order request'' else Ok ())"

record broker_combo_leg =
  bcl_instrument_id :: string
  bcl_side :: side
  bcl_ratio :: nat
  bcl_quantity :: decimal

record broker_combo_request =
  bcr_client_order_id :: string
  bcr_account_id :: string
  bcr_legs :: "broker_combo_leg list"
  bcr_limit_price :: "decimal option"

definition broker_combo_request_from :: "oms_combo_order \<Rightarrow> broker_combo_request result" where
  "broker_combo_request_from o1 =
     and_then (try_map (\<lambda>leg. and_then (combo_leg_quantity (ooc_intent o1) leg) (\<lambda>quantity.
       Ok \<lparr>bcl_instrument_id = cl_instrument_id leg, bcl_side = cl_side leg, bcl_ratio = cl_ratio leg,
           bcl_quantity = quantity\<rparr>)) (co_legs (ooc_intent o1))) (\<lambda>legs.
     Ok \<lparr>bcr_client_order_id = ooc_order_id o1, bcr_account_id = co_account_id (ooc_intent o1),
         bcr_legs = legs, bcr_limit_price = Some (combo_limit_amount (co_price_limit (ooc_intent o1)))\<rparr>)"

definition broker_combo_request_validate :: "broker_combo_request \<Rightarrow> unit result" where
  "broker_combo_request_validate r =
     and_then (try_each (\<lambda>(name, v). validate_canonical_id name v)
       [(''combo client_order_id'', bcr_client_order_id r), (''combo account_id'', bcr_account_id r)]) (\<lambda>_.
     if bcr_legs r = [] \<or> length (bcr_legs r) > 16
     then Err ''paper combo request must contain between one and sixteen legs''
     else if (case bcr_limit_price r of None \<Rightarrow> False | Some price \<Rightarrow> price \<le> ZERO)
     then Err ''paper combo limit price must be positive''
     else try_each (\<lambda>leg.
       and_then (validate_canonical_id ''combo leg instrument_id'' (bcl_instrument_id leg)) (\<lambda>_.
       if bcl_ratio leg = 0 then Err ''paper combo leg ratio must be positive''
       else if bcl_quantity leg \<le> ZERO then Err ''paper combo leg quantity must be positive''
       else Ok ())) (bcr_legs r))"

record broker_replace_request =
  brr_account_id :: string
  brr_client_order_id :: string
  brr_previous_broker_order_id :: string
  brr_limit_price :: decimal

definition broker_replace_request_validate :: "broker_replace_request \<Rightarrow> unit result" where
  "broker_replace_request_validate r =
     and_then (validate_canonical_id ''replace account_id'' (brr_account_id r)) (\<lambda>_.
     and_then (validate_canonical_id ''replace client_order_id'' (brr_client_order_id r)) (\<lambda>_.
     and_then (validate_canonical_id ''replace previous_broker_order_id'' (brr_previous_broker_order_id r)) (\<lambda>_.
     if brr_limit_price r \<le> ZERO then Err ''replacement limit price must be positive'' else Ok ())))"

record broker_cancel_request =
  bca_account_id :: string
  bca_client_order_id :: string

datatype broker_submit_result =
    SubmitAcknowledged string | SubmitRejected string | SubmitUnknown string

record combo_execution_leg =
  cel_execution_id :: string
  cel_instrument_id :: string
  cel_side :: side
  cel_quantity :: decimal
  cel_price :: decimal
  cel_fee :: decimal
  cel_executed_at :: string

record combo_execution =
  ce_execution_id :: string
  ce_client_order_id :: string
  ce_broker_order_id :: string
  ce_units :: decimal
  ce_legs :: "combo_execution_leg list"

text \<open>The arguments follow the fields in the order the source declares them.\<close>

datatype broker_event =
    ComboExecutionEvent combo_execution
  | AcknowledgedEvent string string
  | ExecutionEvent string string string decimal decimal decimal string
  | CancelledEvent string string
  | CancelRejectedEvent string string
  | ExpiredEvent string string
  | ReplaceRequestedEvent string string
  | ReplacedEvent string string string
  | ReplaceRejectedEvent string string
  | RejectedEvent string string

fun event_client_order_id :: "broker_event \<Rightarrow> string" where
  "event_client_order_id (ComboExecutionEvent e) = ce_client_order_id e"
| "event_client_order_id (AcknowledgedEvent cid _) = cid"
| "event_client_order_id (ExecutionEvent _ cid _ _ _ _ _) = cid"
| "event_client_order_id (CancelledEvent cid _) = cid"
| "event_client_order_id (CancelRejectedEvent cid _) = cid"
| "event_client_order_id (ExpiredEvent cid _) = cid"
| "event_client_order_id (ReplaceRequestedEvent cid _) = cid"
| "event_client_order_id (ReplacedEvent cid _ _) = cid"
| "event_client_order_id (ReplaceRejectedEvent cid _) = cid"
| "event_client_order_id (RejectedEvent cid _) = cid"

section \<open>A single order\<close>

record paper_order =
  por_oms :: oms_order
  por_broker_order_id :: "string option"
  por_broker_order_versions :: "string list"
  por_replace_return_state :: "order_state option"
  por_filled_quantity :: decimal
  por_market :: paper_market_data

definition terminal_state :: "order_state \<Rightarrow> bool" where
  "terminal_state s \<longleftrightarrow> s \<in> {RiskRejected, Filled, Cancelled, Rejected, Expired}"

abbreviation por_state :: "paper_order \<Rightarrow> order_state" where
  "por_state o1 \<equiv> oo_state (por_oms o1)"

definition order_is_terminal :: "paper_order \<Rightarrow> bool" where
  "order_is_terminal o1 = terminal_state (por_state o1)"

definition order_working :: "paper_order \<Rightarrow> bool" where
  "order_working o1 \<longleftrightarrow> \<not> order_is_terminal o1"

definition order_reserved_cash :: "paper_order \<Rightarrow> decimal result" where
  "order_reserved_cash o1 =
     (if \<not> order_working o1 \<or> oi_side (oo_intent (por_oms o1)) \<noteq> Buy then Ok ZERO
      else and_then (checked_sub (oi_quantity (oo_intent (por_oms o1))) (por_filled_quantity o1))
        (\<lambda>remaining. checked_mul remaining (pm_mark_price (por_market o1))))"

definition order_transition :: "order_state \<Rightarrow> string \<Rightarrow> (paper_order, unit) op" where
  "order_transition n reason =
     op_bind (op_on por_oms por_oms_update (\<lambda>o1. oms_transition o1 n reason)) (\<lambda>_. op_return ())"

definition transition_to_acknowledged :: "string \<Rightarrow> (paper_order, unit) op" where
  "transition_to_acknowledged reason =
     op_bind (op_get por_state) (\<lambda>s.
     if s = PendingSubmit then op_bind (order_transition Submitted reason) (\<lambda>_. order_transition Acknowledged reason)
     else if s \<in> {Submitted, Unknown} then order_transition Acknowledged reason
     else if s \<in> {Acknowledged, PartiallyFilled, Filled, PendingCancel, PendingReplace} then op_return ()
     else op_lift (Err ''broker acknowledgement is incompatible with internal OMS state''))"

definition filled_working_state :: "decimal \<Rightarrow> order_state" where
  "filled_working_state filled = (if filled = ZERO then Acknowledged else PartiallyFilled)"

definition restore_working_state :: "string \<Rightarrow> (paper_order, unit) op" where
  "restore_working_state reason =
     op_bind (op_get por_filled_quantity) (\<lambda>filled. order_transition (filled_working_state filled) reason)"

text \<open>\<^verbatim>\<open>take()\<close> clears the remembered state.\<close>

definition restore_replacement_state :: "string \<Rightarrow> (paper_order, unit) op" where
  "restore_replacement_state reason =
     op_bind (op_get (\<lambda>o1. case por_replace_return_state o1 of Some s \<Rightarrow> s
       | None \<Rightarrow> filled_working_state (por_filled_quantity o1))) (\<lambda>s.
     op_bind (op_modify (por_replace_return_state_update (\<lambda>_. None))) (\<lambda>_.
     order_transition s reason))"

definition transition_to_terminal :: "order_state \<Rightarrow> string \<Rightarrow> (paper_order, unit) op" where
  "transition_to_terminal terminal reason =
     op_bind (op_get por_state) (\<lambda>s.
     op_bind
       (if s = PendingSubmit then op_bind (order_transition Submitted reason) (\<lambda>_. order_transition terminal reason)
        else if s \<in> {Submitted, Acknowledged, PartiallyFilled, PendingCancel, PendingReplace, Unknown}
        then order_transition terminal reason
        else if s = terminal \<or> s \<in> {Filled, Cancelled, Rejected, Expired} then op_return ()
        else op_lift (Err ''broker terminal event is incompatible with OMS state'')) (\<lambda>_.
     op_bind (op_get (\<lambda>o1. por_state o1 \<in> {Cancelled, Rejected, Expired}
         \<and> por_filled_quantity o1 \<ge> oi_quantity (oo_intent (por_oms o1)))) (\<lambda>inconsistent.
     if inconsistent
     then op_lift (Err ''non-filled terminal state cannot have cumulative quantity equal to requested quantity'')
     else op_return ())))"

definition note_version :: "string \<Rightarrow> (paper_order, unit) op" where
  "note_version v = op_modify (\<lambda>o1. if v \<in> set (por_broker_order_versions o1) then o1
     else o1\<lparr>por_broker_order_versions := por_broker_order_versions o1 @ [v]\<rparr>)"

definition adopt_broker_id :: "string \<Rightarrow> (paper_order, unit) op" where
  "adopt_broker_id v = op_modify (\<lambda>o1. if por_broker_order_id o1 = None
     then o1\<lparr>por_broker_order_id := Some v\<rparr> else o1)"

definition adopt_version :: "string \<Rightarrow> (paper_order, unit) op" where
  "adopt_version v = op_bind (adopt_broker_id v) (\<lambda>_. note_version v)"

section \<open>Events on a single order\<close>

definition order_acknowledged :: "string \<Rightarrow> (paper_order, unit) op" where
  "order_acknowledged broker_id =
     op_bind (op_get (\<lambda>o1. (por_broker_order_id o1, por_broker_order_versions o1))) (\<lambda>(current, versions).
     if current \<noteq> None \<and> current \<noteq> Some broker_id
     then if broker_id \<in> set versions then op_return ()
       else op_lift (Err ''broker reused client order ID with an unrecognized broker ID'')
     else op_bind (adopt_version broker_id) (\<lambda>_.
       op_bind (op_get order_is_terminal) (\<lambda>terminal.
       if terminal then op_return () else transition_to_acknowledged ''IBKR_PAPER_ACKNOWLEDGED_EVENT'')))"

definition order_count_fill :: "decimal \<Rightarrow> (paper_order, unit) op" where
  "order_count_fill quantity =
     op_bind (op_get (\<lambda>o1. checked_add (por_filled_quantity o1) quantity)) (\<lambda>sum_or_error.
     op_bind (op_lift sum_or_error) (\<lambda>filled.
     op_bind (op_get (\<lambda>o1. oi_quantity (oo_intent (por_oms o1)))) (\<lambda>requested.
     if filled > requested then op_lift (Err ''broker execution exceeds internal requested quantity'')
     else op_bind (op_modify (por_filled_quantity_update (\<lambda>_. filled))) (\<lambda>_.
       op_bind (op_get por_state) (\<lambda>s.
       if filled = requested
       then if s \<noteq> Filled then order_transition Filled ''BROKER_FULL_FILL'' else op_return ()
       else if s = Acknowledged then order_transition PartiallyFilled ''BROKER_PARTIAL_FILL''
       else op_return ())))))"

definition order_confirm_fill :: "decimal \<Rightarrow> (paper_order, unit) op" where
  "order_confirm_fill quantity =
     op_bind (transition_to_acknowledged ''BROKER_EXECUTION_CONFIRMED_ORDER'') (\<lambda>_. order_count_fill quantity)"

definition order_executed :: "string \<Rightarrow> decimal \<Rightarrow> (paper_order, unit) op" where
  "order_executed broker_id quantity =
     op_bind (op_get (\<lambda>o1. (por_broker_order_id o1, por_broker_order_versions o1))) (\<lambda>(current, versions).
     if current \<noteq> None \<and> current \<noteq> Some broker_id \<and> broker_id \<notin> set versions
     then op_lift (Err ''broker execution has an unrecognized broker order version'')
     else op_bind (adopt_version broker_id) (\<lambda>_.
       op_bind (op_get por_state) (\<lambda>s.
       op_bind (if s \<in> {Cancelled, Rejected, Expired}
         then order_transition Unknown ''LATE_BROKER_EXECUTION_AFTER_TERMINAL'' else op_return ()) (\<lambda>_.
       order_confirm_fill quantity))))"

definition order_cancel_rejected :: "(paper_order, unit) op" where
  "order_cancel_rejected =
     op_bind (op_get por_state) (\<lambda>s.
     if s \<in> {PendingCancel, Unknown} then restore_working_state ''BROKER_CANCEL_REJECTED''
     else if s \<in> {Filled, Cancelled, Rejected, Expired} then op_return ()
     else op_lift (Err ''broker cancel rejection is incompatible with OMS state''))"

definition order_replace_requested :: "string \<Rightarrow> (paper_order, unit) op" where
  "order_replace_requested previous =
     op_bind (op_get por_broker_order_id) (\<lambda>current.
     if current \<noteq> Some previous then op_lift (Err ''broker replacement does not match active broker order'')
     else op_bind (op_get por_state) (\<lambda>s.
       if s \<in> {Acknowledged, PartiallyFilled}
       then op_bind (op_modify (por_replace_return_state_update (\<lambda>_. Some s))) (\<lambda>_.
         order_transition PendingReplace ''BROKER_REPLACE_REQUESTED'')
       else if s = PendingReplace \<or> s \<in> {Filled, Cancelled, Rejected, Expired} then op_return ()
       else op_lift (Err ''broker replacement is incompatible with OMS state'')))"

definition order_replaced :: "string \<Rightarrow> string \<Rightarrow> (paper_order, unit) op" where
  "order_replaced previous replacement =
     op_bind (op_get (\<lambda>o1. (por_broker_order_id o1, por_broker_order_versions o1))) (\<lambda>(current, versions).
     if current \<noteq> Some previous
     then if replacement \<in> set versions then op_return ()
       else op_lift (Err ''broker replacement does not match active broker order'')
     else op_bind (op_get por_state) (\<lambda>s.
       if s \<in> {PendingReplace, Unknown}
       then op_bind (note_version replacement) (\<lambda>_.
         op_bind (op_modify (por_broker_order_id_update (\<lambda>_. Some replacement))) (\<lambda>_.
         restore_replacement_state ''BROKER_REPLACED''))
       else if s \<in> {Filled, Cancelled, Rejected, Expired} then op_return ()
       else op_lift (Err ''broker replacement is incompatible with OMS state'')))"

definition order_replace_rejected :: "(paper_order, unit) op" where
  "order_replace_rejected =
     op_bind (op_get por_state) (\<lambda>s.
     if s \<in> {PendingReplace, Unknown} then restore_replacement_state ''BROKER_REPLACE_REJECTED''
     else if s \<in> {Filled, Cancelled, Rejected, Expired} then op_return ()
     else op_lift (Err ''broker replacement rejection is incompatible with OMS state''))"

section \<open>The invariant of a single order\<close>

abbreviation por_quantity :: "paper_order \<Rightarrow> decimal" where
  "por_quantity o1 \<equiv> oi_quantity (oo_intent (por_oms o1))"

text \<open>
  Never more filled than requested, \<open>FILLED\<close> exactly when all is filled, the current broker
  identity among the versions seen and none of them twice, a pending replacement that knows where to
  return to.
\<close>

definition order_ok :: "paper_order \<Rightarrow> bool" where
  "order_ok o1 \<longleftrightarrow> 0 < scaled (por_quantity o1)
     \<and> 0 \<le> scaled (por_filled_quantity o1) \<and> scaled (por_filled_quantity o1) \<le> scaled (por_quantity o1)
     \<and> (por_state o1 = Filled \<longleftrightarrow> por_filled_quantity o1 = por_quantity o1)
     \<and> (\<forall>v. por_broker_order_id o1 = Some v \<longrightarrow> v \<in> set (por_broker_order_versions o1))
     \<and> distinct (por_broker_order_versions o1)
     \<and> (\<forall>s. por_replace_return_state o1 = Some s \<longrightarrow> s \<in> {Acknowledged, PartiallyFilled})
     \<and> (por_state o1 = PendingReplace \<longrightarrow> por_replace_return_state o1 \<noteq> None)"

text \<open>What a step may not touch: the identity and the approved intent.\<close>

definition same_order :: "paper_order \<Rightarrow> paper_order \<Rightarrow> bool" where
  "same_order o1 o2 \<longleftrightarrow> oo_order_id (por_oms o2) = oo_order_id (por_oms o1)
     \<and> oo_intent (por_oms o2) = oo_intent (por_oms o1) \<and> por_market o2 = por_market o1"

lemma same_order_refl [simp]: "same_order o1 o1"
  by (simp add: same_order_def)

lemma same_order_trans: "same_order o1 o2 \<Longrightarrow> same_order o2 o3 \<Longrightarrow> same_order o1 o3"
  by (simp add: same_order_def)

definition order_step_ok :: "(paper_order, 'a) op \<Rightarrow> bool" where
  "order_step_ok m \<longleftrightarrow> (\<forall>o1 r o2. order_ok o1 \<longrightarrow> m o1 = (r, o2) \<longrightarrow> order_ok o2 \<and> same_order o1 o2)"

named_theorems order_steps "steps that keep the invariant of a single order"

lemma order_step_okD: "order_step_ok m \<Longrightarrow> order_ok o1 \<Longrightarrow> m o1 = (r, o2) \<Longrightarrow> order_ok o2 \<and> same_order o1 o2"
  by (simp add: order_step_ok_def)

lemma order_step_bind [order_steps]:
  assumes "order_step_ok m" "\<And>x. order_step_ok (f x)"
  shows "order_step_ok (op_bind m f)"
  unfolding order_step_ok_def
proof (intro allI impI)
  fix o1 r o3
  assume ok: "order_ok o1" and run: "op_bind m f o1 = (r, o3)"
  obtain x o2 where m: "m o1 = (x, o2)" by force
  note step = order_step_okD [OF assms(1) ok m]
  show "order_ok o3 \<and> same_order o1 o3"
  proof (cases x)
    case (Inl e)
    with m run step show ?thesis by simp
  next
    case (Inr y)
    with m run have "f y o2 = (r, o3)" by simp
    from order_step_okD [OF assms(2) _ this] step show ?thesis using same_order_trans by blast
  qed
qed

text \<open>A step that reads may use what it read of the order it continues with.\<close>

lemma order_step_get:
  assumes "\<And>o1 r o2. order_ok o1 \<Longrightarrow> f (g o1) o1 = (r, o2) \<Longrightarrow> order_ok o2 \<and> same_order o1 o2"
  shows "order_step_ok (op_bind (op_get g) f)"
  using assms by (simp add: order_step_ok_def)

lemma order_step_basic [order_steps]:
  "order_step_ok (op_return x)" "order_step_ok (op_lift r)" "order_step_ok (op_get g)"
  by (simp_all add: order_step_ok_def)

lemma order_step_if [order_steps]:
  "order_step_ok m \<Longrightarrow> order_step_ok n \<Longrightarrow> order_step_ok (if b then m else n)"
  by simp

lemma order_transition_eq:
  "order_transition n reason o1 =
     (if is_valid_transition (por_state o1) n then (Ok (), o1\<lparr>por_oms := (por_oms o1)\<lparr>oo_state := n\<rparr>\<rparr>)
      else (Err (''invalid OMS transition '' @ order_state_as_str (por_state o1) @ '' -> '' @ order_state_as_str n), o1))"
  by (simp add: order_transition_def op_bind_def op_on_def oms_transition_def)

lemma order_transition_ok:
  "n \<notin> {Filled, PendingReplace} \<Longrightarrow> order_ok o1 \<Longrightarrow> order_transition n reason o1 = (r, o2) \<Longrightarrow>
    order_ok o2 \<and> same_order o1 o2"
  by (auto simp: order_transition_eq order_ok_def same_order_def split: if_splits)

lemma order_step_transition [order_steps]:
  "n \<notin> {Filled, PendingReplace} \<Longrightarrow> order_step_ok (order_transition n reason)"
  unfolding order_step_ok_def using order_transition_ok by blast

lemma order_step_versions [order_steps]: "order_step_ok (note_version v)"
  by (auto simp: order_step_ok_def note_version_def order_ok_def same_order_def)

lemma filled_working_state_cases: "filled_working_state q \<in> {Acknowledged, PartiallyFilled}"
  by (simp add: filled_working_state_def)

lemma order_step_acknowledge [order_steps]: "order_step_ok (transition_to_acknowledged reason)"
  unfolding transition_to_acknowledged_def by (intro order_steps) simp_all

lemma order_step_restore_working [order_steps]: "order_step_ok (restore_working_state reason)"
  unfolding restore_working_state_def
  by (intro order_steps) (simp add: filled_working_state_def)

lemma order_step_terminal [order_steps]:
  "t \<in> {Cancelled, Rejected, Expired} \<Longrightarrow> order_step_ok (transition_to_terminal t reason)"
  unfolding transition_to_terminal_def by (intro order_steps) auto

lemma order_step_restore_replacement:
  assumes "order_ok o1" "por_state o1 \<in> {PendingReplace, Unknown}"
    "restore_replacement_state reason o1 = (r, o2)"
  shows "order_ok o2 \<and> same_order o1 o2"
  using assms filled_working_state_cases [of "por_filled_quantity o1"]
  by (auto simp: restore_replacement_state_def order_transition_eq order_ok_def same_order_def split: option.splits)

lemma order_step_adopt [order_steps]: "order_step_ok (adopt_version v)"
  by (auto simp: order_step_ok_def adopt_version_def adopt_broker_id_def note_version_def op_bind_def order_ok_def
      same_order_def split: if_splits)

lemma order_step_split [order_steps]: "(\<And>x y. order_step_ok (f x y)) \<Longrightarrow> order_step_ok (case p of (x, y) \<Rightarrow> f x y)"
  by (cases p) simp

lemma order_step_acknowledged [order_steps]: "order_step_ok (order_acknowledged v)"
  unfolding order_acknowledged_def by (intro order_steps)

lemma order_step_count_fill:
  assumes "order_ok o1" "0 < scaled q" "order_count_fill q o1 = (r, o2)"
    "por_state o1 \<in> {Acknowledged, PartiallyFilled, Filled, PendingCancel, PendingReplace}"
  shows "order_ok o2 \<and> same_order o1 o2"
proof (cases "checked_add (por_filled_quantity o1) q")
  case (Inl e)
  with assms(1,3) show ?thesis by (simp add: order_count_fill_def)
next
  case (Inr filled)
  then have filled: "scaled filled = scaled (por_filled_quantity o1) + scaled q" by (simp add: checked_add_eq_Ok)
  show ?thesis
  proof (cases "filled > por_quantity o1")
    case True
    with assms(1,3) Inr show ?thesis by (simp add: order_count_fill_def)
  next
    case False
    then have le: "scaled filled \<le> scaled (por_quantity o1)" by (simp add: decimal_cmp)
    then have not_filled: "por_state o1 \<noteq> Filled" using assms(1,2) filled by (auto simp: order_ok_def)
    show ?thesis
      using assms False Inr filled le not_filled
      by (auto simp: order_count_fill_def order_transition_eq order_ok_def same_order_def split: if_splits)
  qed
qed

lemma transition_to_acknowledged_state:
  "transition_to_acknowledged reason o1 = (Inr u, o2) \<Longrightarrow>
    por_state o2 \<in> {Acknowledged, PartiallyFilled, Filled, PendingCancel, PendingReplace}"
  by (auto simp: transition_to_acknowledged_def op_bind_eq_Ok order_transition_eq split: if_splits)

lemma order_step_confirm_fill [order_steps]:
  assumes "0 < scaled q"
  shows "order_step_ok (order_confirm_fill q)"
  unfolding order_step_ok_def
proof (intro allI impI)
  fix o1 r o3
  assume ok: "order_ok o1" and run: "order_confirm_fill q o1 = (r, o3)"
  obtain x o2 where m: "transition_to_acknowledged ''BROKER_EXECUTION_CONFIRMED_ORDER'' o1 = (x, o2)" by force
  note step = order_step_okD [OF order_step_acknowledge ok m]
  show "order_ok o3 \<and> same_order o1 o3"
  proof (cases x)
    case (Inl e)
    with m run step show ?thesis by (simp add: order_confirm_fill_def)
  next
    case (Inr y)
    with m run have "order_count_fill q o2 = (r, o3)" by (simp add: order_confirm_fill_def)
    from order_step_count_fill [OF _ assms this] step transition_to_acknowledged_state [OF m [unfolded Inr]]
    show ?thesis using same_order_trans by blast
  qed
qed

lemma order_step_executed [order_steps]: "0 < scaled q \<Longrightarrow> order_step_ok (order_executed v q)"
  unfolding order_executed_def by (intro order_steps) simp_all

lemma order_step_cancel_rejected [order_steps]: "order_step_ok order_cancel_rejected"
  unfolding order_cancel_rejected_def by (intro order_steps)

lemma order_step_replace_requested [order_steps]: "order_step_ok (order_replace_requested v)"
  by (auto simp: order_step_ok_def order_replace_requested_def op_bind_def order_transition_eq order_ok_def same_order_def
      split: if_splits)

lemma order_step_replaced [order_steps]: "order_step_ok (order_replaced v w)"
  unfolding order_step_ok_def
proof (intro allI impI)
  fix o1 r o3
  assume ok: "order_ok o1" and run: "order_replaced v w o1 = (r, o3)"
  show "order_ok o3 \<and> same_order o1 o3"
  proof (cases "por_broker_order_id o1 = Some v \<and> por_state o1 \<in> {PendingReplace, Unknown}")
    case False
    with ok run show ?thesis by (auto simp: order_replaced_def split: if_splits)
  next
    case True
    define o2 where "o2 = (snd (note_version w o1))\<lparr>por_broker_order_id := Some w\<rparr>"
    have o2: "order_ok o2 \<and> same_order o1 o2 \<and> por_state o2 \<in> {PendingReplace, Unknown}"
      using ok True by (auto simp: o2_def note_version_def order_ok_def same_order_def)
    have "restore_replacement_state ''BROKER_REPLACED'' o2 = (r, o3)"
      using run True by (auto simp: order_replaced_def o2_def note_version_def)
    from order_step_restore_replacement [OF _ _ this] o2 show ?thesis using same_order_trans by blast
  qed
qed

lemma order_step_replace_rejected [order_steps]: "order_step_ok order_replace_rejected"
  unfolding order_step_ok_def
proof (intro allI impI)
  fix o1 r o2
  assume ok: "order_ok o1" and run: "order_replace_rejected o1 = (r, o2)"
  show "order_ok o2 \<and> same_order o1 o2"
    using run order_step_restore_replacement [OF ok] ok
    by (auto simp: order_replace_rejected_def split: if_splits)
qed

section \<open>A replacement answered after a partial fill\<close>

lemma note_version_known: "v \<in> set (por_broker_order_versions o1) \<Longrightarrow> note_version v o1 = (Ok (), o1)"
  by (simp add: note_version_def)

text \<open>C34: An acknowledged order that is partly filled while its replacement is pending is put back to acknowledged by
  the answer to the replacement, although the same fill without a replacement makes it partially filled.\<close>

theorem replacement_forgets_partial_fill:
  assumes "order_ok o1" "por_state o1 = Acknowledged" "por_broker_order_id o1 = Some v"
    "checked_add (por_filled_quantity o1) q = Ok filled" "0 < scaled q" "filled < por_quantity o1"
  shows "(\<exists>o2. op_bind (order_replace_requested v) (\<lambda>_. op_bind (order_executed v q) (\<lambda>_. order_replaced v w)) o1 = (Ok (), o2)
      \<and> por_state o2 = Acknowledged \<and> por_filled_quantity o2 = filled)
    \<and> (\<exists>o2. order_executed v q o1 = (Ok (), o2) \<and> por_state o2 = PartiallyFilled \<and> por_filled_quantity o2 = filled)"
proof -
  have v: "v \<in> set (por_broker_order_versions o1)" using assms(1,3) by (simp add: order_ok_def)
  have part: "filled \<noteq> por_quantity o1" "\<not> filled > por_quantity o1" using assms(6) by auto
  have fill: "order_executed v q o2 = (Ok (), o2\<lparr>por_filled_quantity := filled, por_oms := (por_oms o2)\<lparr>oo_state :=
      if por_state o2 = Acknowledged then PartiallyFilled else por_state o2\<rparr>\<rparr>)"
    if "por_state o2 \<in> {Acknowledged, PendingReplace}" "por_broker_order_id o2 = Some v"
      "por_broker_order_versions o2 = por_broker_order_versions o1" "por_filled_quantity o2 = por_filled_quantity o1"
      "por_quantity o2 = por_quantity o1" for o2
    using that v assms(4) part
    by (auto simp: order_executed_def adopt_version_def adopt_broker_id_def note_version_def op_bind_def
        order_confirm_fill_def transition_to_acknowledged_def order_count_fill_def order_transition_eq)
  have first: "order_replace_requested v o1 = (Ok (), o1\<lparr>por_replace_return_state := Some Acknowledged,
      por_oms := (por_oms o1)\<lparr>oo_state := PendingReplace\<rparr>\<rparr>)"
    using assms(2,3) by (simp add: order_replace_requested_def order_transition_eq)
  show ?thesis
  proof
    show "\<exists>o2. order_executed v q o1 = (Ok (), o2) \<and> por_state o2 = PartiallyFilled \<and> por_filled_quantity o2 = filled"
      using fill [of o1] assms(2,3) by simp
    show "\<exists>o2. op_bind (order_replace_requested v) (\<lambda>_. op_bind (order_executed v q) (\<lambda>_. order_replaced v w)) o1 = (Ok (), o2)
      \<and> por_state o2 = Acknowledged \<and> por_filled_quantity o2 = filled"
      using first assms(3) fill [of "o1\<lparr>por_replace_return_state := Some Acknowledged,
        por_oms := (por_oms o1)\<lparr>oo_state := PendingReplace\<rparr>\<rparr>"]
      by (simp add: order_replaced_def note_version_def restore_replacement_state_def order_transition_eq)
  qed
qed

definition sample_paper_order :: paper_order where
  "sample_paper_order = \<lparr>por_oms = sample_order\<lparr>oo_state := Acknowledged\<rparr>, por_broker_order_id = Some ''b1'',
     por_broker_order_versions = [''b1''], por_replace_return_state = None, por_filled_quantity = Decimal 0,
     por_market = \<lparr>pm_instrument_id = ''x'', pm_mark_price = Decimal 1, pm_observed_at = ''2026-01-31T23:59:59Z''\<rparr>\<rparr>"

lemma sample_paper_order_ok: "order_ok sample_paper_order"
  by (simp add: order_ok_def sample_paper_order_def sample_order_def sample_intent_def)

theorem replacement_forgets_partial_fill_witness:
  "\<exists>o2. op_bind (order_replace_requested ''b1'') (\<lambda>_. op_bind (order_executed ''b1'' (Decimal 400000000))
      (\<lambda>_. order_replaced ''b1'' ''b2'')) sample_paper_order = (Ok (), o2)
    \<and> por_state o2 = Acknowledged \<and> por_filled_quantity o2 = Decimal 400000000"
  using replacement_forgets_partial_fill [OF sample_paper_order_ok, of "''b1''" "Decimal 400000000" "Decimal 400000000" "''b2''"]
  by (simp add: sample_paper_order_def sample_order_def sample_intent_def checked_add_eq_Ok in_i128_def decimal_cmp)

end
