(* ===== verification/PaperCombos.thy ===== *)
theory PaperCombos
  imports PaperOrders
begin

text \<open>
  Component: combinations of the paper service (\<^verbatim>\<open>core/paper/src/order.rs\<close>, \<^verbatim>\<open>combinations.rs\<close>): one
  atomic order over several instruments, filled in whole units by complete execution receipts. The
  lemmas show that every state the operations produce is one recovery from the journal accepts.
\<close>

record paper_combo_order =
  pco_oms :: oms_combo_order
  pco_broker_order_id :: "string option"
  pco_broker_order_versions :: "string list"
  pco_market :: paper_combo_market_data
  pco_filled_quantity :: decimal
  pco_executions :: "(string, combo_execution) btree_map"
  pco_evidence_error :: "string option"

abbreviation pco_state :: "paper_combo_order \<Rightarrow> order_state" where
  "pco_state c \<equiv> ooc_state (pco_oms c)"

abbreviation pco_intent :: "paper_combo_order \<Rightarrow> combo_intent" where
  "pco_intent c \<equiv> ooc_intent (pco_oms c)"

definition combo_is_terminal :: "paper_combo_order \<Rightarrow> bool" where
  "combo_is_terminal c = terminal_state (pco_state c)"

definition combo_working :: "paper_combo_order \<Rightarrow> bool" where
  "combo_working c \<longleftrightarrow> \<not> combo_is_terminal c"

definition combo_reserved_cash :: "paper_combo_order \<Rightarrow> decimal result" where
  "combo_reserved_cash c =
     (if \<not> combo_working c then Ok ZERO
      else and_then (protected_net_price (pco_intent c)) (\<lambda>net_price.
        if net_price \<le> ZERO then Ok ZERO
        else and_then (checked_sub (co_combo_quantity (pco_intent c)) (pco_filled_quantity c))
          (checked_mul net_price)))"

section \<open>Execution receipts\<close>

definition execution_leg_ok :: "combo_execution \<Rightarrow> combo_intent \<Rightarrow> combo_execution_leg \<Rightarrow> string list \<times> string list
    \<Rightarrow> bool result" where
  "execution_leg_ok e c leg seen = (case seen of (instruments, ids) \<Rightarrow>
     and_then (ok_or (find (\<lambda>a. cl_instrument_id a = cel_instrument_id leg) (co_legs c))
       ''combination execution has an unapproved instrument'') (\<lambda>approved.
     if cel_instrument_id leg \<in> set instruments \<or> cel_execution_id leg \<in> set ids \<or> cel_side leg \<noteq> cl_side approved
     then Ok False
     else and_then (from_integer (int (cl_ratio approved))) (\<lambda>ratio.
       and_then (checked_mul (ce_units e) ratio) (\<lambda>quantity.
       Ok (cel_quantity leg = quantity \<and> cel_price leg > ZERO \<and> cel_fee leg \<ge> ZERO)))))"

definition execution_check_leg :: "(string \<Rightarrow> bool) \<Rightarrow> combo_execution \<Rightarrow> combo_intent \<Rightarrow> combo_execution_leg
    \<Rightarrow> string list \<times> string list \<Rightarrow> (string list \<times> string list) result" where
  "execution_check_leg rfc3339 e c leg seen =
     and_then (validate_canonical_id ''combo leg execution ID'' (cel_execution_id leg)) (\<lambda>_.
     and_then (validate_utc_timestamp rfc3339 ''combo leg execution time'' (cel_executed_at leg)) (\<lambda>_.
     and_then (execution_leg_ok e c leg seen) (\<lambda>ok.
     if \<not> ok then Err ''combination execution has duplicate identities or inconsistent leg economics''
     else Ok (cel_instrument_id leg # fst seen, cel_execution_id leg # snd seen))))"

definition combo_execution_validate :: "(string \<Rightarrow> bool) \<Rightarrow> combo_execution \<Rightarrow> combo_intent \<Rightarrow> unit result" where
  "combo_execution_validate rfc3339 e c =
     and_then (validate_canonical_id ''combo execution ID'' (ce_execution_id e)) (\<lambda>_.
     and_then (validate_canonical_id ''combo client ID'' (ce_client_order_id e)) (\<lambda>_.
     and_then (validate_canonical_id ''combo broker ID'' (ce_broker_order_id e)) (\<lambda>_.
     if ce_units e \<le> ZERO \<or> scaled (ce_units e) smod DECIMAL_SCALE \<noteq> 0
        \<or> length (ce_legs e) \<noteq> length (co_legs c)
     then Err ''combination execution requires whole units and every leg''
     else and_then (try_fold (execution_check_leg rfc3339 e c) (ce_legs e) ([], [ce_execution_id e])) (\<lambda>_. Ok ()))))"

definition combo_fills :: "combo_execution \<Rightarrow> fill list" where
  "combo_fills e = map (\<lambda>leg. \<lparr>fl_execution_id = cel_execution_id leg, fl_order_id = ce_client_order_id e,
     fl_instrument_id = cel_instrument_id leg, fl_side = cel_side leg, fl_quantity = cel_quantity leg,
     fl_price = cel_price leg, fl_fee = cel_fee leg, fl_executed_at = cel_executed_at leg\<rparr>) (ce_legs e)"

section \<open>The order's own steps\<close>

definition combo_transition :: "order_state \<Rightarrow> string \<Rightarrow> (paper_combo_order, unit) op" where
  "combo_transition n reason =
     op_bind (op_on pco_oms pco_oms_update (\<lambda>o1. oms_combo_transition o1 n reason)) (\<lambda>_. op_return ())"

definition combo_working_state :: "paper_combo_order \<Rightarrow> order_state" where
  "combo_working_state c = filled_working_state (pco_filled_quantity c)"

definition combo_note_broker :: "string \<Rightarrow> (paper_combo_order, unit) op" where
  "combo_note_broker v = op_modify (\<lambda>c. c\<lparr>pco_broker_order_id := Some v,
     pco_broker_order_versions := (if v \<in> set (pco_broker_order_versions c) then pco_broker_order_versions c
       else pco_broker_order_versions c @ [v])\<rparr>)"

definition combo_confirm :: "(paper_combo_order, unit) op" where
  "combo_confirm =
     op_bind (op_get (\<lambda>c. (pco_state c, combo_working_state c))) (\<lambda>(s, working).
     if s \<in> {Submitted, Unknown} then combo_transition working ''COMBO_BROKER_ACKNOWLEDGED'' else op_return ())"

definition combo_advance :: "(paper_combo_order, unit) op" where
  "combo_advance =
     op_bind (op_get pco_state) (\<lambda>s.
     op_bind (if s = PendingSubmit then combo_transition Submitted ''COMBO_BROKER_EVIDENCE'' else op_return ())
       (\<lambda>_. combo_confirm))"

definition combo_acknowledge :: "string \<Rightarrow> (paper_combo_order, unit) op" where
  "combo_acknowledge broker_id =
     op_bind (op_lift (validate_canonical_id ''combo broker ID'' broker_id)) (\<lambda>_.
     op_bind (op_get (\<lambda>c. pco_broker_order_id c \<noteq> None \<and> pco_broker_order_id c \<noteq> Some broker_id)) (\<lambda>foreign.
     if foreign then op_lift (Err ''combination evidence has an unrecognized broker ID'')
     else op_bind (combo_note_broker broker_id) (\<lambda>_.
       op_bind (op_get (\<lambda>c. pco_evidence_error c \<noteq> None \<or> combo_is_terminal c)) (\<lambda>settled.
       if settled then op_return () else combo_advance))))"

definition combo_reopen :: "(paper_combo_order, unit) op" where
  "combo_reopen = op_bind (op_get pco_state) (\<lambda>s.
     if s \<in> {Cancelled, Expired, Rejected} then combo_transition Unknown ''LATE_COMBO_EXECUTION_AFTER_TERMINAL''
     else op_return ())"

definition combo_count_units :: "decimal \<Rightarrow> combo_execution \<Rightarrow> (paper_combo_order, unit) op" where
  "combo_count_units filled e =
     op_bind (op_modify (pco_filled_quantity_update (\<lambda>_. filled))) (\<lambda>_.
     op_bind (op_get (\<lambda>c. (pco_evidence_error c = None, pco_state c, co_combo_quantity (pco_intent c)))) (\<lambda>(sound, s, requested).
     op_bind (if \<not> sound then op_return ()
       else if filled = requested then combo_transition Filled ''BROKER_COMBO_FULL_FILL''
       else if s = Acknowledged then combo_transition PartiallyFilled ''BROKER_COMBO_PARTIAL_FILL''
       else op_return ()) (\<lambda>_.
     op_modify (pco_executions_update (bt_insert (ce_execution_id e) e)))))"

definition combo_cancel_rejected :: "string \<Rightarrow> (paper_combo_order, unit) op" where
  "combo_cancel_rejected reason =
     op_bind (op_get (\<lambda>c. (pco_evidence_error c = None \<and> pco_state c \<in> {PendingCancel, Unknown}, combo_working_state c)))
       (\<lambda>(pending, working). if pending then combo_transition working reason else op_return ())"

definition combo_finish :: "string \<Rightarrow> order_state \<Rightarrow> (paper_combo_order, unit) op" where
  "combo_finish reason s1 =
     op_bind (op_get (\<lambda>c. pco_evidence_error c \<noteq> None \<or> combo_is_terminal c)) (\<lambda>settled.
     if settled then op_return ()
     else op_bind (op_get pco_state) (\<lambda>s.
       op_bind (if s = PendingSubmit then combo_transition Submitted reason else op_return ()) (\<lambda>_.
       combo_transition s1 reason)))"

text \<open>An event that could not be applied: the anomaly is kept, and the order is set to \<open>UNKNOWN\<close>.\<close>

definition combo_anomaly :: "string \<Rightarrow> (paper_combo_order, unit) op" where
  "combo_anomaly message =
     op_bind (op_modify (pco_evidence_error_update (\<lambda>_. Some message))) (\<lambda>_.
     op_bind (op_get pco_state) (\<lambda>s.
     if s \<noteq> Unknown \<and> s \<noteq> Filled then combo_transition Unknown ''COMBINATION_EXECUTION_ANOMALY'' else op_return ()))"

section \<open>The invariant of a combination\<close>

definition receipt_ids :: "combo_execution \<Rightarrow> string list" where
  "receipt_ids e = ce_execution_id e # map cel_execution_id (ce_legs e)"

definition combo_state_ok :: "order_state \<Rightarrow> decimal \<Rightarrow> decimal \<Rightarrow> string option \<Rightarrow> bool" where
  "combo_state_ok s filled requested evidence_error \<longleftrightarrow>
     s \<notin> {Created, PendingRisk, RiskRejected, Approved}
     \<and> (s = Filled \<longrightarrow> filled = requested) \<and> (evidence_error = None \<and> filled = requested \<longrightarrow> s = Filled)
     \<and> (s = PartiallyFilled \<longrightarrow> filled \<noteq> ZERO) \<and> (s = Acknowledged \<longrightarrow> filled = ZERO)
     \<and> (evidence_error \<noteq> None \<longrightarrow> s \<in> {Unknown, Filled})"

text \<open>The receipts of an order: each one valid for the approved legs, under its own identity, from a
  broker order seen, no identity twice, and their units are what counts as filled.\<close>

definition receipts_ok :: "(string \<Rightarrow> bool) \<Rightarrow> combo_intent \<Rightarrow> string \<Rightarrow> string list \<Rightarrow> (string, combo_execution) btree_map
    \<Rightarrow> decimal \<Rightarrow> bool" where
  "receipts_ok rfc3339 intent order_id versions executions filled \<longleftrightarrow> bt_sorted executions
     \<and> (\<forall>(k, e)\<in>set executions. k = ce_execution_id e \<and> combo_execution_validate rfc3339 e intent = Ok ()
         \<and> ce_client_order_id e = order_id \<and> ce_broker_order_id e \<in> set versions \<and> distinct (receipt_ids e))
     \<and> (\<forall>(k, e)\<in>set executions. \<forall>(l, f)\<in>set executions. k \<noteq> l \<longrightarrow> set (receipt_ids e) \<inter> set (receipt_ids f) = {})
     \<and> bt_sum (\<lambda>_ e. scaled (ce_units e)) executions = scaled filled"

definition combo_ok :: "(string \<Rightarrow> bool) \<Rightarrow> paper_combo_order \<Rightarrow> bool" where
  "combo_ok rfc3339 c \<longleftrightarrow> 0 < scaled (co_combo_quantity (pco_intent c)) \<and> in_i128 (scaled (co_combo_quantity (pco_intent c)))
     \<and> distinct (map cl_instrument_id (co_legs (pco_intent c)))
     \<and> 0 \<le> scaled (pco_filled_quantity c) \<and> scaled (pco_filled_quantity c) \<le> scaled (co_combo_quantity (pco_intent c))
     \<and> combo_state_ok (pco_state c) (pco_filled_quantity c) (co_combo_quantity (pco_intent c)) (pco_evidence_error c)
     \<and> (\<forall>v. pco_broker_order_id c = Some v \<longrightarrow> v \<in> set (pco_broker_order_versions c))
     \<and> distinct (pco_broker_order_versions c)
     \<and> receipts_ok rfc3339 (pco_intent c) (ooc_order_id (pco_oms c)) (pco_broker_order_versions c) (pco_executions c)
         (pco_filled_quantity c)"

text \<open>What a step without new units leaves alone.\<close>

definition same_combo :: "paper_combo_order \<Rightarrow> paper_combo_order \<Rightarrow> bool" where
  "same_combo c d \<longleftrightarrow> ooc_order_id (pco_oms d) = ooc_order_id (pco_oms c) \<and> pco_intent d = pco_intent c
     \<and> pco_market d = pco_market c \<and> pco_filled_quantity d = pco_filled_quantity c
     \<and> pco_executions d = pco_executions c
     \<and> set (pco_broker_order_versions c) \<subseteq> set (pco_broker_order_versions d)"

lemma same_combo_refl [simp]: "same_combo c c"
  by (simp add: same_combo_def)

lemma same_combo_trans: "same_combo c d \<Longrightarrow> same_combo d e \<Longrightarrow> same_combo c e"
  by (auto simp: same_combo_def)

definition combo_step_ok :: "(string \<Rightarrow> bool) \<Rightarrow> (paper_combo_order \<Rightarrow> bool) \<Rightarrow> (paper_combo_order, 'a) op \<Rightarrow> bool" where
  "combo_step_ok rfc3339 P m \<longleftrightarrow> (\<forall>c r d. combo_ok rfc3339 c \<longrightarrow> P c \<longrightarrow> m c = (r, d) \<longrightarrow>
     combo_ok rfc3339 d \<and> same_combo c d \<and> (P d \<or> \<not> is_ok r))"

named_theorems combo_steps "steps that keep the invariant of a combination"

lemma combo_step_okD:
  "combo_step_ok rfc P m \<Longrightarrow> combo_ok rfc c \<Longrightarrow> P c \<Longrightarrow> m c = (r, d) \<Longrightarrow> combo_ok rfc d \<and> same_combo c d"
  unfolding combo_step_ok_def by blast

lemma combo_step_bind [combo_steps]:
  assumes "combo_step_ok rfc P m" "\<And>x. combo_step_ok rfc P (f x)"
  shows "combo_step_ok rfc P (op_bind m f)"
  unfolding combo_step_ok_def
proof (intro allI impI)
  fix c r e
  assume ok: "combo_ok rfc c" and P: "P c" and run: "op_bind m f c = (r, e)"
  obtain x d where m: "m c = (x, d)" by force
  have step: "combo_ok rfc d \<and> same_combo c d \<and> (P d \<or> \<not> is_ok x)"
    using assms(1) ok P m unfolding combo_step_ok_def by blast
  show "combo_ok rfc e \<and> same_combo c e \<and> (P e \<or> \<not> is_ok r)"
  proof (cases x)
    case (Inl err)
    with m run step show ?thesis by auto
  next
    case (Inr y)
    with m run have "f y d = (r, e)" by simp
    moreover have "P d" using step Inr by simp
    ultimately have "combo_ok rfc e \<and> same_combo d e \<and> (P e \<or> \<not> is_ok r)"
      using assms(2) [of y] step unfolding combo_step_ok_def by blast
    with step show ?thesis using same_combo_trans by blast
  qed
qed

lemma combo_step_basic [combo_steps]:
  "combo_step_ok rfc P (op_return x)" "combo_step_ok rfc P (op_lift r)" "combo_step_ok rfc P (op_get g)"
  by (auto simp: combo_step_ok_def)

lemma combo_step_if [combo_steps]:
  "(b \<Longrightarrow> combo_step_ok rfc P m) \<Longrightarrow> (\<not> b \<Longrightarrow> combo_step_ok rfc P n) \<Longrightarrow> combo_step_ok rfc P (if b then m else n)"
  by simp

lemma combo_transition_eq:
  "combo_transition n reason c =
     (if is_valid_transition (pco_state c) n then (Ok (), c\<lparr>pco_oms := (pco_oms c)\<lparr>ooc_state := n\<rparr>\<rparr>)
      else (Err (''invalid OMS combination transition '' @ order_state_as_str (pco_state c) @ '' -> '' @ order_state_as_str n), c))"
  by (simp add: combo_transition_def op_bind_def op_on_def oms_combo_transition_def)

lemma combo_ok_state:
  "combo_ok rfc c \<Longrightarrow> combo_state_ok n (pco_filled_quantity c) (co_combo_quantity (pco_intent c)) (pco_evidence_error c)
    \<Longrightarrow> combo_ok rfc (c\<lparr>pco_oms := (pco_oms c)\<lparr>ooc_state := n\<rparr>\<rparr>)"
  by (simp add: combo_ok_def)

lemma combo_ok_stateD:
  "combo_ok rfc c \<Longrightarrow>
    combo_state_ok (pco_state c) (pco_filled_quantity c) (co_combo_quantity (pco_intent c)) (pco_evidence_error c)"
  by (simp add: combo_ok_def)

lemma combo_state_moves:
  assumes "combo_state_ok s filled requested None" "is_valid_transition s n"
    "n \<in> {Submitted, PendingCancel, Cancelled, Rejected, Expired, Unknown, filled_working_state filled}"
  shows "combo_state_ok n filled requested None"
  using assms by (cases s) (auto simp: combo_state_ok_def filled_working_state_def split: if_splits)

abbreviation sound :: "paper_combo_order \<Rightarrow> bool" where
  "sound c \<equiv> pco_evidence_error c = None"

lemma combo_transition_sound:
  assumes "combo_ok rfc c" "sound c" "combo_transition n reason c = (r, d)"
    "n \<in> {Submitted, PendingCancel, Cancelled, Rejected, Expired, Unknown, combo_working_state c}"
  shows "combo_ok rfc d \<and> same_combo c d \<and> sound d"
proof (cases "is_valid_transition (pco_state c) n")
  case True
  then have d: "d = c\<lparr>pco_oms := (pco_oms c)\<lparr>ooc_state := n\<rparr>\<rparr>" using assms(3) by (simp add: combo_transition_eq)
  have "combo_state_ok n (pco_filled_quantity c) (co_combo_quantity (pco_intent c)) (pco_evidence_error c)"
    using combo_state_moves [OF _ True] combo_ok_stateD [OF assms(1)] assms(2,4) by (simp add: combo_working_state_def)
  from combo_ok_state [OF assms(1) this] show ?thesis using assms(2) by (simp add: d same_combo_def)
next
  case False
  with assms show ?thesis by (auto simp: combo_transition_eq)
qed

lemma combo_step_transition [combo_steps]:
  "n \<in> {Submitted, PendingCancel, Cancelled, Rejected, Expired, Unknown} \<Longrightarrow>
    combo_step_ok rfc sound (combo_transition n reason)"
  unfolding combo_step_ok_def using combo_transition_sound [where n = n] by blast

lemma combo_step_confirm [combo_steps]: "combo_step_ok rfc sound combo_confirm"
  unfolding combo_step_ok_def
proof (intro allI impI)
  fix c r d assume c: "combo_ok rfc c" "sound c" "combo_confirm c = (r, d)"
  show "combo_ok rfc d \<and> same_combo c d \<and> (sound d \<or> \<not> is_ok r)"
    using c combo_transition_sound [OF c(1,2), of "combo_working_state c"]
    by (auto simp: combo_confirm_def split: if_splits)
qed

lemma combo_step_advance [combo_steps]: "combo_step_ok rfc sound combo_advance"
  unfolding combo_advance_def by (intro combo_steps) simp_all

lemma receipts_ok_versions:
  "receipts_ok rfc i oid vs es q \<Longrightarrow> set vs \<subseteq> set ws \<Longrightarrow> receipts_ok rfc i oid ws es q"
  unfolding receipts_ok_def by (elim conjE, intro conjI) (assumption | fast)+

lemma combo_note_broker_ok:
  assumes "combo_ok rfc c" "combo_note_broker v c = (r, d)"
  shows "combo_ok rfc d \<and> same_combo c d \<and> pco_evidence_error d = pco_evidence_error c
    \<and> pco_broker_order_id d = Some v \<and> v \<in> set (pco_broker_order_versions d)"
proof -
  define vs where "vs = (if v \<in> set (pco_broker_order_versions c) then pco_broker_order_versions c
      else pco_broker_order_versions c @ [v])"
  have d: "d = c\<lparr>pco_broker_order_id := Some v, pco_broker_order_versions := vs\<rparr>"
    using assms(2) by (simp add: combo_note_broker_def vs_def)
  have vs: "set (pco_broker_order_versions c) \<subseteq> set vs" "v \<in> set vs"
    "distinct (pco_broker_order_versions c) \<Longrightarrow> distinct vs"
    by (auto simp: vs_def)
  show ?thesis
    using assms(1) receipts_ok_versions [OF _ vs(1)] vs(2,3) by (simp add: d combo_ok_def same_combo_def vs(1))
qed

lemma combo_acknowledge_ok:
  assumes "combo_ok rfc c" "combo_acknowledge v c = (r, d)"
  shows "combo_ok rfc d \<and> same_combo c d \<and> (is_ok r \<longrightarrow> v \<in> set (pco_broker_order_versions d))"
proof -
  obtain r1 c1 where n1: "combo_note_broker v c = (r1, c1)" by force
  then have r1: "r1 = Ok ()" by (simp add: combo_note_broker_def)
  note n = combo_note_broker_ok [OF assms(1) n1]
  have step: "op_bind (combo_note_broker v) f c = f () c1" for f :: "unit \<Rightarrow> (paper_combo_order, unit) op"
    using n1 r1 by simp
  let ?check = "validate_canonical_id ''combo broker ID'' v"
  let ?foreign = "pco_broker_order_id c \<noteq> None \<and> pco_broker_order_id c \<noteq> Some v"
  let ?settled = "pco_evidence_error c1 \<noteq> None \<or> combo_is_terminal c1"
  consider (invalid) e where "?check = Inl e" | (foreign) "?check = Ok ()" ?foreign
    | (settled) "?check = Ok ()" "\<not> ?foreign" ?settled | (working) "?check = Ok ()" "\<not> ?foreign" "\<not> ?settled"
  proof (cases ?check)
    case (Inr u)
    then have "?check = Ok ()" by simp
    then show ?thesis using that(2-4) by blast
  qed (rule that(1))
  then show ?thesis
  proof cases
    case working
    then have adv: "combo_advance c1 = (r, d)"
      using assms(2) by (simp only: combo_acknowledge_def op_bind_basic step if_False op_if_apply)
    have "sound c1" using working(3) by simp
    from combo_step_okD [OF combo_step_advance _ this adv] n have "combo_ok rfc d" "same_combo c1 d" by blast+
    moreover have "v \<in> set (pco_broker_order_versions d)" using n \<open>same_combo c1 d\<close> by (auto simp: same_combo_def)
    ultimately show ?thesis using n same_combo_trans by blast
  next
    case settled
    then have "(r, d) = (Ok (), c1)"
      using assms(2) by (simp only: combo_acknowledge_def op_bind_basic step if_True if_False
          op_if_apply op_simps)
    with n show ?thesis by simp
  next
    case (invalid e)
    with assms show ?thesis by (simp add: combo_acknowledge_def) (metis is_ok_simps(2))
  next
    case foreign
    with assms show ?thesis by (auto simp: combo_acknowledge_def)
  qed
qed

lemma combo_reopen_ok:
  assumes "combo_ok rfc c" "combo_reopen c = (r, d)"
  shows "combo_ok rfc d \<and> same_combo c d"
proof (cases "pco_state c \<in> {Cancelled, Expired, Rejected}")
  case True
  then have "pco_state c \<notin> {Unknown, Filled}" by (elim insertE emptyE) simp_all
  then have "sound c" using combo_ok_stateD [OF assms(1)] unfolding combo_state_ok_def by blast
  moreover have "combo_transition Unknown ''LATE_COMBO_EXECUTION_AFTER_TERMINAL'' c = (r, d)"
    using True assms(2) by (simp add: combo_reopen_def)
  ultimately show ?thesis using combo_transition_sound [OF assms(1)] by blast
qed (use assms in \<open>simp add: combo_reopen_def\<close>)

lemma combo_cancel_rejected_ok:
  assumes "combo_ok rfc c" "combo_cancel_rejected reason c = (r, d)"
  shows "combo_ok rfc d \<and> same_combo c d"
proof (cases "sound c \<and> pco_state c \<in> {PendingCancel, Unknown}")
  case True
  then have "combo_transition (combo_working_state c) reason c = (r, d)"
    using assms(2) by (simp add: combo_cancel_rejected_def)
  with combo_transition_sound [OF assms(1)] True show ?thesis by blast
next
  case False
  then have "(r, d) = (Ok (), c)" using assms(2) unfolding combo_cancel_rejected_def by (simp split: if_splits)
  with assms(1) show ?thesis by simp
qed

lemma combo_finish_ok:
  assumes "combo_ok rfc c" "combo_finish reason s c = (r, d)" "s \<in> {Cancelled, Expired, Rejected}"
  shows "combo_ok rfc d \<and> same_combo c d"
proof (cases "sound c \<and> \<not> combo_is_terminal c")
  case True
  let ?m = "op_bind (op_get pco_state) (\<lambda>s1.
       op_bind (if s1 = PendingSubmit then combo_transition Submitted reason else op_return ()) (\<lambda>_.
       combo_transition s reason))"
  have "combo_step_ok rfc sound ?m" using assms(3) by (intro combo_steps) auto
  moreover have "?m c = (r, d)" using assms(2) True by (simp add: combo_finish_def)
  ultimately show ?thesis using combo_step_okD assms(1) True by blast
next
  case False
  then have "(r, d) = (Ok (), c)" using assms(2) by (simp add: combo_finish_def)
  with assms(1) show ?thesis by simp
qed

lemma valid_to_unknown:
  "is_valid_transition s Unknown \<longleftrightarrow> s \<notin> {Created, PendingRisk, RiskRejected, Approved, Filled, Unknown}"
  by (cases s) simp_all

lemma combo_anomaly_ok:
  assumes "combo_ok rfc c" "combo_anomaly message c = (r, d)"
  shows "combo_ok rfc d \<and> same_combo c d \<and> is_ok r"
proof -
  note st = combo_ok_stateD [OF assms(1)]
  show ?thesis
  proof (cases "pco_state c \<in> {Unknown, Filled}")
    case True
    then have "\<not> (pco_state c \<noteq> Unknown \<and> pco_state c \<noteq> Filled)" by blast
    then have d: "r = Ok () \<and> d = c\<lparr>pco_evidence_error := Some message\<rparr>"
      using assms(2) by (auto simp: combo_anomaly_def)
    have "combo_state_ok (pco_state c) (pco_filled_quantity c) (co_combo_quantity (pco_intent c)) (Some message)"
      using st True unfolding combo_state_ok_def by blast
    then show ?thesis using assms(1) d by (simp add: combo_ok_def same_combo_def)
  next
    case False
    then have "is_valid_transition (pco_state c) Unknown" using st unfolding valid_to_unknown combo_state_ok_def by blast
    then have d: "r = Ok () \<and> d = c\<lparr>pco_evidence_error := Some message, pco_oms := (pco_oms c)\<lparr>ooc_state := Unknown\<rparr>\<rparr>"
      using assms(2) False by (simp add: combo_anomaly_def combo_transition_eq)
    have "combo_state_ok Unknown (pco_filled_quantity c) (co_combo_quantity (pco_intent c)) (Some message)"
      by (simp add: combo_state_ok_def)
    then show ?thesis using assms(1) d by (simp add: combo_ok_def same_combo_def)
  qed
qed

end
