(* ===== verification/PaperEvents.thy ===== *)
theory PaperEvents
  imports PaperCombos
begin

text \<open>
  Component: applying a broker's normalized evidence to the orders and the books of the paper service
  (\<^verbatim>\<open>core/paper/src/service/broker_events.rs\<close>, \<^verbatim>\<open>combinations.rs\<close>).
\<close>

record paper_state = paper_books +
  pv_orders :: "(string, paper_order) btree_map"
  pv_combo_orders :: "(string, paper_combo_order) btree_map"

section \<open>Reaching an order\<close>

definition on_order :: "string \<Rightarrow> (paper_order, 'a) op \<Rightarrow> ('z paper_state_scheme, 'a) op" where
  "on_order cid m s = (case bt_get (pv_orders s) cid of
     None \<Rightarrow> (Err ''paper OMS does not know order'', s)
   | Some o1 \<Rightarrow> (case m o1 of (r, o2) \<Rightarrow> (r, s\<lparr>pv_orders := bt_insert cid o2 (pv_orders s)\<rparr>)))"

definition on_combo :: "string \<Rightarrow> (paper_combo_order, 'a) op \<Rightarrow> ('z paper_state_scheme, 'a) op" where
  "on_combo cid m s = (case bt_get (pv_combo_orders s) cid of
     None \<Rightarrow> (Err ''paper OMS does not know combination order'', s)
   | Some c1 \<Rightarrow> (case m c1 of (r, c2) \<Rightarrow> (r, s\<lparr>pv_combo_orders := bt_insert cid c2 (pv_combo_orders s)\<rparr>)))"

section \<open>Combinations\<close>

text \<open>Leg order does not matter to the identity of a receipt: it is kept by instrument.\<close>

definition canonical_legs :: "combo_execution \<Rightarrow> combo_execution" where
  "canonical_legs e = e\<lparr>ce_legs := sort_key cel_instrument_id (ce_legs e)\<rparr>"

definition executions_overlap :: "combo_execution \<Rightarrow> 'z paper_state_scheme \<Rightarrow> bool" where
  "executions_overlap e s \<longleftrightarrow> bs_contains (ce_execution_id e) (pb_execution_ids s)
     \<or> list_ex (\<lambda>leg. bs_contains (cel_execution_id leg) (pb_execution_ids s)) (ce_legs e)"

definition book_combo_fills ::
    "(string \<Rightarrow> bool) \<Rightarrow> booking_terms \<Rightarrow> combo_execution \<Rightarrow> string \<Rightarrow> ('z paper_state_scheme, unit) op" where
  "book_combo_fills rfc3339 terms e strategy_id =
     op_bind (op_each (\<lambda>f. apply_accounted_fill rfc3339 terms f strategy_id) (combo_fills e)) (\<lambda>_.
     op_modify (pb_execution_ids_update (bs_insert (ce_execution_id e))))"

definition apply_combo_execution ::
    "(string \<Rightarrow> bool) \<Rightarrow> booking_terms \<Rightarrow> combo_execution \<Rightarrow> ('z paper_state_scheme, unit) op" where
  "apply_combo_execution rfc3339 terms e =
     op_bind (op_get (\<lambda>s. ok_or (bt_get (pv_combo_orders s) (ce_client_order_id e))
       ''paper OMS does not know combination'')) (\<lambda>found.
     op_bind (op_lift found) (\<lambda>c.
     op_bind (op_lift (combo_execution_validate rfc3339 e (pco_intent c))) (\<lambda>_.
     case bt_get (pco_executions c) (ce_execution_id e) of
       Some previous \<Rightarrow> if previous = e then op_return ()
         else op_lift (Err ''combination execution identity reused with changed evidence'')
     | None \<Rightarrow>
         op_bind (op_get (executions_overlap e)) (\<lambda>overlap.
         if overlap then op_lift (Err ''combination execution overlaps previously applied evidence'')
         else op_bind (op_lift (checked_add (pco_filled_quantity c) (ce_units e))) (\<lambda>filled.
           if filled > co_combo_quantity (pco_intent c)
           then op_lift (Err ''combination execution exceeds approved units'')
           else op_bind (on_combo (ce_client_order_id e)
               (op_bind combo_reopen (\<lambda>_. combo_acknowledge (ce_broker_order_id e)))) (\<lambda>_.
             op_bind (book_combo_fills rfc3339 terms e (co_strategy_id (pco_intent c))) (\<lambda>_.
             on_combo (ce_client_order_id e) (combo_count_units filled e))))))))"

fun apply_combo_event ::
    "(string \<Rightarrow> bool) \<Rightarrow> booking_terms \<Rightarrow> broker_event \<Rightarrow> ('z paper_state_scheme, unit) op" where
  "apply_combo_event rfc3339 terms ev =
     op_bind (op_lift (validate_canonical_id ''combo client ID'' (event_client_order_id ev))) (\<lambda>_.
     case ev of
       ComboExecutionEvent e \<Rightarrow> apply_combo_execution rfc3339 terms (canonical_legs e)
     | AcknowledgedEvent cid broker_id \<Rightarrow> on_combo cid (combo_acknowledge broker_id)
     | CancelRejectedEvent cid reason \<Rightarrow>
         op_bind (op_lift (validate_broker_reason ''combo cancel rejection'' reason)) (\<lambda>_.
         on_combo cid (combo_cancel_rejected reason))
     | CancelledEvent cid reason \<Rightarrow>
         op_bind (op_lift (validate_broker_reason ''combo terminal reason'' reason)) (\<lambda>_.
         on_combo cid (combo_finish reason Cancelled))
     | ExpiredEvent cid reason \<Rightarrow>
         op_bind (op_lift (validate_broker_reason ''combo terminal reason'' reason)) (\<lambda>_.
         on_combo cid (combo_finish reason Expired))
     | RejectedEvent cid reason \<Rightarrow>
         op_bind (op_lift (validate_broker_reason ''combo terminal reason'' reason)) (\<lambda>_.
         on_combo cid (combo_finish reason Rejected))
     | _ \<Rightarrow> op_lift (Err ''combination requires complete atomic execution evidence; replacement is unsupported''))"

section \<open>Single orders\<close>

definition check_ids :: "(string \<times> string) list \<Rightarrow> ('s, unit) op" where
  "check_ids ids = op_lift (try_each (\<lambda>(name, v). validate_canonical_id name v) ids)"

definition apply_execution ::
    "(string \<Rightarrow> bool) \<Rightarrow> booking_terms \<Rightarrow> string \<Rightarrow> string \<Rightarrow> string \<Rightarrow> decimal \<Rightarrow> decimal \<Rightarrow> decimal \<Rightarrow> string
      \<Rightarrow> ('z paper_state_scheme, unit) op" where
  "apply_execution rfc3339 terms execution_id cid broker_id quantity price fee executed_at =
     op_bind (check_ids [(''broker execution_id'', execution_id), (''broker client_order_id'', cid),
       (''broker order_id'', broker_id)]) (\<lambda>_.
     op_bind (op_lift (validate_utc_timestamp rfc3339 ''broker execution time'' executed_at)) (\<lambda>_.
     if quantity \<le> ZERO \<or> price \<le> ZERO \<or> fee < ZERO then op_lift (Err ''invalid broker execution values'')
     else op_bind (op_get (\<lambda>s. bs_contains execution_id (pb_execution_ids s))) (\<lambda>seen.
       if seen then op_return ()
       else op_bind (on_order cid (op_bind (order_executed broker_id quantity) (\<lambda>_. op_get por_oms))) (\<lambda>oms.
         op_bind (op_modify (pb_execution_ids_update (bs_insert execution_id))) (\<lambda>_.
         apply_accounted_fill rfc3339 terms
           \<lparr>fl_execution_id = execution_id, fl_order_id = oo_order_id oms,
            fl_instrument_id = oi_instrument_id (oo_intent oms), fl_side = oi_side (oo_intent oms),
            fl_quantity = quantity, fl_price = price, fl_fee = fee, fl_executed_at = executed_at\<rparr>
           (oi_strategy_id (oo_intent oms)))))))"

definition checked_reason :: "string \<Rightarrow> string \<Rightarrow> string \<Rightarrow> ('s, unit) op" where
  "checked_reason name cid reason =
     op_bind (check_ids [(''broker client_order_id'', cid)]) (\<lambda>_.
     op_lift (validate_broker_reason name reason))"

fun apply_order_event ::
    "(string \<Rightarrow> bool) \<Rightarrow> booking_terms \<Rightarrow> broker_event \<Rightarrow> ('z paper_state_scheme, unit) op" where
  "apply_order_event rfc3339 terms (ComboExecutionEvent e) =
     op_lift (Err ''combo execution does not name a combination'')"
| "apply_order_event rfc3339 terms (AcknowledgedEvent cid broker_id) =
     op_bind (check_ids [(''broker client_order_id'', cid), (''broker order_id'', broker_id)]) (\<lambda>_.
     on_order cid (order_acknowledged broker_id))"
| "apply_order_event rfc3339 terms (ExecutionEvent execution_id cid broker_id quantity price fee executed_at) =
     apply_execution rfc3339 terms execution_id cid broker_id quantity price fee executed_at"
| "apply_order_event rfc3339 terms (CancelledEvent cid reason) =
     op_bind (checked_reason ''broker cancellation reason'' cid reason) (\<lambda>_.
     on_order cid (transition_to_terminal Cancelled reason))"
| "apply_order_event rfc3339 terms (CancelRejectedEvent cid reason) =
     op_bind (checked_reason ''broker cancel rejection reason'' cid reason) (\<lambda>_.
     on_order cid order_cancel_rejected)"
| "apply_order_event rfc3339 terms (ExpiredEvent cid reason) =
     op_bind (checked_reason ''broker expiry reason'' cid reason) (\<lambda>_.
     on_order cid (transition_to_terminal Expired reason))"
| "apply_order_event rfc3339 terms (ReplaceRequestedEvent cid previous) =
     op_bind (check_ids [(''broker client_order_id'', cid), (''broker previous_order_id'', previous)]) (\<lambda>_.
     on_order cid (order_replace_requested previous))"
| "apply_order_event rfc3339 terms (ReplacedEvent cid previous replacement) =
     op_bind (check_ids [(''broker client_order_id'', cid), (''broker previous_order_id'', previous),
       (''broker replacement_order_id'', replacement)]) (\<lambda>_.
     on_order cid (order_replaced previous replacement))"
| "apply_order_event rfc3339 terms (ReplaceRejectedEvent cid reason) =
     op_bind (checked_reason ''broker replacement rejection reason'' cid reason) (\<lambda>_.
     on_order cid order_replace_rejected)"
| "apply_order_event rfc3339 terms (RejectedEvent cid reason) =
     op_bind (checked_reason ''broker rejection reason'' cid reason) (\<lambda>_.
     on_order cid (transition_to_terminal Rejected reason))"

definition apply_broker_event ::
    "(string \<Rightarrow> bool) \<Rightarrow> booking_terms \<Rightarrow> broker_event \<Rightarrow> ('z paper_state_scheme, unit) op" where
  "apply_broker_event rfc3339 terms ev s =
     (if bt_get (pv_combo_orders s) (event_client_order_id ev) \<noteq> None
      then apply_combo_event rfc3339 terms ev s else apply_order_event rfc3339 terms ev s)"

end
