(* ===== verification/PaperEventLaws.thy ===== *)
theory PaperEventLaws
  imports PaperEvents
begin

text \<open>
  What a broker's evidence may do to the paper service: the invariant of its orders, combinations and
  books, and the exactly-once law. Whatever the broker reports, the position the books hold and the
  quantity the orders count as filled change by the same amount.
\<close>

section \<open>Receipts of a combination\<close>

lemma execution_check_leg_Ok:
  assumes "execution_check_leg rfc e c leg seen = Inr seen'"
  shows "seen' = (cel_instrument_id leg # fst seen, cel_execution_id leg # snd seen)"
    "cel_instrument_id leg \<notin> set (fst seen)" "cel_execution_id leg \<notin> set (snd seen)"
    "\<exists>a\<in>set (co_legs c). cl_instrument_id a = cel_instrument_id leg \<and> cel_side leg = cl_side a
      \<and> (\<exists>ratio. from_integer (int (cl_ratio a)) = Inr ratio \<and> checked_mul (ce_units e) ratio = Inr (cel_quantity leg))"
  using assms
  by (auto simp: execution_check_leg_def execution_leg_ok_def and_then_eq_Inr ok_or_eq_Ok find_Some_iff
      split: prod.splits if_splits)

lemma execution_check_legs_Ok:
  assumes "try_fold (execution_check_leg rfc e c) legs seen = Inr seen'"
  shows "set (map cel_instrument_id legs) \<inter> set (fst seen) = {}" "distinct (map cel_instrument_id legs)"
    "set (map cel_execution_id legs) \<inter> set (snd seen) = {}" "distinct (map cel_execution_id legs)"
    "\<forall>leg\<in>set legs. \<exists>a\<in>set (co_legs c). cl_instrument_id a = cel_instrument_id leg \<and> cel_side leg = cl_side a
      \<and> (\<exists>ratio. from_integer (int (cl_ratio a)) = Inr ratio \<and> checked_mul (ce_units e) ratio = Inr (cel_quantity leg))"
proof -
  have "set (map cel_instrument_id legs) \<inter> set (fst seen) = {} \<and> distinct (map cel_instrument_id legs)
    \<and> set (map cel_execution_id legs) \<inter> set (snd seen) = {} \<and> distinct (map cel_execution_id legs)
    \<and> (\<forall>leg\<in>set legs. \<exists>a\<in>set (co_legs c). cl_instrument_id a = cel_instrument_id leg \<and> cel_side leg = cl_side a
      \<and> (\<exists>ratio. from_integer (int (cl_ratio a)) = Inr ratio \<and> checked_mul (ce_units e) ratio = Inr (cel_quantity leg)))"
    using assms
  proof (induction legs arbitrary: seen)
    case (Cons leg legs)
    then obtain s1 where s1: "execution_check_leg rfc e c leg seen = Inr s1"
      and rest: "try_fold (execution_check_leg rfc e c) legs s1 = Inr seen'" by (auto simp: and_then_eq_Inr)
    note l = execution_check_leg_Ok [OF s1]
    from Cons.IH [OF rest] l(2-4) show ?case by (simp add: l(1))
  qed simp
  then show "set (map cel_instrument_id legs) \<inter> set (fst seen) = {}" "distinct (map cel_instrument_id legs)"
    "set (map cel_execution_id legs) \<inter> set (snd seen) = {}" "distinct (map cel_execution_id legs)"
    "\<forall>leg\<in>set legs. \<exists>a\<in>set (co_legs c). cl_instrument_id a = cel_instrument_id leg \<and> cel_side leg = cl_side a
      \<and> (\<exists>ratio. from_integer (int (cl_ratio a)) = Inr ratio \<and> checked_mul (ce_units e) ratio = Inr (cel_quantity leg))"
    by blast+
qed

lemma execution_validate_Ok:
  assumes "combo_execution_validate rfc e c = Inr u"
  shows "0 < scaled (ce_units e)" "distinct (receipt_ids e)" "distinct (map cel_instrument_id (ce_legs e))"
    "length (ce_legs e) = length (co_legs c)"
    "\<forall>leg\<in>set (ce_legs e). \<exists>a\<in>set (co_legs c). cl_instrument_id a = cel_instrument_id leg \<and> cel_side leg = cl_side a
      \<and> scaled (cel_quantity leg) = scaled (ce_units e) * int (cl_ratio a)"
proof -
  from assms obtain seen' where units: "0 < scaled (ce_units e)" "scaled (ce_units e) smod DECIMAL_SCALE = 0"
    and len: "length (ce_legs e) = length (co_legs c)"
    and legs: "try_fold (execution_check_leg rfc e c) (ce_legs e) ([], [ce_execution_id e]) = Inr seen'"
    by (auto simp: combo_execution_validate_def and_then_eq_Inr decimal_cmp split: if_splits)
  note l = execution_check_legs_Ok [OF legs]
  show "0 < scaled (ce_units e)" "length (ce_legs e) = length (co_legs c)" "distinct (map cel_instrument_id (ce_legs e))"
    by (rule units(1) len l(2))+
  show "distinct (receipt_ids e)" using l(3,4) by (auto simp: receipt_ids_def)
  have exact: "scaled q = scaled (ce_units e) * int n"
    if "from_integer (int n) = Inr ratio" "checked_mul (ce_units e) ratio = Inr q" for n ratio q
    using that by (auto simp: from_integer_eq_Ok checked_mul_eq_Ok mult.assoc [symmetric] DECIMAL_SCALE_def)
  show "\<forall>leg\<in>set (ce_legs e). \<exists>a\<in>set (co_legs c). cl_instrument_id a = cel_instrument_id leg \<and> cel_side leg = cl_side a
      \<and> scaled (cel_quantity leg) = scaled (ce_units e) * int (cl_ratio a)"
    using l(5) exact by blast
qed

text \<open>The signed quantity of an instrument in one unit of a combination.\<close>

definition unit_exposure :: "combo_intent \<Rightarrow> string \<Rightarrow> int" where
  "unit_exposure c i = (\<Sum>a\<leftarrow>co_legs c. if cl_instrument_id a = i then side_sign (cl_side a) * int (cl_ratio a) else 0)"

lemma keyed_sum_none: "i \<notin> k ` set xs \<Longrightarrow> (\<Sum>y\<leftarrow>xs. if k y = i then w y else 0) = (0 :: int)"
  by (induction xs) auto

lemma keyed_sum:
  "distinct (map k xs) \<Longrightarrow> x \<in> set xs \<Longrightarrow> (\<Sum>y\<leftarrow>xs. if k y = k x then w y else 0) = (w x :: int)"
proof (induction xs)
  case (Cons y ys)
  show ?case
  proof (cases "x = y")
    case True
    with Cons.prems(1) have "(\<Sum>y\<leftarrow>ys. if k y = k x then w y else 0) = 0" by (intro keyed_sum_none) simp
    with True show ?thesis by simp
  next
    case False
    with Cons show ?thesis by auto
  qed
qed simp

lemma receipt_exposure:
  assumes "combo_execution_validate rfc e c = Inr u" "distinct (map cl_instrument_id (co_legs c))"
  shows "(\<Sum>f\<leftarrow>combo_fills e. if fl_instrument_id f = i then side_sign (fl_side f) * scaled (fl_quantity f) else 0)
    = scaled (ce_units e) * unit_exposure c i"
proof -
  note v = execution_validate_Ok [OF assms(1)]
  have legs: "(\<Sum>f\<leftarrow>combo_fills e. if fl_instrument_id f = i then side_sign (fl_side f) * scaled (fl_quantity f) else 0)
    = (\<Sum>l\<leftarrow>ce_legs e. if cel_instrument_id l = i then side_sign (cel_side l) * scaled (cel_quantity l) else 0)"
    by (simp add: combo_fills_def o_def if_distrib cong: if_cong)
  have "cel_instrument_id ` set (ce_legs e) \<subseteq> cl_instrument_id ` set (co_legs c)" using v(5) by force
  moreover have "card (cel_instrument_id ` set (ce_legs e)) = card (cl_instrument_id ` set (co_legs c))"
    using distinct_card [OF v(3)] distinct_card [OF assms(2)] v(4) by simp
  ultimately have same: "cel_instrument_id ` set (ce_legs e) = cl_instrument_id ` set (co_legs c)"
    by (simp add: card_subset_eq)
  show ?thesis
  proof (cases "i \<in> cel_instrument_id ` set (ce_legs e)")
    case False
    then show ?thesis using same by (simp add: legs unit_exposure_def keyed_sum_none)
  next
    case True
    then obtain l where l: "l \<in> set (ce_legs e)" "i = cel_instrument_id l" by blast
    with v(5) obtain a where a: "a \<in> set (co_legs c)" "cl_instrument_id a = i" "cel_side l = cl_side a"
      "scaled (cel_quantity l) = scaled (ce_units e) * int (cl_ratio a)" by blast
    have "unit_exposure c i = side_sign (cl_side a) * int (cl_ratio a)"
      using keyed_sum [OF assms(2) a(1), where w = "\<lambda>a. side_sign (cl_side a) * int (cl_ratio a)"]
      by (simp add: unit_exposure_def a(2))
    moreover have "(\<Sum>l\<leftarrow>ce_legs e. if cel_instrument_id l = i then side_sign (cel_side l) * scaled (cel_quantity l) else 0)
      = side_sign (cel_side l) * scaled (cel_quantity l)"
      using keyed_sum [OF v(3) l(1), where w = "\<lambda>l. side_sign (cel_side l) * scaled (cel_quantity l)"] by (simp add: l(2))
    ultimately show ?thesis by (simp add: legs a(3,4))
  qed
qed

section \<open>A group of fills\<close>

lemma accounted_fills_Ok:
  assumes "op_each (\<lambda>f. apply_accounted_fill rfc terms f s) fs b = (Inr u, b')" "books_ok rfc b"
    "distinct (map fl_execution_id fs)" "set (map fl_execution_id fs) \<inter> set (pb_execution_ids b) = {}"
  shows "books_ok rfc b' \<and> paper_books.more b' = paper_books.more b
    \<and> set (pb_execution_ids b') = set (map fl_execution_id fs) \<union> set (pb_execution_ids b)
    \<and> (\<forall>i. position b' i = position b i
        + (\<Sum>f\<leftarrow>fs. if fl_instrument_id f = i then side_sign (fl_side f) * scaled (fl_quantity f) else 0))
    \<and> (books_agree b \<longrightarrow> books_agree b')"
  using assms
proof (induction fs arbitrary: b)
  case (Cons f fs)
  then obtain b1 where b1: "apply_accounted_fill rfc terms f s b = (Inr (), b1)"
    and rest: "op_each (\<lambda>f. apply_accounted_fill rfc terms f s) fs b1 = (Inr u, b')"
    by (auto simp: op_bind_eq_Ok)
  have "fill_ids (fl_execution_id f) \<inter> used_ids (pb_tax_lots b) = {}"
    using Cons.prems by (intro fresh_fill_ids) auto
  note f = accounted_fill_Ok [OF b1 Cons.prems(2) this]
  have "distinct (map fl_execution_id fs)" "set (map fl_execution_id fs) \<inter> set (pb_execution_ids b1) = {}"
    using Cons.prems(3,4) f(3) by auto
  from Cons.IH [OF rest f(1) this] f(2-4,6) show ?case by auto
qed (simp add: op_return_def)

section \<open>Counting the units of a receipt\<close>

lemma set_bt_insert_new: "bt_get m k = None \<Longrightarrow> set (bt_insert k v m) = insert (k, v) (set m)"
  by (induction k v m rule: bt_insert.induct) auto

lemma receipts_ok_insert:
  assumes "receipts_ok rfc i oid vs es q" "bt_get es (ce_execution_id e) = None"
    "combo_execution_validate rfc e i = Ok ()" "ce_client_order_id e = oid" "ce_broker_order_id e \<in> set vs"
    "\<And>k f. (k, f) \<in> set es \<Longrightarrow> set (receipt_ids e) \<inter> set (receipt_ids f) = {}"
    "scaled q' = scaled q + scaled (ce_units e)"
  shows "receipts_ok rfc i oid vs (bt_insert (ce_execution_id e) e es) q'"
proof -
  note new = set_bt_insert_new [OF assms(2), of e]
  from assms(1) have parts: "bt_sorted es"
    "\<forall>(k, f)\<in>set es. k = ce_execution_id f \<and> combo_execution_validate rfc f i = Ok ()
         \<and> ce_client_order_id f = oid \<and> ce_broker_order_id f \<in> set vs \<and> distinct (receipt_ids f)"
    "\<forall>(k, f)\<in>set es. \<forall>(l, g)\<in>set es. k \<noteq> l \<longrightarrow> set (receipt_ids f) \<inter> set (receipt_ids g) = {}"
    "bt_sum (\<lambda>_ e. scaled (ce_units e)) es = scaled q"
    unfolding receipts_ok_def by - (elim conjE, assumption)+
  have old: "k = ce_execution_id f \<and> combo_execution_validate rfc f i = Ok ()
         \<and> ce_client_order_id f = oid \<and> ce_broker_order_id f \<in> set vs \<and> distinct (receipt_ids f)"
    if "(k, f) \<in> set es" for k f using bspec [OF parts(2) that] by simp
  have apart: "set (receipt_ids f) \<inter> set (receipt_ids g) = {}" if "(k, f) \<in> set es" "(l, g) \<in> set es" "k \<noteq> l" for k f l g
    using bspec [OF parts(3) that(1)] that(2,3) by auto
  have ids: "distinct (receipt_ids e)" by (rule execution_validate_Ok(2) [OF assms(3)])
  show ?thesis
    unfolding receipts_ok_def
  proof (intro conjI)
    show "bt_sorted (bt_insert (ce_execution_id e) e es)" using parts(1) by (rule bt_sorted_insert)
    show "\<forall>(k, f)\<in>set (bt_insert (ce_execution_id e) e es). k = ce_execution_id f
        \<and> combo_execution_validate rfc f i = Ok () \<and> ce_client_order_id f = oid \<and> ce_broker_order_id f \<in> set vs
        \<and> distinct (receipt_ids f)"
    proof (rule ballI, rule case_prodI2)
      fix x k f assume "x \<in> set (bt_insert (ce_execution_id e) e es)" "x = (k, f)"
      then have "k = ce_execution_id e \<and> f = e \<or> (k, f) \<in> set es" unfolding new by simp
      then show "k = ce_execution_id f \<and> combo_execution_validate rfc f i = Ok ()
        \<and> ce_client_order_id f = oid \<and> ce_broker_order_id f \<in> set vs \<and> distinct (receipt_ids f)"
        using old assms(3-5) ids by (elim disjE) simp_all
    qed
    show "\<forall>(k, f)\<in>set (bt_insert (ce_execution_id e) e es). \<forall>(l, g)\<in>set (bt_insert (ce_execution_id e) e es).
        k \<noteq> l \<longrightarrow> set (receipt_ids f) \<inter> set (receipt_ids g) = {}"
    proof (rule ballI, rule case_prodI2, rule ballI, rule case_prodI2, rule impI)
      fix x k f y l g
      assume "x \<in> set (bt_insert (ce_execution_id e) e es)" "x = (k, f)"
        "y \<in> set (bt_insert (ce_execution_id e) e es)" "y = (l, g)" and kl: "k \<noteq> l"
      then have "k = ce_execution_id e \<and> f = e \<or> (k, f) \<in> set es" "l = ce_execution_id e \<and> g = e \<or> (l, g) \<in> set es"
        unfolding new by simp_all
      then show "set (receipt_ids f) \<inter> set (receipt_ids g) = {}"
        using apart [OF _ _ kl] assms(6) kl by (elim disjE conjE) (simp, (simp add: Int_commute [of "set (receipt_ids e)"] | metis Int_commute)+)
    qed
    show "bt_sum (\<lambda>_ e. scaled (ce_units e)) (bt_insert (ce_execution_id e) e es) = scaled q'"
      by (simp add: bt_sum_insert [OF parts(1)] assms(2,7) parts(4))
  qed
qed

abbreviation live_states :: "order_state set" where
  "live_states \<equiv> {Acknowledged, PartiallyFilled, PendingCancel, PendingReplace}"

lemma combo_advance_state:
  assumes "combo_advance c = (Inr u, d)" "\<not> combo_is_terminal c" "pco_state c \<notin> {Created, PendingRisk, Approved}"
  shows "pco_state d \<in> live_states"
  using assms
  by (cases "pco_state c") (auto simp: combo_advance_def combo_confirm_def combo_transition_eq combo_is_terminal_def
      terminal_state_def combo_working_state_def filled_working_state_def op_bind_def split: if_splits)

lemma combo_acknowledge_state:
  assumes "combo_ok rfc c" "combo_acknowledge v c = (Inr u, d)" "pco_evidence_error c = None \<longrightarrow> \<not> combo_is_terminal c"
  shows "pco_evidence_error d = None \<longrightarrow> pco_state d \<in> live_states"
proof -
  obtain c1 where n: "combo_note_broker v c = (Ok (), c1)" by (simp add: combo_note_broker_def)
  then have c1: "pco_evidence_error c1 = pco_evidence_error c" "pco_oms c1 = pco_oms c"
    by (auto simp: combo_note_broker_def)
  have run: "(if pco_evidence_error c1 \<noteq> None \<or> combo_is_terminal c1 then op_return () else combo_advance) c1 = (Inr u, d)"
    using assms(2) n by (auto simp: combo_acknowledge_def op_bind_eq_Ok split: if_splits)
  show ?thesis
  proof (cases "pco_evidence_error c1 \<noteq> None \<or> combo_is_terminal c1")
    case True
    with run assms(3) c1 show ?thesis by (auto simp: combo_is_terminal_def)
  next
    case False
    then have "combo_advance c1 = (Inr u, d)" using run by simp
    moreover have "pco_state c1 \<notin> {Created, PendingRisk, Approved}"
      using combo_ok_stateD [OF assms(1)] unfolding c1 combo_state_ok_def by blast
    ultimately show ?thesis using combo_advance_state False by blast
  qed
qed

lemma combo_count_units_ok:
  assumes "combo_ok rfc c" "scaled filled = scaled (pco_filled_quantity c) + scaled (ce_units e)"
    "scaled filled \<le> scaled (co_combo_quantity (pco_intent c))"
    "pco_evidence_error c = None \<longrightarrow> pco_state c \<in> live_states"
    "bt_get (pco_executions c) (ce_execution_id e) = None"
    "combo_execution_validate rfc e (pco_intent c) = Ok ()" "ce_client_order_id e = ooc_order_id (pco_oms c)"
    "ce_broker_order_id e \<in> set (pco_broker_order_versions c)"
    "\<And>k f. (k, f) \<in> set (pco_executions c) \<Longrightarrow> set (receipt_ids e) \<inter> set (receipt_ids f) = {}"
  obtains s where "combo_count_units filled e c = (Ok (), c\<lparr>pco_filled_quantity := filled,
      pco_oms := (pco_oms c)\<lparr>ooc_state := s\<rparr>, pco_executions := bt_insert (ce_execution_id e) e (pco_executions c)\<rparr>)"
    "combo_ok rfc (c\<lparr>pco_filled_quantity := filled,
      pco_oms := (pco_oms c)\<lparr>ooc_state := s\<rparr>, pco_executions := bt_insert (ce_execution_id e) e (pco_executions c)\<rparr>)"
proof -
  let ?requested = "co_combo_quantity (pco_intent c)"
  let ?s = "if pco_evidence_error c \<noteq> None then pco_state c else if filled = ?requested then Filled
    else if pco_state c = Acknowledged then PartiallyFilled else pco_state c"
  have units: "0 < scaled (ce_units e)" by (rule execution_validate_Ok(1) [OF assms(6)])
  have ok: "0 \<le> scaled (pco_filled_quantity c)"
    "receipts_ok rfc (pco_intent c) (ooc_order_id (pco_oms c)) (pco_broker_order_versions c) (pco_executions c) (pco_filled_quantity c)"
    "combo_state_ok (pco_state c) (pco_filled_quantity c) ?requested (pco_evidence_error c)"
    using assms(1) by (simp_all add: combo_ok_def)
  have st: "combo_state_ok ?s filled ?requested (pco_evidence_error c)"
  proof (cases "pco_evidence_error c = None")
    case True
    then have live: "pco_state c \<in> live_states" using assms(4) by blast
    have "filled \<noteq> ZERO" using units ok(1) assms(2) by auto
    with True live show ?thesis by (auto simp: combo_state_ok_def)
  next
    case False
    have "pco_filled_quantity c \<noteq> ?requested" using units assms(2,3) by auto
    with False ok(3) show ?thesis unfolding combo_state_ok_def by auto
  qed
  have run: "combo_count_units filled e c = (Ok (), c\<lparr>pco_filled_quantity := filled,
      pco_oms := (pco_oms c)\<lparr>ooc_state := ?s\<rparr>, pco_executions := bt_insert (ce_execution_id e) e (pco_executions c)\<rparr>)"
  proof (cases "pco_evidence_error c = None")
    case True
    then have live: "pco_state c \<in> live_states" using assms(4) by blast
    then have "is_valid_transition (pco_state c) Filled" by auto
    with True live show ?thesis by (auto simp: combo_count_units_def combo_transition_eq op_bind_def)
  next
    case False
    then show ?thesis by (simp add: combo_count_units_def)
  qed
  have "combo_ok rfc (c\<lparr>pco_filled_quantity := filled, pco_oms := (pco_oms c)\<lparr>ooc_state := ?s\<rparr>,
      pco_executions := bt_insert (ce_execution_id e) e (pco_executions c)\<rparr>)"
    using assms(1,3) units ok(1) st assms(2) receipts_ok_insert [OF ok(2) assms(5-9,2)] by (simp add: combo_ok_def)
  with run show thesis by (rule that)
qed

section \<open>The invariant of the service and the exactly-once law\<close>

definition order_fill :: "paper_order \<Rightarrow> string \<Rightarrow> int" where
  "order_fill o1 i = (if oi_instrument_id (oo_intent (por_oms o1)) = i
     then side_sign (oi_side (oo_intent (por_oms o1))) * scaled (por_filled_quantity o1) else 0)"

definition combo_fill :: "paper_combo_order \<Rightarrow> string \<Rightarrow> int" where
  "combo_fill c i = scaled (pco_filled_quantity c) * unit_exposure (pco_intent c) i"

text \<open>The signed quantity of an instrument that the orders count as filled.\<close>

definition filled_exposure :: "'z paper_state_scheme \<Rightarrow> string \<Rightarrow> int" where
  "filled_exposure s i = bt_sum (\<lambda>_ o1. order_fill o1 i) (pv_orders s) + bt_sum (\<lambda>_ c. combo_fill c i) (pv_combo_orders s)"

definition combo_ids :: "paper_combo_order \<Rightarrow> string set" where
  "combo_ids c = \<Union> (set ` receipt_ids ` snd ` set (pco_executions c))"

definition service_ok :: "(string \<Rightarrow> bool) \<Rightarrow> 'z paper_state_scheme \<Rightarrow> bool" where
  "service_ok rfc3339 s \<longleftrightarrow> books_ok rfc3339 s \<and> bt_sorted (pv_orders s) \<and> bt_sorted (pv_combo_orders s)
     \<and> (\<forall>cid o1. bt_get (pv_orders s) cid = Some o1 \<longrightarrow> order_ok o1)
     \<and> (\<forall>cid c. bt_get (pv_combo_orders s) cid = Some c \<longrightarrow>
          combo_ok rfc3339 c \<and> ooc_order_id (pco_oms c) = cid \<and> combo_ids c \<subseteq> set (pb_execution_ids s))"

definition same_intents :: "'z paper_state_scheme \<Rightarrow> 'z paper_state_scheme \<Rightarrow> bool" where
  "same_intents s t \<longleftrightarrow>
     (\<forall>cid. map_option (\<lambda>o1. (oo_intent (por_oms o1), por_market o1)) (bt_get (pv_orders t) cid)
        = map_option (\<lambda>o1. (oo_intent (por_oms o1), por_market o1)) (bt_get (pv_orders s) cid)
      \<and> map_option (\<lambda>c. (pco_intent c, pco_market c)) (bt_get (pv_combo_orders t) cid)
        = map_option (\<lambda>c. (pco_intent c, pco_market c)) (bt_get (pv_combo_orders s) cid))"

text \<open>What one piece of evidence may do: the books move by what the orders count, the invariants
  hold on, no order appears, disappears or changes its approved intent, and nothing else changes.\<close>

definition accounted :: "(string \<Rightarrow> bool) \<Rightarrow> 'z paper_state_scheme \<Rightarrow> 'z paper_state_scheme \<Rightarrow> bool" where
  "accounted rfc3339 s t \<longleftrightarrow> service_ok rfc3339 t
     \<and> (\<forall>i. position t i - filled_exposure t i = position s i - filled_exposure s i)
     \<and> (books_agree s \<longrightarrow> books_agree t) \<and> same_intents s t
     \<and> set (pb_execution_ids s) \<subseteq> set (pb_execution_ids t) \<and> paper_state.more t = paper_state.more s"

lemma accounted_refl: "service_ok rfc s \<Longrightarrow> accounted rfc s s"
  by (simp add: accounted_def same_intents_def)

lemma accounted_trans: "accounted rfc s t \<Longrightarrow> accounted rfc t u \<Longrightarrow> accounted rfc s u"
  by (auto simp: accounted_def same_intents_def)

lemma book_frames [simp]:
  "position (s\<lparr>pv_orders := x\<rparr>) = position s" "position (s\<lparr>pv_combo_orders := y\<rparr>) = position s"
  "position (s\<lparr>pb_execution_ids := z\<rparr>) = position s"
  "books_agree (s\<lparr>pv_orders := x\<rparr>) = books_agree s" "books_agree (s\<lparr>pv_combo_orders := y\<rparr>) = books_agree s"
  "books_agree (s\<lparr>pb_execution_ids := z\<rparr>) = books_agree s"
  "position (pb_execution_ids_update g s) = position s" "books_agree (pb_execution_ids_update g s) = books_agree s"
  "books_ok rfc (s\<lparr>pv_orders := x\<rparr>) = books_ok rfc s" "books_ok rfc (s\<lparr>pv_combo_orders := y\<rparr>) = books_ok rfc s"
  by (simp_all add: position_def fun_eq_iff books_agree_def attributed_def books_ok_def)

lemma books_ok_more_ids: "books_ok rfc s \<Longrightarrow> books_ok rfc (pb_execution_ids_update (bs_insert e) s)"
  by (auto simp: books_ok_def)

lemma more_same:
  fixes s t :: "'z paper_state_scheme"
  assumes "paper_books.more t = paper_books.more s"
  shows "pv_orders t = pv_orders s" "pv_combo_orders t = pv_combo_orders s" "paper_state.more t = paper_state.more s"
  using assms by (cases s; cases t; simp)+

lemma service_okD:
  assumes "service_ok rfc s"
  shows "books_ok rfc s" "bt_sorted (pv_orders s)" "bt_sorted (pv_combo_orders s)"
    "bt_get (pv_orders s) cid = Some o1 \<Longrightarrow> order_ok o1"
    "bt_get (pv_combo_orders s) cid = Some c \<Longrightarrow> combo_ok rfc c"
    "bt_get (pv_combo_orders s) cid = Some c \<Longrightarrow> ooc_order_id (pco_oms c) = cid"
    "bt_get (pv_combo_orders s) cid = Some c \<Longrightarrow> combo_ids c \<subseteq> set (pb_execution_ids s)"
  using assms unfolding service_ok_def by blast+

lemma service_ok_books:
  assumes "service_ok rfc s" "books_ok rfc t" "pv_orders t = pv_orders s" "pv_combo_orders t = pv_combo_orders s"
    "set (pb_execution_ids s) \<subseteq> set (pb_execution_ids t)"
  shows "service_ok rfc t"
  unfolding service_ok_def assms(3,4)
  by (intro conjI allI impI assms(2)) (use service_okD [OF assms(1)] assms(5) in \<open>blast intro: subset_trans\<close>)+

lemma store_order:
  assumes "service_ok rfc s" "bt_get (pv_orders s) cid = Some o1" "order_ok o2" "same_order o1 o2"
  defines "t \<equiv> s\<lparr>pv_orders := bt_insert cid o2 (pv_orders s)\<rparr>"
  shows "service_ok rfc t" "filled_exposure t i = filled_exposure s i + (order_fill o2 i - order_fill o1 i)" "same_intents s t"
  using assms service_okD [OF assms(1)]
  by (auto simp: service_ok_def bt_get_insert bt_sorted_insert filled_exposure_def bt_sum_insert same_intents_def same_order_def)

lemma store_combo:
  assumes "service_ok rfc s" "bt_get (pv_combo_orders s) cid = Some c" "combo_ok rfc d" "pco_intent d = pco_intent c" "pco_market d = pco_market c"
    "ooc_order_id (pco_oms d) = ooc_order_id (pco_oms c)" "combo_ids d \<subseteq> set (pb_execution_ids s)"
  defines "t \<equiv> s\<lparr>pv_combo_orders := bt_insert cid d (pv_combo_orders s)\<rparr>"
  shows "service_ok rfc t" "filled_exposure t i = filled_exposure s i + (combo_fill d i - combo_fill c i)" "same_intents s t"
  using assms service_okD [OF assms(1)]
  by (auto simp: service_ok_def bt_get_insert bt_sorted_insert filled_exposure_def bt_sum_insert same_intents_def)

lemma on_order_accounted:
  assumes "service_ok rfc s" "on_order cid m s = (Inr x, t)" "order_step_ok m"
    "\<And>q. op_keeps (\<lambda>o1. por_filled_quantity o1 = q) m"
  shows "accounted rfc s t"
proof -
  from assms(2) obtain o1 o2 where o1: "bt_get (pv_orders s) cid = Some o1" and m: "m o1 = (Inr x, o2)"
    and t: "t = s\<lparr>pv_orders := bt_insert cid o2 (pv_orders s)\<rparr>"
    by (auto simp: on_order_def split: option.splits prod.splits)
  have o2: "order_ok o2 \<and> same_order o1 o2" by (rule order_step_okD [OF assms(3) service_okD(4) [OF assms(1) o1] m])
  have "por_filled_quantity o2 = por_filled_quantity o1" using op_keepsD [OF assms(4) _ m] by simp
  then have "order_fill o2 i = order_fill o1 i" for i using o2 by (simp add: order_fill_def same_order_def)
  with store_order [OF assms(1) o1] o2 show ?thesis by (simp add: accounted_def t)
qed

lemma on_combo_accounted:
  assumes "service_ok rfc s" "on_combo cid m s = (Inr x, t)"
    "\<And>c d. combo_ok rfc c \<Longrightarrow> m c = (Inr x, d) \<Longrightarrow> combo_ok rfc d \<and> same_combo c d"
  shows "accounted rfc s t"
proof -
  from assms(2) obtain c d where c: "bt_get (pv_combo_orders s) cid = Some c" and m: "m c = (Inr x, d)"
    and t: "t = s\<lparr>pv_combo_orders := bt_insert cid d (pv_combo_orders s)\<rparr>"
    by (auto simp: on_combo_def split: option.splits prod.splits)
  have d: "combo_ok rfc d" "same_combo c d" using assms(3) [OF service_okD(5) [OF assms(1) c] m] by auto
  then have same: "pco_intent d = pco_intent c" "pco_market d = pco_market c" "ooc_order_id (pco_oms d) = ooc_order_id (pco_oms c)"
    "combo_ids d \<subseteq> set (pb_execution_ids s)" "combo_fill d i = combo_fill c i" for i
    using service_okD(7) [OF assms(1) c] by (simp_all add: same_combo_def combo_ids_def combo_fill_def)
  from store_combo [OF assms(1) c d(1) same(1-4)] same(5) show ?thesis by (simp add: accounted_def t)
qed

section \<open>Events on single orders\<close>

lemma keeps_filled_transition [op_keeps_intros]: "op_keeps (\<lambda>o1. por_filled_quantity o1 = q) (order_transition n reason)"
  by (simp add: op_keeps_def order_transition_eq)

lemma keeps_filled_modify:
  "op_keeps (\<lambda>o1. por_filled_quantity o1 = q) (note_version v)" "op_keeps (\<lambda>o1. por_filled_quantity o1 = q) (adopt_broker_id v)"
  by (simp_all add: op_keeps_def note_version_def adopt_broker_id_def)

lemmas keeps_filled = op_keeps_intros keeps_filled_modify

lemma keeps_filled_steps:
  "op_keeps (\<lambda>o1. por_filled_quantity o1 = q) (transition_to_acknowledged reason)"
  "op_keeps (\<lambda>o1. por_filled_quantity o1 = q) (restore_working_state reason)"
  "op_keeps (\<lambda>o1. por_filled_quantity o1 = q) (restore_replacement_state reason)"
  "op_keeps (\<lambda>o1. por_filled_quantity o1 = q) (transition_to_terminal terminal reason)"
  "op_keeps (\<lambda>o1. por_filled_quantity o1 = q) (adopt_version v)"
  unfolding transition_to_acknowledged_def restore_working_state_def restore_replacement_state_def
    transition_to_terminal_def adopt_version_def
  by (intro keeps_filled; simp)+

lemma keeps_filled_events:
  "op_keeps (\<lambda>o1. por_filled_quantity o1 = q) (order_acknowledged v)"
  "op_keeps (\<lambda>o1. por_filled_quantity o1 = q) order_cancel_rejected"
  "op_keeps (\<lambda>o1. por_filled_quantity o1 = q) (order_replace_requested v)"
  "op_keeps (\<lambda>o1. por_filled_quantity o1 = q) (order_replaced v w)"
  "op_keeps (\<lambda>o1. por_filled_quantity o1 = q) order_replace_rejected"
  unfolding order_acknowledged_def order_cancel_rejected_def order_replace_requested_def order_replaced_def
    order_replace_rejected_def
  by (intro keeps_filled keeps_filled_steps; simp)+

lemma checked_add_scaled: "checked_add a b = Inr c \<Longrightarrow> scaled c = scaled a + scaled b"
  by (auto simp: checked_add_eq_Ok)

lemma op_bind_assoc: "op_bind (op_bind m f) g = op_bind m (\<lambda>x. op_bind (f x) g)"
  by (auto simp: op_bind_def fun_eq_iff split: prod.splits sum.splits)

lemma order_executed_fills:
  assumes "order_executed v q o1 = (Inr u, o2)"
  shows "scaled (por_filled_quantity o2) = scaled (por_filled_quantity o1) + scaled q"
proof -
  define before :: "(paper_order, unit) op" where "before = op_bind (adopt_version v) (\<lambda>_.
       op_bind (op_get por_state) (\<lambda>s.
       op_bind (if s \<in> {Cancelled, Rejected, Expired}
         then order_transition Unknown ''LATE_BROKER_EXECUTION_AFTER_TERMINAL'' else op_return ()) (\<lambda>_.
       transition_to_acknowledged ''BROKER_EXECUTION_CONFIRMED_ORDER'')))"
  have keeps: "op_keeps (\<lambda>o1. por_filled_quantity o1 = p) before" for p
    unfolding before_def by (intro keeps_filled keeps_filled_steps)
  have "op_bind before (\<lambda>_. order_count_fill q) o1 = (Inr u, o2)"
    using assms by (auto simp only: order_executed_def before_def order_confirm_fill_def op_bind_assoc op_bind_basic
        op_if_apply prod.case op_simps prod.inject sum.distinct split: if_splits)
  then obtain o3 where "before o1 = (Inr (), o3)" and c: "order_count_fill q o3 = (Inr u, o2)"
    by (auto simp: op_bind_eq_Ok)
  with op_keepsD [OF keeps] have same: "por_filled_quantity o3 = por_filled_quantity o1" by blast
  from c have "scaled (por_filled_quantity o2) = scaled (por_filled_quantity o3) + scaled q"
    by (cases "checked_add (por_filled_quantity o3) q")
      (auto simp: order_count_fill_def op_bind_eq_Ok order_transition_eq dest!: checked_add_scaled split: if_splits)
  with same show ?thesis by simp
qed

lemma apply_execution_accounted:
  assumes "service_ok rfc s" "apply_execution rfc terms eid cid bid q price fee at s = (Inr u, t)"
  shows "accounted rfc s t"
proof (cases "bs_contains eid (pb_execution_ids s)")
  case True
  with assms(2) have "t = s" by (auto simp: apply_execution_def check_ids_def op_bind_eq_Ok split: if_splits)
  with assms(1) show ?thesis by (simp add: accounted_refl)
next
  case False
  from assms(2) False have q: "0 < scaled q"
    by (auto simp: apply_execution_def check_ids_def op_bind_eq_Ok decimal_cmp split: if_splits)
  from assms(2) False obtain oms s1 where
    on: "on_order cid (op_bind (order_executed bid q) (\<lambda>_. op_get por_oms)) s = (Inr oms, s1)" and
    fill: "apply_accounted_fill rfc terms
           \<lparr>fl_execution_id = eid, fl_order_id = oo_order_id oms,
            fl_instrument_id = oi_instrument_id (oo_intent oms), fl_side = oi_side (oo_intent oms),
            fl_quantity = q, fl_price = price, fl_fee = fee, fl_executed_at = at\<rparr>
           (oi_strategy_id (oo_intent oms)) (pb_execution_ids_update (bs_insert eid) s1) = (Inr u, t)"
    by (auto simp: apply_execution_def check_ids_def op_bind_eq_Ok split: if_splits)
  from on obtain o1 o2 where o1: "bt_get (pv_orders s) cid = Some o1" and m: "order_executed bid q o1 = (Inr (), o2)"
    and s1: "s1 = s\<lparr>pv_orders := bt_insert cid o2 (pv_orders s)\<rparr>" and oms: "oms = por_oms o2"
    by (auto simp: on_order_def op_bind_eq_Ok split: option.splits prod.splits)
  have o2: "order_ok o2" "same_order o1 o2"
    using order_step_okD [OF order_step_executed [OF q] service_okD(4) [OF assms(1) o1] m] by auto
  note store = store_order [OF assms(1) o1 o2, folded s1]
  have fills: "order_fill o2 i - order_fill o1 i
      = (if oi_instrument_id (oo_intent oms) = i then side_sign (oi_side (oo_intent oms)) * scaled q else 0)" for i
    using order_executed_fills [OF m] o2(2) by (simp add: order_fill_def same_order_def oms algebra_simps)
  let ?s2 = "pb_execution_ids_update (bs_insert eid) s1"
  have ok2: "books_ok rfc ?s2" by (rule books_ok_more_ids [OF service_okD(1) [OF store(1)]])
  have "fill_ids eid \<inter> used_ids (pb_tax_lots s) = {}"
    using fresh_fill_ids [OF service_okD(1) [OF assms(1)]] False by (simp add: bs_contains_def)
  then have fresh: "fill_ids (fl_execution_id
      \<lparr>fl_execution_id = eid, fl_order_id = oo_order_id oms, fl_instrument_id = oi_instrument_id (oo_intent oms),
       fl_side = oi_side (oo_intent oms), fl_quantity = q, fl_price = price, fl_fee = fee, fl_executed_at = at\<rparr>)
      \<inter> used_ids (pb_tax_lots ?s2) = {}" by (simp add: s1)
  note f = accounted_fill_Ok [OF fill ok2 fresh]
  note more = more_same [OF f(2)]
  have t: "service_ok rfc t"
    by (rule service_ok_books [OF store(1) f(1)]) (use more f(3) in auto)
  have "filled_exposure t i = filled_exposure s1 i" for i by (simp add: filled_exposure_def more)
  then have "position t i - filled_exposure t i = position s i - filled_exposure s i" for i
    using f(4) store(2) [of i] fills [of i] by (simp add: s1)
  moreover have "books_agree s \<longrightarrow> books_agree t" using f(6) by (simp add: s1)
  moreover have "same_intents s t" using store(3) by (simp add: same_intents_def more)
  moreover have "set (pb_execution_ids s) \<subseteq> set (pb_execution_ids t)" using f(3) by (auto simp: s1)
  ultimately show ?thesis using t more by (simp add: accounted_def s1)
qed

lemma apply_order_event_accounted:
  assumes "service_ok rfc s" "apply_order_event rfc terms ev s = (Inr u, t)"
  shows "accounted rfc s t"
proof (cases ev)
  case (ExecutionEvent eid cid bid q price fee at)
  with assms show ?thesis by (simp add: apply_execution_accounted)
qed (use assms(2) in \<open>auto simp: check_ids_def checked_reason_def op_bind_eq_Ok
      intro!: on_order_accounted [OF assms(1)] order_steps keeps_filled_events keeps_filled_steps\<close>)

section \<open>Events on combinations\<close>

definition combo_prepare :: "string \<Rightarrow> (paper_combo_order, unit) op" where
  "combo_prepare v = op_bind combo_reopen (\<lambda>_. combo_acknowledge v)"

lemma combo_prepare_ok:
  assumes "combo_ok rfc c" "combo_prepare v c = (Inr u, d)"
  shows "combo_ok rfc d" "same_combo c d" "v \<in> set (pco_broker_order_versions d)"
    "pco_filled_quantity c \<noteq> co_combo_quantity (pco_intent c) \<Longrightarrow> pco_evidence_error d = None \<Longrightarrow> pco_state d \<in> live_states"
proof -
  from assms(2) obtain c1 where r: "combo_reopen c = (Inr (), c1)" and a: "combo_acknowledge v c1 = (Inr u, d)"
    by (auto simp: combo_prepare_def op_bind_eq_Ok)
  have c1: "combo_ok rfc c1" "same_combo c c1" using combo_reopen_ok [OF assms(1) r] by auto
  have d: "combo_ok rfc d" "same_combo c1 d" "v \<in> set (pco_broker_order_versions d)"
    using combo_acknowledge_ok [OF c1(1) a] by auto
  show "combo_ok rfc d" "v \<in> set (pco_broker_order_versions d)" by (rule d)+
  show "same_combo c d" using c1(2) d(2) by (rule same_combo_trans)
  assume part: "pco_filled_quantity c \<noteq> co_combo_quantity (pco_intent c)" and sound: "pco_evidence_error d = None"
  have "combo_state_ok (pco_state c1) (pco_filled_quantity c) (co_combo_quantity (pco_intent c)) (pco_evidence_error c1)"
    using combo_ok_stateD [OF c1(1)] c1(2) by (simp add: same_combo_def)
  then have "pco_state c1 \<notin> {Filled, RiskRejected}" using part unfolding combo_state_ok_def by blast
  moreover have "pco_state c1 \<notin> {Cancelled, Rejected, Expired}"
  proof (cases "pco_state c \<in> {Cancelled, Expired, Rejected}")
    case True
    then have "combo_transition Unknown ''LATE_COMBO_EXECUTION_AFTER_TERMINAL'' c = (Inr (), c1)"
      using r by (simp add: combo_reopen_def)
    then have "pco_state c1 = Unknown" by (auto simp: combo_transition_eq split: if_splits)
    then show ?thesis by simp
  next
    case False
    then have "c1 = c" using r by (simp add: combo_reopen_def split: if_splits)
    with False show ?thesis by blast
  qed
  ultimately have "\<not> combo_is_terminal c1" unfolding combo_is_terminal_def terminal_state_def by blast
  with combo_acknowledge_state [OF c1(1) a] sound show "pco_state d \<in> live_states" by blast
qed

lemma book_combo_fills_ok:
  assumes "service_ok rfc s" "book_combo_fills rfc terms e strategy s = (Inr u, t)"
    "distinct (receipt_ids e)" "\<not> executions_overlap e s"
  shows "service_ok rfc t" "paper_books.more t = paper_books.more s"
    "set (pb_execution_ids t) = set (receipt_ids e) \<union> set (pb_execution_ids s)" "books_agree s \<Longrightarrow> books_agree t"
    "position t i = position s i
      + (\<Sum>f\<leftarrow>combo_fills e. if fl_instrument_id f = i then side_sign (fl_side f) * scaled (fl_quantity f) else 0)"
proof -
  from assms(2) obtain t1 where
    run: "op_each (\<lambda>f. apply_accounted_fill rfc terms f strategy) (combo_fills e) s = (Inr (), t1)"
    and t: "t = pb_execution_ids_update (bs_insert (ce_execution_id e)) t1"
    by (auto simp: book_combo_fills_def op_bind_eq_Ok)
  have ids: "map fl_execution_id (combo_fills e) = map cel_execution_id (ce_legs e)"
    by (simp add: combo_fills_def o_def)
  have "distinct (map fl_execution_id (combo_fills e))" using assms(3) by (simp add: ids receipt_ids_def)
  moreover have "set (map fl_execution_id (combo_fills e)) \<inter> set (pb_execution_ids s) = {}"
    unfolding ids using assms(4) by (auto simp: executions_overlap_def bs_contains_def list_ex_iff)
  ultimately have b: "books_ok rfc t1" "paper_books.more t1 = paper_books.more s"
    "set (pb_execution_ids t1) = set (map cel_execution_id (ce_legs e)) \<union> set (pb_execution_ids s)"
    "\<And>i. position t1 i = position s i
        + (\<Sum>f\<leftarrow>combo_fills e. if fl_instrument_id f = i then side_sign (fl_side f) * scaled (fl_quantity f) else 0)"
    "books_agree s \<Longrightarrow> books_agree t1"
    using accounted_fills_Ok [OF run service_okD(1) [OF assms(1)]] unfolding ids by blast+
  show more: "paper_books.more t = paper_books.more s" using b(2) by (simp add: t)
  show new: "set (pb_execution_ids t) = set (receipt_ids e) \<union> set (pb_execution_ids s)"
    using b(3) by (simp add: t receipt_ids_def)
  show "service_ok rfc t"
    by (rule service_ok_books [OF assms(1)]) (use books_ok_more_ids [OF b(1)] more_same [OF more] new in \<open>simp_all add: t\<close>)
  show "books_agree s \<Longrightarrow> books_agree t" using b(5) by (simp add: t)
  show "position t i = position s i
      + (\<Sum>f\<leftarrow>combo_fills e. if fl_instrument_id f = i then side_sign (fl_side f) * scaled (fl_quantity f) else 0)"
    using b(4) by (simp add: t)
qed

lemma apply_combo_execution_accounted:
  assumes "service_ok rfc s" "apply_combo_execution rfc terms e s = (Inr u, t)"
  shows "accounted rfc s t"
proof -
  let ?cid = "ce_client_order_id e" and ?id = "ce_execution_id e"
  from assms(2) obtain c where c: "bt_get (pv_combo_orders s) ?cid = Some c"
    and valid: "combo_execution_validate rfc e (pco_intent c) = Ok ()"
    by (auto simp: apply_combo_execution_def op_bind_eq_Ok ok_or_eq_Ok)
  have ok: "combo_ok rfc c" "ooc_order_id (pco_oms c) = ?cid" "combo_ids c \<subseteq> set (pb_execution_ids s)"
    using service_okD(5-7) [OF assms(1) c] by auto
  show ?thesis
  proof (cases "bt_get (pco_executions c) ?id")
    case (Some previous)
    then have "t = s" using assms(2) c valid by (auto simp: apply_combo_execution_def ok_or_def split: if_splits)
    with assms(1) show ?thesis by (simp add: accounted_refl)
  next
    case None
    from assms(2) c valid None obtain filled s1 s2 where
      new: "\<not> executions_overlap e s" and
      filled: "checked_add (pco_filled_quantity c) (ce_units e) = Inr filled"
        "\<not> filled > co_combo_quantity (pco_intent c)" and
      prep: "on_combo ?cid (combo_prepare (ce_broker_order_id e)) s = (Inr (), s1)" and
      book: "book_combo_fills rfc terms e (co_strategy_id (pco_intent c)) s1 = (Inr (), s2)" and
      count: "on_combo ?cid (combo_count_units filled e) s2 = (Inr u, t)"
      by (auto simp: apply_combo_execution_def ok_or_def combo_prepare_def op_bind_eq_Ok split: if_splits)
    note v = execution_validate_Ok [OF valid]
    have q: "scaled filled = scaled (pco_filled_quantity c) + scaled (ce_units e)"
      "scaled filled \<le> scaled (co_combo_quantity (pco_intent c))"
      using checked_add_scaled [OF filled(1)] filled(2) by (simp_all add: decimal_cmp)
    have part: "pco_filled_quantity c \<noteq> co_combo_quantity (pco_intent c)" using q v(1) by auto
    from prep c obtain d where d: "combo_prepare (ce_broker_order_id e) c = (Inr (), d)"
      and s1: "s1 = s\<lparr>pv_combo_orders := bt_insert ?cid d (pv_combo_orders s)\<rparr>"
      by (auto simp: on_combo_def split: prod.splits)
    note p = combo_prepare_ok [OF ok(1) d]
    have acc1: "accounted rfc s s1"
      by (rule on_combo_accounted [OF assms(1) prep]) (use combo_prepare_ok in blast)
    then have ok1: "service_ok rfc s1" by (simp add: accounted_def)
    have "\<not> executions_overlap e s1" using new by (simp add: executions_overlap_def s1)
    note b = book_combo_fills_ok [OF ok1 book v(2) this]
    note more = more_same [OF b(2)]
    have d2: "bt_get (pv_combo_orders s2) ?cid = Some d" by (simp add: more s1 bt_get_insert)
    have same: "pco_intent d = pco_intent c" "ooc_order_id (pco_oms d) = ?cid" "pco_executions d = pco_executions c"
      "pco_filled_quantity d = pco_filled_quantity c"
      using p(2) ok(2) by (simp_all add: same_combo_def)
    have apart: "set (receipt_ids e) \<inter> set (receipt_ids f) = {}" if "(k, f) \<in> set (pco_executions d)" for k f
    proof -
      have "set (receipt_ids f) \<subseteq> set (pb_execution_ids s)" using that ok(3) same(3) by (force simp: combo_ids_def)
      moreover have "set (receipt_ids e) \<inter> set (pb_execution_ids s) = {}"
        using new by (auto simp: executions_overlap_def bs_contains_def list_ex_iff receipt_ids_def)
      ultimately show ?thesis by blast
    qed
    obtain st where run: "combo_count_units filled e d = (Ok (), d\<lparr>pco_filled_quantity := filled,
      pco_oms := (pco_oms d)\<lparr>ooc_state := st\<rparr>, pco_executions := bt_insert ?id e (pco_executions d)\<rparr>)"
      and okd: "combo_ok rfc (d\<lparr>pco_filled_quantity := filled,
      pco_oms := (pco_oms d)\<lparr>ooc_state := st\<rparr>, pco_executions := bt_insert ?id e (pco_executions d)\<rparr>)"
      by (rule combo_count_units_ok [OF p(1), of filled e]) (use q p(3,4) part same None valid apart in auto)
    define d' where "d' = d\<lparr>pco_filled_quantity := filled,
      pco_oms := (pco_oms d)\<lparr>ooc_state := st\<rparr>, pco_executions := bt_insert ?id e (pco_executions d)\<rparr>"
    have t: "t = s2\<lparr>pv_combo_orders := bt_insert ?cid d' (pv_combo_orders s2)\<rparr>"
      using count d2 run by (simp add: on_combo_def d'_def)
    have "combo_ids d' \<subseteq> set (receipt_ids e) \<union> combo_ids c"
      unfolding combo_ids_def d'_def using set_bt_insert_new [of "pco_executions c" ?id e] None by (simp add: same(3))
    then have ids: "combo_ids d' \<subseteq> set (pb_execution_ids s2)" using b(3) ok(3) by (auto simp: s1)
    note store = store_combo [OF b(1) d2 okd [folded d'_def], OF _ _ _ ids, folded t]
    have t_ok: "service_ok rfc t" "same_intents s2 t" "filled_exposure t i = filled_exposure s2 i + (combo_fill d' i - combo_fill d i)" for i
      using store by (simp_all add: d'_def)
    have gain: "combo_fill d' i - combo_fill d i = scaled (ce_units e) * unit_exposure (pco_intent c) i" for i
      using q(1) same by (simp add: combo_fill_def d'_def algebra_simps)
    have booked: "position s2 i = position s1 i + scaled (ce_units e) * unit_exposure (pco_intent c) i" for i
      using b(5) receipt_exposure [OF valid] ok(1) by (simp add: combo_ok_def)
    have "filled_exposure s2 i = filled_exposure s1 i" for i by (simp add: filled_exposure_def more)
    then have "position t i - filled_exposure t i = position s1 i - filled_exposure s1 i" for i
      using booked [of i] gain [of i] t_ok(3) [of i] by (simp add: t)
    moreover have "same_intents s1 t" using t_ok(2) by (simp add: same_intents_def more)
    moreover have "books_agree s1 \<longrightarrow> books_agree t" using b(4) by (simp add: t)
    moreover have "set (pb_execution_ids s1) \<subseteq> set (pb_execution_ids t)" using b(3) by (simp add: t)
    moreover have "paper_state.more t = paper_state.more s1" using more(3) by (simp add: t)
    ultimately have "accounted rfc s1 t" using t_ok(1) by (simp add: accounted_def)
    with acc1 show ?thesis by (rule accounted_trans)
  qed
qed

lemma apply_combo_event_accounted:
  assumes "service_ok rfc s" "apply_combo_event rfc terms ev s = (Inr u, t)"
  shows "accounted rfc s t"
proof (cases ev)
  case (ComboExecutionEvent e)
  with assms show ?thesis by (auto simp: op_bind_eq_Ok intro: apply_combo_execution_accounted)
next
  case (AcknowledgedEvent cid v)
  with assms(2) have "on_combo cid (combo_acknowledge v) s = (Inr u, t)" by (simp add: op_bind_eq_Ok)
  from assms(1) this show ?thesis by (rule on_combo_accounted) (blast dest: combo_acknowledge_ok)
next
  case (CancelRejectedEvent cid reason)
  with assms(2) have "on_combo cid (combo_cancel_rejected reason) s = (Inr u, t)" by (simp add: op_bind_eq_Ok)
  from assms(1) this show ?thesis by (rule on_combo_accounted) (rule combo_cancel_rejected_ok)
next
  case (CancelledEvent cid reason)
  with assms(2) have "on_combo cid (combo_finish reason Cancelled) s = (Inr u, t)" by (simp add: op_bind_eq_Ok)
  from assms(1) this show ?thesis by (rule on_combo_accounted) (erule (1) combo_finish_ok, simp)
next
  case (ExpiredEvent cid reason)
  with assms(2) have "on_combo cid (combo_finish reason Expired) s = (Inr u, t)" by (simp add: op_bind_eq_Ok)
  from assms(1) this show ?thesis by (rule on_combo_accounted) (erule (1) combo_finish_ok, simp)
next
  case (RejectedEvent cid reason)
  with assms(2) have "on_combo cid (combo_finish reason Rejected) s = (Inr u, t)" by (simp add: op_bind_eq_Ok)
  from assms(1) this show ?thesis by (rule on_combo_accounted) (erule (1) combo_finish_ok, simp)
qed (use assms(2) in \<open>simp_all add: op_bind_eq_Ok\<close>)

lemma apply_broker_event_accounted:
  "service_ok rfc s \<Longrightarrow> apply_broker_event rfc terms ev s = (Inr u, t) \<Longrightarrow> accounted rfc s t"
  using apply_combo_event_accounted apply_order_event_accounted by (auto simp: apply_broker_event_def split: if_splits)

section \<open>The law\<close>

text \<open>C2: Whatever evidence a broker delivers about a known order or combination, if it is accepted the books move by
  exactly what the orders newly count as filled, per instrument and once: portfolio, tax lots and
  strategy attribution stay in agreement, no order appears, disappears or changes its approved intent,
  and every invariant of orders, receipts and lots is kept.\<close>

theorem broker_evidence_booked_once:
  assumes "service_ok rfc3339 s" "books_agree s" "apply_broker_event rfc3339 terms ev s = (Ok (), t)"
  shows "(\<forall>i. position t i - position s i = filled_exposure t i - filled_exposure s i) \<and> books_agree t \<and> same_intents s t
    \<and> service_ok rfc3339 t"
  using apply_broker_event_accounted [OF assms(1,3)] assms(2) by (simp add: accounted_def algebra_simps)

definition sample_service :: paper_state where
  "sample_service = \<lparr>pb_cash = Decimal 100000000000, pb_portfolios = [], pb_tax_lots = tax_lot_book_default,
     pb_strategy_attribution = [], pb_execution_ids = [], pv_orders = [(''order-i'', sample_paper_order)], pv_combo_orders = []\<rparr>"

lemma sample_service_ok: "service_ok (\<lambda>_. True) sample_service \<and> books_agree sample_service"
  by (auto simp: service_ok_def books_ok_def book_ok_def buckets_ok_def sample_service_def tax_lot_book_default_def
      bt_sorted_def used_ids_def books_agree_def position_def attributed_def held_long_def held_short_def
      book_lots_def book_short_lots_def lots_held_def sample_paper_order_ok split: if_splits)

definition sample_terms :: booking_terms where
  "sample_terms = \<lparr>bk_account_id = ''a'', bk_currency = ''USD'', bk_short_permitted = False\<rparr>"

definition sample_execution :: broker_event where
  "sample_execution = ExecutionEvent ''e1'' ''order-i'' ''b1'' (Decimal 400000000) (Decimal 1000000000) (Decimal 0)
     ''2026-01-31T23:59:59Z''"

lemma sample_execution_applies:
  "fst (apply_broker_event (\<lambda>_. True) sample_terms sample_execution sample_service) = Ok ()"
  by code_simp

theorem broker_evidence_booked_once_witness:
  "\<exists>t. apply_broker_event (\<lambda>_. True) sample_terms sample_execution sample_service = (Ok (), t)
    \<and> position t ''x'' - position sample_service ''x'' = filled_exposure t ''x'' - filled_exposure sample_service ''x''"
proof -
  obtain t where t: "apply_broker_event (\<lambda>_. True) sample_terms sample_execution sample_service = (Ok (), t)"
    using sample_execution_applies by (metis prod.collapse)
  from broker_evidence_booked_once [OF conjunct1 [OF sample_service_ok] conjunct2 [OF sample_service_ok] this] t
  show ?thesis by blast
qed

end
