(* ===== verification/PaperState.thy ===== *)
theory PaperState
  imports PaperEventLaws Instruments
begin

text \<open>
  Component: the state of the paper service (\<^verbatim>\<open>core/paper/src/service.rs\<close>, \<^verbatim>\<open>order.rs\<close>,
  \<^verbatim>\<open>reconciliation.rs\<close>, \<^verbatim>\<open>corporate_action.rs\<close>, \<^verbatim>\<open>records.rs\<close>): risk evidence, reconciliation
  reports and incidents, corporate actions, and the record that holds them all beside the books and
  the orders. The part the journal keeps is \<open>paper_durable\<close>; the adapter, the journal itself and its
  health are added to it by \<open>paper_service\<close>.
\<close>

section \<open>Evidence\<close>

record paper_risk_evidence =
  pre_intent :: order_intent
  pre_decision :: risk_decision
  pre_market :: paper_market_data
  pre_submitted_by :: "string option"

record paper_combo_risk_evidence =
  pce_intent :: combo_intent
  pce_decision :: risk_decision
  pce_market :: paper_combo_market_data
  pce_submitted_by :: "string option"

section \<open>Reconciliation\<close>

record reconciliation_issue =
  rci_incident_id :: string
  rci_category :: string
  rci_subject :: string
  rci_detail :: string

record reconciliation_report =
  rcr_reconciliation_id :: string
  rcr_reconciled_at :: string
  rcr_issues :: "reconciliation_issue list"

definition report_is_clean :: "reconciliation_report \<Rightarrow> bool" where
  "report_is_clean r \<longleftrightarrow> rcr_issues r = []"

record reconciliation_incident =
  rin_issue :: reconciliation_issue
  rin_explanation :: "string option"

definition incident_unexplained :: "reconciliation_incident \<Rightarrow> bool" where
  "incident_unexplained x \<longleftrightarrow> rin_explanation x = None"

section \<open>Corporate actions\<close>

text \<open>The arguments are the action identity, the instrument, the time it takes effect and its value.\<close>

datatype corporate_action =
    SplitAction string string string decimal
  | CashDividendAction string string string decimal

fun action_id :: "corporate_action \<Rightarrow> string" where
  "action_id (SplitAction i _ _ _) = i"
| "action_id (CashDividendAction i _ _ _) = i"

fun action_instrument_id :: "corporate_action \<Rightarrow> string" where
  "action_instrument_id (SplitAction _ i _ _) = i"
| "action_instrument_id (CashDividendAction _ i _ _) = i"

fun action_effective_at :: "corporate_action \<Rightarrow> string" where
  "action_effective_at (SplitAction _ _ t _) = t"
| "action_effective_at (CashDividendAction _ _ t _) = t"

fun action_value :: "corporate_action \<Rightarrow> decimal" where
  "action_value (SplitAction _ _ _ v) = v"
| "action_value (CashDividendAction _ _ _ v) = v"

definition action_validate :: "(string \<Rightarrow> bool) \<Rightarrow> corporate_action \<Rightarrow> unit result" where
  "action_validate rfc3339 a =
     and_then (validate_canonical_id ''action_id'' (action_id a)) (\<lambda>_.
     and_then (validate_canonical_id ''instrument_id'' (action_instrument_id a)) (\<lambda>_.
     and_then (validate_utc_timestamp rfc3339 ''corporate action effective_at'' (action_effective_at a)) (\<lambda>_.
     if action_value a \<le> ZERO then Err ''corporate action must have a positive value'' else Ok ())))"

record corporate_action_request =
  car_action :: corporate_action
  car_held_quantity :: decimal
  car_applied_by :: string
  car_applied_at :: string

record corporate_action_receipt =
  cat_action :: corporate_action
  cat_applied_by :: string
  cat_applied_at :: string
  cat_quantity_before :: decimal
  cat_quantity_after :: decimal
  cat_cash_delta :: decimal

section \<open>Paper days\<close>

record paper_day =
  pdy_calendar_id :: string
  pdy_session_opens_at :: string
  pdy_session_closes_at :: string
  pdy_clean :: bool

record paper_trading_session =
  pts_calendar_id :: string
  pts_session :: trading_session

definition paper_session_validate :: "(string \<Rightarrow> bool) \<Rightarrow> paper_trading_session \<Rightarrow> unit result" where
  "paper_session_validate rfc3339 p =
     and_then (validate_canonical_id ''paper calendar_id'' (pts_calendar_id p)) (\<lambda>_.
     and_then (session_validate rfc3339 (pts_session p)) (\<lambda>_.
     validate_exchange_date rfc3339 (ts_exchange_date (pts_session p))))"

section \<open>The state\<close>

record paper_durable = paper_state +
  pd_kill_switches :: kill_switch_registry
  pd_kill_switch_operations :: "kill_switch_operation list"
  pd_order_operations :: "order_operation list"
  pd_broker_connected :: bool
  pd_risk_evidence :: "(string, paper_risk_evidence) btree_map"
  pd_combo_risk_evidence :: "(string, paper_combo_risk_evidence) btree_map"
  pd_marks :: "(string, decimal) btree_map"
  pd_peak_equity :: decimal
  pd_daily_baseline_date :: "string option"
  pd_daily_baseline_equity :: decimal
  pd_corporate_actions :: "corporate_action_receipt list"
  pd_incidents :: "(string, reconciliation_incident) btree_map"
  pd_last_reconciled_at :: "string option"
  pd_last_reconciliation_clean :: "bool option"
  pd_latest_reconciliation :: "reconciliation_report option"
  pd_paper_days :: "(string, paper_day) btree_map"
  pd_next_reconciliation :: nat

text \<open>What \<^verbatim>\<open>new\<close> is given and never changes.\<close>

record paper_setup =
  pu_account :: paper_account
  pu_policy :: paper_risk_policy
  pu_broker_route :: string

definition setup_terms :: "paper_setup \<Rightarrow> booking_terms" where
  "setup_terms u = \<lparr>bk_account_id = pa_account_id (pu_account u), bk_currency = pa_currency (pu_account u),
     bk_short_permitted = (ppo_short_exposure (pu_policy u) \<noteq> None)\<rparr>"

definition setup_fingerprint :: "(string \<Rightarrow> string) \<Rightarrow> paper_setup \<Rightarrow> kill_switch_registry \<Rightarrow> string" where
  "setup_fingerprint sha256_hex u k = configuration_fingerprint sha256_hex
     \<lparr>pcf_account = pu_account u, pcf_risk_policy = pu_policy u, pcf_kill_switch_version = ksr_version k,
      pcf_broker_route = pu_broker_route u\<rparr>"

definition durable_new :: "paper_account \<Rightarrow> kill_switch_registry \<Rightarrow> paper_durable" where
  "durable_new a k = \<lparr>pb_cash = pa_initial_cash a, pb_portfolios = [], pb_tax_lots = tax_lot_book_default,
     pb_strategy_attribution = [], pb_execution_ids = [], pv_orders = [], pv_combo_orders = [],
     pd_kill_switches = k, pd_kill_switch_operations = [], pd_order_operations = [], pd_broker_connected = True,
     pd_risk_evidence = [], pd_combo_risk_evidence = [], pd_marks = [], pd_peak_equity = pa_initial_cash a,
     pd_daily_baseline_date = None, pd_daily_baseline_equity = ZERO, pd_corporate_actions = [],
     pd_incidents = [], pd_last_reconciled_at = None, pd_last_reconciliation_clean = None,
     pd_latest_reconciliation = None, pd_paper_days = [], pd_next_reconciliation = 1\<rparr>"

text \<open>The counts are narrowed to \<^verbatim>\<open>u32\<close>; they are the sizes of maps in memory and stay below it.\<close>

definition unexplained_incident_count :: "'z paper_durable_scheme \<Rightarrow> nat" where
  "unexplained_incident_count s = length (filter (\<lambda>(_, x). incident_unexplained x) (pd_incidents s))"

definition held_quantity :: "'z paper_books_scheme \<Rightarrow> string \<Rightarrow> decimal" where
  "held_quantity s i = (case bt_get (pb_portfolios s) i of None \<Rightarrow> ZERO | Some p \<Rightarrow> pf_quantity p)"

section \<open>Equity\<close>

text \<open>Every non-zero position at its cached mark, or at its own average cost while it has none.\<close>

definition cached_mark :: "'z paper_durable_scheme \<Rightarrow> portfolio \<Rightarrow> decimal" where
  "cached_mark s p = (case bt_get (pd_marks s) (pf_instrument_id p) of None \<Rightarrow> pf_average_cost p | Some m \<Rightarrow> m)"

definition current_equity :: "'z paper_durable_scheme \<Rightarrow> decimal result" where
  "current_equity s = try_fold (\<lambda>(_, p) equity.
     if pf_quantity p = ZERO then Ok equity
     else and_then (checked_mul (pf_quantity p) (cached_mark s p)) (checked_add equity))
     (pb_portfolios s) (pb_cash s)"

end
