(* ===== verification/PaperRecords.thy ===== *)
theory PaperRecords
  imports PaperState
begin

text \<open>
  Component: the shapes the journal of the paper service is written in, and their conversions
  (\<^verbatim>\<open>core/paper/src/records.rs\<close>, \<^verbatim>\<open>validation.rs\<close>, the combination receipts of
  \<^verbatim>\<open>combinations.rs\<close>). Amounts are decimal texts and enumerations are their names; reading
  back validates again. The lemmas are the round trips: what a valid value was written as is
  read as that value.
\<close>

section \<open>Amounts and names\<close>

definition decimal_field :: "string \<Rightarrow> string \<Rightarrow> decimal result" where
  "decimal_field name v = (case decimal_from_str v of
     Inl (Error e) \<Rightarrow> Err (''invalid '' @ name @ '': '' @ e) | Inr d \<Rightarrow> Ok d)"

definition parse_side :: "string \<Rightarrow> string \<Rightarrow> side result" where
  "parse_side message v = (if v = ''BUY'' then Ok Buy else if v = ''SELL'' then Ok Sell else Err message)"

definition parse_order_type :: "string \<Rightarrow> string \<Rightarrow> order_type result" where
  "parse_order_type message v =
     (if v = ''MARKET'' then Ok MarketOrder else if v = ''LIMIT'' then Ok LimitOrder else Err message)"

definition parse_time_in_force :: "string \<Rightarrow> string \<Rightarrow> time_in_force result" where
  "parse_time_in_force message v =
     (if v = ''DAY'' then Ok Day else if v = ''GTC'' then Ok GoodTilCancelled else Err message)"

definition all_order_states :: "order_state list" where
  "all_order_states = [Created, PendingRisk, RiskRejected, Approved, PendingSubmit, Submitted, Acknowledged,
     PartiallyFilled, Filled, PendingCancel, PendingReplace, Cancelled, Rejected, Expired, Unknown]"

definition parse_order_state :: "string \<Rightarrow> order_state result" where
  "parse_order_state v = ok_or (find (\<lambda>s. order_state_as_str s = v) all_order_states)
     ''persisted OMS state is invalid''"

definition try_option :: "('a \<Rightarrow> 'b result) \<Rightarrow> 'a option \<Rightarrow> 'b option result" where
  "try_option f x = (case x of None \<Rightarrow> Ok None | Some v \<Rightarrow> and_then (f v) (\<lambda>y. Ok (Some y)))"

section \<open>Intents and market observations\<close>

record persistent_intent =
  pti_intent_id :: string
  pti_account_id :: string
  pti_strategy_id :: string
  pti_instrument_id :: string
  pti_correlation_id :: string
  pti_side :: string
  pti_quantity :: string
  pti_order_type :: string
  pti_limit_price :: "string option"
  pti_time_in_force :: string
  pti_rationale :: string
  pti_created_at :: string
  pti_strategy_version :: string
  pti_configuration_version :: string
  pti_environment :: string

definition persistent_intent_from :: "order_intent \<Rightarrow> persistent_intent" where
  "persistent_intent_from i =
     \<lparr>pti_intent_id = oi_intent_id i, pti_account_id = oi_account_id i, pti_strategy_id = oi_strategy_id i,
      pti_instrument_id = oi_instrument_id i, pti_correlation_id = oi_correlation_id i,
      pti_side = side_as_str (oi_side i), pti_quantity = decimal_to_string (oi_quantity i),
      pti_order_type = order_type_as_str (oi_order_type i),
      pti_limit_price = map_option decimal_to_string (oi_limit_price i),
      pti_time_in_force = time_in_force_as_str (oi_time_in_force i), pti_rationale = oi_rationale i,
      pti_created_at = oi_created_at i, pti_strategy_version = oi_strategy_version i,
      pti_configuration_version = oi_configuration_version i, pti_environment = oi_environment i\<rparr>"

definition intent_from_persistent :: "(string \<Rightarrow> bool) \<Rightarrow> persistent_intent \<Rightarrow> order_intent result" where
  "intent_from_persistent rfc3339 p =
     and_then (parse_side ''persisted intent side is invalid'' (pti_side p)) (\<lambda>s.
     and_then (decimal_field ''persisted intent quantity'' (pti_quantity p)) (\<lambda>quantity.
     and_then (parse_order_type ''persisted intent order type is invalid'' (pti_order_type p)) (\<lambda>t.
     and_then (try_option (decimal_field ''persisted intent limit price'') (pti_limit_price p)) (\<lambda>price.
     and_then (parse_time_in_force ''persisted intent time in force is invalid'' (pti_time_in_force p)) (\<lambda>tif.
     let i = \<lparr>oi_intent_id = pti_intent_id p, oi_account_id = pti_account_id p, oi_strategy_id = pti_strategy_id p,
              oi_instrument_id = pti_instrument_id p, oi_correlation_id = pti_correlation_id p, oi_side = s,
              oi_quantity = quantity, oi_order_type = t, oi_limit_price = price, oi_time_in_force = tif,
              oi_rationale = pti_rationale p, oi_created_at = pti_created_at p,
              oi_strategy_version = pti_strategy_version p,
              oi_configuration_version = pti_configuration_version p, oi_environment = pti_environment p\<rparr>
     in and_then (order_intent_validate rfc3339 i) (\<lambda>_. Ok i))))))"

record persistent_market =
  ptm_instrument_id :: string
  ptm_mark_price :: string
  ptm_observed_at :: string

definition persistent_market_from :: "paper_market_data \<Rightarrow> persistent_market" where
  "persistent_market_from m = \<lparr>ptm_instrument_id = pm_instrument_id m,
     ptm_mark_price = decimal_to_string (pm_mark_price m), ptm_observed_at = pm_observed_at m\<rparr>"

definition market_from_persistent :: "(string \<Rightarrow> bool) \<Rightarrow> persistent_market \<Rightarrow> paper_market_data result" where
  "market_from_persistent rfc3339 p =
     and_then (decimal_field ''persisted market mark price'' (ptm_mark_price p)) (\<lambda>price.
     let m = \<lparr>pm_instrument_id = ptm_instrument_id p, pm_mark_price = price, pm_observed_at = ptm_observed_at p\<rparr>
     in and_then (paper_market_validate rfc3339 m) (\<lambda>_. Ok m))"

record persistent_combo_leg =
  ptl_instrument_id :: string
  ptl_side :: string
  ptl_ratio :: nat
  ptl_limit_price :: string

record persistent_combo_intent =
  ptc_intent_id :: string
  ptc_account_id :: string
  ptc_strategy_id :: string
  ptc_correlation_id :: string
  ptc_legs :: "persistent_combo_leg list"
  ptc_combo_quantity :: string
  ptc_price_limit_kind :: string
  ptc_price_limit_amount :: string
  ptc_time_in_force :: string
  ptc_rationale :: string
  ptc_created_at :: string
  ptc_strategy_version :: string
  ptc_configuration_version :: string
  ptc_environment :: string

definition persistent_leg_from :: "combo_leg \<Rightarrow> persistent_combo_leg" where
  "persistent_leg_from l = \<lparr>ptl_instrument_id = cl_instrument_id l, ptl_side = side_as_str (cl_side l),
     ptl_ratio = cl_ratio l, ptl_limit_price = decimal_to_string (cl_limit_price l)\<rparr>"

definition persistent_combo_intent_from :: "combo_intent \<Rightarrow> persistent_combo_intent" where
  "persistent_combo_intent_from c =
     \<lparr>ptc_intent_id = co_intent_id c, ptc_account_id = co_account_id c, ptc_strategy_id = co_strategy_id c,
      ptc_correlation_id = co_correlation_id c, ptc_legs = map persistent_leg_from (co_legs c),
      ptc_combo_quantity = decimal_to_string (co_combo_quantity c),
      ptc_price_limit_kind = combo_limit_kind (co_price_limit c),
      ptc_price_limit_amount = decimal_to_string (combo_limit_amount (co_price_limit c)),
      ptc_time_in_force = time_in_force_as_str (co_time_in_force c), ptc_rationale = co_rationale c,
      ptc_created_at = co_created_at c, ptc_strategy_version = co_strategy_version c,
      ptc_configuration_version = co_configuration_version c, ptc_environment = co_environment c\<rparr>"

definition leg_from_persistent :: "persistent_combo_leg \<Rightarrow> combo_leg result" where
  "leg_from_persistent l =
     and_then (parse_side ''persisted combo leg side is invalid'' (ptl_side l)) (\<lambda>s.
     and_then (decimal_field ''persisted combo leg limit price'' (ptl_limit_price l)) (\<lambda>price.
     Ok \<lparr>cl_instrument_id = ptl_instrument_id l, cl_side = s, cl_ratio = ptl_ratio l, cl_limit_price = price\<rparr>))"

definition parse_price_limit :: "string \<Rightarrow> decimal \<Rightarrow> combo_price_limit result" where
  "parse_price_limit kind amount =
     (if kind = ''MAXIMUM_DEBIT'' then Ok (MaximumDebit amount)
      else if kind = ''MINIMUM_CREDIT'' then Ok (MinimumCredit amount)
      else Err ''persisted combo price limit kind is invalid'')"

definition combo_intent_from_persistent :: "(string \<Rightarrow> bool) \<Rightarrow> persistent_combo_intent \<Rightarrow> combo_intent result" where
  "combo_intent_from_persistent rfc3339 p =
     and_then (decimal_field ''persisted combo price limit'' (ptc_price_limit_amount p)) (\<lambda>amount.
     and_then (try_map leg_from_persistent (ptc_legs p)) (\<lambda>legs.
     and_then (decimal_field ''persisted combo quantity'' (ptc_combo_quantity p)) (\<lambda>quantity.
     and_then (parse_price_limit (ptc_price_limit_kind p) amount) (\<lambda>limit.
     and_then (parse_time_in_force ''persisted combo time in force is invalid'' (ptc_time_in_force p)) (\<lambda>tif.
     let c = \<lparr>co_intent_id = ptc_intent_id p, co_account_id = ptc_account_id p, co_strategy_id = ptc_strategy_id p,
              co_correlation_id = ptc_correlation_id p, co_legs = legs, co_combo_quantity = quantity,
              co_price_limit = limit, co_time_in_force = tif, co_rationale = ptc_rationale p,
              co_created_at = ptc_created_at p, co_strategy_version = ptc_strategy_version p,
              co_configuration_version = ptc_configuration_version p, co_environment = ptc_environment p\<rparr>
     in and_then (combo_intent_validate rfc3339 c) (\<lambda>_. Ok c))))))"

definition combo_market_from_persisted :: "(string \<Rightarrow> bool) \<Rightarrow> persistent_market list \<Rightarrow> paper_combo_market_data result" where
  "combo_market_from_persisted rfc3339 ms = try_map (market_from_persistent rfc3339) ms"

section \<open>Risk evidence\<close>

record persistent_decision =
  ptd_approved :: bool
  ptd_reason_codes :: "string list"
  ptd_policy_version :: string
  ptd_decided_at :: string
  ptd_correlation_id :: string
  ptd_actor :: string
  ptd_evaluated_limits :: string

record persistent_risk_evidence = persistent_decision +
  pte_intent :: persistent_intent
  pte_market :: persistent_market
  pte_submitted_by :: "string option"

record persistent_combo_risk_evidence = persistent_decision +
  ptce_intent :: persistent_combo_intent
  ptce_market :: "persistent_market list"
  ptce_submitted_by :: "string option"

definition persistent_risk_evidence_from :: "paper_risk_evidence \<Rightarrow> persistent_risk_evidence" where
  "persistent_risk_evidence_from e = (let d = pre_decision e in
     \<lparr>ptd_approved = rd_approved d, ptd_reason_codes = rd_reason_codes d, ptd_policy_version = rd_policy_version d,
      ptd_decided_at = rd_decided_at d, ptd_correlation_id = rd_correlation_id d, ptd_actor = rd_actor d,
      ptd_evaluated_limits = rd_evaluated_limits d, pte_intent = persistent_intent_from (pre_intent e),
      pte_market = persistent_market_from (pre_market e), pte_submitted_by = pre_submitted_by e\<rparr>)"

definition decision_from_persistent :: "string \<Rightarrow> string \<Rightarrow> 'z persistent_decision_scheme \<Rightarrow> risk_decision" where
  "decision_from_persistent decision_id intent_id p =
     \<lparr>rd_decision_id = decision_id, rd_intent_id = intent_id, rd_approved = ptd_approved p,
      rd_reason_codes = ptd_reason_codes p, rd_policy_version = ptd_policy_version p,
      rd_decided_at = ptd_decided_at p, rd_correlation_id = ptd_correlation_id p, rd_actor = ptd_actor p,
      rd_evaluated_limits = ptd_evaluated_limits p\<rparr>"

definition validate_submitter :: "string \<Rightarrow> string option \<Rightarrow> unit result" where
  "validate_submitter name v = (case v of None \<Rightarrow> Ok () | Some x \<Rightarrow> validate_canonical_id name x)"

definition risk_evidence_from_persistent ::
    "(string \<Rightarrow> bool) \<Rightarrow> persistent_risk_evidence \<Rightarrow> paper_risk_evidence result" where
  "risk_evidence_from_persistent rfc3339 p =
     and_then (intent_from_persistent rfc3339 (pte_intent p)) (\<lambda>i.
     and_then (validate_canonical_id ''persisted risk correlation_id'' (ptd_correlation_id p)) (\<lambda>_.
     and_then (validate_utc_timestamp rfc3339 ''persisted risk decided_at'' (ptd_decided_at p)) (\<lambda>_.
     if ptd_reason_codes p = [] \<or> [] \<in> set (ptd_reason_codes p) \<or> ptd_policy_version p = []
        \<or> ptd_actor p = [] \<or> ptd_evaluated_limits p = []
     then Err ''persisted risk evidence is invalid''
     else if ptd_correlation_id p \<noteq> oi_correlation_id i
     then Err ''persisted risk correlation does not match its intent''
     else and_then (validate_submitter ''persisted paper order submitted_by'' (pte_submitted_by p)) (\<lambda>_.
       and_then (market_from_persistent rfc3339 (pte_market p)) (\<lambda>m.
       Ok \<lparr>pre_intent = i,
           pre_decision = decision_from_persistent (''paper-risk-'' @ oi_intent_id i) (oi_intent_id i) p,
           pre_market = m, pre_submitted_by = pte_submitted_by p\<rparr>)))))"

definition persistent_combo_risk_evidence_from :: "paper_combo_risk_evidence \<Rightarrow> persistent_combo_risk_evidence" where
  "persistent_combo_risk_evidence_from e = (let d = pce_decision e in
     \<lparr>ptd_approved = rd_approved d, ptd_reason_codes = rd_reason_codes d, ptd_policy_version = rd_policy_version d,
      ptd_decided_at = rd_decided_at d, ptd_correlation_id = rd_correlation_id d, ptd_actor = rd_actor d,
      ptd_evaluated_limits = rd_evaluated_limits d, ptce_intent = persistent_combo_intent_from (pce_intent e),
      ptce_market = map persistent_market_from (pce_market e), ptce_submitted_by = pce_submitted_by e\<rparr>)"

definition combo_risk_evidence_from_persistent ::
    "(string \<Rightarrow> bool) \<Rightarrow> persistent_combo_risk_evidence \<Rightarrow> paper_combo_risk_evidence result" where
  "combo_risk_evidence_from_persistent rfc3339 p =
     and_then (combo_intent_from_persistent rfc3339 (ptce_intent p)) (\<lambda>c.
     and_then (combo_market_from_persisted rfc3339 (ptce_market p)) (\<lambda>marks.
     and_then (validate_submitter ''persisted paper combo submitted_by'' (ptce_submitted_by p)) (\<lambda>_.
     Ok \<lparr>pce_intent = c,
         pce_decision = decision_from_persistent (''paper-combo-risk-'' @ co_intent_id c) (co_intent_id c) p,
         pce_market = marks, pce_submitted_by = ptce_submitted_by p\<rparr>)))"

section \<open>Orders\<close>

record persistent_order =
  pto_intent :: persistent_intent
  pto_state :: string
  pto_broker_order_id :: "string option"
  pto_broker_order_versions :: "string list"
  pto_replace_return_state :: "string option"
  pto_filled_quantity :: string
  pto_market :: persistent_market

definition persistent_order_from :: "paper_order \<Rightarrow> persistent_order" where
  "persistent_order_from o1 =
     \<lparr>pto_intent = persistent_intent_from (oo_intent (por_oms o1)), pto_state = order_state_as_str (por_state o1),
      pto_broker_order_id = por_broker_order_id o1, pto_broker_order_versions = por_broker_order_versions o1,
      pto_replace_return_state = map_option order_state_as_str (por_replace_return_state o1),
      pto_filled_quantity = decimal_to_string (por_filled_quantity o1),
      pto_market = persistent_market_from (por_market o1)\<rparr>"

text \<open>A journal written before versions were kept has the current identity only.\<close>

definition restored_versions :: "string option \<Rightarrow> string list \<Rightarrow> string list" where
  "restored_versions current versions = (case current of None \<Rightarrow> versions
     | Some v \<Rightarrow> if versions = [] then [v] else versions)"

definition check_version :: "string \<Rightarrow> string \<Rightarrow> string \<Rightarrow> string btree_set \<Rightarrow> string btree_set result" where
  "check_version name duplicated v seen =
     and_then (validate_canonical_id name v) (\<lambda>_.
     if bs_contains v seen then Err duplicated else Ok (bs_insert v seen))"

definition current_known :: "string \<Rightarrow> string option \<Rightarrow> string btree_set \<Rightarrow> unit result" where
  "current_known absent current seen = (case current of None \<Rightarrow> Ok ()
     | Some v \<Rightarrow> if bs_contains v seen then Ok () else Err absent)"

definition restore_order :: "(string \<Rightarrow> bool) \<Rightarrow> string \<Rightarrow> string \<Rightarrow> persistent_order \<Rightarrow> paper_order result" where
  "restore_order rfc3339 account_id order_id p =
     and_then (intent_from_persistent rfc3339 (pto_intent p)) (\<lambda>i.
     if oi_account_id i \<noteq> account_id \<or> oi_environment i \<noteq> ''PAPER''
     then Err ''persisted paper order has an incompatible account or environment''
     else and_then (validate_submitter ''persisted broker_order_id'' (pto_broker_order_id p)) (\<lambda>_.
       let versions = restored_versions (pto_broker_order_id p) (pto_broker_order_versions p) in
       and_then (try_fold (check_version ''persisted broker_order_version''
         ''persisted broker order versions are duplicated'') versions []) (\<lambda>seen.
       and_then (current_known ''persisted active broker ID is absent from versions'' (pto_broker_order_id p) seen) (\<lambda>_.
       and_then (decimal_field ''persisted filled quantity'' (pto_filled_quantity p)) (\<lambda>filled.
       if filled < ZERO \<or> filled > oi_quantity i then Err ''persisted filled quantity is invalid''
       else and_then (market_from_persistent rfc3339 (pto_market p)) (\<lambda>m.
         if pm_instrument_id m \<noteq> oi_instrument_id i
         then Err ''persisted paper market observation does not match intent instrument''
         else and_then (parse_order_state (pto_state p)) (\<lambda>s.
           and_then (oms_recover rfc3339 order_id i s) (\<lambda>oms.
           and_then (try_option parse_order_state (pto_replace_return_state p)) (\<lambda>return_state.
           if oo_state oms = PendingReplace \<and> return_state = None
           then Err ''persisted pending replacement has no return state''
           else Ok \<lparr>por_oms = oms, por_broker_order_id = pto_broker_order_id p, por_broker_order_versions = versions,
                    por_replace_return_state = return_state, por_filled_quantity = filled, por_market = m\<rparr>)))))))))"

section \<open>Combinations and their receipts\<close>

record persistent_execution_leg =
  pxl_execution_id :: string
  pxl_instrument_id :: string
  pxl_side :: string
  pxl_quantity :: string
  pxl_price :: string
  pxl_fee :: string
  pxl_executed_at :: string

record persistent_execution =
  pxe_execution_id :: string
  pxe_client_order_id :: string
  pxe_broker_order_id :: string
  pxe_units :: string
  pxe_legs :: "persistent_execution_leg list"

record persistent_execution_state =
  pxs_schema_version :: nat
  pxs_filled_quantity :: string
  pxs_executions :: "persistent_execution list"
  pxs_evidence_error :: "string option"

definition execution_leg_text :: "combo_execution_leg \<Rightarrow> persistent_execution_leg" where
  "execution_leg_text l =
     \<lparr>pxl_execution_id = cel_execution_id l, pxl_instrument_id = cel_instrument_id l,
      pxl_side = side_as_str (cel_side l), pxl_quantity = decimal_to_string (cel_quantity l),
      pxl_price = decimal_to_string (cel_price l), pxl_fee = decimal_to_string (cel_fee l),
      pxl_executed_at = cel_executed_at l\<rparr>"

definition execution_text :: "combo_execution \<Rightarrow> persistent_execution" where
  "execution_text e =
     \<lparr>pxe_execution_id = ce_execution_id e, pxe_client_order_id = ce_client_order_id e,
      pxe_broker_order_id = ce_broker_order_id e, pxe_units = decimal_to_string (ce_units e),
      pxe_legs = map execution_leg_text (ce_legs e)\<rparr>"

text \<open>Nothing is kept of an order while it has no receipt and no anomaly.\<close>

definition combo_execution_state :: "paper_combo_order \<Rightarrow> persistent_execution_state option" where
  "combo_execution_state c =
     (if pco_executions c = [] \<and> pco_evidence_error c = None then None
      else Some \<lparr>pxs_schema_version = 1, pxs_filled_quantity = decimal_to_string (pco_filled_quantity c),
        pxs_executions = map (\<lambda>(_, e). execution_text e) (pco_executions c),
        pxs_evidence_error = pco_evidence_error c\<rparr>)"

definition execution_leg_from_text :: "persistent_execution_leg \<Rightarrow> combo_execution_leg result" where
  "execution_leg_from_text l =
     and_then (parse_side ''invalid persisted combo side'' (pxl_side l)) (\<lambda>s.
     and_then (decimal_field ''leg quantity'' (pxl_quantity l)) (\<lambda>quantity.
     and_then (decimal_field ''leg price'' (pxl_price l)) (\<lambda>price.
     and_then (decimal_field ''leg fee'' (pxl_fee l)) (\<lambda>fee.
     Ok \<lparr>cel_execution_id = pxl_execution_id l, cel_instrument_id = pxl_instrument_id l, cel_side = s,
         cel_quantity = quantity, cel_price = price, cel_fee = fee, cel_executed_at = pxl_executed_at l\<rparr>))))"

definition execution_from_text :: "persistent_execution \<Rightarrow> combo_execution result" where
  "execution_from_text e =
     and_then (decimal_field ''combo units'' (pxe_units e)) (\<lambda>units.
     and_then (try_map execution_leg_from_text (pxe_legs e)) (\<lambda>legs.
     Ok \<lparr>ce_execution_id = pxe_execution_id e, ce_client_order_id = pxe_client_order_id e,
         ce_broker_order_id = pxe_broker_order_id e, ce_units = units, ce_legs = legs\<rparr>))"

text \<open>One receipt of the journal: consistent, and its identities not seen before.\<close>

definition restore_execution :: "(string \<Rightarrow> bool) \<Rightarrow> paper_combo_order \<Rightarrow> persistent_execution
    \<Rightarrow> decimal \<times> string list \<times> (string, combo_execution) btree_map
    \<Rightarrow> (decimal \<times> string list \<times> (string, combo_execution) btree_map) result" where
  "restore_execution rfc3339 c p st = (case st of (tot, ids, executions) \<Rightarrow>
     and_then (execution_from_text p) (\<lambda>e.
     and_then (combo_execution_validate rfc3339 e (pco_intent c)) (\<lambda>_.
     if ce_client_order_id e \<noteq> ooc_order_id (pco_oms c)
        \<or> ce_broker_order_id e \<notin> set (pco_broker_order_versions c)
        \<or> \<not> distinct (receipt_ids e) \<or> set (receipt_ids e) \<inter> set ids \<noteq> {}
     then Err ''inconsistent persisted combination execution identity''
     else and_then (checked_add tot (ce_units e)) (\<lambda>tot'.
       Ok (tot', receipt_ids e @ ids, bt_insert (ce_execution_id e) e executions)))))"

text \<open>The closing test of \<^verbatim>\<open>restore_executions\<close>.\<close>

definition combo_lifecycle_disagrees :: "paper_combo_order \<Rightarrow> bool" where
  "combo_lifecycle_disagrees c \<longleftrightarrow>
     (let filled = pco_filled_quantity c; requested = co_combo_quantity (pco_intent c); s = pco_state c in
      filled < ZERO \<or> filled > requested
      \<or> s = Filled \<and> filled \<noteq> requested
      \<or> s = PartiallyFilled \<and> (filled = ZERO \<or> filled = requested)
      \<or> s \<in> {Cancelled, Rejected, Expired} \<and> filled = requested)"

definition restore_executions ::
    "(string \<Rightarrow> bool) \<Rightarrow> persistent_execution_state option \<Rightarrow> paper_combo_order \<Rightarrow> paper_combo_order result" where
  "restore_executions rfc3339 state c =
     and_then (case state of None \<Rightarrow> Ok c
       | Some p \<Rightarrow>
           if pxs_schema_version p \<noteq> 1 then Err ''unsupported combination execution journal version''
           else and_then (decimal_field ''combo filled units'' (pxs_filled_quantity p)) (\<lambda>filled.
             and_then (case pxs_evidence_error p of None \<Rightarrow> Ok ()
               | Some message \<Rightarrow> validate_broker_reason ''combo evidence error'' message) (\<lambda>_.
             and_then (try_fold (restore_execution rfc3339 c) (pxs_executions p) (ZERO, [], pco_executions c))
               (\<lambda>(tot, _, receipts).
             if tot \<noteq> filled then Err ''persisted combination units do not match receipts''
             else Ok (c\<lparr>pco_filled_quantity := filled, pco_evidence_error := pxs_evidence_error p,
               pco_executions := receipts\<rparr>))))) (\<lambda>c'.
     if combo_lifecycle_disagrees c' then Err ''persisted combination lifecycle disagrees with filled units''
     else Ok c')"

record persistent_combo_order =
  ptco_intent :: persistent_combo_intent
  ptco_state :: string
  ptco_broker_order_id :: "string option"
  ptco_broker_order_versions :: "string list"
  ptco_market :: "persistent_market list"
  ptco_execution_state :: "persistent_execution_state option"

definition persistent_combo_order_from :: "paper_combo_order \<Rightarrow> persistent_combo_order" where
  "persistent_combo_order_from c =
     \<lparr>ptco_intent = persistent_combo_intent_from (pco_intent c), ptco_state = order_state_as_str (pco_state c),
      ptco_broker_order_id = pco_broker_order_id c, ptco_broker_order_versions = pco_broker_order_versions c,
      ptco_market = map persistent_market_from (pco_market c), ptco_execution_state = combo_execution_state c\<rparr>"

definition restore_combo_order ::
    "(string \<Rightarrow> bool) \<Rightarrow> string \<Rightarrow> string \<Rightarrow> persistent_combo_order \<Rightarrow> paper_combo_order result" where
  "restore_combo_order rfc3339 account_id order_id p =
     and_then (combo_intent_from_persistent rfc3339 (ptco_intent p)) (\<lambda>i.
     if co_account_id i \<noteq> account_id \<or> co_environment i \<noteq> ''PAPER''
     then Err ''persisted paper combination has an incompatible account or environment''
     else and_then (validate_submitter ''persisted combo broker_order_id'' (ptco_broker_order_id p)) (\<lambda>_.
       let versions = restored_versions (ptco_broker_order_id p) (ptco_broker_order_versions p) in
       and_then (try_fold (check_version ''persisted combo broker_order_version''
         ''persisted combination broker order versions are duplicated'') versions []) (\<lambda>seen.
       and_then (current_known ''persisted active combination broker ID is absent from versions''
         (ptco_broker_order_id p) seen) (\<lambda>_.
       and_then (combo_market_from_persisted rfc3339 (ptco_market p)) (\<lambda>marks.
       and_then (combo_market_validate_for rfc3339 i marks) (\<lambda>_.
       and_then (parse_order_state (ptco_state p)) (\<lambda>s.
       and_then (oms_combo_recover rfc3339 order_id i s) (\<lambda>oms.
       restore_executions rfc3339 (ptco_execution_state p)
         \<lparr>pco_oms = oms, pco_broker_order_id = ptco_broker_order_id p, pco_broker_order_versions = versions,
          pco_market = marks, pco_filled_quantity = ZERO, pco_executions = [], pco_evidence_error = None\<rparr>))))))))"

section \<open>What was written is read\<close>

definition printable :: "decimal \<Rightarrow> bool" where
  "printable d \<longleftrightarrow> dec_ok d \<and> scaled d \<noteq> - (2 ^ 127)"

lemma decimal_field_printed [simp]: "printable d \<Longrightarrow> decimal_field name (decimal_to_string d) = Ok d"
  by (simp add: decimal_field_def printable_def decimal_text_roundtrip)

lemma printable_between:
  "scaled a \<le> scaled d \<Longrightarrow> scaled d \<le> scaled b \<Longrightarrow> printable a \<Longrightarrow> printable b \<Longrightarrow> printable d"
  by (auto simp: printable_def dec_ok_def in_i128_def)

lemma printable_ZERO [simp]: "printable ZERO"
  by (simp add: printable_def dec_ok_def)

lemma parse_names [simp]:
  "parse_side m (side_as_str s) = Ok s" "parse_order_type m (order_type_as_str ot) = Ok ot"
  "parse_time_in_force m (time_in_force_as_str tif) = Ok tif"
  "parse_price_limit (combo_limit_kind l) (combo_limit_amount l) = Ok l"
  by ((cases s; simp add: parse_side_def), (cases ot; simp add: parse_order_type_def),
    (cases tif; simp add: parse_time_in_force_def), (cases l; simp add: parse_price_limit_def))

lemma parse_order_state_name [simp]: "parse_order_state (order_state_as_str s) = Ok s"
  by (cases s) (simp_all add: parse_order_state_def all_order_states_def)

lemma try_option_printed [simp]:
  "(\<And>v. x = Some v \<Longrightarrow> f (g v) = Ok v) \<Longrightarrow> try_option f (map_option g x) = Ok x"
  by (cases x) (simp_all add: try_option_def)

lemma try_map_printed: "(\<And>x. x \<in> set xs \<Longrightarrow> f (g x) = Inr x) \<Longrightarrow> try_map f (map g xs) = Inr xs"
  by (induction xs) simp_all

definition intent_printable :: "order_intent \<Rightarrow> bool" where
  "intent_printable i \<longleftrightarrow> printable (oi_quantity i) \<and> (\<forall>p. oi_limit_price i = Some p \<longrightarrow> printable p)"

lemma intent_roundtrip [simp]:
  assumes "order_intent_validate rfc i = Ok ()" "intent_printable i"
  shows "intent_from_persistent rfc (persistent_intent_from i) = Ok i"
  using assms by (cases i) (simp add: intent_from_persistent_def persistent_intent_from_def intent_printable_def Let_def)

lemma market_roundtrip [simp]:
  "paper_market_validate rfc m = Ok () \<Longrightarrow> printable (pm_mark_price m) \<Longrightarrow>
    market_from_persistent rfc (persistent_market_from m) = Ok m"
  by (cases m) (simp add: market_from_persistent_def persistent_market_from_def Let_def)

definition combo_printable :: "combo_intent \<Rightarrow> bool" where
  "combo_printable c \<longleftrightarrow> printable (co_combo_quantity c) \<and> printable (combo_limit_amount (co_price_limit c))
     \<and> (\<forall>l\<in>set (co_legs c). printable (cl_limit_price l))"

lemma leg_roundtrip: "printable (cl_limit_price l) \<Longrightarrow> leg_from_persistent (persistent_leg_from l) = Ok l"
  by (cases l) (simp add: leg_from_persistent_def persistent_leg_from_def)

lemma combo_intent_roundtrip [simp]:
  assumes "combo_intent_validate rfc c = Ok ()" "combo_printable c"
  shows "combo_intent_from_persistent rfc (persistent_combo_intent_from c) = Ok c"
proof -
  have "try_map leg_from_persistent (map persistent_leg_from (co_legs c)) = Ok (co_legs c)"
    using assms(2) by (intro try_map_printed leg_roundtrip) (simp add: combo_printable_def)
  with assms show ?thesis
    by (cases c) (simp add: combo_intent_from_persistent_def persistent_combo_intent_from_def combo_printable_def Let_def)
qed

definition marks_ok :: "(string \<Rightarrow> bool) \<Rightarrow> paper_combo_market_data \<Rightarrow> bool" where
  "marks_ok rfc3339 ms \<longleftrightarrow> (\<forall>m\<in>set ms. paper_market_validate rfc3339 m = Ok () \<and> printable (pm_mark_price m))"

lemma combo_market_roundtrip [simp]:
  "marks_ok rfc ms \<Longrightarrow> combo_market_from_persisted rfc (map persistent_market_from ms) = Ok ms"
  unfolding combo_market_from_persisted_def marks_ok_def by (intro try_map_printed market_roundtrip) simp_all

section \<open>Risk evidence read back\<close>

definition submitter_ok :: "string option \<Rightarrow> bool" where
  "submitter_ok v \<longleftrightarrow> (\<forall>x. v = Some x \<longrightarrow> canonical_id x)"

lemma validate_submitter_eq_Ok [result_simps]: "validate_submitter name v = Inr u \<longleftrightarrow> submitter_ok v"
  by (cases v) (simp_all add: validate_submitter_def submitter_ok_def result_simps)

text \<open>What the pre-trade gate always writes.\<close>

definition evidence_ok :: "(string \<Rightarrow> bool) \<Rightarrow> paper_risk_evidence \<Rightarrow> bool" where
  "evidence_ok rfc3339 e \<longleftrightarrow> order_intent_validate rfc3339 (pre_intent e) = Ok () \<and> intent_printable (pre_intent e)
     \<and> paper_market_validate rfc3339 (pre_market e) = Ok () \<and> printable (pm_mark_price (pre_market e))
     \<and> submitter_ok (pre_submitted_by e)
     \<and> (let d = pre_decision e; i = pre_intent e in
        rd_decision_id d = ''paper-risk-'' @ oi_intent_id i \<and> rd_intent_id d = oi_intent_id i
        \<and> rd_correlation_id d = oi_correlation_id i \<and> canonical_shape (rd_decided_at d) \<and> rfc3339 (rd_decided_at d)
        \<and> rd_reason_codes d \<noteq> [] \<and> [] \<notin> set (rd_reason_codes d) \<and> rd_policy_version d \<noteq> [] \<and> rd_actor d \<noteq> []
        \<and> rd_evaluated_limits d \<noteq> [])"

lemma evidence_roundtrip:
  assumes "evidence_ok rfc e"
  shows "risk_evidence_from_persistent rfc (persistent_risk_evidence_from e) = Ok e"
proof -
  have checks: "validate_canonical_id ''persisted risk correlation_id'' (rd_correlation_id (pre_decision e)) = Ok ()"
    "validate_utc_timestamp rfc ''persisted risk decided_at'' (rd_decided_at (pre_decision e)) = Ok ()"
    "validate_submitter ''persisted paper order submitted_by'' (pre_submitted_by e) = Ok ()"
    using assms by (auto simp: evidence_ok_def result_simps Let_def)
  have "decision_from_persistent (''paper-risk-'' @ oi_intent_id (pre_intent e)) (oi_intent_id (pre_intent e))
      (persistent_risk_evidence_from e) = pre_decision e"
    using assms by (cases "pre_decision e")
      (simp add: evidence_ok_def decision_from_persistent_def persistent_risk_evidence_from_def Let_def)
  with assms checks show ?thesis
    by (simp add: evidence_ok_def risk_evidence_from_persistent_def persistent_risk_evidence_from_def Let_def)
qed

definition combo_evidence_ok :: "(string \<Rightarrow> bool) \<Rightarrow> paper_combo_risk_evidence \<Rightarrow> bool" where
  "combo_evidence_ok rfc3339 e \<longleftrightarrow> combo_intent_validate rfc3339 (pce_intent e) = Ok () \<and> combo_printable (pce_intent e)
     \<and> marks_ok rfc3339 (pce_market e) \<and> submitter_ok (pce_submitted_by e)
     \<and> rd_decision_id (pce_decision e) = ''paper-combo-risk-'' @ co_intent_id (pce_intent e)
     \<and> rd_intent_id (pce_decision e) = co_intent_id (pce_intent e)"

lemma combo_evidence_roundtrip:
  assumes "combo_evidence_ok rfc e"
  shows "combo_risk_evidence_from_persistent rfc (persistent_combo_risk_evidence_from e) = Ok e"
proof -
  have "validate_submitter ''persisted paper combo submitted_by'' (pce_submitted_by e) = Ok ()"
    using assms by (simp add: combo_evidence_ok_def result_simps)
  with assms show ?thesis
    by (cases e; cases "pce_decision e")
      (simp add: combo_evidence_ok_def combo_risk_evidence_from_persistent_def persistent_combo_risk_evidence_from_def
        Let_def decision_from_persistent_def)
qed

section \<open>Orders read back\<close>

definition versions_ok :: "string option \<Rightarrow> string list \<Rightarrow> bool" where
  "versions_ok current versions \<longleftrightarrow> (\<forall>v\<in>set versions. canonical_id v) \<and> distinct versions
     \<and> (\<forall>v. current = Some v \<longrightarrow> v \<in> set versions)"

lemma check_versions_Ok:
  assumes "\<forall>v\<in>set vs. canonical_id v" "distinct vs" "set vs \<inter> set seen = {}"
  shows "\<exists>seen'. try_fold (check_version name duplicated) vs seen = Ok seen' \<and> set seen' = set vs \<union> set seen"
  using assms
proof (induction vs arbitrary: seen)
  case (Cons v vs)
  then have "check_version name duplicated v seen = Ok (bs_insert v seen)"
    by (simp add: check_version_def bs_contains_def and_then_eq_Inr result_simps)
  moreover obtain seen' where "try_fold (check_version name duplicated) vs (bs_insert v seen) = Ok seen'"
    "set seen' = set vs \<union> set (bs_insert v seen)" using Cons.IH [of "bs_insert v seen"] Cons.prems by auto
  ultimately show ?case by auto
qed simp

lemma restored_versions_ok:
  assumes "versions_ok current vs"
  shows "restored_versions current vs = vs" "validate_submitter name current = Ok ()"
    "\<exists>seen. try_fold (check_version name2 duplicated) vs [] = Ok seen \<and> current_known absent current seen = Ok ()"
proof -
  show "restored_versions current vs = vs"
    using assms by (auto simp: versions_ok_def restored_versions_def split: option.splits)
  show "validate_submitter name current = Ok ()"
    using assms by (auto simp: versions_ok_def submitter_ok_def result_simps)
  obtain seen where "try_fold (check_version name2 duplicated) vs [] = Ok seen" "set seen = set vs"
    using check_versions_Ok [of vs "[]" name2 duplicated] assms by (auto simp: versions_ok_def)
  moreover from this(2) have "current_known absent current seen = Ok ()"
    using assms by (auto simp: versions_ok_def current_known_def bs_contains_def split: option.splits)
  ultimately show "\<exists>seen. try_fold (check_version name2 duplicated) vs [] = Ok seen
      \<and> current_known absent current seen = Ok ()" by blast
qed

text \<open>Of an order the journal holds: its intent was validated for this account, it was priced by a
  validated observation, its broker identities are canonical.\<close>

definition order_recorded :: "(string \<Rightarrow> bool) \<Rightarrow> string \<Rightarrow> string \<Rightarrow> paper_order \<Rightarrow> bool" where
  "order_recorded rfc3339 account_id order_id o1 \<longleftrightarrow> (let i = oo_intent (por_oms o1) in
     order_intent_validate rfc3339 i = Ok () \<and> intent_printable i \<and> oi_account_id i = account_id
     \<and> oi_environment i = ''PAPER'' \<and> paper_market_validate rfc3339 (por_market o1) = Ok ()
     \<and> printable (pm_mark_price (por_market o1)) \<and> pm_instrument_id (por_market o1) = oi_instrument_id i
     \<and> order_id = ''order-'' @ oi_intent_id i \<and> oo_order_id (por_oms o1) = order_id
     \<and> versions_ok (por_broker_order_id o1) (por_broker_order_versions o1))"

lemma canonical_id_prefix: "list_all is_id_byte p \<Longrightarrow> canonical_id s \<Longrightarrow> canonical_id (p @ s)"
  by (simp add: canonical_id_def)

lemma order_prefix_ok: "canonical_id s \<Longrightarrow> validate_canonical_id name (''order-'' @ s) = Ok ()"
  "canonical_id s \<Longrightarrow> validate_canonical_id name (''combo-order-'' @ s) = Ok ()"
  by (simp_all add: validate_canonical_id_eq_Ok canonical_id_def is_id_byte_def byte_simps)

lemma restore_order_roundtrip:
  assumes "order_ok o1" "order_recorded rfc account_id order_id o1"
  shows "restore_order rfc account_id order_id (persistent_order_from o1) = Ok o1"
proof -
  define i where "i = oo_intent (por_oms o1)"
  have r: "order_intent_validate rfc i = Ok ()" "intent_printable i" "oi_account_id i = account_id"
    "oi_environment i = ''PAPER''" "paper_market_validate rfc (por_market o1) = Ok ()"
    "printable (pm_mark_price (por_market o1))" "pm_instrument_id (por_market o1) = oi_instrument_id i"
    "order_id = ''order-'' @ oi_intent_id i" "oo_order_id (por_oms o1) = order_id"
    "versions_ok (por_broker_order_id o1) (por_broker_order_versions o1)"
    using assms(2) unfolding order_recorded_def Let_def i_def by - (elim conjE, assumption)+
  have filled: "0 \<le> scaled (por_filled_quantity o1)" "scaled (por_filled_quantity o1) \<le> scaled (oi_quantity i)"
    using assms(1) unfolding order_ok_def i_def by - (elim conjE, assumption)+
  then have "printable (por_filled_quantity o1)"
    using r(2) by - (rule printable_between [of ZERO _ "oi_quantity i"], simp_all add: intent_printable_def)
  moreover obtain seen where
    "try_fold (check_version ''persisted broker_order_version'' ''persisted broker order versions are duplicated'')
      (por_broker_order_versions o1) [] = Ok seen"
    "current_known ''persisted active broker ID is absent from versions'' (por_broker_order_id o1) seen = Ok ()"
    using restored_versions_ok(3) [OF r(10)] by blast
  moreover have "canonical_id (oi_intent_id i)" using r(1) by (simp add: result_simps)
  then have "oms_recover rfc order_id i (por_state o1) = Ok (por_oms o1)"
    using r(1,9) order_prefix_ok [of "oi_intent_id i"] by (cases "por_oms o1") (simp add: oms_recover_def r(8) i_def)
  moreover have "por_state o1 = PendingReplace \<longrightarrow> por_replace_return_state o1 \<noteq> None"
    using assms(1) unfolding order_ok_def by - (elim conjE, assumption)
  moreover have "\<not> por_filled_quantity o1 < ZERO" "\<not> por_filled_quantity o1 > oi_quantity i"
    using filled by (simp_all add: decimal_cmp)
  moreover have "por_state o1 = PendingReplace \<and> por_replace_return_state o1 = None \<longleftrightarrow> False"
    using assms(1) unfolding order_ok_def by blast
  ultimately show ?thesis
    unfolding restore_order_def persistent_order_from_def persistent_order.simps i_def [symmetric] Let_def
    by (simp add: r(1-7) restored_versions_ok(1,2) [OF r(10)])
qed

section \<open>Combinations read back\<close>

definition execution_printable :: "combo_execution \<Rightarrow> bool" where
  "execution_printable e \<longleftrightarrow> printable (ce_units e)
     \<and> (\<forall>l\<in>set (ce_legs e). printable (cel_quantity l) \<and> printable (cel_price l) \<and> printable (cel_fee l))"

lemma execution_roundtrip:
  assumes "execution_printable e"
  shows "execution_from_text (execution_text e) = Ok e"
proof -
  have "execution_leg_from_text (execution_leg_text l) = Ok l" if "l \<in> set (ce_legs e)" for l
    using assms that by (simp add: execution_printable_def execution_leg_from_text_def execution_leg_text_def)
  then have "try_map execution_leg_from_text (map execution_leg_text (ce_legs e)) = Ok (ce_legs e)"
    by (rule try_map_printed)
  with assms show ?thesis
    by (cases e) (simp add: execution_printable_def execution_from_text_def execution_text_def)
qed

lemma bt_insert_last: "\<forall>(k', v')\<in>set m. k' < k \<Longrightarrow> bt_insert k v m = m @ [(k, v)]"
  by (induction k v m rule: bt_insert.induct) auto

lemma receipts_okD:
  assumes "receipts_ok rfc i oid vs es filled"
  shows "bt_sorted es" "(\<Sum>(_, e)\<leftarrow>es. scaled (ce_units e)) = scaled filled"
    "(k, e) \<in> set es \<Longrightarrow> k = ce_execution_id e \<and> combo_execution_validate rfc e i = Ok ()
       \<and> ce_client_order_id e = oid \<and> ce_broker_order_id e \<in> set vs \<and> distinct (receipt_ids e)"
    "(k, e) \<in> set es \<Longrightarrow> (l, f) \<in> set es \<Longrightarrow> k \<noteq> l \<Longrightarrow> set (receipt_ids e) \<inter> set (receipt_ids f) = {}"
proof -
  note parts = assms [unfolded receipts_ok_def bt_sum_def]
  show "bt_sorted es" "(\<Sum>(_, e)\<leftarrow>es. scaled (ce_units e)) = scaled filled" using parts by blast+
  show "k = ce_execution_id e \<and> combo_execution_validate rfc e i = Ok () \<and> ce_client_order_id e = oid
      \<and> ce_broker_order_id e \<in> set vs \<and> distinct (receipt_ids e)" if "(k, e) \<in> set es"
    using bspec [OF conjunct1 [OF conjunct2 [OF parts]] that] by simp
  show "set (receipt_ids e) \<inter> set (receipt_ids f) = {}" if "(k, e) \<in> set es" "(l, f) \<in> set es" "k \<noteq> l"
    using bspec [OF conjunct1 [OF conjunct2 [OF conjunct2 [OF parts]]] that(1)] that(2,3) by auto
qed

text \<open>The receipts of an order, taken one after the other, in the order of their identities.\<close>

lemma restore_receipts:
  assumes "receipts_ok rfc i oid vs (before @ es) filled" "\<forall>(_, e)\<in>set es. execution_printable e"
    "scaled tot = (\<Sum>(_, e)\<leftarrow>before. scaled (ce_units e))" "dec_ok filled"
    "set ids = (\<Union>(_, e)\<in>set before. set (receipt_ids e))"
    "pco_intent c = i" "ooc_order_id (pco_oms c) = oid" "pco_broker_order_versions c = vs"
  shows "\<exists>ids'. try_fold (restore_execution rfc c) (map (\<lambda>(_, e). execution_text e) es) (tot, ids, before)
    = Ok (filled, ids', before @ es)"
  using assms(1-5)
proof (induction es arbitrary: before tot ids)
  case Nil
  then have "scaled tot = scaled filled" by (simp add: receipts_ok_def bt_sum_def case_prod_unfold)
  then have "tot = filled" by (cases tot; cases filled) simp
  then show ?case by simp
next
  case (Cons x es)
  obtain k e where x: "x = (k, e)" by (cases x)
  note all = receipts_okD [OF Cons.prems(1)]
  have here: "(k, e) \<in> set (before @ x # es)" by (simp add: x)
  note parts = all(3) [OF here]
  note units = all(2)
  have later: "\<forall>(l, f)\<in>set before. l < k"
    using all(1) by (auto simp: bt_sorted_def x sorted_wrt_append)
  then have "set (receipt_ids e) \<inter> set (receipt_ids f) = {}" if "(l, f) \<in> set before" for l f
    using all(4) [OF here, of l f] that by auto
  then have "set (receipt_ids e) \<inter> set ids = {}" unfolding Cons.prems(5) by auto
  moreover have pos: "0 < scaled (ce_units f)" if "(l, f) \<in> set (before @ x # es)" for l f
    using all(3) [OF that] execution_validate_Ok(1) by blast
  have le: "0 \<le> (\<Sum>(_, e)\<leftarrow>m. scaled (ce_units e))" if "set m \<subseteq> set (before @ x # es)" for m
    by (rule sum_list_nonneg) (use pos that in \<open>fastforce dest: less_imp_le\<close>)
  define tot' where "tot' = Decimal (scaled tot + scaled (ce_units e))"
  have "0 \<le> scaled tot" "0 \<le> (\<Sum>(_, e)\<leftarrow>es. scaled (ce_units e))" "0 < scaled (ce_units e)"
    using le [of before] le [of es] pos [of k e] Cons.prems(3) by (auto simp: x)
  then have "0 \<le> scaled tot + scaled (ce_units e)" "scaled tot + scaled (ce_units e) \<le> scaled filled"
    using units Cons.prems(3) by (simp_all add: x)
  then have "in_i128 (scaled tot + scaled (ce_units e))"
    using Cons.prems(4) in_i128_between [of 0 "scaled filled"] by (simp add: dec_ok_def)
  then have "checked_add tot (ce_units e) = Ok tot'" by (simp add: checked_add_eq_Ok tot'_def)
  moreover have "execution_from_text (execution_text e) = Ok e" using Cons.prems(2) by (simp add: x execution_roundtrip)
  ultimately have step: "restore_execution rfc c (execution_text e) (tot, ids, before) = Ok (tot', receipt_ids e @ ids, before @ [x])"
    using parts assms(6-8) bt_insert_last [OF later] by (simp add: restore_execution_def x)
  have "\<exists>ids'. try_fold (restore_execution rfc c) (map (\<lambda>(_, e). execution_text e) es) (tot', receipt_ids e @ ids, before @ [x])
    = Ok (filled, ids', (before @ [x]) @ es)"
    by (rule Cons.IH) (use Cons.prems in \<open>auto simp: x tot'_def\<close>)
  with step show ?case by (simp add: x)
qed

definition combo_recorded :: "(string \<Rightarrow> bool) \<Rightarrow> string \<Rightarrow> string \<Rightarrow> paper_combo_order \<Rightarrow> bool" where
  "combo_recorded rfc3339 account_id order_id c \<longleftrightarrow> (let i = pco_intent c in
     combo_intent_validate rfc3339 i = Ok () \<and> combo_printable i \<and> co_account_id i = account_id
     \<and> co_environment i = ''PAPER'' \<and> marks_ok rfc3339 (pco_market c)
     \<and> combo_market_validate_for rfc3339 i (pco_market c) = Ok ()
     \<and> order_id = combo_order_id_for (co_intent_id i) \<and> ooc_order_id (pco_oms c) = order_id
     \<and> versions_ok (pco_broker_order_id c) (pco_broker_order_versions c)
     \<and> (\<forall>(_, e)\<in>set (pco_executions c). execution_printable e)
     \<and> (\<forall>m. pco_evidence_error c = Some m \<longrightarrow> validate_broker_reason ''combo evidence error'' m = Ok ()))"

lemma combo_intent_id_canonical: "combo_intent_validate rfc c = Ok () \<Longrightarrow> canonical_id (co_intent_id c)"
  by (simp add: combo_intent_validate_def and_then_eq_Inr result_simps)

lemma lifecycle_agrees:
  assumes "combo_state_ok s filled requested err" "0 \<le> scaled filled" "scaled filled \<le> scaled requested"
  shows "\<not> (filled < ZERO \<or> filled > requested \<or> s = Filled \<and> filled \<noteq> requested
      \<or> s = PartiallyFilled \<and> (filled = ZERO \<or> filled = requested)
      \<or> s \<in> {Cancelled, Rejected, Expired} \<and> filled = requested)"
proof -
  have "\<not> filled < ZERO" "\<not> filled > requested" using assms(2,3) by (simp_all add: decimal_order)
  moreover have "filled = requested \<Longrightarrow> s = Filled \<or> s = Unknown" using assms(1) unfolding combo_state_ok_def by blast
  moreover have "s = Filled \<Longrightarrow> filled = requested" "s = PartiallyFilled \<Longrightarrow> filled \<noteq> ZERO"
    using assms(1) unfolding combo_state_ok_def by blast+
  ultimately show ?thesis by (cases s; cases "filled = requested") simp_all
qed

lemma combo_lifecycle_agrees: "combo_ok rfc c \<Longrightarrow> \<not> combo_lifecycle_disagrees c"
  unfolding combo_lifecycle_disagrees_def Let_def by (rule lifecycle_agrees) (unfold combo_ok_def, (elim conjE, assumption)+)

lemma restore_executions_roundtrip:
  assumes "combo_ok rfc c" "combo_recorded rfc account_id order_id c"
  shows "restore_executions rfc (combo_execution_state c)
    (c\<lparr>pco_filled_quantity := ZERO, pco_executions := [], pco_evidence_error := None\<rparr>) = Ok c"
proof -
  let ?c0 = "c\<lparr>pco_filled_quantity := ZERO, pco_executions := [], pco_evidence_error := None\<rparr>"
  have receipts: "receipts_ok rfc (pco_intent c) (ooc_order_id (pco_oms c)) (pco_broker_order_versions c)
      (pco_executions c) (pco_filled_quantity c)"
    using assms(1) unfolding combo_ok_def by (elim conjE)
  have filled: "0 \<le> scaled (pco_filled_quantity c)" "scaled (pco_filled_quantity c) \<le> scaled (co_combo_quantity (pco_intent c))"
    using assms(1) unfolding combo_ok_def by - (elim conjE, assumption)+
  have q: "printable (co_combo_quantity (pco_intent c))" using assms(2) by (simp add: combo_recorded_def combo_printable_def Let_def)
  have printable: "printable (pco_filled_quantity c)"
    by (rule printable_between [OF _ filled(2) _ q, of ZERO]) (use filled(1) in simp_all)
  have agrees: "\<not> combo_lifecycle_disagrees c" using assms(1) by (rule combo_lifecycle_agrees)
  show ?thesis
  proof (cases "pco_executions c = [] \<and> pco_evidence_error c = None")
    case True
    with receipts_okD(2) [OF receipts] have "scaled (pco_filled_quantity c) = 0" by simp
    then have "pco_filled_quantity c = ZERO" by (cases "pco_filled_quantity c") simp
    with True have "?c0 = c" by (cases c) simp
    with True agrees show ?thesis by (simp add: restore_executions_def combo_execution_state_def)
  next
    case False
    have reason: "(case pco_evidence_error c of None \<Rightarrow> Ok ()
        | Some message \<Rightarrow> validate_broker_reason ''combo evidence error'' message) = Ok ()"
      using assms(2) by (auto simp: combo_recorded_def Let_def split: option.splits)
    have es: "\<forall>(_, e)\<in>set (pco_executions c). execution_printable e"
      using assms(2) by (simp add: combo_recorded_def Let_def)
    obtain ids' where fold: "try_fold (restore_execution rfc ?c0) (map (\<lambda>(_, e). execution_text e) (pco_executions c)) (ZERO, [], [])
      = Ok (pco_filled_quantity c, ids', pco_executions c)"
      using restore_receipts [of rfc "pco_intent c" "ooc_order_id (pco_oms c)" "pco_broker_order_versions c" "[]"
          "pco_executions c" "pco_filled_quantity c" ZERO "[]" ?c0] receipts es printable
      by (auto simp: printable_def)
    show ?thesis
      unfolding restore_executions_def combo_execution_state_def if_not_P [OF False] using printable agrees
      by (simp add: reason fold)
  qed
qed

lemma restore_combo_roundtrip:
  assumes "combo_ok rfc c" "combo_recorded rfc account_id order_id c"
  shows "restore_combo_order rfc account_id order_id (persistent_combo_order_from c) = Ok c"
proof -
  define i where "i = pco_intent c"
  have r: "combo_intent_validate rfc i = Ok ()" "combo_printable i" "co_account_id i = account_id"
    "co_environment i = ''PAPER''" "marks_ok rfc (pco_market c)" "combo_market_validate_for rfc i (pco_market c) = Ok ()"
    "order_id = combo_order_id_for (co_intent_id i)" "ooc_order_id (pco_oms c) = order_id"
    "versions_ok (pco_broker_order_id c) (pco_broker_order_versions c)"
    using assms(2) unfolding combo_recorded_def Let_def i_def by - (elim conjE, assumption)+
  obtain seen where
    seen: "try_fold (check_version ''persisted combo broker_order_version''
       ''persisted combination broker order versions are duplicated'') (pco_broker_order_versions c) [] = Ok seen"
    "current_known ''persisted active combination broker ID is absent from versions'' (pco_broker_order_id c) seen = Ok ()"
    using restored_versions_ok(3) [OF r(9)] by blast
  have oms: "oms_combo_recover rfc order_id i (pco_state c) = Ok (pco_oms c)"
    using r(1,8) order_prefix_ok(2) [OF combo_intent_id_canonical [OF r(1)]]
    by (cases "pco_oms c") (simp add: oms_combo_recover_def r(7) combo_order_id_for_def i_def)
  have "\<lparr>pco_oms = pco_oms c, pco_broker_order_id = pco_broker_order_id c,
      pco_broker_order_versions = pco_broker_order_versions c, pco_market = pco_market c,
      pco_filled_quantity = ZERO, pco_executions = [], pco_evidence_error = None\<rparr>
    = c\<lparr>pco_filled_quantity := ZERO, pco_executions := [], pco_evidence_error := None\<rparr>" by simp
  from restore_executions_roundtrip [OF assms, folded this] show ?thesis
    unfolding restore_combo_order_def persistent_combo_order_from_def persistent_combo_order.simps i_def [symmetric] Let_def
    by (simp add: r(1-6) restored_versions_ok(1,2) [OF r(9)] seen oms)
qed

end
