(* ===== verification/PaperRecovery.thy ===== *)
theory PaperRecovery
  imports PaperRecords
begin

text \<open>
  Component: the state a paper journal keeps and recovery from it
  (\<^verbatim>\<open>core/paper/src/service/persistence.rs\<close>, \<^verbatim>\<open>records.rs\<close>). \<open>persistent_state\<close> writes everything
  durable of the service as texts; \<open>restore\<close> reads it back, checking each part and how the parts fit
  together. The main theorem says what recovery makes of every state whose figures and identities have a
  written form: that state again, or one of three refusals. A service whose recovery fails is dropped, so
  \<open>restore\<close> returns the state or an error.
\<close>

section \<open>The remaining records\<close>

record persistent_position =
  ptp_quantity :: string
  ptp_average_cost :: string
  ptp_realized_pnl :: string

record persistent_incident =
  ptn_category :: string
  ptn_subject :: string
  ptn_detail :: string
  ptn_explanation :: "string option"

text \<open>The persisted report has the fields of the report itself.\<close>

type_synonym persistent_report = reconciliation_report

record persistent_lot =
  ptt_lot_id :: string
  ptt_opened_at :: string
  ptt_remaining_quantity :: string
  ptt_unit_cost :: string

record persistent_lot_book =
  ptb_lots :: "(string, persistent_lot list) btree_map"
  ptb_applied_lot_ids :: "string list"
  ptb_applied_disposal_ids :: "string list"
  ptb_realized_by_currency :: "(string, string) btree_map"
  ptb_short_lots :: "(string, persistent_lot list) btree_map"
  ptb_applied_short_lot_ids :: "string list"
  ptb_applied_cover_ids :: "string list"

record persistent_switch_operation =
  ptk_scope :: string
  ptk_action :: string
  ptk_operator :: string
  ptk_operated_at :: string

record persistent_order_operation =
  ptr_order_id :: string
  ptr_action :: string
  ptr_operator :: string
  ptr_operated_at :: string

record persistent_action =
  pta_action_id :: string
  pta_action_type :: string
  pta_instrument_id :: string
  pta_effective_at :: string
  pta_value :: string
  pta_applied_by :: string
  pta_applied_at :: string
  pta_quantity_before :: string
  pta_quantity_after :: string
  pta_cash_delta :: string

record persistent_paper_state =
  pts_configuration_fingerprint :: string
  pts_account_id :: string
  pts_currency :: string
  pts_cash :: string
  pts_orders :: "(string, persistent_order) btree_map"
  pts_risk_evidence :: "(string, persistent_risk_evidence) btree_map"
  pts_positions :: "(string, persistent_position) btree_map"
  pts_execution_ids :: "string list"
  pts_active_kill_switches :: "string list"
  pts_incidents :: "(string, persistent_incident) btree_map"
  pts_last_reconciled_at :: "string option"
  pts_last_reconciliation_clean :: "bool option"
  pts_paper_days :: "(string, paper_day) btree_map"
  pts_next_reconciliation :: nat
  pts_broker_connected :: bool
  pts_latest_reconciliation :: "persistent_report option"
  pts_tax_lots :: persistent_lot_book
  pts_marks :: "(string, string) btree_map"
  pts_peak_equity :: "string option"
  pts_daily_baseline_date :: "string option"
  pts_daily_baseline_equity :: "string option"
  pts_strategy_attribution :: "(string, (string, string) btree_map) btree_map"
  pts_combo_orders :: "(string, persistent_combo_order) btree_map"
  pts_combo_risk_evidence :: "(string, persistent_combo_risk_evidence) btree_map"
  pts_kill_switch_operations :: "persistent_switch_operation list"
  pts_order_operations :: "persistent_order_operation list"
  pts_corporate_actions :: "persistent_action list"

section \<open>Writing\<close>

abbreviation map_values :: "('a \<Rightarrow> 'b) \<Rightarrow> ('k, 'a) btree_map \<Rightarrow> ('k, 'b) btree_map" where
  "map_values f m \<equiv> map (\<lambda>(k, v). (k, f v)) m"

definition long_lot_text :: "tax_lot \<Rightarrow> persistent_lot" where
  "long_lot_text l = \<lparr>ptt_lot_id = tl_lot_id l, ptt_opened_at = tl_opened_at l,
     ptt_remaining_quantity = decimal_to_string (tl_remaining_quantity l),
     ptt_unit_cost = decimal_to_string (tl_unit_cost l)\<rparr>"

definition short_lot_text :: "short_tax_lot \<Rightarrow> persistent_lot" where
  "short_lot_text l = \<lparr>ptt_lot_id = st_lot_id l, ptt_opened_at = st_opened_at l,
     ptt_remaining_quantity = decimal_to_string (st_remaining_quantity l),
     ptt_unit_cost = decimal_to_string (st_unit_proceeds l)\<rparr>"

definition lot_book_text :: "tax_lot_book \<Rightarrow> persistent_lot_book" where
  "lot_book_text b = \<lparr>ptb_lots = map_values (map long_lot_text) (tb_lots b),
     ptb_applied_lot_ids = tb_applied_lot_ids b, ptb_applied_disposal_ids = tb_applied_disposal_ids b,
     ptb_realized_by_currency = map (\<lambda>(c, d). (code_text c, decimal_to_string d)) (tb_realized_by_currency b),
     ptb_short_lots = map_values (map short_lot_text) (tb_short_lots b),
     ptb_applied_short_lot_ids = tb_applied_short_lot_ids b, ptb_applied_cover_ids = tb_applied_cover_ids b\<rparr>"

definition position_text :: "portfolio \<Rightarrow> persistent_position" where
  "position_text p = \<lparr>ptp_quantity = decimal_to_string (pf_quantity p),
     ptp_average_cost = decimal_to_string (pf_average_cost p), ptp_realized_pnl = decimal_to_string (pf_realized_pnl p)\<rparr>"

definition incident_text :: "reconciliation_incident \<Rightarrow> persistent_incident" where
  "incident_text x = \<lparr>ptn_category = rci_category (rin_issue x), ptn_subject = rci_subject (rin_issue x),
     ptn_detail = rci_detail (rin_issue x), ptn_explanation = rin_explanation x\<rparr>"

definition switch_operation_text :: "kill_switch_operation \<Rightarrow> persistent_switch_operation" where
  "switch_operation_text x = \<lparr>ptk_scope = kso_scope x, ptk_action = kill_switch_action_as_str (kso_action x),
     ptk_operator = kso_operator x, ptk_operated_at = kso_operated_at x\<rparr>"

definition order_action_as_str :: "order_operation_action \<Rightarrow> string" where
  "order_action_as_str a = (case a of CancelRequested \<Rightarrow> ''CANCEL_REQUESTED'')"

definition order_operation_text :: "order_operation \<Rightarrow> persistent_order_operation" where
  "order_operation_text x = \<lparr>ptr_order_id = oop_order_id x, ptr_action = order_action_as_str (oop_action x),
     ptr_operator = oop_operator x, ptr_operated_at = oop_operated_at x\<rparr>"

fun action_type :: "corporate_action \<Rightarrow> string" where
  "action_type (SplitAction _ _ _ _) = ''SPLIT''"
| "action_type (CashDividendAction _ _ _ _) = ''CASH_DIVIDEND''"

definition corporate_action_text :: "corporate_action_receipt \<Rightarrow> persistent_action" where
  "corporate_action_text r = (let a = cat_action r in
     \<lparr>pta_action_id = action_id a, pta_action_type = action_type a, pta_instrument_id = action_instrument_id a,
      pta_effective_at = action_effective_at a, pta_value = decimal_to_string (action_value a),
      pta_applied_by = cat_applied_by r, pta_applied_at = cat_applied_at r,
      pta_quantity_before = decimal_to_string (cat_quantity_before r),
      pta_quantity_after = decimal_to_string (cat_quantity_after r),
      pta_cash_delta = decimal_to_string (cat_cash_delta r)\<rparr>)"

definition persistent_state :: "(string \<Rightarrow> string) \<Rightarrow> paper_setup \<Rightarrow> paper_durable \<Rightarrow> persistent_paper_state" where
  "persistent_state sha256_hex u s =
     \<lparr>pts_configuration_fingerprint = setup_fingerprint sha256_hex u (pd_kill_switches s),
      pts_account_id = pa_account_id (pu_account u), pts_currency = pa_currency (pu_account u),
      pts_cash = decimal_to_string (pb_cash s), pts_orders = map_values persistent_order_from (pv_orders s),
      pts_risk_evidence = map_values persistent_risk_evidence_from (pd_risk_evidence s),
      pts_positions = map_values position_text (pb_portfolios s), pts_execution_ids = pb_execution_ids s,
      pts_active_kill_switches = ks_active_keys (pd_kill_switches s),
      pts_incidents = map_values incident_text (pd_incidents s),
      pts_last_reconciled_at = pd_last_reconciled_at s,
      pts_last_reconciliation_clean = pd_last_reconciliation_clean s, pts_paper_days = pd_paper_days s,
      pts_next_reconciliation = pd_next_reconciliation s, pts_broker_connected = pd_broker_connected s,
      pts_latest_reconciliation = pd_latest_reconciliation s, pts_tax_lots = lot_book_text (pb_tax_lots s),
      pts_marks = map_values decimal_to_string (pd_marks s),
      pts_peak_equity = Some (decimal_to_string (pd_peak_equity s)),
      pts_daily_baseline_date = pd_daily_baseline_date s,
      pts_daily_baseline_equity =
        map_option (\<lambda>_. decimal_to_string (pd_daily_baseline_equity s)) (pd_daily_baseline_date s),
      pts_strategy_attribution = map_values (map_values decimal_to_string) (pb_strategy_attribution s),
      pts_combo_orders = map_values persistent_combo_order_from (pv_combo_orders s),
      pts_combo_risk_evidence = map_values persistent_combo_risk_evidence_from (pd_combo_risk_evidence s),
      pts_kill_switch_operations = map switch_operation_text (pd_kill_switch_operations s),
      pts_order_operations = map order_operation_text (pd_order_operations s),
      pts_corporate_actions = map corporate_action_text (pd_corporate_actions s)\<rparr>"

section \<open>Reading the parts\<close>

text \<open>A loop over a map that builds another with the same keys.\<close>

definition restore_entries ::
    "('k::linorder \<Rightarrow> 'p \<Rightarrow> 'v result) \<Rightarrow> ('k, 'p) btree_map \<Rightarrow> ('k, 'v) btree_map result" where
  "restore_entries f m = try_fold (\<lambda>(k, p) acc. and_then (f k p) (\<lambda>v. Ok (bt_insert k v acc))) m []"

definition restore_risk_evidence ::
    "(string \<Rightarrow> bool) \<Rightarrow> string \<Rightarrow> string \<Rightarrow> persistent_risk_evidence \<Rightarrow> paper_risk_evidence result" where
  "restore_risk_evidence rfc3339 policy_version key p =
     and_then (validate_canonical_id ''persisted risk decision_id'' key) (\<lambda>_.
     and_then (risk_evidence_from_persistent rfc3339 p) (\<lambda>e.
     if key \<noteq> rd_decision_id (pre_decision e)
     then Err ''persisted risk decision identity does not match its key''
     else if rd_policy_version (pre_decision e) \<noteq> policy_version \<or> rd_actor (pre_decision e) \<noteq> ''paper_risk_engine''
     then Err ''persisted risk evidence is incompatible with supplied policy''
     else Ok e))"

definition restore_combo_risk_evidence ::
    "(string \<Rightarrow> bool) \<Rightarrow> string \<Rightarrow> string \<Rightarrow> persistent_combo_risk_evidence \<Rightarrow> paper_combo_risk_evidence result" where
  "restore_combo_risk_evidence rfc3339 policy_version key p =
     and_then (validate_canonical_id ''persisted combo risk decision_id'' key) (\<lambda>_.
     and_then (combo_risk_evidence_from_persistent rfc3339 p) (\<lambda>e.
     if key \<noteq> rd_decision_id (pce_decision e)
     then Err ''persisted combination risk decision identity does not match its key''
     else if rd_policy_version (pce_decision e) \<noteq> policy_version \<or> rd_actor (pce_decision e) \<noteq> ''paper_risk_engine''
     then Err ''persisted combination risk evidence is incompatible with supplied policy''
     else Ok e))"

definition check_order_evidence :: "(string, paper_risk_evidence) btree_map \<Rightarrow> string \<times> paper_order \<Rightarrow> unit result" where
  "check_order_evidence evidence entry = (case entry of (_, o1) \<Rightarrow>
     and_then (ok_or (bt_get evidence (''paper-risk-'' @ oi_intent_id (oo_intent (por_oms o1))))
       ''persisted paper order is missing risk evidence'') (\<lambda>e.
     if \<not> rd_approved (pre_decision e) \<or> pre_intent e \<noteq> oo_intent (por_oms o1) \<or> pre_market e \<noteq> por_market o1
     then Err ''persisted paper order does not match approved risk evidence'' else Ok ()))"

definition check_combo_evidence ::
    "(string, paper_combo_risk_evidence) btree_map \<Rightarrow> string \<times> paper_combo_order \<Rightarrow> unit result" where
  "check_combo_evidence evidence entry = (case entry of (_, c) \<Rightarrow>
     and_then (ok_or (bt_get evidence (''paper-combo-risk-'' @ co_intent_id (pco_intent c)))
       ''persisted paper combination is missing risk evidence'') (\<lambda>e.
     if \<not> rd_approved (pce_decision e) \<or> pce_intent e \<noteq> pco_intent c \<or> pce_market e \<noteq> pco_market c
     then Err ''persisted paper combination does not match approved risk evidence'' else Ok ()))"

definition restore_position :: "paper_setup \<Rightarrow> string \<Rightarrow> persistent_position \<Rightarrow> portfolio result" where
  "restore_position u instrument_id p =
     and_then (decimal_field ''persisted position quantity'' (ptp_quantity p)) (\<lambda>quantity.
     and_then (decimal_field ''persisted average cost'' (ptp_average_cost p)) (\<lambda>average_cost.
     and_then (decimal_field ''persisted realized pnl'' (ptp_realized_pnl p)) (\<lambda>realized_pnl.
     (if ppo_short_exposure (pu_policy u) \<noteq> None then portfolio_recover_signed else portfolio_recover)
       (pa_account_id (pu_account u)) instrument_id quantity average_cost realized_pnl)))"

definition restore_long_lot :: "currency \<Rightarrow> string \<Rightarrow> persistent_lot \<Rightarrow> tax_lot result" where
  "restore_long_lot c instrument_id p =
     and_then (decimal_field ''persisted tax lot remaining quantity'' (ptt_remaining_quantity p)) (\<lambda>q.
     and_then (decimal_field ''persisted tax lot unit cost'' (ptt_unit_cost p)) (\<lambda>cost.
     Ok \<lparr>tl_lot_id = ptt_lot_id p, tl_instrument_id = instrument_id, tl_currency = c,
         tl_opened_at = ptt_opened_at p, tl_remaining_quantity = q, tl_unit_cost = cost\<rparr>))"

definition restore_short_lot :: "currency \<Rightarrow> string \<Rightarrow> persistent_lot \<Rightarrow> short_tax_lot result" where
  "restore_short_lot c instrument_id p =
     and_then (decimal_field ''short lot quantity'' (ptt_remaining_quantity p)) (\<lambda>q.
     and_then (decimal_field ''short lot proceeds'' (ptt_unit_cost p)) (\<lambda>proceeds.
     Ok \<lparr>st_lot_id = ptt_lot_id p, st_instrument_id = instrument_id, st_currency = c,
         st_opened_at = ptt_opened_at p, st_remaining_quantity = q, st_unit_proceeds = proceeds\<rparr>))"

definition restore_realized :: "(string, string) btree_map \<Rightarrow> (currency, decimal) btree_map result" where
  "restore_realized m = try_fold (\<lambda>(code, amount) acc.
     and_then (currency_new code) (\<lambda>c.
     and_then (decimal_field ''persisted realized tax pnl'' amount) (\<lambda>d. Ok (bt_insert c d acc)))) m []"

text \<open>Collecting a list into a \<^verbatim>\<open>BTreeSet\<close>.\<close>

definition bs_of_list :: "'k::linorder list \<Rightarrow> 'k btree_set" where
  "bs_of_list xs = fold bs_insert xs []"

definition restore_lot_book :: "(string \<Rightarrow> bool) \<Rightarrow> string \<Rightarrow> persistent_lot_book \<Rightarrow> tax_lot_book result" where
  "restore_lot_book rfc3339 account_currency p =
     and_then (currency_new account_currency) (\<lambda>c.
     and_then (restore_entries (\<lambda>i. try_map (restore_long_lot c i)) (ptb_lots p)) (\<lambda>lots.
     and_then (restore_realized (ptb_realized_by_currency p)) (\<lambda>realized.
     and_then (restore_entries (\<lambda>i. try_map (restore_short_lot c i)) (ptb_short_lots p)) (\<lambda>short_lots.
     book_recover rfc3339
       \<lparr>tb_lots = lots, tb_applied_lot_ids = bs_of_list (ptb_applied_lot_ids p),
        tb_applied_disposal_ids = bs_of_list (ptb_applied_disposal_ids p), tb_realized_by_currency = realized,
        tb_short_lots = short_lots, tb_applied_short_lot_ids = bs_of_list (ptb_applied_short_lot_ids p),
        tb_applied_cover_ids = bs_of_list (ptb_applied_cover_ids p)\<rparr>))))"

definition restore_execution_ids :: "string list \<Rightarrow> string btree_set result" where
  "restore_execution_ids ids = try_fold (check_version ''persisted execution_id''
     ''paper journal contains duplicate execution identity'') ids []"

definition combo_receipt_ids :: "(string, paper_combo_order) btree_map \<Rightarrow> string list" where
  "combo_receipt_ids combos = concat (map (\<lambda>(_, c). concat (map (\<lambda>(_, e). receipt_ids e) (pco_executions c))) combos)"

definition check_receipt_ids :: "string btree_set \<Rightarrow> (string, paper_combo_order) btree_map \<Rightarrow> unit result" where
  "check_receipt_ids execution_ids combos =
     and_then (try_fold (\<lambda>i seen. if \<not> bs_contains i execution_ids \<or> bs_contains i seen
       then Err ''persisted combination execution is missing or duplicated in account receipts''
       else Ok (bs_insert i seen)) (combo_receipt_ids combos) []) (\<lambda>_. Ok ())"

definition restore_mark :: "string \<Rightarrow> string \<Rightarrow> decimal result" where
  "restore_mark instrument_id v =
     and_then (validate_canonical_id ''persisted mark instrument_id'' instrument_id) (\<lambda>_.
     and_then (decimal_field ''persisted mark price'' v) (\<lambda>d.
     if d \<le> ZERO then Err ''persisted mark price is invalid'' else Ok d))"

definition restore_attribution :: "string \<Rightarrow> (string, string) btree_map \<Rightarrow> (string, decimal) btree_map result" where
  "restore_attribution instrument_id strategies =
     and_then (validate_canonical_id ''persisted attribution instrument_id'' instrument_id) (\<lambda>_.
     restore_entries (\<lambda>strategy_id v.
       and_then (validate_canonical_id ''persisted attribution strategy_id'' strategy_id) (\<lambda>_.
       decimal_field ''persisted attribution quantity'' v)) strategies)"

definition restore_peak_equity :: "string option \<Rightarrow> decimal option result" where
  "restore_peak_equity v =
     and_then (try_option (decimal_field ''persisted peak equity'') v) (\<lambda>d.
     if (case d of None \<Rightarrow> False | Some x \<Rightarrow> x \<le> ZERO) then Err ''persisted peak equity is invalid'' else Ok d)"

definition restore_baseline :: "(string \<Rightarrow> bool) \<Rightarrow> string option \<Rightarrow> string option \<Rightarrow> decimal option result" where
  "restore_baseline rfc3339 date equity =
     and_then (try_option (decimal_field ''persisted daily-loss baseline equity'') equity) (\<lambda>d.
     case (date, d) of
       (Some v, Some _) \<Rightarrow> and_then (validate_exchange_date rfc3339 v) (\<lambda>_. Ok d)
     | (None, None) \<Rightarrow> Ok d
     | _ \<Rightarrow> Err ''persisted daily-loss baseline date and equity must be present together'')"

definition parse_kill_switch_scope :: "string \<Rightarrow> kill_switch_scope result" where
  "parse_kill_switch_scope v = (case scope_from_key v of Inl _ \<Rightarrow> Err ''persisted kill-switch scope is invalid''
     | Inr s \<Rightarrow> Ok s)"

definition restore_switches :: "string \<Rightarrow> string list \<Rightarrow> kill_switch_registry result" where
  "restore_switches version keys =
     and_then (kill_switch_registry_new version) (\<lambda>r.
     try_fold (\<lambda>key r. and_then (parse_kill_switch_scope key) (\<lambda>s.
       case ks_activate s r of (Inl e, _) \<Rightarrow> Inl e | (Inr _, r') \<Rightarrow> Ok r')) keys r)"

definition restore_switch_operation ::
    "(string \<Rightarrow> bool) \<Rightarrow> persistent_switch_operation \<Rightarrow> kill_switch_operation result" where
  "restore_switch_operation rfc3339 p =
     and_then (parse_kill_switch_scope (ptk_scope p)) (\<lambda>s.
     and_then (if ptk_action p = ''ACTIVATE'' then Ok ActivateSwitch
       else if ptk_action p = ''RELEASE'' then Ok ReleaseSwitch
       else Err ''persisted kill-switch action is invalid'') (\<lambda>action.
     and_then (validate_canonical_id ''persisted kill-switch operator'' (ptk_operator p)) (\<lambda>_.
     and_then (validate_utc_timestamp rfc3339 ''persisted kill-switch operation time'' (ptk_operated_at p)) (\<lambda>_.
     Ok \<lparr>kso_scope = scope_as_key s, kso_action = action, kso_operator = ptk_operator p,
         kso_operated_at = ptk_operated_at p\<rparr>))))"

definition restore_incident :: "string \<Rightarrow> persistent_incident \<Rightarrow> reconciliation_incident result" where
  "restore_incident incident_id p =
     and_then (validate_canonical_id ''persisted incident_id'' incident_id) (\<lambda>_.
     if ptn_category p = [] \<or> ptn_subject p = [] \<or> ptn_detail p = []
     then Err ''persisted reconciliation incident is invalid''
     else Ok \<lparr>rin_issue = \<lparr>rci_incident_id = incident_id, rci_category = ptn_category p,
           rci_subject = ptn_subject p, rci_detail = ptn_detail p\<rparr>, rin_explanation = ptn_explanation p\<rparr>)"

definition check_paper_day :: "(string \<Rightarrow> bool) \<Rightarrow> string \<Rightarrow> string \<times> paper_day \<Rightarrow> unit result" where
  "check_paper_day rfc3339 calendar entry = (case entry of (date, d) \<Rightarrow>
     and_then (validate_exchange_date rfc3339 date) (\<lambda>_.
     and_then (validate_canonical_id ''persisted paper calendar_id'' (pdy_calendar_id d)) (\<lambda>_.
     if pdy_calendar_id d \<noteq> calendar then Err ''persisted paper-day calendar does not match supplied policy''
     else session_validate rfc3339 \<lparr>ts_exchange_date = date, ts_opens_at = pdy_session_opens_at d,
       ts_closes_at = pdy_session_closes_at d\<rparr>)))"

definition restore_issue :: "reconciliation_issue \<Rightarrow> string btree_set \<Rightarrow> string btree_set result" where
  "restore_issue x seen =
     and_then (validate_canonical_id ''persisted paper incident_id'' (rci_incident_id x)) (\<lambda>_.
     and_then (validate_broker_reason ''persisted paper issue category'' (rci_category x)) (\<lambda>_.
     and_then (validate_broker_reason ''persisted paper issue subject'' (rci_subject x)) (\<lambda>_.
     and_then (validate_broker_reason ''persisted paper issue detail'' (rci_detail x)) (\<lambda>_.
     if bs_contains (rci_incident_id x) seen
     then Err ''persisted paper reconciliation repeats an incident ID''
     else Ok (bs_insert (rci_incident_id x) seen)))))"

definition restore_report :: "(string \<Rightarrow> bool) \<Rightarrow> persistent_report \<Rightarrow> reconciliation_report result" where
  "restore_report rfc3339 r =
     and_then (validate_canonical_id ''persisted paper reconciliation_id'' (rcr_reconciliation_id r)) (\<lambda>_.
     and_then (validate_utc_timestamp rfc3339 ''persisted paper reconciliation time'' (rcr_reconciled_at r)) (\<lambda>_.
     and_then (try_fold restore_issue (rcr_issues r) []) (\<lambda>_. Ok r)))"

definition check_last_reconciliation :: "(string \<Rightarrow> bool) \<Rightarrow> string option \<Rightarrow> bool option \<Rightarrow> unit result" where
  "check_last_reconciliation rfc3339 at clean = (case at of
     Some t \<Rightarrow> and_then (validate_utc_timestamp rfc3339 ''persisted last reconciliation time'' t) (\<lambda>_.
       if clean = None then Err ''persisted last reconciliation has no cleanliness result'' else Ok ())
   | None \<Rightarrow> if clean \<noteq> None then Err ''persisted reconciliation cleanliness has no timestamp'' else Ok ())"

definition reconciliation_id :: "nat \<Rightarrow> string" where
  "reconciliation_id n = ''reconciliation-'' @ zero_padded 8 n"

text \<open>A checkpoint without its report is legacy evidence; a report without its checkpoint is refused.\<close>

definition check_report :: "reconciliation_report option \<Rightarrow> string option \<Rightarrow> bool option \<Rightarrow> nat \<Rightarrow> unit result" where
  "check_report report at clean next_number =
     and_then (case (report, at, clean) of
         (Some r, Some t, Some c) \<Rightarrow>
           if rcr_reconciled_at r = t \<and> report_is_clean r = c then Ok ()
           else Err ''persisted paper reconciliation evidence is inconsistent''
       | (None, None, None) \<Rightarrow> Ok ()
       | (None, Some _, Some _) \<Rightarrow> Ok ()
       | _ \<Rightarrow> Err ''persisted paper reconciliation evidence is inconsistent'') (\<lambda>_.
     case report of None \<Rightarrow> Ok ()
     | Some r \<Rightarrow> if rcr_reconciliation_id r \<noteq> reconciliation_id (next_number - 1)
         then Err ''persisted latest paper reconciliation identity is invalid'' else Ok ())"

definition restore_order_operation ::
    "(string \<Rightarrow> bool) \<Rightarrow> (string \<Rightarrow> bool) \<Rightarrow> persistent_order_operation \<Rightarrow> order_operation result" where
  "restore_order_operation rfc3339 known p =
     and_then (if ptr_action p = ''CANCEL_REQUESTED'' then Ok CancelRequested
       else Err ''persisted order operation action is invalid'') (\<lambda>action.
     if \<not> known (ptr_order_id p) then Err ''persisted order operation names an unknown order''
     else and_then (validate_canonical_id ''persisted order operator'' (ptr_operator p)) (\<lambda>_.
       and_then (validate_utc_timestamp rfc3339 ''persisted order operation time'' (ptr_operated_at p)) (\<lambda>_.
       Ok \<lparr>oop_order_id = ptr_order_id p, oop_action = action, oop_operator = ptr_operator p,
           oop_operated_at = ptr_operated_at p\<rparr>)))"

text \<open>A split scales the position and moves no cash, a dividend moves cash and no position.\<close>

fun action_effect :: "corporate_action \<Rightarrow> decimal \<Rightarrow> decimal \<Rightarrow> decimal \<Rightarrow> bool result" where
  "action_effect (SplitAction _ _ _ ratio) before after cash =
     and_then (checked_mul before ratio) (\<lambda>q. Ok (after = q \<and> cash = ZERO))"
| "action_effect (CashDividendAction _ _ _ amount) before after cash =
     (if after \<noteq> before then Ok False else and_then (checked_mul before amount) (\<lambda>d. Ok (cash = d)))"

definition parse_action :: "string \<Rightarrow> string \<Rightarrow> string \<Rightarrow> string \<Rightarrow> decimal \<Rightarrow> corporate_action result" where
  "parse_action kind i instrument_id at v =
     (if kind = ''SPLIT'' then Ok (SplitAction i instrument_id at v)
      else if kind = ''CASH_DIVIDEND'' then Ok (CashDividendAction i instrument_id at v)
      else Err ''persisted corporate action type is invalid'')"

definition receipt_from_persistent :: "(string \<Rightarrow> bool) \<Rightarrow> persistent_action \<Rightarrow> corporate_action_receipt result" where
  "receipt_from_persistent rfc3339 p =
     and_then (decimal_field ''persisted corporate action value'' (pta_value p)) (\<lambda>v.
     and_then (parse_action (pta_action_type p) (pta_action_id p) (pta_instrument_id p) (pta_effective_at p) v) (\<lambda>a.
     and_then (action_validate rfc3339 a) (\<lambda>_.
     and_then (validate_canonical_id ''persisted corporate action operator'' (pta_applied_by p)) (\<lambda>_.
     and_then (validate_utc_timestamp rfc3339 ''persisted corporate action time'' (pta_applied_at p)) (\<lambda>_.
     if pta_applied_at p < action_effective_at a
     then Err ''persisted corporate action was applied before it took effect''
     else and_then (decimal_field ''persisted corporate action quantity before'' (pta_quantity_before p)) (\<lambda>before.
       and_then (decimal_field ''persisted corporate action quantity after'' (pta_quantity_after p)) (\<lambda>after.
       and_then (decimal_field ''persisted corporate action cash'' (pta_cash_delta p)) (\<lambda>cash.
       and_then (action_effect a before after cash) (\<lambda>consistent.
       if \<not> consistent then Err ''persisted corporate action effect does not follow from its action''
       else Ok \<lparr>cat_action = a, cat_applied_by = pta_applied_by p, cat_applied_at = pta_applied_at p,
                cat_quantity_before = before, cat_quantity_after = after, cat_cash_delta = cash\<rparr>)))))))))"

definition restore_action :: "(string \<Rightarrow> bool) \<Rightarrow> persistent_action
    \<Rightarrow> corporate_action_receipt list \<Rightarrow> corporate_action_receipt list result" where
  "restore_action rfc3339 p receipts =
     and_then (receipt_from_persistent rfc3339 p) (\<lambda>r.
     if action_id (cat_action r) \<in> (\<lambda>x. action_id (cat_action x)) ` set receipts
     then Err ''paper journal applies one corporate action twice'' else Ok (receipts @ [r]))"

definition restore_corporate_actions :: "(string \<Rightarrow> bool) \<Rightarrow> persistent_action list \<Rightarrow> corporate_action_receipt list result" where
  "restore_corporate_actions rfc3339 ps = try_fold (restore_action rfc3339) ps []"

section \<open>Reading the state\<close>

definition restore_trading :: "(string \<Rightarrow> bool) \<Rightarrow> paper_setup \<Rightarrow> persistent_paper_state
    \<Rightarrow> ((string, paper_order) btree_map \<times> (string, paper_risk_evidence) btree_map
      \<times> (string, paper_combo_order) btree_map \<times> (string, paper_combo_risk_evidence) btree_map) result" where
  "restore_trading rfc3339 u p = (let account = pa_account_id (pu_account u); version = ppo_version (pu_policy u) in
     and_then (restore_entries (restore_order rfc3339 account) (pts_orders p)) (\<lambda>orders.
     and_then (restore_entries (restore_risk_evidence rfc3339 version) (pts_risk_evidence p)) (\<lambda>evidence.
     and_then (try_each (check_order_evidence evidence) orders) (\<lambda>_.
     and_then (restore_entries (restore_combo_order rfc3339 account) (pts_combo_orders p)) (\<lambda>combos.
     and_then (restore_entries (restore_combo_risk_evidence rfc3339 version) (pts_combo_risk_evidence p)) (\<lambda>combo_evidence.
     and_then (try_each (check_combo_evidence combo_evidence) combos) (\<lambda>_.
     Ok (orders, evidence, combos, combo_evidence))))))))"

definition restore_books :: "(string \<Rightarrow> bool) \<Rightarrow> paper_setup \<Rightarrow> persistent_paper_state
    \<Rightarrow> decimal \<Rightarrow> (string, paper_combo_order) btree_map \<Rightarrow> (paper_books \<times> (string, decimal) btree_map) result" where
  "restore_books rfc3339 u p cash combos =
     and_then (restore_entries (restore_position u) (pts_positions p)) (\<lambda>portfolios.
     and_then (restore_lot_book rfc3339 (pa_currency (pu_account u)) (pts_tax_lots p)) (\<lambda>lots.
     and_then (restore_execution_ids (pts_execution_ids p)) (\<lambda>execution_ids.
     and_then (check_receipt_ids execution_ids combos) (\<lambda>_.
     and_then (restore_entries restore_mark (pts_marks p)) (\<lambda>marks.
     and_then (restore_entries restore_attribution (pts_strategy_attribution p)) (\<lambda>attribution.
     Ok (\<lparr>pb_cash = cash, pb_portfolios = portfolios, pb_tax_lots = lots, pb_strategy_attribution = attribution,
          pb_execution_ids = execution_ids\<rparr>, marks)))))))"

definition restore :: "(string \<Rightarrow> string) \<Rightarrow> (string \<Rightarrow> bool) \<Rightarrow> paper_setup \<Rightarrow> kill_switch_registry
    \<Rightarrow> persistent_paper_state \<Rightarrow> paper_durable result" where
  "restore sha256_hex rfc3339 u switches p =
     (if pts_account_id p \<noteq> pa_account_id (pu_account u) \<or> pts_currency p \<noteq> pa_currency (pu_account u)
      then Err ''paper journal account or currency does not match supplied configuration''
      else if pts_configuration_fingerprint p \<noteq> setup_fingerprint sha256_hex u switches
      then Err ''paper journal configuration fingerprint does not match supplied configuration''
      else and_then (decimal_field ''journal cash'' (pts_cash p)) (\<lambda>cash.
        and_then (restore_trading rfc3339 u p) (\<lambda>(orders, evidence, combos, combo_evidence).
        and_then (restore_books rfc3339 u p cash combos) (\<lambda>(b, marks).
        and_then (restore_peak_equity (pts_peak_equity p)) (\<lambda>peak.
        and_then (restore_baseline rfc3339 (pts_daily_baseline_date p) (pts_daily_baseline_equity p)) (\<lambda>baseline.
        and_then (restore_switches (ksr_version switches) (pts_active_kill_switches p)) (\<lambda>restored_switches.
        and_then (try_map (restore_switch_operation rfc3339) (pts_kill_switch_operations p)) (\<lambda>switch_operations.
        and_then (restore_entries restore_incident (pts_incidents p)) (\<lambda>incidents.
        and_then (try_each (check_paper_day rfc3339 (ppo_trading_calendar_id (pu_policy u))) (pts_paper_days p)) (\<lambda>_.
        and_then (check_last_reconciliation rfc3339 (pts_last_reconciled_at p) (pts_last_reconciliation_clean p)) (\<lambda>_.
        if pts_next_reconciliation p = 0 then Err ''persisted reconciliation sequence is invalid''
        else and_then (try_option (restore_report rfc3339) (pts_latest_reconciliation p)) (\<lambda>report.
        and_then (check_report report (pts_last_reconciled_at p) (pts_last_reconciliation_clean p)
          (pts_next_reconciliation p)) (\<lambda>_.
        and_then (try_map (restore_order_operation rfc3339
          (\<lambda>cid. bt_get orders cid \<noteq> None \<or> bt_get combos cid \<noteq> None)) (pts_order_operations p)) (\<lambda>order_operations.
        and_then (restore_corporate_actions rfc3339 (pts_corporate_actions p)) (\<lambda>actions.
        let s = \<lparr>pb_cash = pb_cash b, pb_portfolios = pb_portfolios b, pb_tax_lots = pb_tax_lots b,
          pb_strategy_attribution = pb_strategy_attribution b, pb_execution_ids = pb_execution_ids b,
          pv_orders = orders, pv_combo_orders = combos, pd_kill_switches = restored_switches,
          pd_kill_switch_operations = switch_operations, pd_order_operations = order_operations,
          pd_broker_connected = pts_broker_connected p, pd_risk_evidence = evidence,
          pd_combo_risk_evidence = combo_evidence, pd_marks = marks, pd_peak_equity = ZERO,
          pd_daily_baseline_date = pts_daily_baseline_date p,
          pd_daily_baseline_equity = (case baseline of None \<Rightarrow> ZERO | Some d \<Rightarrow> d),
          pd_corporate_actions = actions, pd_incidents = incidents,
          pd_last_reconciled_at = pts_last_reconciled_at p,
          pd_last_reconciliation_clean = pts_last_reconciliation_clean p, pd_latest_reconciliation = report,
          pd_paper_days = pts_paper_days p, pd_next_reconciliation = pts_next_reconciliation p\<rparr> in
        and_then (current_equity s) (\<lambda>equity.
        Ok (s\<lparr>pd_peak_equity := max (case peak of None \<Rightarrow> equity | Some d \<Rightarrow> d) equity\<rparr>)))))))))))))))))"

section \<open>Maps and sets read back\<close>

lemma restore_entries_from:
  assumes "bt_sorted (before @ es)" "\<And>k v. (k, v) \<in> set es \<Longrightarrow> f k (g v) = Ok v"
  shows "try_fold (\<lambda>(k, p) acc. and_then (f k p) (\<lambda>v. Ok (bt_insert k v acc))) (map_values g es) before = Ok (before @ es)"
  using assms
proof (induction es arbitrary: before)
  case (Cons x es)
  obtain k v where x: "x = (k, v)" by (cases x)
  have "\<forall>(l, w)\<in>set before. l < k" using Cons.prems(1) by (auto simp: bt_sorted_def x sorted_wrt_append)
  then have "bt_insert k v before = before @ [x]" by (simp add: bt_insert_last x)
  moreover have "try_fold (\<lambda>(k, p) acc. and_then (f k p) (\<lambda>v. Ok (bt_insert k v acc))) (map_values g es) (before @ [x])
      = Ok ((before @ [x]) @ es)"
    by (rule Cons.IH) (use Cons.prems in auto)
  ultimately show ?case using Cons.prems(2) [of k v] by (simp add: x)
qed simp

lemma restore_entries_roundtrip:
  "bt_sorted m \<Longrightarrow> (\<And>k v. (k, v) \<in> set m \<Longrightarrow> f k (g v) = Ok v) \<Longrightarrow> restore_entries f (map_values g m) = Ok m"
  using restore_entries_from [of "[]" m f g] by (simp add: restore_entries_def)

lemma bs_insert_last: "\<forall>l\<in>set s. l < k \<Longrightarrow> bs_insert k s = s @ [k]"
  by (induction k s rule: bs_insert.induct) auto

lemma bs_of_list_sorted [simp]:
  assumes "bs_sorted s"
  shows "bs_of_list s = s"
proof -
  have "fold bs_insert es before = before @ es" if "bs_sorted (before @ es)" for before es
    using that by (induction es arbitrary: before) (simp_all add: bs_insert_last bs_sorted_def sorted_wrt_append)
  from this [of "[]" s] assms show ?thesis by (simp add: bs_of_list_def)
qed

lemma restore_execution_ids_roundtrip:
  assumes "bs_sorted ids" "\<forall>x\<in>set ids. canonical_id x"
  shows "restore_execution_ids ids = Ok ids"
proof -
  have "try_fold (check_version n d) es before = Ok (before @ es)"
    if "bs_sorted (before @ es)" "\<forall>x\<in>set es. canonical_id x" for before es n d
    using that
  proof (induction es arbitrary: before)
    case (Cons x es)
    have "\<forall>l\<in>set before. l < x" using Cons.prems(1) by (simp add: bs_sorted_def sorted_wrt_append)
    then have "bs_insert x before = before @ [x]" "x \<notin> set before" by (auto simp: bs_insert_last)
    moreover have "validate_canonical_id n x = Ok ()" using Cons.prems(2) by (simp add: result_simps)
    ultimately have "check_version n d x before = Ok (before @ [x])" by (simp add: check_version_def bs_contains_def)
    moreover have "try_fold (check_version n d) es (before @ [x]) = Ok ((before @ [x]) @ es)"
      by (rule Cons.IH) (use Cons.prems in auto)
    ultimately show ?case by simp
  qed simp
  from this [of "[]" ids] assms show ?thesis by (simp add: restore_execution_ids_def)
qed

lemma check_receipt_ids_ok:
  assumes "distinct (combo_receipt_ids combos)" "set (combo_receipt_ids combos) \<subseteq> set ids"
  shows "check_receipt_ids ids combos = Ok ()"
proof -
  have "\<exists>seen'. try_fold (\<lambda>i seen. if \<not> bs_contains i ids \<or> bs_contains i seen then Err e else Ok (bs_insert i seen)) is seen
      = Ok seen'" if "distinct is" "set is \<subseteq> set ids" "set is \<inter> set seen = {}" for "is" seen e
    using that by (induction "is" arbitrary: seen) (auto simp: bs_contains_def)
  from this [of "combo_receipt_ids combos" "[]"
      "''persisted combination execution is missing or duplicated in account receipts''"] assms
  show ?thesis by (simp add: check_receipt_ids_def and_then_eq_Inr)
qed

lemma restore_realized_roundtrip:
  assumes "bt_sorted m" "\<And>c d. (c, d) \<in> set m \<Longrightarrow> currency_new (code_text c) = Ok c \<and> printable d"
  shows "restore_realized (map (\<lambda>(c, d). (code_text c, decimal_to_string d)) m) = Ok m"
proof -
  have "try_fold (\<lambda>(code, amount) acc. and_then (currency_new code) (\<lambda>c.
      and_then (decimal_field n amount) (\<lambda>d. Ok (bt_insert c d acc))))
      (map (\<lambda>(c, d). (code_text c, decimal_to_string d)) es) before = Ok (before @ es)"
    if "bt_sorted (before @ es)" "\<And>c d. (c, d) \<in> set es \<Longrightarrow> currency_new (code_text c) = Ok c \<and> printable d" for before es n
    using that
  proof (induction es arbitrary: before)
    case (Cons x es)
    obtain c d where x: "x = (c, d)" by (cases x)
    have "\<forall>(l, w)\<in>set before. l < c" using Cons.prems(1) by (auto simp: bt_sorted_def x sorted_wrt_append)
    then have "bt_insert c d before = before @ [x]" by (simp add: bt_insert_last x)
    moreover have "try_fold (\<lambda>(code, amount) acc. and_then (currency_new code) (\<lambda>c.
        and_then (decimal_field n amount) (\<lambda>d. Ok (bt_insert c d acc))))
        (map (\<lambda>(c, d). (code_text c, decimal_to_string d)) es) (before @ [x]) = Ok ((before @ [x]) @ es)"
      by (rule Cons.IH) (use Cons.prems in auto)
    ultimately show ?case using Cons.prems(2) [of c d] by (simp add: x)
  qed simp
  from this [of "[]" m] assms show ?thesis by (simp add: restore_realized_def)
qed

section \<open>What a running service records\<close>

definition position_recorded :: "paper_setup \<Rightarrow> string \<Rightarrow> portfolio \<Rightarrow> bool" where
  "position_recorded u i p \<longleftrightarrow> pf_account_id p = pa_account_id (pu_account u) \<and> pf_instrument_id p = i \<and> canonical_id i
     \<and> position_wf p \<and> (ppo_short_exposure (pu_policy u) = None \<longrightarrow> 0 \<le> scaled (pf_quantity p))
     \<and> printable (pf_quantity p) \<and> printable (pf_average_cost p) \<and> printable (pf_realized_pnl p)"

definition lots_recorded :: "paper_setup \<Rightarrow> tax_lot_book \<Rightarrow> bool" where
  "lots_recorded u b \<longleftrightarrow> (\<forall>(i, ls)\<in>set (tb_lots b). \<forall>l\<in>set ls. tl_currency l = Currency (pa_currency (pu_account u))
          \<and> printable (tl_remaining_quantity l) \<and> printable (tl_unit_cost l))
     \<and> (\<forall>(i, ls)\<in>set (tb_short_lots b). \<forall>l\<in>set ls. st_currency l = Currency (pa_currency (pu_account u))
          \<and> printable (st_remaining_quantity l) \<and> printable (st_unit_proceeds l))
     \<and> bt_sorted (tb_realized_by_currency b)
     \<and> (\<forall>(c, d)\<in>set (tb_realized_by_currency b). currency_new (code_text c) = Ok c \<and> printable d)
     \<and> bs_sorted (tb_applied_lot_ids b) \<and> bs_sorted (tb_applied_disposal_ids b)
     \<and> bs_sorted (tb_applied_short_lot_ids b) \<and> bs_sorted (tb_applied_cover_ids b)"

definition books_recorded :: "paper_setup \<Rightarrow> 'z paper_durable_scheme \<Rightarrow> bool" where
  "books_recorded u s \<longleftrightarrow> printable (pb_cash s)
     \<and> bt_sorted (pb_portfolios s) \<and> (\<forall>(i, p)\<in>set (pb_portfolios s). position_recorded u i p)
     \<and> lots_recorded u (pb_tax_lots s)
     \<and> bs_sorted (pb_execution_ids s) \<and> (\<forall>x\<in>set (pb_execution_ids s). canonical_id x)
     \<and> distinct (combo_receipt_ids (pv_combo_orders s))
     \<and> bt_sorted (pd_marks s) \<and> (\<forall>(i, m)\<in>set (pd_marks s). canonical_id i \<and> printable m \<and> ZERO < m)
     \<and> bt_sorted (pb_strategy_attribution s)
     \<and> (\<forall>(i, m)\<in>set (pb_strategy_attribution s). canonical_id i \<and> (\<forall>(k, q)\<in>set m. canonical_id k \<and> printable q))"

definition trading_recorded :: "(string \<Rightarrow> bool) \<Rightarrow> paper_setup \<Rightarrow> 'z paper_durable_scheme \<Rightarrow> bool" where
  "trading_recorded rfc3339 u s \<longleftrightarrow>
     (\<forall>(k, o1)\<in>set (pv_orders s). order_recorded rfc3339 (pa_account_id (pu_account u)) k o1)
     \<and> (\<forall>(k, c)\<in>set (pv_combo_orders s). combo_recorded rfc3339 (pa_account_id (pu_account u)) k c)
     \<and> bt_sorted (pd_risk_evidence s) \<and> bt_sorted (pd_combo_risk_evidence s)
     \<and> (\<forall>(k, e)\<in>set (pd_risk_evidence s). evidence_ok rfc3339 e \<and> k = rd_decision_id (pre_decision e)
          \<and> rd_policy_version (pre_decision e) = ppo_version (pu_policy u)
          \<and> rd_actor (pre_decision e) = ''paper_risk_engine'')
     \<and> (\<forall>(k, e)\<in>set (pd_combo_risk_evidence s). combo_evidence_ok rfc3339 e \<and> k = rd_decision_id (pce_decision e)
          \<and> rd_policy_version (pce_decision e) = ppo_version (pu_policy u)
          \<and> rd_actor (pce_decision e) = ''paper_risk_engine'')
     \<and> (\<forall>(_, o1)\<in>set (pv_orders s). \<exists>x. bt_get (pd_risk_evidence s) (''paper-risk-'' @ oi_intent_id (oo_intent (por_oms o1))) = Some x
          \<and> rd_approved (pre_decision x) \<and> pre_intent x = oo_intent (por_oms o1) \<and> pre_market x = por_market o1)
     \<and> (\<forall>(_, c)\<in>set (pv_combo_orders s). \<exists>x. bt_get (pd_combo_risk_evidence s) (''paper-combo-risk-'' @ co_intent_id (pco_intent c)) = Some x
          \<and> rd_approved (pce_decision x) \<and> pce_intent x = pco_intent c \<and> pce_market x = pco_market c)"

definition report_recorded :: "(string \<Rightarrow> bool) \<Rightarrow> reconciliation_report \<Rightarrow> bool" where
  "report_recorded rfc3339 r \<longleftrightarrow> canonical_id (rcr_reconciliation_id r) \<and> canonical_shape (rcr_reconciled_at r)
     \<and> rfc3339 (rcr_reconciled_at r)
     \<and> (\<forall>x\<in>set (rcr_issues r). canonical_id (rci_incident_id x)
         \<and> (\<forall>v\<in>{rci_category x, rci_subject x, rci_detail x}. trim v \<noteq> [] \<and> length v \<le> 1024))"

definition receipt_recorded :: "(string \<Rightarrow> bool) \<Rightarrow> corporate_action_receipt \<Rightarrow> bool" where
  "receipt_recorded rfc3339 r \<longleftrightarrow> action_validate rfc3339 (cat_action r) = Ok () \<and> printable (action_value (cat_action r))
     \<and> canonical_id (cat_applied_by r) \<and> canonical_shape (cat_applied_at r) \<and> rfc3339 (cat_applied_at r)
     \<and> action_effective_at (cat_action r) \<le> cat_applied_at r
     \<and> printable (cat_quantity_before r) \<and> printable (cat_quantity_after r) \<and> printable (cat_cash_delta r)
     \<and> action_effect (cat_action r) (cat_quantity_before r) (cat_quantity_after r) (cat_cash_delta r) = Ok True"

definition day_recorded :: "(string \<Rightarrow> bool) \<Rightarrow> string \<Rightarrow> string \<Rightarrow> paper_day \<Rightarrow> bool" where
  "day_recorded rfc3339 calendar date d \<longleftrightarrow> validate_exchange_date rfc3339 date = Ok ()
     \<and> canonical_id calendar \<and> pdy_calendar_id d = calendar \<and> pdy_session_opens_at d < pdy_session_closes_at d
     \<and> (\<forall>at\<in>{pdy_session_opens_at d, pdy_session_closes_at d}. canonical_shape at \<and> rfc3339 at)"

definition controls_recorded :: "(string \<Rightarrow> bool) \<Rightarrow> paper_setup \<Rightarrow> 'z paper_durable_scheme \<Rightarrow> bool" where
  "controls_recorded rfc3339 u s \<longleftrightarrow> printable (pd_peak_equity s)
     \<and> (case pd_daily_baseline_date s of None \<Rightarrow> pd_daily_baseline_equity s = ZERO
        | Some v \<Rightarrow> validate_exchange_date rfc3339 v = Ok () \<and> printable (pd_daily_baseline_equity s))
     \<and> ksr_version (pd_kill_switches s) \<noteq> [] \<and> bs_sorted (ksr_active (pd_kill_switches s))
     \<and> (\<forall>x\<in>set (ksr_active (pd_kill_switches s)). scope_validate x = Ok ())
     \<and> (\<forall>x\<in>set (pd_kill_switch_operations s). canonical_id (kso_operator x) \<and> canonical_shape (kso_operated_at x)
         \<and> rfc3339 (kso_operated_at x) \<and> (\<exists>y. scope_validate y = Ok () \<and> kso_scope x = scope_as_key y))
     \<and> bt_sorted (pd_incidents s) \<and> (\<forall>(k, x)\<in>set (pd_incidents s). canonical_id k \<and> rci_incident_id (rin_issue x) = k
         \<and> rci_category (rin_issue x) \<noteq> [] \<and> rci_subject (rin_issue x) \<noteq> [] \<and> rci_detail (rin_issue x) \<noteq> [])
     \<and> (\<forall>(date, d)\<in>set (pd_paper_days s). day_recorded rfc3339 (ppo_trading_calendar_id (pu_policy u)) date d)
     \<and> (pd_last_reconciled_at s = None \<longleftrightarrow> pd_last_reconciliation_clean s = None)
     \<and> (\<forall>at. pd_last_reconciled_at s = Some at \<longrightarrow> canonical_shape at \<and> rfc3339 at)
     \<and> 0 < pd_next_reconciliation s
     \<and> (\<forall>r. pd_latest_reconciliation s = Some r \<longrightarrow> report_recorded rfc3339 r
          \<and> pd_last_reconciled_at s = Some (rcr_reconciled_at r) \<and> pd_last_reconciliation_clean s = Some (report_is_clean r)
          \<and> rcr_reconciliation_id r = reconciliation_id (pd_next_reconciliation s - 1))
     \<and> (\<forall>x\<in>set (pd_order_operations s). canonical_id (oop_operator x) \<and> canonical_shape (oop_operated_at x)
         \<and> rfc3339 (oop_operated_at x)
         \<and> (bt_get (pv_orders s) (oop_order_id x) \<noteq> None \<or> bt_get (pv_combo_orders s) (oop_order_id x) \<noteq> None))
     \<and> (\<forall>r\<in>set (pd_corporate_actions s). receipt_recorded rfc3339 r)
     \<and> distinct (map (\<lambda>r. action_id (cat_action r)) (pd_corporate_actions s))"

section \<open>Each part read back\<close>

lemma entryD: "\<forall>(k, v)\<in>set m. P k v \<Longrightarrow> (k, v) \<in> set m \<Longrightarrow> P k v"
  by blast

lemma position_roundtrip:
  assumes "position_recorded u i p" "canonical_id (pa_account_id (pu_account u))"
  shows "restore_position u i (position_text p) = Ok p"
proof -
  have wf: "\<not> ((pf_quantity p \<ge> ZERO \<and> pf_average_cost p < ZERO) \<or> pf_quantity p = ZERO \<and> pf_average_cost p \<noteq> ZERO)"
    using assms(1) by (cases p) (auto simp: position_recorded_def position_wf_def decimal_order decimal.expand)
  have signed: "portfolio_recover_signed (pa_account_id (pu_account u)) i (pf_quantity p) (pf_average_cost p)
      (pf_realized_pnl p) = Ok p"
    using assms wf by (cases p) (auto simp: portfolio_recover_signed_def position_recorded_def and_then_eq_Inr result_simps)
  then show ?thesis
    using assms(1)
    by (auto simp: restore_position_def position_text_def position_recorded_def portfolio_recover_def decimal_cmp)
qed

lemma long_lot_roundtrip:
  "tl_instrument_id l = i \<Longrightarrow> tl_currency l = c \<Longrightarrow> printable (tl_remaining_quantity l) \<Longrightarrow> printable (tl_unit_cost l)
    \<Longrightarrow> restore_long_lot c i (long_lot_text l) = Ok l"
  by (cases l) (auto simp: restore_long_lot_def long_lot_text_def)

lemma short_lot_roundtrip:
  "st_instrument_id l = i \<Longrightarrow> st_currency l = c \<Longrightarrow> printable (st_remaining_quantity l) \<Longrightarrow> printable (st_unit_proceeds l)
    \<Longrightarrow> restore_short_lot c i (short_lot_text l) = Ok l"
  by (cases l) (auto simp: restore_short_lot_def short_lot_text_def)

lemma lot_book_roundtrip:
  assumes "book_ok rfc b" "lots_recorded u b"
    "currency_new (pa_currency (pu_account u)) = Ok (Currency (pa_currency (pu_account u)))"
  shows "restore_lot_book rfc (pa_currency (pu_account u)) (lot_book_text b) = book_recover rfc b"
proof -
  let ?c = "Currency (pa_currency (pu_account u))"
  note r = assms(2) [unfolded lots_recorded_def]
  from assms(1) have b: "bt_sorted (tb_lots b)" "bt_sorted (tb_short_lots b)" by (simp_all add: book_ok_def buckets_ok_def)
  have long: "restore_entries (\<lambda>i. try_map (restore_long_lot ?c i)) (map_values (map long_lot_text) (tb_lots b)) = Ok (tb_lots b)"
  proof (rule restore_entries_roundtrip [OF b(1)])
    fix i ls assume i: "(i, ls) \<in> set (tb_lots b)"
    have "tl_instrument_id l = i" if "l \<in> set ls" for l
      using assms(1) i that by (fastforce simp: book_ok_def buckets_ok_def result_simps)
    then show "try_map (restore_long_lot ?c i) (map long_lot_text ls) = Ok ls"
      using r i by (intro try_map_printed long_lot_roundtrip) fastforce+
  qed
  have short: "restore_entries (\<lambda>i. try_map (restore_short_lot ?c i)) (map_values (map short_lot_text) (tb_short_lots b))
      = Ok (tb_short_lots b)"
  proof (rule restore_entries_roundtrip [OF b(2)])
    fix i ls assume i: "(i, ls) \<in> set (tb_short_lots b)"
    have "st_instrument_id l = i" if "l \<in> set ls" for l
      using assms(1) i that by (fastforce simp: book_ok_def buckets_ok_def result_simps)
    then show "try_map (restore_short_lot ?c i) (map short_lot_text ls) = Ok ls"
      using r i by (intro try_map_printed short_lot_roundtrip) fastforce+
  qed
  have realized: "restore_realized (map (\<lambda>(c, d). (code_text c, decimal_to_string d)) (tb_realized_by_currency b))
      = Ok (tb_realized_by_currency b)"
    using r by (intro restore_realized_roundtrip) blast+
  let ?b = "\<lparr>tb_lots = tb_lots b, tb_applied_lot_ids = tb_applied_lot_ids b,
      tb_applied_disposal_ids = tb_applied_disposal_ids b, tb_realized_by_currency = tb_realized_by_currency b,
      tb_short_lots = tb_short_lots b, tb_applied_short_lot_ids = tb_applied_short_lot_ids b,
      tb_applied_cover_ids = tb_applied_cover_ids b\<rparr>"
  have "?b = b" by simp
  then have book: "book_recover rfc ?b = book_recover rfc b" by (rule arg_cong)
  show ?thesis
    unfolding restore_lot_book_def lot_book_text_def persistent_lot_book.simps
    using r by (simp add: assms(3) long short realized book)
qed

lemma books_roundtrip:
  assumes "books_ok rfc s" "books_recorded u s" "paper_account_validate (pu_account u) = Ok ()"
    "set (combo_receipt_ids (pv_combo_orders s)) \<subseteq> set (pb_execution_ids s)"
  shows "restore_books rfc u (persistent_state sha u s) (pb_cash s) (pv_combo_orders s)
    = and_then (book_recover rfc (pb_tax_lots s)) (\<lambda>_. Ok (\<lparr>pb_cash = pb_cash s, pb_portfolios = pb_portfolios s, pb_tax_lots = pb_tax_lots s,
      pb_strategy_attribution = pb_strategy_attribution s, pb_execution_ids = pb_execution_ids s\<rparr>, pd_marks s))"
proof -
  have account: "canonical_id (pa_account_id (pu_account u))"
    "currency_new (pa_currency (pu_account u)) = Ok (Currency (pa_currency (pu_account u)))"
    using assms(3) by (auto simp: paper_account_validate_def and_then_eq_Inr result_simps currency_new_def split: if_splits)
  have r: "bt_sorted (pb_portfolios s)" "\<forall>(i, p)\<in>set (pb_portfolios s). position_recorded u i p"
    "lots_recorded u (pb_tax_lots s)" "bs_sorted (pb_execution_ids s)" "\<forall>x\<in>set (pb_execution_ids s). canonical_id x"
    "distinct (combo_receipt_ids (pv_combo_orders s))" "bt_sorted (pd_marks s)"
    "\<forall>(i, m)\<in>set (pd_marks s). canonical_id i \<and> printable m \<and> ZERO < m" "bt_sorted (pb_strategy_attribution s)"
    "\<forall>(i, m)\<in>set (pb_strategy_attribution s). canonical_id i \<and> (\<forall>(k, q)\<in>set m. canonical_id k \<and> printable q)"
    using assms(2) unfolding books_recorded_def by - (elim conjE, assumption)+
  have positions: "restore_entries (restore_position u) (map_values position_text (pb_portfolios s)) = Ok (pb_portfolios s)"
    by (rule restore_entries_roundtrip [OF r(1)]) (rule position_roundtrip [OF entryD [OF r(2)] account(1)])
  have "book_ok rfc (pb_tax_lots s)" using assms(1) by (simp add: books_ok_def)
  note recovered = book_recover_ok [OF this]
  have lots: "restore_lot_book rfc (pa_currency (pu_account u)) (lot_book_text (pb_tax_lots s)) = book_recover rfc (pb_tax_lots s)"
    using assms(1) by (intro lot_book_roundtrip r(3) account(2)) (simp add: books_ok_def)
  have ids: "restore_execution_ids (pb_execution_ids s) = Ok (pb_execution_ids s)"
    by (rule restore_execution_ids_roundtrip [OF r(4,5)])
  have receipts: "check_receipt_ids (pb_execution_ids s) (pv_combo_orders s) = Ok ()"
    by (rule check_receipt_ids_ok [OF r(6) assms(4)])
  have marks: "restore_entries restore_mark (map_values decimal_to_string (pd_marks s)) = Ok (pd_marks s)"
  proof (rule restore_entries_roundtrip [OF r(7)])
    fix i m assume "(i, m) \<in> set (pd_marks s)"
    from entryD [OF r(8) this] show "restore_mark i (decimal_to_string m) = Ok m"
      by (auto simp: restore_mark_def and_then_eq_Inr result_simps)
  qed
  have attribution: "restore_entries restore_attribution (map_values (map_values decimal_to_string) (pb_strategy_attribution s))
      = Ok (pb_strategy_attribution s)"
  proof (rule restore_entries_roundtrip [OF r(9)])
    fix i m assume i: "(i, m) \<in> set (pb_strategy_attribution s)"
    have keys: "canonical_id i" "\<forall>(k, q)\<in>set m. canonical_id k \<and> printable q" using entryD [OF r(10) i] by blast+
    have "bt_sorted m" using assms(1) i bt_get_iff [OF r(9), of i m] by (simp add: books_ok_def)
    then have "restore_entries (\<lambda>strategy_id v.
       and_then (validate_canonical_id ''persisted attribution strategy_id'' strategy_id) (\<lambda>_.
       decimal_field ''persisted attribution quantity'' v)) (map_values decimal_to_string m) = Ok m"
      by (rule restore_entries_roundtrip) (use keys(2) in \<open>fastforce simp: and_then_eq_Inr result_simps\<close>)
    with keys(1) show "restore_attribution i (map_values decimal_to_string m) = Ok m"
      by (simp add: restore_attribution_def and_then_eq_Inr result_simps)
  qed
  show ?thesis
    unfolding restore_books_def persistent_state_def persistent_paper_state.simps
    by (simp add: positions lots ids receipts marks attribution recovered)
qed

lemma bt_entry: "bt_sorted m \<Longrightarrow> (k, v) \<in> set m \<Longrightarrow> bt_get m k = Some v"
  by (simp add: bt_get_iff)

lemma check_order_evidence_Ok:
  "check_order_evidence evidence (cid, o1) = Ok () \<longleftrightarrow>
     (\<exists>x. bt_get evidence (''paper-risk-'' @ oi_intent_id (oo_intent (por_oms o1))) = Some x
        \<and> rd_approved (pre_decision x) \<and> pre_intent x = oo_intent (por_oms o1) \<and> pre_market x = por_market o1)"
  by (auto simp: check_order_evidence_def ok_or_def and_then_eq_Inr split: option.splits)

lemma check_combo_evidence_Ok:
  "check_combo_evidence evidence (cid, c) = Ok () \<longleftrightarrow>
     (\<exists>x. bt_get evidence (''paper-combo-risk-'' @ co_intent_id (pco_intent c)) = Some x
        \<and> rd_approved (pce_decision x) \<and> pce_intent x = pco_intent c \<and> pce_market x = pco_market c)"
  by (auto simp: check_combo_evidence_def ok_or_def and_then_eq_Inr split: option.splits)

lemma trading_roundtrip:
  assumes "service_ok rfc s" "trading_recorded rfc u s"
  shows "restore_trading rfc u (persistent_state sha u s)
    = Ok (pv_orders s, pd_risk_evidence s, pv_combo_orders s, pd_combo_risk_evidence s)"
proof -
  let ?a = "pa_account_id (pu_account u)" and ?v = "ppo_version (pu_policy u)"
  have r: "\<forall>(k, o1)\<in>set (pv_orders s). order_recorded rfc ?a k o1"
    "\<forall>(k, c)\<in>set (pv_combo_orders s). combo_recorded rfc ?a k c"
    "bt_sorted (pd_risk_evidence s)" "bt_sorted (pd_combo_risk_evidence s)"
    "\<forall>(k, e)\<in>set (pd_risk_evidence s). evidence_ok rfc e \<and> k = rd_decision_id (pre_decision e)
          \<and> rd_policy_version (pre_decision e) = ?v \<and> rd_actor (pre_decision e) = ''paper_risk_engine''"
    "\<forall>(k, e)\<in>set (pd_combo_risk_evidence s). combo_evidence_ok rfc e \<and> k = rd_decision_id (pce_decision e)
          \<and> rd_policy_version (pce_decision e) = ?v \<and> rd_actor (pce_decision e) = ''paper_risk_engine''"
    using assms(2) unfolding trading_recorded_def by - (elim conjE, assumption)+
  have each: "\<forall>x\<in>set (pv_orders s). check_order_evidence (pd_risk_evidence s) x = Ok ()"
    "\<forall>x\<in>set (pv_combo_orders s). check_combo_evidence (pd_combo_risk_evidence s) x = Ok ()"
    using assms(2) unfolding trading_recorded_def by (auto simp: check_order_evidence_Ok check_combo_evidence_Ok)
  have sorted: "bt_sorted (pv_orders s)" "bt_sorted (pv_combo_orders s)" using service_okD(2,3) [OF assms(1)] .
  have orders: "restore_entries (restore_order rfc ?a) (map_values persistent_order_from (pv_orders s)) = Ok (pv_orders s)"
    by (rule restore_entries_roundtrip [OF sorted(1)])
      (rule restore_order_roundtrip [OF service_okD(4) [OF assms(1) bt_entry [OF sorted(1)]] entryD [OF r(1)]])
  have combos: "restore_entries (restore_combo_order rfc ?a) (map_values persistent_combo_order_from (pv_combo_orders s))
      = Ok (pv_combo_orders s)"
    by (rule restore_entries_roundtrip [OF sorted(2)])
      (rule restore_combo_roundtrip [OF service_okD(5) [OF assms(1) bt_entry [OF sorted(2)]] entryD [OF r(2)]])
  have evidence: "restore_entries (restore_risk_evidence rfc ?v) (map_values persistent_risk_evidence_from (pd_risk_evidence s))
      = Ok (pd_risk_evidence s)"
  proof (rule restore_entries_roundtrip [OF r(3)])
    fix k e assume "(k, e) \<in> set (pd_risk_evidence s)"
    note e = entryD [OF r(5) this]
    have "canonical_id (oi_intent_id (pre_intent e))" "rd_decision_id (pre_decision e) = ''paper-risk-'' @ oi_intent_id (pre_intent e)"
      using e by (auto simp: evidence_ok_def result_simps Let_def)
    then have "validate_canonical_id ''persisted risk decision_id'' k = Ok ()"
      using e by (simp add: validate_canonical_id_eq_Ok canonical_id_def is_id_byte_def byte_simps)
    with e show "restore_risk_evidence rfc ?v k (persistent_risk_evidence_from e) = Ok e"
      by (simp add: restore_risk_evidence_def evidence_roundtrip)
  qed
  have combo_evidence: "restore_entries (restore_combo_risk_evidence rfc ?v)
      (map_values persistent_combo_risk_evidence_from (pd_combo_risk_evidence s)) = Ok (pd_combo_risk_evidence s)"
  proof (rule restore_entries_roundtrip [OF r(4)])
    fix k e assume "(k, e) \<in> set (pd_combo_risk_evidence s)"
    note e = entryD [OF r(6) this]
    have "canonical_id (co_intent_id (pce_intent e))"
      using e combo_intent_id_canonical [of rfc "pce_intent e"] by (simp add: combo_evidence_ok_def)
    then have "validate_canonical_id ''persisted combo risk decision_id'' k = Ok ()"
      using e by (simp add: combo_evidence_ok_def validate_canonical_id_eq_Ok canonical_id_def is_id_byte_def byte_simps)
    with e show "restore_combo_risk_evidence rfc ?v k (persistent_combo_risk_evidence_from e) = Ok e"
      by (simp add: restore_combo_risk_evidence_def combo_evidence_roundtrip)
  qed
  have "try_each (check_order_evidence (pd_risk_evidence s)) (pv_orders s) = Ok ()"
    "try_each (check_combo_evidence (pd_combo_risk_evidence s)) (pv_combo_orders s) = Ok ()"
    using each by (simp_all add: result_simps)
  then show ?thesis
    unfolding restore_trading_def persistent_state_def persistent_paper_state.simps Let_def
    by (simp add: orders combos evidence combo_evidence)
qed

lemma parse_scope_key [simp]: "scope_validate y = Ok () \<Longrightarrow> parse_kill_switch_scope (scope_as_key y) = Ok y"
  using scope_from_key_as_key [of "scope_as_key y" y] by (simp add: parse_kill_switch_scope_def)

lemma switches_roundtrip:
  assumes "ksr_version k \<noteq> []" "bs_sorted (ksr_active k)" "\<forall>x\<in>set (ksr_active k). scope_validate x = Ok ()"
  shows "restore_switches (ksr_version k) (ks_active_keys k) = Ok k"
proof -
  let ?step = "\<lambda>key r. and_then (parse_kill_switch_scope key) (\<lambda>s.
       case ks_activate s r of (Inl e, _) \<Rightarrow> Inl e | (Inr _, r') \<Rightarrow> Ok r')"
  have "try_fold ?step (map scope_as_key es) (k\<lparr>ksr_active := before\<rparr>) = Ok (k\<lparr>ksr_active := before @ es\<rparr>)"
    if "bs_sorted (before @ es)" "\<forall>x\<in>set es. scope_validate x = Ok ()" for before es
    using that
  proof (induction es arbitrary: before)
    case (Cons x es)
    have "\<forall>l\<in>set before. l < x" using Cons.prems(1) by (simp add: bs_sorted_def sorted_wrt_append)
    then have "bs_insert x before = before @ [x]" by (simp add: bs_insert_last)
    then have "?step (scope_as_key x) (k\<lparr>ksr_active := before\<rparr>) = Ok (k\<lparr>ksr_active := before @ [x]\<rparr>)"
      using Cons.prems(2) by (simp add: ks_activate_simps)
    moreover have "try_fold ?step (map scope_as_key es) (k\<lparr>ksr_active := before @ [x]\<rparr>) = Ok (k\<lparr>ksr_active := (before @ [x]) @ es\<rparr>)"
      by (rule Cons.IH) (use Cons.prems in auto)
    ultimately show ?case by simp
  qed simp
  from this [of "[]" "ksr_active k"] assms show ?thesis
    by (cases k) (simp add: restore_switches_def kill_switch_registry_new_def ks_active_keys_def)
qed

definition names_incident_twice :: "reconciliation_report \<Rightarrow> bool" where
  "names_incident_twice r \<longleftrightarrow> \<not> distinct (map rci_incident_id (rcr_issues r))"

lemma report_roundtrip:
  assumes "report_recorded rfc r"
  shows "restore_report rfc r =
    (if names_incident_twice r then Err ''persisted paper reconciliation repeats an incident ID'' else Ok r)"
proof -
  have fold: "if distinct (map rci_incident_id xs) \<and> rci_incident_id ` set xs \<inter> set seen = {}
      then \<exists>seen'. try_fold restore_issue xs seen = Ok seen'
      else try_fold restore_issue xs seen = Err ''persisted paper reconciliation repeats an incident ID''"
    if "set xs \<subseteq> set (rcr_issues r)" for xs seen
    using that
  proof (induction xs arbitrary: seen)
    case (Cons x xs)
    then have parts: "canonical_id (rci_incident_id x)" "\<forall>v\<in>{rci_category x, rci_subject x, rci_detail x}. trim v \<noteq> [] \<and> length v \<le> 1024"
      using assms Cons.prems unfolding report_recorded_def by (auto simp only: list.set_intros subset_iff)
    have named: "validate_canonical_id n (rci_incident_id x) = Ok ()" for n using parts(1) by (simp add: result_simps)
    have "validate_broker_reason n v = Ok ()" if "v \<in> {rci_category x, rci_subject x, rci_detail x}" for n v
      using parts(2) that by (force simp: validate_broker_reason_def)
    then have "restore_issue x seen = (if rci_incident_id x \<in> set seen
        then Err ''persisted paper reconciliation repeats an incident ID'' else Ok (bs_insert (rci_incident_id x) seen))"
      by (simp add: restore_issue_def bs_contains_def named)
    with Cons.IH [of "bs_insert (rci_incident_id x) seen"] Cons.prems show ?case by (auto split: if_splits)
  qed simp
  have head: "validate_canonical_id ''persisted paper reconciliation_id'' (rcr_reconciliation_id r) = Ok ()"
    "validate_utc_timestamp rfc ''persisted paper reconciliation time'' (rcr_reconciled_at r) = Ok ()"
    using assms by (simp_all add: report_recorded_def result_simps)
  show ?thesis
    using fold [of "rcr_issues r" "[]"] by (auto simp: restore_report_def names_incident_twice_def head)
qed

lemma action_roundtrip:
  assumes "receipt_recorded rfc r"
  shows "receipt_from_persistent rfc (corporate_action_text r) = Ok r"
proof -
  note parts = assms [unfolded receipt_recorded_def]
  have "parse_action (action_type a) (action_id a) (action_instrument_id a) (action_effective_at a) (action_value a) = Ok a" for a
    by (cases a) (simp_all add: parse_action_def)
  moreover have "validate_canonical_id ''persisted corporate action operator'' (cat_applied_by r) = Ok ()"
    "validate_utc_timestamp rfc ''persisted corporate action time'' (cat_applied_at r) = Ok ()"
    "\<not> cat_applied_at r < action_effective_at (cat_action r)"
    using parts by (auto simp: result_simps not_less)
  ultimately show ?thesis
    unfolding receipt_from_persistent_def corporate_action_text_def Let_def persistent_action.simps
    using parts by simp
qed

lemma actions_roundtrip:
  assumes "\<forall>r\<in>set rs. receipt_recorded rfc r" "distinct (map (\<lambda>r. action_id (cat_action r)) rs)"
  shows "restore_corporate_actions rfc (map corporate_action_text rs) = Ok rs"
proof -
  have "try_fold (restore_action rfc) (map corporate_action_text es) before = Ok (before @ es)"
    if "\<forall>r\<in>set es. receipt_recorded rfc r" "distinct (map (\<lambda>r. action_id (cat_action r)) (before @ es))" for before es
    using that
  proof (induction es arbitrary: before)
    case (Cons x es)
    then have "restore_action rfc (corporate_action_text x) before = Ok (before @ [x])"
      by (auto simp: restore_action_def action_roundtrip)
    moreover have "try_fold (restore_action rfc) (map corporate_action_text es) (before @ [x]) = Ok ((before @ [x]) @ es)"
      by (rule Cons.IH) (use Cons.prems in auto)
    ultimately show ?case by simp
  qed simp
  from this [of rs "[]"] assms show ?thesis by (simp add: restore_corporate_actions_def)
qed

lemma peak_roundtrip:
  "printable d \<Longrightarrow> restore_peak_equity (Some (decimal_to_string d)) =
    (if d \<le> ZERO then Err ''persisted peak equity is invalid'' else Ok (Some d))"
  by (auto simp: restore_peak_equity_def try_option_def)

lemma baseline_roundtrip:
  assumes "case date of None \<Rightarrow> equity = ZERO | Some v \<Rightarrow> validate_exchange_date rfc v = Ok () \<and> printable equity"
  shows "restore_baseline rfc date (map_option (\<lambda>_. decimal_to_string equity) date)
    = Ok (map_option (\<lambda>_. equity) date)"
  using assms by (cases date) (simp_all add: restore_baseline_def try_option_def)

lemma switch_operations_roundtrip:
  assumes "\<forall>x\<in>set xs. canonical_id (kso_operator x) \<and> canonical_shape (kso_operated_at x)
         \<and> rfc (kso_operated_at x) \<and> (\<exists>y. scope_validate y = Ok () \<and> kso_scope x = scope_as_key y)"
  shows "try_map (restore_switch_operation rfc) (map switch_operation_text xs) = Ok xs"
proof (rule try_map_printed)
  fix x assume "x \<in> set xs"
  with assms obtain y where x: "canonical_id (kso_operator x)" "canonical_shape (kso_operated_at x)" "rfc (kso_operated_at x)"
    "scope_validate y = Ok ()" "kso_scope x = scope_as_key y" by blast
  have "validate_canonical_id ''persisted kill-switch operator'' (kso_operator x) = Ok ()"
    "validate_utc_timestamp rfc ''persisted kill-switch operation time'' (kso_operated_at x) = Ok ()"
    using x by (simp_all add: result_simps)
  then show "restore_switch_operation rfc (switch_operation_text x) = Ok x"
    using x(4,5) by (cases x; cases "kso_action x") (simp_all add: restore_switch_operation_def switch_operation_text_def)
qed

lemma order_operations_roundtrip:
  assumes "\<forall>x\<in>set xs. canonical_id (oop_operator x) \<and> canonical_shape (oop_operated_at x)
         \<and> rfc (oop_operated_at x) \<and> known (oop_order_id x)"
  shows "try_map (restore_order_operation rfc known) (map order_operation_text xs) = Ok xs"
proof (rule try_map_printed)
  fix x assume "x \<in> set xs"
  with assms have x: "canonical_id (oop_operator x)" "canonical_shape (oop_operated_at x)" "rfc (oop_operated_at x)"
    "known (oop_order_id x)" by blast+
  have "validate_canonical_id ''persisted order operator'' (oop_operator x) = Ok ()"
    "validate_utc_timestamp rfc ''persisted order operation time'' (oop_operated_at x) = Ok ()"
    using x by (simp_all add: result_simps)
  then show "restore_order_operation rfc known (order_operation_text x) = Ok x"
    using x(4) by (cases x; cases "oop_action x")
      (simp_all add: restore_order_operation_def order_operation_text_def order_action_as_str_def)
qed

lemma incidents_roundtrip:
  assumes "bt_sorted m" "\<forall>(k, x)\<in>set m. canonical_id k \<and> rci_incident_id (rin_issue x) = k
         \<and> rci_category (rin_issue x) \<noteq> [] \<and> rci_subject (rin_issue x) \<noteq> [] \<and> rci_detail (rin_issue x) \<noteq> []"
  shows "restore_entries restore_incident (map_values incident_text m) = Ok m"
proof (rule restore_entries_roundtrip [OF assms(1)])
  fix k x assume "(k, x) \<in> set m"
  note x = entryD [OF assms(2) this]
  then have "validate_canonical_id ''persisted incident_id'' k = Ok ()" by (simp add: result_simps)
  with x show "restore_incident k (incident_text x) = Ok x"
    by (cases x; cases "rin_issue x") (auto simp: restore_incident_def incident_text_def)
qed

section \<open>The whole state read back\<close>

lemma receipt_ids_known:
  assumes "service_ok rfc s"
  shows "set (combo_receipt_ids (pv_combo_orders s)) \<subseteq> set (pb_execution_ids s)"
proof -
  have "combo_ids c \<subseteq> set (pb_execution_ids s)" if "(k, c) \<in> set (pv_combo_orders s)" for k c
    using service_okD(7) [OF assms bt_entry [OF service_okD(3) [OF assms] that]] .
  then show ?thesis by (fastforce simp: combo_receipt_ids_def combo_ids_def)
qed

definition recorded :: "(string \<Rightarrow> bool) \<Rightarrow> paper_setup \<Rightarrow> paper_durable \<Rightarrow> bool" where
  "recorded rfc3339 u s \<longleftrightarrow> service_ok rfc3339 s \<and> paper_account_validate (pu_account u) = Ok ()
     \<and> trading_recorded rfc3339 u s \<and> books_recorded u s \<and> controls_recorded rfc3339 u s"

lemma day_checked: "day_recorded rfc calendar date d \<Longrightarrow> check_paper_day rfc calendar (date, d) = Ok ()"
  by (auto simp: day_recorded_def check_paper_day_def session_validate_def validate_exchange_date_def and_then_eq_Inr
      result_simps not_le split: if_splits)

lemma restore_roundtrip:
  assumes "recorded rfc u s" "ksr_version switches = ksr_version (pd_kill_switches s)"
  shows "restore sha rfc u switches (persistent_state sha u s)
    = and_then (book_recover rfc (pb_tax_lots s)) (\<lambda>_.
      if pd_peak_equity s \<le> ZERO then Err ''persisted peak equity is invalid''
      else if (\<exists>r. pd_latest_reconciliation s = Some r \<and> names_incident_twice r)
      then Err ''persisted paper reconciliation repeats an incident ID''
      else and_then (current_equity s) (\<lambda>equity. Ok (s\<lparr>pd_peak_equity := max (pd_peak_equity s) equity\<rparr>)))"
proof -
  have s: "service_ok rfc s" "paper_account_validate (pu_account u) = Ok ()" "trading_recorded rfc u s" "books_recorded u s"
    "controls_recorded rfc u s" using assms(1) by (simp_all add: recorded_def)
  have r: "printable (pd_peak_equity s)"
    "case pd_daily_baseline_date s of None \<Rightarrow> pd_daily_baseline_equity s = ZERO
        | Some v \<Rightarrow> validate_exchange_date rfc v = Ok () \<and> printable (pd_daily_baseline_equity s)"
    "ksr_version (pd_kill_switches s) \<noteq> []" "bs_sorted (ksr_active (pd_kill_switches s))"
    "\<forall>x\<in>set (ksr_active (pd_kill_switches s)). scope_validate x = Ok ()"
    "\<forall>x\<in>set (pd_kill_switch_operations s). canonical_id (kso_operator x) \<and> canonical_shape (kso_operated_at x)
         \<and> rfc (kso_operated_at x) \<and> (\<exists>y. scope_validate y = Ok () \<and> kso_scope x = scope_as_key y)"
    "bt_sorted (pd_incidents s)"
    "\<forall>(k, x)\<in>set (pd_incidents s). canonical_id k \<and> rci_incident_id (rin_issue x) = k
         \<and> rci_category (rin_issue x) \<noteq> [] \<and> rci_subject (rin_issue x) \<noteq> [] \<and> rci_detail (rin_issue x) \<noteq> []"
    "\<forall>(date, d)\<in>set (pd_paper_days s). day_recorded rfc (ppo_trading_calendar_id (pu_policy u)) date d"
    "pd_last_reconciled_at s = None \<longleftrightarrow> pd_last_reconciliation_clean s = None"
    "\<forall>at. pd_last_reconciled_at s = Some at \<longrightarrow> canonical_shape at \<and> rfc at"
    "0 < pd_next_reconciliation s"
    "\<forall>r. pd_latest_reconciliation s = Some r \<longrightarrow> report_recorded rfc r
          \<and> pd_last_reconciled_at s = Some (rcr_reconciled_at r) \<and> pd_last_reconciliation_clean s = Some (report_is_clean r)
          \<and> rcr_reconciliation_id r = reconciliation_id (pd_next_reconciliation s - 1)"
    "\<forall>x\<in>set (pd_order_operations s). canonical_id (oop_operator x) \<and> canonical_shape (oop_operated_at x)
         \<and> rfc (oop_operated_at x)
         \<and> (bt_get (pv_orders s) (oop_order_id x) \<noteq> None \<or> bt_get (pv_combo_orders s) (oop_order_id x) \<noteq> None)"
    "\<forall>r\<in>set (pd_corporate_actions s). receipt_recorded rfc r"
    "distinct (map (\<lambda>r. action_id (cat_action r)) (pd_corporate_actions s))"
    using s(5) unfolding controls_recorded_def by - (elim conjE, assumption)+
  have cash: "printable (pb_cash s)" using s(4) by (simp add: books_recorded_def)
  note trading = trading_roundtrip [OF s(1,3), of sha]
  note books = books_roundtrip [OF service_okD(1) [OF s(1)] s(4,2) receipt_ids_known [OF s(1)], of sha]
  define twice where "twice \<longleftrightarrow> (\<exists>r. pd_latest_reconciliation s = Some r \<and> names_incident_twice r)"
  have report: "try_option (restore_report rfc) (pd_latest_reconciliation s) =
      (if twice
       then Err ''persisted paper reconciliation repeats an incident ID'' else Ok (pd_latest_reconciliation s))"
    using r(13) by (cases "pd_latest_reconciliation s") (simp_all add: try_option_def report_roundtrip twice_def)
  have days: "try_each (check_paper_day rfc (ppo_trading_calendar_id (pu_policy u))) (pd_paper_days s) = Ok ()"
    using r(9) day_checked [of rfc "ppo_trading_calendar_id (pu_policy u)"] by (fastforce simp: result_simps)
  have last: "check_last_reconciliation rfc (pd_last_reconciled_at s) (pd_last_reconciliation_clean s) = Ok ()"
    using r(10,11) by (cases "pd_last_reconciled_at s") (auto simp: check_last_reconciliation_def and_then_eq_Inr result_simps)
  have checkpoint: "check_report (pd_latest_reconciliation s) (pd_last_reconciled_at s) (pd_last_reconciliation_clean s)
      (pd_next_reconciliation s) = Ok ()"
    using r(10,13) by (cases "pd_latest_reconciliation s"; cases "pd_last_reconciled_at s"; cases "pd_last_reconciliation_clean s")
      (auto simp: check_report_def)
  have finger: "setup_fingerprint sha u (pd_kill_switches s) = setup_fingerprint sha u switches"
    by (simp add: setup_fingerprint_def assms(2))
  have base: "(case map_option (\<lambda>_. pd_daily_baseline_equity s) (pd_daily_baseline_date s) of None \<Rightarrow> ZERO | Some d \<Rightarrow> d)
      = pd_daily_baseline_equity s"
    using r(2) by (cases "pd_daily_baseline_date s") simp_all
  have "book_ok rfc (pb_tax_lots s)" using s(1) by (simp add: service_ok_def books_ok_def)
  note recovered = book_recover_ok [OF this]
  define p where "p = persistent_state sha u s"
  have fields: "pts_account_id p = pa_account_id (pu_account u)" "pts_currency p = pa_currency (pu_account u)"
    "pts_configuration_fingerprint p = setup_fingerprint sha u switches" "pts_cash p = decimal_to_string (pb_cash s)"
    "pts_peak_equity p = Some (decimal_to_string (pd_peak_equity s))"
    "pts_daily_baseline_date p = pd_daily_baseline_date s"
    "pts_daily_baseline_equity p = map_option (\<lambda>_. decimal_to_string (pd_daily_baseline_equity s)) (pd_daily_baseline_date s)"
    "pts_active_kill_switches p = ks_active_keys (pd_kill_switches s)"
    "pts_kill_switch_operations p = map switch_operation_text (pd_kill_switch_operations s)"
    "pts_incidents p = map_values incident_text (pd_incidents s)" "pts_paper_days p = pd_paper_days s"
    "pts_last_reconciled_at p = pd_last_reconciled_at s" "pts_last_reconciliation_clean p = pd_last_reconciliation_clean s"
    "pts_next_reconciliation p = pd_next_reconciliation s" "pts_latest_reconciliation p = pd_latest_reconciliation s"
    "pts_order_operations p = map order_operation_text (pd_order_operations s)"
    "pts_corporate_actions p = map corporate_action_text (pd_corporate_actions s)"
    "pts_broker_connected p = pd_broker_connected s"
    by (simp_all add: p_def persistent_state_def finger)
  have operations: "try_map (restore_order_operation rfc
          (\<lambda>cid. bt_get (pv_orders s) cid \<noteq> None \<or> bt_get (pv_combo_orders s) cid \<noteq> None))
        (map order_operation_text (pd_order_operations s)) = Ok (pd_order_operations s)"
    by (rule order_operations_roundtrip [OF r(14)])
  have equity: "current_equity (s\<lparr>pd_peak_equity := ZERO\<rparr>) = current_equity s"
  proof -
    have "cached_mark (s\<lparr>pd_peak_equity := ZERO\<rparr>) p = cached_mark s p" for p by (simp add: cached_mark_def)
    then show ?thesis by (simp add: current_equity_def cong: if_cong)
  qed
  have whole: "\<lparr>pb_cash = pb_cash s, pb_portfolios = pb_portfolios s, pb_tax_lots = pb_tax_lots s,
     pb_strategy_attribution = pb_strategy_attribution s, pb_execution_ids = pb_execution_ids s,
     pv_orders = pv_orders s, pv_combo_orders = pv_combo_orders s, pd_kill_switches = pd_kill_switches s,
     pd_kill_switch_operations = pd_kill_switch_operations s, pd_order_operations = pd_order_operations s,
     pd_broker_connected = pd_broker_connected s, pd_risk_evidence = pd_risk_evidence s,
     pd_combo_risk_evidence = pd_combo_risk_evidence s, pd_marks = pd_marks s, pd_peak_equity = z,
     pd_daily_baseline_date = pd_daily_baseline_date s, pd_daily_baseline_equity = pd_daily_baseline_equity s,
     pd_corporate_actions = pd_corporate_actions s, pd_incidents = pd_incidents s,
     pd_last_reconciled_at = pd_last_reconciled_at s, pd_last_reconciliation_clean = pd_last_reconciliation_clean s,
     pd_latest_reconciliation = pd_latest_reconciliation s, pd_paper_days = pd_paper_days s,
     pd_next_reconciliation = pd_next_reconciliation s\<rparr> = s\<lparr>pd_peak_equity := z\<rparr>" for z by simp
  from equity show ?thesis
    unfolding p_def [symmetric] restore_def fields Let_def twice_def [symmetric]
    by (simp add: trading [folded p_def] books [folded p_def] cash whole peak_roundtrip [OF r(1)] last checkpoint r(12) [THEN gr_implies_not0]
        baseline_roundtrip [OF r(2)] base assms(2) switches_roundtrip [OF r(3-5)] switch_operations_roundtrip [OF r(6)]
        incidents_roundtrip [OF r(7,8)] days report operations [simplified] actions_roundtrip [OF r(15,16)] recovered
        del: case_map_option)
qed

section \<open>Sample states\<close>


definition sample_setup :: paper_setup where
  "sample_setup = \<lparr>pu_account = \<lparr>pa_account_id = ''acct'', pa_currency = ''USD'', pa_initial_cash = Decimal 100000000000,
     pa_environment = ''PAPER''\<rparr>, pu_policy = sample_paper_policy, pu_broker_route = []\<rparr>"

definition sample_incident :: reconciliation_issue where
  "sample_incident = \<lparr>rci_incident_id = ''incident-1-001'', rci_category = ''CASH_MISMATCH'', rci_subject = ''acct'',
     rci_detail = ''local 1000 broker 999''\<rparr>"

text \<open>An account in the middle of its work: an order for one unit, approved and four tenths filled, with the
  lot, position and attribution the fill made, a dividend paid on it, a cancellation asked for, a switch
  active, an open incident with its report, and a finished day.\<close>

definition sample_traded :: order_intent where
  "sample_traded = sample_intent\<lparr>oi_account_id := ''acct'', oi_instrument_id := ''aaa'', oi_quantity := Decimal 100000000,
     oi_environment := ''PAPER''\<rparr>"

definition sample_traded_market :: paper_market_data where
  "sample_traded_market = \<lparr>pm_instrument_id = ''aaa'', pm_mark_price = Decimal 10000000000, pm_observed_at = ''2026-01-31T23:59:59Z''\<rparr>"

definition sample_evidence :: paper_risk_evidence where
  "sample_evidence = \<lparr>pre_intent = sample_traded, pre_decision = \<lparr>rd_decision_id = ''paper-risk-i'', rd_intent_id = ''i'',
       rd_approved = True, rd_reason_codes = [''APPROVED''], rd_policy_version = ''v1'', rd_decided_at = ''2026-01-31T23:59:59Z'',
       rd_correlation_id = ''c'', rd_actor = ''paper_risk_engine'', rd_evaluated_limits = ''limits''\<rparr>,
     pre_market = sample_traded_market, pre_submitted_by = Some ''ops''\<rparr>"

definition sample_partly_filled :: paper_order where
  "sample_partly_filled = \<lparr>por_oms = \<lparr>oo_order_id = ''order-i'', oo_intent = sample_traded, oo_state = PartiallyFilled\<rparr>,
     por_broker_order_id = Some ''b1'', por_broker_order_versions = [''b1''], por_replace_return_state = None,
     por_filled_quantity = Decimal 40000000, por_market = sample_traded_market\<rparr>"

definition sample_lots :: tax_lot_book where
  "sample_lots = tax_lot_book_default\<lparr>tb_lots := [(''aaa'', [\<lparr>tl_lot_id = ''taxlot-e1'', tl_instrument_id = ''aaa'',
       tl_currency = Currency ''USD'', tl_opened_at = ''2026-01-31T23:59:59Z'', tl_remaining_quantity = Decimal 40000000,
       tl_unit_cost = Decimal 10000000000\<rparr>])], tb_applied_lot_ids := [''taxlot-e1'']\<rparr>"

definition sample_durable :: paper_durable where
  "sample_durable = durable_new (pu_account sample_setup) \<lparr>ksr_version = ''k1'', ksr_active = [GlobalScope]\<rparr>
     \<lparr>pb_cash := Decimal 96000400000,
      pb_portfolios := [(''aaa'', \<lparr>pf_account_id = ''acct'', pf_instrument_id = ''aaa'', pf_quantity = Decimal 40000000,
        pf_average_cost = Decimal 10000000000, pf_realized_pnl = ZERO\<rparr>)],
      pb_tax_lots := sample_lots, pb_strategy_attribution := [(''aaa'', [(''s'', Decimal 40000000)])], pb_execution_ids := [''e1''],
      pv_orders := [(''order-i'', sample_partly_filled)], pd_risk_evidence := [(''paper-risk-i'', sample_evidence)],
      pd_incidents := [(''incident-1-001'', \<lparr>rin_issue = sample_incident, rin_explanation = None\<rparr>)],
      pd_latest_reconciliation := Some \<lparr>rcr_reconciliation_id = reconciliation_id 1,
        rcr_reconciled_at = ''2026-01-02T00:00:00Z'', rcr_issues = [sample_incident]\<rparr>,
      pd_last_reconciled_at := Some ''2026-01-02T00:00:00Z'', pd_last_reconciliation_clean := Some False,
      pd_next_reconciliation := 2, pd_peak_equity := Decimal 110000000000, pd_marks := [(''aaa'', Decimal 10000000000)],
      pd_kill_switch_operations := [\<lparr>kso_scope = scope_as_key GlobalScope, kso_action = ActivateSwitch, kso_operator = ''ops'',
        kso_operated_at = ''2026-01-31T23:59:59Z''\<rparr>],
      pd_order_operations := [\<lparr>oop_order_id = ''order-i'', oop_action = CancelRequested, oop_operator = ''ops'',
        oop_operated_at = ''2026-01-31T23:59:59Z''\<rparr>],
      pd_corporate_actions := [\<lparr>cat_action = CashDividendAction ''d1'' ''aaa'' ''2026-01-31T23:59:59Z'' (Decimal 1000000),
        cat_applied_by = ''ops'', cat_applied_at = ''2026-01-31T23:59:59Z'', cat_quantity_before = Decimal 40000000,
        cat_quantity_after = Decimal 40000000, cat_cash_delta = Decimal 400000\<rparr>],
      pd_daily_baseline_date := Some ''2026-01-31'', pd_daily_baseline_equity := Decimal 100000000000,
      pd_paper_days := [(''2026-01-31'', \<lparr>pdy_calendar_id = ''xnys'', pdy_session_opens_at = ''2026-01-02T00:00:00Z'',
        pdy_session_closes_at = ''2026-01-31T23:59:59Z'', pdy_clean = True\<rparr>)]\<rparr>"

lemma empty_books_ok: "service_ok rfc (durable_new a k)"
  by (simp add: service_ok_def books_ok_def book_ok_def buckets_ok_def durable_new_def tax_lot_book_default_def
      used_ids_def bt_sorted_def)

lemma sample_texts:
  "canonical_id (reconciliation_id (Suc 0))" "canonical_shape ''2026-01-02T00:00:00Z''" "canonical_shape ''2026-01-31T23:59:59Z''"
  "trim ''CASH_MISMATCH'' \<noteq> []" "trim ''acct'' \<noteq> []" "trim ''local 1000 broker 999'' \<noteq> []"
  "validate_exchange_date (\<lambda>_. True) ''2026-01-31'' = Ok ()" "canonical_id ''xnys''" "canonical_id ''ops''" "canonical_id ''aaa''"
  "canonical_id ''b1''" "canonical_id ''e1''" "canonical_id ''s''" "canonical_id ''incident-1-001''"
  "''2026-01-02T00:00:00Z'' < ''2026-01-31T23:59:59Z''"
  by code_simp+

lemma sample_intent_recorded:
  "order_intent_validate (\<lambda>_. True) sample_traded = Ok ()" "paper_market_validate (\<lambda>_. True) sample_traded_market = Ok ()"
  "intent_printable sample_traded" "printable (Decimal 10000000000)"
  by code_simp (code_simp, simp_all add: intent_printable_def sample_traded_def sample_intent_def printable_def dec_ok_def in_i128_def)

lemma sample_trading_recorded: "trading_recorded (\<lambda>_. True) sample_setup sample_durable"
proof -
  have traded: "oi_intent_id sample_traded = ''i''" "oi_account_id sample_traded = ''acct''" "oi_environment sample_traded = ''PAPER''"
    "oi_instrument_id sample_traded = ''aaa''" "oi_correlation_id sample_traded = ''c''"
    "pm_instrument_id sample_traded_market = ''aaa''" "pm_mark_price sample_traded_market = Decimal 10000000000"
    by (simp_all add: sample_traded_def sample_intent_def sample_traded_market_def)
  have "order_recorded (\<lambda>_. True) ''acct'' ''order-i'' sample_partly_filled"
    using sample_intent_recorded sample_texts by (simp add: order_recorded_def sample_partly_filled_def traded versions_ok_def)
  moreover have "evidence_ok (\<lambda>_. True) sample_evidence"
    using sample_intent_recorded sample_texts by (simp add: evidence_ok_def sample_evidence_def traded submitter_ok_def)
  ultimately show ?thesis
    by (simp add: trading_recorded_def sample_durable_def durable_new_def sample_setup_def sample_partly_filled_def
        sample_evidence_def sample_paper_policy_def traded bt_sorted_def)
qed

lemma sample_durable_recorded: "recorded (\<lambda>_. True) sample_setup sample_durable"
  unfolding recorded_def
proof (intro conjI)
  show "service_ok (\<lambda>_. True) sample_durable"
    using sample_texts by (auto simp: service_ok_def books_ok_def book_ok_def buckets_ok_def sample_durable_def durable_new_def sample_lots_def
        tax_lot_book_default_def bt_sorted_def used_ids_def fill_ids_def result_simps decimal_cmp order_ok_def sample_partly_filled_def
        sample_traded_def sample_intent_def canonical_id_def is_id_byte_def byte_simps split: if_splits)
  show "paper_account_validate (pu_account sample_setup) = Ok ()"
    by code_simp
  show "books_recorded sample_setup sample_durable"
    using sample_texts by (simp add: books_recorded_def sample_durable_def durable_new_def sample_setup_def lots_recorded_def sample_lots_def
        tax_lot_book_default_def position_recorded_def position_wf_def combo_receipt_ids_def
        printable_def bt_sorted_def bs_sorted_def dec_ok_def in_i128_def decimal_cmp)
  have scope: "\<exists>y. scope_validate y = Ok () \<and> scope_as_key GlobalScope = scope_as_key y"
    by (rule exI [of _ GlobalScope]) simp
  have receipt: "receipt_recorded (\<lambda>_. True) \<lparr>cat_action = CashDividendAction ''d1'' ''aaa'' ''2026-01-31T23:59:59Z'' (Decimal 1000000),
        cat_applied_by = ''ops'', cat_applied_at = ''2026-01-31T23:59:59Z'', cat_quantity_before = Decimal 40000000,
        cat_quantity_after = Decimal 40000000, cat_cash_delta = Decimal 400000\<rparr>"
    unfolding receipt_recorded_def
  proof (intro conjI)
    show "printable (action_value (cat_action \<lparr>cat_action = CashDividendAction ''d1'' ''aaa'' ''2026-01-31T23:59:59Z'' (Decimal 1000000),
        cat_applied_by = ''ops'', cat_applied_at = ''2026-01-31T23:59:59Z'', cat_quantity_before = Decimal 40000000,
        cat_quantity_after = Decimal 40000000, cat_cash_delta = Decimal 400000\<rparr>))" by (simp add: printable_def dec_ok_def in_i128_def)
  qed (code_simp | simp add: printable_def dec_ok_def in_i128_def)+
  show "controls_recorded (\<lambda>_. True) sample_setup sample_durable"
    using sample_texts scope receipt by (simp add: controls_recorded_def sample_durable_def durable_new_def sample_setup_def
        sample_paper_policy_def printable_def dec_ok_def bt_sorted_def bs_sorted_def day_recorded_def report_recorded_def
        report_is_clean_def sample_incident_def in_i128_def)
  show "trading_recorded (\<lambda>_. True) sample_setup sample_durable" by (rule sample_trading_recorded)
qed

lemma new_recorded:
  assumes "printable (pa_initial_cash a)"
  shows "trading_recorded rfc u (durable_new a k)" "books_recorded u (durable_new a k)"
  using assms by (simp_all add: trading_recorded_def books_recorded_def durable_new_def lots_recorded_def
      tax_lot_book_default_def no_empty_bucket_def combo_receipt_ids_def bt_sorted_def bs_sorted_def)

lemma empty_account_refused:
  assumes "paper_account_validate (pu_account u) = Ok ()" "pa_initial_cash (pu_account u) = ZERO"
  shows "restore sha256_hex rfc3339 u k (persistent_state sha256_hex u (durable_new (pu_account u) k))
    = Err ''persisted peak equity is invalid''"
proof -
  let ?s = "durable_new (pu_account u) k"
  have zero: "printable (pa_initial_cash (pu_account u))" using assms(2) by (simp add: printable_def dec_ok_def in_i128_def)
  note s = empty_books_ok [of rfc3339 "pu_account u" k]
  have fields: "pb_cash ?s = ZERO" "pd_peak_equity ?s = ZERO" "pd_kill_switches ?s = k"
    using assms(2) by (simp_all add: durable_new_def)
  have "book_recover rfc3339 (pb_tax_lots ?s) = Ok (pb_tax_lots ?s)"
    using book_recover_ok [of rfc3339 "pb_tax_lots ?s"] s
    by (simp add: service_ok_def books_ok_def no_empty_bucket_def durable_new_def tax_lot_book_default_def)
  note lots = this
  note trading = trading_roundtrip [OF s new_recorded(1) [OF zero], where sha = sha256_hex]
  note books = books_roundtrip [OF service_okD(1) [OF s] new_recorded(2) [OF zero] assms(1) receipt_ids_known [OF s],
      where sha = sha256_hex]
  show ?thesis
    unfolding restore_def using trading books zero assms(2) lots
    by (simp add: persistent_state_def fields peak_roundtrip)
qed


text \<open>C5: What a service finds in its own journal. Take a state whose figures and identities have a written
  form (\<open>recorded\<close>), journaled and read back under the same account, policy and switch revision. Recovery
  gives back exactly that state, orders with their receipts, lots, evidence, incidents, operations and all, with
  the equity peak raised to the present equity (an error when that equity is out of range), except in three
  situations, and in these it refuses the journal: an instrument sold out or covered in full has left an
  empty bucket, the equity peak is not positive, or the latest report names an incident twice.\<close>

theorem recovery_restores_journal:
  assumes "recorded rfc3339 u s" "ksr_version switches = ksr_version (pd_kill_switches s)"
  shows "restore sha256_hex rfc3339 u switches (persistent_state sha256_hex u s) =
    (if \<not> no_empty_bucket (tb_lots (pb_tax_lots s))
     then Err ''persisted tax lot book cannot retain an empty instrument bucket''
     else if \<not> no_empty_bucket (tb_short_lots (pb_tax_lots s))
     then Err ''persisted tax lot book cannot retain an empty short instrument bucket''
     else if pd_peak_equity s \<le> ZERO then Err ''persisted peak equity is invalid''
     else if (\<exists>r. pd_latest_reconciliation s = Some r \<and> names_incident_twice r)
     then Err ''persisted paper reconciliation repeats an incident ID''
     else and_then (current_equity s) (\<lambda>equity. Ok (s\<lparr>pd_peak_equity := max (pd_peak_equity s) equity\<rparr>)))"
proof -
  have "book_ok rfc3339 (pb_tax_lots s)" using assms(1) by (simp add: recorded_def service_ok_def books_ok_def)
  then show ?thesis unfolding restore_roundtrip [OF assms] by (simp add: book_recover_ok)
qed

theorem recovery_restores_journal_witness:
  "restore (\<lambda>x. x) (\<lambda>_. True) sample_setup \<lparr>ksr_version = ''k1'', ksr_active = []\<rparr>
     (persistent_state (\<lambda>x. x) sample_setup sample_durable) = Ok sample_durable
   \<and> bt_get (pv_orders sample_durable) ''order-i'' = Some sample_partly_filled"
proof -
  have "current_equity sample_durable = Ok (Decimal 100000400000)" by code_simp
  moreover have "no_empty_bucket (tb_lots (pb_tax_lots sample_durable))" "no_empty_bucket (tb_short_lots (pb_tax_lots sample_durable))"
    by (simp_all add: no_empty_bucket_def sample_durable_def durable_new_def sample_lots_def tax_lot_book_default_def)
  moreover have "ksr_version \<lparr>ksr_version = ''k1'', ksr_active = []\<rparr> = ksr_version (pd_kill_switches sample_durable)"
    by (simp add: sample_durable_def durable_new_def)
  ultimately show ?thesis
    using recovery_restores_journal [OF sample_durable_recorded, of "\<lparr>ksr_version = ''k1'', ksr_active = []\<rparr>" "\<lambda>x. x"]
    by (simp add: sample_durable_def durable_new_def names_incident_twice_def)
qed

text \<open>An account may open with no cash, and its first journal record cannot be read back: the peak
  written for it is zero, which recovery refuses.\<close>

theorem new_account_unrecoverable:
  assumes "paper_account_validate (pu_account u) = Ok ()" "pa_initial_cash (pu_account u) = ZERO"
  shows "restore sha256_hex rfc3339 u k (persistent_state sha256_hex u (durable_new (pu_account u) k))
    = Err ''persisted peak equity is invalid''"
  using assms by (rule empty_account_refused)

theorem new_account_unrecoverable_witness:
  "\<exists>u k. pa_initial_cash (pu_account u) = ZERO \<and> restore (\<lambda>x. x) (\<lambda>_. True) u k
     (persistent_state (\<lambda>x. x) u (durable_new (pu_account u) k)) = Err ''persisted peak equity is invalid''"
proof -
  let ?u = "sample_setup\<lparr>pu_account := pcf_account sample_configuration\<rparr>"
  have "paper_account_validate (pu_account ?u) = Ok ()" "pa_initial_cash (pu_account ?u) = ZERO" by code_simp+
  from new_account_unrecoverable [OF this] this(2) show ?thesis by blast
qed

end
