(* ===== verification/PaperJournal.thy ===== *)
theory PaperJournal
  imports PaperPolicy
begin

text \<open>
  Component: the journal of the paper service (\<^verbatim>\<open>core/paper/src/journal.rs\<close>), an append-only file of
  lines, each a complete snapshot chained to the one before it by a hash. The file is the string
  \<open>jn_contents\<close>; what an append does to it is decided by a \<open>write_outcome\<close>, so that a write may stop after
  any number of bytes. The printing and parsing of a record are \<^verbatim>\<open>serde_json\<close> and the hash is \<^verbatim>\<open>sha2\<close>:
  the fields of a \<open>journal_codec\<close>. Locking, symbolic links and the creation of the file are not modelled.
\<close>

section \<open>Records\<close>

record 's journal_v3 =
  jv_schema_version :: nat
  jv_sequence :: nat
  jv_previous_hash :: string
  jv_state :: 's
  jv_entry_hash :: string

record 's journal_v2 =
  jw_schema_version :: nat
  jw_sequence :: nat
  jw_state :: 's

datatype 's journal_record = V3Record "'s journal_v3" | V2Record "'s journal_v2"

record 's journal_codec =
  jc_print :: "'s journal_record \<Rightarrow> string result"
  jc_parse :: "string \<Rightarrow> 's journal_record result"
  jc_sha256_hex :: "string \<Rightarrow> string"

definition JOURNAL_SCHEMA_VERSION :: nat where "JOURNAL_SCHEMA_VERSION = 3"
definition LEGACY_SCHEMA_VERSION :: nat where "LEGACY_SCHEMA_VERSION = 2"
definition MAX_JOURNAL_BYTES :: nat where "MAX_JOURNAL_BYTES = 64 * 1024 * 1024"

definition record_hash :: "'s journal_codec \<Rightarrow> 's journal_v3 \<Rightarrow> string result" where
  "record_hash c r = and_then (jc_print c (V3Record (r\<lparr>jv_entry_hash := []\<rparr>)))
     (\<lambda>canonical. Ok (jc_sha256_hex c canonical))"

definition legacy_bytes :: "string \<Rightarrow> string \<Rightarrow> string" where
  "legacy_bytes previous line = ''follon-paper-journal-v2-anchor'' @ previous @ u64_be_bytes (length line) @ line"

definition legacy_record_hash :: "'s journal_codec \<Rightarrow> string \<Rightarrow> string \<Rightarrow> string" where
  "legacy_record_hash c previous line = jc_sha256_hex c (legacy_bytes previous line)"

section \<open>Lines of a file\<close>

text \<open>\<^verbatim>\<open>str::lines\<close>: pieces up to and including a newline, the last one possibly without; of each the
  newline is dropped, and a carriage return only before a newline.\<close>

definition newline :: char where "newline = CHR 0x0A"

definition strip_return :: "string \<Rightarrow> string" where
  "strip_return l = (if l \<noteq> [] \<and> last l = CHR 0x0D then butlast l else l)"

function str_lines :: "string \<Rightarrow> string list" where
  "str_lines [] = []"
| "str_lines (x # xs) = (let l = takeWhile (\<lambda>y. y \<noteq> newline) (x # xs); r = dropWhile (\<lambda>y. y \<noteq> newline) (x # xs)
     in case r of [] \<Rightarrow> [l] | _ # r' \<Rightarrow> strip_return l # str_lines r')"
  by pat_completeness auto
termination
proof (relation "measure length", goal_cases)
  case (2 x xs l r y ys)
  then have "length (y # ys) \<le> length (x # xs)" by (metis length_dropWhile_le)
  then show ?case by simp
qed simp

text \<open>The text a file must be for \<^verbatim>\<open>read_to_string\<close> to return it. The state is the number of
  continuation bytes to come and the range of the next.\<close>

fun utf8_step :: "(nat \<times> nat \<times> nat) option \<Rightarrow> nat \<Rightarrow> (nat \<times> nat \<times> nat) option" where
  "utf8_step None _ = None"
| "utf8_step (Some (0, _, _)) a =
    (if a < 128 then Some (0, 128, 192) else if 194 \<le> a \<and> a < 224 then Some (1, 128, 192)
     else if a = 224 then Some (2, 160, 192) else if a = 237 then Some (2, 128, 160)
     else if 225 \<le> a \<and> a < 240 then Some (2, 128, 192) else if a = 240 then Some (3, 144, 192)
     else if 241 \<le> a \<and> a < 244 then Some (3, 128, 192) else if a = 244 then Some (3, 128, 144) else None)"
| "utf8_step (Some (Suc n, low, high)) b = (if low \<le> b \<and> b < high then Some (n, 128, 192) else None)"

definition utf8_text :: "string \<Rightarrow> bool" where
  "utf8_text s \<longleftrightarrow> foldl utf8_step (Some (0, 128, 192)) (map of_char s) = Some (0, 128, 192)"

section \<open>Opening\<close>

record 's journal_head =
  jh_next_sequence :: nat
  jh_previous_hash :: string
  jh_latest :: "'s option"
  jh_modern_record_seen :: bool

definition journal_start :: "'s journal_head" where
  "journal_start = \<lparr>jh_next_sequence = 1, jh_previous_hash = replicate 64 CHR ''0'', jh_latest = None,
     jh_modern_record_seen = False\<rparr>"

definition accept_record :: "'s journal_codec \<Rightarrow> nat \<Rightarrow> string \<Rightarrow> 's journal_record \<Rightarrow> 's journal_head \<Rightarrow> 's journal_head result" where
  "accept_record c index line r h = (case r of
     V3Record r \<Rightarrow>
       if jv_schema_version r \<noteq> JOURNAL_SCHEMA_VERSION \<or> jv_sequence r \<noteq> jh_next_sequence h
         \<or> jv_previous_hash r \<noteq> jh_previous_hash h
       then Err (''paper journal integrity check failed at line '' @ show_nat (index + 1))
       else and_then (record_hash c r) (\<lambda>hash.
         if jv_entry_hash r \<noteq> hash
         then Err (''paper journal integrity check failed at line '' @ show_nat (index + 1))
         else Ok \<lparr>jh_next_sequence = jh_next_sequence h + 1, jh_previous_hash = jv_entry_hash r,
                  jh_latest = Some (jv_state r), jh_modern_record_seen = True\<rparr>)
   | V2Record r \<Rightarrow>
       if jh_modern_record_seen h \<or> jw_schema_version r \<noteq> LEGACY_SCHEMA_VERSION \<or> jw_sequence r \<noteq> jh_next_sequence h
       then Err (''paper journal legacy record is invalid at line '' @ show_nat (index + 1))
       else Ok \<lparr>jh_next_sequence = jh_next_sequence h + 1,
                jh_previous_hash = legacy_record_hash c (jh_previous_hash h) line,
                jh_latest = Some (jw_state r), jh_modern_record_seen = False\<rparr>)"

definition accept_line :: "'s journal_codec \<Rightarrow> nat \<times> string \<Rightarrow> 's journal_head \<Rightarrow> 's journal_head result" where
  "accept_line c entry h = (case entry of (index, line) \<Rightarrow>
     if line = [] then Err (''paper journal contains an empty line at '' @ show_nat (index + 1))
     else and_then (case jc_parse c line of
         Inl e \<Rightarrow> Err (''invalid paper journal line '' @ show_nat (index + 1) @ '': '' @ error_message e) | Inr r \<Rightarrow> Ok r) (\<lambda>r.
       and_then (jc_print c r) (\<lambda>canonical.
       if canonical \<noteq> line
       then Err (''paper journal line '' @ show_nat (index + 1) @ '' is not canonical JSON'')
       else accept_record c index line r h)))"

definition accept_contents :: "'s journal_codec \<Rightarrow> string \<Rightarrow> 's journal_head result" where
  "accept_contents c contents = try_fold (accept_line c) (enumerate0 (str_lines contents)) journal_start"

definition journal_open :: "'s journal_codec \<Rightarrow> string \<Rightarrow> 's journal_head result" where
  "journal_open c contents =
     (if MAX_JOURNAL_BYTES < length contents
      then Err (''paper journal exceeds the '' @ show_nat MAX_JOURNAL_BYTES
        @ '' byte recovery limit; rotate and archive it before restart'')
      else if \<not> utf8_text contents then Err ''stream did not contain valid UTF-8''
      else accept_contents c contents)"

section \<open>Appending\<close>

text \<open>What the operating system does with the two writes and the flush of one append: all of it, or only
  the first bytes and an error.\<close>

datatype write_outcome = WriteComplete | WriteStopped nat string

text \<open>The open journal: the file, the number of appends tried on it, and what the process remembers.\<close>

record 's paper_journal =
  jn_contents :: string
  jn_attempts :: nat
  jn_next_sequence :: nat
  jn_previous_hash :: string
  jn_latest :: "'s option"

definition journal_opened :: "'s journal_codec \<Rightarrow> string \<Rightarrow> 's paper_journal result" where
  "journal_opened c contents = and_then (journal_open c contents) (\<lambda>h.
     Ok \<lparr>jn_contents = contents, jn_attempts = 0, jn_next_sequence = jh_next_sequence h,
         jn_previous_hash = jh_previous_hash h, jn_latest = jh_latest h\<rparr>)"

definition journal_sequence :: "'s paper_journal \<Rightarrow> nat" where
  "journal_sequence j = jn_next_sequence j - 1"

definition next_record :: "'s journal_codec \<Rightarrow> 's \<Rightarrow> 's paper_journal \<Rightarrow> 's journal_v3 result" where
  "next_record c s j = (let r = \<lparr>jv_schema_version = JOURNAL_SCHEMA_VERSION, jv_sequence = jn_next_sequence j,
       jv_previous_hash = jn_previous_hash j, jv_state = s, jv_entry_hash = []\<rparr>
     in and_then (record_hash c r) (\<lambda>hash. Ok (r\<lparr>jv_entry_hash := hash\<rparr>)))"

definition journal_append ::
    "'s journal_codec \<Rightarrow> (nat \<Rightarrow> write_outcome) \<Rightarrow> 's \<Rightarrow> 's paper_journal \<Rightarrow> unit result \<times> 's paper_journal" where
  "journal_append c disk s j =
     (case and_then (next_record c s j) (\<lambda>r. and_then (jc_print c (V3Record r)) (\<lambda>line. Ok (r, line @ [newline]))) of
        Inl e \<Rightarrow> (Inl e, j)
      | Inr (r, bytes) \<Rightarrow> (case disk (jn_attempts j) of
          WriteStopped n e \<Rightarrow>
            (Err e, j\<lparr>jn_attempts := jn_attempts j + 1, jn_contents := jn_contents j @ take n bytes\<rparr>)
        | WriteComplete \<Rightarrow>
            (Ok (), \<lparr>jn_contents = jn_contents j @ bytes, jn_attempts = jn_attempts j + 1,
               jn_next_sequence = jn_next_sequence j + 1, jn_previous_hash = jv_entry_hash r,
               jn_latest = Some (jv_state r)\<rparr>)))"

section \<open>The codec\<close>

text \<open>What is relied on of the JSON of a record: it is an object on one line, it reads back as the same
  record, and no record's text begins with another's.\<close>

definition codec_ok :: "'s journal_codec \<Rightarrow> bool" where
  "codec_ok c \<longleftrightarrow> (\<forall>r. \<exists>body. jc_print c r = Ok (''{'' @ body @ ''}'') \<and> newline \<notin> set body
       \<and> utf8_text (''{'' @ body @ ''}'') \<and> jc_parse c (''{'' @ body @ ''}'') = Ok r)
     \<and> (\<forall>r r' line extra. jc_print c r = Ok line \<longrightarrow> jc_print c r' = Ok (line @ extra) \<longrightarrow> extra = [])
     \<and> (\<forall>x. length (jc_sha256_hex c x) = 64)"

lemma codec_okD:
  assumes "codec_ok c"
  obtains line where "jc_print c r = Ok line" "line \<noteq> []" "hd line = CHR ''{''" "last line \<noteq> CHR 0x0D"
    "newline \<notin> set line" "utf8_text line" "jc_parse c line = Ok r"
proof -
  obtain body where b: "jc_print c r = Ok (''{'' @ body @ ''}'')" "newline \<notin> set body"
      "utf8_text (''{'' @ body @ ''}'')" "jc_parse c (''{'' @ body @ ''}'') = Ok r"
    using assms unfolding codec_ok_def by blast
  show ?thesis by (rule that [OF b(1) _ _ _ _ b(3,4)]) (use b(2) in \<open>auto simp: newline_def\<close>)
qed

lemma codec_prefix_free:
  "codec_ok c \<Longrightarrow> jc_print c r = Ok line \<Longrightarrow> jc_print c r' = Ok (line @ extra) \<Longrightarrow> extra = []"
  unfolding codec_ok_def by blast

lemma codec_inj:
  assumes "codec_ok c" "jc_print c r = Ok line" "jc_print c r' = Ok line"
  shows "r = r'"
proof -
  from assms(1) obtain l where "jc_print c r = Ok l" "jc_parse c l = Ok r" by (rule codec_okD)
  moreover from assms(1) obtain l' where "jc_print c r' = Ok l'" "jc_parse c l' = Ok r'" by (rule codec_okD)
  ultimately show ?thesis using assms(2,3) by simp
qed

section \<open>Lines\<close>

declare str_lines.simps(2) [simp del]

lemma no_newline:
  assumes "newline \<notin> set l"
  shows "takeWhile (\<lambda>y. y \<noteq> newline) l = l" "dropWhile (\<lambda>y. y \<noteq> newline) l = []"
    "takeWhile (\<lambda>y. y \<noteq> newline) (l @ newline # rest) = l"
    "dropWhile (\<lambda>y. y \<noteq> newline) (l @ newline # rest) = newline # rest"
  using assms by (auto simp: takeWhile_eq_all_conv dropWhile_eq_Nil_conv takeWhile_tail dropWhile_append)

lemma str_lines_unfold:
  "s \<noteq> [] \<Longrightarrow> str_lines s = (case dropWhile (\<lambda>y. y \<noteq> newline) s of [] \<Rightarrow> [takeWhile (\<lambda>y. y \<noteq> newline) s]
     | _ # r \<Rightarrow> strip_return (takeWhile (\<lambda>y. y \<noteq> newline) s) # str_lines r)"
  by (cases s) (simp_all only: str_lines.simps(2) Let_def list.simps simp_thms)

lemma str_lines_terminated: "newline \<notin> set l \<Longrightarrow> str_lines (l @ newline # rest) = strip_return l # str_lines rest"
  by (subst str_lines_unfold) (simp_all add: no_newline)

lemma str_lines_single: "newline \<notin> set l \<Longrightarrow> l \<noteq> [] \<Longrightarrow> str_lines l = [l]"
  by (subst str_lines_unfold) (simp_all add: no_newline)

text \<open>A file that ends its last line, or is empty, and one that does not.\<close>

definition terminated :: "string \<Rightarrow> bool" where
  "terminated contents \<longleftrightarrow> contents = [] \<or> last contents = newline"

lemma split_newline: "newline \<in> set s \<Longrightarrow> \<exists>l rest. s = l @ newline # rest \<and> newline \<notin> set l"
  by (rule split_list_first)

lemma str_lines_append:
  "terminated a \<Longrightarrow> str_lines (a @ b) = str_lines a @ str_lines b"
proof (induction "length a" arbitrary: a rule: less_induct)
  case less
  show ?case
  proof (cases "a = []")
    case False
    with less.prems have "newline \<in> set a" by (metis terminated_def last_in_set)
    then obtain l rest where a: "a = l @ newline # rest" "newline \<notin> set l" using split_newline by blast
    have "terminated rest" using less.prems by (auto simp: a(1) terminated_def split: if_splits)
    from less.hyps [OF _ this] show ?thesis by (simp add: a str_lines_terminated)
  qed simp
qed

lemma unterminated_split:
  assumes "\<not> terminated a"
  shows "\<exists>p l. a = p @ l \<and> terminated p \<and> l \<noteq> [] \<and> newline \<notin> set l"
proof (cases "newline \<in> set a")
  case True
  then obtain p l where a: "a = p @ newline # l" "newline \<notin> set l" using split_list_last [of newline a] by blast
  have "l \<noteq> []" using assms by (auto simp: a(1) terminated_def)
  then show ?thesis using a by (intro exI [of _ "p @ [newline]"] exI [of _ l]) (simp add: terminated_def)
next
  case False
  then show ?thesis using assms by (intro exI [of _ "[]"] exI [of _ a]) (auto simp: terminated_def)
qed

lemma strip_return_id: "last l \<noteq> CHR 0x0D \<Longrightarrow> strip_return l = l"
  by (simp add: strip_return_def)

lemma utf8_text_append: "utf8_text a \<Longrightarrow> utf8_text (a @ b) \<longleftrightarrow> utf8_text b"
  by (simp add: utf8_text_def)

lemma utf8_newline [simp]: "utf8_text [newline]"
  by (simp add: utf8_text_def newline_def)

section \<open>One extra line\<close>

lemma accept_contents_append:
  assumes "terminated a" "str_lines b = [line]"
  shows "accept_contents c (a @ b) = and_then (accept_contents c a) (accept_line c (length (str_lines a), line))"
  using assms by (simp add: accept_contents_def str_lines_append enumerate0_snoc try_fold_append and_then_def split: sum.split)

lemma accept_line_printed:
  assumes "codec_ok c" "jc_print c r = Ok line"
  shows "accept_line c (i, line) h = accept_record c i line r h"
proof -
  from assms(1) obtain l where "jc_print c r = Ok l" "l \<noteq> []" "jc_parse c l = Ok r" by (rule codec_okD)
  with assms(2) show ?thesis by (simp add: accept_line_def)
qed

lemma accept_line_OkD:
  assumes "accept_line c (i, line) h = Ok h'"
  obtains r where "line \<noteq> []" "jc_parse c line = Ok r" "jc_print c r = Ok line" "accept_record c i line r h = Ok h'"
  using assms by (auto simp: accept_line_def result_simps split: sum.splits)

text \<open>The memory of a journal is what its file says.\<close>

definition journal_reads :: "'s journal_codec \<Rightarrow> string \<Rightarrow> 's paper_journal \<Rightarrow> bool" where
  "journal_reads c contents j \<longleftrightarrow> (case accept_contents c contents of Inl _ \<Rightarrow> False
     | Inr h \<Rightarrow> jh_next_sequence h = jn_next_sequence j \<and> jh_previous_hash h = jn_previous_hash j
         \<and> jh_latest h = jn_latest j)"

definition journal_ok :: "'s journal_codec \<Rightarrow> 's paper_journal \<Rightarrow> bool" where
  "journal_ok c j \<longleftrightarrow> journal_reads c (jn_contents j) j \<and> terminated (jn_contents j) \<and> utf8_text (jn_contents j)"

lemma journal_okD:
  assumes "journal_ok c j"
  obtains h where "accept_contents c (jn_contents j) = Ok h" "jh_next_sequence h = jn_next_sequence j"
    "jh_previous_hash h = jn_previous_hash j" "jh_latest h = jn_latest j" "terminated (jn_contents j)"
    "utf8_text (jn_contents j)"
  using assms by (auto simp: journal_ok_def journal_reads_def split: sum.splits)

lemma next_record_Ok:
  assumes "codec_ok c"
  obtains q line where "next_record c s j = Ok q" "jc_print c (V3Record q) = Ok line" "jv_state q = s"
proof -
  let ?q = "\<lparr>jv_schema_version = JOURNAL_SCHEMA_VERSION, jv_sequence = jn_next_sequence j,
       jv_previous_hash = jn_previous_hash j, jv_state = s, jv_entry_hash = []\<rparr>"
  from assms obtain l where l: "jc_print c (V3Record ?q) = Ok l" by (rule codec_okD)
  let ?s = "?q\<lparr>jv_entry_hash := jc_sha256_hex c l\<rparr>"
  from assms obtain line where "jc_print c (V3Record ?s) = Ok line" by (rule codec_okD)
  with l show ?thesis by (intro that [of ?s line]) (simp_all add: next_record_def record_hash_def)
qed

lemma accept_next_record:
  assumes "next_record c s j = Ok q" "jh_next_sequence h = jn_next_sequence j" "jh_previous_hash h = jn_previous_hash j"
  shows "accept_record c i line (V3Record q) h = Ok \<lparr>jh_next_sequence = jn_next_sequence j + 1,
    jh_previous_hash = jv_entry_hash q, jh_latest = Some (jv_state q), jh_modern_record_seen = True\<rparr>"
  using assms by (auto simp: next_record_def record_hash_def accept_record_def result_simps)

text \<open>Appending as one case per outcome.\<close>

lemma journal_append_eq:
  assumes "next_record c s j = Ok q" "jc_print c (V3Record q) = Ok line"
  shows "journal_append c disk s j = (case disk (jn_attempts j) of
      WriteStopped n e \<Rightarrow> (Err e, j\<lparr>jn_attempts := jn_attempts j + 1,
        jn_contents := jn_contents j @ take n (line @ [newline])\<rparr>)
    | WriteComplete \<Rightarrow> (Ok (), \<lparr>jn_contents = jn_contents j @ line @ [newline], jn_attempts = jn_attempts j + 1,
        jn_next_sequence = jn_next_sequence j + 1, jn_previous_hash = jv_entry_hash q, jn_latest = Some (jv_state q)\<rparr>))"
  by (simp add: journal_append_def assms)

lemma accept_line_partial:
  assumes "codec_ok c" "jc_print c r = Ok line" "0 < n" "n < length line"
  shows "accept_line c (i, take n line) h \<noteq> Ok h'"
proof
  assume "accept_line c (i, take n line) h = Ok h'"
  then obtain r' where "jc_print c r' = Ok (take n line)" by (rule accept_line_OkD)
  moreover have "jc_print c r = Ok (take n line @ drop n line)" using assms(2) by simp
  ultimately have "drop n line = []" using codec_prefix_free [OF assms(1)] by blast
  then show False using assms(4) by simp
qed

text \<open>What a file holds after the first bytes of an append: nothing new, the whole record, or a broken
  line.\<close>

lemma accept_contents_partial:
  assumes "codec_ok c" "terminated a" "jc_print c r = Ok line"
  shows "accept_contents c (a @ take n (line @ [newline])) =
      (if n = 0 then accept_contents c a
       else if n < length line then and_then (accept_contents c a) (accept_line c (length (str_lines a), take n line))
       else and_then (accept_contents c a) (accept_record c (length (str_lines a)) line r))"
proof -
  from assms(1) obtain l where "jc_print c r = Ok l" "l \<noteq> []" "last l \<noteq> CHR 0x0D" "newline \<notin> set l" by (rule codec_okD)
  with assms(3) have l: "line \<noteq> []" "last line \<noteq> CHR 0x0D" "newline \<notin> set line" by simp_all
  have whole: "accept_line c (i, line) = accept_record c i line r" for i
    by (rule ext) (rule accept_line_printed [OF assms(1,3)])
  have single: "accept_contents c (a @ b) = and_then (accept_contents c a) (accept_line c (length (str_lines a), x))"
    if "str_lines b = [x]" for b x by (rule accept_contents_append [OF assms(2) that])
  consider "n = 0" | "0 < n" "n < length line" | "n = length line" | "length line < n" by linarith
  then show ?thesis
  proof cases
    case 1
    then show ?thesis by simp
  next
    case 2
    then have "newline \<notin> set (take n line)" "take n line \<noteq> []" using l(1,3) by (auto dest: in_set_takeD)
    then have "str_lines (take n line) = [take n line]" by (rule str_lines_single)
    from single [OF this] 2 show ?thesis by simp
  next
    case 3
    from single [OF str_lines_single [OF l(3,1)]] show ?thesis using 3 l(1) by (simp add: whole)
  next
    case 4
    have "str_lines (line @ [newline]) = [line]"
      using str_lines_terminated [OF l(3), of "[]"] l(2) by (simp add: strip_return_id)
    from single [OF this] show ?thesis using 4 by (simp add: whole)
  qed
qed

section \<open>The file after an append\<close>

lemma journal_append_reads:
  assumes "codec_ok c" "journal_ok c j" "journal_append c disk s j = (r, t)" "accept_contents c (jn_contents t) = Ok h"
  shows "jh_next_sequence h = jn_next_sequence j \<and> jh_previous_hash h = jn_previous_hash j \<and> jh_latest h = jn_latest j
      \<and> r \<noteq> Ok ()
    \<or> jh_next_sequence h = jn_next_sequence j + 1 \<and> jh_latest h = Some s"
proof -
  from assms(2) obtain h0 where h0: "accept_contents c (jn_contents j) = Ok h0" "jh_next_sequence h0 = jn_next_sequence j"
      "jh_previous_hash h0 = jn_previous_hash j" "jh_latest h0 = jn_latest j" "terminated (jn_contents j)"
    by (rule journal_okD)
  from assms(1) obtain q line where q: "next_record c s j = Ok q" "jc_print c (V3Record q) = Ok line" "jv_state q = s"
    by (rule next_record_Ok)
  note partial = accept_contents_partial [OF assms(1) h0(5) q(2)]
  note eq = journal_append_eq [OF q(1,2), of disk]
  show ?thesis
  proof (cases "disk (jn_attempts j)")
    case WriteComplete
    then have "jn_contents t = jn_contents j @ take (Suc (length line)) (line @ [newline])" "r = Ok ()"
      using assms(3) eq by auto
    with assms(4) partial [of "Suc (length line)"] show ?thesis
      by (simp add: h0 q(3) accept_next_record [OF q(1)] del: take_append)
  next
    case (WriteStopped n e)
    then have t: "jn_contents t = jn_contents j @ take n (line @ [newline])" "r = Err e"
      using assms(3) eq by auto
    show ?thesis
      using assms(4) accept_line_partial [OF assms(1) q(2), of n] h0(2-4)
      unfolding t(1) partial by (auto simp: h0(1) q(3) t(2) accept_next_record [OF q(1) h0(2,3)] split: if_splits)
  qed
qed

lemma journal_append_ok:
  assumes "codec_ok c" "journal_ok c j" "journal_append c disk s j = (Ok (), t)"
  shows "journal_ok c t" "jn_latest t = Some s" "jn_next_sequence t = jn_next_sequence j + 1"
proof -
  from assms(2) obtain h0 where h0: "accept_contents c (jn_contents j) = Ok h0" "jh_next_sequence h0 = jn_next_sequence j"
      "jh_previous_hash h0 = jn_previous_hash j" "jh_latest h0 = jn_latest j" "terminated (jn_contents j)"
      "utf8_text (jn_contents j)"
    by (rule journal_okD)
  from assms(1) obtain q line where q: "next_record c s j = Ok q" "jc_print c (V3Record q) = Ok line" "jv_state q = s"
    by (rule next_record_Ok)
  from assms(1) obtain l where "jc_print c (V3Record q) = Ok l" "utf8_text l" by (rule codec_okD)
  with q(2) have line: "utf8_text line" by simp
  have t: "t = \<lparr>jn_contents = jn_contents j @ line @ [newline], jn_attempts = jn_attempts j + 1,
          jn_next_sequence = jn_next_sequence j + 1, jn_previous_hash = jv_entry_hash q, jn_latest = Some s\<rparr>"
    using assms(3) journal_append_eq [OF q(1,2), of disk] q(3) by (auto split: write_outcome.splits)
  have "accept_contents c (jn_contents j @ line @ [newline])
      = accept_contents c (jn_contents j @ take (Suc (length line)) (line @ [newline]))" by simp
  also have "\<dots> = Ok \<lparr>jh_next_sequence = jn_next_sequence j + 1,
        jh_previous_hash = jv_entry_hash q, jh_latest = Some s, jh_modern_record_seen = True\<rparr>"
    unfolding accept_contents_partial [OF assms(1) h0(5) q(2)]
    by (simp add: h0 q(3) accept_next_record [OF q(1)])
  finally show "journal_ok c t" "jn_latest t = Some s" "jn_next_sequence t = jn_next_sequence j + 1"
    using h0(6) line by (simp_all add: t journal_ok_def journal_reads_def terminated_def utf8_text_append)
qed

section \<open>The hash chain\<close>

text \<open>The text each line's hash is taken of, and the hashes of a list of lines.\<close>

definition hashed_text :: "'s journal_codec \<Rightarrow> string \<Rightarrow> string \<Rightarrow> string list" where
  "hashed_text c previous line = (case jc_parse c line of
     Inr (V3Record r) \<Rightarrow> (case jc_print c (V3Record (r\<lparr>jv_entry_hash := []\<rparr>)) of Inr l \<Rightarrow> [l] | _ \<Rightarrow> [])
   | Inr (V2Record r) \<Rightarrow> [legacy_bytes previous line]
   | _ \<Rightarrow> [])"

definition line_hash :: "'s journal_codec \<Rightarrow> string \<Rightarrow> string \<Rightarrow> string" where
  "line_hash c previous line = (case hashed_text c previous line of [] \<Rightarrow> previous | x # _ \<Rightarrow> jc_sha256_hex c x)"

fun hashed_texts :: "'s journal_codec \<Rightarrow> string \<Rightarrow> string list \<Rightarrow> string list" where
  "hashed_texts c previous [] = []"
| "hashed_texts c previous (l # ls) = hashed_text c previous l @ hashed_texts c (line_hash c previous l) ls"

lemma hashed_texts_snoc:
  "hashed_texts c p (ls @ [l]) = hashed_texts c p ls @ hashed_text c (foldl (line_hash c) p ls) l"
  by (induction ls arbitrary: p) auto

text \<open>An accepted line extends the chain by the hash of its text.\<close>

lemma accept_line_hash:
  assumes "accept_line c (i, line) h = Ok h'"
  shows "jh_previous_hash h' = line_hash c (jh_previous_hash h) line \<and> hashed_text c (jh_previous_hash h) line \<noteq> []
    \<and> jh_next_sequence h' = jh_next_sequence h + 1"
proof -
  from assms obtain r where "jc_parse c line = Ok r" "jc_print c r = Ok line" "accept_record c i line r h = Ok h'"
    by (rule accept_line_OkD)
  then show ?thesis
    by (cases r) (auto simp: accept_record_def record_hash_def line_hash_def hashed_text_def legacy_record_hash_def
        result_simps split: if_splits)
qed

definition accept_lines :: "'s journal_codec \<Rightarrow> string list \<Rightarrow> 's journal_head result" where
  "accept_lines c ls = try_fold (accept_line c) (enumerate0 ls) journal_start"

lemma accept_lines_snoc:
  "accept_lines c (ls @ [l]) = Ok h \<longleftrightarrow> (\<exists>g. accept_lines c ls = Ok g \<and> accept_line c (length ls, l) g = Ok h)"
  by (auto simp: accept_lines_def enumerate0_snoc try_fold_append result_simps)

abbreviation chain_hash :: "'s journal_codec \<Rightarrow> string list \<Rightarrow> string" where
  "chain_hash c ls \<equiv> foldl (line_hash c) (replicate 64 CHR ''0'') ls"

lemma accept_lines_hash:
  "accept_lines c ls = Ok h \<Longrightarrow> jh_previous_hash h = chain_hash c ls \<and> jh_next_sequence h = length ls + 1"
proof (induction ls arbitrary: h rule: rev_induct)
  case Nil
  then show ?case by (auto simp: accept_lines_def journal_start_def)
next
  case (snoc l ls)
  then obtain g where g: "accept_lines c ls = Ok g" "accept_line c (length ls, l) g = Ok h"
    unfolding accept_lines_snoc by blast
  from snoc.IH [OF g(1)] accept_line_hash [OF g(2)] show ?case by simp
qed

lemma length_line_hash: "codec_ok c \<Longrightarrow> length p = 64 \<Longrightarrow> length (line_hash c p l) = 64"
  by (auto simp: line_hash_def codec_ok_def split: list.split)

lemma length_chain_hash: "codec_ok c \<Longrightarrow> length (chain_hash c ls) = 64"
  by (induction ls rule: rev_induct) (simp_all add: length_line_hash)

text \<open>Two accepted lines over the same text are the same line, after the same chain.\<close>

lemma same_text_same_line:
  assumes c: "codec_ok c" and a: "accept_line c (i, l) g = Ok h" "accept_line c (i', l') g' = Ok h'"
    and len: "length (jh_previous_hash g) = length (jh_previous_hash g')"
    and x: "hashed_text c (jh_previous_hash g) l = [x]" "hashed_text c (jh_previous_hash g') l' = [x]"
  shows "l = l' \<and> jh_previous_hash g = jh_previous_hash g'"
proof -
  from a(1) obtain r where r: "jc_parse c l = Ok r" "jc_print c r = Ok l" "accept_record c i l r g = Ok h"
    by (rule accept_line_OkD)
  from a(2) obtain r' where r': "jc_parse c l' = Ok r'" "jc_print c r' = Ok l'" "accept_record c i' l' r' g' = Ok h'"
    by (rule accept_line_OkD)
  have head: "hd y = CHR ''{''" if "jc_print c q = Ok y" for q y
    using c that by (metis codec_okD Inr_inject)
  consider (v3) q q' where "r = V3Record q" "r' = V3Record q'" | (v2) q q' where "r = V2Record q" "r' = V2Record q'"
    | (mixed) q q' where "r = V3Record q \<and> r' = V2Record q' \<or> r = V2Record q' \<and> r' = V3Record q"
    by (cases r; cases r') auto
  then show ?thesis
  proof cases
    case v3
    have "jc_print c (V3Record (q\<lparr>jv_entry_hash := []\<rparr>)) = Ok x" "jc_print c (V3Record (q'\<lparr>jv_entry_hash := []\<rparr>)) = Ok x"
      using x r(1) r'(1) v3 by (auto simp: hashed_text_def split: sum.splits)
    from codec_inj [OF c this] this(1) have "q\<lparr>jv_entry_hash := []\<rparr> = q'\<lparr>jv_entry_hash := []\<rparr>"
      "jv_entry_hash q = jc_sha256_hex c x" "jv_entry_hash q' = jc_sha256_hex c x"
      using r(3) r'(3) v3 by (auto simp: accept_record_def record_hash_def result_simps split: if_splits)
    then have "q = q'" by (cases q; cases q') simp
    then show ?thesis using r r' v3 by (auto simp: accept_record_def split: if_splits)
  next
    case v2
    then have "legacy_bytes (jh_previous_hash g) l = legacy_bytes (jh_previous_hash g') l'"
      using x r(1) r'(1) by (simp add: hashed_text_def)
    then show ?thesis using len by (simp add: legacy_bytes_def u64_be_bytes_def)
  next
    case mixed
    then have "\<exists>p y. jc_print c (V3Record (q\<lparr>jv_entry_hash := []\<rparr>)) = Ok (legacy_bytes p y)"
      using x r(1) r'(1) by (auto simp: hashed_text_def split: sum.splits; blast)
    then show ?thesis using head by (fastforce simp: legacy_bytes_def)
  qed
qed

lemma chain_pins_lines:
  assumes "codec_ok c"
  shows "accept_lines c ls = Ok h \<Longrightarrow> accept_lines c ls' = Ok h' \<Longrightarrow> length ls = length ls'
    \<Longrightarrow> jh_previous_hash h = jh_previous_hash h'
    \<Longrightarrow> ls = ls' \<or> (\<exists>x\<in>set (hashed_texts c (replicate 64 CHR ''0'') ls).
          \<exists>y\<in>set (hashed_texts c (replicate 64 CHR ''0'') ls'). x \<noteq> y \<and> jc_sha256_hex c x = jc_sha256_hex c y)"
proof (induction ls arbitrary: ls' h h' rule: rev_induct)
  case (snoc l ls)
  from snoc.prems(3) obtain k ks where ks: "ls' = ks @ [k]" "length ls = length ks" by (cases ls' rule: rev_cases) auto
  from snoc.prems(1) obtain g where g: "accept_lines c ls = Ok g" "accept_line c (length ls, l) g = Ok h"
    unfolding accept_lines_snoc by blast
  from snoc.prems(2) obtain g' where g': "accept_lines c ks = Ok g'" "accept_line c (length ks, k) g' = Ok h'"
    unfolding ks(1) accept_lines_snoc by blast
  note hash = accept_line_hash [OF g(2)] accept_line_hash [OF g'(2)]
  note chain = accept_lines_hash [OF g(1)] accept_lines_hash [OF g'(1)]
  have len: "length (jh_previous_hash g) = length (jh_previous_hash g')"
    using chain length_chain_hash [OF assms] by metis
  have single: "hashed_text c p y \<noteq> [] \<Longrightarrow> \<exists>x. hashed_text c p y = [x]" for p y
    by (auto simp: hashed_text_def split: sum.splits journal_record.splits)
  obtain x where x: "hashed_text c (jh_previous_hash g) l = [x]" using single hash(1) by blast
  obtain y where y: "hashed_text c (jh_previous_hash g') k = [y]" using single hash(2) by blast
  have sha: "jc_sha256_hex c x = jc_sha256_hex c y"
    using snoc.prems(4) hash x y by (simp add: line_hash_def)
  have mem: "x \<in> set (hashed_texts c (replicate 64 CHR ''0'') (ls @ [l]))"
      "y \<in> set (hashed_texts c (replicate 64 CHR ''0'') ls')"
    using chain x y by (simp_all add: hashed_texts_snoc ks(1))
  show ?case
  proof (cases "x = y")
    case False
    with sha mem show ?thesis by blast
  next
    case True
    with y have "hashed_text c (jh_previous_hash g') k = [x]" by simp
    from same_text_same_line [OF assms g(2) g'(2) len x this] have eq: "l = k" "jh_previous_hash g = jh_previous_hash g'"
      by simp_all
    from snoc.IH [OF g(1) g'(1) ks(2) eq(2)] show ?thesis
      unfolding ks(1) hashed_texts_snoc eq(1) by auto
  qed
qed simp

section \<open>A journal as a store of states\<close>

text \<open>What the service relies on: a successful append makes its state the latest, a failed one changes
  nothing the process remembers.\<close>

locale state_store =
  fixes append_to :: "'s \<Rightarrow> 'j \<Rightarrow> unit result \<times> 'j" and latest :: "'j \<Rightarrow> 's option"
  assumes append_latest: "append_to s j = (Ok (), t) \<Longrightarrow> latest t = Some s"
    and append_failed: "append_to s j = (Inl e, t) \<Longrightarrow> latest t = latest j"
begin

lemma append_cases:
  assumes "append_to s j = (r, t)"
  shows "latest t = (if r = Ok () then Some s else latest j)"
  using assms append_latest append_failed by (cases r) auto

end

interpretation journal: state_store "journal_append c disk" jn_latest
proof
  fix s :: 'a and j t e
  show "journal_append c disk s j = (Ok (), t) \<Longrightarrow> jn_latest t = Some s"
    by (auto simp: journal_append_def next_record_def result_simps Let_def split: sum.splits write_outcome.splits)
  show "journal_append c disk s j = (Inl e, t) \<Longrightarrow> jn_latest t = jn_latest j"
    by (auto simp: journal_append_def split: sum.splits write_outcome.splits)
qed

section \<open>A codec\<close>

text \<open>A small text form of records whose state is a string, for which all of this can be computed.\<close>

definition sample_char :: "char \<Rightarrow> string" where
  "sample_char x = [char_of (65 + (of_char x :: nat) div 16), char_of (65 + (of_char x :: nat) mod 16)]"

definition sample_text :: "string \<Rightarrow> string" where
  "sample_text s = concat (map sample_char s) @ ''!''"

fun read_text :: "string \<Rightarrow> (string \<times> string) option" where
  "read_text [] = None"
| "read_text (a # r) = (if a = CHR ''!'' then Some ([], r) else case r of [] \<Rightarrow> None
     | b # r' \<Rightarrow> map_option (\<lambda>(s, k). (char_of ((of_char a - 65) * 16 + ((of_char b :: nat) - 65)) # s, k)) (read_text r'))"

definition sample_nat :: "nat \<Rightarrow> string" where
  "sample_nat n = replicate n CHR ''I'' @ '';''"

definition read_nat :: "string \<Rightarrow> (nat \<times> string) option" where
  "read_nat s = Some (length (takeWhile (\<lambda>x. x = CHR ''I'') s), drop 1 (dropWhile (\<lambda>x. x = CHR ''I'') s))"

fun sample_record :: "string journal_record \<Rightarrow> string" where
  "sample_record (V3Record r) = ''{m'' @ sample_text (jv_state r) @ sample_nat (jv_schema_version r)
     @ sample_nat (jv_sequence r) @ sample_text (jv_previous_hash r) @ sample_text (jv_entry_hash r) @ ''}''"
| "sample_record (V2Record r) = ''{l'' @ sample_text (jw_state r) @ sample_nat (jw_schema_version r)
     @ sample_nat (jw_sequence r) @ ''}''"

definition read_record :: "string \<Rightarrow> (string journal_record \<times> string) option" where
  "read_record l = (if take 2 l = ''{m'' then
       Option.bind (read_text (drop 2 l)) (\<lambda>(s, l). Option.bind (read_nat l) (\<lambda>(v, l). Option.bind (read_nat l) (\<lambda>(n, l).
       Option.bind (read_text l) (\<lambda>(p, l). Option.bind (read_text l) (\<lambda>(e, l).
       Some (V3Record \<lparr>jv_schema_version = v, jv_sequence = n, jv_previous_hash = p, jv_state = s, jv_entry_hash = e\<rparr>,
         drop 1 l))))))
     else
       Option.bind (read_text (drop 2 l)) (\<lambda>(s, l). Option.bind (read_nat l) (\<lambda>(v, l). Option.bind (read_nat l) (\<lambda>(n, l).
       Some (V2Record \<lparr>jw_schema_version = v, jw_sequence = n, jw_state = s\<rparr>, drop 1 l)))))"

definition sample_codec :: "string journal_codec" where
  "sample_codec = \<lparr>jc_print = (\<lambda>r. Ok (sample_record r)),
     jc_parse = (\<lambda>l. case read_record l of Some (r, []) \<Rightarrow> Ok r | _ \<Rightarrow> Err ''invalid record''),
     jc_sha256_hex = (\<lambda>x. take 64 (x @ replicate 64 CHR ''0''))\<rparr>"

lemma sample_char_ascii: "x \<in> set (sample_char y) \<Longrightarrow> (65 :: nat) \<le> of_char x \<and> (of_char x :: nat) < 81"
proof -
  have "byte_of y div 16 < 16" using nat_of_char_less_256 [of y] by linarith
  then have "(65 + byte_of y div 16) mod 256 = 65 + byte_of y div 16" by simp
  moreover assume "x \<in> set (sample_char y)"
  ultimately show ?thesis using \<open>byte_of y div 16 < 16\<close> by (auto simp: sample_char_def)
qed

lemma read_text_printed: "read_text (sample_text s @ k) = Some (s, k)"
proof (induction s)
  case (Cons x s)
  have "(65 :: nat) \<le> of_char (hd (sample_char x))" using sample_char_ascii [of "hd (sample_char x)" x]
    by (simp add: sample_char_def)
  then have "hd (sample_char x) \<noteq> CHR ''!''" by auto
  moreover have "(65 + byte_of x div 16) mod 256 = 65 + byte_of x div 16"
    using nat_of_char_less_256 [of x] by (intro mod_less) linarith
  ultimately show ?case using Cons by (simp add: sample_text_def sample_char_def)
qed (simp add: sample_text_def)

lemma read_nat_printed: "read_nat (sample_nat n @ k) = Some (n, k)"
  by (simp add: read_nat_def sample_nat_def takeWhile_append dropWhile_append)

lemma read_record_printed: "read_record (sample_record r @ k) = Some (r, k)"
  by (cases r) (simp_all add: read_record_def read_text_printed read_nat_printed)

lemma utf8_ascii:
  assumes "\<forall>x\<in>set s. (of_char x :: nat) < 128"
  shows "utf8_text s"
  unfolding utf8_text_def using assms by (induction s) auto

lemma sample_record_ascii: "x \<in> set (sample_record r) \<Longrightarrow> (of_char x :: nat) < 128 \<and> x \<noteq> newline"
  by (cases r) (auto simp: sample_text_def sample_nat_def newline_def dest: sample_char_ascii)

lemma sample_codec_ok: "codec_ok sample_codec"
proof -
  have parse: "jc_parse sample_codec (sample_record r) = Ok r" for r
    using read_record_printed [of r "[]"] by (simp add: sample_codec_def)
  have body: "\<exists>body. sample_record r = ''{'' @ body @ ''}''" for r by (cases r) auto
  have "\<exists>body. jc_print sample_codec r = Ok (''{'' @ body @ ''}'') \<and> newline \<notin> set body
       \<and> utf8_text (''{'' @ body @ ''}'') \<and> jc_parse sample_codec (''{'' @ body @ ''}'') = Ok r" for r
  proof -
    obtain b where b: "sample_record r = ''{'' @ b @ ''}''" using body by blast
    have "newline \<notin> set b" using sample_record_ascii [of newline r] b by auto
    moreover have "utf8_text (sample_record r)" by (rule utf8_ascii) (use sample_record_ascii in blast)
    ultimately show ?thesis using parse [of r] unfolding b by (auto simp: sample_codec_def b)
  qed
  moreover have "extra = []" if "jc_print sample_codec r = Ok line" "jc_print sample_codec r' = Ok (line @ extra)" for r r' line extra
    using that read_record_printed [of r extra] read_record_printed [of r' "[]"] by (simp add: sample_codec_def)
  ultimately show ?thesis unfolding codec_ok_def by (auto simp: sample_codec_def)
qed

section \<open>What the journal guarantees\<close>

lemma record_without_newline:
  assumes "codec_ok c" "journal_ok c j" "next_record c s j = Ok q" "jc_print c (V3Record q) = Ok line"
    and "length (jn_contents j @ line) \<le> MAX_JOURNAL_BYTES"
  shows "\<exists>u. journal_opened c (jn_contents j @ line) = Ok u \<and> jn_latest u = Some (jv_state q)"
    and "\<not> terminated (jn_contents j @ line)"
proof -
  from assms(2) obtain h where h: "accept_contents c (jn_contents j) = Ok h" "jh_next_sequence h = jn_next_sequence j"
      "jh_previous_hash h = jn_previous_hash j" "terminated (jn_contents j)" "utf8_text (jn_contents j)"
    by (rule journal_okD)
  from assms(1) obtain l where "jc_print c (V3Record q) = Ok l" "l \<noteq> []" "newline \<notin> set l" "utf8_text l"
    by (rule codec_okD)
  with assms(4) have l: "line \<noteq> []" "newline \<notin> set line" "utf8_text line" by simp_all
  have "accept_contents c (jn_contents j @ line) = accept_contents c (jn_contents j @ take (length line) (line @ [newline]))"
    by simp
  also have "\<dots> = Ok \<lparr>jh_next_sequence = jn_next_sequence j + 1, jh_previous_hash = jv_entry_hash q,
      jh_latest = Some (jv_state q), jh_modern_record_seen = True\<rparr>"
    unfolding accept_contents_partial [OF assms(1) h(4) assms(4)]
    by (simp add: h(1) l(1) accept_next_record [OF assms(3) h(2,3)])
  finally show "\<exists>u. journal_opened c (jn_contents j @ line) = Ok u \<and> jn_latest u = Some (jv_state q)"
    using assms(5) h(5) l(3) by (simp add: journal_opened_def journal_open_def utf8_text_append)
  show "\<not> terminated (jn_contents j @ line)" using l(1,2) by (metis terminated_def last_in_set last_appendR append_is_Nil_conv)
qed

lemma unterminated_refused:
  assumes "codec_ok c" "\<not> terminated a" "is_ok (accept_contents c a)" "jc_print c r = Ok line"
  shows "\<not> is_ok (accept_contents c (a @ line @ [newline]))"
proof
  obtain p l where a: "a = p @ l" "terminated p" "l \<noteq> []" "newline \<notin> set l"
    using unterminated_split [OF assms(2)] by blast
  from assms(1) obtain k where "jc_print c r = Ok k" "k \<noteq> []" "newline \<notin> set k" "last k \<noteq> CHR 0x0D"
    by (rule codec_okD)
  with assms(4) have k: "line \<noteq> []" "newline \<notin> set line" "last line \<noteq> CHR 0x0D" by simp_all
  have lines: "str_lines (l @ line @ [newline]) = [l @ line]"
    using str_lines_terminated [of "l @ line" "[]"] a(4) k by (simp add: strip_return_def)
  assume "is_ok (accept_contents c (a @ line @ [newline]))"
  then obtain h g where "accept_line c (length (str_lines p), l @ line) h = Ok g"
    unfolding a(1) append_assoc accept_contents_append [OF a(2) lines] by (auto simp: is_ok_iff and_then_eq_Inr)
  then obtain r1 where r1: "jc_print c r1 = Ok (l @ line)" by (rule accept_line_OkD)
  from assms(3) obtain h0 g0 where "accept_line c (length (str_lines p), l) h0 = Ok g0"
    unfolding a(1) accept_contents_append [OF a(2) str_lines_single [OF a(4,3)]] by (auto simp: is_ok_iff and_then_eq_Inr)
  then obtain r0 where "jc_print c r0 = Ok l" by (rule accept_line_OkD)
  from codec_prefix_free [OF assms(1) this r1] k(1) show False by simp
qed

text \<open>An empty journal of the sample codec, and one whose only record lost its newline.\<close>

definition sample_journal :: "string paper_journal" where
  "sample_journal = \<lparr>jn_contents = [], jn_attempts = 0, jn_next_sequence = 1,
     jn_previous_hash = replicate 64 CHR ''0'', jn_latest = None\<rparr>"

lemma sample_journal_ok: "journal_ok sample_codec sample_journal"
  by (simp add: journal_ok_def journal_reads_def sample_journal_def accept_contents_def terminated_def utf8_text_def
      journal_start_def)

lemma sample_record_length:
  "next_record sample_codec s sample_journal = Ok q \<Longrightarrow> length (sample_record (V3Record q)) = 2 * length s + 268"
proof -
  have texts: "length (sample_text x) = 2 * length x + 1" for x
    by (simp add: sample_text_def length_concat comp_def sample_char_def sum_list_triv)
  have nats: "length (sample_nat n) = n + 1" for n by (simp add: sample_nat_def)
  assume "next_record sample_codec s sample_journal = Ok q"
  then show ?thesis
    by (auto simp: next_record_def record_hash_def sample_codec_def sample_journal_def texts nats
        JOURNAL_SCHEMA_VERSION_def result_simps simp del: take_append)
qed

lemma sample_append:
  assumes "journal_ok sample_codec j" "\<And>n. disk n = WriteComplete"
  obtains t where "journal_append sample_codec disk s j = (Ok (), t)"
proof -
  from sample_codec_ok obtain q line where "next_record sample_codec s j = Ok q" "jc_print sample_codec (V3Record q) = Ok line"
    by (rule next_record_Ok)
  from journal_append_eq [OF this, of disk] that show ?thesis by (simp add: assms(2))
qed

text \<open>C6: Whatever part of an append reaches the disk, a journal that can be reopened afterwards holds
  either the state being appended, as the next record, or exactly what it held before, and the latter
  only when the append reported an error; an append that reported success leaves a file that reads back
  as the memory of the process.\<close>

theorem append_survives_crash:
  assumes "codec_ok c" "journal_ok c j" "journal_append c disk s j = (r, t)"
    and "journal_opened c (jn_contents t) = Ok u"
  shows "(if r = Ok () then journal_ok c t \<and> jn_latest u = Some s \<and> jn_next_sequence u = jn_next_sequence t
      else jn_latest u = Some s \<and> jn_next_sequence u = jn_next_sequence j + 1
        \<or> jn_latest u = jn_latest j \<and> jn_next_sequence u = jn_next_sequence j
          \<and> jn_previous_hash u = jn_previous_hash j)"
proof -
  from assms(4) obtain h where "accept_contents c (jn_contents t) = Ok h" "jn_latest u = jh_latest h"
      "jn_next_sequence u = jh_next_sequence h" "jn_previous_hash u = jh_previous_hash h"
    by (auto simp: journal_opened_def journal_open_def result_simps split: if_splits)
  with journal_append_reads [OF assms(1-3) this(1)] journal_append_ok [OF assms(1,2)] assms(3) show ?thesis by auto
qed

theorem append_survives_crash_witness:
  "\<exists>t u. journal_append sample_codec (\<lambda>_. WriteComplete) ''a'' sample_journal = (Ok (), t)
    \<and> journal_opened sample_codec (jn_contents t) = Ok u \<and> jn_latest u = Some ''a''"
proof -
  from sample_codec_ok obtain q line where q: "next_record sample_codec ''a'' sample_journal = Ok q"
      "jc_print sample_codec (V3Record q) = Ok line" by (rule next_record_Ok)
  obtain t where t: "journal_append sample_codec (\<lambda>_. WriteComplete) ''a'' sample_journal = (Ok (), t)"
    by (rule sample_append [OF sample_journal_ok]) simp
  have "length (jn_contents t) \<le> 1000"
    using t journal_append_eq [OF q, of "\<lambda>_. WriteComplete"] sample_record_length [OF q(1)] q(2)
    by (auto simp: sample_journal_def sample_codec_def)
  moreover from journal_append_ok(1) [OF sample_codec_ok sample_journal_ok t]
  obtain h where "accept_contents sample_codec (jn_contents t) = Ok h" "utf8_text (jn_contents t)" by (rule journal_okD)
  ultimately have "is_ok (journal_opened sample_codec (jn_contents t))"
    by (simp add: journal_opened_def journal_open_def MAX_JOURNAL_BYTES_def)
  then obtain u where u: "journal_opened sample_codec (jn_contents t) = Ok u" by (auto simp: is_ok_iff)
  from append_survives_crash [OF sample_codec_ok sample_journal_ok t u] t u show ?thesis by auto
qed

text \<open>C36: A crash between the two writes of an append leaves a record without its newline. Recovery
  accepts that file, the next append reports success, and from then on no restart can open the journal.\<close>

theorem unterminated_record_breaks_journal:
  assumes "codec_ok c" "journal_opened c contents = Ok j" "\<not> terminated contents" "disk 0 = WriteComplete"
  shows "\<exists>t. journal_append c disk s j = (Ok (), t) \<and> (\<forall>u. journal_opened c (jn_contents t) \<noteq> Ok u)"
proof -
  from assms(1) obtain q line where q: "next_record c s j = Ok q" "jc_print c (V3Record q) = Ok line"
    by (rule next_record_Ok)
  have j: "jn_contents j = contents" "jn_attempts j = 0" "is_ok (accept_contents c contents)"
    using assms(2) by (auto simp: journal_opened_def journal_open_def result_simps is_ok_iff split: if_splits)
  show ?thesis
    using journal_append_eq [OF q, of disk] unterminated_refused [OF assms(1,3) j(3) q(2)]
    by (auto simp: assms(4) j(1,2) journal_opened_def journal_open_def result_simps is_ok_iff split: if_splits)
qed

theorem unterminated_record_breaks_journal_witness:
  "\<exists>contents j t. journal_opened sample_codec contents = Ok j \<and> jn_latest j = Some ''a''
    \<and> journal_append sample_codec (\<lambda>_. WriteComplete) ''b'' j = (Ok (), t)
    \<and> (\<forall>u. journal_opened sample_codec (jn_contents t) \<noteq> Ok u)"
proof -
  from sample_codec_ok obtain q line where q: "next_record sample_codec ''a'' sample_journal = Ok q"
      "jc_print sample_codec (V3Record q) = Ok line" "jv_state q = ''a''" by (rule next_record_Ok)
  have "length (jn_contents sample_journal @ line) \<le> MAX_JOURNAL_BYTES"
  proof -
    have "line = sample_record (V3Record q)" using q(2) by (simp add: sample_codec_def)
    then have "length line = 2 * length ''a'' + 268" using sample_record_length [OF q(1)] by simp
    then show ?thesis by (simp add: sample_journal_def MAX_JOURNAL_BYTES_def)
  qed
  note first = record_without_newline [OF sample_codec_ok sample_journal_ok q(1,2) this]
  from first(1) obtain u where "journal_opened sample_codec (jn_contents sample_journal @ line) = Ok u"
      "jn_latest u = Some ''a''" using q(3) by auto
  with unterminated_record_breaks_journal [OF sample_codec_ok this(1) first(2), of "\<lambda>_. WriteComplete" "''b''"]
  show ?thesis by blast
qed

text \<open>The hash at the head of a journal pins its history: two files that open with the same sequence
  number and the same head hash are the same lines, unless the hash function collides on two of the
  texts hashed for them.\<close>

theorem journal_head_pins_history:
  assumes "codec_ok c" "journal_open c a = Ok h" "journal_open c b = Ok k"
    and "jh_next_sequence h = jh_next_sequence k" "jh_previous_hash h = jh_previous_hash k"
  shows "str_lines a = str_lines b \<or>
    (\<exists>x\<in>set (hashed_texts c (replicate 64 CHR ''0'') (str_lines a)).
      \<exists>y\<in>set (hashed_texts c (replicate 64 CHR ''0'') (str_lines b)). x \<noteq> y \<and> jc_sha256_hex c x = jc_sha256_hex c y)"
proof -
  have lines: "accept_lines c (str_lines a) = Ok h" "accept_lines c (str_lines b) = Ok k"
    using assms(2,3) by (auto simp: journal_open_def accept_contents_def accept_lines_def split: if_splits)
  have "length (str_lines a) = length (str_lines b)"
    using accept_lines_hash [OF lines(1)] accept_lines_hash [OF lines(2)] assms(4) by simp
  from chain_pins_lines [OF assms(1) lines this assms(5)] show ?thesis .
qed

theorem journal_head_pins_history_witness:
  "\<exists>a b h k. a \<noteq> b \<and> journal_open sample_codec a = Ok h \<and> journal_open sample_codec b = Ok k
    \<and> jh_previous_hash h = jh_previous_hash k \<and> (str_lines a = str_lines b \<or>
      (\<exists>x\<in>set (hashed_texts sample_codec (replicate 64 CHR ''0'') (str_lines a)).
        \<exists>y\<in>set (hashed_texts sample_codec (replicate 64 CHR ''0'') (str_lines b)).
          x \<noteq> y \<and> jc_sha256_hex sample_codec x = jc_sha256_hex sample_codec y))"
proof -
  from sample_codec_ok obtain q line where q: "next_record sample_codec ''a'' sample_journal = Ok q"
      "jc_print sample_codec (V3Record q) = Ok line" by (rule next_record_Ok)
  from sample_codec_ok obtain l where "jc_print sample_codec (V3Record q) = Ok l" "utf8_text l" by (rule codec_okD)
  with q(2) have "utf8_text line" "line = sample_record (V3Record q)" by (simp_all add: sample_codec_def)
  then have line: "utf8_text line" "length line = 270" using sample_record_length [OF q(1)] by simp_all
  let ?h = "\<lparr>jh_next_sequence = 2, jh_previous_hash = jv_entry_hash q, jh_latest = Some (jv_state q),
    jh_modern_record_seen = True\<rparr>"
  from sample_journal_ok obtain g where g: "accept_contents sample_codec (jn_contents sample_journal) = Ok g"
      "jh_next_sequence g = jn_next_sequence sample_journal" "jh_previous_hash g = jn_previous_hash sample_journal"
    by (rule journal_okD)
  have part: "accept_contents sample_codec (take n (line @ [newline])) = Ok ?h" if "length line \<le> n" for n
    using accept_contents_partial [OF sample_codec_ok _ q(2), of "[]" n] that line(2) g(1)
    by (auto simp: accept_next_record [OF q(1) g(2,3)] sample_journal_def terminated_def)
  have a: "journal_open sample_codec line = Ok ?h"
    using part [of "length line"] line by (simp add: journal_open_def MAX_JOURNAL_BYTES_def)
  have b: "journal_open sample_codec (line @ [newline]) = Ok ?h"
    using part [of "Suc (length line)"] line by (simp add: journal_open_def MAX_JOURNAL_BYTES_def utf8_text_append)
  from journal_head_pins_history [OF sample_codec_ok a b] a b show ?thesis
    by (intro exI [of _ line] exI [of _ "line @ [newline]"] exI [of _ ?h]) simp
qed

end
