(* ===== verification/PaperService.thy ===== *)
theory PaperService
  imports PaperRecovery PaperJournal
begin

text \<open>
  Component: the running paper service (\<^verbatim>\<open>core/paper/src/service.rs\<close>, \<^verbatim>\<open>service/orders.rs\<close>,
  \<^verbatim>\<open>service/kill_switch.rs\<close>, \<^verbatim>\<open>service/persistence.rs\<close>, \<^verbatim>\<open>service/reconcile.rs\<close> up to
  reconciliation): the durable state, the broker adapter it owns and the journal it writes. The adapter is
  the trait \<^verbatim>\<open>PaperBrokerAdapter\<close>, a record of operations on a state of its own; every implementation
  the repository has or a deployment adds is an argument. Each method is a state operation, so what it
  leaves behind when it fails is part of the model.
\<close>

section \<open>The adapter contract\<close>

record broker_order_snapshot =
  bos_client_order_id :: string
  bos_broker_order_id :: string
  bos_state :: order_state
  bos_filled_quantity :: decimal

record broker_position_snapshot =
  bps_instrument_id :: string
  bps_quantity :: decimal

record broker_account_snapshot =
  bas_orders :: "broker_order_snapshot list"
  bas_positions :: "broker_position_snapshot list"
  bas_cash :: decimal

record broker_capabilities =
  bc_combinations :: bool
  bc_good_til_cancelled :: bool
  bc_replacement :: bool

record 'b paper_broker =
  br_capabilities :: "'b \<Rightarrow> string \<Rightarrow> broker_capabilities result"
  br_requires_clean_reconciliation :: "'b \<Rightarrow> bool"
  br_submit :: "broker_order_request \<Rightarrow> ('b, broker_submit_result) op"
  br_submit_combo :: "broker_combo_request \<Rightarrow> ('b, broker_submit_result) op"
  br_cancel :: "broker_cancel_request \<Rightarrow> ('b, unit) op"
  br_replace :: "broker_replace_request \<Rightarrow> ('b, unit) op"
  br_poll :: "string \<Rightarrow> ('b, broker_event list) op"
  br_snapshot :: "string \<Rightarrow> ('b, broker_account_snapshot) op"
  br_reconnect :: "string \<Rightarrow> ('b, unit) op"

section \<open>The service\<close>

record 'b paper_service = paper_durable +
  sv_broker :: 'b
  sv_journal :: "persistent_paper_state paper_journal option"
  sv_persistence_healthy :: bool

text \<open>What does not change while the service runs: its configuration, the adapter's operations, the disk. The
  time crate is \<open>en_rfc3339\<close>, the texts it accepts, and \<open>en_instant\<close>, the nanosecond such a text denotes.\<close>

record 'b paper_env =
  en_setup :: paper_setup
  en_rfc3339 :: "string \<Rightarrow> bool"
  en_instant :: "string \<Rightarrow> int option"
  en_broker :: "'b paper_broker"
  en_codec :: "persistent_paper_state journal_codec"
  en_disk :: "nat \<Rightarrow> write_outcome"

abbreviation account_of :: "'b paper_env \<Rightarrow> string" where
  "account_of e \<equiv> pa_account_id (pu_account (en_setup e))"

abbreviation ask_broker :: "('b, 'a) op \<Rightarrow> ('b paper_service, 'a) op" where
  "ask_broker \<equiv> op_on sv_broker sv_broker_update"

definition durable_text :: "'b paper_env \<Rightarrow> 'b paper_service \<Rightarrow> persistent_paper_state" where
  "durable_text e s = persistent_state (jc_sha256_hex (en_codec e)) (en_setup e) (paper_durable.truncate s)"

definition persist :: "'b paper_env \<Rightarrow> ('b paper_service, unit) op" where
  "persist e s = (case sv_journal s of
     None \<Rightarrow> (Ok (), s)
   | Some j \<Rightarrow> (case journal_append (en_codec e) (en_disk e) (durable_text e s) j of
       (Inr _, j') \<Rightarrow> (Ok (), s\<lparr>sv_journal := Some j'\<rparr>)
     | (Inl err, j') \<Rightarrow> (Inl err, s\<lparr>sv_journal := Some j', sv_persistence_healthy := False\<rparr>)))"

definition ensure_persistence_healthy :: "('b paper_service, unit) op" where
  "ensure_persistence_healthy s =
     (if sv_persistence_healthy s then (Ok (), s)
      else (Err ''paper OMS is fail-closed after a durable journal write failure'', s))"

text \<open>\<^verbatim>\<open>if let Err(error) = m { handler }\<close>: the handler decides what is returned.\<close>

definition op_catch :: "('s, 'a) op \<Rightarrow> (error \<Rightarrow> ('s, 'a) op) \<Rightarrow> ('s, 'a) op" where
  "op_catch m h s = (case m s of (Inl err, t) \<Rightarrow> h err t | (Inr x, t) \<Rightarrow> (Inr x, t))"

definition op_check :: "bool \<Rightarrow> string \<Rightarrow> ('s, unit) op" where
  "op_check ok message = op_lift (if ok then Ok () else Err message)"

text \<open>The session is given up, and that is journaled, before the adapter's error is returned.\<close>

definition lose_session :: "'b paper_env \<Rightarrow> error \<Rightarrow> ('b paper_service, 'a) op" where
  "lose_session e err =
     op_bind (op_modify (pd_broker_connected_update (\<lambda>_. False))) (\<lambda>_.
     op_bind (persist e) (\<lambda>_. op_lift (Inl err)))"

section \<open>Kill switches\<close>

definition on_switches :: "(kill_switch_registry, 'a) op \<Rightarrow> ('b paper_service, 'a) op" where
  "on_switches = op_on pd_kill_switches pd_kill_switches_update"

definition activate_kill_switch :: "'b paper_env \<Rightarrow> kill_switch_scope \<Rightarrow> ('b paper_service, bool) op" where
  "activate_kill_switch e scope =
     op_bind ensure_persistence_healthy (\<lambda>_.
     op_bind (on_switches (ks_activate scope)) (\<lambda>changed.
     op_bind (persist e) (\<lambda>_. op_return changed)))"

definition deactivate_kill_switch :: "'b paper_env \<Rightarrow> kill_switch_scope \<Rightarrow> ('b paper_service, bool) op" where
  "deactivate_kill_switch e scope =
     op_bind ensure_persistence_healthy (\<lambda>_.
     op_bind (on_switches (ks_deactivate scope)) (\<lambda>changed.
     op_bind (if changed then persist e else op_return ()) (\<lambda>_. op_return changed)))"

definition operate_kill_switch_as ::
    "'b paper_env \<Rightarrow> kill_switch_scope \<Rightarrow> kill_switch_action \<Rightarrow> string \<Rightarrow> string \<Rightarrow> ('b paper_service, bool) op" where
  "operate_kill_switch_as e scope action operator operated_at =
     op_bind ensure_persistence_healthy (\<lambda>_.
     op_bind (op_lift (scope_validate scope)) (\<lambda>_.
     op_bind (op_lift (validate_canonical_id ''kill-switch operator'' operator)) (\<lambda>_.
     op_bind (op_lift (validate_utc_timestamp (en_rfc3339 e) ''kill-switch operation time'' operated_at)) (\<lambda>_.
     op_bind (on_switches (case action of ActivateSwitch \<Rightarrow> ks_activate scope | ReleaseSwitch \<Rightarrow> ks_deactivate scope)) (\<lambda>changed.
     op_bind (if changed then
         op_bind (op_modify (pd_kill_switch_operations_update (\<lambda>ops. ops @ [\<lparr>kso_scope = scope_as_key scope,
           kso_action = action, kso_operator = operator, kso_operated_at = operated_at\<rparr>]))) (\<lambda>_. persist e)
       else op_return ()) (\<lambda>_. op_return changed))))))"

section \<open>Cancellation\<close>

text \<open>The command goes out only after the order's move to \<^verbatim>\<open>PENDING_CANCEL\<close> is in the journal.\<close>

definition note_operation :: "order_operation option \<Rightarrow> ('b paper_service, unit) op" where
  "note_operation operation = (case operation of None \<Rightarrow> op_return ()
     | Some x \<Rightarrow> op_modify (pd_order_operations_update (\<lambda>xs. xs @ [x])))"

definition cancel_combo_order ::
    "'b paper_env \<Rightarrow> string \<Rightarrow> order_operation option \<Rightarrow> ('b paper_service, unit) op" where
  "cancel_combo_order e cid operation =
     op_bind (op_get pd_broker_connected) (\<lambda>connected.
     op_bind (op_check connected ''reconnect and reconcile before combination cancellation'') (\<lambda>_.
     op_bind (op_get (\<lambda>s. ok_or (bt_get (pv_combo_orders s) cid) ''paper OMS does not know combination order'')) (\<lambda>found.
     op_bind (op_lift found) (\<lambda>c.
     if pco_state c \<in> {PendingCancel, Cancelled} then op_return ()
     else op_bind (op_check (pco_evidence_error c = None \<and> pco_state c \<in> {Acknowledged, PartiallyFilled})
         ''only acknowledged or partially filled combinations can be cancelled'') (\<lambda>_.
       op_bind (on_combo cid (combo_transition PendingCancel ''PAPER_COMBO_CANCEL_REQUESTED'')) (\<lambda>_.
       op_bind (note_operation operation) (\<lambda>_.
       op_bind (persist e) (\<lambda>_.
       op_catch (ask_broker (br_cancel (en_broker e) \<lparr>bca_account_id = account_of e, bca_client_order_id = cid\<rparr>)) (\<lambda>err.
       op_bind (on_combo cid (combo_transition Unknown ''PAPER_COMBO_CANCEL_OUTCOME_UNKNOWN'')) (\<lambda>_.
       lose_session e err))))))))))"

definition cancel_order_attributed ::
    "'b paper_env \<Rightarrow> string \<Rightarrow> order_operation option \<Rightarrow> ('b paper_service, unit) op" where
  "cancel_order_attributed e cid operation =
     op_bind ensure_persistence_healthy (\<lambda>_.
     op_bind (op_get (\<lambda>s. bt_get (pv_combo_orders s) cid \<noteq> None)) (\<lambda>is_combo.
     if is_combo then cancel_combo_order e cid operation
     else op_bind (op_get pd_broker_connected) (\<lambda>connected.
       op_bind (op_check connected
         ''paper broker session is disconnected; reconnect and reconcile before cancellation'') (\<lambda>_.
       op_bind (op_get (\<lambda>s. ok_or (bt_get (pv_orders s) cid) ''paper OMS does not know order'')) (\<lambda>found.
       op_bind (op_lift found) (\<lambda>o1.
       if por_state o1 \<in> {PendingCancel, Cancelled} then op_return ()
       else op_bind (op_check (por_state o1 \<in> {Acknowledged, PartiallyFilled})
           ''only acknowledged or partially filled paper orders can be cancelled'') (\<lambda>_.
         op_bind (on_order cid (order_transition PendingCancel ''PAPER_CANCEL_REQUESTED'')) (\<lambda>_.
         op_bind (note_operation operation) (\<lambda>_.
         op_bind (persist e) (\<lambda>_.
         op_catch (ask_broker (br_cancel (en_broker e) \<lparr>bca_account_id = account_of e, bca_client_order_id = cid\<rparr>)) (\<lambda>err.
         op_bind (on_order cid (order_transition Unknown ''PAPER_CANCEL_OUTCOME_UNKNOWN'')) (\<lambda>_.
         lose_session e err))))))))))))"

definition cancel_order :: "'b paper_env \<Rightarrow> string \<Rightarrow> ('b paper_service, unit) op" where
  "cancel_order e cid = cancel_order_attributed e cid None"

definition cancel_order_as :: "'b paper_env \<Rightarrow> string \<Rightarrow> string \<Rightarrow> string \<Rightarrow> ('b paper_service, unit) op" where
  "cancel_order_as e cid operator operated_at =
     op_bind (op_lift (validate_canonical_id ''order operator'' operator)) (\<lambda>_.
     op_bind (op_lift (validate_utc_timestamp (en_rfc3339 e) ''order operation time'' operated_at)) (\<lambda>_.
     cancel_order_attributed e cid (Some \<lparr>oop_order_id = cid, oop_action = CancelRequested,
       oop_operator = operator, oop_operated_at = operated_at\<rparr>)))"

section \<open>Replacement\<close>

definition replacement_increases_risk :: "paper_order \<Rightarrow> decimal \<Rightarrow> decimal \<Rightarrow> bool" where
  "replacement_increases_risk o1 prior replacement \<longleftrightarrow> replacement \<le> ZERO
     \<or> oi_side (oo_intent (por_oms o1)) = Buy \<and> prior < replacement
     \<or> oi_side (oo_intent (por_oms o1)) = Sell \<and> replacement < prior"

definition order_replace_request :: "decimal \<Rightarrow> (paper_order, broker_replace_request) op" where
  "order_replace_request replacement =
     op_bind (op_get (\<lambda>o1. o1)) (\<lambda>o1.
     op_bind (op_check (por_state o1 \<in> {Acknowledged, PartiallyFilled})
       ''only acknowledged or partially filled paper orders can be replaced'') (\<lambda>_.
     op_bind (op_lift (ok_or (oi_limit_price (oo_intent (por_oms o1)))
       ''only paper limit orders support price replacement'')) (\<lambda>prior.
     op_bind (op_check (\<not> replacement_increases_risk o1 prior replacement)
       ''replacement may only reduce the originally approved limit risk'') (\<lambda>_.
     op_bind (op_lift (ok_or (por_broker_order_id o1)
       ''paper replacement requires an acknowledged broker order ID'')) (\<lambda>previous.
     op_bind (op_modify (por_replace_return_state_update (\<lambda>_. Some (por_state o1)))) (\<lambda>_.
     op_bind (order_transition PendingReplace ''PAPER_REPLACE_REQUESTED'') (\<lambda>_.
     op_return \<lparr>brr_account_id = oi_account_id (oo_intent (por_oms o1)), brr_client_order_id = oo_order_id (por_oms o1),
       brr_previous_broker_order_id = previous, brr_limit_price = replacement\<rparr>)))))))"

definition replace_order :: "'b paper_env \<Rightarrow> string \<Rightarrow> decimal \<Rightarrow> ('b paper_service, unit) op" where
  "replace_order e cid replacement =
     op_bind ensure_persistence_healthy (\<lambda>_.
     op_bind (op_get pd_broker_connected) (\<lambda>connected.
     op_bind (op_check connected
       ''paper broker session is disconnected; reconnect and reconcile before replacement'') (\<lambda>_.
     op_bind (op_get (\<lambda>s. br_capabilities (en_broker e) (sv_broker s) (account_of e))) (\<lambda>answer.
     op_bind (op_lift answer) (\<lambda>capabilities.
     op_bind (op_check (bc_replacement capabilities)
       ''the configured paper broker route cannot replace orders; the order was left unchanged'') (\<lambda>_.
     op_bind (on_order cid (order_replace_request replacement)) (\<lambda>request.
     op_bind (op_catch (ask_broker (br_replace (en_broker e) request)) (\<lambda>err.
       op_bind (on_order cid (order_transition Unknown ''PAPER_REPLACE_OUTCOME_UNKNOWN'')) (\<lambda>_.
       lose_session e err))) (\<lambda>_.
     persist e))))))))"

section \<open>Synchronization\<close>

text \<open>What an event that fails to apply is rolled back to: the seven fields the code copied beforehand.\<close>

definition roll_back :: "'z paper_state_scheme \<Rightarrow> 'z paper_state_scheme \<Rightarrow> 'z paper_state_scheme" where
  "roll_back s t = t\<lparr>pv_orders := pv_orders s, pv_combo_orders := pv_combo_orders s, pb_portfolios := pb_portfolios s,
     pb_tax_lots := pb_tax_lots s, pb_strategy_attribution := pb_strategy_attribution s,
     pb_execution_ids := pb_execution_ids s, pb_cash := pb_cash s\<rparr>"

definition note_anomaly :: "'b paper_env \<Rightarrow> string \<Rightarrow> error \<Rightarrow> ('b paper_service, unit) op" where
  "note_anomaly e cid err =
     op_bind (op_get (\<lambda>s. bt_get (pv_combo_orders s) cid \<noteq> None)) (\<lambda>is_combo.
     if is_combo then op_bind (on_combo cid (combo_anomaly (error_message err))) (\<lambda>_. persist e) else op_return ())"

definition sync_event :: "'b paper_env \<Rightarrow> broker_event \<Rightarrow> ('b paper_service, string list) op" where
  "sync_event e ev s = (case apply_broker_event (en_rfc3339 e) (setup_terms (en_setup e)) ev s of
     (Inr _, t) \<Rightarrow> op_bind (persist e) (\<lambda>_. op_return []) t
   | (Inl err, t) \<Rightarrow> op_bind (note_anomaly e (event_client_order_id ev) err)
       (\<lambda>_. op_return [error_message err]) (roll_back s t))"

fun sync_events :: "'b paper_env \<Rightarrow> broker_event list \<Rightarrow> string list \<Rightarrow> ('b paper_service, string list) op" where
  "sync_events e [] errors = op_return errors"
| "sync_events e (ev # evs) errors = op_bind (sync_event e ev) (\<lambda>more_errors. sync_events e evs (errors @ more_errors))"

definition synchronize :: "'b paper_env \<Rightarrow> ('b paper_service, nat) op" where
  "synchronize e =
     op_bind ensure_persistence_healthy (\<lambda>_.
     op_bind (op_get pd_broker_connected) (\<lambda>connected.
     op_bind (op_check connected ''paper broker session is disconnected'') (\<lambda>_.
     op_bind (op_catch (ask_broker (br_poll (en_broker e) (account_of e))) (lose_session e)) (\<lambda>events.
     op_bind (sync_events e events []) (\<lambda>errors.
     if errors \<noteq> [] then op_lift (Err (''paper broker synchronize failed to apply '' @ show_nat (length errors)
       @ '' of '' @ show_nat (length events) @ '' broker events (each rolled back cleanly): '' @ join ''; '' errors))
     else op_return (length events))))))"

end
