(* ===== verification/PaperReconcile.thy ===== *)
theory PaperReconcile
  imports PaperService
begin

text \<open>
  Component: reconciliation, corporate actions and the paper-day gate of the paper service
  (\<^verbatim>\<open>core/paper/src/service/reconcile.rs\<close>, \<^verbatim>\<open>service/corporate_actions.rs\<close>, \<^verbatim>\<open>service/promotion.rs\<close>,
  \<^verbatim>\<open>validation.rs\<close>): the differences between the broker's snapshot and the service's own books, how
  they become incidents, and what an operator may do about them.
\<close>

section \<open>Snapshots\<close>

definition check_order_snapshot ::
    "broker_order_snapshot \<Rightarrow> (string \<times> string) list \<times> string list \<Rightarrow> ((string \<times> string) list \<times> string list) result" where
  "check_order_snapshot b seen = (case seen of (versions, broker_ids) \<Rightarrow>
     and_then (validate_canonical_id ''broker snapshot client_order_id'' (bos_client_order_id b)) (\<lambda>_.
     and_then (validate_canonical_id ''broker snapshot broker_order_id'' (bos_broker_order_id b)) (\<lambda>_.
     if bos_filled_quantity b < ZERO \<or> (bos_client_order_id b, bos_broker_order_id b) \<in> set versions
       \<or> bos_broker_order_id b \<in> set broker_ids
     then Err ''broker snapshot has duplicate broker order versions or negative filled quantity''
     else Ok ((bos_client_order_id b, bos_broker_order_id b) # versions, bos_broker_order_id b # broker_ids))))"

definition check_position_snapshot :: "broker_position_snapshot \<Rightarrow> string list \<Rightarrow> string list result" where
  "check_position_snapshot p seen =
     and_then (validate_canonical_id ''broker snapshot instrument_id'' (bps_instrument_id p)) (\<lambda>_.
     if bps_instrument_id p \<in> set seen then Err ''broker snapshot contains duplicate instrument position''
     else Ok (bps_instrument_id p # seen))"

definition validate_broker_snapshot :: "broker_account_snapshot \<Rightarrow> unit result" where
  "validate_broker_snapshot b =
     and_then (try_fold check_order_snapshot (bas_orders b) ([], [])) (\<lambda>_.
     and_then (try_fold check_position_snapshot (bas_positions b) []) (\<lambda>_. Ok ()))"

section \<open>Differences\<close>

text \<open>A difference is its category, its subject and its detail.\<close>

type_synonym raw_issue = "string \<times> string \<times> string"

record order_view =
  ov_order_id :: string
  ov_working :: bool
  ov_broker_order_id :: "string option"
  ov_versions :: "string list"
  ov_filled_quantity :: decimal
  ov_state :: order_state

definition order_views :: "'z paper_state_scheme \<Rightarrow> order_view list" where
  "order_views s =
     map (\<lambda>(cid, o1). \<lparr>ov_order_id = cid, ov_working = order_working o1, ov_broker_order_id = por_broker_order_id o1,
       ov_versions = por_broker_order_versions o1, ov_filled_quantity = por_filled_quantity o1,
       ov_state = por_state o1\<rparr>) (pv_orders s)
     @ map (\<lambda>(cid, c). \<lparr>ov_order_id = cid, ov_working = combo_working c, ov_broker_order_id = pco_broker_order_id c,
       ov_versions = pco_broker_order_versions c, ov_filled_quantity = pco_filled_quantity c,
       ov_state = pco_state c\<rparr>) (pv_combo_orders s)"

definition brokers_for :: "broker_account_snapshot \<Rightarrow> string \<Rightarrow> broker_order_snapshot list" where
  "brokers_for b cid = filter (\<lambda>x. bos_client_order_id x = cid) (bas_orders b)"

definition current_version :: "order_view \<Rightarrow> broker_order_snapshot list \<Rightarrow> broker_order_snapshot option" where
  "current_version v brokers = Option.bind (ov_broker_order_id v)
     (\<lambda>current. find (\<lambda>x. bos_broker_order_id x = current) brokers)"

text \<open>\<^verbatim>\<open>{:?}\<close> of an optional broker identity, whose bytes never need an escape.\<close>

definition debug_option :: "string option \<Rightarrow> string" where
  "debug_option x = (case x of None \<Rightarrow> ''None'' | Some v \<Rightarrow> ''Some('' @ [CHR 0x22] @ v @ [CHR 0x22] @ '')'')"

definition broker_filled :: "broker_order_snapshot list \<Rightarrow> decimal result" where
  "broker_filled brokers = try_fold (\<lambda>x acc. checked_add acc (bos_filled_quantity x)) brokers ZERO"

definition known_order_issues :: "order_view \<Rightarrow> broker_order_snapshot list \<Rightarrow> raw_issue list result" where
  "known_order_issues v brokers = (let broker = current_version v brokers; cid = ov_order_id v in
     and_then (broker_filled brokers) (\<lambda>filled. Ok (
       (if broker = None then [(''BROKER_ORDER_ID_MISMATCH'', cid, ''internal_current='' @ debug_option (ov_broker_order_id v)
          @ '',broker_versions='' @ join '','' (map bos_broker_order_id brokers))] else [])
       @ (if \<exists>x\<in>set brokers. bos_broker_order_id x \<notin> set (ov_versions v)
          then [(''BROKER_ORDER_VERSION_MISMATCH'', cid, ''broker snapshot includes an unrecognized broker order version'')] else [])
       @ (if ov_filled_quantity v \<noteq> filled then [(''FILLED_QUANTITY_MISMATCH'', cid,
          ''internal='' @ decimal_to_string (ov_filled_quantity v) @ '',broker='' @ decimal_to_string filled)] else [])
       @ (case broker of None \<Rightarrow> [] | Some x \<Rightarrow> if ov_state v \<noteq> bos_state x then [(''ORDER_STATE_MISMATCH'', cid,
          ''internal='' @ order_state_as_str (ov_state v) @ '',broker='' @ order_state_as_str (bos_state x))] else []))))"

definition order_issues :: "broker_account_snapshot \<Rightarrow> order_view \<Rightarrow> raw_issue list result" where
  "order_issues b v = (case brokers_for b (ov_order_id v) of
     [] \<Rightarrow> Ok (if ov_working v then [(''MISSING_BROKER_ORDER'', ov_order_id v,
       ''internal working order is absent from broker snapshot'')] else [])
   | brokers \<Rightarrow> known_order_issues v brokers)"

definition unexpected_issues :: "'z paper_state_scheme \<Rightarrow> broker_account_snapshot \<Rightarrow> raw_issue list" where
  "unexpected_issues s b = map (\<lambda>x. (''UNEXPECTED_BROKER_ORDER'', bos_client_order_id x,
       ''broker snapshot contains no matching internal order''))
     (filter (\<lambda>x. bt_get (pv_orders s) (bos_client_order_id x) = None
       \<and> bt_get (pv_combo_orders s) (bos_client_order_id x) = None) (bas_orders b))"

definition anomaly_issues :: "'z paper_state_scheme \<Rightarrow> raw_issue list" where
  "anomaly_issues s = concat (map (\<lambda>(cid, c). case pco_evidence_error c of None \<Rightarrow> []
     | Some err \<Rightarrow> [(''COMBINATION_EXECUTION_ANOMALY'', cid, err)]) (pv_combo_orders s))"

text \<open>The snapshot's positions as a map; the instruments of either side, in order.\<close>

definition broker_position :: "broker_account_snapshot \<Rightarrow> string \<Rightarrow> decimal" where
  "broker_position b i = (case find (\<lambda>p. bps_instrument_id p = i) (rev (bas_positions b)) of
     None \<Rightarrow> ZERO | Some p \<Rightarrow> bps_quantity p)"

definition position_issues :: "'z paper_state_scheme \<Rightarrow> broker_account_snapshot \<Rightarrow> raw_issue list" where
  "position_issues s b = concat (map (\<lambda>i.
       if held_quantity s i \<noteq> broker_position b i
       then [(''POSITION_QUANTITY_MISMATCH'', i, ''internal='' @ decimal_to_string (held_quantity s i)
         @ '',broker='' @ decimal_to_string (broker_position b i))] else [])
     (bs_of_list (map fst (pb_portfolios s) @ map bps_instrument_id (bas_positions b))))"

definition cash_issues :: "string \<Rightarrow> 'z paper_state_scheme \<Rightarrow> broker_account_snapshot \<Rightarrow> raw_issue list" where
  "cash_issues account_id s b = (if pb_cash s \<noteq> bas_cash b then [(''CASH_MISMATCH'', account_id,
     ''internal='' @ decimal_to_string (pb_cash s) @ '',broker='' @ decimal_to_string (bas_cash b))] else [])"

definition raw_issues :: "string \<Rightarrow> 'z paper_state_scheme \<Rightarrow> broker_account_snapshot \<Rightarrow> raw_issue list result" where
  "raw_issues account_id s b =
     and_then (try_map (order_issues b) (order_views s)) (\<lambda>orders.
     Ok (concat orders @ unexpected_issues s b @ anomaly_issues s @ position_issues s b @ cash_issues account_id s b))"

section \<open>Incidents\<close>

text \<open>A difference continues the first unexplained incident of its category and subject, or opens one.\<close>

definition incident_id :: "nat \<Rightarrow> nat \<Rightarrow> string" where
  "incident_id n index = ''incident-'' @ zero_padded 8 n @ ''-'' @ zero_padded 3 (index + 1)"

definition existing_incident ::
    "(string, reconciliation_incident) btree_map \<Rightarrow> string \<Rightarrow> string \<Rightarrow> string option" where
  "existing_incident incidents category subject =
     map_option (\<lambda>(_, x). rci_incident_id (rin_issue x)) (find (\<lambda>(_, x). rci_category (rin_issue x) = category
       \<and> rci_subject (rin_issue x) = subject \<and> incident_unexplained x) incidents)"

definition record_issue :: "nat \<Rightarrow> nat \<times> raw_issue
    \<Rightarrow> (string, reconciliation_incident) btree_map \<times> reconciliation_issue list
    \<Rightarrow> (string, reconciliation_incident) btree_map \<times> reconciliation_issue list" where
  "record_issue n entry acc = (case entry of (index, category, subject, detail) \<Rightarrow> case acc of (incidents, issues) \<Rightarrow>
     let key = (case existing_incident incidents category subject of Some k \<Rightarrow> k | None \<Rightarrow> incident_id n index);
         issue = \<lparr>rci_incident_id = key, rci_category = category, rci_subject = subject, rci_detail = detail\<rparr>
     in (if bt_get incidents key = None
         then bt_insert key \<lparr>rin_issue = issue, rin_explanation = None\<rparr> incidents else incidents,
         issues @ [issue]))"

definition record_issues :: "nat \<Rightarrow> raw_issue list \<Rightarrow> (string, reconciliation_incident) btree_map
    \<Rightarrow> (string, reconciliation_incident) btree_map \<times> reconciliation_issue list" where
  "record_issues n raw incidents = fold (record_issue n) (enumerate0 raw) (incidents, [])"

definition adopt_report :: "reconciliation_report \<Rightarrow> ('b paper_service, unit) op" where
  "adopt_report r = op_modify (\<lambda>s. s\<lparr>pd_last_reconciled_at := Some (rcr_reconciled_at r),
     pd_last_reconciliation_clean := Some (report_is_clean r), pd_latest_reconciliation := Some r\<rparr>)"

definition reconcile :: "'b paper_env \<Rightarrow> string \<Rightarrow> ('b paper_service, reconciliation_report) op" where
  "reconcile e reconciled_at =
     op_bind ensure_persistence_healthy (\<lambda>_.
     op_bind (op_lift (validate_utc_timestamp (en_rfc3339 e) ''paper reconciliation time'' reconciled_at)) (\<lambda>_.
     op_bind (op_get pd_broker_connected) (\<lambda>connected.
     op_bind (op_check connected ''paper broker session is disconnected; reconnect before reconciliation'') (\<lambda>_.
     op_bind (op_catch (ask_broker (br_snapshot (en_broker e) (account_of e))) (lose_session e)) (\<lambda>b.
     op_bind (op_lift (validate_broker_snapshot b)) (\<lambda>_.
     op_bind (op_get pd_next_reconciliation) (\<lambda>n.
     op_bind (op_modify (pd_next_reconciliation_update Suc)) (\<lambda>_.
     op_bind (op_get (\<lambda>s. raw_issues (account_of e) s b)) (\<lambda>compared.
     op_bind (op_lift compared) (\<lambda>raw.
     op_bind (op_get (\<lambda>s. record_issues n raw (pd_incidents s))) (\<lambda>(incidents, issues).
     op_bind (op_modify (pd_incidents_update (\<lambda>_. incidents))) (\<lambda>_.
     let report = \<lparr>rcr_reconciliation_id = reconciliation_id n, rcr_reconciled_at = reconciled_at, rcr_issues = issues\<rparr> in
     op_bind (adopt_report report) (\<lambda>_.
     op_bind (persist e) (\<lambda>_. op_return report))))))))))))))"

definition reconnect_and_reconcile :: "'b paper_env \<Rightarrow> string \<Rightarrow> ('b paper_service, reconciliation_report) op" where
  "reconnect_and_reconcile e reconciled_at =
     op_bind ensure_persistence_healthy (\<lambda>_.
     op_bind (op_catch (ask_broker (br_reconnect (en_broker e) (account_of e))) (lose_session e)) (\<lambda>_.
     op_bind (op_modify (pd_broker_connected_update (\<lambda>_. True))) (\<lambda>_.
     op_bind (synchronize e) (\<lambda>_.
     reconcile e reconciled_at))))"

definition explain_incident :: "'b paper_env \<Rightarrow> string \<Rightarrow> string \<Rightarrow> ('b paper_service, unit) op" where
  "explain_incident e key explanation =
     op_bind ensure_persistence_healthy (\<lambda>_.
     op_bind (op_lift (validate_canonical_id ''incident_id'' key)) (\<lambda>_.
     op_bind (op_check (trim explanation \<noteq> [] \<and> length explanation \<le> 1024)
       ''incident explanation must contain 1 to 1024 characters'') (\<lambda>_.
     op_bind (op_get (\<lambda>s. ok_or (bt_get (pd_incidents s) key) ''unknown reconciliation incident'')) (\<lambda>found.
     op_bind (op_lift found) (\<lambda>x.
     op_bind (op_modify (pd_incidents_update (bt_insert key (x\<lparr>rin_explanation := Some explanation\<rparr>)))) (\<lambda>_.
     persist e))))))"

section \<open>Corporate actions\<close>

text \<open>The first order of either kind still working in the instrument.\<close>

definition working_order_in :: "string \<Rightarrow> 'z paper_state_scheme \<Rightarrow> string option" where
  "working_order_in i s = (case find (\<lambda>(_, o1). order_working o1 \<and> oi_instrument_id (oo_intent (por_oms o1)) = i) (pv_orders s) of
     Some (_, o1) \<Rightarrow> Some (oo_order_id (por_oms o1))
   | None \<Rightarrow> map_option (\<lambda>(_, c). ooc_order_id (pco_oms c)) (find (\<lambda>(_, c). combo_working c
       \<and> (\<exists>l\<in>set (co_legs (pco_intent c)). cl_instrument_id l = i)) (pv_combo_orders s)))"

definition split_portfolio :: "paper_risk_policy \<Rightarrow> string \<Rightarrow> string \<Rightarrow> decimal \<Rightarrow> portfolio \<Rightarrow> portfolio result" where
  "split_portfolio policy i aid ratio p = (case portfolio_apply_split p ratio of
     (Inl err, _) \<Rightarrow> Inl err
   | (Inr _, q) \<Rightarrow>
       and_then (if pf_quantity q < ZERO then checked_sub ZERO (pf_quantity q) else Ok (pf_quantity q)) (\<lambda>magnitude.
       if lot_rejection policy i magnitude \<noteq> None
       then Err (''split '' @ aid @ '' would leave '' @ decimal_to_string (pf_quantity q) @ '' of '' @ i
         @ '', not a whole number of its lots; cash in lieu of a fraction is not modelled'')
       else Ok q))"

definition split_mark :: "string \<Rightarrow> string \<Rightarrow> decimal \<Rightarrow> decimal \<Rightarrow> decimal result" where
  "split_mark i aid ratio mark =
     and_then (checked_div mark ratio) (\<lambda>rebased.
     if rebased \<le> ZERO
     then Err (''split '' @ aid @ '' would round '' @ i @ '''s mark of '' @ decimal_to_string mark @ '' down to nothing'')
     else Ok rebased)"

definition put_option :: "'k::linorder \<Rightarrow> 'v option \<Rightarrow> ('k, 'v) btree_map \<Rightarrow> ('k, 'v) btree_map" where
  "put_option k x m = (case x of None \<Rightarrow> m | Some v \<Rightarrow> bt_insert k v m)"

definition apply_split :: "paper_risk_policy \<Rightarrow> string \<Rightarrow> string \<Rightarrow> decimal \<Rightarrow> ('z paper_durable_scheme, unit) op" where
  "apply_split policy i aid ratio =
     op_bind (op_get (working_order_in i)) (\<lambda>working.
     op_bind (op_lift (case working of None \<Rightarrow> Ok () | Some cid \<Rightarrow> Err (''working order '' @ cid @ '' cannot rest across ''
       @ i @ '''s split '' @ aid @ ''; cancel it before applying the split''))) (\<lambda>_.
     op_bind (op_get (\<lambda>s. try_option (split_portfolio policy i aid ratio) (bt_get (pb_portfolios s) i))) (\<lambda>r.
     op_bind (op_lift r) (\<lambda>portfolio.
     op_bind (op_get (\<lambda>s. book_apply_split i ratio (pb_tax_lots s))) (\<lambda>(r, lots).
     op_bind (op_lift r) (\<lambda>_.
     op_bind (op_get (\<lambda>s. try_option (try_map (\<lambda>(k, q). and_then (checked_mul q ratio) (\<lambda>q'. Ok (k, q'))))
       (bt_get (pb_strategy_attribution s) i))) (\<lambda>r.
     op_bind (op_lift r) (\<lambda>attribution.
     op_bind (op_get (\<lambda>s. try_option (split_mark i aid ratio) (bt_get (pd_marks s) i))) (\<lambda>r.
     op_bind (op_lift r) (\<lambda>mark.
     op_modify (\<lambda>s. s\<lparr>pb_portfolios := put_option i portfolio (pb_portfolios s), pb_tax_lots := lots,
       pb_strategy_attribution := put_option i attribution (pb_strategy_attribution s),
       pd_marks := put_option i mark (pd_marks s)\<rparr>)))))))))))"

definition action_receipt :: "corporate_action_request \<Rightarrow> decimal \<Rightarrow> decimal \<Rightarrow> decimal \<Rightarrow> corporate_action_receipt" where
  "action_receipt q before after delta = \<lparr>cat_action = car_action q, cat_applied_by = car_applied_by q,
     cat_applied_at = car_applied_at q, cat_quantity_before = before, cat_quantity_after = after, cat_cash_delta = delta\<rparr>"

definition perform_action ::
    "paper_risk_policy \<Rightarrow> corporate_action_request \<Rightarrow> decimal \<Rightarrow> ('z paper_durable_scheme, corporate_action_receipt) op" where
  "perform_action policy q before = (case car_action q of
     SplitAction aid i _ ratio \<Rightarrow>
       op_bind (apply_split policy i aid ratio) (\<lambda>_.
       op_bind (op_get (\<lambda>s. held_quantity s i)) (\<lambda>after. op_return (action_receipt q before after ZERO)))
   | CashDividendAction aid i _ amount \<Rightarrow>
       op_bind (op_lift (checked_mul before amount)) (\<lambda>delta.
       op_bind (op_get (\<lambda>s. checked_add (pb_cash s) delta)) (\<lambda>r.
       op_bind (op_lift r) (\<lambda>cash.
       op_bind (op_modify (pb_cash_update (\<lambda>_. cash))) (\<lambda>_. op_return (action_receipt q before before delta))))))"

definition check_held :: "corporate_action_request \<Rightarrow> decimal \<Rightarrow> unit result" where
  "check_held q before = (if before \<noteq> car_held_quantity q
     then Err (''the account holds '' @ decimal_to_string before @ '' of '' @ action_instrument_id (car_action q) @ '', not the ''
       @ decimal_to_string (car_held_quantity q) @ '' corporate action '' @ action_id (car_action q)
       @ '' was stated against; reconcile before applying it'') else Ok ())"

definition check_action_time :: "corporate_action_request \<Rightarrow> unit result" where
  "check_action_time q = (if car_applied_at q < action_effective_at (car_action q)
     then Err (''corporate action '' @ action_id (car_action q) @ '' takes effect at '' @ action_effective_at (car_action q)
       @ ''; it cannot be applied at '' @ car_applied_at q) else Ok ())"

definition apply_corporate_action ::
    "'b paper_env \<Rightarrow> corporate_action_request \<Rightarrow> ('b paper_service, corporate_action_receipt) op" where
  "apply_corporate_action e q =
     op_bind ensure_persistence_healthy (\<lambda>_.
     op_bind (op_lift (action_validate (en_rfc3339 e) (car_action q))) (\<lambda>_.
     op_bind (op_lift (validate_canonical_id ''corporate action operator'' (car_applied_by q))) (\<lambda>_.
     op_bind (op_lift (validate_utc_timestamp (en_rfc3339 e) ''corporate action applied_at'' (car_applied_at q))) (\<lambda>_.
     op_bind (op_lift (check_action_time q)) (\<lambda>_.
     op_bind (op_get (\<lambda>s. find (\<lambda>r. action_id (cat_action r) = action_id (car_action q)) (pd_corporate_actions s))) (\<lambda>applied.
     case applied of
       Some r \<Rightarrow> op_lift (if cat_action r = car_action q \<and> cat_quantity_before r = car_held_quantity q then Ok r
         else Err (''corporate action '' @ action_id (car_action q) @ '' was already applied with other terms''))
     | None \<Rightarrow>
         op_bind (op_get (\<lambda>s. held_quantity s (action_instrument_id (car_action q)))) (\<lambda>before.
         op_bind (op_lift (check_held q before)) (\<lambda>_.
         op_bind (perform_action (pu_policy (en_setup e)) q before) (\<lambda>receipt.
         op_bind (op_modify (pd_corporate_actions_update (\<lambda>rs. rs @ [receipt]))) (\<lambda>_.
         op_bind (persist e) (\<lambda>_. op_return receipt)))))))))))"

section \<open>The paper-day gate\<close>

definition report_is_latest :: "reconciliation_report \<Rightarrow> 'z paper_durable_scheme \<Rightarrow> bool" where
  "report_is_latest r s \<longleftrightarrow> pd_last_reconciled_at s = Some (rcr_reconciled_at r)
     \<and> pd_last_reconciliation_clean s = Some (report_is_clean r) \<and> pd_latest_reconciliation s = Some r
     \<and> rcr_reconciliation_id r = reconciliation_id (pd_next_reconciliation s - 1) \<and> report_is_clean r"

definition session_day :: "paper_trading_session \<Rightarrow> paper_day" where
  "session_day p = \<lparr>pdy_calendar_id = pts_calendar_id p, pdy_session_opens_at = ts_opens_at (pts_session p),
     pdy_session_closes_at = ts_closes_at (pts_session p), pdy_clean = True\<rparr>"

definition record_paper_session ::
    "'b paper_env \<Rightarrow> paper_trading_session \<Rightarrow> reconciliation_report \<Rightarrow> static_calendar \<Rightarrow> ('b paper_service, unit) op" where
  "record_paper_session e p r calendar =
     op_bind ensure_persistence_healthy (\<lambda>_.
     op_bind (op_lift (paper_session_validate (en_rfc3339 e) p)) (\<lambda>_.
     op_bind (op_check (sc_calendar_id calendar = ppo_trading_calendar_id (pu_policy (en_setup e))
         \<and> sc_calendar_id calendar = pts_calendar_id p
         \<and> calendar_session_for_exchange_date calendar (ts_exchange_date (pts_session p)) = Some (pts_session p))
       ''paper-day gate requires the exact session from the configured calendar'') (\<lambda>_.
     op_bind (op_check (pts_calendar_id p = ppo_trading_calendar_id (pu_policy (en_setup e)))
       ''paper-session calendar does not match the configured paper calendar'') (\<lambda>_.
     op_bind (op_get (\<lambda>s. pd_next_reconciliation s \<noteq> 0)) (\<lambda>numbered.
     op_bind (op_check numbered ''paper-session gate has no completed reconciliation'') (\<lambda>_.
     op_bind (op_get (report_is_latest r)) (\<lambda>latest.
     op_bind (op_check latest ''paper-session gate requires the latest actual reconciliation report'') (\<lambda>_.
     op_bind (op_check (ts_closes_at (pts_session p) \<le> rcr_reconciled_at r)
       ''paper-session reconciliation must occur at or after the session close'') (\<lambda>_.
     op_bind (op_get unexplained_incident_count) (\<lambda>unexplained.
     op_bind (op_check (unexplained = 0) ''paper-session gate refuses unresolved reconciliation incidents'') (\<lambda>_.
     op_bind (op_get (\<lambda>s. bt_get (pd_paper_days s) (ts_exchange_date (pts_session p)))) (\<lambda>existing.
     case existing of
       Some day \<Rightarrow> op_check (day = session_day p)
         ''paper-session gate record cannot be overwritten with conflicting evidence''
     | None \<Rightarrow> op_bind (op_modify (pd_paper_days_update (bt_insert (ts_exchange_date (pts_session p)) (session_day p))))
         (\<lambda>_. persist e)))))))))))))"

record paper_promotion_status =
  pps_clean_paper_days :: nat
  pps_required_paper_days :: nat
  pps_unexplained_incidents :: nat
  pps_complete_auditability :: bool
  pps_eligible_for_next_gate :: bool

definition promotion_status :: "'b paper_service \<Rightarrow> paper_promotion_status" where
  "promotion_status s = (
     let clean = length (filter (\<lambda>(_, d). pdy_clean d) (pd_paper_days s));
         unexplained = unexplained_incident_count s;
         audit = sv_persistence_healthy s \<and> (case sv_journal s of None \<Rightarrow> False | Some j \<Rightarrow> 0 < journal_sequence j)
     in \<lparr>pps_clean_paper_days = clean, pps_required_paper_days = 30, pps_unexplained_incidents = unexplained,
         pps_complete_auditability = audit, pps_eligible_for_next_gate = (30 \<le> clean \<and> unexplained = 0 \<and> audit)\<rparr>)"

end
