(* ===== verification/PaperServiceLaws.thy ===== *)
theory PaperServiceLaws
  imports PaperService
begin

text \<open>
  Laws of the running paper service: what persisting changes, that synchronizing keeps the books whatever
  the broker delivers and wherever the disk fails, that an event that cannot be applied leaves no trace, and
  that a cancellation is in the journal before the broker is asked.
\<close>

section \<open>What an event cannot touch\<close>

abbreviation more_is :: "'z \<Rightarrow> 'z paper_state_scheme \<Rightarrow> bool" where
  "more_is z \<equiv> \<lambda>s. paper_state.more s = z"

lemma op_keeps_each [op_keeps_intros]: "(\<And>x. op_keeps P (f x)) \<Longrightarrow> op_keeps P (op_each f xs)"
  by (induction xs) (auto intro: op_keeps_intros)

lemma keeps_more_on [op_keeps_intros]:
  "op_keeps (more_is z) (on_order cid m)" "op_keeps (more_is z) (on_combo cid n)"
  by (auto simp: op_keeps_def on_order_def on_combo_def split: option.splits prod.splits)

lemma keeps_more_books:
  "op_keeps (more_is z) (fill_portfolio terms f)" "op_keeps (more_is z) (fill_attribution f strategy_id)"
  "op_keeps (more_is z) (op_on pb_tax_lots pb_tax_lots_update m)"
  by (auto simp: op_keeps_def fill_portfolio_def fill_attribution_def op_on_def Let_def split: prod.splits sum.splits)

lemma keeps_more_fill [op_keeps_intros]: "op_keeps (more_is z) (apply_accounted_fill rfc terms f strategy_id)"
  unfolding apply_accounted_fill_def by (intro op_keeps_intros keeps_more_books) simp

lemma keeps_more_ids [op_keeps_intros]: "op_keeps (more_is z) (op_modify (pb_execution_ids_update g))"
  by (rule op_keeps_modify) simp

lemma keeps_more_event: "op_keeps (more_is z) (apply_broker_event rfc terms ev)"
proof -
  have combo: "op_keeps (more_is z) (apply_combo_execution rfc terms e)" for e
    unfolding apply_combo_execution_def book_combo_fills_def by (intro op_keeps_intros)
  have single: "op_keeps (more_is z) (apply_execution rfc terms a b c d f g h)" for a b c d f g h
    unfolding apply_execution_def check_ids_def by (intro op_keeps_intros)
  have "op_keeps (more_is z) (apply_combo_event rfc terms ev)"
    by (cases ev) (auto intro!: op_keeps_intros combo simp: apply_combo_event.simps)
  moreover have "op_keeps (more_is z) (apply_order_event rfc terms ev)"
    by (cases ev) (auto intro!: op_keeps_intros single simp: checked_reason_def check_ids_def)
  ultimately show ?thesis by (auto simp: op_keeps_def apply_broker_event_def)
qed

text \<open>So the seven fields copied beforehand are all an event can have changed: rolling back is undoing.\<close>

lemma roll_back_event:
  fixes s :: "'z paper_state_scheme"
  assumes "apply_broker_event rfc terms ev s = (r, t)"
  shows "roll_back s t = s"
proof -
  have "paper_state.more t = paper_state.more s" using op_keepsD [OF keeps_more_event _ assms] by simp
  then show ?thesis by (intro paper_state.equality) (simp_all add: roll_back_def)
qed

section \<open>Books across the service's own fields\<close>

definition core :: "'z paper_state_scheme \<Rightarrow> paper_state" where
  "core s = paper_state.truncate s"

definition books_follow :: "(string \<Rightarrow> bool) \<Rightarrow> 'z paper_state_scheme \<Rightarrow> 'z paper_state_scheme \<Rightarrow> bool" where
  "books_follow rfc3339 s t \<longleftrightarrow> service_ok rfc3339 t
     \<and> (\<forall>i. position t i - filled_exposure t i = position s i - filled_exposure s i)
     \<and> (books_agree s \<longrightarrow> books_agree t) \<and> same_intents s t
     \<and> set (pb_execution_ids s) \<subseteq> set (pb_execution_ids t)"

lemma books_follow_refl: "service_ok rfc s \<Longrightarrow> books_follow rfc s s"
  by (simp add: books_follow_def same_intents_def)

lemma books_follow_trans: "books_follow rfc s t \<Longrightarrow> books_follow rfc t u \<Longrightarrow> books_follow rfc s u"
  by (auto simp: books_follow_def same_intents_def)

lemma books_follow_accounted: "accounted rfc s t \<Longrightarrow> books_follow rfc s t"
  by (simp add: books_follow_def accounted_def)

lemma books_follow_ok: "books_follow rfc s t \<Longrightarrow> service_ok rfc t"
  by (simp add: books_follow_def)

text \<open>Everything here reads the books and the orders only.\<close>

lemma core_eq:
  assumes "core t = core s"
  shows "pb_cash t = pb_cash s" "pb_portfolios t = pb_portfolios s" "pb_tax_lots t = pb_tax_lots s"
    "pb_strategy_attribution t = pb_strategy_attribution s" "pb_execution_ids t = pb_execution_ids s"
    "pv_orders t = pv_orders s" "pv_combo_orders t = pv_combo_orders s"
  using assms by (simp_all add: core_def paper_state.truncate_def)

lemma books_follow_core:
  assumes "service_ok rfc s" "core t = core s"
  shows "books_follow rfc s t"
  using assms(1) core_eq [OF assms(2)]
  by (simp add: books_follow_def service_ok_def books_ok_def position_def filled_exposure_def books_agree_def
      attributed_def same_intents_def)

section \<open>Persisting\<close>

definition synced :: "'b paper_env \<Rightarrow> 'b paper_service \<Rightarrow> bool" where
  "synced e s \<longleftrightarrow> (\<forall>j. sv_journal s = Some j \<longrightarrow> jn_latest j = Some (durable_text e s))"

lemma durable_text_cong:
  "paper_durable.truncate t = paper_durable.truncate s \<Longrightarrow> durable_text e t = durable_text e s"
  by (simp add: durable_text_def)

lemma persist_cases:
  assumes "persist e s = (r, t)"
  obtains (saved) "r = Ok ()" "\<exists>j. t = s\<lparr>sv_journal := j\<rparr>" "synced e t" "sv_journal t = None \<longleftrightarrow> sv_journal s = None"
  | (failed) err where "r = Inl err" "\<exists>j. t = s\<lparr>sv_journal := Some j, sv_persistence_healthy := False\<rparr>"
      "map_option jn_latest (sv_journal t) = map_option jn_latest (sv_journal s)"
proof (cases "sv_journal s")
  case None
  with assms have "r = Ok ()" "t = s\<lparr>sv_journal := None\<rparr>" by (auto simp: persist_def)
  then show ?thesis by (intro saved) (auto simp: synced_def None)
next
  case (Some j)
  obtain q j' where a: "journal_append (en_codec e) (en_disk e) (durable_text e s) j = (q, j')" by fastforce
  have same: "durable_text e (s\<lparr>sv_journal := x\<rparr>) = durable_text e s" for x
    by (simp add: durable_text_def paper_durable.truncate_def)
  show ?thesis
  proof (cases q)
    case (Inr u)
    then have "r = Ok ()" "t = s\<lparr>sv_journal := Some j'\<rparr>" using assms a Some by (auto simp: persist_def)
    moreover have "jn_latest j' = Some (durable_text e s)" by (rule journal.append_latest) (use a Inr in simp)
    ultimately show ?thesis by (intro saved) (auto simp: synced_def same Some)
  next
    case (Inl err)
    then have "r = Inl err" "t = s\<lparr>sv_journal := Some j', sv_persistence_healthy := False\<rparr>"
      using assms a Some by (auto simp: persist_def)
    moreover have "jn_latest j' = jn_latest j" by (rule journal.append_failed) (use a Inl in simp)
    ultimately show ?thesis by (intro failed) (auto simp: Some)
  qed
qed

lemma persist_frames:
  assumes "persist e s = (r, t)"
  shows "core t = core s" "sv_broker t = sv_broker s" "paper_durable.truncate t = paper_durable.truncate s"
    "durable_text e t = durable_text e s" "r = Ok () \<Longrightarrow> synced e t"
    "r = Ok () \<Longrightarrow> sv_persistence_healthy t = sv_persistence_healthy s" "r \<noteq> Ok () \<Longrightarrow> \<not> sv_persistence_healthy t"
  by (rule persist_cases [OF assms];
      auto simp: core_def paper_state.truncate_def paper_durable.truncate_def durable_text_def)+

text \<open>A method follows the books if it does so from every sound state, also when it fails.\<close>

definition op_follows :: "(string \<Rightarrow> bool) \<Rightarrow> ('z paper_state_scheme, 'a) op \<Rightarrow> bool" where
  "op_follows rfc3339 m \<longleftrightarrow> (\<forall>s. service_ok rfc3339 s \<longrightarrow> books_follow rfc3339 s (snd (m s)))"

named_theorems op_follows_intros "how methods follow the books"

lemma op_followsD: "op_follows rfc m \<Longrightarrow> service_ok rfc s \<Longrightarrow> m s = (r, t) \<Longrightarrow> books_follow rfc s t"
  by (auto simp: op_follows_def)

lemma op_followsI:
  "(\<And>s r t. service_ok rfc s \<Longrightarrow> m s = (r, t) \<Longrightarrow> books_follow rfc s t) \<Longrightarrow> op_follows rfc m"
  unfolding op_follows_def by (metis prod.collapse)

lemma op_follows_bind [op_follows_intros]:
  assumes "op_follows rfc m" "\<And>x. op_follows rfc (f x)"
  shows "op_follows rfc (op_bind m f)"
proof (rule op_followsI)
  fix s r t assume s: "service_ok rfc s" and b: "op_bind m f s = (r, t)"
  obtain q u where m: "m s = (q, u)" by fastforce
  have u: "books_follow rfc s u" by (rule op_followsD [OF assms(1) s m])
  show "books_follow rfc s t"
  proof (cases q)
    case (Inl e)
    with b m u show ?thesis by simp
  next
    case (Inr x)
    with b m have "f x u = (r, t)" by simp
    from books_follow_trans [OF u op_followsD [OF assms(2) books_follow_ok [OF u] this]] show ?thesis .
  qed
qed

lemma op_follows_catch [op_follows_intros]:
  assumes "op_follows rfc m" "\<And>err. op_follows rfc (h err)"
  shows "op_follows rfc (op_catch m h)"
proof (rule op_followsI)
  fix s r t assume s: "service_ok rfc s" and b: "op_catch m h s = (r, t)"
  obtain q u where m: "m s = (q, u)" by fastforce
  have u: "books_follow rfc s u" by (rule op_followsD [OF assms(1) s m])
  show "books_follow rfc s t"
  proof (cases q)
    case (Inl e)
    with b m have "h e u = (r, t)" by (simp add: op_catch_def)
    from books_follow_trans [OF u op_followsD [OF assms(2) books_follow_ok [OF u] this]] show ?thesis .
  next
    case (Inr x)
    with b m u show ?thesis by (simp add: op_catch_def)
  qed
qed

lemma op_follows_basic [op_follows_intros]:
  "op_follows rfc (op_return x)" "op_follows rfc (op_lift y)" "op_follows rfc (op_get g)" "op_follows rfc (op_check b m)"
  by (simp_all add: op_follows_def books_follow_refl op_check_def)

lemma op_follows_core:
  assumes "\<And>s. core (snd (m s)) = core s"
  shows "op_follows rfc m"
  using books_follow_core assms by (auto simp: op_follows_def)

lemma op_follows_split [op_follows_intros]:
  "(b \<Longrightarrow> op_follows rfc m) \<Longrightarrow> (\<not> b \<Longrightarrow> op_follows rfc n) \<Longrightarrow> op_follows rfc (if b then m else n)"
  "(\<And>x y. op_follows rfc (f x y)) \<Longrightarrow> op_follows rfc (case p of (x, y) \<Rightarrow> f x y)"
  "op_follows rfc m \<Longrightarrow> (\<And>v. op_follows rfc (k v)) \<Longrightarrow> op_follows rfc (case z of None \<Rightarrow> m | Some v \<Rightarrow> k v)"
  by (auto split: prod.split option.split)

lemma op_follows_persist [op_follows_intros]: "op_follows rfc (persist e)"
  by (rule op_follows_core) (use persist_frames(1) in \<open>fastforce simp: prod_eq_iff\<close>)

lemma op_follows_frames [op_follows_intros]:
  "op_follows rfc ensure_persistence_healthy" "op_follows rfc (ask_broker m)" "op_follows rfc (on_switches n)"
  "op_follows rfc (op_modify (pd_broker_connected_update g))" "op_follows rfc (note_operation operation)"
  "op_follows rfc (op_modify (pd_kill_switch_operations_update h))"
  by (rule op_follows_core;
      simp add: core_def paper_state.truncate_def ensure_persistence_healthy_def op_on_def on_switches_def note_operation_def
        split: prod.split option.split)+

lemma op_follows_lose [op_follows_intros]: "op_follows rfc (lose_session e err)"
  unfolding lose_session_def by (intro op_follows_intros)

section \<open>Orders\<close>

lemma op_follows_on_order:
  assumes "order_step_ok m" "\<And>q. op_keeps (\<lambda>o1. por_filled_quantity o1 = q) m"
  shows "op_follows rfc (on_order cid m)"
proof (rule op_followsI)
  fix s r t assume s: "service_ok rfc s" and run: "on_order cid m s = (r, t)"
  show "books_follow rfc s t"
  proof (cases "bt_get (pv_orders s) cid")
    case None
    with run s show ?thesis by (simp add: on_order_def books_follow_refl)
  next
    case (Some o1)
    obtain q o2 where m: "m o1 = (q, o2)" by fastforce
    with run Some have t: "t = s\<lparr>pv_orders := bt_insert cid o2 (pv_orders s)\<rparr>" by (simp add: on_order_def)
    have o2: "order_ok o2 \<and> same_order o1 o2" by (rule order_step_okD [OF assms(1) service_okD(4) [OF s Some] m])
    have "por_filled_quantity o2 = por_filled_quantity o1" using op_keepsD [OF assms(2) _ m] by simp
    then have "order_fill o2 i = order_fill o1 i" for i using o2 by (simp add: order_fill_def same_order_def)
    with store_order [OF s Some] o2 show ?thesis by (simp add: books_follow_def t)
  qed
qed

lemma op_follows_on_combo:
  assumes "\<And>c d r. combo_ok rfc c \<Longrightarrow> m c = (r, d) \<Longrightarrow> combo_ok rfc d \<and> same_combo c d"
  shows "op_follows rfc (on_combo cid m)"
proof (rule op_followsI)
  fix s r t assume s: "service_ok rfc s" and run: "on_combo cid m s = (r, t)"
  show "books_follow rfc s t"
  proof (cases "bt_get (pv_combo_orders s) cid")
    case None
    with run s show ?thesis by (simp add: on_combo_def books_follow_refl)
  next
    case (Some c)
    obtain q d where m: "m c = (q, d)" by fastforce
    with run Some have t: "t = s\<lparr>pv_combo_orders := bt_insert cid d (pv_combo_orders s)\<rparr>" by (simp add: on_combo_def)
    have d: "combo_ok rfc d" "same_combo c d" using assms [OF service_okD(5) [OF s Some] m] by auto
    then have same: "pco_intent d = pco_intent c" "pco_market d = pco_market c" "ooc_order_id (pco_oms d) = ooc_order_id (pco_oms c)"
      "combo_ids d \<subseteq> set (pb_execution_ids s)" "combo_fill d i = combo_fill c i" for i
      using service_okD(7) [OF s Some] by (simp_all add: same_combo_def combo_ids_def combo_fill_def)
    from store_combo [OF s Some d(1) same(1-4)] same(5) show ?thesis by (simp add: books_follow_def t)
  qed
qed

lemma op_follows_transition [op_follows_intros]:
  "n \<notin> {Filled, PendingReplace} \<Longrightarrow> op_follows rfc (on_order cid (order_transition n reason))"
  by (intro op_follows_on_order order_steps keeps_filled_transition)

lemma combo_transition_keeps:
  assumes "n \<in> {PendingCancel, Unknown}" "combo_ok rfc c" "combo_transition n reason c = (r, d)"
  shows "combo_ok rfc d \<and> same_combo c d"
proof (cases "is_valid_transition (pco_state c) n")
  case True
  with assms(3) have d: "d = c\<lparr>pco_oms := (pco_oms c)\<lparr>ooc_state := n\<rparr>\<rparr>" by (simp add: combo_transition_eq)
  have "combo_state_ok n (pco_filled_quantity c) (co_combo_quantity (pco_intent c)) (pco_evidence_error c)"
    using combo_ok_stateD [OF assms(2)] True assms(1) by (cases "pco_state c") (auto simp: combo_state_ok_def)
  from combo_ok_state [OF assms(2) this] show ?thesis by (simp add: d same_combo_def)
next
  case False
  with assms(2,3) show ?thesis by (simp add: combo_transition_eq)
qed

lemma op_follows_combo_transition [op_follows_intros]:
  "n \<in> {PendingCancel, Unknown} \<Longrightarrow> op_follows rfc (on_combo cid (combo_transition n reason))"
  by (rule op_follows_on_combo) (rule combo_transition_keeps)

lemma op_follows_anomaly [op_follows_intros]: "op_follows rfc (on_combo cid (combo_anomaly message))"
  by (rule op_follows_on_combo) (use combo_anomaly_ok in blast)

text \<open>A replacement request remembers where to return to before it moves.\<close>

lemma order_replace_request_keeps:
  assumes "order_ok o1" "order_replace_request replacement o1 = (r, o2)"
  shows "order_ok o2 \<and> same_order o1 o2 \<and> por_filled_quantity o2 = por_filled_quantity o1"
  using assms by (auto simp: order_replace_request_def op_check_def op_bind_def order_transition_eq order_ok_def same_order_def
      ok_or_def split: if_splits option.splits)

lemma op_follows_replace [op_follows_intros]: "op_follows rfc (on_order cid (order_replace_request replacement))"
proof (rule op_followsI)
  fix s r and t :: "'a paper_state_scheme"
  assume s: "service_ok rfc s" and run: "on_order cid (order_replace_request replacement) s = (r, t)"
  show "books_follow rfc s t"
  proof (cases "bt_get (pv_orders s) cid")
    case None
    with run s show ?thesis by (simp add: on_order_def books_follow_refl)
  next
    case (Some o1)
    obtain q o2 where m: "order_replace_request replacement o1 = (q, o2)" by fastforce
    with run Some have t: "t = s\<lparr>pv_orders := bt_insert cid o2 (pv_orders s)\<rparr>" by (simp add: on_order_def)
    note o2 = order_replace_request_keeps [OF service_okD(4) [OF s Some] m]
    then have "order_fill o2 i = order_fill o1 i" for i by (simp add: order_fill_def same_order_def)
    with store_order [OF s Some] o2 show ?thesis by (simp add: books_follow_def t)
  qed
qed

section \<open>Synchronizing\<close>

lemma op_follows_sync_event [op_follows_intros]: "op_follows (en_rfc3339 e) (sync_event e ev)"
proof (rule op_followsI)
  fix s r t assume s: "service_ok (en_rfc3339 e) s" and run: "sync_event e ev s = (r, t)"
  obtain q u where a: "apply_broker_event (en_rfc3339 e) (setup_terms (en_setup e)) ev s = (q, u)" by fastforce
  have note_follows: "op_follows (en_rfc3339 e) (op_bind (note_anomaly e cid err) (\<lambda>_. op_return x))"
    and save_follows: "op_follows (en_rfc3339 e) (op_bind (persist e) (\<lambda>_. op_return x))" for cid err x
    unfolding note_anomaly_def by (intro op_follows_intros)+
  show "books_follow (en_rfc3339 e) s t"
  proof (cases q)
    case (Inl err)
    with run a roll_back_event [OF a] have
      "op_bind (note_anomaly e (event_client_order_id ev) err) (\<lambda>_. op_return [error_message err]) s = (r, t)"
      by (simp add: sync_event_def)
    from op_followsD [OF note_follows s this] show ?thesis .
  next
    case (Inr x)
    have u: "books_follow (en_rfc3339 e) s u"
      by (rule books_follow_accounted, rule apply_broker_event_accounted [OF s]) (use a Inr in blast)
    have "op_bind (persist e) (\<lambda>_. op_return []) u = (r, t)" using run a Inr by (simp add: sync_event_def)
    from books_follow_trans [OF u op_followsD [OF save_follows books_follow_ok [OF u] this]] show ?thesis .
  qed
qed

lemma op_follows_sync_events [op_follows_intros]: "op_follows (en_rfc3339 e) (sync_events e evs errors)"
  by (induction evs arbitrary: errors) (auto intro!: op_follows_intros)

lemma op_follows_synchronize [op_follows_intros]: "op_follows (en_rfc3339 e) (synchronize e)"
  unfolding synchronize_def by (intro op_follows_intros)

lemma op_follows_commands [op_follows_intros]:
  "op_follows rfc (activate_kill_switch e scope)" "op_follows rfc (deactivate_kill_switch e scope)"
  "op_follows rfc (operate_kill_switch_as e scope action operator operated_at)"
  "op_follows rfc (cancel_order_attributed e cid operation)" "op_follows rfc (cancel_order e cid)"
  "op_follows rfc (cancel_order_as e cid operator operated_at)" "op_follows rfc (replace_order e cid replacement)"
  unfolding activate_kill_switch_def deactivate_kill_switch_def operate_kill_switch_as_def cancel_order_attributed_def
    cancel_combo_order_def cancel_order_def cancel_order_as_def replace_order_def
  by (intro op_follows_intros; simp)+

section \<open>Commands and the journal\<close>

lemma op_bind_elim:
  assumes "op_bind m f s = (r, t)"
  obtains (stop) err where "m s = (Inl err, t)" "r = Inl err"
  | (go) x u where "m s = (Inr x, u)" "f x u = (r, t)"
  using assms unfolding op_bind_def by (auto split: prod.splits sum.splits)

text \<open>The order a state holds under an identity, of either kind.\<close>

definition order_state_in :: "'z paper_state_scheme \<Rightarrow> string \<Rightarrow> order_state option" where
  "order_state_in s cid = (case bt_get (pv_combo_orders s) cid of
     Some c \<Rightarrow> Some (pco_state c) | None \<Rightarrow> map_option por_state (bt_get (pv_orders s) cid))"

definition broker_unasked :: "'b \<Rightarrow> ('b paper_service, 'a) op \<Rightarrow> bool" where
  "broker_unasked b m \<longleftrightarrow> op_keeps (\<lambda>s. sv_broker s = b) m"

lemma keeps_broker [op_keeps_intros]:
  "op_keeps (\<lambda>s. sv_broker s = b) (persist e)" "op_keeps (\<lambda>s. sv_broker s = b) ensure_persistence_healthy"
  "op_keeps (\<lambda>s. sv_broker s = b) (on_order cid m)" "op_keeps (\<lambda>s. sv_broker s = b) (on_combo cid n)"
  "op_keeps (\<lambda>s. sv_broker s = b) (note_operation operation)" "op_keeps (\<lambda>s. sv_broker s = b) (on_switches k)"
  "op_keeps (\<lambda>s. sv_broker s = b) (op_modify (pd_broker_connected_update g))" "op_keeps (\<lambda>s. sv_broker s = b) (op_check c msg)"
proof -
  show "op_keeps (\<lambda>s. sv_broker s = b) (persist e)"
    unfolding op_keeps_def using persist_frames(2) by (metis prod.collapse)
qed (auto simp: op_keeps_def ensure_persistence_healthy_def on_order_def on_combo_def note_operation_def op_check_def
    on_switches_def op_on_def split: option.splits prod.splits)

lemma lose_session_frames:
  assumes "lose_session e err s = (r, t)"
  shows "r \<noteq> Ok x" "sv_broker t = sv_broker s"
proof -
  obtain q u where p: "persist e (pd_broker_connected_update (\<lambda>_. False) s) = (q, u)" by fastforce
  with assms have "t = u" "r \<noteq> Ok x" by (auto simp: lose_session_def op_bind_def split: sum.splits)
  with persist_frames(2) [OF p] show "r \<noteq> Ok x" "sv_broker t = sv_broker s" by simp_all
qed

lemma keeps_broker_lose [op_keeps_intros]: "op_keeps (\<lambda>s. sv_broker s = b) (lose_session e err)"
  unfolding op_keeps_def using lose_session_frames(2) by (metis prod.collapse)

text \<open>Asking the adapter, then settling the answer without asking again.\<close>

lemma ask_then_settle:
  assumes "op_catch (ask_broker m) h s = (r, t)" "\<And>err b. op_keeps (\<lambda>s. sv_broker s = b) (h err)"
  shows "sv_broker t = snd (m (sv_broker s))"
proof -
  obtain q b where m: "m (sv_broker s) = (q, b)" by fastforce
  then have ask: "ask_broker m s = (q, sv_broker_update (\<lambda>_. b) s)" by (simp add: op_on_def)
  show ?thesis
  proof (cases q)
    case (Inr x)
    with assms(1) ask m show ?thesis by (auto simp: op_catch_def)
  next
    case (Inl err)
    with assms(1) ask have "h err (sv_broker_update (\<lambda>_. b) s) = (r, t)" by (simp add: op_catch_def)
    from op_keepsD [OF assms(2) [of b err] _ this] m show ?thesis by simp
  qed
qed

text \<open>The journal file only grows. A state is journaled before everything else when the first write tried
  from the present file was complete and put the record of that very state at its end.\<close>

definition journal_grows :: "'b paper_service \<Rightarrow> 'b paper_service \<Rightarrow> bool" where
  "journal_grows s t \<longleftrightarrow> (\<forall>j. sv_journal s = Some j \<longrightarrow> (\<exists>j' rest. sv_journal t = Some j' \<and> jn_contents j' = jn_contents j @ rest))"

definition journaled_first :: "'b paper_env \<Rightarrow> 'b paper_service \<Rightarrow> 'b paper_service \<Rightarrow> 'b paper_service \<Rightarrow> bool" where
  "journaled_first e s x t \<longleftrightarrow> (\<forall>j. sv_journal s = Some j \<longrightarrow> (\<exists>entry line rest j'.
     next_record (en_codec e) (durable_text e x) j = Ok entry \<and> jc_print (en_codec e) (V3Record entry) = Ok line
     \<and> en_disk e (jn_attempts j) = WriteComplete
     \<and> sv_journal t = Some j' \<and> jn_contents j' = jn_contents j @ line @ newline # rest))"

lemma journal_grows_refl: "journal_grows s s"
  by (simp add: journal_grows_def)

lemma journal_grows_trans: "journal_grows s t \<Longrightarrow> journal_grows t u \<Longrightarrow> journal_grows s u"
  unfolding journal_grows_def by (metis append_assoc)

lemma journal_grows_same: "sv_journal u = sv_journal t \<Longrightarrow> journal_grows s t \<Longrightarrow> journal_grows s u"
  by (simp add: journal_grows_def)

lemma persist_grows: "persist e s = (r, t) \<Longrightarrow> journal_grows s t"
  by (auto simp: journal_grows_def persist_def journal_append_def split: option.splits prod.splits sum.splits write_outcome.splits)

lemma keeps_journal [op_keeps_intros]:
  "op_keeps (journal_grows s) (persist e)" "op_keeps (journal_grows s) ensure_persistence_healthy"
  "op_keeps (journal_grows s) (on_order cid m)" "op_keeps (journal_grows s) (on_combo cid n)"
  "op_keeps (journal_grows s) (ask_broker a)" "op_keeps (journal_grows s) (op_check c msg)"
  "op_keeps (journal_grows s) (op_modify (pd_broker_connected_update g))"
proof -
  show "op_keeps (journal_grows s) (persist e)"
    unfolding op_keeps_def using journal_grows_trans persist_grows by (metis prod.collapse)
qed (auto simp: op_keeps_def ensure_persistence_healthy_def on_order_def on_combo_def op_check_def op_on_def
    journal_grows_def split: option.splits prod.splits)

lemma keeps_journal_lose [op_keeps_intros]: "op_keeps (journal_grows s) (lose_session e err)"
  unfolding lose_session_def by (intro op_keeps_intros)

lemma keeps_journal_catch:
  assumes "op_keeps P m" "\<And>err. op_keeps P (h err)"
  shows "op_keeps P (op_catch m h)"
  unfolding op_keeps_def
proof (intro allI impI)
  fix s assume s: "P s"
  obtain q u where m: "m s = (q, u)" by fastforce
  have u: "P u" using op_keepsD [OF assms(1) s m] .
  show "P (snd (op_catch m h s))"
  proof (cases q)
    case (Inl err)
    obtain r t where h: "h err u = (r, t)" by fastforce
    from op_keepsD [OF assms(2) u this] show ?thesis by (simp add: op_catch_def m Inl h)
  qed (simp add: op_catch_def m u)
qed

lemma persisted_first:
  assumes "persist e x = (Ok (), mid)" "sv_journal x = sv_journal s" "journal_grows mid t"
  shows "journaled_first e s x t"
  unfolding journaled_first_def
proof (intro allI impI)
  fix j assume j: "sv_journal s = Some j"
  with assms(1,2) obtain entry line where r: "next_record (en_codec e) (durable_text e x) j = Ok entry"
    "jc_print (en_codec e) (V3Record entry) = Ok line" "en_disk e (jn_attempts j) = WriteComplete"
    and mid: "\<exists>j1. sv_journal mid = Some j1 \<and> jn_contents j1 = jn_contents j @ line @ [newline]"
    by (auto simp: persist_def journal_append_def and_then_def split: prod.splits sum.splits write_outcome.splits)
  from mid assms(3) obtain j' rest where "sv_journal t = Some j'" "jn_contents j' = jn_contents j @ line @ newline # rest"
    by (auto simp: journal_grows_def)
  with r show "\<exists>entry line rest j'. next_record (en_codec e) (durable_text e x) j = Ok entry
     \<and> jc_print (en_codec e) (V3Record entry) = Ok line \<and> en_disk e (jn_attempts j) = WriteComplete
     \<and> sv_journal t = Some j' \<and> jn_contents j' = jn_contents j @ line @ newline # rest" by blast
qed

text \<open>What a cancellation records: the order, of either kind, in \<^verbatim>\<open>PENDING_CANCEL\<close>, and who asked for it.\<close>

definition moved_to_cancel :: "string \<Rightarrow> 'z paper_state_scheme \<Rightarrow> 'z paper_state_scheme" where
  "moved_to_cancel cid s = (case bt_get (pv_combo_orders s) cid of
     Some c \<Rightarrow> s\<lparr>pv_combo_orders := bt_insert cid (c\<lparr>pco_oms := (pco_oms c)\<lparr>ooc_state := PendingCancel\<rparr>\<rparr>) (pv_combo_orders s)\<rparr>
   | None \<Rightarrow> (case bt_get (pv_orders s) cid of
       Some o1 \<Rightarrow> s\<lparr>pv_orders := bt_insert cid (o1\<lparr>por_oms := (por_oms o1)\<lparr>oo_state := PendingCancel\<rparr>\<rparr>) (pv_orders s)\<rparr>
     | None \<Rightarrow> s))"

definition cancelling :: "string \<Rightarrow> order_operation option \<Rightarrow> 'z paper_durable_scheme \<Rightarrow> 'z paper_durable_scheme" where
  "cancelling cid operation s = pd_order_operations_update
     (\<lambda>xs. xs @ (case operation of None \<Rightarrow> [] | Some x \<Rightarrow> [x])) (moved_to_cancel cid s)"

lemma moved_to_cancel_state:
  "order_state_in s cid \<noteq> None \<Longrightarrow> order_state_in (moved_to_cancel cid s) cid = Some PendingCancel"
  by (auto simp: moved_to_cancel_def order_state_in_def bt_get_insert split: option.splits)

lemma moved_to_cancel_frames:
  fixes s :: "'b paper_service"
  shows "sv_broker (moved_to_cancel cid s) = sv_broker s" "sv_journal (moved_to_cancel cid s) = sv_journal s"
  by (simp_all add: moved_to_cancel_def split: option.split)

lemma order_state_noted: "order_state_in (pd_order_operations_update f s) cid = order_state_in s cid"
  by (simp add: order_state_in_def cong: option.case_cong)

lemma note_operation_cancelling:
  "note_operation operation (moved_to_cancel cid s) = (Ok (), cancelling cid operation s)"
  by (cases "moved_to_cancel cid s") (simp add: note_operation_def cancelling_def split: option.split)

abbreviation cancel_request :: "'b paper_env \<Rightarrow> string \<Rightarrow> broker_cancel_request" where
  "cancel_request e cid \<equiv> \<lparr>bca_account_id = account_of e, bca_client_order_id = cid\<rparr>"

definition cancel_asked :: "'b paper_env \<Rightarrow> string \<Rightarrow> order_operation option \<Rightarrow> 'b paper_service \<Rightarrow> 'b paper_service \<Rightarrow> bool" where
  "cancel_asked e cid operation s t \<longleftrightarrow> sv_broker t = sv_broker s
     \<or> order_state_in s cid \<in> {Some Acknowledged, Some PartiallyFilled}
       \<and> order_state_in (cancelling cid operation s) cid = Some PendingCancel
       \<and> journaled_first e s (cancelling cid operation s) t
       \<and> sv_broker t = snd (br_cancel (en_broker e) (cancel_request e cid) (sv_broker s))"

lemma cancel_tail:
  assumes "op_bind (note_operation operation) (\<lambda>_. op_bind (persist e) (\<lambda>_.
      op_catch (ask_broker (br_cancel (en_broker e) (cancel_request e cid))) settle)) (moved_to_cancel cid s) = (r, t)"
    "order_state_in s cid \<in> {Some Acknowledged, Some PartiallyFilled}"
    "\<And>err b. op_keeps (\<lambda>s. sv_broker s = b) (settle err)" "\<And>err x. op_keeps (journal_grows x) (settle err)"
  shows "cancel_asked e cid operation s t"
proof -
  let ?x = "cancelling cid operation s"
  have x: "sv_broker ?x = sv_broker s" "sv_journal ?x = sv_journal s" "order_state_in ?x cid = Some PendingCancel"
    using moved_to_cancel_state [of s cid] assms(2) by (auto simp: cancelling_def moved_to_cancel_frames order_state_noted)
  from assms(1) have "op_bind (persist e) (\<lambda>_.
      op_catch (ask_broker (br_cancel (en_broker e) (cancel_request e cid))) settle) ?x = (r, t)"
    by (simp add: op_bind_def note_operation_cancelling)
  then show ?thesis
  proof (cases rule: op_bind_elim)
    case (stop err)
    with persist_frames(2) [OF stop(1)] x(1) show ?thesis by (simp add: cancel_asked_def)
  next
    case (go y mid)
    have "sv_broker t = snd (br_cancel (en_broker e) (cancel_request e cid) (sv_broker mid))"
      by (rule ask_then_settle [OF go(2) assms(3)])
    moreover have "sv_broker mid = sv_broker s" using persist_frames(2) [OF go(1)] x(1) by simp
    moreover have "op_keeps (journal_grows mid) (op_catch (ask_broker (br_cancel (en_broker e) (cancel_request e cid))) settle)"
      by (intro keeps_journal_catch keeps_journal assms(4))
    from op_keepsD [OF this journal_grows_refl go(2)] have "journaled_first e s ?x t"
      by (intro persisted_first [OF _ x(2)]) (use go(1) in simp_all)
    ultimately show ?thesis using x(3) assms(2) by (simp add: cancel_asked_def)
  qed
qed

lemma cancel_combo_asks:
  assumes "cancel_combo_order e cid operation s = (r, t)"
  shows "cancel_asked e cid operation s t"
proof -
  define settle :: "error \<Rightarrow> ('a paper_service, unit) op" where "settle = (\<lambda>err. op_bind (on_combo cid (combo_transition Unknown ''PAPER_COMBO_CANCEL_OUTCOME_UNKNOWN''))
      (\<lambda>_. lose_session e err))"
  have settle: "op_keeps (\<lambda>s. sv_broker s = b) (settle err)" "op_keeps (journal_grows x) (settle err)" for err b x
    unfolding settle_def by (intro op_keeps_intros)+
  let ?steps = "op_bind (on_combo cid (combo_transition PendingCancel ''PAPER_COMBO_CANCEL_REQUESTED'')) (\<lambda>_.
       op_bind (note_operation operation) (\<lambda>_. op_bind (persist e) (\<lambda>_.
       op_catch (ask_broker (br_cancel (en_broker e) (cancel_request e cid))) settle)))"
  consider "t = s" | c where "bt_get (pv_combo_orders s) cid = Some c" "pco_state c \<in> {Acknowledged, PartiallyFilled}" "?steps s = (r, t)"
    using assms unfolding cancel_combo_order_def settle_def [symmetric]
    by (auto simp: op_check_def ok_or_def split: if_splits option.splits elim!: op_bind_elim)
  then show ?thesis
  proof cases
    case (2 c)
    from 2(3) show ?thesis
    proof (cases rule: op_bind_elim)
      case (stop err)
      then show ?thesis by (auto simp: cancel_asked_def on_combo_def split: option.splits prod.splits)
    next
      case (go x u)
      have "u = moved_to_cancel cid s"
        using go(1) 2(1) by (auto simp: on_combo_def moved_to_cancel_def combo_transition_eq split: prod.splits if_splits)
      moreover have "order_state_in s cid \<in> {Some Acknowledged, Some PartiallyFilled}" using 2(1,2) by (simp add: order_state_in_def)
      ultimately show ?thesis using go(2) by (intro cancel_tail [where settle = settle] settle) simp_all
    qed
  qed (simp add: cancel_asked_def)
qed

lemma cancel_order_asks:
  assumes "cancel_order_attributed e cid operation s = (r, t)"
  shows "cancel_asked e cid operation s t"
proof -
  define settle :: "error \<Rightarrow> ('a paper_service, unit) op" where "settle = (\<lambda>err. op_bind (on_order cid (order_transition Unknown ''PAPER_CANCEL_OUTCOME_UNKNOWN''))
      (\<lambda>_. lose_session e err))"
  have settle: "op_keeps (\<lambda>s. sv_broker s = b) (settle err)" "op_keeps (journal_grows x) (settle err)" for err b x
    unfolding settle_def by (intro op_keeps_intros)+
  let ?steps = "op_bind (on_order cid (order_transition PendingCancel ''PAPER_CANCEL_REQUESTED'')) (\<lambda>_.
       op_bind (note_operation operation) (\<lambda>_. op_bind (persist e) (\<lambda>_.
       op_catch (ask_broker (br_cancel (en_broker e) (cancel_request e cid))) settle)))"
  consider "t = s" | "cancel_combo_order e cid operation s = (r, t)"
    | o1 where "bt_get (pv_combo_orders s) cid = None" "bt_get (pv_orders s) cid = Some o1"
        "por_state o1 \<in> {Acknowledged, PartiallyFilled}" "?steps s = (r, t)"
    using assms unfolding cancel_order_attributed_def settle_def [symmetric]
    by (auto simp: op_check_def ok_or_def ensure_persistence_healthy_def split: if_splits option.splits elim!: op_bind_elim)
  then show ?thesis
  proof cases
    case 1
    then show ?thesis by (simp add: cancel_asked_def)
  next
    case 2
    then show ?thesis by (rule cancel_combo_asks)
  next
    case (3 o1)
    from 3(4) show ?thesis
    proof (cases rule: op_bind_elim)
      case (stop err)
      then show ?thesis by (auto simp: cancel_asked_def on_order_def split: option.splits prod.splits)
    next
      case (go x u)
      have "u = moved_to_cancel cid s"
        using go(1) 3(1,2) by (auto simp: on_order_def moved_to_cancel_def order_transition_eq split: prod.splits if_splits)
      moreover have "order_state_in s cid \<in> {Some Acknowledged, Some PartiallyFilled}" using 3(1-3) by (simp add: order_state_in_def)
      ultimately show ?thesis using go(2) by (intro cancel_tail [where settle = settle] settle) simp_all
    qed
  qed
qed

text \<open>A replacement is sent first and journaled afterwards.\<close>

lemma on_order_frames:
  assumes "on_order cid m s = (r, t)"
  shows "sv_broker t = sv_broker s" "sv_journal t = sv_journal s" "sv_persistence_healthy t = sv_persistence_healthy s"
    "pd_order_operations t = pd_order_operations s"
  using assms by (auto simp: on_order_def split: option.splits prod.splits)

text \<open>A disk that takes nothing of a record leaves the file as it is and closes the service.\<close>

lemma persist_stopped:
  assumes "sv_journal s = Some j" "en_disk e (jn_attempts j) = WriteStopped 0 err"
  obtains msg j' where "persist e s = (Inl msg, s\<lparr>sv_journal := Some j', sv_persistence_healthy := False\<rparr>)"
    "jn_contents j' = jn_contents j"
proof -
  have "\<exists>msg j'. journal_append (en_codec e) (en_disk e) (durable_text e s) j = (Inl msg, j') \<and> jn_contents j' = jn_contents j"
    using assms(2) by (auto simp: journal_append_def split: sum.split)
  with assms(1) show thesis using that by (auto simp: persist_def)
qed

lemma replace_request_fields:
  assumes "order_replace_request replacement o1 = (Ok request, o2)"
  shows "por_state o2 = PendingReplace" "por_broker_order_id o1 = Some (brr_previous_broker_order_id request)"
    "request = \<lparr>brr_account_id = oi_account_id (oo_intent (por_oms o1)), brr_client_order_id = oo_order_id (por_oms o1),
       brr_previous_broker_order_id = brr_previous_broker_order_id request, brr_limit_price = replacement\<rparr>"
  using assms by (auto simp: order_replace_request_def op_check_def op_bind_def order_transition_eq ok_or_def
      split: if_splits option.splits)

lemma replace_order_runs:
  assumes "bt_get (pv_orders s) cid = Some o1" "order_replace_request replacement o1 = (Ok request, o2)"
    and "br_replace (en_broker e) request (sv_broker s) = (Ok (), b)"
    and "sv_persistence_healthy s" "pd_broker_connected s"
    and "br_capabilities (en_broker e) (sv_broker s) (account_of e) = Ok caps" "bc_replacement caps"
  shows "replace_order e cid replacement s = persist e (s\<lparr>pv_orders := bt_insert cid o2 (pv_orders s), sv_broker := b\<rparr>)"
  using assms by (simp add: replace_order_def ensure_persistence_healthy_def op_check_def op_bind_def on_order_def op_catch_def
      op_on_def)

section \<open>Two orders of command and journal\<close>

definition sample_codec_any :: "'s journal_codec" where
  "sample_codec_any = \<lparr>jc_print = (\<lambda>_. Ok ''{}''), jc_parse = (\<lambda>_. Err ''invalid record''), jc_sha256_hex = (\<lambda>x. x)\<rparr>"

text \<open>A broker that counts the commands it is given.\<close>

definition sample_broker :: "nat paper_broker" where
  "sample_broker = \<lparr>br_capabilities = (\<lambda>_ _. Ok \<lparr>bc_combinations = True, bc_good_til_cancelled = True, bc_replacement = True\<rparr>),
     br_requires_clean_reconciliation = (\<lambda>_. False), br_submit = (\<lambda>_ n. (Ok (SubmitAcknowledged ''b1''), n + 1)),
     br_submit_combo = (\<lambda>_ n. (Ok (SubmitAcknowledged ''b1''), n + 1)), br_cancel = (\<lambda>_ n. (Ok (), n + 1)),
     br_replace = (\<lambda>_ n. (Ok (), n + 1)), br_poll = (\<lambda>_ n. (Ok [sample_execution], n + 1)),
     br_snapshot = (\<lambda>_ n. (Ok \<lparr>bas_orders = [], bas_positions = [], bas_cash = ZERO\<rparr>, n)),
     br_reconnect = (\<lambda>_ n. (Ok (), n + 1))\<rparr>"

definition sample_env :: "write_outcome \<Rightarrow> nat paper_env" where
  "sample_env outcome = \<lparr>en_setup = sample_setup, en_rfc3339 = (\<lambda>_. True), en_instant = (\<lambda>_. Some 0), en_broker = sample_broker,
     en_codec = sample_codec_any, en_disk = (\<lambda>_. outcome)\<rparr>"

definition sample_running :: "nat paper_service" where
  "sample_running = paper_durable.extend
     (durable_new (pu_account sample_setup) \<lparr>ksr_version = ''k1'', ksr_active = []\<rparr>
       \<lparr>pv_orders := [(''order-i'', sample_paper_order)]\<rparr>)
     (paper_service.fields 0 (Some \<lparr>jn_contents = [], jn_attempts = 0, jn_next_sequence = 1,
       jn_previous_hash = [], jn_latest = None\<rparr>) True)"

lemma sample_running_simps [simp]:
  "pv_orders sample_running = [(''order-i'', sample_paper_order)]" "pv_combo_orders sample_running = []"
  "pd_broker_connected sample_running" "sv_persistence_healthy sample_running" "sv_broker sample_running = 0"
  "sv_journal sample_running = Some \<lparr>jn_contents = [], jn_attempts = 0, jn_next_sequence = 1,
       jn_previous_hash = [], jn_latest = None\<rparr>" "pd_order_operations sample_running = []"
  by (simp_all add: sample_running_def paper_durable.extend_def paper_service.fields_def durable_new_def)

text \<open>C7: The adapter is asked to cancel only after the journal has it: the first write to the file was
  complete and its record is that of this very state with the order, acknowledged or partly filled until then,
  moved to \<^verbatim>\<open>PENDING_CANCEL\<close> and the operator's request noted. So when that write fails, the adapter is not asked.\<close>

theorem cancellation_journaled_first:
  assumes "cancel_order_attributed e cid operation s = (r, t)" "sv_broker t \<noteq> sv_broker s"
  shows "order_state_in s cid \<in> {Some Acknowledged, Some PartiallyFilled}
    \<and> order_state_in (cancelling cid operation s) cid = Some PendingCancel
    \<and> journaled_first e s (cancelling cid operation s) t
    \<and> sv_broker t = snd (br_cancel (en_broker e) (cancel_request e cid) (sv_broker s))"
  using cancel_order_asks [OF assms(1)] assms(2) by (simp add: cancel_asked_def)

theorem cancellation_journaled_first_witness:
  "\<exists>t j. cancel_order_attributed (sample_env WriteComplete) ''order-i'' None sample_running = (Ok (), t)
    \<and> sv_broker t = 1 \<and> sv_journal t = Some j \<and> (\<exists>rest. jn_contents j = ''{}'' @ newline # rest)"
proof -
  obtain r t where run: "cancel_order_attributed (sample_env WriteComplete) ''order-i'' None sample_running = (r, t)"
    by fastforce
  then have t: "r = Ok ()" "sv_broker t = 1"
    by (auto simp: cancel_order_attributed_def ensure_persistence_healthy_def op_check_def on_order_def sample_paper_order_def
        order_transition_eq note_operation_def persist_def journal_append_def next_record_def record_hash_def Let_def
        sample_codec_any_def sample_broker_def op_catch_def op_on_def sample_env_def op_bind_def)
  then have "journaled_first (sample_env WriteComplete) sample_running (cancelling ''order-i'' None sample_running) t"
    using cancellation_journaled_first [OF run] by simp
  then obtain j where "sv_journal t = Some j" "\<exists>rest. jn_contents j = ''{}'' @ newline # rest"
    by (auto simp: journaled_first_def sample_env_def sample_codec_any_def)
  with run t show ?thesis by auto
qed

text \<open>C37: A replacement is sent before it is journaled. When the order can be replaced, the adapter takes the
  request, for this order at the new price, and the disk then takes nothing: the call fails, the adapter works
  the replacement, and the file is byte for byte what it was, so a restart knows nothing of it. A
  cancellation on the same disk does not reach the adapter.\<close>

theorem replacement_outruns_journal:
  assumes "bt_get (pv_orders s) cid = Some o1" "order_replace_request replacement o1 = (Ok request, o2)"
    and "br_replace (en_broker e) request (sv_broker s) = (Ok (), b)"
    and "sv_persistence_healthy s" "pd_broker_connected s"
    and "br_capabilities (en_broker e) (sv_broker s) (account_of e) = Ok caps" "bc_replacement caps"
    and "sv_journal s = Some j" "en_disk e (jn_attempts j) = WriteStopped 0 err"
  shows "(\<exists>msg t j'. replace_order e cid replacement s = (Inl msg, t) \<and> sv_broker t = b
      \<and> bt_get (pv_orders t) cid = Some o2 \<and> por_state o2 = PendingReplace
      \<and> sv_journal t = Some j' \<and> jn_contents j' = jn_contents j)
    \<and> por_broker_order_id o1 = Some (brr_previous_broker_order_id request)
    \<and> request = \<lparr>brr_account_id = oi_account_id (oo_intent (por_oms o1)), brr_client_order_id = oo_order_id (por_oms o1),
         brr_previous_broker_order_id = brr_previous_broker_order_id request, brr_limit_price = replacement\<rparr>
    \<and> sv_broker (snd (cancel_order_attributed e cid operation s)) = sv_broker s"
proof -
  let ?s = "s\<lparr>pv_orders := bt_insert cid o2 (pv_orders s), sv_broker := b\<rparr>"
  obtain msg j' where "persist e ?s = (Inl msg, ?s\<lparr>sv_journal := Some j', sv_persistence_healthy := False\<rparr>)"
    "jn_contents j' = jn_contents j" by (rule persist_stopped [of ?s j e err]) (use assms(8,9) in simp_all)
  then have "\<exists>msg t j'. replace_order e cid replacement s = (Inl msg, t) \<and> sv_broker t = b \<and> bt_get (pv_orders t) cid = Some o2
      \<and> sv_journal t = Some j' \<and> jn_contents j' = jn_contents j"
    by (simp add: replace_order_runs [OF assms(1-7)] bt_get_insert)
  moreover obtain q u where run: "cancel_order_attributed e cid operation s = (q, u)" by fastforce
  have "sv_broker u = sv_broker s"
    using cancel_order_asks [OF run] assms(8,9) by (auto simp: cancel_asked_def journaled_first_def)
  ultimately show ?thesis using run replace_request_fields [OF assms(2)] by auto
qed

theorem replacement_outruns_journal_witness:
  "\<exists>msg t j. replace_order (sample_env (WriteStopped 0 ''disk full'')) ''order-i'' (Decimal 9000000000) sample_running = (Inl msg, t)
    \<and> sv_broker t = 1 \<and> sv_journal t = Some j \<and> jn_contents j = []"
proof -
  let ?e = "sample_env (WriteStopped 0 ''disk full'')" and ?s = sample_running
  obtain request o2 where request: "order_replace_request (Decimal 9000000000) sample_paper_order = (Ok request, o2)"
    by (simp add: order_replace_request_def op_check_def op_bind_def sample_paper_order_def sample_order_def sample_intent_def
        replacement_increases_risk_def ok_or_def order_transition_eq)
  have e: "br_replace (en_broker ?e) request (sv_broker ?s) = (Ok (), 1)"
    "br_capabilities (en_broker ?e) (sv_broker ?s) (account_of ?e)
      = Ok \<lparr>bc_combinations = True, bc_good_til_cancelled = True, bc_replacement = True\<rparr>"
    by (simp_all add: sample_env_def sample_broker_def)
  from replacement_outruns_journal [OF _ request e(1) _ _ e(2), of "''order-i''"] show ?thesis
    by (force simp: sample_env_def)
qed

end
