(* ===== verification/PaperReconcileLaws.thy ===== *)
theory PaperReconcileLaws
  imports PaperReconcile PaperServiceLaws
begin

text \<open>
  Laws of reconciliation, corporate actions and the paper-day gate: a report is clean exactly when the
  broker's snapshot agrees with the service's own books, incidents are never lost or rewritten by a later
  report, and every difference of a report stays on record as an unexplained incident.
\<close>

section \<open>A snapshot that agrees\<close>

text \<open>What agreement means for one order, one account: the specification, without issues or texts.\<close>

definition order_agrees :: "order_view \<Rightarrow> broker_order_snapshot list \<Rightarrow> bool" where
  "order_agrees v brokers \<longleftrightarrow>
     (if brokers = [] then \<not> ov_working v
      else (\<exists>x\<in>set brokers. ov_broker_order_id v = Some (bos_broker_order_id x) \<and> bos_state x = ov_state v)
        \<and> (\<forall>x\<in>set brokers. bos_broker_order_id x \<in> set (ov_versions v))
        \<and> (\<Sum>x\<leftarrow>brokers. scaled (bos_filled_quantity x)) = scaled (ov_filled_quantity v))"

definition snapshot_agrees :: "'z paper_state_scheme \<Rightarrow> broker_account_snapshot \<Rightarrow> bool" where
  "snapshot_agrees s b \<longleftrightarrow> (\<forall>v\<in>set (order_views s). order_agrees v (brokers_for b (ov_order_id v)))
     \<and> (\<forall>x\<in>set (bas_orders b). bt_get (pv_orders s) (bos_client_order_id x) \<noteq> None
          \<or> bt_get (pv_combo_orders s) (bos_client_order_id x) \<noteq> None)
     \<and> (\<forall>(_, c)\<in>set (pv_combo_orders s). pco_evidence_error c = None)
     \<and> (\<forall>i. held_quantity s i = broker_position b i) \<and> pb_cash s = bas_cash b"

text \<open>A validated snapshot names each broker order once and each instrument once.\<close>

lemma check_order_snapshots:
  "try_fold check_order_snapshot xs (versions, ids) = Ok (versions', ids') \<Longrightarrow>
    ids' = rev (map bos_broker_order_id xs) @ ids \<and> (distinct ids \<longrightarrow> distinct ids')"
proof (induction xs arbitrary: versions ids)
  case (Cons x xs)
  then show ?case
    by (auto simp: check_order_snapshot_def result_simps split: if_splits)
qed auto

lemma validated_snapshot:
  assumes "validate_broker_snapshot b = Ok ()"
  shows "distinct (map bos_broker_order_id (bas_orders b))"
proof -
  obtain versions ids where "try_fold check_order_snapshot (bas_orders b) ([], []) = Ok (versions, ids)"
    using assms by (auto simp: validate_broker_snapshot_def result_simps)
  from check_order_snapshots [OF this] show ?thesis by (metis append_Nil2 distinct.simps(1) distinct_rev)
qed

lemma broker_filled_scaled: "broker_filled xs = Ok q \<Longrightarrow> scaled q = (\<Sum>x\<leftarrow>xs. scaled (bos_filled_quantity x))"
proof -
  have "try_fold (\<lambda>x acc. checked_add acc (bos_filled_quantity x)) xs a = Ok q \<Longrightarrow>
      scaled q = scaled a + (\<Sum>x\<leftarrow>xs. scaled (bos_filled_quantity x))" for a
    by (induction xs arbitrary: a) (auto simp: result_simps dest: checked_add_scaled)
  then show "broker_filled xs = Ok q \<Longrightarrow> ?thesis" by (fastforce simp: broker_filled_def)
qed

lemma current_version_iff:
  assumes "distinct (map bos_broker_order_id xs)"
  shows "current_version v xs = Some x \<longleftrightarrow> x \<in> set xs \<and> ov_broker_order_id v = Some (bos_broker_order_id x)"
proof -
  have "find (\<lambda>y. bos_broker_order_id y = k) xs = Some x \<longleftrightarrow> x \<in> set xs \<and> bos_broker_order_id x = k" for k
    using assms by (induction xs) auto
  then show ?thesis by (cases "ov_broker_order_id v") (auto simp: current_version_def)
qed

lemma order_issues_none:
  assumes "distinct (map bos_broker_order_id (bas_orders b))" "order_issues b v = Ok issues"
  shows "issues = [] \<longleftrightarrow> order_agrees v (brokers_for b (ov_order_id v))"
proof (cases "brokers_for b (ov_order_id v)")
  case Nil
  with assms(2) show ?thesis by (auto simp: order_issues_def order_agrees_def)
next
  case (Cons y ys)
  let ?xs = "brokers_for b (ov_order_id v)"
  have d: "distinct (map bos_broker_order_id ?xs)" using assms(1) by (simp add: brokers_for_def distinct_map_filter)
  from assms(2) Cons obtain q where q: "broker_filled ?xs = Ok q" and issues: "known_order_issues v ?xs = Ok issues"
    by (auto simp: order_issues_def known_order_issues_def Let_def result_simps)
  from q issues have empty: "issues = [] \<longleftrightarrow> (\<exists>x. current_version v ?xs = Some x \<and> ov_state v = bos_state x)
      \<and> (\<forall>x\<in>set ?xs. bos_broker_order_id x \<in> set (ov_versions v)) \<and> ov_filled_quantity v = q"
    by (cases "current_version v ?xs") (auto simp: known_order_issues_def Let_def split: if_splits)
  have "ov_filled_quantity v = q \<longleftrightarrow> (\<Sum>x\<leftarrow>?xs. scaled (bos_filled_quantity x)) = scaled (ov_filled_quantity v)"
    using broker_filled_scaled [OF q] by (auto simp: decimal_eq_scaled)
  with empty show ?thesis
    using Cons unfolding current_version_iff [OF d] order_agrees_def by auto
qed

lemma mem_bs_of_list: "i \<in> set (bs_of_list xs) \<longleftrightarrow> i \<in> set xs"
  for xs :: "'k::linorder list"
proof -
  have "i \<in> set (fold bs_insert xs s) \<longleftrightarrow> i \<in> set xs \<or> i \<in> set s" for s
    by (induction xs arbitrary: s) auto
  then show ?thesis by (simp add: bs_of_list_def)
qed

lemma bt_get_absent: "k \<notin> fst ` set m \<Longrightarrow> bt_get m k = None"
  by (induction m) auto

lemma position_issues_none:
  "position_issues s b = [] \<longleftrightarrow> (\<forall>i. held_quantity s i = broker_position b i)"
proof -
  have "held_quantity s i = broker_position b i" if "i \<notin> fst ` set (pb_portfolios s)" "i \<notin> bps_instrument_id ` set (bas_positions b)" for i
  proof -
    have "bt_get (pb_portfolios s) i = None" using that(1) by (rule bt_get_absent)
    moreover have "find (\<lambda>p. bps_instrument_id p = i) (rev (bas_positions b)) = None"
      using that(2) by (auto simp: find_None_iff)
    ultimately show ?thesis by (simp add: held_quantity_def broker_position_def)
  qed
  then have "(\<forall>i\<in>set (map fst (pb_portfolios s) @ map bps_instrument_id (bas_positions b)). held_quantity s i = broker_position b i)
      \<longleftrightarrow> (\<forall>i. held_quantity s i = broker_position b i)" by fastforce
  moreover have "position_issues s b = [] \<longleftrightarrow>
      (\<forall>i\<in>set (bs_of_list (map fst (pb_portfolios s) @ map bps_instrument_id (bas_positions b))). held_quantity s i = broker_position b i)"
    unfolding position_issues_def concat_eq_Nil_conv by auto
  ultimately show ?thesis by (simp only: mem_bs_of_list Ball_def)
qed

lemma raw_issues_none:
  assumes "validate_broker_snapshot b = Ok ()" "raw_issues account s b = Ok raw"
  shows "raw = [] \<longleftrightarrow> snapshot_agrees s b"
proof -
  obtain orders where orders: "try_map (order_issues b) (order_views s) = Ok orders"
    and raw: "raw = concat orders @ unexpected_issues s b @ anomaly_issues s @ position_issues s b @ cash_issues account s b"
    using assms(2) by (auto simp: raw_issues_def result_simps)
  have "concat orders = [] \<longleftrightarrow> (\<forall>v\<in>set (order_views s). order_agrees v (brokers_for b (ov_order_id v)))"
  proof -
    have "list_all2 (\<lambda>v issues. issues = [] \<longleftrightarrow> order_agrees v (brokers_for b (ov_order_id v))) (order_views s) orders"
      using orders unfolding try_map_eq_Inr
      by (rule list_all2_mono) (rule order_issues_none [OF validated_snapshot [OF assms(1)]])
    then show ?thesis by (induction rule: list_all2_induct) auto
  qed
  moreover have "unexpected_issues s b = [] \<longleftrightarrow> (\<forall>x\<in>set (bas_orders b). bt_get (pv_orders s) (bos_client_order_id x) \<noteq> None
          \<or> bt_get (pv_combo_orders s) (bos_client_order_id x) \<noteq> None)"
    by (auto simp: unexpected_issues_def filter_empty_conv)
  moreover have "anomaly_issues s = [] \<longleftrightarrow> (\<forall>(_, c)\<in>set (pv_combo_orders s). pco_evidence_error c = None)"
    by (auto simp: anomaly_issues_def split: option.splits)
  moreover have "cash_issues account s b = [] \<longleftrightarrow> pb_cash s = bas_cash b" by (simp add: cash_issues_def)
  ultimately show ?thesis by (simp add: raw position_issues_none snapshot_agrees_def)
qed

section \<open>Reports\<close>

lemma record_issues_texts:
  "record_issues n raw incidents = (incidents', issues) \<Longrightarrow>
     map (\<lambda>i. (rci_category i, rci_subject i, rci_detail i)) issues = raw"
proof -
  have "fold (record_issue n) es (m, issues) = (m', issues') \<Longrightarrow>
      map (\<lambda>i. (rci_category i, rci_subject i, rci_detail i)) issues' =
      map (\<lambda>i. (rci_category i, rci_subject i, rci_detail i)) issues @ map snd es" for es m issues m' issues'
    by (induction es arbitrary: m issues) (auto simp: record_issue_def Let_def)
  then show "record_issues n raw incidents = (incidents', issues) \<Longrightarrow> ?thesis"
    by (fastforce simp: record_issues_def enumerate0_def)
qed

lemma differences_core:
  assumes "core t = core s"
  shows "raw_issues account t b = raw_issues account s b" "snapshot_agrees t b = snapshot_agrees s b"
proof -
  note eq = core_eq [OF assms]
  have held: "held_quantity t i = held_quantity s i" for i by (simp add: held_quantity_def eq)
  have views: "order_views t = order_views s" by (simp add: order_views_def eq)
  show "raw_issues account t b = raw_issues account s b"
    by (simp add: raw_issues_def views unexpected_issues_def anomaly_issues_def position_issues_def cash_issues_def held eq cong: if_cong)
  show "snapshot_agrees t b = snapshot_agrees s b"
    by (simp add: snapshot_agrees_def views held eq)
qed

lemma ask_answered:
  assumes "op_catch (ask_broker m) (lose_session e) s = (Ok x, t)"
  shows "\<exists>b. m (sv_broker s) = (Ok x, b) \<and> t = sv_broker_update (\<lambda>_. b) s"
proof -
  obtain q b where m: "m (sv_broker s) = (q, b)" by fastforce
  then have ask: "ask_broker m s = (q, sv_broker_update (\<lambda>_. b) s)" by (simp add: op_on_def)
  show ?thesis
  proof (cases q)
    case (Inl err)
    with assms ask have "lose_session e err (sv_broker_update (\<lambda>_. b) s) = (Ok x, t)" by (simp add: op_catch_def)
    from lose_session_frames(1) [OF this] show ?thesis by blast
  next
    case (Inr y)
    with assms ask m show ?thesis by (simp add: op_catch_def)
  qed
qed

text \<open>What a reconciliation that reports did, step by step.\<close>

lemma reconcile_ok:
  assumes "reconcile e at s = (Ok r, t)"
  obtains b broker raw u where
    "br_snapshot (en_broker e) (account_of e) (sv_broker s) = (Ok b, broker)" "validate_broker_snapshot b = Ok ()"
    "raw_issues (account_of e) s b = Ok raw"
    "record_issues (pd_next_reconciliation s) raw (pd_incidents s) = (pd_incidents u, rcr_issues r)"
    "core u = core s" "pd_next_reconciliation u = Suc (pd_next_reconciliation s)" "pd_latest_reconciliation u = Some r"
    "rcr_reconciliation_id r = reconciliation_id (pd_next_reconciliation s)" "rcr_reconciled_at r = at"
    "persist e u = (Ok (), t)"
proof -
  from assms obtain b s1 where ask: "op_catch (ask_broker (br_snapshot (en_broker e) (account_of e))) (lose_session e) s = (Ok b, s1)"
    and valid: "validate_broker_snapshot b = Ok ()"
    and run: "op_bind (op_get pd_next_reconciliation) (\<lambda>n.
     op_bind (op_modify (pd_next_reconciliation_update Suc)) (\<lambda>_.
     op_bind (op_get (\<lambda>s. raw_issues (account_of e) s b)) (\<lambda>compared.
     op_bind (op_lift compared) (\<lambda>raw.
     op_bind (op_get (\<lambda>s. record_issues n raw (pd_incidents s))) (\<lambda>(incidents, issues).
     op_bind (op_modify (pd_incidents_update (\<lambda>_. incidents))) (\<lambda>_.
     let report = \<lparr>rcr_reconciliation_id = reconciliation_id n, rcr_reconciled_at = at, rcr_issues = issues\<rparr> in
     op_bind (adopt_report report) (\<lambda>_.
     op_bind (persist e) (\<lambda>_. op_return report)))))))) s1 = (Ok r, t)"
    unfolding reconcile_def op_check_def
    by (auto simp: op_bind_eq_Ok ensure_persistence_healthy_def split: if_splits)
  from ask_answered [OF ask] obtain broker where
    b: "br_snapshot (en_broker e) (account_of e) (sv_broker s) = (Ok b, broker)" and s1: "s1 = sv_broker_update (\<lambda>_. broker) s"
    by blast
  have same: "core (pd_next_reconciliation_update f s1) = core s" for f by (simp add: s1 core_def paper_state.truncate_def)
  obtain raw where raw: "raw_issues (account_of e) s b = Ok raw" and run:
    "(case record_issues (pd_next_reconciliation s) raw (pd_incidents s) of (incidents, issues) \<Rightarrow>
     op_bind (op_modify (pd_incidents_update (\<lambda>_. incidents))) (\<lambda>_.
     let report = \<lparr>rcr_reconciliation_id = reconciliation_id (pd_next_reconciliation s), rcr_reconciled_at = at, rcr_issues = issues\<rparr> in
     op_bind (adopt_report report) (\<lambda>_.
     op_bind (persist e) (\<lambda>_. op_return report)))) (pd_next_reconciliation_update Suc s1) = (Ok r, t)"
  proof (cases "raw_issues (account_of e) s b")
    case (Inl err)
    with run differences_core(1) [OF same, of "account_of e" Suc b] show ?thesis by simp
  next
    case (Inr raw)
    with run differences_core(1) [OF same, of "account_of e" Suc b] show ?thesis
      by (intro that) (simp_all add: s1 split_def)
  qed
  obtain incidents issues where rec: "record_issues (pd_next_reconciliation s) raw (pd_incidents s) = (incidents, issues)"
    by fastforce
  let ?u = "(pd_next_reconciliation_update Suc s1)\<lparr>pd_incidents := incidents,
     pd_last_reconciled_at := Some at, pd_last_reconciliation_clean := Some (report_is_clean r), pd_latest_reconciliation := Some r\<rparr>"
  from run rec have r: "r = \<lparr>rcr_reconciliation_id = reconciliation_id (pd_next_reconciliation s), rcr_reconciled_at = at, rcr_issues = issues\<rparr>"
    and p: "persist e ?u = (Ok (), t)"
    by (auto simp: op_bind_eq_Ok adopt_report_def s1 Let_def)
  show thesis
    by (rule that [of b broker raw ?u]; (fact b valid raw p)?) (simp_all add: rec r s1 core_def paper_state.truncate_def)
qed


text \<open>It reports when it is asked in a sound state, answered, and the disk takes the record.\<close>

lemma reconcile_reports:
  assumes "sv_persistence_healthy s" "pd_broker_connected s"
    and "validate_utc_timestamp (en_rfc3339 e) ''paper reconciliation time'' at = Ok ()"
    and "br_snapshot (en_broker e) (account_of e) (sv_broker s) = (Ok b, broker)" "validate_broker_snapshot b = Ok ()"
    and "raw_issues (account_of e) s b = Ok raw" "\<And>u. fst (persist e u) = Ok ()"
  shows "\<exists>r t. reconcile e at s = (Ok r, t)"
proof -
  let ?s = "sv_broker_update (\<lambda>_. broker) s"
  have same: "core (pd_next_reconciliation_update f ?s) = core s" for f by (simp add: core_def paper_state.truncate_def)
  have raw: "raw_issues (account_of e) (pd_next_reconciliation_update Suc ?s) b = Ok raw"
    using differences_core(1) [OF same] assms(6) by simp
  have persist: "\<exists>t. persist e u = (Ok (), t)" for u using assms(7) [of u] by (metis prod.collapse)
  have "\<exists>t. op_bind (adopt_report r) (\<lambda>_. op_bind (persist e) (\<lambda>_. op_return r)) u = (Ok r, t)" for r u
    unfolding adopt_report_def op_bind_basic
    by (metis (no_types, lifting) op_bind_simps(2) op_simps(1) persist)
  then have "\<exists>r t. op_bind (op_lift (Ok b)) (\<lambda>b. op_bind (op_lift (validate_broker_snapshot b)) (\<lambda>_.
     op_bind (op_get pd_next_reconciliation) (\<lambda>n.
     op_bind (op_modify (pd_next_reconciliation_update Suc)) (\<lambda>_.
     op_bind (op_get (\<lambda>s. raw_issues (account_of e) s b)) (\<lambda>compared.
     op_bind (op_lift compared) (\<lambda>raw.
     op_bind (op_get (\<lambda>s. record_issues n raw (pd_incidents s))) (\<lambda>(incidents, issues).
     op_bind (op_modify (pd_incidents_update (\<lambda>_. incidents))) (\<lambda>_.
     let report = \<lparr>rcr_reconciliation_id = reconciliation_id n, rcr_reconciled_at = at, rcr_issues = issues\<rparr> in
     op_bind (adopt_report report) (\<lambda>_.
     op_bind (persist e) (\<lambda>_. op_return report)))))))))) ?s = (Ok r, t)"
    using assms(5) raw by (simp add: Let_def split_def) blast
  moreover have "op_catch (ask_broker (br_snapshot (en_broker e) (account_of e))) (lose_session e) s = (Ok b, ?s)"
    using assms(4) by (simp add: op_catch_def op_on_def)
  ultimately show ?thesis
    using assms(1-3) by (simp add: reconcile_def ensure_persistence_healthy_def op_check_def op_bind_def)
qed

text \<open>C14: A report is clean exactly when the broker's account snapshot agrees with the service's own books:
  every order is known to both sides with the same state and filled quantity, no position differs, the
  cash is the same. The report is the one the service keeps and has journaled.\<close>

theorem reconcile_clean_iff:
  assumes "reconcile e at s = (Ok r, t)"
  shows "\<exists>b broker. br_snapshot (en_broker e) (account_of e) (sv_broker s) = (Ok b, broker)
    \<and> (report_is_clean r \<longleftrightarrow> snapshot_agrees s b) \<and> core t = core s \<and> pd_latest_reconciliation t = Some r \<and> synced e t"
proof -
  from reconcile_ok [OF assms] obtain b broker raw u where
    b: "br_snapshot (en_broker e) (account_of e) (sv_broker s) = (Ok b, broker)" "validate_broker_snapshot b = Ok ()"
    and raw: "raw_issues (account_of e) s b = Ok raw"
    and rec: "record_issues (pd_next_reconciliation s) raw (pd_incidents s) = (pd_incidents u, rcr_issues r)"
    and u: "core u = core s" "pd_latest_reconciliation u = Some r" and p: "persist e u = (Ok (), t)" .
  from record_issues_texts [OF rec] have "report_is_clean r \<longleftrightarrow> raw = []" by (auto simp: report_is_clean_def)
  with raw_issues_none [OF b(2) raw] have "report_is_clean r \<longleftrightarrow> snapshot_agrees s b" by simp
  moreover have "pd_latest_reconciliation t = Some r"
    using persist_frames(3) [OF p] u(2) by (simp add: paper_durable.truncate_def)
  moreover have "core t = core s" "synced e t" using persist_frames(1,5) [OF p] u(1) by simp_all
  ultimately show ?thesis using b(1) by blast
qed

text \<open>A broker that shows two versions of one order, and one with nothing.\<close>

definition sample_shown :: "broker_account_snapshot" where
  "sample_shown = \<lparr>bas_orders = [\<lparr>bos_client_order_id = ''c'', bos_broker_order_id = ''b1'', bos_state = Acknowledged,
      bos_filled_quantity = ZERO\<rparr>, \<lparr>bos_client_order_id = ''c'', bos_broker_order_id = ''b2'', bos_state = Acknowledged,
      bos_filled_quantity = ZERO\<rparr>], bas_positions = [], bas_cash = ZERO\<rparr>"

definition sample_showing :: "nat paper_env" where
  "sample_showing = (sample_env WriteComplete)\<lparr>en_broker := sample_broker\<lparr>br_snapshot := \<lambda>_ n. (Ok sample_shown, n)\<rparr>\<rparr>"

lemma sample_persists: "fst (persist sample_showing u) = Ok ()" "fst (persist (sample_env WriteComplete) u) = Ok ()"
  by (auto simp: persist_def journal_append_def next_record_def record_hash_def Let_def sample_codec_any_def
      sample_showing_def sample_env_def split: option.splits)

definition sample_idle :: "nat paper_service" where
  "sample_idle = sample_running\<lparr>pv_orders := []\<rparr>"

lemma sample_idle_simps [simp]:
  "pv_orders sample_idle = []" "pv_combo_orders sample_idle = []" "pb_portfolios sample_idle = []"
  "pd_broker_connected sample_idle" "sv_persistence_healthy sample_idle" "sv_broker sample_idle = 0" "pd_incidents sample_idle = []"
  by (simp_all add: sample_idle_def) (simp_all add: sample_running_def paper_durable.extend_def paper_service.fields_def durable_new_def)

lemma sample_time: "validate_utc_timestamp (\<lambda>_. True) name ''2026-01-31T23:59:59Z'' = Ok ()"
  by (simp add: result_simps sample_timestamp)

theorem reconcile_clean_iff_witness:
  "\<exists>r t. reconcile (sample_env WriteComplete) ''2026-01-31T23:59:59Z'' sample_idle = (Ok r, t)
    \<and> pd_latest_reconciliation t = Some r \<and> (report_is_clean r \<longleftrightarrow>
      snapshot_agrees sample_idle \<lparr>bas_orders = [], bas_positions = [], bas_cash = ZERO\<rparr>)"
proof -
  let ?b = "\<lparr>bas_orders = [], bas_positions = [], bas_cash = ZERO\<rparr> :: broker_account_snapshot"
  have b: "br_snapshot (en_broker (sample_env WriteComplete)) (account_of (sample_env WriteComplete)) (sv_broker sample_idle) = (Ok ?b, 0)"
    by (simp add: sample_env_def sample_broker_def)
  have "\<exists>raw. raw_issues (account_of (sample_env WriteComplete)) sample_idle ?b = Ok raw"
    by (simp add: raw_issues_def order_views_def)
  then obtain raw where raw: "raw_issues (account_of (sample_env WriteComplete)) sample_idle ?b = Ok raw" ..
  obtain r t where run: "reconcile (sample_env WriteComplete) ''2026-01-31T23:59:59Z'' sample_idle = (Ok r, t)"
    using reconcile_reports [OF _ _ _ b _ raw sample_persists(2), of "''2026-01-31T23:59:59Z''"]
    by (auto simp: sample_env_def sample_time validate_broker_snapshot_def)
  from reconcile_clean_iff [OF run] b run show ?thesis by auto
qed

section \<open>Incidents\<close>

lemma incident_id_inj [simp]: "incident_id m i = incident_id n j \<longleftrightarrow> m = n \<and> i = j"
proof
  assume "incident_id m i = incident_id n j"
  then have eq: "zero_padded 8 m @ CHR ''-'' # zero_padded 3 (i + 1) = zero_padded 8 n @ CHR ''-'' # zero_padded 3 (j + 1)"
    by (simp add: incident_id_def)
  have "CHR ''-'' \<notin> set (zero_padded w k)" for w k
    using zero_padded_digits [of w k] by (auto simp: list_all_iff)
  then have "zero_padded 8 m = zero_padded 8 n \<and> zero_padded 3 (i + 1) = zero_padded 3 (j + 1)"
    using iffD1 [OF append_Cons_eq_iff eq] by blast
  then show "m = n \<and> i = j" by simp
qed simp

text \<open>Every incident is kept under its own identity, which carries the number of the report that opened it.\<close>

definition incidents_below :: "nat \<Rightarrow> nat \<Rightarrow> (string, reconciliation_incident) btree_map \<Rightarrow> bool" where
  "incidents_below n index m \<longleftrightarrow> bt_sorted m \<and> (\<forall>k x. bt_get m k = Some x \<longrightarrow> rci_incident_id (rin_issue x) = k
     \<and> (\<exists>a i. k = incident_id a i \<and> (a < n \<or> a = n \<and> i < index)))"

abbreviation incidents_ok :: "'z paper_durable_scheme \<Rightarrow> bool" where
  "incidents_ok s \<equiv> incidents_below (pd_next_reconciliation s) 0 (pd_incidents s)"

definition on_record :: "(string, reconciliation_incident) btree_map \<Rightarrow> reconciliation_issue \<Rightarrow> bool" where
  "on_record m issue \<longleftrightarrow> (\<exists>x. bt_get m (rci_incident_id issue) = Some x \<and> incident_unexplained x
     \<and> rci_category (rin_issue x) = rci_category issue \<and> rci_subject (rin_issue x) = rci_subject issue)"

definition incidents_kept :: "(string, reconciliation_incident) btree_map \<Rightarrow> (string, reconciliation_incident) btree_map \<Rightarrow> bool" where
  "incidents_kept m m' \<longleftrightarrow> (\<forall>k x. bt_get m k = Some x \<longrightarrow> bt_get m' k = Some x)"

lemma incidents_kept_trans: "incidents_kept a b \<Longrightarrow> incidents_kept b c \<Longrightarrow> incidents_kept a c"
  by (simp add: incidents_kept_def)

lemma on_record_kept: "incidents_kept m m' \<Longrightarrow> on_record m issue \<Longrightarrow> on_record m' issue"
  by (auto simp: incidents_kept_def on_record_def)

lemma find_SomeD: "find P xs = Some x \<Longrightarrow> x \<in> set xs \<and> P x"
  by (induction xs) (auto split: if_splits)

lemma incidents_below_mono: "incidents_below n i m \<Longrightarrow> n < n' \<or> n = n' \<and> i \<le> i' \<Longrightarrow> incidents_below n' i' m"
  unfolding incidents_below_def by (fastforce dest: less_le_trans)

lemma record_issue_keeps:
  assumes "incidents_below n index m" "record_issue n (index, raw) (m, issues) = (m', issues')"
  shows "incidents_below n (Suc index) m'" "incidents_kept m m'"
    "\<exists>issue. issues' = issues @ [issue] \<and> on_record m' issue"
proof -
  obtain category subject detail where raw: "raw = (category, subject, detail)" by (cases raw)
  note m = assms(1)[unfolded incidents_below_def]
  have sub: "incidents_below n (Suc index) m" using incidents_below_mono [OF assms(1)] by simp
  have "incidents_below n (Suc index) m' \<and> incidents_kept m m' \<and> (\<exists>issue. issues' = issues @ [issue] \<and> on_record m' issue)"
  proof (cases "existing_incident m category subject")
    case (Some key)
    then obtain k x where x: "(k, x) \<in> set m" "rci_category (rin_issue x) = category" "rci_subject (rin_issue x) = subject"
      "incident_unexplained x" "key = rci_incident_id (rin_issue x)"
      unfolding existing_incident_def by (auto dest!: find_SomeD)
    have "bt_get m key = Some x" using m x(1,5) by (auto simp: bt_get_iff)
    with assms(2) raw Some x(2-4) sub show ?thesis
      by (auto simp: record_issue_def Let_def incidents_kept_def on_record_def)
  next
    case None
    have fresh: "bt_get m (incident_id n index) = None" using m by (metis incident_id_inj less_irrefl not_None_eq)
    with assms(2) raw None have m': "m' = bt_insert (incident_id n index)
        \<lparr>rin_issue = \<lparr>rci_incident_id = incident_id n index, rci_category = category, rci_subject = subject, rci_detail = detail\<rparr>,
         rin_explanation = None\<rparr> m"
      and issues: "issues' = issues @ [\<lparr>rci_incident_id = incident_id n index, rci_category = category, rci_subject = subject, rci_detail = detail\<rparr>]"
      by (auto simp: record_issue_def Let_def)
    have "incidents_below n (Suc index) m'"
      using sub by (auto simp: incidents_below_def m' bt_sorted_insert bt_get_insert split: if_splits)
    moreover have "incidents_kept m m'" using fresh by (auto simp: m' incidents_kept_def bt_get_insert)
    ultimately show ?thesis
      by (auto simp: issues on_record_def m' bt_get_insert incident_unexplained_def)
  qed
  then show "incidents_below n (Suc index) m'" "incidents_kept m m'"
    "\<exists>issue. issues' = issues @ [issue] \<and> on_record m' issue" by auto
qed

lemma record_issues_keeps:
  assumes "incidents_below n 0 m" "record_issues n raw m = (m', issues)"
  shows "incidents_below (Suc n) 0 m'" "incidents_kept m m'" "\<forall>issue\<in>set issues. on_record m' issue"
proof -
  have "incidents_below n (length raw) m' \<and> incidents_kept m m' \<and> (\<forall>issue\<in>set issues. on_record m' issue)"
    using assms(2)
  proof (induction raw arbitrary: m' issues rule: rev_induct)
    case Nil
    with assms(1) show ?case by (simp add: record_issues_def incidents_kept_def)
  next
    case (snoc x xs)
    obtain m1 issues1 where run: "record_issues n xs m = (m1, issues1)" by fastforce
    with snoc.prems have "record_issue n (length xs, x) (m1, issues1) = (m', issues)"
      by (simp add: record_issues_def enumerate0_snoc)
    moreover note IH = snoc.IH [OF run]
    ultimately have step: "incidents_below n (Suc (length xs)) m'" "incidents_kept m1 m'"
        "\<exists>issue. issues = issues1 @ [issue] \<and> on_record m' issue"
      using record_issue_keeps [of n "length xs" m1 x issues1 m' issues] by auto
    moreover have "incidents_kept m m'" using IH step(2) incidents_kept_trans by blast
    moreover have "\<forall>issue\<in>set issues1. on_record m' issue" using IH step(2) on_record_kept by blast
    ultimately show ?case by auto
  qed
  then show "incidents_below (Suc n) 0 m'" "incidents_kept m m'" "\<forall>issue\<in>set issues. on_record m' issue"
    using incidents_below_mono by auto
qed


text \<open>Whatever happens to a reconciliation, no incident is lost or rewritten, and the identities stay in step
  with the report counter.\<close>

definition incidents_follow :: "'z paper_durable_scheme \<Rightarrow> 'z paper_durable_scheme \<Rightarrow> bool" where
  "incidents_follow s t \<longleftrightarrow> incidents_ok t \<and> incidents_kept (pd_incidents s) (pd_incidents t)"

lemma incidents_follow_frame:
  assumes "incidents_follow s t" "pd_next_reconciliation u = pd_next_reconciliation t" "pd_incidents u = pd_incidents t"
  shows "incidents_follow s u"
  using assms by (simp add: incidents_follow_def)

lemma persist_incidents:
  assumes "persist e s = (r, t)"
  shows "pd_next_reconciliation t = pd_next_reconciliation s" "pd_incidents t = pd_incidents s"
  using persist_frames(3) [OF assms] by (simp_all add: paper_durable.truncate_def)

lemma keeps_incidents [op_keeps_intros]:
  "op_keeps (incidents_follow s) ensure_persistence_healthy" "op_keeps (incidents_follow s) (op_check c msg)"
  "op_keeps (incidents_follow s) (ask_broker m)" "op_keeps (incidents_follow s) (adopt_report r)"
  "op_keeps (incidents_follow s) (op_modify (pd_broker_connected_update g))" "op_keeps (incidents_follow s) (persist e)"
proof -
  show "op_keeps (incidents_follow s) (persist e)"
    unfolding op_keeps_def by (metis incidents_follow_frame persist_incidents prod.collapse)
qed (auto simp: op_keeps_def ensure_persistence_healthy_def op_check_def op_on_def adopt_report_def incidents_follow_def
    split: prod.splits)

lemma keeps_catch [op_keeps_intros]:
  "op_keeps P m \<Longrightarrow> (\<And>err. op_keeps P (h err)) \<Longrightarrow> op_keeps P (op_catch m h)"
  unfolding op_keeps_def op_catch_def by (fastforce split: prod.splits sum.splits)

lemma keeps_incidents_lose [op_keeps_intros]: "op_keeps (incidents_follow s) (lose_session e err)"
  unfolding lose_session_def by (intro op_keeps_intros)

lemma reconcile_incidents:
  assumes "incidents_ok s"
  shows "incidents_follow s (snd (reconcile e at s))"
proof -
  have tail: "op_keeps (incidents_follow s) (op_bind (op_get pd_next_reconciliation) (\<lambda>n.
     op_bind (op_modify (pd_next_reconciliation_update Suc)) (\<lambda>_.
     op_bind (op_get (\<lambda>s. raw_issues (account_of e) s b)) (\<lambda>compared.
     op_bind (op_lift compared) (\<lambda>raw.
     op_bind (op_get (\<lambda>s. record_issues n raw (pd_incidents s))) (\<lambda>(incidents, issues).
     op_bind (op_modify (pd_incidents_update (\<lambda>_. incidents))) (\<lambda>_.
     let report = \<lparr>rcr_reconciliation_id = reconciliation_id n, rcr_reconciled_at = at, rcr_issues = issues\<rparr> in
     op_bind (adopt_report report) (\<lambda>_.
     op_bind (persist e) (\<lambda>_. op_return report)))))))))" (is "op_keeps _ ?tail") for b
  proof -
    have "incidents_follow s (snd (?tail u))" if u: "incidents_follow s u" for u
    proof -
      let ?v = "pd_next_reconciliation_update Suc u"
      have v: "incidents_follow s ?v" using u incidents_below_mono by (auto simp: incidents_follow_def)
      show ?thesis
      proof (cases "raw_issues (account_of e) ?v b")
        case (Inl err)
        with v show ?thesis by simp
      next
        case (Inr raw)
        obtain incidents issues where rec: "record_issues (pd_next_reconciliation u) raw (pd_incidents u) = (incidents, issues)"
          by fastforce
        have "incidents_follow s (pd_incidents_update (\<lambda>_. incidents) ?v)"
          using record_issues_keeps [OF _ rec] u incidents_kept_trans by (auto simp: incidents_follow_def)
        moreover have "op_keeps (incidents_follow s) (op_bind (adopt_report r) (\<lambda>_. op_bind (persist e) (\<lambda>_. op_return r)))" for r
          by (intro op_keeps_intros)
        ultimately show ?thesis using Inr rec by (simp add: op_keeps_def Let_def)
      qed
    qed
    then show ?thesis by (simp add: op_keeps_def)
  qed
  have "op_keeps (incidents_follow s) (reconcile e at)"
    unfolding reconcile_def by (intro op_keeps_intros tail)
  then show ?thesis using assms by (simp add: op_keeps_def incidents_follow_def incidents_kept_def)
qed

lemma sample_showing_ok:
  "br_snapshot (en_broker sample_showing) account (sv_broker sample_idle) = (Ok sample_shown, 0)"
  "validate_broker_snapshot sample_shown = Ok ()" "\<exists>raw. raw_issues account sample_idle sample_shown = Ok raw"
  by (simp_all add: sample_showing_def sample_env_def sample_broker_def sample_shown_def validate_broker_snapshot_def
      check_order_snapshot_def validate_canonical_id_def is_id_byte_def is_ascii_lowercase_def is_ascii_digit_def byte_simps
      raw_issues_def order_views_def)

lemma sample_incidents_ok: "incidents_ok sample_idle"
  by (simp add: incidents_below_def bt_sorted_def)

lemma sample_reconciles: "\<exists>r t. reconcile sample_showing ''2026-01-31T23:59:59Z'' sample_idle = (Ok r, t)"
proof -
  obtain raw where raw: "raw_issues (account_of sample_showing) sample_idle sample_shown = Ok raw"
    using sample_showing_ok(3) by blast
  show ?thesis
    by (rule reconcile_reports [OF _ _ _ sample_showing_ok(1,2) raw sample_persists(1)])
      (simp_all add: sample_time, simp add: sample_showing_def sample_env_def sample_time)
qed

text \<open>C38: Whatever becomes of a reconciliation, no incident is lost, answered or rewritten by it, and every
  difference a report states is on record as an unexplained incident of its category and subject: the
  gates that ask for none are shut until an operator has explained it.\<close>

theorem reconcile_keeps_incidents:
  assumes "incidents_ok s" "reconcile e at s = (q, t)"
  shows "incidents_ok t \<and> incidents_kept (pd_incidents s) (pd_incidents t)
    \<and> (\<forall>r. q = Ok r \<longrightarrow> (\<forall>issue\<in>set (rcr_issues r). on_record (pd_incidents t) issue))"
proof -
  have "on_record (pd_incidents t) issue" if q: "q = Ok r" and issue: "issue \<in> set (rcr_issues r)" for r issue
  proof -
    from reconcile_ok [OF assms(2)[unfolded q]] obtain raw u where
      "record_issues (pd_next_reconciliation s) raw (pd_incidents s) = (pd_incidents u, rcr_issues r)"
      "persist e u = (Ok (), t)" .
    with record_issues_keeps(3) [OF assms(1)] issue persist_incidents(2) show ?thesis by fastforce
  qed
  with reconcile_incidents [OF assms(1), of e at] assms(2) show ?thesis by (simp add: incidents_follow_def)
qed

theorem reconcile_keeps_incidents_witness:
  "\<exists>r t. reconcile sample_showing ''2026-01-31T23:59:59Z'' sample_idle = (Ok r, t)
    \<and> (\<forall>issue\<in>set (rcr_issues r). on_record (pd_incidents t) issue)"
proof -
  obtain r t where run: "reconcile sample_showing ''2026-01-31T23:59:59Z'' sample_idle = (Ok r, t)"
    using sample_reconciles by blast
  with reconcile_keeps_incidents [OF sample_incidents_ok run] show ?thesis by simp
qed

section \<open>A difference stated twice\<close>

text \<open>The second difference of one category and subject continues the incident the first has opened.\<close>

lemma find_bt_insert:
  assumes "bt_get m k = None"
  shows "\<not> P (k, v) \<Longrightarrow> find P (bt_insert k v m) = find P m"
    "P (k, v) \<Longrightarrow> find P m = None \<Longrightarrow> find P (bt_insert k v m) = Some (k, v)"
  using assms by (induction k v m rule: bt_insert.induct) (auto split: if_splits)

lemma record_issue_existing:
  assumes "incidents_below n index m" "record_issue n (index, c, d, text1) (m, issues) = (m', issues')"
  shows "\<exists>key. existing_incident m' c d = Some key \<and> issues' = issues @ [\<lparr>rci_incident_id = key, rci_category = c, rci_subject = d, rci_detail = text1\<rparr>]"
    and "existing_incident m a b = Some key \<Longrightarrow> existing_incident m' a b = Some key"
proof -
  note m = assms(1)[unfolded incidents_below_def]
  have fresh: "bt_get m (incident_id n index) = None" using m by (metis incident_id_inj less_irrefl not_None_eq)
  have stable: "m' = m" if known: "existing_incident m c d = Some key" for key
  proof -
    obtain k x where "find (\<lambda>(_, x). rci_category (rin_issue x) = c \<and> rci_subject (rin_issue x) = d \<and> incident_unexplained x) m = Some (k, x)"
      and key: "key = rci_incident_id (rin_issue x)"
      using known by (auto simp: existing_incident_def)
    then have "(k, x) \<in> set m" by (auto dest: find_SomeD)
    then have "bt_get m key = Some x" using m key by (auto simp: bt_get_iff)
    with assms(2) known show ?thesis by (auto simp: record_issue_def Let_def)
  qed
  show "\<exists>key. existing_incident m' c d = Some key \<and> issues' = issues @ [\<lparr>rci_incident_id = key, rci_category = c, rci_subject = d, rci_detail = text1\<rparr>]"
  proof (cases "existing_incident m c d")
    case (Some key)
    with stable assms(2) show ?thesis by (auto simp: record_issue_def Let_def)
  next
    case None
    with assms(2) fresh show ?thesis
      by (auto simp: record_issue_def Let_def existing_incident_def incident_unexplained_def find_bt_insert)
  qed
  show "existing_incident m' a b = Some key" if some: "existing_incident m a b = Some key"
  proof (cases "existing_incident m c d")
    case (Some key')
    with stable some show ?thesis by simp
  next
    case None
    with some have "(a, b) \<noteq> (c, d)" by auto
    with assms(2) fresh None some show ?thesis
      by (auto simp: record_issue_def Let_def existing_incident_def find_bt_insert)
  qed
qed

lemma record_issues_existing:
  assumes "incidents_below n 0 m"
  shows "record_issues n raw m = (m', issues) \<Longrightarrow> incidents_below n (length raw) m'"
    and "record_issues n (raw @ more1) m = (m'', issues'') \<Longrightarrow> record_issues n raw m = (m', issues) \<Longrightarrow>
      (\<exists>later. issues'' = issues @ later) \<and> (existing_incident m' a b = Some key \<longrightarrow> existing_incident m'' a b = Some key)"
proof -
  have below: "record_issues n raw m = (m', issues) \<Longrightarrow> incidents_below n (length raw) m'" for raw m' issues
  proof (induction raw arbitrary: m' issues rule: rev_induct)
    case Nil
    with assms show ?case by (simp add: record_issues_def)
  next
    case (snoc x xs)
    obtain m1 issues1 where run: "record_issues n xs m = (m1, issues1)" by fastforce
    with snoc.prems have "record_issue n (length xs, x) (m1, issues1) = (m', issues)"
      by (simp add: record_issues_def enumerate0_snoc)
    from record_issue_keeps(1) [OF snoc.IH [OF run] this] show ?case by simp
  qed
  then show "record_issues n raw m = (m', issues) \<Longrightarrow> incidents_below n (length raw) m'" .
  show "record_issues n (raw @ more1) m = (m'', issues'') \<Longrightarrow> record_issues n raw m = (m', issues) \<Longrightarrow>
      (\<exists>later. issues'' = issues @ later) \<and> (existing_incident m' a b = Some key \<longrightarrow> existing_incident m'' a b = Some key)"
  proof (induction more1 arbitrary: m'' issues'' rule: rev_induct)
    case (snoc x xs)
    obtain c d text1 where x: "x = (c, d, text1)" by (cases x)
    obtain m1 issues1 where run: "record_issues n (raw @ xs) m = (m1, issues1)" by fastforce
    with snoc.prems(1) have step: "record_issue n (length (raw @ xs), c, d, text1) (m1, issues1) = (m'', issues'')"
      by (simp add: record_issues_def enumerate0_snoc x flip: append_assoc)
    note step = record_issue_existing [OF below [OF run] step]
    from snoc.IH [OF run snoc.prems(2)] step show ?case by auto
  qed simp
qed

lemma repeated_difference:
  assumes "incidents_below n 0 m" "record_issues n (us @ (c, d, text1) # vs @ (c, d, text2) # ws) m = (m', issues)"
  shows "\<not> distinct (map rci_incident_id issues)"
proof -
  obtain m0 i0 where r0: "record_issues n us m = (m0, i0)" by fastforce
  obtain m1 i1 where r1: "record_issues n (us @ [(c, d, text1)]) m = (m1, i1)" by fastforce
  obtain m2 i2 where r2: "record_issues n ((us @ [(c, d, text1)]) @ vs) m = (m2, i2)" by fastforce
  obtain m3 i3 where r3: "record_issues n (((us @ [(c, d, text1)]) @ vs) @ [(c, d, text2)]) m = (m3, i3)" by fastforce
  note below = record_issues_existing(1) [OF assms(1)] and later = record_issues_existing(2) [OF assms(1)]
  have s1: "record_issue n (length us, c, d, text1) (m0, i0) = (m1, i1)"
    using r0 r1 by (simp add: record_issues_def enumerate0_snoc)
  obtain key where key: "existing_incident m1 c d = Some key" and i1: "key \<in> set (map rci_incident_id i1)"
    using record_issue_existing(1) [OF below [OF r0] s1] by auto
  have k2: "existing_incident m2 c d = Some key" and i2: "\<exists>l. i2 = i1 @ l" using later [OF r2 r1] key by auto
  have s3: "record_issue n (length ((us @ [(c, d, text1)]) @ vs), c, d, text2) (m2, i2) = (m3, i3)"
    using r2 r3 by (simp add: record_issues_def enumerate0_snoc flip: append_assoc)
  have "existing_incident m3 c d = Some key" using record_issue_existing(2) [OF below [OF r2] s3 k2] .
  with record_issue_existing(1) [OF below [OF r2] s3] have i3: "\<exists>x. i3 = i2 @ [x] \<and> rci_incident_id x = key" by fastforce
  have "\<exists>l. issues = i3 @ l" using later [OF _ r3, of ws m' issues] assms(2) by simp
  with i1 i2 i3 show ?thesis by auto
qed


lemma restore_report_distinct:
  assumes "restore_report rfc r = Ok r'"
  shows "distinct (map rci_incident_id (rcr_issues r))"
proof -
  have "try_fold restore_issue issues seen = Ok seen' \<Longrightarrow> distinct (map rci_incident_id issues)
      \<and> (\<forall>x\<in>set issues. \<not> bs_contains (rci_incident_id x) seen)" for issues seen seen'
    by (induction issues arbitrary: seen) (fastforce simp: restore_issue_def result_simps split: if_splits)+
  with assms show ?thesis by (auto simp: restore_report_def result_simps)
qed

lemma restore_report_of:
  assumes "restore sha256_hex rfc u switches p = Ok d" "pts_latest_reconciliation p = Some r"
  shows "distinct (map rci_incident_id (rcr_issues r))"
  using assms restore_report_distinct
  by (auto simp: restore_def try_option_def and_then_eq_Inr split: if_splits prod.splits)

text \<open>C39: A broker that shows two versions of an order the service does not know makes one incident of two
  differences. The report names it twice, is journaled, and recovery refuses a report that names an
  incident twice: the account cannot be restarted from its journal.\<close>

theorem two_versions_unrecoverable:
  assumes "incidents_ok s" "reconcile e at s = (Ok r, t)"
    and "br_snapshot (en_broker e) (account_of e) (sv_broker s) = (Ok b, broker)"
    and "bas_orders b = us @ x # vs @ y # ws" "bos_client_order_id x = bos_client_order_id y"
    and "bt_get (pv_orders s) (bos_client_order_id x) = None" "bt_get (pv_combo_orders s) (bos_client_order_id x) = None"
  shows "restore (jc_sha256_hex (en_codec e)) (en_rfc3339 e) (en_setup e) switches (durable_text e t) \<noteq> Ok d"
proof
  assume restored: "restore (jc_sha256_hex (en_codec e)) (en_rfc3339 e) (en_setup e) switches (durable_text e t) = Ok d"
  from reconcile_ok [OF assms(2)] obtain b' broker' raw u where
    b': "br_snapshot (en_broker e) (account_of e) (sv_broker s) = (Ok b', broker')"
    and raw': "raw_issues (account_of e) s b' = Ok raw"
    and rec: "record_issues (pd_next_reconciliation s) raw (pd_incidents s) = (pd_incidents u, rcr_issues r)"
    and u: "pd_latest_reconciliation u = Some r" and p: "persist e u = (Ok (), t)" .
  from b' assms(3) raw' have raw: "raw_issues (account_of e) s b = Ok raw" by simp
  obtain orders rest where concat: "raw = concat orders @ unexpected_issues s b @ rest"
    using raw unfolding raw_issues_def and_then_eq_Inr by blast
  define issue where "issue = (\<lambda>x :: broker_order_snapshot. (''UNEXPECTED_BROKER_ORDER'', bos_client_order_id x,
    ''broker snapshot contains no matching internal order''))"
  define Q where "Q = (\<lambda>x :: broker_order_snapshot. bt_get (pv_orders s) (bos_client_order_id x) = None
    \<and> bt_get (pv_combo_orders s) (bos_client_order_id x) = None)"
  have "unexpected_issues s b = map issue (filter Q us @ x # filter Q vs @ y # filter Q ws)"
    using assms(5-7) by (simp add: unexpected_issues_def assms(4) issue_def Q_def)
  moreover have "issue y = issue x" using assms(5) by (simp add: issue_def)
  ultimately have "raw = (concat orders @ map issue (filter Q us)) @ issue x # map issue (filter Q vs) @ issue x
      # (map issue (filter Q ws) @ rest)"
    by (simp add: concat)
  from repeated_difference [OF assms(1) rec [unfolded this issue_def]] have "\<not> distinct (map rci_incident_id (rcr_issues r))" .
  moreover have "pts_latest_reconciliation (durable_text e t) = Some r"
    using persist_frames(3) [OF p] u by (simp add: durable_text_def persistent_state_def paper_durable.truncate_def)
  ultimately show False using restore_report_of [OF restored] by blast
qed


theorem two_versions_unrecoverable_witness:
  "\<exists>r t. reconcile sample_showing ''2026-01-31T23:59:59Z'' sample_idle = (Ok r, t)
    \<and> (\<forall>switches d. restore (\<lambda>x. x) (\<lambda>_. True) sample_setup switches (durable_text sample_showing t) \<noteq> Ok d)"
proof -
  obtain r t where run: "reconcile sample_showing ''2026-01-31T23:59:59Z'' sample_idle = (Ok r, t)"
    using sample_reconciles by blast
  have "restore (jc_sha256_hex (en_codec sample_showing)) (en_rfc3339 sample_showing) (en_setup sample_showing) switches
      (durable_text sample_showing t) \<noteq> Ok d" for switches d
    by (rule two_versions_unrecoverable [OF sample_incidents_ok run sample_showing_ok(1), of "[]" "bas_orders sample_shown ! 0" "[]" "bas_orders sample_shown ! 1" "[]"])
      (simp_all add: sample_shown_def)
  with run show ?thesis by (auto simp: sample_showing_def sample_env_def sample_codec_any_def)
qed

end
