(* ===== verification/PaperRisk.thy ===== *)
theory PaperRisk
  imports PaperReconcileLaws RiskEvaluate Margin
begin

text \<open>
  Component: the pre-trade gate of the paper service (\<^verbatim>\<open>core/paper/src/service/risk.rs\<close>,
  \<^verbatim>\<open>service/portfolio_risk.rs\<close>): what working orders of both kinds commit, the observation of equity every
  evaluation makes, the aggregate snapshot handed to the risk crate, and the decisions on a single order
  and on a combination. The instant of a timestamp is a parameter, in nanoseconds.
\<close>

section \<open>What working orders commit\<close>

definition working_order_count :: "'z paper_state_scheme \<Rightarrow> nat" where
  "working_order_count s = length (filter (\<lambda>(_, o1). order_working o1) (pv_orders s))
     + length (filter (\<lambda>(_, c). combo_working c) (pv_combo_orders s))"

definition has_unknown_order :: "'z paper_state_scheme \<Rightarrow> bool" where
  "has_unknown_order s \<longleftrightarrow> list_ex (\<lambda>(_, o1). por_state o1 = Unknown) (pv_orders s)
     \<or> list_ex (\<lambda>(_, c). pco_state c = Unknown \<or> pco_evidence_error c \<noteq> None) (pv_combo_orders s)"

definition total_reserved_cash :: "'z paper_state_scheme \<Rightarrow> decimal result" where
  "total_reserved_cash s =
     and_then (try_fold (\<lambda>(_, o1) reserved. and_then (order_reserved_cash o1) (checked_add reserved)) (pv_orders s) ZERO)
       (try_fold (\<lambda>(_, c) reserved. and_then (combo_reserved_cash c) (checked_add reserved)) (pv_combo_orders s))"

text \<open>Unfilled working quantity on one side of one instrument, across both kinds.\<close>

definition order_quantity_step :: "string \<Rightarrow> side \<Rightarrow> string \<times> paper_order \<Rightarrow> decimal \<Rightarrow> decimal result" where
  "order_quantity_step instrument_id side = (\<lambda>(_, o1) acc. let i = oo_intent (por_oms o1) in
     if order_working o1 \<and> oi_instrument_id i = instrument_id \<and> oi_side i = side
     then and_then (checked_sub (oi_quantity i) (por_filled_quantity o1)) (checked_add acc) else Ok acc)"

definition leg_quantity_step :: "string \<Rightarrow> side \<Rightarrow> decimal \<Rightarrow> combo_leg \<Rightarrow> decimal \<Rightarrow> decimal result" where
  "leg_quantity_step instrument_id side unfilled leg acc =
     (if cl_instrument_id leg = instrument_id \<and> cl_side leg = side
      then and_then (from_integer (int (cl_ratio leg))) (\<lambda>ratio.
        and_then (checked_mul unfilled ratio) (checked_add acc)) else Ok acc)"

definition combo_quantity_step :: "string \<Rightarrow> side \<Rightarrow> string \<times> paper_combo_order \<Rightarrow> decimal \<Rightarrow> decimal result" where
  "combo_quantity_step instrument_id side = (\<lambda>(_, c) acc.
     if \<not> combo_working c then Ok acc
     else and_then (checked_sub (co_combo_quantity (pco_intent c)) (pco_filled_quantity c)) (\<lambda>unfilled.
       try_fold (leg_quantity_step instrument_id side unfilled) (co_legs (pco_intent c)) acc))"

definition working_quantity :: "'z paper_state_scheme \<Rightarrow> string \<Rightarrow> side \<Rightarrow> decimal result" where
  "working_quantity s instrument_id side =
     and_then (try_fold (order_quantity_step instrument_id side) (pv_orders s) ZERO)
       (try_fold (combo_quantity_step instrument_id side) (pv_combo_orders s))"

definition working_position_delta :: "'z paper_state_scheme \<Rightarrow> string \<Rightarrow> decimal result" where
  "working_position_delta s instrument_id =
     and_then (working_quantity s instrument_id Buy) (\<lambda>buys.
     and_then (working_quantity s instrument_id Sell) (\<lambda>sells. checked_sub buys sells))"

definition working_reduction :: "'z paper_state_scheme \<Rightarrow> string \<Rightarrow> decimal \<Rightarrow> decimal result" where
  "working_reduction s instrument_id held =
     (if held > ZERO then working_quantity s instrument_id Sell
      else if held < ZERO then working_quantity s instrument_id Buy
      else Ok ZERO)"

definition reduces_open_position :: "'z paper_state_scheme \<Rightarrow> string \<Rightarrow> decimal \<Rightarrow> decimal \<Rightarrow> bool result" where
  "reduces_open_position s instrument_id current projected =
     and_then (working_reduction s instrument_id current) (reduces_position_with_working current projected)"

definition conflicts_with_working_order :: "'z paper_state_scheme \<Rightarrow> string \<Rightarrow> side \<Rightarrow> bool" where
  "conflicts_with_working_order s instrument_id side \<longleftrightarrow>
     list_ex (\<lambda>(_, o1). order_working o1 \<and> oi_instrument_id (oo_intent (por_oms o1)) = instrument_id
       \<and> oi_side (oo_intent (por_oms o1)) \<noteq> side) (pv_orders s)
     \<or> list_ex (\<lambda>(_, c). combo_working c \<and> list_ex (\<lambda>leg. cl_instrument_id leg = instrument_id \<and> cl_side leg \<noteq> side)
         (co_legs (pco_intent c))) (pv_combo_orders s)"

section \<open>Time\<close>

definition parse_instant :: "(string \<Rightarrow> int option) \<Rightarrow> string \<Rightarrow> int result" where
  "parse_instant instant v = ok_or (instant v) ''the timestamp is not an RFC 3339 instant''"

text \<open>Whole seconds of a duration, truncated towards zero.\<close>

definition whole_seconds :: "int \<Rightarrow> int" where
  "whole_seconds nanoseconds = nanoseconds sdiv 1000000000"

definition observation_is_stale :: "paper_risk_policy \<Rightarrow> int \<Rightarrow> int \<Rightarrow> bool" where
  "observation_is_stale p observed decided \<longleftrightarrow> (let age = whole_seconds (decided - observed) in
     age < 0 \<or> int (ppo_max_market_data_age_seconds p) < age)"

text \<open>The configured window is cast to \<^verbatim>\<open>i64\<close>. A start before the year -9999 ends the process.\<close>

definition window_seconds :: "paper_risk_policy \<Rightarrow> int" where
  "window_seconds p = (let n = int (ppo_order_rate_window_seconds p) in if n < 2 ^ 63 then n else n - 2 ^ 64)"

definition rate_window_start :: "paper_risk_policy \<Rightarrow> int \<Rightarrow> int result" where
  "rate_window_start p decided = (let start = decided - window_seconds p * 1000000000 in
     if start < - 377705116800 * 1000000000 \<or> 253402300800 * 1000000000 \<le> start
     then Err ''panic: resulting value is out of range'' else Ok start)"

definition count_decision :: "(string \<Rightarrow> int option) \<Rightarrow> int \<Rightarrow> int \<Rightarrow> string \<Rightarrow> nat \<Rightarrow> nat result" where
  "count_decision instant start decided v n =
     and_then (parse_instant instant v) (\<lambda>t. Ok (if start < t \<and> t \<le> decided then n + 1 else n))"

definition order_decided_at :: "'z paper_durable_scheme \<Rightarrow> paper_order \<Rightarrow> string result" where
  "order_decided_at s o1 = and_then (ok_or (bt_get (pd_risk_evidence s) (''paper-risk-'' @ oi_intent_id (oo_intent (por_oms o1))))
     ''paper order is missing its originating risk evidence'') (\<lambda>e. Ok (rd_decided_at (pre_decision e)))"

definition combo_decided_at :: "'z paper_durable_scheme \<Rightarrow> paper_combo_order \<Rightarrow> string result" where
  "combo_decided_at s c = and_then (ok_or (bt_get (pd_combo_risk_evidence s) (''paper-combo-risk-'' @ co_intent_id (pco_intent c)))
     ''paper combination order is missing its originating risk evidence'') (\<lambda>e. Ok (rd_decided_at (pce_decision e)))"

definition recent_order_count ::
    "(string \<Rightarrow> int option) \<Rightarrow> paper_risk_policy \<Rightarrow> 'z paper_durable_scheme \<Rightarrow> string \<Rightarrow> nat result" where
  "recent_order_count instant p s decided_at =
     and_then (parse_instant instant decided_at) (\<lambda>decided.
     and_then (rate_window_start p decided) (\<lambda>start.
     and_then (try_fold (\<lambda>(_, o1) n. and_then (order_decided_at s o1) (\<lambda>t. count_decision instant start decided t n))
       (pv_orders s) 0) (\<lambda>n.
     try_fold (\<lambda>(_, c) n. and_then (combo_decided_at s c) (\<lambda>t. count_decision instant start decided t n))
       (pv_combo_orders s) n)))"

section \<open>What every evaluation observes\<close>

definition observe_mark :: "string \<Rightarrow> decimal \<Rightarrow> ('z paper_durable_scheme, unit) op" where
  "observe_mark instrument_id mark = op_modify (pd_marks_update (bt_insert instrument_id mark))"

text \<open>The peak rises with the equity; the daily baseline starts anew on every new date of a decision.\<close>

definition raise_peak :: "decimal \<Rightarrow> 'z paper_durable_scheme \<Rightarrow> 'z paper_durable_scheme" where
  "raise_peak equity s = (if equity > pd_peak_equity s then s\<lparr>pd_peak_equity := equity\<rparr> else s)"

definition start_day :: "string \<Rightarrow> decimal \<Rightarrow> 'z paper_durable_scheme \<Rightarrow> 'z paper_durable_scheme" where
  "start_day decided_at equity s = (if pd_daily_baseline_date s \<noteq> Some (take 10 decided_at)
     then s\<lparr>pd_daily_baseline_date := Some (take 10 decided_at), pd_daily_baseline_equity := equity\<rparr> else s)"

definition observe_equity :: "string \<Rightarrow> ('z paper_durable_scheme, decimal) op" where
  "observe_equity decided_at =
     op_bind (op_get current_equity) (\<lambda>r.
     op_bind (op_lift r) (\<lambda>equity.
     op_bind (op_modify (raise_peak equity)) (\<lambda>_.
     op_bind (op_modify (start_day decided_at equity)) (\<lambda>_.
     op_return equity))))"

definition total_realized_pnl :: "'z paper_books_scheme \<Rightarrow> decimal result" where
  "total_realized_pnl s = try_fold (\<lambda>(_, p) acc. checked_add acc (pf_realized_pnl p)) (pb_portfolios s) ZERO"

section \<open>The aggregate snapshot\<close>

text \<open>How the operator's table classifies an instrument.\<close>

definition asset_class_of :: "portfolio_risk_composition \<Rightarrow> string \<Rightarrow> string" where
  "asset_class_of c i = (case bt_get (prc_instrument_buckets c) i of None \<Rightarrow> ''unclassified'' | Some b \<Rightarrow> ib_asset_class b)"

definition sector_of :: "portfolio_risk_composition \<Rightarrow> string \<Rightarrow> string" where
  "sector_of c i = (case bt_get (prc_instrument_buckets c) i of None \<Rightarrow> ''unclassified'' | Some b \<Rightarrow> ib_sector b)"

definition bucket_currency_of :: "paper_account \<Rightarrow> portfolio_risk_composition \<Rightarrow> string \<Rightarrow> string" where
  "bucket_currency_of a c i = (case bt_get (prc_instrument_buckets c) i of None \<Rightarrow> pa_currency a | Some b \<Rightarrow> ib_currency b)"

definition risk_candidate :: "paper_account \<Rightarrow> portfolio_risk_composition \<Rightarrow> string \<Rightarrow> string \<Rightarrow> string \<Rightarrow> string
    \<Rightarrow> side \<Rightarrow> decimal \<Rightarrow> decimal \<Rightarrow> candidate_order result" where
  "risk_candidate a c intent_id account_id strategy_id i side quantity mark =
     and_then (from_integer 1) (\<lambda>one.
     Ok \<lparr>cdo_intent_id = intent_id, cdo_account_id = account_id, cdo_strategy_id = strategy_id, cdo_instrument_id = i,
         cdo_asset_class = asset_class_of c i, cdo_sector = sector_of c i, cdo_currency = bucket_currency_of a c i,
         cdo_side = side, cdo_quantity = quantity, cdo_mark_price = mark, cdo_multiplier = one,
         cdo_delta = ZERO, cdo_gamma = ZERO\<rparr>)"

definition working_risk_position :: "paper_account \<Rightarrow> portfolio_risk_composition \<Rightarrow> string \<Rightarrow> string \<Rightarrow> string
    \<Rightarrow> side \<Rightarrow> decimal \<Rightarrow> decimal \<Rightarrow> risk_position result" where
  "working_risk_position a c account_id strategy_id i side quantity mark =
     and_then (risk_candidate a c ''working.exposure'' account_id strategy_id i side quantity mark) (\<lambda>candidate.
     and_then (case side of Buy \<Rightarrow> Ok quantity | Sell \<Rightarrow> checked_sub ZERO quantity) (\<lambda>signed.
     Ok (candidate_position candidate signed)))"

definition held_row :: "paper_account \<Rightarrow> portfolio_risk_composition \<Rightarrow> portfolio \<Rightarrow> decimal \<Rightarrow> string \<Rightarrow> decimal
    \<Rightarrow> risk_position result" where
  "held_row a c p mark strategy_id quantity = (let i = pf_instrument_id p in
     and_then (from_integer 1) (\<lambda>one.
     Ok \<lparr>rkp_account_id = pf_account_id p, rkp_strategy_id = strategy_id, rkp_instrument_id = i,
         rkp_asset_class = asset_class_of c i, rkp_sector = sector_of c i, rkp_currency = bucket_currency_of a c i,
         rkp_quantity = quantity, rkp_mark_price = mark, rkp_multiplier = one, rkp_delta = ZERO, rkp_gamma = ZERO\<rparr>))"

text \<open>A position is one row per strategy that holds some of it and one for what no strategy accounts for.\<close>

definition attributed_step :: "(string \<Rightarrow> decimal \<Rightarrow> risk_position result) \<Rightarrow> string \<times> decimal
    \<Rightarrow> decimal \<times> risk_position list \<Rightarrow> (decimal \<times> risk_position list) result" where
  "attributed_step row = (\<lambda>(strategy_id, quantity) (attributed, rows).
     if quantity = ZERO then Ok (attributed, rows)
     else and_then (checked_add attributed quantity) (\<lambda>attributed'.
       and_then (row strategy_id quantity) (\<lambda>r. Ok (attributed', rows @ [r]))))"

definition held_rows :: "paper_account \<Rightarrow> portfolio_risk_composition \<Rightarrow> 'z paper_durable_scheme \<Rightarrow> portfolio
    \<Rightarrow> risk_position list result" where
  "held_rows a c s p =
     (if pf_quantity p = ZERO then Ok []
      else let row = held_row a c p (cached_mark s p) in
        and_then (try_fold (attributed_step row) (case bt_get (pb_strategy_attribution s) (pf_instrument_id p) of
          None \<Rightarrow> [] | Some m \<Rightarrow> m) (ZERO, [])) (\<lambda>(attributed, rows).
        and_then (checked_sub (pf_quantity p) attributed) (\<lambda>remainder.
        if remainder = ZERO then Ok rows
        else and_then (row ''unattributed'' remainder) (\<lambda>r. Ok (rows @ [r])))))"

definition order_working_rows :: "paper_account \<Rightarrow> portfolio_risk_composition \<Rightarrow> 'z paper_durable_scheme
    \<Rightarrow> paper_order \<Rightarrow> risk_position list result" where
  "order_working_rows a c s o1 = (let i = oo_intent (por_oms o1) in
     if \<not> order_working o1 then Ok []
     else and_then (checked_sub (oi_quantity i) (por_filled_quantity o1)) (\<lambda>remaining.
       if remaining > ZERO
       then and_then (working_risk_position a c (oi_account_id i) (oi_strategy_id i) (oi_instrument_id i) (oi_side i) remaining
           (case bt_get (pd_marks s) (oi_instrument_id i) of None \<Rightarrow> pm_mark_price (por_market o1) | Some m \<Rightarrow> m)) (\<lambda>r. Ok [r])
       else Ok []))"

definition leg_mark :: "'z paper_durable_scheme \<Rightarrow> paper_combo_order \<Rightarrow> combo_leg \<Rightarrow> decimal result" where
  "leg_mark s o1 leg = (case bt_get (pd_marks s) (cl_instrument_id leg) of
     Some m \<Rightarrow> Ok m
   | None \<Rightarrow> and_then (ok_or (mark_for (pco_market o1) (cl_instrument_id leg)) ''working combo leg has no market mark'')
       (\<lambda>seen. Ok (pm_mark_price seen)))"

definition leg_working_row :: "paper_account \<Rightarrow> portfolio_risk_composition \<Rightarrow> 'z paper_durable_scheme
    \<Rightarrow> paper_combo_order \<Rightarrow> decimal \<Rightarrow> combo_leg \<Rightarrow> risk_position result" where
  "leg_working_row a c s o1 unfilled leg =
     and_then (leg_mark s o1 leg) (\<lambda>mark.
     and_then (from_integer (int (cl_ratio leg))) (\<lambda>ratio.
     and_then (checked_mul unfilled ratio) (\<lambda>quantity.
     working_risk_position a c (co_account_id (pco_intent o1)) (co_strategy_id (pco_intent o1)) (cl_instrument_id leg)
       (cl_side leg) quantity mark)))"

definition combo_working_rows :: "paper_account \<Rightarrow> portfolio_risk_composition \<Rightarrow> 'z paper_durable_scheme
    \<Rightarrow> paper_combo_order \<Rightarrow> risk_position list result" where
  "combo_working_rows a c s o1 =
     (if \<not> combo_working o1 then Ok []
      else and_then (checked_sub (co_combo_quantity (pco_intent o1)) (pco_filled_quantity o1)) (\<lambda>unfilled.
        if unfilled = ZERO then Ok []
        else try_map (leg_working_row a c s o1 unfilled) (co_legs (pco_intent o1))))"

text \<open>A working combination rests once per leg, under its one identity.\<close>

definition resting_orders_of :: "'z paper_state_scheme \<Rightarrow> resting_order list" where
  "resting_orders_of s =
     map (\<lambda>(_, o1). let i = oo_intent (por_oms o1) in
         \<lparr>rso_order_id = oo_order_id (por_oms o1), rso_account_id = oi_account_id i,
          rso_instrument_id = oi_instrument_id i, rso_side = oi_side i\<rparr>) (filter (\<lambda>(_, o1). order_working o1) (pv_orders s))
     @ concat (map (\<lambda>(_, c). map (\<lambda>leg. \<lparr>rso_order_id = ooc_order_id (pco_oms c), rso_account_id = co_account_id (pco_intent c),
          rso_instrument_id = cl_instrument_id leg, rso_side = cl_side leg\<rparr>) (co_legs (pco_intent c)))
         (filter (\<lambda>(_, c). combo_working c) (pv_combo_orders s)))"

definition held_margin_position :: "paper_account \<Rightarrow> portfolio_risk_composition \<Rightarrow> 'z paper_durable_scheme \<Rightarrow> portfolio
    \<Rightarrow> margin_position list result" where
  "held_margin_position a c s p = (let i = pf_instrument_id p in
     if pf_quantity p = ZERO then Ok []
     else and_then (currency_new (bucket_currency_of a c i)) (\<lambda>currency.
       and_then (from_integer 1) (\<lambda>one.
       Ok [\<lparr>mp_instrument_id = i, mp_asset_class = asset_class_of c i, mp_currency = currency,
            mp_quantity = pf_quantity p, mp_mark_price = cached_mark s p, mp_multiplier = one\<rparr>])))"

text \<open>The second of an instant, rounded down. The freshness limit of the empty rate book is the largest \<^verbatim>\<open>i64\<close>.\<close>

definition margin_used :: "(string \<Rightarrow> int option) \<Rightarrow> paper_account \<Rightarrow> portfolio_risk_composition \<Rightarrow> 'z paper_durable_scheme
    \<Rightarrow> string \<Rightarrow> decimal result" where
  "margin_used instant a c s decided_at = (case prc_margin_rates c of
     None \<Rightarrow> Ok ZERO
   | Some rates \<Rightarrow>
       and_then (try_map (\<lambda>(_, p). held_margin_position a c s p) (pb_portfolios s)) (\<lambda>positions.
       and_then (currency_new (pa_currency a)) (\<lambda>currency.
       and_then (parse_instant instant decided_at) (\<lambda>t.
       and_then (value_margin_account [(currency, pb_cash s)] (concat positions) []
         \<lparr>mgp_base_currency = currency, mgp_maximum_fx_age_seconds = 2 ^ 63 - 1, mgp_rates = rates\<rparr> (t div 1000000000)) (\<lambda>v.
       Ok (ms_initial_margin v))))))"

definition portfolio_risk_state :: "(string \<Rightarrow> int option) \<Rightarrow> paper_account \<Rightarrow> portfolio_risk_composition
    \<Rightarrow> 'z paper_durable_scheme \<Rightarrow> string \<Rightarrow> (risk_snapshot \<times> decimal) option result" where
  "portfolio_risk_state instant a c s decided_at =
     and_then (current_equity s) (\<lambda>equity.
     if equity \<le> ZERO then Ok None
     else and_then (try_map (\<lambda>(_, p). held_rows a c s p) (pb_portfolios s)) (\<lambda>held.
       and_then (try_map (\<lambda>(_, o1). order_working_rows a c s o1) (pv_orders s)) (\<lambda>orders.
       and_then (try_map (\<lambda>(_, o1). combo_working_rows a c s o1) (pv_combo_orders s)) (\<lambda>combos.
       and_then (margin_used instant a c s decided_at) (\<lambda>used.
       and_then (checked_sub equity (pd_daily_baseline_equity s)) (\<lambda>daily_pnl.
       Ok (Some (\<lparr>rsn_equity = equity, rsn_peak_equity = max (pd_peak_equity s) equity, rsn_daily_pnl = daily_pnl,
         rsn_margin_used = used, rsn_positions = concat held, rsn_working_positions = concat orders @ concat combos,
         rsn_resting_orders = resting_orders_of s, rsn_recent_order_count = 0\<rparr>, used))))))))"

definition portfolio_decision :: "(string \<Rightarrow> int option) \<Rightarrow> paper_account \<Rightarrow> portfolio_risk_composition
    \<Rightarrow> 'z paper_durable_scheme \<Rightarrow> string \<Rightarrow> candidate_order list result \<Rightarrow> (portfolio_risk_decision \<times> decimal) option result" where
  "portfolio_decision instant a c s decided_at candidates =
     and_then (portfolio_risk_state instant a c s decided_at) (\<lambda>state. case state of
       None \<Rightarrow> Ok None
     | Some (snapshot, used) \<Rightarrow>
         and_then candidates (\<lambda>cs.
         and_then (evaluate_portfolio_risk_with_candidates (prc_policy c) snapshot cs) (\<lambda>d. Ok (Some (d, used)))))"

definition order_candidate :: "paper_account \<Rightarrow> portfolio_risk_composition \<Rightarrow> order_intent \<Rightarrow> paper_market_data
    \<Rightarrow> candidate_order result" where
  "order_candidate a c i m = risk_candidate a c (oi_intent_id i) (oi_account_id i) (oi_strategy_id i) (oi_instrument_id i)
     (oi_side i) (oi_quantity i) (pm_mark_price m)"

definition leg_market :: "paper_combo_market_data \<Rightarrow> combo_leg \<Rightarrow> paper_market_data result" where
  "leg_market m leg = ok_or (mark_for m (cl_instrument_id leg))
     (''paper combo observation is missing a mark for '' @ cl_instrument_id leg)"

definition combo_candidate :: "paper_account \<Rightarrow> portfolio_risk_composition \<Rightarrow> combo_intent \<Rightarrow> paper_combo_market_data
    \<Rightarrow> combo_leg \<Rightarrow> candidate_order result" where
  "combo_candidate a c i m leg =
     and_then (leg_market m leg) (\<lambda>mark.
     and_then (combo_leg_quantity i leg) (\<lambda>quantity.
     risk_candidate a c (co_intent_id i) (co_account_id i) (co_strategy_id i) (cl_instrument_id leg) (cl_side leg)
       quantity (pm_mark_price mark)))"

section \<open>The single-order gate\<close>

record order_figures =
  fg_position :: decimal
  fg_available_cash :: decimal
  fg_realized_pnl :: decimal
  fg_notional :: decimal
  fg_deviation_bps :: decimal
  fg_projected :: decimal
  fg_working_delta :: decimal
  fg_committed :: decimal
  fg_recent :: nat

definition order_figures :: "(string \<Rightarrow> int option) \<Rightarrow> paper_risk_policy \<Rightarrow> 'z paper_durable_scheme
    \<Rightarrow> order_intent \<Rightarrow> decimal \<Rightarrow> string \<Rightarrow> order_figures result" where
  "order_figures instant p s i mark decided_at = (let held = held_quantity s (oi_instrument_id i) in
     and_then (total_realized_pnl s) (\<lambda>realized.
     and_then (total_reserved_cash s) (\<lambda>reserved.
     and_then (checked_sub (pb_cash s) reserved) (\<lambda>available.
     and_then (checked_mul (oi_quantity i) mark) (\<lambda>notional.
     and_then (optional_price_deviation mark (oi_limit_price i)) (\<lambda>deviation.
     and_then (case oi_side i of Buy \<Rightarrow> checked_add held (oi_quantity i) | Sell \<Rightarrow> checked_sub held (oi_quantity i)) (\<lambda>projected.
     and_then (working_position_delta s (oi_instrument_id i)) (\<lambda>delta.
     and_then (checked_add projected delta) (\<lambda>committed.
     and_then (recent_order_count instant p s decided_at) (\<lambda>recent.
     Ok \<lparr>fg_position = held, fg_available_cash = available, fg_realized_pnl = realized, fg_notional = notional,
         fg_deviation_bps = deviation, fg_projected = projected, fg_working_delta = delta, fg_committed = committed,
         fg_recent = recent\<rparr>))))))))))"

definition reason_if :: "bool \<Rightarrow> string \<Rightarrow> string list" where
  "reason_if b reason = (if b then [reason] else [])"

definition option_reason :: "string option \<Rightarrow> string list" where
  "option_reason r = (case r of None \<Rightarrow> [] | Some reason \<Rightarrow> [reason])"

definition realized_loss :: "decimal \<Rightarrow> decimal result" where
  "realized_loss pnl = (if pnl < ZERO then checked_sub ZERO pnl else Ok ZERO)"

definition own_order_reasons :: "paper_risk_policy \<Rightarrow> 'z paper_durable_scheme \<Rightarrow> order_intent \<Rightarrow> order_figures
    \<Rightarrow> bool \<Rightarrow> decimal \<Rightarrow> string list" where
  "own_order_reasons p s i f breach loss =
     ks_rejection_reasons (pd_kill_switches s) i
     @ reason_if (oi_quantity i > ppo_max_order_quantity p) ''MAX_ORDER_QUANTITY_EXCEEDED''
     @ reason_if (fg_notional f > ppo_max_order_notional p) ''MAX_ORDER_NOTIONAL_EXCEEDED''
     @ reason_if (fg_deviation_bps f > ppo_max_price_deviation_bps p) ''PRICE_COLLAR_EXCEEDED''
     @ option_reason (tick_rejection p (oi_instrument_id i) (oi_limit_price i))
     @ option_reason (lot_rejection p (oi_instrument_id i) (oi_quantity i))
     @ reason_if (conflicts_with_working_order s (oi_instrument_id i) (oi_side i)) ''SELF_TRADE_RISK''
     @ reason_if (fg_recent f \<ge> ppo_max_order_rate p) ''MAX_ORDER_RATE_EXCEEDED''
     @ reason_if (has_unknown_order s) ''UNKNOWN_ORDER_REQUIRES_RECONCILIATION''
     @ reason_if (unexplained_incident_count s > 0) ''UNEXPLAINED_INCIDENTS_REQUIRE_REVIEW''
     @ reason_if (working_order_count s \<ge> ppo_max_open_orders p) ''MAX_OPEN_ORDERS_EXCEEDED''
     @ reason_if breach ''POSITION_LIMIT_OR_SHORT_SELL_EXCEEDED''
     @ reason_if (oi_side i = Buy \<and> fg_notional f > fg_available_cash f) ''INSUFFICIENT_INTERNAL_CASH''
     @ reason_if (loss > ppo_max_realized_loss p) ''MAX_REALIZED_LOSS_EXCEEDED''"

definition render_bucket_map :: "(string, decimal) btree_map \<Rightarrow> string" where
  "render_bucket_map buckets = join ''|'' (map (\<lambda>(bucket, amount). bucket @ '':'' @ decimal_to_string amount) buckets)"

text \<open>The aggregate figures in the evidence; the four bucket maps only for a single order.\<close>

definition portfolio_limits_text :: "'z paper_durable_scheme \<Rightarrow> portfolio_risk_decision \<Rightarrow> decimal \<Rightarrow> decimal \<Rightarrow> bool \<Rightarrow> string" where
  "portfolio_limits_text s d used daily_pnl buckets = (let m = prd_metrics d in concat (map (\<lambda>part. '','' @ part) (
     [''portfolio_exposure_basis=filled_working_candidate_v2'',
      ''portfolio_risk_policy_version='' @ prd_policy_version d,
      ''portfolio_gross_exposure='' @ decimal_to_string (arm_gross_exposure m),
      ''portfolio_net_exposure='' @ decimal_to_string (arm_net_exposure m),
      ''portfolio_leverage_bps='' @ decimal_to_string (arm_leverage_bps m),
      ''portfolio_concentration_bps='' @ decimal_to_string (arm_concentration_bps m),
      ''portfolio_peak_equity='' @ decimal_to_string (pd_peak_equity s),
      ''portfolio_drawdown_bps='' @ decimal_to_string (arm_drawdown_bps m),
      ''portfolio_daily_baseline_equity='' @ decimal_to_string (pd_daily_baseline_equity s),
      ''portfolio_daily_pnl='' @ decimal_to_string daily_pnl,
      ''portfolio_margin_used='' @ decimal_to_string used,
      ''portfolio_margin_utilization_bps='' @ decimal_to_string (arm_margin_utilization_bps m)]
     @ (if buckets then
       [''portfolio_sector_gross='' @ render_bucket_map (arm_sector_gross m),
        ''portfolio_asset_class_gross='' @ render_bucket_map (arm_asset_class_gross m),
        ''portfolio_currency_gross='' @ render_bucket_map (arm_currency_gross m),
        ''portfolio_strategy_gross='' @ render_bucket_map (arm_strategy_gross m)] else [])
     @ [''portfolio_possible_abs_net_exposure='' @ decimal_to_string (arm_possible_abs_net_exposure m),
        ''portfolio_possible_concentration_bps='' @ decimal_to_string (arm_possible_concentration_bps m),
        ''portfolio_possible_abs_delta='' @ decimal_to_string (arm_possible_abs_delta m),
        ''portfolio_possible_abs_gamma='' @ decimal_to_string (arm_possible_abs_gamma m)])))"

text \<open>What the aggregate decision adds: the reasons the gate has not already found itself, and the figures.
  Without positive equity only what reduces risk passes.\<close>

definition aggregate_reasons :: "'z paper_durable_scheme \<Rightarrow> decimal \<Rightarrow> bool
    \<Rightarrow> (portfolio_risk_decision \<times> decimal) option result \<Rightarrow> bool result \<Rightarrow> (string list \<times> string) result" where
  "aggregate_reasons s equity buckets decision reduces =
     and_then decision (\<lambda>r. case r of
       Some (d, used) \<Rightarrow> and_then (checked_sub equity (pd_daily_baseline_equity s)) (\<lambda>daily_pnl.
         Ok (filter (\<lambda>reason. reason \<noteq> ''APPROVED'' \<and> reason \<noteq> ''SELF_TRADE_RISK'') (prd_reason_codes d),
             portfolio_limits_text s d used daily_pnl buckets))
     | None \<Rightarrow> and_then reduces (\<lambda>ok. Ok (reason_if (\<not> ok) ''PORTFOLIO_EQUITY_NOT_POSITIVE'', [])))"

definition order_aggregate :: "(string \<Rightarrow> int option) \<Rightarrow> paper_setup \<Rightarrow> 'z paper_durable_scheme \<Rightarrow> order_intent
    \<Rightarrow> paper_market_data \<Rightarrow> string \<Rightarrow> decimal \<Rightarrow> order_figures \<Rightarrow> (string list \<times> string) result" where
  "order_aggregate instant u s i m decided_at equity f = (case ppo_portfolio_risk (pu_policy u) of
     None \<Rightarrow> Ok ([], [])
   | Some c \<Rightarrow> aggregate_reasons s equity True
       (portfolio_decision instant (pu_account u) c s decided_at
         (and_then (order_candidate (pu_account u) c i m) (\<lambda>candidate. Ok [candidate])))
       (reduces_open_position s (oi_instrument_id i) (fg_position f) (fg_projected f)))"

definition increment_text :: "(string, decimal) btree_map \<Rightarrow> string \<Rightarrow> string" where
  "increment_text table i = (case bt_get table i of None \<Rightarrow> ''UNCONFIGURED'' | Some v \<Rightarrow> decimal_to_string v)"

definition order_limits_text :: "paper_risk_policy \<Rightarrow> order_intent \<Rightarrow> paper_market_data \<Rightarrow> order_figures \<Rightarrow> string" where
  "order_limits_text p i m f = join '',''
     [''max_order_quantity='' @ decimal_to_string (ppo_max_order_quantity p),
      ''max_order_notional='' @ decimal_to_string (ppo_max_order_notional p),
      ''max_price_deviation_bps='' @ decimal_to_string (ppo_max_price_deviation_bps p),
      ''max_open_orders='' @ show_nat (ppo_max_open_orders p),
      ''max_position_quantity='' @ decimal_to_string (ppo_max_position_quantity p),
      ''max_realized_loss='' @ decimal_to_string (ppo_max_realized_loss p),
      ''max_market_data_age_seconds='' @ show_nat (ppo_max_market_data_age_seconds p),
      ''max_order_rate='' @ show_nat (ppo_max_order_rate p),
      ''order_rate_window_seconds='' @ show_nat (ppo_order_rate_window_seconds p),
      ''recent_order_count='' @ show_nat (fg_recent f),
      ''market_instrument_id='' @ pm_instrument_id m,
      ''market_mark_price='' @ decimal_to_string (pm_mark_price m),
      ''market_observed_at='' @ pm_observed_at m,
      ''requested_price='' @ (case oi_limit_price i of None \<Rightarrow> ''MARKET'' | Some price \<Rightarrow> decimal_to_string price),
      ''requested_price_deviation_bps='' @ decimal_to_string (fg_deviation_bps f),
      ''estimated_notional='' @ decimal_to_string (fg_notional f),
      ''projected_position='' @ decimal_to_string (fg_projected f),
      ''working_position_delta='' @ decimal_to_string (fg_working_delta f),
      ''committed_position='' @ decimal_to_string (fg_committed f),
      ''available_cash='' @ decimal_to_string (fg_available_cash f),
      ''instrument_tick_size='' @ increment_text (ppo_instrument_tick_sizes p) (oi_instrument_id i),
      ''instrument_lot_size='' @ increment_text (ppo_instrument_lot_sizes p) (oi_instrument_id i)]"

definition order_decision :: "(string \<Rightarrow> int option) \<Rightarrow> paper_setup \<Rightarrow> 'z paper_durable_scheme \<Rightarrow> order_intent
    \<Rightarrow> paper_market_data \<Rightarrow> string \<Rightarrow> decimal \<Rightarrow> risk_decision result" where
  "order_decision instant u s i m decided_at equity = (let p = pu_policy u in
     and_then (order_figures instant p s i (pm_mark_price m) decided_at) (\<lambda>f.
     and_then (breaches_position_limit p (fg_committed f)) (\<lambda>breach.
     and_then (realized_loss (fg_realized_pnl f)) (\<lambda>loss.
     and_then (order_aggregate instant u s i m decided_at equity f) (\<lambda>(added, limits).
     let reasons = own_order_reasons p s i f breach loss @ added in
     Ok \<lparr>rd_decision_id = ''paper-risk-'' @ oi_intent_id i, rd_intent_id = oi_intent_id i, rd_approved = (reasons = []),
         rd_reason_codes = approval reasons, rd_policy_version = ppo_version p, rd_decided_at = decided_at,
         rd_correlation_id = oi_correlation_id i, rd_actor = ''paper_risk_engine'',
         rd_evaluated_limits = order_limits_text p i m f @ limits\<rparr>)))))"

definition evaluate_risk :: "(string \<Rightarrow> int option) \<Rightarrow> paper_setup \<Rightarrow> order_intent \<Rightarrow> paper_market_data \<Rightarrow> string
    \<Rightarrow> ('z paper_durable_scheme, risk_decision) op" where
  "evaluate_risk instant u i m decided_at =
     op_bind (observe_mark (oi_instrument_id i) (pm_mark_price m)) (\<lambda>_.
     op_bind (observe_equity decided_at) (\<lambda>equity.
     op_bind (op_get (\<lambda>s. order_decision instant u s i m decided_at equity)) (\<lambda>r. op_lift r)))"

section \<open>The combination gate\<close>

text \<open>What the loop over the legs gathers.\<close>

record combo_leg_totals =
  clt_reasons :: "string list"
  clt_largest_quantity :: decimal
  clt_widest_deviation :: decimal
  clt_every_leg_reduces :: bool
  clt_evidence :: "string list"

definition leg_evidence_text :: "combo_leg \<Rightarrow> decimal \<Rightarrow> decimal \<Rightarrow> decimal \<Rightarrow> decimal \<Rightarrow> decimal \<Rightarrow> string" where
  "leg_evidence_text leg quantity mark deviation delta committed = join '':''
     [cl_instrument_id leg, side_as_str (cl_side leg), decimal_to_string quantity, decimal_to_string (cl_limit_price leg),
      decimal_to_string mark, decimal_to_string deviation, decimal_to_string delta, decimal_to_string committed]"

definition combo_leg_step :: "paper_risk_policy \<Rightarrow> 'z paper_durable_scheme \<Rightarrow> combo_intent \<Rightarrow> paper_combo_market_data
    \<Rightarrow> combo_leg \<Rightarrow> combo_leg_totals \<Rightarrow> combo_leg_totals result" where
  "combo_leg_step p s i m leg acc = (let instrument_id = cl_instrument_id leg; held = held_quantity s instrument_id in
     and_then (leg_market m leg) (\<lambda>mark.
     and_then (combo_leg_quantity i leg) (\<lambda>quantity.
     and_then (price_deviation_bps (pm_mark_price mark) (cl_limit_price leg)) (\<lambda>deviation.
     and_then (and_then (projected_leg_delta i leg) (checked_add held)) (\<lambda>projected.
     and_then (working_position_delta s instrument_id) (\<lambda>delta.
     and_then (checked_add projected delta) (\<lambda>committed.
     and_then (reduces_open_position s instrument_id held projected) (\<lambda>reduces.
     and_then (breaches_position_limit p committed) (\<lambda>breach.
     Ok \<lparr>clt_reasons = clt_reasons acc @ option_reason (lot_rejection p instrument_id quantity)
           @ reason_if breach ''POSITION_LIMIT_OR_SHORT_SELL_EXCEEDED''
           @ reason_if (conflicts_with_working_order s instrument_id (cl_side leg)) ''SELF_TRADE_RISK'',
         clt_largest_quantity = max (clt_largest_quantity acc) quantity,
         clt_widest_deviation = max (clt_widest_deviation acc) deviation,
         clt_every_leg_reduces = (clt_every_leg_reduces acc \<and> reduces),
         clt_evidence = clt_evidence acc @ [leg_evidence_text leg quantity (pm_mark_price mark) deviation delta committed]\<rparr>)))))))))"

record combo_figures =
  cfg_available_cash :: decimal
  cfg_realized_pnl :: decimal
  cfg_recent :: nat
  cfg_gross_notional :: decimal
  cfg_net_price :: decimal
  cfg_net_debit :: decimal
  cfg_legs :: combo_leg_totals

definition combo_figures :: "(string \<Rightarrow> int option) \<Rightarrow> paper_risk_policy \<Rightarrow> 'z paper_durable_scheme
    \<Rightarrow> combo_intent \<Rightarrow> paper_combo_market_data \<Rightarrow> string \<Rightarrow> combo_figures result" where
  "combo_figures instant p s i m decided_at =
     and_then (total_reserved_cash s) (\<lambda>reserved.
     and_then (checked_sub (pb_cash s) reserved) (\<lambda>available.
     and_then (total_realized_pnl s) (\<lambda>realized.
     and_then (recent_order_count instant p s decided_at) (\<lambda>recent.
     and_then (combo_gross_notional i) (\<lambda>gross.
     and_then (protected_net_price i) (\<lambda>net.
     and_then (if net > ZERO then checked_mul net (co_combo_quantity i) else Ok ZERO) (\<lambda>debit.
     and_then (try_fold (combo_leg_step p s i m) (co_legs i) \<lparr>clt_reasons = [], clt_largest_quantity = ZERO,
       clt_widest_deviation = ZERO, clt_every_leg_reduces = True, clt_evidence = []\<rparr>) (\<lambda>legs.
     Ok \<lparr>cfg_available_cash = available, cfg_realized_pnl = realized, cfg_recent = recent, cfg_gross_notional = gross,
         cfg_net_price = net, cfg_net_debit = debit, cfg_legs = legs\<rparr>))))))))"

definition own_combo_reasons :: "paper_risk_policy \<Rightarrow> 'z paper_durable_scheme \<Rightarrow> combo_intent \<Rightarrow> combo_figures
    \<Rightarrow> decimal \<Rightarrow> string list" where
  "own_combo_reasons p s i f loss =
     ks_combo_rejection_reasons (pd_kill_switches s) i
     @ combo_tick_rejections p i
     @ clt_reasons (cfg_legs f)
     @ reason_if (clt_largest_quantity (cfg_legs f) > ppo_max_order_quantity p) ''MAX_ORDER_QUANTITY_EXCEEDED''
     @ reason_if (cfg_gross_notional f > ppo_max_order_notional p) ''MAX_ORDER_NOTIONAL_EXCEEDED''
     @ reason_if (clt_widest_deviation (cfg_legs f) > ppo_max_price_deviation_bps p) ''PRICE_COLLAR_EXCEEDED''
     @ reason_if (cfg_recent f \<ge> ppo_max_order_rate p) ''MAX_ORDER_RATE_EXCEEDED''
     @ reason_if (has_unknown_order s) ''UNKNOWN_ORDER_REQUIRES_RECONCILIATION''
     @ reason_if (unexplained_incident_count s > 0) ''UNEXPLAINED_INCIDENTS_REQUIRE_REVIEW''
     @ reason_if (working_order_count s \<ge> ppo_max_open_orders p) ''MAX_OPEN_ORDERS_EXCEEDED''
     @ reason_if (cfg_net_debit f > cfg_available_cash f) ''INSUFFICIENT_INTERNAL_CASH''
     @ reason_if (loss > ppo_max_realized_loss p) ''MAX_REALIZED_LOSS_EXCEEDED''"

definition combo_aggregate :: "(string \<Rightarrow> int option) \<Rightarrow> paper_setup \<Rightarrow> 'z paper_durable_scheme \<Rightarrow> combo_intent
    \<Rightarrow> paper_combo_market_data \<Rightarrow> string \<Rightarrow> decimal \<Rightarrow> combo_figures \<Rightarrow> (string list \<times> string) result" where
  "combo_aggregate instant u s i m decided_at equity f = (case ppo_portfolio_risk (pu_policy u) of
     None \<Rightarrow> Ok ([], [])
   | Some c \<Rightarrow> aggregate_reasons s equity False
       (portfolio_decision instant (pu_account u) c s decided_at (try_map (combo_candidate (pu_account u) c i m) (co_legs i)))
       (Ok (clt_every_leg_reduces (cfg_legs f))))"

definition combo_limits_text :: "paper_risk_policy \<Rightarrow> combo_intent \<Rightarrow> string \<Rightarrow> combo_figures \<Rightarrow> string" where
  "combo_limits_text p i oldest f = join '',''
     [''combo_legs='' @ show_nat (length (co_legs i)),
      ''combo_quantity='' @ decimal_to_string (co_combo_quantity i),
      ''combo_price_limit_kind='' @ combo_limit_kind (co_price_limit i),
      ''combo_price_limit_amount='' @ decimal_to_string (combo_limit_amount (co_price_limit i)),
      ''combo_protected_net_price='' @ decimal_to_string (cfg_net_price f),
      ''combo_net_debit='' @ decimal_to_string (cfg_net_debit f),
      ''combo_gross_notional='' @ decimal_to_string (cfg_gross_notional f),
      ''largest_leg_quantity='' @ decimal_to_string (clt_largest_quantity (cfg_legs f)),
      ''widest_leg_deviation_bps='' @ decimal_to_string (clt_widest_deviation (cfg_legs f)),
      ''max_order_quantity='' @ decimal_to_string (ppo_max_order_quantity p),
      ''max_order_notional='' @ decimal_to_string (ppo_max_order_notional p),
      ''max_price_deviation_bps='' @ decimal_to_string (ppo_max_price_deviation_bps p),
      ''max_open_orders='' @ show_nat (ppo_max_open_orders p),
      ''max_position_quantity='' @ decimal_to_string (ppo_max_position_quantity p),
      ''max_realized_loss='' @ decimal_to_string (ppo_max_realized_loss p),
      ''max_market_data_age_seconds='' @ show_nat (ppo_max_market_data_age_seconds p),
      ''max_order_rate='' @ show_nat (ppo_max_order_rate p),
      ''order_rate_window_seconds='' @ show_nat (ppo_order_rate_window_seconds p),
      ''recent_order_count='' @ show_nat (cfg_recent f),
      ''available_cash='' @ decimal_to_string (cfg_available_cash f),
      ''oldest_observed_at='' @ oldest,
      ''legs=['' @ join ''|'' (clt_evidence (cfg_legs f)) @ '']'',
      ''combo_tick_sizes=['' @ render_leg_entries i (ppo_instrument_tick_sizes p) @ '']'',
      ''combo_lot_sizes=['' @ render_leg_entries i (ppo_instrument_lot_sizes p) @ '']'']"

definition combo_decision :: "(string \<Rightarrow> int option) \<Rightarrow> paper_setup \<Rightarrow> 'z paper_durable_scheme \<Rightarrow> combo_intent
    \<Rightarrow> paper_combo_market_data \<Rightarrow> string \<Rightarrow> decimal \<Rightarrow> risk_decision result" where
  "combo_decision instant u s i m decided_at equity = (let p = pu_policy u in
     and_then (combo_figures instant p s i m decided_at) (\<lambda>f.
     and_then (realized_loss (cfg_realized_pnl f)) (\<lambda>loss.
     and_then (combo_aggregate instant u s i m decided_at equity f) (\<lambda>(added, limits).
     and_then (oldest_observed_at m) (\<lambda>oldest.
     let reasons = dedup (sort (own_combo_reasons p s i f loss @ added)) in
     Ok \<lparr>rd_decision_id = ''paper-combo-risk-'' @ co_intent_id i, rd_intent_id = co_intent_id i, rd_approved = (reasons = []),
         rd_reason_codes = approval reasons, rd_policy_version = ppo_version p, rd_decided_at = decided_at,
         rd_correlation_id = co_correlation_id i, rd_actor = ''paper_risk_engine'',
         rd_evaluated_limits = combo_limits_text p i oldest f @ limits\<rparr>)))))"

definition check_combo_request :: "(string \<Rightarrow> bool) \<Rightarrow> (string \<Rightarrow> int option) \<Rightarrow> paper_setup \<Rightarrow> combo_intent
    \<Rightarrow> paper_combo_market_data \<Rightarrow> string \<Rightarrow> unit result" where
  "check_combo_request rfc3339 instant u i m decided_at =
     and_then (combo_intent_validate rfc3339 i) (\<lambda>_.
     and_then (validate_utc_timestamp rfc3339 ''paper combo risk decision time'' decided_at) (\<lambda>_.
     if scaled (co_combo_quantity i) smod DECIMAL_SCALE \<noteq> 0 then Err ''PAPER combinations require whole combination units''
     else and_then (combo_market_validate_for rfc3339 i m) (\<lambda>_.
       if co_account_id i \<noteq> pa_account_id (pu_account u) then Err ''paper combo intent account does not match service''
       else and_then (and_then (oldest_observed_at m) (parse_instant instant)) (\<lambda>observed.
         and_then (parse_instant instant decided_at) (\<lambda>decided.
         if observation_is_stale (pu_policy u) observed decided
         then Err ''paper combo observation is stale or later than the risk decision'' else Ok ())))))"

definition evaluate_combo_risk :: "(string \<Rightarrow> bool) \<Rightarrow> (string \<Rightarrow> int option) \<Rightarrow> paper_setup \<Rightarrow> combo_intent
    \<Rightarrow> paper_combo_market_data \<Rightarrow> string \<Rightarrow> ('z paper_durable_scheme, risk_decision) op" where
  "evaluate_combo_risk rfc3339 instant u i m decided_at =
     op_bind (op_lift (check_combo_request rfc3339 instant u i m decided_at)) (\<lambda>_.
     op_bind (op_each (\<lambda>x. observe_mark (pm_instrument_id x) (pm_mark_price x)) m) (\<lambda>_.
     op_bind (observe_equity decided_at) (\<lambda>equity.
     op_bind (op_get (\<lambda>s. combo_decision instant u s i m decided_at equity)) (\<lambda>r. op_lift r))))"

end
