(* ===== verification/PaperRiskLaws.thy ===== *)
theory PaperRiskLaws
  imports PaperRisk
begin

text \<open>
  Laws of the pre-trade gate of the paper service: what working orders commit in integers, that an approved
  order keeps its position within the configured bounds however the working orders fill, and exactly
  when the gate approves.
\<close>

section \<open>Working quantities\<close>

definition order_units :: "string \<Rightarrow> side \<Rightarrow> paper_order \<Rightarrow> int" where
  "order_units i side o1 = (if order_working o1 \<and> oi_instrument_id (oo_intent (por_oms o1)) = i
     \<and> oi_side (oo_intent (por_oms o1)) = side then scaled (por_quantity o1) - scaled (por_filled_quantity o1) else 0)"

definition leg_units :: "string \<Rightarrow> side \<Rightarrow> int \<Rightarrow> combo_leg \<Rightarrow> int" where
  "leg_units i side unfilled leg = (if cl_instrument_id leg = i \<and> cl_side leg = side then unfilled * int (cl_ratio leg) else 0)"

definition combo_units :: "string \<Rightarrow> side \<Rightarrow> paper_combo_order \<Rightarrow> int" where
  "combo_units i side c = (if combo_working c then (\<Sum>leg\<leftarrow>co_legs (pco_intent c).
     leg_units i side (scaled (co_combo_quantity (pco_intent c)) - scaled (pco_filled_quantity c)) leg) else 0)"

definition working_units :: "'z paper_state_scheme \<Rightarrow> string \<Rightarrow> side \<Rightarrow> int" where
  "working_units s i side = (\<Sum>(_, o1)\<leftarrow>pv_orders s. order_units i side o1) + (\<Sum>(_, c)\<leftarrow>pv_combo_orders s. combo_units i side c)"

lemma leg_quantity_step_exact:
  "leg_quantity_step i side unfilled leg acc = Ok q \<Longrightarrow> scaled q = scaled acc + leg_units i side (scaled unfilled) leg"
  by (auto simp: leg_quantity_step_def leg_units_def result_simps DECIMAL_SCALE_def simp flip: mult.assoc split: if_splits)

lemma working_quantity_exact:
  assumes "working_quantity s i side = Ok q"
  shows "scaled q = working_units s i side"
proof -
  from assms obtain q1 where q1: "try_fold (order_quantity_step i side) (pv_orders s) ZERO = Ok q1"
    and q: "try_fold (combo_quantity_step i side) (pv_combo_orders s) q1 = Ok q"
    by (auto simp: working_quantity_def result_simps)
  have "scaled q1 = scaled ZERO + (\<Sum>x\<leftarrow>pv_orders s. order_units i side (snd x))"
    by (rule try_fold_sum [OF _ q1])
      (auto simp: order_quantity_step_def order_units_def result_simps Let_def split: prod.splits if_splits)
  moreover have "scaled q = scaled q1 + (\<Sum>x\<leftarrow>pv_combo_orders s. combo_units i side (snd x))"
  proof (rule try_fold_sum [OF _ q])
    fix x acc r assume step: "combo_quantity_step i side x acc = Ok r"
    show "scaled r = scaled acc + combo_units i side (snd x)"
    proof (cases "combo_working (snd x)")
      case True
      with step obtain unfilled where u: "checked_sub (co_combo_quantity (pco_intent (snd x))) (pco_filled_quantity (snd x)) = Ok unfilled"
        and legs: "try_fold (leg_quantity_step i side unfilled) (co_legs (pco_intent (snd x))) acc = Ok r"
        by (auto simp: combo_quantity_step_def result_simps split_def)
      have "scaled r = scaled acc + (\<Sum>leg\<leftarrow>co_legs (pco_intent (snd x)). leg_units i side (scaled unfilled) leg)"
        by (rule try_fold_sum [OF leg_quantity_step_exact legs])
      with True u show ?thesis by (simp add: combo_units_def result_simps)
    next
      case False
      with step show ?thesis by (simp add: combo_quantity_step_def combo_units_def split_def)
    qed
  qed
  ultimately show ?thesis by (simp add: working_units_def split_def)
qed

lemma working_units_nonneg:
  assumes "service_ok rfc s"
  shows "0 \<le> working_units s i side"
proof -
  have "0 \<le> order_units i side o1" if "(cid, o1) \<in> set (pv_orders s)" for cid o1
    using that service_okD(4) [OF assms] service_okD(2) [OF assms] by (auto simp: bt_get_iff order_units_def order_ok_def)
  moreover have "0 \<le> combo_units i side c" if "(cid, c) \<in> set (pv_combo_orders s)" for cid c
  proof -
    have "combo_ok rfc c" using that service_okD(3,5) [OF assms] by (auto simp: bt_get_iff)
    then show ?thesis by (auto simp: combo_units_def leg_units_def combo_ok_def intro!: sum_list_nonneg)
  qed
  ultimately show ?thesis by (auto simp: working_units_def intro!: add_nonneg_nonneg sum_list_nonneg)
qed

text \<open>No conflict means nothing works on the other side.\<close>

lemma sum_list_zero: "(\<And>x. x \<in> set xs \<Longrightarrow> f x = (0::int)) \<Longrightarrow> (\<Sum>x\<leftarrow>xs. f x) = 0"
  by (induction xs) auto

lemma no_conflict_units:
  assumes "\<not> conflicts_with_working_order s i side" "side' \<noteq> side"
  shows "working_units s i side' = 0"
proof -
  have "order_units i side' o1 = 0" if "(cid, o1) \<in> set (pv_orders s)" for cid o1
    using assms that by (auto simp: conflicts_with_working_order_def order_units_def list_ex_iff)
  moreover have "combo_units i side' c = 0" if "(cid, c) \<in> set (pv_combo_orders s)" for cid c
  proof -
    have "\<forall>leg\<in>set (co_legs (pco_intent c)). leg_units i side' u leg = 0" if "combo_working c" for u
      using assms that \<open>(cid, c) \<in> set (pv_combo_orders s)\<close>
      by (fastforce simp: conflicts_with_working_order_def leg_units_def list_ex_iff)
    then show ?thesis by (simp add: combo_units_def cong: map_cong)
  qed
  ultimately have "(\<Sum>(_, o1)\<leftarrow>pv_orders s. order_units i side' o1) = 0" "(\<Sum>(_, c)\<leftarrow>pv_combo_orders s. combo_units i side' c) = 0"
    by (intro sum_list_zero; force)+
  then show ?thesis by (simp add: working_units_def)
qed


section \<open>What an approval means\<close>

lemma reason_if_Nil [simp]: "reason_if b r = [] \<longleftrightarrow> \<not> b"
  by (simp add: reason_if_def)

lemma option_reason_Nil [simp]: "option_reason r = [] \<longleftrightarrow> r = None"
  by (simp add: option_reason_def split: option.splits)

text \<open>The evaluation leaves books, orders and controls alone; it observes a mark, the equity and the day.\<close>

definition same_service :: "'z paper_durable_scheme \<Rightarrow> 'z paper_durable_scheme \<Rightarrow> bool" where
  "same_service s t \<longleftrightarrow> core t = core s \<and> pd_kill_switches t = pd_kill_switches s \<and> pd_incidents t = pd_incidents s
     \<and> pd_risk_evidence t = pd_risk_evidence s \<and> pd_combo_risk_evidence t = pd_combo_risk_evidence s
     \<and> paper_durable.more t = paper_durable.more s \<and> pd_next_reconciliation t = pd_next_reconciliation s
     \<and> pd_broker_connected t = pd_broker_connected s \<and> pd_last_reconciliation_clean t = pd_last_reconciliation_clean s"

lemma same_service_trans: "same_service s t \<Longrightarrow> same_service t u \<Longrightarrow> same_service s u"
  by (simp add: same_service_def)

lemma observations_same_service:
  "same_service s s" "same_service s (pd_marks_update f s)" "same_service s (raise_peak equity s)"
  "same_service s (start_day at equity s)"
  by (simp_all add: same_service_def core_def paper_state.truncate_def raise_peak_def start_day_def)

lemma op_keeps_same_service [op_keeps_intros]:
  "op_keeps (same_service s) (observe_mark j mark)" "op_keeps (same_service s) (observe_equity at)"
proof -
  show "op_keeps (same_service s) (observe_mark j mark)"
    unfolding observe_mark_def by (rule op_keeps_modify) (rule same_service_trans [OF _ observations_same_service(2)])
  show "op_keeps (same_service s) (observe_equity at)"
    unfolding observe_equity_def
    by (intro op_keeps_intros) (rule same_service_trans, assumption, rule observations_same_service)+
qed

lemma evaluate_risk_same: "op_keeps (same_service s) (evaluate_risk instant u i m at)"
  unfolding evaluate_risk_def by (intro op_keeps_intros)

lemma evaluate_risk_ok:
  assumes "evaluate_risk instant u i m at s = (Ok d, t)"
  obtains equity where "order_decision instant u t i m at equity = Ok d" "same_service s t"
proof -
  have "same_service s t" using op_keepsD [OF evaluate_risk_same observations_same_service(1) assms] .
  moreover have "\<exists>equity. order_decision instant u t i m at equity = Ok d"
    using assms by (auto simp: evaluate_risk_def op_bind_eq_Ok)
  ultimately show ?thesis using that by blast
qed


text \<open>What the risk crate finds beyond what the gate has found itself.\<close>

lemma self_trade_conflicts:
  assumes "self_trade (resting_orders_of s) c"
  shows "conflicts_with_working_order s (cdo_instrument_id c) (cdo_side c)"
  using assms by (fastforce simp: self_trade_def resting_orders_of_def conflicts_with_working_order_def list_ex_iff Let_def)

lemma permission_self_trade:
  "''SELF_TRADE_RISK'' \<in> set (fold (permission_reasons policy resting) cs rs) \<longleftrightarrow>
     (\<exists>c\<in>set cs. self_trade resting c) \<or> ''SELF_TRADE_RISK'' \<in> set rs"
proof (induction cs arbitrary: rs)
  case (Cons c cs)
  have "''SELF_TRADE_RISK'' \<in> set (permission_reasons policy resting c rs) \<longleftrightarrow> self_trade resting c \<or> ''SELF_TRADE_RISK'' \<in> set rs"
    by (auto simp: permission_reasons_def)
  with Cons show ?case by auto
qed simp

lemma limit_reasons_self_trade:
  "''SELF_TRADE_RISK'' \<notin> set reasons \<Longrightarrow> ''SELF_TRADE_RISK'' \<notin> set (limit_reasons policy s m loss any_candidate reasons)"
  by (auto simp: limit_reasons_def bucket_reasons_def)

lemma self_trade_code:
  assumes "evaluate_portfolio_risk_with_candidates policy s cs = Ok d" "\<not> prd_approved d"
    and "filter (\<lambda>reason. reason \<noteq> ''APPROVED'' \<and> reason \<noteq> ''SELF_TRADE_RISK'') (prd_reason_codes d) = []"
  shows "\<exists>c\<in>set cs. self_trade (rsn_resting_orders s) c"
  using assms(1)
proof (rule evaluate_parts)
  let ?rs = "fold (permission_reasons policy (rsn_resting_orders s)) cs []"
  let ?all = "limit_reasons policy s (prd_metrics d) (Decimal (- scaled (prp_max_daily_loss policy))) (cs \<noteq> []) ?rs"
  assume found: "let found = dedup (sort ?all) in prd_approved d = (found = []) \<and> prd_reason_codes d = approval found"
  have "''APPROVED'' \<notin> set ?all" by (intro limit_reasons_codes permission_reasons_codes) simp
  moreover have "\<not> prd_approved d \<longrightarrow> prd_reason_codes d = dedup (sort ?all) \<and> dedup (sort ?all) \<noteq> []"
    using found unfolding Let_def approval_def by argo
  then obtain x where x: "x \<in> set (prd_reason_codes d)" "x \<in> set ?all"
    using assms(2) by (metis list.set_intros(1) neq_Nil_conv set_dedup set_sort)
  moreover from assms(3) x(1) have "x = ''APPROVED'' \<or> x = ''SELF_TRADE_RISK''" unfolding filter_empty_conv by blast
  ultimately have "''SELF_TRADE_RISK'' \<in> set ?all" using x(2) by blast
  then have "''SELF_TRADE_RISK'' \<in> set ?rs" using limit_reasons_self_trade by blast
  then show ?thesis by (simp add: permission_self_trade)
qed

lemma approved_code:
  assumes "evaluate_portfolio_risk_with_candidates policy s cs = Ok d" "prd_approved d"
  shows "prd_reason_codes d = [''APPROVED'']"
  using assms(1) by (rule evaluate_parts) (use assms(2) in \<open>simp add: Let_def approval_def\<close>)

text \<open>The aggregate judgement as a specification: the risk crate approves, or equity is gone and the order
  moves its position towards flat.\<close>

definition aggregate_permits :: "(string \<Rightarrow> int option) \<Rightarrow> paper_setup \<Rightarrow> 'z paper_durable_scheme \<Rightarrow> string
    \<Rightarrow> (portfolio_risk_composition \<Rightarrow> candidate_order list result) \<Rightarrow> bool result \<Rightarrow> bool" where
  "aggregate_permits instant u s at candidates reduces \<longleftrightarrow>
     (\<forall>c. ppo_portfolio_risk (pu_policy u) = Some c \<longrightarrow>
       (case portfolio_risk_state instant (pu_account u) c s at of
          Inr (Some (snapshot, _)) \<Rightarrow> \<exists>cs d. candidates c = Ok cs
            \<and> evaluate_portfolio_risk_with_candidates (prc_policy c) snapshot cs = Ok d \<and> prd_approved d
        | Inr None \<Rightarrow> reduces = Ok True
        | Inl _ \<Rightarrow> False))"

lemma aggregate_reasons_permit:
  assumes "(case ppo_portfolio_risk (pu_policy u) of None \<Rightarrow> Ok ([], [])
     | Some c \<Rightarrow> aggregate_reasons s equity buckets
       (portfolio_decision instant (pu_account u) c s at (candidates c)) reduces) = Ok (added, limits)"
    and "\<And>c cs x. candidates c = Ok cs \<Longrightarrow> x \<in> set cs \<Longrightarrow> \<not> conflicts_with_working_order s (cdo_instrument_id x) (cdo_side x)"
  shows "added = [] \<longleftrightarrow> aggregate_permits instant u s at candidates reduces"
proof (cases "ppo_portfolio_risk (pu_policy u)")
  case None
  with assms(1) show ?thesis by (simp add: aggregate_permits_def)
next
  case (Some c)
  with assms(1) obtain r where r: "portfolio_decision instant (pu_account u) c s at (candidates c) = Ok r"
    and agg: "aggregate_reasons s equity buckets (Ok r) reduces = Ok (added, limits)"
    by (auto simp: aggregate_reasons_def result_simps)
  from r obtain state where state: "portfolio_risk_state instant (pu_account u) c s at = Ok state"
    by (auto simp: portfolio_decision_def result_simps)
  show ?thesis
  proof (cases state)
    case None
    with r state have "r = None" by (simp add: portfolio_decision_def)
    with agg show ?thesis using None Some state
      by (auto simp: aggregate_reasons_def aggregate_permits_def result_simps reason_if_def split: if_splits)
  next
    case (Some x)
    obtain snapshot used where x: "x = (snapshot, used)" by (cases x)
    with Some r state obtain cs d where cs: "candidates c = Ok cs"
      and d: "evaluate_portfolio_risk_with_candidates (prc_policy c) snapshot cs = Ok d" and r': "r = Some (d, used)"
      by (auto simp: portfolio_decision_def result_simps)
    have added: "added = filter (\<lambda>reason. reason \<noteq> ''APPROVED'' \<and> reason \<noteq> ''SELF_TRADE_RISK'') (prd_reason_codes d)"
      using agg by (auto simp: aggregate_reasons_def r' result_simps)
    have resting: "rsn_resting_orders snapshot = resting_orders_of s"
      using state Some x by (auto simp: portfolio_risk_state_def result_simps split: if_splits)
    have "added = [] \<longleftrightarrow> prd_approved d"
      using self_trade_code [OF d] approved_code [OF d] self_trade_conflicts assms(2) [OF cs] resting added by auto
    with \<open>ppo_portfolio_risk (pu_policy u) = Some c\<close> state Some x cs d show ?thesis
      by (auto simp: aggregate_permits_def)
  qed
qed


section \<open>The single order\<close>

text \<open>The rules of the gate over the figures it works out.\<close>

definition order_within_rules :: "(string \<Rightarrow> int option) \<Rightarrow> paper_setup \<Rightarrow> 'z paper_durable_scheme \<Rightarrow> order_intent
    \<Rightarrow> paper_market_data \<Rightarrow> string \<Rightarrow> order_figures \<Rightarrow> bool" where
  "order_within_rules instant u s i m at f \<longleftrightarrow> (let p = pu_policy u; j = oi_instrument_id i in
     ks_rejection_reasons (pd_kill_switches s) i = []
     \<and> oi_quantity i \<le> ppo_max_order_quantity p \<and> fg_notional f \<le> ppo_max_order_notional p
     \<and> fg_deviation_bps f \<le> ppo_max_price_deviation_bps p
     \<and> tick_rejection p j (oi_limit_price i) = None \<and> lot_rejection p j (oi_quantity i) = None
     \<and> \<not> conflicts_with_working_order s j (oi_side i)
     \<and> fg_recent f < ppo_max_order_rate p \<and> \<not> has_unknown_order s \<and> unexplained_incident_count s = 0
     \<and> working_order_count s < ppo_max_open_orders p
     \<and> - short_bound p \<le> scaled (fg_committed f) \<and> fg_committed f \<le> ppo_max_position_quantity p
     \<and> (oi_side i = Buy \<longrightarrow> fg_notional f \<le> fg_available_cash f)
     \<and> - scaled (fg_realized_pnl f) \<le> scaled (ppo_max_realized_loss p)
     \<and> aggregate_permits instant u s at
         (\<lambda>c. and_then (order_candidate (pu_account u) c i m) (\<lambda>candidate. Ok [candidate]))
         (reduces_open_position s j (fg_position f) (fg_projected f)))"

lemma paper_policy_bounds:
  assumes "paper_policy_validate p = Ok ()"
  shows "0 \<le> short_bound p" "0 \<le> scaled (ppo_max_position_quantity p)" "0 \<le> scaled (ppo_max_realized_loss p)"
  using assms
  by (auto simp: paper_policy_validate_def paper_limits_invalid_def short_bound_def decimal_cmp not_le not_less
      split: if_splits option.splits)

lemma realized_loss_within:
  assumes "realized_loss pnl = Ok loss" "0 \<le> scaled limit"
  shows "loss > limit \<longleftrightarrow> \<not> - scaled pnl \<le> scaled limit"
  using assms by (auto simp: realized_loss_def decimal_cmp result_simps split: if_splits)

lemma order_candidate_side:
  assumes "and_then (order_candidate a c i m) (\<lambda>candidate. Ok [candidate]) = Ok cs" "x \<in> set cs"
  shows "cdo_instrument_id x = oi_instrument_id i \<and> cdo_side x = oi_side i"
  using assms by (auto simp: order_candidate_def risk_candidate_def result_simps)

lemma reason_if_code: "''APPROVED'' \<notin> set (reason_if b r) \<longleftrightarrow> \<not> b \<or> r \<noteq> ''APPROVED''"
  by (auto simp: reason_if_def)

lemma grid_codes:
  "tick_rejection p j price \<noteq> Some ''APPROVED''" "lot_rejection p j q \<noteq> Some ''APPROVED''"
  by (simp_all add: tick_rejection_def lot_rejection_def split: option.split)

lemma option_reason_code: "''APPROVED'' \<notin> set (option_reason r) \<longleftrightarrow> r \<noteq> Some ''APPROVED''"
  by (auto simp: option_reason_def split: option.split)

lemma combo_tick_code: "''APPROVED'' \<notin> set (combo_tick_rejections p c)"
  using grid_codes(1) by (auto simp: combo_tick_rejections_def map_filter_def)

lemma switch_codes:
  "''APPROVED'' \<notin> set (ks_rejection_reasons k i)" "''APPROVED'' \<notin> set (ks_combo_rejection_reasons k c)"
  by (auto simp: ks_rejection_reasons_def ks_combo_rejection_reasons_def reasons_for_def scope_reason_def)

lemmas own_reasons_codes = reason_if_code option_reason_code grid_codes combo_tick_code switch_codes

lemma aggregate_reasons_codes:
  assumes "(case ppo_portfolio_risk (pu_policy u) of None \<Rightarrow> Ok ([], [])
     | Some c \<Rightarrow> aggregate_reasons s equity buckets (f c) reduces) = Ok (added, limits)"
  shows "''APPROVED'' \<notin> set added"
  using assms
  by (auto simp: aggregate_reasons_def and_then_eq_Inr reason_if_def split: option.splits)

lemma approval_explained:
  "''APPROVED'' \<notin> set reasons \<Longrightarrow> reasons = [] \<longleftrightarrow> approval reasons = [''APPROVED'']"
  by (auto simp: approval_def)

lemma own_order_reasons_empty:
  assumes "breaches_position_limit p (fg_committed f) = Ok breach" "realized_loss (fg_realized_pnl f) = Ok loss"
    and "paper_policy_validate p = Ok ()"
  shows "own_order_reasons p s i f breach loss = [] \<longleftrightarrow> (let j = oi_instrument_id i in
     ks_rejection_reasons (pd_kill_switches s) i = []
     \<and> oi_quantity i \<le> ppo_max_order_quantity p \<and> fg_notional f \<le> ppo_max_order_notional p
     \<and> fg_deviation_bps f \<le> ppo_max_price_deviation_bps p
     \<and> tick_rejection p j (oi_limit_price i) = None \<and> lot_rejection p j (oi_quantity i) = None
     \<and> \<not> conflicts_with_working_order s j (oi_side i)
     \<and> fg_recent f < ppo_max_order_rate p \<and> \<not> has_unknown_order s \<and> unexplained_incident_count s = 0
     \<and> working_order_count s < ppo_max_open_orders p
     \<and> - short_bound p \<le> scaled (fg_committed f) \<and> fg_committed f \<le> ppo_max_position_quantity p
     \<and> (oi_side i = Buy \<longrightarrow> fg_notional f \<le> fg_available_cash f)
     \<and> - scaled (fg_realized_pnl f) \<le> scaled (ppo_max_realized_loss p))"
proof -
  note bounds = paper_policy_bounds [OF assms(3)]
  have "breach \<longleftrightarrow> \<not> (- short_bound p \<le> scaled (fg_committed f) \<and> fg_committed f \<le> ppo_max_position_quantity p)"
    using breaches_position_limit_Ok [OF assms(1) bounds(1,2)] by (simp add: decimal_cmp)
  moreover have "loss > ppo_max_realized_loss p \<longleftrightarrow> \<not> - scaled (fg_realized_pnl f) \<le> scaled (ppo_max_realized_loss p)"
    by (rule realized_loss_within [OF assms(2) bounds(3)])
  ultimately show ?thesis
    unfolding own_order_reasons_def append_is_Nil_conv reason_if_Nil option_reason_Nil not_less not_le Let_def by auto
qed

lemma order_decision_approves:
  assumes "order_decision instant u s i m at equity = Ok d" "paper_policy_validate (pu_policy u) = Ok ()"
  obtains f where "order_figures instant (pu_policy u) s i (pm_mark_price m) at = Ok f"
    "rd_approved d \<longleftrightarrow> order_within_rules instant u s i m at f"
    "rd_approved d \<longleftrightarrow> rd_reason_codes d = [''APPROVED'']"
proof -
  let ?p = "pu_policy u"
  from assms(1) obtain f breach loss added limits where f: "order_figures instant ?p s i (pm_mark_price m) at = Ok f"
    and breach: "breaches_position_limit ?p (fg_committed f) = Ok breach"
    and loss: "realized_loss (fg_realized_pnl f) = Ok loss"
    and added: "order_aggregate instant u s i m at equity f = Ok (added, limits)"
    and approved: "rd_approved d \<longleftrightarrow> own_order_reasons ?p s i f breach loss @ added = []"
    and codes: "rd_reason_codes d = approval (own_order_reasons ?p s i f breach loss @ added)"
    unfolding order_decision_def Let_def and_then_eq_Inr by (auto simp: Let_def)
  let ?own = "own_order_reasons ?p s i f breach loss"
  have "?own = [] \<Longrightarrow> \<not> conflicts_with_working_order s (oi_instrument_id i) (oi_side i)"
    by (simp add: own_order_reasons_def)
  then have "?own = [] \<Longrightarrow> added = [] \<longleftrightarrow> aggregate_permits instant u s at
         (\<lambda>c. and_then (order_candidate (pu_account u) c i m) (\<lambda>candidate. Ok [candidate]))
         (reduces_open_position s (oi_instrument_id i) (fg_position f) (fg_projected f))"
    using added unfolding order_aggregate_def by (intro aggregate_reasons_permit) (auto dest: order_candidate_side)
  then have "rd_approved d \<longleftrightarrow> order_within_rules instant u s i m at f"
    unfolding approved append_is_Nil_conv order_within_rules_def Let_def
    using own_order_reasons_empty [OF breach loss assms(2), unfolded Let_def] by blast
  moreover have "''APPROVED'' \<notin> set (?own @ added)"
    using aggregate_reasons_codes [OF added [unfolded order_aggregate_def]]
    by (simp add: own_order_reasons_def own_reasons_codes)
  then have "rd_approved d \<longleftrightarrow> rd_reason_codes d = [''APPROVED'']"
    unfolding approved codes by (rule approval_explained)
  ultimately show ?thesis using f that by blast
qed


text \<open>The figures are the integers they are named after.\<close>

lemma order_figures_exact:
  assumes "order_figures instant p s i mark at = Ok f"
  shows "fg_position f = held_quantity s (oi_instrument_id i)"
    "scaled (fg_committed f) = scaled (held_quantity s (oi_instrument_id i)) + side_sign (oi_side i) * scaled (oi_quantity i)
       + working_units s (oi_instrument_id i) Buy - working_units s (oi_instrument_id i) Sell"
    "scaled (fg_notional f) = scaled (oi_quantity i) * scaled mark sdiv DECIMAL_SCALE"
proof -
  let ?j = "oi_instrument_id i"
  obtain delta projected where delta: "working_position_delta s ?j = Ok delta"
    and projected: "(case oi_side i of Buy \<Rightarrow> checked_add (held_quantity s ?j) (oi_quantity i)
        | Sell \<Rightarrow> checked_sub (held_quantity s ?j) (oi_quantity i)) = Ok projected"
    and committed: "checked_add projected delta = Ok (fg_committed f)"
    and notional: "checked_mul (oi_quantity i) mark = Ok (fg_notional f)"
    and "fg_position f = held_quantity s ?j"
    using assms by (auto simp: order_figures_def and_then_eq_Inr Let_def)
  then show "fg_position f = held_quantity s ?j" "scaled (fg_notional f) = scaled (oi_quantity i) * scaled mark sdiv DECIMAL_SCALE"
    by (simp_all add: result_simps)
  have "scaled delta = working_units s ?j Buy - working_units s ?j Sell"
    using delta by (auto simp: working_position_delta_def and_then_eq_Inr checked_sub_eq_Ok dest!: working_quantity_exact)
  with projected committed show "scaled (fg_committed f) = scaled (held_quantity s ?j) + side_sign (oi_side i) * scaled (oi_quantity i)
       + working_units s ?j Buy - working_units s ?j Sell"
    by (cases "oi_side i") (auto simp: result_simps side_sign_def)
qed

definition sample_buy :: order_intent where
  "sample_buy = sample_intent\<lparr>oi_account_id := ''acct'', oi_instrument_id := ''aaa'', oi_quantity := Decimal 100000000,
     oi_environment := ''PAPER''\<rparr>"

definition sample_mark :: paper_market_data where
  "sample_mark = \<lparr>pm_instrument_id = ''aaa'', pm_mark_price = Decimal 10000000000, pm_observed_at = ''2026-01-31T23:59:59Z''\<rparr>"

definition sample_gate :: paper_setup where
  "sample_gate = sample_setup\<lparr>pu_policy := sample_paper_policy\<lparr>ppo_portfolio_risk := None\<rparr>\<rparr>"

definition sample_quiet :: paper_durable where
  "sample_quiet = durable_new (pu_account sample_gate) \<lparr>ksr_version = ''k1'', ksr_active = []\<rparr>"

lemma sample_gate_valid: "paper_policy_validate (pu_policy sample_gate) = Ok ()"
  by (simp add: sample_gate_def paper_policy_validate_def sample_paper_policy_def paper_limits_invalid_def
      increments_invalid_def unpaired_instrument_def validate_canonical_id_def is_id_byte_def byte_simps risk_arith
      from_integer_def)

lemma sample_quiet_simps [simp]:
  "pb_cash sample_quiet = Decimal 100000000000" "pb_portfolios sample_quiet = []" "pv_orders sample_quiet = []"
  "pv_combo_orders sample_quiet = []" "pd_kill_switches sample_quiet = \<lparr>ksr_version = ''k1'', ksr_active = []\<rparr>"
  "pd_incidents sample_quiet = []"
  by (simp_all add: sample_quiet_def durable_new_def sample_gate_def sample_setup_def)

lemma quiet_evaluated:
  fixes q :: "'z paper_durable_scheme"
  assumes quiet: "core q = core sample_quiet" "pd_kill_switches q = pd_kill_switches sample_quiet" "pd_incidents q = []"
  shows "\<exists>d t. evaluate_risk (\<lambda>_. Some 0) sample_gate sample_buy sample_mark ''2026-01-31T23:59:59Z'' q = (Ok d, t) \<and> rd_approved d"
proof -
  define s where "s = start_day ''2026-01-31T23:59:59Z'' (Decimal 100000000000)
    (raise_peak (Decimal 100000000000) (pd_marks_update (bt_insert ''aaa'' (Decimal 10000000000)) q))"
  have same: "same_service q s"
    unfolding s_def
    by (rule same_service_trans [OF same_service_trans [OF observations_same_service(2,3)] observations_same_service(4)])
  have "core s = core sample_quiet" using same quiet by (simp add: same_service_def)
  note eq = core_eq [OF this]
  have more: "pd_kill_switches s = \<lparr>ksr_version = ''k1'', ksr_active = []\<rparr>" "pd_incidents s = []"
    using same quiet by (simp_all add: same_service_def)
  have f: "\<exists>f. order_figures (\<lambda>_. Some 0) (pu_policy sample_gate) s sample_buy (Decimal 10000000000) ''2026-01-31T23:59:59Z'' = Ok f
     \<and> fg_notional f = Decimal 10000000000 \<and> fg_deviation_bps f = ZERO \<and> fg_committed f = Decimal 100000000
     \<and> fg_recent f = 0 \<and> fg_available_cash f = Decimal 100000000000 \<and> fg_realized_pnl f = ZERO"
    by (simp add: Let_def order_figures_def total_realized_pnl_def total_reserved_cash_def working_position_delta_def
        working_quantity_def recent_order_count_def parse_instant_def rate_window_start_def window_seconds_def eq held_quantity_def
        sample_buy_def sample_intent_def sample_gate_def sample_paper_policy_def optional_price_deviation_def
        price_deviation_bps_def risk_arith from_integer_def)
  then obtain f where f: "order_figures (\<lambda>_. Some 0) (pu_policy sample_gate) s sample_buy (Decimal 10000000000) ''2026-01-31T23:59:59Z'' = Ok f"
    "fg_notional f = Decimal 10000000000" "fg_deviation_bps f = ZERO" "fg_committed f = Decimal 100000000"
    "fg_recent f = 0" "fg_available_cash f = Decimal 100000000000" "fg_realized_pnl f = ZERO" by blast
  have "own_order_reasons (pu_policy sample_gate) s sample_buy f False ZERO = []"
    by (simp add: own_order_reasons_def f more eq sample_gate_def sample_paper_policy_def sample_buy_def sample_intent_def
        ks_rejection_reasons_def reasons_for_def tick_rejection_def lot_rejection_def conflicts_with_working_order_def
        has_unknown_order_def unexplained_incident_count_def working_order_count_def decimal_cmp bs_contains_def)
  then have "\<exists>d. order_decision (\<lambda>_. Some 0) sample_gate s sample_buy sample_mark ''2026-01-31T23:59:59Z'' (Decimal 100000000000) = Ok d \<and> rd_approved d"
    using f by (simp add: order_decision_def sample_mark_def Let_def breaches_position_limit_def realized_loss_def decimal_cmp
        order_aggregate_def sample_gate_def sample_paper_policy_def)
  then show ?thesis
    by (auto simp: evaluate_risk_def observe_mark_def observe_equity_def current_equity_def s_def core_eq [OF quiet(1)] sample_mark_def sample_buy_def
        sample_intent_def)
qed

lemma sample_evaluated:
  "\<exists>d t. evaluate_risk (\<lambda>_. Some 0) sample_gate sample_buy sample_mark ''2026-01-31T23:59:59Z'' sample_quiet = (Ok d, t) \<and> rd_approved d"
  by (rule quiet_evaluated) simp_all

text \<open>C11: The gate decides by its rules and by nothing else: with the figures it works out of the state,
  it approves exactly an order that no switch stops, that keeps every configured limit, grid, count
  and bound and that the portfolio-wide judgement permits; the only code of an approval is APPROVED, which no
  refusal carries alone. Deciding changes no book, order or control.\<close>

theorem paper_gate_approves_iff:
  assumes "evaluate_risk instant u i m at s = (Ok d, t)" "paper_policy_validate (pu_policy u) = Ok ()"
  shows "\<exists>f. order_figures instant (pu_policy u) t i (pm_mark_price m) at = Ok f
    \<and> (rd_approved d \<longleftrightarrow> order_within_rules instant u t i m at f)
    \<and> (rd_approved d \<longleftrightarrow> rd_reason_codes d = [''APPROVED'']) \<and> same_service s t"
proof -
  obtain equity where d: "order_decision instant u t i m at equity = Ok d" and same: "same_service s t"
    by (rule evaluate_risk_ok [OF assms(1)])
  obtain f where "order_figures instant (pu_policy u) t i (pm_mark_price m) at = Ok f"
    "rd_approved d \<longleftrightarrow> order_within_rules instant u t i m at f"
    "rd_approved d \<longleftrightarrow> rd_reason_codes d = [''APPROVED'']"
    by (rule order_decision_approves [OF d assms(2)])
  with same show ?thesis by blast
qed

theorem paper_gate_approves_iff_witness:
  "\<exists>d t f. evaluate_risk (\<lambda>_. Some 0) sample_gate sample_buy sample_mark ''2026-01-31T23:59:59Z'' sample_quiet = (Ok d, t)
    \<and> order_within_rules (\<lambda>_. Some 0) sample_gate t sample_buy sample_mark ''2026-01-31T23:59:59Z'' f \<and> rd_reason_codes d = [''APPROVED'']"
proof -
  obtain d t where run: "evaluate_risk (\<lambda>_. Some 0) sample_gate sample_buy sample_mark ''2026-01-31T23:59:59Z'' sample_quiet = (Ok d, t)"
    "rd_approved d" using sample_evaluated by blast
  with paper_gate_approves_iff [OF run(1) sample_gate_valid] show ?thesis by metis
qed

lemma same_service_core:
  assumes "same_service s t"
  shows "held_quantity t j = held_quantity s j" "working_units t j side = working_units s j side"
    "service_ok rfc t = service_ok rfc s" "conflicts_with_working_order t j side = conflicts_with_working_order s j side"
proof -
  have "core t = core s" using assms by (simp add: same_service_def)
  note eq = core_eq [OF this]
  show "held_quantity t j = held_quantity s j" "working_units t j side = working_units s j side"
    "service_ok rfc t = service_ok rfc s" "conflicts_with_working_order t j side = conflicts_with_working_order s j side"
    by (simp_all add: held_quantity_def working_units_def service_ok_def books_ok_def conflicts_with_working_order_def eq)
qed

text \<open>C4: An approved order keeps its position inside the configured bounds whatever happens next: if
  the position is inside them now, it is inside them for every part of the order and of every working order
  and combination leg in the instrument that may fill, in any order of events.\<close>

theorem approved_order_keeps_position:
  assumes "evaluate_risk instant u i m at s = (Ok d, t)" "rd_approved d" "paper_policy_validate (pu_policy u) = Ok ()"
    and "j = oi_instrument_id i"
    and "- short_bound (pu_policy u) \<le> scaled (held_quantity s j)"
    and "held_quantity s j \<le> ppo_max_position_quantity (pu_policy u)"
    and "0 \<le> filled" "filled \<le> scaled (oi_quantity i)"
    and "0 \<le> bought" "bought \<le> working_units s j Buy" "0 \<le> sold" "sold \<le> working_units s j Sell"
  shows "let after_fills = scaled (held_quantity s j) + side_sign (oi_side i) * filled + bought - sold in
    - short_bound (pu_policy u) \<le> after_fills \<and> after_fills \<le> scaled (ppo_max_position_quantity (pu_policy u))"
proof -
  obtain equity where d: "order_decision instant u t i m at equity = Ok d" and same: "same_service s t"
    by (rule evaluate_risk_ok [OF assms(1)])
  obtain f where f: "order_figures instant (pu_policy u) t i (pm_mark_price m) at = Ok f"
    and rules: "order_within_rules instant u t i m at f"
    using order_decision_approves [OF d assms(3)] assms(2) by metis
  note core = same_service_core [OF same]
  have alone: "\<not> conflicts_with_working_order s j (oi_side i)"
    and low: "- short_bound (pu_policy u) \<le> scaled (fg_committed f)"
    and high: "scaled (fg_committed f) \<le> scaled (ppo_max_position_quantity (pu_policy u))"
    using rules assms(4) by (simp_all add: order_within_rules_def Let_def core decimal_cmp)
  have committed: "scaled (fg_committed f) = scaled (held_quantity s j) + side_sign (oi_side i) * scaled (oi_quantity i)
       + working_units s j Buy - working_units s j Sell"
    using order_figures_exact(2) [OF f] assms(4) by (simp add: core)
  have held: "scaled (held_quantity s j) \<le> scaled (ppo_max_position_quantity (pu_policy u))"
    using assms(6) by (simp add: decimal_cmp)
  show ?thesis
  proof (cases "oi_side i")
    case Buy
    with alone have "working_units s j Sell = 0" by (intro no_conflict_units [of s j Buy]) simp_all
    with Buy assms(5,7-12) low high committed held show ?thesis by (simp add: Let_def side_sign_def)
  next
    case Sell
    with alone have "working_units s j Buy = 0" by (intro no_conflict_units [of s j Sell]) simp_all
    with Sell assms(5,7-12) low high committed held show ?thesis by (simp add: Let_def side_sign_def)
  qed
qed


theorem approved_order_keeps_position_witness:
  "- short_bound (pu_policy sample_gate) \<le> scaled (held_quantity sample_quiet ''aaa'') + 50000000
    \<and> scaled (held_quantity sample_quiet ''aaa'') + 50000000 \<le> scaled (ppo_max_position_quantity (pu_policy sample_gate))"
proof -
  obtain d t where run: "evaluate_risk (\<lambda>_. Some 0) sample_gate sample_buy sample_mark ''2026-01-31T23:59:59Z'' sample_quiet = (Ok d, t)"
    "rd_approved d" using sample_evaluated by blast
  from approved_order_keeps_position [OF run sample_gate_valid, of "''aaa''" 50000000 0 0] show ?thesis
    by (simp add: sample_buy_def sample_intent_def held_quantity_def short_bound_def sample_gate_def sample_paper_policy_def
        decimal_cmp side_sign_def working_units_def Let_def)
qed


section \<open>The combination\<close>

definition leg_within_rules :: "paper_risk_policy \<Rightarrow> 'z paper_state_scheme \<Rightarrow> combo_intent \<Rightarrow> combo_leg \<Rightarrow> bool" where
  "leg_within_rules p s i leg \<longleftrightarrow> (let j = cl_instrument_id leg in \<exists>quantity. combo_leg_quantity i leg = Ok quantity
     \<and> lot_rejection p j quantity = None \<and> \<not> conflicts_with_working_order s j (cl_side leg)
     \<and> (let committed = scaled (held_quantity s j) + side_sign (cl_side leg) * scaled quantity
          + working_units s j Buy - working_units s j Sell
        in - short_bound p \<le> committed \<and> committed \<le> scaled (ppo_max_position_quantity p)))"

lemma combo_leg_step_rules:
  assumes "combo_leg_step p s i m leg acc = Ok r" "paper_policy_validate p = Ok ()"
  shows "clt_reasons r = [] \<longleftrightarrow> clt_reasons acc = [] \<and> leg_within_rules p s i leg"
proof -
  let ?j = "cl_instrument_id leg"
  obtain quantity delta projected committed breach where quantity: "combo_leg_quantity i leg = Ok quantity"
    and projected: "and_then (projected_leg_delta i leg) (checked_add (held_quantity s ?j)) = Ok projected"
    and delta: "working_position_delta s ?j = Ok delta" and committed: "checked_add projected delta = Ok committed"
    and breach: "breaches_position_limit p committed = Ok breach"
    and r: "clt_reasons r = clt_reasons acc @ option_reason (lot_rejection p ?j quantity)
        @ reason_if breach ''POSITION_LIMIT_OR_SHORT_SELL_EXCEEDED''
        @ reason_if (conflicts_with_working_order s ?j (cl_side leg)) ''SELF_TRADE_RISK''"
    using assms(1) unfolding combo_leg_step_def Let_def and_then_eq_Inr by auto
  have "scaled delta = working_units s ?j Buy - working_units s ?j Sell"
    using delta by (auto simp: working_position_delta_def and_then_eq_Inr checked_sub_eq_Ok dest!: working_quantity_exact)
  moreover have "scaled projected = scaled (held_quantity s ?j) + side_sign (cl_side leg) * scaled quantity"
    using projected quantity by (cases "cl_side leg") (auto simp: projected_leg_delta_def result_simps side_sign_def)
  ultimately have "scaled committed = scaled (held_quantity s ?j) + side_sign (cl_side leg) * scaled quantity
      + working_units s ?j Buy - working_units s ?j Sell"
    using committed by (simp add: checked_add_eq_Ok)
  then have breach: "breach \<longleftrightarrow> \<not> (let committed = scaled (held_quantity s ?j) + side_sign (cl_side leg) * scaled quantity
          + working_units s ?j Buy - working_units s ?j Sell
        in - short_bound p \<le> committed \<and> committed \<le> scaled (ppo_max_position_quantity p))"
    using breaches_position_limit_Ok [OF breach paper_policy_bounds(1,2) [OF assms(2)]] by (simp add: Let_def)
  show ?thesis
    unfolding r append_is_Nil_conv reason_if_Nil option_reason_Nil breach leg_within_rules_def Let_def quantity by auto
qed

lemma combo_legs_rules:
  assumes "try_fold (combo_leg_step p s i m) legs acc = Ok r" "paper_policy_validate p = Ok ()"
  shows "clt_reasons r = [] \<longleftrightarrow> clt_reasons acc = [] \<and> (\<forall>leg\<in>set legs. leg_within_rules p s i leg)"
  using assms(1)
proof (induction legs arbitrary: acc)
  case (Cons leg legs)
  then obtain mid where step: "combo_leg_step p s i m leg acc = Ok mid"
    and loop: "try_fold (combo_leg_step p s i m) legs mid = Ok r" by (auto simp: and_then_eq_Inr)
  from Cons.IH [OF loop] combo_leg_step_rules [OF step assms(2)] show ?case by auto
qed simp

lemma evaluate_combo_risk_same:
  "op_keeps (same_service s) (evaluate_combo_risk rfc instant u i m at)"
proof -
  have "op_keeps (same_service s) (op_each f xs)" if "\<And>x. op_keeps (same_service s) (f x)" for f :: "'x \<Rightarrow> _" and xs
    using that by (induction xs) (auto intro: op_keeps_intros)
  then show ?thesis unfolding evaluate_combo_risk_def by (intro op_keeps_intros)
qed

lemma evaluate_combo_risk_ok:
  assumes "evaluate_combo_risk rfc instant u i m at s = (Ok d, t)"
  obtains equity where "combo_decision instant u t i m at equity = Ok d" "same_service s t"
    "check_combo_request rfc instant u i m at = Ok ()"
proof -
  have "same_service s t" using op_keepsD [OF evaluate_combo_risk_same observations_same_service(1) assms] .
  moreover have "\<exists>equity. combo_decision instant u t i m at equity = Ok d" "check_combo_request rfc instant u i m at = Ok ()"
    using assms by (auto simp: evaluate_combo_risk_def op_bind_eq_Ok)
  ultimately show ?thesis using that by blast
qed

definition combo_within_rules :: "(string \<Rightarrow> int option) \<Rightarrow> paper_setup \<Rightarrow> 'z paper_durable_scheme \<Rightarrow> combo_intent
    \<Rightarrow> paper_combo_market_data \<Rightarrow> string \<Rightarrow> combo_figures \<Rightarrow> bool" where
  "combo_within_rules instant u s i m at f \<longleftrightarrow> (let p = pu_policy u in
     ks_combo_rejection_reasons (pd_kill_switches s) i = [] \<and> combo_tick_rejections p i = []
     \<and> (\<forall>leg\<in>set (co_legs i). leg_within_rules p s i leg)
     \<and> clt_largest_quantity (cfg_legs f) \<le> ppo_max_order_quantity p \<and> cfg_gross_notional f \<le> ppo_max_order_notional p
     \<and> clt_widest_deviation (cfg_legs f) \<le> ppo_max_price_deviation_bps p
     \<and> cfg_recent f < ppo_max_order_rate p \<and> \<not> has_unknown_order s \<and> unexplained_incident_count s = 0
     \<and> working_order_count s < ppo_max_open_orders p \<and> cfg_net_debit f \<le> cfg_available_cash f
     \<and> - scaled (cfg_realized_pnl f) \<le> scaled (ppo_max_realized_loss p)
     \<and> aggregate_permits instant u s at (\<lambda>c. try_map (combo_candidate (pu_account u) c i m) (co_legs i))
         (Ok (clt_every_leg_reduces (cfg_legs f))))"

lemma combo_candidate_side:
  assumes "combo_candidate a c i m leg = Ok x"
  shows "cdo_instrument_id x = cl_instrument_id leg \<and> cdo_side x = cl_side leg"
  using assms by (auto simp: combo_candidate_def risk_candidate_def and_then_eq_Inr)

lemma combo_candidates_side:
  assumes "try_map (combo_candidate a c i m) legs = Ok cs" "x \<in> set cs"
  shows "\<exists>leg\<in>set legs. cdo_instrument_id x = cl_instrument_id leg \<and> cdo_side x = cl_side leg"
  using assms(1) [unfolded try_map_eq_Inr] assms(2)
  by (induction legs cs rule: list_all2_induct) (auto dest: combo_candidate_side)

lemma combo_leg_codes:
  assumes "try_fold (combo_leg_step p s i m) legs acc = Ok r"
  shows "''APPROVED'' \<notin> set (clt_reasons r) \<longleftrightarrow> ''APPROVED'' \<notin> set (clt_reasons acc)"
  using assms
proof (induction legs arbitrary: acc)
  case (Cons leg legs)
  then obtain mid where step: "combo_leg_step p s i m leg acc = Ok mid"
    and loop: "try_fold (combo_leg_step p s i m) legs mid = Ok r" by (auto simp: and_then_eq_Inr)
  obtain quantity breach where "clt_reasons mid = clt_reasons acc @ option_reason (lot_rejection p (cl_instrument_id leg) quantity)
        @ reason_if breach ''POSITION_LIMIT_OR_SHORT_SELL_EXCEEDED''
        @ reason_if (conflicts_with_working_order s (cl_instrument_id leg) (cl_side leg)) ''SELF_TRADE_RISK''"
    using step unfolding combo_leg_step_def Let_def and_then_eq_Inr by auto
  then have "''APPROVED'' \<notin> set (clt_reasons mid) \<longleftrightarrow> ''APPROVED'' \<notin> set (clt_reasons acc)"
    by (simp add: own_reasons_codes)
  with Cons.IH [OF loop] show ?case by simp
qed simp

lemma combo_figures_legs:
  assumes "combo_figures instant p s i m at = Ok f"
  shows "try_fold (combo_leg_step p s i m) (co_legs i) \<lparr>clt_reasons = [], clt_largest_quantity = ZERO,
       clt_widest_deviation = ZERO, clt_every_leg_reduces = True, clt_evidence = []\<rparr> = Ok (cfg_legs f)"
  using assms unfolding combo_figures_def and_then_eq_Inr by auto

lemma own_combo_reasons_empty:
  assumes "combo_figures instant p s i m at = Ok f" "realized_loss (cfg_realized_pnl f) = Ok loss"
    and "paper_policy_validate p = Ok ()"
  shows "own_combo_reasons p s i f loss = [] \<longleftrightarrow>
     ks_combo_rejection_reasons (pd_kill_switches s) i = [] \<and> combo_tick_rejections p i = []
     \<and> (\<forall>leg\<in>set (co_legs i). leg_within_rules p s i leg)
     \<and> clt_largest_quantity (cfg_legs f) \<le> ppo_max_order_quantity p \<and> cfg_gross_notional f \<le> ppo_max_order_notional p
     \<and> clt_widest_deviation (cfg_legs f) \<le> ppo_max_price_deviation_bps p
     \<and> cfg_recent f < ppo_max_order_rate p \<and> \<not> has_unknown_order s \<and> unexplained_incident_count s = 0
     \<and> working_order_count s < ppo_max_open_orders p \<and> cfg_net_debit f \<le> cfg_available_cash f
     \<and> - scaled (cfg_realized_pnl f) \<le> scaled (ppo_max_realized_loss p)"
proof -
  have legs: "clt_reasons (cfg_legs f) = [] \<longleftrightarrow> (\<forall>leg\<in>set (co_legs i). leg_within_rules p s i leg)"
    using combo_legs_rules [OF combo_figures_legs [OF assms(1)] assms(3)] by simp
  have loss: "loss > ppo_max_realized_loss p \<longleftrightarrow> \<not> - scaled (cfg_realized_pnl f) \<le> scaled (ppo_max_realized_loss p)"
    by (rule realized_loss_within [OF assms(2) paper_policy_bounds(3) [OF assms(3)]])
  show ?thesis
    unfolding own_combo_reasons_def append_is_Nil_conv reason_if_Nil loss legs not_less not_le not_gr_zero by simp
qed

lemma own_combo_codes:
  assumes "combo_figures instant p s i m at = Ok f"
  shows "''APPROVED'' \<notin> set (own_combo_reasons p s i f loss)"
  using combo_leg_codes [OF combo_figures_legs [OF assms]]
  by (simp add: own_combo_reasons_def own_reasons_codes)

lemma set_dedup_sort: "dedup (sort xs) = [] \<longleftrightarrow> xs = []" "set (dedup (sort xs)) = set xs" for xs :: "string list"
  by (simp_all flip: set_empty)

lemma and_then_OkE:
  assumes "and_then r f = Ok y"
  obtains x where "r = Ok x" "f x = Ok y"
  using assms by (auto simp: and_then_eq_Inr)

lemma combo_decision_eq_Ok:
  assumes "combo_decision instant u s i m at equity = Ok d"
  obtains f loss added limits where "combo_figures instant (pu_policy u) s i m at = Ok f"
    "realized_loss (cfg_realized_pnl f) = Ok loss" "combo_aggregate instant u s i m at equity f = Ok (added, limits)"
    "rd_approved d \<longleftrightarrow> own_combo_reasons (pu_policy u) s i f loss @ added = []"
    "rd_reason_codes d = approval (dedup (sort (own_combo_reasons (pu_policy u) s i f loss @ added)))"
proof -
  let ?p = "pu_policy u"
  note run = assms [unfolded combo_decision_def Let_def]
  obtain f where f: "combo_figures instant ?p s i m at = Ok f" using run by (elim and_then_OkE)
  note run = run [unfolded f and_then_Inr]
  obtain loss where loss: "realized_loss (cfg_realized_pnl f) = Ok loss" using run by (elim and_then_OkE)
  note run = run [unfolded loss and_then_Inr]
  obtain added limits where added: "combo_aggregate instant u s i m at equity f = Ok (added, limits)"
    using run by (elim and_then_OkE) auto
  note run = run [unfolded added and_then_Inr prod.case]
  obtain oldest where oldest: "oldest_observed_at m = Ok oldest" using run by (elim and_then_OkE)
  note run = run [unfolded oldest and_then_Inr sum.inject]
  show ?thesis
    by (rule that [OF f loss added]) (simp_all only: run [symmetric] risk_decision.select_convs set_dedup_sort)
qed

lemma combo_decision_approves:
  assumes "combo_decision instant u s i m at equity = Ok d" "paper_policy_validate (pu_policy u) = Ok ()"
  obtains f where "combo_figures instant (pu_policy u) s i m at = Ok f"
    "rd_approved d \<longleftrightarrow> combo_within_rules instant u s i m at f" "rd_approved d \<longleftrightarrow> rd_reason_codes d = [''APPROVED'']"
proof -
  obtain f loss added limits where f: "combo_figures instant (pu_policy u) s i m at = Ok f"
    and loss: "realized_loss (cfg_realized_pnl f) = Ok loss"
    and added: "combo_aggregate instant u s i m at equity f = Ok (added, limits)"
    and approved: "rd_approved d \<longleftrightarrow> own_combo_reasons (pu_policy u) s i f loss @ added = []"
    and codes: "rd_reason_codes d = approval (dedup (sort (own_combo_reasons (pu_policy u) s i f loss @ added)))"
    by (rule combo_decision_eq_Ok [OF assms(1)])
  note own = own_combo_reasons_empty [OF f loss assms(2)]
  have "(\<forall>leg\<in>set (co_legs i). leg_within_rules (pu_policy u) s i leg) \<Longrightarrow>
      added = [] \<longleftrightarrow> aggregate_permits instant u s at
         (\<lambda>c. try_map (combo_candidate (pu_account u) c i m) (co_legs i)) (Ok (clt_every_leg_reduces (cfg_legs f)))"
    using added unfolding combo_aggregate_def
    by (intro aggregate_reasons_permit) (auto dest!: combo_candidates_side simp: leg_within_rules_def Let_def)
  then have "rd_approved d \<longleftrightarrow> combo_within_rules instant u s i m at f"
    unfolding approved append_is_Nil_conv own combo_within_rules_def Let_def by blast
  moreover have "''APPROVED'' \<notin> set (dedup (sort (own_combo_reasons (pu_policy u) s i f loss @ added)))"
    using aggregate_reasons_codes [OF added [unfolded combo_aggregate_def]] own_combo_codes [OF f]
    by (simp only: set_dedup_sort set_append Un_iff simp_thms)
  then have "rd_approved d \<longleftrightarrow> rd_reason_codes d = [''APPROVED'']"
    using approval_explained [of "dedup (sort (own_combo_reasons (pu_policy u) s i f loss @ added))"]
    by (simp only: approved codes set_dedup_sort(1) simp_thms)
  ultimately show ?thesis using f that by blast
qed


text \<open>C12: An approved combination keeps every position it touches inside the configured bounds whatever
  happens next: its legs are on different instruments, and if the position of a leg is inside the bounds
  now, it is inside them for every part of that leg and of every working order and combination leg in the
  instrument that may fill.\<close>

theorem approved_combo_keeps_positions:
  assumes "evaluate_combo_risk rfc instant u i m at s = (Ok d, t)" "rd_approved d"
    and "paper_policy_validate (pu_policy u) = Ok ()"
    and "leg \<in> set (co_legs i)" "j = cl_instrument_id leg"
    and "- short_bound (pu_policy u) \<le> scaled (held_quantity s j)"
    and "held_quantity s j \<le> ppo_max_position_quantity (pu_policy u)"
    and "0 \<le> filled" "filled \<le> scaled (co_combo_quantity i) * int (cl_ratio leg)"
    and "0 \<le> bought" "bought \<le> working_units s j Buy" "0 \<le> sold" "sold \<le> working_units s j Sell"
  shows "distinct (map cl_instrument_id (co_legs i))
    \<and> (let after_fills = scaled (held_quantity s j) + side_sign (cl_side leg) * filled + bought - sold in
       - short_bound (pu_policy u) \<le> after_fills \<and> after_fills \<le> scaled (ppo_max_position_quantity (pu_policy u)))"
proof -
  obtain equity where d: "combo_decision instant u t i m at equity = Ok d" and same: "same_service s t"
    and "check_combo_request rfc instant u i m at = Ok ()"
    by (rule evaluate_combo_risk_ok [OF assms(1)])
  then have "combo_intent_validate rfc i = Ok ()" by (auto simp: check_combo_request_def and_then_eq_Inr)
  then have apart: "distinct (map cl_instrument_id (co_legs i))" by (rule combo_intent_validate_Ok(3))
  obtain f where "combo_within_rules instant u t i m at f"
    using combo_decision_approves [OF d assms(3)] assms(2) by metis
  with assms(4) have leg: "leg_within_rules (pu_policy u) t i leg" by (simp add: combo_within_rules_def Let_def)
  note core = same_service_core [OF same]
  from leg assms(5) obtain quantity where quantity: "combo_leg_quantity i leg = Ok quantity"
    and alone: "\<not> conflicts_with_working_order s j (cl_side leg)"
    and low: "- short_bound (pu_policy u) \<le> scaled (held_quantity s j) + side_sign (cl_side leg) * scaled quantity
          + working_units s j Buy - working_units s j Sell"
    and high: "scaled (held_quantity s j) + side_sign (cl_side leg) * scaled quantity
          + working_units s j Buy - working_units s j Sell \<le> scaled (ppo_max_position_quantity (pu_policy u))"
    by (auto simp: leg_within_rules_def Let_def core)
  note part = assms(9) [folded combo_leg_quantity_scaled [OF quantity]]
  have held: "scaled (held_quantity s j) \<le> scaled (ppo_max_position_quantity (pu_policy u))"
    using assms(7) by (simp add: decimal_cmp)
  show ?thesis
  proof (cases "cl_side leg")
    case Buy
    with alone have "working_units s j Sell = 0" by (intro no_conflict_units [of s j Buy]) simp_all
    with Buy assms(6,8,10-13) part low high held apart show ?thesis by (simp add: Let_def side_sign_def)
  next
    case Sell
    with alone have "working_units s j Buy = 0" by (intro no_conflict_units [of s j Sell]) simp_all
    with Sell assms(6,8,10-13) part low high held apart show ?thesis by (simp add: Let_def side_sign_def)
  qed
qed

definition sample_pair :: combo_intent where
  "sample_pair = sample_combo\<lparr>co_account_id := ''acct'', co_legs :=
     [\<lparr>cl_instrument_id = ''x'', cl_side = Buy, cl_ratio = 1, cl_limit_price = Decimal 500000000\<rparr>,
      \<lparr>cl_instrument_id = ''y'', cl_side = Buy, cl_ratio = 2, cl_limit_price = Decimal 200000000\<rparr>],
     co_combo_quantity := Decimal 100000000, co_price_limit := MaximumDebit (Decimal 1000000000)\<rparr>"

definition sample_pair_marks :: paper_combo_market_data where
  "sample_pair_marks = [\<lparr>pm_instrument_id = ''x'', pm_mark_price = Decimal 500000000, pm_observed_at = ''2026-01-31T23:59:59Z''\<rparr>,
     \<lparr>pm_instrument_id = ''y'', pm_mark_price = Decimal 200000000, pm_observed_at = ''2026-01-31T23:59:59Z''\<rparr>]"

definition pair_gate :: paper_setup where
  "pair_gate = sample_gate\<lparr>pu_policy := (pu_policy sample_gate)\<lparr>
     ppo_instrument_tick_sizes := [(''x'', Decimal 1000000), (''y'', Decimal 1000000)],
     ppo_instrument_lot_sizes := [(''x'', Decimal 100000000), (''y'', Decimal 100000000)]\<rparr>\<rparr>"

lemma pair_gate_valid: "paper_policy_validate (pu_policy pair_gate) = Ok ()"
  by (simp add: pair_gate_def sample_gate_def paper_policy_validate_def sample_paper_policy_def paper_limits_invalid_def
      increments_invalid_def unpaired_instrument_def validate_canonical_id_def is_id_byte_def byte_simps risk_arith
      from_integer_def)

lemma sample_pair_validates: "combo_intent_validate (\<lambda>_. True) sample_pair = Ok ()"
  by (simp add: combo_intent_validate_def sample_pair_def sample_combo_def sample_timestamp result_simps
      canonical_id_def is_id_byte_def is_ascii_lowercase_def combo_leg_count_ok_def combo_check_leg_def
      validate_canonical_id_def validate_utc_timestamp_def combo_ratio_ok_def protected_net_price_def
      combo_leg_net_def signed_add_def checked_mul_def checked_add_def checked_sub_def from_integer_def
      i128_checked_def in_i128_def DECIMAL_SCALE_def sdiv_nonneg_eq_div)

lemma sample_pair_checked:
  "check_combo_request (\<lambda>_. True) (\<lambda>_. Some 0) pair_gate sample_pair sample_pair_marks ''2026-01-31T23:59:59Z'' = Ok ()"
proof -
  have "validate_utc_timestamp (\<lambda>_. True) k ''2026-01-31T23:59:59Z'' = Ok ()" for k
    by (simp add: validate_utc_timestamp_def sample_timestamp)
  moreover have "combo_market_validate_for (\<lambda>_. True) sample_pair sample_pair_marks = Ok ()"
    by (simp add: combo_market_validate_for_def sample_pair_def sample_pair_marks_def paper_market_validate_def
        mark_for_def validate_canonical_id_def is_id_byte_def byte_simps risk_arith calculation)
  moreover have "scaled (co_combo_quantity sample_pair) smod DECIMAL_SCALE = 0"
    by (simp add: sample_pair_def DECIMAL_SCALE_def)
  ultimately show ?thesis
    using sample_pair_validates
    by (simp add: check_combo_request_def pair_gate_def sample_gate_def sample_setup_def sample_pair_def sample_pair_marks_def
        oldest_observed_at_def parse_instant_def observation_is_stale_def
        whole_seconds_def sample_paper_policy_def Let_def)
qed


lemma sample_pair_evaluated:
  "\<exists>d t. evaluate_combo_risk (\<lambda>_. True) (\<lambda>_. Some 0) pair_gate sample_pair sample_pair_marks ''2026-01-31T23:59:59Z'' sample_quiet = (Ok d, t)
     \<and> rd_approved d"
proof -
  define s where "s = start_day ''2026-01-31T23:59:59Z'' (Decimal 100000000000)
    (raise_peak (Decimal 100000000000) (pd_marks_update (bt_insert ''y'' (Decimal 200000000))
      (pd_marks_update (bt_insert ''x'' (Decimal 500000000)) sample_quiet)))"
  have same: "same_service sample_quiet s"
    unfolding s_def
    by (rule same_service_trans [OF same_service_trans [OF same_service_trans [OF observations_same_service(2,2)]
          observations_same_service(3)] observations_same_service(4)])
  have "core s = core sample_quiet" using same by (simp add: same_service_def)
  note eq = core_eq [OF this]
  have more: "pd_kill_switches s = \<lparr>ksr_version = ''k1'', ksr_active = []\<rparr>" "pd_incidents s = []"
    using same by (simp_all add: same_service_def)
  have legs: "\<exists>r. try_fold (combo_leg_step (pu_policy pair_gate) s sample_pair sample_pair_marks) (co_legs sample_pair)
      \<lparr>clt_reasons = [], clt_largest_quantity = ZERO, clt_widest_deviation = ZERO, clt_every_leg_reduces = True, clt_evidence = []\<rparr> = Ok r
     \<and> clt_reasons r = [] \<and> clt_largest_quantity r = Decimal 200000000 \<and> clt_widest_deviation r = ZERO"
    by (simp add: combo_leg_step_def sample_pair_def sample_pair_marks_def leg_market_def mark_for_def ok_or_def
        combo_leg_quantity_def price_deviation_bps_def projected_leg_delta_def working_position_delta_def working_quantity_def
        conflicts_with_working_order_def reduces_open_position_def working_reduction_def reduces_position_with_working_def reduces_position_def breaches_position_limit_def lot_rejection_def
        eq held_quantity_def pair_gate_def sample_gate_def sample_paper_policy_def risk_arith from_integer_def decimal_cmp Let_def
        reason_if_def option_reason_def)
  have f: "\<exists>f. combo_figures (\<lambda>_. Some 0) (pu_policy pair_gate) s sample_pair sample_pair_marks ''2026-01-31T23:59:59Z'' = Ok f
     \<and> cfg_gross_notional f = Decimal 900000000 \<and> clt_widest_deviation (cfg_legs f) = ZERO
     \<and> clt_reasons (cfg_legs f) = [] \<and> clt_largest_quantity (cfg_legs f) = Decimal 200000000
     \<and> cfg_recent f = 0 \<and> cfg_available_cash f = Decimal 100000000000 \<and> cfg_net_debit f = Decimal 900000000
     \<and> cfg_realized_pnl f = ZERO"
    using legs
    by (auto simp: Let_def combo_figures_def total_realized_pnl_def total_reserved_cash_def eq sample_combo_def
        recent_order_count_def parse_instant_def rate_window_start_def window_seconds_def combo_gross_notional_def
        combo_leg_quantity_def protected_net_price_def combo_leg_net_def signed_add_def sdiv_nonneg_eq_div
        sample_pair_def pair_gate_def sample_gate_def sample_paper_policy_def risk_arith from_integer_def decimal_cmp)
  then obtain f where f: "combo_figures (\<lambda>_. Some 0) (pu_policy pair_gate) s sample_pair sample_pair_marks ''2026-01-31T23:59:59Z'' = Ok f"
    "cfg_gross_notional f = Decimal 900000000" "clt_widest_deviation (cfg_legs f) = ZERO"
    "clt_reasons (cfg_legs f) = []" "clt_largest_quantity (cfg_legs f) = Decimal 200000000"
    "cfg_recent f = 0" "cfg_available_cash f = Decimal 100000000000" "cfg_net_debit f = Decimal 900000000"
    "cfg_realized_pnl f = ZERO" by blast
  have "own_combo_reasons (pu_policy pair_gate) s sample_pair f ZERO = []"
    by (simp add: own_combo_reasons_def f more eq pair_gate_def sample_gate_def sample_paper_policy_def sample_pair_def
        ks_combo_rejection_reasons_def reasons_for_def combo_tick_rejections_def finest_tick_def
        map_filter_simps tick_rejection_def
        has_unknown_order_def unexplained_incident_count_def working_order_count_def decimal_cmp bs_contains_def)
  then have "\<exists>d. combo_decision (\<lambda>_. Some 0) pair_gate s sample_pair sample_pair_marks ''2026-01-31T23:59:59Z'' (Decimal 100000000000) = Ok d \<and> rd_approved d"
    using f by (simp add: combo_decision_def Let_def realized_loss_def decimal_cmp oldest_observed_at_def sample_pair_marks_def
        combo_aggregate_def pair_gate_def sample_gate_def sample_paper_policy_def)
  then obtain d where d: "combo_decision (\<lambda>_. Some 0) pair_gate s sample_pair sample_pair_marks ''2026-01-31T23:59:59Z''
      (Decimal 100000000000) = Ok d" "rd_approved d" by blast
  define t where "t = pd_marks_update (bt_insert ''y'' (Decimal 200000000))
      (pd_marks_update (bt_insert ''x'' (Decimal 500000000)) sample_quiet)"
  have marks: "op_each (\<lambda>x. observe_mark (pm_instrument_id x) (pm_mark_price x)) sample_pair_marks sample_quiet = (Ok (), t)"
    by (simp add: observe_mark_def sample_pair_marks_def t_def)
  have equity: "observe_equity ''2026-01-31T23:59:59Z'' t = (Ok (Decimal 100000000000), s)"
    by (simp add: observe_equity_def current_equity_def s_def t_def)
  have "evaluate_combo_risk (\<lambda>_. True) (\<lambda>_. Some 0) pair_gate sample_pair sample_pair_marks ''2026-01-31T23:59:59Z'' sample_quiet = (Ok d, s)"
    by (simp add: evaluate_combo_risk_def sample_pair_checked marks equity d)
  with d(2) show ?thesis by blast
qed

theorem approved_combo_keeps_positions_witness:
  "- short_bound (pu_policy pair_gate) \<le> scaled (held_quantity sample_quiet ''y'') + 150000000
    \<and> scaled (held_quantity sample_quiet ''y'') + 150000000 \<le> scaled (ppo_max_position_quantity (pu_policy pair_gate))"
proof -
  obtain d t where run: "evaluate_combo_risk (\<lambda>_. True) (\<lambda>_. Some 0) pair_gate sample_pair sample_pair_marks
      ''2026-01-31T23:59:59Z'' sample_quiet = (Ok d, t)"
    "rd_approved d" using sample_pair_evaluated by blast
  obtain leg where leg: "leg \<in> set (co_legs sample_pair)" "''y'' = cl_instrument_id leg" "cl_side leg = Buy"
    "scaled (co_combo_quantity sample_pair) * int (cl_ratio leg) = 200000000"
    by (rule that [of "co_legs sample_pair ! 1"]) (simp_all add: sample_pair_def)
  have held: "held_quantity sample_quiet ''y'' = ZERO" by (simp add: held_quantity_def)
  have bounds: "short_bound (pu_policy pair_gate) = 0" "ppo_max_position_quantity (pu_policy pair_gate) = Decimal 5000000000"
    by (simp_all add: short_bound_def pair_gate_def sample_gate_def sample_paper_policy_def)
  have idle: "working_units sample_quiet ''y'' side = 0" for side by (simp add: working_units_def)
  show ?thesis
    using approved_combo_keeps_positions [OF run pair_gate_valid leg(1,2), of 150000000 0 0]
    by (simp add: leg(3,4) held bounds idle decimal_cmp side_sign_def Let_def)
qed

end
