(* ===== verification/PaperSubmit.thy ===== *)
theory PaperSubmit
  imports PaperRiskLaws
begin

text \<open>
  Component: submission (\<^verbatim>\<open>core/paper/src/service/submit.rs\<close>): validation, the idempotent retry,
  the route's capabilities, the risk gate, the move to \<^verbatim>\<open>PENDING_SUBMIT\<close> that is journaled before the
  adapter is asked, and the record of its answer; for single orders and for combinations.
\<close>

section \<open>What both kinds of order share\<close>

record paper_submit_outcome =
  pso_decision :: risk_decision
  pso_order_id :: "string option"
  pso_state :: "order_state option"

definition ensure_broker_ready_for_submission :: "'b paper_env \<Rightarrow> ('b paper_service, unit) op" where
  "ensure_broker_ready_for_submission e =
     op_bind (op_get (\<lambda>s. s)) (\<lambda>s.
     op_bind (op_check (pd_broker_connected s)
       ''paper broker session is disconnected; reconnect and reconcile before submission'') (\<lambda>_.
     op_check (\<not> (br_requires_clean_reconciliation (en_broker e) (sv_broker s) \<and> pd_last_reconciliation_clean s \<noteq> Some True))
       ''paper broker account requires a clean reconciliation before submission''))"

definition ensure_route_carries :: "'b paper_env \<Rightarrow> time_in_force \<Rightarrow> bool \<Rightarrow> ('b paper_service, unit) op" where
  "ensure_route_carries e tif combination =
     op_bind (op_get (\<lambda>s. br_capabilities (en_broker e) (sv_broker s) (account_of e))) (\<lambda>answer.
     op_bind (op_lift answer) (\<lambda>capabilities.
     op_bind (op_check (combination \<longrightarrow> bc_combinations capabilities)
       ''the configured paper broker route cannot execute combinations; nothing was recorded or transmitted'') (\<lambda>_.
     op_check (tif = GoodTilCancelled \<longrightarrow> bc_good_til_cancelled capabilities)
       ''the configured paper broker route carries only DAY orders; the GTC intent was refused before anything was recorded or transmitted'')))"

definition check_submitter :: "string \<Rightarrow> string option \<Rightarrow> unit result" where
  "check_submitter name submitted_by = (case submitted_by of None \<Rightarrow> Ok () | Some operator \<Rightarrow> validate_canonical_id name operator)"

section \<open>A single order\<close>

definition check_intent_submission ::
    "'b paper_env \<Rightarrow> order_intent \<Rightarrow> paper_market_data \<Rightarrow> string \<Rightarrow> string option \<Rightarrow> ('b paper_service, unit) op" where
  "check_intent_submission e i m decided_at submitted_by =
     op_bind ensure_persistence_healthy (\<lambda>_.
     op_bind (op_lift (check_submitter ''paper order submitted_by'' submitted_by)) (\<lambda>_.
     op_bind (op_lift (order_intent_validate (en_rfc3339 e) i)) (\<lambda>_.
     op_bind (op_lift (validate_utc_timestamp (en_rfc3339 e) ''paper risk decision time'' decided_at)) (\<lambda>_.
     op_bind (op_lift (paper_market_validate (en_rfc3339 e) m)) (\<lambda>_.
     op_bind (op_check (oi_environment i = ''PAPER'') ''paper OMS refuses an intent outside the PAPER environment'') (\<lambda>_.
     op_bind (op_check (oi_account_id i = account_of e) ''paper intent account does not match service'') (\<lambda>_.
     op_bind (ensure_broker_ready_for_submission e) (\<lambda>_.
     op_bind (op_check (pm_instrument_id m = oi_instrument_id i)
       ''paper market observation instrument does not match intent'') (\<lambda>_.
     op_bind (op_lift (parse_instant (en_instant e) (pm_observed_at m))) (\<lambda>observed.
     op_bind (op_lift (parse_instant (en_instant e) decided_at)) (\<lambda>decided.
     op_check (\<not> observation_is_stale (pu_policy (en_setup e)) observed decided)
       ''paper market observation is stale or later than the risk decision'')))))))))))"

text \<open>A retry is answered from what was recorded, and only if it is the same request.\<close>

definition recorded_submission ::
    "paper_order \<Rightarrow> order_intent \<Rightarrow> paper_market_data \<Rightarrow> string \<Rightarrow> string option \<Rightarrow> ('b paper_service, paper_submit_outcome) op" where
  "recorded_submission existing i m decided_at submitted_by =
     op_bind (op_check (oo_intent (por_oms existing) = i)
       ''paper order idempotency key was reused with different intent data'') (\<lambda>_.
     op_bind (op_get (\<lambda>s. ok_or (bt_get (pd_risk_evidence s) (''paper-risk-'' @ oi_intent_id i))
       ''existing paper order is missing its risk evidence'')) (\<lambda>found.
     op_bind (op_lift found) (\<lambda>evidence.
     op_bind (op_check (pre_market evidence = m \<and> rd_decided_at (pre_decision evidence) = decided_at)
       ''paper order retry must use the original market observation and decision time'') (\<lambda>_.
     op_bind (op_check (pre_submitted_by evidence = submitted_by)
       ''paper order retry must come from the original submitter'') (\<lambda>_.
     op_return \<lparr>pso_decision = pre_decision evidence, pso_order_id = Some (''order-'' @ oi_intent_id i),
       pso_state = Some (por_state existing)\<rparr>)))))"

definition approved_oms_order :: "order_intent \<Rightarrow> risk_decision \<Rightarrow> oms_order result" where
  "approved_oms_order i d =
     and_then (oms_from_approved_intent i d) (\<lambda>o1.
     case op_bind (\<lambda>x. oms_transition x Approved ''PAPER_RISK_APPROVED'') (\<lambda>_ x.
            oms_transition x PendingSubmit ''PAPER_SUBMISSION_REQUESTED'') o1 of
       (Inl err, _) \<Rightarrow> Inl err | (Inr _, o2) \<Rightarrow> Ok o2)"

definition note_order_evidence :: "paper_risk_evidence \<Rightarrow> ('b paper_service, unit) op" where
  "note_order_evidence evidence =
     op_modify (pd_risk_evidence_update (bt_insert (rd_decision_id (pre_decision evidence)) evidence))"

definition submission_acknowledged :: "string \<Rightarrow> (paper_order, order_state) op" where
  "submission_acknowledged broker_order_id =
     op_bind (order_transition Submitted ''PAPER_SUBMISSION_SENT'') (\<lambda>_.
     op_bind (order_transition Acknowledged ''IBKR_PAPER_ACKNOWLEDGED'') (\<lambda>_.
     op_bind (op_modify (\<lambda>o1. o1\<lparr>por_broker_order_id := Some broker_order_id,
       por_broker_order_versions := por_broker_order_versions o1 @ [broker_order_id]\<rparr>)) (\<lambda>_.
     op_get por_state)))"

definition submission_rejected :: "string \<Rightarrow> (paper_order, order_state) op" where
  "submission_rejected reason =
     op_bind (order_transition Submitted ''PAPER_SUBMISSION_SENT'') (\<lambda>_.
     op_bind (order_transition Rejected reason) (\<lambda>_. op_get por_state))"

definition record_submission_answer :: "string \<Rightarrow> broker_submit_result \<Rightarrow> ('b paper_service, order_state) op" where
  "record_submission_answer cid answer = (case answer of
     SubmitAcknowledged broker_order_id \<Rightarrow>
       op_bind (op_lift (validate_canonical_id ''broker order_id'' broker_order_id)) (\<lambda>_.
       on_order cid (submission_acknowledged broker_order_id))
   | SubmitRejected reason \<Rightarrow>
       op_bind (op_lift (validate_broker_reason ''broker rejection reason'' reason)) (\<lambda>_.
       on_order cid (submission_rejected reason))
   | SubmitUnknown reason \<Rightarrow>
       op_bind (op_lift (validate_broker_reason ''broker unknown-outcome reason'' reason)) (\<lambda>_.
       op_bind (on_order cid (order_transition Unknown reason)) (\<lambda>_. op_return Unknown)))"

definition transmit_order :: "'b paper_env \<Rightarrow> risk_decision \<Rightarrow> broker_order_request \<Rightarrow> ('b paper_service, paper_submit_outcome) op" where
  "transmit_order e d request =
     op_bind (op_catch (ask_broker (br_submit (en_broker e) request)) (\<lambda>err.
       op_bind (on_order (br_client_order_id request) (order_transition Unknown ''PAPER_TRANSPORT_OUTCOME_UNKNOWN'')) (\<lambda>_.
       lose_session e err))) (\<lambda>answer.
     op_bind (record_submission_answer (br_client_order_id request) answer) (\<lambda>state.
     op_bind (persist e) (\<lambda>_.
     op_return \<lparr>pso_decision = d, pso_order_id = Some (br_client_order_id request), pso_state = Some state\<rparr>)))"

definition record_pending_order :: "paper_market_data \<Rightarrow> oms_order \<Rightarrow> ('b paper_service, unit) op" where
  "record_pending_order m oms = op_modify (pv_orders_update (bt_insert (oo_order_id oms)
     \<lparr>por_oms = oms, por_broker_order_id = None, por_broker_order_versions = [], por_replace_return_state = None,
      por_filled_quantity = ZERO, por_market = m\<rparr>))"

definition submit_new_intent ::
    "'b paper_env \<Rightarrow> order_intent \<Rightarrow> paper_market_data \<Rightarrow> string \<Rightarrow> string option \<Rightarrow> ('b paper_service, paper_submit_outcome) op" where
  "submit_new_intent e i m decided_at submitted_by =
     op_bind (ensure_route_carries e (oi_time_in_force i) False) (\<lambda>_.
     op_bind (evaluate_risk (en_instant e) (en_setup e) i m decided_at) (\<lambda>d.
     let evidence = \<lparr>pre_intent = i, pre_decision = d, pre_market = m, pre_submitted_by = submitted_by\<rparr> in
     if \<not> rd_approved d
     then op_bind (note_order_evidence evidence) (\<lambda>_.
       op_bind (persist e) (\<lambda>_.
       op_return \<lparr>pso_decision = d, pso_order_id = None, pso_state = None\<rparr>))
     else op_bind (op_lift (approved_oms_order i d)) (\<lambda>oms.
       op_bind (record_pending_order m oms) (\<lambda>_.
       op_bind (note_order_evidence evidence) (\<lambda>_.
       op_bind (persist e) (\<lambda>_.
       transmit_order e d (broker_order_request_from oms)))))))"

definition submit_intent_as ::
    "'b paper_env \<Rightarrow> order_intent \<Rightarrow> paper_market_data \<Rightarrow> string \<Rightarrow> string option \<Rightarrow> ('b paper_service, paper_submit_outcome) op" where
  "submit_intent_as e i m decided_at submitted_by =
     op_bind (check_intent_submission e i m decided_at submitted_by) (\<lambda>_.
     op_bind (op_get (\<lambda>s. bt_get (pv_orders s) (''order-'' @ oi_intent_id i))) (\<lambda>existing.
     case existing of Some o1 \<Rightarrow> recorded_submission o1 i m decided_at submitted_by
     | None \<Rightarrow> submit_new_intent e i m decided_at submitted_by))"

definition submit_intent ::
    "'b paper_env \<Rightarrow> order_intent \<Rightarrow> paper_market_data \<Rightarrow> string \<Rightarrow> ('b paper_service, paper_submit_outcome) op" where
  "submit_intent e i m decided_at = submit_intent_as e i m decided_at None"

section \<open>A combination\<close>

definition check_combo_submission ::
    "'b paper_env \<Rightarrow> combo_intent \<Rightarrow> paper_combo_market_data \<Rightarrow> string \<Rightarrow> string option \<Rightarrow> ('b paper_service, unit) op" where
  "check_combo_submission e i m decided_at submitted_by =
     op_bind ensure_persistence_healthy (\<lambda>_.
     op_bind (op_lift (check_submitter ''paper combo submitted_by'' submitted_by)) (\<lambda>_.
     op_bind (op_lift (combo_intent_validate (en_rfc3339 e) i)) (\<lambda>_.
     op_bind (op_lift (validate_utc_timestamp (en_rfc3339 e) ''paper combo risk decision time'' decided_at)) (\<lambda>_.
     op_bind (op_lift (combo_market_validate_for (en_rfc3339 e) i m)) (\<lambda>_.
     op_bind (op_check (co_environment i = ''PAPER'') ''paper OMS refuses a combination outside the PAPER environment'') (\<lambda>_.
     op_bind (op_check (co_account_id i = account_of e) ''paper combo intent account does not match service'') (\<lambda>_.
     ensure_broker_ready_for_submission e)))))))"

definition recorded_combo_submission ::
    "paper_combo_order \<Rightarrow> combo_intent \<Rightarrow> paper_combo_market_data \<Rightarrow> string \<Rightarrow> string option
     \<Rightarrow> ('b paper_service, paper_submit_outcome) op" where
  "recorded_combo_submission existing i m decided_at submitted_by =
     op_bind (op_check (pco_intent existing = i)
       ''paper combination idempotency key was reused with different intent data'') (\<lambda>_.
     op_bind (op_get (\<lambda>s. ok_or (bt_get (pd_combo_risk_evidence s) (''paper-combo-risk-'' @ co_intent_id i))
       ''existing paper combination order is missing its risk evidence'')) (\<lambda>found.
     op_bind (op_lift found) (\<lambda>evidence.
     op_bind (op_check (pce_market evidence = m \<and> rd_decided_at (pce_decision evidence) = decided_at)
       ''paper combination retry must use the original market observation and decision time'') (\<lambda>_.
     op_bind (op_check (pce_submitted_by evidence = submitted_by)
       ''paper combination retry must come from the original submitter'') (\<lambda>_.
     op_return \<lparr>pso_decision = pce_decision evidence, pso_order_id = Some (combo_order_id_for (co_intent_id i)),
       pso_state = Some (pco_state existing)\<rparr>)))))"

definition approved_oms_combo :: "combo_intent \<Rightarrow> risk_decision \<Rightarrow> oms_combo_order result" where
  "approved_oms_combo i d =
     and_then (oms_combo_from_approved_intent i d) (\<lambda>o1.
     case op_bind (\<lambda>x. oms_combo_transition x Approved ''PAPER_COMBO_RISK_APPROVED'') (\<lambda>_ x.
            oms_combo_transition x PendingSubmit ''PAPER_COMBO_SUBMISSION_REQUESTED'') o1 of
       (Inl err, _) \<Rightarrow> Inl err | (Inr _, o2) \<Rightarrow> Ok o2)"

definition note_combo_evidence :: "paper_combo_risk_evidence \<Rightarrow> ('b paper_service, unit) op" where
  "note_combo_evidence evidence =
     op_modify (pd_combo_risk_evidence_update (bt_insert (rd_decision_id (pce_decision evidence)) evidence))"

definition combo_submission_acknowledged :: "string \<Rightarrow> (paper_combo_order, order_state) op" where
  "combo_submission_acknowledged broker_order_id =
     op_bind (combo_transition Submitted ''PAPER_COMBO_SUBMISSION_SENT'') (\<lambda>_.
     op_bind (combo_transition Acknowledged ''IBKR_PAPER_COMBO_ACKNOWLEDGED'') (\<lambda>_.
     op_bind (op_modify (\<lambda>c. c\<lparr>pco_broker_order_id := Some broker_order_id,
       pco_broker_order_versions := pco_broker_order_versions c @ [broker_order_id]\<rparr>)) (\<lambda>_.
     op_get pco_state)))"

definition combo_submission_rejected :: "string \<Rightarrow> (paper_combo_order, order_state) op" where
  "combo_submission_rejected reason =
     op_bind (combo_transition Submitted ''PAPER_COMBO_SUBMISSION_SENT'') (\<lambda>_.
     op_bind (combo_transition Rejected reason) (\<lambda>_. op_get pco_state))"

definition record_combo_answer :: "string \<Rightarrow> broker_submit_result \<Rightarrow> ('b paper_service, order_state) op" where
  "record_combo_answer cid answer = (case answer of
     SubmitAcknowledged broker_order_id \<Rightarrow>
       op_bind (op_lift (validate_canonical_id ''broker order_id'' broker_order_id)) (\<lambda>_.
       on_combo cid (combo_submission_acknowledged broker_order_id))
   | SubmitRejected reason \<Rightarrow>
       op_bind (op_lift (validate_broker_reason ''broker rejection reason'' reason)) (\<lambda>_.
       on_combo cid (combo_submission_rejected reason))
   | SubmitUnknown reason \<Rightarrow>
       op_bind (op_lift (validate_broker_reason ''broker unknown-outcome reason'' reason)) (\<lambda>_.
       op_bind (on_combo cid (combo_transition Unknown reason)) (\<lambda>_. op_return Unknown)))"

definition transmit_combo :: "'b paper_env \<Rightarrow> risk_decision \<Rightarrow> broker_combo_request \<Rightarrow> ('b paper_service, paper_submit_outcome) op" where
  "transmit_combo e d request =
     op_bind (op_catch (ask_broker (br_submit_combo (en_broker e) request)) (\<lambda>err.
       op_bind (on_combo (bcr_client_order_id request) (combo_transition Unknown ''PAPER_COMBO_TRANSPORT_OUTCOME_UNKNOWN'')) (\<lambda>_.
       lose_session e err))) (\<lambda>answer.
     op_bind (record_combo_answer (bcr_client_order_id request) answer) (\<lambda>state.
     op_bind (persist e) (\<lambda>_.
     op_return \<lparr>pso_decision = d, pso_order_id = Some (bcr_client_order_id request), pso_state = Some state\<rparr>)))"

definition record_pending_combo :: "paper_combo_market_data \<Rightarrow> oms_combo_order \<Rightarrow> ('b paper_service, unit) op" where
  "record_pending_combo m oms = op_modify (pv_combo_orders_update (bt_insert (ooc_order_id oms)
     \<lparr>pco_oms = oms, pco_broker_order_id = None, pco_broker_order_versions = [], pco_market = m,
      pco_filled_quantity = ZERO, pco_executions = [], pco_evidence_error = None\<rparr>))"

definition submit_new_combo ::
    "'b paper_env \<Rightarrow> combo_intent \<Rightarrow> paper_combo_market_data \<Rightarrow> string \<Rightarrow> string option \<Rightarrow> ('b paper_service, paper_submit_outcome) op" where
  "submit_new_combo e i m decided_at submitted_by =
     op_bind (ensure_route_carries e (co_time_in_force i) True) (\<lambda>_.
     op_bind (evaluate_combo_risk (en_rfc3339 e) (en_instant e) (en_setup e) i m decided_at) (\<lambda>d.
     let evidence = \<lparr>pce_intent = i, pce_decision = d, pce_market = m, pce_submitted_by = submitted_by\<rparr> in
     if \<not> rd_approved d
     then op_bind (note_combo_evidence evidence) (\<lambda>_.
       op_bind (persist e) (\<lambda>_.
       op_return \<lparr>pso_decision = d, pso_order_id = None, pso_state = None\<rparr>))
     else op_bind (op_lift (approved_oms_combo i d)) (\<lambda>oms.
       op_bind (op_lift (broker_combo_request_from oms)) (\<lambda>request.
       op_bind (record_pending_combo m oms) (\<lambda>_.
       op_bind (note_combo_evidence evidence) (\<lambda>_.
       op_bind (persist e) (\<lambda>_.
       transmit_combo e d request)))))))"

definition submit_combo_intent_as ::
    "'b paper_env \<Rightarrow> combo_intent \<Rightarrow> paper_combo_market_data \<Rightarrow> string \<Rightarrow> string option \<Rightarrow> ('b paper_service, paper_submit_outcome) op" where
  "submit_combo_intent_as e i m decided_at submitted_by =
     op_bind (check_combo_submission e i m decided_at submitted_by) (\<lambda>_.
     op_bind (op_get (\<lambda>s. bt_get (pv_combo_orders s) (combo_order_id_for (co_intent_id i)))) (\<lambda>existing.
     case existing of Some c \<Rightarrow> recorded_combo_submission c i m decided_at submitted_by
     | None \<Rightarrow> submit_new_combo e i m decided_at submitted_by))"

definition submit_combo_intent ::
    "'b paper_env \<Rightarrow> combo_intent \<Rightarrow> paper_combo_market_data \<Rightarrow> string \<Rightarrow> ('b paper_service, paper_submit_outcome) op" where
  "submit_combo_intent e i m decided_at = submit_combo_intent_as e i m decided_at None"

end
