(* ===== verification/PaperSubmitLaws.thy ===== *)
theory PaperSubmitLaws
  imports PaperSubmit
begin

text \<open>
  Laws of submission: the order is \<^verbatim>\<open>PENDING_SUBMIT\<close> in the journal, with its approval, before the
  adapter is asked; a repeated submission is answered from the record and changes nothing; and in every
  state the service can reach, each order it holds rests on an approved decision about that very intent.
\<close>

section \<open>What the steps before the command leave alone\<close>

lemma op_check_eq: "op_check b m s = (r, t) \<longleftrightarrow> t = s \<and> r = (if b then Ok () else Err m)"
  by (auto simp: op_check_def)

definition op_reads :: "('s, 'a) op \<Rightarrow> bool" where
  "op_reads m \<longleftrightarrow> (\<forall>s. snd (m s) = s)"

lemma op_readsD: "op_reads m \<Longrightarrow> m s = (r, t) \<Longrightarrow> t = s"
  by (auto simp: op_reads_def dest: spec [of _ s])

named_theorems op_reads_intros "methods that only read"

lemma op_reads_basic [op_reads_intros]:
  "op_reads (op_return x)" "op_reads (op_lift r)" "op_reads (op_get g)" "op_reads (op_check b m)"
  "op_reads ensure_persistence_healthy"
  by (simp_all add: op_reads_def op_check_def ensure_persistence_healthy_def)

lemma op_reads_bind [op_reads_intros]: "op_reads m \<Longrightarrow> (\<And>x. op_reads (f x)) \<Longrightarrow> op_reads (op_bind m f)"
  unfolding op_reads_def op_bind_def by (auto split: prod.splits sum.splits) (metis snd_conv)+

lemma op_reads_checks [op_reads_intros]:
  "op_reads (ensure_route_carries e tif combination)" "op_reads (ensure_broker_ready_for_submission e)"
  "op_reads (check_intent_submission e i m at by)" "op_reads (check_combo_submission e c cm at by)"
  "op_reads (recorded_submission o1 i m at by)" "op_reads (recorded_combo_submission c1 c cm at by)"
  unfolding ensure_route_carries_def ensure_broker_ready_for_submission_def check_intent_submission_def
    check_combo_submission_def recorded_submission_def recorded_combo_submission_def
  by (intro op_reads_intros)+

lemma same_service_frames:
  assumes "same_service s t"
  shows "sv_broker t = sv_broker s" "sv_journal t = sv_journal s" "sv_persistence_healthy t = sv_persistence_healthy s"
  using assms by (cases s; cases t; simp add: same_service_def)+

lemma same_service_same: "op_keeps (same_service s) m \<Longrightarrow> m s = (r, t) \<Longrightarrow> same_service s t"
  by (erule op_keepsD) (rule observations_same_service)

section \<open>The adapter is asked last\<close>

lemma keeps_broker_basic [op_keeps_intros]:
  "op_keeps (\<lambda>s. sv_broker s = b) (note_order_evidence x)" "op_keeps (\<lambda>s. sv_broker s = b) (note_combo_evidence y)"
  "op_keeps (\<lambda>s. sv_broker s = b) (record_pending_order m oms)" "op_keeps (\<lambda>s. sv_broker s = b) (record_pending_combo cm coms)"
  "op_keeps (\<lambda>s. sv_broker s = b) (record_submission_answer cid answer)"
  "op_keeps (\<lambda>s. sv_broker s = b) (record_combo_answer cid answer)"
  by (auto simp: note_order_evidence_def note_combo_evidence_def record_pending_order_def record_pending_combo_def
      record_submission_answer_def record_combo_answer_def split: broker_submit_result.split intro!: op_keeps_intros)

lemma ask_then_rest:
  assumes "op_bind (op_catch (ask_broker m) h) f s = (r, t)"
    "\<And>err b. op_keeps (\<lambda>s. sv_broker s = b) (h err)" "\<And>x b. op_keeps (\<lambda>s. sv_broker s = b) (f x)"
  shows "sv_broker t = snd (m (sv_broker s))"
  using assms(1)
proof (cases rule: op_bind_elim)
  case (stop err)
  then show ?thesis using ask_then_settle assms(2) by metis
next
  case (go x u)
  then have "sv_broker u = snd (m (sv_broker s))" using ask_then_settle assms(2) by metis
  with op_keepsD [OF assms(3) _ go(2)] show ?thesis by blast
qed

lemma transmit_order_asks:
  "transmit_order e d request s = (r, t) \<Longrightarrow> sv_broker t = snd (br_submit (en_broker e) request (sv_broker s))"
  unfolding transmit_order_def by (rule ask_then_rest, assumption) (intro op_keeps_intros)+

lemma transmit_combo_asks:
  "transmit_combo e d request s = (r, t) \<Longrightarrow> sv_broker t = snd (br_submit_combo (en_broker e) request (sv_broker s))"
  unfolding transmit_combo_def by (rule ask_then_rest, assumption) (intro op_keeps_intros)+

lemma approved_oms_order_Ok:
  "approved_oms_order i d = Ok oms \<longleftrightarrow> rd_approved d \<and> rd_intent_id d = oi_intent_id i
     \<and> oms = \<lparr>oo_order_id = ''order-'' @ oi_intent_id i, oo_intent = i, oo_state = PendingSubmit\<rparr>"
  by (auto simp: approved_oms_order_def oms_from_approved_intent_def oms_transition_def op_bind_def and_then_def)

lemma approved_oms_combo_Ok:
  "approved_oms_combo i d = Ok oms \<longleftrightarrow> rd_approved d \<and> rd_intent_id d = co_intent_id i
     \<and> oms = \<lparr>ooc_order_id = combo_order_id_for (co_intent_id i), ooc_intent = i, ooc_state = PendingSubmit\<rparr>"
  by (auto simp: approved_oms_combo_def oms_combo_from_approved_intent_def oms_combo_transition_def op_bind_def and_then_def)

lemma decision_identity:
  assumes "evaluate_risk instant u i m at s = (Ok d, t)"
  shows "rd_decision_id d = ''paper-risk-'' @ oi_intent_id i" "rd_intent_id d = oi_intent_id i" "rd_decided_at d = at"
proof -
  obtain equity where "order_decision instant u t i m at equity = Ok d" by (rule evaluate_risk_ok [OF assms])
  then show "rd_decision_id d = ''paper-risk-'' @ oi_intent_id i" "rd_intent_id d = oi_intent_id i" "rd_decided_at d = at"
    by (auto simp: order_decision_def and_then_eq_Inr Let_def)
qed

text \<open>The ways a new submission can go.\<close>

definition pending_order :: "order_intent \<Rightarrow> paper_market_data \<Rightarrow> paper_order" where
  "pending_order i m = \<lparr>por_oms = \<lparr>oo_order_id = ''order-'' @ oi_intent_id i, oo_intent = i, oo_state = PendingSubmit\<rparr>,
     por_broker_order_id = None, por_broker_order_versions = [], por_replace_return_state = None,
     por_filled_quantity = ZERO, por_market = m\<rparr>"

definition with_evidence :: "paper_risk_evidence \<Rightarrow> 'z paper_durable_scheme \<Rightarrow> 'z paper_durable_scheme" where
  "with_evidence x = pd_risk_evidence_update (bt_insert (''paper-risk-'' @ oi_intent_id (pre_intent x)) x)"

definition with_order :: "paper_risk_evidence \<Rightarrow> 'z paper_durable_scheme \<Rightarrow> 'z paper_durable_scheme" where
  "with_order x s = with_evidence x (pv_orders_update
     (bt_insert (''order-'' @ oi_intent_id (pre_intent x)) (pending_order (pre_intent x) (pre_market x))) s)"

lemma submit_new_intent_cases:
  assumes "submit_new_intent e i m at by s = (r, t)"
  obtains (unrecorded) "same_service s t" "\<not> is_ok r"
  | (refused) d u where "same_service s u" "\<not> rd_approved d" "evaluate_risk (en_instant e) (en_setup e) i m at s = (Ok d, u)"
      "op_bind (persist e) (\<lambda>_. op_return \<lparr>pso_decision = d, pso_order_id = None, pso_state = None\<rparr>)
         (with_evidence \<lparr>pre_intent = i, pre_decision = d, pre_market = m, pre_submitted_by = by\<rparr> u) = (r, t)"
  | (approved) d u where "same_service s u" "rd_approved d" "evaluate_risk (en_instant e) (en_setup e) i m at s = (Ok d, u)"
      "op_bind (persist e) (\<lambda>_. transmit_order e d (broker_order_request_from (por_oms (pending_order i m))))
         (with_order \<lparr>pre_intent = i, pre_decision = d, pre_market = m, pre_submitted_by = by\<rparr> u) = (r, t)"
proof -
  from assms [unfolded submit_new_intent_def] show ?thesis
  proof (cases rule: op_bind_elim)
    case (stop err)
    then have "t = s" using op_readsD [OF op_reads_checks(1)] by blast
    with stop show ?thesis by (intro unrecorded) (simp_all add: observations_same_service)
  next
    case (go x s')
    then have [simp]: "s' = s" using op_readsD [OF op_reads_checks(1)] by blast
    from go(2) show ?thesis
    proof (cases rule: op_bind_elim)
      case (stop err)
      with same_service_same [OF evaluate_risk_same] show ?thesis by (intro unrecorded) auto
    next
      case (go d u)
      then have eval: "evaluate_risk (en_instant e) (en_setup e) i m at s = (Ok d, u)" by simp
      note same = same_service_same [OF evaluate_risk_same eval]
      note identity = decision_identity [OF eval]
      show ?thesis
      proof (cases "rd_approved d")
        case False
        with go(2) show ?thesis
          by (intro refused [OF same False eval]) (simp add: Let_def note_order_evidence_def with_evidence_def identity)
      next
        case True
        then have oms: "approved_oms_order i d = Ok (por_oms (pending_order i m))"
          by (simp add: approved_oms_order_Ok identity pending_order_def)
        from go(2) True oms show ?thesis
          by (intro approved [OF same True eval])
            (simp add: Let_def note_order_evidence_def record_pending_order_def with_evidence_def with_order_def identity
              pending_order_def)
      qed
    qed
  qed
qed


definition order_evidence :: "order_intent \<Rightarrow> risk_decision \<Rightarrow> paper_market_data \<Rightarrow> string option \<Rightarrow> paper_risk_evidence" where
  "order_evidence i d m by = \<lparr>pre_intent = i, pre_decision = d, pre_market = m, pre_submitted_by = by\<rparr>"

lemma persist_then:
  assumes "op_bind (persist e) f s = (r, t)"
  obtains (stop) err where "persist e s = (Inl err, t)" "r = Inl err"
  | (go) u where "persist e s = (Ok (), u)" "f () u = (r, t)" "synced e u" "paper_durable.truncate u = paper_durable.truncate s"
      "sv_broker u = sv_broker s" "core u = core s" "sv_persistence_healthy u = sv_persistence_healthy s"
  using assms
proof (cases rule: op_bind_elim)
  case (go x u)
  with that(2) persist_frames [OF go(1)] show ?thesis by (cases x) auto
qed (rule that(1))

lemma bt_insert_get [simp]: "bt_get (bt_insert k v m) k = Some v"
  by (simp add: bt_get_insert)

lemma with_order_simps [simp]:
  "sv_broker (with_order x s) = sv_broker s" "sv_journal (with_order x s) = sv_journal s"
  "sv_persistence_healthy (with_order x s) = sv_persistence_healthy s"
  "pv_orders (with_order x u) = bt_insert (''order-'' @ oi_intent_id (pre_intent x)) (pending_order (pre_intent x) (pre_market x)) (pv_orders u)"
  "pd_risk_evidence (with_order x u) = bt_insert (''paper-risk-'' @ oi_intent_id (pre_intent x)) x (pd_risk_evidence u)"
  by (simp_all add: with_order_def with_evidence_def)

lemma with_evidence_simps [simp]:
  "sv_broker (with_evidence x s) = sv_broker s" "sv_journal (with_evidence x s) = sv_journal s"
  "sv_persistence_healthy (with_evidence x s) = sv_persistence_healthy s" "core (with_evidence x u) = core u"
  "pd_risk_evidence (with_evidence x u) = bt_insert (''paper-risk-'' @ oi_intent_id (pre_intent x)) x (pd_risk_evidence u)"
  by (simp_all add: with_evidence_def core_def paper_state.truncate_def)

lemma truncate_evidence:
  "paper_durable.truncate t = paper_durable.truncate s \<Longrightarrow> pd_risk_evidence t = pd_risk_evidence s"
  "paper_durable.truncate t = paper_durable.truncate s \<Longrightarrow> pd_combo_risk_evidence t = pd_combo_risk_evidence s"
  "paper_durable.truncate t = paper_durable.truncate s \<Longrightarrow> pd_broker_connected t = pd_broker_connected s"
  by (simp_all add: paper_durable.truncate_def)

lemma submission_answer_grows [op_keeps_intros]: "op_keeps (journal_grows x) (record_submission_answer cid answer)"
  unfolding record_submission_answer_def by (cases answer) (auto intro!: op_keeps_intros)

lemma transmit_order_grows: "op_keeps (journal_grows x) (transmit_order e d request)"
  unfolding transmit_order_def by (intro op_keeps_intros keeps_journal_catch)

lemma with_order_placed:
  "bt_get (pv_orders (with_order (order_evidence i d m by) u)) (''order-'' @ oi_intent_id i) = Some (pending_order i m)"
  "bt_get (pd_risk_evidence (with_order (order_evidence i d m by) u)) (''paper-risk-'' @ oi_intent_id i)
     = Some (order_evidence i d m by)"
  by (simp_all add: order_evidence_def)

lemma submit_reaches_new:
  assumes "submit_intent_as e i m at by s = (r, t)" "t \<noteq> s"
  shows "submit_new_intent e i m at by s = (r, t)" "bt_get (pv_orders s) (''order-'' @ oi_intent_id i) = None"
  using assms unfolding submit_intent_as_def
  by (auto elim!: op_bind_elim dest!: op_readsD [OF op_reads_checks(3)] op_readsD [OF op_reads_checks(5)]
      split: option.splits)

text \<open>C3: The adapter is given a new order only after the journal has it: this very run of the gate approved
  the intent, the first write to the file was complete, and its record is that of the state the run was in with
  the order in \<^verbatim>\<open>PENDING_SUBMIT\<close> and the approval beside it. Whatever the adapter answers and wherever the disk
  fails; so when that write fails, the adapter is not asked.\<close>

theorem submission_journaled_first:
  assumes "submit_intent_as e i m at by s = (r, t)" "sv_broker t \<noteq> sv_broker s"
  shows "\<exists>d u. evaluate_risk (en_instant e) (en_setup e) i m at s = (Ok d, u) \<and> rd_approved d \<and> same_service s u
    \<and> bt_get (pv_orders s) (''order-'' @ oi_intent_id i) = None
    \<and> bt_get (pv_orders (with_order (order_evidence i d m by) u)) (''order-'' @ oi_intent_id i) = Some (pending_order i m)
    \<and> bt_get (pd_risk_evidence (with_order (order_evidence i d m by) u)) (''paper-risk-'' @ oi_intent_id i)
        = Some (order_evidence i d m by)
    \<and> journaled_first e s (with_order (order_evidence i d m by) u) t
    \<and> sv_broker t = snd (br_submit (en_broker e) (broker_order_request_from (por_oms (pending_order i m))) (sv_broker s))"
proof -
  have "t \<noteq> s" using assms(2) by blast
  note new = submit_reaches_new [OF assms(1) this]
  from new(1) show ?thesis
  proof (cases rule: submit_new_intent_cases)
    case unrecorded
    with assms(2) show ?thesis by (simp add: same_service_frames)
  next
    case (refused d u)
    have "sv_broker t = sv_broker u"
      using refused(4) by (cases rule: persist_then) (auto dest: persist_frames(2))
    with assms(2) same_service_frames(1) [OF refused(1)] show ?thesis by simp
  next
    case (approved d u)
    note same = same_service_frames [OF approved(1)]
    from approved(4) [folded order_evidence_def] show ?thesis
    proof (cases rule: persist_then)
      case (stop err)
      with persist_frames(2) [OF stop(1)] same(1) assms(2) show ?thesis by simp
    next
      case (go mid)
      have "journaled_first e s (with_order (order_evidence i d m by) u) t"
        by (rule persisted_first [OF go(1) _ op_keepsD [OF transmit_order_grows journal_grows_refl go(2)]])
          (simp add: same(2))
      moreover have "sv_broker mid = sv_broker s" using go(5) same(1) by simp
      ultimately show ?thesis
        using transmit_order_asks [OF go(2)] approved(1-3) new(2) with_order_placed by metis
    qed
  qed
qed


definition sample_desk_env :: "nat paper_env" where
  "sample_desk_env = (sample_env WriteComplete)\<lparr>en_setup := sample_gate\<rparr>"

definition sample_desk :: "nat paper_service" where
  "sample_desk = paper_durable.extend sample_quiet
     (paper_service.fields 0 (Some \<lparr>jn_contents = [], jn_attempts = 0, jn_next_sequence = 1,
       jn_previous_hash = [], jn_latest = None\<rparr>) True)"

lemma sample_desk_simps [simp]:
  "core sample_desk = core sample_quiet" "pd_kill_switches sample_desk = \<lparr>ksr_version = ''k1'', ksr_active = []\<rparr>"
  "pd_incidents sample_desk = []" "pd_broker_connected sample_desk" "sv_persistence_healthy sample_desk" "sv_broker sample_desk = 0"
  "pv_orders sample_desk = []"
  by (simp_all add: sample_desk_def sample_quiet_def paper_durable.extend_def paper_service.fields_def durable_new_def
      core_def paper_state.truncate_def)

text \<open>Any desk with this configuration, an adapter that carries every order, and a disk that works.\<close>

definition working_desk :: "nat paper_env \<Rightarrow> bool" where
  "working_desk e \<longleftrightarrow> en_setup e = sample_gate \<and> en_rfc3339 e = (\<lambda>_. True) \<and> en_instant e = (\<lambda>_. Some 0)
     \<and> (\<forall>b. \<not> br_requires_clean_reconciliation (en_broker e) b)
     \<and> br_capabilities (en_broker e) = (\<lambda>_ _. Ok \<lparr>bc_combinations = True, bc_good_til_cancelled = True, bc_replacement = True\<rparr>)
     \<and> (\<forall>s. \<exists>v. persist e s = (Ok (), v))"

lemma sample_desk_persists:
  "en_codec e = sample_codec_any \<Longrightarrow> en_disk e = (\<lambda>_. WriteComplete) \<Longrightarrow> \<exists>v. persist e s = (Ok (), v)"
  by (auto simp: persist_def journal_append_def next_record_def record_hash_def sample_codec_any_def Let_def split: option.split)

lemma sample_desk_works: "working_desk sample_desk_env"
  unfolding working_desk_def
  by (intro conjI allI sample_desk_persists) (simp_all add: sample_desk_env_def sample_env_def sample_broker_def)

lemma sample_desk_checked:
  assumes "working_desk e" "sv_persistence_healthy s" "pd_broker_connected s"
  shows "check_intent_submission e sample_buy sample_mark ''2026-01-31T23:59:59Z'' None s = (Ok (), s)"
proof -
  have time: "validate_utc_timestamp (\<lambda>_. True) k ''2026-01-31T23:59:59Z'' = Ok ()" for k
    by (simp add: validate_utc_timestamp_def sample_timestamp)
  have market: "paper_market_validate (\<lambda>_. True) sample_mark = Ok ()"
    by (simp add: paper_market_validate_def sample_mark_def time validate_canonical_id_def is_id_byte_def byte_simps decimal_cmp)
  have intent: "order_intent_validate (\<lambda>_. True) sample_buy = Ok ()"
    by (simp add: order_intent_validate_def sample_buy_def sample_intent_def time validate_canonical_id_def is_id_byte_def
        byte_simps decimal_cmp)
  have fields: "oi_environment sample_buy = ''PAPER''" "oi_account_id sample_buy = ''acct''" "oi_instrument_id sample_buy = ''aaa''"
    "pm_instrument_id sample_mark = ''aaa''" "pm_observed_at sample_mark = ''2026-01-31T23:59:59Z''"
    by (simp_all add: sample_buy_def sample_intent_def sample_mark_def)
  have conf: "pa_account_id (pu_account sample_gate) = ''acct''"
    by (simp add: sample_gate_def sample_setup_def)
  have fresh: "observation_is_stale (pu_policy sample_gate) 0 0 = False"
    by (simp add: observation_is_stale_def whole_seconds_def sample_gate_def sample_paper_policy_def Let_def)
  show ?thesis
    using assms
    by (simp add: check_intent_submission_def ensure_persistence_healthy_def check_submitter_def intent time market fields conf fresh
        op_check_def ensure_broker_ready_for_submission_def parse_instant_def op_bind_def working_desk_def)
qed

text \<open>There the sample order passes the gate and is transmitted from a recorded state.\<close>

lemma sample_transmitted:
  assumes "working_desk e"
  obtains d v where "submit_intent_as e sample_buy sample_mark ''2026-01-31T23:59:59Z'' None sample_desk
      = transmit_order e d (broker_order_request_from (por_oms (pending_order sample_buy sample_mark))) v"
    "bt_get (pv_orders v) ''order-i'' = Some (pending_order sample_buy sample_mark)" "sv_broker v = 0"
proof -
  obtain d u where eval: "evaluate_risk (\<lambda>_. Some 0) sample_gate sample_buy sample_mark ''2026-01-31T23:59:59Z'' sample_desk = (Ok d, u)"
    "rd_approved d" using quiet_evaluated [of sample_desk] by auto
  have same: "same_service sample_desk u" by (rule same_service_same [OF evaluate_risk_same eval(1)])
  have id: "oi_intent_id sample_buy = ''i''" "oi_time_in_force sample_buy = Day" by (simp_all add: sample_buy_def sample_intent_def)
  note identity = decision_identity [OF eval(1)]
  have oms: "approved_oms_order sample_buy d = Ok (por_oms (pending_order sample_buy sample_mark))"
    using eval(2) by (simp add: approved_oms_order_Ok identity pending_order_def)
  let ?x = "order_evidence sample_buy d sample_mark None" and ?o = "pending_order sample_buy sample_mark"
  obtain v where v: "persist e (with_order ?x u) = (Ok (), v)" using assms unfolding working_desk_def by blast
  have "bt_get (pv_orders v) ''order-i'' = Some ?o" "sv_broker v = 0"
    using core_eq(6) [OF persist_frames(1) [OF v]] persist_frames(2) [OF v] same_service_frames(1) [OF same]
    by (simp_all add: order_evidence_def id)
  moreover have "ensure_route_carries e Day False sample_desk = (Ok (), sample_desk)"
    using assms by (simp add: ensure_route_carries_def working_desk_def op_check_def)
  moreover have "evaluate_risk (en_instant e) (en_setup e) sample_buy sample_mark ''2026-01-31T23:59:59Z'' sample_desk = (Ok d, u)"
    using eval(1) assms by (simp add: working_desk_def)
  ultimately have "submit_new_intent e sample_buy sample_mark ''2026-01-31T23:59:59Z'' None sample_desk
      = transmit_order e d (broker_order_request_from (por_oms ?o)) v"
    using v oms eval(2)
    by (simp add: submit_new_intent_def id op_bind_def Let_def record_pending_order_def note_order_evidence_def identity
        with_order_def with_evidence_def order_evidence_def pending_order_def)
  then have "submit_intent_as e sample_buy sample_mark ''2026-01-31T23:59:59Z'' None sample_desk
      = transmit_order e d (broker_order_request_from (por_oms ?o)) v"
    by (simp add: submit_intent_as_def sample_desk_checked [OF assms] op_bind_def)
  with \<open>bt_get (pv_orders v) ''order-i'' = Some ?o\<close> \<open>sv_broker v = 0\<close> show ?thesis by (intro that)
qed

lemma sample_submitted:
  "\<exists>out t. submit_intent_as sample_desk_env sample_buy sample_mark ''2026-01-31T23:59:59Z'' None sample_desk = (Ok out, t)
     \<and> pso_order_id out = Some ''order-i'' \<and> pso_state out = Some Acknowledged \<and> sv_broker t = 1"
proof -
  let ?o = "pending_order sample_buy sample_mark"
  obtain d v where run: "submit_intent_as sample_desk_env sample_buy sample_mark ''2026-01-31T23:59:59Z'' None sample_desk
      = transmit_order sample_desk_env d (broker_order_request_from (por_oms ?o)) v"
    and placed: "bt_get (pv_orders v) ''order-i'' = Some ?o" "sv_broker v = 0"
    by (rule sample_transmitted [OF sample_desk_works])
  have id: "oi_intent_id sample_buy = ''i''" by (simp add: sample_buy_def sample_intent_def)
  define w where "w = v\<lparr>sv_broker := 1, pv_orders := bt_insert ''order-i'' (?o\<lparr>por_oms := (por_oms ?o)\<lparr>oo_state := Acknowledged\<rparr>,
      por_broker_order_id := Some ''b1'', por_broker_order_versions := [''b1'']\<rparr>) (pv_orders v)\<rparr>"
  obtain t where t: "persist sample_desk_env w = (Ok (), t)" using sample_desk_works unfolding working_desk_def by blast
  have "validate_canonical_id ''broker order_id'' ''b1'' = Ok ()"
    by (simp add: validate_canonical_id_def is_id_byte_def byte_simps)
  then have answer: "record_submission_answer ''order-i'' (SubmitAcknowledged ''b1'') (v\<lparr>sv_broker := 1\<rparr>) = (Ok Acknowledged, w)"
    using placed by (simp add: record_submission_answer_def on_order_def submission_acknowledged_def order_transition_eq w_def
        pending_order_def id op_bind_def)
  have "transmit_order sample_desk_env d (broker_order_request_from (por_oms ?o)) v
      = (Ok \<lparr>pso_decision = d, pso_order_id = Some ''order-i'', pso_state = Some Acknowledged\<rparr>, t)"
    using answer t placed
    by (simp add: transmit_order_def op_catch_def op_on_def sample_desk_env_def sample_env_def sample_broker_def
        broker_order_request_from_def pending_order_def id op_bind_def)
  moreover have "sv_broker t = 1" using persist_frames(2) [OF t] by (simp add: w_def)
  ultimately show ?thesis by (simp add: run)
qed

theorem submission_journaled_first_witness:
  "\<exists>out t j. submit_intent_as sample_desk_env sample_buy sample_mark ''2026-01-31T23:59:59Z'' None sample_desk = (Ok out, t)
    \<and> sv_broker t = 1 \<and> sv_journal t = Some j \<and> (\<exists>rest. jn_contents j = ''{}'' @ newline # rest)"
proof -
  obtain out t where run: "submit_intent_as sample_desk_env sample_buy sample_mark ''2026-01-31T23:59:59Z'' None sample_desk
      = (Ok out, t)" "sv_broker t = 1" using sample_submitted by blast
  from run(2) have "sv_broker t \<noteq> sv_broker sample_desk" by simp
  from submission_journaled_first [OF run(1) this] obtain x where "journaled_first sample_desk_env sample_desk x t" by blast
  moreover have "jc_print (en_codec sample_desk_env) l = Ok ''{}''" for l
    by (simp add: sample_desk_env_def sample_env_def sample_codec_any_def)
  moreover have "sv_journal sample_desk = Some \<lparr>jn_contents = [], jn_attempts = 0, jn_next_sequence = 1,
       jn_previous_hash = [], jn_latest = None\<rparr>"
    by (simp add: sample_desk_def paper_durable.extend_def paper_service.fields_def)
  ultimately obtain j where "sv_journal t = Some j" "\<exists>rest. jn_contents j = ''{}'' @ newline # rest"
    unfolding journaled_first_def by auto
  with run show ?thesis by blast
qed

section \<open>The retry\<close>

text \<open>What the readiness checks and the record of a submission look at beside the order.\<close>

definition same_controls :: "'b paper_service \<Rightarrow> 'b paper_service \<Rightarrow> bool" where
  "same_controls s t \<longleftrightarrow> pd_broker_connected t = pd_broker_connected s \<and> sv_persistence_healthy t = sv_persistence_healthy s
     \<and> pd_last_reconciliation_clean t = pd_last_reconciliation_clean s"

lemma same_controls_trans: "same_controls s t \<Longrightarrow> same_controls t u \<Longrightarrow> same_controls s u"
  by (simp add: same_controls_def)

lemma persist_controls:
  assumes "persist e s = (Ok (), t)"
  shows "same_controls s t"
  using persist_frames(3,6) [OF assms] by (simp add: same_controls_def paper_durable.truncate_def)

lemma ask_or_lose:
  assumes "op_catch (ask_broker m) (\<lambda>err. op_bind (n err) (\<lambda>_. lose_session e err)) s = (Ok x, t)"
  shows "t = s\<lparr>sv_broker := snd (m (sv_broker s))\<rparr>" "m (sv_broker s) = (Ok x, sv_broker t)"
proof -
  have "\<not> op_bind (n err) (\<lambda>_. lose_session e err) u = (Ok x, t)" for err u
    using lose_session_frames(1) by (fastforce simp: op_bind_eq_Ok)
  then show "t = s\<lparr>sv_broker := snd (m (sv_broker s))\<rparr>" "m (sv_broker s) = (Ok x, sv_broker t)"
    using assms by (auto simp: op_catch_def op_on_def split: prod.splits sum.splits)
qed

lemma record_submission_answer_Ok:
  assumes "record_submission_answer cid answer s = (Ok state, t)" "bt_get (pv_orders s) cid = Some o1"
  shows "\<exists>o2. t = s\<lparr>pv_orders := bt_insert cid o2 (pv_orders s)\<rparr> \<and> same_order o1 o2 \<and> por_state o2 = state"
  using assms
  by (auto simp: record_submission_answer_def on_order_def submission_acknowledged_def submission_rejected_def op_bind_eq_Ok
      order_transition_eq same_order_def split: broker_submit_result.splits option.splits prod.splits if_splits)

lemma transmit_order_Ok:
  assumes "transmit_order e d request s = (Ok out, t)" "bt_get (pv_orders s) (br_client_order_id request) = Some o1"
  shows "\<exists>o2. bt_get (pv_orders t) (br_client_order_id request) = Some o2 \<and> same_order o1 o2 \<and> same_controls s t
    \<and> pd_risk_evidence t = pd_risk_evidence s \<and> out = \<lparr>pso_decision = d, pso_order_id = Some (br_client_order_id request), pso_state = Some (por_state o2)\<rparr>"
proof -
  obtain answer u state v where ask: "op_catch (ask_broker (br_submit (en_broker e) request)) (\<lambda>err.
       op_bind (on_order (br_client_order_id request) (order_transition Unknown ''PAPER_TRANSPORT_OUTCOME_UNKNOWN'')) (\<lambda>_.
       lose_session e err)) s = (Ok answer, u)"
    and rec: "record_submission_answer (br_client_order_id request) answer u = (Ok state, v)"
    and save: "persist e v = (Ok (), t)"
    and out: "out = \<lparr>pso_decision = d, pso_order_id = Some (br_client_order_id request), pso_state = Some state\<rparr>"
    using assms(1) by (auto simp: transmit_order_def op_bind_eq_Ok)
  note u = ask_or_lose(1) [OF ask]
  obtain o2 where o2: "v = u\<lparr>pv_orders := bt_insert (br_client_order_id request) o2 (pv_orders u)\<rparr>" "same_order o1 o2"
    "por_state o2 = state"
    using record_submission_answer_Ok [OF rec] assms(2) u by auto
  have "same_controls s v" "pd_risk_evidence v = pd_risk_evidence s" by (simp_all add: o2(1) u same_controls_def)
  with o2 out truncate_evidence(1) [OF persist_frames(3) [OF save]] core_eq(6) [OF persist_frames(1) [OF save]] same_controls_trans [OF _ persist_controls [OF save]]
  show ?thesis by simp
qed

lemma check_intent_submission_again:
  assumes "check_intent_submission e i m at by s = (Ok (), s)" "same_controls s t"
    "br_requires_clean_reconciliation (en_broker e) (sv_broker t) \<longrightarrow> pd_last_reconciliation_clean t = Some True"
  shows "check_intent_submission e i m at by t = (Ok (), t)"
  using assms
  by (auto simp: check_intent_submission_def op_bind_eq_Ok op_check_eq ensure_broker_ready_for_submission_def
      ensure_persistence_healthy_def same_controls_def split: if_splits)

text \<open>C13: A submission that placed an order can be repeated: the same request is answered with the same decision,
  order and state, and changes nothing, neither the books nor what the adapter has seen; whether or not the first
  request was itself a retry, and whatever the adapter answered.\<close>

theorem submission_retry_recorded:
  assumes "submit_intent_as e i m at by s = (Ok out, t)" "pso_order_id out \<noteq> None"
    "br_requires_clean_reconciliation (en_broker e) (sv_broker t) \<longrightarrow> pd_last_reconciliation_clean t = Some True"
  shows "submit_intent_as e i m at by t = (Ok out, t)"
proof -
  obtain u where "check_intent_submission e i m at by s = (Ok (), u)"
    using assms(1) by (auto simp: submit_intent_as_def op_bind_eq_Ok)
  moreover from this have "u = s" using op_readsD [OF op_reads_checks(3)] by blast
  ultimately have check: "check_intent_submission e i m at by s = (Ok (), s)" by simp
  show ?thesis
  proof (cases "bt_get (pv_orders s) (''order-'' @ oi_intent_id i)")
    case (Some o1)
    with assms(1) check have "recorded_submission o1 i m at by s = (Ok out, t)" by (simp add: submit_intent_as_def)
    then have "t = s" using op_readsD [OF op_reads_checks(5)] by blast
    with assms(1) show ?thesis by simp
  next
    case None
    with assms(1) check have "submit_new_intent e i m at by s = (Ok out, t)" by (simp add: submit_intent_as_def)
    then show ?thesis
    proof (cases rule: submit_new_intent_cases)
      case unrecorded
      then show ?thesis by simp
    next
      case (refused d u)
      from refused(4) assms(2) show ?thesis by (auto simp: op_bind_eq_Ok)
    next
      case (approved d u)
      let ?x = "\<lparr>pre_intent = i, pre_decision = d, pre_market = m, pre_submitted_by = by\<rparr>" and ?o = "pending_order i m"
      from approved(4) obtain v where v: "persist e (with_order ?x u) = (Ok (), v)"
        and sent: "transmit_order e d (broker_order_request_from (por_oms ?o)) v = (Ok out, t)"
        by (auto simp: op_bind_eq_Ok)
      have cid: "br_client_order_id (broker_order_request_from (por_oms ?o)) = ''order-'' @ oi_intent_id i"
        by (simp add: broker_order_request_from_def pending_order_def)
      have "bt_get (pv_orders v) (''order-'' @ oi_intent_id i) = Some ?o"
        using core_eq(6) [OF persist_frames(1) [OF v]] by simp
      from transmit_order_Ok [OF sent, unfolded cid, OF this] obtain o2 where
        o2: "bt_get (pv_orders t) (''order-'' @ oi_intent_id i) = Some o2" "same_order ?o o2" "same_controls v t"
        "pd_risk_evidence t = pd_risk_evidence v"
        and out: "out = \<lparr>pso_decision = d, pso_order_id = Some (''order-'' @ oi_intent_id i), pso_state = Some (por_state o2)\<rparr>"
        by blast
      have evidence: "bt_get (pd_risk_evidence t) (''paper-risk-'' @ oi_intent_id i) = Some ?x"
        using o2(4) truncate_evidence(1) [OF persist_frames(3) [OF v]] by simp
      have "same_controls s (with_order ?x u)"
        using approved(1) same_service_frames [OF approved(1)]
        by (simp add: same_controls_def same_service_def with_order_def with_evidence_def)
      then have "same_controls s t" using same_controls_trans persist_controls [OF v] o2(3) by blast
      note again = check_intent_submission_again [OF check this assms(3)]
      show ?thesis
        using again o2 evidence decision_identity(3) [OF approved(3)]
        by (simp add: submit_intent_as_def recorded_submission_def op_check_def ok_or_def same_order_def pending_order_def out)
    qed
  qed
qed


theorem submission_retry_recorded_witness:
  "\<exists>out t. pso_state out = Some Acknowledged \<and> sv_broker t = 1
    \<and> submit_intent_as sample_desk_env sample_buy sample_mark ''2026-01-31T23:59:59Z'' None t = (Ok out, t)"
proof -
  obtain out t where run: "submit_intent_as sample_desk_env sample_buy sample_mark ''2026-01-31T23:59:59Z'' None sample_desk
      = (Ok out, t)" "pso_order_id out = Some ''order-i''" "pso_state out = Some Acknowledged" "sv_broker t = 1"
    using sample_submitted by blast
  moreover have "\<not> br_requires_clean_reconciliation (en_broker sample_desk_env) (sv_broker t)"
    using sample_desk_works by (simp add: working_desk_def)
  ultimately show ?thesis using submission_retry_recorded [OF run(1)] by auto
qed

end
