(* ===== verification/PaperReach.thy ===== *)
theory PaperReach
  imports PaperSubmitLaws
begin

text \<open>
  The states the paper service can reach: every public method as a step of one relation, failures included,
  and what holds in each reachable state: the invariant of the books and orders, and that every order of
  either kind rests on an approved decision about its own intent.
\<close>

section \<open>Approval on record\<close>




abbreviation evidence_is :: "(string, paper_risk_evidence) btree_map \<Rightarrow> (string, paper_combo_risk_evidence) btree_map
    \<Rightarrow> 'z paper_durable_scheme \<Rightarrow> bool" where
  "evidence_is x y \<equiv> \<lambda>s. pd_risk_evidence s = x \<and> pd_combo_risk_evidence s = y"







section \<open>What keeps the evidence\<close>

lemma more_evidence:
  assumes "paper_state.more t = paper_state.more s"
  shows "evidence_is (pd_risk_evidence s) (pd_combo_risk_evidence s) t"
  using assms by (cases s; cases t; simp)

lemma keeps_evidence [op_keeps_intros]:
  "op_keeps (evidence_is x y) (persist e)" "op_keeps (evidence_is x y) ensure_persistence_healthy"
  "op_keeps (evidence_is x y) (on_order cid m)" "op_keeps (evidence_is x y) (on_combo cid n)"
  "op_keeps (evidence_is x y) (note_operation operation)" "op_keeps (evidence_is x y) (on_switches k)"
  "op_keeps (evidence_is x y) (op_check c msg)" "op_keeps (evidence_is x y) (ask_broker a)"
  "op_keeps (evidence_is x y) (adopt_report r)"
proof -
  show "op_keeps (evidence_is x y) (persist e)"
    unfolding op_keeps_def using persist_frames(3) truncate_evidence by (metis prod.collapse)
qed (auto simp: op_keeps_def ensure_persistence_healthy_def on_order_def on_combo_def note_operation_def op_check_def
    on_switches_def op_on_def adopt_report_def split: option.splits prod.splits)

lemma keeps_evidence_lose [op_keeps_intros]: "op_keeps (evidence_is x y) (lose_session e err)"
  unfolding lose_session_def by (intro op_keeps_intros) simp

lemma keeps_evidence_event:
  fixes s :: "'z paper_durable_scheme"
  assumes "apply_broker_event rfc terms ev s = (r, t)"
  shows "pd_risk_evidence t = pd_risk_evidence s" "pd_combo_risk_evidence t = pd_combo_risk_evidence s"
  using more_evidence op_keepsD [OF keeps_more_event _ assms] by blast+

lemma keeps_evidence_sync [op_keeps_intros]: "op_keeps (evidence_is x y) (sync_event e ev)"
proof -
  have tail: "op_keeps (evidence_is x y) (op_bind (note_anomaly e cid err) (\<lambda>_. op_return z))"
    "op_keeps (evidence_is x y) (op_bind (persist e) (\<lambda>_. op_return z))" for cid err and z :: "string list"
    unfolding note_anomaly_def by (intro op_keeps_intros)+
  have "evidence_is x y (snd (sync_event e ev s))" if s: "evidence_is x y s" for s
  proof -
    obtain r t where a: "apply_broker_event (en_rfc3339 e) (setup_terms (en_setup e)) ev s = (r, t)" by fastforce
    have "evidence_is x y t" "evidence_is x y (roll_back s t)" using keeps_evidence_event [OF a] s by (simp_all add: roll_back_def)
    then show ?thesis using tail by (simp add: sync_event_def a op_keeps_def split: sum.split)
  qed
  then show ?thesis unfolding op_keeps_def by blast
qed

lemma keeps_evidence_synchronize [op_keeps_intros]: "op_keeps (evidence_is x y) (synchronize e)"
proof -
  have "op_keeps (evidence_is x y) (sync_events e evs errors)" for evs errors
    by (induction evs arbitrary: errors) (auto intro!: op_keeps_intros)
  then show ?thesis unfolding synchronize_def by (intro op_keeps_intros)
qed



section \<open>Reconciling, explaining, the day gate\<close>

lemma op_follows_records [op_follows_intros]:
  "op_follows rfc (adopt_report r)" "op_follows rfc (op_modify (pd_next_reconciliation_update g))"
  "op_follows rfc (op_modify (pd_incidents_update h))" "op_follows rfc (op_modify (pd_paper_days_update k))"
  by (rule op_follows_core; simp add: core_def paper_state.truncate_def adopt_report_def)+





section \<open>Corporate actions\<close>

text \<open>A split rescales portfolio, lots, attribution and mark together, and touches no order.\<close>

lemma split_identities:
  "split_portfolio policy i aid ratio p = Ok q \<Longrightarrow> pf_instrument_id q = pf_instrument_id p"
  by (auto simp: split_portfolio_def portfolio_apply_split_def commit_def and_then_eq_Inr split: prod.splits sum.splits if_splits)

lemma split_applied_ids: "used_ids (snd (book_apply_split i ratio b)) = used_ids b"
  by (auto simp: book_apply_split_def used_ids_def split: sum.split)


definition rescaled :: "decimal \<Rightarrow> (string, decimal) btree_map \<Rightarrow> (string, decimal) btree_map result" where
  "rescaled ratio = try_map (\<lambda>(k, q). and_then (checked_mul q ratio) (\<lambda>q'. Ok (k, q')))"

lemma rescaled_keys: "rescaled ratio m = Ok m' \<Longrightarrow> map fst m' = map fst m"
  unfolding rescaled_def try_map_eq_Inr
  by (induction m m' rule: list_all2_induct) (auto simp: and_then_eq_Inr)

lemma apply_split_cases:
  assumes "apply_split policy i aid ratio s = (r, t)"
  obtains "t = s"
  | portfolio attribution mark where "try_option (split_portfolio policy i aid ratio) (bt_get (pb_portfolios s) i) = Ok portfolio"
    "try_option (rescaled ratio) (bt_get (pb_strategy_attribution s) i) = Ok attribution"
    "t = s\<lparr>pb_portfolios := put_option i portfolio (pb_portfolios s), pb_tax_lots := snd (book_apply_split i ratio (pb_tax_lots s)),
       pb_strategy_attribution := put_option i attribution (pb_strategy_attribution s), pd_marks := put_option i mark (pd_marks s)\<rparr>"
proof -
  obtain q lots where lots: "book_apply_split i ratio (pb_tax_lots s) = (q, lots)" by fastforce
  have lift: "op_bind (op_lift x) f u = (case x of Inl err \<Rightarrow> (Inl err, u) | Inr y \<Rightarrow> f y u)"
    for x :: "'x result" and f :: "'x \<Rightarrow> ('a paper_durable_scheme, unit) op" and u
    by (cases x) simp_all
  note run = assms [unfolded apply_split_def rescaled_def [symmetric]]
  show ?thesis
  proof (rule ccontr)
    assume neg: "\<not> thesis"
    then have "t \<noteq> s" using that(1) by blast
    with run have "\<exists>portfolio attribution mark. try_option (split_portfolio policy i aid ratio) (bt_get (pb_portfolios s) i) = Ok portfolio
      \<and> try_option (rescaled ratio) (bt_get (pb_strategy_attribution s) i) = Ok attribution
      \<and> t = s\<lparr>pb_portfolios := put_option i portfolio (pb_portfolios s), pb_tax_lots := lots,
         pb_strategy_attribution := put_option i attribution (pb_strategy_attribution s), pd_marks := put_option i mark (pd_marks s)\<rparr>"
      by (simp add: lots lift split: sum.splits) blast+
    with that(2) neg lots show False by auto
  qed
qed


lemma put_option_get:
  "bt_get (put_option k x m) j = Some v \<longleftrightarrow> (if j = k \<and> x \<noteq> None then x = Some v else bt_get m j = Some v)"
  by (cases x) (auto simp: put_option_def bt_get_insert)

lemma apply_split_sound:
  assumes "service_ok rfc s" "apply_split policy i aid ratio s = (r, t)"
  shows "service_ok rfc t \<and> pv_orders t = pv_orders s \<and> pv_combo_orders t = pv_combo_orders s"
  using assms(2)
proof (cases rule: apply_split_cases)
  case 1
  with assms(1) show ?thesis by simp
next
  case (2 portfolio attribution mark)
  have ok: "books_ok rfc s" using service_okD(1) [OF assms(1)] .
  have "pf_instrument_id p = j" if "bt_get (put_option i portfolio (pb_portfolios s)) j = Some p" for j p
    using that 2(1) ok split_identities
    by (auto simp: put_option_get books_ok_def try_option_def and_then_eq_Inr split: if_splits option.splits)
  moreover have "bt_sorted m" if "bt_get (put_option i attribution (pb_strategy_attribution s)) j = Some m" for j m
    using that 2(2) ok rescaled_keys
    by (auto simp: put_option_get books_ok_def bt_sorted_def try_option_def and_then_eq_Inr split: if_splits option.splits)
  moreover have "book_ok rfc (snd (book_apply_split i ratio (pb_tax_lots s)))"
    by (rule apply_split_ok) (use ok in \<open>simp add: books_ok_def\<close>)
  ultimately have "books_ok rfc t" using ok by (simp add: 2(3) books_ok_def split_applied_ids)
  then have "service_ok rfc t" by (rule service_ok_books [OF assms(1)]) (simp_all add: 2(3))
  then show ?thesis by (simp add: 2(3))
qed

text \<open>So of the orders and their evidence a corporate action changes nothing.\<close>

definition action_safe :: "(string \<Rightarrow> bool) \<Rightarrow> 'z paper_durable_scheme \<Rightarrow> 'z paper_durable_scheme \<Rightarrow> bool" where
  "action_safe rfc s t \<longleftrightarrow> (service_ok rfc s \<longrightarrow> service_ok rfc t) \<and> same_intents s t
     \<and> evidence_is (pd_risk_evidence s) (pd_combo_risk_evidence s) t"

lemma action_safe_trans: "action_safe rfc s t \<Longrightarrow> action_safe rfc t u \<Longrightarrow> action_safe rfc s u"
  by (auto simp: action_safe_def same_intents_def)

lemma action_safe_core:
  assumes "core t = core s" "evidence_is (pd_risk_evidence s) (pd_combo_risk_evidence s) t"
  shows "action_safe rfc s t"
  using assms books_follow_core [OF _ assms(1), of rfc] core_eq [OF assms(1)] by (auto simp: action_safe_def books_follow_def same_intents_def)

lemma perform_action_safe:
  assumes "perform_action policy q amount s = (r, t)"
  shows "action_safe rfc s t"
proof (cases "car_action q")
  case (SplitAction aid i at ratio)
  obtain x u where split: "apply_split policy i aid ratio s = (x, u)" by fastforce
  with assms SplitAction have "t = u" by (cases x) (simp_all add: perform_action_def)
  moreover have "evidence_is (pd_risk_evidence s) (pd_combo_risk_evidence s) u"
    using split by (cases rule: apply_split_cases) auto
  moreover have "pv_orders u = pv_orders s" "pv_combo_orders u = pv_combo_orders s"
    using split by (cases rule: apply_split_cases; simp)+
  ultimately show ?thesis using apply_split_sound [OF _ split] by (auto simp: action_safe_def same_intents_def)
next
  case (CashDividendAction aid i at per_unit)
  with assms have "t = s \<or> (\<exists>cash. t = s\<lparr>pb_cash := cash\<rparr>)"
    by (auto simp: perform_action_def elim!: op_bind_elim)
  moreover have "service_ok rfc s \<Longrightarrow> service_ok rfc (s\<lparr>pb_cash := cash\<rparr>)" for cash
    by (rule service_ok_books [of rfc s]) (simp_all add: service_ok_def books_ok_def)
  ultimately show ?thesis by (auto simp: action_safe_def same_intents_def)
qed

lemma keeps_action_safe [op_keeps_intros]:
  "op_keeps (action_safe rfc s) (persist e)" "op_keeps (action_safe rfc s) ensure_persistence_healthy"
  "op_keeps (action_safe rfc s) (perform_action policy q amount)"
  "op_keeps (action_safe rfc s) (op_modify (pd_corporate_actions_update g))"
proof -
  show "op_keeps (action_safe rfc s) (persist e)"
    unfolding op_keeps_def
    using action_safe_trans action_safe_core persist_frames(1,3) truncate_evidence by (metis prod.collapse)
  show "op_keeps (action_safe rfc s) (perform_action policy q amount)"
    unfolding op_keeps_def using action_safe_trans perform_action_safe by (metis prod.collapse)
  show "op_keeps (action_safe rfc s) (op_modify (pd_corporate_actions_update g))"
    by (rule op_keeps_modify) (erule action_safe_trans, rule action_safe_core; simp add: core_def paper_state.truncate_def)
qed (simp add: op_keeps_def ensure_persistence_healthy_def)



section \<open>The answer to a submission\<close>







section \<open>Submitting a single order\<close>









lemma submit_intent_splits:
  assumes "submit_intent_as e i m at by s = (r, t)"
  obtains "t = s" | "bt_get (pv_orders s) (''order-'' @ oi_intent_id i) = None" "submit_new_intent e i m at by s = (r, t)"
    "order_intent_validate (en_rfc3339 e) i = Ok ()"
  using assms unfolding submit_intent_as_def
proof (cases rule: op_bind_elim)
  case (stop err)
  then show ?thesis using that(1) op_readsD [OF op_reads_checks(3)] by blast
next
  case (go x u)
  let ?cid = "''order-'' @ oi_intent_id i"
  have "u = s" using go(1) op_readsD [OF op_reads_checks(3)] by blast
  moreover have "order_intent_validate (en_rfc3339 e) i = Ok ()"
    using go(1) by (cases x) (auto simp: check_intent_submission_def op_bind_eq_Ok)
  ultimately have run: "(case bt_get (pv_orders s) ?cid of Some o1 \<Rightarrow> recorded_submission o1 i m at by
      | None \<Rightarrow> submit_new_intent e i m at by) s = (r, t)" and valid: "order_intent_validate (en_rfc3339 e) i = Ok ()"
    using go(2) by simp_all
  show ?thesis
  proof (cases "bt_get (pv_orders s) ?cid")
    case None
    with run valid that(2) show ?thesis by simp
  next
    case (Some o1)
    with run have "recorded_submission o1 i m at by s = (r, t)" by simp
    with that(1) op_readsD [OF op_reads_checks(5)] show ?thesis by blast
  qed
qed



section \<open>Submitting a combination\<close>






















section \<open>Every method as a step\<close>

text \<open>A step is one call of a public method, whatever it returns, or a change of the adapter by itself.\<close>

inductive service_step :: "'b paper_env \<Rightarrow> 'b paper_service \<Rightarrow> 'b paper_service \<Rightarrow> bool" for e where
  step_submit: "submit_intent_as e i m at submitter s = (r, t) \<Longrightarrow> service_step e s t"
| step_submit_combo: "submit_combo_intent_as e c cm at submitter s = (r, t) \<Longrightarrow> service_step e s t"
| step_cancel: "cancel_order e cid s = (r, t) \<Longrightarrow> service_step e s t"
| step_cancel_as: "cancel_order_as e cid operator operated_at s = (r, t) \<Longrightarrow> service_step e s t"
| step_replace: "replace_order e cid price s = (r, t) \<Longrightarrow> service_step e s t"
| step_activate: "activate_kill_switch e scope s = (q, t) \<Longrightarrow> service_step e s t"
| step_deactivate: "deactivate_kill_switch e scope s = (q, t) \<Longrightarrow> service_step e s t"
| step_operate: "operate_kill_switch_as e scope action operator operated_at s = (q, t) \<Longrightarrow> service_step e s t"
| step_synchronize: "synchronize e s = (n, t) \<Longrightarrow> service_step e s t"
| step_reconcile: "reconcile e at s = (report, t) \<Longrightarrow> service_step e s t"
| step_reconnect: "reconnect_and_reconcile e at s = (report, t) \<Longrightarrow> service_step e s t"
| step_explain: "explain_incident e key explanation s = (x, t) \<Longrightarrow> service_step e s t"
| step_action: "apply_corporate_action e request s = (receipt, t) \<Longrightarrow> service_step e s t"
| step_session: "record_paper_session e session recent calendar s = (x, t) \<Longrightarrow> service_step e s t"
| step_broker: "service_step e s (s\<lparr>sv_broker := b\<rparr>)"



inductive_cases service_step_cases: "service_step e s t"









text \<open>C40: An acknowledgement whose broker identity is not canonical is refused after the fact: the call fails, yet the
  adapter has the order, the session stays connected and the journal keeps the order in \<^verbatim>\<open>PENDING_SUBMIT\<close>, where
  a transport error would have made it \<^verbatim>\<open>UNKNOWN\<close>.\<close>

theorem unusable_acknowledgement_strands_order:
  assumes "submit_intent_as e i m at by s = (r, t)" "sv_broker t \<noteq> sv_broker s"
    and "\<And>request b. fst (br_submit (en_broker e) request b) = Ok (SubmitAcknowledged v)" "\<not> canonical_id v"
  shows "\<not> is_ok r \<and> bt_get (pv_orders t) (''order-'' @ oi_intent_id i) = Some (pending_order i m)
    \<and> pd_broker_connected t = pd_broker_connected s \<and> synced e t"
proof -
  let ?request = "broker_order_request_from (por_oms (pending_order i m))" and ?cid = "''order-'' @ oi_intent_id i"
  from assms(1) have new: "submit_new_intent e i m at by s = (r, t)"
    by (cases rule: submit_intent_splits) (use assms(2) in auto)
  then show ?thesis
  proof (cases rule: submit_new_intent_cases)
    case unrecorded
    with assms(2) show ?thesis by (simp add: same_service_frames)
  next
    case (refused d u)
    have "sv_broker t = sv_broker u"
      using refused(4) by (cases rule: persist_then) (auto dest: persist_frames(2))
    with assms(2) same_service_frames(1) [OF refused(1)] show ?thesis by simp
  next
    case (approved d u)
    from approved(4) show ?thesis
    proof (cases rule: persist_then)
      case (stop err)
      with persist_frames(2) [OF stop(1)] same_service_frames(1) [OF approved(1)] assms(2) show ?thesis by simp
    next
      case (go mid)
      obtain b where b: "br_submit (en_broker e) ?request (sv_broker mid) = (Ok (SubmitAcknowledged v), b)"
        using assms(3) [of ?request "sv_broker mid"] by (cases "br_submit (en_broker e) ?request (sv_broker mid)") auto
      have "validate_canonical_id ''broker order_id'' v \<noteq> Ok ()" using assms(4) by (simp add: result_simps)
      then obtain err where "validate_canonical_id ''broker order_id'' v = Inl err" by (cases "validate_canonical_id ''broker order_id'' v") auto
      with go(2) b have t: "r = Inl err" "t = mid\<lparr>sv_broker := b\<rparr>"
        by (auto simp: transmit_order_def op_catch_def op_on_def record_submission_answer_def op_bind_def)
      have "bt_get (pv_orders mid) ?cid = Some (pending_order i m)" using core_eq(6) [OF go(6)] by simp
      moreover have "pd_broker_connected mid = pd_broker_connected s"
        using truncate_evidence(3) [OF go(4)] approved(1) by (simp add: same_service_def with_order_def with_evidence_def)
      moreover have "durable_text e t = durable_text e mid"
        by (rule durable_text_cong) (simp add: t paper_durable.truncate_def)
      ultimately show ?thesis using go(3) by (simp add: t synced_def)
    qed
  qed
qed


definition sample_odd_env :: "nat paper_env" where
  "sample_odd_env = sample_desk_env\<lparr>en_broker := sample_broker\<lparr>br_submit := (\<lambda>_ n. (Ok (SubmitAcknowledged ''B''), n + 1))\<rparr>\<rparr>"

lemma sample_odd_works: "working_desk sample_odd_env"
  unfolding working_desk_def
  by (intro conjI allI sample_desk_persists) (simp_all add: sample_odd_env_def sample_desk_env_def sample_env_def sample_broker_def)

theorem unusable_acknowledgement_strands_order_witness:
  "\<exists>r t. submit_intent_as sample_odd_env sample_buy sample_mark ''2026-01-31T23:59:59Z'' None sample_desk = (r, t)
    \<and> \<not> is_ok r \<and> sv_broker t = 1 \<and> bt_get (pv_orders t) ''order-i'' = Some (pending_order sample_buy sample_mark)"
proof -
  obtain r t where run: "submit_intent_as sample_odd_env sample_buy sample_mark ''2026-01-31T23:59:59Z'' None sample_desk = (r, t)"
    by fastforce
  obtain d v where sent: "submit_intent_as sample_odd_env sample_buy sample_mark ''2026-01-31T23:59:59Z'' None sample_desk
      = transmit_order sample_odd_env d (broker_order_request_from (por_oms (pending_order sample_buy sample_mark))) v"
    and v: "sv_broker v = 0" by (rule sample_transmitted [OF sample_odd_works])
  have "sv_broker t = 1" using transmit_order_asks [OF run [unfolded sent]] by (simp add: v sample_odd_env_def)
  moreover have "fst (br_submit (en_broker sample_odd_env) request b) = Ok (SubmitAcknowledged ''B'')" for request b
    by (simp add: sample_odd_env_def)
  moreover have "\<not> canonical_id ''B''" by (simp add: canonical_id_def is_id_byte_def byte_simps)
  moreover have "oi_intent_id sample_buy = ''i''" by (simp add: sample_buy_def sample_intent_def)
  ultimately show ?thesis using unusable_acknowledgement_strands_order [OF run] run by simp
qed

end
