(* ===== verification/Spec2Isabelle.thy ===== *)
theory Spec2Isabelle
  imports OrderedMap FillModel Portfolio ExecPassive ExecTactics ExecRouting ExecTca
    RiskFingerprint RiskAllocation Events TaxLotLaws RiskFx
    Aggregation PaperEventLaws PaperReach
begin

text \<open>
  A verification library for Follon, a trading kernel in Rust. The repository's core crates hold
  the decisions that must not go wrong: what an order is, who may approve it, how it moves through
  its life, what it does to the books, and how it is cut into child orders. This library models
  those decisions as HOL functions and states what makes them correct. Paths below are relative to
  \<^verbatim>\<open>src/core\<close> of the repository.

  \<^bold>\<open>Layers.\<close> The domain crate defines decimals, identities, orders, combinations and event envelopes;
  the instrument crate adds reference data and trading hours; the control plane turns an intent into a
  risk decision, an approved decision into an order with a state machine, an order and a bar into a
  simulated fill, and a fill into a portfolio change; the execution crate plans the children of an
  approved parent order and measures what they cost; the risk crate judges a candidate against the
  whole book; the accounting and foreign exchange crates keep journals, tax lots, margin and
  valuations; the paper crate composes all of them into a service that answers to a broker.

  \<^bold>\<open>Theories and the code they model.\<close>

  \<^item> \<open>Prelude\<close>, \<open>Text\<close>, \<open>OrderedMap\<close>: the Rust standard library as far as it is used: results and
    the question-mark operator (\<open>and_then\<close>, and \<open>op_bind\<close> for methods that change their receiver), loops
    with early return (\<open>try_fold\<close>, \<open>try_map\<close>, \<open>try_each\<close>), integer ranges with checked and wrapping
    arithmetic, string formatting and trimming, \<^verbatim>\<open>BTreeMap\<close> and \<^verbatim>\<open>BTreeSet\<close>. The locale \<open>ordered_map\<close>
    is the map contract.
  \<^item> \<open>DecimalArith\<close>: \<^verbatim>\<open>domain/src/decimal.rs\<close>, fixed-point numbers with eight places on
    \<^verbatim>\<open>i128\<close>. A \<open>decimal\<close> wraps the scaled integer; \<open>checked_add\<close> to \<open>checked_div\<close> fail exactly where
    the code reports overflow; division truncates.
  \<^item> \<open>Identifiers\<close>, \<open>Orders\<close>, \<open>Combos\<close>: \<^verbatim>\<open>domain/src/error.rs\<close>, \<^verbatim>\<open>order.rs\<close>, \<^verbatim>\<open>lifecycle.rs\<close>,
    \<^verbatim>\<open>market.rs\<close>, \<^verbatim>\<open>combo.rs\<close>. \<open>JsonText\<close>, \<open>Events\<close>: \<^verbatim>\<open>domain/src/events.rs\<close>, the envelopes and the
    canonical text a fingerprint is taken of.
  \<^item> \<open>Instruments\<close>: \<^verbatim>\<open>instrument/src/lib.rs\<close>, the versioned registry and the calendar of
    sessions and halts. The locale \<open>trading_calendar\<close> is the crate's trait with its provided method.
  \<^item> \<open>Oms\<close>, \<open>ReplayRisk\<close>, \<open>FillModel\<close>, \<open>Portfolio\<close>: \<^verbatim>\<open>control-plane/src/lib.rs\<close>. The locale
    \<open>order_lifecycle\<close> is what single and combination orders share; both interpret it.
  \<^item> \<open>ExecPlan\<close>, \<open>ExecSlices\<close>, \<open>ExecAlgorithms\<close>, \<open>ExecPassive\<close>, \<open>ExecTactics\<close>, \<open>ExecRouting\<close>,
    \<open>ExecTca\<close>: \<^verbatim>\<open>execution/src\<close>, file by file. The locale \<open>validated_planner\<close> is the contract of a
    planner whose last step is \<^verbatim>\<open>ExecutionPlan::validate_against\<close>; every planner interprets it. The
    locale \<open>exact_splitter\<close> is the contract of a routine that cuts a quantity into parts.
  \<^item> \<open>RiskModel\<close>, \<open>RiskAggregate\<close>, \<open>RiskBounds\<close>, \<open>RiskEvaluate\<close>, \<open>RiskFingerprint\<close>, \<open>RiskAllocation\<close>:
    \<^verbatim>\<open>risk/src\<close>, the aggregate of a book, the interval of books the working orders can lead to, the
    decision over a group of candidates, the policy with the text its fingerprint is taken of, and the
    capital proposal. \<open>RiskFx\<close> makes a candidate from a foreign exchange snapshot.
  \<^item> \<open>Ledger\<close>, \<open>TaxLots\<close>, \<open>TaxLotLaws\<close>, \<open>Margin\<close>, \<open>Aggregation\<close>: \<^verbatim>\<open>accounting/src/lib.rs\<close>. Long and
    short tax lots share their selection and splitting code through the locale \<open>lot_view\<close>, interpreted on
    both. \<open>Fx\<close>: \<^verbatim>\<open>fx/src/lib.rs\<close>.
  \<^item> \<open>PaperModel\<close>, \<open>PaperPolicy\<close>, \<open>PaperBooks\<close>, \<open>PaperOrders\<close>, \<open>PaperCombos\<close>, \<open>PaperEvents\<close>,
    \<open>PaperEventLaws\<close>: \<^verbatim>\<open>paper/src\<close>, the account with its kill switches, the risk policy and the fingerprint
    of the configuration, the books a fill enters, both kinds of orders, what broker evidence does to
    them, and the laws of that. The state grows by record extension: \<open>paper_state\<close> extends
    \<open>paper_books\<close>, so that what is proved of the books holds for the service.
  \<^item> \<open>PaperState\<close>, \<open>PaperRecords\<close>, \<open>PaperRecovery\<close>: \<^verbatim>\<open>paper/src/records.rs\<close> and
    \<^verbatim>\<open>service/persistence.rs\<close>, the durable state of a service, the textual record it is journaled as, the
    recovery with all its checks. \<open>PaperJournal\<close>: \<^verbatim>\<open>journal.rs\<close>, the hash-chained file, appended to by
    writes that may stop anywhere; the locale \<open>state_store\<close> is what the service needs of it.
  \<^item> \<open>PaperService\<close>, \<open>PaperServiceLaws\<close>: \<^verbatim>\<open>service/kill_switch.rs\<close>, \<^verbatim>\<open>orders.rs\<close> and the
    synchronization of \<^verbatim>\<open>reconcile.rs\<close>, over a broker and a journal. \<open>PaperReconcile\<close>,
    \<open>PaperReconcileLaws\<close>: the rest of \<^verbatim>\<open>reconcile.rs\<close>, \<^verbatim>\<open>corporate_actions.rs\<close>, \<^verbatim>\<open>promotion.rs\<close>.
  \<^item> \<open>PaperRisk\<close>, \<open>PaperRiskLaws\<close>: \<^verbatim>\<open>service/risk.rs\<close> and \<^verbatim>\<open>service/portfolio_risk.rs\<close>, the pre-trade gate of
    both order kinds: its figures, its own rules, the aggregate snapshot it hands to the risk crate.
    \<open>PaperSubmit\<close>, \<open>PaperSubmitLaws\<close>: \<^verbatim>\<open>service/submit.rs\<close>, from the checks over the gate and the journal
    to the adapter and its answer.
  \<^item> \<open>PaperReach\<close>: the running service as a step relation. A step is any of its public methods with any
    arguments, successful or not, or a change of the adapter; \<open>service_reachable\<close> closes the steps
    from a newly opened account, and the invariant of all components is proved by induction over it.

  \<^bold>\<open>Conventions.\<close> A struct is a record with a short field prefix, an enum a datatype, a
  \<^verbatim>\<open>Result\<close> a sum whose left side carries the message text of the source. A method with \<^verbatim>\<open>&mut self\<close>
  returns its result together with the state it leaves behind, also when it fails, because some
  methods assign before they fail. An unsigned integer is a \<open>nat\<close> and a signed one an \<open>int\<close>; each
  arithmetic operation on them is checked, saturating or wrapping as written in the code. Unchecked
  operators that cannot leave their range are written as plain arithmetic; the one that can, the
  offset of the sliced schedules, wraps as in a release build. Strings are byte strings. Loops over
  a collection are folds over the list of its elements in iteration order; the two iceberg loops and
  the nesting of the algorithm wheel are total functions with a measure, so no fuel is used anywhere.

  \<^bold>\<open>Parameters.\<close> The predicate \<open>rfc3339\<close> stands for the parser of the time crate: whether a text
  is a valid RFC 3339 instant; \<open>epoch\<close> is the instant it denotes, in seconds, and \<open>instant\<close> in nanoseconds,
  where the code subtracts timestamps; \<open>sha256_hex\<close> is the digest
  of the sha2 crate; a \<open>journal_codec\<close> is the JSON text of a record (serde_json), of which \<open>codec_ok\<close> states
  what the journal relies on: what it prints it reads back, in one line, and no proper part of it reads
  as a record; a \<open>paper_broker\<close> is the adapter. They are arguments of the functions that use them, and no property assumes
  anything about them that it does not state.

  \<^bold>\<open>What the lemmas show.\<close> Every operation has lemmas that say when it succeeds and with what
  (collected in \<open>result_simps\<close> where they are equations); operations that change state have one lemma
  each that they keep the component's invariant (\<open>op_keeps_intros\<close>, \<open>order_steps\<close>, \<open>combo_steps\<close>). On them
  rest: conservation (no plan invents or loses quantity, no fill moves a portfolio by anything but its
  signed quantity, evidence of a broker enters orders and books by the same amount and once),
  protection (no fill, route, combination or repriced child is worse than the limit the trader
  gave; approval covers every way the working orders can fill), evidence (order state changes form a
  gapless legal chain, cost reports account for each execution once, a fingerprint determines what it
  is taken of while the labels in it are canonical), order against the journal (\<open>journaled_first\<close>: the adapter
  is given an order or a cancellation only when the first write after the call put the record of that very
  state at the end of the file), recovery (every recorded state comes back exactly or is refused for one of
  three reasons, which reachable states can meet), exactness and bounds of the fixed-point arithmetic, round trips of its text, the
  refinement between the staged risk evaluations, and determinism of ordering. The development also
  proves where the code departs from its intention: a participation schedule shifted by idle windows,
  a wrapping offset, an ignored urgency, a trailing stop left half updated by an error, a router tie
  that is not broken, a tax lot book that its own snapshot does not restore, a replacement that forgets
  a partial fill, a reconciliation whose journal entry cannot be restored, an acknowledgement that
  leaves its order pending, an account opened without cash whose first record is refused, two validated
  configurations with one fingerprint, a replacement the adapter works and the journal never learns of.

  \<^bold>\<open>What is not modelled.\<close> Files, sockets, databases, processes and the libraries that render JSON and
  digests; derivative contract terms; the dashboard of the paper service and the selection of its
  adapter; and, so far, the live service, options, market data, backtests, identity and operations.
\<close>

end
